(* ===== verification/Prelude.thy ===== *)
theory Prelude
  imports Main "HOL-Library.Word" "HOL-Library.List_Lexorder" "HOL-Library.Char_ord"
begin

text \<open>
  Shared vocabulary of the development: bytes and strings, the result monad that stands
  for Rust's \<^verbatim>\<open>Result\<close> with the question-mark operator, 64-bit saturating and checked
  arithmetic, and the few list operations of the Rust standard library (windows, find,
  enumerate checks) that the components share.

  Conventions. A Rust \<^verbatim>\<open>u64\<close> is a \<^typ>\<open>nat\<close>; every operation whose result could leave
  the range is written with the saturating, checked or wrapping form the source uses.
  A Rust \<^verbatim>\<open>String\<close> is the \<^typ>\<open>string\<close> of its UTF-8 bytes, so \<^const>\<open>length\<close> is
  \<^verbatim>\<open>str::len\<close>. Fixed-size arrays and byte slices are lists of bytes; their derived
  order is the lexicographic one of List_Lexorder.
\<close>

named_theorems result_simps \<open>inversion of successful computations in the result monad\<close>
named_theorems std_simps \<open>facts about the modelled parts of the standard library\<close>

type_synonym byte = "8 word"
type_synonym bytes = "8 word list"

lemma unat_byte_of_nat [std_simps]: "n < 256 \<Longrightarrow> unat (word_of_nat n :: byte) = n"
  by (simp add: unsigned_of_nat take_bit_nat_eq_self)

lemma unat_byte_less [simp, std_simps]: "unat (b :: byte) < 256"
proof -
  have "(unsigned b :: nat) < 2 ^ LENGTH(8)" by (rule unsigned_less)
  then show ?thesis by simp
qed

subsection \<open>Results\<close>

type_synonym ('e, 'a) result = "'e + 'a"

definition bindr :: "'e + 'a \<Rightarrow> ('a \<Rightarrow> 'e + 'b) \<Rightarrow> 'e + 'b" where
  "bindr m f = (case m of Inl e \<Rightarrow> Inl e | Inr x \<Rightarrow> f x)"

definition require :: "bool \<Rightarrow> 'e \<Rightarrow> 'e + unit" where
  "require b e = (if b then Inr () else Inl e)"

definition ok_or :: "'a option \<Rightarrow> 'e \<Rightarrow> 'e + 'a" where
  "ok_or x e = (case x of None \<Rightarrow> Inl e | Some y \<Rightarrow> Inr y)"

definition map_err :: "('e \<Rightarrow> 'f) \<Rightarrow> 'e + 'a \<Rightarrow> 'f + 'a" where
  "map_err h m = (case m of Inl e \<Rightarrow> Inl (h e) | Inr x \<Rightarrow> Inr x)"

definition is_ok :: "'e + 'a \<Rightarrow> bool" where
  "is_ok m = (case m of Inl _ \<Rightarrow> False | Inr _ \<Rightarrow> True)"

definition ok :: "'e + 'a \<Rightarrow> 'a option" where
  "ok m = (case m of Inl _ \<Rightarrow> None | Inr x \<Rightarrow> Some x)"

fun collectr :: "('a \<Rightarrow> 'e + 'b) \<Rightarrow> 'a list \<Rightarrow> 'e + 'b list" where
  "collectr f [] = Inr []"
| "collectr f (x # xs) = bindr (f x) (\<lambda>y. bindr (collectr f xs) (\<lambda>ys. Inr (y # ys)))"

fun foldr_result :: "('s \<Rightarrow> 'a \<Rightarrow> 'e + 's) \<Rightarrow> 's \<Rightarrow> 'a list \<Rightarrow> 'e + 's" where
  "foldr_result f s [] = Inr s"
| "foldr_result f s (x # xs) = bindr (f s x) (\<lambda>s'. foldr_result f s' xs)"

fun check_all :: "('a \<Rightarrow> 'e + unit) \<Rightarrow> 'a list \<Rightarrow> 'e + unit" where
  "check_all f [] = Inr ()"
| "check_all f (x # xs) = bindr (f x) (\<lambda>_. check_all f xs)"

lemma bindr_Inr [simp]: "bindr (Inr x) f = f x"
  by (simp add: bindr_def)

lemma bindr_Inl [simp]: "bindr (Inl e) f = Inl e"
  by (simp add: bindr_def)

lemma bindr_eq_Inr [result_simps]: "bindr m f = Inr y \<longleftrightarrow> (\<exists>x. m = Inr x \<and> f x = Inr y)"
  by (cases m) auto

lemma bindr_eq_Inl: "bindr m f = Inl e \<longleftrightarrow> m = Inl e \<or> (\<exists>x. m = Inr x \<and> f x = Inl e)"
  by (cases m) auto

lemma ex_unit_iff: "(\<exists>x :: unit. P x) \<longleftrightarrow> P ()"
  by (metis unit.exhaust)

text \<open>An early return \<^verbatim>\<open>if b { return Err(e) }\<close> followed by the rest.\<close>

lemma guard_eq_Inr [result_simps]: "(if b then Inl e else m) = Inr y \<longleftrightarrow> \<not> b \<and> m = Inr y"
  by simp

lemma require_eq_Inr [result_simps]: "require b e = Inr u \<longleftrightarrow> b"
  by (simp add: require_def)

lemma require_simps [simp]: "require True e = Inr ()" "require False e = Inl e"
  by (simp_all add: require_def)

lemma ok_or_eq_Inr [result_simps]: "ok_or x e = Inr y \<longleftrightarrow> x = Some y"
  by (cases x) (simp_all add: ok_or_def)

lemma ok_or_simps [simp]: "ok_or (Some y) e = Inr y" "ok_or None e = Inl e"
  by (simp_all add: ok_or_def)

lemma map_err_eq_Inr [result_simps]: "map_err h m = Inr y \<longleftrightarrow> m = Inr y"
  by (cases m) (simp_all add: map_err_def)

lemma map_err_simps [simp]: "map_err h (Inr y) = Inr y" "map_err h (Inl e) = Inl (h e)"
  by (simp_all add: map_err_def)

lemma is_ok_iff [result_simps]: "is_ok m \<longleftrightarrow> (\<exists>y. m = Inr y)"
  by (cases m) (simp_all add: is_ok_def)

lemma is_ok_simps [simp]: "is_ok (Inr y)" "\<not> is_ok (Inl e)"
  by (simp_all add: is_ok_def)

lemma ok_eq_Some [result_simps]: "ok m = Some y \<longleftrightarrow> m = Inr y"
  by (cases m) (simp_all add: ok_def)

lemma ok_simps [simp]: "ok (Inr y) = Some y" "ok (Inl e) = None"
  by (simp_all add: ok_def)

lemma collectr_eq_Inr:
  "collectr f xs = Inr ys \<longleftrightarrow> list_all2 (\<lambda>x y. f x = Inr y) xs ys"
proof (induction xs arbitrary: ys)
  case Nil
  then show ?case by auto
next
  case (Cons x xs)
  then show ?case by (cases ys) (auto simp: result_simps)
qed

lemma collectr_member: "collectr f xs = Inr ys \<Longrightarrow> y \<in> set ys \<Longrightarrow> \<exists>x \<in> set xs. f x = Inr y"
  by (induction xs arbitrary: ys) (auto simp: result_simps)

lemma collectr_pure [simp]: "collectr (\<lambda>x. Inr (g x)) xs = Inr (map g xs)"
  by (induction xs) simp_all

lemma check_all_iff [result_simps]: "check_all f xs = Inr u \<longleftrightarrow> (\<forall>x \<in> set xs. f x = Inr ())"
  by (induction xs) (auto simp: result_simps)

lemma foldr_result_append:
  "foldr_result f s (xs @ ys) = bindr (foldr_result f s xs) (\<lambda>s'. foldr_result f s' ys)"
proof (induction xs arbitrary: s)
  case (Cons x xs)
  then show ?case by (cases "f s x") auto
qed simp

lemma foldr_result_invariant:
  assumes "foldr_result f s xs = Inr s'" and "P s"
    and "\<And>t x t'. x \<in> set xs \<Longrightarrow> P t \<Longrightarrow> f t x = Inr t' \<Longrightarrow> P t'"
  shows "P s'"
  using assms
proof (induction xs arbitrary: s)
  case (Cons x xs)
  then show ?case by (auto simp: result_simps)
qed simp

text \<open>
  A method of \<^verbatim>\<open>&mut self\<close> returns the state it leaves behind with its result; the
  question-mark operator keeps the changes made so far.
\<close>

definition bindst :: "'s \<times> ('e + 'a) \<Rightarrow> ('s \<Rightarrow> 'a \<Rightarrow> 's \<times> ('e + 'b)) \<Rightarrow> 's \<times> ('e + 'b)" where
  "bindst m f = (case snd m of Inl e \<Rightarrow> (fst m, Inl e) | Inr x \<Rightarrow> f (fst m) x)"

lemma bindst_simps [simp]: "bindst (s, Inl e) f = (s, Inl e)" "bindst (s, Inr x) f = f s x"
  by (simp_all add: bindst_def)

lemma bindst_cases:
  assumes "P (bindst m f)"
  obtains (err) s e where "m = (s, Inl e)" "P (s, Inl e)" | (ok) s x where "m = (s, Inr x)" "P (f s x)"
  using assms by (cases m; cases "snd m") auto

lemma bindst_invariant:
  assumes "P (fst m)" and "\<And>s x. m = (s, Inr x) \<Longrightarrow> P (fst (f s x))"
  shows "P (fst (bindst m f))"
  using assms by (cases m; cases "snd m") auto

subsection \<open>Unsigned 64-bit arithmetic\<close>

definition I64_MAX :: nat where
  "I64_MAX = 2 ^ 63 - 1"

definition U64_MAX :: nat where
  "U64_MAX = 2 ^ 64 - 1"

definition saturating_add :: "nat \<Rightarrow> nat \<Rightarrow> nat" where
  "saturating_add a b = min (a + b) U64_MAX"

definition saturating_sub :: "nat \<Rightarrow> nat \<Rightarrow> nat" where
  "saturating_sub a b = a - b"

definition checked_add :: "nat \<Rightarrow> nat \<Rightarrow> nat option" where
  "checked_add a b = (if a + b \<le> U64_MAX then Some (a + b) else None)"

definition checked_mul :: "nat \<Rightarrow> nat \<Rightarrow> nat option" where
  "checked_mul a b = (if a * b \<le> U64_MAX then Some (a * b) else None)"

definition wrapping_inc :: "nat \<Rightarrow> nat" where
  "wrapping_inc a = (a + 1) mod 2 ^ 64"

lemma checked_add_eq_Some: "checked_add a b = Some c \<longleftrightarrow> a + b \<le> U64_MAX \<and> c = a + b"
  by (auto simp: checked_add_def)

lemma checked_mul_eq_Some: "checked_mul a b = Some c \<longleftrightarrow> a * b \<le> U64_MAX \<and> c = a * b"
  by (auto simp: checked_mul_def)

lemma saturating_add_le [std_simps]: "saturating_add a b \<le> a + b"
  by (simp add: saturating_add_def)

lemma saturating_add_max [std_simps]: "saturating_add a b \<le> U64_MAX"
  by (simp add: saturating_add_def)

lemma saturating_add_ge: "a \<le> U64_MAX \<Longrightarrow> a \<le> saturating_add a b"
  by (simp add: saturating_add_def)

lemma saturating_add_gt: "a < U64_MAX \<Longrightarrow> 0 < b \<Longrightarrow> a < saturating_add a b"
  by (simp add: saturating_add_def)

lemma saturating_sub_le [std_simps]: "saturating_sub a b \<le> a"
  by (simp add: saturating_sub_def)

lemma wrapping_inc_neq [std_simps]: "wrapping_inc a \<noteq> a"
proof
  assume "wrapping_inc a = a"
  then have "(a + 1) mod 2 ^ 64 = a" by (simp add: wrapping_inc_def)
  moreover from this have "a < 2 ^ 64" by (metis mod_less_divisor zero_less_numeral zero_less_power)
  ultimately show False
    by (cases "a + 1 = 2 ^ 64") auto
qed

lemma wrapping_inc_bound: "wrapping_inc a \<le> U64_MAX"
proof -
  have "wrapping_inc a < 2 ^ 64" by (simp add: wrapping_inc_def)
  then show ?thesis by (simp add: U64_MAX_def)
qed

lemma wrapping_inc_small: "a < U64_MAX \<Longrightarrow> wrapping_inc a = a + 1"
  by (simp add: wrapping_inc_def U64_MAX_def)

subsection \<open>Slices\<close>

text \<open>\<^verbatim>\<open>xs.windows(2).all(|p| P(p[0], p[1]))\<close>\<close>

fun windows2_all :: "('a \<Rightarrow> 'a \<Rightarrow> bool) \<Rightarrow> 'a list \<Rightarrow> bool" where
  "windows2_all P (x # y # zs) = (P x y \<and> windows2_all P (y # zs))"
| "windows2_all P _ = True"

lemma windows2_all_sorted [std_simps]:
  "windows2_all (<) (xs :: 'a :: order list) \<longleftrightarrow> sorted_wrt (<) xs"
proof (induction "(<) :: 'a \<Rightarrow> 'a \<Rightarrow> bool" xs rule: windows2_all.induct)
  case (1 x y zs)
  then show ?case by (auto intro: less_trans)
qed auto

text \<open>\<^verbatim>\<open>xs.windows(2).find_map(f)\<close>\<close>

fun windows2_find_map :: "('a \<Rightarrow> 'a \<Rightarrow> 'b option) \<Rightarrow> 'a list \<Rightarrow> 'b option" where
  "windows2_find_map f (x # y # zs) =
     (case f x y of Some r \<Rightarrow> Some r | None \<Rightarrow> windows2_find_map f (y # zs))"
| "windows2_find_map f _ = None"

lemma find_eq_Some: "List.find P xs = Some x \<Longrightarrow> x \<in> set xs \<and> P x"
  by (auto simp: find_Some_iff)

lemma find_eq_None: "List.find P xs = None \<longleftrightarrow> (\<forall>x \<in> set xs. \<not> P x)"
  by (auto simp: find_None_iff)

lemma sorted_wrt_less_distinct: "sorted_wrt (<) (xs :: 'a :: order list) \<Longrightarrow> distinct xs"
  by (induction xs) auto

lemma sorted_wrt_less_unique:
  assumes "sorted_wrt (<) (xs :: 'a :: linorder list)" "sorted_wrt (<) ys" "set xs = set ys"
  shows "xs = ys"
  using assms by (simp add: strict_sorted_equal)

end
