(* ===== verification/Collections.thy ===== *)
theory Collections
  imports Prelude
begin

text \<open>
  The ordered collections of the Rust standard library as the sources use them.
  A \<^verbatim>\<open>BTreeMap\<close> is an association list whose keys are strictly increasing
  (predicate \<open>bt_wf\<close>), so that iteration, \<^verbatim>\<open>max_by_key\<close> and first-match searches
  see the entries in the order the program sees them; a \<^verbatim>\<open>BTreeSet\<close> is a strictly
  increasing list. The locale \<open>keyed_store\<close> is the interface the components rely on
  (what a lookup returns after an insertion or a removal); \<open>btree\<close> interprets it.
\<close>

subsection \<open>The interface of a keyed store\<close>

locale keyed_store =
  fixes lookup :: "'s \<Rightarrow> 'k \<Rightarrow> 'v option"
    and put :: "'k \<Rightarrow> 'v \<Rightarrow> 's \<Rightarrow> 's"
    and del :: "'k \<Rightarrow> 's \<Rightarrow> 's"
    and valid :: "'s \<Rightarrow> bool"
  assumes put_lookup: "valid s \<Longrightarrow> lookup (put k v s) k' = (if k' = k then Some v else lookup s k')"
    and del_lookup: "valid s \<Longrightarrow> lookup (del k s) k' = (if k' = k then None else lookup s k')"
    and put_valid: "valid s \<Longrightarrow> valid (put k v s)"
    and del_valid: "valid s \<Longrightarrow> valid (del k s)"
begin

lemma put_all_valid: "valid s \<Longrightarrow> valid (fold (\<lambda>x. put (key x) (val x)) xs s)"
  by (induction xs arbitrary: s) (auto simp: put_valid)

text \<open>Insertion in a loop, where every value is determined by its key.\<close>

lemma put_all_lookup:
  "valid s \<Longrightarrow>
   lookup (fold (\<lambda>x. put (key x) (f (key x))) xs s) k =
     (if k \<in> key ` set xs then Some (f k) else lookup s k)"
  by (induction xs arbitrary: s) (auto simp: put_lookup put_valid)

lemma del_all_lookup:
  "valid s \<Longrightarrow> lookup (fold del ks s) k = (if k \<in> set ks then None else lookup s k)"
  by (induction ks arbitrary: s) (auto simp: del_lookup del_valid)

lemma del_put_lookup: "valid s \<Longrightarrow> lookup (del k (put k v s)) = lookup (del k s)"
  by (auto simp: fun_eq_iff del_lookup put_lookup put_valid)

end

subsection \<open>Ordered maps\<close>

type_synonym ('k, 'v) btree_map = "('k \<times> 'v) list"

definition bt_wf :: "('k :: linorder, 'v) btree_map \<Rightarrow> bool" where
  "bt_wf m = sorted_wrt (<) (map fst m)"

definition bt_get :: "('k, 'v) btree_map \<Rightarrow> 'k \<Rightarrow> 'v option" where
  "bt_get m k = map_of m k"

fun bt_insert :: "'k :: linorder \<Rightarrow> 'v \<Rightarrow> ('k, 'v) btree_map \<Rightarrow> ('k, 'v) btree_map" where
  "bt_insert k v [] = [(k, v)]"
| "bt_insert k v ((k', v') # m) =
     (if k < k' then (k, v) # (k', v') # m
      else if k = k' then (k, v) # m
      else (k', v') # bt_insert k v m)"

definition bt_remove :: "'k \<Rightarrow> ('k, 'v) btree_map \<Rightarrow> ('k, 'v) btree_map" where
  "bt_remove k m = filter (\<lambda>e. fst e \<noteq> k) m"

definition bt_contains :: "('k, 'v) btree_map \<Rightarrow> 'k \<Rightarrow> bool" where
  "bt_contains m k = (bt_get m k \<noteq> None)"

text \<open>A write through \<^verbatim>\<open>get_mut\<close>: the value under \<open>k\<close>, if any, is replaced.\<close>

definition bt_modify :: "'k \<Rightarrow> ('v \<Rightarrow> 'v) \<Rightarrow> ('k, 'v) btree_map \<Rightarrow> ('k, 'v) btree_map" where
  "bt_modify k f m = map (\<lambda>e. if fst e = k then (fst e, f (snd e)) else e) m"

definition bt_retain :: "('v \<Rightarrow> bool) \<Rightarrow> ('k, 'v) btree_map \<Rightarrow> ('k, 'v) btree_map" where
  "bt_retain P m = filter (\<lambda>e. P (snd e)) m"

abbreviation bt_keys :: "('k, 'v) btree_map \<Rightarrow> 'k list" where
  "bt_keys m \<equiv> map fst m"

abbreviation bt_values :: "('k, 'v) btree_map \<Rightarrow> 'v list" where
  "bt_values m \<equiv> map snd m"

lemma bt_wf_Nil [simp]: "bt_wf []"
  by (simp add: bt_wf_def)

lemma bt_wf_single [simp]: "bt_wf [e]"
  by (simp add: bt_wf_def)

lemma bt_get_Nil [simp]: "bt_get [] k = None"
  by (simp add: bt_get_def)

lemma bt_get_insert [simp]: "bt_get (bt_insert k v m) k' = (if k' = k then Some v else bt_get m k')"
  by (induction m) (auto simp: bt_get_def)

lemma bt_get_remove [simp]: "bt_get (bt_remove k m) k' = (if k' = k then None else bt_get m k')"
  by (induction m) (auto simp: bt_get_def bt_remove_def)

lemma bt_get_modify [simp]:
  "bt_get (bt_modify k f m) k' = (if k' = k then map_option f (bt_get m k) else bt_get m k')"
  by (induction m) (auto simp: bt_get_def bt_modify_def)

lemma bt_keys_insert: "set (bt_keys (bt_insert k v m)) = insert k (set (bt_keys m))"
proof (induction m)
  case (Cons e m)
  then show ?case by (cases e) (simp add: insert_commute)
qed simp

lemma bt_keys_modify [simp]: "bt_keys (bt_modify k f m) = bt_keys m"
  by (induction m) (auto simp: bt_modify_def)

lemma bt_wf_insert [simp, intro]: "bt_wf m \<Longrightarrow> bt_wf (bt_insert k v m)"
proof (induction m)
  case (Cons e m)
  obtain k' v' where e: "e = (k', v')" by (cases e)
  have IH: "bt_wf (bt_insert k v m)"
    using Cons by (simp add: bt_wf_def)
  have keys: "fst ` set (bt_insert k v m) = insert k (fst ` set m)"
    using bt_keys_insert [of k v m] by simp
  show ?case
    using Cons.prems IH keys by (auto simp: bt_wf_def e)
qed simp

lemma bt_wf_filter: "bt_wf m \<Longrightarrow> bt_wf (filter P m)"
  unfolding bt_wf_def by (induction m) auto

lemma bt_wf_remove [simp, intro]: "bt_wf m \<Longrightarrow> bt_wf (bt_remove k m)"
  by (simp add: bt_remove_def bt_wf_filter)

lemma bt_wf_retain [simp, intro]: "bt_wf m \<Longrightarrow> bt_wf (bt_retain P m)"
  by (simp add: bt_retain_def bt_wf_filter)

lemma bt_wf_modify [simp, intro]: "bt_wf m \<Longrightarrow> bt_wf (bt_modify k f m)"
  by (simp add: bt_wf_def del: map_map)

lemma bt_get_in: "bt_get m k = Some v \<Longrightarrow> (k, v) \<in> set m"
  by (simp add: bt_get_def map_of_SomeD)

lemma bt_get_key_in: "bt_get m k = Some v \<Longrightarrow> k \<in> fst ` set m"
  by (force dest: bt_get_in)

lemma bt_wf_distinct: "bt_wf m \<Longrightarrow> distinct (bt_keys m)"
  by (simp add: bt_wf_def sorted_wrt_less_distinct)

lemma bt_get_iff: "bt_wf m \<Longrightarrow> bt_get m k = Some v \<longleftrightarrow> (k, v) \<in> set m"
  by (simp add: bt_get_def bt_wf_distinct)

lemma bt_get_None: "bt_get m k = None \<longleftrightarrow> k \<notin> fst ` set m"
  by (simp add: bt_get_def map_of_eq_None_iff)

lemma bt_contains_iff: "bt_contains m k \<longleftrightarrow> k \<in> fst ` set m"
  by (simp add: bt_contains_def bt_get_None)

lemma set_bt_insert: "bt_wf m \<Longrightarrow> set (bt_insert k v m) = insert (k, v) {e \<in> set m. fst e \<noteq> k}"
proof (induction m)
  case (Cons e m)
  then show ?case
    by (cases e) (auto simp: bt_wf_def)
qed simp

lemma set_bt_insert_fresh: "bt_get m k = None \<Longrightarrow> set (bt_insert k v m) = insert (k, v) (set m)"
  by (induction m) (auto simp: bt_get_def split: if_splits)

lemma length_bt_insert_fresh: "bt_get m k = None \<Longrightarrow> length (bt_insert k v m) = Suc (length m)"
  by (induction m) (auto simp: bt_get_def split: if_splits)

lemma length_bt_insert_le: "length (bt_insert k v m) \<le> Suc (length m)"
  by (induction m) auto

lemma length_bt_remove_le: "length (bt_remove k m) \<le> length m"
  by (simp add: bt_remove_def)

lemma length_bt_modify [simp]: "length (bt_modify k f m) = length m"
  by (simp add: bt_modify_def)

lemma bt_get_retain:
  "bt_wf m \<Longrightarrow> bt_get (bt_retain P m) k = (case bt_get m k of Some v \<Rightarrow> if P v then Some v else None | None \<Rightarrow> None)"
proof (induction m)
  case (Cons e m)
  obtain k' v' where e: "e = (k', v')" by (cases e)
  have fresh: "bt_get m k' = None" and wf: "bt_wf m"
    using Cons.prems e by (auto simp: bt_wf_def bt_get_None)
  have "bt_get (bt_retain P m) k' = None"
    using Cons.IH wf fresh by (cases "k = k'") (auto simp: bt_retain_def bt_get_None)
  with Cons.IH wf fresh show ?case
    by (auto simp: e bt_retain_def bt_get_def)
qed (simp add: bt_retain_def)

lemma bt_modify_eq_insert: "bt_wf m \<Longrightarrow> bt_get m k = Some v \<Longrightarrow> bt_modify k f m = bt_insert k (f v) m"
proof (induction m)
  case (Cons e m)
  have "map (\<lambda>e. if fst e = k then (fst e, f (snd e)) else e) m = m" if "fst e = k"
    using Cons.prems(1) that by (intro map_idI) (auto simp: bt_wf_def)
  moreover have "fst e < k" if "fst e \<noteq> k"
    using Cons.prems that bt_get_key_in [of m k v] by (auto simp: bt_wf_def bt_get_def)
  ultimately show ?case
    using Cons by (cases e) (auto simp: bt_modify_def bt_get_def bt_wf_def)
qed (simp add: bt_get_def)

lemma insert_length:
  assumes "bt_wf m" "length m \<le> n" "bt_get m s = None \<Longrightarrow> length m < n"
  shows "length (bt_insert s f m) \<le> n"
proof (cases "bt_get m s")
  case None
  then show ?thesis using assms(3) length_bt_insert_fresh [of m s f] by simp
next
  case (Some g)
  from bt_modify_eq_insert [OF assms(1) this, of "\<lambda>_. f"] have "length (bt_insert s f m) = length m"
    by (metis length_bt_modify)
  then show ?thesis using assms(2) by simp
qed

interpretation btree: keyed_store bt_get bt_insert bt_remove bt_wf
  by unfold_locales auto

subsection \<open>Ordered sets\<close>

type_synonym 'a btree_set = "'a list"

fun bs_insert :: "'a :: linorder \<Rightarrow> 'a btree_set \<Rightarrow> 'a btree_set" where
  "bs_insert x [] = [x]"
| "bs_insert x (y # ys) =
     (if x < y then x # y # ys else if x = y then y # ys else y # bs_insert x ys)"

definition bs_extend :: "'a :: linorder list \<Rightarrow> 'a btree_set \<Rightarrow> 'a btree_set" where
  "bs_extend xs s = fold bs_insert xs s"

abbreviation bs_of_list :: "'a :: linorder list \<Rightarrow> 'a btree_set" where
  "bs_of_list xs \<equiv> bs_extend xs []"

lemma set_bs_insert [simp]: "set (bs_insert x s) = insert x (set s)"
  by (induction s) auto

lemma sorted_bs_insert [simp, intro]: "sorted_wrt (<) s \<Longrightarrow> sorted_wrt (<) (bs_insert x s)"
  by (induction s) auto

lemma set_bs_extend [simp]: "set (bs_extend xs s) = set xs \<union> set s"
  by (induction xs arbitrary: s) (auto simp: bs_extend_def)

lemma sorted_bs_extend [simp, intro]: "sorted_wrt (<) s \<Longrightarrow> sorted_wrt (<) (bs_extend xs s)"
  by (induction xs arbitrary: s) (auto simp: bs_extend_def)

lemma bs_of_list_id: "sorted_wrt (<) xs \<Longrightarrow> bs_of_list xs = xs"
  by (rule sorted_wrt_less_unique) auto

lemma bs_of_list_cong: "set xs = set ys \<Longrightarrow> bs_of_list xs = bs_of_list ys"
  by (rule sorted_wrt_less_unique) auto

text \<open>\<^verbatim>\<open>xs.iter().all(|x| set.insert(f(x)))\<close>: no two elements give the same value.\<close>

fun insert_all_new :: "'a list \<Rightarrow> 'a list \<Rightarrow> bool" where
  "insert_all_new seen [] = True"
| "insert_all_new seen (x # xs) = (x \<notin> set seen \<and> insert_all_new (x # seen) xs)"

lemma insert_all_new_iff [std_simps]:
  "insert_all_new seen xs \<longleftrightarrow> distinct xs \<and> set xs \<inter> set seen = {}"
  by (induction xs arbitrary: seen) auto

text \<open>\<^verbatim>\<open>iter.max_by_key(f)\<close> returns the last of the maximal elements.\<close>

fun max_by_key :: "('a \<Rightarrow> nat) \<Rightarrow> 'a list \<Rightarrow> 'a option" where
  "max_by_key f [] = None"
| "max_by_key f (x # xs) =
     (case max_by_key f xs of
        None \<Rightarrow> Some x
      | Some y \<Rightarrow> if f y < f x then Some x else Some y)"

text \<open>\<^verbatim>\<open>iter.min_by_key(f)\<close> returns the first of the minimal elements.\<close>

fun min_by_key :: "('a \<Rightarrow> nat) \<Rightarrow> 'a list \<Rightarrow> 'a option" where
  "min_by_key f [] = None"
| "min_by_key f (x # xs) =
     (case min_by_key f xs of
        None \<Rightarrow> Some x
      | Some y \<Rightarrow> if f y < f x then Some y else Some x)"

lemma min_by_key_Some:
  "min_by_key f xs = Some x \<Longrightarrow> x \<in> set xs \<and> (\<forall>y \<in> set xs. f x \<le> f y)"
proof (induction xs arbitrary: x)
  case (Cons a xs)
  show ?case
  proof (cases "min_by_key f xs")
    case None
    then have "xs = []" by (cases xs) (auto split: option.splits if_splits)
    with Cons.prems show ?thesis by simp
  next
    case (Some y)
    with Cons.IH have "y \<in> set xs \<and> (\<forall>z \<in> set xs. f y \<le> f z)" by blast
    with Some Cons.prems show ?thesis
      by (auto split: if_splits intro: less_imp_le order_trans)
  qed
qed simp

lemma max_by_key_None [simp]: "max_by_key f xs = None \<longleftrightarrow> xs = []"
  by (cases xs) (auto split: option.splits)

lemma max_by_key_Some:
  "max_by_key f xs = Some x \<Longrightarrow> x \<in> set xs \<and> (\<forall>y \<in> set xs. f y \<le> f x)"
proof (induction xs arbitrary: x)
  case (Cons a xs)
  show ?case
  proof (cases "max_by_key f xs")
    case None
    with Cons.prems show ?thesis by simp
  next
    case (Some y)
    with Cons.IH have "y \<in> set xs \<and> (\<forall>z \<in> set xs. f z \<le> f y)" by blast
    with Some Cons.prems show ?thesis
      by (auto split: if_splits intro: less_imp_le order_trans)
  qed
qed simp

end
