(* ===== verification/Externals.thy ===== *)
theory Externals
  imports Collections
begin

text \<open>
  What the sources call but do not contain: SHA-256, Ed25519 (ed25519-dalek), base64, the
  age recipient parser, the JSON reader and the types the serde derive macros generate.
  Each is a field of a record passed to the definitions that use it; a component that
  needs more of them extends the record. A \<^verbatim>\<open>VerifyingKey\<close> is its 32 bytes, a
  \<^verbatim>\<open>SigningKey\<close> its seed, an age recipient its canonical text. The assumptions some
  theorems make about these fields are the named predicates at the end.
\<close>

subsection \<open>JSON values\<close>

text \<open>
  \<open>raw_json\<close> is what the JSON reader hands to a visitor, before any check: integers by
  sign, floating-point numbers, and objects with their entries in the order of the text,
  duplicates included. \<open>json\<close> is \<^verbatim>\<open>serde_json::Value\<close> as the strict visitor builds it.
\<close>

datatype raw_json =
    RNull
  | RBool bool
  | RU64 nat
  | RI64 int
  | RF64
  | RString string
  | RSeq "raw_json list"
  | RMap "(string \<times> raw_json) list"

datatype json =
    Null
  | Bool bool
  | Number nat
  | String string
  | Array "json list"
  | Object "(string \<times> json) list"

text \<open>\<^verbatim>\<open>Value::get\<close> with a string key; \<^verbatim>\<open>Value::index\<close> yields \<^verbatim>\<open>Null\<close> for a missing entry.\<close>

fun json_get :: "json \<Rightarrow> string \<Rightarrow> json option" where
  "json_get (Object m) k = bt_get m k"
| "json_get _ k = None"

definition json_index :: "json \<Rightarrow> string \<Rightarrow> json" where
  "json_index j k = (case json_get j k of Some x \<Rightarrow> x | None \<Rightarrow> Null)"

fun as_u64 :: "json \<Rightarrow> nat option" where
  "as_u64 (Number n) = Some n"
| "as_u64 _ = None"

fun as_str :: "json \<Rightarrow> string option" where
  "as_str (String s) = Some s"
| "as_str _ = None"

subsection \<open>The parameters\<close>

record crypto =
  sha256 :: "bytes \<Rightarrow> bytes"
  ed_key_valid :: "bytes \<Rightarrow> bool"
  ed_key_weak :: "bytes \<Rightarrow> bool"
  ed_verify_strict :: "bytes \<Rightarrow> bytes \<Rightarrow> bytes \<Rightarrow> bool"
  ed_public :: "bytes \<Rightarrow> bytes"
  ed_sign :: "bytes \<Rightarrow> bytes \<Rightarrow> bytes"
  b64_decode :: "string \<Rightarrow> bytes option"
  b64_encode :: "bytes \<Rightarrow> string"
  age_parse :: "string \<Rightarrow> string option"
  json_from_slice :: "bytes \<Rightarrow> raw_json option"

text \<open>\<^verbatim>\<open>VerifyingKey::from_bytes\<close> on 32 bytes.\<close>

definition verifying_key :: "('z crypto_scheme) \<Rightarrow> bytes \<Rightarrow> 'e \<Rightarrow> 'e + bytes" where
  "verifying_key E b e = (if ed_key_valid E b then Inr b else Inl e)"

lemma verifying_key_eq_Inr [result_simps]:
  "verifying_key E b e = Inr k \<longleftrightarrow> ed_key_valid E b \<and> k = b"
  by (auto simp: verifying_key_def)

subsection \<open>Documented behaviour some theorems assume\<close>

text \<open>A signature made with a key is 64 bytes and verifies under its public key.\<close>

definition signing_correct :: "('z crypto_scheme) \<Rightarrow> bool" where
  "signing_correct E \<longleftrightarrow>
     (\<forall>k m. length (ed_sign E k m) = 64 \<and> ed_verify_strict E (ed_public E k) m (ed_sign E k m))"

definition base64_correct :: "('z crypto_scheme) \<Rightarrow> bool" where
  "base64_correct E \<longleftrightarrow> (\<forall>b. b64_decode E (b64_encode E b) = Some b)"

text \<open>The modelled SHA-256 yields 32 bytes.\<close>

definition sha256_length :: "('z crypto_scheme) \<Rightarrow> bool" where
  "sha256_length E \<longleftrightarrow> (\<forall>b. length (sha256 E b) = 32)"

end
