(* ===== verification/Ids.thy ===== *)
theory Ids
  imports Externals
begin

text \<open>
  \<^verbatim>\<open>crates/elo-core/src/ids.rs\<close>: typed identifiers, their lower-case hexadecimal text and
  the domain-separated hashes they are made of. An identifier is the list of its bytes.
\<close>

type_synonym IdentityId = bytes
type_synonym ObjectId = bytes
type_synonym RecordId = bytes
type_synonym PeerId = bytes
type_synonym MailboxId = bytes
type_synonym SpaceId = bytes
type_synonym StreamId = bytes

datatype InvalidId = InvalidId nat

subsection \<open>Hexadecimal text\<close>

definition digit :: "char \<Rightarrow> nat option" where
  "digit c =
     (let b = (of_char c :: nat) in
      if 48 \<le> b \<and> b \<le> 57 then Some (b - 48)
      else if 97 \<le> b \<and> b \<le> 102 then Some (b - 97 + 10)
      else None)"

fun parse_pairs :: "nat \<Rightarrow> string \<Rightarrow> InvalidId + bytes" where
  "parse_pairs n (a # b # cs) =
     bindr (ok_or (digit a) (InvalidId n)) (\<lambda>x.
     bindr (ok_or (digit b) (InvalidId n)) (\<lambda>y.
     bindr (parse_pairs n cs) (\<lambda>bs.
     Inr (word_of_nat (x * 16 + y) # bs))))"
| "parse_pairs n _ = Inr []"

definition parse_hex :: "nat \<Rightarrow> string \<Rightarrow> InvalidId + bytes" where
  "parse_hex N value =
     (if length value \<noteq> N * 2 then Inl (InvalidId (N * 2))
      else parse_pairs (N * 2) value)"

definition hex_digit :: "nat \<Rightarrow> char" where
  "hex_digit n = (if n < 10 then char_of (48 + n) else char_of (87 + n))"

text \<open>The \<^verbatim>\<open>Display\<close> of an identifier and \<^verbatim>\<open>record::encode_hex\<close>: two digits per byte.\<close>

definition encode_byte :: "byte \<Rightarrow> string" where
  "encode_byte b = [hex_digit (unat b div 16), hex_digit (unat b mod 16)]"

definition encode_hex :: "bytes \<Rightarrow> string" where
  "encode_hex bs = concat (map encode_byte bs)"

abbreviation to_string :: "bytes \<Rightarrow> string" where
  "to_string \<equiv> encode_hex"

subsection \<open>Hashes\<close>

definition ascii :: "string \<Rightarrow> bytes" where
  "ascii s = map of_char s"

definition hash :: "('z crypto_scheme) \<Rightarrow> bytes \<Rightarrow> bytes \<Rightarrow> bytes" where
  "hash E domain b = sha256 E (domain @ b)"

definition of_root_key :: "('z crypto_scheme) \<Rightarrow> bytes \<Rightarrow> IdentityId" where
  "of_root_key E key = hash E (ascii ''elo.now/identity/v1'' @ [0]) key"

definition of_ciphertext :: "('z crypto_scheme) \<Rightarrow> bytes \<Rightarrow> ObjectId" where
  "of_ciphertext E b = hash E (ascii ''elo.now/object-id/v1'' @ [0]) b"

definition of_record_bytes :: "('z crypto_scheme) \<Rightarrow> bytes \<Rightarrow> RecordId" where
  "of_record_bytes E b = hash E (ascii ''elo.now/record-id/v1'' @ [0]) b"

subsection \<open>Digits and text determine each other\<close>

lemma digit_hex_digit [simp]: "n < 16 \<Longrightarrow> digit (hex_digit n) = Some n"
  by (auto simp: digit_def hex_digit_def Let_def)

lemma digit_SomeD:
  assumes "digit c = Some n"
  shows "n < 16 \<and> hex_digit n = c"
proof -
  have c: "c = char_of (of_char c :: nat)" by simp
  from assms consider
      "48 \<le> (of_char c :: nat)" "of_char c \<le> (57 :: nat)" "n = of_char c - 48"
    | "97 \<le> (of_char c :: nat)" "of_char c \<le> (102 :: nat)" "n = of_char c - 87"
    by (auto simp: digit_def Let_def split: if_splits)
  then show ?thesis
    by cases (auto simp: hex_digit_def)
qed

lemma parse_pairs_encode: "parse_pairs n (encode_hex bs) = Inr bs"
proof (induction bs)
  case (Cons b bs)
  have "unat b div 16 < 16"
    using unat_byte_less [of b] by (simp add: div_less_iff_less_mult)
  moreover have "word_of_nat (unat b div 16 * 16 + unat b mod 16) = b"
    by (simp only: div_mult_mod_eq) simp
  ultimately show ?case
    using Cons by (simp add: encode_hex_def encode_byte_def del: of_nat_add of_nat_mult)
qed (simp add: encode_hex_def)

lemma parse_pairs_sound:
  "parse_pairs n s = Inr bs \<Longrightarrow> even (length s) \<Longrightarrow> encode_hex bs = s"
proof (induction n s arbitrary: bs rule: parse_pairs.induct)
  case (1 n a b cs)
  from "1.prems" obtain x y bs' where
      x: "digit a = Some x" and y: "digit b = Some y"
      and rest: "parse_pairs n cs = Inr bs'" and bs: "bs = word_of_nat (x * 16 + y) # bs'"
    by (auto simp: result_simps)
  have xy: "x < 16" "hex_digit x = a" "y < 16" "hex_digit y = b"
    using digit_SomeD x y by blast+
  have "unat (word_of_nat (x * 16 + y) :: byte) = x * 16 + y"
    using xy by (intro unat_byte_of_nat) simp
  then have "encode_byte (word_of_nat (x * 16 + y)) = [a, b]"
    using xy by (simp add: encode_byte_def)
  moreover have "encode_hex bs' = cs"
    using "1.IH" x y rest "1.prems"(2) by simp
  ultimately show ?case by (simp add: bs encode_hex_def)
qed (simp_all add: encode_hex_def)

lemma length_encode_hex [simp]: "length (encode_hex bs) = 2 * length bs"
  by (induction bs) (simp_all add: encode_hex_def encode_byte_def)

lemma parse_hex_encode [simp]: "length bs = N \<Longrightarrow> parse_hex N (encode_hex bs) = Inr bs"
  by (simp add: parse_hex_def parse_pairs_encode mult.commute)

lemma parse_hex_sound:
  assumes "parse_hex N s = Inr bs"
  shows "encode_hex bs = s \<and> length bs = N"
proof -
  from assms have len: "length s = N * 2" and "parse_pairs (N * 2) s = Inr bs"
    by (auto simp: parse_hex_def split: if_splits)
  then have eq: "encode_hex bs = s"
    using parse_pairs_sound by simp
  then have "2 * length bs = N * 2"
    using len length_encode_hex by metis
  with eq show ?thesis by simp
qed

lemma encode_hex_inj: "encode_hex a = encode_hex b \<longleftrightarrow> a = b"
  by (metis Inr_inject parse_pairs_encode)

text \<open>
  The text of an identifier is canonical. A string parses to an identifier exactly when
  it is the lower-case hexadecimal text of that many bytes, so every identifier has one
  text and every accepted text is what \<^verbatim>\<open>Display\<close> prints.
\<close>

lemma parse_hex_canonical:
  "parse_hex N s = Inr bs \<longleftrightarrow> (s = encode_hex bs \<and> length bs = N)"
  by (metis parse_hex_sound parse_hex_encode)

end
