(* ===== verification/Signed_Record.thy ===== *)
theory Signed_Record
  imports Ids
begin

text \<open>
  \<^verbatim>\<open>crates/elo-core/src/record.rs\<close>: the ELO1 frame around a strict JSON body, the
  signature over the preserved body bytes, and the semantic validation of chat messages.
  A \<open>SignedRecord\<close> keeps the frame and the parsed body. The JSON reader, the derived
  decoders and Ed25519 are parameters (theory Externals); the strict visitor that rejects
  duplicate keys and out-of-range numbers, the depth scanner and every check of
  \<open>ChatMessage_validate\<close> are translated.
\<close>

datatype RecordError = Framing | Json | Unsupported | Signature | Authority_err | Random

subsection \<open>Limits and message time\<close>

definition MAX_RECORD :: nat where "MAX_RECORD = 1024 * 1024"
definition MAX_CHAT_MEMBERS :: nat where "MAX_CHAT_MEMBERS = 1000"
definition MAX_CHAT_CREDENTIALS :: nat where "MAX_CHAT_CREDENTIALS = 2000"
definition MAX_INTEGER :: nat where "MAX_INTEGER = 2 ^ 53 - 1"
definition MAX_EXPIRY_TIMESTAMP_MS :: nat where "MAX_EXPIRY_TIMESTAMP_MS = 8640000000000000"
definition MAX_MESSAGE_CLOCK_SKEW_MS :: nat where "MAX_MESSAGE_CLOCK_SKEW_MS = 24 * 60 * 60 * 1000"

definition valid_message_time_at :: "nat \<Rightarrow> nat \<Rightarrow> bool" where
  "valid_message_time_at value now \<longleftrightarrow>
     value \<le> MAX_INTEGER \<and> value \<le> saturating_add now MAX_MESSAGE_CLOCK_SKEW_MS"

text \<open>The clock is an argument: \<open>None\<close> when the system time precedes the epoch.\<close>

definition current_message_time_is_valid :: "nat option \<Rightarrow> nat \<Rightarrow> bool" where
  "current_message_time_is_valid clock value =
     (case clock of None \<Rightarrow> False | Some now \<Rightarrow> valid_message_time_at value (now mod 2 ^ 64))"

definition next_message_time :: "nat \<Rightarrow> nat \<Rightarrow> nat" where
  "next_message_time highest now =
     (let nxt = (if valid_message_time_at (saturating_add highest 1) now
                 then saturating_add highest 1 else now)
      in min (max nxt now) MAX_INTEGER)"

subsection \<open>Strict JSON\<close>

text \<open>The visitor \<open>StrictVisitor\<close>: no duplicate keys, no negative or fractional numbers.\<close>

fun strict_value :: "raw_json \<Rightarrow> json option"
  and strict_seq :: "raw_json list \<Rightarrow> json list option"
  and strict_map :: "(string \<times> json) list \<Rightarrow> (string \<times> raw_json) list \<Rightarrow> (string \<times> json) list option"
where
  "strict_value (RBool v) = Some (Bool v)"
| "strict_value RNull = Some Null"
| "strict_value (RU64 v) = (if v > MAX_INTEGER then None else Some (Number v))"
| "strict_value (RI64 v) = None"
| "strict_value RF64 = None"
| "strict_value (RString v) = Some (String v)"
| "strict_value (RSeq vs) = map_option Array (strict_seq vs)"
| "strict_value (RMap es) = map_option Object (strict_map [] es)"
| "strict_seq [] = Some []"
| "strict_seq (v # vs) =
     (case strict_value v of
        None \<Rightarrow> None
      | Some x \<Rightarrow> (case strict_seq vs of None \<Rightarrow> None | Some xs \<Rightarrow> Some (x # xs)))"
| "strict_map values [] = Some values"
| "strict_map values ((key, v) # es) =
     (if bt_contains values key then None
      else (case strict_value v of
              None \<Rightarrow> None
            | Some x \<Rightarrow> strict_map (bt_insert key x values) es))"

text \<open>The scan over the body bytes: depth, whether inside a string, whether escaped.\<close>

fun scan_body :: "nat \<Rightarrow> bool \<Rightarrow> bool \<Rightarrow> bytes \<Rightarrow> RecordError + unit" where
  "scan_body depth quoted escaped [] = Inr ()"
| "scan_body depth quoted escaped (b # bs) =
     (if quoted then
        (if escaped then scan_body depth quoted False bs
         else if b = 92 then scan_body depth quoted True bs
         else if b = 34 then scan_body depth False escaped bs
         else scan_body depth quoted escaped bs)
      else if b = 34 then scan_body depth True escaped bs
      else if b = 123 \<or> b = 91 then
        (if depth + 1 > 16 then Inl Json else scan_body (depth + 1) quoted escaped bs)
      else if b = 125 \<or> b = 93 then
        (if depth = 0 then Inl Json else scan_body (depth - 1) quoted escaped bs)
      else if b = 45 then Inl Json
      else scan_body depth quoted escaped bs)"

definition strict_json :: "('z crypto_scheme) \<Rightarrow> bytes \<Rightarrow> nat \<Rightarrow> RecordError + json" where
  "strict_json E body maximum =
     (if length body > saturating_sub maximum 72 \<or> body = [] \<or> hd body \<noteq> 123 \<or> last body \<noteq> 125
      then Inl Json
      else bindr (scan_body 0 False False body) (\<lambda>_.
           ok_or (Option.bind (json_from_slice E body) strict_value) Json))"

subsection \<open>The ELO1 frame\<close>

record SignedRecord =
  rec_bytes :: bytes
  rec_body :: json

definition ELO1 :: bytes where
  "ELO1 = ascii ''ELO1''"

definition from_be_bytes :: "bytes \<Rightarrow> nat" where
  "from_be_bytes bs = foldl (\<lambda>acc b. acc * 256 + unat b) 0 bs"

definition u32_to_be_bytes :: "nat \<Rightarrow> bytes" where
  "u32_to_be_bytes n =
     [word_of_nat (n div 2 ^ 24 mod 256), word_of_nat (n div 2 ^ 16 mod 256),
      word_of_nat (n div 2 ^ 8 mod 256), word_of_nat (n mod 256)]"

definition supported_version :: "json \<Rightarrow> bool" where
  "supported_version body \<longleftrightarrow>
     (let v = Option.bind (json_get body ''v'') as_u64;
          kind = Option.bind (json_get body ''kind'') as_str in
      v = Some 1
      \<or> (v = Some 2
         \<and> kind \<in> Some ` set [''device.credential'', ''device.revoked'', ''space.genesis'',
             ''stream.config'', ''space.create'', ''witness.approval'',
             ''witness.challenge'', ''witness.admission''])
      \<or> ((v = Some 3 \<or> v = Some 4)
         \<and> kind \<in> Some ` set [''space.genesis'', ''stream.config'']))"

definition parse_bounded :: "('z crypto_scheme) \<Rightarrow> bytes \<Rightarrow> nat \<Rightarrow> RecordError + SignedRecord" where
  "parse_bounded E bytes maximum =
     (if \<not> (72 \<le> length bytes \<and> length bytes \<le> maximum) \<or> take 4 bytes \<noteq> ELO1
      then Inl Framing
      else let len = from_be_bytes (take 4 (drop 4 bytes)) in
        if len \<noteq> length bytes - 72 then Inl Framing
        else bindr (strict_json E (take len (drop 8 bytes)) maximum) (\<lambda>body.
          if \<not> supported_version body then Inl Unsupported
          else Inr \<lparr>rec_bytes = bytes, rec_body = body\<rparr>))"

definition parse :: "('z crypto_scheme) \<Rightarrow> bytes \<Rightarrow> RecordError + SignedRecord" where
  "parse E bytes = parse_bounded E bytes MAX_RECORD"

definition SIGN_DOMAIN :: bytes where
  "SIGN_DOMAIN = ascii ''elo.now/signed-record/v1'' @ [0]"

definition sign_bounded ::
  "('z crypto_scheme) \<Rightarrow> bytes \<Rightarrow> bytes \<Rightarrow> nat \<Rightarrow> RecordError + SignedRecord" where
  "sign_bounded E body key maximum =
     bindr (strict_json E body maximum) (\<lambda>_.
     bindr (require (length body < 2 ^ 32) Framing) (\<lambda>_.
     let bytes = ELO1 @ u32_to_be_bytes (length body) @ body @ ed_sign E key (SIGN_DOMAIN @ body)
     in parse_bounded E bytes maximum))"

definition sign :: "('z crypto_scheme) \<Rightarrow> bytes \<Rightarrow> bytes \<Rightarrow> RecordError + SignedRecord" where
  "sign E body key = sign_bounded E body key MAX_RECORD"

definition body_bytes :: "SignedRecord \<Rightarrow> bytes" where
  "body_bytes r = take (length (rec_bytes r) - 64 - 8) (drop 8 (rec_bytes r))"

definition signature_bytes :: "SignedRecord \<Rightarrow> bytes" where
  "signature_bytes r = drop (length (rec_bytes r) - 64) (rec_bytes r)"

definition verify_signature ::
  "('z crypto_scheme) \<Rightarrow> SignedRecord \<Rightarrow> bytes \<Rightarrow> RecordError + unit" where
  "verify_signature E r key =
     (if length (signature_bytes r) \<noteq> 64 then Inl Signature
      else if ed_verify_strict E key (SIGN_DOMAIN @ body_bytes r) (signature_bytes r)
      then Inr () else Inl Signature)"

definition record_id :: "('z crypto_scheme) \<Rightarrow> SignedRecord \<Rightarrow> RecordId" where
  "record_id E r = of_record_bytes E (rec_bytes r)"

text \<open>\<^verbatim>\<open>decode\<close> at one type: the derived decoder of that type is the parameter.\<close>

definition decode_with :: "(json \<Rightarrow> 'a option) \<Rightarrow> SignedRecord \<Rightarrow> RecordError + 'a" where
  "decode_with dec r = ok_or (dec (rec_body r)) Json"

definition hex :: "nat \<Rightarrow> string \<Rightarrow> RecordError + bytes" where
  "hex N value = map_err (\<lambda>_. Json) (parse_hex N value)"

text \<open>Randomness is an argument: \<open>None\<close> when the operating system provides none.\<close>

definition random_hex :: "bytes option \<Rightarrow> RecordError + string" where
  "random_hex rnd = (case rnd of None \<Rightarrow> Inl Random | Some bs \<Rightarrow> Inr (encode_hex bs))"

definition sorted_unique :: "'a :: linorder list \<Rightarrow> nat \<Rightarrow> nat \<Rightarrow> bool" where
  "sorted_unique items mn mx \<longleftrightarrow>
     mn \<le> length items \<and> length items \<le> mx \<and> windows2_all (<) items"

subsection \<open>Text of display names\<close>

text \<open>The characters of a UTF-8 string, as code points.\<close>

fun utf8_chars :: "nat list \<Rightarrow> nat list" where
  "utf8_chars [] = []"
| "utf8_chars (a # xs) =
     (if a < 128 then a # utf8_chars xs
      else if a < 224 then
        (case xs of b # ys \<Rightarrow> ((a - 192) * 64 + (b - 128)) # utf8_chars ys | _ \<Rightarrow> [])
      else if a < 240 then
        (case xs of b # c # ys \<Rightarrow>
           ((a - 224) * 4096 + (b - 128) * 64 + (c - 128)) # utf8_chars ys | _ \<Rightarrow> [])
      else
        (case xs of b # c # d # ys \<Rightarrow>
           ((a - 240) * 262144 + (b - 128) * 4096 + (c - 128) * 64 + (d - 128)) # utf8_chars ys
         | _ \<Rightarrow> []))"

definition str_chars :: "string \<Rightarrow> nat list" where
  "str_chars s = utf8_chars (map of_char s)"

definition is_whitespace :: "nat \<Rightarrow> bool" where
  "is_whitespace c \<longleftrightarrow>
     (9 \<le> c \<and> c \<le> 13) \<or> c \<in> set [32, 133, 160, 5760, 8232, 8233, 8239, 8287, 12288]
     \<or> (8192 \<le> c \<and> c \<le> 8202)"

definition is_control :: "nat \<Rightarrow> bool" where
  "is_control c \<longleftrightarrow> c \<le> 31 \<or> (127 \<le> c \<and> c \<le> 159)"

definition trim :: "nat list \<Rightarrow> nat list" where
  "trim cs = rev (dropWhile is_whitespace (rev (dropWhile is_whitespace cs)))"

definition unsafe_display_character :: "nat \<Rightarrow> bool" where
  "unsafe_display_character c \<longleftrightarrow>
     is_control c
     \<or> c \<in> set [173, 1564, 6158, 65279]
     \<or> (8203 \<le> c \<and> c \<le> 8207) \<or> (8234 \<le> c \<and> c \<le> 8238) \<or> (8288 \<le> c \<and> c \<le> 8303)"

definition valid_display_name :: "string \<Rightarrow> bool" where
  "valid_display_name name \<longleftrightarrow>
     name \<noteq> [] \<and> length name \<le> 120 \<and> trim (str_chars name) = str_chars name
     \<and> \<not> list_ex unsafe_display_character (str_chars name)"

subsection \<open>Big-endian lengths\<close>

lemma div_256_step: "(n div k div 256) * 256 + n div k mod 256 = (n :: nat) div k"
  by simp

lemma mod_256_digit: "x < 256 \<Longrightarrow> (q * 256 + x) mod 256 = (x :: nat)"
  by simp

lemma div_256_digit: "x < 256 \<Longrightarrow> (q * 256 + x) div 256 = (q :: nat)"
  by simp

lemma four_bytes_bound:
  "a < 256 \<Longrightarrow> b < 256 \<Longrightarrow> c < 256 \<Longrightarrow> d < 256 \<Longrightarrow> ((a * 256 + b) * 256 + c) * 256 + d < (2 ^ 32 :: nat)"
  by simp

lemma from_be_bytes_u32 [simp]:
  assumes "n < 2 ^ 32"
  shows "from_be_bytes (u32_to_be_bytes n) = n"
proof -
  have top: "n div 2 ^ 24 mod 256 = n div 2 ^ 24"
    using assms by (intro mod_less) (simp add: div_less_iff_less_mult)
  have s24: "n div 2 ^ 24 = n div 2 ^ 16 div 256" and s16: "n div 2 ^ 16 = n div 2 ^ 8 div 256"
    and s8: "n div 2 ^ 8 = n div 1 div 256"
    by (simp_all add: div_mult2_eq [symmetric])
  have "from_be_bytes (u32_to_be_bytes n) =
      ((n div 2 ^ 24 mod 256 * 256 + n div 2 ^ 16 mod 256) * 256 + n div 2 ^ 8 mod 256) * 256 + n div 1 mod 256"
    by (simp add: from_be_bytes_def u32_to_be_bytes_def unat_byte_of_nat del: of_nat_mod)
  also have "\<dots> = n"
    by (simp only: top) (simp only: s24 div_256_step s16 s8, simp)
  finally show ?thesis .
qed

lemma length_u32_to_be_bytes [simp]: "length (u32_to_be_bytes n) = 4"
  by (simp add: u32_to_be_bytes_def)

lemma from_be_bytes_less: "length bs = 4 \<Longrightarrow> from_be_bytes bs < 2 ^ 32"
proof -
  assume "length bs = 4"
  then obtain a b c d where bs: "bs = [a, b, c, d]"
    by (auto simp: numeral_eq_Suc length_Suc_conv)
  have "unat a < 256" "unat b < 256" "unat c < 256" "unat d < 256" by (rule unat_byte_less)+
  moreover have "from_be_bytes bs = ((unat a * 256 + unat b) * 256 + unat c) * 256 + unat d"
    by (simp add: bs from_be_bytes_def)
  ultimately show ?thesis using four_bytes_bound by metis
qed

lemma u32_to_be_bytes_from [simp]:
  assumes "length bs = 4"
  shows "u32_to_be_bytes (from_be_bytes bs) = bs"
proof -
  from assms obtain a b c d where bs: "bs = [a, b, c, d]"
    by (auto simp: numeral_eq_Suc length_Suc_conv)
  have lt: "unat a < 256" "unat b < 256" "unat c < 256" "unat d < 256" by (rule unat_byte_less)+
  define n where "n = from_be_bytes bs"
  have n: "n = ((unat a * 256 + unat b) * 256 + unat c) * 256 + unat d"
    by (simp add: n_def bs from_be_bytes_def)
  have d: "n mod 256 = unat d"
    unfolding n by (rule mod_256_digit [OF lt(4)])
  have n8: "n div 256 = (unat a * 256 + unat b) * 256 + unat c"
    unfolding n by (rule div_256_digit [OF lt(4)])
  have c: "n div 256 mod 256 = unat c" and n16: "n div 256 div 256 = unat a * 256 + unat b"
    unfolding n8 by (rule mod_256_digit [OF lt(3)], rule div_256_digit [OF lt(3)])
  have b: "n div 256 div 256 mod 256 = unat b" and n24: "n div 256 div 256 div 256 = unat a"
    unfolding n16 by (rule mod_256_digit [OF lt(2)], rule div_256_digit [OF lt(2)])
  have "n div 2 ^ 24 = n div 256 div 256 div 256" "n div 2 ^ 16 = n div 256 div 256"
      "n div 2 ^ 8 = n div 256"
    by (simp_all add: div_mult2_eq [symmetric])
  then show ?thesis
    using d c b n24 lt by (simp add: u32_to_be_bytes_def n_def [symmetric] bs [symmetric] del: of_nat_mod)
qed

subsection \<open>Parsing and signing\<close>

lemma length_ELO1 [simp]: "length ELO1 = 4"
  by (simp add: ELO1_def ascii_def)

lemma strict_json_length: "strict_json E body m = Inr j \<Longrightarrow> length body \<le> m - 72 \<and> body \<noteq> []"
  by (auto simp: strict_json_def saturating_sub_def split: if_splits)

text \<open>The frame of a parsed record: marker, length, body and a 64-byte signature, nothing more.\<close>

lemma parse_bounded_Inr:
  assumes "parse_bounded E b m = Inr r"
  obtains body sig where
    "b = ELO1 @ u32_to_be_bytes (length body) @ body @ sig" "length sig = 64"
    "length body < 2 ^ 32" "length b \<le> m" "strict_json E body m = Inr (rec_body r)"
    "supported_version (rec_body r)" "rec_bytes r = b"
proof -
  define len where "len = from_be_bytes (take 4 (drop 4 b))"
  from assms have len72: "72 \<le> length b" and lenm: "length b \<le> m" and mark: "take 4 b = ELO1"
    and leneq: "len = length b - 72"
    and json: "strict_json E (take len (drop 8 b)) m = Inr (rec_body r)"
    and sup: "supported_version (rec_body r)" and rb: "rec_bytes r = b"
    by (auto simp: parse_bounded_def Let_def len_def result_simps split: if_splits)
  let ?body = "take len (drop 8 b)" and ?sig = "drop (8 + len) b"
  have l: "length ?body = len" "length ?sig = 64"
    using len72 leneq by auto
  have "b = take 4 b @ take 4 (drop 4 b) @ ?body @ ?sig"
    by (metis append_take_drop_id drop_drop add.commute numeral_Bit0)
  moreover have "take 4 (drop 4 b) = u32_to_be_bytes len"
    using len72 by (simp add: len_def)
  moreover have "len < 2 ^ 32"
    unfolding len_def using len72 by (intro from_be_bytes_less) simp
  ultimately show ?thesis
    using that [of ?body ?sig] mark l json sup rb lenm by simp
qed

lemma body_bytes_frame:
  assumes "rec_bytes r = ELO1 @ u32_to_be_bytes n @ body @ sig" "length sig = 64"
  shows "body_bytes r = body" "signature_bytes r = sig"
  using assms by (simp_all add: body_bytes_def signature_bytes_def)

lemma parse_bounded_frame:
  assumes "length sig = 64" "length body < 2 ^ 32" "length body + 72 \<le> m"
    and "strict_json E body m = Inr j" "supported_version j"
    and b: "b = ELO1 @ u32_to_be_bytes (length body) @ body @ sig"
  shows "parse_bounded E b m = Inr \<lparr>rec_bytes = b, rec_body = j\<rparr>"
proof -
  have "take 4 b = ELO1" "take 4 (drop 4 b) = u32_to_be_bytes (length body)"
      "take (length body) (drop 8 b) = body" "length b = length body + 72"
    using assms(1) by (simp_all add: b)
  then show ?thesis
    using assms by (simp add: parse_bounded_def Let_def)
qed

lemma parse_bounded_body_bytes:
  assumes "parse_bounded E b m = Inr r"
  shows "rec_bytes r = b" "strict_json E (body_bytes r) m = Inr (rec_body r)"
    "length (signature_bytes r) = 64"
  using assms by (auto elim!: parse_bounded_Inr simp: body_bytes_frame)

lemma sign_bounded_Inr:
  assumes "sign_bounded E body key m = Inr r" "signing_correct E"
  shows "parse_bounded E (rec_bytes r) m = Inr r" "body_bytes r = body"
    "signature_bytes r = ed_sign E key (SIGN_DOMAIN @ body)"
    "rec_bytes r = ELO1 @ u32_to_be_bytes (length body) @ body @ ed_sign E key (SIGN_DOMAIN @ body)"
proof -
  let ?sig = "ed_sign E key (SIGN_DOMAIN @ body)"
  let ?b = "ELO1 @ u32_to_be_bytes (length body) @ body @ ?sig"
  from assms(1) have p: "parse_bounded E ?b m = Inr r"
    by (auto simp: sign_bounded_def Let_def result_simps)
  have sig: "length ?sig = 64" using assms(2) by (simp add: signing_correct_def)
  show rb: "rec_bytes r = ?b" using p by (rule parse_bounded_body_bytes)
  show "parse_bounded E (rec_bytes r) m = Inr r" using p by (simp add: rb)
  show "body_bytes r = body" "signature_bytes r = ?sig"
    using body_bytes_frame [OF rb sig] by simp_all
qed

lemma verify_signature_iff [result_simps]:
  "verify_signature E r key = Inr u \<longleftrightarrow>
     length (signature_bytes r) = 64 \<and> ed_verify_strict E key (SIGN_DOMAIN @ body_bytes r) (signature_bytes r)"
  by (simp add: verify_signature_def)

lemma decode_with_iff [result_simps]: "decode_with dec r = Inr x \<longleftrightarrow> dec (rec_body r) = Some x"
  by (simp add: decode_with_def result_simps)

lemma hex_iff [result_simps]: "hex N s = Inr bs \<longleftrightarrow> s = encode_hex bs \<and> length bs = N"
  by (auto simp: hex_def result_simps dest: parse_hex_sound)

lemma record_id_length: "sha256_length E \<Longrightarrow> length (record_id E r) = 32"
  by (simp add: record_id_def of_record_bytes_def hash_def sha256_length_def)

lemma sorted_unique_iff [std_simps]:
  "sorted_unique xs mn mx \<longleftrightarrow> mn \<le> length xs \<and> length xs \<le> mx \<and> sorted_wrt (<) xs"
  by (simp add: sorted_unique_def windows2_all_sorted)

text \<open>
  A byte string parses as a record exactly when it is the ELO1 marker, the big-endian
  length of a body, that body and a 64-byte signature, within the size limit, with a strict
  JSON body of a supported version. There is no second reading and no trailing byte.
\<close>

lemma parse_bounded_iff:
  "parse_bounded E b m = Inr r \<longleftrightarrow>
     (\<exists>body sig. b = ELO1 @ u32_to_be_bytes (length body) @ body @ sig \<and> length sig = 64 \<and>
        length body < 2 ^ 32 \<and> length b \<le> m \<and>
        strict_json E body m = Inr (rec_body r) \<and> supported_version (rec_body r) \<and>
        rec_bytes r = b)"
  (is "?L = ?R")
proof
  assume ?L
  then show ?R by (blast elim: parse_bounded_Inr)
next
  assume ?R
  then obtain body sig where *: "b = ELO1 @ u32_to_be_bytes (length body) @ body @ sig"
      "length sig = 64" "length body < 2 ^ 32" "length b \<le> m"
      "strict_json E body m = Inr (rec_body r)" "supported_version (rec_body r)" "rec_bytes r = b"
    by blast
  from * have "length body + 72 \<le> m" by simp
  with * have "parse_bounded E b m = Inr \<lparr>rec_bytes = b, rec_body = rec_body r\<rparr>"
    by (intro parse_bounded_frame) auto
  with * show ?L by (cases r) simp
qed

text \<open>
  C40: signing and parsing are inverse. When signing succeeds, the record it returns is the one
  its bytes parse to, its body bytes are the signed bytes unchanged, and its signature
  verifies under the signer's public key; and signing succeeds exactly for a strict JSON
  body of a supported version that fits.
\<close>

theorem sign_parse_roundtrip:
  assumes "signing_correct E" and "72 \<le> m" and "m < 2 ^ 32"
  shows "((\<exists>r. sign_bounded E body key m = Inr r) \<longleftrightarrow>
           (\<exists>j. strict_json E body m = Inr j \<and> supported_version j)) \<and>
         (\<forall>r. sign_bounded E body key m = Inr r \<longrightarrow>
           parse_bounded E (rec_bytes r) m = Inr r \<and> body_bytes r = body \<and>
           verify_signature E r (ed_public E key) = Inr ())"
proof (intro conjI allI impI)
  let ?sig = "ed_sign E key (SIGN_DOMAIN @ body)"
  have sig: "length ?sig = 64" using assms(1) by (simp add: signing_correct_def)
  show "(\<exists>r. sign_bounded E body key m = Inr r) \<longleftrightarrow>
      (\<exists>j. strict_json E body m = Inr j \<and> supported_version j)"
  proof
    assume "\<exists>r. sign_bounded E body key m = Inr r"
    then obtain r where r: "sign_bounded E body key m = Inr r" ..
    note p = sign_bounded_Inr [OF r assms(1)]
    from p(1) have "strict_json E (body_bytes r) m = Inr (rec_body r)"
      by (rule parse_bounded_body_bytes)
    moreover from p(1) have "supported_version (rec_body r)"
      by (auto elim: parse_bounded_Inr)
    ultimately show "\<exists>j. strict_json E body m = Inr j \<and> supported_version j"
      using p(2) by auto
  next
    assume "\<exists>j. strict_json E body m = Inr j \<and> supported_version j"
    then obtain j where j: "strict_json E body m = Inr j" "supported_version j" by blast
    from strict_json_length [OF j(1)] assms(2,3)
    have len: "length body + 72 \<le> m" "length body < 2 ^ 32" by auto
    show "\<exists>r. sign_bounded E body key m = Inr r"
      using parse_bounded_frame [OF sig len(2,1) j refl] j(1) len(2)
      by (auto simp: sign_bounded_def Let_def)
  qed
next
  fix r
  assume r: "sign_bounded E body key m = Inr r"
  note p = sign_bounded_Inr [OF r assms(1)]
  show "parse_bounded E (rec_bytes r) m = Inr r" "body_bytes r = body"
    using p by blast+
  show "verify_signature E r (ed_public E key) = Inr ()"
    using p assms(1) by (simp add: verify_signature_def signing_correct_def)
qed

subsection \<open>What the strict visitor accepts\<close>

fun raw_ok :: "raw_json \<Rightarrow> bool" where
  "raw_ok (RU64 n) = (n \<le> MAX_INTEGER)"
| "raw_ok (RI64 _) = False"
| "raw_ok RF64 = False"
| "raw_ok (RSeq vs) = (\<forall>v \<in> set vs. raw_ok v)"
| "raw_ok (RMap es) = (distinct (map fst es) \<and> (\<forall>v \<in> set (map snd es). raw_ok v))"
| "raw_ok _ = True"

lemma strict_value_ok:
  "(\<exists>j. strict_value v = Some j) \<longleftrightarrow> raw_ok v"
  "(\<exists>js. strict_seq vs = Some js) \<longleftrightarrow> (\<forall>v \<in> set vs. raw_ok v)"
  "(\<exists>m'. strict_map m es = Some m') \<longleftrightarrow>
     distinct (map fst es) \<and> fst ` set es \<inter> fst ` set m = {} \<and> (\<forall>v \<in> set (map snd es). raw_ok v)"
proof (induction v and vs and m es rule: strict_value_strict_seq_strict_map.induct)
  case (3 v)
  then show ?case by auto
next
  case (10 v vs)
  then show ?case by (fastforce split: option.splits)
next
  case (12 m key v es)
  show ?case
  proof (cases "bt_contains m key \<or> strict_value v = None")
    case True
    with "12.IH"(1) show ?thesis by (auto simp: bt_contains_iff)
  next
    case False
    then obtain x where x: "strict_value v = Some x" and new: "\<not> bt_contains m key" by auto
    have keys: "fst ` set (bt_insert key x m) = insert key (fst ` set m)"
      using bt_keys_insert [of key x m] by simp
    from "12.IH"(1) [OF new] x have okv: "raw_ok v" by blast
    from "12.IH"(2) [OF new x] x new okv show ?thesis
      by (auto simp: keys bt_contains_iff)
  qed
qed auto

text \<open>
  The strict visitor accepts exactly the JSON trees in which every object has distinct
  keys at every level and every number is an integer from 0 to 2^53 - 1.
\<close>

lemma strict_value_accepts: "(\<exists>j. strict_value v = Some j) \<longleftrightarrow> raw_ok v"
  by (rule strict_value_ok)

subsection \<open>Message time\<close>

text \<open>
  The time a device stamps on its next message is acceptable to peers whose clock agrees
  with its own, is never behind its clock, and is later than every message it has seen as
  long as peers would accept such a time at all.
\<close>

lemma next_message_time_valid:
  assumes "now \<le> MAX_INTEGER"
  shows "valid_message_time_at (next_message_time highest now) now
     \<and> now \<le> next_message_time highest now
     \<and> (valid_message_time_at (saturating_add highest 1) now \<longrightarrow> highest < next_message_time highest now)"
  using assms
  by (auto simp: next_message_time_def valid_message_time_at_def saturating_add_def Let_def
      MAX_INTEGER_def U64_MAX_def MAX_MESSAGE_CLOCK_SKEW_MS_def)

end
