(* ===== verification/Chat_Message.thy ===== *)
theory Chat_Message
  imports Signed_Record
begin

text \<open>
  The chat part of \<^verbatim>\<open>record.rs\<close>: message payloads, actions, locators and access keys, and
  \<open>ChatMessage_validate\<close>, the semantic check every chat record passes before it has an
  effect. The derived decoder and the bundled reaction catalogue are parameters.
\<close>

datatype MessageAction =
    Reaction RecordId string bool
  | Pin RecordId bool
  | Delete RecordId
  | Edit RecordId string "IdentityId list"
  | Expiry RecordId "nat option"

record TextPayload =
  tp_text :: string
  tp_mentions :: "IdentityId list"
  tp_expires_at_ms :: "nat option"
  tp_sender_name :: "string option"
  tp_thread_root :: "RecordId option"
  tp_action :: "MessageAction option"

record MessageAccess =
  ma_request_key :: string
  ma_accept_secret :: "string option"

record MessageLocator =
  ml_message_record_id :: RecordId
  ml_body_object_id :: ObjectId
  ml_locator_nonce :: string
  ml_request_secret :: string

record ChatMessage =
  cm_v :: nat
  cm_kind :: string
  cm_nonce :: string
  cm_space_id :: SpaceId
  cm_stream_id :: StreamId
  cm_issuer_identity :: IdentityId
  cm_issuer_credential :: RecordId
  cm_config_id :: RecordId
  cm_audience :: "IdentityId list"
  cm_recipient_credentials :: "RecordId list"
  cm_logical_time :: nat
  cm_created_at :: string
  cm_parents :: "RecordId list"
  cm_payload :: TextPayload
  cm_locator :: "MessageLocator option"
  cm_access :: "MessageAccess option"

record chat_ext = crypto +
  dec_chat :: "json \<Rightarrow> ChatMessage option"
  ser_chat :: "ChatMessage \<Rightarrow> bytes"
  reaction_choices :: "string list"

fun action_target :: "MessageAction \<Rightarrow> RecordId" where
  "action_target (Reaction target _ _) = target"
| "action_target (Pin target _) = target"
| "action_target (Delete target) = target"
| "action_target (Expiry target _) = target"
| "action_target (Edit target _ _) = target"

definition valid_mentions :: "IdentityId list \<Rightarrow> bool" where
  "valid_mentions mentions \<longleftrightarrow> length mentions \<le> 32 \<and> windows2_all (<) mentions"

fun action_valid :: "('z chat_ext_scheme) \<Rightarrow> MessageAction \<Rightarrow> bool" where
  "action_valid E (Reaction _ emoji _) = (emoji \<in> set (reaction_choices E))"
| "action_valid E (Pin _ _) = True"
| "action_valid E (Delete _) = True"
| "action_valid E (Edit _ text mentions) =
     (trim (str_chars text) \<noteq> [] \<and> length text \<le> 16384 \<and> valid_mentions mentions)"
| "action_valid E (Expiry _ hours) =
     (case hours of None \<Rightarrow> True | Some h \<Rightarrow> h = 1 \<or> h = 12 \<or> h = 24)"

text \<open>\<^verbatim>\<open>retention_access::valid_key\<close>\<close>

definition valid_key :: "('z crypto_scheme) \<Rightarrow> string \<Rightarrow> bool" where
  "valid_key E key =
     (case hex 32 key of
        Inl _ \<Rightarrow> False
      | Inr b \<Rightarrow> ed_key_valid E b \<and> \<not> ed_key_weak E b)"

subsection \<open>Timestamps\<close>

definition is_ascii_digit :: "char \<Rightarrow> bool" where
  "is_ascii_digit c \<longleftrightarrow> (48 :: nat) \<le> of_char c \<and> of_char c \<le> (57 :: nat)"

definition parse_decimal :: "string \<Rightarrow> nat" where
  "parse_decimal s = foldl (\<lambda>acc c. acc * 10 + (of_char c - 48)) 0 s"

definition timestamp_separator :: "nat \<Rightarrow> char option" where
  "timestamp_separator i =
     (if i = 4 \<or> i = 7 then Some (CHR ''-'')
      else if i = 10 then Some (CHR ''T'')
      else if i = 13 \<or> i = 16 then Some (CHR '':'')
      else if i = 19 then Some (CHR ''Z'')
      else None)"

definition days_in_month :: "nat \<Rightarrow> nat \<Rightarrow> nat" where
  "days_in_month y m =
     (if m \<in> set [1, 3, 5, 7, 8, 10, 12] then 31
      else if m \<in> set [4, 6, 9, 11] then 30
      else if m = 2 then
        (if y mod 4 = 0 \<and> (y mod 100 \<noteq> 0 \<or> y mod 400 = 0) then 29 else 28)
      else 0)"

definition valid_timestamp :: "string \<Rightarrow> bool" where
  "valid_timestamp s \<longleftrightarrow>
     length s = 20
     \<and> list_all (\<lambda>(i, c). case timestamp_separator i of Some e \<Rightarrow> e = c | None \<Rightarrow> is_ascii_digit c)
         (enumerate 0 s)
     \<and> (let n = (\<lambda>a z. parse_decimal (take (z - a) (drop a s)));
            y = n 0 4; m = n 5 7; d = n 8 10; days = days_in_month y m in
        y > 0 \<and> d > 0 \<and> d \<le> days \<and> n 11 13 < 24 \<and> n 14 16 < 60 \<and> n 17 19 < 60)"

subsection \<open>Validation\<close>

text \<open>The match on kind, action and locator: whether the combination is malformed.\<close>

definition kind_malformed :: "('z chat_ext_scheme) \<Rightarrow> ChatMessage \<Rightarrow> bool" where
  "kind_malformed E c =
     (let p = cm_payload c in
      if cm_kind c = ''chat.message'' \<and> tp_action p = None \<and> cm_locator c = None then
        \<not> (1 \<le> length (tp_text p) \<and> length (tp_text p) \<le> 16384)
      else if cm_kind c = ''chat.private-settings'' \<and> tp_action p = None \<and> cm_locator c = None then
        \<not> (1 \<le> length (tp_text p) \<and> length (tp_text p) \<le> 16384)
        \<or> cm_audience c \<noteq> [cm_issuer_identity c]
        \<or> tp_sender_name p \<noteq> None
        \<or> tp_thread_root p \<noteq> None
        \<or> tp_expires_at_ms p \<noteq> None
        \<or> cm_parents c \<noteq> []
      else case (tp_action p, cm_locator c) of
        (Some action, None) \<Rightarrow>
          if cm_kind c = ''chat.action'' then
            tp_text p \<noteq> [] \<or> tp_thread_root p \<noteq> None \<or> \<not> action_valid E action
          else True
      | (None, Some locator) \<Rightarrow>
          if cm_kind c = ''chat.locator'' then
            tp_text p \<noteq> []
            \<or> tp_sender_name p \<noteq> None
            \<or> tp_action p \<noteq> None
            \<or> \<not> is_ok (hex 16 (ml_locator_nonce locator))
            \<or> (ml_request_secret locator \<noteq> [] \<and> \<not> is_ok (hex 32 (ml_request_secret locator)))
          else True
      | _ \<Rightarrow> True)"

definition edit_mentions :: "ChatMessage \<Rightarrow> IdentityId list" where
  "edit_mentions c = (case tp_action (cm_payload c) of Some (Edit _ _ ms) \<Rightarrow> ms | _ \<Rightarrow> [])"

definition ChatMessage_validate :: "('z chat_ext_scheme) \<Rightarrow> ChatMessage \<Rightarrow> RecordError + unit" where
  "ChatMessage_validate E c =
     (let p = cm_payload c in
      if cm_v c \<noteq> 1
         \<or> cm_kind c \<notin> set [''chat.message'', ''chat.action'', ''chat.locator'', ''chat.private-settings'']
      then Inl Unsupported
      else bindr (hex 16 (cm_nonce c)) (\<lambda>_.
        if (case tp_expires_at_ms p of
              None \<Rightarrow> False
            | Some expires \<Rightarrow>
                expires = 0 \<or> expires > MAX_EXPIRY_TIMESTAMP_MS \<or> cm_kind c = ''chat.action'')
        then Inl Json
        else if \<not> valid_mentions (tp_mentions p)
          \<or> list_ex (\<lambda>i. i \<notin> set (cm_audience c)) (tp_mentions p)
          \<or> (cm_kind c \<noteq> ''chat.message'' \<and> tp_mentions p \<noteq> [])
          \<or> list_ex (\<lambda>i. i \<notin> set (cm_audience c)) (edit_mentions c)
          \<or> \<not> sorted_unique (cm_audience c) 1 MAX_CHAT_MEMBERS
          \<or> \<not> sorted_unique (cm_recipient_credentials c) 1 MAX_CHAT_CREDENTIALS
          \<or> length (cm_parents c) > 16
          \<or> \<not> distinct (cm_parents c)
          \<or> cm_logical_time c > MAX_INTEGER
          \<or> kind_malformed E c
          \<or> (case tp_sender_name p of None \<Rightarrow> False | Some name \<Rightarrow> \<not> valid_display_name name)
          \<or> \<not> valid_timestamp (cm_created_at c)
        then Inl Json
        else if (case cm_access c of
                   None \<Rightarrow> False
                 | Some access \<Rightarrow>
                     cm_kind c \<noteq> ''chat.message''
                     \<or> \<not> valid_key E (ma_request_key access)
                     \<or> (case ma_accept_secret access of
                          None \<Rightarrow> False
                        | Some seed \<Rightarrow> \<not> is_ok (hex 32 seed) \<or> length (cm_audience c) \<noteq> 2))
        then Inl Json
        else Inr ()))"

definition ChatMessage_sign ::
  "('z chat_ext_scheme) \<Rightarrow> ChatMessage \<Rightarrow> bytes \<Rightarrow> RecordError + SignedRecord" where
  "ChatMessage_sign E c key =
     bindr (ChatMessage_validate E c) (\<lambda>_. sign E (ser_chat E c) key)"

text \<open>\<^verbatim>\<open>SignedRecord::chat\<close>\<close>

definition chat :: "('z chat_ext_scheme) \<Rightarrow> SignedRecord \<Rightarrow> RecordError + ChatMessage" where
  "chat E r =
     (if length (rec_bytes r) > MAX_RECORD then Inl Framing
      else bindr (decode_with (dec_chat E) r) (\<lambda>c.
           bindr (ChatMessage_validate E c) (\<lambda>_. Inr c)))"

subsection \<open>What a validated message satisfies\<close>

lemma chat_Inr [result_simps]:
  "chat E r = Inr c \<longleftrightarrow>
     length (rec_bytes r) \<le> MAX_RECORD \<and> dec_chat E (rec_body r) = Some c \<and> ChatMessage_validate E c = Inr ()"
  by (auto simp: chat_def result_simps)

lemma validate_audience:
  assumes "ChatMessage_validate E c = Inr ()"
  shows "sorted_wrt (<) (cm_audience c)" "cm_audience c \<noteq> []" "length (cm_audience c) \<le> MAX_CHAT_MEMBERS"
    "sorted_wrt (<) (cm_recipient_credentials c)" "cm_recipient_credentials c \<noteq> []"
    "set (tp_mentions (cm_payload c)) \<subseteq> set (cm_audience c)"
    "set (edit_mentions c) \<subseteq> set (cm_audience c)"
  using assms
  by (auto simp: ChatMessage_validate_def Let_def result_simps list_ex_iff std_simps split: if_splits)

lemma validate_kind:
  assumes "ChatMessage_validate E c = Inr ()"
  shows "\<not> kind_malformed E c" "cm_v c = 1" "cm_logical_time c \<le> MAX_INTEGER"
    "valid_timestamp (cm_created_at c)" "distinct (cm_parents c)" "length (cm_parents c) \<le> 16"
  using assms
  by (auto simp: ChatMessage_validate_def Let_def result_simps split: if_splits)

text \<open>
  An accepted chat record is of exactly one shape. A plain message carries text and
  neither action nor locator; private settings go to the author alone; an action carries no
  text and a valid action, and a locator carries no text and no action.
\<close>

lemma validate_one_shape:
  assumes "ChatMessage_validate E c = Inr ()"
  shows
    "(cm_kind c = ''chat.message'' \<and> tp_action (cm_payload c) = None \<and> cm_locator c = None
        \<and> tp_text (cm_payload c) \<noteq> [] \<and> length (tp_text (cm_payload c)) \<le> 16384)
     \<or> (cm_kind c = ''chat.private-settings'' \<and> tp_action (cm_payload c) = None \<and> cm_locator c = None
        \<and> cm_audience c = [cm_issuer_identity c] \<and> cm_parents c = [])
     \<or> (cm_kind c = ''chat.action'' \<and> (\<exists>a. tp_action (cm_payload c) = Some a \<and> action_valid E a)
        \<and> cm_locator c = None \<and> tp_text (cm_payload c) = [])
     \<or> (cm_kind c = ''chat.locator'' \<and> tp_action (cm_payload c) = None
        \<and> (\<exists>l. cm_locator c = Some l \<and> (\<exists>n. hex 16 (ml_locator_nonce l) = Inr n))
        \<and> tp_text (cm_payload c) = [])"
  using validate_kind(1) [OF assms]
  by (auto simp: kind_malformed_def Let_def result_simps Suc_le_eq split: if_splits option.splits)

end
