(* ===== verification/Identity.thy ===== *)
theory Identity
  imports Chat_Message
begin

text \<open>
  \<^verbatim>\<open>crates/elo-core/src/identity.rs\<close>: device credentials anchored at an identity root, the
  bounded delegation chain by which a device authorizes a companion device, and device
  revocations. \<open>credential_chain\<close> is the specification a verified credential meets: each
  link is signed by the next one and the last by the root.
\<close>

definition MAX_COMPANION_DEPTH :: nat where "MAX_COMPANION_DEPTH = 4"
definition MAX_CREDENTIAL_BYTES :: nat where "MAX_CREDENTIAL_BYTES = 8 * 1024"
definition MAX_ENCODED_CREDENTIAL :: nat where
  "MAX_ENCODED_CREDENTIAL = (MAX_CREDENTIAL_BYTES + 2) div 3 * 4"

record DeviceCredential =
  dc_v :: nat
  dc_kind :: string
  dc_nonce :: string
  dc_identity_id :: IdentityId
  dc_root_public_key :: string
  dc_signing_public_key :: string
  dc_age_recipient :: string
  dc_authorizing_device :: "string option"

record VerifiedCredential =
  vc_record :: SignedRecord
  vc_body :: DeviceCredential
  vc_key :: bytes
  vc_delegation_depth :: nat

record DeviceRevocation =
  dr_v :: nat
  dr_kind :: string
  dr_nonce :: string
  dr_credential :: string
  dr_authorizing_device :: "string option"

record identity_ext = chat_ext +
  dec_credential :: "json \<Rightarrow> DeviceCredential option"
  ser_credential :: "DeviceCredential \<Rightarrow> bytes"
  dec_revocation :: "json \<Rightarrow> DeviceRevocation option"
  ser_revocation :: "DeviceRevocation \<Rightarrow> bytes"

lemma bindr_cong [fundef_cong]:
  "m = m' \<Longrightarrow> (\<And>x. m' = Inr x \<Longrightarrow> f x = g x) \<Longrightarrow> bindr m f = bindr m' g"
  by (cases m') auto

subsection \<open>Verification\<close>

function verify_at_depth ::
  "('z identity_ext_scheme) \<Rightarrow> bytes \<Rightarrow> bytes \<Rightarrow> nat \<Rightarrow> RecordError + VerifiedCredential" where
  "verify_at_depth E b trusted_root depth =
     bindr (parse_bounded E b MAX_CREDENTIAL_BYTES) (\<lambda>record.
     bindr (decode_with (dec_credential E) record) (\<lambda>body.
     if \<not> (dc_v body = 1 \<or> dc_v body = 2) \<or> dc_kind body \<noteq> ''device.credential'' then Inl Unsupported
     else
     bindr (hex 16 (dc_nonce body)) (\<lambda>_.
     if dc_identity_id body \<noteq> of_root_key E trusted_root then Inl Authority_err
     else
     bindr (hex 32 (dc_root_public_key body)) (\<lambda>root_key.
     if root_key \<noteq> trusted_root then Inl Authority_err
     else
     bindr
       (case dc_authorizing_device body of
          None \<Rightarrow>
            if dc_v body = 1 then bindr (verify_signature E record trusted_root) (\<lambda>_. Inr 0)
            else Inl Unsupported
        | Some encoded \<Rightarrow>
            if dc_v body = 2 then
              (if depth \<ge> MAX_COMPANION_DEPTH \<or> length encoded > MAX_ENCODED_CREDENTIAL then Inl Framing
               else
               bindr (ok_or (b64_decode E encoded) Json) (\<lambda>pb.
               bindr (verify_at_depth E pb trusted_root (depth + 1)) (\<lambda>parent.
               bindr (verify_signature E record (vc_key parent)) (\<lambda>_.
               Inr (vc_delegation_depth parent + 1)))))
            else Inl Unsupported) (\<lambda>delegation_depth.
     bindr (hex 32 (dc_signing_public_key body)) (\<lambda>kb.
     bindr (verifying_key E kb Signature) (\<lambda>key.
     if ed_key_weak E key then Inl Signature
     else
     bindr (ok_or (age_parse E (dc_age_recipient body)) Json) (\<lambda>recipient.
     if recipient \<noteq> dc_age_recipient body then Inl Json
     else Inr \<lparr>vc_record = record, vc_body = body, vc_key = key, vc_delegation_depth = delegation_depth\<rparr>))))))))"
  by pat_completeness auto
termination
  by (relation "measure (\<lambda>(E, b, root, depth). MAX_COMPANION_DEPTH - depth)") auto

declare verify_at_depth.simps [simp del]

definition verify :: "('z identity_ext_scheme) \<Rightarrow> bytes \<Rightarrow> bytes \<Rightarrow> RecordError + VerifiedCredential" where
  "verify E b trusted_root = verify_at_depth E b trusted_root 0"

definition credential_id :: "('z crypto_scheme) \<Rightarrow> VerifiedCredential \<Rightarrow> RecordId" where
  "credential_id E c = record_id E (vc_record c)"

abbreviation identity :: "VerifiedCredential \<Rightarrow> IdentityId" where
  "identity c \<equiv> dc_identity_id (vc_body c)"

text \<open>\<^verbatim>\<open>recipient()\<close> of a verified credential: its text was checked to be canonical.\<close>

abbreviation recipient :: "VerifiedCredential \<Rightarrow> string" where
  "recipient c \<equiv> dc_age_recipient (vc_body c)"

text \<open>\<^verbatim>\<open>record().body()["root_public_key"]\<close>, read from the preserved body.\<close>

definition root_public_key_json :: "VerifiedCredential \<Rightarrow> json" where
  "root_public_key_json c = json_index (rec_body (vc_record c)) ''root_public_key''"

definition authorizing_device :: "('z crypto_scheme) \<Rightarrow> VerifiedCredential \<Rightarrow> RecordId option" where
  "authorizing_device E c =
     (case dc_authorizing_device (vc_body c) of
        None \<Rightarrow> None
      | Some encoded \<Rightarrow>
          (case b64_decode E encoded of
             None \<Rightarrow> None
           | Some b \<Rightarrow> map_option (record_id E) (ok (parse E b))))"

definition can_issue_companion :: "VerifiedCredential \<Rightarrow> bool" where
  "can_issue_companion c \<longleftrightarrow> vc_delegation_depth c < MAX_COMPANION_DEPTH"

definition verify_chat ::
  "('z identity_ext_scheme) \<Rightarrow> VerifiedCredential \<Rightarrow> SignedRecord \<Rightarrow> RecordError + ChatMessage" where
  "verify_chat E c record =
     bindr (chat E record) (\<lambda>m.
     if cm_issuer_credential m \<noteq> credential_id E c \<or> cm_issuer_identity m \<noteq> identity c
     then Inl Authority_err
     else bindr (verify_signature E record (vc_key c)) (\<lambda>_. Inr m))"

subsection \<open>Issuing\<close>

definition issue ::
  "('z identity_ext_scheme) \<Rightarrow> bytes option \<Rightarrow> bytes \<Rightarrow> bytes \<Rightarrow> string \<Rightarrow> RecordError + VerifiedCredential" where
  "issue E rnd root signing_key rcpt =
     bindr (random_hex rnd) (\<lambda>nonce.
     let body = \<lparr>dc_v = 1, dc_kind = ''device.credential'', dc_nonce = nonce,
           dc_identity_id = of_root_key E (ed_public E root),
           dc_root_public_key = encode_hex (ed_public E root),
           dc_signing_public_key = encode_hex signing_key,
           dc_age_recipient = rcpt, dc_authorizing_device = None\<rparr> in
     bindr (sign E (ser_credential E body) root) (\<lambda>record.
     verify E (rec_bytes record) (ed_public E root)))"

definition issue_companion ::
  "('z identity_ext_scheme) \<Rightarrow> bytes option \<Rightarrow> VerifiedCredential \<Rightarrow> bytes \<Rightarrow> bytes \<Rightarrow> string
     \<Rightarrow> RecordError + VerifiedCredential" where
  "issue_companion E rnd authorizer authorizing_key signing_key rcpt =
     (if \<not> can_issue_companion authorizer \<or> vc_key authorizer \<noteq> ed_public E authorizing_key
      then Inl Authority_err
      else
      bindr (hex 32 (dc_root_public_key (vc_body authorizer))) (\<lambda>rb.
      bindr (verifying_key E rb Signature) (\<lambda>root.
      bindr (random_hex rnd) (\<lambda>nonce.
      let body = \<lparr>dc_v = 2, dc_kind = ''device.credential'', dc_nonce = nonce,
            dc_identity_id = identity authorizer,
            dc_root_public_key = dc_root_public_key (vc_body authorizer),
            dc_signing_public_key = encode_hex signing_key,
            dc_age_recipient = rcpt,
            dc_authorizing_device = Some (b64_encode E (rec_bytes (vc_record authorizer)))\<rparr> in
      bindr (sign E (ser_credential E body) authorizing_key) (\<lambda>record.
      verify E (rec_bytes record) root)))))"

definition generate_signing_key :: "bytes option \<Rightarrow> RecordError + bytes" where
  "generate_signing_key rnd = ok_or rnd Random"

subsection \<open>Revocation records\<close>

definition revocation_issue ::
  "('z identity_ext_scheme) \<Rightarrow> bytes option \<Rightarrow> bytes \<Rightarrow> VerifiedCredential \<Rightarrow> RecordError + SignedRecord" where
  "revocation_issue E rnd root credential =
     (if identity credential \<noteq> of_root_key E (ed_public E root) then Inl Authority_err
      else bindr (random_hex rnd) (\<lambda>nonce.
        sign E (ser_revocation E \<lparr>dr_v = 1, dr_kind = ''device.revoked'', dr_nonce = nonce,
            dr_credential = b64_encode E (rec_bytes (vc_record credential)),
            dr_authorizing_device = None\<rparr>) root))"

definition issue_from_device ::
  "('z identity_ext_scheme) \<Rightarrow> bytes option \<Rightarrow> VerifiedCredential \<Rightarrow> bytes \<Rightarrow> VerifiedCredential
     \<Rightarrow> RecordError + SignedRecord" where
  "issue_from_device E rnd authorizer key target =
     (if identity authorizer \<noteq> identity target
         \<or> credential_id E authorizer = credential_id E target
         \<or> vc_key authorizer \<noteq> ed_public E key
      then Inl Authority_err
      else bindr (random_hex rnd) (\<lambda>nonce.
        sign E (ser_revocation E \<lparr>dr_v = 2, dr_kind = ''device.revoked'', dr_nonce = nonce,
            dr_credential = b64_encode E (rec_bytes (vc_record target)),
            dr_authorizing_device = Some (b64_encode E (rec_bytes (vc_record authorizer)))\<rparr>) key))"

text \<open>The match on version and authorizing device in \<^verbatim>\<open>verify_inner\<close>: who signed.\<close>

definition revocation_signature ::
  "('z identity_ext_scheme) \<Rightarrow> SignedRecord \<Rightarrow> DeviceRevocation \<Rightarrow> bytes \<Rightarrow> VerifiedCredential
     \<Rightarrow> VerifiedCredential option \<Rightarrow> RecordError + unit" where
  "revocation_signature E srec body root credential requester =
     (case dr_authorizing_device body of
        None \<Rightarrow> if dr_v body = 1 then verify_signature E srec root else Inl Unsupported
      | Some encoded \<Rightarrow>
          if dr_v body = 2 then
            (if length encoded > MAX_ENCODED_CREDENTIAL then Inl Framing
             else
             bindr (ok_or (b64_decode E encoded) Json) (\<lambda>ab.
             bindr (verify E ab root) (\<lambda>authorizer.
             if credential_id E authorizer = credential_id E credential
                \<or> (case requester of None \<Rightarrow> False
                    | Some rq \<Rightarrow> credential_id E rq \<noteq> credential_id E authorizer)
             then Inl Authority_err
             else verify_signature E srec (vc_key authorizer))))
          else Inl Unsupported)"

definition verify_inner ::
  "('z identity_ext_scheme) \<Rightarrow> SignedRecord \<Rightarrow> VerifiedCredential option \<Rightarrow> RecordError + VerifiedCredential" where
  "verify_inner E srec requester =
     bindr (decode_with (dec_revocation E) srec) (\<lambda>body.
     if \<not> (dr_v body = 1 \<or> dr_v body = 2) \<or> dr_kind body \<noteq> ''device.revoked'' then Inl Unsupported
     else
     bindr (hex 16 (dr_nonce body)) (\<lambda>_.
     bindr (ok_or (b64_decode E (dr_credential body)) Json) (\<lambda>b.
     bindr (parse E b) (\<lambda>candidate.
     bindr (decode_with (dec_credential E) candidate) (\<lambda>cbody.
     bindr (hex 32 (dc_root_public_key cbody)) (\<lambda>rb.
     bindr (verifying_key E rb Signature) (\<lambda>root.
     bindr (verify E b root) (\<lambda>credential.
     bindr (revocation_signature E srec body root credential requester) (\<lambda>_.
     if (case requester of None \<Rightarrow> False
         | Some rq \<Rightarrow> identity rq \<noteq> identity credential \<or> credential_id E rq = credential_id E credential)
     then Inl Authority_err
     else Inr credential)))))))))"

definition revocation_verify :: "('z identity_ext_scheme) \<Rightarrow> SignedRecord \<Rightarrow> RecordError + VerifiedCredential" where
  "revocation_verify E srec = verify_inner E srec None"

definition verify_request ::
  "('z identity_ext_scheme) \<Rightarrow> SignedRecord \<Rightarrow> VerifiedCredential \<Rightarrow> RecordError + VerifiedCredential" where
  "verify_request E srec requester = verify_inner E srec (Some requester)"

subsection \<open>The chain behind a verified credential\<close>

text \<open>
  A credential with its chain of authorizing devices: every device key signs the credential
  it authorizes, every link names the same identity and the same root, and the root signs
  the last one.
\<close>

inductive credential_chain ::
  "('z identity_ext_scheme) \<Rightarrow> bytes \<Rightarrow> VerifiedCredential \<Rightarrow> nat \<Rightarrow> bool"
  for E :: "'z identity_ext_scheme" and root :: bytes where
  root_signed:
    "verify_signature E (vc_record c) root = Inr () \<Longrightarrow> identity c = of_root_key E root \<Longrightarrow>
     credential_chain E root c 0"
| device_signed:
    "credential_chain E root parent n \<Longrightarrow>
     verify_signature E (vc_record c) (vc_key parent) = Inr () \<Longrightarrow>
     identity c = identity parent \<Longrightarrow>
     authorizing_device E c = Some (credential_id E parent) \<Longrightarrow>
     credential_chain E root c (Suc n)"

lemma strict_json_mono: "strict_json E b m = Inr j \<Longrightarrow> m \<le> m' \<Longrightarrow> strict_json E b m' = Inr j"
  by (auto simp: strict_json_def saturating_sub_def split: if_splits)

lemma parse_bounded_mono:
  assumes "parse_bounded E b m = Inr r" "m \<le> m'"
  shows "parse_bounded E b m' = Inr r"
  using assms(1)
proof (rule parse_bounded_Inr)
  fix body sig
  assume b: "b = ELO1 @ u32_to_be_bytes (length body) @ body @ sig" and *: "length sig = 64"
    "length body < 2 ^ 32" "length b \<le> m" "strict_json E body m = Inr (rec_body r)"
    "supported_version (rec_body r)" "rec_bytes r = b"
  have "length body + 72 \<le> m'" using b * assms(2) by simp
  then have "parse_bounded E b m' = Inr \<lparr>rec_bytes = b, rec_body = rec_body r\<rparr>"
    using b * strict_json_mono [OF _ assms(2)] by (intro parse_bounded_frame) auto
  with * show ?thesis by (cases r) simp
qed

lemma parse_of_credential:
  "parse_bounded E b MAX_CREDENTIAL_BYTES = Inr r \<Longrightarrow> parse E b = Inr r"
  unfolding parse_def by (erule parse_bounded_mono) (simp add: MAX_CREDENTIAL_BYTES_def MAX_RECORD_def)

text \<open>One unfolding of the verifier, with every check it makes.\<close>

lemma verify_at_depth_cases:
  assumes "verify_at_depth E b root depth = Inr c"
  shows "parse_bounded E b MAX_CREDENTIAL_BYTES = Inr (vc_record c)"
    and "dec_credential E (rec_body (vc_record c)) = Some (vc_body c)"
    and "identity c = of_root_key E root"
    and "dc_root_public_key (vc_body c) = encode_hex root \<and> length root = 32"
    and "dc_kind (vc_body c) = ''device.credential''"
    and "dc_signing_public_key (vc_body c) = encode_hex (vc_key c)"
    and "ed_key_valid E (vc_key c) \<and> \<not> ed_key_weak E (vc_key c)"
    and "age_parse E (recipient c) = Some (recipient c)"
    and "(dc_v (vc_body c) = 1 \<and> dc_authorizing_device (vc_body c) = None
          \<and> verify_signature E (vc_record c) root = Inr () \<and> vc_delegation_depth c = 0)
         \<or> (\<exists>encoded pb parent. dc_v (vc_body c) = 2 \<and> dc_authorizing_device (vc_body c) = Some encoded
            \<and> depth < MAX_COMPANION_DEPTH \<and> b64_decode E encoded = Some pb
            \<and> verify_at_depth E pb root (depth + 1) = Inr parent
            \<and> verify_signature E (vc_record c) (vc_key parent) = Inr ()
            \<and> vc_delegation_depth c = vc_delegation_depth parent + 1)"
  using assms
  by (auto simp: verify_at_depth.simps [of E b root depth] bindr_eq_Inr ok_or_eq_Inr require_eq_Inr
      decode_with_iff hex_iff verifying_key_eq_Inr not_le split: if_splits option.splits)

lemma verify_at_depth_induct [consumes 1, case_names root device]:
  assumes "verify_at_depth E b root depth = Inr c"
    and "\<And>b depth c. verify_at_depth E b root depth = Inr c \<Longrightarrow> dc_authorizing_device (vc_body c) = None \<Longrightarrow>
      verify_signature E (vc_record c) root = Inr () \<Longrightarrow> vc_delegation_depth c = 0 \<Longrightarrow> P b depth c"
    and "\<And>b depth c encoded pb parent. verify_at_depth E b root depth = Inr c \<Longrightarrow>
      dc_authorizing_device (vc_body c) = Some encoded \<Longrightarrow> depth < MAX_COMPANION_DEPTH \<Longrightarrow>
      b64_decode E encoded = Some pb \<Longrightarrow> verify_at_depth E pb root (depth + 1) = Inr parent \<Longrightarrow>
      verify_signature E (vc_record c) (vc_key parent) = Inr () \<Longrightarrow>
      vc_delegation_depth c = vc_delegation_depth parent + 1 \<Longrightarrow> P pb (depth + 1) parent \<Longrightarrow> P b depth c"
  shows "P b depth c"
  using assms(1)
proof (induction "MAX_COMPANION_DEPTH - depth" arbitrary: b depth c rule: less_induct)
  case less
  from verify_at_depth_cases(9) [OF less.prems] show ?case
  proof (elim disjE exE conjE)
    assume "dc_authorizing_device (vc_body c) = None" "verify_signature E (vc_record c) root = Inr ()"
      "vc_delegation_depth c = 0"
    then show ?thesis by (rule assms(2) [OF less.prems])
  next
    fix encoded pb parent
    assume *: "dc_authorizing_device (vc_body c) = Some encoded" "depth < MAX_COMPANION_DEPTH"
      "b64_decode E encoded = Some pb" "verify_at_depth E pb root (depth + 1) = Inr parent"
      "verify_signature E (vc_record c) (vc_key parent) = Inr ()"
      "vc_delegation_depth c = vc_delegation_depth parent + 1"
    then have "P pb (depth + 1) parent" by (intro less.hyps) auto
    with * show ?thesis by (intro assms(3) [OF less.prems])
  qed
qed

lemma verify_at_depth_bound:
  "verify_at_depth E b root depth = Inr c \<Longrightarrow> depth \<le> MAX_COMPANION_DEPTH \<Longrightarrow>
   depth + vc_delegation_depth c \<le> MAX_COMPANION_DEPTH"
  by (induction rule: verify_at_depth_induct) auto

lemma authorizing_device_verified:
  assumes "dc_authorizing_device (vc_body c) = Some encoded" "b64_decode E encoded = Some pb"
    and "verify_at_depth E pb root depth = Inr parent"
  shows "authorizing_device E c = Some (credential_id E parent)"
  using assms parse_of_credential [OF verify_at_depth_cases(1) [OF assms(3)]]
  by (simp add: authorizing_device_def credential_id_def)

lemma verify_at_depth_chain:
  "verify_at_depth E b root depth = Inr c \<Longrightarrow> credential_chain E root c (vc_delegation_depth c)"
proof (induction rule: verify_at_depth_induct)
  case (root b depth c)
  then show ?case using credential_chain.root_signed verify_at_depth_cases(3) by metis
next
  case (device b depth c encoded pb parent)
  have "identity c = identity parent"
    using verify_at_depth_cases(3) device by metis
  with device show ?case
    by (auto intro: credential_chain.device_signed authorizing_device_verified)
qed

lemmas verify_cases = verify_at_depth_cases [where depth = 0, folded verify_def]

lemma verify_chain: "verify E b root = Inr c \<Longrightarrow> credential_chain E root c (vc_delegation_depth c)"
  by (simp add: verify_def verify_at_depth_chain)

lemma verify_depth: "verify E b root = Inr c \<Longrightarrow> vc_delegation_depth c \<le> MAX_COMPANION_DEPTH"
  using verify_at_depth_bound [of E b root 0 c] by (simp add: verify_def)

lemma credential_chain_identity: "credential_chain E root c n \<Longrightarrow> identity c = of_root_key E root"
  by (induction rule: credential_chain.induct) simp_all

text \<open>
  A verified credential is anchored at the trusted root. It carries the identity of that
  root, it ends a chain of at most four authorizing devices in which every link is signed by
  the next device and the last by the root, and its key is a valid strong key.
\<close>

lemma verify_anchored:
  assumes "verify E b root = Inr c"
  shows "credential_chain E root c (vc_delegation_depth c)
    \<and> vc_delegation_depth c \<le> MAX_COMPANION_DEPTH
    \<and> identity c = of_root_key E root
    \<and> rec_bytes (vc_record c) = b
    \<and> ed_key_valid E (vc_key c) \<and> \<not> ed_key_weak E (vc_key c)"
  using verify_chain [OF assms] verify_depth [OF assms] verify_cases [OF assms]
  by (auto dest: parse_bounded_body_bytes(1))

subsection \<open>Issued credentials\<close>

lemma issue_companion_Inr:
  assumes "issue_companion E rnd a key sk rcpt = Inr c"
  shows "can_issue_companion a" "vc_key a = ed_public E key"
    "\<exists>root. dc_root_public_key (vc_body a) = encode_hex root \<and> (\<exists>b. verify E b root = Inr c)"
  using assms
  by (auto simp: issue_companion_def Let_def bindr_eq_Inr hex_iff verifying_key_eq_Inr split: if_splits)

text \<open>
  An unlocked device never issues a credential that a verifier would not accept: whatever
  \<^verbatim>\<open>issue\<close> or \<^verbatim>\<open>issue_companion\<close> returns verifies from its own bytes under the root of the
  issuing identity, and only a device with remaining chain capacity can issue.
\<close>

lemma issued_credentials_verify:
  "(issue E rnd root sk rcpt = Inr c \<longrightarrow>
      verify E (rec_bytes (vc_record c)) (ed_public E root) = Inr c \<and> vc_delegation_depth c \<le> MAX_COMPANION_DEPTH)
   \<and> (issue_companion E rnd a key sk rcpt = Inr c \<longrightarrow>
      vc_delegation_depth a < MAX_COMPANION_DEPTH \<and>
      (\<exists>r. dc_root_public_key (vc_body a) = encode_hex r \<and> verify E (rec_bytes (vc_record c)) r = Inr c))"
proof (intro conjI impI)
  assume "issue E rnd root sk rcpt = Inr c"
  then obtain b where v: "verify E b (ed_public E root) = Inr c"
    by (auto simp: issue_def Let_def bindr_eq_Inr)
  then have "rec_bytes (vc_record c) = b"
    using verify_cases(1) parse_bounded_body_bytes(1) by blast
  with v show "verify E (rec_bytes (vc_record c)) (ed_public E root) = Inr c" by simp
  from v show "vc_delegation_depth c \<le> MAX_COMPANION_DEPTH" by (rule verify_depth)
next
  assume i: "issue_companion E rnd a key sk rcpt = Inr c"
  then show "vc_delegation_depth a < MAX_COMPANION_DEPTH"
    using issue_companion_Inr(1) by (simp add: can_issue_companion_def)
  from issue_companion_Inr(3) [OF i] obtain r b where
    r: "dc_root_public_key (vc_body a) = encode_hex r" and v: "verify E b r = Inr c" by blast
  then have "rec_bytes (vc_record c) = b"
    using verify_cases(1) parse_bounded_body_bytes(1) by blast
  with r v show "\<exists>r. dc_root_public_key (vc_body a) = encode_hex r \<and> verify E (rec_bytes (vc_record c)) r = Inr c"
    by blast
qed

subsection \<open>Revocations\<close>

lemma revocation_signature_Inr:
  assumes "revocation_signature E srec body root c requester = Inr u"
  shows "verify_signature E srec root = Inr ()
     \<or> (\<exists>ab a. verify E ab root = Inr a \<and> credential_id E a \<noteq> credential_id E c
          \<and> verify_signature E srec (vc_key a) = Inr ()
          \<and> (\<forall>rq. requester = Some rq \<longrightarrow> credential_id E rq = credential_id E a))"
  using assms
  by (fastforce simp: revocation_signature_def bindr_eq_Inr ok_or_eq_Inr split: if_splits option.splits)

lemma verify_inner_Inr:
  assumes "verify_inner E srec requester = Inr c"
  shows "\<exists>root b body. verify E b root = Inr c \<and> revocation_signature E srec body root c requester = Inr ()"
    "\<And>rq. requester = Some rq \<Longrightarrow> identity rq = identity c \<and> credential_id E rq \<noteq> credential_id E c"
  using assms
  by (auto simp: verify_inner_def bindr_eq_Inr split: if_splits option.splits)

text \<open>
  A verified revocation request retires a device of the requester's own identity and never
  the requester itself, and it is signed either by that identity's root or by the requesting
  device, whose own credential verifies under the same root.
\<close>

lemma verify_request_authorized:
  assumes "verify_request E srec requester = Inr target"
  shows "identity requester = identity target
    \<and> credential_id E requester \<noteq> credential_id E target
    \<and> (\<exists>root b. verify E b root = Inr target \<and>
         (verify_signature E srec root = Inr ()
          \<or> (\<exists>ab a. verify E ab root = Inr a \<and> credential_id E a = credential_id E requester
               \<and> verify_signature E srec (vc_key a) = Inr ())))"
proof -
  from assms have v: "verify_inner E srec (Some requester) = Inr target"
    by (simp add: verify_request_def)
  from verify_inner_Inr(1) [OF v] obtain root b body where
    "verify E b root = Inr target" "revocation_signature E srec body root target (Some requester) = Inr ()"
    by blast
  then show ?thesis
    using verify_inner_Inr(2) [OF v] revocation_signature_Inr by (metis (no_types, lifting))
qed

end
