(* ===== verification/Revocations.thy ===== *)
theory Revocations
  imports Identity
begin

text \<open>
  \<^verbatim>\<open>crates/elo-core/src/identity/revocations.rs\<close>: permanent device tombstones. The registry
  is a directory of files named after the retired credential, with an in-memory index of
  retirement times per identity. The directory is a list of entries (name, bytes,
  modification time); directory permissions are not modelled. The invariant \<open>tombstones_ok\<close>
  says that the index counts exactly the files.
\<close>

definition MAX_REVOKED_DEVICES :: nat where "MAX_REVOKED_DEVICES = 65536"
definition MAX_REVOCATIONS_PER_HOUR :: nat where "MAX_REVOCATIONS_PER_HOUR = 16"
definition MAX_REVOCATIONS_PER_DAY :: nat where "MAX_REVOCATIONS_PER_DAY = 32"

datatype AppError = App string | AppRecord RecordError

record Budget =
  identities :: "(IdentityId, (RecordId, nat) btree_map) btree_map"
  total :: nat

definition Budget_default :: Budget where
  "Budget_default = \<lparr>identities = [], total = 0\<rparr>"

definition budget_entries :: "Budget \<Rightarrow> IdentityId \<Rightarrow> (RecordId, nat) btree_map" where
  "budget_entries b i = (case bt_get (identities b) i of None \<Rightarrow> [] | Some es \<Rightarrow> es)"

definition Budget_require_enrollment_budget :: "Budget \<Rightarrow> IdentityId \<Rightarrow> nat \<Rightarrow> AppError + unit" where
  "Budget_require_enrollment_budget b i current =
     (case bt_get (identities b) i of
        None \<Rightarrow> Inr ()
      | Some entries \<Rightarrow>
          if length (filter (\<lambda>at. saturating_sub current at < 3600) (bt_values entries))
               \<ge> MAX_REVOCATIONS_PER_HOUR
             \<or> length (filter (\<lambda>at. saturating_sub current at < 86400) (bt_values entries))
               \<ge> MAX_REVOCATIONS_PER_DAY
          then Inl (App ''Too many device changes for this profile. Try linking a device later.'')
          else Inr ())"

definition Budget_record :: "Budget \<Rightarrow> IdentityId \<Rightarrow> RecordId \<Rightarrow> nat \<Rightarrow> Budget" where
  "Budget_record b i k at =
     (let entries = budget_entries b i in
      \<lparr>identities = bt_insert i (bt_insert k at entries) (identities b),
       total = (if bt_get entries k = None then total b + 1 else total b)\<rparr>)"

type_synonym dir_entry = "string \<times> bytes \<times> nat"

record Revocations =
  rv_files :: "dir_entry list"
  rv_budget :: Budget

definition record_file :: "RecordId \<Rightarrow> string" where
  "record_file i = to_string i @ ''.record''"

definition has_record_extension :: "string \<Rightarrow> bool" where
  "has_record_extension name \<longleftrightarrow>
     length name > 7 \<and> drop (length name - 7) name = ''.record''"

text \<open>One entry of the directory during \<open>open\<close>.\<close>

definition open_entry :: "('z identity_ext_scheme) \<Rightarrow> Budget \<Rightarrow> dir_entry \<Rightarrow> AppError + Budget" where
  "open_entry E budget e =
     (case e of (name, content, modified) \<Rightarrow>
      if \<not> has_record_extension name then Inr budget
      else if total budget \<ge> MAX_REVOKED_DEVICES then Inl (App ''Device revocation registry is full.'')
      else
      bindr (map_err AppRecord (parse E content)) (\<lambda>record.
      bindr (map_err AppRecord (revocation_verify E record)) (\<lambda>credential.
      if name \<noteq> record_file (credential_id E credential) then Inl (App ''Invalid device revocation path.'')
      else Inr (Budget_record budget (identity credential) (credential_id E credential) modified))))"

definition Revocations_open :: "('z identity_ext_scheme) \<Rightarrow> dir_entry list \<Rightarrow> AppError + Revocations" where
  "Revocations_open E files =
     bindr (foldr_result (open_entry E) Budget_default files) (\<lambda>budget.
     Inr \<lparr>rv_files = files, rv_budget = budget\<rparr>)"

definition file_content :: "dir_entry list \<Rightarrow> string \<Rightarrow> bytes option" where
  "file_content files name = map_option fst (map_of files name)"

definition Revocations_get ::
  "('z identity_ext_scheme) \<Rightarrow> Revocations \<Rightarrow> RecordId \<Rightarrow> AppError + SignedRecord option" where
  "Revocations_get E r i =
     (case file_content (rv_files r) (record_file i) of
        None \<Rightarrow> Inr None
      | Some content \<Rightarrow>
          bindr (map_err AppRecord (parse E content)) (\<lambda>record.
          bindr (map_err AppRecord (revocation_verify E record)) (\<lambda>credential.
          if credential_id E credential \<noteq> i then Inl (App ''Invalid device revocation.'')
          else Inr (Some record))))"

text \<open>\<open>write_error\<close> is the outcome of writing the new file: \<open>None\<close> when it succeeds.\<close>

definition Revocations_insert ::
  "('z identity_ext_scheme) \<Rightarrow> Revocations \<Rightarrow> SignedRecord \<Rightarrow> nat \<Rightarrow> AppError option \<Rightarrow> AppError + Revocations" where
  "Revocations_insert E r record current write_error =
     bindr (map_err AppRecord (revocation_verify E record)) (\<lambda>credential.
     bindr (Revocations_get E r (credential_id E credential)) (\<lambda>present.
     if present \<noteq> None then Inr r
     else if total (rv_budget r) \<ge> MAX_REVOKED_DEVICES then Inl (App ''Device revocation registry is full.'')
     else case write_error of
       Some error \<Rightarrow> Inl error
     | None \<Rightarrow>
         Inr \<lparr>rv_files = (record_file (credential_id E credential), rec_bytes record, current) # rv_files r,
              rv_budget = Budget_record (rv_budget r) (identity credential) (credential_id E credential) current\<rparr>))"

definition require_enrollment_budget :: "Revocations \<Rightarrow> IdentityId \<Rightarrow> nat \<Rightarrow> AppError + unit" where
  "require_enrollment_budget r i current = Budget_require_enrollment_budget (rv_budget r) i current"

subsection \<open>The index counts the tombstones\<close>

definition budget_wf :: "Budget \<Rightarrow> bool" where
  "budget_wf b \<longleftrightarrow> bt_wf (identities b) \<and> (\<forall>e \<in> set (identities b). bt_wf (snd e))
     \<and> total b = sum_list (map (\<lambda>e. length (snd e)) (identities b))"

lemma budget_wf_default: "budget_wf Budget_default"
  by (simp add: budget_wf_def Budget_default_def)

lemma budget_entries_wf: "budget_wf b \<Longrightarrow> bt_wf (budget_entries b i)"
  by (auto simp: budget_wf_def budget_entries_def split: option.splits dest!: bt_get_in)

lemma sum_insert_replaced:
  "bt_wf m \<Longrightarrow>
   sum_list (map (\<lambda>e. f (snd e)) (bt_insert k v m)) + (case bt_get m k of None \<Rightarrow> 0 | Some w \<Rightarrow> f w)
     = sum_list (map (\<lambda>e. f (snd e)) m) + (f v :: nat)"
proof (induction m)
  case (Cons e m)
  obtain k' v' where e: "e = (k', v')" by (cases e)
  show ?case
  proof (cases "k < k'")
    case True
    with Cons.prems have "bt_get (e # m) k = None"
      by (auto simp: e bt_wf_def bt_get_None)
    with True show ?thesis by (simp add: e)
  next
    case False
    have "bt_wf m" using Cons.prems by (simp add: bt_wf_def)
    with Cons.IH False show ?thesis
      by (cases "k = k'") (auto simp: e bt_get_def)
  qed
qed simp

lemma length_bt_insert:
  assumes "bt_wf m"
  shows "length (bt_insert k v m) = (if bt_get m k = None then length m + 1 else length m)"
  using sum_insert_replaced [OF assms, of "\<lambda>_. 1" k v]
  by (auto simp: sum_list_triv split: option.splits)

lemma Budget_record_wf:
  assumes "budget_wf b"
  shows "budget_wf (Budget_record b i k at)"
proof -
  let ?es = "budget_entries b i"
  let ?m = "identities b"
  have wf: "bt_wf ?m" "bt_wf ?es" using assms budget_entries_wf by (auto simp: budget_wf_def)
  have len: "length (bt_insert k at ?es) = (if bt_get ?es k = None then length ?es + 1 else length ?es)"
    by (rule length_bt_insert [OF wf(2)])
  have old: "(case bt_get ?m i of None \<Rightarrow> 0 | Some w \<Rightarrow> length w) = length ?es"
    by (simp add: budget_entries_def split: option.splits)
  have sum: "sum_list (map (\<lambda>e. length (snd e)) (bt_insert i (bt_insert k at ?es) ?m)) + length ?es
      = sum_list (map (\<lambda>e. length (snd e)) ?m) + length (bt_insert k at ?es)"
    using sum_insert_replaced [OF wf(1), of length i "bt_insert k at ?es"] old by simp
  have "\<forall>e \<in> set (bt_insert i (bt_insert k at ?es) ?m). bt_wf (snd e)"
    using assms wf by (auto simp: set_bt_insert budget_wf_def)
  with sum len assms wf show ?thesis
    by (auto simp: budget_wf_def Budget_record_def Let_def split: if_splits)
qed

lemma Budget_record_entries:
  "budget_entries (Budget_record b i k at) j =
     (if j = i then bt_insert k at (budget_entries b i) else budget_entries b j)"
  by (simp add: budget_entries_def Budget_record_def Let_def)

lemma Budget_record_get:
  "bt_get (budget_entries (Budget_record b i k at) j) k' =
     (if j = i \<and> k' = k then Some at else bt_get (budget_entries b j) k')"
  by (simp add: Budget_record_entries)

text \<open>
  The registry is consistent: every indexed credential has its file, no file name occurs
  twice, and the counter is the number of indexed credentials.
\<close>

definition tombstones_ok :: "('z identity_ext_scheme) \<Rightarrow> Revocations \<Rightarrow> bool" where
  "tombstones_ok E r \<longleftrightarrow> budget_wf (rv_budget r)
     \<and> (\<forall>i k. bt_get (budget_entries (rv_budget r) i) k \<noteq> None \<longrightarrow> record_file k \<in> fst ` set (rv_files r))"

lemma file_content_cons:
  "file_content ((n, c, t) # fs) name = (if name = n then Some c else file_content fs name)"
  by (simp add: file_content_def)

lemma record_file_inj: "record_file a = record_file b \<longleftrightarrow> a = b"
  by (simp add: record_file_def encode_hex_inj)

lemma Revocations_insert_cases:
  assumes "Revocations_insert E r record now err = Inr r'"
  obtains (present) c old where "revocation_verify E record = Inr c"
      "Revocations_get E r (credential_id E c) = Inr (Some old)" "r' = r"
    | (added) c where "revocation_verify E record = Inr c"
      "Revocations_get E r (credential_id E c) = Inr None" "total (rv_budget r) < MAX_REVOKED_DEVICES"
      "r' = \<lparr>rv_files = (record_file (credential_id E c), rec_bytes record, now) # rv_files r,
            rv_budget = Budget_record (rv_budget r) (identity c) (credential_id E c) now\<rparr>"
proof -
  from assms obtain c p where c: "revocation_verify E record = Inr c"
      and p: "Revocations_get E r (credential_id E c) = Inr p"
      and rest: "(if p \<noteq> None then Inr r
        else if total (rv_budget r) \<ge> MAX_REVOKED_DEVICES then Inl (App ''Device revocation registry is full.'')
        else case err of Some error \<Rightarrow> Inl error
        | None \<Rightarrow>
         Inr \<lparr>rv_files = (record_file (credential_id E c), rec_bytes record, now) # rv_files r,
              rv_budget = Budget_record (rv_budget r) (identity c) (credential_id E c) now\<rparr>) = Inr r'"
    unfolding Revocations_insert_def bindr_eq_Inr map_err_eq_Inr by blast
  show ?thesis
  proof (cases p)
    case None
    with rest have "total (rv_budget r) < MAX_REVOKED_DEVICES"
        "r' = \<lparr>rv_files = (record_file (credential_id E c), rec_bytes record, now) # rv_files r,
            rv_budget = Budget_record (rv_budget r) (identity c) (credential_id E c) now\<rparr>"
      by (simp_all split: if_splits option.splits)
    with c p None that(2) show ?thesis by blast
  next
    case (Some old)
    with rest have "r' = r" by simp
    with c p Some that(1) show ?thesis by blast
  qed
qed

lemma Revocations_insert_ok:
  assumes "tombstones_ok E r" "Revocations_insert E r record now err = Inr r'"
  shows "tombstones_ok E r'"
  using assms(2)
proof (cases rule: Revocations_insert_cases)
  case (added c)
  with assms(1) show ?thesis
    by (auto simp: tombstones_ok_def Budget_record_wf Budget_record_get split: if_splits)
qed (use assms in simp)

lemma open_entry_ok:
  assumes "open_entry E b e = Inr b'" "budget_wf b"
    and "\<forall>i k. bt_get (budget_entries b i) k \<noteq> None \<longrightarrow> record_file k \<in> F" "fst e \<in> F"
  shows "budget_wf b' \<and> (\<forall>i k. bt_get (budget_entries b' i) k \<noteq> None \<longrightarrow> record_file k \<in> F)"
proof -
  from assms(1) consider "b' = b"
    | c t where "b' = Budget_record b (identity c) (credential_id E c) t"
        "fst e = record_file (credential_id E c)"
    by (cases e) (auto simp: open_entry_def bindr_eq_Inr split: if_splits)
  then show ?thesis
    using assms(2-4) by cases (auto simp: Budget_record_wf Budget_record_get)
qed

lemma Revocations_open_ok:
  assumes "Revocations_open E files = Inr r"
  shows "tombstones_ok E r"
proof -
  from assms obtain b where b: "foldr_result (open_entry E) Budget_default files = Inr b"
      and r: "r = \<lparr>rv_files = files, rv_budget = b\<rparr>"
    by (auto simp: Revocations_open_def bindr_eq_Inr)
  let ?P = "\<lambda>b. budget_wf b \<and> (\<forall>i k. bt_get (budget_entries b i) k \<noteq> None \<longrightarrow> record_file k \<in> fst ` set files)"
  have "?P b"
    using b
  proof (rule foldr_result_invariant [where P = ?P])
    show "?P Budget_default"
      using budget_wf_default by (simp add: budget_entries_def Budget_default_def)
    show "?P t'" if "x \<in> set files" "?P t" "open_entry E t x = Inr t'" for t x t'
      using that by (intro open_entry_ok [OF that(3)]) auto
  qed
  with r show ?thesis by (simp add: tombstones_ok_def)
qed

text \<open>Inserted tombstones answer to their credential, and keep doing so.\<close>

lemma Revocations_get_insert_other:
  assumes "Revocations_insert E r record now err = Inr r'" "Revocations_get E r i = Inr (Some t)"
  shows "Revocations_get E r' i = Inr (Some t)"
  using assms(1)
proof (cases rule: Revocations_insert_cases)
  case (added c)
  have "credential_id E c \<noteq> i"
    using added(2) assms(2) by auto
  with assms(2) added(4) show ?thesis
    by (simp add: Revocations_get_def file_content_cons record_file_inj)
qed (use assms in simp)

text \<open>A sequence of accepted retirements.\<close>

fun insert_all ::
  "('z identity_ext_scheme) \<Rightarrow> Revocations \<Rightarrow> (SignedRecord \<times> nat) list \<Rightarrow> AppError + Revocations" where
  "insert_all E r [] = Inr r"
| "insert_all E r ((record, now) # xs) =
     bindr (Revocations_insert E r record now None) (\<lambda>r'. insert_all E r' xs)"

lemma insert_all_keeps:
  "insert_all E r xs = Inr r' \<Longrightarrow> Revocations_get E r i = Inr (Some t) \<Longrightarrow> Revocations_get E r' i = Inr (Some t)"
proof (induction xs arbitrary: r)
  case (Cons x xs)
  then show ?case
    by (cases x) (auto simp: bindr_eq_Inr dest: Revocations_get_insert_other)
qed simp

text \<open>
  Tombstones are permanent. Once a verified revocation is stored, the registry returns a
  tombstone for that credential after any further sequence of retirements, and inserting the
  same revocation again changes nothing.
\<close>

lemma tombstones_permanent:
  assumes "Revocations_insert E r record now None = Inr r1"
    and "revocation_verify E record = Inr c"
    and "parse E (rec_bytes record) = Inr record"
    and "insert_all E r1 xs = Inr r2"
  shows "(\<exists>t. Revocations_get E r2 (credential_id E c) = Inr (Some t))
     \<and> Revocations_insert E r2 record now' err = Inr r2"
proof -
  have "\<exists>t. Revocations_get E r1 (credential_id E c) = Inr (Some t)"
    using assms(1)
  proof (cases rule: Revocations_insert_cases)
    case (present c' old)
    with assms(2) show ?thesis by auto
  next
    case (added c')
    with assms(2,3) show ?thesis
      by (simp add: Revocations_get_def file_content_cons)
  qed
  then obtain t where "Revocations_get E r1 (credential_id E c) = Inr (Some t)" ..
  then have "Revocations_get E r2 (credential_id E c) = Inr (Some t)"
    by (rule insert_all_keeps [OF assms(4)])
  with assms(2) show ?thesis by (auto simp: Revocations_insert_def)
qed

text \<open>
  Opening a registry and any later retirement leave the quota index consistent with the
  directory: the counter is the number of indexed tombstones and each of them has its file.
\<close>

lemma registry_index_consistent:
  "(Revocations_open E files = Inr r \<longrightarrow> tombstones_ok E r)
   \<and> (tombstones_ok E r \<and> Revocations_insert E r record now err = Inr r' \<longrightarrow> tombstones_ok E r')"
  using Revocations_open_ok Revocations_insert_ok by blast

lemma recent_mono:
  "(now :: nat) \<le> now' \<Longrightarrow>
   length (filter (\<lambda>at. now' - at < w) ts) \<le> length (filter (\<lambda>at. now - at < w) ts)"
  by (induction ts) auto

text \<open>
  The enrollment budget only limits churn. It refuses exactly when an identity retired at
  least 16 devices in the last hour or 32 in the last day, it never blocks another identity,
  and a refusal ends with time alone.
\<close>

lemma enrollment_budget_window:
  "(is_ok (require_enrollment_budget r i now) \<longleftrightarrow>
      length (filter (\<lambda>at. now - at < 3600) (bt_values (budget_entries (rv_budget r) i))) < 16
      \<and> length (filter (\<lambda>at. now - at < 86400) (bt_values (budget_entries (rv_budget r) i))) < 32)
   \<and> (is_ok (require_enrollment_budget r i now) \<and> now \<le> now' \<longrightarrow> is_ok (require_enrollment_budget r i now'))
   \<and> (Revocations_insert E r record t err = Inr r' \<and> revocation_verify E record = Inr c \<and> identity c \<noteq> i \<longrightarrow>
        require_enrollment_budget r' i now = require_enrollment_budget r i now)"
proof (intro conjI impI)
  have char: "is_ok (require_enrollment_budget r i now) \<longleftrightarrow>
      length (filter (\<lambda>at. now - at < 3600) (bt_values (budget_entries (rv_budget r) i))) < 16
      \<and> length (filter (\<lambda>at. now - at < 86400) (bt_values (budget_entries (rv_budget r) i))) < 32" for now
    by (auto simp: require_enrollment_budget_def Budget_require_enrollment_budget_def budget_entries_def
        saturating_sub_def MAX_REVOCATIONS_PER_HOUR_def MAX_REVOCATIONS_PER_DAY_def split: option.splits)
  show "is_ok (require_enrollment_budget r i now) \<longleftrightarrow>
      length (filter (\<lambda>at. now - at < 3600) (bt_values (budget_entries (rv_budget r) i))) < 16
      \<and> length (filter (\<lambda>at. now - at < 86400) (bt_values (budget_entries (rv_budget r) i))) < 32"
    by (rule char)
  show "is_ok (require_enrollment_budget r i now')"
    if "is_ok (require_enrollment_budget r i now) \<and> now \<le> now'"
    using that recent_mono [of now now'] unfolding char by (meson le_less_trans)
next
  assume h: "Revocations_insert E r record t err = Inr r' \<and> revocation_verify E record = Inr c \<and> identity c \<noteq> i"
  then have "Revocations_insert E r record t err = Inr r'" by blast
  then show "require_enrollment_budget r' i now = require_enrollment_budget r i now"
  proof (cases rule: Revocations_insert_cases)
    case (added c')
    with h have "i \<noteq> identity c'" by auto
    with added show ?thesis
      by (simp add: require_enrollment_budget_def Budget_require_enrollment_budget_def Budget_record_def Let_def)
  qed simp
qed

end
