(* ===== verification/Authority_State.thy ===== *)
theory Authority_State
  imports Revocations
begin

text \<open>
  \<^verbatim>\<open>crates/elo-core/src/authority.rs\<close>, data and accessors: a pinned space genesis and the
  signed chain of stream configurations it anchors. Also the evidence types of
  \<^verbatim>\<open>authority/witness.rs\<close> and \<^verbatim>\<open>authority/witness/durable.rs\<close>, which configurations
  embed, and the backward walk over the chain that several checks share. The walk follows
  parent links, so it is defined with fuel; \<open>walk_eq\<close> shows that the fuel used (one
  more than the number of known configurations) is enough in every well-formed authority.
\<close>

subsection \<open>Data\<close>

record Owner =
  ow_identity_id :: IdentityId
  ow_root_public_key :: string

record WitnessPin =
  wp_url :: string
  wp_public_key :: string
  wp_key_generation :: nat

record SpaceGenesis =
  ge_v :: nat
  ge_kind :: string
  ge_nonce :: string
  ge_issuer_identity :: IdentityId
  ge_owners :: "Owner list"
  ge_controller_credential_id :: RecordId
  ge_witness :: "WitnessPin option"

datatype Capability = Read | Post | ShareHistory | Manage | Replicate

instantiation Capability :: linorder
begin

fun capability_index :: "Capability \<Rightarrow> nat" where
  "capability_index Read = 0"
| "capability_index Post = 1"
| "capability_index ShareHistory = 2"
| "capability_index Manage = 3"
| "capability_index Replicate = 4"

definition less_eq_Capability :: "Capability \<Rightarrow> Capability \<Rightarrow> bool" where
  "less_eq_Capability a b \<longleftrightarrow> capability_index a \<le> capability_index b"

definition less_Capability :: "Capability \<Rightarrow> Capability \<Rightarrow> bool" where
  "less_Capability a b \<longleftrightarrow> capability_index a < capability_index b"

lemma capability_index_inj: "capability_index a = capability_index b \<Longrightarrow> a = b"
  by (cases a; cases b) simp_all

instance
  by standard
    (auto simp: less_eq_Capability_def less_Capability_def intro: capability_index_inj)

end

record Member =
  me_identity_id :: IdentityId
  me_identity_type :: string
  me_root_public_key :: string
  me_capabilities :: "Capability list"
  me_credential_ids :: "RecordId list"
  me_external :: bool

record ConfigAction =
  ca_operation :: string
  ca_actor_identity :: IdentityId
  ca_request_record_id :: "RecordId option"

datatype ChatKind = ChatKind_Chat | ChatKind_Direct

record WitnessAdmissionEvidence =
  wae_policy :: string
  wae_challenge :: string
  wae_device_intent :: string
  wae_invitation_intent :: string
  wae_contact :: string
  wae_approval :: "string option"
  wae_admitted_at_ms :: nat

record WitnessJoinRequestEvidence =
  wje_policy :: string
  wje_device_request :: string
  wje_invitation_request :: string
  wje_contact :: string

record WitnessAdmissionEvidenceV2 =
  wa2_request :: WitnessJoinRequestEvidence
  wa2_challenge :: string
  wa2_device_intent :: string
  wa2_invitation_intent :: string
  wa2_approval :: "string option"
  wa2_admitted_at_ms :: nat

datatype WitnessConfigEvidence =
    OwnerProposal string
  | Admission_evidence WitnessAdmissionEvidence
  | AdmissionV2_evidence WitnessAdmissionEvidenceV2

record StreamConfig =
  sc_v :: nat
  sc_kind :: string
  sc_nonce :: string
  sc_space_id :: SpaceId
  sc_stream_id :: StreamId
  sc_sequence :: nat
  sc_previous_config_id :: "RecordId option"
  sc_controller_credential_id :: RecordId
  sc_members :: "Member list"
  sc_owner_credential_ids :: "RecordId list"
  sc_action :: ConfigAction
  sc_chat_kind :: "ChatKind option"
  sc_recovery :: "string option"
  sc_witness_evidence :: "WitnessConfigEvidence option"

datatype ConfigAdmission = Applied | Historical | AlreadyPresent | WaitingForProof | Forked

datatype Admission = Accepted | Admission_WaitingForProof | QuarantinedStale | Admission_Forked

record CheckpointEvidence =
  ce_ancestry :: "RecordId list"
  ce_recovery :: "SignedRecord list"

record Authority =
  au_genesis :: SignedRecord
  au_body :: SpaceGenesis
  au_stream :: StreamId
  au_credentials :: "(RecordId, VerifiedCredential) btree_map"
  au_configs :: "(RecordId, SignedRecord \<times> StreamConfig) btree_map"
  au_head :: "RecordId option"
  au_forked :: bool
  au_persisted_snapshot :: "ObjectId option"
  au_checkpoint_evidence :: "CheckpointEvidence option"
  au_cached_checkpoint :: "SignedRecord option"

record ControllerRecovery =
  cr_v :: nat
  cr_kind :: string
  cr_nonce :: string
  cr_space_id :: SpaceId
  cr_sequence :: nat
  cr_previous_recovery_id :: "RecordId option"
  cr_previous_controller_credential_id :: RecordId
  cr_controller_credential_id :: RecordId

record Checkpoint =
  cp_v :: nat
  cp_kind :: string
  cp_space_id :: SpaceId
  cp_stream_id :: StreamId
  cp_controller_credential_id :: RecordId
  cp_config_id :: RecordId
  cp_sequence :: nat
  cp_ancestry :: "RecordId list"
  cp_recovery :: "string list"

record WitnessInvitationPolicy =
  wip_v :: nat
  wip_kind :: string
  wip_nonce :: string
  wip_space_id :: SpaceId
  wip_stream_id :: StreamId
  wip_authority_head :: RecordId
  wip_issuer_credential_id :: RecordId
  wip_invitation_public_key :: string
  wip_not_before_ms :: nat
  wip_expires_at_ms :: nat
  wip_require_approval :: bool
  wip_max_uses :: nat
  wip_witness_key_generation :: nat

record WitnessChallenge =
  wc_v :: nat
  wc_kind :: string
  wc_nonce :: string
  wc_client_nonce :: string
  wc_space_id :: SpaceId
  wc_stream_id :: StreamId
  wc_policy_id :: RecordId
  wc_credential_id :: RecordId
  wc_issued_at_ms :: nat
  wc_expires_at_ms :: nat
  wc_witness_key_generation :: nat

record WitnessChallengeV2 = WitnessChallenge +
  wc_request_id :: RecordId
  wc_authority_head :: RecordId

record WitnessAdmissionIntent =
  wi_v :: nat
  wi_kind :: string
  wi_nonce :: string
  wi_space_id :: SpaceId
  wi_stream_id :: StreamId
  wi_policy_id :: RecordId
  wi_challenge_id :: RecordId
  wi_credential_id :: RecordId
  wi_contact_id :: RecordId

record WitnessAdmissionIntentV2 = WitnessAdmissionIntent +
  wi_request_id :: RecordId

record WitnessApproval =
  wap_v :: nat
  wap_kind :: string
  wap_nonce :: string
  wap_space_id :: SpaceId
  wap_stream_id :: StreamId
  wap_authority_head :: RecordId
  wap_issuer_credential_id :: RecordId
  wap_intent_id :: RecordId
  wap_readmission :: bool

record WitnessApprovalV2 =
  wap2_v :: nat
  wap2_kind :: string
  wap2_nonce :: string
  wap2_space_id :: SpaceId
  wap2_stream_id :: StreamId
  wap2_authority_head :: RecordId
  wap2_issuer_credential_id :: RecordId
  wap2_request_id :: RecordId
  wap2_readmission :: bool
  wap2_expires_at_ms :: nat

record WitnessJoinRequest =
  wjr_v :: nat
  wjr_kind :: string
  wjr_nonce :: string
  wjr_space_id :: SpaceId
  wjr_stream_id :: StreamId
  wjr_policy_id :: RecordId
  wjr_credential_id :: RecordId
  wjr_contact_id :: RecordId
  wjr_issued_at_ms :: nat
  wjr_expires_at_ms :: nat
  wjr_witness_key_generation :: nat

record WakeRoute =
  wr_endpoint :: string
  wr_id :: string
  wr_notify_key :: string
  wr_scope_key :: string
  wr_since :: nat

record Contact =
  ct_wake :: "WakeRoute option"
  ct_v :: nat
  ct_kind :: string
  ct_nonce :: string
  ct_issuer_identity :: IdentityId
  ct_issuer_credential :: RecordId
  ct_name :: string
  ct_expires_at :: nat

text \<open>What \<^verbatim>\<open>reqwest::Url::parse\<close> returns, as far as the pins look at it.\<close>

record url =
  url_scheme :: string
  url_host :: "string option"
  url_username :: string
  url_password :: "string option"
  url_query :: "string option"
  url_fragment :: "string option"

record authority_ext = identity_ext +
  url_parse :: "string \<Rightarrow> url option"
  dec_genesis :: "json \<Rightarrow> SpaceGenesis option"
  dec_config :: "json \<Rightarrow> StreamConfig option"
  ser_config :: "StreamConfig \<Rightarrow> bytes"
  config_to_value :: "StreamConfig \<Rightarrow> json"
  dec_recovery :: "json \<Rightarrow> ControllerRecovery option"
  ser_recovery :: "ControllerRecovery \<Rightarrow> bytes"
  dec_checkpoint :: "json \<Rightarrow> Checkpoint option"
  ser_checkpoint :: "Checkpoint \<Rightarrow> bytes"
  checkpoint_to_value :: "Checkpoint \<Rightarrow> json"
  dec_policy :: "json \<Rightarrow> WitnessInvitationPolicy option"
  dec_challenge :: "json \<Rightarrow> WitnessChallenge option"
  dec_challenge_v2 :: "json \<Rightarrow> WitnessChallengeV2 option"
  dec_intent :: "json \<Rightarrow> WitnessAdmissionIntent option"
  dec_intent_v2 :: "json \<Rightarrow> WitnessAdmissionIntentV2 option"
  dec_approval :: "json \<Rightarrow> WitnessApproval option"
  dec_approval_v2 :: "json \<Rightarrow> WitnessApprovalV2 option"
  dec_join_request :: "json \<Rightarrow> WitnessJoinRequest option"
  dec_contact :: "json \<Rightarrow> Contact option"

subsection \<open>Witness pins\<close>

definition public_key :: "('z authority_ext_scheme) \<Rightarrow> string \<Rightarrow> RecordError + bytes" where
  "public_key E value =
     bindr (hex 32 value) (\<lambda>kb.
     bindr (verifying_key E kb Signature) (\<lambda>key.
     if ed_key_weak E key then Inl Signature else Inr key))"

definition pin_key :: "('z authority_ext_scheme) \<Rightarrow> WitnessPin \<Rightarrow> RecordError + bytes" where
  "pin_key E pin = public_key E (wp_public_key pin)"

definition pin_validate :: "('z authority_ext_scheme) \<Rightarrow> WitnessPin \<Rightarrow> RecordError + unit" where
  "pin_validate E pin =
     bindr (ok_or (url_parse E (wp_url pin)) Authority_err) (\<lambda>url.
     if length (wp_url pin) > 2048
        \<or> trim (str_chars (wp_url pin)) \<noteq> str_chars (wp_url pin)
        \<or> list_ex is_control (str_chars (wp_url pin))
        \<or> url_scheme url \<noteq> ''https''
        \<or> url_host url = None
        \<or> url_username url \<noteq> []
        \<or> url_password url \<noteq> None
        \<or> url_query url \<noteq> None
        \<or> url_fragment url \<noteq> None
        \<or> wp_key_generation pin = 0
        \<or> wp_key_generation pin > MAX_INTEGER
     then Inl Authority_err
     else bindr (pin_key E pin) (\<lambda>_. Inr ()))"

subsection \<open>Construction and accessors\<close>

definition StreamConfig_sign ::
  "('z authority_ext_scheme) \<Rightarrow> StreamConfig \<Rightarrow> bytes \<Rightarrow> RecordError + SignedRecord" where
  "StreamConfig_sign E c key = sign E (ser_config E c) key"

definition genesis_owner_ok :: "('z authority_ext_scheme) \<Rightarrow> Owner \<Rightarrow> RecordError + unit" where
  "genesis_owner_ok E owner =
     bindr (hex 32 (ow_root_public_key owner)) (\<lambda>kb.
     bindr (verifying_key E kb Signature) (\<lambda>key.
     if ed_key_weak E key \<or> of_root_key E key \<noteq> ow_identity_id owner
     then Inl Authority_err else Inr ()))"

definition genesis_signature ::
  "('z authority_ext_scheme) \<Rightarrow> SignedRecord \<Rightarrow> SpaceGenesis \<Rightarrow> bytes \<Rightarrow> VerifiedCredential \<Rightarrow> RecordError + unit" where
  "genesis_signature E g body pinned_root controller =
     (if ge_v body = 1 then verify_signature E g pinned_root
      else if 2 \<le> ge_v body \<and> ge_v body \<le> 4 then
        (if identity controller \<noteq> of_root_key E pinned_root
            \<or> root_public_key_json controller \<noteq> String (encode_hex pinned_root)
         then Inl Authority_err
         else verify_signature E g (vc_key controller))
      else Inl Authority_err)"

definition genesis_witness :: "('z authority_ext_scheme) \<Rightarrow> SpaceGenesis \<Rightarrow> RecordError + unit" where
  "genesis_witness E body =
     (case ge_witness body of
        Some pin \<Rightarrow> if ge_v body = 4 then pin_validate E pin else Inl Authority_err
      | None \<Rightarrow> if 1 \<le> ge_v body \<and> ge_v body \<le> 3 then Inr () else Inl Authority_err)"

definition Authority_new ::
  "('z authority_ext_scheme) \<Rightarrow> bytes \<Rightarrow> SpaceId \<Rightarrow> bytes \<Rightarrow> VerifiedCredential \<Rightarrow> StreamId \<Rightarrow>
   RecordError + Authority" where
  "Authority_new E genesis pinned_space pinned_root controller strm =
     bindr (parse E genesis) (\<lambda>g.
     if to_string (record_id E g) \<noteq> to_string pinned_space then Inl Authority_err
     else
     bindr (decode_with (dec_genesis E) g) (\<lambda>body.
     bindr (genesis_signature E g body pinned_root controller) (\<lambda>_.
     bindr (hex 16 (ge_nonce body)) (\<lambda>_.
     bindr (genesis_witness E body) (\<lambda>_.
     if ge_kind body \<noteq> ''space.genesis''
        \<or> (ge_v body = 3 \<and> length (ge_owners body) \<noteq> 1)
        \<or> ge_issuer_identity body \<noteq> of_root_key E pinned_root
        \<or> ge_controller_credential_id body \<noteq> credential_id E controller
        \<or> \<not> sorted_unique (map ow_identity_id (ge_owners body)) 1 16
     then Inl Authority_err
     else
     bindr (check_all (genesis_owner_ok E) (ge_owners body)) (\<lambda>_.
     bindr (ok_or (List.find (\<lambda>o'. ow_identity_id o' = identity controller) (ge_owners body)) Authority_err) (\<lambda>owner.
     if root_public_key_json controller \<noteq> String (ow_root_public_key owner)
        \<or> \<not> list_ex (\<lambda>o'. ow_identity_id o' = ge_issuer_identity body) (ge_owners body)
     then Inl Authority_err
     else Inr \<lparr>au_genesis = g, au_body = body, au_stream = strm,
               au_credentials = bt_insert (credential_id E controller) controller [],
               au_configs = [], au_head = None, au_forked = False,
               au_persisted_snapshot = None, au_checkpoint_evidence = None,
               au_cached_checkpoint = None\<rparr>)))))))"

text \<open>A space is named by the digest of its genesis record.\<close>

definition space :: "('z crypto_scheme) \<Rightarrow> Authority \<Rightarrow> SpaceId" where
  "space E a = record_id E (au_genesis a)"

definition witness_pin :: "Authority \<Rightarrow> WitnessPin option" where
  "witness_pin a = ge_witness (au_body a)"

definition config :: "Authority \<Rightarrow> RecordId \<Rightarrow> RecordError + StreamConfig" where
  "config a id' = ok_or (map_option snd (bt_get (au_configs a) id')) Authority_err"

definition config_record :: "Authority \<Rightarrow> RecordId \<Rightarrow> RecordError + SignedRecord" where
  "config_record a id' = ok_or (map_option fst (bt_get (au_configs a) id')) Authority_err"

definition head :: "Authority \<Rightarrow> RecordError + StreamConfig" where
  "head a = bindr (ok_or (au_head a) Authority_err) (config a)"

definition is_owner_managed :: "Authority \<Rightarrow> bool" where
  "is_owner_managed a \<longleftrightarrow> ge_v (au_body a) = 2 \<or> ge_v (au_body a) = 4"

definition primary_owner_identity :: "Authority \<Rightarrow> RecordError + IdentityId" where
  "primary_owner_identity a =
     (if \<not> is_owner_managed a then Inl Authority_err else Inr (ge_issuer_identity (au_body a)))"

definition can_manage :: "Authority \<Rightarrow> RecordId \<Rightarrow> bool" where
  "can_manage a cred \<longleftrightarrow>
     \<not> au_forked a \<and>
     (case head a of
        Inl _ \<Rightarrow> False
      | Inr h \<Rightarrow>
          if is_owner_managed a then cred \<in> set (sc_owner_credential_ids h)
          else sc_controller_credential_id h = cred)"

definition credential :: "Authority \<Rightarrow> RecordId \<Rightarrow> RecordError + VerifiedCredential" where
  "credential a id' = ok_or (bt_get (au_credentials a) id') Authority_err"

text \<open>
  \<^verbatim>\<open>controller\<close> and \<^verbatim>\<open>initial_controller\<close> index the credential map and would panic on a
  missing key; here that branch is an error, and \<open>controller_total\<close> shows that no
  well-formed authority takes it.
\<close>

definition controller :: "Authority \<Rightarrow> RecordError + VerifiedCredential" where
  "controller a =
     credential a (case head a of
        Inr c \<Rightarrow> sc_controller_credential_id c
      | Inl _ \<Rightarrow> ge_controller_credential_id (au_body a))"

definition initial_controller :: "Authority \<Rightarrow> RecordError + VerifiedCredential" where
  "initial_controller a = credential a (ge_controller_credential_id (au_body a))"

definition add_credential :: "('z crypto_scheme) \<Rightarrow> VerifiedCredential \<Rightarrow> Authority \<Rightarrow> Authority" where
  "add_credential E c a =
     a\<lparr>au_credentials := bt_insert (credential_id E c) c (au_credentials a)\<rparr>"

definition has_membership_approval :: "Authority \<Rightarrow> RecordId \<Rightarrow> bool" where
  "has_membership_approval a proof' \<longleftrightarrow>
     list_ex (\<lambda>(_, c). ca_operation (sc_action c) = ''invite.approved''
        \<and> ca_request_record_id (sc_action c) = Some proof') (bt_values (au_configs a))"

end
