(* ===== verification/Authority_Chain.thy ===== *)
theory Authority_Chain
  imports Authority_State
begin

text \<open>
  The walk along parent links of \<^verbatim>\<open>crates/elo-core/src/authority.rs\<close>, the structural check
  of one configuration (\<open>validate_config\<close>), and the well-formedness invariant of an
  authority that every operation keeps. The loops of the source that follow
  \<^verbatim>\<open>previous_config_id\<close> share one definition, \<open>walk\<close>, with the body of the loop as an
  argument; \<open>walk_eq\<close> shows it ends in every well-formed authority.
\<close>

subsection \<open>Walking to the first configuration\<close>

fun walk_fuel ::
  "nat \<Rightarrow> (RecordId \<Rightarrow> StreamConfig \<Rightarrow> RecordError + 'b) \<Rightarrow> Authority \<Rightarrow> RecordId option \<Rightarrow>
   (RecordError + 'b list) option" where
  "walk_fuel n f a None = Some (Inr [])"
| "walk_fuel 0 f a (Some id') = None"
| "walk_fuel (Suc n) f a (Some id') =
     (case config a id' of
        Inl e \<Rightarrow> Some (Inl e)
      | Inr c \<Rightarrow>
          (case f id' c of
             Inl e \<Rightarrow> Some (Inl e)
           | Inr y \<Rightarrow>
               map_option (\<lambda>r. bindr r (\<lambda>ys. Inr (y # ys)))
                 (walk_fuel n f a (sc_previous_config_id c))))"

text \<open>
  One more step than there are configurations: only a cycle of parent links would need
  more, and then the loop of the source would not end.
\<close>

definition walk ::
  "(RecordId \<Rightarrow> StreamConfig \<Rightarrow> RecordError + 'b) \<Rightarrow> Authority \<Rightarrow> RecordId option \<Rightarrow> RecordError + 'b list" where
  "walk f a start =
     (case walk_fuel (Suc (length (au_configs a))) f a start of
        Some r \<Rightarrow> r
      | None \<Rightarrow> Inl Authority_err)"

definition embedded :: "('z authority_ext_scheme) \<Rightarrow> StreamConfig \<Rightarrow> RecordError + SignedRecord option" where
  "embedded E c =
     (case sc_recovery c of
        None \<Rightarrow> Inr None
      | Some s \<Rightarrow>
          if length s > 8192 then Inl Framing
          else bindr (ok_or (b64_decode E s) Json) (\<lambda>b. bindr (parse E b) (\<lambda>r. Inr (Some r))))"

definition chain_at ::
  "('z authority_ext_scheme) \<Rightarrow> Authority \<Rightarrow> RecordId option \<Rightarrow> RecordError + SignedRecord list" where
  "chain_at E a start =
     (case au_checkpoint_evidence a of
        Some evidence \<Rightarrow> if start = au_head a then Inr (ce_recovery evidence) else Inl Authority_err
      | None \<Rightarrow>
          bindr (walk (\<lambda>_ c. embedded E c) a start) (\<lambda>steps.
          Inr (rev (List.map_filter id steps))))"

definition controller_recovery_chain ::
  "('z authority_ext_scheme) \<Rightarrow> Authority \<Rightarrow> RecordError + SignedRecord list" where
  "controller_recovery_chain E a = chain_at E a (au_head a)"

definition recovery_id :: "('z authority_ext_scheme) \<Rightarrow> Authority \<Rightarrow> RecordId option" where
  "recovery_id E a =
     (case ok (chain_at E a (au_head a)) of
        None \<Rightarrow> None
      | Some p \<Rightarrow> if p = [] then None else Some (record_id E (last p)))"

definition witness_ancestry :: "Authority \<Rightarrow> RecordError + (RecordId \<times> StreamConfig) list" where
  "witness_ancestry a = walk (\<lambda>id' c. Inr (id', c)) a (au_head a)"

subsection \<open>The structural check of a configuration\<close>

definition config_operations :: "string list" where
  "config_operations =
     [''create'', ''replace'', ''invite.approved'', ''member.removed'', ''device.removed'',
      ''device.updated'', ''controller.recovered'']"

type_synonym seen = "RecordId btree_set \<times> bytes btree_set \<times> string btree_set"

definition credential_step ::
  "Authority \<Rightarrow> Member \<Rightarrow> seen \<Rightarrow> RecordId \<Rightarrow> RecordError + seen" where
  "credential_step a m seen id' =
     (case seen of (all', signing_keys, recipients) \<Rightarrow>
     bindr (credential a id') (\<lambda>c.
     if identity c \<noteq> me_identity_id m
        \<or> root_public_key_json c \<noteq> String (me_root_public_key m)
        \<or> id' \<in> set all'
        \<or> vc_key c \<in> set signing_keys
        \<or> recipient c \<in> set recipients
     then Inl Authority_err
     else Inr (bs_insert id' all', bs_insert (vc_key c) signing_keys, bs_insert (recipient c) recipients)))"

definition member_step ::
  "('z authority_ext_scheme) \<Rightarrow> Authority \<Rightarrow> seen \<Rightarrow> Member \<Rightarrow> RecordError + seen" where
  "member_step E a seen m =
     (if me_identity_type m \<notin> set [''HUMAN'', ''SERVICE'', ''DEVICE'']
         \<or> \<not> sorted_unique (me_credential_ids m) 1 32
         \<or> \<not> sorted_unique (me_capabilities m) 1 5
         \<or> (ShareHistory \<in> set (me_capabilities m) \<and> Read \<notin> set (me_capabilities m))
      then Inl Authority_err
      else
      bindr (hex 32 (me_root_public_key m)) (\<lambda>root.
      if of_root_key E root \<noteq> me_identity_id m then Inl Authority_err
      else foldr_result (credential_step a m) seen (me_credential_ids m)))"

definition owner_members :: "Authority \<Rightarrow> StreamConfig \<Rightarrow> RecordError + Member list" where
  "owner_members a c =
     (if is_owner_managed a \<and> sc_sequence c > 1
      then Inr (filter (\<lambda>m. Manage \<in> set (me_capabilities m)) (sc_members c))
      else collectr (\<lambda>owner.
        ok_or (List.find (\<lambda>m. me_identity_id m = ow_identity_id owner
                \<and> me_root_public_key m = ow_root_public_key owner) (sc_members c)) Authority_err)
        (ge_owners (au_body a)))"

definition owner_step :: "RecordId btree_set \<Rightarrow> Member \<Rightarrow> RecordError + RecordId btree_set" where
  "owner_step owners m =
     (if me_identity_type m \<noteq> ''HUMAN''
         \<or> \<not> list_all (\<lambda>cap. cap \<in> set (me_capabilities m)) [Read, Post, ShareHistory, Manage]
      then Inl Authority_err
      else Inr (bs_extend (me_credential_ids m) owners))"

definition validate_config ::
  "('z authority_ext_scheme) \<Rightarrow> Authority \<Rightarrow> StreamConfig \<Rightarrow> RecordError + unit" where
  "validate_config E a c =
     bindr (hex 16 (sc_nonce c)) (\<lambda>_.
     if sc_v c \<noteq> ge_v (au_body a)
        \<or> sc_kind c \<noteq> ''stream.config''
        \<or> sc_space_id c \<noteq> space E a
        \<or> sc_stream_id c \<noteq> au_stream a
        \<or> sc_sequence c = 0
        \<or> sc_sequence c > MAX_INTEGER
        \<or> (sc_sequence c = 1) \<noteq> (sc_previous_config_id c = None)
        \<or> (sc_witness_evidence c \<noteq> None) \<noteq> (witness_pin a \<noteq> None \<and> sc_sequence c > 1)
     then Inl Authority_err
     else
     bindr (credential a (sc_controller_credential_id c)) (\<lambda>signer.
     if ca_actor_identity (sc_action c) \<noteq> identity signer
        \<or> ca_operation (sc_action c) \<notin> set config_operations
     then Inl Authority_err
     else if \<not> sorted_unique (map me_identity_id (sc_members c)) 1 MAX_CHAT_MEMBERS
     then Inl Authority_err
     else
     bindr (foldr_result (member_step E a) ([], [], []) (sc_members c)) (\<lambda>(all', _, _).
     if length all' > MAX_CHAT_CREDENTIALS then Inl Authority_err
     else
     bindr (owner_members a c) (\<lambda>oms.
     if oms = []
        \<or> (is_owner_managed a
            \<and> \<not> list_ex (\<lambda>m. me_identity_id m = ge_issuer_identity (au_body a)) oms)
        \<or> (is_owner_managed a \<and> sc_sequence c = 1
            \<and> list_ex (\<lambda>m. Manage \<in> set (me_capabilities m)
                \<and> \<not> list_ex (\<lambda>owner. ow_identity_id owner = me_identity_id m) (ge_owners (au_body a)))
              (sc_members c))
     then Inl Authority_err
     else
     bindr (foldr_result owner_step [] oms) (\<lambda>owners.
     if sc_owner_credential_ids c \<noteq> owners
        \<or> ((\<not> is_owner_managed a \<or> sc_sequence c = 1)
            \<and> sc_controller_credential_id c \<notin> set (sc_owner_credential_ids c))
     then Inl Authority_err
     else Inr ())))))"

subsection \<open>Lookups\<close>

named_theorems authority_simps \<open>inversion of the authority's accessors\<close>

lemma config_iff [authority_simps]: "config a i = Inr c \<longleftrightarrow> (\<exists>r. bt_get (au_configs a) i = Some (r, c))"
  by (auto simp: config_def result_simps)

lemma config_record_iff [authority_simps]:
  "config_record a i = Inr r \<longleftrightarrow> (\<exists>c. bt_get (au_configs a) i = Some (r, c))"
  by (auto simp: config_record_def result_simps)

lemma credential_iff [authority_simps]: "credential a i = Inr c \<longleftrightarrow> bt_get (au_credentials a) i = Some c"
  by (simp add: credential_def result_simps)

lemma head_iff [authority_simps]: "head a = Inr c \<longleftrightarrow> (\<exists>i. au_head a = Some i \<and> config a i = Inr c)"
  by (simp add: head_def result_simps)

lemma config_cong: "au_configs a = au_configs b \<Longrightarrow> config a = config b"
  by (simp add: config_def fun_eq_iff)

lemma credential_cong: "au_credentials a = au_credentials b \<Longrightarrow> credential a = credential b"
  by (simp add: credential_def fun_eq_iff)

subsection \<open>The chain of ancestors\<close>

text \<open>The ancestors of a configuration, itself first, as a specification of the walk.\<close>

inductive ancestry :: "Authority \<Rightarrow> RecordId option \<Rightarrow> (RecordId \<times> StreamConfig) list \<Rightarrow> bool"
  for a :: Authority where
  ancestry_none: "ancestry a None []"
| ancestry_some:
    "config a i = Inr c \<Longrightarrow> ancestry a (sc_previous_config_id c) xs \<Longrightarrow> ancestry a (Some i) ((i, c) # xs)"

inductive_cases ancestry_NoneE: "ancestry a None xs"
inductive_cases ancestry_SomeE: "ancestry a (Some i) xs"

lemma ancestry_unique: "ancestry a s xs \<Longrightarrow> ancestry a s ys \<Longrightarrow> xs = ys"
proof (induction arbitrary: ys rule: ancestry.induct)
  case ancestry_none
  then show ?case by (auto elim: ancestry_NoneE)
next
  case (ancestry_some i c xs)
  from ancestry_some.prems obtain d zs where "ys = (i, d) # zs" "config a i = Inr d"
    "ancestry a (sc_previous_config_id d) zs"
    by (auto elim: ancestry_SomeE)
  with ancestry_some.hyps ancestry_some.IH show ?case by simp
qed

lemma ancestry_config: "ancestry a s xs \<Longrightarrow> (i, c) \<in> set xs \<Longrightarrow> config a i = Inr c"
  by (induction rule: ancestry.induct) auto

definition config_link :: "Authority \<Rightarrow> StreamConfig \<Rightarrow> bool" where
  "config_link a c \<longleftrightarrow>
     (case sc_previous_config_id c of
        None \<Rightarrow> sc_sequence c = 1
      | Some p \<Rightarrow>
          (case config a p of
             Inl _ \<Rightarrow> False
           | Inr parent \<Rightarrow> sc_sequence c = sc_sequence parent + 1 \<and> 1 \<le> sc_sequence parent
               \<and> (sc_chat_kind parent \<noteq> None \<longrightarrow> sc_chat_kind c = sc_chat_kind parent)))"

definition linked :: "Authority \<Rightarrow> bool" where
  "linked a \<longleftrightarrow> (\<forall>e \<in> set (au_configs a). config_link a (snd (snd e)))"

lemma linkedD: "linked a \<Longrightarrow> config a i = Inr c \<Longrightarrow> config_link a c"
  by (force simp: linked_def config_iff dest: bt_get_in)

lemma linked_ancestry:
  assumes "linked a" "config a i = Inr c"
  shows "\<exists>xs. ancestry a (Some i) xs \<and> map (\<lambda>e. sc_sequence (snd e)) xs = rev [1..<Suc (sc_sequence c)]"
  using assms(2)
proof (induction "sc_sequence c" arbitrary: i c rule: less_induct)
  case less
  note link = linkedD [OF assms(1) less.prems]
  show ?case
  proof (cases "sc_previous_config_id c")
    case None
    then have "ancestry a (Some i) [(i, c)]"
      using less.prems ancestry_none by (auto intro: ancestry_some)
    with link None show ?thesis
      by (intro exI [of _ "[(i, c)]"]) (simp add: config_link_def)
  next
    case (Some p)
    with link obtain parent where p: "config a p = Inr parent"
      and s: "sc_sequence c = Suc (sc_sequence parent)"
      by (auto simp: config_link_def split: sum.splits)
    from less.hyps [OF _ p] s obtain xs where
      xs: "ancestry a (Some p) xs" "map (\<lambda>e. sc_sequence (snd e)) xs = rev [1..<Suc (sc_sequence parent)]"
      by auto
    with Some less.prems have "ancestry a (Some i) ((i, c) # xs)"
      by (auto intro: ancestry_some)
    with xs s show ?thesis
      by (intro exI [of _ "(i, c) # xs"]) simp
  qed
qed

lemma ancestry_sequences:
  assumes "linked a" "config a i = Inr c" "ancestry a (Some i) xs"
  shows "map (\<lambda>e. sc_sequence (snd e)) xs = rev [1..<Suc (sc_sequence c)]" "length xs = sc_sequence c"
proof -
  show m: "map (\<lambda>e. sc_sequence (snd e)) xs = rev [1..<Suc (sc_sequence c)]"
    using linked_ancestry [OF assms(1,2)] ancestry_unique [OF assms(3)] by blast
  have "length (map (\<lambda>e. sc_sequence (snd e)) xs) = length (rev [1..<Suc (sc_sequence c)])"
    by (simp only: m)
  then show "length xs = sc_sequence c" by simp
qed

lemma sequence_bounded:
  assumes "linked a" "config a i = Inr c"
  shows "sc_sequence c \<le> length (au_configs a)"
proof -
  obtain xs where xs: "ancestry a (Some i) xs"
    and m: "map (\<lambda>e. sc_sequence (snd e)) xs = rev [1..<Suc (sc_sequence c)]"
    using linked_ancestry [OF assms] by blast
  let ?all = "(\<lambda>e. sc_sequence (snd (snd e))) ` set (au_configs a)"
  have "{1..<Suc (sc_sequence c)} = set (map (\<lambda>e. sc_sequence (snd e)) xs)"
    by (simp only: m set_rev set_upt)
  also have "\<dots> \<subseteq> ?all"
  proof
    fix n
    assume "n \<in> set (map (\<lambda>e. sc_sequence (snd e)) xs)"
    then obtain j d where "(j, d) \<in> set xs" "n = sc_sequence d" by auto
    moreover from this xs obtain r where "(j, (r, d)) \<in> set (au_configs a)"
      by (meson ancestry_config config_iff bt_get_in)
    ultimately show "n \<in> ?all" by force
  qed
  finally have "{1..<Suc (sc_sequence c)} \<subseteq> ?all" .
  then have "card {1..<Suc (sc_sequence c)} \<le> card ?all"
    by (intro card_mono) auto
  also have "\<dots> \<le> length (au_configs a)"
    using card_image_le [of "set (au_configs a)"] card_length order_trans by blast
  finally show ?thesis by simp
qed

lemma walk_fuel_ancestry:
  "ancestry a s xs \<Longrightarrow> length xs \<le> n \<Longrightarrow>
   walk_fuel n f a s = Some (collectr (\<lambda>e. f (fst e) (snd e)) xs)"
proof (induction arbitrary: n rule: ancestry.induct)
  case ancestry_none
  then show ?case by simp
next
  case (ancestry_some i c xs)
  then obtain m where "n = Suc m" by (cases n) auto
  with ancestry_some show ?case by (auto split: sum.splits)
qed

text \<open>
  The walk visits exactly the ancestors, in order, whatever the loop body does: in a linked
  authority its fuel is enough.
\<close>

lemma walk_eq:
  assumes "linked a" "s = None \<or> (\<exists>i c. s = Some i \<and> config a i = Inr c)"
  shows "\<exists>xs. ancestry a s xs \<and> walk f a s = collectr (\<lambda>e. f (fst e) (snd e)) xs"
  using assms(2)
proof (elim disjE exE conjE)
  assume "s = None"
  then show ?thesis by (auto simp: walk_def intro: exI [of _ "[]"] ancestry_none)
next
  fix i c
  assume s: "s = Some i" and c: "config a i = Inr c"
  obtain xs where xs: "ancestry a (Some i) xs"
    using linked_ancestry [OF assms(1) c] by blast
  have "length xs \<le> Suc (length (au_configs a))"
    using ancestry_sequences(2) [OF assms(1) c xs] sequence_bounded [OF assms(1) c] by simp
  then have "walk f a s = collectr (\<lambda>e. f (fst e) (snd e)) xs"
    unfolding walk_def s by (subst walk_fuel_ancestry [OF xs]) (simp_all only: option.simps)
  with s xs show ?thesis by blast
qed

lemma witness_ancestry_eq:
  assumes "linked a" "au_head a = Some h" "config a h = Inr c" "ancestry a (Some h) xs"
  shows "witness_ancestry a = Inr xs"
  using walk_eq [of a "au_head a" "\<lambda>id' c. Inr (id', c)"] assms ancestry_unique
  by (fastforce simp: witness_ancestry_def)

subsection \<open>What the structural check guarantees\<close>

abbreviation devices :: "StreamConfig \<Rightarrow> RecordId list" where
  "devices c \<equiv> concat (map me_credential_ids (sc_members c))"

text \<open>The three sets the check accumulates, for the devices \<open>ids\<close> seen so far.\<close>

definition seen_ok :: "Authority \<Rightarrow> RecordId list \<Rightarrow> VerifiedCredential list \<Rightarrow> seen \<Rightarrow> bool" where
  "seen_ok a ids cs seen \<longleftrightarrow>
     list_all2 (\<lambda>i c. credential a i = Inr c) ids cs
     \<and> distinct ids \<and> set (fst seen) = set ids \<and> sorted_wrt (<) (fst seen)
     \<and> distinct (map vc_key cs) \<and> set (fst (snd seen)) = vc_key ` set cs
     \<and> distinct (map recipient cs) \<and> set (snd (snd seen)) = recipient ` set cs"

lemma seen_ok_length: "seen_ok a ids cs seen \<Longrightarrow> length (fst seen) = length ids"
  unfolding seen_ok_def by (elim conjE) (simp flip: distinct_card add: sorted_wrt_less_distinct)

lemma credential_step_ok:
  assumes "credential_step a m seen i = Inr seen'" "seen_ok a ids cs seen"
  shows "\<exists>c. credential a i = Inr c \<and> identity c = me_identity_id m
    \<and> root_public_key_json c = String (me_root_public_key m) \<and> seen_ok a (ids @ [i]) (cs @ [c]) seen'"
proof -
  from assms(1) obtain c where "credential a i = Inr c" "identity c = me_identity_id m"
    "root_public_key_json c = String (me_root_public_key m)"
    "i \<notin> set (fst seen)" "vc_key c \<notin> set (fst (snd seen))" "recipient c \<notin> set (snd (snd seen))"
    "seen' = (bs_insert i (fst seen), bs_insert (vc_key c) (fst (snd seen)),
       bs_insert (recipient c) (snd (snd seen)))"
    unfolding credential_step_def split_beta bindr_eq_Inr guard_eq_Inr by auto
  with assms(2) show ?thesis
    by (simp add: seen_ok_def list_all2_appendI)
qed

definition member_devices_ok :: "Authority \<Rightarrow> Member \<Rightarrow> bool" where
  "member_devices_ok a m \<longleftrightarrow>
     (\<forall>i \<in> set (me_credential_ids m). \<exists>c. credential a i = Inr c \<and> identity c = me_identity_id m
        \<and> root_public_key_json c = String (me_root_public_key m))"

lemma credential_fold_ok:
  assumes "foldr_result (credential_step a m) seen is = Inr seen'" "seen_ok a ids cs seen"
  shows "\<exists>ds. seen_ok a (ids @ is) (cs @ ds) seen'
    \<and> (\<forall>i \<in> set is. \<exists>c. credential a i = Inr c \<and> identity c = me_identity_id m
        \<and> root_public_key_json c = String (me_root_public_key m))"
  using assms
proof (induction "is" arbitrary: seen ids cs)
  case Nil
  then show ?case by (auto intro: exI [of _ "[]"])
next
  case (Cons i "is")
  from Cons.prems(1) obtain mid where mid: "credential_step a m seen i = Inr mid"
    "foldr_result (credential_step a m) mid is = Inr seen'"
    by (auto simp: bindr_eq_Inr)
  from credential_step_ok [OF mid(1) Cons.prems(2)] obtain c where
    c: "credential a i = Inr c" "identity c = me_identity_id m"
      "root_public_key_json c = String (me_root_public_key m)" "seen_ok a (ids @ [i]) (cs @ [c]) mid"
    by blast
  from Cons.IH [OF mid(2) c(4)] c(1-3) show ?case by fastforce
qed

definition member_shape :: "('z authority_ext_scheme) \<Rightarrow> Member \<Rightarrow> bool" where
  "member_shape E m \<longleftrightarrow>
     me_identity_type m \<in> {''HUMAN'', ''SERVICE'', ''DEVICE''}
     \<and> sorted_wrt (<) (me_credential_ids m) \<and> me_credential_ids m \<noteq> [] \<and> length (me_credential_ids m) \<le> 32
     \<and> sorted_wrt (<) (me_capabilities m) \<and> me_capabilities m \<noteq> []
     \<and> (ShareHistory \<in> set (me_capabilities m) \<longrightarrow> Read \<in> set (me_capabilities m))
     \<and> (\<exists>root. me_root_public_key m = encode_hex root \<and> length root = 32 \<and> of_root_key E root = me_identity_id m)"

lemma member_step_ok:
  assumes "member_step E a seen m = Inr seen'" "seen_ok a ids cs seen"
  shows "member_shape E m \<and> member_devices_ok a m
    \<and> (\<exists>ds. seen_ok a (ids @ me_credential_ids m) (cs @ ds) seen')"
proof -
  from assms(1) have f: "foldr_result (credential_step a m) seen (me_credential_ids m) = Inr seen'"
    and sh: "member_shape E m"
    by (auto simp: member_step_def member_shape_def result_simps sorted_unique_iff split: if_splits)
  from credential_fold_ok [OF f assms(2)] sh show ?thesis
    by (auto simp: member_devices_ok_def)
qed

lemma member_fold_ok:
  assumes "foldr_result (member_step E a) seen ms = Inr seen'" "seen_ok a ids cs seen"
  shows "(\<forall>m \<in> set ms. member_shape E m \<and> member_devices_ok a m)
    \<and> (\<exists>ds. seen_ok a (ids @ concat (map me_credential_ids ms)) (cs @ ds) seen')"
  using assms
proof (induction ms arbitrary: seen ids cs)
  case Nil
  then show ?case by (auto intro: exI [of _ "[]"])
next
  case (Cons m ms)
  from Cons.prems(1) obtain mid where mid: "member_step E a seen m = Inr mid"
    "foldr_result (member_step E a) mid ms = Inr seen'"
    by (auto simp: bindr_eq_Inr)
  from member_step_ok [OF mid(1) Cons.prems(2)] obtain ds where
    m: "member_shape E m" "member_devices_ok a m" "seen_ok a (ids @ me_credential_ids m) (cs @ ds) mid"
    by blast
  from Cons.IH [OF mid(2) m(3)] obtain es where
    "\<forall>m \<in> set ms. member_shape E m \<and> member_devices_ok a m"
    "seen_ok a (ids @ concat (map me_credential_ids (m # ms))) (cs @ ds @ es) seen'" by auto
  with m(1,2) show ?case by auto
qed

lemma owner_step_Inr:
  "owner_step s m = Inr s' \<longleftrightarrow> s' = bs_extend (me_credential_ids m) s \<and> me_identity_type m = ''HUMAN''
     \<and> {Read, Post, ShareHistory, Manage} \<subseteq> set (me_capabilities m)"
  by (auto simp: owner_step_def)

lemma owner_fold:
  assumes "foldr_result owner_step s oms = Inr owners" "sorted_wrt (<) s"
  shows "sorted_wrt (<) owners \<and> set owners = set s \<union> set (concat (map me_credential_ids oms))
    \<and> (\<forall>m \<in> set oms. me_identity_type m = ''HUMAN'' \<and> {Read, Post, ShareHistory, Manage} \<subseteq> set (me_capabilities m))"
  using assms
proof (induction oms arbitrary: s)
  case (Cons m oms)
  from Cons.prems(1) have f: "foldr_result owner_step (bs_extend (me_credential_ids m) s) oms = Inr owners"
    and m: "me_identity_type m = ''HUMAN'' \<and> {Read, Post, ShareHistory, Manage} \<subseteq> set (me_capabilities m)"
    by (auto simp: bindr_eq_Inr owner_step_Inr)
  have "sorted_wrt (<) (bs_extend (me_credential_ids m) s)" using Cons.prems(2) by simp
  note IH = Cons.IH [OF f this]
  then have "set owners = set s \<union> set (concat (map me_credential_ids (m # oms)))" by auto
  with IH m show ?case by simp
qed simp

text \<open>The checks of an accepted configuration, one after the other.\<close>

lemma validate_config_steps:
  assumes "validate_config E a c = Inr u"
  obtains nonce signer seen oms where
    "hex 16 (sc_nonce c) = Inr nonce"
    "sc_v c = ge_v (au_body a)" "sc_kind c = ''stream.config''" "sc_space_id c = space E a"
    "sc_stream_id c = au_stream a" "1 \<le> sc_sequence c" "sc_sequence c \<le> MAX_INTEGER"
    "sc_sequence c = 1 \<longleftrightarrow> sc_previous_config_id c = None"
    "sc_witness_evidence c \<noteq> None \<longleftrightarrow> witness_pin a \<noteq> None \<and> sc_sequence c > 1"
    "credential a (sc_controller_credential_id c) = Inr signer"
    "ca_actor_identity (sc_action c) = identity signer"
    "ca_operation (sc_action c) \<in> set config_operations"
    "sorted_unique (map me_identity_id (sc_members c)) 1 MAX_CHAT_MEMBERS"
    "foldr_result (member_step E a) ([], [], []) (sc_members c) = Inr seen"
    "length (fst seen) \<le> MAX_CHAT_CREDENTIALS"
    "owner_members a c = Inr oms" "oms \<noteq> []"
    "is_owner_managed a \<longrightarrow> list_ex (\<lambda>m. me_identity_id m = ge_issuer_identity (au_body a)) oms"
    "foldr_result owner_step [] oms = Inr (sc_owner_credential_ids c)"
    "\<not> is_owner_managed a \<or> sc_sequence c = 1 \<longrightarrow>
       sc_controller_credential_id c \<in> set (sc_owner_credential_ids c)"
proof -
  show thesis
    using assms
    unfolding validate_config_def bindr_eq_Inr guard_eq_Inr split_beta
    by (elim exE conjE, intro that) (assumption | force simp: Suc_le_eq not_less)+
qed

lemma validate_config_header:
  assumes "validate_config E a c = Inr u"
  shows "1 \<le> sc_sequence c" "sc_sequence c \<le> MAX_INTEGER" "sc_v c = ge_v (au_body a)"
    "sc_space_id c = space E a" "sc_stream_id c = au_stream a"
    "sc_sequence c = 1 \<longleftrightarrow> sc_previous_config_id c = None"
    "sc_witness_evidence c \<noteq> None \<longleftrightarrow> witness_pin a \<noteq> None \<and> sc_sequence c > 1"
    "\<exists>signer. credential a (sc_controller_credential_id c) = Inr signer
       \<and> ca_actor_identity (sc_action c) = identity signer"
    "ca_operation (sc_action c) \<in> set config_operations"
    "sorted_wrt (<) (map me_identity_id (sc_members c))" "length (sc_members c) \<le> MAX_CHAT_MEMBERS"
  by (rule validate_config_steps [OF assms]; auto simp: sorted_unique_iff)+

lemma validate_config_devices:
  assumes "validate_config E a c = Inr u"
  shows "\<forall>m \<in> set (sc_members c). member_shape E m \<and> member_devices_ok a m"
    "length (devices c) \<le> MAX_CHAT_CREDENTIALS"
    "\<exists>cs. list_all2 (\<lambda>i d. credential a i = Inr d) (devices c) cs \<and> distinct (devices c)
       \<and> distinct (map vc_key cs) \<and> distinct (map recipient cs)"
proof -
  obtain seen where f: "foldr_result (member_step E a) ([], [], []) (sc_members c) = Inr seen"
    and l: "length (fst seen) \<le> MAX_CHAT_CREDENTIALS"
    by (rule validate_config_steps [OF assms])
  have "seen_ok a [] [] ([], [], [])" by (simp add: seen_ok_def)
  from member_fold_ok [OF f this] obtain ds where
    m: "\<forall>m \<in> set (sc_members c). member_shape E m \<and> member_devices_ok a m"
    and s: "seen_ok a (devices c) ds seen" by auto
  show "\<forall>m \<in> set (sc_members c). member_shape E m \<and> member_devices_ok a m" by (rule m)
  show "length (devices c) \<le> MAX_CHAT_CREDENTIALS" using l seen_ok_length [OF s] by simp
  show "\<exists>cs. list_all2 (\<lambda>i d. credential a i = Inr d) (devices c) cs \<and> distinct (devices c)
       \<and> distinct (map vc_key cs) \<and> distinct (map recipient cs)"
    using s by (auto simp: seen_ok_def)
qed

lemma validate_config_owners:
  assumes "validate_config E a c = Inr u"
  shows "\<exists>oms. owner_members a c = Inr oms \<and> oms \<noteq> []
      \<and> set (sc_owner_credential_ids c) = set (concat (map me_credential_ids oms))
      \<and> sorted_wrt (<) (sc_owner_credential_ids c)
      \<and> (\<forall>m \<in> set oms. me_identity_type m = ''HUMAN''
           \<and> {Read, Post, ShareHistory, Manage} \<subseteq> set (me_capabilities m))
      \<and> (is_owner_managed a \<longrightarrow> (\<exists>m \<in> set oms. me_identity_id m = ge_issuer_identity (au_body a)))"
    "\<not> is_owner_managed a \<or> sc_sequence c = 1 \<Longrightarrow>
       sc_controller_credential_id c \<in> set (sc_owner_credential_ids c)"
proof -
  obtain oms where oms: "owner_members a c = Inr oms" "oms \<noteq> []"
    "is_owner_managed a \<longrightarrow> list_ex (\<lambda>m. me_identity_id m = ge_issuer_identity (au_body a)) oms"
    "foldr_result owner_step [] oms = Inr (sc_owner_credential_ids c)"
    by (rule validate_config_steps [OF assms])
  from owner_fold [OF oms(4)] oms(1-3)
  show "\<exists>oms. owner_members a c = Inr oms \<and> oms \<noteq> []
      \<and> set (sc_owner_credential_ids c) = set (concat (map me_credential_ids oms))
      \<and> sorted_wrt (<) (sc_owner_credential_ids c)
      \<and> (\<forall>m \<in> set oms. me_identity_type m = ''HUMAN''
           \<and> {Read, Post, ShareHistory, Manage} \<subseteq> set (me_capabilities m))
      \<and> (is_owner_managed a \<longrightarrow> (\<exists>m \<in> set oms. me_identity_id m = ge_issuer_identity (au_body a)))"
    by (auto simp: list_ex_iff)
  show "\<not> is_owner_managed a \<or> sc_sequence c = 1 \<Longrightarrow>
       sc_controller_credential_id c \<in> set (sc_owner_credential_ids c)"
    by (rule validate_config_steps [OF assms]) blast
qed

lemma owner_members_subset: "owner_members a c = Inr oms \<Longrightarrow> set oms \<subseteq> set (sc_members c)"
proof
  fix m
  assume o: "owner_members a c = Inr oms" and m: "m \<in> set oms"
  show "m \<in> set (sc_members c)"
  proof (cases "is_owner_managed a \<and> sc_sequence c > 1")
    case True
    with o m show ?thesis by (auto simp: owner_members_def)
  next
    case False
    from o have "collectr (\<lambda>owner. ok_or (List.find (\<lambda>m. me_identity_id m = ow_identity_id owner
        \<and> me_root_public_key m = ow_root_public_key owner) (sc_members c)) Authority_err)
        (ge_owners (au_body a)) = Inr oms"
      by (simp only: owner_members_def if_not_P [OF False])
    from collectr_member [OF this m] obtain owner :: Owner where
      "List.find (\<lambda>m. me_identity_id m = ow_identity_id owner
        \<and> me_root_public_key m = ow_root_public_key owner) (sc_members c) = Some m"
      by (auto simp: ok_or_eq_Inr)
    then show ?thesis by (auto dest: find_eq_Some)
  qed
qed

text \<open>
  In an accepted configuration no two devices share an identifier, a signing key or an
  encryption recipient; every listed device is a verified credential of the member it is
  listed under; the member and device counts respect their limits; every owner device belongs
  to a human member with all owner capabilities, and in an owner-managed space the creator
  stays a member with those capabilities.
\<close>

lemma validate_config_sound:
  assumes "validate_config E a c = Inr ()"
  shows "(\<exists>cs. list_all2 (\<lambda>i d. credential a i = Inr d) (devices c) cs \<and> distinct (devices c)
       \<and> distinct (map vc_key cs) \<and> distinct (map recipient cs))
    \<and> (\<forall>m \<in> set (sc_members c). \<forall>i \<in> set (me_credential_ids m).
         \<exists>d. credential a i = Inr d \<and> identity d = me_identity_id m)
    \<and> length (sc_members c) \<le> MAX_CHAT_MEMBERS \<and> length (devices c) \<le> MAX_CHAT_CREDENTIALS
    \<and> (\<forall>i \<in> set (sc_owner_credential_ids c). \<exists>m \<in> set (sc_members c). i \<in> set (me_credential_ids m)
         \<and> me_identity_type m = ''HUMAN'' \<and> {Read, Post, ShareHistory, Manage} \<subseteq> set (me_capabilities m))
    \<and> (is_owner_managed a \<longrightarrow> (\<exists>m \<in> set (sc_members c).
         me_identity_id m = ge_issuer_identity (au_body a) \<and> Manage \<in> set (me_capabilities m)))"
proof -
  from validate_config_owners(1) [OF assms] obtain oms where
    o: "owner_members a c = Inr oms" "set (sc_owner_credential_ids c) = set (concat (map me_credential_ids oms))"
      "\<forall>m \<in> set oms. me_identity_type m = ''HUMAN''
           \<and> {Read, Post, ShareHistory, Manage} \<subseteq> set (me_capabilities m)"
      "is_owner_managed a \<longrightarrow> (\<exists>m \<in> set oms. me_identity_id m = ge_issuer_identity (au_body a))"
    by blast
  note sub = owner_members_subset [OF o(1)]
  have "\<forall>i \<in> set (sc_owner_credential_ids c). \<exists>m \<in> set (sc_members c). i \<in> set (me_credential_ids m)
         \<and> me_identity_type m = ''HUMAN'' \<and> {Read, Post, ShareHistory, Manage} \<subseteq> set (me_capabilities m)"
  proof
    fix i
    assume "i \<in> set (sc_owner_credential_ids c)"
    then obtain m where m: "m \<in> set oms" "i \<in> set (me_credential_ids m)" by (auto simp: o(2))
    with o(3) sub show "\<exists>m \<in> set (sc_members c). i \<in> set (me_credential_ids m)
         \<and> me_identity_type m = ''HUMAN'' \<and> {Read, Post, ShareHistory, Manage} \<subseteq> set (me_capabilities m)"
      by (intro bexI [of _ m]) (auto simp del: insert_subset)
  qed
  moreover have "is_owner_managed a \<longrightarrow> (\<exists>m \<in> set (sc_members c).
         me_identity_id m = ge_issuer_identity (au_body a) \<and> Manage \<in> set (me_capabilities m))"
    using o sub by fastforce
  moreover have "\<forall>m \<in> set (sc_members c). \<forall>i \<in> set (me_credential_ids m).
         \<exists>d. credential a i = Inr d \<and> identity d = me_identity_id m"
    using validate_config_devices(1) [OF assms] by (force simp: member_devices_ok_def)
  ultimately show ?thesis
    using validate_config_devices(2,3) [OF assms] validate_config_header(11) [OF assms]
    by (intro conjI) assumption+
qed

end
