(* ===== verification/Authority_Witness.thy ===== *)
theory Authority_Witness
  imports Authority_Chain "HOL-Library.Multiset"
begin

text \<open>
  \<^verbatim>\<open>crates/elo-core/src/authority/witness.rs\<close>, \<^verbatim>\<open>authority/witness/durable.rs\<close> and the contact
  card of \<^verbatim>\<open>invite/shared.rs\<close>: which membership additions a pinned witness may order without
  an owner signature. \<open>finish_witness_admission\<close> computes the only configuration an admission
  may produce; its lemmas say how that configuration differs from its parent.
\<close>

definition MAX_CHALLENGE_MS :: nat where "MAX_CHALLENGE_MS = 120000"
definition MAX_REQUEST_MS :: nat where "MAX_REQUEST_MS = 24 * 60 * 60 * 1000"

record AdmissionApproval =
  aa_signed :: SignedRecord
  aa_issuer :: RecordId
  aa_head :: RecordId
  aa_readmission :: bool

record ValidatedAdmission =
  va_candidate :: VerifiedCredential
  va_policy :: WitnessInvitationPolicy
  va_policy_id :: RecordId
  va_challenge_nonce :: string
  va_request_id :: RecordId
  va_config_nonce :: string
  va_admitted_at_ms :: nat
  va_approval :: "AdmissionApproval option"
  va_evidence :: WitnessConfigEvidence

subsection \<open>Shared checks\<close>

definition witness_decode :: "('z authority_ext_scheme) \<Rightarrow> string \<Rightarrow> RecordError + SignedRecord" where
  "witness_decode E value =
     (if length value > (MAX_RECORD + 2) div 3 * 4 then Inl Framing
      else bindr (ok_or (b64_decode E value) Json) (parse E))"

definition same_config :: "('z authority_ext_scheme) \<Rightarrow> StreamConfig \<Rightarrow> StreamConfig \<Rightarrow> bool" where
  "same_config E left right \<longleftrightarrow> config_to_value E left = config_to_value E right"

fun owner_until :: "RecordId \<Rightarrow> RecordId \<Rightarrow> (RecordId \<times> StreamConfig) list \<Rightarrow> RecordError + unit" where
  "owner_until cred hd' [] = Inl Authority_err"
| "owner_until cred hd' ((id', c) # rest) =
     (if cred \<notin> set (sc_owner_credential_ids c) then Inl Authority_err
      else if id' = hd' then Inr ()
      else owner_until cred hd' rest)"

definition witness_owner_at :: "Authority \<Rightarrow> RecordId \<Rightarrow> RecordId \<Rightarrow> RecordError + unit" where
  "witness_owner_at a cred hd' =
     (if au_forked a \<or> witness_pin a = None \<or> \<not> can_manage a cred then Inl Authority_err
      else bindr (witness_ancestry a) (owner_until cred hd'))"

definition verify_witness_invitation ::
  "('z authority_ext_scheme) \<Rightarrow> Authority \<Rightarrow> SignedRecord \<Rightarrow> nat \<Rightarrow> RecordError + WitnessInvitationPolicy" where
  "verify_witness_invitation E a srec now_ms =
     bindr (ok_or (witness_pin a) Authority_err) (\<lambda>pin.
     bindr (decode_with (dec_policy E) srec) (\<lambda>policy.
     bindr (hex 16 (wip_nonce policy)) (\<lambda>_.
     bindr (public_key E (wip_invitation_public_key policy)) (\<lambda>_.
     if wip_v policy \<noteq> 1
        \<or> wip_kind policy \<noteq> ''witness.invitation''
        \<or> wip_space_id policy \<noteq> space E a
        \<or> wip_stream_id policy \<noteq> au_stream a
        \<or> wip_witness_key_generation policy \<noteq> wp_key_generation pin
        \<or> wip_max_uses policy = 0
        \<or> wip_max_uses policy > MAX_INTEGER
        \<or> wip_not_before_ms policy \<ge> wip_expires_at_ms policy
        \<or> wip_expires_at_ms policy > MAX_INTEGER
        \<or> now_ms < wip_not_before_ms policy
        \<or> now_ms \<ge> wip_expires_at_ms policy
     then Inl Authority_err
     else
     bindr (witness_owner_at a (wip_issuer_credential_id policy) (wip_authority_head policy)) (\<lambda>_.
     bindr (credential a (wip_issuer_credential_id policy)) (\<lambda>issuer.
     bindr (verify_signature E srec (vc_key issuer)) (\<lambda>_. Inr policy)))))))"

definition require_witness_signer :: "('z authority_ext_scheme) \<Rightarrow> Authority \<Rightarrow> bytes \<Rightarrow> RecordError + unit" where
  "require_witness_signer E a key =
     (if au_forked a then Inl Authority_err
      else
      bindr (ok_or (witness_pin a) Authority_err) (\<lambda>pin.
      bindr (pin_key E pin) (\<lambda>pk.
      if pk \<noteq> ed_public E key then Inl Authority_err else Inr ())))"

definition name_valid :: "string \<Rightarrow> bool" where
  "name_valid name \<longleftrightarrow>
     trim (str_chars name) \<noteq> [] \<and> length name \<le> 120 \<and> \<not> list_ex is_control (str_chars name)"

definition verify_contact ::
  "('z authority_ext_scheme) \<Rightarrow> SignedRecord \<Rightarrow> VerifiedCredential \<Rightarrow> nat \<Rightarrow> RecordError + Contact" where
  "verify_contact E srec candidate now =
     bindr (verify_signature E srec (vc_key candidate)) (\<lambda>_.
     bindr (decode_with (dec_contact E) srec) (\<lambda>card.
     bindr (hex 16 (ct_nonce card)) (\<lambda>_.
     if ct_v card \<noteq> 1
        \<or> ct_kind card \<noteq> ''identity.contact''
        \<or> ct_issuer_identity card \<noteq> identity candidate
        \<or> ct_issuer_credential card \<noteq> credential_id E candidate
        \<or> \<not> name_valid (ct_name card)
        \<or> ct_expires_at card \<le> now
     then Inl Authority_err
     else Inr card)))"

definition proves_config_at :: "Authority \<Rightarrow> RecordId \<Rightarrow> nat \<Rightarrow> bool" where
  "proves_config_at a id' sequence \<longleftrightarrow>
     (case config a id' of Inr c \<Rightarrow> sc_sequence c = sequence | Inl _ \<Rightarrow> False)
     \<or> (case au_checkpoint_evidence a of
          None \<Rightarrow> False
        | Some p \<Rightarrow> sequence \<ge> 1 \<and> sequence - 1 < length (ce_ancestry p)
                     \<and> ce_ancestry p ! (sequence - 1) = id')"

subsection \<open>The configuration an admission produces\<close>

definition find_member :: "IdentityId \<Rightarrow> Member list \<Rightarrow> Member option" where
  "find_member ident ms = List.find (\<lambda>m. me_identity_id m = ident) ms"

definition removal_at ::
  "IdentityId \<Rightarrow> RecordId \<times> StreamConfig \<Rightarrow> RecordId \<times> StreamConfig \<Rightarrow> nat option" where
  "removal_at ident newer older =
     (case find_member ident (sc_members (snd older)) of
        None \<Rightarrow> None
      | Some previous \<Rightarrow>
          let current = find_member ident (sc_members (snd newer)) in
          if list_ex (\<lambda>i. case current of None \<Rightarrow> True | Some m \<Rightarrow> i \<notin> set (me_credential_ids m))
               (me_credential_ids previous)
          then Some (sc_sequence (snd newer)) else None)"

definition last_removal :: "IdentityId \<Rightarrow> (RecordId \<times> StreamConfig) list \<Rightarrow> nat option" where
  "last_removal ident anc = windows2_find_map (removal_at ident) anc"

definition prior_admission ::
  "('z authority_ext_scheme) \<Rightarrow> StreamConfig \<Rightarrow> RecordError + (nat \<times> RecordId \<times> string \<times> RecordId) option" where
  "prior_admission E c =
     (case sc_witness_evidence c of
        Some (Admission_evidence prior) \<Rightarrow>
          bindr (witness_decode E (wae_challenge prior)) (\<lambda>cr.
          bindr (decode_with (dec_challenge E) cr) (\<lambda>challenge.
          bindr (witness_decode E (wae_policy prior)) (\<lambda>pr.
          bindr (witness_decode E (wae_device_intent prior)) (\<lambda>dr.
          Inr (Some (wae_admitted_at_ms prior, record_id E pr, wc_nonce challenge, record_id E dr))))))
      | Some (AdmissionV2_evidence prior) \<Rightarrow>
          bindr (witness_decode E (wa2_challenge prior)) (\<lambda>cr.
          bindr (decode_with (dec_challenge_v2 E) cr) (\<lambda>challenge.
          bindr (witness_decode E (wje_policy (wa2_request prior))) (\<lambda>pr.
          bindr (witness_decode E (wje_device_request (wa2_request prior))) (\<lambda>dr.
          Inr (Some (wa2_admitted_at_ms prior, record_id E pr, wc_nonce challenge, record_id E dr))))))
      | _ \<Rightarrow> Inr None)"

definition device_conflicts ::
  "('z authority_ext_scheme) \<Rightarrow> Authority \<Rightarrow> VerifiedCredential \<Rightarrow> RecordId \<Rightarrow> RecordError + unit" where
  "device_conflicts E a candidate id' =
     bindr (credential a id') (\<lambda>previous.
     if id' = credential_id E candidate
        \<or> vc_key previous = vc_key candidate
        \<or> recipient previous = recipient candidate
     then Inl Authority_err else Inr ())"

definition ancestor_step ::
  "('z authority_ext_scheme) \<Rightarrow> Authority \<Rightarrow> ValidatedAdmission \<Rightarrow> nat \<Rightarrow> RecordId \<times> StreamConfig \<Rightarrow>
   RecordError + nat" where
  "ancestor_step E a adm uses entry =
     bindr (check_all (device_conflicts E a (va_candidate adm)) (devices (snd entry))) (\<lambda>_.
     bindr (prior_admission E (snd entry)) (\<lambda>prior.
     case prior of
       None \<Rightarrow> Inr uses
     | Some (prior_time, prior_policy, prior_nonce, prior_request) \<Rightarrow>
         if prior_time > va_admitted_at_ms adm
            \<or> prior_nonce = va_challenge_nonce adm
            \<or> prior_request = va_request_id adm
         then Inl Authority_err
         else Inr (if prior_policy = va_policy_id adm then uses + 1 else uses)))"

definition check_approval ::
  "('z authority_ext_scheme) \<Rightarrow> Authority \<Rightarrow> ValidatedAdmission \<Rightarrow> nat option \<Rightarrow> RecordError + unit" where
  "check_approval E a adm removal =
     (case va_approval adm of
        Some approval \<Rightarrow>
          bindr
            (case removal of
               None \<Rightarrow> Inr ()
             | Some at_sequence \<Rightarrow>
                 if \<not> aa_readmission approval then Inl Authority_err
                 else
                 bindr (config a (aa_head approval)) (\<lambda>c.
                 if sc_sequence c < at_sequence then Inl Authority_err else Inr ())) (\<lambda>_.
          bindr (witness_owner_at a (aa_issuer approval) (aa_head approval)) (\<lambda>_.
          bindr (credential a (aa_issuer approval)) (\<lambda>issuer.
          verify_signature E (aa_signed approval) (vc_key issuer))))
      | None \<Rightarrow>
          if wip_require_approval (va_policy adm) \<or> removal \<noteq> None then Inl Authority_err else Inr ())"

fun add_device :: "IdentityId \<Rightarrow> RecordId \<Rightarrow> Member list \<Rightarrow> Member list" where
  "add_device ident cred [] = []"
| "add_device ident cred (m # ms) =
     (if me_identity_id m = ident
      then m\<lparr>me_credential_ids := sort (me_credential_ids m @ [cred])\<rparr> # ms
      else m # add_device ident cred ms)"

definition admitted_members ::
  "('z authority_ext_scheme) \<Rightarrow> VerifiedCredential \<Rightarrow> Member list \<Rightarrow> RecordError + Member list" where
  "admitted_members E candidate ms =
     (if find_member (identity candidate) ms \<noteq> None
      then Inr (add_device (identity candidate) (credential_id E candidate) ms)
      else
      bindr (ok_or (as_str (root_public_key_json candidate)) Authority_err) (\<lambda>root.
      Inr (sort_key me_identity_id (ms @
        [\<lparr>me_identity_id = identity candidate, me_identity_type = ''HUMAN'',
          me_root_public_key = root, me_capabilities = [Read, Post],
          me_credential_ids = [credential_id E candidate], me_external = True\<rparr>]))))"

definition finish_witness_admission ::
  "('z authority_ext_scheme) \<Rightarrow> Authority \<Rightarrow> ValidatedAdmission \<Rightarrow> RecordError + StreamConfig" where
  "finish_witness_admission E a adm =
     (let candidate = va_candidate adm in
     bindr (head a) (\<lambda>parent.
     let current_member = find_member (identity candidate) (sc_members parent) in
     if (case current_member of None \<Rightarrow> False
         | Some m \<Rightarrow> me_identity_type m \<noteq> ''HUMAN'' \<or> me_capabilities m \<noteq> [Read, Post]
             \<or> credential_id E candidate \<in> set (me_credential_ids m))
     then Inl Authority_err
     else if current_member \<noteq> None
        \<and> (case authorizing_device E candidate of None \<Rightarrow> False
            | Some authorizer \<Rightarrow> \<not> list_ex (\<lambda>m. me_identity_id m = identity candidate
                \<and> authorizer \<in> set (me_credential_ids m)) (sc_members parent))
     then Inl Authority_err
     else
     bindr (witness_ancestry a) (\<lambda>anc.
     let removal = last_removal (identity candidate) anc in
     bindr (foldr_result (ancestor_step E a adm) 0 anc) (\<lambda>uses.
     if uses \<ge> wip_max_uses (va_policy adm) then Inl Authority_err
     else
     bindr (check_approval E a adm removal) (\<lambda>_.
     bindr (admitted_members E candidate (sc_members parent)) (\<lambda>members.
     bindr (ok_or (checked_add (sc_sequence parent) 1) Authority_err) (\<lambda>sequence.
     bindr (credential a (sc_controller_credential_id parent)) (\<lambda>actor.
     Inr (parent\<lparr>sc_members := members, sc_sequence := sequence,
                 sc_previous_config_id := au_head a, sc_nonce := va_config_nonce adm,
                 sc_action := \<lparr>ca_operation = ''invite.approved'', ca_actor_identity = identity actor,
                                ca_request_record_id = Some (va_request_id adm)\<rparr>,
                 sc_witness_evidence := Some (va_evidence adm)\<rparr>)))))))))"

subsection \<open>Admission evidence\<close>

definition admission_approval ::
  "('z authority_ext_scheme) \<Rightarrow> Authority \<Rightarrow> WitnessAdmissionEvidence \<Rightarrow> RecordId \<Rightarrow>
   RecordError + AdmissionApproval option" where
  "admission_approval E a evidence intent_id =
     (case wae_approval evidence of
        None \<Rightarrow> Inr None
      | Some encoded \<Rightarrow>
          bindr (witness_decode E encoded) (\<lambda>srec.
          bindr (decode_with (dec_approval E) srec) (\<lambda>body.
          bindr (hex 16 (wap_nonce body)) (\<lambda>_.
          if wap_v body \<noteq> 1
             \<or> wap_kind body \<noteq> ''witness.approval''
             \<or> wap_space_id body \<noteq> space E a
             \<or> wap_stream_id body \<noteq> au_stream a
             \<or> wap_intent_id body \<noteq> intent_id
          then Inl Authority_err
          else Inr (Some \<lparr>aa_signed = srec, aa_issuer = wap_issuer_credential_id body,
                           aa_head = wap_authority_head body, aa_readmission = wap_readmission body\<rparr>)))))"

definition witness_admission_config ::
  "('z authority_ext_scheme) \<Rightarrow> Authority \<Rightarrow> WitnessAdmissionEvidence \<Rightarrow> RecordError + StreamConfig" where
  "witness_admission_config E a evidence =
     (if au_forked a \<or> wae_admitted_at_ms evidence > MAX_INTEGER then Inl Authority_err
      else
      bindr (ok_or (witness_pin a) Authority_err) (\<lambda>pin.
      bindr (witness_decode E (wae_policy evidence)) (\<lambda>policy_record.
      bindr (verify_witness_invitation E a policy_record (wae_admitted_at_ms evidence)) (\<lambda>policy.
      bindr (witness_decode E (wae_challenge evidence)) (\<lambda>challenge_record.
      bindr (pin_key E pin) (\<lambda>pk.
      bindr (verify_signature E challenge_record pk) (\<lambda>_.
      bindr (decode_with (dec_challenge E) challenge_record) (\<lambda>challenge.
      bindr (hex 32 (wc_nonce challenge)) (\<lambda>_.
      bindr (hex 32 (wc_client_nonce challenge)) (\<lambda>_.
      if wc_v challenge \<noteq> 1
         \<or> wc_kind challenge \<noteq> ''witness.challenge''
         \<or> wc_space_id challenge \<noteq> space E a
         \<or> wc_stream_id challenge \<noteq> au_stream a
         \<or> wc_policy_id challenge \<noteq> record_id E policy_record
         \<or> wc_witness_key_generation challenge \<noteq> wp_key_generation pin
         \<or> wc_issued_at_ms challenge \<ge> wc_expires_at_ms challenge
         \<or> wc_expires_at_ms challenge > MAX_INTEGER
         \<or> wc_expires_at_ms challenge - wc_issued_at_ms challenge > MAX_CHALLENGE_MS
         \<or> wae_admitted_at_ms evidence < wc_issued_at_ms challenge
         \<or> wae_admitted_at_ms evidence \<ge> wc_expires_at_ms challenge
      then Inl Authority_err
      else
      bindr (witness_decode E (wae_device_intent evidence)) (\<lambda>device_record.
      bindr (witness_decode E (wae_invitation_intent evidence)) (\<lambda>invitation_record.
      if body_bytes device_record \<noteq> body_bytes invitation_record then Inl Authority_err
      else
      bindr (decode_with (dec_intent E) device_record) (\<lambda>intent.
      bindr (hex 32 (wi_nonce intent)) (\<lambda>_.
      bindr (credential a (wi_credential_id intent)) (\<lambda>candidate.
      bindr (verify_signature E device_record (vc_key candidate)) (\<lambda>_.
      bindr (public_key E (wip_invitation_public_key policy)) (\<lambda>ik.
      bindr (verify_signature E invitation_record ik) (\<lambda>_.
      bindr (witness_decode E (wae_contact evidence)) (\<lambda>contact.
      bindr (verify_contact E contact candidate (wae_admitted_at_ms evidence div 1000)) (\<lambda>_.
      if wi_v intent \<noteq> 1
         \<or> wi_kind intent \<noteq> ''witness.admission''
         \<or> wi_space_id intent \<noteq> space E a
         \<or> wi_stream_id intent \<noteq> au_stream a
         \<or> wi_policy_id intent \<noteq> record_id E policy_record
         \<or> wi_challenge_id intent \<noteq> record_id E challenge_record
         \<or> wi_credential_id intent \<noteq> wc_credential_id challenge
         \<or> wi_contact_id intent \<noteq> record_id E contact
      then Inl Authority_err
      else
      bindr (admission_approval E a evidence (record_id E device_record)) (\<lambda>approval.
      finish_witness_admission E a
        \<lparr>va_candidate = candidate, va_policy = policy, va_policy_id = record_id E policy_record,
         va_challenge_nonce = wc_nonce challenge, va_request_id = record_id E device_record,
         va_config_nonce = take 32 (wi_nonce intent),
         va_admitted_at_ms = wae_admitted_at_ms evidence, va_approval = approval,
         va_evidence = Admission_evidence evidence\<rparr>)))))))))))))))))))))"

definition verify_witness_join_request ::
  "('z authority_ext_scheme) \<Rightarrow> Authority \<Rightarrow> WitnessJoinRequestEvidence \<Rightarrow> VerifiedCredential \<Rightarrow> nat \<Rightarrow>
   RecordError + WitnessJoinRequest" where
  "verify_witness_join_request E a evidence candidate now_ms =
     bindr (ok_or (witness_pin a) Authority_err) (\<lambda>pin.
     bindr (witness_decode E (wje_policy evidence)) (\<lambda>policy_record.
     bindr (verify_witness_invitation E a policy_record now_ms) (\<lambda>policy.
     bindr (witness_decode E (wje_device_request evidence)) (\<lambda>device.
     bindr (witness_decode E (wje_invitation_request evidence)) (\<lambda>invitation.
     if body_bytes device \<noteq> body_bytes invitation then Inl Authority_err
     else
     bindr (verify_signature E device (vc_key candidate)) (\<lambda>_.
     bindr (public_key E (wip_invitation_public_key policy)) (\<lambda>ik.
     bindr (verify_signature E invitation ik) (\<lambda>_.
     bindr (decode_with (dec_join_request E) device) (\<lambda>request.
     bindr (hex 32 (wjr_nonce request)) (\<lambda>_.
     bindr (witness_decode E (wje_contact evidence)) (\<lambda>contact_record.
     bindr (verify_contact E contact_record candidate (now_ms div 1000)) (\<lambda>contact.
     if wjr_v request \<noteq> 1
        \<or> wjr_kind request \<noteq> ''witness.join_request''
        \<or> wjr_space_id request \<noteq> space E a
        \<or> wjr_stream_id request \<noteq> au_stream a
        \<or> wjr_policy_id request \<noteq> record_id E policy_record
        \<or> wjr_credential_id request \<noteq> credential_id E candidate
        \<or> wjr_contact_id request \<noteq> record_id E contact_record
        \<or> wjr_witness_key_generation request \<noteq> wp_key_generation pin
        \<or> wjr_issued_at_ms request < wip_not_before_ms policy
        \<or> wjr_issued_at_ms request > saturating_add now_ms 5000
        \<or> wjr_expires_at_ms request \<le> wjr_issued_at_ms request
        \<or> wjr_expires_at_ms request - wjr_issued_at_ms request > MAX_REQUEST_MS
        \<or> wjr_expires_at_ms request > wip_expires_at_ms policy
        \<or> (case checked_mul (ct_expires_at contact) 1000 of
             None \<Rightarrow> True | Some limit \<Rightarrow> wjr_expires_at_ms request > limit)
        \<or> now_ms \<ge> wjr_expires_at_ms request
     then Inl Authority_err
     else Inr request))))))))))))"

definition admission_approval_v2 ::
  "('z authority_ext_scheme) \<Rightarrow> Authority \<Rightarrow> WitnessAdmissionEvidenceV2 \<Rightarrow> WitnessJoinRequest \<Rightarrow> RecordId \<Rightarrow>
   RecordError + AdmissionApproval option" where
  "admission_approval_v2 E a evidence request request_id =
     (case wa2_approval evidence of
        None \<Rightarrow> Inr None
      | Some encoded \<Rightarrow>
          bindr (witness_decode E encoded) (\<lambda>srec.
          bindr (decode_with (dec_approval_v2 E) srec) (\<lambda>body.
          bindr (hex 16 (wap2_nonce body)) (\<lambda>_.
          if wap2_v body \<noteq> 2
             \<or> wap2_kind body \<noteq> ''witness.approval''
             \<or> wap2_space_id body \<noteq> space E a
             \<or> wap2_stream_id body \<noteq> au_stream a
             \<or> wap2_request_id body \<noteq> request_id
             \<or> wap2_expires_at_ms body > wjr_expires_at_ms request
             \<or> wap2_expires_at_ms body \<le> wa2_admitted_at_ms evidence
          then Inl Authority_err
          else Inr (Some \<lparr>aa_signed = srec, aa_issuer = wap2_issuer_credential_id body,
                           aa_head = wap2_authority_head body, aa_readmission = wap2_readmission body\<rparr>)))))"

definition witness_admission_config_v2 ::
  "('z authority_ext_scheme) \<Rightarrow> Authority \<Rightarrow> WitnessAdmissionEvidenceV2 \<Rightarrow> RecordError + StreamConfig" where
  "witness_admission_config_v2 E a evidence =
     (if au_forked a \<or> wa2_admitted_at_ms evidence > MAX_INTEGER then Inl Authority_err
      else
      bindr (witness_decode E (wa2_device_intent evidence)) (\<lambda>device_record.
      bindr (witness_decode E (wa2_invitation_intent evidence)) (\<lambda>invitation_record.
      if body_bytes device_record \<noteq> body_bytes invitation_record then Inl Authority_err
      else
      bindr (decode_with (dec_intent_v2 E) device_record) (\<lambda>intent.
      bindr (hex 32 (wi_nonce intent)) (\<lambda>_.
      bindr (credential a (wi_credential_id intent)) (\<lambda>candidate.
      bindr (verify_witness_join_request E a (wa2_request evidence) candidate
               (wa2_admitted_at_ms evidence)) (\<lambda>request.
      bindr (witness_decode E (wje_device_request (wa2_request evidence))) (\<lambda>request_record.
      let request_id = record_id E request_record in
      bindr (witness_decode E (wje_policy (wa2_request evidence))) (\<lambda>policy_record.
      bindr (verify_witness_invitation E a policy_record (wa2_admitted_at_ms evidence)) (\<lambda>policy.
      bindr (verify_signature E device_record (vc_key candidate)) (\<lambda>_.
      bindr (public_key E (wip_invitation_public_key policy)) (\<lambda>ik.
      bindr (verify_signature E invitation_record ik) (\<lambda>_.
      bindr (ok_or (witness_pin a) Authority_err) (\<lambda>pin.
      bindr (witness_decode E (wa2_challenge evidence)) (\<lambda>challenge_record.
      bindr (pin_key E pin) (\<lambda>pk.
      bindr (verify_signature E challenge_record pk) (\<lambda>_.
      bindr (decode_with (dec_challenge_v2 E) challenge_record) (\<lambda>challenge.
      bindr (hex 32 (wc_nonce challenge)) (\<lambda>_.
      bindr (hex 32 (wc_client_nonce challenge)) (\<lambda>_.
      bindr (config a (wc_authority_head challenge)) (\<lambda>challenge_head.
      if wc_v challenge \<noteq> 2
         \<or> wc_kind challenge \<noteq> ''witness.challenge''
         \<or> wc_space_id challenge \<noteq> space E a
         \<or> wc_stream_id challenge \<noteq> au_stream a
         \<or> wc_policy_id challenge \<noteq> wjr_policy_id request
         \<or> wc_credential_id challenge \<noteq> wjr_credential_id request
         \<or> wc_request_id challenge \<noteq> request_id
         \<or> \<not> proves_config_at a (wc_authority_head challenge) (sc_sequence challenge_head)
         \<or> wc_witness_key_generation challenge \<noteq> wp_key_generation pin
         \<or> wc_issued_at_ms challenge < saturating_sub (wjr_issued_at_ms request) 5000
         \<or> wc_issued_at_ms challenge \<ge> wc_expires_at_ms challenge
         \<or> wc_expires_at_ms challenge > wjr_expires_at_ms request
         \<or> wc_expires_at_ms challenge - wc_issued_at_ms challenge > MAX_CHALLENGE_MS
         \<or> wa2_admitted_at_ms evidence < wc_issued_at_ms challenge
         \<or> wa2_admitted_at_ms evidence \<ge> wc_expires_at_ms challenge
         \<or> wi_v intent \<noteq> 2
         \<or> wi_kind intent \<noteq> ''witness.admission''
         \<or> wi_space_id intent \<noteq> space E a
         \<or> wi_stream_id intent \<noteq> au_stream a
         \<or> wi_policy_id intent \<noteq> wjr_policy_id request
         \<or> wi_request_id intent \<noteq> request_id
         \<or> wi_challenge_id intent \<noteq> record_id E challenge_record
         \<or> wi_credential_id intent \<noteq> wjr_credential_id request
         \<or> wi_contact_id intent \<noteq> wjr_contact_id request
      then Inl Authority_err
      else
      bindr (admission_approval_v2 E a evidence request request_id) (\<lambda>approval.
      finish_witness_admission E a
        \<lparr>va_candidate = candidate, va_policy = policy, va_policy_id = record_id E policy_record,
         va_challenge_nonce = wc_nonce challenge, va_request_id = request_id,
         va_config_nonce = take 32 (wi_nonce intent),
         va_admitted_at_ms = wa2_admitted_at_ms evidence, va_approval = approval,
         va_evidence = AdmissionV2_evidence evidence\<rparr>))))))))))))))))))))))"

subsection \<open>Transitions under a witness\<close>

definition validate_witness_transition ::
  "('z authority_ext_scheme) \<Rightarrow> Authority \<Rightarrow> StreamConfig \<Rightarrow> RecordError + unit" where
  "validate_witness_transition E a c =
     bindr (ok_or (sc_previous_config_id c) Authority_err) (\<lambda>previous.
     let prior = a\<lparr>au_head := Some previous\<rparr> in
     bindr (head prior) (\<lambda>parent.
     if sc_recovery c \<noteq> None \<or> ca_operation (sc_action c) = ''controller.recovered'' then Inl Authority_err
     else
     bindr (ok_or (sc_witness_evidence c) Authority_err) (\<lambda>evidence.
     case evidence of
       OwnerProposal proposal \<Rightarrow>
         bindr (witness_decode E proposal) (\<lambda>srec.
         bindr (decode_with (dec_config E) srec) (\<lambda>proposed.
         if sc_witness_evidence proposed \<noteq> None
            \<or> \<not> same_config E (c\<lparr>sc_witness_evidence := None\<rparr>) proposed
            \<or> sc_controller_credential_id c \<notin> set (sc_owner_credential_ids parent)
         then Inl Authority_err
         else
         bindr (credential a (sc_controller_credential_id c)) (\<lambda>signer.
         verify_signature E srec (vc_key signer))))
     | AdmissionV2_evidence ev \<Rightarrow>
         if sc_controller_credential_id c \<noteq> sc_controller_credential_id parent then Inl Authority_err
         else
         bindr (witness_admission_config_v2 E prior ev) (\<lambda>expected.
         if \<not> same_config E c expected then Inl Authority_err else Inr ())
     | Admission_evidence ev \<Rightarrow>
         if sc_controller_credential_id c \<noteq> sc_controller_credential_id parent then Inl Authority_err
         else
         bindr (witness_admission_config E prior ev) (\<lambda>expected.
         if \<not> same_config E c expected then Inl Authority_err else Inr ()))))"

subsection \<open>What an admission changes\<close>

lemma find_member_Some:
  "find_member ident ms = Some m \<Longrightarrow> m \<in> set ms \<and> me_identity_id m = ident"
  by (auto simp: find_member_def dest: find_eq_Some)

lemma find_member_None: "find_member ident ms = None \<longleftrightarrow> (\<forall>m \<in> set ms. me_identity_id m \<noteq> ident)"
  by (simp add: find_member_def find_eq_None)

lemma add_device_devices:
  "find_member ident ms \<noteq> None \<Longrightarrow>
   mset (concat (map me_credential_ids (add_device ident cred ms)))
     = add_mset cred (mset (concat (map me_credential_ids ms)))"
  by (induction ms) (auto simp: find_member_def)

lemma add_device_members:
  "m \<in> set (add_device ident cred ms) \<Longrightarrow> m \<in> set ms
     \<or> (\<exists>old. find_member ident ms = Some old
          \<and> m = old\<lparr>me_credential_ids := sort (me_credential_ids old @ [cred])\<rparr>)"
  by (induction ms) (auto simp: find_member_def split: if_splits)

lemma add_device_keeps:
  "m \<in> set ms \<Longrightarrow> me_identity_id m \<noteq> ident \<Longrightarrow> m \<in> set (add_device ident cred ms)"
  by (induction ms) auto

lemma set_sort_key_snoc: "set (sort_key f (xs @ [x])) = insert x (set xs)"
  by auto

lemma mset_devices_sort:
  "mset (concat (map g (sort_key f (xs @ [x])))) = mset (g x) + mset (concat (map g xs))"
  by (simp add: mset_concat image_mset.compositionality comp_def flip: sum_mset_sum_list)

text \<open>
  The expected difference: one new device, under a member that can read and post and nothing
  more; every other member, the owner devices and the controller are those of the parent.
\<close>

definition adds_one_device :: "('z crypto_scheme) \<Rightarrow> VerifiedCredential \<Rightarrow> StreamConfig \<Rightarrow> StreamConfig \<Rightarrow> bool" where
  "adds_one_device E candidate parent c \<longleftrightarrow>
     mset (devices c) = add_mset (credential_id E candidate) (mset (devices parent))
     \<and> (\<forall>m \<in> set (sc_members c). m \<in> set (sc_members parent)
          \<or> (me_identity_id m = identity candidate \<and> me_identity_type m = ''HUMAN''
             \<and> me_capabilities m = [Read, Post] \<and> credential_id E candidate \<in> set (me_credential_ids m)))
     \<and> (\<forall>m \<in> set (sc_members parent). me_identity_id m \<noteq> identity candidate \<longrightarrow> m \<in> set (sc_members c))
     \<and> sc_owner_credential_ids c = sc_owner_credential_ids parent
     \<and> sc_controller_credential_id c = sc_controller_credential_id parent
     \<and> sc_chat_kind c = sc_chat_kind parent
     \<and> sc_sequence c = sc_sequence parent + 1"

lemma admitted_members_new:
  assumes "admitted_members E candidate ms = Inr ms'" "find_member (identity candidate) ms = None"
  shows "\<exists>root. ms' = sort_key me_identity_id (ms @
        [\<lparr>me_identity_id = identity candidate, me_identity_type = ''HUMAN'',
          me_root_public_key = root, me_capabilities = [Read, Post],
          me_credential_ids = [credential_id E candidate], me_external = True\<rparr>])"
  using assms by (auto simp: admitted_members_def bindr_eq_Inr)

lemma admitted_members_spec:
  assumes "admitted_members E candidate ms = Inr ms'"
    and "\<And>m. find_member (identity candidate) ms = Some m \<Longrightarrow>
      me_identity_type m = ''HUMAN'' \<and> me_capabilities m = [Read, Post]"
  shows "mset (concat (map me_credential_ids ms'))
       = add_mset (credential_id E candidate) (mset (concat (map me_credential_ids ms)))
    \<and> (\<forall>m \<in> set ms'. m \<in> set ms
          \<or> (me_identity_id m = identity candidate \<and> me_identity_type m = ''HUMAN''
             \<and> me_capabilities m = [Read, Post] \<and> credential_id E candidate \<in> set (me_credential_ids m)))
    \<and> (\<forall>m \<in> set ms. me_identity_id m \<noteq> identity candidate \<longrightarrow> m \<in> set ms')"
proof (cases "find_member (identity candidate) ms")
  case None
  from admitted_members_new [OF assms(1) None] obtain root where
    ms': "ms' = sort_key me_identity_id (ms @
        [\<lparr>me_identity_id = identity candidate, me_identity_type = ''HUMAN'',
          me_root_public_key = root, me_capabilities = [Read, Post],
          me_credential_ids = [credential_id E candidate], me_external = True\<rparr>])" by blast
  show ?thesis unfolding ms' mset_devices_sort set_sort_key_snoc by simp
next
  case (Some old)
  then have ms': "ms' = add_device (identity candidate) (credential_id E candidate) ms"
    using assms(1) by (simp add: admitted_members_def)
  have old: "me_identity_type old = ''HUMAN''" "me_capabilities old = [Read, Post]"
    "me_identity_id old = identity candidate"
    using assms(2) [OF Some] find_member_Some [OF Some] by auto
  show ?thesis
    unfolding ms'
    by (auto simp: add_device_devices Some old intro: add_device_keeps dest!: add_device_members)
qed

lemma finish_witness_admission_steps:
  assumes "finish_witness_admission E a adm = Inr c"
  obtains parent anc uses members actor where
    "head a = Inr parent"
    "\<And>m. find_member (identity (va_candidate adm)) (sc_members parent) = Some m \<Longrightarrow>
       me_identity_type m = ''HUMAN'' \<and> me_capabilities m = [Read, Post]
       \<and> credential_id E (va_candidate adm) \<notin> set (me_credential_ids m)"
    "witness_ancestry a = Inr anc"
    "foldr_result (ancestor_step E a adm) 0 anc = Inr uses"
    "uses < wip_max_uses (va_policy adm)"
    "check_approval E a adm (last_removal (identity (va_candidate adm)) anc) = Inr ()"
    "admitted_members E (va_candidate adm) (sc_members parent) = Inr members"
    "sc_sequence parent + 1 \<le> U64_MAX"
    "credential a (sc_controller_credential_id parent) = Inr actor"
    "c = parent\<lparr>sc_members := members, sc_sequence := sc_sequence parent + 1,
                 sc_previous_config_id := au_head a, sc_nonce := va_config_nonce adm,
                 sc_action := \<lparr>ca_operation = ''invite.approved'', ca_actor_identity = identity actor,
                                ca_request_record_id = Some (va_request_id adm)\<rparr>,
                 sc_witness_evidence := Some (va_evidence adm)\<rparr>"
proof -
  show thesis
    using assms
    unfolding finish_witness_admission_def Let_def bindr_eq_Inr guard_eq_Inr ok_or_eq_Inr checked_add_eq_Some
    by (elim exE conjE, intro that) (assumption | simp add: not_le)+
qed

text \<open>How many earlier admissions of the chain used the same invitation.\<close>

definition policy_uses :: "('z authority_ext_scheme) \<Rightarrow> RecordId \<Rightarrow> (RecordId \<times> StreamConfig) list \<Rightarrow> nat" where
  "policy_uses E policy_id anc =
     length (filter (\<lambda>e. case prior_admission E (snd e) of
        Inr (Some (_, p, _, _)) \<Rightarrow> p = policy_id | _ \<Rightarrow> False) anc)"

lemma ancestor_step_Inr:
  assumes "ancestor_step E a adm uses e = Inr uses'"
  shows "uses' = uses + policy_uses E (va_policy_id adm) [e]"
    "\<forall>i \<in> set (devices (snd e)). device_conflicts E a (va_candidate adm) i = Inr ()"
    "\<And>t p n r. prior_admission E (snd e) = Inr (Some (t, p, n, r)) \<Longrightarrow>
       t \<le> va_admitted_at_ms adm \<and> n \<noteq> va_challenge_nonce adm \<and> r \<noteq> va_request_id adm"
proof -
  from assms obtain prior where d: "\<forall>i \<in> set (devices (snd e)). device_conflicts E a (va_candidate adm) i = Inr ()"
    and p: "prior_admission E (snd e) = Inr prior"
    and r: "(case prior of None \<Rightarrow> Inr uses
     | Some (t, p, n, r) \<Rightarrow>
         if t > va_admitted_at_ms adm \<or> n = va_challenge_nonce adm \<or> r = va_request_id adm
         then Inl Authority_err
         else Inr (if p = va_policy_id adm then uses + 1 else uses)) = Inr uses'"
    unfolding ancestor_step_def bindr_eq_Inr check_all_iff by blast
  show "\<forall>i \<in> set (devices (snd e)). device_conflicts E a (va_candidate adm) i = Inr ()" by (rule d)
  show "uses' = uses + policy_uses E (va_policy_id adm) [e]"
    using p r by (cases prior) (auto simp: policy_uses_def guard_eq_Inr split: if_splits)
  fix t p n r
  assume "prior_admission E (snd e) = Inr (Some (t, p, n, r))"
  with p r show "t \<le> va_admitted_at_ms adm \<and> n \<noteq> va_challenge_nonce adm \<and> r \<noteq> va_request_id adm"
    by (auto split: if_splits)
qed

lemma ancestor_fold:
  assumes "foldr_result (ancestor_step E a adm) uses anc = Inr uses'"
  shows "uses' = uses + policy_uses E (va_policy_id adm) anc"
    "\<And>e. e \<in> set anc \<Longrightarrow> \<exists>u u'. ancestor_step E a adm u e = Inr u'"
  using assms
proof (induction anc arbitrary: uses)
  case Nil
  {
    case 1
    then show ?case by (simp add: policy_uses_def)
  next
    case 2
    then show ?case by simp
  }
next
  case (Cons e anc)
  {
    case 1
    then obtain u where u: "ancestor_step E a adm uses e = Inr u"
      "foldr_result (ancestor_step E a adm) u anc = Inr uses'" by (auto simp: bindr_eq_Inr)
    then show ?case
      using Cons.IH(1) [OF u(2)] ancestor_step_Inr(1) [OF u(1)] by (simp add: policy_uses_def)
  next
    case (2 d)
    then obtain u where u: "ancestor_step E a adm uses e = Inr u"
      "foldr_result (ancestor_step E a adm) u anc = Inr uses'" by (auto simp: bindr_eq_Inr)
    with 2 show ?case using Cons.IH(2) [OF _ u(2), of d] by (cases "d = e") auto
  }
qed

lemma admission_adds_one_device:
  assumes "finish_witness_admission E a adm = Inr c"
  shows "\<exists>parent anc. head a = Inr parent \<and> witness_ancestry a = Inr anc
    \<and> adds_one_device E (va_candidate adm) parent c
    \<and> sc_previous_config_id c = au_head a
    \<and> policy_uses E (va_policy_id adm) anc < wip_max_uses (va_policy adm)
    \<and> (\<forall>e \<in> set anc. \<forall>i \<in> set (devices (snd e)). device_conflicts E a (va_candidate adm) i = Inr ())
    \<and> (\<forall>e \<in> set anc. \<forall>t p n r. prior_admission E (snd e) = Inr (Some (t, p, n, r)) \<longrightarrow>
         t \<le> va_admitted_at_ms adm \<and> n \<noteq> va_challenge_nonce adm \<and> r \<noteq> va_request_id adm)
    \<and> check_approval E a adm (last_removal (identity (va_candidate adm)) anc) = Inr ()"
  using assms
proof (rule finish_witness_admission_steps)
  fix parent anc uses members actor
  assume p: "head a = Inr parent"
    and m: "\<And>m. find_member (identity (va_candidate adm)) (sc_members parent) = Some m \<Longrightarrow>
       me_identity_type m = ''HUMAN'' \<and> me_capabilities m = [Read, Post]
       \<and> credential_id E (va_candidate adm) \<notin> set (me_credential_ids m)"
    and anc: "witness_ancestry a = Inr anc"
    and f: "foldr_result (ancestor_step E a adm) 0 anc = Inr uses"
    and u: "uses < wip_max_uses (va_policy adm)"
    and ap: "check_approval E a adm (last_removal (identity (va_candidate adm)) anc) = Inr ()"
    and ms: "admitted_members E (va_candidate adm) (sc_members parent) = Inr members"
    and c: "c = parent\<lparr>sc_members := members, sc_sequence := sc_sequence parent + 1,
                 sc_previous_config_id := au_head a, sc_nonce := va_config_nonce adm,
                 sc_action := \<lparr>ca_operation = ''invite.approved'', ca_actor_identity = identity actor,
                                ca_request_record_id = Some (va_request_id adm)\<rparr>,
                 sc_witness_evidence := Some (va_evidence adm)\<rparr>"
  have "adds_one_device E (va_candidate adm) parent c"
    using admitted_members_spec [OF ms] m by (simp add: adds_one_device_def c)
  moreover have "policy_uses E (va_policy_id adm) anc < wip_max_uses (va_policy adm)"
    using ancestor_fold(1) [OF f] u by simp
  moreover have "\<forall>e \<in> set anc. \<forall>i \<in> set (devices (snd e)). device_conflicts E a (va_candidate adm) i = Inr ()"
    "\<forall>e \<in> set anc. \<forall>t p n r. prior_admission E (snd e) = Inr (Some (t, p, n, r)) \<longrightarrow>
         t \<le> va_admitted_at_ms adm \<and> n \<noteq> va_challenge_nonce adm \<and> r \<noteq> va_request_id adm"
    using ancestor_fold(2) [OF f] ancestor_step_Inr(2,3) by metis+
  moreover have "sc_previous_config_id c = au_head a" by (simp add: c)
  ultimately show ?thesis using p anc ap by (intro exI conjI) assumption+
qed

subsection \<open>Invitations and admissions\<close>

lemma owner_until_Inr:
  "owner_until cred h anc = Inr u \<longleftrightarrow>
   (\<exists>pre c post. anc = pre @ (h, c) # post \<and> h \<notin> fst ` set pre
      \<and> (\<forall>e \<in> set (pre @ [(h, c)]). cred \<in> set (sc_owner_credential_ids (snd e))))"
proof (induction anc)
  case (Cons e anc)
  obtain i d where e: "e = (i, d)" by (cases e)
  show ?case
  proof (cases "i = h \<or> cred \<notin> set (sc_owner_credential_ids d)")
    case True
    then show ?thesis
      by (auto simp: e Cons_eq_append_conv intro!: exI [of _ "[]"])
  next
    case False
    then have "owner_until cred h (e # anc) = owner_until cred h anc" by (simp add: e)
    moreover have "(\<exists>pre c post. e # anc = pre @ (h, c) # post \<and> h \<notin> fst ` set pre
        \<and> (\<forall>e \<in> set (pre @ [(h, c)]). cred \<in> set (sc_owner_credential_ids (snd e)))) \<longleftrightarrow>
      (\<exists>pre c post. anc = pre @ (h, c) # post \<and> h \<notin> fst ` set pre
        \<and> (\<forall>e \<in> set (pre @ [(h, c)]). cred \<in> set (sc_owner_credential_ids (snd e))))" (is "?l \<longleftrightarrow> ?r")
    proof
      assume ?l
      then obtain pre c post where *: "e # anc = pre @ (h, c) # post" "h \<notin> fst ` set pre"
        "\<forall>e \<in> set (pre @ [(h, c)]). cred \<in> set (sc_owner_credential_ids (snd e))" by blast
      with False obtain pre' where "pre = e # pre'" by (cases pre) (auto simp: e)
      with * show ?r by (intro exI [of _ pre'] exI [of _ c] exI [of _ post]) simp
    next
      assume ?r
      then obtain pre c post where "anc = pre @ (h, c) # post" "h \<notin> fst ` set pre"
        "\<forall>e \<in> set (pre @ [(h, c)]). cred \<in> set (sc_owner_credential_ids (snd e))" by blast
      with False show ?l by (intro exI [of _ "e # pre"]) (auto simp: e)
    qed
    ultimately show ?thesis using Cons.IH by simp
  qed
qed simp

lemma witness_owner_at_Inr:
  assumes "witness_owner_at a cred h = Inr u"
  shows "\<not> au_forked a \<and> can_manage a cred
    \<and> (\<exists>pre c post. witness_ancestry a = Inr (pre @ (h, c) # post)
         \<and> (\<forall>e \<in> set (pre @ [(h, c)]). cred \<in> set (sc_owner_credential_ids (snd e))))"
  using assms by (auto simp: witness_owner_at_def bindr_eq_Inr guard_eq_Inr owner_until_Inr)

lemma verify_witness_invitation_Inr:
  assumes "verify_witness_invitation E a srec now = Inr policy"
  shows "dec_policy E (rec_body srec) = Some policy"
    "wip_not_before_ms policy \<le> now" "now < wip_expires_at_ms policy" "1 \<le> wip_max_uses policy"
    "witness_owner_at a (wip_issuer_credential_id policy) (wip_authority_head policy) = Inr ()"
    "\<exists>issuer. credential a (wip_issuer_credential_id policy) = Inr issuer
       \<and> verify_signature E srec (vc_key issuer) = Inr ()"
    "wip_space_id policy = space E a" "wip_stream_id policy = au_stream a"
proof -
  from assms show "dec_policy E (rec_body srec) = Some policy"
    "wip_not_before_ms policy \<le> now" "now < wip_expires_at_ms policy" "1 \<le> wip_max_uses policy"
    "witness_owner_at a (wip_issuer_credential_id policy) (wip_authority_head policy) = Inr ()"
    "\<exists>issuer. credential a (wip_issuer_credential_id policy) = Inr issuer
       \<and> verify_signature E srec (vc_key issuer) = Inr ()"
    "wip_space_id policy = space E a" "wip_stream_id policy = au_stream a"
    unfolding verify_witness_invitation_def bindr_eq_Inr guard_eq_Inr decode_with_iff
    by (auto simp del: verify_signature_iff)
qed

text \<open>
  An accepted invitation policy is signed by a device that manages the space now and that
  has been an owner device in every configuration since the one the policy was written
  against, so granting a removed owner device again does not revive its old invitations; and
  the current time lies in the policy's window.
\<close>

lemma invitation_issuer_continuous:
  assumes "verify_witness_invitation E a srec now = Inr policy"
  shows "(\<exists>issuer. credential a (wip_issuer_credential_id policy) = Inr issuer
       \<and> verify_signature E srec (vc_key issuer) = Inr ())
    \<and> can_manage a (wip_issuer_credential_id policy)
    \<and> (\<exists>pre c post. witness_ancestry a = Inr (pre @ (wip_authority_head policy, c) # post)
         \<and> (\<forall>e \<in> set (pre @ [(wip_authority_head policy, c)]).
              wip_issuer_credential_id policy \<in> set (sc_owner_credential_ids (snd e))))
    \<and> wip_not_before_ms policy \<le> now \<and> now < wip_expires_at_ms policy"
  using verify_witness_invitation_Inr(2,3,6) [OF assms]
    witness_owner_at_Inr [OF verify_witness_invitation_Inr(5) [OF assms]]
  by (intro conjI) (assumption | blast)+

lemma device_conflicts_Inr:
  "device_conflicts E a candidate i = Inr () \<longleftrightarrow>
     (\<exists>old. credential a i = Inr old \<and> i \<noteq> credential_id E candidate
        \<and> vc_key old \<noteq> vc_key candidate \<and> recipient old \<noteq> recipient candidate)"
  by (auto simp: device_conflicts_def bindr_eq_Inr guard_eq_Inr)

text \<open>
  What the evidence of an admission says by itself: the invitation it carries, the joining
  device's intent, and the same intent under the invitation's key; the intent names the
  invitation and the device.
\<close>

fun evidence_texts :: "WitnessConfigEvidence \<Rightarrow> (string \<times> string \<times> string) option" where
  "evidence_texts (OwnerProposal _) = None"
| "evidence_texts (Admission_evidence ev) = Some (wae_policy ev, wae_device_intent ev, wae_invitation_intent ev)"
| "evidence_texts (AdmissionV2_evidence ev) =
     Some (wje_policy (wa2_request ev), wa2_device_intent ev, wa2_invitation_intent ev)"

fun evidence_names ::
  "('z authority_ext_scheme) \<Rightarrow> WitnessConfigEvidence \<Rightarrow> SignedRecord \<Rightarrow> (RecordId \<times> RecordId) option" where
  "evidence_names E (OwnerProposal _) device = None"
| "evidence_names E (Admission_evidence _) device =
     map_option (\<lambda>i. (wi_policy_id i, wi_credential_id i)) (dec_intent E (rec_body device))"
| "evidence_names E (AdmissionV2_evidence _) device =
     map_option (\<lambda>i. (wi_policy_id i, wi_credential_id i)) (dec_intent_v2 E (rec_body device))"

text \<open>
  The evidence admits a device: an owner device of the current configuration signed the
  invitation, and both the device it names and the invitation's key signed the same intent.
\<close>

definition admitted_by ::
  "('z authority_ext_scheme) \<Rightarrow> Authority \<Rightarrow> WitnessConfigEvidence \<Rightarrow> SignedRecord \<Rightarrow> WitnessInvitationPolicy \<Rightarrow>
   VerifiedCredential \<Rightarrow> bool" where
  "admitted_by E a ev policy_record policy candidate \<longleftrightarrow>
     (\<exists>pt dt it device invitation issuer ik cred.
        evidence_texts ev = Some (pt, dt, it)
        \<and> witness_decode E pt = Inr policy_record \<and> dec_policy E (rec_body policy_record) = Some policy
        \<and> can_manage a (wip_issuer_credential_id policy)
        \<and> credential a (wip_issuer_credential_id policy) = Inr issuer
        \<and> verify_signature E policy_record (vc_key issuer) = Inr ()
        \<and> witness_decode E dt = Inr device \<and> witness_decode E it = Inr invitation
        \<and> body_bytes device = body_bytes invitation
        \<and> evidence_names E ev device = Some (record_id E policy_record, cred)
        \<and> credential a cred = Inr candidate \<and> verify_signature E device (vc_key candidate) = Inr ()
        \<and> public_key E (wip_invitation_public_key policy) = Inr ik \<and> verify_signature E invitation ik = Inr ())"

lemma admitted_byI:
  assumes "evidence_texts ev = Some (pt, dt, it)" "witness_decode E pt = Inr policy_record"
    and "verify_witness_invitation E a policy_record now = Inr policy"
    and "witness_decode E dt = Inr device" "witness_decode E it = Inr invitation"
    and "body_bytes device = body_bytes invitation"
    and "evidence_names E ev device = Some (record_id E policy_record, cred)"
    and "credential a cred = Inr candidate" "verify_signature E device (vc_key candidate) = Inr ()"
    and "public_key E (wip_invitation_public_key policy) = Inr ik" "verify_signature E invitation ik = Inr ()"
  shows "admitted_by E a ev policy_record policy candidate"
proof -
  note inv = verify_witness_invitation_Inr [OF assms(3)]
  from inv(6) obtain issuer where "credential a (wip_issuer_credential_id policy) = Inr issuer"
    "verify_signature E policy_record (vc_key issuer) = Inr ()" by blast
  with inv(1) witness_owner_at_Inr [OF inv(5)] assms show ?thesis unfolding admitted_by_def by blast
qed

text \<open>The admission the two forms of evidence stand for.\<close>

definition admission_of ::
  "('z authority_ext_scheme) \<Rightarrow> Authority \<Rightarrow> WitnessConfigEvidence \<Rightarrow> ValidatedAdmission \<Rightarrow> bool" where
  "admission_of E a ev adm \<longleftrightarrow>
     (\<exists>policy_record. va_policy_id adm = record_id E policy_record
        \<and> admitted_by E a ev policy_record (va_policy adm) (va_candidate adm))"

lemma witness_admission_config_basis:
  assumes "witness_admission_config E a ev = Inr c"
  shows "\<exists>adm. admission_of E a (Admission_evidence ev) adm \<and> finish_witness_admission E a adm = Inr c"
  using assms
  unfolding witness_admission_config_def bindr_eq_Inr guard_eq_Inr de_Morgan_disj not_not decode_with_iff
  by (elim exE conjE, intro exI conjI)
    (auto simp: admission_of_def simp del: verify_signature_iff intro!: exI admitted_byI)

lemma join_request_policy:
  assumes "verify_witness_join_request E a ev candidate now = Inr request" "witness_decode E (wje_policy ev) = Inr policy_record"
  shows "wjr_policy_id request = record_id E policy_record"
  using assms unfolding verify_witness_join_request_def bindr_eq_Inr guard_eq_Inr de_Morgan_disj not_not by auto

lemma witness_admission_config_v2_basis:
  assumes "witness_admission_config_v2 E a ev = Inr c"
  shows "\<exists>adm. admission_of E a (AdmissionV2_evidence ev) adm \<and> finish_witness_admission E a adm = Inr c"
  using assms
  unfolding witness_admission_config_v2_def bindr_eq_Inr guard_eq_Inr Let_def de_Morgan_disj not_not decode_with_iff
  by (elim exE conjE, intro exI conjI)
    (auto simp: admission_of_def join_request_policy simp del: verify_signature_iff intro!: exI admitted_byI)

end
