(* ===== verification/Machines.thy ===== *)
theory Machines
  imports Prelude
begin

text \<open>
  Components as machines. A handler takes the state and an input and returns the state it
  leaves behind with an outcome. The locale \<open>invariant_machine\<close> is the contract of a handler
  that keeps an invariant; \<open>growing_machine\<close> adds a preorder the state only moves up in.
  Their lemmas lift one step to every finite run, whatever the inputs and their order.
\<close>

fun run_steps :: "('s \<Rightarrow> 'i \<Rightarrow> 's \<times> 'o) \<Rightarrow> 's \<Rightarrow> 'i list \<Rightarrow> 's" where
  "run_steps step s [] = s"
| "run_steps step s (i # is) = run_steps step (fst (step s i)) is"

lemma run_steps_append: "run_steps step s (xs @ ys) = run_steps step (run_steps step s xs) ys"
  by (induction xs arbitrary: s) simp_all

locale invariant_machine =
  fixes step :: "'s \<Rightarrow> 'i \<Rightarrow> 's \<times> 'o"
    and inv :: "'s \<Rightarrow> bool"
  assumes step_inv: "inv s \<Longrightarrow> inv (fst (step s i))"
begin

lemma run_inv: "inv s \<Longrightarrow> inv (run_steps step s is)"
  by (induction "is" arbitrary: s) (simp_all add: step_inv)

end

locale growing_machine = invariant_machine step inv
  for step :: "'s \<Rightarrow> 'i \<Rightarrow> 's \<times> 'o" and inv :: "'s \<Rightarrow> bool" +
  fixes le :: "'s \<Rightarrow> 's \<Rightarrow> bool"
  assumes le_refl: "le s s"
    and le_trans: "le s t \<Longrightarrow> le t u \<Longrightarrow> le s u"
    and step_le: "inv s \<Longrightarrow> le s (fst (step s i))"
begin

lemma run_le: "inv s \<Longrightarrow> le s (run_steps step s is)"
proof (induction "is" arbitrary: s)
  case (Cons i "is")
  from Cons.prems have "le s (fst (step s i))" by (rule step_le)
  also have "le (fst (step s i)) (run_steps step s (i # is))"
    using Cons.IH [OF step_inv [OF Cons.prems]] by simp
  finally (le_trans) show ?case .
qed (simp add: le_refl)

lemma run_le_prefix: "inv s \<Longrightarrow> le (run_steps step s xs) (run_steps step s (xs @ ys))"
  by (simp add: run_steps_append run_le run_inv)

end

subsection \<open>Services as step relations\<close>

text \<open>
  A service whose steps any client, timer or restart may take in any order. What every step
  keeps, every run keeps, and what every step from a good state does not lose, no run loses.
\<close>

locale step_system =
  fixes step :: "'s \<Rightarrow> 's \<Rightarrow> bool"
    and good :: "'s \<Rightarrow> bool"
  assumes step_good: "step s s' \<Longrightarrow> good s \<Longrightarrow> good s'"
begin

lemma run_good: "step\<^sup>*\<^sup>* s s' \<Longrightarrow> good s \<Longrightarrow> good s'"
  by (induction rule: rtranclp_induct) (auto intro: step_good)

lemma run_keeps:
  assumes "step\<^sup>*\<^sup>* s s'" "good s" "P s"
    and "\<And>t t'. step t t' \<Longrightarrow> good t \<Longrightarrow> P t \<Longrightarrow> P t'"
  shows "P s'"
  using assms(1-3) by (induction rule: rtranclp_induct) (auto intro: assms(4) run_good)

end

locale clocked_system = step_system step good
  for step :: "'s \<Rightarrow> 's \<Rightarrow> bool" and good :: "'s \<Rightarrow> bool" +
  fixes clock :: "'s \<Rightarrow> nat"
  assumes step_clock: "step s s' \<Longrightarrow> clock s \<le> clock s'"
begin

lemma run_clock: "step\<^sup>*\<^sup>* s s' \<Longrightarrow> clock s \<le> clock s'"
  by (induction rule: rtranclp_induct) (auto dest: step_clock)

text \<open>What steps keep up to a deadline, a run that ends before it has kept.\<close>

lemma run_keeps_until:
  assumes "step\<^sup>*\<^sup>* s s'" "clock s' < deadline" "good s" "P s"
    and "\<And>t t'. step t t' \<Longrightarrow> good t \<Longrightarrow> P t \<Longrightarrow> clock t' < deadline \<Longrightarrow> P t'"
  shows "P s'"
  using assms(1,2)
proof (induction rule: rtranclp_induct)
  case base
  show ?case by (rule assms(4))
next
  case (step t t')
  from step_clock [OF step.hyps(2)] step.prems have "clock t < deadline" by simp
  with step assms(3) show ?case by (intro assms(5) [OF step.hyps(2) run_good [OF step.hyps(1)]]) auto
qed

end

end
