(* ===== verification/Authority_Transition.thy ===== *)
theory Authority_Transition
  imports Authority_Witness Machines "HOL-Library.Product_Lexorder"
begin

text \<open>
  \<^verbatim>\<open>crates/elo-core/src/authority/recovery.rs\<close> and \<^verbatim>\<open>Authority::apply_config\<close>: which
  configuration may follow which, how the head is selected, and how a fork is detected.
  \<open>apply_config\<close> returns the authority it leaves behind together with its outcome, on the
  error branches too, because the source inserts the record before it selects the head.
\<close>

subsection \<open>Controller generations\<close>

fun recovery_collect ::
  "('z authority_ext_scheme) \<Rightarrow> StreamConfig list \<Rightarrow> (nat \<times> RecordId, SignedRecord) btree_map \<Rightarrow>
   RecordError + (nat \<times> RecordId, SignedRecord) btree_map" where
  "recovery_collect E [] records = Inr records"
| "recovery_collect E (c # cs) records =
     bindr (embedded E c) (\<lambda>opt.
     case opt of
       None \<Rightarrow> recovery_collect E cs records
     | Some r \<Rightarrow>
         bindr (decode_with (dec_recovery E) r) (\<lambda>b.
         recovery_collect E cs (bt_insert (cr_sequence b, record_id E r) r records)))"

definition recovery_records :: "('z authority_ext_scheme) \<Rightarrow> Authority \<Rightarrow> RecordError + SignedRecord list" where
  "recovery_records E a =
     (case au_checkpoint_evidence a of
        Some evidence \<Rightarrow> Inr (ce_recovery evidence)
      | None \<Rightarrow>
          bindr (recovery_collect E (map snd (bt_values (au_configs a))) []) (\<lambda>records.
          Inr (bt_values records)))"

text \<open>The root key of the initial controller, as the two users of it read it.\<close>

definition controller_root :: "('z authority_ext_scheme) \<Rightarrow> VerifiedCredential \<Rightarrow> RecordError + bytes" where
  "controller_root E initial =
     bindr (ok_or (as_str (root_public_key_json initial)) Authority_err) (\<lambda>s.
     bindr (hex 32 s) (\<lambda>kb. verifying_key E kb Authority_err))"

type_synonym export_state = "RecordId option \<times> RecordId \<times> RecordId list"

fun verify_export ::
  "('z authority_ext_scheme) \<Rightarrow> Authority \<Rightarrow> bytes \<Rightarrow> nat \<Rightarrow> export_state \<Rightarrow> SignedRecord list \<Rightarrow>
   RecordError + RecordId" where
  "verify_export E a root i (previous, controller', seen) [] = Inr controller'"
| "verify_export E a root i (previous, controller', seen) (r # rs) =
     bindr (verify_signature E r root) (\<lambda>_.
     bindr (decode_with (dec_recovery E) r) (\<lambda>b.
     bindr (hex 16 (cr_nonce b)) (\<lambda>_.
     if cr_v b \<noteq> 1
        \<or> cr_kind b \<noteq> ''space.controller.recovered''
        \<or> cr_space_id b \<noteq> space E a
        \<or> cr_sequence b \<noteq> i + 1
        \<or> cr_previous_recovery_id b \<noteq> previous
        \<or> cr_previous_controller_credential_id b \<noteq> controller'
        \<or> cr_controller_credential_id b \<in> set seen
     then Inl Authority_err
     else verify_export E a root (i + 1)
            (Some (record_id E r), cr_controller_credential_id b, bs_insert (cr_controller_credential_id b) seen) rs)))"

definition verify_controller_export ::
  "('z authority_ext_scheme) \<Rightarrow> Authority \<Rightarrow> SignedRecord list \<Rightarrow> VerifiedCredential \<Rightarrow> RecordError + unit" where
  "verify_controller_export E a chain current =
     (if is_owner_managed a then Inl Authority_err
      else
      bindr (initial_controller a) (\<lambda>initial.
      bindr (controller_root E initial) (\<lambda>root.
      if length chain > 64
         \<or> identity current \<noteq> identity initial
         \<or> root_public_key_json current \<noteq> root_public_key_json initial
      then Inl Authority_err
      else
      bindr (verify_export E a root 0
               (None, credential_id E initial, [credential_id E initial]) chain) (\<lambda>final.
      if final \<noteq> credential_id E current then Inl Authority_err else Inr ()))))"

definition owner_devices :: "Authority \<Rightarrow> Member list \<Rightarrow> RecordId list" where
  "owner_devices a ms =
     bs_of_list (concat (map me_credential_ids
       (filter (\<lambda>m. list_ex (\<lambda>owner. ow_identity_id owner = me_identity_id m) (ge_owners (au_body a))) ms)))"

definition sign_recovery ::
  "('z authority_ext_scheme) \<Rightarrow> Authority \<Rightarrow> bytes option \<Rightarrow> VerifiedCredential \<Rightarrow> bytes \<Rightarrow> RecordError + SignedRecord" where
  "sign_recovery E a rnd fresh root =
     bindr (initial_controller a) (\<lambda>initial.
     if is_owner_managed a
        \<or> au_checkpoint_evidence a \<noteq> None
        \<or> au_forked a
        \<or> identity initial \<noteq> of_root_key E (ed_public E root)
        \<or> identity fresh \<noteq> identity initial
     then Inl Authority_err
     else
     bindr (chain_at E a (au_head a)) (\<lambda>chain.
     bindr (random_hex rnd) (\<lambda>nonce.
     bindr (controller a) (\<lambda>current.
     sign E (ser_recovery E
       \<lparr>cr_v = 1, cr_kind = ''space.controller.recovered'', cr_nonce = nonce, cr_space_id = space E a,
        cr_sequence = length chain + 1,
        cr_previous_recovery_id = (if chain = [] then None else Some (record_id E (last chain))),
        cr_previous_controller_credential_id = credential_id E current,
        cr_controller_credential_id = credential_id E fresh\<rparr>) root))))"

subsection \<open>Which configuration may follow\<close>

text \<open>The identities with the Manage capability, as a set in source order.\<close>

definition managers :: "StreamConfig \<Rightarrow> IdentityId btree_set" where
  "managers c = bs_of_list (map me_identity_id (filter (\<lambda>m. Manage \<in> set (me_capabilities m)) (sc_members c)))"

definition primary_protected ::
  "Authority \<Rightarrow> StreamConfig \<Rightarrow> StreamConfig \<Rightarrow> RecordError + unit" where
  "primary_protected a parent c =
     bindr (primary_owner_identity a) (\<lambda>primary.
     if managers parent \<noteq> managers c
        \<or> find_member primary (sc_members parent) \<noteq> find_member primary (sc_members c)
     then
       bindr (credential a (sc_controller_credential_id c)) (\<lambda>signer.
       if identity signer \<noteq> primary
          \<or> sc_controller_credential_id c \<notin> set (sc_owner_credential_ids parent)
       then Inl Authority_err else Inr ())
     else Inr ())"

definition ancestor_controls ::
  "('z authority_ext_scheme) \<Rightarrow> Authority \<Rightarrow> VerifiedCredential \<Rightarrow> bool \<Rightarrow> StreamConfig \<Rightarrow> RecordError + unit" where
  "ancestor_controls E a fresh already_active c =
     bindr (credential a (sc_controller_credential_id c)) (\<lambda>ctl.
     if vc_key ctl = vc_key fresh \<or> recipient ctl = recipient fresh then Inl Authority_err
     else
     check_all (\<lambda>i.
       bindr (credential a i) (\<lambda>old.
       if (vc_key old = vc_key fresh \<or> recipient old = recipient fresh)
          \<and> (\<not> already_active \<or> credential_id E old \<noteq> credential_id E fresh)
       then Inl Authority_err else Inr ())) (devices c))"

definition replace_devices :: "IdentityId \<Rightarrow> RecordId \<Rightarrow> Member list \<Rightarrow> Member list" where
  "replace_devices ident cred ms =
     map (\<lambda>m. if me_identity_id m = ident then m\<lparr>me_credential_ids := [cred]\<rparr> else m) ms"

definition validate_recovery ::
  "('z authority_ext_scheme) \<Rightarrow> Authority \<Rightarrow> StreamConfig \<Rightarrow> StreamConfig option \<Rightarrow> RecordId \<Rightarrow> SignedRecord \<Rightarrow>
   RecordError + unit" where
  "validate_recovery E a c parent_opt prior_controller r =
     bindr (ok_or parent_opt Authority_err) (\<lambda>parent.
     bindr (decode_with (dec_recovery E) r) (\<lambda>b.
     bindr (chain_at E a (sc_previous_config_id c)) (\<lambda>chain.
     bindr (initial_controller a) (\<lambda>initial.
     bindr (controller_root E initial) (\<lambda>root.
     bindr (verify_signature E r root) (\<lambda>_.
     bindr (hex 16 (cr_nonce b)) (\<lambda>_.
     bindr (credential a (sc_controller_credential_id c)) (\<lambda>fresh.
     if cr_v b \<noteq> 1
        \<or> cr_kind b \<noteq> ''space.controller.recovered''
        \<or> cr_space_id b \<noteq> space E a
        \<or> cr_sequence b \<noteq> length chain + 1
        \<or> cr_sequence b > 64
        \<or> cr_previous_recovery_id b \<noteq> (if chain = [] then None else Some (record_id E (last chain)))
        \<or> cr_previous_controller_credential_id b \<noteq> prior_controller
        \<or> cr_controller_credential_id b \<noteq> credential_id E fresh
        \<or> credential_id E fresh = prior_controller
        \<or> identity fresh \<noteq> identity initial
        \<or> root_public_key_json fresh \<noteq> root_public_key_json initial
        \<or> ca_operation (sc_action c) \<noteq> ''controller.recovered''
        \<or> ca_request_record_id (sc_action c) \<noteq> Some (record_id E r)
     then Inl Authority_err
     else
     let expected = replace_devices (identity initial) (credential_id E fresh) (sc_members parent) in
     if sc_members c \<noteq> expected \<or> sc_owner_credential_ids c \<noteq> owner_devices a expected
     then Inl Authority_err
     else
     let already_active = list_ex (\<lambda>m. me_identity_id m = identity initial
            \<and> credential_id E fresh \<in> set (me_credential_ids m)) (sc_members parent) in
     bindr (walk (\<lambda>_ anc. ancestor_controls E a fresh already_active anc) a (sc_previous_config_id c)) (\<lambda>_.
     Inr ())))))))))"

definition validate_controller_transition ::
  "('z authority_ext_scheme) \<Rightarrow> Authority \<Rightarrow> StreamConfig \<Rightarrow> RecordError + unit" where
  "validate_controller_transition E a c =
     bindr (case sc_previous_config_id c of
              None \<Rightarrow> Inr None
            | Some p \<Rightarrow> bindr (config a p) (\<lambda>x. Inr (Some x))) (\<lambda>parent.
     bindr (case parent of
              Some p \<Rightarrow> if is_owner_managed a then primary_protected a p c else Inr ()
            | None \<Rightarrow> Inr ()) (\<lambda>_.
     if witness_pin a \<noteq> None \<and> sc_sequence c > 1 then validate_witness_transition E a c
     else if is_owner_managed a then
       (if sc_recovery c \<noteq> None
           \<or> ca_operation (sc_action c) = ''controller.recovered''
           \<or> \<not> (case parent of
                  None \<Rightarrow> sc_controller_credential_id c = ge_controller_credential_id (au_body a)
                | Some prior \<Rightarrow> sc_controller_credential_id c \<in> set (sc_owner_credential_ids prior))
        then Inl Authority_err else Inr ())
     else
       (let prior_controller =
              (case parent of Some p \<Rightarrow> sc_controller_credential_id p
               | None \<Rightarrow> ge_controller_credential_id (au_body a)) in
        bindr (embedded E c) (\<lambda>opt.
        case opt of
          None \<Rightarrow>
            if ca_operation (sc_action c) = ''controller.recovered''
               \<or> sc_controller_credential_id c \<noteq> prior_controller
            then Inl Authority_err else Inr ()
        | Some r \<Rightarrow> validate_recovery E a c parent prior_controller r))))"

subsection \<open>Head selection\<close>

text \<open>\<^verbatim>\<open>configs.iter().max_by_key(sequence).map(id)\<close>\<close>

definition latest_config :: "(RecordId \<times> SignedRecord \<times> StreamConfig) list \<Rightarrow> RecordId option" where
  "latest_config entries = map_option fst (max_by_key (\<lambda>e. sc_sequence (snd (snd e))) entries)"

fun certificate_children ::
  "('z authority_ext_scheme) \<Rightarrow> RecordId option list \<Rightarrow> RecordId \<Rightarrow> SignedRecord list \<Rightarrow>
   RecordError + RecordId option" where
  "certificate_children E children current [] = Inr (Some current)"
| "certificate_children E children current (r # rs) =
     bindr (decode_with (dec_recovery E) r) (\<lambda>b.
     if cr_previous_recovery_id b \<in> set children then Inr None
     else certificate_children E (cr_previous_recovery_id b # children) (cr_controller_credential_id b) rs)"

fun active_forks :: "RecordId option list \<Rightarrow> nat \<Rightarrow> StreamConfig list \<Rightarrow> bool" where
  "active_forks parents recovery_count [] = False"
| "active_forks parents recovery_count (c # cs) =
     (let n = (if sc_recovery c \<noteq> None then recovery_count + 1 else recovery_count) in
      if sc_previous_config_id c \<in> set parents \<or> n > 1 then True
      else active_forks (sc_previous_config_id c # parents) n cs)"

definition select_controller_head ::
  "('z authority_ext_scheme) \<Rightarrow> Authority \<Rightarrow> Authority \<times> (RecordError + unit)" where
  "select_controller_head E a =
     (if is_owner_managed a then
        (if \<not> insert_all_new [] (map (\<lambda>e. sc_previous_config_id (snd e)) (bt_values (au_configs a)))
         then (a\<lparr>au_forked := True\<rparr>, Inr ())
         else (a\<lparr>au_forked := False, au_head := latest_config (au_configs a)\<rparr>, Inr ()))
      else
      (case bindr (recovery_records E a)
              (certificate_children E [] (ge_controller_credential_id (au_body a))) of
         Inl e \<Rightarrow> (a, Inl e)
       | Inr None \<Rightarrow> (a\<lparr>au_forked := True\<rparr>, Inr ())
       | Inr (Some current) \<Rightarrow>
           let active = filter (\<lambda>e. sc_controller_credential_id (snd (snd e)) = current) (au_configs a) in
           if active_forks [] 0 (map (\<lambda>e. snd (snd e)) active)
           then (a\<lparr>au_forked := True\<rparr>, Inr ())
           else (a\<lparr>au_forked := False, au_head := latest_config active\<rparr>, Inr ())))"

subsection \<open>Applying a configuration\<close>

definition config_signature ::
  "('z authority_ext_scheme) \<Rightarrow> Authority \<Rightarrow> SignedRecord \<Rightarrow> StreamConfig \<Rightarrow> RecordError + unit" where
  "config_signature E a r c =
     (case witness_pin a of
        Some pin \<Rightarrow>
          if sc_sequence c > 1 then bindr (pin_key E pin) (verify_signature E r)
          else bindr (credential a (sc_controller_credential_id c)) (\<lambda>s. verify_signature E r (vc_key s))
      | None \<Rightarrow> bindr (credential a (sc_controller_credential_id c)) (\<lambda>s. verify_signature E r (vc_key s)))"

text \<open>The sequence of the parent, or \<open>None\<close> when its record has not arrived.\<close>

definition prior_sequence :: "Authority \<Rightarrow> StreamConfig \<Rightarrow> RecordError + nat option" where
  "prior_sequence a c =
     (case sc_previous_config_id c of
        None \<Rightarrow> Inr (Some 0)
      | Some i \<Rightarrow>
          (case bt_get (au_configs a) i of
             None \<Rightarrow> Inr None
           | Some (_, p) \<Rightarrow>
               if sc_chat_kind p \<noteq> None \<and> sc_chat_kind c \<noteq> sc_chat_kind p then Inl Authority_err
               else Inr (Some (sc_sequence p))))"

text \<open>Everything \<^verbatim>\<open>apply_config\<close> checks before it changes the authority.\<close>

definition check_config ::
  "('z authority_ext_scheme) \<Rightarrow> Authority \<Rightarrow> SignedRecord \<Rightarrow> RecordError + StreamConfig option" where
  "check_config E a r =
     bindr (decode_with (dec_config E) r) (\<lambda>c.
     bindr (config_signature E a r c) (\<lambda>_.
     bindr (validate_config E a c) (\<lambda>_.
     bindr (prior_sequence a c) (\<lambda>prior.
     case prior of
       None \<Rightarrow> Inr None
     | Some prior_seq \<Rightarrow>
         if sc_sequence c \<noteq> prior_seq + 1 then Inl Authority_err
         else
         bindr (validate_controller_transition E a c) (\<lambda>_.
         if length (au_configs a) \<ge> 4096 then Inl Authority_err else Inr (Some c))))))"

definition apply_config ::
  "('z authority_ext_scheme) \<Rightarrow> Authority \<Rightarrow> SignedRecord \<Rightarrow> Authority \<times> (RecordError + ConfigAdmission)" where
  "apply_config E a r =
     (if au_checkpoint_evidence a \<noteq> None then (a, Inl Authority_err)
      else if bt_contains (au_configs a) (record_id E r) then (a, Inr AlreadyPresent)
      else
      (case check_config E a r of
         Inl e \<Rightarrow> (a, Inl e)
       | Inr None \<Rightarrow> (a, Inr WaitingForProof)
       | Inr (Some c) \<Rightarrow>
           (let id' = record_id E r in
            case select_controller_head E (a\<lparr>au_configs := bt_insert id' (r, c) (au_configs a)\<rparr>) of
              (a', Inl e) \<Rightarrow> (a', Inl e)
            | (a', Inr _) \<Rightarrow>
                (a', Inr (if au_forked a' then Forked
                          else if au_head a' = Some id' then Applied else Historical)))))"

text \<open>The trial run of the operations that prepare a configuration for the current head.\<close>

definition trial_applied ::
  "('z authority_ext_scheme) \<Rightarrow> Authority \<Rightarrow> SignedRecord \<Rightarrow> RecordError + SignedRecord" where
  "trial_applied E a r =
     bindr (snd (apply_config E a r)) (\<lambda>outcome.
     if outcome \<noteq> Applied then Inl Authority_err else Inr r)"

definition prepare_recovery ::
  "('z authority_ext_scheme) \<Rightarrow> Authority \<Rightarrow> bytes option \<Rightarrow> SignedRecord \<Rightarrow> bytes \<Rightarrow> RecordError + SignedRecord" where
  "prepare_recovery E a rnd certificate key =
     (if is_owner_managed a then Inl Authority_err
      else
      bindr (decode_with (dec_recovery E) certificate) (\<lambda>cert.
      bindr (head a) (\<lambda>c.
      bindr (random_hex rnd) (\<lambda>nonce.
      bindr (initial_controller a) (\<lambda>initial.
      let members = replace_devices (identity initial) (cr_controller_credential_id cert) (sc_members c);
          next' = c\<lparr>sc_nonce := nonce, sc_sequence := sc_sequence c + 1,
                     sc_previous_config_id := au_head a,
                     sc_controller_credential_id := cr_controller_credential_id cert,
                     sc_recovery := Some (b64_encode E (rec_bytes certificate)),
                     sc_action := \<lparr>ca_operation = ''controller.recovered'',
                                    ca_actor_identity = identity initial,
                                    ca_request_record_id = Some (record_id E certificate)\<rparr>,
                     sc_members := members,
                     sc_owner_credential_ids := owner_devices a members\<rparr> in
      bindr (StreamConfig_sign E next' key) (trial_applied E a))))))"

definition prepare_witness_owner_config ::
  "('z authority_ext_scheme) \<Rightarrow> Authority \<Rightarrow> SignedRecord \<Rightarrow> bytes \<Rightarrow> RecordError + SignedRecord" where
  "prepare_witness_owner_config E a proposal witness_key =
     bindr (require_witness_signer E a witness_key) (\<lambda>_.
     bindr (decode_with (dec_config E) proposal) (\<lambda>c.
     if sc_witness_evidence c \<noteq> None then Inl Authority_err
     else
     bindr (StreamConfig_sign E
        (c\<lparr>sc_witness_evidence := Some (OwnerProposal (b64_encode E (rec_bytes proposal)))\<rparr>) witness_key)
        (trial_applied E a)))"

definition prepare_witness_admission ::
  "('z authority_ext_scheme) \<Rightarrow> Authority \<Rightarrow> WitnessAdmissionEvidence \<Rightarrow> bytes \<Rightarrow> RecordError + SignedRecord" where
  "prepare_witness_admission E a evidence witness_key =
     bindr (require_witness_signer E a witness_key) (\<lambda>_.
     bindr (witness_admission_config E a evidence) (\<lambda>c.
     bindr (StreamConfig_sign E c witness_key) (trial_applied E a)))"

definition prepare_witness_admission_v2 ::
  "('z authority_ext_scheme) \<Rightarrow> Authority \<Rightarrow> WitnessAdmissionEvidenceV2 \<Rightarrow> bytes \<Rightarrow> RecordError + SignedRecord" where
  "prepare_witness_admission_v2 E a evidence witness_key =
     bindr (require_witness_signer E a witness_key) (\<lambda>_.
     bindr (witness_admission_config_v2 E a evidence) (\<lambda>c.
     bindr (StreamConfig_sign E c witness_key) (trial_applied E a)))"

subsection \<open>Controller generations across streams\<close>

type_synonym generations = "(RecordId option \<times> RecordId) list \<times> nat \<times> RecordId"

fun ready_records ::
  "('z authority_ext_scheme) \<Rightarrow> generations \<Rightarrow> SignedRecord list \<Rightarrow> generations option" where
  "ready_records E st [] = Some st"
| "ready_records E (children, sequence, latest) (r # rs) =
     (case decode_with (dec_recovery E) r of
        Inl _ \<Rightarrow> None
      | Inr b \<Rightarrow>
          (case map_of children (cr_previous_recovery_id b) of
             Some old \<Rightarrow> if old \<noteq> record_id E r then None else ready_records E
               ((cr_previous_recovery_id b, record_id E r) # children,
                (if cr_sequence b > sequence then (cr_sequence b, cr_controller_credential_id b) else (sequence, latest))) rs
           | None \<Rightarrow> ready_records E
               ((cr_previous_recovery_id b, record_id E r) # children,
                (if cr_sequence b > sequence then (cr_sequence b, cr_controller_credential_id b) else (sequence, latest))) rs))"

fun ready_peers :: "('z authority_ext_scheme) \<Rightarrow> generations \<Rightarrow> Authority list \<Rightarrow> generations option" where
  "ready_peers E st [] = Some st"
| "ready_peers E st (peer # peers) =
     (case recovery_records E peer of
        Inl _ \<Rightarrow> None
      | Inr records \<Rightarrow>
          (case ready_records E st records of
             None \<Rightarrow> None
           | Some st' \<Rightarrow> ready_peers E st' peers))"

definition controller_ready_with :: "('z authority_ext_scheme) \<Rightarrow> Authority \<Rightarrow> Authority list \<Rightarrow> bool" where
  "controller_ready_with E a peers =
     (if is_owner_managed a then \<not> au_forked a
      else
      (case initial_controller a of
         Inl _ \<Rightarrow> False
       | Inr initial \<Rightarrow>
           (case ready_peers E ([], 0, credential_id E initial)
                   (filter (\<lambda>p. space E p = space E a) (peers @ [a])) of
              None \<Rightarrow> False
            | Some (_, _, latest) \<Rightarrow>
                \<not> au_forked a
                \<and> (case controller a of Inl _ \<Rightarrow> False | Inr c \<Rightarrow> credential_id E c = latest))))"

subsection \<open>The invariant of an authority\<close>

definition config_entry_ok ::
  "('z authority_ext_scheme) \<Rightarrow> Authority \<Rightarrow> RecordId \<times> SignedRecord \<times> StreamConfig \<Rightarrow> bool" where
  "config_entry_ok E a e \<longleftrightarrow>
     record_id E (fst (snd e)) = fst e
     \<and> dec_config E (rec_body (fst (snd e))) = Some (snd (snd e))
     \<and> 1 \<le> sc_sequence (snd (snd e))
     \<and> bt_contains (au_credentials a) (sc_controller_credential_id (snd (snd e)))
     \<and> sorted_wrt (<) (map me_identity_id (sc_members (snd (snd e))))"

abbreviation config_parents :: "Authority \<Rightarrow> RecordId option list" where
  "config_parents a \<equiv> map (\<lambda>e. sc_previous_config_id (snd (snd e))) (au_configs a)"

definition head_ok :: "Authority \<Rightarrow> bool" where
  "head_ok a \<longleftrightarrow>
     (\<forall>h. au_head a = Some h \<longrightarrow> bt_contains (au_configs a) h)
     \<and> (is_owner_managed a \<longrightarrow>
          (au_forked a \<longleftrightarrow> \<not> distinct (config_parents a))
          \<and> (\<not> au_forked a \<longrightarrow> au_head a = latest_config (au_configs a)))"

definition authority_ok :: "('z authority_ext_scheme) \<Rightarrow> Authority \<Rightarrow> bool" where
  "authority_ok E a \<longleftrightarrow>
     bt_wf (au_configs a) \<and> bt_wf (au_credentials a)
     \<and> (\<forall>e \<in> set (au_credentials a). fst e = credential_id E (snd e))
     \<and> bt_contains (au_credentials a) (ge_controller_credential_id (au_body a))
     \<and> (\<forall>e \<in> set (au_configs a). config_entry_ok E a e)
     \<and> (au_checkpoint_evidence a = None \<longrightarrow> linked a)
     \<and> length (au_configs a) \<le> 4096
     \<and> head_ok a"

lemma authority_okD:
  assumes "authority_ok E a"
  shows "bt_wf (au_configs a)" "bt_wf (au_credentials a)"
    "au_checkpoint_evidence a = None \<Longrightarrow> linked a" "length (au_configs a) \<le> 4096" "head_ok a"
    "\<And>e. e \<in> set (au_configs a) \<Longrightarrow> config_entry_ok E a e"
    "\<And>e. e \<in> set (au_credentials a) \<Longrightarrow> fst e = credential_id E (snd e)"
    "bt_contains (au_credentials a) (ge_controller_credential_id (au_body a))"
  using assms by (auto simp: authority_ok_def)

lemma config_entry:
  assumes "authority_ok E a" "bt_get (au_configs a) i = Some (r, c)"
  shows "record_id E r = i" "dec_config E (rec_body r) = Some c" "1 \<le> sc_sequence c"
    "bt_contains (au_credentials a) (sc_controller_credential_id c)"
    "sorted_wrt (<) (map me_identity_id (sc_members c))"
  using authority_okD(6) [OF assms(1) bt_get_in [OF assms(2)]] by (auto simp: config_entry_ok_def)

lemma controller_total:
  assumes "authority_ok E a"
  shows "\<exists>c. controller a = Inr c" "\<exists>c. initial_controller a = Inr c"
proof -
  show "\<exists>c. initial_controller a = Inr c"
    using authority_okD(8) [OF assms]
    by (auto simp: initial_controller_def credential_iff bt_contains_def)
  show "\<exists>c. controller a = Inr c"
  proof (cases "head a")
    case (Inl e)
    then show ?thesis
      using authority_okD(8) [OF assms] by (auto simp: controller_def credential_iff bt_contains_def)
  next
    case (Inr c)
    then obtain i r where "bt_get (au_configs a) i = Some (r, c)" by (auto simp: authority_simps)
    from config_entry(4) [OF assms this] Inr show ?thesis
      by (auto simp: controller_def credential_iff bt_contains_def)
  qed
qed

lemma Authority_new_steps:
  assumes "Authority_new E genesis pinned root ctl strm = Inr a"
  obtains g body where
    "parse E genesis = Inr g" "to_string (record_id E g) = to_string pinned" "dec_genesis E (rec_body g) = Some body"
    "genesis_signature E g body root ctl = Inr ()" "genesis_witness E body = Inr ()"
    "ge_issuer_identity body = of_root_key E root"
    "ge_controller_credential_id body = credential_id E ctl"
    "list_ex (\<lambda>o'. ow_identity_id o' = ge_issuer_identity body) (ge_owners body)"
    "a = \<lparr>au_genesis = g, au_body = body, au_stream = strm,
               au_credentials = [(credential_id E ctl, ctl)],
               au_configs = [], au_head = None, au_forked = False,
               au_persisted_snapshot = None, au_checkpoint_evidence = None,
               au_cached_checkpoint = None\<rparr>"
proof -
  show thesis
    using assms
    unfolding Authority_new_def bindr_eq_Inr guard_eq_Inr decode_with_iff
    by (elim exE conjE, intro that) (assumption | simp)+
qed

lemma Authority_new_Inr:
  assumes "Authority_new E genesis pinned root ctl strm = Inr a"
  shows "au_configs a = []" "au_head a = None" "\<not> au_forked a" "au_checkpoint_evidence a = None"
    "au_credentials a = [(credential_id E ctl, ctl)]"
    "ge_controller_credential_id (au_body a) = credential_id E ctl" "space E a = pinned" "au_stream a = strm"
    "dec_genesis E (rec_body (au_genesis a)) = Some (au_body a)"
    "ge_issuer_identity (au_body a) = of_root_key E root"
    "genesis_signature E (au_genesis a) (au_body a) root ctl = Inr ()"
    "\<exists>owner \<in> set (ge_owners (au_body a)). ow_identity_id owner = of_root_key E root"
    "ge_v (au_body a) = 4 \<longleftrightarrow> witness_pin a \<noteq> None"
    "parse E genesis = Inr (au_genesis a)"
proof -
  obtain g body where g: "parse E genesis = Inr g"
    and *: "to_string (record_id E g) = to_string pinned" "dec_genesis E (rec_body g) = Some body"
    "genesis_signature E g body root ctl = Inr ()" "genesis_witness E body = Inr ()"
    "ge_issuer_identity body = of_root_key E root"
    "ge_controller_credential_id body = credential_id E ctl"
    "list_ex (\<lambda>o'. ow_identity_id o' = ge_issuer_identity body) (ge_owners body)"
    and a: "a = \<lparr>au_genesis = g, au_body = body, au_stream = strm,
               au_credentials = [(credential_id E ctl, ctl)],
               au_configs = [], au_head = None, au_forked = False,
               au_persisted_snapshot = None, au_checkpoint_evidence = None,
               au_cached_checkpoint = None\<rparr>"
    by (rule Authority_new_steps [OF assms])
  show "au_configs a = []" "au_head a = None" "\<not> au_forked a" "au_checkpoint_evidence a = None"
    "au_credentials a = [(credential_id E ctl, ctl)]"
    "ge_controller_credential_id (au_body a) = credential_id E ctl" "space E a = pinned" "au_stream a = strm"
    "dec_genesis E (rec_body (au_genesis a)) = Some (au_body a)"
    "ge_issuer_identity (au_body a) = of_root_key E root"
    "genesis_signature E (au_genesis a) (au_body a) root ctl = Inr ()"
    "\<exists>owner \<in> set (ge_owners (au_body a)). ow_identity_id owner = of_root_key E root"
    using * by (auto simp: a space_def encode_hex_inj list_ex_iff)
  show "parse E genesis = Inr (au_genesis a)" using g by (simp add: a)
  show "ge_v (au_body a) = 4 \<longleftrightarrow> witness_pin a \<noteq> None"
    using *(4) by (auto simp: a genesis_witness_def witness_pin_def split: option.splits if_splits)
qed

lemma Authority_new_ok:
  assumes "Authority_new E genesis pinned root ctl strm = Inr a"
  shows "authority_ok E a"
  using Authority_new_Inr [OF assms]
  by (simp add: authority_ok_def head_ok_def linked_def bt_contains_def bt_get_def latest_config_def)

subsection \<open>Every operation keeps the invariant\<close>

lemma check_config_Some:
  assumes "check_config E a r = Inr (Some c)"
  shows "dec_config E (rec_body r) = Some c" "config_signature E a r c = Inr ()"
    "validate_config E a c = Inr ()" "prior_sequence a c = Inr (Some (sc_sequence c - 1))"
    "validate_controller_transition E a c = Inr ()" "length (au_configs a) < 4096"
proof -
  from assms obtain d prior where *: "dec_config E (rec_body r) = Some d" "config_signature E a r d = Inr ()"
    "validate_config E a d = Inr ()" "prior_sequence a d = Inr prior"
    "(case prior of None \<Rightarrow> Inr None
      | Some prior_seq \<Rightarrow>
         if sc_sequence d \<noteq> prior_seq + 1 then Inl Authority_err
         else bindr (validate_controller_transition E a d) (\<lambda>_.
           if length (au_configs a) \<ge> 4096 then Inl Authority_err else Inr (Some d))) = Inr (Some c)"
    unfolding check_config_def bindr_eq_Inr decode_with_iff by (elim exE conjE) simp
  then have "d = c \<and> prior = Some (sc_sequence c - 1) \<and> validate_controller_transition E a c = Inr ()
      \<and> length (au_configs a) < 4096"
    by (cases prior) (auto simp: bindr_eq_Inr split: if_splits)
  with * show "dec_config E (rec_body r) = Some c" "config_signature E a r c = Inr ()"
    "validate_config E a c = Inr ()" "prior_sequence a c = Inr (Some (sc_sequence c - 1))"
    "validate_controller_transition E a c = Inr ()" "length (au_configs a) < 4096"
    by simp_all
qed

lemma latest_config_in: "latest_config es = Some h \<Longrightarrow> h \<in> fst ` set es"
  by (force simp: latest_config_def dest: max_by_key_Some)

text \<open>Selecting a head touches nothing but the head and the fork flag.\<close>

definition head_frame :: "Authority \<Rightarrow> Authority \<Rightarrow> bool" where
  "head_frame a b \<longleftrightarrow>
     (\<exists>f h. b = a\<lparr>au_forked := f, au_head := h\<rparr>
        \<and> (h = au_head a \<or> (\<forall>i. h = Some i \<longrightarrow> bt_contains (au_configs a) i)))"

lemma head_frame_intros:
  "head_frame a a"
  "head_frame a (a\<lparr>au_forked := True\<rparr>)"
  "head_frame a (a\<lparr>au_forked := False, au_head := latest_config (filter P (au_configs a))\<rparr>)"
  "head_frame a (a\<lparr>au_forked := False, au_head := latest_config (au_configs a)\<rparr>)"
proof -
  show "head_frame a a" unfolding head_frame_def
    by (rule exI [of _ "au_forked a"], rule exI [of _ "au_head a"]) simp
  show "head_frame a (a\<lparr>au_forked := True\<rparr>)" unfolding head_frame_def
    by (rule exI [of _ True], rule exI [of _ "au_head a"]) simp
  show "head_frame a (a\<lparr>au_forked := False, au_head := latest_config (filter P (au_configs a))\<rparr>)"
    unfolding head_frame_def
    by (rule exI [of _ False], rule exI, rule conjI, rule refl)
      (auto simp: bt_contains_iff dest!: latest_config_in)
  show "head_frame a (a\<lparr>au_forked := False, au_head := latest_config (au_configs a)\<rparr>)"
    unfolding head_frame_def
    by (rule exI [of _ False], rule exI, rule conjI, rule refl)
      (auto simp: bt_contains_iff dest!: latest_config_in)
qed

lemma select_controller_head_frame: "head_frame a (fst (select_controller_head E a))"
  by (simp add: select_controller_head_def Let_def head_frame_intros split: sum.split option.split)

lemma linked_cong:
  assumes "au_configs a = au_configs b"
  shows "linked a = linked b"
  unfolding linked_def config_link_def config_cong [OF assms] assms ..

lemma select_head_ok:
  assumes "\<And>h. au_head a = Some h \<Longrightarrow> bt_contains (au_configs a) h"
  shows "head_ok (fst (select_controller_head E a))"
proof -
  obtain f h where fh: "fst (select_controller_head E a) = a\<lparr>au_forked := f, au_head := h\<rparr>"
    "h = au_head a \<or> (\<forall>i. h = Some i \<longrightarrow> bt_contains (au_configs a) i)"
    using select_controller_head_frame unfolding head_frame_def by blast
  have "is_owner_managed a \<Longrightarrow> (f \<longleftrightarrow> \<not> distinct (config_parents a))
      \<and> (\<not> f \<longrightarrow> h = latest_config (au_configs a))"
    using fh(1) by (cases a) (auto simp: select_controller_head_def insert_all_new_iff comp_def split: if_splits)
  with fh assms show ?thesis by (auto simp: head_ok_def is_owner_managed_def)
qed

lemma config_insert:
  "bt_get (au_configs a) i = None \<Longrightarrow> config a j = Inr d \<Longrightarrow>
   config (a\<lparr>au_configs := bt_insert i (r, c) (au_configs a)\<rparr>) j = Inr d"
  by (auto simp: config_iff)

lemma config_link_insert:
  assumes "bt_get (au_configs a) i = None" "config_link a d"
  shows "config_link (a\<lparr>au_configs := bt_insert i (r, c) (au_configs a)\<rparr>) d"
  using assms(2) config_insert [OF assms(1)]
  by (auto simp: config_link_def split: option.splits sum.splits)

lemma prior_sequence_link:
  assumes "linked a" "validate_config E a c = Inr u" "prior_sequence a c = Inr (Some (sc_sequence c - 1))"
    "\<And>e. e \<in> set (au_configs a) \<Longrightarrow> 1 \<le> sc_sequence (snd (snd e))"
  shows "config_link a c"
proof (cases "sc_previous_config_id c")
  case None
  then show ?thesis using validate_config_header(6) [OF assms(2)] by (simp add: config_link_def)
next
  case (Some p)
  then obtain r d where d: "bt_get (au_configs a) p = Some (r, d)"
    "sc_chat_kind d \<noteq> None \<longrightarrow> sc_chat_kind c = sc_chat_kind d" "sc_sequence d = sc_sequence c - 1"
    using assms(3) by (auto simp: prior_sequence_def split: option.splits if_splits)
  then have "config a p = Inr d" by (auto simp: config_iff)
  moreover have "1 \<le> sc_sequence d" using assms(4) [OF bt_get_in [OF d(1)]] by simp
  ultimately show ?thesis using Some d by (simp add: config_link_def)
qed

lemma insert_config_ok:
  assumes ok: "authority_ok E a" and cp: "au_checkpoint_evidence a = None"
    and fresh: "bt_get (au_configs a) (record_id E r) = None"
    and c: "check_config E a r = Inr (Some c)"
  shows "authority_ok E (fst (select_controller_head E
           (a\<lparr>au_configs := bt_insert (record_id E r) (r, c) (au_configs a)\<rparr>)))"
proof -
  let ?b = "a\<lparr>au_configs := bt_insert (record_id E r) (r, c) (au_configs a)\<rparr>"
  note cc = check_config_Some [OF c]
  note ents = set_bt_insert_fresh [OF fresh, of "(r, c)"]
  have link: "config_link a c"
    using prior_sequence_link [OF authority_okD(3) [OF ok cp] cc(3,4)] authority_okD(6) [OF ok]
    by (simp add: config_entry_ok_def)
  have "linked ?b"
    using config_link_insert [OF fresh, of _ r c] link authority_okD(3) [OF ok cp] ents
    by (auto simp: linked_def)
  moreover have "\<forall>e \<in> set (au_configs ?b). config_entry_ok E ?b e"
    using authority_okD(6) [OF ok] cc(1) validate_config_header(1,8,10) [OF cc(3)] ents
    by (auto simp: config_entry_ok_def credential_iff bt_contains_def)
  moreover have "length (au_configs ?b) \<le> 4096"
    using cc(6) length_bt_insert_fresh [OF fresh, of "(r, c)"] by simp
  moreover have "head_ok (fst (select_controller_head E ?b))"
    using authority_okD(5) [OF ok] by (intro select_head_ok) (simp add: head_ok_def bt_contains_def)
  moreover obtain f h where fh: "fst (select_controller_head E ?b) = ?b\<lparr>au_forked := f, au_head := h\<rparr>"
    using select_controller_head_frame [of ?b E] unfolding head_frame_def by blast
  moreover have "linked (?b\<lparr>au_forked := f, au_head := h\<rparr>) = linked ?b" by (rule linked_cong) simp
  ultimately show ?thesis
    unfolding fh using authority_okD(1,2,7,8) [OF ok]
    by (simp add: authority_ok_def config_entry_ok_def)
qed

lemma apply_config_cases:
  obtains (unchanged) "fst (apply_config E a r) = a" "snd (apply_config E a r) \<notin> {Inr Applied, Inr Historical, Inr Forked}"
  | (inserted) c where "au_checkpoint_evidence a = None" "bt_get (au_configs a) (record_id E r) = None"
      "check_config E a r = Inr (Some c)"
      "fst (apply_config E a r) = fst (select_controller_head E
         (a\<lparr>au_configs := bt_insert (record_id E r) (r, c) (au_configs a)\<rparr>))"
proof (cases "au_checkpoint_evidence a \<noteq> None \<or> bt_contains (au_configs a) (record_id E r)")
  case True
  then have "fst (apply_config E a r) = a" "snd (apply_config E a r) \<notin> {Inr Applied, Inr Historical, Inr Forked}"
    by (auto simp: apply_config_def)
  then show thesis by (rule unchanged)
next
  case F: False
  show thesis
  proof (cases "\<exists>c. check_config E a r = Inr (Some c)")
    case True
    then obtain c where c: "check_config E a r = Inr (Some c)" by blast
    with F have "fst (apply_config E a r) = fst (select_controller_head E
         (a\<lparr>au_configs := bt_insert (record_id E r) (r, c) (au_configs a)\<rparr>))"
      by (simp add: apply_config_def Let_def split: prod.split sum.split)
    moreover have "au_checkpoint_evidence a = None" "bt_get (au_configs a) (record_id E r) = None"
      using F unfolding bt_contains_def by blast+
    ultimately show thesis using c by (intro inserted)
  next
    case False
    with F have "fst (apply_config E a r) = a" "snd (apply_config E a r) \<notin> {Inr Applied, Inr Historical, Inr Forked}"
      by (auto simp: apply_config_def split: sum.split option.split)
    then show thesis by (rule unchanged)
  qed
qed

lemma apply_config_ok: "authority_ok E a \<Longrightarrow> authority_ok E (fst (apply_config E a r))"
  by (rule apply_config_cases [of E a r]) (simp_all add: insert_config_ok)

lemma add_credential_ok:
  assumes "authority_ok E a"
  shows "authority_ok E (add_credential E c a)"
proof -
  have "e \<in> set (au_configs a) \<Longrightarrow> config_entry_ok E (add_credential E c a) e" for e
    using authority_okD(6) [OF assms, of e]
    by (auto simp: config_entry_ok_def add_credential_def bt_contains_def)
  moreover have "linked (add_credential E c a) = linked a"
    by (rule linked_cong) (simp add: add_credential_def)
  moreover have "head_ok (add_credential E c a)"
    using authority_okD(5) [OF assms] by (simp add: head_ok_def add_credential_def is_owner_managed_def)
  ultimately show ?thesis
    using assms set_bt_insert [OF authority_okD(2) [OF assms], of "credential_id E c" c]
    by (auto simp: authority_ok_def add_credential_def bt_contains_def)
qed

subsection \<open>Authorities as machines\<close>

text \<open>What an authority receives after it was pinned: credentials and configuration records.\<close>

datatype authority_input = Credential_in VerifiedCredential | Config_in SignedRecord

fun authority_step ::
  "('z authority_ext_scheme) \<Rightarrow> Authority \<Rightarrow> authority_input \<Rightarrow> Authority \<times> (RecordError + ConfigAdmission)" where
  "authority_step E a (Credential_in c) = (add_credential E c a, Inr AlreadyPresent)"
| "authority_step E a (Config_in r) = apply_config E a r"

definition authority_le :: "Authority \<Rightarrow> Authority \<Rightarrow> bool" where
  "authority_le a b \<longleftrightarrow>
     au_genesis b = au_genesis a \<and> au_body b = au_body a \<and> au_stream b = au_stream a
     \<and> (\<forall>i v. bt_get (au_configs a) i = Some v \<longrightarrow> bt_get (au_configs b) i = Some v)
     \<and> (is_owner_managed a \<and> au_forked a \<longrightarrow> au_forked b \<and> au_head b = au_head a)"

lemma mset_bt_insert_fresh: "bt_get m k = None \<Longrightarrow> mset (bt_insert k v m) = add_mset (k, v) (mset m)"
  by (induction m) (auto simp: bt_get_def split: if_splits)

lemma distinct_map_mset: "mset xs = add_mset x (mset ys) \<Longrightarrow> distinct (map f xs) \<Longrightarrow> distinct (map f ys)"
proof -
  assume m: "mset xs = add_mset x (mset ys)" and d: "distinct (map f xs)"
  have "mset (map f xs) = mset (map f (x # ys))" using m by simp
  with d have "distinct (map f (x # ys))" by (metis mset_eq_imp_distinct_iff)
  then show "distinct (map f ys)" by simp
qed

lemma apply_config_le:
  assumes "authority_ok E a"
  shows "authority_le a (fst (apply_config E a r))"
proof (rule apply_config_cases [of E a r])
  assume "fst (apply_config E a r) = a"
  then show ?thesis by (simp add: authority_le_def)
next
  fix c
  let ?b = "a\<lparr>au_configs := bt_insert (record_id E r) (r, c) (au_configs a)\<rparr>"
  assume fresh: "bt_get (au_configs a) (record_id E r) = None"
    and r: "fst (apply_config E a r) = fst (select_controller_head E ?b)"
  obtain f h where fh: "fst (select_controller_head E ?b) = ?b\<lparr>au_forked := f, au_head := h\<rparr>"
    using select_controller_head_frame [of ?b E] unfolding head_frame_def by blast
  have "f \<and> h = au_head a" if om: "is_owner_managed a" and fk: "au_forked a"
  proof -
    have "\<not> distinct (config_parents a)"
      using authority_okD(5) [OF assms] om fk by (simp add: head_ok_def)
    then have "\<not> distinct (config_parents ?b)"
      using distinct_map_mset [OF mset_bt_insert_fresh [OF fresh, of "(r, c)"]] by auto
    then have "fst (select_controller_head E ?b) = ?b\<lparr>au_forked := True\<rparr>"
      using om by (simp add: select_controller_head_def insert_all_new_iff comp_def is_owner_managed_def)
    with fh have e: "?b\<lparr>au_forked := f, au_head := h\<rparr> = ?b\<lparr>au_forked := True\<rparr>" by simp
    show ?thesis using arg_cong [OF e, of au_forked] arg_cong [OF e, of au_head] by simp
  qed
  with fresh show ?thesis unfolding r fh by (auto simp: authority_le_def)
qed

lemma authority_step_ok: "authority_ok E a \<Longrightarrow> authority_ok E (fst (authority_step E a i))"
  by (cases i) (simp_all add: apply_config_ok add_credential_ok)

lemma authority_step_le: "authority_ok E a \<Longrightarrow> authority_le a (fst (authority_step E a i))"
  by (cases i) (simp_all add: apply_config_le, simp add: authority_le_def add_credential_def)

interpretation authority: growing_machine "authority_step E" "authority_ok E" authority_le
  for E :: "'z authority_ext_scheme"
proof
  show "authority_ok E a \<Longrightarrow> authority_ok E (fst (authority_step E a i))" for a i
    by (rule authority_step_ok)
  show "authority_ok E a \<Longrightarrow> authority_le a (fst (authority_step E a i))" for a i
    by (rule authority_step_le)
qed (auto simp: authority_le_def is_owner_managed_def)

subsection \<open>The chain of an unforked space\<close>

lemma sequence_injective:
  assumes "linked a" "distinct (config_parents a)"
    and "config a i = Inr c" "config a j = Inr d" "sc_sequence c = sc_sequence d"
  shows "i = j"
  using assms(3-5)
proof (induction "sc_sequence c" arbitrary: i c j d rule: less_induct)
  case less
  obtain r s where r: "(i, (r, c)) \<in> set (au_configs a)" and s: "(j, (s, d)) \<in> set (au_configs a)"
    using less.prems by (auto simp: config_iff dest!: bt_get_in)
  have inj: "inj_on (\<lambda>e. sc_previous_config_id (snd (snd e))) (set (au_configs a))"
    using assms(2) by (simp add: distinct_map)
  note lc = linkedD [OF assms(1) less.prems(1)] and ld = linkedD [OF assms(1) less.prems(2)]
  have "sc_previous_config_id c = sc_previous_config_id d"
  proof (cases "sc_previous_config_id c")
    case None
    with lc ld less.prems(3) show ?thesis
      by (cases "sc_previous_config_id d") (auto simp: config_link_def split: sum.splits)
  next
    case (Some p)
    with lc obtain c' where c': "config a p = Inr c'" "sc_sequence c = sc_sequence c' + 1" "1 \<le> sc_sequence c'"
      by (auto simp: config_link_def split: sum.splits)
    with ld less.prems(3) obtain q d' where
      d': "sc_previous_config_id d = Some q" "config a q = Inr d'" "sc_sequence d = sc_sequence d' + 1"
      by (cases "sc_previous_config_id d") (auto simp: config_link_def split: sum.splits)
    have "p = q" using less.hyps [OF _ c'(1) d'(2)] c'(2) d'(3) less.prems(3) by simp
    with Some d' show ?thesis by simp
  qed
  then have "(i, (r, c)) = (j, (s, d))" by (intro inj_onD [OF inj _ r s]) simp
  then show ?case by simp
qed

lemma unforked_chain:
  assumes ok: "authority_ok E a" and om: "is_owner_managed a" and "\<not> au_forked a"
    and cp: "au_checkpoint_evidence a = None" and ne: "au_configs a \<noteq> []"
  obtains h c xs where "au_head a = Some h" "config a h = Inr c" "witness_ancestry a = Inr xs"
    "fst ` set xs = fst ` set (au_configs a)"
    "map (\<lambda>e. sc_sequence (snd e)) xs = rev [1..<Suc (length (au_configs a))]"
proof -
  note lk = authority_okD(3) [OF ok cp]
  have d: "distinct (config_parents a)" and hd: "au_head a = latest_config (au_configs a)"
    using authority_okD(5) [OF ok] om assms(3) by (simp_all add: head_ok_def)
  then obtain h r c where m: "max_by_key (\<lambda>e. sc_sequence (snd (snd e))) (au_configs a) = Some (h, r, c)"
    using ne by (cases "max_by_key (\<lambda>e. sc_sequence (snd (snd e))) (au_configs a)") auto
  then have in': "(h, r, c) \<in> set (au_configs a)"
    and mx: "\<And>e. e \<in> set (au_configs a) \<Longrightarrow> sc_sequence (snd (snd e)) \<le> sc_sequence c"
    by (auto dest!: max_by_key_Some)
  then have c: "config a h = Inr c"
    using bt_get_iff [OF authority_okD(1) [OF ok]] by (auto simp: config_iff)
  obtain xs where xs: "ancestry a (Some h) xs" using linked_ancestry [OF lk c] by blast
  note sq = ancestry_sequences [OF lk c xs]
  have h: "au_head a = Some h" using m hd by (simp add: latest_config_def)
  have wa: "witness_ancestry a = Inr xs" by (rule witness_ancestry_eq [OF lk h c xs])
  have keys: "fst ` set xs = fst ` set (au_configs a)"
  proof
    show "fst ` set xs \<subseteq> fst ` set (au_configs a)"
      using ancestry_config [OF xs] by (force simp: config_iff dest: bt_get_in)
    show "fst ` set (au_configs a) \<subseteq> fst ` set xs"
    proof
      fix i
      assume "i \<in> fst ` set (au_configs a)"
      then obtain s e where e: "(i, (s, e)) \<in> set (au_configs a)" by force
      then have ce: "config a i = Inr e"
        using bt_get_iff [OF authority_okD(1) [OF ok]] by (auto simp: config_iff)
      have "sc_sequence e \<in> set (rev [1..<Suc (sc_sequence c)])"
        using mx [OF e] authority_okD(6) [OF ok e] by (auto simp: config_entry_ok_def)
      then obtain j f where jf: "(j, f) \<in> set xs" "sc_sequence f = sc_sequence e"
        unfolding sq(1) [symmetric] by auto
      then have "j = i"
        using sequence_injective [OF lk d ancestry_config [OF xs jf(1)] ce] by simp
      with jf show "i \<in> fst ` set xs" by force
    qed
  qed
  have "distinct (map (\<lambda>e. sc_sequence (snd e)) xs)" by (simp only: sq(1)) simp
  moreover have "inj_on fst (set xs)"
    using ancestry_config [OF xs] by (auto simp: inj_on_def) (metis sum.inject(2))
  ultimately have "distinct (map fst xs)" by (simp add: distinct_map)
  then have "length xs = card (fst ` set xs)" using distinct_card by fastforce
  also have "\<dots> = card (set (bt_keys (au_configs a)))" using keys by simp
  also have "\<dots> = length (au_configs a)"
    using bt_wf_distinct [OF authority_okD(1) [OF ok]] distinct_card by fastforce
  finally have "sc_sequence c = length (au_configs a)" using sq(2) by simp
  with sq(1) show thesis using that [OF h c wa keys] by simp
qed

text \<open>
  Whatever records and credentials arrive after a space was pinned, in whatever order and
  whether they are accepted or not, the authority stays well formed: records are stored under
  their own digest, every configuration's parent is known and one sequence number lower, the
  chat kind once set does not change along the chain, the controllers' credentials are known,
  and at most 4096 configurations are held.
\<close>

lemma reachable_authority_ok:
  assumes "Authority_new E genesis pinned root ctl strm = Inr a"
  shows "authority_ok E (run_steps (authority_step E) a inputs)"
  using assms by (intro authority.run_inv Authority_new_ok)

text \<open>
  C1: an owner-managed space that has not forked has a single history: following the parents
  of the head visits every known configuration once, with the sequence numbers counting down
  from the number of configurations to one.
\<close>

theorem unforked_space_linear:
  assumes "Authority_new E genesis pinned root ctl strm = Inr a0"
    and "a = run_steps (authority_step E) a0 inputs"
    and "is_owner_managed a" "\<not> au_forked a" "au_configs a \<noteq> []" "au_checkpoint_evidence a = None"
  shows "\<exists>h c xs. au_head a = Some h \<and> config a h = Inr c \<and> witness_ancestry a = Inr xs
    \<and> fst ` set xs = fst ` set (au_configs a)
    \<and> map (\<lambda>e. sc_sequence (snd e)) xs = rev [1..<Suc (length (au_configs a))]"
proof -
  have "authority_ok E a"
    using assms(1,2) by (simp add: authority.run_inv Authority_new_ok)
  then obtain h c xs where "au_head a = Some h" "config a h = Inr c" "witness_ancestry a = Inr xs"
    "fst ` set xs = fst ` set (au_configs a)"
    "map (\<lambda>e. sc_sequence (snd e)) xs = rev [1..<Suc (length (au_configs a))]"
    by (rule unforked_chain [OF _ assms(3,4,6,5)])
  then show ?thesis by (intro exI conjI)
qed

text \<open>
  C27: a fork of an owner-managed space is never forgotten. Once two configurations with one
  parent were accepted, no later record clears the mark or moves the head, and no accepted
  configuration is ever lost.
\<close>

theorem fork_permanent:
  assumes "authority_ok E a"
  shows "(\<forall>i v. bt_get (au_configs a) i = Some v \<longrightarrow>
       bt_get (au_configs (run_steps (authority_step E) a inputs)) i = Some v)
    \<and> (is_owner_managed a \<and> au_forked a \<longrightarrow>
       au_forked (run_steps (authority_step E) a inputs)
       \<and> au_head (run_steps (authority_step E) a inputs) = au_head a)"
  using authority.run_le [OF assms, of inputs] by (simp add: authority_le_def)

subsection \<open>Who may change a space\<close>

lemma applied_checked:
  assumes "snd (apply_config E a r) \<in> {Inr Applied, Inr Historical, Inr Forked}"
  shows "\<exists>c. check_config E a r = Inr (Some c)"
  using assms by (rule_tac apply_config_cases [of E a r]) auto

lemma transition_parent:
  assumes "check_config E a r = Inr (Some c)" "sc_sequence c > 1"
  obtains p parent where "sc_previous_config_id c = Some p" "config a p = Inr parent"
    "sc_sequence c = sc_sequence parent + 1"
proof -
  note cc = check_config_Some [OF assms(1)]
  obtain p where p: "sc_previous_config_id c = Some p"
    using validate_config_header(6) [OF cc(3)] assms(2) by (cases "sc_previous_config_id c") auto
  with cc(4) obtain s d where "bt_get (au_configs a) p = Some (s, d)" "sc_sequence d = sc_sequence c - 1"
    by (auto simp: prior_sequence_def split: option.splits if_splits)
  with p assms(2) show thesis by (intro that [of p d]) (auto simp: config_iff)
qed

lemma transition_owner_managed:
  assumes "validate_controller_transition E a c = Inr ()" "is_owner_managed a"
    "sc_previous_config_id c = Some p" "config a p = Inr parent" "sc_sequence c > 1"
  shows "primary_protected a parent c = Inr ()"
    "witness_pin a = None \<Longrightarrow> sc_controller_credential_id c \<in> set (sc_owner_credential_ids parent)"
    "witness_pin a \<noteq> None \<Longrightarrow> validate_witness_transition E a c = Inr ()"
  using assms by (auto simp: validate_controller_transition_def bindr_eq_Inr guard_eq_Inr)

lemma primary_protected_Inr:
  assumes "primary_protected a parent c = Inr ()" "is_owner_managed a"
    "managers parent \<noteq> managers c \<or> find_member (ge_issuer_identity (au_body a)) (sc_members parent)
       \<noteq> find_member (ge_issuer_identity (au_body a)) (sc_members c)"
  shows "sc_controller_credential_id c \<in> set (sc_owner_credential_ids parent)
    \<and> (\<exists>signer. credential a (sc_controller_credential_id c) = Inr signer
         \<and> identity signer = ge_issuer_identity (au_body a))"
  using assms
  by (auto simp: primary_protected_def primary_owner_identity_def bindr_eq_Inr guard_eq_Inr)

lemma witness_transition_cases:
  assumes "validate_witness_transition E a c = Inr ()" "sc_previous_config_id c = Some p"
  obtains (proposed) encoded srec proposed signer where "sc_witness_evidence c = Some (OwnerProposal encoded)"
      "witness_decode E encoded = Inr srec" "dec_config E (rec_body srec) = Some proposed"
      "same_config E (c\<lparr>sc_witness_evidence := None\<rparr>) proposed"
      "credential a (sc_controller_credential_id c) = Inr signer" "verify_signature E srec (vc_key signer) = Inr ()"
  | (admitted) ev expected adm where "sc_witness_evidence c = Some ev" "same_config E c expected"
      "admission_of E (a\<lparr>au_head := Some p\<rparr>) ev adm"
      "finish_witness_admission E (a\<lparr>au_head := Some p\<rparr>) adm = Inr expected"
proof -
  from assms obtain ev where ev: "sc_witness_evidence c = Some ev"
    by (auto simp: validate_witness_transition_def Let_def bindr_eq_Inr guard_eq_Inr ok_or_eq_Inr)
  show thesis
  proof (cases ev)
    case (OwnerProposal x)
    with assms ev show thesis
      by (auto simp: validate_witness_transition_def Let_def bindr_eq_Inr guard_eq_Inr decode_with_iff
          simp del: verify_signature_iff intro: proposed)
  next
    case (Admission_evidence x)
    with assms ev obtain expected where "witness_admission_config E (a\<lparr>au_head := Some p\<rparr>) x = Inr expected" "same_config E c expected"
      by (auto simp: validate_witness_transition_def Let_def bindr_eq_Inr guard_eq_Inr)
    with ev Admission_evidence show thesis
      using witness_admission_config_basis admitted by metis
  next
    case (AdmissionV2_evidence x)
    with assms ev obtain expected where "witness_admission_config_v2 E (a\<lparr>au_head := Some p\<rparr>) x = Inr expected" "same_config E c expected"
      by (auto simp: validate_witness_transition_def Let_def bindr_eq_Inr guard_eq_Inr)
    with ev AdmissionV2_evidence show thesis
      using witness_admission_config_v2_basis admitted by metis
  qed
qed

text \<open>The JSON value of a configuration determines it, as the derived serializer promises.\<close>

definition config_value_faithful :: "('z authority_ext_scheme) \<Rightarrow> bool" where
  "config_value_faithful E \<longleftrightarrow> inj (config_to_value E)"

lemma same_config_eq: "config_value_faithful E \<Longrightarrow> same_config E c d \<longleftrightarrow> c = d"
  by (auto simp: config_value_faithful_def same_config_def dest: injD)

subsubsection \<open>An admission changes nothing about the managers\<close>

lemma add_device_managers:
  "map me_identity_id (filter (\<lambda>m. P (me_capabilities m)) (add_device i d ms))
    = map me_identity_id (filter (\<lambda>m. P (me_capabilities m)) ms)"
  by (induction ms) auto

lemma add_device_find:
  "find_member i (add_device j d ms) =
     (if i = j then map_option (\<lambda>m. m\<lparr>me_credential_ids := sort (me_credential_ids m @ [d])\<rparr>) (find_member i ms)
      else find_member i ms)"
  by (induction ms) (auto simp: find_member_def)

lemma find_member_iff:
  "distinct (map me_identity_id ms) \<Longrightarrow> find_member i ms = Some m \<longleftrightarrow> m \<in> set ms \<and> me_identity_id m = i"
  by (induction ms) (force simp: find_member_def)+

lemma find_member_eq:
  assumes "distinct (map me_identity_id xs)" "distinct (map me_identity_id ys)"
    and "\<And>m. me_identity_id m = i \<Longrightarrow> m \<in> set xs \<longleftrightarrow> m \<in> set ys"
  shows "find_member i xs = find_member i ys"
proof -
  have "find_member i xs = Some m \<longleftrightarrow> find_member i ys = Some m" for m
    using assms(3) unfolding find_member_iff [OF assms(1)] find_member_iff [OF assms(2)] by blast
  then show ?thesis by (metis not_None_eq)
qed

lemma admission_keeps_managers:
  assumes "finish_witness_admission E a adm = Inr c" "head a = Inr parent"
    and sorted: "sorted_wrt (<) (map me_identity_id (sc_members c))"
    and creator: "owner \<in> set (sc_members c)" "me_identity_id owner = i" "Manage \<in> set (me_capabilities owner)"
  shows "managers c = managers parent \<and> find_member i (sc_members c) = find_member i (sc_members parent)"
  using assms(1)
proof (rule finish_witness_admission_steps)
  fix parent' anc uses members actor
  let ?cand = "va_candidate adm" and ?ms = "sc_members parent"
  assume p: "head a = Inr parent'"
    and m: "\<And>m. find_member (identity ?cand) (sc_members parent') = Some m \<Longrightarrow>
       me_identity_type m = ''HUMAN'' \<and> me_capabilities m = [Read, Post]
       \<and> credential_id E ?cand \<notin> set (me_credential_ids m)"
    and ms: "admitted_members E ?cand (sc_members parent') = Inr members"
    and c: "c = parent'\<lparr>sc_members := members, sc_sequence := sc_sequence parent' + 1,
                 sc_previous_config_id := au_head a, sc_nonce := va_config_nonce adm,
                 sc_action := \<lparr>ca_operation = ''invite.approved'', ca_actor_identity = identity actor,
                                ca_request_record_id = Some (va_request_id adm)\<rparr>,
                 sc_witness_evidence := Some (va_evidence adm)\<rparr>"
  have [simp]: "parent' = parent" using p assms(2) by simp
  have mem: "sc_members c = members" by (simp add: c)
  have dist: "distinct (map me_identity_id members)" using sorted_wrt_less_distinct [OF sorted] mem by simp
  have own: "find_member i members = Some owner" using creator mem find_member_iff [OF dist] by simp
  show ?thesis
  proof (cases "find_member (identity ?cand) ?ms")
    case (Some old)
    with ms have members: "members = add_device (identity ?cand) (credential_id E ?cand) ?ms"
      by (simp add: admitted_members_def)
    have "i \<noteq> identity ?cand"
      using own m [of old] Some creator(3) by (auto simp: members add_device_find)
    then show ?thesis
      unfolding mem managers_def by (simp add: members add_device_managers [where P = "\<lambda>x. Manage \<in> set x"] add_device_find)
  next
    case None
    with ms obtain root where members: "members = sort_key me_identity_id (?ms @
        [\<lparr>me_identity_id = identity ?cand, me_identity_type = ''HUMAN'', me_root_public_key = root,
          me_capabilities = [Read, Post], me_credential_ids = [credential_id E ?cand], me_external = True\<rparr>])"
      by (auto simp: admitted_members_def bindr_eq_Inr)
    let ?new = "\<lparr>me_identity_id = identity ?cand, me_identity_type = ''HUMAN'', me_root_public_key = root,
          me_capabilities = [Read, Post], me_credential_ids = [credential_id E ?cand], me_external = True\<rparr>"
    have set: "set members = insert ?new (set ?ms)" by (auto simp: members)
    have "mset (map me_identity_id members) = mset (map me_identity_id (?ms @ [?new]))"
      by (simp add: members)
    then have dist': "distinct (map me_identity_id ?ms)" using dist mset_eq_imp_distinct_iff by fastforce
    have other: "i \<noteq> identity ?cand"
      using own find_member_iff [OF dist, of i ?new] set creator(3) by auto
    have "find_member i members = find_member i ?ms"
      by (rule find_member_eq [OF dist dist']) (use set other in auto)
    moreover have "set (map me_identity_id (filter (\<lambda>m. Manage \<in> set (me_capabilities m)) members))
        = set (map me_identity_id (filter (\<lambda>m. Manage \<in> set (me_capabilities m)) ?ms))"
      by (auto simp: set)
    ultimately show ?thesis unfolding mem managers_def by (simp add: bs_of_list_cong)
  qed
qed

text \<open>
  In a space managed by its owners without a witness, every configuration after the first
  is signed by a device that the preceding configuration lists as an owner device.
\<close>

lemma owner_signed_updates:
  assumes "snd (apply_config E a r) \<in> {Inr Applied, Inr Historical, Inr Forked}"
    and "ge_v (au_body a) = 2" "witness_pin a = None"
    and "dec_config E (rec_body r) = Some c" "sc_sequence c > 1"
  shows "\<exists>p parent signer. sc_previous_config_id c = Some p \<and> config a p = Inr parent
    \<and> sc_controller_credential_id c \<in> set (sc_owner_credential_ids parent)
    \<and> credential a (sc_controller_credential_id c) = Inr signer
    \<and> verify_signature E r (vc_key signer) = Inr ()"
proof -
  obtain c' where c': "check_config E a r = Inr (Some c')" using applied_checked [OF assms(1)] by blast
  note cc = check_config_Some [OF c']
  have [simp]: "c' = c" using cc(1) assms(4) by simp
  from c' assms(5) obtain p parent where p: "sc_previous_config_id c = Some p" "config a p = Inr parent"
    by (auto elim: transition_parent)
  have "sc_controller_credential_id c \<in> set (sc_owner_credential_ids parent)"
    using transition_owner_managed(2) [OF _ _ p assms(5,3)] cc(5) assms(2) by (simp add: is_owner_managed_def)
  moreover have "\<exists>signer. credential a (sc_controller_credential_id c) = Inr signer
      \<and> verify_signature E r (vc_key signer) = Inr ()"
    using cc(2) assms(3) by (simp add: config_signature_def bindr_eq_Inr)
  ultimately show ?thesis using p by blast
qed

lemma creator_member:
  assumes "validate_config E a c = Inr ()" "is_owner_managed a"
  obtains m where "m \<in> set (sc_members c)" "me_identity_id m = ge_issuer_identity (au_body a)"
    "Manage \<in> set (me_capabilities m)"
  using validate_config_owners(1) [OF assms(1)] owner_members_subset assms(2) that by fastforce

text \<open>
  C22: nobody locks out the creator. A configuration that changes who can manage an
  owner-managed space, or anything about the creator's own membership, is signed by a device of
  the creator that was an owner device in the preceding configuration. Under a witness, which
  signs every later configuration itself, it is that device which signed the proposal the
  configuration carries, and the proposal is the configuration without its evidence: what the
  witness may do alone, admitting a device on an invitation, never changes the managers or the
  creator.
\<close>

theorem creator_protected:
  assumes "config_value_faithful E"
    and "snd (apply_config E a r) \<in> {Inr Applied, Inr Historical, Inr Forked}"
    and "is_owner_managed a"
    and "dec_config E (rec_body r) = Some c" "sc_previous_config_id c = Some p" "config a p = Inr parent"
    and "managers parent \<noteq> managers c \<or> find_member (ge_issuer_identity (au_body a)) (sc_members parent)
       \<noteq> find_member (ge_issuer_identity (au_body a)) (sc_members c)"
  shows "sc_controller_credential_id c \<in> set (sc_owner_credential_ids parent)
    \<and> (\<exists>signer. credential a (sc_controller_credential_id c) = Inr signer
         \<and> identity signer = ge_issuer_identity (au_body a)
         \<and> (case witness_pin a of
              None \<Rightarrow> verify_signature E r (vc_key signer) = Inr ()
            | Some pin \<Rightarrow>
                (\<exists>text srec. sc_witness_evidence c = Some (OwnerProposal text) \<and> witness_decode E text = Inr srec
                   \<and> dec_config E (rec_body srec) = Some (c\<lparr>sc_witness_evidence := None\<rparr>)
                   \<and> verify_signature E srec (vc_key signer) = Inr ())
                \<and> (\<exists>pk. pin_key E pin = Inr pk \<and> verify_signature E r pk = Inr ())))"
proof -
  obtain c' where c': "check_config E a r = Inr (Some c')" using applied_checked [OF assms(2)] by blast
  note cc = check_config_Some [OF c']
  have [simp]: "c' = c" using cc(1) assms(4) by simp
  have later: "sc_sequence c > 1"
    using validate_config_header(1,6) [OF cc(3)] assms(5) by auto
  note tr = transition_owner_managed [OF _ assms(3,5,6) later]
  from tr(1) cc(5) have "primary_protected a parent c = Inr ()" by simp
  from primary_protected_Inr [OF this assms(3,7)] obtain signer where
    s: "sc_controller_credential_id c \<in> set (sc_owner_credential_ids parent)"
      "credential a (sc_controller_credential_id c) = Inr signer" "identity signer = ge_issuer_identity (au_body a)" by blast
  show ?thesis
  proof (cases "witness_pin a")
    case None
    with cc(2) s show ?thesis by (simp add: config_signature_def bindr_eq_Inr del: verify_signature_iff)
  next
    case (Some pin)
    then have valid: "validate_witness_transition E a c = Inr ()" using tr(3) cc(5) by simp
    from valid assms(5) have "\<exists>text srec. sc_witness_evidence c = Some (OwnerProposal text) \<and> witness_decode E text = Inr srec
        \<and> dec_config E (rec_body srec) = Some (c\<lparr>sc_witness_evidence := None\<rparr>)
        \<and> verify_signature E srec (vc_key signer) = Inr ()"
    proof (cases rule: witness_transition_cases)
      case (proposed encoded srec proposed signer')
      with s(2) show ?thesis by (simp add: same_config_eq [OF assms(1)] del: verify_signature_iff)
    next
      case (admitted ev expected adm)
      have "head (a\<lparr>au_head := Some p\<rparr>) = Inr parent"
        using assms(6) config_cong [of "a\<lparr>au_head := Some p\<rparr>" a] by (simp add: head_def)
      moreover from admitted(2,4) have "finish_witness_admission E (a\<lparr>au_head := Some p\<rparr>) adm = Inr c"
        by (simp add: same_config_eq [OF assms(1)])
      moreover have v: "validate_config E a c = Inr ()" using cc(3) by simp
      moreover from creator_member [OF v assms(3)] obtain m where "m \<in> set (sc_members c)"
        "me_identity_id m = ge_issuer_identity (au_body a)" "Manage \<in> set (me_capabilities m)" by blast
      ultimately have "managers c = managers parent
          \<and> find_member (ge_issuer_identity (au_body a)) (sc_members c) = find_member (ge_issuer_identity (au_body a)) (sc_members parent)"
        using admission_keeps_managers validate_config_header(10) by blast
      with assms(7) show ?thesis by simp
    qed
    moreover have "\<exists>pk. pin_key E pin = Inr pk \<and> verify_signature E r pk = Inr ()"
      using cc(2) Some later by (simp add: config_signature_def bindr_eq_Inr)
    ultimately show ?thesis using s Some by (simp del: verify_signature_iff)
  qed
qed

text \<open>
  C24: what a witness alone can do. In a space with a witness, a configuration after the first
  carries the witness signature, and unless it embeds an owner's signed proposal its own evidence
  admits one device: an owner device of the preceding configuration signed the invitation, the
  device and the invitation's key both signed one intent that names that invitation and that
  device, and the invitation's uses among the earlier configurations are below its limit. The
  configuration adds exactly that device, with permission to read and post only, keeps every
  owner device, the controller and every other member, and neither the device's identifier nor
  its keys occur in any earlier configuration of the chain.
\<close>

theorem witness_admits_one_device:
  assumes "config_value_faithful E"
    and "snd (apply_config E a r) \<in> {Inr Applied, Inr Historical, Inr Forked}"
    and "is_owner_managed a" "witness_pin a = Some pin"
    and "dec_config E (rec_body r) = Some c" "sc_sequence c > 1"
    and "\<And>proposal. sc_witness_evidence c \<noteq> Some (OwnerProposal proposal)"
  shows "(\<exists>pk. pin_key E pin = Inr pk \<and> verify_signature E r pk = Inr ())
    \<and> (\<exists>p parent ev policy_record policy candidate anc. sc_previous_config_id c = Some p \<and> config a p = Inr parent
        \<and> sc_witness_evidence c = Some ev
        \<and> admitted_by E (a\<lparr>au_head := Some p\<rparr>) ev policy_record policy candidate
        \<and> adds_one_device E candidate parent c
        \<and> witness_ancestry (a\<lparr>au_head := Some p\<rparr>) = Inr anc
        \<and> policy_uses E (record_id E policy_record) anc < wip_max_uses policy
        \<and> (\<forall>e \<in> set anc. \<forall>i \<in> set (devices (snd e)). \<exists>old. credential a i = Inr old
             \<and> i \<noteq> credential_id E candidate \<and> vc_key old \<noteq> vc_key candidate \<and> recipient old \<noteq> recipient candidate))"
proof -
  obtain c' where c': "check_config E a r = Inr (Some c')" using applied_checked [OF assms(2)] by blast
  note cc = check_config_Some [OF c']
  have [simp]: "c' = c" using cc(1) assms(5) by simp
  from c' assms(6) obtain p parent where p: "sc_previous_config_id c = Some p" "config a p = Inr parent"
    by (auto elim: transition_parent)
  let ?prior = "a\<lparr>au_head := Some p\<rparr>"
  have hd: "head ?prior = Inr parent"
    using p config_cong [of ?prior a] by (simp add: head_def)
  have "validate_witness_transition E a c = Inr ()"
    using transition_owner_managed(3) [OF _ assms(3) p assms(6)] cc(5) assms(4) by simp
  from this p(1) obtain ev adm where ev: "sc_witness_evidence c = Some ev" "admission_of E ?prior ev adm"
    "finish_witness_admission E ?prior adm = Inr c"
    by (cases rule: witness_transition_cases) (use assms(7) in \<open>auto simp: same_config_eq [OF assms(1)]\<close>)
  from ev(2) obtain policy_record where pol: "va_policy_id adm = record_id E policy_record"
    "admitted_by E ?prior ev policy_record (va_policy adm) (va_candidate adm)" by (auto simp: admission_of_def)
  have cred: "credential ?prior i = credential a i" for i by (simp add: credential_def)
  from admission_adds_one_device [OF ev(3)] hd obtain anc where
    "witness_ancestry ?prior = Inr anc" "adds_one_device E (va_candidate adm) parent c"
    "policy_uses E (va_policy_id adm) anc < wip_max_uses (va_policy adm)"
    "\<forall>e \<in> set anc. \<forall>i \<in> set (devices (snd e)). device_conflicts E ?prior (va_candidate adm) i = Inr ()"
    by auto
  moreover have "\<exists>pk. pin_key E pin = Inr pk \<and> verify_signature E r pk = Inr ()"
    using cc(2) assms(4,6) by (simp add: config_signature_def bindr_eq_Inr)
  ultimately show ?thesis
    using ev(1) p pol(2) unfolding device_conflicts_Inr cred pol(1) by blast
qed

subsection \<open>Replacing a lost controller\<close>

lemma controller_root_Inr:
  "controller_root E initial = Inr root \<longleftrightarrow>
   root_public_key_json initial = String (encode_hex root) \<and> length root = 32 \<and> ed_key_valid E root"
proof -
  have "as_str j = Some s \<longleftrightarrow> j = String s" for j s by (cases j) auto
  then show ?thesis
    by (auto simp: controller_root_def bindr_eq_Inr ok_or_eq_Inr hex_iff verifying_key_eq_Inr)
qed

lemma validate_recovery_Inr:
  assumes "validate_recovery E a c (Some parent) prior r = Inr u"
  obtains b chain initial root fresh where
    "dec_recovery E (rec_body r) = Some b" "initial_controller a = Inr initial"
    "controller_root E initial = Inr root" "verify_signature E r root = Inr ()"
    "credential a (sc_controller_credential_id c) = Inr fresh"
    "cr_sequence b \<le> 64" "cr_previous_controller_credential_id b = prior"
    "cr_controller_credential_id b = credential_id E fresh" "credential_id E fresh \<noteq> prior"
    "identity fresh = identity initial"
    "sc_members c = replace_devices (identity initial) (credential_id E fresh) (sc_members parent)"
    "chain_at E a (sc_previous_config_id c) = Inr chain" "cr_sequence b = length chain + 1"
proof -
  show thesis
    using assms
    unfolding validate_recovery_def Let_def ok_or_simps bindr_Inr
    unfolding bindr_eq_Inr guard_eq_Inr decode_with_iff de_Morgan_disj not_not not_less ex_unit_iff
    by (elim exE conjE, intro that) assumption+
qed

text \<open>
  In a space with a single controller, the controller changes only through a certificate
  signed by the root key of the initial controller. The certificate names the controller it
  replaces and the new one, the new device belongs to the same identity, and the members of
  the new configuration are those of its parent with only the owner's devices replaced by the
  new one.
\<close>

lemma controller_change_needs_root:
  assumes "snd (apply_config E a r) \<in> {Inr Applied, Inr Historical, Inr Forked}"
    and "\<not> is_owner_managed a" "witness_pin a = None"
    and "dec_config E (rec_body r) = Some c" "sc_previous_config_id c = Some p" "config a p = Inr parent"
    and "sc_controller_credential_id c \<noteq> sc_controller_credential_id parent"
  shows "\<exists>cert b initial root fresh. embedded E c = Inr (Some cert)
    \<and> dec_recovery E (rec_body cert) = Some b
    \<and> initial_controller a = Inr initial \<and> root_public_key_json initial = String (encode_hex root)
    \<and> verify_signature E cert root = Inr ()
    \<and> cr_previous_controller_credential_id b = sc_controller_credential_id parent
    \<and> credential a (sc_controller_credential_id c) = Inr fresh
    \<and> cr_controller_credential_id b = credential_id E fresh \<and> identity fresh = identity initial
    \<and> sc_members c = replace_devices (identity initial) (credential_id E fresh) (sc_members parent)"
proof -
  obtain c' where c': "check_config E a r = Inr (Some c')" using applied_checked [OF assms(1)] by blast
  note cc = check_config_Some [OF c']
  have "c' = c" using cc(1) assms(4) by simp
  then have "validate_controller_transition E a c = Inr ()" using cc(5) by simp
  then obtain cert where cert: "embedded E c = Inr (Some cert)"
    "validate_recovery E a c (Some parent) (sc_controller_credential_id parent) cert = Inr ()"
    using assms(2,3,5,6,7)
    by (auto simp: validate_controller_transition_def bindr_eq_Inr Let_def guard_eq_Inr split: option.splits if_splits)
  from cert(2) show ?thesis
    by (rule validate_recovery_Inr) (use cert(1) in \<open>auto simp: controller_root_Inr simp del: verify_signature_iff\<close>)
qed

text \<open>An exported chain of certificates, as a specification.\<close>

fun export_chain ::
  "('z authority_ext_scheme) \<Rightarrow> SpaceId \<Rightarrow> bytes \<Rightarrow> RecordId option \<Rightarrow> RecordId \<Rightarrow> nat \<Rightarrow> SignedRecord list \<Rightarrow>
   RecordId \<Rightarrow> bool" where
  "export_chain E sp root previous from' n [] to' \<longleftrightarrow> from' = to'"
| "export_chain E sp root previous from' n (r # rs) to' \<longleftrightarrow>
     (\<exists>b. verify_signature E r root = Inr () \<and> dec_recovery E (rec_body r) = Some b
        \<and> cr_space_id b = sp \<and> cr_sequence b = n + 1
        \<and> cr_previous_recovery_id b = previous \<and> cr_previous_controller_credential_id b = from'
        \<and> export_chain E sp root (Some (record_id E r)) (cr_controller_credential_id b) (n + 1) rs to')"

lemma verify_export_chain:
  "verify_export E a root n (previous, from', seen) rs = Inr to' \<Longrightarrow>
   export_chain E (space E a) root previous from' n rs to'"
proof (induction rs arbitrary: n previous from' seen)
  case (Cons r rs)
  then obtain b where "verify_signature E r root = Inr ()" "dec_recovery E (rec_body r) = Some b"
    "cr_space_id b = space E a" "cr_sequence b = n + 1" "cr_previous_recovery_id b = previous"
    "cr_previous_controller_credential_id b = from'"
    "verify_export E a root (n + 1) (Some (record_id E r), cr_controller_credential_id b,
       bs_insert (cr_controller_credential_id b) seen) rs = Inr to'"
    by (auto simp: bindr_eq_Inr guard_eq_Inr decode_with_iff simp del: verify_signature_iff)
  with Cons.IH show ?case by auto
qed simp

text \<open>
  An accepted controller export is a complete chain of at most 64 root-signed certificates
  from the space's initial controller to the presented device, numbered from one, each naming
  the digest of its predecessor.
\<close>

lemma controller_export_chain:
  assumes "verify_controller_export E a chain current = Inr ()"
  shows "\<exists>initial root. initial_controller a = Inr initial
    \<and> root_public_key_json initial = String (encode_hex root)
    \<and> length chain \<le> 64 \<and> identity current = identity initial
    \<and> export_chain E (space E a) root None (credential_id E initial) 0 chain (credential_id E current)"
proof -
  from assms obtain initial root where "initial_controller a = Inr initial"
    "controller_root E initial = Inr root" "length chain \<le> 64" "identity current = identity initial"
    "verify_export E a root 0 (None, credential_id E initial, [credential_id E initial]) chain
       = Inr (credential_id E current)"
    by (auto simp: verify_controller_export_def bindr_eq_Inr guard_eq_Inr not_less)
  then show ?thesis using verify_export_chain by (metis controller_root_Inr)
qed

end
