(* ===== verification/Authority_Admission.thy ===== *)
theory Authority_Admission
  imports Authority_Transition
begin

text \<open>
  The part of \<^verbatim>\<open>crates/elo-core/src/authority.rs\<close> that decides whether a chat record counts:
  the exact audience a message must name, the historical check, the admission decision and the
  preparation of an outgoing message. The wall clock the source reads is an argument.
\<close>

definition has :: "Authority \<Rightarrow> RecordId \<Rightarrow> IdentityId \<Rightarrow> Capability \<Rightarrow> bool" where
  "has a conf ident cap \<longleftrightarrow>
     (case config a conf of
        Inl _ \<Rightarrow> False
      | Inr c \<Rightarrow> list_ex (\<lambda>m. me_identity_id m = ident \<and> cap \<in> set (me_capabilities m)) (sc_members c))"

definition expected_recipients ::
  "('z authority_ext_scheme) \<Rightarrow> Authority \<Rightarrow> RecordId \<Rightarrow> RecordId \<Rightarrow> RecordError + IdentityId list \<times> RecordId list" where
  "expected_recipients E a conf author_id =
     bindr (config a conf) (\<lambda>c.
     bindr (credential a author_id) (\<lambda>author.
     if \<not> list_ex (\<lambda>m. me_identity_id m = identity author
            \<and> credential_id E author \<in> set (me_credential_ids m)) (sc_members c)
     then Inl Authority_err
     else
     let readers = map me_identity_id (filter (\<lambda>m. Read \<in> set (me_capabilities m)) (sc_members c));
         recipients = fold (\<lambda>m s. if me_identity_id m \<in> set readers
            then bs_extend (me_credential_ids m) s else s) (sc_members c) [] in
     Inr (readers, bs_insert (credential_id E author) recipients)))"

definition direct_human_peer :: "Authority \<Rightarrow> ChatMessage \<Rightarrow> IdentityId option" where
  "direct_human_peer a m =
     (case config a (cm_config_id m) of
        Inl _ \<Rightarrow> None
      | Inr c \<Rightarrow>
          if sc_chat_kind c \<noteq> Some ChatKind_Direct \<or> length (cm_audience m) \<noteq> 2 then None
          else
          let humans = map me_identity_id (filter (\<lambda>x. me_identity_type x = ''HUMAN''
                 \<and> Read \<in> set (me_capabilities x)) (sc_members c)) in
          if length humans = 2 \<and> list_all (\<lambda>i. i \<in> set (cm_audience m)) humans
          then List.find (\<lambda>i. i \<noteq> cm_issuer_identity m) humans
          else None)"

definition verify_historical ::
  "('z authority_ext_scheme) \<Rightarrow> nat option \<Rightarrow> Authority \<Rightarrow> SignedRecord \<Rightarrow> RecordError + ChatMessage" where
  "verify_historical E clock a r =
     bindr (chat E r) (\<lambda>m.
     if (case cm_access m of None \<Rightarrow> False | Some access \<Rightarrow> ma_accept_secret access \<noteq> None)
        \<and> direct_human_peer a m = None
     then Inl Authority_err
     else if \<not> current_message_time_is_valid clock (cm_logical_time m) then Inl Authority_err
     else if cm_space_id m \<noteq> space E a \<or> cm_stream_id m \<noteq> au_stream a then Inl Authority_err
     else
     bindr (credential a (cm_issuer_credential m)) (\<lambda>c.
     bindr (verify_chat E c r) (\<lambda>_.
     bindr (expected_recipients E a (cm_config_id m) (cm_issuer_credential m)) (\<lambda>(audience, recipients).
     if \<not> has a (cm_config_id m) (cm_issuer_identity m) Post
        \<or> cm_audience m \<noteq> audience
        \<or> cm_recipient_credentials m \<noteq> recipients
     then Inl Authority_err
     else Inr m))))"

definition admission ::
  "('z authority_ext_scheme) \<Rightarrow> nat option \<Rightarrow> Authority \<Rightarrow> SignedRecord \<Rightarrow> RecordId \<Rightarrow> bool \<Rightarrow>
   RecordError + Admission" where
  "admission E clock a r recipient' already_accepted =
     bindr (chat E r) (\<lambda>m.
     if cm_space_id m \<noteq> space E a \<or> cm_stream_id m \<noteq> au_stream a then Inl Authority_err
     else if \<not> bt_contains (au_configs a) (cm_config_id m) then Inr Admission_WaitingForProof
     else
     bindr (verify_historical E clock a r) (\<lambda>_.
     if recipient' \<notin> set (cm_recipient_credentials m) then Inl Authority_err
     else if already_accepted then Inr Accepted
     else if au_forked a then Inr Admission_Forked
     else if Some (cm_config_id m) \<noteq> au_head a then Inr QuarantinedStale
     else Inr Accepted))"

text \<open>\<^verbatim>\<open>ChatAuthority::verify\<close>; a verified chat is the record with its decoded message.\<close>

definition Authority_verify ::
  "('z authority_ext_scheme) \<Rightarrow> nat option \<Rightarrow> Authority \<Rightarrow> SignedRecord \<Rightarrow> RecordId \<Rightarrow>
   RecordError + SignedRecord \<times> ChatMessage" where
  "Authority_verify E clock a r recipient' =
     bindr (admission E clock a r recipient' False) (\<lambda>outcome.
     if outcome \<noteq> Accepted then Inl Authority_err
     else bindr (chat E r) (\<lambda>m. Inr (r, m)))"

definition prepare_chat ::
  "('z authority_ext_scheme) \<Rightarrow> nat option \<Rightarrow> Authority \<Rightarrow> ChatMessage \<Rightarrow> bytes \<Rightarrow> RecordError + SignedRecord" where
  "prepare_chat E clock a m key =
     (if au_forked a then Inl Authority_err
      else
      bindr (ok_or (au_head a) Authority_err) (\<lambda>id'.
      bindr (credential a (cm_issuer_credential m)) (\<lambda>own.
      if vc_key own \<noteq> ed_public E key then Inl Authority_err
      else
      bindr (expected_recipients E a id' (credential_id E own)) (\<lambda>(audience, recipients).
      bindr (ChatMessage_sign E
        (m\<lparr>cm_space_id := space E a, cm_stream_id := au_stream a, cm_config_id := id',
           cm_issuer_identity := identity own, cm_audience := audience,
           cm_recipient_credentials := recipients\<rparr>) key) (\<lambda>r.
      bindr (Authority_verify E clock a r (credential_id E own)) (\<lambda>_. Inr r))))))"

subsection \<open>The exact audience\<close>

lemma fold_extend:
  "set (fold (\<lambda>m s. if P m then bs_extend (g m) s else s) ms s) = set s \<union> (\<Union>m \<in> {m \<in> set ms. P m}. set (g m))"
  by (induction ms arbitrary: s) auto

lemma fold_extend_sorted:
  "sorted_wrt (<) s \<Longrightarrow> sorted_wrt (<) (fold (\<lambda>m s. if P m then bs_extend (g m) s else s) ms s)"
  by (induction ms arbitrary: s) auto

lemma expected_recipients_Inr:
  assumes "expected_recipients E a conf author_id = Inr (audience, recipients)"
  shows "\<exists>c author. config a conf = Inr c \<and> credential a author_id = Inr author
    \<and> (\<exists>m \<in> set (sc_members c). me_identity_id m = identity author
         \<and> credential_id E author \<in> set (me_credential_ids m))
    \<and> audience = map me_identity_id (filter (\<lambda>m. Read \<in> set (me_capabilities m)) (sc_members c))
    \<and> sorted_wrt (<) recipients
    \<and> set recipients = insert (credential_id E author)
         (\<Union>m \<in> {m \<in> set (sc_members c). me_identity_id m \<in> set audience}. set (me_credential_ids m))"
proof -
  from assms obtain c author where c: "config a conf = Inr c" "credential a author_id = Inr author"
    "list_ex (\<lambda>m. me_identity_id m = identity author
            \<and> credential_id E author \<in> set (me_credential_ids m)) (sc_members c)"
    "audience = map me_identity_id (filter (\<lambda>m. Read \<in> set (me_capabilities m)) (sc_members c))"
    "recipients = bs_insert (credential_id E author) (fold (\<lambda>m s. if me_identity_id m \<in> set audience
        then bs_extend (me_credential_ids m) s else s) (sc_members c) [])"
    unfolding expected_recipients_def Let_def bindr_eq_Inr guard_eq_Inr by auto
  then show ?thesis
    by (intro exI [of _ c] exI [of _ author])
      (auto simp: c(5) fold_extend fold_extend_sorted list_ex_iff simp del: c(4))
qed

lemma reader_devices:
  assumes "distinct (map me_identity_id ms)"
  shows "(\<Union>m \<in> {m \<in> set ms. me_identity_id m \<in> set (map me_identity_id (filter P ms))}. set (me_credential_ids m))
    = (\<Union>m \<in> {m \<in> set ms. P m}. set (me_credential_ids m))"
proof -
  have "inj_on me_identity_id (set ms)" using assms by (simp add: distinct_map)
  then have "{m \<in> set ms. me_identity_id m \<in> set (map me_identity_id (filter P ms))} = {m \<in> set ms. P m}"
    by (auto dest: inj_onD)
  then show ?thesis by simp
qed

text \<open>
  The audience of a message is exact. In a well-formed authority the expected audience is
  the set of identities that may read under the configuration, and the expected recipient
  devices are all devices of those identities plus the author's own device, which must be
  listed in the configuration.
\<close>

lemma audience_exact:
  assumes "authority_ok E a" "expected_recipients E a conf author_id = Inr (audience, recipients)"
  shows "\<exists>c author. config a conf = Inr c \<and> credential a author_id = Inr author
    \<and> credential_id E author \<in> set (devices c)
    \<and> set audience = {me_identity_id m | m. m \<in> set (sc_members c) \<and> Read \<in> set (me_capabilities m)}
    \<and> set recipients = insert (credential_id E author)
        {i. \<exists>m \<in> set (sc_members c). Read \<in> set (me_capabilities m) \<and> i \<in> set (me_credential_ids m)}
    \<and> sorted_wrt (<) audience \<and> sorted_wrt (<) recipients"
proof -
  from expected_recipients_Inr [OF assms(2)] obtain c author where
    c: "config a conf = Inr c" "credential a author_id = Inr author"
      "\<exists>m \<in> set (sc_members c). me_identity_id m = identity author
         \<and> credential_id E author \<in> set (me_credential_ids m)"
      "audience = map me_identity_id (filter (\<lambda>m. Read \<in> set (me_capabilities m)) (sc_members c))"
      "sorted_wrt (<) recipients"
      "set recipients = insert (credential_id E author)
         (\<Union>m \<in> {m \<in> set (sc_members c). me_identity_id m \<in> set audience}. set (me_credential_ids m))"
    by blast
  obtain r where "bt_get (au_configs a) conf = Some (r, c)" using c(1) by (auto simp: config_iff)
  then have srt: "sorted_wrt (<) (map me_identity_id (sc_members c))" by (rule config_entry(5) [OF assms(1)])
  have "set recipients = insert (credential_id E author)
      (\<Union>m \<in> {m \<in> set (sc_members c). Read \<in> set (me_capabilities m)}. set (me_credential_ids m))"
    using c(6) reader_devices [OF sorted_wrt_less_distinct [OF srt]] unfolding c(4) by simp
  moreover have "sorted_wrt (<) audience"
    using srt unfolding c(4) sorted_wrt_map by (rule sorted_wrt_filter)
  moreover have "credential_id E author \<in> set (devices c)" using c(3) by auto
  ultimately show ?thesis using c(1,2,5) by (intro exI [of _ c] exI [of _ author]) (auto simp: c(4))
qed

subsection \<open>Accepting a message\<close>

lemma verify_chat_Inr [authority_simps]:
  "verify_chat E c r = Inr m \<longleftrightarrow> chat E r = Inr m \<and> cm_issuer_credential m = credential_id E c
     \<and> cm_issuer_identity m = identity c \<and> verify_signature E r (vc_key c) = Inr ()"
  by (auto simp: verify_chat_def bindr_eq_Inr guard_eq_Inr simp del: verify_signature_iff)

lemma verify_historical_Inr:
  assumes "verify_historical E clock a r = Inr m"
  obtains c where "chat E r = Inr m" "cm_space_id m = space E a" "cm_stream_id m = au_stream a"
    "current_message_time_is_valid clock (cm_logical_time m)"
    "credential a (cm_issuer_credential m) = Inr c" "verify_chat E c r = Inr m"
    "expected_recipients E a (cm_config_id m) (cm_issuer_credential m)
       = Inr (cm_audience m, cm_recipient_credentials m)"
    "has a (cm_config_id m) (cm_issuer_identity m) Post"
proof -
  from assms obtain m' c m'' au rc where *: "chat E r = Inr m'"
    "credential a (cm_issuer_credential m') = Inr c" "verify_chat E c r = Inr m''"
    "expected_recipients E a (cm_config_id m') (cm_issuer_credential m') = Inr (au, rc)"
    "\<not> (cm_space_id m' \<noteq> space E a \<or> cm_stream_id m' \<noteq> au_stream a)"
    "current_message_time_is_valid clock (cm_logical_time m')"
    "\<not> (\<not> has a (cm_config_id m') (cm_issuer_identity m') Post
        \<or> cm_audience m' \<noteq> au \<or> cm_recipient_credentials m' \<noteq> rc)" "m = m'"
    unfolding verify_historical_def bindr_eq_Inr guard_eq_Inr split_beta
    by (metis (no_types, lifting) Inr_inject prod.collapse)
  then have "m'' = m'" by (simp add: verify_chat_Inr)
  with * show thesis by (intro that [of c]) simp_all
qed

lemma admission_Inr:
  assumes "admission E clock a r rcp known = Inr outcome" "outcome \<noteq> Admission_WaitingForProof"
  obtains m where "chat E r = Inr m" "verify_historical E clock a r = Inr m"
    "rcp \<in> set (cm_recipient_credentials m)" "bt_contains (au_configs a) (cm_config_id m)"
    "outcome = (if known then Accepted else if au_forked a then Admission_Forked
       else if Some (cm_config_id m) \<noteq> au_head a then QuarantinedStale else Accepted)"
proof -
  from assms obtain m m' where *: "chat E r = Inr m" "verify_historical E clock a r = Inr m'"
    "bt_contains (au_configs a) (cm_config_id m)" "rcp \<in> set (cm_recipient_credentials m)"
    "outcome = (if known then Accepted else if au_forked a then Admission_Forked
       else if Some (cm_config_id m) \<noteq> au_head a then QuarantinedStale else Accepted)"
    by (auto simp: admission_def bindr_eq_Inr split: if_splits)
  then have "m' = m" by (auto elim: verify_historical_Inr)
  with * show thesis by (intro that) simp_all
qed

text \<open>The exact audience as a characterisation: the author's device is listed, and both lists are determined.\<close>

definition addressed_to :: "StreamConfig \<Rightarrow> RecordId \<Rightarrow> IdentityId list \<Rightarrow> RecordId list \<Rightarrow> bool" where
  "addressed_to c author audience recipients \<longleftrightarrow>
     sorted_wrt (<) audience \<and> sorted_wrt (<) recipients
     \<and> set audience = {me_identity_id m | m. m \<in> set (sc_members c) \<and> Read \<in> set (me_capabilities m)}
     \<and> set recipients = insert author
         {i. \<exists>m \<in> set (sc_members c). Read \<in> set (me_capabilities m) \<and> i \<in> set (me_credential_ids m)}"

lemma addressed_to_unique:
  "addressed_to c author au rc \<Longrightarrow> addressed_to c author au' rc' \<Longrightarrow> au = au' \<and> rc = rc'"
  by (auto simp: addressed_to_def intro: sorted_wrt_less_unique)

lemma credential_own_id: "authority_ok E a \<Longrightarrow> credential a i = Inr c \<Longrightarrow> credential_id E c = i"
  using authority_okD(7) [of E a "(i, c)"] bt_get_in [of "au_credentials a" i c] by (simp add: credential_iff)

lemma expected_recipients_iff:
  assumes ok: "authority_ok E a" and c: "config a conf = Inr c" "credential a author = Inr own"
  shows "expected_recipients E a conf author = Inr (audience, recipients) \<longleftrightarrow>
     (\<exists>m \<in> set (sc_members c). me_identity_id m = identity own \<and> author \<in> set (me_credential_ids m))
     \<and> addressed_to c author audience recipients"
    (is "?L \<longleftrightarrow> ?member \<and> ?exact")
proof
  have id: "credential_id E own = author" by (rule credential_own_id [OF ok c(2)])
  assume ?L
  from expected_recipients_Inr [OF this] c id have ?member by auto
  moreover from audience_exact [OF ok \<open>?L\<close>] c id have ?exact by (auto simp: addressed_to_def)
  ultimately show "?member \<and> ?exact" ..
next
  have id: "credential_id E own = author" by (rule credential_own_id [OF ok c(2)])
  assume *: "?member \<and> ?exact"
  then obtain au rc where e: "expected_recipients E a conf author = Inr (au, rc)"
    by (auto simp: expected_recipients_def c id list_ex_iff)
  from audience_exact [OF ok e] c id have "addressed_to c author au rc" by (auto simp: addressed_to_def)
  with * e addressed_to_unique show ?L by blast
qed

lemma has_Post_iff:
  assumes "authority_ok E a" "config a conf = Inr c" "m \<in> set (sc_members c)" "me_identity_id m = ident"
  shows "has a conf ident cap \<longleftrightarrow> cap \<in> set (me_capabilities m)"
proof -
  obtain r where "bt_get (au_configs a) conf = Some (r, c)" using assms(2) by (auto simp: config_iff)
  then have "distinct (map me_identity_id (sc_members c))"
    using config_entry(5) [OF assms(1)] sorted_wrt_less_distinct by blast
  then have "inj_on me_identity_id (set (sc_members c))" by (simp add: distinct_map)
  with assms(2-4) show ?thesis by (auto simp: has_def list_ex_iff dest: inj_onD)
qed

text \<open>Only a message to exactly one other person may carry the secret that lets its reader accept it.\<close>

definition secret_allowed :: "Authority \<Rightarrow> ChatMessage \<Rightarrow> bool" where
  "secret_allowed a m \<longleftrightarrow>
     (\<forall>access. cm_access m = Some access \<and> ma_accept_secret access \<noteq> None \<longrightarrow> direct_human_peer a m \<noteq> None)"

lemma verify_historical_iff:
  assumes ok: "authority_ok E a"
  shows "verify_historical E clock a r = Inr m \<longleftrightarrow>
     chat E r = Inr m \<and> secret_allowed a m \<and> current_message_time_is_valid clock (cm_logical_time m)
     \<and> cm_space_id m = space E a \<and> cm_stream_id m = au_stream a
     \<and> (\<exists>own c member. credential a (cm_issuer_credential m) = Inr own \<and> identity own = cm_issuer_identity m
          \<and> verify_signature E r (vc_key own) = Inr ()
          \<and> config a (cm_config_id m) = Inr c \<and> member \<in> set (sc_members c)
          \<and> me_identity_id member = cm_issuer_identity m \<and> cm_issuer_credential m \<in> set (me_credential_ids member)
          \<and> Post \<in> set (me_capabilities member)
          \<and> addressed_to c (cm_issuer_credential m) (cm_audience m) (cm_recipient_credentials m))"
    (is "?L \<longleftrightarrow> ?R")
proof
  assume L: ?L
  then obtain own where own: "chat E r = Inr m" "cm_space_id m = space E a" "cm_stream_id m = au_stream a"
    "current_message_time_is_valid clock (cm_logical_time m)" "credential a (cm_issuer_credential m) = Inr own"
    "verify_chat E own r = Inr m" "has a (cm_config_id m) (cm_issuer_identity m) Post"
    "expected_recipients E a (cm_config_id m) (cm_issuer_credential m) = Inr (cm_audience m, cm_recipient_credentials m)"
    by (rule verify_historical_Inr)
  from own(8) obtain c where c: "config a (cm_config_id m) = Inr c" by (auto simp: expected_recipients_def bindr_eq_Inr)
  from own(6) have i: "identity own = cm_issuer_identity m" "verify_signature E r (vc_key own) = Inr ()"
    by (simp_all add: verify_chat_Inr del: verify_signature_iff)
  from own(8) obtain member where "member \<in> set (sc_members c)" "me_identity_id member = cm_issuer_identity m"
    "cm_issuer_credential m \<in> set (me_credential_ids member)"
    and "addressed_to c (cm_issuer_credential m) (cm_audience m) (cm_recipient_credentials m)"
    unfolding expected_recipients_iff [OF ok c own(5)] i(1) by blast
  moreover from this own(7) has_Post_iff [OF ok c] have "Post \<in> set (me_capabilities member)" by blast
  moreover from L own(1) have "secret_allowed a m"
    by (auto simp: verify_historical_def secret_allowed_def split: if_splits option.splits)
  ultimately show ?R using own i c by blast
next
  assume ?R
  then obtain own c member where m: "chat E r = Inr m" "secret_allowed a m"
    "current_message_time_is_valid clock (cm_logical_time m)" "cm_space_id m = space E a" "cm_stream_id m = au_stream a"
    and o: "credential a (cm_issuer_credential m) = Inr own" "identity own = cm_issuer_identity m"
      "verify_signature E r (vc_key own) = Inr ()"
    and c: "config a (cm_config_id m) = Inr c" "member \<in> set (sc_members c)" "me_identity_id member = cm_issuer_identity m"
      "cm_issuer_credential m \<in> set (me_credential_ids member)" "Post \<in> set (me_capabilities member)"
      "addressed_to c (cm_issuer_credential m) (cm_audience m) (cm_recipient_credentials m)" by blast
  have e: "expected_recipients E a (cm_config_id m) (cm_issuer_credential m) = Inr (cm_audience m, cm_recipient_credentials m)"
    unfolding expected_recipients_iff [OF ok c(1) o(1)] using c o(2) by auto
  have v: "verify_chat E own r = Inr m"
    using m(1) o credential_own_id [OF ok o(1)] by (simp add: verify_chat_Inr del: verify_signature_iff)
  have h: "has a (cm_config_id m) (cm_issuer_identity m) Post" using has_Post_iff [OF ok c(1-3)] c(5) by blast
  show ?L using m o(1) e v h by (auto simp: verify_historical_def secret_allowed_def split: option.splits)
qed

text \<open>
  C28: which messages count. In every authority that records built up, a new message is accepted
  for a device exactly when the space is not forked and the message names its current
  configuration, its space and its stream; the device it names as its author is listed there
  under the author's identity, which may post, and signed it; its audience is exactly the
  identities that may read and its recipients exactly their devices and the author's own, in
  order; the receiving device is one of them; its time is acceptable; and it carries an accept
  secret only in a conversation of two people.
\<close>

theorem admission_accepted:
  assumes "Authority_new E genesis pinned root ctl strm = Inr a0" "a = run_steps (authority_step E) a0 inputs"
  shows "admission E clock a r rcp False = Inr Accepted \<longleftrightarrow>
    (\<exists>m own h member. chat E r = Inr m \<and> \<not> au_forked a \<and> au_head a = Some (cm_config_id m) \<and> head a = Inr h
       \<and> cm_space_id m = space E a \<and> cm_stream_id m = au_stream a
       \<and> credential a (cm_issuer_credential m) = Inr own \<and> identity own = cm_issuer_identity m
       \<and> verify_signature E r (vc_key own) = Inr ()
       \<and> member \<in> set (sc_members h) \<and> me_identity_id member = cm_issuer_identity m
       \<and> cm_issuer_credential m \<in> set (me_credential_ids member) \<and> Post \<in> set (me_capabilities member)
       \<and> addressed_to h (cm_issuer_credential m) (cm_audience m) (cm_recipient_credentials m)
       \<and> rcp \<in> set (cm_recipient_credentials m)
       \<and> current_message_time_is_valid clock (cm_logical_time m) \<and> secret_allowed a m)"
    (is "?L \<longleftrightarrow> ?R")
proof
  have ok: "authority_ok E a" using reachable_authority_ok [OF assms(1)] assms(2) by simp
  {
    assume ?L
    moreover have "Accepted \<noteq> Admission_WaitingForProof" by simp
    ultimately obtain m where m: "verify_historical E clock a r = Inr m" "rcp \<in> set (cm_recipient_credentials m)"
      "Accepted = (if False then Accepted else if au_forked a then Admission_Forked
         else if Some (cm_config_id m) \<noteq> au_head a then QuarantinedStale else Accepted)"
      by (rule admission_Inr)
    from m(3) have "\<not> au_forked a" "au_head a = Some (cm_config_id m)" by (simp_all split: if_splits)
    with m(1,2) show ?R unfolding verify_historical_iff [OF ok] head_iff by (metis (no_types, lifting))
  next
    assume ?R
    then obtain m h where m: "chat E r = Inr m" "\<not> au_forked a" "au_head a = Some (cm_config_id m)" "config a (cm_config_id m) = Inr h"
      "rcp \<in> set (cm_recipient_credentials m)" "cm_space_id m = space E a" "cm_stream_id m = au_stream a"
      and "verify_historical E clock a r = Inr m"
      unfolding verify_historical_iff [OF ok] head_iff by (metis option.inject)
    then show ?L by (auto simp: admission_def bt_contains_def config_iff)
  }
qed

subsection \<open>Accepted messages stay verifiable\<close>

lemma apply_config_credentials: "au_credentials (fst (apply_config E a r)) = au_credentials a"
proof (rule apply_config_cases [of E a r])
  fix c
  let ?b = "a\<lparr>au_configs := bt_insert (record_id E r) (r, c) (au_configs a)\<rparr>"
  assume "fst (apply_config E a r) = fst (select_controller_head E ?b)"
  moreover obtain f h where "fst (select_controller_head E ?b) = ?b\<lparr>au_forked := f, au_head := h\<rparr>"
    using select_controller_head_frame [of ?b E] unfolding head_frame_def by blast
  ultimately show ?thesis by simp
qed simp

lemma run_configs_credentials:
  "au_credentials (run_steps (authority_step E) a (map Config_in rs)) = au_credentials a"
  by (induction rs arbitrary: a) (simp_all add: apply_config_credentials)

lemma verify_historical_mono:
  assumes "authority_le a b" "au_credentials b = au_credentials a" "verify_historical E clock a r = Inr m"
  shows "verify_historical E clock b r = Inr m"
proof -
  obtain c where h: "chat E r = Inr m" "credential a (cm_issuer_credential m) = Inr c"
    "expected_recipients E a (cm_config_id m) (cm_issuer_credential m)
       = Inr (cm_audience m, cm_recipient_credentials m)"
    by (rule verify_historical_Inr [OF assms(3)])
  then obtain d where d: "config a (cm_config_id m) = Inr d"
    by (auto simp: expected_recipients_def bindr_eq_Inr)
  with assms(1) have d': "config b (cm_config_id m) = Inr d"
    by (auto simp: authority_le_def config_iff)
  have sp: "space E b = space E a" "au_stream b = au_stream a"
    using assms(1) by (simp_all add: authority_le_def space_def)
  have er: "expected_recipients E b (cm_config_id m) i = expected_recipients E a (cm_config_id m) i" for i
    using d d' credential_cong [OF assms(2)] by (simp add: expected_recipients_def)
  have hs: "has b (cm_config_id m) = has a (cm_config_id m)"
    using d d' by (simp add: has_def fun_eq_iff)
  have dh: "direct_human_peer b m = direct_human_peer a m"
    using d d' by (simp add: direct_human_peer_def)
  have "verify_historical E clock b r = verify_historical E clock a r"
    unfolding verify_historical_def h(1) bindr_Inr dh sp credential_cong [OF assms(2)] er hs ..
  with assms(3) show ?thesis by simp
qed

text \<open>
  Acceptance survives later configurations. A message accepted by a well-formed authority
  is accepted again as already known after any further configuration records were applied,
  even when they moved the head past the message's configuration or forked the space.
\<close>

lemma accepted_stays_accepted:
  assumes "authority_ok E a" "admission E clock a r rcp known = Inr Accepted"
  shows "admission E clock (run_steps (authority_step E) a (map Config_in rs)) r rcp True = Inr Accepted"
proof -
  let ?b = "run_steps (authority_step E) a (map Config_in rs)"
  have le: "authority_le a ?b" by (rule authority.run_le [OF assms(1)])
  have "Accepted \<noteq> Admission_WaitingForProof" by simp
  from assms(2) this obtain m where m: "chat E r = Inr m" "verify_historical E clock a r = Inr m"
    "rcp \<in> set (cm_recipient_credentials m)" "bt_contains (au_configs a) (cm_config_id m)"
    by (rule admission_Inr)
  have "verify_historical E clock ?b r = Inr m"
    by (rule verify_historical_mono [OF le run_configs_credentials m(2)])
  moreover from this have "cm_space_id m = space E ?b" "cm_stream_id m = au_stream ?b"
    by (auto elim: verify_historical_Inr)
  moreover have "bt_contains (au_configs ?b) (cm_config_id m)"
    using m(4) le by (auto simp: bt_contains_def authority_le_def)
  ultimately show ?thesis using m by (simp add: admission_def)
qed

text \<open>The encoding of one message: strict JSON of a supported version within the limit, which decodes to it.\<close>

definition chat_encodes :: "('z authority_ext_scheme) \<Rightarrow> ChatMessage \<Rightarrow> bool" where
  "chat_encodes E m \<longleftrightarrow>
     (\<exists>j. strict_json E (ser_chat E m) MAX_RECORD = Inr j \<and> supported_version j \<and> dec_chat E j = Some m)"

lemma ChatMessage_sign_succeeds:
  assumes "signing_correct E" "ChatMessage_validate E m = Inr ()" "chat_encodes E m"
  obtains r where "ChatMessage_sign E m key = Inr r" "chat E r = Inr m" "verify_signature E r (ed_public E key) = Inr ()"
proof -
  have max: "72 \<le> MAX_RECORD" "MAX_RECORD < 2 ^ 32" by (simp_all add: MAX_RECORD_def)
  from assms(3) obtain j where j: "strict_json E (ser_chat E m) MAX_RECORD = Inr j" "supported_version j" "dec_chat E j = Some m"
    by (auto simp: chat_encodes_def)
  have len: "length (ser_chat E m) + 72 \<le> MAX_RECORD" "length (ser_chat E m) < 2 ^ 32"
    using strict_json_length [OF j(1)] max by auto
  have sig: "length (ed_sign E key (SIGN_DOMAIN @ ser_chat E m)) = 64" using assms(1) by (simp add: signing_correct_def)
  obtain r where r: "sign_bounded E (ser_chat E m) key MAX_RECORD = Inr r"
    using parse_bounded_frame [OF sig len(2,1) j(1,2) refl] j(1) len(2) by (auto simp: sign_bounded_def Let_def)
  note p = sign_bounded_Inr [OF r assms(1)]
  have "rec_body r = j" using parse_bounded_body_bytes(2) [OF p(1)] p(2) j(1) by simp
  moreover have "length (rec_bytes r) \<le> MAX_RECORD" using p(1) by (auto elim: parse_bounded_Inr)
  moreover have "verify_signature E r (ed_public E key) = Inr ()"
    using p assms(1) by (simp add: verify_signature_def signing_correct_def)
  ultimately show thesis using assms(2) j(3) r by (intro that [of r]) (simp_all add: ChatMessage_sign_def sign_def chat_Inr)
qed

text \<open>
  C29: a member can speak, and what it says is accepted. In every authority that records built
  up, a device that is listed under its identity in the current configuration of an unforked
  space, with permission to post and with its own key, prepares any message whose completed form
  is valid, encodes and has an acceptable time: preparing it succeeds and fills in the space, the
  stream, the head, the author's identity and the exact audience and recipients, leaves the rest
  as it was, and every device among the recipients that holds the same authority accepts the
  record, at any time that makes the message acceptable.
\<close>

theorem prepared_chat_accepted:
  assumes "Authority_new E genesis pinned root ctl strm = Inr a0" "a = run_steps (authority_step E) a0 inputs"
    and "signing_correct E" "\<not> au_forked a" "au_head a = Some i" "config a i = Inr h"
    and "credential a (cm_issuer_credential m) = Inr own" "vc_key own = ed_public E key"
    and "member \<in> set (sc_members h)" "me_identity_id member = identity own"
      "cm_issuer_credential m \<in> set (me_credential_ids member)" "Post \<in> set (me_capabilities member)"
    and "addressed_to h (cm_issuer_credential m) audience recipients"
    and "m' = m\<lparr>cm_space_id := space E a, cm_stream_id := au_stream a, cm_config_id := i,
           cm_issuer_identity := identity own, cm_audience := audience, cm_recipient_credentials := recipients\<rparr>"
    and "ChatMessage_validate E m' = Inr ()" "chat_encodes E m'" "secret_allowed a m'"
      "current_message_time_is_valid clock (cm_logical_time m)"
  shows "\<exists>r. prepare_chat E clock a m key = Inr r \<and> chat E r = Inr m' \<and> verify_signature E r (vc_key own) = Inr ()
    \<and> (\<forall>rcp \<in> set recipients. \<forall>clock'. current_message_time_is_valid clock' (cm_logical_time m) \<longrightarrow>
         admission E clock' a r rcp False = Inr Accepted)"
proof -
  have ok: "authority_ok E a" using reachable_authority_ok [OF assms(1)] assms(2) by simp
  have id: "credential_id E own = cm_issuer_credential m" by (rule credential_own_id [OF ok assms(7)])
  obtain r where r: "ChatMessage_sign E m' key = Inr r" "chat E r = Inr m'" "verify_signature E r (ed_public E key) = Inr ()"
    by (rule ChatMessage_sign_succeeds [OF assms(3,15,16)])
  have e: "expected_recipients E a i (cm_issuer_credential m) = Inr (audience, recipients)"
    unfolding expected_recipients_iff [OF ok assms(6,7)] using assms(9-11,13) by auto
  have m': "cm_space_id m' = space E a" "cm_stream_id m' = au_stream a" "cm_config_id m' = i" "cm_issuer_identity m' = identity own"
    "cm_audience m' = audience" "cm_recipient_credentials m' = recipients" "cm_issuer_credential m' = cm_issuer_credential m"
    "cm_logical_time m' = cm_logical_time m"
    by (simp_all add: assms(14))
  have acc: "admission E clock' a r rcp False = Inr Accepted"
    if "rcp \<in> set recipients" "current_message_time_is_valid clock' (cm_logical_time m)" for rcp clock'
  proof -
    have "verify_historical E clock' a r = Inr m'"
      unfolding verify_historical_iff [OF ok] m' using that(2) r assms(6-13,17) by (metis)
    with that(1) r(2) assms(4-6) m' show ?thesis by (auto simp: admission_def bt_contains_def config_iff)
  qed
  have "cm_issuer_credential m \<in> set recipients" using assms(13) by (simp add: addressed_to_def)
  from acc [OF this assms(18)] have "Authority_verify E clock a r (cm_issuer_credential m) = Inr (r, m')"
    by (simp add: Authority_verify_def r(2))
  with e r(1) assms(4,5,7,8) have "prepare_chat E clock a m key = Inr r"
    by (simp add: prepare_chat_def id flip: assms(14))
  with r acc assms(8) show ?thesis by auto
qed

end
