(* ===== verification/Authority_Proofs.thy ===== *)
theory Authority_Proofs
  imports Authority_Admission
begin

text \<open>
  \<^verbatim>\<open>crates/elo-core/src/authority/checkpoint.rs\<close>, \<^verbatim>\<open>authority/call_proof.rs\<close> and the snapshot
  reader of \<^verbatim>\<open>authority.rs\<close>: compact checkpoints, the membership proof a call service verifies,
  and how an authority is rebuilt from its stored proofs. The plaintext that
  \<^verbatim>\<open>crypto::open_bytes\<close> returns for a snapshot is an argument.
\<close>

definition MAX_PROOF_BYTES :: nat where "MAX_PROOF_BYTES = 8 * 1024 * 1024"

record CallAuthorityProof =
  pr_v :: nat
  pr_genesis :: string
  pr_credentials :: "string list"
  pr_configs :: "string list"
  pr_checkpoint :: "string option"

type_synonym AuthorityProofs = CallAuthorityProof

record proof_ext = authority_ext +
  dec_authority_proofs :: "json \<Rightarrow> AuthorityProofs option"

subsection \<open>Checkpoints\<close>

definition current_checkpoint :: "('z authority_ext_scheme) \<Rightarrow> Authority \<Rightarrow> SignedRecord option" where
  "current_checkpoint E a =
     (if is_owner_managed a then None
      else
      (case au_cached_checkpoint a of
         None \<Rightarrow> None
       | Some r \<Rightarrow>
           if \<not> au_forked a
              \<and> (case decode_with (dec_checkpoint E) r of
                   Inl _ \<Rightarrow> False | Inr p \<Rightarrow> Some (cp_config_id p) = au_head a)
           then Some r else None))"

definition sign_checkpoint_body :: "('z authority_ext_scheme) \<Rightarrow> Authority \<Rightarrow> RecordError + Checkpoint" where
  "sign_checkpoint_body E a =
     bindr (walk (\<lambda>id' _. Inr id') a (au_head a)) (\<lambda>ids.
     bindr (head a) (\<lambda>c.
     bindr (controller a) (\<lambda>ctl.
     bindr (ok_or (au_head a) Authority_err) (\<lambda>h.
     bindr (controller_recovery_chain E a) (\<lambda>chain.
     Inr \<lparr>cp_v = 1, cp_kind = ''stream.checkpoint'', cp_space_id = space E a,
          cp_stream_id = au_stream a, cp_controller_credential_id = credential_id E ctl,
          cp_config_id = h, cp_sequence = sc_sequence c, cp_ancestry = rev ids,
          cp_recovery = map (\<lambda>r. b64_encode E (rec_bytes r)) chain\<rparr>)))))"

definition sign_checkpoint ::
  "('z authority_ext_scheme) \<Rightarrow> Authority \<Rightarrow> bytes \<Rightarrow> RecordError + SignedRecord" where
  "sign_checkpoint E a key =
     (if is_owner_managed a \<or> au_forked a \<or> au_checkpoint_evidence a \<noteq> None then Inl Authority_err
      else
      bindr (controller a) (\<lambda>ctl.
      if vc_key ctl \<noteq> ed_public E key then Inl Authority_err
      else bindr (sign_checkpoint_body E a) (\<lambda>body. sign E (ser_checkpoint E body) key)))"

definition accept_cached_checkpoint ::
  "('z authority_ext_scheme) \<Rightarrow> Authority \<Rightarrow> SignedRecord \<Rightarrow> RecordError + Authority" where
  "accept_cached_checkpoint E a r =
     bindr (decode_with (dec_checkpoint E) r) (\<lambda>body.
     bindr (ok_or (au_head a) Authority_err) (\<lambda>expected.
     if is_owner_managed a \<or> au_forked a \<or> cp_config_id body \<noteq> expected then Inl Authority_err
     else
     bindr (head a) (\<lambda>c.
     if cp_sequence body \<noteq> sc_sequence c then Inl Authority_err
     else
     bindr (controller a) (\<lambda>ctl.
     bindr (verify_signature E r (vc_key ctl)) (\<lambda>_.
     bindr (sign_checkpoint_body E a) (\<lambda>actual.
     if checkpoint_to_value E body \<noteq> checkpoint_to_value E actual then Inl Authority_err
     else Inr (a\<lparr>au_cached_checkpoint := Some r\<rparr>)))))))"

definition proves_config_ancestor :: "Authority \<Rightarrow> RecordId \<Rightarrow> bool" where
  "proves_config_ancestor a id' \<longleftrightarrow>
     bt_contains (au_configs a) id'
     \<or> (case au_checkpoint_evidence a of None \<Rightarrow> False | Some p \<Rightarrow> id' \<in> set (ce_ancestry p))"

definition proves_recovery_ancestor :: "('z authority_ext_scheme) \<Rightarrow> Authority \<Rightarrow> RecordId option \<Rightarrow> bool" where
  "proves_recovery_ancestor E a floor' =
     (case floor' of
        None \<Rightarrow> True
      | Some id' \<Rightarrow>
          (case controller_recovery_chain E a of
             Inl _ \<Rightarrow> False
           | Inr chain \<Rightarrow> list_ex (\<lambda>r. record_id E r = id') chain))"

definition checkpoint_recovery ::
  "('z authority_ext_scheme) \<Rightarrow> StreamConfig \<Rightarrow> SignedRecord list \<Rightarrow> RecordError + unit" where
  "checkpoint_recovery E c chain =
     (case sc_recovery c of
        Some encoded \<Rightarrow>
          bindr (ok_or (b64_decode E encoded) Json) (\<lambda>b.
          bindr (parse E b) (\<lambda>certificate.
          if (chain = [] \<or> record_id E (last chain) \<noteq> record_id E certificate)
             \<or> ca_operation (sc_action c) \<noteq> ''controller.recovered''
             \<or> ca_request_record_id (sc_action c) \<noteq> Some (record_id E certificate)
          then Inl Authority_err else Inr ()))
      | None \<Rightarrow>
          if ca_operation (sc_action c) = ''controller.recovered'' then Inl Authority_err else Inr ())"

definition load_checkpoint ::
  "('z authority_ext_scheme) \<Rightarrow> Authority \<Rightarrow> SignedRecord \<Rightarrow> SignedRecord \<Rightarrow> RecordError + Authority" where
  "load_checkpoint E a srec conf =
     (if is_owner_managed a \<or> au_head a \<noteq> None \<or> au_checkpoint_evidence a \<noteq> None then Inl Authority_err
      else
      bindr (decode_with (dec_config E) conf) (\<lambda>c.
      bindr (decode_with (dec_checkpoint E) srec) (\<lambda>body.
      bindr (credential a (cp_controller_credential_id body)) (\<lambda>ctl.
      bindr (verify_signature E srec (vc_key ctl)) (\<lambda>_.
      bindr (verify_signature E conf (vc_key ctl)) (\<lambda>_.
      bindr (validate_config E a c) (\<lambda>_.
      if cp_v body \<noteq> 1
         \<or> cp_kind body \<noteq> ''stream.checkpoint''
         \<or> cp_space_id body \<noteq> space E a
         \<or> cp_stream_id body \<noteq> au_stream a
         \<or> cp_config_id body \<noteq> record_id E conf
         \<or> cp_sequence body \<noteq> sc_sequence c
         \<or> cp_controller_credential_id body \<noteq> sc_controller_credential_id c
         \<or> cp_ancestry body = []
         \<or> length (cp_ancestry body) > 4096
         \<or> length (cp_ancestry body) \<noteq> sc_sequence c
         \<or> last (cp_ancestry body) \<noteq> record_id E conf
         \<or> length (bs_of_list (cp_ancestry body)) \<noteq> length (cp_ancestry body)
         \<or> sc_previous_config_id c \<noteq>
             (if length (cp_ancestry body) > 1 then Some (rev (cp_ancestry body) ! 1) else None)
         \<or> length (cp_recovery body) > 64
      then Inl Authority_err
      else
      bindr (collectr (\<lambda>encoded. bindr (ok_or (b64_decode E encoded) Json) (parse E)) (cp_recovery body)) (\<lambda>chain.
      bindr (verify_controller_export E a chain ctl) (\<lambda>_.
      bindr (checkpoint_recovery E c chain) (\<lambda>_.
      Inr (a\<lparr>au_checkpoint_evidence := Some \<lparr>ce_ancestry = cp_ancestry body, ce_recovery = chain\<rparr>,
             au_head := Some (record_id E conf),
             au_configs := bt_insert (record_id E conf) (conf, c) (au_configs a)\<rparr>)))))))))))"

subsection \<open>Membership proofs\<close>

definition check_size :: "CallAuthorityProof \<Rightarrow> RecordError + unit" where
  "check_size p =
     (if \<not> ((pr_v p = 1 \<and> pr_checkpoint p = None) \<or> (pr_v p = 2 \<and> pr_checkpoint p \<noteq> None))
         \<or> (pr_v p = 2 \<and> length (pr_configs p) \<noteq> 1)
         \<or> length (pr_credentials p) > 8192
         \<or> length (pr_configs p) > 4096
         \<or> pr_configs p = []
         \<or> saturating_add
             (saturating_add (length (pr_genesis p)) (case pr_checkpoint p of None \<Rightarrow> 0 | Some s \<Rightarrow> length s))
             (sum_list (map length (pr_credentials p @ pr_configs p))) > MAX_PROOF_BYTES
      then Inl Authority_err else Inr ())"

text \<open>The encoded records of an authority, oldest configuration first.\<close>

definition sorted_configs :: "('z crypto_scheme) \<Rightarrow> Authority \<Rightarrow> (SignedRecord \<times> StreamConfig) list" where
  "sorted_configs E a =
     sort_key (\<lambda>rc. (sc_sequence (snd rc), record_id E (fst rc))) (bt_values (au_configs a))"

definition encode_record :: "('z crypto_scheme) \<Rightarrow> SignedRecord \<Rightarrow> string" where
  "encode_record E r = b64_encode E (rec_bytes r)"

definition checkpoint_proof ::
  "('z authority_ext_scheme) \<Rightarrow> Authority \<Rightarrow> SignedRecord \<Rightarrow> RecordError + CallAuthorityProof" where
  "checkpoint_proof E a srec =
     bindr (head a) (\<lambda>c.
     bindr (initial_controller a) (\<lambda>initial.
     bindr (controller a) (\<lambda>ctl.
     bindr (collectr (\<lambda>i. bindr (credential a i) (\<lambda>d. Inr (encode_record E (vc_record d))))
              (bs_of_list (devices c @ [credential_id E initial, credential_id E ctl]))) (\<lambda>creds.
     bindr (ok_or (au_head a) Authority_err) (\<lambda>h.
     bindr (config_record a h) (\<lambda>hr.
     let p = \<lparr>pr_v = 2, pr_genesis = encode_record E (au_genesis a), pr_credentials = creds,
              pr_configs = [encode_record E hr], pr_checkpoint = Some (encode_record E srec)\<rparr> in
     bindr (check_size p) (\<lambda>_. Inr p)))))))"

definition call_proof :: "('z authority_ext_scheme) \<Rightarrow> Authority \<Rightarrow> RecordError + CallAuthorityProof" where
  "call_proof E a =
     (case current_checkpoint E a of
        Some checkpoint \<Rightarrow> if au_forked a then Inl Authority_err else checkpoint_proof E a checkpoint
      | None \<Rightarrow>
          if au_forked a then Inl Authority_err
          else
          let p = \<lparr>pr_v = 1, pr_genesis = encode_record E (au_genesis a),
                   pr_credentials = map (\<lambda>c. encode_record E (vc_record c)) (bt_values (au_credentials a)),
                   pr_configs = map (\<lambda>rc. encode_record E (fst rc)) (sorted_configs E a),
                   pr_checkpoint = None\<rparr> in
          bindr (check_size p) (\<lambda>_. Inr p))"

definition call_proof_signed ::
  "('z authority_ext_scheme) \<Rightarrow> Authority \<Rightarrow> bytes \<Rightarrow> RecordError + CallAuthorityProof" where
  "call_proof_signed E a key =
     (if is_owner_managed a then call_proof E a
      else
      bindr (controller a) (\<lambda>ctl.
      if vc_key ctl \<noteq> ed_public E key then call_proof E a
      else bindr (sign_checkpoint E a key) (checkpoint_proof E a)))"

text \<open>A device credential verified under the root it names.\<close>

definition self_rooted :: "('z authority_ext_scheme) \<Rightarrow> bytes \<Rightarrow> RecordError + VerifiedCredential" where
  "self_rooted E b =
     bindr (parse E b) (\<lambda>r.
     bindr (ok_or (as_str (json_index (rec_body r) ''root_public_key'')) Json) (\<lambda>s.
     bindr (hex 32 s) (\<lambda>kb.
     bindr (verifying_key E kb Signature) (\<lambda>root. verify E b root))))"

fun proof_credential_in ::
  "('z authority_ext_scheme) \<Rightarrow> RecordId \<Rightarrow> string list \<Rightarrow> RecordError + VerifiedCredential" where
  "proof_credential_in E id' [] = Inl Authority_err"
| "proof_credential_in E id' (encoded # rest) =
     bindr (ok_or (b64_decode E encoded) Json) (\<lambda>b.
     if of_record_bytes E b \<noteq> id' then proof_credential_in E id' rest else self_rooted E b)"

definition proof_credential ::
  "('z authority_ext_scheme) \<Rightarrow> CallAuthorityProof \<Rightarrow> RecordId \<Rightarrow> RecordError + VerifiedCredential" where
  "proof_credential E p id' = bindr (check_size p) (\<lambda>_. proof_credential_in E id' (pr_credentials p))"

fun collect_credentials ::
  "('z authority_ext_scheme) \<Rightarrow> (RecordId, VerifiedCredential) btree_map \<Rightarrow> string list \<Rightarrow>
   RecordError + (RecordId, VerifiedCredential) btree_map" where
  "collect_credentials E m [] = Inr m"
| "collect_credentials E m (encoded # rest) =
     bindr (ok_or (b64_decode E encoded) Json) (\<lambda>b.
     bindr (self_rooted E b) (\<lambda>c.
     if bt_contains m (credential_id E c) then Inl Authority_err
     else collect_credentials E (bt_insert (credential_id E c) c m) rest))"

definition add_credentials :: "('z crypto_scheme) \<Rightarrow> VerifiedCredential list \<Rightarrow> Authority \<Rightarrow> Authority" where
  "add_credentials E cs a = fold (add_credential E) cs a"

text \<open>Applying the configurations of a proof in order; \<open>good\<close> says which outcomes go on.\<close>

fun apply_encoded ::
  "('z authority_ext_scheme) \<Rightarrow> (ConfigAdmission \<Rightarrow> bool) \<Rightarrow> Authority \<Rightarrow> string list \<Rightarrow> RecordError + Authority" where
  "apply_encoded E good a [] = Inr a"
| "apply_encoded E good a (encoded # rest) =
     bindr (ok_or (b64_decode E encoded) Json) (\<lambda>b.
     bindr (parse E b) (\<lambda>r.
     case apply_config E a r of
       (a', Inl e) \<Rightarrow> Inl e
     | (a', Inr outcome) \<Rightarrow> if good outcome then apply_encoded E good a' rest else Inl Authority_err))"

definition apply_proof ::
  "('z authority_ext_scheme) \<Rightarrow> CallAuthorityProof \<Rightarrow> Authority \<Rightarrow> RecordError + Authority" where
  "apply_proof E p a =
     (case pr_checkpoint p of
        Some checkpoint \<Rightarrow>
          bindr (ok_or (b64_decode E checkpoint) Json) (\<lambda>cb.
          bindr (parse E cb) (\<lambda>srec.
          bindr (ok_or (b64_decode E (hd (pr_configs p))) Json) (\<lambda>fb.
          bindr (parse E fb) (\<lambda>conf.
          load_checkpoint E a srec conf))))
      | None \<Rightarrow>
          bindr (apply_encoded E (\<lambda>o'. o' = Applied \<or> o' = Historical) a (pr_configs p)) (\<lambda>a'.
          if au_forked a' then Inl Authority_err
          else bindr (head a') (\<lambda>_. Inr a')))"

definition verify_with_witness ::
  "('z authority_ext_scheme) \<Rightarrow> CallAuthorityProof \<Rightarrow> SpaceId \<Rightarrow> StreamId \<Rightarrow> WitnessPin option \<Rightarrow>
   RecordError + Authority" where
  "verify_with_witness E p sp strm pin =
     bindr (check_size p) (\<lambda>_.
     bindr (ok_or (b64_decode E (pr_genesis p)) Json) (\<lambda>gb.
     bindr (parse E gb) (\<lambda>g.
     bindr (decode_with (dec_genesis E) g) (\<lambda>body.
     if ge_witness body \<noteq> pin \<or> (ge_v body = 4) \<noteq> (pin \<noteq> None) then Inl Authority_err
     else
     bindr (ok_or (List.find (\<lambda>owner. ow_identity_id owner = ge_issuer_identity body) (ge_owners body))
              Authority_err) (\<lambda>owner.
     bindr (hex 32 (ow_root_public_key owner)) (\<lambda>rb.
     bindr (verifying_key E rb Signature) (\<lambda>root.
     bindr (collect_credentials E [] (pr_credentials p)) (\<lambda>credentials.
     bindr (ok_or (bt_get credentials (ge_controller_credential_id body)) Authority_err) (\<lambda>ctl.
     bindr (Authority_new E (rec_bytes g) sp root ctl strm) (\<lambda>a0.
     apply_proof E p (add_credentials E (bt_values credentials) a0)))))))))))"

definition proof_verify ::
  "('z authority_ext_scheme) \<Rightarrow> CallAuthorityProof \<Rightarrow> SpaceId \<Rightarrow> StreamId \<Rightarrow> RecordError + Authority" where
  "proof_verify E p sp strm = verify_with_witness E p sp strm None"

definition verify_witnessed ::
  "('z authority_ext_scheme) \<Rightarrow> CallAuthorityProof \<Rightarrow> SpaceId \<Rightarrow> StreamId \<Rightarrow> WitnessPin \<Rightarrow> RecordError + Authority" where
  "verify_witnessed E p sp strm pin =
     bindr (pin_validate E pin) (\<lambda>_. verify_with_witness E p sp strm (Some pin))"

subsection \<open>Snapshots\<close>

definition open_snapshot ::
  "('z proof_ext_scheme) \<Rightarrow> bytes \<Rightarrow> bytes option \<Rightarrow> SpaceId \<Rightarrow> bytes \<Rightarrow> StreamId \<Rightarrow> RecordError + Authority" where
  "open_snapshot E ciphertext opened pinned_space pinned_root strm =
     bindr (ok_or opened Authority_err) (\<lambda>b.
     bindr (strict_json E b (8 * 1024 * 1024 + 72)) (\<lambda>v.
     bindr (ok_or (dec_authority_proofs E v) Json) (\<lambda>p.
     if pr_v p \<noteq> 1 \<or> length (pr_credentials p) > 8192 \<or> length (pr_configs p) > 4096 then Inl Authority_err
     else
     bindr (ok_or (b64_decode E (pr_genesis p)) Json) (\<lambda>gb.
     bindr (parse E gb) (\<lambda>g.
     bindr (decode_with (dec_genesis E) g) (\<lambda>body.
     bindr (collectr (\<lambda>encoded. bindr (ok_or (b64_decode E encoded) Json) (self_rooted E)) (pr_credentials p))
       (\<lambda>credentials.
     bindr (ok_or (List.find (\<lambda>c. credential_id E c = ge_controller_credential_id body) credentials)
              Authority_err) (\<lambda>ctl.
     bindr (Authority_new E gb pinned_space pinned_root ctl strm) (\<lambda>a0.
     bindr (apply_encoded E (\<lambda>o'. o' \<noteq> WaitingForProof) (add_credentials E credentials a0) (pr_configs p)) (\<lambda>a.
     bindr (case pr_checkpoint p of
              None \<Rightarrow> Inr a
            | Some encoded \<Rightarrow>
                bindr (ok_or (b64_decode E encoded) Json) (\<lambda>cb.
                bindr (parse E cb) (accept_cached_checkpoint E a))) (\<lambda>a'.
     Inr (a'\<lparr>au_persisted_snapshot := Some (of_ciphertext E ciphertext)\<rparr>))))))))))))"

subsection \<open>What a verified proof establishes\<close>

lemma add_credentials_ok: "authority_ok E a \<Longrightarrow> authority_ok E (add_credentials E cs a)"
  by (induction cs arbitrary: a) (simp_all add: add_credentials_def add_credential_ok)

lemma add_credentials_frame:
  "au_configs (add_credentials E cs a) = au_configs a" "au_genesis (add_credentials E cs a) = au_genesis a"
  "au_body (add_credentials E cs a) = au_body a" "au_stream (add_credentials E cs a) = au_stream a"
  "au_head (add_credentials E cs a) = au_head a" "au_forked (add_credentials E cs a) = au_forked a"
  "au_checkpoint_evidence (add_credentials E cs a) = au_checkpoint_evidence a"
  by (induction cs arbitrary: a) (simp_all add: add_credentials_def add_credential_def)

lemma apply_config_evidence: "au_checkpoint_evidence (fst (apply_config E a r)) = au_checkpoint_evidence a"
proof (rule apply_config_cases [of E a r])
  fix c
  let ?b = "a\<lparr>au_configs := bt_insert (record_id E r) (r, c) (au_configs a)\<rparr>"
  assume "fst (apply_config E a r) = fst (select_controller_head E ?b)"
  moreover obtain f h where "fst (select_controller_head E ?b) = ?b\<lparr>au_forked := f, au_head := h\<rparr>"
    using select_controller_head_frame [of ?b E] unfolding head_frame_def by blast
  ultimately show ?thesis by simp
qed simp

text \<open>An authority rebuilt from encoded records is the result of a run of the machine.\<close>

lemma apply_encoded_run:
  "apply_encoded E good a enc = Inr a' \<Longrightarrow> \<exists>rs. a' = run_steps (authority_step E) a (map Config_in rs)"
proof (induction enc arbitrary: a)
  case Nil
  then show ?case by (intro exI [of _ "[]"]) simp
next
  case (Cons x enc)
  from Cons.prems obtain r where "(case apply_config E a r of
       (b, Inl e) \<Rightarrow> Inl e
     | (b, Inr outcome) \<Rightarrow> if good outcome then apply_encoded E good b enc else Inl Authority_err) = Inr a'"
    by (auto simp: bindr_eq_Inr)
  then have "apply_encoded E good (fst (apply_config E a r)) enc = Inr a'"
    by (cases "apply_config E a r"; cases "snd (apply_config E a r)") (auto split: if_splits)
  then obtain rs where "a' = run_steps (authority_step E) (fst (apply_config E a r)) (map Config_in rs)"
    using Cons.IH by blast
  then show ?case by (intro exI [of _ "r # rs"]) simp
qed

lemma run_configs_evidence:
  "au_checkpoint_evidence (run_steps (authority_step E) a (map Config_in rs)) = au_checkpoint_evidence a"
  by (induction rs arbitrary: a) (simp_all add: apply_config_evidence)

lemma apply_encoded_ok:
  assumes "apply_encoded E good a enc = Inr a'" "authority_ok E a"
  shows "authority_ok E a'" "authority_le a a'" "au_checkpoint_evidence a' = au_checkpoint_evidence a"
proof -
  obtain rs where rs: "a' = run_steps (authority_step E) a (map Config_in rs)"
    using apply_encoded_run [OF assms(1)] by blast
  show "authority_ok E a'" unfolding rs by (rule authority.run_inv [OF assms(2)])
  show "authority_le a a'" unfolding rs by (rule authority.run_le [OF assms(2)])
  show "au_checkpoint_evidence a' = au_checkpoint_evidence a" unfolding rs by (rule run_configs_evidence)
qed

lemma load_checkpoint_Inr:
  assumes "load_checkpoint E a srec conf = Inr a'"
  obtains c and body :: Checkpoint and ctl chain where
    "\<not> is_owner_managed a" "dec_config E (rec_body conf) = Some c"
    "credential a (cp_controller_credential_id body) = Inr ctl"
    "verify_signature E srec (vc_key ctl) = Inr ()" "validate_config E a c = Inr ()"
    "cp_controller_credential_id body = sc_controller_credential_id c"
    "cp_ancestry body \<noteq> []" "length (cp_ancestry body) = sc_sequence c"
    "last (cp_ancestry body) = record_id E conf"
    "verify_controller_export E a chain ctl = Inr ()"
    "a' = a\<lparr>au_checkpoint_evidence := Some \<lparr>ce_ancestry = cp_ancestry body, ce_recovery = chain\<rparr>,
             au_head := Some (record_id E conf),
             au_configs := bt_insert (record_id E conf) (conf, c) (au_configs a)\<rparr>"
proof -
  show thesis
    using assms
    unfolding load_checkpoint_def bindr_eq_Inr guard_eq_Inr decode_with_iff de_Morgan_disj not_not ex_unit_iff
      sum.inject
    by (elim exE conjE, intro that) (assumption | erule sym)+
qed

lemma load_checkpoint_ok:
  assumes "authority_ok E a" "au_configs a = []" "load_checkpoint E a srec conf = Inr a'"
  shows "authority_ok E a'" "au_forked a' = au_forked a" "\<exists>c. head a' = Inr c"
    "space E a' = space E a" "au_stream a' = au_stream a"
    "\<exists>ev. au_checkpoint_evidence a' = Some ev"
    "\<And>n i j. proves_config_at a' i n \<Longrightarrow> proves_config_at a' j n \<Longrightarrow> i = j"
    "\<And>n i h. head a' = Inr h \<Longrightarrow> proves_config_at a' i n \<Longrightarrow> n \<le> sc_sequence h"
proof -
  obtain c and body :: Checkpoint and ctl chain where c: "\<not> is_owner_managed a" "dec_config E (rec_body conf) = Some c"
    "credential a (cp_controller_credential_id body) = Inr ctl" "validate_config E a c = Inr ()"
    "cp_controller_credential_id body = sc_controller_credential_id c" "cp_ancestry body \<noteq> []"
    "length (cp_ancestry body) = sc_sequence c" "last (cp_ancestry body) = record_id E conf"
    and a': "a' = a\<lparr>au_checkpoint_evidence := Some \<lparr>ce_ancestry = cp_ancestry body, ce_recovery = chain\<rparr>,
             au_head := Some (record_id E conf),
             au_configs := bt_insert (record_id E conf) (conf, c) (au_configs a)\<rparr>"
    by (rule load_checkpoint_Inr [OF assms(3)])
  have "config_entry_ok E a' (record_id E conf, conf, c)"
    using c validate_config_header(1,10) [OF c(4)]
    by (simp add: config_entry_ok_def a' credential_iff bt_contains_def)
  moreover have "head_ok a'"
    using c(1) assms(2) by (simp add: head_ok_def a' is_owner_managed_def bt_contains_def bt_get_def)
  ultimately show "authority_ok E a'"
    using authority_okD(2,7,8) [OF assms(1)] assms(2) by (simp add: authority_ok_def a')
  show "au_forked a' = au_forked a" "\<exists>c. head a' = Inr c" "space E a' = space E a" "au_stream a' = au_stream a"
    "\<exists>ev. au_checkpoint_evidence a' = Some ev"
    using assms(2) by (simp_all add: a' head_iff config_iff space_def bt_get_def)
  have at: "proves_config_at a' i n \<longleftrightarrow> 1 \<le> n \<and> n \<le> sc_sequence c \<and> cp_ancestry body ! (n - 1) = i" for i n
  proof -
    have "config a' i = (if i = record_id E conf then Inr c else Inl Authority_err)"
      using assms(2) by (simp add: a' config_def bt_get_def)
    moreover have "cp_ancestry body ! (sc_sequence c - 1) = record_id E conf"
      using c(6-8) by (simp add: last_conv_nth)
    ultimately show ?thesis
      using validate_config_header(1) [OF c(4)] c(7) by (auto simp: proves_config_at_def a')
  qed
  show "\<And>n i j. proves_config_at a' i n \<Longrightarrow> proves_config_at a' j n \<Longrightarrow> i = j"
    unfolding at by simp
  show "\<And>n i h. head a' = Inr h \<Longrightarrow> proves_config_at a' i n \<Longrightarrow> n \<le> sc_sequence h"
    unfolding at using assms(2) by (auto simp: a' head_iff config_iff bt_get_def)
qed

lemma apply_proof_Inr:
  assumes "apply_proof E p a = Inr a'"
  shows "(\<exists>srec conf. load_checkpoint E a srec conf = Inr a')
    \<or> (apply_encoded E (\<lambda>o'. o' = Applied \<or> o' = Historical) a (pr_configs p) = Inr a'
        \<and> \<not> au_forked a' \<and> (\<exists>c. head a' = Inr c))"
  using assms by (auto simp: apply_proof_def bindr_eq_Inr guard_eq_Inr split: option.splits)

lemma verify_with_witness_Inr:
  assumes "verify_with_witness E p sp strm pin = Inr a"
  obtains gb root ctl creds a0 where
    "Authority_new E gb sp root ctl strm = Inr a0" "witness_pin a0 = pin"
    "apply_proof E p (add_credentials E creds a0) = Inr a"
proof -
  from assms obtain gb g body root creds ctl a0 where
    *: "parse E gb = Inr g" "dec_genesis E (rec_body g) = Some body"
    "ge_witness body = pin" "Authority_new E (rec_bytes g) sp root ctl strm = Inr a0"
    "apply_proof E p (add_credentials E creds a0) = Inr a"
    unfolding verify_with_witness_def bindr_eq_Inr guard_eq_Inr decode_with_iff de_Morgan_disj not_not by blast
  have "rec_bytes g = gb" using *(1) by (simp add: parse_def parse_bounded_body_bytes(1))
  then have "au_genesis a0 = g" using *(1) Authority_new_Inr(14) [OF *(4)] by simp
  then have "witness_pin a0 = pin"
    using Authority_new_Inr(9) [OF *(4)] *(2,3) by (simp add: witness_pin_def)
  with * show thesis by (intro that)
qed

text \<open>The authority behind an accepted proof, used by every component that holds one.\<close>

lemma verify_with_witness_usable:
  assumes "verify_with_witness E p sp strm pin = Inr a"
  shows "authority_ok E a \<and> space E a = sp \<and> au_stream a = strm \<and> witness_pin a = pin
    \<and> \<not> au_forked a \<and> (\<exists>c. head a = Inr c)
    \<and> (is_owner_managed a \<or> au_checkpoint_evidence a \<noteq> None \<longrightarrow>
        (\<forall>n i j. proves_config_at a i n \<and> proves_config_at a j n \<longrightarrow> i = j))"
proof -
  obtain gb root ctl creds a0 where n: "Authority_new E gb sp root ctl strm = Inr a0" "witness_pin a0 = pin"
    "apply_proof E p (add_credentials E creds a0) = Inr a"
    by (rule verify_with_witness_Inr [OF assms])
  let ?b = "add_credentials E creds a0"
  note f = add_credentials_frame [of E creds a0] and i = Authority_new_Inr [OF n(1)]
  have ok: "authority_ok E ?b" by (intro add_credentials_ok Authority_new_ok [OF n(1)])
  from apply_proof_Inr [OF n(3)] show ?thesis
  proof (elim disjE exE conjE)
    fix srec conf
    assume l: "load_checkpoint E ?b srec conf = Inr a"
    have e: "au_configs ?b = []" using f i by simp
    have "witness_pin a = witness_pin ?b"
      using l by (auto simp: witness_pin_def elim!: load_checkpoint_Inr)
    moreover have "\<forall>n i j. proves_config_at a i n \<and> proves_config_at a j n \<longrightarrow> i = j"
      using load_checkpoint_ok(7) [OF ok e l] by blast
    ultimately show ?thesis
      using load_checkpoint_ok(1-5) [OF ok e l] f i n(2) by (simp add: witness_pin_def space_def)
  next
    fix c
    assume l: "apply_encoded E (\<lambda>o'. o' = Applied \<or> o' = Historical) ?b (pr_configs p) = Inr a"
      and u: "\<not> au_forked a" "head a = Inr c"
    note r = apply_encoded_ok [OF l ok]
    have ev: "au_checkpoint_evidence a = None" using r(3) f i by simp
    have uniq: "i = j" if "is_owner_managed a" "proves_config_at a i n" "proves_config_at a j n" for i j n
    proof -
      from that(2,3) ev obtain c d where "config a i = Inr c" "config a j = Inr d" "sc_sequence c = sc_sequence d"
        by (auto simp: proves_config_at_def split: sum.splits)
      moreover have "distinct (config_parents a)"
        using authority_okD(5) [OF r(1)] that(1) u(1) by (simp add: head_ok_def)
      ultimately show ?thesis using sequence_injective [OF authority_okD(3) [OF r(1) ev]] by blast
    qed
    show ?thesis
      using r(1,2) u f i n(2) uniq ev by (auto simp: authority_le_def witness_pin_def space_def)
  qed
qed

text \<open>Nothing a verified proof covers lies past its head.\<close>

lemma verify_with_witness_latest:
  assumes "verify_with_witness E p sp strm pin = Inr a" "is_owner_managed a \<or> au_checkpoint_evidence a \<noteq> None"
    "head a = Inr h" "proves_config_at a i n"
  shows "n \<le> sc_sequence h"
proof -
  obtain gb root ctl creds a0 where n: "Authority_new E gb sp root ctl strm = Inr a0"
    "apply_proof E p (add_credentials E creds a0) = Inr a"
    by (rule verify_with_witness_Inr [OF assms(1)])
  let ?b = "add_credentials E creds a0"
  note f = add_credentials_frame [of E creds a0] and init = Authority_new_Inr [OF n(1)]
  have ok: "authority_ok E ?b" by (intro add_credentials_ok Authority_new_ok [OF n(1)])
  have e: "au_configs ?b = []" using f init by simp
  from apply_proof_Inr [OF n(2)] show ?thesis
  proof (elim disjE exE conjE)
    fix srec conf
    assume "load_checkpoint E ?b srec conf = Inr a"
    from load_checkpoint_ok(8) [OF ok e this assms(3,4)] show ?thesis .
  next
    assume l: "apply_encoded E (\<lambda>o'. o' = Applied \<or> o' = Historical) ?b (pr_configs p) = Inr a"
      and u: "\<not> au_forked a"
    note r = apply_encoded_ok [OF l ok]
    have ev: "au_checkpoint_evidence a = None" using r(3) f init by simp
    with assms(2) u authority_okD(5) [OF r(1)] have "au_head a = latest_config (au_configs a)"
      by (simp add: head_ok_def)
    with assms(3) obtain g where g: "max_by_key (\<lambda>e. sc_sequence (snd (snd e))) (au_configs a) = Some g"
      "config a (fst g) = Inr h" by (auto simp: latest_config_def head_iff)
    moreover have "g \<in> set (au_configs a)" using max_by_key_Some [OF g(1)] by simp
    ultimately have "snd (snd g) = h"
      using bt_get_iff [OF authority_okD(1) [OF r(1)], of "fst g" "snd g"] by (auto simp: config_iff)
    moreover obtain q c where "(i, q, c) \<in> set (au_configs a)" "sc_sequence c = n"
      using assms(4) ev by (auto simp: proves_config_at_def config_iff dest: bt_get_in split: sum.splits)
    ultimately show ?thesis using max_by_key_Some [OF g(1)] by fastforce
  qed
qed

text \<open>
  A call service that verifies a membership proof obtains a usable authority: it is well
  formed, pinned to the requested space, stream and witness, not forked, and it has a current
  configuration; and no two configurations are proved at one sequence number when the proof is
  a checkpoint or the space is managed by its owners, so a retained rollback floor has one
  meaning.
\<close>

lemma verified_proof_usable:
  assumes "verify_with_witness E p sp strm pin = Inr a"
  shows "authority_ok E a \<and> space E a = sp \<and> au_stream a = strm \<and> witness_pin a = pin
    \<and> \<not> au_forked a \<and> (\<exists>c. head a = Inr c)
    \<and> (is_owner_managed a \<or> au_checkpoint_evidence a \<noteq> None \<longrightarrow>
        (\<forall>n i j. proves_config_at a i n \<and> proves_config_at a j n \<longrightarrow> i = j))"
  using verify_with_witness_usable [OF assms] .

text \<open>
  An authority read back from a snapshot is well formed and pinned to the requested space
  and stream, whatever the snapshot contained.
\<close>

lemma opened_snapshot_ok:
  assumes "open_snapshot E ciphertext opened sp root strm = Inr a"
  shows "authority_ok E a \<and> space E a = sp \<and> au_stream a = strm
    \<and> au_persisted_snapshot a = Some (of_ciphertext E ciphertext)"
proof -
  from assms obtain gb ctl a0 cs enc a1 cp a2 where
    n: "Authority_new E gb sp root ctl strm = Inr a0"
    and e: "apply_encoded E (\<lambda>o'. o' \<noteq> WaitingForProof) (add_credentials E cs a0) enc = Inr a1"
    and c: "(case cp of None \<Rightarrow> Inr a1 | Some encoded \<Rightarrow>
        bindr (ok_or (b64_decode E encoded) Json) (\<lambda>cb. bindr (parse E cb) (accept_cached_checkpoint E a1))) = Inr a2"
    and a: "a = a2\<lparr>au_persisted_snapshot := Some (of_ciphertext E ciphertext)\<rparr>"
    unfolding open_snapshot_def bindr_eq_Inr guard_eq_Inr sum.inject by blast
  have "authority_ok E (add_credentials E cs a0)" by (intro add_credentials_ok Authority_new_ok [OF n])
  note r = apply_encoded_ok [OF e this]
  obtain x where x: "a2 = a1\<lparr>au_cached_checkpoint := x\<rparr>"
  proof (cases cp)
    case None
    with c show thesis by (intro that [of "au_cached_checkpoint a1"]) simp
  next
    case (Some s)
    with c obtain rr where "accept_cached_checkpoint E a1 rr = Inr a2" by (auto simp: bindr_eq_Inr)
    then show thesis by (auto simp: accept_cached_checkpoint_def bindr_eq_Inr guard_eq_Inr intro: that)
  qed
  have "authority_ok E a"
    using r(1) linked_cong [of a a1]
    by (simp add: a x authority_ok_def config_entry_ok_def head_ok_def is_owner_managed_def)
  then show ?thesis
    using r(2) Authority_new_Inr(7,8) [OF n] add_credentials_frame [of E cs a0]
    by (simp add: a x authority_le_def space_def)
qed

lemma sign_checkpoint_body_Inr:
  assumes "sign_checkpoint_body E a = Inr cp"
  shows "\<exists>ids c h. walk (\<lambda>id' _. Inr id') a (au_head a) = Inr ids \<and> head a = Inr c \<and> au_head a = Some h
    \<and> cp_ancestry cp = rev ids \<and> cp_sequence cp = sc_sequence c \<and> cp_config_id cp = h
    \<and> cp_space_id cp = space E a \<and> cp_stream_id cp = au_stream a"
  using assms by (auto simp: sign_checkpoint_body_def bindr_eq_Inr ok_or_eq_Inr)

text \<open>
  The checkpoint a controller signs lists the whole history up to the head: one entry per
  sequence number, the entry at position \<open>n\<close> being a known configuration with sequence
  \<open>n + 1\<close>, and the last one the head itself.
\<close>

lemma checkpoint_covers_chain:
  assumes "authority_ok E a" "au_checkpoint_evidence a = None" "sign_checkpoint_body E a = Inr cp"
  shows "length (cp_ancestry cp) = cp_sequence cp \<and> last (cp_ancestry cp) = cp_config_id cp
    \<and> (\<forall>n < cp_sequence cp. \<exists>c. config a (cp_ancestry cp ! n) = Inr c \<and> sc_sequence c = n + 1)"
proof -
  note lk = authority_okD(3) [OF assms(1,2)]
  from sign_checkpoint_body_Inr [OF assms(3)] obtain ids c h where
    w: "walk (\<lambda>id' _. Inr id') a (au_head a) = Inr ids" and c: "head a = Inr c" and h: "au_head a = Some h"
    and cp: "cp_ancestry cp = rev ids" "cp_sequence cp = sc_sequence c" "cp_config_id cp = h" by blast
  have ch: "config a h = Inr c" using c h by (simp add: head_iff)
  obtain xs where xs: "ancestry a (Some h) xs" "walk (\<lambda>id' _. Inr id') a (au_head a) = Inr (map fst xs)"
    using walk_eq [OF lk, of "au_head a" "\<lambda>id' _. Inr id'"] ch h by (auto simp: comp_def)
  have ids: "ids = map fst xs" using w xs(2) by simp
  note sq = ancestry_sequences [OF lk ch xs(1)]
  obtain ys where ys: "xs = (h, c) # ys" using xs(1) ch by (auto elim: ancestry_SomeE)
  have "\<exists>d. config a (cp_ancestry cp ! n) = Inr d \<and> sc_sequence d = n + 1" if n: "n < cp_sequence cp" for n
  proof -
    let ?k = "length xs - Suc n"
    have k: "?k < length xs" "rev xs ! n = xs ! ?k" using n cp(2) sq(2) by (auto simp: rev_nth)
    have "sc_sequence (snd (xs ! ?k)) = map (\<lambda>e. sc_sequence (snd e)) xs ! ?k" using k by simp
    also have "\<dots> = n + 1" unfolding sq(1) using n cp(2) sq(2) by (simp add: rev_nth del: upt_Suc)
    finally have "sc_sequence (snd (xs ! ?k)) = n + 1" .
    moreover have "(fst (xs ! ?k), snd (xs ! ?k)) \<in> set xs" using k by simp
    moreover have "cp_ancestry cp ! n = fst (xs ! ?k)"
      using k n cp sq(2) by (simp add: ids rev_map)
    ultimately show ?thesis using ancestry_config [OF xs(1)] by metis
  qed
  then show ?thesis using cp ids sq(2) ys by simp
qed

end
