(* ===== verification/Witness_Wire.thy ===== *)
theory Witness_Wire
  imports Authority_Proofs
begin

text \<open>
  \<^verbatim>\<open>crates/elo-core/src/witness.rs\<close> and \<^verbatim>\<open>witness/registration.rs\<close>: what clients and an
  independent witness say to each other. Commands, receipts and the nonce-bound freshness
  statement a client checks; the proof of work and the hosting ticket a registration needs.
  A process-local \<^verbatim>\<open>Instant\<close> appears as the milliseconds elapsed since it was taken.
\<close>

subsection \<open>Messages\<close>

datatype WOperation =
    Register
  | RegisterInvitation string
  | RevokeInvitation RecordId
  | Challenge RecordId string string
  | Admit string WitnessAdmissionEvidence
  | ChallengeV2 string WitnessJoinRequestEvidence string
  | AdmitV2 string WitnessAdmissionEvidenceV2
  | OwnerUpdate string "string list"
  | Read_op

record WCommand =
  cw_v :: nat
  cw_kind :: string
  cw_nonce :: string
  cw_audience :: string
  cw_space_id :: SpaceId
  cw_stream_id :: StreamId
  cw_credential_id :: RecordId
  cw_authority_head :: RecordId
  cw_issued_at_ms :: nat
  cw_expires_at_ms :: nat
  cw_operation :: WOperation

record WRequest =
  wq_command :: string
  wq_invitation_signature :: "string option"
  wq_proof :: "CallAuthorityProof option"
  wq_registration_work :: "nat option"
  wq_registration_ticket :: "string option"

record HeadRequest =
  hr_space_id :: SpaceId
  hr_stream_id :: StreamId
  hr_nonce :: string

record WResponse =
  wr_receipt :: "string option"
  wr_proof :: "CallAuthorityProof option"
  wr_challenge :: "string option"

record Position =
  po_sequence :: nat
  po_record_id :: "RecordId option"

record Receipt =
  re_v :: nat
  re_kind :: string
  re_audience :: string
  re_sequence :: nat
  re_previous :: "RecordId option"
  re_request_id :: RecordId
  re_space_id :: SpaceId
  re_authority_head :: RecordId
  re_state_digest :: string
  re_accepted_at_ms :: nat
  re_event :: string
  re_witness_key_generation :: nat

record NoopAcknowledgement =
  na_v :: nat
  na_kind :: string
  na_audience :: string
  na_request_id :: RecordId
  na_space_id :: SpaceId
  na_stream_id :: StreamId
  na_authority_head :: RecordId
  na_event :: string
  na_position :: Position
  na_issued_at_ms :: nat
  na_expires_at_ms :: nat
  na_witness_key_generation :: nat

record Freshness =
  fs_v :: nat
  fs_kind :: string
  fs_audience :: string
  fs_nonce :: string
  fs_space_id :: SpaceId
  fs_stream_id :: StreamId
  fs_authority_head :: RecordId
  fs_position :: Position
  fs_issued_at_ms :: nat
  fs_expires_at_ms :: nat
  fs_witness_key_generation :: nat

record RegistrationHost =
  rh_host :: string
  rh_public_key :: string

record RegistrationTicket =
  rt_v :: nat
  rt_kind :: string
  rt_audience :: string
  rt_witness_public_key :: string
  rt_witness_key_generation :: nat
  rt_host :: string
  rt_space_id :: SpaceId
  rt_stream_id :: StreamId
  rt_authority_head :: RecordId
  rt_creator_identity :: IdentityId
  rt_credential_id :: RecordId
  rt_issued_at_ms :: nat
  rt_expires_at_ms :: nat
  rt_reservation_id :: string

text \<open>The derived serde functions of these types and the path of a parsed address.\<close>

record witness_ext = proof_ext +
  url_path :: "string \<Rightarrow> string"
  dec_wcommand :: "json \<Rightarrow> WCommand option"
  dec_receipt :: "json \<Rightarrow> Receipt option"
  ser_receipt :: "Receipt \<Rightarrow> bytes"
  ser_noop :: "NoopAcknowledgement \<Rightarrow> bytes"
  dec_freshness :: "json \<Rightarrow> Freshness option"
  ser_freshness :: "Freshness \<Rightarrow> bytes"
  dec_ticket :: "json \<Rightarrow> RegistrationTicket option"
  ser_ticket :: "RegistrationTicket \<Rightarrow> bytes"
  ser_challenge :: "WitnessChallenge \<Rightarrow> bytes"
  ser_challenge_v2 :: "WitnessChallengeV2 \<Rightarrow> bytes"
  ser_pin :: "WitnessPin \<Rightarrow> string"
  ser_proof :: "CallAuthorityProof \<Rightarrow> string"
  de_proof :: "string \<Rightarrow> CallAuthorityProof option"
  ser_response :: "WResponse \<Rightarrow> string"
  de_response :: "string \<Rightarrow> WResponse option"

subsection \<open>Registration work\<close>

definition WORK_DOMAIN :: bytes where
  "WORK_DOMAIN = ascii ''elo.witness.registration-work.v1'' @ [0]"

definition u64_to_be_bytes :: "nat \<Rightarrow> bytes" where
  "u64_to_be_bytes n = u32_to_be_bytes (n div 2 ^ 32) @ u32_to_be_bytes (n mod 2 ^ 32)"

definition registration_work_prefix :: "('z witness_ext_scheme) \<Rightarrow> WRequest \<Rightarrow> RecordError + bytes" where
  "registration_work_prefix E rq =
     bindr (ok_or (wq_proof rq) Authority_err) (\<lambda>proof.
     if length (wq_command rq) > 16384
        \<or> pr_v proof \<noteq> 1
        \<or> pr_checkpoint proof \<noteq> None
        \<or> length (pr_configs proof) \<noteq> 1
        \<or> length (pr_credentials proof) \<noteq> 1
        \<or> length (pr_genesis proof) + length (hd (pr_configs proof)) + length (hd (pr_credentials proof)) > 65536
     then Inl Framing
     else Inr (WORK_DOMAIN @ sha256 E (ascii (wq_command rq)) @ sha256 E (ascii (ser_proof E proof))))"

text \<open>The first twenty bits of the digest are zero.\<close>

definition work_done :: "bytes \<Rightarrow> bool" where
  "work_done digest \<longleftrightarrow> digest ! 0 = 0 \<and> digest ! 1 = 0 \<and> unat (digest ! 2) div 16 = 0"

definition work_digest :: "('z crypto_scheme) \<Rightarrow> bytes \<Rightarrow> nat \<Rightarrow> bytes" where
  "work_digest E prefix nonce = sha256 E (prefix @ u64_to_be_bytes nonce)"

definition verify_registration_work :: "('z witness_ext_scheme) \<Rightarrow> WRequest \<Rightarrow> RecordError + unit" where
  "verify_registration_work E rq =
     bindr (ok_or (wq_registration_work rq) Authority_err) (\<lambda>nonce.
     if nonce > MAX_INTEGER then Inl Authority_err
     else
     bindr (registration_work_prefix E rq) (\<lambda>prefix.
     if \<not> work_done (work_digest E prefix nonce) then Inl Authority_err else Inr ()))"

text \<open>\<^verbatim>\<open>for nonce in 0..=MAX_INTEGER\<close>: the first nonce from the given one on, if any.\<close>

function search_work :: "('z crypto_scheme) \<Rightarrow> bytes \<Rightarrow> nat \<Rightarrow> nat option" where
  "search_work E prefix nonce =
     (if nonce > MAX_INTEGER then None
      else if work_done (work_digest E prefix nonce) then Some nonce
      else search_work E prefix (Suc nonce))"
  by pat_completeness auto
termination
  by (relation "measure (\<lambda>(E, prefix, nonce). Suc MAX_INTEGER - nonce)") auto

declare search_work.simps [simp del]

definition solve_registration_work :: "('z witness_ext_scheme) \<Rightarrow> WRequest \<Rightarrow> RecordError + WRequest" where
  "solve_registration_work E rq =
     bindr (registration_work_prefix E rq) (\<lambda>prefix.
     (case search_work E prefix 0 of
        Some nonce \<Rightarrow> Inr (rq\<lparr>wq_registration_work := Some nonce\<rparr>)
      | None \<Rightarrow> Inl Authority_err))"

subsection \<open>Freshness\<close>

record VerifiedFreshness =
  vf_body :: Freshness
  vf_elapsed_ms :: nat

definition freshness_valid :: "VerifiedFreshness \<Rightarrow> nat \<Rightarrow> bool" where
  "freshness_valid vf now_ms \<longleftrightarrow>
     vf_elapsed_ms vf < 30000
     \<and> now_ms \<ge> saturating_sub (fs_issued_at_ms (vf_body vf)) 5000
     \<and> now_ms < fs_expires_at_ms (vf_body vf)"

definition below_floor :: "Position option \<Rightarrow> Position \<Rightarrow> bool" where
  "below_floor floor' pos \<longleftrightarrow>
     (case floor' of
        None \<Rightarrow> False
      | Some f \<Rightarrow> po_sequence pos < po_sequence f
          \<or> (po_sequence pos = po_sequence f \<and> po_record_id pos \<noteq> po_record_id f))"

definition verify_freshness ::
  "('z witness_ext_scheme) \<Rightarrow> WitnessPin \<Rightarrow> HeadRequest \<Rightarrow> string \<Rightarrow> nat \<Rightarrow> nat \<Rightarrow> Position option \<Rightarrow>
   RecordError + VerifiedFreshness" where
  "verify_freshness E pin request encoded elapsed now_ms floor' =
     bindr (pin_validate E pin) (\<lambda>_.
     bindr (hex 32 (hr_nonce request)) (\<lambda>_.
     if length encoded > 16384 then Inl Framing
     else
     bindr (ok_or (b64_decode E encoded) Json) (\<lambda>b.
     bindr (parse E b) (\<lambda>signed.
     bindr (pin_key E pin) (\<lambda>key.
     bindr (verify_signature E signed key) (\<lambda>_.
     bindr (decode_with (dec_freshness E) signed) (\<lambda>body.
     if fs_v body \<noteq> 1
        \<or> fs_kind body \<noteq> ''witness.freshness''
        \<or> fs_audience body \<noteq> wp_url pin
        \<or> fs_witness_key_generation body \<noteq> wp_key_generation pin
        \<or> fs_nonce body \<noteq> hr_nonce request
        \<or> fs_space_id body \<noteq> hr_space_id request
        \<or> fs_stream_id body \<noteq> hr_stream_id request
        \<or> po_sequence (fs_position body) = 0
        \<or> po_record_id (fs_position body) = None
        \<or> fs_expires_at_ms body \<le> fs_issued_at_ms body
        \<or> fs_expires_at_ms body - fs_issued_at_ms body > 30000
        \<or> fs_issued_at_ms body > saturating_add now_ms 5000
        \<or> below_floor floor' (fs_position body)
     then Inl Authority_err
     else
     let result = \<lparr>vf_body = body, vf_elapsed_ms = elapsed\<rparr> in
     if \<not> freshness_valid result now_ms then Inl Authority_err else Inr result)))))))"

subsection \<open>Hosting tickets\<close>

definition MAX_TICKET_BYTES :: nat where "MAX_TICKET_BYTES = 8192"
definition MAX_TICKET_LIFETIME_MS :: nat where "MAX_TICKET_LIFETIME_MS = 600000"

text \<open>\<^verbatim>\<open>Ipv4Addr::from_str\<close>: four decimal octets without leading zeros. A host in brackets is no address.\<close>

definition parse_octet :: "string \<Rightarrow> nat option" where
  "parse_octet s =
     (if s = [] \<or> length s > 3 \<or> list_ex (\<lambda>c. \<not> (48 \<le> (of_char c :: nat) \<and> of_char c \<le> (57 :: nat))) s
         \<or> (length s > 1 \<and> hd s = CHR ''0'')
      then None
      else let n = foldl (\<lambda>acc c. acc * 10 + (of_char c - 48)) (0 :: nat) s in
        if n > 255 then None else Some n)"

fun split_dots :: "string \<Rightarrow> string list" where
  "split_dots [] = [[]]"
| "split_dots (c # cs) =
     (if c = CHR ''.'' then [] # split_dots cs
      else (case split_dots cs of s # rest \<Rightarrow> (c # s) # rest | [] \<Rightarrow> [[c]]))"

definition parse_ipv4 :: "string \<Rightarrow> nat list option" where
  "parse_ipv4 s =
     (let parts = map parse_octet (split_dots s) in
      if length parts \<noteq> 4 \<or> None \<in> set parts then None else Some (map the parts))"

definition is_loopback_host :: "string option \<Rightarrow> bool" where
  "is_loopback_host host =
     (case host of None \<Rightarrow> False | Some h \<Rightarrow> (case parse_ipv4 h of None \<Rightarrow> False | Some ip \<Rightarrow> hd ip = 127))"

definition validate_host :: "('z witness_ext_scheme) \<Rightarrow> string \<Rightarrow> bool \<Rightarrow> unit + unit" where
  "validate_host E value allow_loopback =
     bindr (ok_or (url_parse E value) ()) (\<lambda>url.
     let local' = is_loopback_host (url_host url) in
     if url_host url = None
        \<or> url_username url \<noteq> []
        \<or> url_password url \<noteq> None
        \<or> url_query url \<noteq> None
        \<or> url_fragment url \<noteq> None
        \<or> url_path E value \<noteq> ''/spaces/v1/create''
        \<or> \<not> (url_scheme url = ''https'' \<or> (allow_loopback \<and> local' \<and> url_scheme url = ''http''))
     then Inl () else Inr ())"

definition RegistrationHost_validate :: "('z witness_ext_scheme) \<Rightarrow> RegistrationHost \<Rightarrow> RecordError + unit" where
  "RegistrationHost_validate E h =
     (if length (rh_host h) > 2048 then Inl Framing
      else
      bindr (map_err (\<lambda>_. Authority_err) (validate_host E (rh_host h) True)) (\<lambda>_.
      bindr (hex 32 (rh_public_key h)) (\<lambda>kb.
      bindr (verifying_key E kb Signature) (\<lambda>_. Inr ()))))"

definition ticket_validate :: "('z witness_ext_scheme) \<Rightarrow> RegistrationTicket \<Rightarrow> RecordError + unit" where
  "ticket_validate E t =
     (if length (rt_host t) > 2048 then Inl Framing
      else
      bindr (map_err (\<lambda>_. Authority_err) (validate_host E (rt_host t) True)) (\<lambda>_.
      bindr (pin_validate E \<lparr>wp_url = rt_audience t, wp_public_key = rt_witness_public_key t,
               wp_key_generation = rt_witness_key_generation t\<rparr>) (\<lambda>_.
      bindr (hex 32 (rt_reservation_id t)) (\<lambda>_.
      if rt_v t \<noteq> 1
         \<or> rt_kind t \<noteq> ''witness.registration_ticket''
         \<or> rt_issued_at_ms t \<ge> rt_expires_at_ms t
         \<or> rt_expires_at_ms t > MAX_INTEGER
         \<or> rt_expires_at_ms t - rt_issued_at_ms t > MAX_TICKET_LIFETIME_MS
      then Inl Authority_err else Inr ()))))"

definition ticket_sign :: "('z witness_ext_scheme) \<Rightarrow> RegistrationTicket \<Rightarrow> bytes \<Rightarrow> RecordError + SignedRecord" where
  "ticket_sign E t key =
     bindr (ticket_validate E t) (\<lambda>_. sign_bounded E (ser_ticket E t) key MAX_TICKET_BYTES)"

definition ticket_parse ::
  "('z witness_ext_scheme) \<Rightarrow> string \<Rightarrow> RecordError + RegistrationTicket \<times> SignedRecord" where
  "ticket_parse E encoded =
     (if length encoded > MAX_TICKET_BYTES * 2 then Inl Framing
      else
      bindr (ok_or (b64_decode E encoded) Framing) (\<lambda>b.
      bindr (parse_bounded E b MAX_TICKET_BYTES) (\<lambda>signed.
      bindr (decode_with (dec_ticket E) signed) (\<lambda>body.
      bindr (ticket_validate E body) (\<lambda>_.
      Inr (body, signed))))))"

end
