(* ===== verification/Calls.thy ===== *)
theory Calls
  imports Witness_Wire
begin

text \<open>
  \<^verbatim>\<open>crates/elo-core/src/calls.rs\<close> and the certificates of \<^verbatim>\<open>calls/delegation.rs\<close>: signed call
  commands, who may issue them, and the short-lived call keys a device delegates. Payload
  encryption is a parameter: \<^verbatim>\<open>seal_bytes\<close> and \<^verbatim>\<open>open_bytes\<close> of \<^verbatim>\<open>crypto.rs\<close> appear as the
  function or the value the operation receives.
\<close>

definition COMMAND_TTL :: nat where "COMMAND_TTL = 60"
definition RING_TTL :: nat where "RING_TTL = 60"
definition MAX_SIGNAL_BYTES :: nat where "MAX_SIGNAL_BYTES = 64 * 1024"
definition MAX_DELEGATION_TTL :: nat where "MAX_DELEGATION_TTL = 24 * 60 * 60"
definition MAX_CERTIFICATE :: nat where "MAX_CERTIFICATE = 8192"

subsection \<open>Commands\<close>

datatype CallScope = CallScope (cs_space_id: SpaceId) (cs_stream_id: StreamId)

instantiation CallScope :: linorder
begin

definition less_eq_CallScope :: "CallScope \<Rightarrow> CallScope \<Rightarrow> bool" where
  "less_eq_CallScope a b \<longleftrightarrow> (cs_space_id a, cs_stream_id a) \<le> (cs_space_id b, cs_stream_id b)"

definition less_CallScope :: "CallScope \<Rightarrow> CallScope \<Rightarrow> bool" where
  "less_CallScope a b \<longleftrightarrow> (cs_space_id a, cs_stream_id a) < (cs_space_id b, cs_stream_id b)"

instance
proof
  fix a b c :: CallScope
  show "a < b \<longleftrightarrow> a \<le> b \<and> \<not> b \<le> a" by (auto simp: less_eq_CallScope_def less_CallScope_def)
  show "a \<le> a" by (simp add: less_eq_CallScope_def)
  show "a \<le> b \<Longrightarrow> b \<le> c \<Longrightarrow> a \<le> c" unfolding less_eq_CallScope_def by (rule order_trans)
  show "a \<le> b \<Longrightarrow> b \<le> a \<Longrightarrow> a = b"
    unfolding less_eq_CallScope_def by (cases a; cases b) (auto dest: order_antisym)
  show "a \<le> b \<or> b \<le> a" unfolding less_eq_CallScope_def by (rule linear)
qed

end

datatype CallKind = Direct | Group

datatype InitialMedia = Audio | Video

record MediaState =
  ms_audio_muted :: bool
  ms_video_published :: bool
  ms_screen_published :: bool

datatype Operation =
    Subscribe
  | Start CallKind InitialMedia
  | Join string "string option"
  | Leave string
  | Decline string string
  | Cancel string
  | End string
  | Invite string IdentityId
  | Heartbeat string
  | ConnectMedia string
  | Media string MediaState
  | Signal_op string nat RecordId string

fun call_id :: "Operation \<Rightarrow> string option" where
  "call_id Subscribe = None"
| "call_id (Start _ _) = None"
| "call_id (Join i _) = Some i"
| "call_id (Leave i) = Some i"
| "call_id (Decline i _) = Some i"
| "call_id (Cancel i) = Some i"
| "call_id (End i) = Some i"
| "call_id (Invite i _) = Some i"
| "call_id (Heartbeat i) = Some i"
| "call_id (ConnectMedia i) = Some i"
| "call_id (Media i _) = Some i"
| "call_id (Signal_op i _ _ _) = Some i"

record Command =
  co_v :: nat
  co_kind :: string
  co_audience :: string
  co_hosting_space_id :: SpaceId
  co_scope :: CallScope
  co_config_id :: RecordId
  co_credential_id :: RecordId
  co_nonce :: string
  co_issued_at :: nat
  co_expires_at :: nat
  co_operation :: Operation

datatype SignalPayload =
    RequestOffer
  | MediaKey nat string
  | Offer string
  | Answer string
  | Ice string "string option" "nat option"
  | RequestKey nat

record Signal =
  si_v :: nat
  si_kind :: string
  si_scope :: CallScope
  si_config_id :: RecordId
  si_call_id :: string
  si_epoch :: nat
  si_from :: RecordId
  si_to :: RecordId
  si_nonce :: string
  si_issued_at :: nat
  si_expires_at :: nat
  si_payload :: SignalPayload

record Delegation =
  de_v :: nat
  de_kind :: string
  de_audience :: string
  de_hosting_space_id :: SpaceId
  de_scope :: CallScope
  de_config_id :: RecordId
  de_issuer_credential :: RecordId
  de_signing_public_key :: string
  de_age_recipient :: string
  de_issued_at :: nat
  de_expires_at :: nat

record VerifiedDelegation =
  vd_body :: Delegation
  vd_certificate :: SignedRecord
  vd_key :: bytes
  vd_recipient :: string

record calls_ext = witness_ext +
  dec_command :: "json \<Rightarrow> Command option"
  ser_command :: "Command \<Rightarrow> bytes"
  dec_delegation :: "json \<Rightarrow> Delegation option"
  ser_delegation :: "Delegation \<Rightarrow> bytes"
  dec_signal :: "json \<Rightarrow> Signal option"
  ser_signal :: "Signal \<Rightarrow> bytes"

definition operation_invitation :: "Operation \<Rightarrow> string option" where
  "operation_invitation oper =
     (case oper of Decline _ i \<Rightarrow> Some i | Join _ i \<Rightarrow> i | _ \<Rightarrow> None)"

definition validate_signal_op :: "('z crypto_scheme) \<Rightarrow> Operation \<Rightarrow> RecordError + unit" where
  "validate_signal_op E oper =
     (case oper of
        Signal_op _ epoch _ ciphertext \<Rightarrow>
          if epoch = 0 \<or> length ciphertext > MAX_SIGNAL_BYTES * 2 then Inl Framing
          else
          bindr (ok_or (b64_decode E ciphertext) Json) (\<lambda>b.
          if b = [] \<or> length b > MAX_SIGNAL_BYTES + 4096 then Inl Framing else Inr ())
      | _ \<Rightarrow> Inr ())"

definition Operation_validate :: "('z crypto_scheme) \<Rightarrow> Operation \<Rightarrow> RecordError + unit" where
  "Operation_validate E oper =
     bindr (case call_id oper of None \<Rightarrow> Inr [] | Some i \<Rightarrow> hex 16 i) (\<lambda>_.
     bindr (case operation_invitation oper of None \<Rightarrow> Inr [] | Some i \<Rightarrow> hex 16 i) (\<lambda>_.
     validate_signal_op E oper))"

definition check_time :: "nat \<Rightarrow> nat \<Rightarrow> nat \<Rightarrow> RecordError + unit" where
  "check_time issued expires now =
     (if issued > saturating_add now 15 \<or> expires \<le> now \<or> expires \<le> issued
         \<or> expires > saturating_add issued COMMAND_TTL
      then Inl Authority_err else Inr ())"

definition require_member :: "Authority \<Rightarrow> RecordId \<Rightarrow> RecordError + IdentityId" where
  "require_member a cred =
     (if au_forked a then Inl Authority_err
      else
      bindr (head a) (\<lambda>h.
      bindr (credential a cred) (\<lambda>device.
      if \<not> list_ex (\<lambda>m. me_identity_id m = identity device
             \<and> cred \<in> set (me_credential_ids m)
             \<and> Post \<in> set (me_capabilities m) \<and> Read \<in> set (me_capabilities m)) (sc_members h)
      then Inl Authority_err
      else Inr (identity device))))"

definition sign_command ::
  "('z calls_ext_scheme) \<Rightarrow> bytes option \<Rightarrow> Authority \<Rightarrow> VerifiedCredential \<Rightarrow> bytes \<Rightarrow> SpaceId \<Rightarrow> string \<Rightarrow>
   Operation \<Rightarrow> nat \<Rightarrow> RecordError + SignedRecord" where
  "sign_command E rnd a own key hosting audience oper now =
     bindr (require_member a (credential_id E own)) (\<lambda>_.
     bindr (Operation_validate E oper) (\<lambda>_.
     if audience = [] \<or> length audience > 2048 \<or> list_ex is_control (str_chars audience)
     then Inl Authority_err
     else
     bindr (ok_or (au_head a) Authority_err) (\<lambda>h.
     bindr (random_hex rnd) (\<lambda>nonce.
     sign E (ser_command E
       \<lparr>co_v = 1, co_kind = ''call.command'', co_audience = audience, co_hosting_space_id = hosting,
        co_scope = CallScope (space E a) (au_stream a), co_config_id = h,
        co_credential_id = credential_id E own, co_nonce = nonce, co_issued_at = now,
        co_expires_at = saturating_add now COMMAND_TTL, co_operation = oper\<rparr>) key))))"

definition verify_command_authorship ::
  "('z calls_ext_scheme) \<Rightarrow> VerifiedCredential \<Rightarrow> SignedRecord \<Rightarrow> string \<Rightarrow> nat \<Rightarrow> RecordError + Command" where
  "verify_command_authorship E cred srec audience now =
     bindr (decode_with (dec_command E) srec) (\<lambda>cmd.
     if co_v cmd \<noteq> 1
        \<or> co_kind cmd \<noteq> ''call.command''
        \<or> co_audience cmd \<noteq> audience
        \<or> co_credential_id cmd \<noteq> credential_id E cred
     then Inl Authority_err
     else
     bindr (hex 16 (co_nonce cmd)) (\<lambda>_.
     bindr (check_time (co_issued_at cmd) (co_expires_at cmd) now) (\<lambda>_.
     bindr (verify_signature E srec (vc_key cred)) (\<lambda>_.
     bindr (Operation_validate E (co_operation cmd)) (\<lambda>_.
     Inr cmd)))))"

definition signal_target_member :: "Authority \<Rightarrow> Operation \<Rightarrow> RecordError + unit" where
  "signal_target_member a oper =
     (case oper of Signal_op _ _ to _ \<Rightarrow> bindr (require_member a to) (\<lambda>_. Inr ()) | _ \<Rightarrow> Inr ())"

definition verify_command ::
  "('z calls_ext_scheme) \<Rightarrow> Authority \<Rightarrow> SignedRecord \<Rightarrow> string \<Rightarrow> nat \<Rightarrow> RecordError + Command" where
  "verify_command E a srec audience now =
     bindr (decode_with (dec_command E) srec) (\<lambda>cmd.
     if co_v cmd \<noteq> 1
        \<or> co_kind cmd \<noteq> ''call.command''
        \<or> co_audience cmd \<noteq> audience
        \<or> cs_space_id (co_scope cmd) \<noteq> space E a
        \<or> cs_stream_id (co_scope cmd) \<noteq> au_stream a
        \<or> Some (co_config_id cmd) \<noteq> au_head a
     then Inl Authority_err
     else
     bindr (hex 16 (co_nonce cmd)) (\<lambda>_.
     bindr (check_time (co_issued_at cmd) (co_expires_at cmd) now) (\<lambda>_.
     bindr (require_member a (co_credential_id cmd)) (\<lambda>_.
     bindr (credential a (co_credential_id cmd)) (\<lambda>device.
     bindr (verify_signature E srec (vc_key device)) (\<lambda>_.
     bindr (Operation_validate E (co_operation cmd)) (\<lambda>_.
     bindr (signal_target_member a (co_operation cmd)) (\<lambda>_.
     Inr cmd))))))))"

subsection \<open>Signals\<close>

fun SignalPayload_validate :: "SignalPayload \<Rightarrow> RecordError + unit" where
  "SignalPayload_validate (MediaKey epoch key) =
     bindr (hex 32 key) (\<lambda>_. if epoch = 0 then Inl Json else Inr ())"
| "SignalPayload_validate (RequestKey epoch) = (if epoch = 0 then Inl Json else Inr ())"
| "SignalPayload_validate (Offer sdp) = (if sdp = [] \<or> length sdp > 48 * 1024 then Inl Framing else Inr ())"
| "SignalPayload_validate (Answer sdp) = (if sdp = [] \<or> length sdp > 48 * 1024 then Inl Framing else Inr ())"
| "SignalPayload_validate (Ice candidate mid _) =
     (if length candidate > 4096 \<or> (case mid of None \<Rightarrow> False | Some v \<Rightarrow> length v > 256)
      then Inl Framing else Inr ())"
| "SignalPayload_validate RequestOffer = Inr ()"

definition seal_signal ::
  "('z calls_ext_scheme) \<Rightarrow> bytes option \<Rightarrow> (bytes \<Rightarrow> string \<Rightarrow> bytes option) \<Rightarrow> Authority \<Rightarrow>
   VerifiedCredential \<Rightarrow> bytes \<Rightarrow> string \<Rightarrow> nat \<Rightarrow> RecordId \<Rightarrow> SignalPayload \<Rightarrow> nat \<Rightarrow> RecordError + string" where
  "seal_signal E rnd seal_bytes a own key cid epoch to payload now =
     bindr (require_member a (credential_id E own)) (\<lambda>_.
     bindr (require_member a to) (\<lambda>_.
     bindr (hex 16 cid) (\<lambda>_.
     if epoch = 0 then Inl Authority_err
     else
     bindr (SignalPayload_validate payload) (\<lambda>_.
     bindr (ok_or (au_head a) Authority_err) (\<lambda>h.
     bindr (random_hex rnd) (\<lambda>nonce.
     let plaintext = ser_signal E
       \<lparr>si_v = 1, si_kind = ''call.signal'', si_scope = CallScope (space E a) (au_stream a),
        si_config_id = h, si_call_id = cid, si_epoch = epoch, si_from = credential_id E own, si_to = to,
        si_nonce = nonce, si_issued_at = now, si_expires_at = saturating_add now COMMAND_TTL,
        si_payload = payload\<rparr> in
     if length plaintext > MAX_SIGNAL_BYTES then Inl Framing
     else
     bindr (sign E plaintext key) (\<lambda>r.
     bindr (credential a to) (\<lambda>peer.
     bindr (ok_or (seal_bytes (rec_bytes r) (recipient peer)) Authority_err) (\<lambda>ct.
     Inr (b64_encode E ct))))))))))"

definition open_signal ::
  "('z calls_ext_scheme) \<Rightarrow> (bytes \<Rightarrow> bytes option) \<Rightarrow> Authority \<Rightarrow> VerifiedCredential \<Rightarrow> string \<Rightarrow> nat \<Rightarrow>
   string \<Rightarrow> nat \<Rightarrow> RecordError + Signal" where
  "open_signal E open_bytes a own cid epoch ciphertext now =
     bindr (require_member a (credential_id E own)) (\<lambda>_.
     if length ciphertext > MAX_SIGNAL_BYTES * 2 then Inl Framing
     else
     bindr (ok_or (b64_decode E ciphertext) Json) (\<lambda>b.
     bindr (ok_or (open_bytes b) Authority_err) (\<lambda>plaintext.
     bindr (parse E plaintext) (\<lambda>srec.
     bindr (decode_with (dec_signal E) srec) (\<lambda>sig.
     if si_v sig \<noteq> 1
        \<or> si_kind sig \<noteq> ''call.signal''
        \<or> si_call_id sig \<noteq> cid
        \<or> epoch = 0
        \<or> si_epoch sig \<noteq> epoch
        \<or> cs_space_id (si_scope sig) \<noteq> space E a
        \<or> cs_stream_id (si_scope sig) \<noteq> au_stream a
        \<or> Some (si_config_id sig) \<noteq> au_head a
        \<or> si_to sig \<noteq> credential_id E own
     then Inl Authority_err
     else
     bindr (hex 16 (si_nonce sig)) (\<lambda>_.
     bindr (check_time (si_issued_at sig) (si_expires_at sig) now) (\<lambda>_.
     bindr (require_member a (si_from sig)) (\<lambda>_.
     bindr (credential a (si_from sig)) (\<lambda>device.
     bindr (verify_signature E srec (vc_key device)) (\<lambda>_.
     bindr (SignalPayload_validate (si_payload sig)) (\<lambda>_.
     Inr sig)))))))))))"

subsection \<open>Delegated call keys\<close>

definition verify_authorship ::
  "('z calls_ext_scheme) \<Rightarrow> VerifiedCredential \<Rightarrow> SignedRecord \<Rightarrow> string \<Rightarrow> nat \<Rightarrow> RecordError + VerifiedDelegation" where
  "verify_authorship E cred certificate audience now =
     (if length (rec_bytes certificate) > MAX_CERTIFICATE then Inl Framing
      else
      bindr (decode_with (dec_delegation E) certificate) (\<lambda>body.
      if de_v body \<noteq> 1
         \<or> de_kind body \<noteq> ''call.delegation''
         \<or> de_audience body \<noteq> audience
         \<or> de_issuer_credential body \<noteq> credential_id E cred
         \<or> de_issued_at body > saturating_add now 15
         \<or> de_expires_at body \<le> now
         \<or> de_expires_at body \<le> de_issued_at body
         \<or> de_expires_at body > saturating_add (de_issued_at body) MAX_DELEGATION_TTL
      then Inl Authority_err
      else
      bindr (verify_signature E certificate (vc_key cred)) (\<lambda>_.
      bindr (hex 32 (de_signing_public_key body)) (\<lambda>kb.
      bindr (verifying_key E kb Signature) (\<lambda>key.
      bindr (ok_or (age_parse E (de_age_recipient body)) Json) (\<lambda>rcpt.
      Inr \<lparr>vd_body = body, vd_certificate = certificate, vd_key = key, vd_recipient = rcpt\<rparr>))))))"

definition delegation_verify ::
  "('z calls_ext_scheme) \<Rightarrow> Authority \<Rightarrow> SignedRecord \<Rightarrow> SpaceId \<Rightarrow> string \<Rightarrow> nat \<Rightarrow>
   RecordError + VerifiedDelegation" where
  "delegation_verify E a certificate hosting audience now =
     bindr (decode_with (dec_delegation E) certificate) (\<lambda>body.
     bindr (require_member a (de_issuer_credential body)) (\<lambda>_.
     bindr (credential a (de_issuer_credential body)) (\<lambda>issuer.
     bindr (verify_authorship E issuer certificate audience now) (\<lambda>verified.
     if de_hosting_space_id (vd_body verified) \<noteq> hosting
        \<or> cs_space_id (de_scope (vd_body verified)) \<noteq> space E a
        \<or> cs_stream_id (de_scope (vd_body verified)) \<noteq> au_stream a
        \<or> Some (de_config_id (vd_body verified)) \<noteq> au_head a
     then Inl Authority_err
     else Inr verified))))"

definition decode_certificate :: "('z crypto_scheme) \<Rightarrow> string \<Rightarrow> RecordError + SignedRecord" where
  "decode_certificate E encoded =
     (if length encoded > MAX_CERTIFICATE * 2 then Inl Framing
      else
      bindr (ok_or (b64_decode E encoded) Json) (\<lambda>b.
      if length b > MAX_CERTIFICATE then Inl Framing else parse E b))"

definition delegated_command_authorship ::
  "('z calls_ext_scheme) \<Rightarrow> VerifiedCredential \<Rightarrow> SignedRecord \<Rightarrow> SignedRecord \<Rightarrow> string \<Rightarrow> nat \<Rightarrow>
   RecordError + Command" where
  "delegated_command_authorship E cred command certificate audience now =
     bindr (verify_authorship E cred certificate audience now) (\<lambda>verified.
     bindr (decode_with (dec_command E) command) (\<lambda>body.
     if co_v body \<noteq> 1
        \<or> co_kind body \<noteq> ''call.command''
        \<or> co_audience body \<noteq> audience
        \<or> co_credential_id body \<noteq> de_issuer_credential (vd_body verified)
        \<or> co_hosting_space_id body \<noteq> de_hosting_space_id (vd_body verified)
        \<or> co_scope body \<noteq> de_scope (vd_body verified)
        \<or> co_config_id body \<noteq> de_config_id (vd_body verified)
        \<or> co_expires_at body > de_expires_at (vd_body verified)
        \<or> (case co_operation body of Start _ _ \<Rightarrow> True | _ \<Rightarrow> False)
     then Inl Authority_err
     else
     bindr (hex 16 (co_nonce body)) (\<lambda>_.
     bindr (check_time (co_issued_at body) (co_expires_at body) now) (\<lambda>_.
     bindr (Operation_validate E (co_operation body)) (\<lambda>_.
     bindr (verify_signature E command (vd_key verified)) (\<lambda>_.
     Inr body))))))"

definition delegated_command ::
  "('z calls_ext_scheme) \<Rightarrow> Authority \<Rightarrow> SignedRecord \<Rightarrow> SignedRecord \<Rightarrow> string \<Rightarrow> nat \<Rightarrow> RecordError + Command" where
  "delegated_command E a command certificate audience now =
     bindr (decode_with (dec_command E) command) (\<lambda>unverified.
     bindr (delegation_verify E a certificate (co_hosting_space_id unverified) audience now) (\<lambda>verified.
     bindr (credential a (de_issuer_credential (vd_body verified))) (\<lambda>issuer.
     bindr (delegated_command_authorship E issuer command certificate audience now) (\<lambda>cmd.
     bindr (signal_target_member a (co_operation cmd)) (\<lambda>_.
     Inr cmd)))))"

subsection \<open>What an accepted command proves\<close>

text \<open>The device is listed by the head under an identity that may read and post.\<close>

definition current_member :: "Authority \<Rightarrow> RecordId \<Rightarrow> IdentityId \<Rightarrow> bool" where
  "current_member a cred ident \<longleftrightarrow>
     \<not> au_forked a \<and> (\<exists>h device m. head a = Inr h \<and> credential a cred = Inr device \<and> identity device = ident
       \<and> m \<in> set (sc_members h) \<and> me_identity_id m = ident \<and> cred \<in> set (me_credential_ids m)
       \<and> Post \<in> set (me_capabilities m) \<and> Read \<in> set (me_capabilities m))"

lemma require_member_iff: "require_member a cred = Inr ident \<longleftrightarrow> current_member a cred ident"
  unfolding require_member_def current_member_def bindr_eq_Inr guard_eq_Inr list_ex_iff by auto

lemma check_time_iff:
  "check_time issued expires now = Inr u \<longleftrightarrow>
     issued \<le> saturating_add now 15 \<and> now < expires \<and> issued < expires \<and> expires \<le> saturating_add issued COMMAND_TTL"
  by (auto simp: check_time_def)

lemma verify_command_Inr:
  assumes "verify_command E a srec audience now = Inr cmd"
  obtains ident device where
    "dec_command E (rec_body srec) = Some cmd" "co_audience cmd = audience"
    "cs_space_id (co_scope cmd) = space E a" "cs_stream_id (co_scope cmd) = au_stream a"
    "Some (co_config_id cmd) = au_head a"
    "check_time (co_issued_at cmd) (co_expires_at cmd) now = Inr ()"
    "require_member a (co_credential_id cmd) = Inr ident" "credential a (co_credential_id cmd) = Inr device"
    "verify_signature E srec (vc_key device) = Inr ()" "Operation_validate E (co_operation cmd) = Inr ()"
    "signal_target_member a (co_operation cmd) = Inr ()"
proof -
  from assms obtain cmd' where "cmd' = cmd" "dec_command E (rec_body srec) = Some cmd'" and
    r: "\<exists>ident device. co_audience cmd' = audience \<and> cs_space_id (co_scope cmd') = space E a
    \<and> cs_stream_id (co_scope cmd') = au_stream a \<and> Some (co_config_id cmd') = au_head a
    \<and> check_time (co_issued_at cmd') (co_expires_at cmd') now = Inr ()
    \<and> require_member a (co_credential_id cmd') = Inr ident \<and> credential a (co_credential_id cmd') = Inr device
    \<and> verify_signature E srec (vc_key device) = Inr () \<and> Operation_validate E (co_operation cmd') = Inr ()
    \<and> signal_target_member a (co_operation cmd') = Inr ()"
    unfolding verify_command_def bindr_eq_Inr guard_eq_Inr decode_with_iff de_Morgan_disj not_not ex_unit_iff
      sum.inject by blast
  then show thesis by (auto intro: that)
qed

text \<open>
  An accepted call command comes from a current member. Its device is listed by the head
  of the unforked space under an identity that may read and post, that device signed it, it
  names exactly this space, stream and head, and it is fresh: issued at most fifteen seconds
  ahead, not expired, and valid for at most a minute. A signal is addressed to a current
  member.
\<close>

lemma command_from_member:
  assumes "verify_command E a srec audience now = Inr cmd"
  shows "\<exists>ident device. current_member a (co_credential_id cmd) ident
    \<and> credential a (co_credential_id cmd) = Inr device \<and> verify_signature E srec (vc_key device) = Inr ()
    \<and> co_scope cmd = CallScope (space E a) (au_stream a) \<and> au_head a = Some (co_config_id cmd)
    \<and> co_issued_at cmd \<le> now + 15 \<and> now < co_expires_at cmd \<and> co_expires_at cmd \<le> co_issued_at cmd + 60
    \<and> (\<forall>i epoch to ct. co_operation cmd = Signal_op i epoch to ct \<longrightarrow>
         epoch \<noteq> 0 \<and> (\<exists>peer. current_member a to peer))"
  using assms
proof (rule verify_command_Inr)
  fix ident device
  assume h: "cs_space_id (co_scope cmd) = space E a" "cs_stream_id (co_scope cmd) = au_stream a"
    "Some (co_config_id cmd) = au_head a" "check_time (co_issued_at cmd) (co_expires_at cmd) now = Inr ()"
    "require_member a (co_credential_id cmd) = Inr ident" "credential a (co_credential_id cmd) = Inr device"
    "verify_signature E srec (vc_key device) = Inr ()" "Operation_validate E (co_operation cmd) = Inr ()"
    "signal_target_member a (co_operation cmd) = Inr ()"
  have "co_scope cmd = CallScope (space E a) (au_stream a)" using h(1,2) by (cases "co_scope cmd") simp
  moreover have "co_issued_at cmd \<le> now + 15" "now < co_expires_at cmd" "co_expires_at cmd \<le> co_issued_at cmd + 60"
    using h(4) saturating_add_le [of now 15] saturating_add_le [of "co_issued_at cmd" COMMAND_TTL]
    by (auto simp: check_time_iff COMMAND_TTL_def)
  moreover have "epoch \<noteq> 0 \<and> (\<exists>peer. current_member a to peer)"
    if "co_operation cmd = Signal_op i epoch to ct" for i epoch to ct
    using h(8,9) that
    by (auto simp: Operation_validate_def validate_signal_op_def signal_target_member_def bindr_eq_Inr
        require_member_iff split: if_splits)
  ultimately show ?thesis
    using h(3,5,6,7) unfolding require_member_iff
    by (intro exI [of _ ident] exI [of _ device]) (auto simp del: verify_signature_iff)
qed

lemma verify_authorship_Inr:
  assumes "verify_authorship E cred certificate audience now = Inr v"
  shows "verify_signature E certificate (vc_key cred) = Inr ()"
    "de_issuer_credential (vd_body v) = credential_id E cred"
    "now < de_expires_at (vd_body v)" "de_expires_at (vd_body v) \<le> de_issued_at (vd_body v) + MAX_DELEGATION_TTL"
    "dec_delegation E (rec_body certificate) = Some (vd_body v)"
    "de_signing_public_key (vd_body v) = encode_hex (vd_key v)"
proof -
  have "\<exists>body key rc. v = \<lparr>vd_body = body, vd_certificate = certificate, vd_key = key, vd_recipient = rc\<rparr>
    \<and> verify_signature E certificate (vc_key cred) = Inr ()
    \<and> de_issuer_credential body = credential_id E cred \<and> \<not> de_expires_at body \<le> now
    \<and> \<not> de_expires_at body > saturating_add (de_issued_at body) MAX_DELEGATION_TTL
    \<and> dec_delegation E (rec_body certificate) = Some body \<and> hex 32 (de_signing_public_key body) = Inr key"
    using assms
    unfolding verify_authorship_def bindr_eq_Inr guard_eq_Inr decode_with_iff de_Morgan_disj not_not ex_unit_iff
      sum.inject verifying_key_eq_Inr by blast
  then show "verify_signature E certificate (vc_key cred) = Inr ()"
    "de_issuer_credential (vd_body v) = credential_id E cred"
    "now < de_expires_at (vd_body v)" "de_expires_at (vd_body v) \<le> de_issued_at (vd_body v) + MAX_DELEGATION_TTL"
    "dec_delegation E (rec_body certificate) = Some (vd_body v)"
    "de_signing_public_key (vd_body v) = encode_hex (vd_key v)"
    using order_trans [OF _ saturating_add_le [of _ MAX_DELEGATION_TTL]]
    by (auto simp: hex_iff not_less simp del: verify_signature_iff)
qed

text \<open>
  A delegated call key has no more power than its certificate. A command accepted under a
  delegation was signed by the delegated key, and the certificate was signed by a device that
  is a current member; the command stays within the certificate's scope, head, hosting space
  and lifetime of at most a day, and it never starts a call.
\<close>

lemma delegated_command_bounded:
  assumes "delegated_command E a srec certificate audience now = Inr cmd"
  shows "\<exists>ident device (v :: VerifiedDelegation). current_member a (co_credential_id cmd) ident
    \<and> credential a (co_credential_id cmd) = Inr device
    \<and> verify_signature E certificate (vc_key device) = Inr ()
    \<and> dec_delegation E (rec_body certificate) = Some (vd_body v)
    \<and> de_signing_public_key (vd_body v) = encode_hex (vd_key v)
    \<and> verify_signature E srec (vd_key v) = Inr ()
    \<and> co_scope cmd = de_scope (vd_body v) \<and> co_config_id cmd = de_config_id (vd_body v)
    \<and> au_head a = Some (co_config_id cmd)
    \<and> co_hosting_space_id cmd = de_hosting_space_id (vd_body v)
    \<and> now < co_expires_at cmd \<and> co_expires_at cmd \<le> de_expires_at (vd_body v)
    \<and> de_expires_at (vd_body v) \<le> de_issued_at (vd_body v) + 86400
    \<and> (\<forall>k m. co_operation cmd \<noteq> Start k m)"
proof -
  from assms obtain u v issuer where
    d: "delegation_verify E a certificate (co_hosting_space_id (u :: Command)) audience now = Inr v"
      "credential a (de_issuer_credential (vd_body v)) = Inr issuer"
      "delegated_command_authorship E issuer srec certificate audience now = Inr cmd"
    unfolding delegated_command_def bindr_eq_Inr by blast
  from d(1) obtain body ident issuer' where v: "dec_delegation E (rec_body certificate) = Some body"
    "require_member a (de_issuer_credential body) = Inr ident"
    "verify_authorship E issuer' certificate audience now = Inr v" "Some (de_config_id (vd_body v)) = au_head a"
    unfolding delegation_verify_def bindr_eq_Inr guard_eq_Inr decode_with_iff de_Morgan_disj not_not sum.inject
    by blast
  from d(3) obtain w where w: "verify_authorship E issuer certificate audience now = Inr w"
    "co_credential_id cmd = de_issuer_credential (vd_body w)"
    "co_hosting_space_id cmd = de_hosting_space_id (vd_body w)" "co_scope cmd = de_scope (vd_body w)"
    "co_config_id cmd = de_config_id (vd_body w)" "\<not> co_expires_at cmd > de_expires_at (vd_body w)"
    "\<not> (case co_operation cmd of Start _ _ \<Rightarrow> True | _ \<Rightarrow> False)"
    "check_time (co_issued_at cmd) (co_expires_at cmd) now = Inr ()" "verify_signature E srec (vd_key w) = Inr ()"
    unfolding delegated_command_authorship_def bindr_eq_Inr guard_eq_Inr decode_with_iff de_Morgan_disj not_not
      ex_unit_iff sum.inject by blast
  note x = verify_authorship_Inr [OF v(3)] and y = verify_authorship_Inr [OF w(1)]
  have b: "vd_body w = vd_body v" "vd_body v = body" using x(5) y(5) v(1) by simp_all
  show ?thesis
    using v(2,4) w(2-9) y b d(2) unfolding require_member_iff
    by (intro exI [of _ ident] exI [of _ issuer] exI [of _ w])
      (auto simp: check_time_iff MAX_DELEGATION_TTL_def simp del: verify_signature_iff)
qed

end
