(* ===== verification/Registry.thy ===== *)
theory Registry
  imports Calls
begin

text \<open>
  \<^verbatim>\<open>crates/elo-call-service/src/registry.rs\<close>: the state machine of active calls. A room is
  keyed by its scope; every handler of the source is one definition on the room it borrows,
  and \<open>room_outcome\<close> says what the borrowed room turns into. Random identifiers are an
  argument (two draws, the second only used for the first invitation of a direct call).
\<close>

datatype Scope = Scope (sp_hosting_space_id: SpaceId) (sp_conversation: CallScope)

instantiation Scope :: linorder
begin

definition less_eq_Scope :: "Scope \<Rightarrow> Scope \<Rightarrow> bool" where
  "less_eq_Scope a b \<longleftrightarrow>
     (sp_hosting_space_id a, sp_conversation a) \<le> (sp_hosting_space_id b, sp_conversation b)"

definition less_Scope :: "Scope \<Rightarrow> Scope \<Rightarrow> bool" where
  "less_Scope a b \<longleftrightarrow>
     (sp_hosting_space_id a, sp_conversation a) < (sp_hosting_space_id b, sp_conversation b)"

instance
proof
  fix a b c :: Scope
  show "a < b \<longleftrightarrow> a \<le> b \<and> \<not> b \<le> a" by (auto simp: less_eq_Scope_def less_Scope_def)
  show "a \<le> a" by (simp add: less_eq_Scope_def)
  show "a \<le> b \<Longrightarrow> b \<le> c \<Longrightarrow> a \<le> c" unfolding less_eq_Scope_def by (rule order_trans)
  show "a \<le> b \<Longrightarrow> b \<le> a \<Longrightarrow> a = b"
    unfolding less_eq_Scope_def by (cases a; cases b) (auto dest: order_antisym)
  show "a \<le> b \<or> b \<le> a" unfolding less_eq_Scope_def by (rule linear)
qed

end

definition scope_of :: "Command \<Rightarrow> Scope" where
  "scope_of cmd = Scope (co_hosting_space_id cmd) (co_scope cmd)"

subsection \<open>State\<close>

record Limits =
  li_participants :: nat
  li_cameras :: nat
  li_screens :: nat
  li_participant_ttl :: nat
  li_empty_grace :: nat
  li_max_duration :: nat
  li_rooms :: nat

definition Limits_default :: Limits where
  "Limits_default = \<lparr>li_participants = 25, li_cameras = 12, li_screens = 1, li_participant_ttl = 30,
     li_empty_grace = 15, li_max_duration = 12 * 3600, li_rooms = 1024\<rparr>"

record Participant =
  pa_identity_id :: IdentityId
  pa_credential_id :: RecordId
  pa_media :: MediaState
  pa_ready :: bool
  pa_delegation :: "string option"
  pa_last_seen :: nat
  pa_delegation_expires_at :: "nat option"
  pa_accepted_invitation_id :: "string option"

datatype Phase = Ringing | Active

record Invitation =
  iv_invitation_id :: string
  iv_invited_by :: IdentityId
  iv_expires_at :: nat

datatype EndReason = Cancelled | Declined | Ended_reason | Unanswered | Expired | Unauthorized_reason

record ActiveCall =
  ac_call_id :: string
  ac_scope :: Scope
  ac_kind :: CallKind
  ac_initial_media :: InitialMedia
  ac_started_at :: nat
  ac_started_by :: IdentityId
  ac_phase :: Phase
  ac_ring_expires_at :: nat
  ac_answered_at :: "nat option"
  ac_invitations :: "(IdentityId, Invitation) btree_map"
  ac_ready :: bool
  ac_ready_at :: "nat option"
  ac_config_id :: RecordId
  ac_participants :: "(IdentityId, Participant) btree_map"
  ac_key_epoch :: nat
  ac_empty_since :: "nat option"

datatype CallError =
  Unauthorized | CallEnded | AlreadyJoined | Full | MediaLimit | Unavailable | Invalid

datatype Event =
    Presence ActiveCall
  | Ended Scope string EndReason
  | Signal_event Scope string nat RecordId RecordId string

record Registry =
  rg_limits :: Limits
  rg_rooms :: "(Scope, ActiveCall) btree_map"

definition Registry_new :: "Limits \<Rightarrow> CallError + Registry" where
  "Registry_new limits =
     (if \<not> (2 \<le> li_participants limits \<and> li_participants limits \<le> 1000)
         \<or> li_cameras limits > li_participants limits
         \<or> li_screens limits > li_participants limits
         \<or> li_participant_ttl limits < 10
         \<or> li_empty_grace limits = 0
         \<or> li_max_duration limits = 0
         \<or> li_rooms limits = 0
      then Inl Invalid
      else Inr \<lparr>rg_limits = limits, rg_rooms = []\<rparr>)"

definition presence :: "Registry \<Rightarrow> Scope \<Rightarrow> ActiveCall option" where
  "presence reg scope = bt_get (rg_rooms reg) scope"

subsection \<open>Ending rooms\<close>

definition end_with_reason :: "Registry \<Rightarrow> Scope \<Rightarrow> EndReason \<Rightarrow> Registry \<times> Event option" where
  "end_with_reason reg scope reason =
     (reg\<lparr>rg_rooms := bt_remove scope (rg_rooms reg)\<rparr>,
      map_option (\<lambda>room. Ended scope (ac_call_id room) reason) (bt_get (rg_rooms reg) scope))"

definition end_room :: "Registry \<Rightarrow> Scope \<Rightarrow> Registry \<times> Event option" where
  "end_room reg scope = end_with_reason reg scope Unauthorized_reason"

text \<open>\<^verbatim>\<open>Ok(vec![self.end_with_reason(scope, reason).ok_or(CallError::Ended)?])\<close>\<close>

definition finish_room :: "Registry \<Rightarrow> Scope \<Rightarrow> EndReason \<Rightarrow> Registry \<times> (CallError + Event list)" where
  "finish_room reg scope reason =
     (case end_with_reason reg scope reason of
        (reg', Some ev) \<Rightarrow> (reg', Inr [ev])
      | (reg', None) \<Rightarrow> (reg', Inl CallEnded))"

definition ensure_free :: "Registry \<Rightarrow> RecordId \<Rightarrow> Scope \<Rightarrow> CallError + unit" where
  "ensure_free reg cred scope =
     (if list_ex (\<lambda>e. fst e \<noteq> scope
            \<and> list_ex (\<lambda>p. pa_credential_id p = cred) (bt_values (ac_participants (snd e)))) (rg_rooms reg)
      then Inl AlreadyJoined else Inr ())"

definition participant :: "ActiveCall \<Rightarrow> IdentityId \<Rightarrow> RecordId \<Rightarrow> CallError + Participant" where
  "participant call ident cred =
     (case bt_get (ac_participants call) ident of
        Some p \<Rightarrow> if pa_credential_id p = cred then Inr p else Inl Unauthorized
      | None \<Rightarrow> Inl Unauthorized)"

subsection \<open>Operations on one room\<close>

datatype room_outcome =
    Present ActiveCall
  | Silent ActiveCall "Event list"
  | Finish EndReason

definition new_participant :: "IdentityId \<Rightarrow> RecordId \<Rightarrow> nat \<Rightarrow> Participant" where
  "new_participant ident cred now =
     \<lparr>pa_identity_id = ident, pa_credential_id = cred,
      pa_media = \<lparr>ms_audio_muted = True, ms_video_published = False, ms_screen_published = False\<rparr>,
      pa_ready = False, pa_delegation = None, pa_last_seen = now,
      pa_delegation_expires_at = None, pa_accepted_invitation_id = None\<rparr>"

definition invitation_open :: "ActiveCall \<Rightarrow> IdentityId \<Rightarrow> RecordId \<Rightarrow> string \<Rightarrow> nat \<Rightarrow> bool" where
  "invitation_open call ident cred expected now \<longleftrightarrow>
     (case bt_get (ac_invitations call) ident of
        Some invite \<Rightarrow> iv_invitation_id invite = expected \<and> iv_expires_at invite > now | None \<Rightarrow> False)
     \<or> (case bt_get (ac_participants call) ident of
          Some p \<Rightarrow> pa_credential_id p = cred \<and> pa_accepted_invitation_id p = Some expected | None \<Rightarrow> False)"

definition join_participant ::
  "Limits \<Rightarrow> ActiveCall \<Rightarrow> IdentityId \<Rightarrow> RecordId \<Rightarrow> nat \<Rightarrow> CallError + ActiveCall" where
  "join_participant limits call ident cred now =
     (case bt_get (ac_participants call) ident of
        Some joined \<Rightarrow>
          if pa_credential_id joined \<noteq> cred then Inl AlreadyJoined
          else Inr (call\<lparr>ac_participants :=
                 bt_modify ident (\<lambda>p. p\<lparr>pa_last_seen := now\<rparr>) (ac_participants call)\<rparr>)
      | None \<Rightarrow>
          if length (ac_participants call) \<ge> li_participants limits then Inl Full
          else Inr (call\<lparr>ac_participants := bt_insert ident (new_participant ident cred now) (ac_participants call),
                         ac_key_epoch := wrapping_inc (ac_key_epoch call)\<rparr>))"

definition op_join ::
  "Limits \<Rightarrow> ActiveCall \<Rightarrow> IdentityId \<Rightarrow> RecordId \<Rightarrow> string option \<Rightarrow> nat \<Rightarrow> CallError + room_outcome" where
  "op_join limits call ident cred invitation now =
     (if (case invitation of None \<Rightarrow> False | Some expected \<Rightarrow> \<not> invitation_open call ident cred expected now)
      then Inl CallEnded
      else
      bindr (join_participant limits call ident cred now) (\<lambda>call1.
      let call2 = (if invitation \<noteq> None
            then call1\<lparr>ac_participants :=
                   bt_modify ident (\<lambda>p. p\<lparr>pa_accepted_invitation_id := invitation\<rparr>) (ac_participants call1)\<rparr>
            else call1);
          call3 = call2\<lparr>ac_invitations := bt_remove ident (ac_invitations call2)\<rparr>;
          call4 = (if ac_kind call3 = Direct \<and> ident \<noteq> ac_started_by call3
            then call3\<lparr>ac_phase := Active,
                       ac_answered_at := Some (case ac_answered_at call3 of Some t \<Rightarrow> t | None \<Rightarrow> now),
                       ac_invitations := []\<rparr>
            else call3) in
      Inr (Present (call4\<lparr>ac_empty_since := None\<rparr>))))"

definition op_decline :: "ActiveCall \<Rightarrow> IdentityId \<Rightarrow> string \<Rightarrow> CallError + room_outcome" where
  "op_decline call ident invitation =
     (if (case bt_get (ac_invitations call) ident of
            Some invite \<Rightarrow> iv_invitation_id invite \<noteq> invitation | None \<Rightarrow> False)
      then Inl CallEnded
      else if ac_kind call = Direct then
        (if ac_phase call \<noteq> Ringing \<or> ident = ac_started_by call \<or> bt_contains (ac_participants call) ident
         then Inl Invalid else Inr (Finish Declined))
      else Inr (Present (call\<lparr>ac_invitations := bt_remove ident (ac_invitations call)\<rparr>)))"

definition op_cancel :: "ActiveCall \<Rightarrow> IdentityId \<Rightarrow> RecordId \<Rightarrow> CallError + room_outcome" where
  "op_cancel call ident cred =
     (if ac_kind call \<noteq> Direct \<or> ac_phase call \<noteq> Ringing \<or> ident \<noteq> ac_started_by call then Inl Invalid
      else bindr (participant call ident cred) (\<lambda>_. Inr (Finish Cancelled)))"

definition op_end :: "ActiveCall \<Rightarrow> IdentityId \<Rightarrow> RecordId \<Rightarrow> CallError + room_outcome" where
  "op_end call ident cred =
     (if ac_kind call \<noteq> Direct then Inl Invalid
      else bindr (participant call ident cred) (\<lambda>_. Inr (Finish Ended_reason)))"

definition op_invite ::
  "bytes option \<Rightarrow> Authority \<Rightarrow> ActiveCall \<Rightarrow> IdentityId \<Rightarrow> RecordId \<Rightarrow> IdentityId \<Rightarrow> nat \<Rightarrow> CallError + room_outcome" where
  "op_invite rnd a call ident cred to now =
     (if ac_kind call \<noteq> Group \<or> to = ident \<or> bt_contains (ac_participants call) to then Inl Invalid
      else
      bindr (participant call ident cred) (\<lambda>_.
      bindr (map_err (\<lambda>_. Unauthorized) (head a)) (\<lambda>h.
      bindr (ok_or (find_member to (sc_members h)) Unauthorized) (\<lambda>m.
      if \<not> list_ex (\<lambda>i. is_ok (require_member a i)) (me_credential_ids m) then Inl Unauthorized
      else if (case bt_get (ac_invitations call) to of Some invite \<Rightarrow> iv_expires_at invite > now | None \<Rightarrow> False)
      then Inr (Present call)
      else
      bindr (map_err (\<lambda>_. Unavailable) (random_hex rnd)) (\<lambda>iid.
      Inr (Present (call\<lparr>ac_invitations := bt_insert to
        \<lparr>iv_invitation_id = iid, iv_invited_by = ident, iv_expires_at = saturating_add now RING_TTL\<rparr>
        (ac_invitations call)\<rparr>)))))))"

definition op_leave :: "ActiveCall \<Rightarrow> IdentityId \<Rightarrow> RecordId \<Rightarrow> CallError + room_outcome" where
  "op_leave call ident cred =
     bindr (participant call ident cred) (\<lambda>_.
     if ac_kind call = Direct then Inr (Finish Ended_reason)
     else
     let call1 = call\<lparr>ac_participants := bt_remove ident (ac_participants call),
                      ac_key_epoch := wrapping_inc (ac_key_epoch call)\<rparr> in
     if ac_participants call1 = [] then Inr (Finish Ended_reason) else Inr (Present call1))"

definition op_heartbeat :: "ActiveCall \<Rightarrow> IdentityId \<Rightarrow> RecordId \<Rightarrow> nat \<Rightarrow> CallError + room_outcome" where
  "op_heartbeat call ident cred now =
     bindr (participant call ident cred) (\<lambda>_.
     Inr (Silent (call\<lparr>ac_participants :=
       bt_modify ident (\<lambda>p. p\<lparr>pa_last_seen := now\<rparr>) (ac_participants call)\<rparr>) []))"

definition publishing :: "(MediaState \<Rightarrow> bool) \<Rightarrow> ActiveCall \<Rightarrow> IdentityId \<Rightarrow> nat" where
  "publishing sel call ident =
     length (filter (\<lambda>p. pa_identity_id p \<noteq> ident \<and> sel (pa_media p)) (bt_values (ac_participants call)))"

definition op_media ::
  "Limits \<Rightarrow> ActiveCall \<Rightarrow> IdentityId \<Rightarrow> RecordId \<Rightarrow> MediaState \<Rightarrow> nat \<Rightarrow> CallError + room_outcome" where
  "op_media limits call ident cred state now =
     bindr (participant call ident cred) (\<lambda>_.
     if (ms_video_published state \<and> publishing ms_video_published call ident \<ge> li_cameras limits)
        \<or> (ms_screen_published state \<and> publishing ms_screen_published call ident \<ge> li_screens limits)
     then Inl MediaLimit
     else
     let call1 = call\<lparr>ac_participants :=
           bt_modify ident (\<lambda>p. p\<lparr>pa_media := state, pa_ready := True, pa_last_seen := now\<rparr>)
             (ac_participants call)\<rparr> in
     Inr (Present (if ident = ac_started_by call1 \<and> \<not> ac_ready call1
       then call1\<lparr>ac_ready := True, ac_ready_at := Some now\<rparr> else call1)))"

definition op_signal ::
  "Scope \<Rightarrow> ActiveCall \<Rightarrow> IdentityId \<Rightarrow> RecordId \<Rightarrow> nat \<Rightarrow> RecordId \<Rightarrow> string \<Rightarrow> CallError + room_outcome" where
  "op_signal scope call ident cred epoch to ciphertext =
     bindr (participant call ident cred) (\<lambda>_.
     if epoch \<noteq> ac_key_epoch call \<or> to = cred
        \<or> \<not> list_ex (\<lambda>p. pa_credential_id p = to) (bt_values (ac_participants call))
     then Inl Unauthorized
     else Inr (Silent call [Signal_event scope (ac_call_id call) (ac_key_epoch call) cred to ciphertext]))"

definition room_step ::
  "bytes option \<Rightarrow> Limits \<Rightarrow> Authority \<Rightarrow> Command \<Rightarrow> IdentityId \<Rightarrow> nat \<Rightarrow> ActiveCall \<Rightarrow> CallError + room_outcome" where
  "room_step rnd limits a cmd ident now call =
     (let cred = co_credential_id cmd in
      case co_operation cmd of
        Join _ invitation \<Rightarrow> op_join limits call ident cred invitation now
      | Decline _ invitation \<Rightarrow> op_decline call ident invitation
      | Cancel _ \<Rightarrow> op_cancel call ident cred
      | End _ \<Rightarrow> op_end call ident cred
      | Invite _ to \<Rightarrow> op_invite rnd a call ident cred to now
      | Leave _ \<Rightarrow> op_leave call ident cred
      | Heartbeat _ \<Rightarrow> op_heartbeat call ident cred now
      | ConnectMedia _ \<Rightarrow> op_heartbeat call ident cred now
      | Media _ state \<Rightarrow> op_media limits call ident cred state now
      | Signal_op _ epoch to ciphertext \<Rightarrow> op_signal (scope_of cmd) call ident cred epoch to ciphertext
      | _ \<Rightarrow> Inl Invalid)"

definition room_result ::
  "Registry \<Rightarrow> Scope \<Rightarrow> CallError + room_outcome \<Rightarrow> Registry \<times> (CallError + Event list)" where
  "room_result reg scope res =
     (case res of
        Inl e \<Rightarrow> (reg, Inl e)
      | Inr (Present call) \<Rightarrow>
          (reg\<lparr>rg_rooms := bt_modify scope (\<lambda>_. call) (rg_rooms reg)\<rparr>, Inr [Presence call])
      | Inr (Silent call evs) \<Rightarrow>
          (reg\<lparr>rg_rooms := bt_modify scope (\<lambda>_. call) (rg_rooms reg)\<rparr>, Inr evs)
      | Inr (Finish reason) \<Rightarrow> finish_room reg scope reason)"

subsection \<open>Applying a command\<close>

definition apply_in_room ::
  "bytes option \<Rightarrow> Registry \<Rightarrow> Authority \<Rightarrow> Command \<Rightarrow> IdentityId \<Rightarrow> nat \<Rightarrow> Registry \<times> (CallError + Event list)" where
  "apply_in_room rnd reg a cmd ident now =
     (let scope = scope_of cmd in
      case (case co_operation cmd of
              Join _ _ \<Rightarrow> ensure_free reg (co_credential_id cmd) scope | _ \<Rightarrow> Inr ()) of
        Inl e \<Rightarrow> (reg, Inl e)
      | Inr _ \<Rightarrow>
          (case bt_get (rg_rooms reg) scope of
             None \<Rightarrow> (reg, Inl CallEnded)
           | Some call \<Rightarrow>
               if call_id (co_operation cmd) \<noteq> Some (ac_call_id call) then (reg, Inl CallEnded)
               else if ac_config_id call \<noteq> co_config_id cmd then (reg, Inl Unauthorized)
               else room_result reg scope (room_step rnd (rg_limits reg) a cmd ident now call)))"

definition start_invitations ::
  "bytes option \<Rightarrow> CallKind \<Rightarrow> StreamConfig \<Rightarrow> IdentityId \<Rightarrow> nat \<Rightarrow> CallError + (IdentityId, Invitation) btree_map" where
  "start_invitations rnd kind h ident now =
     (if kind = Direct then
        bindr (ok_or (List.find (\<lambda>m. me_identity_id m \<noteq> ident) (sc_members h)) Invalid) (\<lambda>m.
        bindr (map_err (\<lambda>_. Unavailable) (random_hex rnd)) (\<lambda>iid.
        Inr [(me_identity_id m, \<lparr>iv_invitation_id = iid, iv_invited_by = ident,
                                 iv_expires_at = saturating_add now RING_TTL\<rparr>)]))
      else Inr [])"

definition start_room ::
  "bytes option \<times> bytes option \<Rightarrow> Registry \<Rightarrow> Command \<Rightarrow> StreamConfig \<Rightarrow> IdentityId \<Rightarrow> CallKind \<Rightarrow>
   InitialMedia \<Rightarrow> nat \<Rightarrow> CallError + ActiveCall" where
  "start_room rnd reg cmd h ident kind media now =
     (if length (rg_rooms reg) \<ge> li_rooms (rg_limits reg) then Inl Unavailable
      else
      bindr (ensure_free reg (co_credential_id cmd) (scope_of cmd)) (\<lambda>_.
      bindr (map_err (\<lambda>_. Unavailable) (random_hex (fst rnd))) (\<lambda>cid.
      bindr (start_invitations (snd rnd) kind h ident now) (\<lambda>invitations.
      Inr \<lparr>ac_call_id = cid, ac_scope = scope_of cmd, ac_kind = kind, ac_initial_media = media,
           ac_started_at = now, ac_started_by = ident,
           ac_phase = (if kind = Direct then Ringing else Active),
           ac_ring_expires_at = saturating_add now RING_TTL, ac_answered_at = None,
           ac_invitations = invitations, ac_ready = False, ac_ready_at = None,
           ac_config_id = co_config_id cmd,
           ac_participants = [(ident, new_participant ident (co_credential_id cmd) now)],
           ac_key_epoch = 1, ac_empty_since = None\<rparr>))))"

function Registry_apply ::
  "('z crypto_scheme) \<Rightarrow> bytes option \<times> bytes option \<Rightarrow> Registry \<Rightarrow> Authority \<Rightarrow> Command \<Rightarrow> nat \<Rightarrow>
   Registry \<times> (CallError + Event list)" where
  "Registry_apply E rnd reg a cmd now =
     (case require_member a (co_credential_id cmd) of
        Inl _ \<Rightarrow> (reg, Inl Unauthorized)
      | Inr ident \<Rightarrow>
          let scope = scope_of cmd in
          if space E a \<noteq> cs_space_id (co_scope cmd)
             \<or> au_stream a \<noteq> cs_stream_id (co_scope cmd)
             \<or> au_head a \<noteq> Some (co_config_id cmd)
          then (reg, Inl Unauthorized)
          else if (case bt_get (rg_rooms reg) scope of
                     None \<Rightarrow> False
                   | Some call \<Rightarrow> ac_kind call = Direct \<and> ac_phase call = Ringing \<and> now \<ge> ac_ring_expires_at call)
          then finish_room reg scope Unanswered
          else
          (case co_operation cmd of
             Subscribe \<Rightarrow>
               (reg, Inr (case bt_get (rg_rooms reg) scope of Some call \<Rightarrow> [Presence call] | None \<Rightarrow> []))
           | Start kind media \<Rightarrow>
               (case head a of
                  Inl _ \<Rightarrow> (reg, Inl Unauthorized)
                | Inr h \<Rightarrow>
                    let expected = (if sc_chat_kind h = Some ChatKind_Direct then Direct else Group) in
                    if kind \<noteq> expected \<or> (expected = Direct \<and> length (sc_members h) \<noteq> 2)
                    then (reg, Inl Invalid)
                    else
                    (case bt_get (rg_rooms reg) scope of
                       Some call \<Rightarrow>
                         Registry_apply E rnd reg a (cmd\<lparr>co_operation := Join (ac_call_id call) None\<rparr>) now
                     | None \<Rightarrow>
                         (case start_room rnd reg cmd h ident kind media now of
                            Inl e \<Rightarrow> (reg, Inl e)
                          | Inr call \<Rightarrow>
                              (reg\<lparr>rg_rooms := bt_insert scope call (rg_rooms reg)\<rparr>, Inr [Presence call]))))
           | _ \<Rightarrow> apply_in_room (fst rnd) reg a cmd ident now))"
  by pat_completeness auto
termination
  by (relation "measure (\<lambda>(E, rnd, reg, a, cmd, now). case co_operation cmd of Start _ _ \<Rightarrow> 1 | _ \<Rightarrow> 0)") auto

declare Registry_apply.simps [simp del]

subsection \<open>Commands under a delegation\<close>

definition find_credential :: "ActiveCall \<Rightarrow> RecordId \<Rightarrow> Participant option" where
  "find_credential call cred =
     List.find (\<lambda>p. pa_credential_id p = cred) (bt_values (ac_participants call))"

definition foreground_operation :: "Operation \<Rightarrow> bool" where
  "foreground_operation oper \<longleftrightarrow>
     (case oper of End _ \<Rightarrow> True | Cancel _ \<Rightarrow> True | Leave _ \<Rightarrow> True | Media _ _ \<Rightarrow> True | Invite _ _ \<Rightarrow> True
      | _ \<Rightarrow> False)"

definition other_transport :: "Registry \<Rightarrow> Command \<Rightarrow> string option \<Rightarrow> bool" where
  "other_transport reg cmd delegation \<longleftrightarrow>
     (case bt_get (rg_rooms reg) (scope_of cmd) of
        None \<Rightarrow> False
      | Some call \<Rightarrow>
          (case find_credential call (co_credential_id cmd) of
             None \<Rightarrow> False
           | Some p \<Rightarrow>
               pa_delegation p \<noteq> delegation
               \<and> (case co_operation cmd of Subscribe \<Rightarrow> False | Decline _ _ \<Rightarrow> False | _ \<Rightarrow> True)
               \<and> \<not> (delegation = None \<and> foreground_operation (co_operation cmd))))"

definition delegation_expiry ::
  "('z calls_ext_scheme) \<Rightarrow> Authority \<Rightarrow> Command \<Rightarrow> nat \<Rightarrow> string option \<Rightarrow> CallError + nat option" where
  "delegation_expiry E a cmd now delegation =
     (case delegation of
        None \<Rightarrow> Inr None
      | Some encoded \<Rightarrow>
          bindr (map_err (\<lambda>_. Unauthorized) (decode_certificate E encoded)) (\<lambda>srec.
          bindr (map_err (\<lambda>_. Unauthorized)
                   (delegation_verify E a srec (co_hosting_space_id cmd) (co_audience cmd) now)) (\<lambda>verified.
          Inr (Some (de_expires_at (vd_body verified))))))"

text \<open>\<^verbatim>\<open>values_mut().find(..)\<close>: the first participant with the credential.\<close>

fun modify_credential :: "RecordId \<Rightarrow> (Participant \<Rightarrow> Participant) \<Rightarrow>
  (IdentityId, Participant) btree_map \<Rightarrow> (IdentityId, Participant) btree_map" where
  "modify_credential cred f [] = []"
| "modify_credential cred f ((k, p) # ps) =
     (if pa_credential_id p = cred then (k, f p) # ps else (k, p) # modify_credential cred f ps)"

definition set_delegation ::
  "Registry \<Rightarrow> Scope \<Rightarrow> RecordId \<Rightarrow> string option \<Rightarrow> nat option \<Rightarrow> Registry" where
  "set_delegation reg scope cred delegation expiry =
     reg\<lparr>rg_rooms := bt_modify scope (\<lambda>call. call\<lparr>ac_participants :=
       modify_credential cred (\<lambda>p. p\<lparr>pa_delegation := delegation, pa_delegation_expires_at := expiry\<rparr>)
         (ac_participants call)\<rparr>) (rg_rooms reg)\<rparr>"

definition refresh_presence :: "Registry \<Rightarrow> Scope \<Rightarrow> Event \<Rightarrow> Event" where
  "refresh_presence reg scope ev =
     (case ev of
        Presence call \<Rightarrow> (case bt_get (rg_rooms reg) scope of Some current \<Rightarrow> Presence current | None \<Rightarrow> ev)
      | _ \<Rightarrow> ev)"

definition joins :: "Operation \<Rightarrow> bool" where
  "joins oper \<longleftrightarrow> (case oper of Start _ _ \<Rightarrow> True | Join _ _ \<Rightarrow> True | _ \<Rightarrow> False)"

definition apply_with_delegation ::
  "('z calls_ext_scheme) \<Rightarrow> bytes option \<times> bytes option \<Rightarrow> Registry \<Rightarrow> Authority \<Rightarrow> Command \<Rightarrow> nat \<Rightarrow>
   string option \<Rightarrow> Registry \<times> (CallError + Event list)" where
  "apply_with_delegation E rnd reg a cmd now delegation =
     (if other_transport reg cmd delegation then (reg, Inl AlreadyJoined)
      else
      (case delegation_expiry E a cmd now delegation of
         Inl e \<Rightarrow> (reg, Inl e)
       | Inr expiry \<Rightarrow>
           (case Registry_apply E rnd reg a cmd now of
              (reg', Inl e) \<Rightarrow> (reg', Inl e)
            | (reg', Inr events) \<Rightarrow>
                if joins (co_operation cmd) then
                  let reg2 = set_delegation reg' (scope_of cmd) (co_credential_id cmd) delegation expiry in
                  (reg2, Inr (map (refresh_presence reg2 (scope_of cmd)) events))
                else (reg', Inr events))))"

subsection \<open>Revocation and the clock\<close>

definition configuration_changed :: "Registry \<Rightarrow> Scope \<Rightarrow> RecordId \<Rightarrow> Registry \<times> Event list" where
  "configuration_changed reg scope h =
     (case bt_get (rg_rooms reg) scope of
        Some room \<Rightarrow>
          if ac_config_id room \<noteq> h
          then (case end_room reg scope of (reg', ev) \<Rightarrow> (reg', case ev of Some e \<Rightarrow> [e] | None \<Rightarrow> []))
          else (reg, [])
      | None \<Rightarrow> (reg, []))"

fun end_all :: "Registry \<Rightarrow> (Scope \<times> EndReason) list \<Rightarrow> Registry \<times> Event list" where
  "end_all reg [] = (reg, [])"
| "end_all reg ((scope, reason) # rest) =
     (case end_with_reason reg scope reason of
        (reg', ev) \<Rightarrow>
          (case end_all reg' rest of
             (reg2, evs) \<Rightarrow> (reg2, (case ev of Some e \<Rightarrow> e # evs | None \<Rightarrow> evs))))"

definition revoke_space :: "Registry \<Rightarrow> SpaceId \<Rightarrow> Registry \<times> Event list" where
  "revoke_space reg sp =
     end_all reg (map (\<lambda>scope. (scope, Unauthorized_reason))
       (filter (\<lambda>scope. sp_hosting_space_id scope = sp) (bt_keys (rg_rooms reg))))"

definition revoke_member :: "Registry \<Rightarrow> Scope \<Rightarrow> IdentityId \<Rightarrow> Registry \<times> Event list" where
  "revoke_member reg scope ident =
     (case bt_get (rg_rooms reg) scope of
        Some room \<Rightarrow>
          if bt_contains (ac_participants room) ident
          then (case end_room reg scope of (reg', ev) \<Rightarrow> (reg', case ev of Some e \<Rightarrow> [e] | None \<Rightarrow> []))
          else (reg, [])
      | None \<Rightarrow> (reg, []))"

datatype tick_result = Quiet | Changed | Over EndReason

definition participant_live :: "Limits \<Rightarrow> nat \<Rightarrow> Participant \<Rightarrow> bool" where
  "participant_live limits now p \<longleftrightarrow>
     saturating_sub now (pa_last_seen p) < li_participant_ttl limits
     \<and> (case pa_delegation_expires_at p of None \<Rightarrow> True | Some expires \<Rightarrow> now < expires)"

definition tick_room :: "Limits \<Rightarrow> nat \<Rightarrow> ActiveCall \<Rightarrow> ActiveCall \<times> tick_result" where
  "tick_room limits now room =
     (let count = length (ac_participants room);
          participants = bt_retain (participant_live limits now) (ac_participants room);
          invitations = bt_retain (\<lambda>i. iv_expires_at i > now) (ac_invitations room);
          room1 = room\<lparr>ac_participants := participants, ac_invitations := invitations,
                       ac_key_epoch := (if length participants \<noteq> count
                          then wrapping_inc (ac_key_epoch room) else ac_key_epoch room)\<rparr> in
      if ac_kind room1 = Direct \<and> ac_phase room1 = Ringing \<and> now \<ge> ac_ring_expires_at room1
      then (room1, Over Unanswered)
      else if ac_kind room1 = Direct \<and> length participants \<noteq> count then (room1, Over Expired)
      else
      let room2 = (if participants = []
            then room1\<lparr>ac_empty_since := Some (case ac_empty_since room1 of Some t \<Rightarrow> t | None \<Rightarrow> now)\<rparr>
            else room1) in
      if saturating_sub now (ac_started_at room2) \<ge> li_max_duration limits
         \<or> (case ac_empty_since room2 of None \<Rightarrow> False
             | Some since \<Rightarrow> saturating_sub now since \<ge> li_empty_grace limits)
      then (room2, Over Expired)
      else if length participants \<noteq> count \<or> length (ac_invitations room) \<noteq> length invitations
      then (room2, Changed)
      else (room2, Quiet))"

definition tick :: "Registry \<Rightarrow> nat \<Rightarrow> Registry \<times> Event list" where
  "tick reg now =
     (let ticked = map (\<lambda>e. (fst e, tick_room (rg_limits reg) now (snd e))) (rg_rooms reg);
          reg1 = reg\<lparr>rg_rooms := map (\<lambda>t. (fst t, fst (snd t))) ticked\<rparr>;
          events = List.map_filter (\<lambda>t. case snd (snd t) of Changed \<Rightarrow> Some (Presence (fst (snd t))) | _ \<Rightarrow> None) ticked;
          ended = List.map_filter (\<lambda>t. case snd (snd t) of Over r \<Rightarrow> Some (fst t, r) | _ \<Rightarrow> None) ticked in
      case end_all reg1 ended of (reg2, evs) \<Rightarrow> (reg2, events @ evs))"

subsection \<open>The registry as a machine\<close>

datatype registry_input =
    Apply_in "bytes option \<times> bytes option" Authority Command nat "string option"
  | Configuration_in Scope RecordId
  | Revoke_space_in SpaceId
  | Revoke_member_in Scope IdentityId
  | End_in Scope
  | Tick_in nat

fun registry_step ::
  "('z calls_ext_scheme) \<Rightarrow> Registry \<Rightarrow> registry_input \<Rightarrow> Registry \<times> (CallError + Event list)" where
  "registry_step E reg (Apply_in rnd a cmd now delegation) = apply_with_delegation E rnd reg a cmd now delegation"
| "registry_step E reg (Configuration_in scope h) = (let r = configuration_changed reg scope h in (fst r, Inr (snd r)))"
| "registry_step E reg (Revoke_space_in sp) = (let r = revoke_space reg sp in (fst r, Inr (snd r)))"
| "registry_step E reg (Revoke_member_in scope ident) =
     (let r = revoke_member reg scope ident in (fst r, Inr (snd r)))"
| "registry_step E reg (End_in scope) =
     (let r = end_room reg scope in (fst r, Inr (case snd r of Some e \<Rightarrow> [e] | None \<Rightarrow> [])))"
| "registry_step E reg (Tick_in now) = (let r = tick reg now in (fst r, Inr (snd r)))"

end
