(* ===== verification/Registry_Invariant.thy ===== *)
theory Registry_Invariant
  imports Registry Machines
begin

text \<open>
  The invariant of the call registry and what follows from it for every run: capacity limits,
  one room per device, key rotation on every membership change, and the effect of the clock.
\<close>

definition limits_ok :: "Limits \<Rightarrow> bool" where
  "limits_ok l \<longleftrightarrow>
     2 \<le> li_participants l \<and> li_participants l \<le> 1000 \<and> li_cameras l \<le> li_participants l
     \<and> li_screens l \<le> li_participants l \<and> 10 \<le> li_participant_ttl l \<and> 1 \<le> li_empty_grace l
     \<and> 1 \<le> li_max_duration l \<and> 1 \<le> li_rooms l"

definition media_count :: "(MediaState \<Rightarrow> bool) \<Rightarrow> (IdentityId, Participant) btree_map \<Rightarrow> nat" where
  "media_count sel ps = length (filter (\<lambda>e. sel (pa_media (snd e))) ps)"

definition call_credentials :: "ActiveCall \<Rightarrow> RecordId set" where
  "call_credentials c = (\<lambda>e. pa_credential_id (snd e)) ` set (ac_participants c)"

definition participants_ok :: "Limits \<Rightarrow> (IdentityId, Participant) btree_map \<Rightarrow> bool" where
  "participants_ok l ps \<longleftrightarrow>
     bt_wf ps \<and> (\<forall>e \<in> set ps. pa_identity_id (snd e) = fst e)
     \<and> length ps \<le> li_participants l
     \<and> media_count ms_video_published ps \<le> li_cameras l
     \<and> media_count ms_screen_published ps \<le> li_screens l"

definition call_ok :: "Limits \<Rightarrow> Scope \<Rightarrow> ActiveCall \<Rightarrow> bool" where
  "call_ok l scope c \<longleftrightarrow> ac_scope c = scope \<and> bt_wf (ac_invitations c) \<and> participants_ok l (ac_participants c)"

definition exclusive :: "(Scope, ActiveCall) btree_map \<Rightarrow> bool" where
  "exclusive rooms \<longleftrightarrow>
     (\<forall>s t c d. bt_get rooms s = Some c \<and> bt_get rooms t = Some d
        \<and> call_credentials c \<inter> call_credentials d \<noteq> {} \<longrightarrow> s = t)"

definition registry_ok :: "Registry \<Rightarrow> bool" where
  "registry_ok reg \<longleftrightarrow>
     limits_ok (rg_limits reg) \<and> bt_wf (rg_rooms reg)
     \<and> length (rg_rooms reg) \<le> li_rooms (rg_limits reg)
     \<and> (\<forall>s c. bt_get (rg_rooms reg) s = Some c \<longrightarrow> call_ok (rg_limits reg) s c)
     \<and> exclusive (rg_rooms reg)"

subsection \<open>Participants\<close>

lemma participants_ok_modify:
  assumes "participants_ok l ps" "\<And>p. pa_media (f p) = pa_media p" "\<And>p. pa_identity_id (f p) = pa_identity_id p"
  shows "participants_ok l (bt_modify k f ps)"
proof -
  have "media_count sel (bt_modify k f ps) = media_count sel ps" for sel
    by (induction ps) (auto simp: media_count_def bt_modify_def assms(2))
  moreover have "\<forall>e \<in> set (bt_modify k f ps). pa_identity_id (snd e) = fst e"
    using assms(1,3) by (auto simp: bt_modify_def participants_ok_def)
  ultimately show ?thesis using assms(1) by (simp add: participants_ok_def)
qed

lemma media_count_filter: "media_count sel (filter P ps) \<le> media_count sel ps"
  by (induction ps) (auto simp: media_count_def)

lemma participants_ok_filter: "participants_ok l ps \<Longrightarrow> participants_ok l (filter P ps)"
  unfolding participants_ok_def
  by (elim conjE, intro conjI)
    (auto simp: bt_wf_filter intro: order_trans [OF media_count_filter] order_trans [OF length_filter_le])

lemma participants_ok_join:
  assumes "participants_ok l ps" "length ps < li_participants l" "bt_get ps i = None"
  shows "participants_ok l (bt_insert i (new_participant i cred now) ps)"
proof -
  have "\<not> sel (pa_media p) \<Longrightarrow> media_count sel (bt_insert i p ps) \<le> media_count sel ps" for sel p
    by (induction ps) (auto simp: media_count_def)
  then have "media_count sel (bt_insert i (new_participant i cred now) ps) \<le> media_count sel ps"
    if "sel = ms_video_published \<or> sel = ms_screen_published" for sel
    using that by (auto simp: new_participant_def)
  then have "media_count ms_video_published (bt_insert i (new_participant i cred now) ps) \<le> li_cameras l"
    "media_count ms_screen_published (bt_insert i (new_participant i cred now) ps) \<le> li_screens l"
    using assms(1) by (auto simp: participants_ok_def intro: order_trans)
  then show ?thesis
    using assms length_bt_insert_le [of i "new_participant i cred now" ps]
    by (auto simp: participants_ok_def set_bt_insert_fresh new_participant_def)
qed

lemma media_count_modify:
  assumes "bt_wf ps" "\<forall>e \<in> set ps. pa_identity_id (snd e) = fst e" "\<And>p. pa_media (f p) = st"
  shows "media_count sel (bt_modify k f ps)
    \<le> length (filter (\<lambda>p. pa_identity_id p \<noteq> k \<and> sel (pa_media p)) (bt_values ps)) + (if sel st then 1 else 0)"
  using assms(1,2)
proof (induction ps)
  case (Cons e ps)
  have wf: "bt_wf ps" using Cons.prems(1) by (simp add: bt_wf_def)
  show ?case
  proof (cases "fst e = k")
    case True
    then have "\<forall>d \<in> set ps. fst d \<noteq> k" using Cons.prems(1) by (auto simp: bt_wf_def)
    then have "bt_modify k f ps = ps" and "\<forall>p \<in> set (map snd ps). pa_identity_id p \<noteq> k"
      using Cons.prems(2) by (auto simp: bt_modify_def intro!: map_idI)
    moreover from this(2) have
      "filter (\<lambda>p. pa_identity_id p \<noteq> k \<and> sel (pa_media p)) (map snd ps) = filter (\<lambda>p. sel (pa_media p)) (map snd ps)"
      by (intro filter_cong) auto
    ultimately have "bt_modify k f ps = ps"
      "filter (\<lambda>p. pa_identity_id p \<noteq> k \<and> sel (pa_media p)) (map snd ps) = filter (\<lambda>p. sel (pa_media p)) (map snd ps)"
      by simp_all
    then show ?thesis
      using True Cons.prems(2) by (simp add: media_count_def bt_modify_def assms(3) filter_map comp_def)
  next
    case False
    then show ?thesis
      using Cons.IH [OF wf] Cons.prems(2) by (cases "sel st") (auto simp: media_count_def bt_modify_def)
  qed
qed (simp add: media_count_def bt_modify_def)

lemma filtered_le: "length (filter (\<lambda>p. Q p \<and> sel (pa_media p)) (bt_values ps)) \<le> media_count sel ps"
  by (induction ps) (auto simp: media_count_def)

lemma publishing_le: "publishing sel c i \<le> media_count sel (ac_participants c)"
  unfolding publishing_def by (rule filtered_le)

lemma op_media_participants:
  assumes "op_media l c i cred st now = Inr (Present c')" "participants_ok l (ac_participants c)"
  shows "participants_ok l (ac_participants c')"
proof -
  let ?f = "\<lambda>p. p\<lparr>pa_media := st, pa_ready := True, pa_last_seen := now\<rparr>"
  let ?ps = "bt_modify i ?f (ac_participants c)"
  have ps: "ac_participants c' = ?ps"
    and v: "ms_video_published st \<Longrightarrow> publishing ms_video_published c i < li_cameras l"
    and s: "ms_screen_published st \<Longrightarrow> publishing ms_screen_published c i < li_screens l"
    using assms(1) by (auto simp: op_media_def bindr_eq_Inr guard_eq_Inr Let_def not_le)
  have wf: "bt_wf (ac_participants c)" "\<forall>e \<in> set (ac_participants c). pa_identity_id (snd e) = fst e"
    using assms(2) by (simp_all add: participants_ok_def)
  have m: "media_count sel ?ps \<le> publishing sel c i + (if sel st then 1 else 0)" for sel
    using media_count_modify [OF wf, of ?f st sel i] by (simp add: publishing_def)
  have "media_count ms_video_published ?ps \<le> li_cameras l"
    using m [of ms_video_published] v publishing_le [of ms_video_published c i] assms(2)
    by (cases "ms_video_published st") (auto simp: participants_ok_def)
  moreover have "media_count ms_screen_published ?ps \<le> li_screens l"
    using m [of ms_screen_published] s publishing_le [of ms_screen_published c i] assms(2)
    by (cases "ms_screen_published st") (auto simp: participants_ok_def)
  moreover have "\<forall>e \<in> set ?ps. pa_identity_id (snd e) = fst e"
    using wf(2) by (auto simp: bt_modify_def)
  ultimately show ?thesis using assms(2) by (simp add: ps participants_ok_def)
qed

subsection \<open>Rooms\<close>

lemma set_bt_modify: "set (bt_modify k f m) = (\<lambda>e. if fst e = k then (fst e, f (snd e)) else e) ` set m"
  by (simp add: bt_modify_def)

lemma credentials_modify:
  "(\<And>p. pa_credential_id (f p) = pa_credential_id p) \<Longrightarrow>
   (\<lambda>e. pa_credential_id (snd e)) ` set (bt_modify k f ps) = (\<lambda>e. pa_credential_id (snd e)) ` set ps"
  unfolding set_bt_modify image_image by (intro image_cong) auto

lemma new_participant_sel [simp]:
  "pa_credential_id (new_participant i cred now) = cred" "pa_identity_id (new_participant i cred now) = i"
  by (simp_all add: new_participant_def)

lemma join_participant_ok:
  assumes "join_participant l c i cred now = Inr c'" "call_ok l s c"
  shows "call_ok l s c'" "call_credentials c' \<subseteq> insert cred (call_credentials c)"
    "ac_kind c' = ac_kind c" "ac_invitations c' = ac_invitations c" "ac_phase c' = ac_phase c"
    "set (bt_keys (ac_participants c')) = insert i (set (bt_keys (ac_participants c)))"
    "ac_key_epoch c' = (if bt_contains (ac_participants c) i then ac_key_epoch c else wrapping_inc (ac_key_epoch c))"
    "ac_call_id c' = ac_call_id c" "ac_config_id c' = ac_config_id c"
proof -
  have "call_ok l s c' \<and> call_credentials c' \<subseteq> insert cred (call_credentials c)
    \<and> set (bt_keys (ac_participants c')) = insert i (set (bt_keys (ac_participants c)))
    \<and> ac_key_epoch c' = (if bt_contains (ac_participants c) i then ac_key_epoch c else wrapping_inc (ac_key_epoch c))"
  proof (cases "bt_get (ac_participants c) i")
    case None
    with assms(1) have "\<not> length (ac_participants c) \<ge> li_participants l"
      and c': "c' = c\<lparr>ac_participants := bt_insert i (new_participant i cred now) (ac_participants c),
         ac_key_epoch := wrapping_inc (ac_key_epoch c)\<rparr>"
      by (simp_all add: join_participant_def split: if_splits)
    with None assms(2) show ?thesis
      by (simp add: call_ok_def call_credentials_def participants_ok_join set_bt_insert_fresh bt_contains_def)
  next
    case (Some p)
    then have "i \<in> fst ` set (ac_participants c)" by (rule bt_get_key_in)
    then have "insert i (set (bt_keys (ac_participants c))) = set (bt_keys (ac_participants c))" by auto
    moreover have "c' = c\<lparr>ac_participants :=
        bt_modify i (\<lambda>p. p\<lparr>pa_last_seen := now\<rparr>) (ac_participants c)\<rparr>"
      using Some assms(1) by (simp add: join_participant_def split: if_splits)
    ultimately show ?thesis
      using Some assms(2) subset_insertI
      by (simp add: call_ok_def call_credentials_def participants_ok_modify credentials_modify bt_contains_def
          del: set_map)
  qed
  then show "call_ok l s c'" "call_credentials c' \<subseteq> insert cred (call_credentials c)"
    "set (bt_keys (ac_participants c')) = insert i (set (bt_keys (ac_participants c)))"
    "ac_key_epoch c' = (if bt_contains (ac_participants c) i then ac_key_epoch c else wrapping_inc (ac_key_epoch c))"
    by blast+
  show "ac_kind c' = ac_kind c" "ac_invitations c' = ac_invitations c" "ac_phase c' = ac_phase c"
    "ac_call_id c' = ac_call_id c" "ac_config_id c' = ac_config_id c"
    using assms(1) by (auto simp: join_participant_def split: option.splits if_splits)
qed

text \<open>What an operation may do to the room it works on.\<close>

definition room_ok :: "Limits \<Rightarrow> Scope \<Rightarrow> RecordId set \<Rightarrow> ActiveCall \<Rightarrow> ActiveCall \<Rightarrow> bool" where
  "room_ok l s new c c' \<longleftrightarrow>
     call_ok l s c' \<and> call_credentials c' \<subseteq> new \<union> call_credentials c
     \<and> ac_call_id c' = ac_call_id c \<and> ac_config_id c' = ac_config_id c
     \<and> (set (bt_keys (ac_participants c')) \<noteq> set (bt_keys (ac_participants c)) \<longrightarrow>
          ac_key_epoch c' = wrapping_inc (ac_key_epoch c))
     \<and> (ac_key_epoch c' = ac_key_epoch c \<or> ac_key_epoch c' = wrapping_inc (ac_key_epoch c))"

lemma room_ok_refl: "call_ok l s c \<Longrightarrow> room_ok l s new c c"
  by (simp add: room_ok_def)

lemma room_ok_same_participants:
  "call_ok l s c \<Longrightarrow> ac_participants c' = ac_participants c \<Longrightarrow> ac_key_epoch c' = ac_key_epoch c \<Longrightarrow>
   ac_call_id c' = ac_call_id c \<Longrightarrow> ac_config_id c' = ac_config_id c \<Longrightarrow> ac_scope c' = ac_scope c \<Longrightarrow>
   bt_wf (ac_invitations c') \<Longrightarrow> room_ok l s new c c'"
  by (simp add: room_ok_def call_ok_def call_credentials_def)

lemma op_join_ok:
  assumes "op_join l c i cred invitation now = Inr (Present c')" "call_ok l s c"
  shows "room_ok l s {cred} c c'"
proof -
  from assms(1) obtain c1 where j: "join_participant l c i cred now = Inr c1"
    and c': "ac_call_id c' = ac_call_id c1" "ac_config_id c' = ac_config_id c1" "ac_key_epoch c' = ac_key_epoch c1"
      "ac_scope c' = ac_scope c1" "ac_invitations c' = bt_remove i (ac_invitations c1) \<or> ac_invitations c' = []"
      "ac_participants c' = (if invitation \<noteq> None
         then bt_modify i (\<lambda>p. p\<lparr>pa_accepted_invitation_id := invitation\<rparr>) (ac_participants c1)
         else ac_participants c1)"
    by (auto simp: op_join_def bindr_eq_Inr guard_eq_Inr Let_def)
  note jp = join_participant_ok [OF j assms(2)]
  have "participants_ok l (ac_participants c')" "call_credentials c' = call_credentials c1"
    using jp(1) by (simp_all add: c'(6) call_ok_def call_credentials_def participants_ok_modify credentials_modify)
  moreover have "bt_wf (ac_invitations c')" using c'(5) jp(1) by (auto simp: call_ok_def)
  moreover have "set (bt_keys (ac_participants c')) = set (bt_keys (ac_participants c1))"
    by (simp add: c'(6) del: set_map)
  moreover have "bt_contains (ac_participants c) i \<Longrightarrow> insert i (set (bt_keys (ac_participants c))) = set (bt_keys (ac_participants c))"
    by (auto simp: bt_contains_iff)
  ultimately show ?thesis
    using jp c'(1-4) by (auto simp: room_ok_def call_ok_def simp del: set_map)
qed

lemma op_leave_ok:
  assumes "op_leave c i cred = Inr (Present c')" "call_ok l s c"
  shows "room_ok l s new c c'"
  using assms participants_ok_filter [of l "ac_participants c"]
  by (auto simp: op_leave_def bindr_eq_Inr Let_def room_ok_def call_ok_def call_credentials_def
      bt_remove_def split: if_splits)

lemma op_media_ok:
  assumes "op_media l c i cred st now = Inr (Present c')" "call_ok l s c"
  shows "room_ok l s new c c'"
proof -
  have "ac_participants c' = bt_modify i (\<lambda>p. p\<lparr>pa_media := st, pa_ready := True, pa_last_seen := now\<rparr>) (ac_participants c)"
    and f: "ac_key_epoch c' = ac_key_epoch c" "ac_call_id c' = ac_call_id c" "ac_config_id c' = ac_config_id c"
      "ac_scope c' = ac_scope c" "ac_invitations c' = ac_invitations c"
    using assms(1) by (auto simp: op_media_def bindr_eq_Inr guard_eq_Inr Let_def)
  then have "call_credentials c' = call_credentials c" "bt_keys (ac_participants c') = bt_keys (ac_participants c)"
    by (simp_all add: call_credentials_def credentials_modify)
  moreover have "participants_ok l (ac_participants c')"
    using op_media_participants [OF assms(1)] assms(2) by (simp add: call_ok_def)
  ultimately show ?thesis using f assms(2) by (simp add: room_ok_def call_ok_def)
qed

lemma op_heartbeat_ok:
  assumes "op_heartbeat c i cred now = Inr (Silent c' evs)" "call_ok l s c"
  shows "room_ok l s new c c'"
proof -
  have "c' = c\<lparr>ac_participants := bt_modify i (\<lambda>p. p\<lparr>pa_last_seen := now\<rparr>) (ac_participants c)\<rparr>"
    using assms(1) by (auto simp: op_heartbeat_def bindr_eq_Inr)
  with assms(2) show ?thesis
    by (simp add: room_ok_def call_ok_def call_credentials_def participants_ok_modify credentials_modify
        del: set_map)
qed

definition new_credentials :: "Command \<Rightarrow> RecordId set" where
  "new_credentials cmd = (case co_operation cmd of Join _ _ \<Rightarrow> {co_credential_id cmd} | _ \<Rightarrow> {})"

lemma room_step_ok:
  assumes "room_step rnd l a cmd i now c = Inr (Present c') \<or> room_step rnd l a cmd i now c = Inr (Silent c' evs)"
    "call_ok l s c"
  shows "room_ok l s (new_credentials cmd) c c'"
proof (cases "co_operation cmd")
  case (Decline x1 x2)
  with assms show ?thesis
    by (auto simp: room_step_def Let_def op_decline_def call_ok_def split: if_splits intro!: room_ok_same_participants)
next
  case (Invite x1 x2)
  with assms show ?thesis
    by (auto simp: room_step_def Let_def op_invite_def bindr_eq_Inr guard_eq_Inr call_ok_def
        split: if_splits option.splits intro!: room_ok_same_participants)
next
  case (Signal_op x1 x2 x3 x4)
  with assms show ?thesis
    by (auto simp: room_step_def Let_def op_signal_def bindr_eq_Inr guard_eq_Inr intro: room_ok_refl)
next
  case (Join x1 x2)
  with assms show ?thesis
    by (auto simp: room_step_def Let_def new_credentials_def intro: op_join_ok)
      (auto simp: op_join_def bindr_eq_Inr Let_def guard_eq_Inr)
next
  case (Leave x1)
  with assms show ?thesis
    by (auto simp: room_step_def Let_def intro: op_leave_ok)
      (auto simp: op_leave_def bindr_eq_Inr Let_def split: if_splits)
next
  case (Media x1 x2)
  with assms show ?thesis
    by (auto simp: room_step_def Let_def intro: op_media_ok)
      (auto simp: op_media_def bindr_eq_Inr Let_def guard_eq_Inr)
next
  case (Heartbeat x1)
  with assms show ?thesis
    by (auto simp: room_step_def Let_def intro: op_heartbeat_ok) (auto simp: op_heartbeat_def bindr_eq_Inr)
next
  case (ConnectMedia x1)
  with assms show ?thesis
    by (auto simp: room_step_def Let_def intro: op_heartbeat_ok) (auto simp: op_heartbeat_def bindr_eq_Inr)
qed (use assms(1) in \<open>auto simp: room_step_def Let_def op_cancel_def op_end_def bindr_eq_Inr guard_eq_Inr\<close>)

subsection \<open>The registry\<close>

lemma exclusive_update:
  assumes "exclusive rooms"
    and "\<And>t d. t \<noteq> s \<Longrightarrow> bt_get rooms' t = Some d \<Longrightarrow>
       \<exists>d'. bt_get rooms t = Some d' \<and> call_credentials d \<subseteq> call_credentials d'"
    and "\<And>c t d. bt_get rooms' s = Some c \<Longrightarrow> t \<noteq> s \<Longrightarrow> bt_get rooms t = Some d \<Longrightarrow>
       call_credentials c \<inter> call_credentials d = {}"
  shows "exclusive rooms'"
  unfolding exclusive_def
proof (intro allI impI, elim conjE)
  fix t u c d
  assume tu: "bt_get rooms' t = Some c" "bt_get rooms' u = Some d" "call_credentials c \<inter> call_credentials d \<noteq> {}"
  have contra: False if v: "bt_get rooms' s = Some x" and w: "w \<noteq> s" "bt_get rooms' w = Some y"
    and xy: "call_credentials x \<inter> call_credentials y \<noteq> {}" for w x y
  proof -
    obtain y' where "bt_get rooms w = Some y'" "call_credentials y \<subseteq> call_credentials y'"
      using assms(2) [OF w] by blast
    with assms(3) [of x w y'] v w xy show False by blast
  qed
  show "t = u"
  proof (cases "t = s \<or> u = s")
    case True
    then show ?thesis
    proof
      assume "t = s"
      with contra [of c u d] tu show ?thesis by blast
    next
      assume "u = s"
      with contra [of d t c] tu show ?thesis by blast
    qed
  next
    case False
    then obtain c' d' where "bt_get rooms t = Some c'" "call_credentials c \<subseteq> call_credentials c'"
      "bt_get rooms u = Some d'" "call_credentials d \<subseteq> call_credentials d'"
      using tu assms(2) by meson
    with tu(3) assms(1) show ?thesis unfolding exclusive_def by blast
  qed
qed

lemma remove_room_ok:
  assumes "registry_ok reg"
  shows "registry_ok (reg\<lparr>rg_rooms := bt_remove s (rg_rooms reg)\<rparr>)"
  using assms length_bt_remove_le [of s "rg_rooms reg"]
  by (auto simp: registry_ok_def intro: exclusive_update [of "rg_rooms reg" s])

lemma replace_room_ok:
  assumes "registry_ok reg" "bt_get (rg_rooms reg) s = Some c" "room_ok (rg_limits reg) s new c c'"
    and "\<And>t d. t \<noteq> s \<Longrightarrow> bt_get (rg_rooms reg) t = Some d \<Longrightarrow> new \<inter> call_credentials d = {}"
  shows "registry_ok (reg\<lparr>rg_rooms := bt_modify s (\<lambda>_. c') (rg_rooms reg)\<rparr>)"
proof -
  have "call_credentials c' \<inter> call_credentials d = {}" if "t \<noteq> s" "bt_get (rg_rooms reg) t = Some d" for t d
  proof -
    have "call_credentials c \<inter> call_credentials d = {}"
      using assms(1,2) that unfolding registry_ok_def exclusive_def by blast
    with assms(3,4) that show ?thesis unfolding room_ok_def by blast
  qed
  moreover have "exclusive (rg_rooms reg)" using assms(1) by (simp add: registry_ok_def)
  ultimately have "exclusive (bt_modify s (\<lambda>_. c') (rg_rooms reg))"
    using assms(2) by (elim exclusive_update [where s = s]) simp_all
  moreover have "call_ok (rg_limits reg) s c'" using assms(3) by (simp add: room_ok_def)
  then have "\<forall>t d. bt_get (bt_modify s (\<lambda>_. c') (rg_rooms reg)) t = Some d \<longrightarrow> call_ok (rg_limits reg) t d"
    using assms(1,2) by (simp add: registry_ok_def)
  ultimately show ?thesis using assms(1) unfolding registry_ok_def by simp
qed

lemma insert_room_ok:
  assumes "registry_ok reg" "bt_get (rg_rooms reg) s = None" "call_ok (rg_limits reg) s c"
    "length (rg_rooms reg) < li_rooms (rg_limits reg)"
    and "\<And>t d. t \<noteq> s \<Longrightarrow> bt_get (rg_rooms reg) t = Some d \<Longrightarrow> call_credentials c \<inter> call_credentials d = {}"
  shows "registry_ok (reg\<lparr>rg_rooms := bt_insert s c (rg_rooms reg)\<rparr>)"
proof -
  have "exclusive (rg_rooms reg)" using assms(1) by (simp add: registry_ok_def)
  then have "exclusive (bt_insert s c (rg_rooms reg))"
    by (rule exclusive_update [where s = s]) (use assms(5) in simp_all)
  moreover have "\<forall>t d. bt_get (bt_insert s c (rg_rooms reg)) t = Some d \<longrightarrow> call_ok (rg_limits reg) t d"
    using assms(1,3) by (simp add: registry_ok_def)
  ultimately show ?thesis
    using assms(1,4) length_bt_insert_fresh [OF assms(2), of c] unfolding registry_ok_def by simp
qed

lemma ensure_free_iff:
  assumes "bt_wf (rg_rooms reg)"
  shows "ensure_free reg cred s = Inr u \<longleftrightarrow>
    (\<forall>t d. t \<noteq> s \<and> bt_get (rg_rooms reg) t = Some d \<longrightarrow> cred \<notin> call_credentials d)"
  unfolding ensure_free_def guard_eq_Inr list_ex_iff bt_get_iff [OF assms] call_credentials_def by force

lemma finish_room_ok: "registry_ok reg \<Longrightarrow> registry_ok (fst (finish_room reg s r))"
  by (auto simp: finish_room_def end_with_reason_def remove_room_ok split: option.split)

lemma room_result_ok:
  assumes "registry_ok reg" "bt_get (rg_rooms reg) s = Some c"
    and "\<And>c' evs. res = Inr (Present c') \<or> res = Inr (Silent c' evs) \<Longrightarrow> room_ok (rg_limits reg) s new c c'"
    and "\<And>t d. t \<noteq> s \<Longrightarrow> bt_get (rg_rooms reg) t = Some d \<Longrightarrow> new \<inter> call_credentials d = {}"
  shows "registry_ok (fst (room_result reg s res))"
proof (cases res)
  case (Inr out)
  then show ?thesis
    using assms replace_room_ok [OF assms(1,2) _ assms(4)]
    by (cases out) (auto simp: room_result_def finish_room_ok)
qed (simp add: room_result_def assms(1))

lemma apply_in_room_ok:
  assumes "registry_ok reg"
  shows "registry_ok (fst (apply_in_room rnd reg a cmd ident now))"
proof -
  let ?s = "scope_of cmd"
  show ?thesis
  proof (cases "\<exists>c. bt_get (rg_rooms reg) ?s = Some c
      \<and> (case co_operation cmd of Join _ _ \<Rightarrow> ensure_free reg (co_credential_id cmd) ?s | _ \<Rightarrow> Inr ()) = Inr ()
      \<and> fst (apply_in_room rnd reg a cmd ident now)
          = fst (room_result reg ?s (room_step rnd (rg_limits reg) a cmd ident now c))")
    case True
    then obtain c where c: "bt_get (rg_rooms reg) ?s = Some c"
      and f: "(case co_operation cmd of Join _ _ \<Rightarrow> ensure_free reg (co_credential_id cmd) ?s | _ \<Rightarrow> Inr ()) = Inr ()"
      and r: "fst (apply_in_room rnd reg a cmd ident now)
          = fst (room_result reg ?s (room_step rnd (rg_limits reg) a cmd ident now c))" by blast
    have "call_ok (rg_limits reg) ?s c" using assms c by (simp add: registry_ok_def)
    moreover have "new_credentials cmd \<inter> call_credentials d = {}" if "t \<noteq> ?s" "bt_get (rg_rooms reg) t = Some d" for t d
      using f that assms ensure_free_iff [of reg]
      by (cases "co_operation cmd") (auto simp: new_credentials_def registry_ok_def)
    ultimately show ?thesis
      unfolding r using assms c room_step_ok by (intro room_result_ok) blast+
  next
    case False
    then have "fst (apply_in_room rnd reg a cmd ident now) = reg"
      by (auto simp: apply_in_room_def Let_def split: sum.splits option.splits)
    with assms show ?thesis by simp
  qed
qed

lemma start_room_participants:
  assumes "start_room rnd reg cmd h ident kind media now = Inr c"
  shows "length (rg_rooms reg) < li_rooms (rg_limits reg)"
    "ensure_free reg (co_credential_id cmd) (scope_of cmd) = Inr ()"
    "ac_scope c = scope_of cmd" "bt_wf (ac_invitations c)"
    "ac_participants c = [(ident, new_participant ident (co_credential_id cmd) now)]"
  using assms by (auto simp: start_room_def start_invitations_def bindr_eq_Inr split: if_splits)

lemma start_room_ok:
  assumes "registry_ok reg" "start_room rnd reg cmd h ident kind media now = Inr c"
    "bt_get (rg_rooms reg) (scope_of cmd) = None"
  shows "registry_ok (reg\<lparr>rg_rooms := bt_insert (scope_of cmd) c (rg_rooms reg)\<rparr>)"
proof (rule insert_room_ok [OF assms(1,3)])
  note s = start_room_participants [OF assms(2)]
  show "length (rg_rooms reg) < li_rooms (rg_limits reg)" by (rule s)
  show "call_ok (rg_limits reg) (scope_of cmd) c"
    using assms(1) s(3-5)
    by (simp add: call_ok_def participants_ok_def registry_ok_def limits_ok_def media_count_def new_participant_def)
  show "call_credentials c \<inter> call_credentials d = {}"
    if "t \<noteq> scope_of cmd" "bt_get (rg_rooms reg) t = Some d" for t d
    using that s(2,5) assms(1) ensure_free_iff [of reg "co_credential_id cmd" "scope_of cmd" "()"]
    by (auto simp: registry_ok_def call_credentials_def [of c] new_participant_def)
qed

text \<open>Every way a command can end, with the command that is applied to the room in the end (a
  start of a room that exists becomes a join).\<close>

definition effective_command :: "Registry \<Rightarrow> Command \<Rightarrow> Command" where
  "effective_command reg cmd =
     (case co_operation cmd of
        Start _ _ \<Rightarrow>
          (case bt_get (rg_rooms reg) (scope_of cmd) of
             Some c \<Rightarrow> cmd\<lparr>co_operation := Join (ac_call_id c) None\<rparr> | None \<Rightarrow> cmd)
      | _ \<Rightarrow> cmd)"

lemma effective_command_simps [simp]:
  "scope_of (effective_command reg cmd) = scope_of cmd"
  "co_credential_id (effective_command reg cmd) = co_credential_id cmd"
  by (simp_all add: effective_command_def scope_of_def split: Operation.split option.split)

lemma Registry_apply_cases:
  obtains (rejected) e where "Registry_apply E rnd reg a cmd now = (reg, Inl e)"
  | (unanswered) ident where
      "require_member a (co_credential_id cmd) = Inr ident" "au_head a = Some (co_config_id cmd)"
      "Registry_apply E rnd reg a cmd now = finish_room reg (scope_of cmd) Unanswered"
  | (subscribed) evs where "co_operation cmd = Subscribe" "Registry_apply E rnd reg a cmd now = (reg, Inr evs)"
  | (started) h ident kind media c where
      "require_member a (co_credential_id cmd) = Inr ident" "au_head a = Some (co_config_id cmd)"
      "co_operation cmd = Start kind media"
      "start_room rnd reg cmd h ident kind media now = Inr c" "bt_get (rg_rooms reg) (scope_of cmd) = None"
      "Registry_apply E rnd reg a cmd now =
        (reg\<lparr>rg_rooms := bt_insert (scope_of cmd) c (rg_rooms reg)\<rparr>, Inr [Presence c])"
  | (in_room) ident where
      "require_member a (co_credential_id cmd) = Inr ident" "au_head a = Some (co_config_id cmd)"
      "Registry_apply E rnd reg a cmd now
        = apply_in_room (fst rnd) reg a (effective_command reg cmd) ident now"
proof (cases "require_member a (co_credential_id cmd)")
  case (Inl e)
  with that(1) show thesis by (simp add: Registry_apply.simps)
next
  case (Inr ident)
  note member = this
  let ?late = "\<lambda>r. case r of None \<Rightarrow> False | Some c \<Rightarrow> ac_kind c = Direct \<and> ac_phase c = Ringing \<and> now \<ge> ac_ring_expires_at c"
  let ?room = "bt_get (rg_rooms reg) (scope_of cmd)"
  consider (head) "space E a \<noteq> cs_space_id (co_scope cmd) \<or> au_stream a \<noteq> cs_stream_id (co_scope cmd)
      \<or> au_head a \<noteq> Some (co_config_id cmd)"
    | (late) "\<not> (space E a \<noteq> cs_space_id (co_scope cmd) \<or> au_stream a \<noteq> cs_stream_id (co_scope cmd)
      \<or> au_head a \<noteq> Some (co_config_id cmd))" "?late ?room"
    | (live) "space E a = cs_space_id (co_scope cmd)" "au_stream a = cs_stream_id (co_scope cmd)"
      "au_head a = Some (co_config_id cmd)" "\<not> ?late ?room" by blast
  then show thesis
  proof cases
    case head
    with member that(1) show thesis by (simp add: Registry_apply.simps Let_def)
  next
    case late
    with member that(2) show thesis by (simp add: Registry_apply.simps Let_def)
  next
    case live
    note here = member live
    show thesis
    proof (cases "co_operation cmd")
      case Subscribe
      with here that(3) show thesis by (simp add: Registry_apply.simps Let_def)
    next
      case (Start kind media)
      define ok where "ok h \<longleftrightarrow> (let expected = (if sc_chat_kind h = Some ChatKind_Direct then Direct else Group) in
          \<not> (kind \<noteq> expected \<or> (expected = Direct \<and> length (sc_members h) \<noteq> 2)))" for h :: StreamConfig
      show thesis
      proof (cases "\<exists>h. head a = Inr h \<and> ok h")
        case False
        with here Start have "\<exists>e. Registry_apply E rnd reg a cmd now = (reg, Inl e)"
          by (subst Registry_apply.simps) (auto simp: Let_def ok_def split: sum.split)
        with that(1) show thesis by blast
      next
        case True
        then obtain h where h: "head a = Inr h" "ok h" by blast
        show thesis
        proof (cases ?room)
          case None
          have eq: "Registry_apply E rnd reg a cmd now = (case start_room rnd reg cmd h ident kind media now of
              Inl e \<Rightarrow> (reg, Inl e)
            | Inr c \<Rightarrow> (reg\<lparr>rg_rooms := bt_insert (scope_of cmd) c (rg_rooms reg)\<rparr>, Inr [Presence c]))"
            using here Start None h
            by (subst Registry_apply.simps) (auto simp: Let_def ok_def split: sum.split)
          show thesis
          proof (cases "start_room rnd reg cmd h ident kind media now")
            case (Inl e)
            with eq that(1) show thesis by simp
          next
            case (Inr c)
            with eq that(4) [OF member live(3) Start Inr None] show thesis by simp
          qed
        next
          case (Some c)
          let ?cmd = "cmd\<lparr>co_operation := Join (ac_call_id c) None\<rparr>"
          have "effective_command reg cmd = ?cmd" using Start Some by (simp add: effective_command_def)
          moreover have "Registry_apply E rnd reg a cmd now = Registry_apply E rnd reg a ?cmd now"
            using here Start Some h by (subst Registry_apply.simps) (auto simp: Let_def ok_def)
          moreover have "Registry_apply E rnd reg a ?cmd now = apply_in_room (fst rnd) reg a ?cmd ident now"
            using here Some by (subst Registry_apply.simps) (auto simp: Let_def scope_of_def)
          ultimately show thesis using that(5) [OF member live(3)] by simp
        qed
      qed
    qed (use here that(5) in \<open>simp_all add: Registry_apply.simps Let_def effective_command_def\<close>)
  qed
qed

lemma Registry_apply_ok:
  assumes "registry_ok reg"
  shows "registry_ok (fst (Registry_apply E rnd reg a cmd now))"
  by (cases rule: Registry_apply_cases [of E rnd reg a cmd now])
    (use assms in \<open>simp_all add: finish_room_ok start_room_ok apply_in_room_ok\<close>)

lemma modify_credential_map:
  "map fst (modify_credential cred f ps) = map fst ps"
  "(\<And>p. g (f p) = g p) \<Longrightarrow> map (\<lambda>e. g (snd e)) (modify_credential cred f ps) = map (\<lambda>e. g (snd e)) ps"
  by (induction cred f ps rule: modify_credential.induct) auto

lemma modify_credential_ok:
  assumes "participants_ok l ps" "\<And>p. pa_media (f p) = pa_media p" "\<And>p. pa_identity_id (f p) = pa_identity_id p"
  shows "participants_ok l (modify_credential cred f ps)"
proof -
  have len: "length (modify_credential cred f ps) = length ps"
    using modify_credential_map(1) [of cred f ps] by (metis length_map)
  have media: "media_count sel (modify_credential cred f ps) = media_count sel ps" for sel
    by (induction ps) (auto simp: media_count_def assms(2))
  have "(\<forall>e \<in> set (modify_credential cred f ps). pa_identity_id (snd e) = fst e)
      \<longleftrightarrow> (\<forall>e \<in> set ps. pa_identity_id (snd e) = fst e)"
    using assms(3) by (induction cred f ps rule: modify_credential.induct) simp_all
  with assms(1) show ?thesis
    by (simp add: participants_ok_def len media bt_wf_def modify_credential_map(1))
qed

lemma modify_credential_credentials:
  assumes "\<And>p. pa_credential_id (f p) = pa_credential_id p"
  shows "(\<lambda>e. pa_credential_id (snd e)) ` set (modify_credential cred f ps) = (\<lambda>e. pa_credential_id (snd e)) ` set ps"
  using modify_credential_map(2) [of pa_credential_id f cred ps] assms by (metis (no_types, lifting) set_map)

lemma set_delegation_ok:
  assumes "registry_ok reg"
  shows "registry_ok (set_delegation reg s cred delegation expiry)"
proof (cases "bt_get (rg_rooms reg) s")
  case None
  then have "bt_modify s f (rg_rooms reg) = rg_rooms reg" for f
    by (force simp: bt_modify_def bt_get_None intro!: map_idI)
  then have "set_delegation reg s cred delegation expiry = reg" by (simp add: set_delegation_def)
  with assms show ?thesis by simp
next
  case (Some c)
  let ?f = "\<lambda>p. p\<lparr>pa_delegation := delegation, pa_delegation_expires_at := expiry\<rparr>"
  let ?c = "c\<lparr>ac_participants := modify_credential cred ?f (ac_participants c)\<rparr>"
  have "call_ok (rg_limits reg) s c" using assms Some by (simp add: registry_ok_def)
  then have "room_ok (rg_limits reg) s {} c ?c"
    by (auto simp: room_ok_def call_ok_def call_credentials_def modify_credential_ok modify_credential_credentials
        modify_credential_map(1) simp del: set_map image_iff)
  from replace_room_ok [OF assms Some this] have
    "registry_ok (reg\<lparr>rg_rooms := bt_modify s (\<lambda>_. ?c) (rg_rooms reg)\<rparr>)" by simp
  moreover have "bt_modify s (\<lambda>_. ?c) (rg_rooms reg) = rg_rooms (set_delegation reg s cred delegation expiry)"
    using Some assms by (auto simp: set_delegation_def bt_modify_def registry_ok_def bt_get_iff bt_wf_distinct
        dest: bt_get_in) (metis bt_get_iff option.inject)
  ultimately show ?thesis by (simp add: set_delegation_def)
qed

lemma apply_with_delegation_ok:
  assumes "registry_ok reg"
  shows "registry_ok (fst (apply_with_delegation E rnd reg a cmd now delegation))"
  using Registry_apply_ok [OF assms, of E rnd a cmd now]
  by (auto simp: apply_with_delegation_def Let_def set_delegation_ok assms split: sum.split prod.split)

lemma end_all_ok: "registry_ok reg \<Longrightarrow> registry_ok (fst (end_all reg ends))"
  by (induction reg ends rule: end_all.induct) (auto simp: end_with_reason_def remove_room_ok split: prod.splits)

lemma tick_room_call:
  "ac_scope (fst (tick_room l now c)) = ac_scope c"
  "ac_participants (fst (tick_room l now c)) = bt_retain (participant_live l now) (ac_participants c)"
  "ac_invitations (fst (tick_room l now c)) = bt_retain (\<lambda>i. iv_expires_at i > now) (ac_invitations c)"
  by (simp_all add: tick_room_def Let_def)

lemma tick_room_ok: "call_ok l s c \<Longrightarrow> call_ok l s (fst (tick_room l now c))"
  by (simp add: call_ok_def tick_room_call bt_retain_def bt_wf_filter participants_ok_filter)

lemma bt_get_map_values: "bt_get (map (\<lambda>e. (fst e, f (snd e))) m) k = map_option f (bt_get m k)"
  by (induction m) (auto simp: bt_get_def)

lemma tick_rooms_ok:
  assumes "registry_ok reg" "l = rg_limits reg"
  shows "registry_ok (reg\<lparr>rg_rooms := map (\<lambda>e. (fst e, fst (tick_room l now (snd e)))) (rg_rooms reg)\<rparr>)"
proof -
  have sub: "call_credentials (fst (tick_room l now c)) \<subseteq> call_credentials c" for c
    by (auto simp: call_credentials_def tick_room_call bt_retain_def)
  then have "exclusive (map (\<lambda>e. (fst e, fst (tick_room l now (snd e)))) (rg_rooms reg))"
    using assms(1) unfolding registry_ok_def exclusive_def bt_get_map_values [of "\<lambda>c. fst (tick_room l now c)"]
      map_option_eq_Some by blast
  then show ?thesis
    using assms
    by (auto simp: registry_ok_def bt_get_map_values [of "\<lambda>c. fst (tick_room (rg_limits reg) now c)"]
        tick_room_ok bt_wf_def comp_def)
qed

lemma tick_ok: "registry_ok reg \<Longrightarrow> registry_ok (fst (tick reg now))"
  using end_all_ok [OF tick_rooms_ok [OF _ refl], of reg now]
  by (simp add: tick_def Let_def comp_def case_prod_unfold)

lemma registry_step_ok: "registry_ok reg \<Longrightarrow> registry_ok (fst (registry_step E reg i))"
  by (cases i) (auto simp: Let_def apply_with_delegation_ok configuration_changed_def revoke_space_def
      revoke_member_def end_room_def end_with_reason_def remove_room_ok end_all_ok tick_ok
      split: option.split)

interpretation registry: invariant_machine "registry_step E" registry_ok for E
  by unfold_locales (rule registry_step_ok)

lemma Registry_new_ok: "Registry_new l = Inr reg \<Longrightarrow> registry_ok reg"
  by (auto simp: Registry_new_def registry_ok_def limits_ok_def exclusive_def split: if_splits)

subsection \<open>What every run guarantees\<close>

lemma Registry_apply_limits: "rg_limits (fst (Registry_apply E rnd reg a cmd now)) = rg_limits reg"
  by (cases rule: Registry_apply_cases [of E rnd reg a cmd now])
    (simp_all add: finish_room_def end_with_reason_def apply_in_room_def room_result_def Let_def
      split: option.split sum.split room_outcome.split)

lemma end_all_limits: "rg_limits (fst (end_all reg ends)) = rg_limits reg"
  by (induction reg ends rule: end_all.induct) (auto simp: end_with_reason_def split: prod.splits)

lemma registry_step_limits: "rg_limits (fst (registry_step E reg i)) = rg_limits reg"
proof (cases i)
  case (Apply_in rnd a cmd now delegation)
  then show ?thesis
    using Registry_apply_limits [of E rnd reg a cmd now]
    by (auto simp: apply_with_delegation_def Let_def set_delegation_def split: sum.split prod.split)
qed (simp_all add: Let_def configuration_changed_def revoke_space_def revoke_member_def tick_def
      end_room_def end_with_reason_def end_all_limits case_prod_unfold split: option.split)

interpretation registry_limits: invariant_machine "registry_step E" "\<lambda>reg. rg_limits reg = l" for E l
  by unfold_locales (simp add: registry_step_limits)

text \<open>C2: however commands, revocations and clock ticks are interleaved, a registry opened with
  valid limits never exceeds them: the number of rooms, the people in a room, and the cameras
  and screens published in it stay within the configured bounds, and every person in a room is
  filed under their own identity.\<close>

theorem registry_capacity:
  assumes "Registry_new l = Inr reg0" "reg = run_steps (registry_step E) reg0 ins"
  shows "length (rg_rooms reg) \<le> li_rooms l
    \<and> (\<forall>s c. presence reg s = Some c \<longrightarrow>
        ac_scope c = s \<and> length (ac_participants c) \<le> li_participants l
        \<and> length (filter (\<lambda>p. ms_video_published (pa_media p)) (bt_values (ac_participants c))) \<le> li_cameras l
        \<and> length (filter (\<lambda>p. ms_screen_published (pa_media p)) (bt_values (ac_participants c))) \<le> li_screens l
        \<and> (\<forall>e \<in> set (ac_participants c). pa_identity_id (snd e) = fst e))"
proof -
  have ok: "registry_ok reg" unfolding assms(2) by (rule registry.run_inv [OF Registry_new_ok [OF assms(1)]])
  have l: "rg_limits reg = l" unfolding assms(2)
    by (rule registry_limits.run_inv) (use assms(1) in \<open>auto simp: Registry_new_def split: if_splits\<close>)
  have "call_ok l s c" if "presence reg s = Some c" for s c
    using ok l that by (simp add: registry_ok_def presence_def)
  with ok l show ?thesis
    by (simp add: registry_ok_def call_ok_def participants_ok_def media_count_def filter_map comp_def)
qed

text \<open>In every reachable registry a device (a credential) takes part in at most one room.\<close>

lemma one_room_per_device:
  assumes "Registry_new l = Inr reg0" "reg = run_steps (registry_step E) reg0 ins"
    "presence reg s = Some c" "p \<in> set (bt_values (ac_participants c))"
    "presence reg t = Some d" "q \<in> set (bt_values (ac_participants d))"
    "pa_credential_id p = pa_credential_id q"
  shows "s = t"
proof -
  have "registry_ok reg" unfolding assms(2) by (rule registry.run_inv [OF Registry_new_ok [OF assms(1)]])
  moreover have "pa_credential_id p \<in> call_credentials c \<inter> call_credentials d"
    using assms(4,6,7) by (auto simp: call_credentials_def intro: rev_image_eqI)
  ultimately show ?thesis using assms(3,5) unfolding registry_ok_def exclusive_def presence_def by blast
qed

lemma finish_room_inert: "finish_room reg s r = (reg', Inl e) \<Longrightarrow> reg' = reg"
  by (auto simp: finish_room_def end_with_reason_def bt_remove_def bt_get_None intro!: filter_True
      split: option.splits) (cases reg, force simp: filter_id_conv)

text \<open>A refused command changes nothing: whenever a command ends in an error, with or without
  a delegation, the registry is exactly what it was before.\<close>

lemma refused_command_inert:
  assumes "apply_with_delegation E rnd reg a cmd now delegation = (reg', Inl e)"
  shows "reg' = reg"
proof -
  have room: "r = reg" if "apply_in_room x reg a c ident now = (r, Inl e)" for x c ident r
    using that finish_room_inert
    by (auto simp: apply_in_room_def room_result_def Let_def
        split: sum.splits option.splits room_outcome.splits if_splits)
  have "r = reg" if "Registry_apply E rnd reg a cmd now = (r, Inl e)" for r
    by (cases rule: Registry_apply_cases [of E rnd reg a cmd now])
      (use that in \<open>auto dest!: sym [of "(r, Inl e)"] dest: finish_room_inert room\<close>)
  with assms show ?thesis
    by (auto simp: apply_with_delegation_def Let_def split: if_splits sum.splits prod.splits)
qed

subsection \<open>A room across one step\<close>

definition room_evolves :: "ActiveCall \<Rightarrow> ActiveCall \<Rightarrow> bool" where
  "room_evolves c c' \<longleftrightarrow>
     ac_call_id c' = ac_call_id c \<and> ac_config_id c' = ac_config_id c
     \<and> (if set (bt_keys (ac_participants c')) = set (bt_keys (ac_participants c))
        then ac_key_epoch c' = ac_key_epoch c \<or> ac_key_epoch c' = wrapping_inc (ac_key_epoch c)
        else ac_key_epoch c' = wrapping_inc (ac_key_epoch c))"

definition rooms_evolve :: "Registry \<Rightarrow> Registry \<Rightarrow> bool" where
  "rooms_evolve reg reg' \<longleftrightarrow>
     (\<forall>s c c'. bt_get (rg_rooms reg) s = Some c \<and> bt_get (rg_rooms reg') s = Some c' \<longrightarrow> room_evolves c c')"

lemma room_evolves_refl [simp]: "room_evolves c c"
  by (simp add: room_evolves_def)

lemma rooms_evolve_refl [simp]: "rooms_evolve reg reg"
  by (auto simp: rooms_evolve_def)

lemma room_ok_evolves: "room_ok l s new c c' \<Longrightarrow> room_evolves c c'"
  by (auto simp: room_ok_def room_evolves_def)

lemma finish_room_evolve: "rooms_evolve reg (fst (finish_room reg s r))"
  by (auto simp: rooms_evolve_def finish_room_def end_with_reason_def split: option.splits if_splits)

lemma insert_room_evolve:
  "bt_get (rg_rooms reg) s = None \<Longrightarrow> rooms_evolve reg (reg\<lparr>rg_rooms := bt_insert s c (rg_rooms reg)\<rparr>)"
  by (auto simp: rooms_evolve_def)

lemma apply_in_room_evolve:
  assumes "registry_ok reg"
  shows "rooms_evolve reg (fst (apply_in_room rnd reg a cmd ident now))"
proof -
  have "rooms_evolve reg (fst (room_result reg (scope_of cmd) (room_step rnd (rg_limits reg) a cmd ident now c)))"
    if c: "bt_get (rg_rooms reg) (scope_of cmd) = Some c" for c
  proof -
    have "call_ok (rg_limits reg) (scope_of cmd) c" using assms c by (simp add: registry_ok_def)
    then have "room_evolves c c'" if "room_step rnd (rg_limits reg) a cmd ident now c = Inr (Present c')
        \<or> room_step rnd (rg_limits reg) a cmd ident now c = Inr (Silent c' evs)" for c' evs
      using that room_step_ok room_ok_evolves by blast
    with c show ?thesis
      by (auto simp: room_result_def finish_room_evolve rooms_evolve_def split: sum.split room_outcome.split if_splits)
        (metis finish_room_evolve rooms_evolve_def)
  qed
  then show ?thesis
    by (auto simp: apply_in_room_def Let_def split: sum.split option.split)
qed

lemma Registry_apply_evolve:
  assumes "registry_ok reg"
  shows "rooms_evolve reg (fst (Registry_apply E rnd reg a cmd now))"
  by (cases rule: Registry_apply_cases [of E rnd reg a cmd now])
    (simp_all add: finish_room_evolve insert_room_evolve apply_in_room_evolve assms)

lemma set_delegation_evolve:
  assumes "rooms_evolve reg reg'"
  shows "rooms_evolve reg (set_delegation reg' s cred delegation expiry)"
proof -
  have "room_evolves c (d\<lparr>ac_participants := modify_credential cred f (ac_participants d)\<rparr>) = room_evolves c d" for c d f
    by (simp add: room_evolves_def modify_credential_map(1) del: set_map)
  with assms show ?thesis
    unfolding rooms_evolve_def set_delegation_def by (auto split: if_splits)
qed

lemma end_all_gone:
  "bt_get (rg_rooms (fst (end_all reg ends))) s = (if s \<in> fst ` set ends then None else bt_get (rg_rooms reg) s)"
  by (induction reg ends rule: end_all.induct) (force simp: end_with_reason_def split: prod.splits)+

lemma tick_room_evolves: "bt_wf (ac_participants c) \<Longrightarrow> room_evolves c (fst (tick_room l now c))"
proof -
  assume wf: "bt_wf (ac_participants c)"
  let ?ps = "bt_retain (participant_live l now) (ac_participants c)"
  have "ac_key_epoch (fst (tick_room l now c))
      = (if length ?ps \<noteq> length (ac_participants c) then wrapping_inc (ac_key_epoch c) else ac_key_epoch c)"
    "ac_call_id (fst (tick_room l now c)) = ac_call_id c" "ac_config_id (fst (tick_room l now c)) = ac_config_id c"
    by (simp_all add: tick_room_def Let_def)
  moreover have "length ?ps = length (ac_participants c) \<Longrightarrow> ?ps = ac_participants c"
    unfolding bt_retain_def by (metis length_filter_less less_irrefl filter_True)
  ultimately show ?thesis by (auto simp: room_evolves_def tick_room_call)
qed

lemma tick_rooms:
  "bt_get (rg_rooms (fst (tick reg now))) s = Some c' \<Longrightarrow>
   \<exists>c. bt_get (rg_rooms reg) s = Some c \<and> c' = fst (tick_room (rg_limits reg) now c)"
  by (auto simp: tick_def Let_def case_prod_unfold end_all_gone comp_def
      bt_get_map_values [of "\<lambda>c. fst (tick_room (rg_limits reg) now c)"] split: if_splits)

lemma registry_step_evolve:
  assumes "registry_ok reg"
  shows "rooms_evolve reg (fst (registry_step E reg i))"
proof (cases i)
  case (Apply_in rnd a cmd now delegation)
  then show ?thesis
    using Registry_apply_evolve [OF assms, of E rnd a cmd now]
    by (auto simp: apply_with_delegation_def Let_def set_delegation_evolve split: sum.split prod.split)
next
  case (Tick_in now)
  have "room_evolves c c'" if "bt_get (rg_rooms reg) s = Some c" "bt_get (rg_rooms (fst (tick reg now))) s = Some c'" for s c c'
    using tick_rooms [OF that(2)] that(1) assms
    by (auto simp: registry_ok_def call_ok_def participants_ok_def intro!: tick_room_evolves)
  with Tick_in show ?thesis by (auto simp: rooms_evolve_def Let_def)
qed (auto simp: rooms_evolve_def Let_def configuration_changed_def revoke_space_def revoke_member_def
      end_room_def end_with_reason_def end_all_gone split: option.splits if_splits)

text \<open>C23: the end-to-end encryption epoch follows the membership: in every reachable registry and
  for every input, a room that survives the step keeps its call and its configuration, and if
  anybody joined or left it, its key epoch has been advanced to a different value.\<close>

theorem membership_change_rotates_key:
  assumes "Registry_new l = Inr reg0" "reg = run_steps (registry_step E) reg0 ins"
    "presence reg s = Some c" "presence (fst (registry_step E reg i)) s = Some c'"
  shows "ac_call_id c' = ac_call_id c \<and> ac_config_id c' = ac_config_id c
    \<and> (set (bt_keys (ac_participants c')) \<noteq> set (bt_keys (ac_participants c)) \<longrightarrow>
        ac_key_epoch c' = wrapping_inc (ac_key_epoch c) \<and> ac_key_epoch c' \<noteq> ac_key_epoch c)"
proof -
  have "registry_ok reg" unfolding assms(2) by (rule registry.run_inv [OF Registry_new_ok [OF assms(1)]])
  from registry_step_evolve [OF this] assms(3,4) have "room_evolves c c'"
    unfolding rooms_evolve_def presence_def by blast
  then show ?thesis by (simp add: room_evolves_def wrapping_inc_neq split: if_splits)
qed

text \<open>The clock: after a tick every room that is still open holds only participants seen
  within the participant timeout whose delegation has not expired (and has lost nobody else),
  only unexpired invitations,
  is not an unanswered call past its ringing window and is younger than the maximal duration.\<close>

lemma tick_evicts_stale:
  assumes "presence (fst (tick reg now)) s = Some c"
  shows "(\<exists>d. presence reg s = Some d
        \<and> ac_participants c = bt_retain (participant_live (rg_limits reg) now) (ac_participants d))
    \<and> (\<forall>p \<in> set (bt_values (ac_participants c)). participant_live (rg_limits reg) now p)
    \<and> (\<forall>v \<in> set (bt_values (ac_invitations c)). now < iv_expires_at v)
    \<and> \<not> (ac_kind c = Direct \<and> ac_phase c = Ringing \<and> ac_ring_expires_at c \<le> now)
    \<and> saturating_sub now (ac_started_at c) < li_max_duration (rg_limits reg)"
proof -
  let ?l = "rg_limits reg"
  from assms obtain d where d: "bt_get (rg_rooms reg) s = Some d" "c = fst (tick_room ?l now d)"
    using tick_rooms unfolding presence_def by blast
  have "\<not> (\<exists>r. snd (tick_room ?l now d) = Over r)"
  proof
    assume "\<exists>r. snd (tick_room ?l now d) = Over r"
    then obtain r where r: "snd (tick_room ?l now d) = Over r" ..
    let ?t = "map (\<lambda>e. (fst e, tick_room ?l now (snd e))) (rg_rooms reg)"
    have "(s, tick_room ?l now d) \<in> set ?t" using bt_get_in [OF d(1)] by force
    then have "(s, r) \<in> set (List.map_filter (\<lambda>t. case snd (snd t) of Over r \<Rightarrow> Some (fst t, r) | _ \<Rightarrow> None) ?t)"
      using r by (force simp: map_filter_def)
    then have "bt_get (rg_rooms (fst (tick reg now))) s = None"
      by (force simp: tick_def Let_def case_prod_unfold end_all_gone)
    with assms show False by (simp add: presence_def)
  qed
  then have "\<not> (ac_kind c = Direct \<and> ac_phase c = Ringing \<and> ac_ring_expires_at c \<le> now)
    \<and> saturating_sub now (ac_started_at c) < li_max_duration ?l"
    unfolding d(2) by (auto simp: tick_room_def Let_def not_le split: if_splits)
  then show ?thesis using d(1) unfolding d(2) by (auto simp: tick_room_call bt_retain_def presence_def)
qed

lemma apply_in_room_events:
  assumes "apply_in_room rnd reg a cmd ident now = (reg', Inr evs)" "Signal_event s cid epoch from to ct \<in> set evs"
  obtains c where "bt_get (rg_rooms reg) (scope_of cmd) = Some c" "ac_config_id c = co_config_id cmd"
    "op_signal (scope_of cmd) c ident (co_credential_id cmd) epoch to ct = Inr (Silent c evs)"
    "reg' = reg\<lparr>rg_rooms := bt_modify (scope_of cmd) (\<lambda>_. c) (rg_rooms reg)\<rparr>"
proof -
  from assms obtain c where c: "bt_get (rg_rooms reg) (scope_of cmd) = Some c" "ac_config_id c = co_config_id cmd"
    and r: "room_result reg (scope_of cmd) (room_step rnd (rg_limits reg) a cmd ident now c) = (reg', Inr evs)"
    by (auto simp: apply_in_room_def Let_def split: sum.splits option.splits if_splits)
  from r assms(2) obtain d where d: "room_step rnd (rg_limits reg) a cmd ident now c = Inr (Silent d evs)"
    and reg': "reg' = reg\<lparr>rg_rooms := bt_modify (scope_of cmd) (\<lambda>_. d) (rg_rooms reg)\<rparr>"
    by (auto simp: room_result_def finish_room_def end_with_reason_def split: sum.splits room_outcome.splits option.splits)
  from d assms(2) obtain cid' epoch' to' ct' where
    "op_signal (scope_of cmd) c ident (co_credential_id cmd) epoch' to' ct' = Inr (Silent d evs)"
    by (cases "co_operation cmd")
      (auto simp: room_step_def Let_def op_join_def op_decline_def op_cancel_def op_end_def op_invite_def op_leave_def
        op_heartbeat_def op_media_def bindr_eq_Inr split: if_splits)
  then show thesis using that c reg' assms(2)
    by (auto simp: op_signal_def bindr_eq_Inr split: if_splits)
qed

text \<open>Signalling stays inside the call: an encrypted signal is relayed only from the device
  that signed the command, to another device taking part in the same room, in the current key
  epoch of that room, for a command naming the room's configuration.\<close>

lemma signals_stay_in_room:
  assumes "apply_with_delegation E rnd reg a cmd now delegation = (reg', Inr evs)"
    "Signal_event s cid epoch from to ct \<in> set evs"
  shows "\<exists>c. presence reg s = Some c \<and> s = scope_of cmd \<and> cid = ac_call_id c \<and> epoch = ac_key_epoch c
    \<and> ac_config_id c = co_config_id cmd \<and> from = co_credential_id cmd \<and> to \<noteq> from
    \<and> from \<in> pa_credential_id ` set (bt_values (ac_participants c))
    \<and> to \<in> pa_credential_id ` set (bt_values (ac_participants c))"
proof -
  from assms obtain evs0 reg0 where run: "Registry_apply E rnd reg a cmd now = (reg0, Inr evs0)"
    and sig: "Signal_event s cid epoch from to ct \<in> set evs0"
    by (auto simp: apply_with_delegation_def Let_def refresh_presence_def
        split: if_splits sum.splits prod.splits Event.splits option.splits)
  obtain ident where "apply_in_room (fst rnd) reg a (effective_command reg cmd) ident now = (reg0, Inr evs0)"
    by (cases rule: Registry_apply_cases [of E rnd reg a cmd now])
      (use run sig in \<open>auto simp: finish_room_def end_with_reason_def Registry_apply.simps Let_def
        split: option.splits sum.splits if_splits\<close>)
  from apply_in_room_events [OF this sig] obtain c where c: "bt_get (rg_rooms reg) (scope_of cmd) = Some c"
    "ac_config_id c = co_config_id (effective_command reg cmd)"
    "op_signal (scope_of cmd) c ident (co_credential_id cmd) epoch to ct = Inr (Silent c evs0)" by auto
  moreover have "co_config_id (effective_command reg cmd) = co_config_id cmd"
    by (simp add: effective_command_def split: Operation.split option.split)
  moreover have "from = co_credential_id cmd \<and> s = scope_of cmd \<and> cid = ac_call_id c \<and> epoch = ac_key_epoch c \<and> to \<noteq> from
      \<and> from \<in> pa_credential_id ` set (bt_values (ac_participants c))
      \<and> to \<in> pa_credential_id ` set (bt_values (ac_participants c))"
    using c(3) sig
    by (auto simp: op_signal_def bindr_eq_Inr participant_def list_ex_iff image_iff split: if_splits option.splits
        dest!: bt_get_in) (metis snd_conv)+
  ultimately show ?thesis by (auto simp: presence_def)
qed

definition not_admitted :: "('z crypto_scheme) \<Rightarrow> Authority \<Rightarrow> Command \<Rightarrow> bool" where
  "not_admitted E a cmd \<longleftrightarrow> \<not> is_ok (require_member a (co_credential_id cmd)) \<or> au_head a \<noteq> Some (co_config_id cmd)
    \<or> space E a \<noteq> cs_space_id (co_scope cmd) \<or> au_stream a \<noteq> cs_stream_id (co_scope cmd)"

lemma Registry_apply_refused:
  "not_admitted E a cmd \<Longrightarrow> Registry_apply E rnd reg a cmd now = (reg, Inl Unauthorized)"
  by (subst Registry_apply.simps) (auto simp: not_admitted_def Let_def split: sum.split)

lemma finish_room_other: "s \<noteq> t \<Longrightarrow> bt_get (rg_rooms (fst (finish_room reg t r))) s = bt_get (rg_rooms reg) s"
  by (auto simp: finish_room_def end_with_reason_def split: option.splits)

lemma apply_in_room_other:
  "s \<noteq> scope_of cmd \<Longrightarrow>
   bt_get (rg_rooms (fst (apply_in_room rnd reg a cmd ident now))) s = bt_get (rg_rooms reg) s"
  by (auto simp: apply_in_room_def room_result_def finish_room_other Let_def
      split: sum.split option.split room_outcome.split)

text \<open>Only current members act: if a command changes the registry, its author is a member of
  the conversation's authority, the command names the current head of that authority, and the
  only room that differs afterwards is the one the command addresses.\<close>

lemma registry_change_authorized:
  assumes "apply_with_delegation E rnd reg a cmd now delegation = (reg', res)" "reg' \<noteq> reg"
  shows "is_ok (require_member a (co_credential_id cmd)) \<and> au_head a = Some (co_config_id cmd)
    \<and> space E a = cs_space_id (co_scope cmd) \<and> au_stream a = cs_stream_id (co_scope cmd)
    \<and> (\<forall>s. s \<noteq> scope_of cmd \<longrightarrow> presence reg' s = presence reg s)"
proof -
  have other: "bt_get (rg_rooms (fst (Registry_apply E rnd reg a cmd now))) s = bt_get (rg_rooms reg) s"
    if "s \<noteq> scope_of cmd" for s
    by (cases rule: Registry_apply_cases [of E rnd reg a cmd now]) (use that in \<open>simp_all add: apply_in_room_other finish_room_other\<close>)
  then have "presence reg' s = presence reg s" if "s \<noteq> scope_of cmd" for s
    using assms(1) that
    by (force simp: presence_def apply_with_delegation_def Let_def set_delegation_def
        split: if_splits sum.splits prod.splits)
  moreover have "\<not> not_admitted E a cmd"
    using assms Registry_apply_refused [of E a cmd rnd reg now]
    by (auto simp: apply_with_delegation_def split: if_splits sum.splits)
  ultimately show ?thesis by (auto simp: not_admitted_def)
qed

text \<open>Revocation is complete and precise: after a space is revoked no room it hosts remains and
  every other room is untouched; after a configuration change the room of that conversation, if
  there is one, runs under the new head; after a member is revoked no room of that conversation
  has them as a participant.\<close>

lemma revocation_complete:
  "presence (fst (revoke_space reg sp)) s = (if sp_hosting_space_id s = sp then None else presence reg s)
   \<and> (\<forall>c. presence (fst (configuration_changed reg t h)) t = Some c \<longrightarrow> ac_config_id c = h)
   \<and> (\<forall>c. presence (fst (revoke_member reg t ident)) t = Some c \<longrightarrow> \<not> bt_contains (ac_participants c) ident)
   \<and> (s \<noteq> t \<longrightarrow> presence (fst (configuration_changed reg t h)) s = presence reg s
       \<and> presence (fst (revoke_member reg t ident)) s = presence reg s)"
proof -
  have "presence (fst (revoke_space reg sp)) s = (if sp_hosting_space_id s = sp then None else presence reg s)"
    by (cases "presence reg s")
      (auto simp: presence_def revoke_space_def end_all_gone image_image bt_get_None dest: bt_get_key_in)
  then show ?thesis
    by (auto simp: presence_def configuration_changed_def revoke_member_def end_room_def end_with_reason_def
        split: option.splits if_splits)
qed

end
