(* ===== verification/Call_Engine.thy ===== *)
theory Call_Engine
  imports Registry_Invariant Authority_Proofs
begin

text \<open>
  \<^verbatim>\<open>crates/elo-call-service/src/engine.rs\<close>: persistent authorization fences and replay
  admission in front of the call registry. The two SQLite tables are maps from their
  primary keys to rows; columns keep the types the statements use, so identifiers are text
  and integers are the signed 64-bit ones of the database. Whether a statement succeeds is
  an argument, one field of \<open>db_io\<close> per statement. Verification runs without the engine's
  lock: a \<open>Preparation\<close> is taken from one engine state and its \<open>Prepared\<close> result may be
  executed in a later one.
\<close>

definition MAX_SCOPES :: nat where "MAX_SCOPES = 4096"
definition MAX_CACHED_PROOFS :: nat where "MAX_CACHED_PROOFS = 64 * 1024 * 1024"
definition MAX_COMMAND_TEXT :: nat where "MAX_COMMAND_TEXT = 192 * 1024"
definition IDLE_SECONDS :: nat where "IDLE_SECONDS = 120"

record Request =
  rq_command :: string
  rq_proof :: "CallAuthorityProof option"
  rq_delegation :: "string option"

record Preparation =
  pn_request :: Request
  pn_signed :: SignedRecord
  pn_scope :: Scope
  pn_audience :: string
  pn_cached :: "Authority option"
  pn_witness :: "WitnessPin option"

record DelegationLease =
  dl_config_id :: RecordId
  dl_expires_at :: nat

definition permits :: "DelegationLease \<Rightarrow> RecordId \<Rightarrow> nat \<Rightarrow> bool" where
  "permits lease h now \<longleftrightarrow> dl_config_id lease = h \<and> now < dl_expires_at lease"

record Prepared =
  pd_command :: Command
  pd_identity :: IdentityId
  pd_request_id :: RecordId
  pd_authority :: Authority
  pd_proof :: "CallAuthorityProof option"
  pd_delegation :: "string option"
  pd_delegation_lease :: "DelegationLease option"

record Applied_call =
  ap_request_id :: RecordId
  ap_scope :: Scope
  ap_call :: "ActiveCall option"
  ap_events :: "Event list"
  ap_duplicate :: bool

record Fence =
  fe_head :: RecordId
  fe_recovery :: "RecordId option"
  fe_sequence :: nat
  fe_authority :: "Authority option"
  fe_proof_bytes :: nat
  fe_last_used :: nat
  fe_blocked :: bool

subsection \<open>The database and the engine\<close>

record fence_row =
  fr_head :: string
  fr_sequence :: int
  fr_blocked :: bool
  fr_recovery :: "string option"

record receipt_row =
  rr_request_id :: string
  rr_expires :: nat

record db_io =
  io_query :: bool
  io_block :: bool
  io_receipt :: bool
  io_fence :: bool
  io_begin :: bool
  io_delete :: bool
  io_insert :: bool
  io_commit :: bool

record Engine =
  en_rows :: "string \<rightharpoonup> fence_row"
  en_receipts :: "string \<times> string \<rightharpoonup> receipt_row"
  en_audience :: string
  en_witness :: "WitnessPin option"
  en_fences :: "(Scope, Fence) btree_map"
  en_pending :: "Event list"
  en_registry :: Registry

definition scope_key :: "Scope \<Rightarrow> string" where
  "scope_key scope =
     encode_hex (sp_hosting_space_id scope) @ '':'' @ encode_hex (cs_space_id (sp_conversation scope))
       @ '':'' @ encode_hex (cs_stream_id (sp_conversation scope))"

subsection \<open>Opening\<close>

text \<open>What the file system answers while the database is opened.\<close>

record open_io =
  oi_database_symlink :: "unit + bool"
  oi_lock_symlink :: "unit + bool"
  oi_locked :: "unit + unit"
  oi_tables :: "unit + (string \<rightharpoonup> fence_row) \<times> (string \<times> string \<rightharpoonup> receipt_row)"

datatype OpenError = Pin_error RecordError | Io_error | Unsafe_database | Unsafe_lock | Limits_error CallError

definition open_with_witness ::
  "('z authority_ext_scheme) \<Rightarrow> open_io \<Rightarrow> string \<Rightarrow> Limits \<Rightarrow> WitnessPin option \<Rightarrow> OpenError + Engine" where
  "open_with_witness E io audience limits witness =
     bindr (case witness of None \<Rightarrow> Inr () | Some pin \<Rightarrow> map_err Pin_error (pin_validate E pin)) (\<lambda>_.
     bindr (map_err (\<lambda>_. Io_error) (oi_database_symlink io)) (\<lambda>link.
     if link then Inl Unsafe_database
     else
     bindr (map_err (\<lambda>_. Io_error) (oi_lock_symlink io)) (\<lambda>lock_link.
     if lock_link then Inl Unsafe_lock
     else
     bindr (map_err (\<lambda>_. Io_error) (oi_locked io)) (\<lambda>_.
     bindr (map_err (\<lambda>_. Io_error) (oi_tables io)) (\<lambda>tables.
     bindr (map_err Limits_error (Registry_new limits)) (\<lambda>registry.
     Inr \<lparr>en_rows = fst tables, en_receipts = snd tables, en_audience = audience, en_witness = witness,
          en_fences = [], en_pending = [], en_registry = registry\<rparr>))))))"

definition Engine_open ::
  "('z authority_ext_scheme) \<Rightarrow> open_io \<Rightarrow> string \<Rightarrow> Limits \<Rightarrow> OpenError + Engine" where
  "Engine_open E io audience limits = open_with_witness E io audience limits None"

subsection \<open>Preparing a request\<close>

definition fence_of_row :: "fence_row \<Rightarrow> CallError + Fence" where
  "fence_of_row row =
     (if fr_sequence row \<le> 0 then Inl Unavailable
      else
      bindr (map_err (\<lambda>_. Unavailable) (parse_hex 32 (fr_head row))) (\<lambda>h.
      bindr (case fr_recovery row of
               None \<Rightarrow> Inr None
             | Some s \<Rightarrow> bindr (map_err (\<lambda>_. Unavailable) (parse_hex 32 s)) (\<lambda>r. Inr (Some r))) (\<lambda>recovery.
      Inr \<lparr>fe_head = h, fe_recovery = recovery, fe_sequence = nat (fr_sequence row),
           fe_authority = None, fe_proof_bytes = 0, fe_last_used = 0, fe_blocked = fr_blocked row\<rparr>)))"

definition stored_fence :: "db_io \<Rightarrow> Engine \<Rightarrow> Scope \<Rightarrow> CallError + Fence option" where
  "stored_fence io eng scope =
     (if \<not> io_query io then Inl Unavailable
      else
      (case en_rows eng (scope_key scope) of
         None \<Rightarrow> Inr None
       | Some row \<Rightarrow> bindr (fence_of_row row) (\<lambda>f. Inr (Some f))))"

definition is_blocked :: "Fence option \<Rightarrow> bool" where
  "is_blocked f = (case f of None \<Rightarrow> False | Some f \<Rightarrow> fe_blocked f)"

definition preparation ::
  "('z calls_ext_scheme) \<Rightarrow> db_io \<Rightarrow> Engine \<Rightarrow> Request \<Rightarrow> RecordId option \<Rightarrow> CallError + Preparation" where
  "preparation E io eng request device =
     (if length (rq_command request) > MAX_COMMAND_TEXT then Inl Invalid
      else
      bindr (ok_or (b64_decode E (rq_command request)) Invalid) (\<lambda>b.
      bindr (map_err (\<lambda>_. Invalid) (parse E b)) (\<lambda>signed.
      bindr (map_err (\<lambda>_. Invalid) (decode_with (dec_command E) signed)) (\<lambda>unverified.
      if (case device of None \<Rightarrow> False | Some d \<Rightarrow> d \<noteq> co_credential_id unverified) then Inl Unauthorized
      else
      let scope = scope_of unverified in
      if is_blocked (bt_get (en_fences eng) scope) then Inl Unauthorized
      else
      bindr (stored_fence io eng scope) (\<lambda>stored.
      if is_blocked stored then Inl Unauthorized
      else
      Inr \<lparr>pn_request = request, pn_signed = signed, pn_scope = scope, pn_audience = en_audience eng,
           pn_cached = (case bt_get (en_fences eng) scope of None \<Rightarrow> None | Some f \<Rightarrow> fe_authority f),
           pn_witness = en_witness eng\<rparr>)))))"

definition authenticate ::
  "('z calls_ext_scheme) \<Rightarrow> Preparation \<Rightarrow> nat \<Rightarrow> CallError + Command \<times> IdentityId" where
  "authenticate E prep now =
     bindr (map_err (\<lambda>_. Invalid) (decode_with (dec_command E) (pn_signed prep))) (\<lambda>command.
     bindr (case rq_proof (pn_request prep) of
              Some proof \<Rightarrow> map_err (\<lambda>_. Unauthorized) (proof_credential E proof (co_credential_id command))
            | None \<Rightarrow> bindr (ok_or (pn_cached prep) Unauthorized) (\<lambda>a.
                map_err (\<lambda>_. Unauthorized) (credential a (co_credential_id command)))) (\<lambda>cred.
     bindr (case rq_delegation (pn_request prep) of
              Some encoded \<Rightarrow>
                bindr (map_err (\<lambda>_. Unauthorized) (decode_certificate E encoded)) (\<lambda>certificate.
                map_err (\<lambda>_. Unauthorized)
                  (delegated_command_authorship E cred (pn_signed prep) certificate (pn_audience prep) now))
            | None \<Rightarrow> map_err (\<lambda>_. Unauthorized)
                (verify_command_authorship E cred (pn_signed prep) (pn_audience prep) now)) (\<lambda>command'.
     Inr (command', identity cred))))"

text \<open>The authority a request is judged by: rebuilt from its proof, or the one cached.\<close>

definition request_authority :: "('z calls_ext_scheme) \<Rightarrow> Preparation \<Rightarrow> CallError + Authority" where
  "request_authority E prep =
     (let sp = cs_space_id (sp_conversation (pn_scope prep));
          strm = cs_stream_id (sp_conversation (pn_scope prep)) in
      case rq_proof (pn_request prep) of
        Some proof \<Rightarrow>
          map_err (\<lambda>_. Unauthorized)
            (case proof_verify E proof sp strm of
               Inr a \<Rightarrow> Inr a
             | Inl e \<Rightarrow>
                 (case pn_witness prep of
                    Some pin \<Rightarrow> verify_witnessed E proof sp strm pin
                  | None \<Rightarrow> Inl e))
      | None \<Rightarrow> ok_or (pn_cached prep) Unauthorized)"

definition verify_request_command ::
  "('z calls_ext_scheme) \<Rightarrow> Preparation \<Rightarrow> Authority \<Rightarrow> nat \<Rightarrow> CallError + Command \<times> DelegationLease option" where
  "verify_request_command E prep a now =
     (case rq_delegation (pn_request prep) of
        Some encoded \<Rightarrow>
          bindr (map_err (\<lambda>_. Unauthorized) (decode_certificate E encoded)) (\<lambda>certificate.
          bindr (map_err (\<lambda>_. Unauthorized)
                   (delegation_verify E a certificate (sp_hosting_space_id (pn_scope prep)) (pn_audience prep) now))
            (\<lambda>verified.
          bindr (map_err (\<lambda>_. Unauthorized)
                   (delegated_command E a (pn_signed prep) certificate (pn_audience prep) now)) (\<lambda>command.
          Inr (command, Some \<lparr>dl_config_id = de_config_id (vd_body verified),
                               dl_expires_at = de_expires_at (vd_body verified)\<rparr>))))
      | None \<Rightarrow>
          bindr (map_err (\<lambda>_. Unauthorized) (verify_command E a (pn_signed prep) (pn_audience prep) now)) (\<lambda>command.
          Inr (command, None)))"

definition Preparation_verify ::
  "('z calls_ext_scheme) \<Rightarrow> Preparation \<Rightarrow> nat \<Rightarrow> CallError + Prepared" where
  "Preparation_verify E prep now =
     bindr (request_authority E prep) (\<lambda>a.
     bindr (verify_request_command E prep a now) (\<lambda>checked.
     bindr (map_err (\<lambda>_. Unauthorized) (require_member a (co_credential_id (fst checked)))) (\<lambda>ident.
     Inr \<lparr>pd_command = fst checked, pd_identity = ident, pd_request_id = record_id E (pn_signed prep),
          pd_authority = a, pd_proof = rq_proof (pn_request prep),
          pd_delegation = rq_delegation (pn_request prep), pd_delegation_lease = snd checked\<rparr>)))"

definition prepare ::
  "('z calls_ext_scheme) \<Rightarrow> db_io \<Rightarrow> Engine \<Rightarrow> Request \<Rightarrow> RecordId option \<Rightarrow> nat \<Rightarrow> CallError + Prepared" where
  "prepare E io eng request device now =
     bindr (preparation E io eng request device) (\<lambda>prep. Preparation_verify E prep now)"

subsection \<open>Executing a prepared request\<close>

text \<open>The least recently used fence without a call, if any has been idle long enough.\<close>

definition idle_fence :: "Engine \<Rightarrow> nat \<Rightarrow> Scope option" where
  "idle_fence eng now =
     map_option fst (min_by_key (\<lambda>e. fe_last_used (snd e))
       (filter (\<lambda>e. presence (en_registry eng) (fst e) = None
            \<and> saturating_sub now (fe_last_used (snd e)) \<ge> IDLE_SECONDS) (en_fences eng)))"

definition make_room :: "Engine \<Rightarrow> nat \<Rightarrow> Engine \<times> (CallError + unit)" where
  "make_room eng now =
     (if length (en_fences eng) \<ge> MAX_SCOPES then
        (case idle_fence eng now of
           Some idle \<Rightarrow> (eng\<lparr>en_fences := bt_remove idle (en_fences eng)\<rparr>, Inr ())
         | None \<Rightarrow> (eng, Inl Unavailable))
      else (eng, Inr ()))"

definition load_fence :: "db_io \<Rightarrow> Engine \<Rightarrow> Scope \<Rightarrow> nat \<Rightarrow> Engine \<times> (CallError + unit)" where
  "load_fence io eng scope now =
     (if bt_contains (en_fences eng) scope then (eng, Inr ())
      else
      bindst (make_room eng now) (\<lambda>eng1 _.
      case stored_fence io eng1 scope of
        Inl e \<Rightarrow> (eng1, Inl e)
      | Inr None \<Rightarrow> (eng1, Inr ())
      | Inr (Some f) \<Rightarrow> (eng1\<lparr>en_fences := bt_insert scope f (en_fences eng1)\<rparr>, Inr ())))"

definition proof_length :: "CallAuthorityProof \<Rightarrow> nat" where
  "proof_length p =
     length (pr_genesis p) + (case pr_checkpoint p of None \<Rightarrow> 0 | Some c \<Rightarrow> length c)
       + sum_list (map length (pr_credentials p @ pr_configs p))"

definition request_bytes :: "Engine \<Rightarrow> Scope \<Rightarrow> CallAuthorityProof option \<Rightarrow> nat" where
  "request_bytes eng scope proof =
     (case proof of
        Some p \<Rightarrow> proof_length p
      | None \<Rightarrow> (case bt_get (en_fences eng) scope of Some f \<Rightarrow> fe_proof_bytes f | None \<Rightarrow> 0))"

definition other_bytes :: "Engine \<Rightarrow> Scope \<Rightarrow> nat" where
  "other_bytes eng scope =
     sum_list (map (\<lambda>e. fe_proof_bytes (snd e)) (filter (\<lambda>e. fst e \<noteq> scope) (en_fences eng)))"

text \<open>Ending the room of a scope whose configuration moved, with its event queued.\<close>

definition queue_configuration_changed :: "Engine \<Rightarrow> Scope \<Rightarrow> RecordId \<Rightarrow> Engine" where
  "queue_configuration_changed eng scope h =
     (let r = configuration_changed (en_registry eng) scope h in
      eng\<lparr>en_registry := fst r, en_pending := en_pending eng @ snd r\<rparr>)"

definition block_fence :: "Engine \<Rightarrow> Scope \<Rightarrow> Engine" where
  "block_fence eng scope =
     eng\<lparr>en_rows := (case en_rows eng (scope_key scope) of
           None \<Rightarrow> en_rows eng
         | Some row \<Rightarrow> (en_rows eng)(scope_key scope \<mapsto> row\<lparr>fr_blocked := True\<rparr>)),
         en_fences := bt_modify scope (\<lambda>f. f\<lparr>fe_blocked := True\<rparr>) (en_fences eng)\<rparr>"

text \<open>Compares the request's authority with the fence: has the configuration moved on?\<close>

definition check_fence ::
  "('z authority_ext_scheme) \<Rightarrow> db_io \<Rightarrow> Engine \<Rightarrow> Scope \<Rightarrow> Authority \<Rightarrow> Command \<Rightarrow> Engine \<times> (CallError + bool)" where
  "check_fence E io eng scope a cmd =
     (case bt_get (en_fences eng) scope of
        Some old \<Rightarrow>
          if fe_blocked old then (eng, Inl Unauthorized)
          else if \<not> proves_recovery_ancestor E a (fe_recovery old) then (eng, Inl Unauthorized)
          else if fe_head old = co_config_id cmd then (eng, Inr False)
          else if proves_config_at a (fe_head old) (fe_sequence old) then (eng, Inr True)
          else
          (case head a of
             Inl _ \<Rightarrow> (eng, Inl Unauthorized)
           | Inr h \<Rightarrow>
               if sc_sequence h < fe_sequence old then (eng, Inl Unauthorized)
               else if \<not> io_block io then (eng, Inl Unavailable)
               else (queue_configuration_changed (block_fence eng scope) scope (co_config_id cmd), Inl Unauthorized))
      | None \<Rightarrow> if length (en_fences eng) \<ge> MAX_SCOPES then (eng, Inl Unavailable) else (eng, Inr True))"

definition touch_fence :: "Engine \<Rightarrow> Scope \<Rightarrow> Authority \<Rightarrow> nat \<Rightarrow> nat \<Rightarrow> Engine" where
  "touch_fence eng scope a proof_bytes now =
     eng\<lparr>en_fences := bt_modify scope
       (\<lambda>f. f\<lparr>fe_authority := Some a, fe_proof_bytes := proof_bytes, fe_last_used := now\<rparr>) (en_fences eng)\<rparr>"

definition receipt_key :: "Command \<Rightarrow> string \<times> string" where
  "receipt_key cmd = (encode_hex (co_credential_id cmd), co_nonce cmd)"

text \<open>The upsert leaves the \<^verbatim>\<open>blocked\<close> column of an existing row as it is.\<close>

definition upsert_row :: "fence_row option \<Rightarrow> RecordId \<Rightarrow> nat \<Rightarrow> RecordId option \<Rightarrow> fence_row" where
  "upsert_row old h sequence recovery =
     \<lparr>fr_head = encode_hex h, fr_sequence = int sequence,
      fr_blocked = (case old of None \<Rightarrow> False | Some row \<Rightarrow> fr_blocked row),
      fr_recovery = map_option encode_hex recovery\<rparr>"

definition advance_fence ::
  "('z authority_ext_scheme) \<Rightarrow> db_io \<Rightarrow> Engine \<Rightarrow> Scope \<Rightarrow> Prepared \<Rightarrow> nat \<Rightarrow> nat \<Rightarrow> Engine \<times> (CallError + unit)" where
  "advance_fence E io eng scope p proof_bytes now =
     (if pd_proof p = None then (eng, Inl Unauthorized)
      else
      (case head (pd_authority p) of
         Inl _ \<Rightarrow> (eng, Inl Unauthorized)
       | Inr h \<Rightarrow>
           if sc_sequence h > I64_MAX then (eng, Inl Invalid)
           else if \<not> io_fence io then (eng, Inl Unavailable)
           else
           let id' = co_config_id (pd_command p); recovery = recovery_id E (pd_authority p) in
           (queue_configuration_changed
              (eng\<lparr>en_rows := (en_rows eng)(scope_key scope \<mapsto>
                     upsert_row (en_rows eng (scope_key scope)) id' (sc_sequence h) recovery),
                   en_fences := bt_insert scope
                     \<lparr>fe_head = id', fe_recovery = recovery, fe_sequence = sc_sequence h,
                      fe_authority = Some (pd_authority p), fe_proof_bytes = proof_bytes,
                      fe_last_used = now, fe_blocked = False\<rparr> (en_fences eng)\<rparr>)
              scope id', Inr ())))"

definition live_receipts :: "nat \<Rightarrow> (string \<times> string \<rightharpoonup> receipt_row) \<Rightarrow> (string \<times> string \<rightharpoonup> receipt_row)" where
  "live_receipts now receipts =
     (\<lambda>k. case receipts k of None \<Rightarrow> None | Some r \<Rightarrow> if rr_expires r \<le> now then None else Some r)"

text \<open>The transaction that forgets expired receipts and records this one.\<close>

definition commit_receipt ::
  "db_io \<Rightarrow> (string \<times> string \<rightharpoonup> receipt_row) \<Rightarrow> Prepared \<Rightarrow> nat \<Rightarrow>
   CallError + (string \<times> string \<rightharpoonup> receipt_row)" where
  "commit_receipt io receipts p now =
     (if \<not> io_begin io then Inl Unavailable
      else if now > I64_MAX then Inl Invalid
      else if \<not> io_delete io then Inl Unavailable
      else if co_expires_at (pd_command p) > I64_MAX then Inl Invalid
      else if \<not> io_insert io \<or> live_receipts now receipts (receipt_key (pd_command p)) \<noteq> None then Inl Unavailable
      else if \<not> io_commit io then Inl Unavailable
      else Inr ((live_receipts now receipts)(receipt_key (pd_command p) \<mapsto>
             \<lparr>rr_request_id = encode_hex (pd_request_id p), rr_expires = co_expires_at (pd_command p)\<rparr>)))"

text \<open>The command itself, on a copy of the registry that is only kept once the receipt is.\<close>

definition apply_command ::
  "('z calls_ext_scheme) \<Rightarrow> db_io \<Rightarrow> bytes option \<times> bytes option \<Rightarrow> Engine \<Rightarrow> Scope \<Rightarrow> Prepared \<Rightarrow> nat \<Rightarrow>
   Engine \<times> (CallError + Applied_call)" where
  "apply_command E io rnd eng scope p now =
     (case apply_with_delegation E rnd (en_registry eng) (pd_authority p) (pd_command p) now (pd_delegation p) of
        (next', Inl e) \<Rightarrow> (eng, Inl e)
      | (next', Inr outcome) \<Rightarrow>
          (case commit_receipt io (en_receipts eng) p now of
             Inl e \<Rightarrow> (eng, Inl e)
           | Inr receipts \<Rightarrow>
               (eng\<lparr>en_receipts := receipts, en_registry := next'\<rparr>,
                Inr \<lparr>ap_request_id = pd_request_id p, ap_scope = scope, ap_call = presence next' scope,
                     ap_events = outcome, ap_duplicate = False\<rparr>)))"

text \<open>From the replay check on: an earlier receipt answers the request, a moved fence is
  stored before the command runs.\<close>

definition finish_request ::
  "('z calls_ext_scheme) \<Rightarrow> db_io \<Rightarrow> bytes option \<times> bytes option \<Rightarrow> Engine \<Rightarrow> Scope \<Rightarrow> Prepared \<Rightarrow> nat \<Rightarrow>
   bool \<Rightarrow> nat \<Rightarrow> Engine \<times> (CallError + Applied_call)" where
  "finish_request E io rnd eng scope p proof_bytes changed now =
     (let eng1 = (if changed then eng else touch_fence eng scope (pd_authority p) proof_bytes now) in
      if \<not> io_receipt io then (eng1, Inl Unavailable)
      else
      (case en_receipts eng1 (receipt_key (pd_command p)) of
         Some previous \<Rightarrow>
           if rr_request_id previous \<noteq> encode_hex (pd_request_id p) then (eng1, Inl Unauthorized)
           else (eng1, Inr \<lparr>ap_request_id = pd_request_id p, ap_scope = scope,
                  ap_call = presence (en_registry eng1) scope, ap_events = [], ap_duplicate = True\<rparr>)
       | None \<Rightarrow>
           bindst (if changed then advance_fence E io eng1 scope p proof_bytes now else (eng1, Inr ())) (\<lambda>eng2 _.
           apply_command E io rnd eng2 scope p now)))"

definition execute ::
  "('z calls_ext_scheme) \<Rightarrow> db_io \<Rightarrow> bytes option \<times> bytes option \<Rightarrow> Engine \<Rightarrow> Prepared \<Rightarrow> nat \<Rightarrow>
   Engine \<times> (CallError + Applied_call)" where
  "execute E io rnd eng p now =
     (if co_expires_at (pd_command p) \<le> now then (eng, Inl Unauthorized)
      else
      let scope = scope_of (pd_command p) in
      bindst (load_fence io eng scope now) (\<lambda>eng1 _.
      let proof_bytes = request_bytes eng1 scope (pd_proof p) in
      if saturating_add proof_bytes (other_bytes eng1 scope) > MAX_CACHED_PROOFS then (eng1, Inl Unavailable)
      else
      bindst (check_fence E io eng1 scope (pd_authority p) (pd_command p)) (\<lambda>eng2 changed.
      finish_request E io rnd eng2 scope p proof_bytes changed now)))"

subsection \<open>Standing authorization, events and maintenance\<close>

definition authorized :: "Engine \<Rightarrow> Scope \<Rightarrow> RecordId \<Rightarrow> bool" where
  "authorized eng scope cred \<longleftrightarrow>
     (case bt_get (en_fences eng) scope of
        None \<Rightarrow> False
      | Some f \<Rightarrow> \<not> fe_blocked f
          \<and> (case fe_authority f of None \<Rightarrow> False | Some a \<Rightarrow> is_ok (require_member a cred)))"

definition authorized_head :: "Engine \<Rightarrow> Scope \<Rightarrow> RecordId \<Rightarrow> nat \<Rightarrow> Engine \<times> RecordId option" where
  "authorized_head eng scope cred now =
     (if \<not> authorized eng scope cred then (eng, None)
      else
      (case bt_get (en_fences eng) scope of
         None \<Rightarrow> (eng, None)
       | Some f \<Rightarrow>
           (eng\<lparr>en_fences := bt_modify scope (\<lambda>f. f\<lparr>fe_last_used := now\<rparr>) (en_fences eng)\<rparr>, Some (fe_head f))))"

definition take_events :: "Engine \<Rightarrow> Engine \<times> Event list" where
  "take_events eng = (eng\<lparr>en_pending := []\<rparr>, en_pending eng)"

definition release_idle :: "Registry \<Rightarrow> nat \<Rightarrow> Scope \<times> Fence \<Rightarrow> Scope \<times> Fence" where
  "release_idle reg now e =
     (if saturating_sub now (fe_last_used (snd e)) \<ge> IDLE_SECONDS \<and> presence reg (fst e) = None
      then (fst e, (snd e)\<lparr>fe_authority := None, fe_proof_bytes := 0\<rparr>) else e)"

definition maintain :: "db_io \<Rightarrow> Engine \<Rightarrow> nat \<Rightarrow> Engine \<times> (CallError + Event list)" where
  "maintain io eng now =
     (if now > I64_MAX then (eng, Inl Invalid)
      else if \<not> io_delete io then (eng, Inl Unavailable)
      else
      let r = tick (en_registry eng) now in
      (eng\<lparr>en_receipts := live_receipts now (en_receipts eng), en_registry := fst r,
           en_fences := map (release_idle (fst r) now) (en_fences eng)\<rparr>, Inr (snd r)))"

end
