(* ===== verification/Call_Engine_Invariant.thy ===== *)
theory Call_Engine_Invariant
  imports Call_Engine Machines
begin

text \<open>
  The invariant of the call engine: its cache of fences agrees with the database, stays
  within its limits, and every live call is held under an unblocked fence at the same
  configuration. Each stage of \<open>execute\<close> keeps it; \<open>service_step\<close> interleaves requests whose
  verification ran outside the lock.
\<close>

subsection \<open>Text keys\<close>

lemma encode_hex_no_colon: "CHR '':'' \<notin> set (encode_hex bs)"
proof -
  have "hex_digit n \<noteq> CHR '':''" if "n < 16" for n
  proof
    assume "hex_digit n = CHR '':''"
    then have "digit (CHR '':'') = Some n" using digit_hex_digit [OF that] by simp
    then show False by (simp add: digit_def)
  qed
  moreover have "unat b div 16 < 16" for b :: byte
    using unat_byte_less [of b] by (simp add: div_less_iff_less_mult)
  ultimately show ?thesis
    by (auto simp: encode_hex_def encode_byte_def dest!: sym [of "CHR '':''"])
qed

lemma append_sep_inj:
  "x \<notin> set as \<Longrightarrow> x \<notin> set bs \<Longrightarrow> as @ x # cs = bs @ x # ds \<longleftrightarrow> as = bs \<and> cs = ds"
proof (induction as arbitrary: bs)
  case Nil
  then show ?case by (cases bs) auto
next
  case (Cons a as)
  then show ?case by (cases bs) auto
qed

lemma scope_key_inj: "scope_key s = scope_key t \<longleftrightarrow> s = t"
  by (cases s; cases t; cases "sp_conversation s"; cases "sp_conversation t")
    (auto simp: scope_key_def append_sep_inj encode_hex_no_colon encode_hex_inj)

subsection \<open>Verified requests\<close>

definition cached_for :: "('z authority_ext_scheme) \<Rightarrow> Scope \<Rightarrow> Authority \<Rightarrow> bool" where
  "cached_for E s a \<longleftrightarrow>
     authority_ok E a \<and> \<not> au_forked a \<and> (\<exists>h. head a = Inr h)
     \<and> space E a = cs_space_id (sp_conversation s) \<and> au_stream a = cs_stream_id (sp_conversation s)
     \<and> (is_owner_managed a \<or> au_checkpoint_evidence a \<noteq> None \<longrightarrow>
          (\<forall>h i n. head a = Inr h \<and> proves_config_at a i n \<longrightarrow> n \<le> sc_sequence h))"

definition preparation_ok :: "('z authority_ext_scheme) \<Rightarrow> Preparation \<Rightarrow> bool" where
  "preparation_ok E prep \<longleftrightarrow> (\<forall>a. pn_cached prep = Some a \<longrightarrow> cached_for E (pn_scope prep) a)"

definition prepared_ok :: "('z authority_ext_scheme) \<Rightarrow> Prepared \<Rightarrow> bool" where
  "prepared_ok E p \<longleftrightarrow>
     cached_for E (scope_of (pd_command p)) (pd_authority p)
     \<and> au_head (pd_authority p) = Some (co_config_id (pd_command p))
     \<and> (\<exists>ident. require_member (pd_authority p) (co_credential_id (pd_command p)) = Inr ident)
     \<and> length (co_config_id (pd_command p)) = 32
     \<and> (\<forall>r. recovery_id E (pd_authority p) = Some r \<longrightarrow> length r = 32)"

lemma verify_with_witness_cached:
  assumes "verify_with_witness E p (cs_space_id (sp_conversation s)) (cs_stream_id (sp_conversation s)) pin = Inr a"
  shows "cached_for E s a"
  using verify_with_witness_usable [OF assms] verify_with_witness_latest [OF assms] unfolding cached_for_def by blast

lemma request_authority_ok:
  assumes "request_authority E prep = Inr a" "preparation_ok E prep"
  shows "cached_for E (pn_scope prep) a"
  using assms unfolding request_authority_def preparation_ok_def Let_def proof_verify_def verify_witnessed_def
  by (auto simp: map_err_eq_Inr ok_or_eq_Inr bindr_eq_Inr intro: verify_with_witness_cached split: option.splits sum.splits)

text \<open>A verified command names the head and the conversation of the authority that judged it.\<close>

lemma delegated_command_named:
  assumes "delegated_command E a srec certificate audience now = Inr cmd"
  shows "Some (co_config_id cmd) = au_head a \<and> dec_command E (rec_body srec) = Some cmd"
  using assms
  unfolding delegated_command_def delegation_verify_def delegated_command_authorship_def decode_with_iff
    bindr_eq_Inr guard_eq_Inr
  by (auto dest!: verify_authorship_Inr(5))

lemma verify_request_command_named:
  assumes "verify_request_command E prep a now = Inr (cmd, lease)"
  shows "au_head a = Some (co_config_id cmd)" "dec_command E (rec_body (pn_signed prep)) = Some cmd"
proof -
  have "au_head a = Some (co_config_id cmd) \<and> dec_command E (rec_body (pn_signed prep)) = Some cmd"
  proof (cases "rq_delegation (pn_request prep)")
    case None
    with assms have "verify_command E a (pn_signed prep) (pn_audience prep) now = Inr cmd"
      by (auto simp: verify_request_command_def bindr_eq_Inr map_err_eq_Inr)
    then show ?thesis
      unfolding verify_command_def decode_with_iff bindr_eq_Inr guard_eq_Inr by auto
  next
    case (Some encoded)
    with assms obtain certificate where
      "delegated_command E a (pn_signed prep) certificate (pn_audience prep) now = Inr cmd"
      by (auto simp: verify_request_command_def bindr_eq_Inr map_err_eq_Inr)
    from delegated_command_named [OF this] show ?thesis by simp
  qed
  then show "au_head a = Some (co_config_id cmd)" "dec_command E (rec_body (pn_signed prep)) = Some cmd" by simp_all
qed

lemma recovery_id_length: "sha256_length E \<Longrightarrow> recovery_id E a = Some r \<Longrightarrow> length r = 32"
  by (auto simp: recovery_id_def record_id_length split: option.splits if_splits)

lemma Preparation_verify_ok:
  assumes "Preparation_verify E prep now = Inr p" "preparation_ok E prep" "sha256_length E"
    "pn_scope prep = scope_of cmd" "dec_command E (rec_body (pn_signed prep)) = Some cmd"
  shows "prepared_ok E p" "pd_command p = cmd" "pd_request_id p = record_id E (pn_signed prep)"
proof -
  from assms(1) obtain a c lease ident where a: "request_authority E prep = Inr a"
    and c: "verify_request_command E prep a now = Inr (c, lease)"
    and m: "require_member a (co_credential_id c) = Inr ident"
    and p: "pd_command p = c" "pd_authority p = a" "pd_request_id p = record_id E (pn_signed prep)"
    by (auto simp: Preparation_verify_def bindr_eq_Inr map_err_eq_Inr)
  note named = verify_request_command_named [OF c]
  have cmd: "c = cmd" using named(2) assms(5) by simp
  have for_scope: "cached_for E (scope_of cmd) a"
    using request_authority_ok [OF a assms(2)] assms(4) by simp
  then obtain r conf where "bt_get (au_configs a) (co_config_id cmd) = Some (r, conf)"
    using named(1) cmd by (auto simp: cached_for_def head_iff config_iff)
  then have "co_config_id cmd = record_id E r"
    using config_entry(1) [of E a "co_config_id cmd" r conf] for_scope by (simp add: cached_for_def)
  then show "prepared_ok E p"
    using for_scope named(1) m p(1,2) cmd assms(3)
    by (auto simp: prepared_ok_def record_id_length recovery_id_length)
  show "pd_command p = cmd" "pd_request_id p = record_id E (pn_signed prep)" using p cmd by simp_all
qed

lemma prepared_head:
  assumes "prepared_ok E p"
  obtains h where "head (pd_authority p) = Inr h" "1 \<le> sc_sequence h"
proof -
  from assms obtain h r where h: "head (pd_authority p) = Inr h"
    "bt_get (au_configs (pd_authority p)) (co_config_id (pd_command p)) = Some (r, h)"
    and ok: "authority_ok E (pd_authority p)"
    by (auto simp: prepared_ok_def cached_for_def head_iff config_iff)
  from config_entry(3) [OF ok h(2)] h(1) that show thesis by blast
qed

subsection \<open>The invariant\<close>

text \<open>A fence without what only lives in memory: what the database knows of it.\<close>

definition fence_core :: "Fence \<Rightarrow> Fence" where
  "fence_core f = f\<lparr>fe_authority := None, fe_proof_bytes := 0, fe_last_used := 0\<rparr>"

definition stored_as :: "Engine \<Rightarrow> Scope \<Rightarrow> Fence \<Rightarrow> bool" where
  "stored_as eng s f \<longleftrightarrow>
     (\<exists>row. en_rows eng (scope_key s) = Some row \<and> fence_of_row row = Inr (fence_core f))"

definition fences_ok :: "('z authority_ext_scheme) \<Rightarrow> Engine \<Rightarrow> bool" where
  "fences_ok E eng \<longleftrightarrow>
     (\<forall>s f. bt_get (en_fences eng) s = Some f \<longrightarrow> stored_as eng s f
        \<and> (\<forall>a. fe_authority f = Some a \<longrightarrow> cached_for E s a \<and> au_head a = Some (fe_head f)))"

definition cached_bytes :: "(Scope, Fence) btree_map \<Rightarrow> nat" where
  "cached_bytes m = sum_list (map (\<lambda>e. fe_proof_bytes (snd e)) m)"

definition calls_fenced :: "Engine \<Rightarrow> bool" where
  "calls_fenced eng \<longleftrightarrow>
     (\<forall>s c. presence (en_registry eng) s = Some c \<longrightarrow>
        (\<exists>f. bt_get (en_fences eng) s = Some f \<and> \<not> fe_blocked f \<and> fe_head f = ac_config_id c))"

definition engine_ok :: "('z authority_ext_scheme) \<Rightarrow> Engine \<Rightarrow> bool" where
  "engine_ok E eng \<longleftrightarrow>
     registry_ok (en_registry eng) \<and> bt_wf (en_fences eng) \<and> fences_ok E eng
     \<and> length (en_fences eng) \<le> MAX_SCOPES \<and> cached_bytes (en_fences eng) \<le> MAX_CACHED_PROOFS
     \<and> calls_fenced eng"

lemma engine_okD:
  assumes "engine_ok E eng"
  shows "registry_ok (en_registry eng)" "bt_wf (en_fences eng)" "length (en_fences eng) \<le> MAX_SCOPES"
    "cached_bytes (en_fences eng) \<le> MAX_CACHED_PROOFS"
    "bt_get (en_fences eng) s = Some f \<Longrightarrow>
       \<exists>row. en_rows eng (scope_key s) = Some row \<and> fence_of_row row = Inr (fence_core f)"
    "bt_get (en_fences eng) s = Some f \<Longrightarrow> fe_authority f = Some a \<Longrightarrow> cached_for E s a \<and> au_head a = Some (fe_head f)"
    "presence (en_registry eng) s = Some c \<Longrightarrow>
       \<exists>f. bt_get (en_fences eng) s = Some f \<and> \<not> fe_blocked f \<and> fe_head f = ac_config_id c"
  using assms unfolding engine_ok_def fences_ok_def calls_fenced_def stored_as_def by blast+

lemma engine_ok_call:
  assumes "engine_ok E eng" "bt_get (en_fences eng) s = Some f" "presence (en_registry eng) s = Some c"
  shows "\<not> fe_blocked f" "fe_head f = ac_config_id c"
  using engine_okD(7) [OF assms(1,3)] assms(2) by simp_all

lemma preparation_of_ok:
  assumes "preparation E io eng request device = Inr prep" "engine_ok E eng"
  shows "preparation_ok E prep"
    "\<exists>cmd. pn_scope prep = scope_of cmd \<and> dec_command E (rec_body (pn_signed prep)) = Some cmd"
  using assms
  by (auto simp: preparation_def bindr_eq_Inr guard_eq_Inr map_err_eq_Inr ok_or_eq_Inr Let_def decode_with_iff
      preparation_ok_def engine_ok_def fences_ok_def split: option.splits if_splits)

subsection \<open>Stages that only touch the cache\<close>

lemma cached_bytes_filter: "cached_bytes (filter P m) \<le> cached_bytes m"
  by (induction m) (auto simp: cached_bytes_def)

lemma cached_bytes_set: "bt_wf m \<Longrightarrow> cached_bytes m = (\<Sum>e \<in> set m. fe_proof_bytes (snd e))"
  using bt_wf_distinct [of m] by (simp add: cached_bytes_def sum_list_distinct_conv_sum_set distinct_map)

lemma cached_bytes_insert:
  assumes "bt_wf m"
  shows "cached_bytes (bt_insert s f m) = fe_proof_bytes f + cached_bytes (filter (\<lambda>e. fst e \<noteq> s) m)"
  by (simp add: cached_bytes_set assms bt_wf_filter set_bt_insert)

lemma other_bytes_eq: "other_bytes eng s = cached_bytes (filter (\<lambda>e. fst e \<noteq> s) (en_fences eng))"
  by (simp add: other_bytes_def cached_bytes_def)

lemma cached_bytes_split:
  assumes "bt_wf m" "bt_get m s = Some f"
  shows "cached_bytes m = fe_proof_bytes f + cached_bytes (filter (\<lambda>e. fst e \<noteq> s) m)"
proof -
  have "bt_modify s (\<lambda>x. x) m = m" by (auto simp: bt_modify_def intro: map_idI)
  with bt_modify_eq_insert [OF assms, of "\<lambda>x. x"] cached_bytes_insert [OF assms(1), of s f] show ?thesis by simp
qed

lemma unfenced_no_call:
  assumes "engine_ok E eng" "bt_get (en_fences eng) s = None"
  shows "presence (en_registry eng) s = None"
  using assms by (cases "presence (en_registry eng) s") (fastforce simp: engine_ok_def calls_fenced_def)+

text \<open>Writing one fence into the cache.\<close>

lemma put_fence_ok:
  assumes ok: "engine_ok E eng"
    and upd: "eng' = eng\<lparr>en_fences := bt_insert s f (en_fences eng)\<rparr>"
    and stored: "stored_as eng s f"
    and cached: "\<And>a. fe_authority f = Some a \<Longrightarrow> cached_for E s a \<and> au_head a = Some (fe_head f)"
    and room: "bt_get (en_fences eng) s = None \<Longrightarrow> length (en_fences eng) < MAX_SCOPES"
    and bytes: "fe_proof_bytes f + other_bytes eng s \<le> MAX_CACHED_PROOFS"
    and call: "\<And>c. presence (en_registry eng) s = Some c \<Longrightarrow> \<not> fe_blocked f \<and> fe_head f = ac_config_id c"
  shows "engine_ok E eng'"
proof -
  let ?m = "en_fences eng"
  have wf: "bt_wf ?m" using ok by (simp add: engine_ok_def)
  have same: "stored_as eng' t g = stored_as eng t g" for t g by (simp add: stored_as_def upd)
  have "length (bt_insert s f ?m) \<le> MAX_SCOPES"
    using ok by (intro insert_length [OF wf _ room]) (simp add: engine_ok_def)
  moreover have "cached_bytes (bt_insert s f ?m) \<le> MAX_CACHED_PROOFS"
    using bytes by (simp add: cached_bytes_insert [OF wf] other_bytes_eq)
  moreover have "fences_ok E eng'"
    using ok stored cached unfolding fences_ok_def same engine_ok_def by (auto simp: upd)
  moreover have "calls_fenced eng'"
    using ok call unfolding calls_fenced_def engine_ok_def by (auto simp: upd)
  ultimately show ?thesis using ok by (simp add: engine_ok_def upd)
qed

lemma drop_fence_ok:
  assumes "engine_ok E eng" "presence (en_registry eng) s = None"
  shows "engine_ok E (eng\<lparr>en_fences := bt_remove s (en_fences eng)\<rparr>)"
  using assms order_trans [OF cached_bytes_filter [of "\<lambda>e. fst e \<noteq> s" "en_fences eng"]]
    order_trans [OF length_bt_remove_le [of s "en_fences eng"]]
  by (auto simp: engine_ok_def fences_ok_def calls_fenced_def stored_as_def bt_remove_def [symmetric])

lemma idle_fence_Some:
  assumes "idle_fence eng now = Some s"
  shows "presence (en_registry eng) s = None" "s \<in> set (bt_keys (en_fences eng))"
  using assms by (auto simp: idle_fence_def intro: rev_image_eqI dest!: min_by_key_Some)

lemma make_room_ok:
  assumes "engine_ok E eng" "make_room eng now = (eng', r)"
  shows "engine_ok E eng'" "r = Inr u \<Longrightarrow> length (en_fences eng') < MAX_SCOPES"
    "en_rows eng' = en_rows eng" "en_receipts eng' = en_receipts eng" "en_registry eng' = en_registry eng"
    "en_pending eng' = en_pending eng"
proof -
  have "length (bt_remove s (en_fences eng)) < MAX_SCOPES" if "idle_fence eng now = Some s" for s
  proof -
    have "length (bt_remove s (en_fences eng)) < length (en_fences eng)"
      using idle_fence_Some(2) [OF that] unfolding bt_remove_def by (force intro: length_filter_less)
    then show ?thesis using assms(1) by (simp add: engine_ok_def)
  qed
  with assms show "engine_ok E eng'" "r = Inr u \<Longrightarrow> length (en_fences eng') < MAX_SCOPES"
    "en_rows eng' = en_rows eng" "en_receipts eng' = en_receipts eng" "en_registry eng' = en_registry eng"
    "en_pending eng' = en_pending eng"
    by (auto simp: make_room_def drop_fence_ok idle_fence_Some split: if_splits option.splits)
qed

text \<open>A row that reads back as a fence: what the fence says of its columns.\<close>

lemma fence_of_row_Inr:
  assumes "fence_of_row row = Inr f"
  shows "fence_core f = f" "fr_blocked row = fe_blocked f" "fr_sequence row = int (fe_sequence f)"
    "fr_head row = encode_hex (fe_head f)" "fr_recovery row = map_option encode_hex (fe_recovery f)"
    "1 \<le> fe_sequence f" "fe_authority f = None" "fe_proof_bytes f = 0"
  using assms parse_hex_sound
  by (auto simp: fence_of_row_def bindr_eq_Inr guard_eq_Inr map_err_eq_Inr fence_core_def
      split: option.splits if_splits)

lemma load_fence_ok:
  assumes ok: "engine_ok E eng" and l: "load_fence io eng s now = (eng', r)"
  shows "engine_ok E eng'" "en_rows eng' = en_rows eng" "en_receipts eng' = en_receipts eng"
    "en_registry eng' = en_registry eng" "en_pending eng' = en_pending eng"
    "r = Inr u \<Longrightarrow> bt_get (en_fences eng') s = None \<Longrightarrow> en_rows eng' (scope_key s) = None"
proof -
  have "engine_ok E eng' \<and> en_rows eng' = en_rows eng \<and> en_receipts eng' = en_receipts eng
    \<and> en_registry eng' = en_registry eng \<and> en_pending eng' = en_pending eng
    \<and> (r = Inr u \<and> bt_get (en_fences eng') s = None \<longrightarrow> en_rows eng' (scope_key s) = None)"
  proof (cases "bt_contains (en_fences eng) s")
    case True
    with l ok show ?thesis by (auto simp: load_fence_def bt_contains_def)
  next
    case False
    obtain eng1 q where m: "make_room eng now = (eng1, q)" by fastforce
    note k = make_room_ok [OF ok m]
    have none: "presence (en_registry eng1) s = None"
      using unfenced_no_call [OF ok] False k(5) by (simp add: bt_contains_def)
    have put: "engine_ok E (eng1\<lparr>en_fences := bt_insert s f (en_fences eng1)\<rparr>)"
      if "q = Inr v" "stored_fence io eng1 s = Inr (Some f)" for f v
    proof -
      from that(2) obtain row where row: "en_rows eng1 (scope_key s) = Some row" "fence_of_row row = Inr f"
        by (auto simp: stored_fence_def bindr_eq_Inr split: if_splits option.splits)
      note fr = fence_of_row_Inr [OF row(2)]
      have "other_bytes eng1 s \<le> MAX_CACHED_PROOFS"
        using order_trans [OF cached_bytes_filter] k(1) by (auto simp: other_bytes_eq engine_ok_def)
      with row fr none k(2) [OF that(1)] show ?thesis
        by (intro put_fence_ok [OF k(1) refl]) (auto simp: stored_as_def)
    qed
    show ?thesis
    proof (cases q)
      case (Inl e)
      with l m False k show ?thesis by (auto simp: load_fence_def)
    next
      case (Inr v)
      with l m False k put show ?thesis
        by (auto simp: load_fence_def stored_fence_def bindr_eq_Inl bindr_eq_Inr split: sum.splits option.splits if_splits)
    qed
  qed
  then show "engine_ok E eng'" "en_rows eng' = en_rows eng" "en_receipts eng' = en_receipts eng"
    "en_registry eng' = en_registry eng" "en_pending eng' = en_pending eng"
    "r = Inr u \<Longrightarrow> bt_get (en_fences eng') s = None \<Longrightarrow> en_rows eng' (scope_key s) = None" by blast+
qed

subsection \<open>Stages that move the fence\<close>

lemma configuration_changed_presence:
  "presence (fst (configuration_changed reg s h)) t =
     (if t = s \<and> (\<exists>c. presence reg s = Some c \<and> ac_config_id c \<noteq> h) then None else presence reg t)"
  by (auto simp: configuration_changed_def presence_def end_room_def end_with_reason_def split: option.split)

lemma configuration_changed_ok: "registry_ok reg \<Longrightarrow> registry_ok (fst (configuration_changed reg s h))"
  using registry_step_ok [of reg E "Configuration_in s h" for E] by (simp add: Let_def)

text \<open>Writing a row, the fence cached for it, and ending a call held under another configuration.\<close>

lemma move_fence_ok:
  assumes ok: "engine_ok E eng"
    and upd: "en_rows eng' = (en_rows eng)(scope_key s \<mapsto> row)"
      "en_fences eng' = bt_insert s f (en_fences eng)"
      "en_registry eng' = fst (configuration_changed (en_registry eng) s h)"
    and row: "fence_of_row row = Inr (fence_core f)"
    and cached: "\<And>a. fe_authority f = Some a \<Longrightarrow> cached_for E s a \<and> au_head a = Some (fe_head f)"
    and room: "bt_get (en_fences eng) s = None \<Longrightarrow> length (en_fences eng) < MAX_SCOPES"
    and bytes: "fe_proof_bytes f + other_bytes eng s \<le> MAX_CACHED_PROOFS"
    and call: "\<And>c. presence (en_registry eng) s = Some c \<Longrightarrow> ac_config_id c = h \<Longrightarrow> \<not> fe_blocked f \<and> fe_head f = h"
  shows "engine_ok E eng'"
proof -
  let ?m = "en_fences eng"
  have wf: "bt_wf ?m" using ok by (simp add: engine_ok_def)
  have stored: "stored_as eng' t g" if "t \<noteq> s" "stored_as eng t g" for t g
    using that by (simp add: stored_as_def upd scope_key_inj)
  have len: "length (bt_insert s f ?m) \<le> MAX_SCOPES"
    using ok by (intro insert_length [OF wf _ room]) (simp add: engine_ok_def)
  have "cached_bytes (bt_insert s f ?m) \<le> MAX_CACHED_PROOFS"
    using bytes by (simp add: cached_bytes_insert [OF wf] other_bytes_eq)
  moreover have "fences_ok E eng'"
    unfolding fences_ok_def
  proof (intro allI impI)
    fix t g
    assume g: "bt_get (en_fences eng') t = Some g"
    show "stored_as eng' t g \<and> (\<forall>a. fe_authority g = Some a \<longrightarrow> cached_for E t a \<and> au_head a = Some (fe_head g))"
    proof (cases "t = s")
      case True
      with g row cached show ?thesis by (auto simp: upd stored_as_def)
    next
      case False
      with g have "bt_get ?m t = Some g" by (simp add: upd)
      with ok have "stored_as eng t g \<and> (\<forall>a. fe_authority g = Some a \<longrightarrow> cached_for E t a \<and> au_head a = Some (fe_head g))"
        by (auto simp: engine_ok_def fences_ok_def)
      with stored [OF False] show ?thesis by blast
    qed
  qed
  moreover have "calls_fenced eng'"
    using ok call unfolding calls_fenced_def engine_ok_def
    by (auto simp: upd configuration_changed_presence split: if_splits)
  ultimately show ?thesis
    using ok wf len by (simp add: engine_ok_def upd configuration_changed_ok)
qed

lemma block_fence_ok:
  assumes ok: "engine_ok E eng" and old: "bt_get (en_fences eng) s = Some old" and h: "fe_head old \<noteq> h"
  shows "engine_ok E (queue_configuration_changed (block_fence eng s) s h)"
proof -
  have wf: "bt_wf (en_fences eng)" using ok by (simp add: engine_ok_def)
  from engine_okD(5) [OF ok old] obtain row where
    row: "en_rows eng (scope_key s) = Some row" "fence_of_row row = Inr (fence_core old)" by blast
  note cached = engine_okD(6) [OF ok old]
  let ?f = "old\<lparr>fe_blocked := True\<rparr>" and ?row = "row\<lparr>fr_blocked := True\<rparr>"
  have "fence_of_row ?row = Inr (fence_core ?f)"
    using row(2) by (cases old) (auto simp: fence_of_row_def bindr_eq_Inr guard_eq_Inr fence_core_def split: if_splits)
  moreover have "fe_proof_bytes old + other_bytes eng s \<le> MAX_CACHED_PROOFS"
    using ok by (simp add: other_bytes_eq engine_ok_def cached_bytes_split [OF wf old])
  moreover have "ac_config_id c \<noteq> h" if "presence (en_registry eng) s = Some c" for c
    using engine_ok_call [OF ok old that] h by simp
  ultimately show ?thesis
    using cached old
    by (intro move_fence_ok [OF ok, where s = s and row = ?row and f = ?f and h = h])
      (auto simp: queue_configuration_changed_def block_fence_def row Let_def bt_modify_eq_insert [OF wf old])
qed

text \<open>What a fence check that lets a request through has established.\<close>

lemma check_fence_Inr:
  assumes "check_fence E io eng s a cmd = (eng', Inr changed)"
  shows "eng' = eng"
    "changed = False \<Longrightarrow> \<exists>old. bt_get (en_fences eng) s = Some old \<and> \<not> fe_blocked old \<and> fe_head old = co_config_id cmd
       \<and> proves_recovery_ancestor E a (fe_recovery old)"
    "changed \<Longrightarrow> bt_get (en_fences eng) s = None \<and> length (en_fences eng) < MAX_SCOPES
       \<or> (\<exists>old. bt_get (en_fences eng) s = Some old \<and> \<not> fe_blocked old \<and> fe_head old \<noteq> co_config_id cmd
            \<and> proves_config_at a (fe_head old) (fe_sequence old)
            \<and> proves_recovery_ancestor E a (fe_recovery old))"
  using assms by (auto simp: check_fence_def split: option.splits if_splits sum.splits)

lemma check_fence_Inl:
  assumes "check_fence E io eng s a cmd = (eng', Inl e)"
  shows "eng' = eng \<or> (\<exists>old. bt_get (en_fences eng) s = Some old \<and> \<not> fe_blocked old \<and> fe_head old \<noteq> co_config_id cmd
    \<and> proves_recovery_ancestor E a (fe_recovery old) \<and> \<not> proves_config_at a (fe_head old) (fe_sequence old)
    \<and> (\<exists>h. head a = Inr h \<and> fe_sequence old \<le> sc_sequence h)
    \<and> eng' = queue_configuration_changed (block_fence eng s) s (co_config_id cmd))"
  using assms by (auto simp: check_fence_def split: option.splits if_splits sum.splits)

lemma check_fence_ok:
  assumes "engine_ok E eng" "check_fence E io eng s a cmd = (eng', r)"
  shows "engine_ok E eng'"
proof (cases r)
  case (Inl e)
  from check_fence_Inl [OF assms(2) [unfolded Inl]] assms(1) block_fence_ok show ?thesis by blast
next
  case (Inr changed)
  from check_fence_Inr(1) [OF assms(2) [unfolded Inr]] assms(1) show ?thesis by simp
qed

lemma touch_fence_ok:
  assumes ok: "engine_ok E eng" and old: "bt_get (en_fences eng) s = Some old"
    and p: "cached_for E s a" "au_head a = Some (fe_head old)"
    and bytes: "proof_bytes + other_bytes eng s \<le> MAX_CACHED_PROOFS"
  shows "engine_ok E (touch_fence eng s a proof_bytes now)"
proof -
  have wf: "bt_wf (en_fences eng)" using ok by (simp add: engine_ok_def)
  let ?f = "old\<lparr>fe_authority := Some a, fe_proof_bytes := proof_bytes, fe_last_used := now\<rparr>"
  have "stored_as eng s ?f" using engine_okD(5) [OF ok old] by (simp add: stored_as_def fence_core_def)
  moreover have "\<not> fe_blocked old \<and> fe_head old = ac_config_id c" if "presence (en_registry eng) s = Some c" for c
    using engine_ok_call [OF ok old that] by simp
  ultimately show ?thesis
    using p bytes old by (intro put_fence_ok [OF ok, where f = ?f and s = s])
      (auto simp: touch_fence_def bt_modify_eq_insert [OF wf old])
qed

lemma advance_fence_ok:
  assumes ok: "engine_ok E eng" and p: "prepared_ok E p" "s = scope_of (pd_command p)"
    and row: "bt_get (en_fences eng) s = None \<Longrightarrow> en_rows eng (scope_key s) = None \<and> length (en_fences eng) < MAX_SCOPES"
    and live: "\<And>old. bt_get (en_fences eng) s = Some old \<Longrightarrow> \<not> fe_blocked old"
    and bytes: "proof_bytes + other_bytes eng s \<le> MAX_CACHED_PROOFS"
  shows "engine_ok E (fst (advance_fence E io eng s p proof_bytes now))"
proof -
  let ?id = "co_config_id (pd_command p)" and ?rec = "recovery_id E (pd_authority p)"
  let ?row = "\<lambda>h. upsert_row (en_rows eng (scope_key s)) ?id (sc_sequence h) ?rec"
  let ?f = "\<lambda>h. \<lparr>fe_head = ?id, fe_recovery = ?rec, fe_sequence = sc_sequence h, fe_authority = Some (pd_authority p),
    fe_proof_bytes = proof_bytes, fe_last_used = now, fe_blocked = False\<rparr>"
  have unblocked: "\<not> fr_blocked r" if "en_rows eng (scope_key s) = Some r" for r
  proof (cases "bt_get (en_fences eng) s")
    case None
    with row that show ?thesis by simp
  next
    case (Some old)
    with engine_okD(5) [OF ok Some] that have "fence_of_row r = Inr (fence_core old)" by simp
    from fence_of_row_Inr(2) [OF this] live [OF Some] show ?thesis by (simp add: fence_core_def)
  qed
  have "fence_of_row (?row h) = Inr (fence_core (?f h))" if "head (pd_authority p) = Inr h" for h
  proof -
    from that p(1) have "1 \<le> sc_sequence h" by (metis prepared_head sum.inject(2))
    with p(1) unblocked show ?thesis
      by (auto simp: upsert_row_def fence_of_row_def fence_core_def prepared_ok_def split: option.split)
  qed
  then show ?thesis
    using p row bytes ok
    by (auto simp: advance_fence_def Let_def queue_configuration_changed_def prepared_ok_def split: sum.split
        intro!: move_fence_ok [OF ok, where s = s and row = "?row h" and f = "?f h" and h = ?id for h])
qed

subsection \<open>Executing a request\<close>

lemma modify_presence: "bt_get (bt_modify s f m) t = Some c' \<Longrightarrow> \<exists>c. bt_get m t = Some c"
  by (auto split: if_splits)

lemma apply_in_room_no_new:
  "bt_get (rg_rooms (fst (apply_in_room rnd reg a cmd ident now))) s = Some c \<Longrightarrow> \<exists>d. bt_get (rg_rooms reg) s = Some d"
  by (auto simp: apply_in_room_def room_result_def finish_room_def end_with_reason_def Let_def
      split: sum.splits option.splits room_outcome.splits if_splits)

text \<open>A room after a command was there before, under the same configuration, or was opened by it.\<close>

lemma Registry_apply_rooms:
  assumes "registry_ok reg" "presence (fst (Registry_apply E rnd reg a cmd now)) s = Some c'"
  shows "(\<exists>c. presence reg s = Some c \<and> ac_config_id c = ac_config_id c')
    \<or> s = scope_of cmd \<and> ac_config_id c' = co_config_id cmd"
proof (cases "presence reg s")
  case (Some c)
  with Registry_apply_evolve [OF assms(1), of E rnd a cmd now] assms(2) show ?thesis
    by (auto simp: rooms_evolve_def room_evolves_def presence_def)
next
  case None
  then have none: "bt_get (rg_rooms reg) s = None" by (simp add: presence_def)
  show ?thesis
    using assms(2)
    by (cases rule: Registry_apply_cases [of E rnd reg a cmd now])
      (auto simp: none presence_def finish_room_def end_with_reason_def start_room_def bindr_eq_Inr guard_eq_Inr
        dest: apply_in_room_no_new split: option.splits if_splits)
qed

lemma apply_with_delegation_rooms:
  assumes "registry_ok reg" "presence (fst (apply_with_delegation E rnd reg a cmd now delegation)) s = Some c'"
  shows "(\<exists>c. presence reg s = Some c \<and> ac_config_id c = ac_config_id c')
    \<or> s = scope_of cmd \<and> ac_config_id c' = co_config_id cmd"
proof -
  let ?reg = "fst (Registry_apply E rnd reg a cmd now)"
  have del: "\<exists>c. presence reg1 s = Some c \<and> ac_config_id c = ac_config_id c'"
    if "presence (set_delegation reg1 t cred delegation x) s = Some c'" for reg1 t cred x
    using that by (auto simp: set_delegation_def presence_def split: if_splits)
  from assms(2) have "presence reg s = Some c' \<or> (\<exists>c. presence ?reg s = Some c \<and> ac_config_id c = ac_config_id c')"
    by (auto simp: apply_with_delegation_def Let_def split: if_splits sum.splits prod.splits dest: del)
  with Registry_apply_rooms [OF assms(1), of E rnd a cmd now s] show ?thesis by fastforce
qed

lemma apply_command_ok:
  assumes ok: "engine_ok E eng" and s: "s = scope_of (pd_command p)"
    and f: "bt_get (en_fences eng) s = Some f" "\<not> fe_blocked f" "fe_head f = co_config_id (pd_command p)"
  shows "engine_ok E (fst (apply_command E io rnd eng s p now))"
proof -
  let ?r = "apply_with_delegation E rnd (en_registry eng) (pd_authority p) (pd_command p) now (pd_delegation p)"
  have "engine_ok E (eng\<lparr>en_receipts := rs, en_registry := fst ?r\<rparr>)" for rs
  proof -
    have "calls_fenced (eng\<lparr>en_receipts := rs, en_registry := fst ?r\<rparr>)"
      unfolding calls_fenced_def
    proof (intro allI impI)
      fix t c'
      assume "presence (en_registry (eng\<lparr>en_receipts := rs, en_registry := fst ?r\<rparr>)) t = Some c'"
      then have "(\<exists>c. presence (en_registry eng) t = Some c \<and> ac_config_id c = ac_config_id c')
          \<or> t = scope_of (pd_command p) \<and> ac_config_id c' = co_config_id (pd_command p)"
        using apply_with_delegation_rooms [OF engine_okD(1) [OF ok]] by simp
      then show "\<exists>f. bt_get (en_fences (eng\<lparr>en_receipts := rs, en_registry := fst ?r\<rparr>)) t = Some f
          \<and> \<not> fe_blocked f \<and> fe_head f = ac_config_id c'"
        using engine_okD(7) [OF ok] f s by fastforce
    qed
    moreover have "fences_ok E (eng\<lparr>en_receipts := rs, en_registry := fst ?r\<rparr>)"
      using ok by (simp add: engine_ok_def fences_ok_def stored_as_def)
    ultimately show ?thesis
      using ok by (simp add: engine_ok_def apply_with_delegation_ok)
  qed
  then show ?thesis
    using ok by (auto simp: apply_command_def split: prod.split sum.split)
qed

lemma advance_fence_Inr:
  assumes "advance_fence E io eng s p proof_bytes now = (eng', Inr u)"
  obtains h f where "head (pd_authority p) = Inr h" "pd_proof p \<noteq> None" "sc_sequence h \<le> I64_MAX"
    "bt_get (en_fences eng') s = Some f" "\<not> fe_blocked f" "fe_head f = co_config_id (pd_command p)"
    "en_rows eng' = (en_rows eng)(scope_key s \<mapsto>
       upsert_row (en_rows eng (scope_key s)) (co_config_id (pd_command p)) (sc_sequence h) (recovery_id E (pd_authority p)))"
    "en_registry eng' = fst (configuration_changed (en_registry eng) s (co_config_id (pd_command p)))"
    "en_pending eng' = en_pending eng @ snd (configuration_changed (en_registry eng) s (co_config_id (pd_command p)))"
    "en_receipts eng' = en_receipts eng"
proof -
  from assms obtain h where "head (pd_authority p) = Inr h" "pd_proof p \<noteq> None" "sc_sequence h \<le> I64_MAX"
    "eng' = queue_configuration_changed
              (eng\<lparr>en_rows := (en_rows eng)(scope_key s \<mapsto>
                     upsert_row (en_rows eng (scope_key s)) (co_config_id (pd_command p)) (sc_sequence h)
                       (recovery_id E (pd_authority p))),
                   en_fences := bt_insert s
                     \<lparr>fe_head = co_config_id (pd_command p), fe_recovery = recovery_id E (pd_authority p),
                      fe_sequence = sc_sequence h, fe_authority = Some (pd_authority p),
                      fe_proof_bytes = proof_bytes, fe_last_used = now, fe_blocked = False\<rparr> (en_fences eng)\<rparr>)
              s (co_config_id (pd_command p))"
    by (auto simp: advance_fence_def Let_def split: sum.splits if_splits)
  then show thesis by (intro that) (auto simp: queue_configuration_changed_def Let_def)
qed

lemma finish_request_ok:
  assumes ok: "engine_ok E eng" and p: "prepared_ok E p" "s = scope_of (pd_command p)"
    and c: "check_fence E io0 eng0 s (pd_authority p) (pd_command p) = (eng, Inr changed)"
    and row: "bt_get (en_fences eng) s = None \<Longrightarrow> en_rows eng (scope_key s) = None"
    and bytes: "proof_bytes + other_bytes eng s \<le> MAX_CACHED_PROOFS"
  shows "engine_ok E (fst (finish_request E io rnd eng s p proof_bytes changed now))"
proof (cases changed)
  case False
  from check_fence_Inr(2) [OF c] False check_fence_Inr(1) [OF c] obtain old where
    old: "bt_get (en_fences eng) s = Some old" "\<not> fe_blocked old" "fe_head old = co_config_id (pd_command p)" by blast
  let ?e = "touch_fence eng s (pd_authority p) proof_bytes now"
  have t: "engine_ok E ?e"
    using p old bytes by (intro touch_fence_ok [OF ok old(1)]) (auto simp: prepared_ok_def)
  moreover have "engine_ok E (fst (apply_command E io rnd ?e s p now))"
    using old by (intro apply_command_ok [OF t p(2), where f =
        "old\<lparr>fe_authority := Some (pd_authority p), fe_proof_bytes := proof_bytes, fe_last_used := now\<rparr>"])
      (auto simp: touch_fence_def)
  ultimately show ?thesis using False by (auto simp: finish_request_def Let_def split: option.split)
next
  case True
  have cases: "bt_get (en_fences eng) s = None \<and> length (en_fences eng) < MAX_SCOPES
      \<or> (\<exists>old. bt_get (en_fences eng) s = Some old \<and> \<not> fe_blocked old)"
    using check_fence_Inr(3) [OF c True] check_fence_Inr(1) [OF c] by blast
  obtain eng2 r where a: "advance_fence E io eng s p proof_bytes now = (eng2, r)" by fastforce
  have e2: "engine_ok E eng2"
    using advance_fence_ok [OF ok p, of proof_bytes io now] cases row bytes a by auto
  have "engine_ok E (fst (apply_command E io rnd eng2 s p now))" if "r = Inr u" for u
    by (rule advance_fence_Inr [OF a [unfolded that]]) (rule apply_command_ok [OF e2 p(2)])
  with e2 a ok True show ?thesis
    by (cases r) (auto simp: finish_request_def Let_def split: option.split)
qed

lemma saturating_bound:
  "saturating_add a b \<le> MAX_CACHED_PROOFS \<longleftrightarrow> a + b \<le> MAX_CACHED_PROOFS"
  "MAX_CACHED_PROOFS < saturating_add a b \<longleftrightarrow> MAX_CACHED_PROOFS < a + b"
  by (auto simp: saturating_add_def MAX_CACHED_PROOFS_def U64_MAX_def)

lemma execute_cases:
  obtains (expired) "co_expires_at (pd_command p) \<le> now" "execute E io rnd eng p now = (eng, Inl Unauthorized)"
  | (unloaded) eng1 e where "now < co_expires_at (pd_command p)"
      "load_fence io eng (scope_of (pd_command p)) now = (eng1, Inl e)" "execute E io rnd eng p now = (eng1, Inl e)"
  | (oversized) eng1 where "now < co_expires_at (pd_command p)"
      "load_fence io eng (scope_of (pd_command p)) now = (eng1, Inr ())" "execute E io rnd eng p now = (eng1, Inl Unavailable)"
  | (refused) eng1 eng2 e where "now < co_expires_at (pd_command p)"
      "load_fence io eng (scope_of (pd_command p)) now = (eng1, Inr ())"
      "check_fence E io eng1 (scope_of (pd_command p)) (pd_authority p) (pd_command p) = (eng2, Inl e)"
      "execute E io rnd eng p now = (eng2, Inl e)"
  | (finished) eng1 changed n where "now < co_expires_at (pd_command p)"
      "load_fence io eng (scope_of (pd_command p)) now = (eng1, Inr ())"
      "check_fence E io eng1 (scope_of (pd_command p)) (pd_authority p) (pd_command p) = (eng1, Inr changed)"
      "n = request_bytes eng1 (scope_of (pd_command p)) (pd_proof p)"
      "n + other_bytes eng1 (scope_of (pd_command p)) \<le> MAX_CACHED_PROOFS"
      "execute E io rnd eng p now = finish_request E io rnd eng1 (scope_of (pd_command p)) p n changed now"
proof (cases "co_expires_at (pd_command p) \<le> now")
  case True
  then show thesis by (intro that(1)) (simp_all add: execute_def)
next
  case False
  let ?s = "scope_of (pd_command p)"
  obtain eng1 r where l: "load_fence io eng ?s now = (eng1, r)" by fastforce
  show thesis
  proof (cases r)
    case (Inl e)
    with l False show thesis by (intro that(2)) (simp_all add: execute_def Let_def)
  next
    case (Inr u)
    let ?n = "request_bytes eng1 ?s (pd_proof p)"
    obtain eng2 q where c: "check_fence E io eng1 ?s (pd_authority p) (pd_command p) = (eng2, q)" by fastforce
    show thesis
    proof (cases "saturating_add ?n (other_bytes eng1 ?s) \<le> MAX_CACHED_PROOFS")
      case False
      with l Inr \<open>\<not> co_expires_at (pd_command p) \<le> now\<close> show thesis
        by (intro that(3)) (simp_all add: execute_def Let_def)
    next
      case True
      show thesis
      proof (cases q)
        case (Inl e)
        with l \<open>r = Inr u\<close> c True False show thesis by (intro that(4)) (simp_all add: execute_def Let_def)
      next
        case (Inr changed)
        with check_fence_Inr(1) c have "eng2 = eng1" by blast
        with l \<open>r = Inr u\<close> c True False Inr show thesis
          by (intro that(5) [of eng1 changed ?n]) (simp_all add: execute_def Let_def saturating_bound not_less)
      qed
    qed
  qed
qed

lemma execute_ok:
  assumes ok: "engine_ok E eng" and p: "prepared_ok E p"
  shows "engine_ok E (fst (execute E io rnd eng p now))"
proof (cases rule: execute_cases [of p now E io rnd eng])
  case (finished eng1 changed n)
  note k = load_fence_ok [OF ok finished(2)]
  show ?thesis
    unfolding finished(6) using k finished(5) by (intro finish_request_ok [OF k(1) p refl finished(3)]) auto
next
  case (refused eng1 eng2 e)
  with check_fence_ok [OF load_fence_ok(1) [OF ok refused(2)] refused(3)] show ?thesis by simp
qed (use ok load_fence_ok(1) [OF ok] in auto)

subsection \<open>The other operations\<close>

lemma fewer_calls_ok:
  assumes ok: "engine_ok E eng" and reg: "registry_ok reg"
    and sub: "\<And>s c'. presence reg s = Some c' \<Longrightarrow> \<exists>c. presence (en_registry eng) s = Some c \<and> ac_config_id c = ac_config_id c'"
  shows "engine_ok E (eng\<lparr>en_receipts := rs, en_registry := reg\<rparr>)"
proof -
  have "calls_fenced (eng\<lparr>en_receipts := rs, en_registry := reg\<rparr>)"
    unfolding calls_fenced_def using sub engine_okD(7) [OF ok] by fastforce
  with ok reg show ?thesis by (simp add: engine_ok_def fences_ok_def stored_as_def)
qed

lemma tick_presence:
  "presence (fst (tick reg now)) s = Some c' \<Longrightarrow> \<exists>c. presence reg s = Some c \<and> ac_config_id c = ac_config_id c'"
  using tick_rooms [of reg now s c'] by (auto simp: presence_def tick_room_def Let_def)

lemma revoke_member_presence:
  "presence (fst (revoke_member reg t ident)) s = Some c \<Longrightarrow> presence reg s = Some c"
  by (auto simp: revoke_member_def presence_def end_room_def end_with_reason_def split: option.splits if_splits)

lemma release_idle_get:
  "bt_get (map (release_idle reg now) m) s = map_option (\<lambda>f. snd (release_idle reg now (s, f))) (bt_get m s)"
  by (induction m) (auto simp: bt_get_def release_idle_def)

lemma release_idle_keys [simp]: "map (fst \<circ> release_idle reg now) m = map fst m"
  by (simp add: release_idle_def)

lemma release_idle_bytes: "cached_bytes (map (release_idle reg now) m) \<le> cached_bytes m"
  by (induction m) (auto simp: cached_bytes_def release_idle_def)

lemma release_idle_ok:
  assumes "engine_ok E eng"
  shows "engine_ok E (eng\<lparr>en_fences := map (release_idle reg now) (en_fences eng)\<rparr>)"
proof -
  let ?g = "\<lambda>s f. snd (release_idle reg now (s, f))"
  have core: "fence_core (?g s f) = fence_core f" "fe_blocked (?g s f) = fe_blocked f" "fe_head (?g s f) = fe_head f"
    "fe_authority (?g s f) = Some a \<Longrightarrow> fe_authority f = Some a" for s f a
    by (auto simp: release_idle_def fence_core_def split: if_splits)
  have "fences_ok E (eng\<lparr>en_fences := map (release_idle reg now) (en_fences eng)\<rparr>)"
    unfolding fences_ok_def stored_as_def using engine_okD(5,6) [OF assms]
    by (auto simp: release_idle_get core(1,3) dest!: core(4))
  moreover have "calls_fenced (eng\<lparr>en_fences := map (release_idle reg now) (en_fences eng)\<rparr>)"
    unfolding calls_fenced_def using engine_okD(7) [OF assms] by (fastforce simp: release_idle_get core)
  ultimately show ?thesis
    using assms order_trans [OF release_idle_bytes] by (auto simp: engine_ok_def bt_wf_def)
qed

lemma maintain_ok:
  assumes "engine_ok E eng"
  shows "engine_ok E (fst (maintain io eng now))"
proof -
  let ?reg = "fst (tick (en_registry eng) now)"
  have "engine_ok E (eng\<lparr>en_receipts := live_receipts now (en_receipts eng), en_registry := ?reg\<rparr>)"
    using assms tick_presence by (intro fewer_calls_ok tick_ok engine_okD(1) [OF assms])
  from release_idle_ok [OF this, of ?reg now] show ?thesis
    using assms by (simp add: maintain_def Let_def)
qed

lemma authorized_head_ok:
  assumes "engine_ok E eng"
  shows "engine_ok E (fst (authorized_head eng s cred now))"
proof (cases "bt_get (en_fences eng) s")
  case (Some f)
  have wf: "bt_wf (en_fences eng)" using engine_okD(2) [OF assms] .
  have "stored_as eng s (f\<lparr>fe_last_used := now\<rparr>)"
    using engine_okD(5) [OF assms Some] by (simp add: stored_as_def fence_core_def)
  moreover have "fe_proof_bytes f + other_bytes eng s \<le> MAX_CACHED_PROOFS"
    using engine_okD(4) [OF assms] by (simp add: other_bytes_eq cached_bytes_split [OF wf Some])
  ultimately have "engine_ok E (eng\<lparr>en_fences := bt_insert s (f\<lparr>fe_last_used := now\<rparr>) (en_fences eng)\<rparr>)"
    using engine_okD(6) [OF assms Some] engine_ok_call [OF assms Some] Some
    by (intro put_fence_ok [OF assms refl]) auto
  with assms Some show ?thesis
    by (simp add: authorized_head_def bt_modify_eq_insert [OF wf Some])
qed (use assms in \<open>simp add: authorized_head_def\<close>)

lemma Registry_new_empty: "Registry_new l = Inr reg \<Longrightarrow> rg_rooms reg = []"
  by (auto simp: Registry_new_def split: if_splits)

lemma open_with_witness_ok:
  assumes "open_with_witness E io audience limits witness = Inr eng"
  shows "engine_ok E eng"
proof -
  from assms obtain reg where "Registry_new limits = Inr reg" "en_registry eng = reg" "en_fences eng = []"
    by (auto simp: open_with_witness_def bindr_eq_Inr guard_eq_Inr map_err_eq_Inr)
  then show ?thesis
    using Registry_new_ok [of limits reg] Registry_new_empty [of limits reg]
    by (auto simp: engine_ok_def fences_ok_def calls_fenced_def presence_def cached_bytes_def)
qed

end
