(* ===== verification/Call_Service.thy ===== *)
theory Call_Service
  imports Call_Engine_Invariant
begin

text \<open>
  The call service around the engine: several connections prepare requests from one state of
  the engine, verify them without its lock, and execute them in a later state; the clock
  only moves forward; the process may stop and open its database again. What the engine
  promises is stated over every such interleaving.
\<close>

record Service =
  sv_engine :: Engine
  sv_clock :: nat
  sv_preparing :: "Preparation set"
  sv_prepared :: "Prepared set"

inductive service_step :: "('z calls_ext_scheme) \<Rightarrow> Service \<Rightarrow> Service \<Rightarrow> bool" for E where
  began: "preparation E io (sv_engine sv) request device = Inr prep \<Longrightarrow>
    service_step E sv (sv\<lparr>sv_preparing := insert prep (sv_preparing sv)\<rparr>)"
| verified: "prep \<in> sv_preparing sv \<Longrightarrow> Preparation_verify E prep (sv_clock sv) = Inr p \<Longrightarrow>
    service_step E sv (sv\<lparr>sv_prepared := insert p (sv_prepared sv)\<rparr>)"
| executed: "p \<in> sv_prepared sv \<Longrightarrow>
    service_step E sv (sv\<lparr>sv_engine := fst (execute E io rnd (sv_engine sv) p (sv_clock sv))\<rparr>)"
| maintained: "service_step E sv (sv\<lparr>sv_engine := fst (maintain io (sv_engine sv) (sv_clock sv))\<rparr>)"
| asked: "service_step E sv (sv\<lparr>sv_engine := fst (authorized_head (sv_engine sv) scope cred (sv_clock sv))\<rparr>)"
| drained: "service_step E sv (sv\<lparr>sv_engine := fst (take_events (sv_engine sv))\<rparr>)"
| revoked: "service_step E sv (sv\<lparr>sv_engine := (sv_engine sv)
    \<lparr>en_registry := fst (revoke_member (en_registry (sv_engine sv)) scope ident)\<rparr>\<rparr>)"
| ticked: "service_step E sv (sv\<lparr>sv_engine := (sv_engine sv)
    \<lparr>en_registry := fst (tick (en_registry (sv_engine sv)) t)\<rparr>\<rparr>)"
| waited: "sv_clock sv \<le> t \<Longrightarrow> service_step E sv (sv\<lparr>sv_clock := t\<rparr>)"
| restarted: "open_with_witness E io audience limits witness = Inr eng \<Longrightarrow>
    en_rows eng = en_rows (sv_engine sv) \<Longrightarrow> en_receipts eng = en_receipts (sv_engine sv) \<Longrightarrow>
    service_step E sv (sv\<lparr>sv_engine := eng, sv_preparing := {}, sv_prepared := {}\<rparr>)"

definition service_start :: "('z calls_ext_scheme) \<Rightarrow> Service \<Rightarrow> bool" where
  "service_start E sv \<longleftrightarrow>
     (\<exists>io audience limits witness. open_with_witness E io audience limits witness = Inr (sv_engine sv))
     \<and> sv_preparing sv = {} \<and> sv_prepared sv = {}"

abbreviation service_run :: "('z calls_ext_scheme) \<Rightarrow> Service \<Rightarrow> Service \<Rightarrow> bool" where
  "service_run E \<equiv> (service_step E)\<^sup>*\<^sup>*"

definition service_ok :: "('z calls_ext_scheme) \<Rightarrow> Service \<Rightarrow> bool" where
  "service_ok E sv \<longleftrightarrow>
     engine_ok E (sv_engine sv)
     \<and> (\<forall>prep \<in> sv_preparing sv. preparation_ok E prep
          \<and> (\<exists>cmd. pn_scope prep = scope_of cmd \<and> dec_command E (rec_body (pn_signed prep)) = Some cmd))
     \<and> (\<forall>p \<in> sv_prepared sv. prepared_ok E p)"

lemma service_start_ok: "service_start E sv \<Longrightarrow> service_ok E sv"
  by (auto simp: service_start_def service_ok_def open_with_witness_ok)

lemma reg_only_ok:
  assumes "engine_ok E eng" "registry_ok reg"
    "\<And>s c'. presence reg s = Some c' \<Longrightarrow> \<exists>c. presence (en_registry eng) s = Some c \<and> ac_config_id c = ac_config_id c'"
  shows "engine_ok E (eng\<lparr>en_registry := reg\<rparr>)"
  using fewer_calls_ok [OF assms, of "en_receipts eng"] by simp

lemma revoke_member_ok: "registry_ok reg \<Longrightarrow> registry_ok (fst (revoke_member reg s ident))"
  using registry_step_ok [of reg E "Revoke_member_in s ident" for E] by (simp add: Let_def)

lemma service_step_ok:
  assumes "sha256_length E" "service_step E sv sv'" "service_ok E sv"
  shows "service_ok E sv'"
  using assms(2,3)
proof cases
  case (began io request device prep)
  with assms(3) preparation_of_ok [OF began(2)] show ?thesis by (auto simp: service_ok_def)
next
  case (verified prep p)
  with assms(3) obtain cmd where "preparation_ok E prep" "pn_scope prep = scope_of cmd"
    "dec_command E (rec_body (pn_signed prep)) = Some cmd" by (auto simp: service_ok_def)
  from Preparation_verify_ok(1) [OF verified(3) this(1) assms(1) this(2,3)] verified(1) assms(3)
  show ?thesis by (auto simp: service_ok_def)
next
  case (executed p io rnd)
  then show ?thesis using assms(3) by (auto simp: service_ok_def execute_ok)
next
  case (revoked scope ident)
  with assms(3) show ?thesis
    by (auto simp: service_ok_def intro!: reg_only_ok revoke_member_ok engine_okD(1) dest: revoke_member_presence)
next
  case (ticked t)
  with assms(3) show ?thesis
    by (auto simp: service_ok_def intro!: reg_only_ok tick_ok engine_okD(1) dest: tick_presence)
next
  case (drained)
  with assms(3) show ?thesis
    by (simp add: service_ok_def take_events_def engine_ok_def fences_ok_def calls_fenced_def stored_as_def)
qed (simp_all add: service_ok_def maintain_ok authorized_head_ok open_with_witness_ok)

interpretation calls: step_system "service_step E" "\<lambda>sv. sha256_length E \<and> service_ok E sv"
  for E
  by unfold_locales (auto intro: service_step_ok)

lemma service_run_ok:
  assumes "sha256_length E" "service_run E sv sv'" "service_ok E sv"
  shows "service_ok E sv'"
  using calls.run_good [OF assms(2)] assms(1,3) by blast

subsection \<open>Live calls and the fences above them\<close>

text \<open>
  C4: whatever requests, verifications, ticks, revocations and restarts interleave, the
  engine's cache of fences stays within its two limits and says what the database says, and
  every live call is held under a fence that is not blocked and names exactly the
  configuration the call was opened under.
\<close>

theorem calls_held_under_fence:
  assumes "sha256_length E" "service_start E sv0" "service_run E sv0 sv" "eng = sv_engine sv"
  shows "length (en_fences eng) \<le> MAX_SCOPES
    \<and> sum_list (map (\<lambda>e. fe_proof_bytes (snd e)) (en_fences eng)) \<le> MAX_CACHED_PROOFS
    \<and> (\<forall>s f. bt_get (en_fences eng) s = Some f \<longrightarrow>
         en_rows eng (scope_key s) = Some \<lparr>fr_head = encode_hex (fe_head f), fr_sequence = int (fe_sequence f),
           fr_blocked = fe_blocked f, fr_recovery = map_option encode_hex (fe_recovery f)\<rparr>)
    \<and> (\<forall>s c. presence (en_registry eng) s = Some c \<longrightarrow>
         (\<exists>row. en_rows eng (scope_key s) = Some row \<and> \<not> fr_blocked row \<and> fr_head row = encode_hex (ac_config_id c)))"
proof -
  have ok: "engine_ok E eng"
    using service_run_ok [OF assms(1,3) service_start_ok [OF assms(2)]] assms(4) by (simp add: service_ok_def)
  have row: "en_rows eng (scope_key s) = Some \<lparr>fr_head = encode_hex (fe_head f), fr_sequence = int (fe_sequence f),
      fr_blocked = fe_blocked f, fr_recovery = map_option encode_hex (fe_recovery f)\<rparr>"
    if f: "bt_get (en_fences eng) s = Some f" for s f
  proof -
    from engine_okD(5) [OF ok f] obtain row where r: "en_rows eng (scope_key s) = Some row"
      "fence_of_row row = Inr (fence_core f)" by blast
    from fence_of_row_Inr(2-5) [OF r(2)] r(1) show ?thesis by (cases row) (simp add: fence_core_def)
  qed
  have "\<exists>row. en_rows eng (scope_key s) = Some row \<and> \<not> fr_blocked row \<and> fr_head row = encode_hex (ac_config_id c)"
    if "presence (en_registry eng) s = Some c" for s c
    using engine_okD(7) [OF ok that] row by fastforce
  with row engine_okD(3,4) [OF ok] show ?thesis by (simp add: cached_bytes_def)
qed

subsection \<open>Fences only move forward\<close>

text \<open>
  The one way a stored fence changes: a request whose own authority is complete and names
  another head either proves the stored configuration at its sequence number and the stored
  recovery certificate, and then its head replaces the stored one, or contradicts the stored
  configuration, and then the fence is blocked.
\<close>

definition fence_moves :: "('z authority_ext_scheme) \<Rightarrow> Prepared \<Rightarrow> fence_row \<Rightarrow> fence_row \<Rightarrow> bool" where
  "fence_moves E p row row' \<longleftrightarrow>
     (let a = pd_authority p; config_id = co_config_id (pd_command p) in
      \<exists>f h. fence_of_row row = Inr f \<and> \<not> fr_blocked row \<and> \<not> au_forked a
        \<and> au_head a = Some config_id \<and> head a = Inr h \<and> fe_head f \<noteq> config_id
        \<and> proves_recovery_ancestor E a (fe_recovery f)
        \<and> (if proves_config_at a (fe_head f) (fe_sequence f)
           then row' = \<lparr>fr_head = encode_hex config_id, fr_sequence = int (sc_sequence h), fr_blocked = False,
                          fr_recovery = map_option encode_hex (recovery_id E a)\<rparr>
              \<and> (is_owner_managed a \<or> au_checkpoint_evidence a \<noteq> None \<longrightarrow> fr_sequence row \<le> fr_sequence row')
           else row' = row\<lparr>fr_blocked := True\<rparr> \<and> fe_sequence f \<le> sc_sequence h))"

lemma apply_command_frame:
  "en_rows (fst (apply_command E io rnd eng s p now)) = en_rows eng"
  "en_fences (fst (apply_command E io rnd eng s p now)) = en_fences eng"
  "en_pending (fst (apply_command E io rnd eng s p now)) = en_pending eng"
  by (auto simp: apply_command_def split: prod.split sum.split)

lemma queue_frame:
  "en_rows (queue_configuration_changed eng s h) = en_rows eng"
  "en_receipts (queue_configuration_changed eng s h) = en_receipts eng"
  "en_fences (queue_configuration_changed eng s h) = en_fences eng"
  "en_registry (queue_configuration_changed eng s h) = fst (configuration_changed (en_registry eng) s h)"
  by (simp_all add: queue_configuration_changed_def Let_def)

lemma fence_movesI:
  assumes ok: "engine_ok E eng" and p: "prepared_ok E p" and f: "bt_get (en_fences eng) s = Some f" "\<not> fe_blocked f"
    and row: "en_rows eng (scope_key s) = Some row" and h: "head (pd_authority p) = Inr h"
    and new: "fe_head f \<noteq> co_config_id (pd_command p)" "proves_recovery_ancestor E (pd_authority p) (fe_recovery f)"
  shows "proves_config_at (pd_authority p) (fe_head f) (fe_sequence f) \<Longrightarrow>
      fence_moves E p row (upsert_row (Some row) (co_config_id (pd_command p)) (sc_sequence h) (recovery_id E (pd_authority p)))"
    and "\<not> proves_config_at (pd_authority p) (fe_head f) (fe_sequence f) \<Longrightarrow> fe_sequence f \<le> sc_sequence h \<Longrightarrow>
      fence_moves E p row (row\<lparr>fr_blocked := True\<rparr>)"
proof -
  have core: "fence_of_row row = Inr (fence_core f)" using engine_okD(5) [OF ok f(1)] row by simp
  note fr = fence_of_row_Inr [OF core]
  have a: "\<not> au_forked (pd_authority p)" "au_head (pd_authority p) = Some (co_config_id (pd_command p))"
    "is_owner_managed (pd_authority p) \<or> au_checkpoint_evidence (pd_authority p) \<noteq> None \<Longrightarrow>
       proves_config_at (pd_authority p) (fe_head f) (fe_sequence f) \<Longrightarrow> fe_sequence f \<le> sc_sequence h"
    using p h by (auto simp: prepared_ok_def cached_for_def)
  show "fence_moves E p row (upsert_row (Some row) (co_config_id (pd_command p)) (sc_sequence h) (recovery_id E (pd_authority p)))"
    if "proves_config_at (pd_authority p) (fe_head f) (fe_sequence f)"
    using that core fr(2,3) f(2) h new a unfolding fence_moves_def Let_def
    by (intro exI [of _ "fence_core f"] exI [of _ h]) (auto simp: upsert_row_def fence_core_def)
  show "fence_moves E p row (row\<lparr>fr_blocked := True\<rparr>)"
    if "\<not> proves_config_at (pd_authority p) (fe_head f) (fe_sequence f)" "fe_sequence f \<le> sc_sequence h"
    using that core fr(2,3) f(2) h new a unfolding fence_moves_def Let_def
    by (intro exI [of _ "fence_core f"] exI [of _ h]) (auto simp: fence_core_def)
qed

lemma advance_fence_rows:
  assumes ok: "engine_ok E eng" and p: "prepared_ok E p"
    and c: "check_fence E io0 eng s (pd_authority p) (pd_command p) = (eng, Inr True)"
    and f: "bt_get (en_fences eng) s = Some f" and row: "en_rows eng (scope_key s) = Some row"
    and a: "advance_fence E io eng s p n now = (eng', Inr u)"
  shows "\<exists>row'. en_rows eng' = (en_rows eng)(scope_key s \<mapsto> row') \<and> fence_moves E p row row'"
proof -
  obtain h where h: "head (pd_authority p) = Inr h" and rows: "en_rows eng' = (en_rows eng)(scope_key s \<mapsto>
       upsert_row (en_rows eng (scope_key s)) (co_config_id (pd_command p)) (sc_sequence h) (recovery_id E (pd_authority p)))"
    by (rule advance_fence_Inr [OF a])
  from check_fence_Inr(3) [OF c] f have "\<not> fe_blocked f" "fe_head f \<noteq> co_config_id (pd_command p)"
    "proves_config_at (pd_authority p) (fe_head f) (fe_sequence f)"
    "proves_recovery_ancestor E (pd_authority p) (fe_recovery f)" by auto
  with fence_movesI(1) [OF ok p f _ row h] rows row show ?thesis by auto
qed

lemma advance_fence_Inl: "advance_fence E io eng s p n now = (eng', Inl e) \<Longrightarrow> eng' = eng"
  by (auto simp: advance_fence_def Let_def split: if_splits sum.splits)

lemma touch_frame:
  "en_rows (touch_fence eng s a n now) = en_rows eng" "en_receipts (touch_fence eng s a n now) = en_receipts eng"
  "en_registry (touch_fence eng s a n now) = en_registry eng" "en_pending (touch_fence eng s a n now) = en_pending eng"
  by (simp_all add: touch_fence_def)

definition touched :: "Engine \<Rightarrow> Scope \<Rightarrow> Prepared \<Rightarrow> nat \<Rightarrow> bool \<Rightarrow> nat \<Rightarrow> Engine" where
  "touched eng s p n changed now = (if changed then eng else touch_fence eng s (pd_authority p) n now)"

lemma touched_frame [simp]:
  "en_rows (touched eng s p n changed now) = en_rows eng" "en_receipts (touched eng s p n changed now) = en_receipts eng"
  "en_registry (touched eng s p n changed now) = en_registry eng" "en_pending (touched eng s p n changed now) = en_pending eng"
  by (simp_all add: touched_def touch_frame)

lemma finish_request_cases:
  obtains (stopped) e where "finish_request E io rnd eng s p n changed now = (touched eng s p n changed now, Inl e)"
      "e = Unavailable \<or> (\<exists>prev. en_receipts eng (receipt_key (pd_command p)) = Some prev
          \<and> rr_request_id prev \<noteq> encode_hex (pd_request_id p) \<and> e = Unauthorized)
        \<or> changed \<and> en_receipts eng (receipt_key (pd_command p)) = None \<and> advance_fence E io eng s p n now = (eng, Inl e)"
  | (duplicate) prev where "en_receipts eng (receipt_key (pd_command p)) = Some prev"
      "rr_request_id prev = encode_hex (pd_request_id p)"
      "finish_request E io rnd eng s p n changed now = (touched eng s p n changed now,
         Inr \<lparr>ap_request_id = pd_request_id p, ap_scope = s, ap_call = presence (en_registry eng) s,
              ap_events = [], ap_duplicate = True\<rparr>)"
  | (applied) eng2 where "en_receipts eng (receipt_key (pd_command p)) = None"
      "changed \<and> advance_fence E io eng s p n now = (eng2, Inr ()) \<or> \<not> changed \<and> eng2 = touched eng s p n changed now"
      "finish_request E io rnd eng s p n changed now = apply_command E io rnd eng2 s p now"
proof -
  note defs = finish_request_def touched_def [symmetric] Let_def
  consider (io) "\<not> io_receipt io"
    | (other) prev where "io_receipt io" "en_receipts eng (receipt_key (pd_command p)) = Some prev"
        "rr_request_id prev \<noteq> encode_hex (pd_request_id p)"
    | (same) prev where "io_receipt io" "en_receipts eng (receipt_key (pd_command p)) = Some prev"
        "rr_request_id prev = encode_hex (pd_request_id p)"
    | (moved) "io_receipt io" "en_receipts eng (receipt_key (pd_command p)) = None" changed
    | (still) "io_receipt io" "en_receipts eng (receipt_key (pd_command p)) = None" "\<not> changed" by fastforce
  then show thesis
  proof cases
    case moved
    obtain eng2 r where a: "advance_fence E io eng s p n now = (eng2, r)" by fastforce
    show thesis
    proof (cases r)
      case (Inl e)
      with a advance_fence_Inl have "eng2 = eng" by blast
      with moved a Inl show thesis by (intro that(1) [of e]) (simp_all add: defs, simp add: touched_def)
    next
      case (Inr u)
      with moved a show thesis by (intro that(3) [of eng2]) (simp_all add: defs, simp add: touched_def)
    qed
  next
    case io
    then show thesis by (intro that(1) [of Unavailable]) (simp_all add: defs)
  next
    case other
    then show thesis by (intro that(1) [of Unauthorized]) (simp_all add: defs)
  next
    case same
    then show thesis by (intro that(2) [of prev]) (simp_all add: defs)
  next
    case still
    then show thesis by (intro that(3) [of "touched eng s p n changed now"]) (simp_all add: defs)
  qed
qed

lemma execute_rows:
  assumes ok: "engine_ok E eng" and p: "prepared_ok E p" and row: "en_rows eng k = Some row"
  shows "\<exists>row'. en_rows (fst (execute E io rnd eng p now)) k = Some row'
    \<and> (row' = row \<or> k = scope_key (scope_of (pd_command p)) \<and> fence_moves E p row row')"
proof (cases rule: execute_cases [of p now E io rnd eng])
  case (refused eng1 eng2 e)
  note l = load_fence_ok [OF ok refused(2)]
  let ?s = "scope_of (pd_command p)"
  have r1: "en_rows eng1 k = Some row" using row l(2) by simp
  from check_fence_Inl [OF refused(3)] show ?thesis
  proof (elim disjE exE conjE)
    fix f h
    assume f: "bt_get (en_fences eng1) ?s = Some f" "\<not> fe_blocked f" "fe_head f \<noteq> co_config_id (pd_command p)"
      "proves_recovery_ancestor E (pd_authority p) (fe_recovery f)"
      "\<not> proves_config_at (pd_authority p) (fe_head f) (fe_sequence f)" "head (pd_authority p) = Inr h" "fe_sequence f \<le> sc_sequence h"
      and e2: "eng2 = queue_configuration_changed (block_fence eng1 ?s) ?s (co_config_id (pd_command p))"
    show ?thesis
    proof (cases "k = scope_key ?s")
      case True
      with fence_movesI(2) [OF l(1) p f(1,2) _ f(6,3,4)] f(5,7) r1 refused(4) show ?thesis
        by (auto simp: e2 queue_frame block_fence_def)
    qed (use r1 refused(4) in \<open>auto simp: e2 queue_frame block_fence_def split: option.splits\<close>)
  qed (use r1 refused(4) in auto)
next
  case (finished eng1 changed n)
  note l = load_fence_ok [OF ok finished(2)]
  let ?s = "scope_of (pd_command p)"
  show ?thesis
  proof (cases rule: finish_request_cases [of E io rnd eng1 ?s p n changed now])
    case (applied eng2)
    show ?thesis
    proof (cases "changed \<and> k = scope_key ?s")
      case True
      with applied(2) have a: "advance_fence E io eng1 ?s p n now = (eng2, Inr ())" by simp
      have r1: "en_rows eng1 (scope_key ?s) = Some row" using row True l(2) by simp
      with load_fence_ok(6) [OF ok finished(2)] obtain f where "bt_get (en_fences eng1) ?s = Some f"
        by (cases "bt_get (en_fences eng1) ?s") auto
      from advance_fence_rows [OF l(1) p _ this r1 a] finished(3) True
      obtain row' where "en_rows eng2 = (en_rows eng1)(scope_key ?s \<mapsto> row')" "fence_moves E p row row'" by auto
      with True finished(6) applied(3) show ?thesis by (auto simp: apply_command_frame)
    next
      case False
      then have "en_rows eng2 k = en_rows eng k"
        using applied(2) l(2) by (auto elim!: advance_fence_Inr)
      with row finished(6) applied(3) show ?thesis by (simp add: apply_command_frame)
    qed
  qed (use row finished(6) l(2) in simp_all)
qed (use row load_fence_ok(2) [OF ok] in auto)

lemma service_step_rows:
  assumes "service_ok E sv" "service_step E sv sv'" "en_rows (sv_engine sv) k = Some row"
  shows "\<exists>row'. en_rows (sv_engine sv') k = Some row'
    \<and> (row' = row \<or> (\<exists>p io rnd. p \<in> sv_prepared sv \<and> sv_engine sv' = fst (execute E io rnd (sv_engine sv) p (sv_clock sv))
         \<and> fence_moves E p row row'))"
  using assms(2)
proof cases
  case (executed p io rnd)
  with assms(1) have ok: "engine_ok E (sv_engine sv)" "prepared_ok E p" by (auto simp: service_ok_def)
  from executed(1) have e: "sv_engine sv' = fst (execute E io rnd (sv_engine sv) p (sv_clock sv))" by simp
  from execute_rows [OF ok assms(3), of io rnd "sv_clock sv", folded e] e executed(2) show ?thesis by blast
qed (use assms(3) in \<open>simp_all add: maintain_def Let_def authorized_head_def take_events_def split: option.split\<close>)

text \<open>
  C3: a persisted fence never rolls back. Whatever happened before, executing a verified request
  leaves a stored fence of another conversation as it is, and the fence of its own conversation
  changes only when it is not blocked and the authority of that very request, unforked and with
  the request's configuration as its head, still proves the stored recovery certificate: if it
  proves the stored configuration at its sequence number, its head replaces the stored one, with
  a sequence number that is not smaller when the authority is owner-managed or a checkpoint; if
  it does not, although it is not older, the fence is blocked. No other step changes a fence.
\<close>

theorem fence_moves_forward:
  assumes "sha256_length E" "service_start E sv0" "service_run E sv0 sv" "en_rows (sv_engine sv) k = Some row"
  shows "(\<forall>p io rnd. p \<in> sv_prepared sv \<longrightarrow>
       (\<exists>row'. en_rows (fst (execute E io rnd (sv_engine sv) p (sv_clock sv))) k = Some row'
          \<and> (row' = row \<or> k = scope_key (scope_of (pd_command p)) \<and> fence_moves E p row row')))
    \<and> (\<forall>sv'. service_step E sv sv' \<and> en_rows (sv_engine sv') k \<noteq> Some row \<longrightarrow>
         (\<exists>p io rnd. p \<in> sv_prepared sv \<and> sv_engine sv' = fst (execute E io rnd (sv_engine sv) p (sv_clock sv))))"
proof -
  have ok: "service_ok E sv" by (rule service_run_ok [OF assms(1,3) service_start_ok [OF assms(2)]])
  then have "engine_ok E (sv_engine sv)" "p \<in> sv_prepared sv \<Longrightarrow> prepared_ok E p" for p
    by (simp_all add: service_ok_def)
  from execute_rows [OF this assms(4)] service_step_rows [OF ok _ assms(4)] show ?thesis by blast
qed

lemma blocked_row_kept:
  assumes "sha256_length E" "service_run E sv sv'" "service_ok E sv"
    "en_rows (sv_engine sv) k = Some row" "fr_blocked row"
  shows "en_rows (sv_engine sv') k = Some row"
  using assms(2)
proof (induction rule: rtranclp_induct)
  case (step y z)
  from service_run_ok [OF assms(1) step.hyps(1) assms(3)] service_step_rows [OF _ step.hyps(2) step.IH] assms(5)
  show ?case by (auto simp: fence_moves_def Let_def)
qed (rule assms(4))

lemma execute_blocked:
  assumes ok: "engine_ok E eng" and row: "en_rows eng (scope_key (scope_of (pd_command p))) = Some row" "fr_blocked row"
  shows "\<exists>e. snd (execute E io rnd eng p now) = Inl e"
proof (cases rule: execute_cases [of p now E io rnd eng])
  case (finished eng1 changed n)
  note l = load_fence_ok [OF ok finished(2)]
  let ?s = "scope_of (pd_command p)"
  have "bt_get (en_fences eng1) ?s \<noteq> None" using load_fence_ok(6) [OF ok finished(2)] row l(2) by auto
  then obtain f where f: "bt_get (en_fences eng1) ?s = Some f" by blast
  with engine_okD(5) [OF l(1) f] l(2) row have "fe_blocked f"
    by (auto simp: fence_core_def dest!: fence_of_row_Inr(2))
  with check_fence_Inr [OF finished(3)] f have False by (cases changed) auto
  then show ?thesis ..
qed auto

text \<open>
  Once two incompatible authorities were seen for a conversation, it is closed for good:
  its blocked row survives every later step and restart, no call of it is live, and every
  request for it, even one verified before the block, is refused.
\<close>

lemma blocked_scope_closed:
  assumes "sha256_length E" "service_start E sv0" "service_run E sv0 sv"
    "en_rows (sv_engine sv) (scope_key s) = Some row" "fr_blocked row" "service_run E sv sv'"
  shows "en_rows (sv_engine sv') (scope_key s) = Some row \<and> presence (en_registry (sv_engine sv')) s = None
    \<and> (\<forall>p io rnd now. scope_of (pd_command p) = s \<longrightarrow>
         (\<exists>e. snd (execute E io rnd (sv_engine sv') p now) = Inl e))"
proof -
  have ok: "service_ok E sv" by (rule service_run_ok [OF assms(1,3) service_start_ok [OF assms(2)]])
  have ok': "engine_ok E (sv_engine sv')"
    using service_run_ok [OF assms(1,6) ok] by (simp add: service_ok_def)
  have row: "en_rows (sv_engine sv') (scope_key s) = Some row"
    by (rule blocked_row_kept [OF assms(1,6) ok assms(4,5)])
  have "presence (en_registry (sv_engine sv')) s = None"
  proof (rule ccontr)
    assume "presence (en_registry (sv_engine sv')) s \<noteq> None"
    then obtain f where f: "bt_get (en_fences (sv_engine sv')) s = Some f" "\<not> fe_blocked f"
      using engine_okD(7) [OF ok'] by blast
    from engine_okD(5) [OF ok' f(1)] row assms(5) f(2) show False
      by (auto simp: fence_core_def dest!: fence_of_row_Inr(2))
  qed
  with row assms(5) execute_blocked [OF ok'] show ?thesis by blast
qed

subsection \<open>Each command takes effect once\<close>

lemma apply_command_receipts:
  "apply_command E io rnd eng s p now = (eng', res) \<Longrightarrow>
   (\<exists>e. res = Inl e) \<and> eng' = eng
   \<or> (\<exists>r. res = Inr r \<and> \<not> ap_duplicate r) \<and> en_receipts eng' = (live_receipts now (en_receipts eng))
        (receipt_key (pd_command p) \<mapsto>
          \<lparr>rr_request_id = encode_hex (pd_request_id p), rr_expires = co_expires_at (pd_command p)\<rparr>)"
  by (auto simp: apply_command_def commit_receipt_def split: prod.splits sum.splits if_splits)

text \<open>Receipts change only with a command that took effect, and then its own is new.\<close>

lemma execute_receipts:
  assumes ok: "engine_ok E eng" and x: "execute E io rnd eng p now = (eng', res)"
  shows "(\<forall>r. res = Inr r \<longrightarrow> ap_duplicate r) \<and> en_receipts eng' = en_receipts eng
    \<or> (\<exists>r. res = Inr r \<and> \<not> ap_duplicate r) \<and> now < co_expires_at (pd_command p)
        \<and> en_receipts eng (receipt_key (pd_command p)) = None
        \<and> en_receipts eng' = (live_receipts now (en_receipts eng))(receipt_key (pd_command p) \<mapsto>
            \<lparr>rr_request_id = encode_hex (pd_request_id p), rr_expires = co_expires_at (pd_command p)\<rparr>)"
proof (cases rule: execute_cases [of p now E io rnd eng])
  case (refused eng1 eng2 e)
  let ?s = "scope_of (pd_command p)"
  from check_fence_Inl [OF refused(3)] have "eng2 = eng1 \<or> eng2 = queue_configuration_changed (block_fence eng1 ?s) ?s (co_config_id (pd_command p))"
    by blast
  with x refused load_fence_ok(3) [OF ok refused(2)] show ?thesis by (auto simp: queue_frame block_fence_def)
next
  case (finished eng1 changed n)
  note l = load_fence_ok [OF ok finished(2)]
  let ?s = "scope_of (pd_command p)"
  show ?thesis
  proof (cases rule: finish_request_cases [of E io rnd eng1 ?s p n changed now])
    case (applied eng2)
    have "en_receipts eng2 = en_receipts eng"
      using applied(2) l(3) by (auto elim!: advance_fence_Inr)
    with apply_command_receipts [of E io rnd eng2 ?s p now eng' res] x finished(1,6) applied(1,3) l(3)
    show ?thesis by auto
  qed (use x finished(6) l(3) in auto)
qed (use x load_fence_ok(3) [OF ok] in auto)

definition used :: "Command \<Rightarrow> Service \<Rightarrow> bool" where
  "used cmd sv \<longleftrightarrow> co_expires_at cmd \<le> sv_clock sv
     \<or> (\<exists>r. en_receipts (sv_engine sv) (receipt_key cmd) = Some r \<and> rr_expires r = co_expires_at cmd)"

lemma live_receipts_kept:
  "rs k = Some r \<Longrightarrow> now < rr_expires r \<Longrightarrow> live_receipts now rs k = Some r"
  by (simp add: live_receipts_def)

lemma service_step_used:
  assumes "service_ok E sv" "service_step E sv sv'" "used cmd sv"
  shows "used cmd sv'"
proof (cases "co_expires_at cmd \<le> sv_clock sv")
  case True
  with assms(2) show ?thesis by cases (simp_all add: used_def)
next
  case False
  with assms(3) obtain r where r: "en_receipts (sv_engine sv) (receipt_key cmd) = Some r" "rr_expires r = co_expires_at cmd"
    by (auto simp: used_def)
  with False have live: "live_receipts (sv_clock sv) (en_receipts (sv_engine sv)) (receipt_key cmd) = Some r"
    by (simp add: live_receipts_kept)
  from assms(2) show ?thesis
  proof cases
    case (executed p io rnd)
    obtain eng' res where x: "execute E io rnd (sv_engine sv) p (sv_clock sv) = (eng', res)" by fastforce
    have "engine_ok E (sv_engine sv)" using assms(1) by (simp add: service_ok_def)
    from execute_receipts [OF this x] r live have "en_receipts eng' (receipt_key cmd) = Some r" by auto
    with executed x r(2) show ?thesis by (auto simp: used_def)
  next
    case (maintained io)
    with r live show ?thesis by (auto simp: used_def maintain_def Let_def)
  qed (use r in \<open>auto simp: used_def authorized_head_def take_events_def split: option.split\<close>)
qed

lemma service_run_used:
  assumes "sha256_length E" "service_run E sv sv'" "service_ok E sv" "used cmd sv"
  shows "used cmd sv'"
  by (rule calls.run_keeps [OF assms(2)]) (use assms(1,3,4) service_step_used in auto)

text \<open>
  C5: a command takes effect at most once. After an execution that was not a duplicate, no
  execution of a request with the same command in any later state of the service, before or
  after restarts, takes effect again: one that succeeds only reports the earlier result as
  a duplicate, without events and without touching the calls, the fences or the receipts.
\<close>

theorem command_applied_once:
  assumes "sha256_length E" "service_start E sv0" "service_run E sv0 sv" "p \<in> sv_prepared sv"
    "execute E io rnd (sv_engine sv) p (sv_clock sv) = (eng1, Inr r)" "\<not> ap_duplicate r"
    "service_run E (sv\<lparr>sv_engine := eng1\<rparr>) sv'" "pd_command p' = pd_command p"
    "execute E io' rnd' (sv_engine sv') p' (sv_clock sv') = (eng2, Inr r')"
  shows "ap_duplicate r' \<and> ap_events r' = [] \<and> en_registry eng2 = en_registry (sv_engine sv')
    \<and> en_rows eng2 = en_rows (sv_engine sv') \<and> en_receipts eng2 = en_receipts (sv_engine sv')"
proof -
  have ok: "service_ok E sv" by (rule service_run_ok [OF assms(1,3) service_start_ok [OF assms(2)]])
  let ?sv1 = "sv\<lparr>sv_engine := eng1\<rparr>"
  have "service_step E sv ?sv1" using service_step.executed [OF assms(4), of E io rnd] assms(5) by simp
  then have ok1: "service_ok E ?sv1" by (rule service_step_ok [OF assms(1) _ ok])
  have "used (pd_command p) ?sv1"
    using execute_receipts [OF _ assms(5)] ok assms(6) by (auto simp: used_def service_ok_def)
  from service_run_used [OF assms(1,7) ok1 this] have u: "used (pd_command p') sv'" by (simp add: assms(8))
  have eng: "engine_ok E (sv_engine sv')"
    using service_run_ok [OF assms(1,7) ok1] by (simp add: service_ok_def)
  show ?thesis
  proof (cases rule: execute_cases [of p' "sv_clock sv'" E io' rnd' "sv_engine sv'"])
    case (finished e1 changed n)
    note l = load_fence_ok [OF eng finished(2)]
    show ?thesis
    proof (cases rule: finish_request_cases [of E io' rnd' e1 "scope_of (pd_command p')" p' n changed "sv_clock sv'"])
      case (applied e2)
      with u finished(1) l(3) show ?thesis by (auto simp: used_def)
    qed (use assms(9) finished(6) l in auto)
  qed (use assms(9) in auto)
qed

text \<open>
  C30: a refused request changes no call except that a moved or contradicted fence ends the
  conversation's call held under another configuration: the calls afterwards are those
  before, or those left by exactly that change of configuration with its event queued, and
  no receipt is written.
\<close>

theorem refused_request_inert:
  assumes "engine_ok E eng" "execute E io rnd eng p now = (eng', Inl e)"
  shows "en_receipts eng' = en_receipts eng
    \<and> (en_registry eng' = en_registry eng \<and> en_pending eng' = en_pending eng
       \<or> (let r = configuration_changed (en_registry eng) (scope_of (pd_command p)) (co_config_id (pd_command p)) in
          en_registry eng' = fst r \<and> en_pending eng' = en_pending eng @ snd r))"
proof (cases rule: execute_cases [of p now E io rnd eng])
  case (refused eng1 eng2 e')
  let ?s = "scope_of (pd_command p)"
  from check_fence_Inl [OF refused(3)] have "eng2 = eng1 \<or> eng2 = queue_configuration_changed (block_fence eng1 ?s) ?s (co_config_id (pd_command p))"
    by blast
  with assms(2) refused load_fence_ok [OF assms(1) refused(2)] show ?thesis
    by (auto simp: queue_configuration_changed_def block_fence_def Let_def)
next
  case (finished eng1 changed n)
  note l = load_fence_ok [OF assms(1) finished(2)]
  let ?s = "scope_of (pd_command p)"
  show ?thesis
  proof (cases rule: finish_request_cases [of E io rnd eng1 ?s p n changed now])
    case (applied eng2)
    from apply_command_receipts [of E io rnd eng2 ?s p now eng' "Inl e"] assms(2) finished(6) applied(3)
    have "eng' = eng2" by auto
    with applied(2) l show ?thesis by (auto elim!: advance_fence_Inr simp: Let_def)
  qed (use assms(2) finished(6) l in auto)
qed (use assms(2) load_fence_ok [OF assms(1)] in auto)

end
