(* ===== verification/Call_Refinement.thy ===== *)
theory Call_Refinement
  imports Call_Service
begin

text \<open>
  What the call engine promises, without its machinery: an abstract admission that knows only
  what is durable (the fence rows and the receipts), the live calls and the queued events.
  It has no cache, no eviction, no limits on memory and no failing statements. The engine
  refines it: whatever the cache holds, a request that is not answered with
  \<^verbatim>\<open>Unavailable\<close> has the abstract outcome and leaves the abstract state behind.
\<close>

record Ledger =
  lg_rows :: "string \<rightharpoonup> fence_row"
  lg_receipts :: "string \<times> string \<rightharpoonup> receipt_row"
  lg_registry :: Registry
  lg_pending :: "Event list"

definition ledger_of :: "Engine \<Rightarrow> Ledger" where
  "ledger_of eng = \<lparr>lg_rows = en_rows eng, lg_receipts = en_receipts eng,
     lg_registry = en_registry eng, lg_pending = en_pending eng\<rparr>"

datatype verdict = Refuse | Contradict | Same | Advance

text \<open>How an authority relates to the fence that is on record.\<close>

definition judge :: "('z authority_ext_scheme) \<Rightarrow> Fence option \<Rightarrow> Authority \<Rightarrow> RecordId \<Rightarrow> verdict" where
  "judge E floor' a h =
     (case floor' of
        None \<Rightarrow> Advance
      | Some old \<Rightarrow>
          if fe_blocked old \<or> \<not> proves_recovery_ancestor E a (fe_recovery old) then Refuse
          else if fe_head old = h then Same
          else if proves_config_at a (fe_head old) (fe_sequence old) then Advance
          else if (case head a of Inl _ \<Rightarrow> True | Inr c \<Rightarrow> sc_sequence c < fe_sequence old) then Refuse
          else Contradict)"

definition end_other_call :: "Ledger \<Rightarrow> Scope \<Rightarrow> RecordId \<Rightarrow> Ledger" where
  "end_other_call lg s h =
     (let r = configuration_changed (lg_registry lg) s h in
      lg\<lparr>lg_registry := fst r, lg_pending := lg_pending lg @ snd r\<rparr>)"

definition spec_block :: "Ledger \<Rightarrow> Scope \<Rightarrow> RecordId \<Rightarrow> Ledger" where
  "spec_block lg s h =
     end_other_call (lg\<lparr>lg_rows := (lg_rows lg)(scope_key s :=
       map_option (\<lambda>row. row\<lparr>fr_blocked := True\<rparr>) (lg_rows lg (scope_key s)))\<rparr>) s h"

definition spec_advance ::
  "('z authority_ext_scheme) \<Rightarrow> Ledger \<Rightarrow> Scope \<Rightarrow> Prepared \<Rightarrow> Ledger \<times> (CallError + unit)" where
  "spec_advance E lg s p =
     (case head (pd_authority p) of
        Inl _ \<Rightarrow> (lg, Inl Unauthorized)
      | Inr h \<Rightarrow>
          if pd_proof p = None then (lg, Inl Unauthorized)
          else if sc_sequence h > I64_MAX then (lg, Inl Invalid)
          else (end_other_call (lg\<lparr>lg_rows := (lg_rows lg)(scope_key s \<mapsto>
                 upsert_row (lg_rows lg (scope_key s)) (co_config_id (pd_command p)) (sc_sequence h)
                   (recovery_id E (pd_authority p)))\<rparr>) s (co_config_id (pd_command p)), Inr ()))"

definition spec_apply ::
  "('z calls_ext_scheme) \<Rightarrow> bytes option \<times> bytes option \<Rightarrow> Ledger \<Rightarrow> Scope \<Rightarrow> Prepared \<Rightarrow> nat \<Rightarrow>
   Ledger \<times> (CallError + Applied_call)" where
  "spec_apply E rnd lg s p now =
     (case apply_with_delegation E rnd (lg_registry lg) (pd_authority p) (pd_command p) now (pd_delegation p) of
        (reg, Inl e) \<Rightarrow> (lg, Inl e)
      | (reg, Inr events) \<Rightarrow>
          if now > I64_MAX \<or> co_expires_at (pd_command p) > I64_MAX then (lg, Inl Invalid)
          else
          (lg\<lparr>lg_receipts := (live_receipts now (lg_receipts lg))(receipt_key (pd_command p) \<mapsto>
               \<lparr>rr_request_id = encode_hex (pd_request_id p), rr_expires = co_expires_at (pd_command p)\<rparr>),
              lg_registry := reg\<rparr>,
           Inr \<lparr>ap_request_id = pd_request_id p, ap_scope = s, ap_call = presence reg s,
                ap_events = events, ap_duplicate = False\<rparr>))"

definition spec_finish ::
  "('z calls_ext_scheme) \<Rightarrow> bytes option \<times> bytes option \<Rightarrow> Ledger \<Rightarrow> Scope \<Rightarrow> Prepared \<Rightarrow> bool \<Rightarrow> nat \<Rightarrow>
   Ledger \<times> (CallError + Applied_call)" where
  "spec_finish E rnd lg s p moved now =
     (case lg_receipts lg (receipt_key (pd_command p)) of
        Some earlier \<Rightarrow>
          (lg, if rr_request_id earlier \<noteq> encode_hex (pd_request_id p) then Inl Unauthorized
               else Inr \<lparr>ap_request_id = pd_request_id p, ap_scope = s, ap_call = presence (lg_registry lg) s,
                         ap_events = [], ap_duplicate = True\<rparr>)
      | None \<Rightarrow>
          bindst (if moved then spec_advance E lg s p else (lg, Inr ())) (\<lambda>lg2 _. spec_apply E rnd lg2 s p now))"

definition spec_execute ::
  "('z calls_ext_scheme) \<Rightarrow> bytes option \<times> bytes option \<Rightarrow> Ledger \<Rightarrow> Prepared \<Rightarrow> nat \<Rightarrow>
   Ledger \<times> (CallError + Applied_call)" where
  "spec_execute E rnd lg p now =
     (let s = scope_of (pd_command p); h = co_config_id (pd_command p) in
      if co_expires_at (pd_command p) \<le> now then (lg, Inl Unauthorized)
      else
      (case (case lg_rows lg (scope_key s) of None \<Rightarrow> Inr None | Some row \<Rightarrow> bindr (fence_of_row row) (\<lambda>f. Inr (Some f))) of
         Inl e \<Rightarrow> (lg, Inl e)
       | Inr floor' \<Rightarrow>
           (case judge E floor' (pd_authority p) h of
              Refuse \<Rightarrow> (lg, Inl Unauthorized)
            | Contradict \<Rightarrow> (spec_block lg s h, Inl Unauthorized)
            | Same \<Rightarrow> spec_finish E rnd lg s p False now
            | Advance \<Rightarrow> spec_finish E rnd lg s p True now)))"

subsection \<open>The engine refines it\<close>

lemma ledger_sel [simp]:
  "lg_rows (ledger_of eng) = en_rows eng" "lg_receipts (ledger_of eng) = en_receipts eng"
  "lg_registry (ledger_of eng) = en_registry eng" "lg_pending (ledger_of eng) = en_pending eng"
  by (simp_all add: ledger_of_def)

lemma ledger_eqI:
  "en_rows a = lg_rows lg \<Longrightarrow> en_receipts a = lg_receipts lg \<Longrightarrow> en_registry a = lg_registry lg \<Longrightarrow>
   en_pending a = lg_pending lg \<Longrightarrow> ledger_of a = lg"
  by (simp add: ledger_of_def)

lemma check_fence_judge:
  "check_fence E io eng s a cmd =
     (case judge E (map_option fence_core (bt_get (en_fences eng) s)) a (co_config_id cmd) of
        Refuse \<Rightarrow> (eng, Inl Unauthorized)
      | Contradict \<Rightarrow>
          if io_block io then (queue_configuration_changed (block_fence eng s) s (co_config_id cmd), Inl Unauthorized)
          else (eng, Inl Unavailable)
      | Same \<Rightarrow> (eng, Inr False)
      | Advance \<Rightarrow>
          if bt_get (en_fences eng) s = None \<and> MAX_SCOPES \<le> length (en_fences eng) then (eng, Inl Unavailable)
          else (eng, Inr True))"
  by (auto simp: check_fence_def judge_def fence_core_def split: option.split sum.split)

lemma spec_floor:
  assumes "engine_ok E eng" "bt_get (en_fences eng) s = None \<Longrightarrow> en_rows eng (scope_key s) = None"
  shows "(case en_rows eng (scope_key s) of None \<Rightarrow> Inr None | Some row \<Rightarrow> bindr (fence_of_row row) (\<lambda>f. Inr (Some f)))
    = Inr (map_option fence_core (bt_get (en_fences eng) s))"
proof (cases "bt_get (en_fences eng) s")
  case (Some f)
  from engine_okD(5) [OF assms(1) Some] Some show ?thesis by auto
qed (use assms(2) in simp)

lemma apply_refines:
  assumes "apply_command E io rnd eng s p now = (eng', res)" "res \<noteq> Inl Unavailable"
  shows "spec_apply E rnd (ledger_of eng) s p now = (ledger_of eng', res)"
  using assms by (auto simp: apply_command_def spec_apply_def commit_receipt_def
      split: prod.splits sum.splits if_splits intro!: ledger_eqI [symmetric])

lemma advance_refines:
  assumes "advance_fence E io eng s p n now = (eng', res)" "res \<noteq> Inl Unavailable"
  shows "spec_advance E (ledger_of eng) s p = (ledger_of eng', res)"
  using assms by (auto simp: advance_fence_def spec_advance_def Let_def queue_configuration_changed_def end_other_call_def
      split: sum.splits if_splits intro!: ledger_eqI [symmetric])

lemma touched_ledger: "ledger_of (touched eng s p n changed now) = ledger_of eng"
  by (rule ledger_eqI) simp_all

lemma finish_refines:
  assumes f: "finish_request E io rnd eng s p n changed now = (eng', res)" and u: "res \<noteq> Inl Unavailable"
  shows "spec_finish E rnd (ledger_of eng) s p changed now = (ledger_of eng', res)"
proof (cases rule: finish_request_cases [of E io rnd eng s p n changed now])
  case (stopped e)
  with f u advance_refines [of E io eng s p n now eng "Inl e"] show ?thesis
    by (auto simp: spec_finish_def touched_ledger)
next
  case (duplicate prev)
  with f show ?thesis by (auto simp: spec_finish_def touched_ledger)
next
  case (applied eng2)
  have "(if changed then spec_advance E (ledger_of eng) s p else (ledger_of eng, Inr ())) = (ledger_of eng2, Inr ())"
    using applied(2) advance_refines [of E io eng s p n now eng2 "Inr ()"] by (auto simp: touched_ledger)
  with applied(1,3) f apply_refines [of E io rnd eng2 s p now eng' res] u show ?thesis
    by (simp add: spec_finish_def)
qed

lemma block_refines:
  "ledger_of (queue_configuration_changed (block_fence eng s) s h) = spec_block (ledger_of eng) s h"
  by (rule ledger_eqI) (auto simp: queue_configuration_changed_def block_fence_def spec_block_def end_other_call_def
      Let_def fun_eq_iff split: option.split)

text \<open>
  C6: the engine refines an admission without a cache. Whatever fences happen to be cached,
  evicted or loaded again, a request that is not answered with unavailability has exactly the
  outcome that the durable state alone determines, and leaves exactly that durable state,
  those calls and those events behind.
\<close>

theorem execute_refines_spec:
  assumes "engine_ok E eng" "execute E io rnd eng p now = (eng', res)" "res \<noteq> Inl Unavailable"
  shows "spec_execute E rnd (ledger_of eng) p now = (ledger_of eng', res)"
proof -
  let ?s = "scope_of (pd_command p)"
  have loaded: "(case en_rows eng (scope_key ?s) of None \<Rightarrow> Inr None | Some row \<Rightarrow> bindr (fence_of_row row) (\<lambda>f. Inr (Some f)))
      = Inr (map_option fence_core (bt_get (en_fences eng1) ?s))" "ledger_of eng1 = ledger_of eng"
    if l: "load_fence io eng ?s now = (eng1, Inr ())" for eng1
    using spec_floor [of E eng1 ?s] load_fence_ok [OF assms(1) l] by (auto intro: ledger_eqI)
  show ?thesis
  proof (cases rule: execute_cases [of p now E io rnd eng])
    case expired
    with assms(2) show ?thesis by (simp add: spec_execute_def)
  next
    case (unloaded eng1 e)
    then have "e = Unavailable"
      by (auto simp: load_fence_def make_room_def stored_fence_def fence_of_row_def bindr_eq_Inl bindr_eq_Inr
          map_err_def Let_def split: if_splits option.splits sum.splits)
    with unloaded assms(2,3) show ?thesis by simp
  next
    case (oversized eng1)
    with assms(2,3) show ?thesis by simp
  next
    case (refused eng1 eng2 e)
    with assms(2,3) loaded [OF refused(2)] show ?thesis
      by (auto simp: check_fence_judge spec_execute_def Let_def block_refines split: verdict.splits if_splits)
  next
    case (finished eng1 changed n)
    with assms(2,3) loaded [OF finished(2)] finish_refines [of E io rnd eng1 ?s p n changed now eng' res] show ?thesis
      by (auto simp: check_fence_judge spec_execute_def Let_def split: verdict.splits if_splits)
  qed
qed

end
