(* ===== verification/Net.thy ===== *)
theory Net
  imports Prelude
begin

text \<open>
  What the services use of \<^verbatim>\<open>std::net\<close> and \<^verbatim>\<open>std::fmt\<close>: addresses as octets, their canonical
  text, and the decimal text of an integer.
\<close>

datatype IpAddr = V4 bytes | V6 bytes

text \<open>\<^verbatim>\<open>Ipv6Addr::to_ipv4_mapped\<close> on the octets of the address\<close>

definition to_ipv4_mapped :: "bytes \<Rightarrow> bytes option" where
  "to_ipv4_mapped octets =
     (if take 10 octets = replicate 10 0 \<and> take 2 (drop 10 octets) = [0xff, 0xff] then Some (drop 12 octets)
      else None)"

definition is_loopback :: "IpAddr \<Rightarrow> bool" where
  "is_loopback ip = (case ip of V4 o4 \<Rightarrow> o4 ! 0 = 127 | V6 o6 \<Rightarrow> o6 = replicate 15 0 @ [1])"

subsection \<open>Numbers as text\<close>

definition digit_char :: "nat \<Rightarrow> char" where
  "digit_char d = char_of (if d < 10 then 48 + d else 87 + d)"

text \<open>The text of a number in base ten or sixteen, without leading zeros.\<close>

fun base_text :: "nat \<Rightarrow> nat \<Rightarrow> string" where
  "base_text b n =
     (if b < 2 \<or> n < b then [digit_char n] else base_text b (n div b) @ [digit_char (n mod b)])"

declare base_text.simps [simp del]

abbreviation decimal :: "nat \<Rightarrow> string" where
  "decimal \<equiv> base_text 10"

subsection \<open>Addresses as text\<close>

fun join_text :: "char \<Rightarrow> string list \<Rightarrow> string" where
  "join_text c [] = []"
| "join_text c [s] = s"
| "join_text c (s # rest) = s @ c # join_text c rest"

definition ipv4_text :: "bytes \<Rightarrow> string" where
  "ipv4_text octets = join_text (CHR ''.'') (map (\<lambda>b. decimal (unat b)) octets)"

fun segments :: "bytes \<Rightarrow> nat list" where
  "segments (a # b # rest) = (unat a * 256 + unat b) # segments rest"
| "segments _ = []"

text \<open>
  The first longest run of zero segments, as its start and its length: \<^verbatim>\<open>current\<close> is the run
  the scan is in, \<^verbatim>\<open>longest\<close> the best so far.
\<close>

fun zero_run :: "nat \<Rightarrow> nat list \<Rightarrow> nat \<times> nat \<Rightarrow> nat \<times> nat \<Rightarrow> nat \<times> nat" where
  "zero_run i [] current longest = longest"
| "zero_run i (s # rest) current longest =
     (if s = 0 then
        let current' = (if snd current = 0 then (i, 1) else (fst current, snd current + 1)) in
        zero_run (i + 1) rest current' (if snd current' > snd longest then current' else longest)
      else zero_run (i + 1) rest (0, 0) longest)"

definition ipv6_text :: "bytes \<Rightarrow> string" where
  "ipv6_text octets =
     (case to_ipv4_mapped octets of
        Some o4 \<Rightarrow> ''::ffff:'' @ ipv4_text o4
      | None \<Rightarrow>
        let segs = segments octets;
            zeroes = zero_run 0 segs (0, 0) (0, 0);
            text' = (\<lambda>xs. join_text (CHR '':'') (map (base_text 16) xs)) in
        if snd zeroes > 1 then text' (take (fst zeroes) segs) @ ''::'' @ text' (drop (fst zeroes + snd zeroes) segs)
        else text' segs)"

definition ip_text :: "IpAddr \<Rightarrow> string" where
  "ip_text ip = (case ip of V4 o4 \<Rightarrow> ipv4_text o4 | V6 o6 \<Rightarrow> ipv6_text o6)"

end
