(* ===== verification/Storage_Broker.thy ===== *)
theory Storage_Broker
  imports Calls Net
begin

text \<open>
  \<^verbatim>\<open>crates/elo-core/src/attachments/broker.rs\<close>: the signed requests a device sends to the
  attachment broker, who may send them, and the proof of work of a first configuration. The
  sizes come from \<^verbatim>\<open>attachments/model.rs\<close> and \<^verbatim>\<open>attachments/crypto.rs\<close>.
\<close>

type_synonym AttachmentObjectId = bytes

subsection \<open>Limits\<close>

definition MAX_ATTACHMENT_FILE_SIZE :: nat where "MAX_ATTACHMENT_FILE_SIZE = 5 * 1024 * 1024"
definition MAX_SPACE_ATTACHMENT_STORAGE :: nat where "MAX_SPACE_ATTACHMENT_STORAGE = 50000000"
definition ATTACHMENT_CHUNK_BYTES :: nat where "ATTACHMENT_CHUNK_BYTES = 1024 * 1024"
definition HEADER_BYTES :: nat where "HEADER_BYTES = 8 + 8 + 4"
definition TAG_BYTES :: nat where "TAG_BYTES = 16"
definition STORAGE_COMMAND_TTL :: nat where "STORAGE_COMMAND_TTL = 60"
definition CONFIGURE_TTL :: nat where "CONFIGURE_TTL = 180"
definition TRANSFER_TTL :: nat where "TRANSFER_TTL = 120"

definition div_ceil :: "nat \<Rightarrow> nat \<Rightarrow> nat" where
  "div_ceil a b = (if a mod b = 0 then a div b else a div b + 1)"

definition encrypted_size :: "nat \<Rightarrow> nat" where
  "encrypted_size plaintext_size =
     (let chunks = div_ceil plaintext_size ATTACHMENT_CHUNK_BYTES in
      HEADER_BYTES + plaintext_size + chunks * (4 + TAG_BYTES))"

subsection \<open>Messages\<close>

datatype ProviderConfig =
    MegaFolder (folder_link: string) (write_auth: string)
  | S3Compatible (endpoint: string) (region: string) (bucket: string) (access_key: string) (secret_key: string)

definition provider_name :: "ProviderConfig \<Rightarrow> string" where
  "provider_name p = (case p of MegaFolder _ _ \<Rightarrow> ''mega_folder'' | S3Compatible _ _ _ _ _ \<Rightarrow> ''s3_compatible'')"

definition provider_validate :: "ProviderConfig \<Rightarrow> RecordError + unit" where
  "provider_validate p =
     (let values = (case p of
        MegaFolder l a \<Rightarrow> [l, a]
      | S3Compatible e r b k s \<Rightarrow> [e, r, b, k, s]) in
      if list_ex (\<lambda>v. v = [] \<or> length v > 4096 \<or> list_ex is_control (str_chars v)) values
      then Inl Json else Inr ())"

datatype SOperation =
    S_Status
  | S_Configure nat ProviderConfig nat
  | S_ConfigureManaged nat nat
  | S_Policy nat nat
  | S_Disable nat
  | S_Reserve AttachmentObjectId nat string
  | S_Complete AttachmentObjectId
  | S_Download AttachmentObjectId
  | S_Cancel AttachmentObjectId

definition op_ttl :: "SOperation \<Rightarrow> nat" where
  "op_ttl op = (case op of S_Configure _ _ _ \<Rightarrow> CONFIGURE_TTL | S_ConfigureManaged _ _ \<Rightarrow> CONFIGURE_TTL | _ \<Rightarrow> STORAGE_COMMAND_TTL)"

definition op_validate :: "SOperation \<Rightarrow> RecordError + unit" where
  "op_validate op =
     (case op of
        S_Configure expected p hours \<Rightarrow>
          if expected \<ge> MAX_INTEGER \<or> hours \<notin> set [1, 12, 24] then Inl Json else provider_validate p
      | S_ConfigureManaged expected hours \<Rightarrow>
          if expected \<ge> MAX_INTEGER \<or> hours \<notin> set [1, 12, 24] then Inl Json else Inr ()
      | S_Policy expected hours \<Rightarrow>
          if expected \<ge> MAX_INTEGER \<or> hours \<notin> set [1, 12, 24] then Inl Json else Inr ()
      | S_Reserve _ sz hash' \<Rightarrow>
          bindr (hex 32 hash') (\<lambda>_.
          if sz = 0 \<or> sz > encrypted_size MAX_ATTACHMENT_FILE_SIZE then Inl Json else Inr ())
      | _ \<Rightarrow> Inr ())"

text \<open>Operations only an owner may ask for, the first configuration of a space, and read access.\<close>

definition op_manages :: "SOperation \<Rightarrow> bool" where
  "op_manages op =
     (case op of S_Configure _ _ _ \<Rightarrow> True | S_ConfigureManaged _ _ \<Rightarrow> True | S_Policy _ _ \<Rightarrow> True | S_Disable _ \<Rightarrow> True
      | _ \<Rightarrow> False)"

definition op_first :: "SOperation \<Rightarrow> bool" where
  "op_first op = (case op of S_Configure n _ _ \<Rightarrow> n = 0 | S_ConfigureManaged n _ \<Rightarrow> n = 0 | _ \<Rightarrow> False)"

definition op_writes :: "SOperation \<Rightarrow> bool" where
  "op_writes op = (case op of S_Status \<Rightarrow> False | S_Download _ \<Rightarrow> False | _ \<Rightarrow> True)"

record SRequest =
  sq_command :: string
  sq_proof :: CallAuthorityProof

record SCommand =
  sm_v :: nat
  sm_kind :: string
  sm_audience :: string
  sm_space_id :: SpaceId
  sm_stream_id :: StreamId
  sm_config_id :: RecordId
  sm_credential_id :: RecordId
  sm_nonce :: string
  sm_work :: string
  sm_issued_at :: nat
  sm_expires_at :: nat
  sm_operation :: SOperation

record StorageStatus =
  ss_configured :: bool
  ss_enabled :: bool
  ss_provider :: "string option"
  ss_revision :: nat
  ss_used_bytes :: nat
  ss_max_space_bytes :: nat
  ss_max_file_bytes :: nat
  ss_retention_hours :: "nat option"

datatype SResponse =
    R_Status StorageStatus
  | R_Transfer (rt_object_id: AttachmentObjectId) (rt_url: string) (rt_token: string) (rt_expires_at: nat)
      (rt_object_expires_at_ms: nat)
  | R_Complete AttachmentObjectId
  | R_Cancelled AttachmentObjectId

text \<open>Derived serde functions, HMAC-SHA256 and XChaCha20-Poly1305 (key, nonce, associated data, text).\<close>

record storage_ext = calls_ext +
  dec_scommand :: "json \<Rightarrow> SCommand option"
  ser_scommand :: "SCommand \<Rightarrow> bytes"
  ser_sresponse :: "SResponse \<Rightarrow> string"
  de_sresponse :: "string \<Rightarrow> SResponse option"
  ser_provider :: "ProviderConfig \<Rightarrow> bytes"
  de_provider :: "bytes \<Rightarrow> ProviderConfig option"
  hmac_sha256 :: "bytes \<Rightarrow> bytes \<Rightarrow> bytes"
  xchacha_encrypt :: "bytes \<Rightarrow> bytes \<Rightarrow> bytes \<Rightarrow> bytes \<Rightarrow> bytes option"
  xchacha_decrypt :: "bytes \<Rightarrow> bytes \<Rightarrow> bytes \<Rightarrow> bytes \<Rightarrow> bytes option"

subsection \<open>Proof of work\<close>

definition STORAGE_WORK :: bytes where
  "STORAGE_WORK = ascii ''elo.now/storage-registration/v1'' @ [0]"

definition work_base :: "('z storage_ext_scheme) \<Rightarrow> SCommand \<Rightarrow> bytes" where
  "work_base E c = sha256 E (STORAGE_WORK @ ser_scommand E (c\<lparr>sm_work := []\<rparr>))"

definition valid_work :: "('z crypto_scheme) \<Rightarrow> bytes \<Rightarrow> nat \<Rightarrow> bool" where
  "valid_work E base nonce \<longleftrightarrow>
     (let out = sha256 E (base @ u64_to_be_bytes nonce) in
      out ! 0 = 0 \<and> out ! 1 = 0 \<and> unat (out ! 2) < 16)"

text \<open>\<^verbatim>\<open>for nonce in 0..u64::MAX\<close>\<close>

function find_storage_work :: "('z crypto_scheme) \<Rightarrow> bytes \<Rightarrow> nat \<Rightarrow> nat option" where
  "find_storage_work E base nonce =
     (if nonce \<ge> U64_MAX then None
      else if valid_work E base nonce then Some nonce
      else find_storage_work E base (Suc nonce))"
  by pat_completeness auto
termination
  by (relation "measure (\<lambda>(E, base, nonce). U64_MAX - nonce)") auto

declare find_storage_work.simps [simp del]

subsection \<open>Who may send what\<close>

definition storage_member :: "('z authority_ext_scheme) \<Rightarrow> Authority \<Rightarrow> RecordId \<Rightarrow> bool \<Rightarrow> RecordError + unit" where
  "storage_member E a cred write =
     (if \<not> is_owner_managed a \<or> au_forked a then Inl Authority_err
      else
      bindr (decode_with (dec_genesis E) (au_genesis a)) (\<lambda>genesis.
      bindr (if ge_nonce genesis \<noteq> encode_hex (au_stream a) then Inr True
             else bindr (head a) (\<lambda>h. Inr (sc_chat_kind h \<noteq> Some ChatKind_Chat))) (\<lambda>bad.
      if bad then Inl Authority_err
      else
      bindr (credential a cred) (\<lambda>device.
      bindr (head a) (\<lambda>h.
      if \<not> list_ex (\<lambda>m. me_identity_id m = identity device \<and> cred \<in> set (me_credential_ids m)
            \<and> Read \<in> set (me_capabilities m) \<and> (\<not> write \<or> Post \<in> set (me_capabilities m))) (sc_members h)
      then Inl Authority_err else Inr ())))))"

definition bad_audience :: "string \<Rightarrow> bool" where
  "bad_audience audience \<longleftrightarrow> audience = [] \<or> length audience > 2048 \<or> list_ex is_control (str_chars audience)"

definition storage_sign_command ::
  "('z storage_ext_scheme) \<Rightarrow> bytes option \<Rightarrow> Authority \<Rightarrow> RecordId \<Rightarrow> bytes \<Rightarrow> string \<Rightarrow> SOperation \<Rightarrow> nat \<Rightarrow>
   RecordError + SignedRecord" where
  "storage_sign_command E rnd a cred key audience op now =
     bindr (storage_member E a cred (op_writes op)) (\<lambda>_.
     if bad_audience audience then Inl Authority_err
     else
     bindr (op_validate op) (\<lambda>_.
     bindr (ok_or (au_head a) Authority_err) (\<lambda>h.
     bindr (random_hex rnd) (\<lambda>nonce.
     let c = \<lparr>sm_v = 1, sm_kind = ''storage.command'', sm_audience = audience, sm_space_id = space E a,
          sm_stream_id = au_stream a, sm_config_id = h, sm_credential_id = cred, sm_nonce = nonce, sm_work = [],
          sm_issued_at = now, sm_expires_at = saturating_add now (op_ttl op), sm_operation = op\<rparr>;
         c' = (if op_first op then
                 (case find_storage_work E (work_base E c) 0 of
                    None \<Rightarrow> c | Some n \<Rightarrow> c\<lparr>sm_work := encode_hex (u64_to_be_bytes n)\<rparr>)
               else c) in
     sign E (ser_scommand E c') key))))"

definition storage_command_bad :: "('z crypto_scheme) \<Rightarrow> Authority \<Rightarrow> SCommand \<Rightarrow> string \<Rightarrow> nat \<Rightarrow> bool" where
  "storage_command_bad E a c audience now \<longleftrightarrow>
     sm_v c \<noteq> 1
     \<or> sm_kind c \<noteq> ''storage.command''
     \<or> sm_audience c \<noteq> audience
     \<or> sm_space_id c \<noteq> space E a
     \<or> sm_stream_id c \<noteq> au_stream a
     \<or> Some (sm_config_id c) \<noteq> au_head a
     \<or> sm_issued_at c > saturating_add now 15
     \<or> sm_expires_at c \<le> now
     \<or> sm_expires_at c \<le> sm_issued_at c
     \<or> sm_expires_at c > saturating_add (sm_issued_at c) (op_ttl (sm_operation c))"

definition storage_verify_command ::
  "('z storage_ext_scheme) \<Rightarrow> Authority \<Rightarrow> SignedRecord \<Rightarrow> string \<Rightarrow> nat \<Rightarrow> RecordError + SCommand" where
  "storage_verify_command E a srec audience now =
     bindr (decode_with (dec_scommand E) srec) (\<lambda>c.
     if storage_command_bad E a c audience now then Inl Authority_err
     else
     bindr (hex 16 (sm_nonce c)) (\<lambda>_.
     bindr (storage_member E a (sm_credential_id c) (op_writes (sm_operation c))) (\<lambda>_.
     bindr (credential a (sm_credential_id c)) (\<lambda>device.
     bindr (verify_signature E srec (vc_key device)) (\<lambda>_.
     if op_manages (sm_operation c) \<and> \<not> can_manage a (sm_credential_id c) then Inl Authority_err
     else
     bindr (op_validate (sm_operation c)) (\<lambda>_.
     bindr (if op_first (sm_operation c) then
              bindr (hex 8 (sm_work c)) (\<lambda>n.
              if \<not> valid_work E (work_base E c) (from_be_bytes n) then Inl Authority_err else Inr ())
            else if sm_work c \<noteq> [] then Inl Json else Inr ()) (\<lambda>_.
     Inr c)))))))"

end
