(* ===== verification/Example_World.thy ===== *)
theory Example_World
  imports Registry_Invariant Storage_Broker "HOL-Library.Countable"
begin

text \<open>
  A concrete instance of every parameter, used to show that the hypotheses of the theorems can
  hold: records with a five-byte body that names a table entry, a signature scheme whose
  signature repeats a byte of the key and a byte of the message, and a digest that repeats one
  byte of its input. The lemmas evaluate the record layer on such frames once and for all.
\<close>

subsection \<open>Keys, identifiers and frames\<close>

definition bid :: "nat \<Rightarrow> bytes" where
  "bid n = replicate 32 (word_of_nat n)"

definition sid :: StreamId where "sid = replicate 16 7"
definition nonce16 :: string where "nonce16 = encode_hex (replicate 16 7)"
definition nonce32 :: string where "nonce32 = encode_hex (replicate 32 7)"

definition ex_sign :: "bytes \<Rightarrow> bytes \<Rightarrow> bytes" where
  "ex_sign k m = replicate 32 (hd (k @ [0])) @ replicate 32 (hd (drop 28 m @ [0]))"

definition ex_body :: "nat \<Rightarrow> nat \<Rightarrow> nat \<Rightarrow> bytes" where
  "ex_body v k i = [123, word_of_nat v, word_of_nat k, word_of_nat i, 125]"

definition ex_frame :: "nat \<Rightarrow> nat \<Rightarrow> nat \<Rightarrow> nat \<Rightarrow> bytes" where
  "ex_frame v k i key =
     ELO1 @ u32_to_be_bytes 5 @ ex_body v k i @ ex_sign (bid key) (SIGN_DOMAIN @ ex_body v k i)"

definition ex_kind :: "nat \<Rightarrow> string" where
  "ex_kind k = (if k = 1 then ''device.credential'' else if k = 2 then ''device.revoked''
     else if k = 3 then ''space.genesis'' else if k = 4 then ''stream.config'' else ''other'')"

definition ex_root :: "nat \<Rightarrow> nat" where
  "ex_root i = (if i = 44 then 2 else 1)"

definition ex_json :: "bytes \<Rightarrow> raw_json option" where
  "ex_json b =
     (if length b = 5 then
        Some (RMap [(''i'', RU64 (unat (b ! 3))), (''kind'', RString (ex_kind (unat (b ! 2)))),
                    (''nonce'', RString (encode_hex sid)),
                    (''root_public_key'', RString (encode_hex (bid (ex_root (unat (b ! 3)))))),
                    (''v'', RU64 (unat (b ! 1)))])
      else None)"

definition ex_object :: "nat \<Rightarrow> nat \<Rightarrow> nat \<Rightarrow> json" where
  "ex_object v k i =
     Object [(''i'', Number i), (''kind'', String (ex_kind k)), (''nonce'', String (encode_hex sid)),
             (''root_public_key'', String (encode_hex (bid (ex_root i)))), (''v'', Number v)]"

definition ex_record :: "nat \<Rightarrow> nat \<Rightarrow> nat \<Rightarrow> nat \<Rightarrow> SignedRecord" where
  "ex_record v k i key = \<lparr>rec_bytes = ex_frame v k i key, rec_body = ex_object v k i\<rparr>"

definition by_index :: "(nat \<times> 'a) list \<Rightarrow> json \<Rightarrow> 'a option" where
  "by_index table j = (case json_index j ''i'' of Number n \<Rightarrow> map_of table n | _ \<Rightarrow> None)"

text \<open>The base64 text of a frame, with the code that stands for base64 here.\<close>

definition ex_encode :: "bytes \<Rightarrow> string" where
  "ex_encode b = map (\<lambda>x. char_of (unat x)) b"

definition ex_text :: "nat \<Rightarrow> nat \<Rightarrow> nat \<Rightarrow> nat \<Rightarrow> string" where
  "ex_text v k i key = ex_encode (ex_frame v k i key)"

definition ex_hash :: "bytes \<Rightarrow> bytes" where
  "ex_hash b = replicate 32 (hd (drop 32 b @ [0]))"

text \<open>The records below use small numbers that are not JSON punctuation.\<close>

definition ex_plain :: "nat \<Rightarrow> bool" where
  "ex_plain n \<longleftrightarrow> n < 256 \<and> n \<notin> set [34, 45, 91, 92, 93, 123, 125]"

definition ex_supported :: "nat \<Rightarrow> nat \<Rightarrow> bool" where
  "ex_supported v k \<longleftrightarrow> v = 1 \<or> (v = 2 \<and> k \<in> set [1, 2, 3, 4]) \<or> ((v = 3 \<or> v = 4) \<and> k \<in> set [3, 4])"

lemma byte_eq_iff: "m < 256 \<Longrightarrow> n < 256 \<Longrightarrow> (word_of_nat m :: byte) = word_of_nat n \<longleftrightarrow> m = n"
  by (metis unat_byte_of_nat)

lemma length_sid [simp]: "length sid = 16"
  by (simp add: sid_def)

lemma length_bid [simp]: "length (bid n) = 32"
  by (simp add: bid_def)

lemma hd_bid: "hd (bid n @ xs) = word_of_nat n"
  by (simp add: bid_def numeral_eq_Suc)

lemma bid_eq [simp]: "m < 256 \<Longrightarrow> n < 256 \<Longrightarrow> bid m = bid n \<longleftrightarrow> m = n"
  using byte_eq_iff [of m n] by (auto simp: bid_def)

lemma bid_less [simp]: "m < 256 \<Longrightarrow> n < 256 \<Longrightarrow> bid m < bid n \<longleftrightarrow> m < n"
proof -
  assume mn: "m < 256" "n < 256"
  have "replicate k a < replicate k b \<longleftrightarrow> 0 < k \<and> a < b" for k and a b :: byte
    by (induction k) (auto simp: order_less_imp_not_eq)
  moreover have "(word_of_nat m :: byte) < word_of_nat n \<longleftrightarrow> m < n"
    using mn by (simp add: word_less_nat_alt unat_byte_of_nat)
  ultimately show ?thesis by (simp add: bid_def)
qed

lemma bid_le [simp]: "m < 256 \<Longrightarrow> n < 256 \<Longrightarrow> bid m \<le> bid n \<longleftrightarrow> m \<le> n"
  using bid_less [of n m] by (simp add: not_less [symmetric])

lemma length_ex_sign [simp]: "length (ex_sign k m) = 64"
  by (simp add: ex_sign_def)

lemma length_ex_frame [simp]: "length (ex_frame v k i key) = 77"
  by (simp add: ex_frame_def ex_body_def)

lemma length_ex_body: "length (ex_body v k i) = 5"
  by (simp add: ex_body_def)

lemma length_SIGN_DOMAIN: "length SIGN_DOMAIN = 25"
  by (simp add: SIGN_DOMAIN_def ascii_def)

lemma ex_sign_eq:
  "ex_sign (bid a) (SIGN_DOMAIN @ ex_body v k i) = replicate 32 (word_of_nat a) @ replicate 32 (word_of_nat i)"
  by (simp add: ex_sign_def hd_bid length_SIGN_DOMAIN ex_body_def)

lemma ex_hash_prefix: "length d = 21 \<Longrightarrow> ex_hash (d @ ex_frame v k i key) = bid i"
  by (simp add: ex_hash_def ex_frame_def bid_def ex_body_def u32_to_be_bytes_def ELO1_def ascii_def)

lemma ex_decode_encode: "map (\<lambda>c. word_of_nat (of_char c)) (ex_encode b) = b"
  by (simp add: ex_encode_def comp_def map_idI)

lemma length_ex_text [simp]: "length (ex_text v k i key) = 77"
  by (simp add: ex_text_def ex_encode_def)

lemma nonce_hex [simp]: "hex 16 nonce16 = Inr (replicate 16 7)" "hex 32 nonce32 = Inr (replicate 32 7)"
  "hex 32 (encode_hex (bid n)) = Inr (bid n)"
  by (simp_all add: hex_def nonce16_def nonce32_def)

lemma encode_bid [simp]: "m < 256 \<Longrightarrow> n < 256 \<Longrightarrow> encode_hex (bid m) = encode_hex (bid n) \<longleftrightarrow> m = n"
  by (simp add: encode_hex_inj)

subsection \<open>The records of the example\<close>

text \<open>Three devices of one person (41, its companion 42 and the later 43) and one of another (44).\<close>

definition ex_device :: "nat \<Rightarrow> nat \<Rightarrow> string \<Rightarrow> string option \<Rightarrow> DeviceCredential" where
  "ex_device root key rcpt parent =
     \<lparr>dc_v = (if parent = None then 1 else 2), dc_kind = ''device.credential'', dc_nonce = nonce16,
      dc_identity_id = bid root, dc_root_public_key = encode_hex (bid root),
      dc_signing_public_key = encode_hex (bid key), dc_age_recipient = rcpt, dc_authorizing_device = parent\<rparr>"

definition ex_credentials :: "(nat \<times> DeviceCredential) list" where
  "ex_credentials =
     [(41, ex_device 1 11 ''age-a'' None), (42, ex_device 1 12 ''age-b'' (Some (ex_text 1 1 41 1))),
      (43, ex_device 1 13 ''age-c'' None), (44, ex_device 2 21 ''age-d'' None)]"

definition ex_revocations :: "(nat \<times> DeviceRevocation) list" where
  "ex_revocations =
     [(47, \<lparr>dr_v = 2, dr_kind = ''device.revoked'', dr_nonce = nonce16, dr_credential = ex_text 2 1 42 11,
            dr_authorizing_device = Some (ex_text 1 1 41 1)\<rparr>)]"

text \<open>Three spaces: owner-managed (50), controller-managed (60), and with a pinned witness (70).\<close>

definition ex_pin :: WitnessPin where
  "ex_pin = \<lparr>wp_url = ''https://w'', wp_public_key = encode_hex (bid 31), wp_key_generation = 1\<rparr>"

definition ex_genesis :: "nat \<Rightarrow> WitnessPin option \<Rightarrow> SpaceGenesis" where
  "ex_genesis v pin =
     \<lparr>ge_v = v, ge_kind = ''space.genesis'', ge_nonce = nonce16, ge_issuer_identity = bid 1,
      ge_owners = [\<lparr>ow_identity_id = bid 1, ow_root_public_key = encode_hex (bid 1)\<rparr>],
      ge_controller_credential_id = bid 41, ge_witness = pin\<rparr>"

definition ex_member :: "nat \<Rightarrow> Capability list \<Rightarrow> RecordId list \<Rightarrow> bool \<Rightarrow> Member" where
  "ex_member root caps devs ext =
     \<lparr>me_identity_id = bid root, me_identity_type = ''HUMAN'', me_root_public_key = encode_hex (bid root),
      me_capabilities = caps, me_credential_ids = devs, me_external = ext\<rparr>"

abbreviation owner_caps :: "Capability list" where
  "owner_caps \<equiv> [Read, Post, ShareHistory, Manage]"

definition ex_config ::
  "nat \<Rightarrow> nat \<Rightarrow> nat \<Rightarrow> RecordId option \<Rightarrow> nat \<Rightarrow> Member list \<Rightarrow> RecordId list \<Rightarrow> string \<Rightarrow> RecordId option \<Rightarrow>
   StreamConfig" where
  "ex_config v sp seq prev ctl ms owners op request =
     \<lparr>sc_v = v, sc_kind = ''stream.config'', sc_nonce = nonce16, sc_space_id = bid sp, sc_stream_id = sid,
      sc_sequence = seq, sc_previous_config_id = prev, sc_controller_credential_id = bid ctl,
      sc_members = ms, sc_owner_credential_ids = owners,
      sc_action = \<lparr>ca_operation = op, ca_actor_identity = bid 1, ca_request_record_id = request\<rparr>,
      sc_chat_kind = Some ChatKind_Chat, sc_recovery = None, sc_witness_evidence = None\<rparr>"

definition ex_evidence :: WitnessAdmissionEvidence where
  "ex_evidence = \<lparr>wae_policy = ex_text 1 5 72 11, wae_challenge = ex_text 1 5 73 31,
     wae_device_intent = ex_text 1 5 74 21, wae_invitation_intent = ex_text 1 5 74 32,
     wae_contact = ex_text 1 5 75 21, wae_approval = None, wae_admitted_at_ms = 150\<rparr>"

definition ex_configs :: "(nat \<times> StreamConfig) list" where
  "ex_configs =
     [(51, ex_config 2 50 1 None 41 [ex_member 1 owner_caps [bid 41] False] [bid 41] ''create'' None),
      (52, ex_config 2 50 2 (Some (bid 51)) 41
             [ex_member 1 owner_caps [bid 41] False, ex_member 2 owner_caps [bid 44] False]
             [bid 41, bid 44] ''replace'' None),
      (53, (ex_config 2 50 2 (Some (bid 51)) 41 [ex_member 1 owner_caps [bid 41] False] [bid 41] ''replace'' None)),
      (61, ex_config 1 60 1 None 41 [ex_member 1 owner_caps [bid 41] False] [bid 41] ''create'' None),
      (63, (ex_config 1 60 2 (Some (bid 61)) 43 [ex_member 1 owner_caps [bid 43] False] [bid 43]
             ''controller.recovered'' (Some (bid 62)))\<lparr>sc_recovery := Some (ex_text 1 5 62 1)\<rparr>),
      (71, ex_config 4 70 1 None 41 [ex_member 1 owner_caps [bid 41] False] [bid 41] ''create'' None),
      (76, (ex_config 4 70 2 (Some (bid 71)) 41
             [ex_member 1 owner_caps [bid 41] False, ex_member 2 [Read, Post] [bid 44] True] [bid 41]
             ''invite.approved'' (Some (bid 74)))
             \<lparr>sc_nonce := take 32 nonce32, sc_witness_evidence := Some (Admission_evidence ex_evidence)\<rparr>)]"

definition ex_recoveries :: "(nat \<times> ControllerRecovery) list" where
  "ex_recoveries =
     [(62, \<lparr>cr_v = 1, cr_kind = ''space.controller.recovered'', cr_nonce = nonce16, cr_space_id = bid 60,
            cr_sequence = 1, cr_previous_recovery_id = None,
            cr_previous_controller_credential_id = bid 41, cr_controller_credential_id = bid 43\<rparr>)]"

definition ex_policies :: "(nat \<times> WitnessInvitationPolicy) list" where
  "ex_policies =
     [(72, \<lparr>wip_v = 1, wip_kind = ''witness.invitation'', wip_nonce = nonce16, wip_space_id = bid 70,
            wip_stream_id = sid, wip_authority_head = bid 71, wip_issuer_credential_id = bid 41,
            wip_invitation_public_key = encode_hex (bid 32), wip_not_before_ms = 0, wip_expires_at_ms = 1000,
            wip_require_approval = False, wip_max_uses = 2, wip_witness_key_generation = 1\<rparr>)]"

definition ex_challenges :: "(nat \<times> WitnessChallenge) list" where
  "ex_challenges =
     [(73, \<lparr>wc_v = 1, wc_kind = ''witness.challenge'', wc_nonce = nonce32, wc_client_nonce = nonce32,
            wc_space_id = bid 70, wc_stream_id = sid, wc_policy_id = bid 72, wc_credential_id = bid 44,
            wc_issued_at_ms = 100, wc_expires_at_ms = 200, wc_witness_key_generation = 1\<rparr>)]"

definition ex_intents :: "(nat \<times> WitnessAdmissionIntent) list" where
  "ex_intents =
     [(74, \<lparr>wi_v = 1, wi_kind = ''witness.admission'', wi_nonce = nonce32, wi_space_id = bid 70,
            wi_stream_id = sid, wi_policy_id = bid 72, wi_challenge_id = bid 73, wi_credential_id = bid 44,
            wi_contact_id = bid 75\<rparr>)]"

definition ex_contacts :: "(nat \<times> Contact) list" where
  "ex_contacts =
     [(75, \<lparr>ct_wake = None, ct_v = 1, ct_kind = ''identity.contact'', ct_nonce = nonce16,
            ct_issuer_identity = bid 2, ct_issuer_credential = bid 44, ct_name = ''Bob'', ct_expires_at = 10\<rparr>)]"

definition ex_chat :: ChatMessage where
  "ex_chat = \<lparr>cm_v = 1, cm_kind = ''chat.message'', cm_nonce = nonce16, cm_space_id = bid 50, cm_stream_id = sid,
     cm_issuer_identity = bid 1, cm_issuer_credential = bid 41, cm_config_id = bid 52,
     cm_audience = [bid 1, bid 2], cm_recipient_credentials = [bid 41, bid 44], cm_logical_time = 3,
     cm_created_at = ''2024-02-29T23:59:59Z'', cm_parents = [],
     cm_payload = \<lparr>tp_text = ''hello'', tp_mentions = [], tp_expires_at_ms = None, tp_sender_name = None,
        tp_thread_root = None, tp_action = None\<rparr>,
     cm_locator = None, cm_access = None\<rparr>"

definition ex_proof :: CallAuthorityProof where
  "ex_proof = \<lparr>pr_v = 1, pr_genesis = ex_text 2 3 50 11, pr_credentials = [ex_text 1 1 41 1, ex_text 1 1 44 2],
     pr_configs = [ex_text 2 4 51 11, ex_text 2 4 52 11], pr_checkpoint = None\<rparr>"

definition ex_command :: "nat \<Rightarrow> Operation \<Rightarrow> Command" where
  "ex_command dev op = \<lparr>co_v = 1, co_kind = ''call.command'', co_audience = ''https://call'',
     co_hosting_space_id = bid 50, co_scope = CallScope (bid 50) sid, co_config_id = bid 52,
     co_credential_id = bid dev, co_nonce = nonce16, co_issued_at = 100, co_expires_at = 160,
     co_operation = op\<rparr>"

definition ex_commands :: "(nat \<times> Command) list" where
  "ex_commands =
     [(82, ex_command 44 (Join nonce16 None)), (83, ex_command 41 (Start Group Audio)), (85, ex_command 44 (Heartbeat nonce16))]"

definition ex_delegations :: "(nat \<times> Delegation) list" where
  "ex_delegations =
     [(84, \<lparr>de_v = 1, de_kind = ''call.delegation'', de_audience = ''https://call'', de_hosting_space_id = bid 50,
            de_scope = CallScope (bid 50) sid, de_config_id = bid 52, de_issuer_credential = bid 44,
            de_signing_public_key = encode_hex (bid 33), de_age_recipient = ''age-e'',
            de_issued_at = 90, de_expires_at = 1000\<rparr>)]"

text \<open>
  A registration at the witness: the owner's command (94), the host's ticket (97), the receipt the
  witness signs for it (96) and its answer to a later question about the head (95).
\<close>

definition ex_wproof :: CallAuthorityProof where
  "ex_wproof = \<lparr>pr_v = 1, pr_genesis = ex_text 4 3 70 11, pr_credentials = [ex_text 1 1 41 1],
     pr_configs = [ex_text 4 4 71 11], pr_checkpoint = None\<rparr>"

definition ex_wcommand :: WCommand where
  "ex_wcommand = \<lparr>cw_v = 1, cw_kind = ''witness.command'', cw_nonce = nonce32, cw_audience = ''https://w'',
     cw_space_id = bid 70, cw_stream_id = sid, cw_credential_id = bid 41, cw_authority_head = bid 71,
     cw_issued_at_ms = 100, cw_expires_at_ms = 160, cw_operation = Register\<rparr>"

definition ex_ticket :: RegistrationTicket where
  "ex_ticket = \<lparr>rt_v = 1, rt_kind = ''witness.registration_ticket'', rt_audience = ''https://w'',
     rt_witness_public_key = encode_hex (bid 31), rt_witness_key_generation = 1, rt_host = ''https://h'',
     rt_space_id = bid 70, rt_stream_id = sid, rt_authority_head = bid 71, rt_creator_identity = bid 1,
     rt_credential_id = bid 41, rt_issued_at_ms = 90, rt_expires_at_ms = 1000, rt_reservation_id = nonce32\<rparr>"

definition ex_receipt :: Receipt where
  "ex_receipt = \<lparr>re_v = 1, re_kind = ''witness.receipt'', re_audience = ''https://w'', re_sequence = 1,
     re_previous = None, re_request_id = bid 94, re_space_id = bid 70, re_authority_head = bid 71,
     re_state_digest = encode_hex (bid 116), re_accepted_at_ms = 120, re_event = ''space.registered'',
     re_witness_key_generation = 1\<rparr>"

definition ex_freshness :: Freshness where
  "ex_freshness = \<lparr>fs_v = 1, fs_kind = ''witness.freshness'', fs_audience = ''https://w'', fs_nonce = nonce32,
     fs_space_id = bid 70, fs_stream_id = sid, fs_authority_head = bid 71,
     fs_position = \<lparr>po_sequence = 1, po_record_id = Some (bid 96)\<rparr>, fs_issued_at_ms = 130,
     fs_expires_at_ms = 30130, fs_witness_key_generation = 1\<rparr>"

definition ex_response :: WResponse where
  "ex_response = \<lparr>wr_receipt = Some (ex_text 1 5 96 31), wr_proof = None, wr_challenge = None\<rparr>"

definition ex_scommand :: "SOperation \<Rightarrow> string \<Rightarrow> string \<Rightarrow> SCommand" where
  "ex_scommand op nonce work = \<lparr>sm_v = 1, sm_kind = ''storage.command'', sm_audience = ''https://s'', sm_space_id = bid 70,
     sm_stream_id = sid, sm_config_id = bid 71, sm_credential_id = bid 41, sm_nonce = nonce, sm_work = work,
     sm_issued_at = 5, sm_expires_at = 40, sm_operation = op\<rparr>"

definition ex_object_id :: AttachmentObjectId where "ex_object_id = replicate 16 9"
definition ex_provider :: ProviderConfig where "ex_provider = MegaFolder ''l'' ''a''"

definition ex_scommands :: "(nat \<times> SCommand) list" where
  "ex_scommands =
    [(98, ex_scommand (S_Configure 0 ex_provider 12) nonce16 (encode_hex (replicate 8 0))),
     (99, ex_scommand (S_Reserve ex_object_id 40 nonce32) (encode_hex (replicate 16 8)) []),
     (100, ex_scommand (S_Complete ex_object_id) (encode_hex (replicate 16 9)) []),
     (101, ex_scommand (S_Download ex_object_id) (encode_hex (replicate 16 10)) [])]"

text \<open>Provider credentials and answers are encoded by their place in an enumeration of the type.\<close>

instance ProviderConfig :: countable
  by countable_datatype

text \<open>The JSON value of a configuration: every field in its place.\<close>

fun opt_value :: "('a \<Rightarrow> json) \<Rightarrow> 'a option \<Rightarrow> json" where
  "opt_value f None = Null"
| "opt_value f (Some x) = Array [f x]"

definition hex_value :: "bytes \<Rightarrow> json" where
  "hex_value b = String (encode_hex b)"

definition member_value :: "Member \<Rightarrow> json" where
  "member_value m = Array [hex_value (me_identity_id m), String (me_identity_type m), String (me_root_public_key m),
     Array (map (\<lambda>c. Number (capability_index c)) (me_capabilities m)), Array (map hex_value (me_credential_ids m)),
     Bool (me_external m)]"

definition action_value :: "ConfigAction \<Rightarrow> json" where
  "action_value c = Array [String (ca_operation c), hex_value (ca_actor_identity c), opt_value hex_value (ca_request_record_id c)]"

fun evidence_value :: "WitnessConfigEvidence \<Rightarrow> json" where
  "evidence_value (OwnerProposal p) = String p"
| "evidence_value (Admission_evidence ev) = Array [Array (map String [wae_policy ev, wae_challenge ev, wae_device_intent ev,
     wae_invitation_intent ev, wae_contact ev]), opt_value String (wae_approval ev), Number (wae_admitted_at_ms ev)]"
| "evidence_value (AdmissionV2_evidence ev) = Object [([], Array (map String [wje_policy (wa2_request ev), wje_device_request (wa2_request ev),
     wje_invitation_request (wa2_request ev), wje_contact (wa2_request ev), wa2_challenge ev, wa2_device_intent ev,
     wa2_invitation_intent ev])), ([], opt_value String (wa2_approval ev)), ([], Number (wa2_admitted_at_ms ev))]"

definition config_value :: "StreamConfig \<Rightarrow> json" where
  "config_value c = Array [Number (sc_v c), String (sc_kind c), String (sc_nonce c), hex_value (sc_space_id c),
     hex_value (sc_stream_id c), Number (sc_sequence c), opt_value hex_value (sc_previous_config_id c),
     hex_value (sc_controller_credential_id c), Array (map member_value (sc_members c)),
     Array (map hex_value (sc_owner_credential_ids c)), action_value (sc_action c),
     opt_value (\<lambda>k. Bool (k = ChatKind_Direct)) (sc_chat_kind c), opt_value String (sc_recovery c),
     opt_value evidence_value (sc_witness_evidence c)]"

lemma opt_value_inj: "(\<And>x y. f x = f y \<Longrightarrow> x = y) \<Longrightarrow> opt_value f a = opt_value f b \<longleftrightarrow> a = b"
  by (cases a; cases b) auto

lemma map_value_inj: "(\<And>x y. f x = f y \<Longrightarrow> x = y) \<Longrightarrow> map f a = map f b \<longleftrightarrow> a = b"
  by (metis inj_def inj_map_eq_map)

lemma hex_value_inj: "hex_value a = hex_value b \<longleftrightarrow> a = b"
  by (simp add: hex_value_def encode_hex_inj)

lemma opt_hex_inj: "opt_value hex_value a = opt_value hex_value b \<longleftrightarrow> a = b"
  by (rule opt_value_inj) (simp add: hex_value_inj)

lemma opt_string_inj: "opt_value String a = opt_value String b \<longleftrightarrow> a = b"
  by (rule opt_value_inj) simp

lemma map_hex_inj: "map hex_value a = map hex_value b \<longleftrightarrow> a = b"
  by (rule map_value_inj) (simp add: hex_value_inj)

lemma capabilities_value_inj:
  "map (\<lambda>c. Number (capability_index c)) a = map (\<lambda>c. Number (capability_index c)) b \<longleftrightarrow> a = b"
  by (rule map_value_inj) (simp add: capability_index_inj)

lemmas value_injs = hex_value_inj opt_hex_inj opt_string_inj map_hex_inj capabilities_value_inj

lemma member_value_inj: "member_value a = member_value b \<Longrightarrow> a = b"
  by (cases a; cases b) (simp add: member_value_def value_injs)

lemma members_value_inj: "map member_value a = map member_value b \<longleftrightarrow> a = b"
  by (rule map_value_inj) (rule member_value_inj)

lemma action_value_inj: "action_value a = action_value b \<Longrightarrow> a = b"
  by (cases a; cases b) (simp add: action_value_def value_injs)

lemma evidence_value_inj: "evidence_value a = evidence_value b \<Longrightarrow> a = b"
  by (cases a; cases b) (auto simp: value_injs intro!: WitnessAdmissionEvidence.equality WitnessAdmissionEvidenceV2.equality
      WitnessJoinRequestEvidence.equality)

lemma opt_evidence_inj: "opt_value evidence_value a = opt_value evidence_value b \<longleftrightarrow> a = b"
  by (rule opt_value_inj) (rule evidence_value_inj)

lemma opt_kind_inj: "opt_value (\<lambda>k. Bool (k = ChatKind_Direct)) a = opt_value (\<lambda>k. Bool (k = ChatKind_Direct)) b \<longleftrightarrow> a = b"
proof (rule opt_value_inj)
  fix x y
  assume "Bool (x = ChatKind_Direct) = Bool (y = ChatKind_Direct)"
  then show "x = y"
    by (cases x; cases y) simp_all
qed

lemma config_value_inj: "inj config_value"
proof (rule injI)
  fix a b
  assume "config_value a = config_value b"
  then show "a = b"
    by (intro StreamConfig.equality) (simp_all add: config_value_def value_injs members_value_inj opt_evidence_inj opt_kind_inj
        action_value_inj)
qed

definition W :: storage_ext where
  "W = \<lparr>sha256 = ex_hash, ed_key_valid = (\<lambda>k. length k = 32), ed_key_weak = (\<lambda>k. k = bid 0),
    ed_verify_strict = (\<lambda>k m s. s = ex_sign k m), ed_public = (\<lambda>k. k), ed_sign = ex_sign,
    b64_decode = (\<lambda>s. Some (map (\<lambda>c. word_of_nat (of_char c)) s)), b64_encode = ex_encode,
    age_parse = (\<lambda>s. if s = [] then None else Some s), json_from_slice = ex_json,
    dec_chat = by_index [(80, ex_chat)], ser_chat = (\<lambda>_. ex_body 1 5 80), reaction_choices = [''+''],
    dec_credential = by_index ex_credentials,
    ser_credential = (\<lambda>c. if dc_authorizing_device c = None then ex_body 1 1 41 else ex_body 2 1 42),
    dec_revocation = by_index ex_revocations, ser_revocation = (\<lambda>_. ex_body 2 2 47),
    url_parse = (\<lambda>_. Some \<lparr>url_scheme = ''https'', url_host = Some ''w'', url_username = [], url_password = None,
       url_query = None, url_fragment = None\<rparr>),
    dec_genesis = by_index [(50, ex_genesis 2 None), (60, ex_genesis 1 None), (70, ex_genesis 4 (Some ex_pin))],
    dec_config = by_index ex_configs,
    ser_config = (\<lambda>c. ex_body (sc_v c) 4 53),
    config_to_value = config_value,
    dec_recovery = by_index ex_recoveries, ser_recovery = (\<lambda>_. ex_body 1 5 62),
    dec_checkpoint = (\<lambda>_. None), ser_checkpoint = (\<lambda>_. ex_body 1 5 64),
    checkpoint_to_value = (\<lambda>c. Number (cp_sequence c)),
    dec_policy = by_index ex_policies, dec_challenge = by_index ex_challenges, dec_challenge_v2 = (\<lambda>_. None),
    dec_intent = by_index ex_intents, dec_intent_v2 = (\<lambda>_. None), dec_approval = (\<lambda>_. None),
    dec_approval_v2 = (\<lambda>_. None), dec_join_request = (\<lambda>_. None), dec_contact = by_index ex_contacts,
    dec_authority_proofs = by_index [(90, ex_proof)],
    url_path = (\<lambda>_. ''/spaces/v1/create''), dec_wcommand = by_index [(94, ex_wcommand)],
    dec_receipt = by_index [(96, ex_receipt)], ser_receipt = (\<lambda>r. if r = ex_receipt then ex_body 1 5 96 else []),
    ser_noop = (\<lambda>_. []),
    dec_freshness = by_index [(95, ex_freshness)],
    ser_freshness = (\<lambda>f. if f = ex_freshness then ex_body 1 5 95 else []),
    dec_ticket = by_index [(97, ex_ticket)], ser_ticket = (\<lambda>_. ex_body 1 5 97),
    ser_challenge = (\<lambda>_. []), ser_challenge_v2 = (\<lambda>_. []), ser_pin = wp_url,
    ser_proof = (\<lambda>_. ''p''), de_proof = (\<lambda>_. Some ex_wproof),
    ser_response = (\<lambda>_. ''r''), de_response = (\<lambda>_. Some ex_response),
    dec_command = by_index ex_commands, ser_command = (\<lambda>_. ex_body 1 5 82),
    dec_delegation = by_index ex_delegations, ser_delegation = (\<lambda>_. ex_body 1 5 84),
    dec_signal = (\<lambda>_. None), ser_signal = (\<lambda>_. ex_body 1 5 86),
    dec_scommand = by_index ex_scommands, ser_scommand = (\<lambda>_. ex_body 1 5 98),
    ser_sresponse = (\<lambda>_. ''s''), de_sresponse = (\<lambda>_. Some (R_Complete ex_object_id)),
    ser_provider = (\<lambda>p. replicate (to_nat p) 0), de_provider = (\<lambda>b. Some (from_nat (length b))),
    hmac_sha256 = (\<lambda>_ m. replicate 32 (hd (drop 28 m @ [0]))),
    xchacha_encrypt = (\<lambda>_ _ _ m. Some (m @ replicate 16 0)),
    xchacha_decrypt = (\<lambda>_ _ _ c. Some (take (length c - 16) c))\<rparr>"

subsection \<open>Evaluating the record layer\<close>

declare One_nat_def [simp del]

named_theorems example_simps \<open>evaluation of the example\<close>

lemma W_crypto [example_simps]:
  "ed_public W k = k" "b64_decode W (ex_text v n i key) = Some (ex_frame v n i key)"
  "ed_key_valid W (bid n)" "age_parse W s = (if s = [] then None else Some s)"
  "ed_sign W = ex_sign" "b64_encode W b = ex_encode b"
  by (simp_all add: W_def ex_text_def ex_decode_encode)

lemma ex_encode_frame [example_simps]: "ex_encode (ex_frame v n i key) = ex_text v n i key"
  by (simp add: ex_text_def)

lemma W_weak [example_simps]: "0 < n \<Longrightarrow> n < 256 \<Longrightarrow> \<not> ed_key_weak W (bid n)"
  by (simp add: W_def)

lemma W_decoders [example_simps]:
  "dec_chat W = by_index [(80, ex_chat)]" "dec_credential W = by_index ex_credentials"
  "dec_revocation W = by_index ex_revocations"
  "dec_genesis W = by_index [(50, ex_genesis 2 None), (60, ex_genesis 1 None), (70, ex_genesis 4 (Some ex_pin))]"
  "dec_config W = by_index ex_configs" "dec_recovery W = by_index ex_recoveries"
  "dec_policy W = by_index ex_policies" "dec_challenge W = by_index ex_challenges"
  "dec_intent W = by_index ex_intents" "dec_contact W = by_index ex_contacts"
  "dec_authority_proofs W = by_index [(90, ex_proof)]" "dec_command W = by_index ex_commands"
  "dec_delegation W = by_index ex_delegations" "dec_wcommand W = by_index [(94, ex_wcommand)]"
  "dec_receipt W = by_index [(96, ex_receipt)]" "dec_freshness W = by_index [(95, ex_freshness)]"
  "dec_ticket W = by_index [(97, ex_ticket)]"
  by (simp_all add: W_def)

lemma W_encoders [example_simps]:
  "ser_chat W m = ex_body 1 5 80"
  "ser_credential W c = (if dc_authorizing_device c = None then ex_body 1 1 41 else ex_body 2 1 42)"
  "ser_command W cmd = ex_body 1 5 82"
  by (simp_all add: W_def)

lemma by_index_object [example_simps]: "by_index table (ex_object v k i) = map_of table i"
  by (simp add: by_index_def ex_object_def json_index_def bt_get_def)

lemma ex_object_root [example_simps]:
  "json_index (ex_object v k i) ''root_public_key'' = String (encode_hex (bid (ex_root i)))"
  by (simp add: ex_object_def json_index_def bt_get_def)

lemma plain_byte: "ex_plain n \<Longrightarrow> unat (word_of_nat n :: byte) = n
   \<and> (word_of_nat n :: byte) \<notin> {34, 45, 91, 92, 93, 123, 125}"
proof -
  assume n: "ex_plain n"
  have "(word_of_nat n :: byte) \<noteq> word_of_nat m" if "n \<noteq> m" "m < 256" for m
    using that n byte_eq_iff [of n m] by (simp add: ex_plain_def)
  from this [of 34] this [of 45] this [of 91] this [of 92] this [of 93] this [of 123] this [of 125] n
  show ?thesis by (simp add: ex_plain_def unat_byte_of_nat)
qed

lemma W_strict_json [example_simps]:
  assumes "ex_plain v" "ex_plain k" "ex_plain i" "77 \<le> m"
  shows "strict_json W (ex_body v k i) m = Inr (ex_object v k i)"
proof -
  note p = plain_byte [OF assms(1)] plain_byte [OF assms(2)] plain_byte [OF assms(3)]
  have "scan_body 0 False False (ex_body v k i) = Inr ()"
    using p by (simp add: ex_body_def)
  moreover have "Option.bind (json_from_slice W (ex_body v k i)) strict_value = Some (ex_object v k i)"
    using p assms(1-3)
    by (simp add: W_def ex_json_def ex_body_def ex_object_def bt_contains_def bt_get_def MAX_INTEGER_def ex_plain_def)
  ultimately show ?thesis
    using assms(4) by (simp add: strict_json_def saturating_sub_def) (simp add: ex_body_def)
qed

lemma ex_supported_version:
  assumes "ex_supported v k"
  shows "supported_version (ex_object v k i)"
  using assms by (auto simp: supported_version_def ex_object_def bt_get_def ex_supported_def ex_kind_def)

lemma ex_frame_split:
  "ex_frame v k i key = ELO1 @ u32_to_be_bytes (length (ex_body v k i)) @ ex_body v k i
     @ ex_sign (bid key) (SIGN_DOMAIN @ ex_body v k i)"
  by (simp add: ex_frame_def length_ex_body)

lemma W_parse_bounded [example_simps]:
  assumes "ex_plain v" "ex_plain k" "ex_plain i" "ex_supported v k" "77 \<le> m"
  shows "parse_bounded W (ex_frame v k i key) m = Inr (ex_record v k i key)"
proof -
  have "parse_bounded W (ex_frame v k i key) m
      = Inr \<lparr>rec_bytes = ex_frame v k i key, rec_body = ex_object v k i\<rparr>"
    by (rule parse_bounded_frame [OF _ _ _ W_strict_json ex_supported_version ex_frame_split])
      (use assms in \<open>simp_all add: ex_body_def\<close>)
  then show ?thesis by (simp add: ex_record_def)
qed

lemma W_parse [example_simps]:
  "ex_plain v \<Longrightarrow> ex_plain k \<Longrightarrow> ex_plain i \<Longrightarrow> ex_supported v k \<Longrightarrow>
   parse W (ex_frame v k i key) = Inr (ex_record v k i key)"
  by (simp add: parse_def W_parse_bounded MAX_RECORD_def)

lemma W_record [example_simps]:
  "rec_bytes (ex_record v k i key) = ex_frame v k i key" "rec_body (ex_record v k i key) = ex_object v k i"
  "record_id W (ex_record v k i key) = bid i" "of_record_bytes W (ex_frame v k i key) = bid i"
  "body_bytes (ex_record v k i key) = ex_body v k i"
proof -
  show "rec_bytes (ex_record v k i key) = ex_frame v k i key" "rec_body (ex_record v k i key) = ex_object v k i"
    by (simp_all add: ex_record_def)
  show "of_record_bytes W (ex_frame v k i key) = bid i"
    unfolding of_record_bytes_def hash_def
    by (subst ex_hash_prefix [symmetric, of "ascii ''elo.now/record-id/v1'' @ [0]"]) (simp_all add: W_def ascii_def)
  then show "record_id W (ex_record v k i key) = bid i" by (simp add: record_id_def ex_record_def)
  show "body_bytes (ex_record v k i key) = ex_body v k i"
    by (simp add: body_bytes_def ex_record_def) (simp add: ex_frame_def ex_body_def)
qed

lemma W_root_key [example_simps]: "of_root_key W (bid n) = bid n"
  by (simp add: of_root_key_def hash_def W_def ex_hash_def ascii_def) (simp add: bid_def)

lemma W_signature [example_simps]:
  assumes "key < 256" "key' < 256"
  shows "verify_signature W (ex_record v k i key) (bid key') = (if key = key' then Inr () else Inl Signature)"
proof -
  have sig: "signature_bytes (ex_record v k i key) = ex_sign (bid key) (SIGN_DOMAIN @ ex_body v k i)"
    by (simp add: signature_bytes_def ex_record_def) (simp add: ex_frame_def ex_body_def)
  have "(replicate 32 (word_of_nat key :: byte) = replicate 32 (word_of_nat key')) = (key = key')"
    using bid_eq [OF assms] by (simp add: bid_def)
  then show ?thesis
    unfolding verify_signature_def sig W_record(5)
    by (simp add: W_def ex_sign_eq)
qed

lemma W_sign [example_simps]:
  assumes "ex_plain v" "ex_plain k" "ex_plain i" "ex_supported v k"
  shows "sign W (ex_body v k i) (bid key) = Inr (ex_record v k i key)"
proof -
  have "parse_bounded W (ELO1 @ u32_to_be_bytes (length (ex_body v k i)) @ ex_body v k i
      @ ex_sign (bid key) (SIGN_DOMAIN @ ex_body v k i)) MAX_RECORD = Inr (ex_record v k i key)"
    using W_parse_bounded [OF assms, of MAX_RECORD key] by (simp add: ex_frame_split MAX_RECORD_def)
  moreover have "length (ex_body v k i) = 5" by (simp add: ex_body_def)
  ultimately show ?thesis
    using assms by (simp add: sign_def sign_bounded_def W_strict_json MAX_RECORD_def require_def W_crypto)
qed

lemma ex_numbers [example_simps]: "ex_plain n \<longleftrightarrow> n < 256 \<and> n \<notin> set [34, 45, 91, 92, 93, 123, 125]"
  by (rule ex_plain_def)

lemmas ex_decide [example_simps] = ex_supported_def ex_root_def

end
