(* ===== verification/Example_Spaces.thy ===== *)
theory Example_Spaces
  imports Example_World
begin

text \<open>
  Devices and spaces of the example: the credentials verify, and three spaces reach the heads
  the other examples start from.
\<close>

subsection \<open>Devices\<close>

definition cred41 :: VerifiedCredential where
  "cred41 = \<lparr>vc_record = ex_record 1 1 41 1, vc_body = ex_device 1 11 ''age-a'' None, vc_key = bid 11,
     vc_delegation_depth = 0\<rparr>"

definition cred42 :: VerifiedCredential where
  "cred42 = \<lparr>vc_record = ex_record 2 1 42 11, vc_body = ex_device 1 12 ''age-b'' (Some (ex_text 1 1 41 1)),
     vc_key = bid 12, vc_delegation_depth = 1\<rparr>"

definition cred43 :: VerifiedCredential where
  "cred43 = \<lparr>vc_record = ex_record 1 1 43 1, vc_body = ex_device 1 13 ''age-c'' None, vc_key = bid 13,
     vc_delegation_depth = 0\<rparr>"

definition cred44 :: VerifiedCredential where
  "cred44 = \<lparr>vc_record = ex_record 1 1 44 2, vc_body = ex_device 2 21 ''age-d'' None, vc_key = bid 21,
     vc_delegation_depth = 0\<rparr>"

lemmas ex_devices = cred41_def cred42_def cred43_def cred44_def ex_device_def

lemma verify_root_devices [example_simps]:
  "verify_at_depth W (ex_frame 1 1 41 1) (bid 1) d = Inr cred41"
  "verify_at_depth W (ex_frame 1 1 43 1) (bid 1) d = Inr cred43"
  "verify_at_depth W (ex_frame 1 1 44 2) (bid 2) d = Inr cred44"
  by (simp_all add: verify_at_depth.simps decode_with_def verifying_key_def example_simps ex_credentials_def
      ex_devices MAX_CREDENTIAL_BYTES_def)

lemma verify_companion [example_simps]: "verify W (ex_frame 2 1 42 11) (bid 1) = Inr cred42"
  by (subst verify_def, subst verify_at_depth.simps)
    (simp add: decode_with_def verifying_key_def example_simps ex_credentials_def
      ex_devices MAX_CREDENTIAL_BYTES_def MAX_COMPANION_DEPTH_def MAX_ENCODED_CREDENTIAL_def)

lemma verify_devices [example_simps]:
  "verify W (ex_frame 1 1 41 1) (bid 1) = Inr cred41"
  "verify W (ex_frame 1 1 43 1) (bid 1) = Inr cred43"
  "verify W (ex_frame 1 1 44 2) (bid 2) = Inr cred44"
  by (simp_all add: verify_def example_simps)

lemma device_facts [example_simps]:
  "credential_id W cred41 = bid 41" "credential_id W cred42 = bid 42" "credential_id W cred43 = bid 43"
  "credential_id W cred44 = bid 44"
  "identity cred41 = bid 1" "identity cred42 = bid 1" "identity cred43 = bid 1" "identity cred44 = bid 2"
  "recipient cred41 = ''age-a''" "recipient cred42 = ''age-b''" "recipient cred43 = ''age-c''" "recipient cred44 = ''age-d''"
  "vc_key cred41 = bid 11" "vc_key cred42 = bid 12" "vc_key cred43 = bid 13" "vc_key cred44 = bid 21"
  "root_public_key_json cred41 = String (encode_hex (bid 1))"
  "root_public_key_json cred42 = String (encode_hex (bid 1))"
  "root_public_key_json cred43 = String (encode_hex (bid 1))"
  "root_public_key_json cred44 = String (encode_hex (bid 2))"
  "vc_record cred41 = ex_record 1 1 41 1" "vc_record cred42 = ex_record 2 1 42 11"
  "vc_record cred43 = ex_record 1 1 43 1" "vc_record cred44 = ex_record 1 1 44 2"
  by (simp_all add: credential_id_def root_public_key_json_def ex_devices example_simps)

subsection \<open>Spaces\<close>

definition ex_space :: "SignedRecord \<Rightarrow> SpaceGenesis \<Rightarrow> (RecordId \<times> VerifiedCredential) list \<Rightarrow>
  (RecordId \<times> SignedRecord \<times> StreamConfig) list \<Rightarrow> Authority" where
  "ex_space g body creds cs =
     \<lparr>au_genesis = g, au_body = body, au_stream = sid, au_credentials = creds, au_configs = cs,
      au_head = (if cs = [] then None else Some (fst (last cs))), au_forked = False,
      au_persisted_snapshot = None, au_checkpoint_evidence = None, au_cached_checkpoint = None\<rparr>"

definition ex_entry :: "nat \<Rightarrow> nat \<Rightarrow> nat \<Rightarrow> RecordId \<times> SignedRecord \<times> StreamConfig" where
  "ex_entry v i key = (bid i, ex_record v 4 i key, the (map_of ex_configs i))"

abbreviation space_a :: "(RecordId \<times> SignedRecord \<times> StreamConfig) list \<Rightarrow> Authority" where
  "space_a \<equiv> ex_space (ex_record 2 3 50 11) (ex_genesis 2 None) [(bid 41, cred41), (bid 44, cred44)]"

abbreviation space_b :: "(RecordId \<times> SignedRecord \<times> StreamConfig) list \<Rightarrow> Authority" where
  "space_b \<equiv> ex_space (ex_record 1 3 60 1) (ex_genesis 1 None) [(bid 41, cred41), (bid 43, cred43)]"

abbreviation space_c :: "(RecordId \<times> SignedRecord \<times> StreamConfig) list \<Rightarrow> Authority" where
  "space_c \<equiv> ex_space (ex_record 4 3 70 11) (ex_genesis 4 (Some ex_pin)) [(bid 41, cred41), (bid 44, cred44)]"

lemma new_space_a [example_simps]:
  "Authority_new W (ex_frame 2 3 50 11) (bid 50) (bid 1) cred41 sid
    = Inr (ex_space (ex_record 2 3 50 11) (ex_genesis 2 None) [(bid 41, cred41)] [])"
  by (simp add: Authority_new_def decode_with_def example_simps ex_genesis_def genesis_signature_def
      genesis_witness_def genesis_owner_ok_def verifying_key_def sorted_unique_def ex_space_def)

lemma new_space_b [example_simps]:
  "Authority_new W (ex_frame 1 3 60 1) (bid 60) (bid 1) cred41 sid
    = Inr (ex_space (ex_record 1 3 60 1) (ex_genesis 1 None) [(bid 41, cred41)] [])"
  by (simp add: Authority_new_def decode_with_def example_simps ex_genesis_def genesis_signature_def
      genesis_witness_def genesis_owner_ok_def verifying_key_def sorted_unique_def ex_space_def)

lemma pin_ok [example_simps]: "pin_validate W ex_pin = Inr ()" "pin_key W ex_pin = Inr (bid 31)"
  by (simp_all add: pin_validate_def pin_key_def public_key_def ex_pin_def W_def verifying_key_def MAX_INTEGER_def
      str_chars_def trim_def is_control_def is_whitespace_def)

lemma new_space_c [example_simps]:
  "Authority_new W (ex_frame 4 3 70 11) (bid 70) (bid 1) cred41 sid
    = Inr (ex_space (ex_record 4 3 70 11) (ex_genesis 4 (Some ex_pin)) [(bid 41, cred41)] [])"
  by (simp add: Authority_new_def decode_with_def example_simps ex_genesis_def genesis_signature_def
      genesis_witness_def genesis_owner_ok_def verifying_key_def sorted_unique_def ex_space_def)

subsection \<open>Configurations\<close>

lemma ex_space_sel [example_simps]:
  "au_genesis (ex_space g body creds cs) = g" "au_body (ex_space g body creds cs) = body"
  "au_stream (ex_space g body creds cs) = sid" "au_credentials (ex_space g body creds cs) = creds"
  "au_configs (ex_space g body creds cs) = cs" "au_forked (ex_space g body creds cs) = False"
  "au_head (ex_space g body creds cs) = (if cs = [] then None else Some (fst (last cs)))"
  "au_checkpoint_evidence (ex_space g body creds cs) = None"
  "au_cached_checkpoint (ex_space g body creds cs) = None"
  "is_owner_managed (ex_space g body creds cs) = (ge_v body = 2 \<or> ge_v body = 4)"
  "witness_pin (ex_space g body creds cs) = ge_witness body"
  "space W (ex_space (ex_record v k i key) body creds cs) = bid i"
  by (simp_all add: ex_space_def is_owner_managed_def witness_pin_def space_def example_simps)

lemma ex_space_config [example_simps]:
  "config (ex_space g body creds cs) i = ok_or (map_option snd (map_of cs i)) Authority_err"
  "credential (ex_space g body creds cs) i = ok_or (map_of creds i) Authority_err"
  by (simp_all add: config_def credential_def ex_space_def bt_get_def)

lemma add_device_a [example_simps]:
  "add_credential W cred44 (ex_space g body [(bid 41, cred41)] []) = ex_space g body [(bid 41, cred41), (bid 44, cred44)] []"
  "add_credential W cred43 (ex_space g body [(bid 41, cred41)] []) = ex_space g body [(bid 41, cred41), (bid 43, cred43)] []"
  by (simp_all add: add_credential_def example_simps) (simp_all add: ex_space_def)

lemma capability_order [example_simps]:
  "Read < Post" "Post < ShareHistory" "ShareHistory < Manage"
  by (simp_all add: less_Capability_def)

lemmas ex_check_simps =
  check_config_def decode_with_def config_signature_def validate_config_def prior_sequence_def
  validate_controller_transition_def member_step_def credential_step_def sorted_unique_def
  owner_members_def owner_step_def bs_extend_def primary_protected_def primary_owner_identity_def
  MAX_INTEGER_def MAX_CHAT_MEMBERS_def MAX_CHAT_CREDENTIALS_def config_operations_def ex_configs_def
  ex_config_def ex_member_def ex_genesis_def ex_entry_def space_def managers_def

lemmas ex_head_simps =
  apply_config_def bt_contains_def bt_get_def select_controller_head_def latest_config_def Let_def
  recovery_records_def ex_space_def is_owner_managed_def ex_genesis_def ex_entry_def ex_configs_def ex_config_def
  embedded_def decode_with_def ex_recoveries_def

lemma apply_51 [example_simps]:
  "apply_config W (space_a []) (ex_record 2 4 51 11) = (space_a [ex_entry 2 51 11], Inr Applied)"
proof -
  have "check_config W (space_a []) (ex_record 2 4 51 11) = Inr (Some (the (map_of ex_configs 51)))"
    by (simp add: ex_check_simps example_simps)
  then show ?thesis by (simp add: ex_head_simps example_simps)
qed

lemma apply_52 [example_simps]:
  "apply_config W (space_a [ex_entry 2 51 11]) (ex_record 2 4 52 11)
    = (space_a [ex_entry 2 51 11, ex_entry 2 52 11], Inr Applied)"
proof -
  have "check_config W (space_a [ex_entry 2 51 11]) (ex_record 2 4 52 11) = Inr (Some (the (map_of ex_configs 52)))"
    by (simp add: ex_check_simps example_simps bt_get_def)
  then show ?thesis by (simp add: ex_head_simps example_simps)
qed

lemma apply_61 [example_simps]:
  "apply_config W (space_b []) (ex_record 1 4 61 11) = (space_b [ex_entry 1 61 11], Inr Applied)"
proof -
  have "check_config W (space_b []) (ex_record 1 4 61 11) = Inr (Some (the (map_of ex_configs 61)))"
    by (simp add: ex_check_simps example_simps embedded_def)
  then show ?thesis by (simp add: ex_head_simps example_simps)
qed

lemma apply_63 [example_simps]:
  "apply_config W (space_b [ex_entry 1 61 11]) (ex_record 1 4 63 13)
    = (space_b [ex_entry 1 61 11, ex_entry 1 63 13], Inr Applied)"
proof -
  have "check_config W (space_b [ex_entry 1 61 11]) (ex_record 1 4 63 13) = Inr (Some (the (map_of ex_configs 63)))"
    by (simp add: ex_check_simps example_simps bt_get_def embedded_def validate_recovery_def ex_recoveries_def
        chain_at_def walk_def map_filter_def initial_controller_def controller_root_def verifying_key_def
        replace_devices_def owner_devices_def ancestor_controls_def)
  then show ?thesis by (simp add: ex_head_simps example_simps)
qed

lemma apply_71 [example_simps]:
  "apply_config W (space_c []) (ex_record 4 4 71 11) = (space_c [ex_entry 4 71 11], Inr Applied)"
proof -
  have "check_config W (space_c []) (ex_record 4 4 71 11) = Inr (Some (the (map_of ex_configs 71)))"
    by (simp add: ex_check_simps example_simps)
  then show ?thesis by (simp add: ex_head_simps example_simps)
qed

subsection \<open>A witnessed admission\<close>

lemma policy_72 [example_simps]:
  "verify_witness_invitation W (space_c [ex_entry 4 71 11]) (ex_record 1 5 72 11) 150 = Inr (the (map_of ex_policies 72))"
  by (simp add: verify_witness_invitation_def decode_with_def ex_policies_def public_key_def verifying_key_def
      example_simps ex_genesis_def ex_pin_def MAX_INTEGER_def witness_owner_at_def can_manage_def head_def
      ex_entry_def ex_configs_def ex_config_def witness_ancestry_def walk_def)

lemma contact_75 [example_simps]:
  "verify_contact W (ex_record 1 5 75 21) cred44 0 = Inr (the (map_of ex_contacts 75))"
  by (simp add: verify_contact_def decode_with_def ex_contacts_def example_simps name_valid_def str_chars_def trim_def
      is_control_def is_whitespace_def)

lemma decoded_texts [example_simps]:
  assumes "ex_plain v" "ex_plain k" "ex_plain i" "ex_supported v k"
  shows "witness_decode W (ex_text v k i key) = Inr (ex_record v k i key)"
  using assms by (simp add: witness_decode_def MAX_RECORD_def example_simps)

definition ex_admitted :: StreamConfig where
  "ex_admitted = (ex_config 4 70 2 (Some (bid 71)) 41
     [ex_member 1 owner_caps [bid 41] False, ex_member 2 [Read, Post] [bid 44] True] [bid 41]
     ''invite.approved'' (Some (bid 74)))
     \<lparr>sc_nonce := take 32 nonce32, sc_witness_evidence := Some (Admission_evidence ex_evidence)\<rparr>"

definition ex_adm :: ValidatedAdmission where
  "ex_adm = \<lparr>va_candidate = cred44, va_policy = the (map_of ex_policies 72), va_policy_id = bid 72,
     va_challenge_nonce = nonce32, va_request_id = bid 74, va_config_nonce = take 32 nonce32,
     va_admitted_at_ms = 150, va_approval = None, va_evidence = Admission_evidence ex_evidence\<rparr>"

lemma ex_genesis_sel [example_simps]:
  "ge_v (ex_genesis v pin) = v" "ge_witness (ex_genesis v pin) = pin"
  by (simp_all add: ex_genesis_def)

lemma admission_finish:
  "finish_witness_admission W (space_c [ex_entry 4 71 11]) ex_adm = Inr ex_admitted"
  by (simp add: finish_witness_admission_def ex_adm_def ex_policies_def example_simps head_def
      ex_entry_def ex_configs_def ex_config_def ex_member_def witness_ancestry_def walk_def last_removal_def
      ancestor_step_def device_conflicts_def prior_admission_def check_approval_def admitted_members_def
      find_member_def checked_add_def U64_MAX_def ex_admitted_def Let_def)

lemma admission_evidence [example_simps]:
  "witness_admission_config W (space_c [ex_entry 4 71 11]) ex_evidence = Inr ex_admitted"
proof -
  have "witness_admission_config W (space_c [ex_entry 4 71 11]) ex_evidence
      = finish_witness_admission W (space_c [ex_entry 4 71 11]) ex_adm"
    by (simp add: witness_admission_config_def ex_evidence_def example_simps MAX_INTEGER_def decode_with_def
        ex_challenges_def ex_intents_def public_key_def verifying_key_def
        MAX_CHALLENGE_MS_def admission_approval_def)
      (simp add: ex_adm_def ex_policies_def ex_pin_def ex_evidence_def verifying_key_def example_simps)
  then show ?thesis by (simp add: admission_finish)
qed

lemma hex_take_nonce: "hex 16 (take 32 nonce32) = Inr (replicate 16 7)"
proof -
  have split: "replicate 32 (7 :: byte) = replicate 16 7 @ replicate 16 7" by (simp flip: replicate_add)
  have "nonce32 = encode_hex (replicate 16 7) @ encode_hex (replicate 16 7)"
    unfolding nonce32_def split by (simp add: encode_hex_def)
  moreover have "length (encode_hex (replicate 16 7)) = 32" by simp
  ultimately have "take 32 nonce32 = encode_hex (replicate 16 7)" by (metis append_eq_conv_conj)
  then show ?thesis by (simp add: hex_def)
qed

lemma apply_76 [example_simps]:
  "apply_config W (space_c [ex_entry 4 71 11]) (ex_record 4 4 76 31)
    = (space_c [ex_entry 4 71 11, ex_entry 4 76 31], Inr Applied)"
proof -
  have at: "(space_c [ex_entry 4 71 11])\<lparr>au_head := Some (bid 71)\<rparr> = space_c [ex_entry 4 71 11]"
    by (simp add: ex_space_def ex_entry_def)
  have sel: "sc_previous_config_id ex_admitted = Some (bid 71)" "sc_recovery ex_admitted = None"
    "ca_operation (sc_action ex_admitted) = ''invite.approved''" "sc_controller_credential_id ex_admitted = bid 41"
    "sc_witness_evidence ex_admitted = Some (Admission_evidence ex_evidence)"
    by (simp_all add: ex_admitted_def ex_config_def)
  have "head (space_c [ex_entry 4 71 11]) = Inr (the (map_of ex_configs 71))"
    by (simp add: head_def ex_entry_def example_simps)
  moreover have "sc_controller_credential_id (the (map_of ex_configs 71)) = bid 41"
    by (simp add: ex_configs_def ex_config_def)
  ultimately have "validate_witness_transition W (space_c [ex_entry 4 71 11]) ex_admitted = Inr ()"
    by (simp add: validate_witness_transition_def sel at Let_def admission_evidence same_config_def)
  then have "validate_controller_transition W (space_c [ex_entry 4 71 11]) ex_admitted = Inr ()"
    by (simp add: validate_controller_transition_def sel example_simps primary_protected_def
        primary_owner_identity_def)
      (simp add: ex_entry_def ex_configs_def ex_admitted_def ex_config_def managers_def ex_member_def
        find_member_def bs_extend_def ex_genesis_def example_simps)
  moreover have "map_of ex_configs 76 = Some ex_admitted" by (simp add: ex_configs_def ex_admitted_def)
  moreover have "validate_config W (space_c [ex_entry 4 71 11]) ex_admitted = Inr ()"
    "config_signature W (space_c [ex_entry 4 71 11]) (ex_record 4 4 76 31) ex_admitted = Inr ()"
    "prior_sequence (space_c [ex_entry 4 71 11]) ex_admitted = Inr (Some 1)" "sc_sequence ex_admitted = 2"
    by (simp_all add: ex_check_simps example_simps bt_get_def ex_admitted_def hex_take_nonce)
  ultimately have
    "check_config W (space_c [ex_entry 4 71 11]) (ex_record 4 4 76 31) = Inr (Some (the (map_of ex_configs 76)))"
    by (simp add: check_config_def decode_with_def example_simps)
  then show ?thesis by (simp add: ex_head_simps example_simps)
qed

end
