(* ===== verification/Witnesses.thy ===== *)
theory Witnesses
  imports Example_Spaces
begin

text \<open>
  Each property with a hypothesis, applied to the example: the hypothesis holds there and the
  property gives its conclusion for concrete records, spaces and calls.
\<close>

subsection \<open>Records and devices\<close>

lemma W_signing_correct: "signing_correct W"
  by (simp add: signing_correct_def W_def)

theorem sign_parse_roundtrip_witness:
  "\<exists>r. sign_bounded W (ex_body 1 5 80) (bid 11) 1024 = Inr r \<and> parse_bounded W (rec_bytes r) 1024 = Inr r
     \<and> body_bytes r = ex_body 1 5 80 \<and> verify_signature W r (bid 11) = Inr ()"
proof -
  have "strict_json W (ex_body 1 5 80) 1024 = Inr (ex_object 1 5 80) \<and> supported_version (ex_object 1 5 80)"
    by (simp add: example_simps ex_supported_version)
  with sign_parse_roundtrip [OF W_signing_correct, of 1024 "ex_body 1 5 80" "bid 11"] show ?thesis
    by (auto simp: W_crypto)
qed

lemma ex_timestamp: "valid_timestamp ''2024-02-29T23:59:59Z''"
  by (simp add: valid_timestamp_def timestamp_separator_def is_ascii_digit_def parse_decimal_def days_in_month_def
      Let_def)

lemma ex_chat_valid: "ChatMessage_validate W ex_chat = Inr ()"
  by (simp add: ChatMessage_validate_def ex_chat_def kind_malformed_def Let_def valid_mentions_def edit_mentions_def
      sorted_unique_def MAX_CHAT_MEMBERS_def MAX_CHAT_CREDENTIALS_def MAX_INTEGER_def ex_timestamp)

lemma ex_revocation: "verify_request W (ex_record 2 2 47 11) cred41 = Inr cred42"
  "revocation_verify W (ex_record 2 2 47 11) = Inr cred42"
  by (simp_all add: verify_request_def revocation_verify_def verify_inner_def decode_with_def ex_revocations_def
      ex_credentials_def ex_device_def verifying_key_def revocation_signature_def MAX_ENCODED_CREDENTIAL_def
      MAX_CREDENTIAL_BYTES_def example_simps)

definition ex_tombstones :: Revocations where
  "ex_tombstones = \<lparr>rv_files = [(record_file (bid 42), ex_frame 2 2 47 11, 5)],
     rv_budget = \<lparr>identities = [(bid 1, [(bid 42, 5)])], total = 1\<rparr>\<rparr>"

lemma ex_retire:
  "Revocations_insert W \<lparr>rv_files = [], rv_budget = Budget_default\<rparr> (ex_record 2 2 47 11) 5 None = Inr ex_tombstones"
  by (simp add: Revocations_insert_def ex_revocation example_simps Revocations_get_def file_content_def
      Budget_default_def MAX_REVOKED_DEVICES_def ex_tombstones_def Budget_record_def budget_entries_def bt_get_def)

subsection \<open>Authorities\<close>

abbreviation head_a :: Authority where
  "head_a \<equiv> space_a [ex_entry 2 51 11, ex_entry 2 52 11]"

abbreviation head_b :: Authority where
  "head_b \<equiv> space_b [ex_entry 1 61 11, ex_entry 1 63 13]"

definition run_a :: "authority_input list" where
  "run_a = [Credential_in cred44, Config_in (ex_record 2 4 51 11), Config_in (ex_record 2 4 52 11)]"

lemma run_a: "run_steps (authority_step W) (ex_space (ex_record 2 3 50 11) (ex_genesis 2 None) [(bid 41, cred41)] []) run_a
    = head_a"
  by (simp add: run_a_def example_simps)

lemma run_a_ok: "authority_ok W head_a"
  using authority.run_inv [OF Authority_new_ok [OF new_space_a], of run_a] by (simp add: run_a)

theorem unforked_space_linear_witness:
  "\<exists>xs. witness_ancestry head_a = Inr xs \<and> map (\<lambda>e. sc_sequence (snd e)) xs = [2, 1]"
proof -
  have "map (\<lambda>e. sc_sequence (snd e)) xs = rev [1..<Suc (length (au_configs head_a))] \<longleftrightarrow>
      map (\<lambda>e. sc_sequence (snd e)) xs = [2, 1]" for xs :: "(RecordId \<times> StreamConfig) list"
    by (simp add: example_simps upt_rec numeral_2_eq_2 One_nat_def)
  with unforked_space_linear [OF new_space_a run_a [symmetric]] show ?thesis
    by (auto simp: example_simps)
qed

theorem fork_permanent_witness:
  "bt_get (au_configs (run_steps (authority_step W) head_a [Config_in (ex_record 2 4 53 11)])) (bid 51)
    = Some (snd (ex_entry 2 51 11))"
proof -
  have "authority_ok W head_a" by (rule run_a_ok)
  from fork_permanent [OF this, of "[Config_in (ex_record 2 4 53 11)]"] show ?thesis
    by (auto simp: bt_get_def example_simps ex_entry_def)
qed

lemma W_config_value: "config_value_faithful W"
  using config_value_inj by (simp add: config_value_faithful_def W_def)

theorem creator_protected_witness:
  "config_value_faithful W \<and> managers (the (map_of ex_configs 51)) \<noteq> managers (the (map_of ex_configs 52))
   \<and> (\<exists>signer. credential (space_a [ex_entry 2 51 11]) (bid 41) = Inr signer \<and> identity signer = bid 1
        \<and> verify_signature W (ex_record 2 4 52 11) (vc_key signer) = Inr ())"
proof -
  have m: "managers (the (map_of ex_configs 51)) \<noteq> managers (the (map_of ex_configs 52))"
    by (simp add: managers_def ex_configs_def ex_config_def ex_member_def bs_extend_def)
  have "snd (apply_config W (space_a [ex_entry 2 51 11]) (ex_record 2 4 52 11)) \<in> {Inr Applied, Inr Historical, Inr Forked}"
    "is_owner_managed (space_a [ex_entry 2 51 11])"
    "dec_config W (rec_body (ex_record 2 4 52 11)) = Some (the (map_of ex_configs 52))"
    "sc_previous_config_id (the (map_of ex_configs 52)) = Some (bid 51)"
    "config (space_a [ex_entry 2 51 11]) (bid 51) = Inr (the (map_of ex_configs 51))"
    by (simp_all add: apply_52) (simp_all add: example_simps ex_configs_def ex_config_def ex_entry_def)
  note c = creator_protected [OF W_config_value this disjI1 [OF m]]
  have "witness_pin (space_a [ex_entry 2 51 11]) = None" "sc_controller_credential_id (the (map_of ex_configs 52)) = bid 41"
    "ge_issuer_identity (au_body (space_a [ex_entry 2 51 11])) = bid 1"
    by (simp_all add: example_simps ex_genesis_def ex_configs_def ex_config_def)
  with c W_config_value m show ?thesis by simp
qed

theorem witness_admits_one_device_witness:
  "config_value_faithful W
   \<and> (\<exists>policy_record policy candidate. admitted_by W (space_c [ex_entry 4 71 11]) (Admission_evidence ex_evidence) policy_record policy candidate
     \<and> adds_one_device W candidate (the (map_of ex_configs 71)) ex_admitted)"
proof -
  have "snd (apply_config W (space_c [ex_entry 4 71 11]) (ex_record 4 4 76 31)) \<in> {Inr Applied, Inr Historical, Inr Forked}"
    "is_owner_managed (space_c [ex_entry 4 71 11])" "witness_pin (space_c [ex_entry 4 71 11]) = Some ex_pin"
    "dec_config W (rec_body (ex_record 4 4 76 31)) = Some ex_admitted" "sc_sequence ex_admitted > 1"
    "sc_witness_evidence ex_admitted \<noteq> Some (OwnerProposal proposal)" for proposal
    by (simp_all add: apply_76) (simp_all add: example_simps ex_configs_def ex_admitted_def ex_config_def)
  from witness_admits_one_device [OF W_config_value this] obtain p parent ev policy_record policy candidate where
    a: "sc_previous_config_id ex_admitted = Some p" "config (space_c [ex_entry 4 71 11]) p = Inr parent"
      "sc_witness_evidence ex_admitted = Some ev"
      "admitted_by W ((space_c [ex_entry 4 71 11])\<lparr>au_head := Some p\<rparr>) ev policy_record policy candidate"
      "adds_one_device W candidate parent ex_admitted" by blast
  have "p = bid 71" "ev = Admission_evidence ex_evidence" using a(1,3) by (simp_all add: ex_admitted_def ex_config_def)
  moreover have "parent = the (map_of ex_configs 71)" using a(2) calculation(1) by (simp add: example_simps ex_entry_def)
  moreover have "(space_c [ex_entry 4 71 11])\<lparr>au_head := Some (bid 71)\<rparr> = space_c [ex_entry 4 71 11]"
    by (simp add: ex_space_def ex_entry_def)
  ultimately show ?thesis using a(4,5) W_config_value by auto
qed

subsection \<open>Chat\<close>

lemma ex_recipients: "expected_recipients W head_a (bid 52) (bid 41) = Inr ([bid 1, bid 2], [bid 41, bid 44])"
  by (simp add: expected_recipients_def example_simps ex_entry_def ex_configs_def ex_config_def ex_member_def
      bs_extend_def)

lemma ex_chat_record [example_simps]: "chat W (ex_record 1 5 80 11) = Inr ex_chat"
  by (simp add: chat_def decode_with_def example_simps MAX_RECORD_def ex_chat_valid)

lemma ex_chat_sel [example_simps]:
  "cm_issuer_credential ex_chat = bid 41" "cm_issuer_identity ex_chat = bid 1" "cm_config_id ex_chat = bid 52"
  "cm_space_id ex_chat = bid 50" "cm_stream_id ex_chat = sid" "cm_access ex_chat = None"
  "cm_audience ex_chat = [bid 1, bid 2]" "cm_recipient_credentials ex_chat = [bid 41, bid 44]"
  "cm_logical_time ex_chat = 3"
  by (simp_all add: ex_chat_def)

lemma ex_historical: "verify_historical W (Some 1000) head_a (ex_record 1 5 80 11) = Inr ex_chat"
proof -
  have "credential head_a (bid 41) = Inr cred41" "has head_a (bid 52) (bid 1) Post" "space W head_a = bid 50"
    "au_stream head_a = sid"
    by (simp_all add: has_def example_simps ex_entry_def ex_configs_def ex_config_def ex_member_def)
  moreover have "verify_chat W cred41 (ex_record 1 5 80 11) = Inr ex_chat"
    by (simp add: verify_chat_def example_simps)
  moreover have "current_message_time_is_valid (Some 1000) 3"
    by (simp add: current_message_time_is_valid_def valid_message_time_at_def MAX_INTEGER_def saturating_add_def
        U64_MAX_def MAX_MESSAGE_CLOCK_SKEW_MS_def)
  ultimately show ?thesis
    by (simp add: verify_historical_def ex_chat_record ex_chat_sel ex_recipients)
qed

lemma ex_admission:
  "rcp \<in> {bid 41, bid 44} \<Longrightarrow> admission W (Some 1000) head_a (ex_record 1 5 80 11) rcp False = Inr Accepted"
proof -
  assume "rcp \<in> {bid 41, bid 44}"
  moreover have "bt_contains (au_configs head_a) (bid 52)" "au_head head_a = Some (bid 52)" "\<not> au_forked head_a"
    "space W head_a = bid 50" "au_stream head_a = sid"
    by (simp_all add: example_simps bt_contains_def bt_get_def ex_entry_def)
  ultimately show ?thesis
    by (auto simp: admission_def ex_chat_record ex_chat_sel ex_historical)
qed

theorem admission_accepted_witness:
  "\<exists>m own h member. chat W (ex_record 1 5 80 11) = Inr m \<and> head head_a = Inr h \<and> credential head_a (bid 41) = Inr own
     \<and> verify_signature W (ex_record 1 5 80 11) (vc_key own) = Inr ()
     \<and> member \<in> set (sc_members h) \<and> bid 41 \<in> set (me_credential_ids member) \<and> Post \<in> set (me_capabilities member)
     \<and> addressed_to h (bid 41) [bid 1, bid 2] [bid 41, bid 44] \<and> bid 44 \<in> set (cm_recipient_credentials m)"
proof -
  have "admission W (Some 1000) head_a (ex_record 1 5 80 11) (bid 44) False = Inr Accepted" by (rule ex_admission) simp
  with admission_accepted [OF new_space_a run_a [symmetric], of "Some 1000" "ex_record 1 5 80 11" "bid 44"]
  obtain m own h member where "chat W (ex_record 1 5 80 11) = Inr m" "head head_a = Inr h"
    "credential head_a (cm_issuer_credential m) = Inr own" "verify_signature W (ex_record 1 5 80 11) (vc_key own) = Inr ()"
    "member \<in> set (sc_members h)" "cm_issuer_credential m \<in> set (me_credential_ids member)" "Post \<in> set (me_capabilities member)"
    "addressed_to h (cm_issuer_credential m) (cm_audience m) (cm_recipient_credentials m)" "bid 44 \<in> set (cm_recipient_credentials m)"
    by blast
  moreover from this(1) have "m = ex_chat" by (simp add: ex_chat_record)
  ultimately show ?thesis
    by (intro exI [of _ ex_chat] exI [of _ own] exI [of _ h] exI [of _ member]) (simp add: ex_chat_sel)
qed

lemma ex_chat_encodes: "chat_encodes W ex_chat"
proof -
  have "strict_json W (ser_chat W ex_chat) MAX_RECORD = Inr (ex_object 1 5 80)" "supported_version (ex_object 1 5 80)"
    "dec_chat W (ex_object 1 5 80) = Some ex_chat"
    by (simp_all add: MAX_RECORD_def example_simps ex_supported_version)
  then show ?thesis unfolding chat_encodes_def by blast
qed

theorem prepared_chat_accepted_witness:
  "\<exists>r. prepare_chat W (Some 1000) head_a ex_chat (bid 11) = Inr r \<and> chat W r = Inr ex_chat
     \<and> admission W (Some 1000) head_a r (bid 44) False = Inr Accepted"
proof -
  let ?h = "the (map_of ex_configs 52)"
  have facts: "\<not> au_forked head_a" "au_head head_a = Some (bid 52)" "config head_a (bid 52) = Inr ?h"
    "credential head_a (cm_issuer_credential ex_chat) = Inr cred41" "vc_key cred41 = ed_public W (bid 11)"
    by (simp_all add: example_simps ex_entry_def device_facts W_crypto)
  have member: "ex_member 1 owner_caps [bid 41] False \<in> set (sc_members ?h)"
    "me_identity_id (ex_member 1 owner_caps [bid 41] False) = identity cred41"
    "cm_issuer_credential ex_chat \<in> set (me_credential_ids (ex_member 1 owner_caps [bid 41] False))"
    "Post \<in> set (me_capabilities (ex_member 1 owner_caps [bid 41] False))"
    by (simp_all add: ex_configs_def ex_config_def ex_member_def ex_chat_sel device_facts)
  have "expected_recipients W head_a (bid 52) (cm_issuer_credential ex_chat) = Inr ([bid 1, bid 2], [bid 41, bid 44])"
    by (simp add: ex_chat_sel ex_recipients)
  then have addressed: "addressed_to ?h (cm_issuer_credential ex_chat) [bid 1, bid 2] [bid 41, bid 44]"
    unfolding expected_recipients_iff [OF run_a_ok facts(3,4)] by blast
  have upd: "ex_chat = ex_chat\<lparr>cm_space_id := space W head_a, cm_stream_id := au_stream head_a, cm_config_id := bid 52,
      cm_issuer_identity := identity cred41, cm_audience := [bid 1, bid 2], cm_recipient_credentials := [bid 41, bid 44]\<rparr>"
    by (simp add: example_simps device_facts ex_chat_def)
  have ok: "secret_allowed head_a ex_chat" "current_message_time_is_valid (Some 1000) (cm_logical_time ex_chat)"
    by (simp_all add: secret_allowed_def ex_chat_sel current_message_time_is_valid_def valid_message_time_at_def MAX_INTEGER_def
        saturating_add_def U64_MAX_def MAX_MESSAGE_CLOCK_SKEW_MS_def)
  from prepared_chat_accepted [OF new_space_a run_a [symmetric] W_signing_correct facts member addressed upd ex_chat_valid
      ex_chat_encodes ok] ok(2)
  show ?thesis by auto
qed

subsection \<open>Proofs and snapshots\<close>

lemma ex_self_rooted: "self_rooted W (ex_frame 1 1 41 1) = Inr cred41" "self_rooted W (ex_frame 1 1 44 2) = Inr cred44"
  by (simp_all add: self_rooted_def example_simps verifying_key_def)

lemma ex_apply_proof:
  assumes "good Applied"
  shows "apply_encoded W good (space_a []) [ex_text 2 4 51 11, ex_text 2 4 52 11] = Inr head_a"
  using assms by (simp add: example_simps)

lemma ex_add_credentials [example_simps]:
  "add_credentials W [cred41, cred44] (ex_space g body [(bid 41, cred41)] []) = ex_space g body [(bid 41, cred41), (bid 44, cred44)] []"
  by (simp add: add_credentials_def add_credential_def example_simps) (simp add: ex_space_def)

lemma ex_genesis_controller:
  "ge_controller_credential_id (ex_genesis v pin) = bid 41" "ge_issuer_identity (ex_genesis v pin) = bid 1"
  "ge_owners (ex_genesis v pin) = [\<lparr>ow_identity_id = bid 1, ow_root_public_key = encode_hex (bid 1)\<rparr>]"
  by (simp_all add: ex_genesis_def)

lemma ex_proof_verifies: "verify_with_witness W ex_proof (bid 50) sid None = Inr head_a"
proof -
  have "check_size ex_proof = Inr ()"
    by (simp add: check_size_def ex_proof_def MAX_PROOF_BYTES_def saturating_add_def U64_MAX_def)
  moreover have "collect_credentials W [] [ex_text 1 1 41 1, ex_text 1 1 44 2] = Inr [(bid 41, cred41), (bid 44, cred44)]"
    by (simp add: example_simps ex_self_rooted bt_contains_def bt_get_def)
  moreover have "head head_a = Inr (the (map_of ex_configs 52))"
    by (simp add: head_def example_simps ex_entry_def)
  ultimately show ?thesis
    by (simp add: verify_with_witness_def ex_proof_def decode_with_def example_simps apply_proof_def ex_apply_proof
        ex_genesis_controller verifying_key_def bt_get_def)
qed

lemma ex_snapshot:
  "open_snapshot W [] (Some (ex_body 1 5 90)) (bid 50) (bid 1) sid
    = Inr (head_a\<lparr>au_persisted_snapshot := Some (of_ciphertext W [])\<rparr>)"
  by (simp add: open_snapshot_def example_simps ex_proof_def decode_with_def ex_self_rooted ex_apply_proof
      ex_genesis_controller)

definition run_b :: "authority_input list" where
  "run_b = [Credential_in cred43, Config_in (ex_record 1 4 61 11), Config_in (ex_record 1 4 63 13)]"

lemma run_b_ok: "authority_ok W head_b"
proof -
  have "run_steps (authority_step W) (ex_space (ex_record 1 3 60 1) (ex_genesis 1 None) [(bid 41, cred41)] []) run_b
      = head_b"
    by (simp add: run_b_def example_simps)
  with authority.run_inv [OF Authority_new_ok [OF new_space_b], of run_b] show ?thesis by simp
qed

lemma ex_checkpoint:
  "\<exists>cp. sign_checkpoint_body W head_b = Inr cp \<and> cp_sequence cp = 2 \<and> cp_ancestry cp = [bid 61, bid 63]"
proof -
  have "walk (\<lambda>id' _. Inr id') head_b (au_head head_b) = Inr [bid 63, bid 61]"
    "controller_recovery_chain W head_b = Inr [ex_record 1 5 62 1]"
    "head head_b = Inr (the (map_of ex_configs 63))" "controller head_b = Inr cred43" "au_head head_b = Some (bid 63)"
    by (simp_all add: walk_def controller_recovery_chain_def chain_at_def controller_def head_def example_simps ex_entry_def
        ex_configs_def ex_config_def embedded_def map_filter_def)
  then show ?thesis by (simp add: sign_checkpoint_body_def) (simp add: ex_configs_def ex_config_def)
qed

subsection \<open>Calls\<close>

lemma ex_members [example_simps]: "require_member head_a (bid 41) = Inr (bid 1)" "require_member head_a (bid 44) = Inr (bid 2)"
  by (simp_all add: require_member_def head_def example_simps ex_entry_def ex_configs_def ex_config_def ex_member_def)

lemma ex_credential_44: "credential head_a (bid 44) = Inr cred44" "space W head_a = bid 50" "au_stream head_a = sid"
  "au_head head_a = Some (bid 52)" "credential_id W cred44 = bid 44"
  by (simp_all add: example_simps ex_entry_def)

lemma ex_times: "check_time 100 160 120 = Inr ()"
  by (simp add: check_time_def saturating_add_def U64_MAX_def COMMAND_TTL_def)

subsection \<open>A call between the two members\<close>

definition ex_rnd :: "bytes option \<times> bytes option" where
  "ex_rnd = (Some (replicate 16 7), None)"

definition ex_scope :: Scope where
  "ex_scope = Scope (bid 50) (CallScope (bid 50) sid)"

definition ex_person :: "nat \<Rightarrow> nat \<Rightarrow> nat \<Rightarrow> IdentityId \<times> Participant" where
  "ex_person i dev seen = (bid i, new_participant (bid i) (bid dev) seen)"

definition ex_call :: "(IdentityId \<times> Participant) list \<Rightarrow> nat \<Rightarrow> ActiveCall" where
  "ex_call ps epoch =
     \<lparr>ac_call_id = nonce16, ac_scope = ex_scope, ac_kind = Group, ac_initial_media = Audio,
      ac_started_at = 100, ac_started_by = bid 1, ac_phase = Active, ac_ring_expires_at = 160, ac_answered_at = None,
      ac_invitations = [], ac_ready = False, ac_ready_at = None, ac_config_id = bid 52, ac_participants = ps,
      ac_key_epoch = epoch, ac_empty_since = None\<rparr>"

definition ex_registry :: "ActiveCall list \<Rightarrow> Registry" where
  "ex_registry cs = \<lparr>rg_limits = Limits_default, rg_rooms = map (Pair ex_scope) cs\<rparr>"

abbreviation "call_1 \<equiv> ex_call [ex_person 1 41 100] 1"
abbreviation "call_2 \<equiv> ex_call [ex_person 1 41 100, ex_person 2 44 110] 2"

lemma ex_new: "Registry_new Limits_default = Inr (ex_registry [])"
  by (simp add: Registry_new_def Limits_default_def ex_registry_def)

lemma ex_command_sel:
  "co_operation (ex_command d op) = op" "co_credential_id (ex_command d op) = bid d"
  "co_config_id (ex_command d op) = bid 52" "co_scope (ex_command d op) = CallScope (bid 50) sid"
  "scope_of (ex_command d op) = ex_scope"
  by (simp_all add: ex_command_def scope_of_def ex_scope_def)

lemma ex_head_a: "head head_a = Inr (the (map_of ex_configs 52))" "sc_chat_kind (the (map_of ex_configs 52)) = Some ChatKind_Chat"
  by (simp_all add: head_def example_simps ex_entry_def ex_configs_def ex_config_def)

lemmas ex_call_simps = apply_with_delegation_def other_transport_def delegation_expiry_def find_credential_def
  ex_command_sel ex_members ex_credential_44 ex_head_a joins_def set_delegation_def refresh_presence_def
  ex_registry_def Let_def bt_get_def

lemma ex_start:
  "apply_with_delegation W ex_rnd (ex_registry []) head_a (ex_command 41 (Start Group Audio)) 100 None
    = (ex_registry [call_1], Inr [Presence call_1])"
proof -
  have "Registry_apply W ex_rnd (ex_registry []) head_a (ex_command 41 (Start Group Audio)) 100
    = (ex_registry [call_1], Inr [Presence call_1])"
    by (subst Registry_apply.simps)
      (simp add: ex_call_simps start_room_def Limits_default_def ensure_free_def random_hex_def ex_rnd_def
        start_invitations_def ex_call_def ex_person_def nonce16_def saturating_add_def U64_MAX_def RING_TTL_def)
  then show ?thesis
    by (simp add: ex_call_simps bt_modify_def ex_call_def ex_person_def new_participant_def)
qed

lemma ex_join:
  "apply_with_delegation W ex_rnd (ex_registry [call_1]) head_a (ex_command 44 (Join nonce16 None)) 110 None
    = (ex_registry [call_2], Inr [Presence call_2])"
proof -
  have "Registry_apply W ex_rnd (ex_registry [call_1]) head_a (ex_command 44 (Join nonce16 None)) 110
    = (ex_registry [call_2], Inr [Presence call_2])"
    by (subst Registry_apply.simps)
      (simp add: ex_call_simps apply_in_room_def ensure_free_def room_step_def op_join_def join_participant_def
        ex_call_def ex_person_def Limits_default_def wrapping_inc_def bt_remove_def room_result_def bt_modify_def)
  then show ?thesis
    by (simp add: ex_call_simps bt_modify_def ex_call_def ex_person_def new_participant_def)
qed

lemma ex_signal:
  "apply_with_delegation W ex_rnd (ex_registry [call_2]) head_a (ex_command 41 (Signal_op nonce16 2 (bid 44) ''x'')) 115 None
    = (ex_registry [call_2], Inr [Signal_event ex_scope nonce16 2 (bid 41) (bid 44) ''x''])"
proof -
  have "Registry_apply W ex_rnd (ex_registry [call_2]) head_a (ex_command 41 (Signal_op nonce16 2 (bid 44) ''x'')) 115
    = (ex_registry [call_2], Inr [Signal_event ex_scope nonce16 2 (bid 41) (bid 44) ''x''])"
    by (subst Registry_apply.simps)
      (simp add: ex_call_simps apply_in_room_def room_step_def op_signal_def participant_def
        ex_call_def ex_person_def new_participant_def room_result_def bt_modify_def)
  then show ?thesis
    by (simp add: ex_call_simps ex_call_def ex_person_def new_participant_def)
qed

definition ex_inputs :: "registry_input list" where
  "ex_inputs = [Apply_in ex_rnd head_a (ex_command 41 (Start Group Audio)) 100 None,
     Apply_in ex_rnd head_a (ex_command 44 (Join nonce16 None)) 110 None]"

lemma ex_run: "run_steps (registry_step W) (ex_registry []) ex_inputs = ex_registry [call_2]"
  by (simp add: ex_inputs_def ex_start ex_join)

lemma ex_run_1: "run_steps (registry_step W) (ex_registry []) (take 1 ex_inputs) = ex_registry [call_1]"
  by (simp add: ex_inputs_def ex_start One_nat_def)

lemma ex_presence: "presence (ex_registry [c]) ex_scope = Some c"
  by (simp add: presence_def ex_registry_def bt_get_def)

theorem registry_capacity_witness:
  "length (rg_rooms (ex_registry [call_2])) \<le> 1024 \<and> length (ac_participants call_2) \<le> 25"
  using registry_capacity [OF ex_new ex_run [symmetric]] ex_presence [of call_2] by (auto simp: Limits_default_def)

theorem membership_change_rotates_key_witness:
  "ac_key_epoch call_2 = wrapping_inc (ac_key_epoch call_1) \<and> ac_key_epoch call_2 \<noteq> ac_key_epoch call_1"
proof -
  let ?i = "Apply_in ex_rnd head_a (ex_command 44 (Join nonce16 None)) 110 None"
  have "presence (fst (registry_step W (ex_registry [call_1]) ?i)) ex_scope = Some call_2"
    by (simp add: ex_join ex_presence)
  moreover have "set (bt_keys (ac_participants call_2)) \<noteq> set (bt_keys (ac_participants call_1))"
    by (simp add: ex_call_def ex_person_def doubleton_eq_iff)
  ultimately show ?thesis
    using membership_change_rotates_key [OF ex_new ex_run_1 [symmetric] ex_presence] by blast
qed

end
