(* ===== verification/Call_Witnesses.thy ===== *)
theory Call_Witnesses
  imports Call_Refinement Witnesses
begin

text \<open>
  The theorems about the call engine at work: a service opened on an empty database receives
  one request with a membership proof, verifies it, opens a call and meets the same request
  again; a second service finds a blocked row in its database.
\<close>

declare One_nat_def [simp del]

definition io_fine :: db_io where
  "io_fine = \<lparr>io_query = True, io_block = True, io_receipt = True, io_fence = True, io_begin = True,
     io_delete = True, io_insert = True, io_commit = True\<rparr>"

definition ex_open :: "(string \<rightharpoonup> fence_row) \<Rightarrow> open_io" where
  "ex_open rows = \<lparr>oi_database_symlink = Inr False, oi_lock_symlink = Inr False, oi_locked = Inr (),
     oi_tables = Inr (rows, Map.empty)\<rparr>"

definition ex_engine :: "(string \<rightharpoonup> fence_row) \<Rightarrow> Engine" where
  "ex_engine rows = \<lparr>en_rows = rows, en_receipts = Map.empty, en_audience = ''https://call'', en_witness = None,
     en_fences = [], en_pending = [], en_registry = ex_registry []\<rparr>"

definition ex_request :: Request where
  "ex_request = \<lparr>rq_command = ex_text 1 5 83 11, rq_proof = Some ex_proof, rq_delegation = None\<rparr>"

definition ex_preparation :: Preparation where
  "ex_preparation = \<lparr>pn_request = ex_request, pn_signed = ex_record 1 5 83 11, pn_scope = ex_scope,
     pn_audience = ''https://call'', pn_cached = None, pn_witness = None\<rparr>"

definition ex_prepared :: Prepared where
  "ex_prepared = \<lparr>pd_command = ex_command 41 (Start Group Audio), pd_identity = bid 1, pd_request_id = bid 83,
     pd_authority = head_a, pd_proof = Some ex_proof, pd_delegation = None, pd_delegation_lease = None\<rparr>"

definition ex_row :: "bool \<Rightarrow> fence_row" where
  "ex_row blocked = \<lparr>fr_head = encode_hex (bid 52), fr_sequence = 2, fr_blocked = blocked, fr_recovery = None\<rparr>"

definition ex_fence :: Fence where
  "ex_fence = \<lparr>fe_head = bid 52, fe_recovery = None, fe_sequence = 2, fe_authority = Some head_a,
     fe_proof_bytes = 385, fe_last_used = 100, fe_blocked = False\<rparr>"

definition ex_receipts :: "string \<times> string \<rightharpoonup> receipt_row" where
  "ex_receipts = [(encode_hex (bid 41), nonce16) \<mapsto> \<lparr>rr_request_id = encode_hex (bid 83), rr_expires = 160\<rparr>]"

definition ex_engine_1 :: Engine where
  "ex_engine_1 = \<lparr>en_rows = [scope_key ex_scope \<mapsto> ex_row False], en_receipts = ex_receipts,
     en_audience = ''https://call'', en_witness = None, en_fences = [(ex_scope, ex_fence)], en_pending = [],
     en_registry = ex_registry [call_1]\<rparr>"

definition ex_result :: "bool \<Rightarrow> Applied_call" where
  "ex_result dup = \<lparr>ap_request_id = bid 83, ap_scope = ex_scope, ap_call = Some call_1,
     ap_events = (if dup then [] else [Presence call_1]), ap_duplicate = dup\<rparr>"

lemma W_sha256: "sha256_length W"
  by (simp add: sha256_length_def W_def ex_hash_def)

lemma ex_opens: "open_with_witness W (ex_open rows) ''https://call'' Limits_default None = Inr (ex_engine rows)"
  by (simp add: open_with_witness_def ex_open_def ex_new ex_engine_def)

lemma ex_prepares: "preparation W io_fine (ex_engine Map.empty) ex_request None = Inr ex_preparation"
  by (simp add: preparation_def ex_request_def MAX_COMMAND_TEXT_def example_simps decode_with_def ex_commands_def
      ex_plain_def ex_supported_def ex_engine_def stored_fence_def io_fine_def is_blocked_def ex_command_sel
      ex_preparation_def Let_def)

lemma ex_times_100: "check_time 100 160 100 = Inr ()"
  by (simp add: check_time_def saturating_add_def U64_MAX_def COMMAND_TTL_def)

lemma ex_entry_id: "fst (ex_entry v i key) = bid i"
  by (simp add: ex_entry_def)

lemma ex_verifies: "Preparation_verify W ex_preparation 100 = Inr ex_prepared"
proof -
  have "request_authority W ex_preparation = Inr head_a"
    by (simp add: request_authority_def ex_preparation_def ex_request_def ex_scope_def proof_verify_def ex_proof_verifies)
  moreover have "verify_request_command W ex_preparation head_a 100 = Inr (ex_command 41 (Start Group Audio), None)"
    by (simp add: verify_request_command_def ex_preparation_def ex_request_def verify_command_def decode_with_def
        W_decoders W_record by_index_object ex_commands_def ex_command_def ex_credential_44 ex_members ex_times_100
        Operation_validate_def operation_invitation_def validate_signal_op_def signal_target_member_def W_signature
        device_facts example_simps ex_entry_id)
  ultimately show ?thesis
    by (simp add: Preparation_verify_def ex_command_sel ex_members ex_prepared_def ex_preparation_def ex_request_def
        example_simps)
qed

lemma ex_recovery: "recovery_id W head_a = None"
  by (simp add: recovery_id_def chain_at_def walk_def example_simps ex_entry_def ex_configs_def ex_config_def embedded_def
      numeral_eq_Suc)

lemma ex_proof_length: "proof_length ex_proof = 385"
  by (simp add: proof_length_def ex_proof_def)

lemma ex_command_times: "co_expires_at (ex_command d op) = 160" "co_nonce (ex_command d op) = nonce16"
  by (simp_all add: ex_command_def)

lemma ex_head_sequence: "sc_sequence (the (map_of ex_configs 52)) = 2"
  by (simp add: ex_configs_def ex_config_def)

lemmas ex_engine_simps = execute_def load_fence_def make_room_def stored_fence_def io_fine_def MAX_SCOPES_def
  request_bytes_def other_bytes_def MAX_CACHED_PROOFS_def saturating_add_def U64_MAX_def check_fence_def
  finish_request_def ex_prepared_def ex_command_sel ex_command_times ex_proof_length Let_def bt_contains_def bt_get_def
  receipt_key_def I64_MAX_def

lemma ex_no_call: "configuration_changed (ex_registry []) s h = (ex_registry [], [])"
  by (simp add: configuration_changed_def ex_registry_def)

lemma ex_executes: "execute W io_fine ex_rnd (ex_engine Map.empty) ex_prepared 100 = (ex_engine_1, Inr (ex_result False))"
  by (simp add: ex_engine_simps ex_engine_def advance_fence_def ex_head_a ex_head_sequence ex_recovery apply_command_def
      queue_configuration_changed_def ex_no_call ex_start commit_receipt_def live_receipts_def
      ex_engine_1_def ex_receipts_def ex_row_def ex_fence_def upsert_row_def ex_result_def ex_presence)

lemma ex_repeats: "execute W io_fine ex_rnd ex_engine_1 ex_prepared 100 = (ex_engine_1, Inr (ex_result True))"
  by (simp add: ex_engine_simps ex_engine_1_def ex_fence_def proves_recovery_ancestor_def touch_fence_def bt_modify_def
      ex_receipts_def ex_result_def ex_presence)

subsection \<open>The theorems at work\<close>

definition ex_service :: "Engine \<Rightarrow> Prepared set \<Rightarrow> Service" where
  "ex_service eng ps = \<lparr>sv_engine = eng, sv_clock = 100, sv_preparing = {ex_preparation}, sv_prepared = ps\<rparr>"

definition ex_idle :: "(string \<rightharpoonup> fence_row) \<Rightarrow> Service" where
  "ex_idle rows = \<lparr>sv_engine = ex_engine rows, sv_clock = 100, sv_preparing = {}, sv_prepared = {}\<rparr>"

lemma ex_starts: "service_start W (ex_idle rows)"
  using ex_opens [of rows] by (auto simp: service_start_def ex_idle_def)

lemma ex_run_prepared: "service_run W (ex_idle Map.empty) (ex_service (ex_engine Map.empty) {ex_prepared})"
proof -
  have "service_step W (ex_idle Map.empty) (ex_service (ex_engine Map.empty) {})"
    using service_step.began [of W io_fine "ex_idle Map.empty" ex_request None ex_preparation] ex_prepares
    by (simp add: ex_idle_def ex_service_def)
  moreover have "service_step W (ex_service (ex_engine Map.empty) {}) (ex_service (ex_engine Map.empty) {ex_prepared})"
    using service_step.verified [of ex_preparation "ex_service (ex_engine Map.empty) {}" W ex_prepared] ex_verifies
    by (simp add: ex_service_def)
  ultimately show ?thesis by (meson converse_rtranclp_into_rtranclp rtranclp.rtrancl_refl)
qed

lemma ex_run_executed: "service_run W (ex_idle Map.empty) (ex_service ex_engine_1 {ex_prepared})"
proof -
  have "service_step W (ex_service (ex_engine Map.empty) {ex_prepared}) (ex_service ex_engine_1 {ex_prepared})"
    using service_step.executed [of ex_prepared "ex_service (ex_engine Map.empty) {ex_prepared}" W io_fine ex_rnd] ex_executes
    by (simp add: ex_service_def)
  with ex_run_prepared show ?thesis by (rule rtranclp.rtrancl_into_rtrancl)
qed

theorem calls_held_under_fence_witness:
  "presence (en_registry ex_engine_1) ex_scope = Some call_1
    \<and> (\<exists>row. en_rows ex_engine_1 (scope_key ex_scope) = Some row \<and> \<not> fr_blocked row \<and> fr_head row = encode_hex (bid 52))"
proof -
  have p: "presence (en_registry ex_engine_1) ex_scope = Some call_1" by (simp add: ex_engine_1_def ex_presence)
  have "sv_engine (ex_service ex_engine_1 {ex_prepared}) = ex_engine_1" by (simp add: ex_service_def)
  from calls_held_under_fence [OF W_sha256 ex_starts ex_run_executed this [symmetric]] p
  have "\<exists>row. en_rows ex_engine_1 (scope_key ex_scope) = Some row \<and> \<not> fr_blocked row
      \<and> fr_head row = encode_hex (ac_config_id call_1)" by blast
  with p show ?thesis by (simp add: ex_call_def)
qed

text \<open>A service that finds a fence at the first configuration and receives a request under the second.\<close>

definition ex_old_row :: fence_row where
  "ex_old_row = \<lparr>fr_head = encode_hex (bid 51), fr_sequence = 1, fr_blocked = False, fr_recovery = None\<rparr>"

definition ex_old_rows :: "string \<rightharpoonup> fence_row" where
  "ex_old_rows = [scope_key ex_scope \<mapsto> ex_old_row]"

lemma ex_old_fence: "fence_of_row ex_old_row = Inr \<lparr>fe_head = bid 51, fe_recovery = None, fe_sequence = 1, fe_authority = None,
    fe_proof_bytes = 0, fe_last_used = 0, fe_blocked = False\<rparr>"
  by (simp add: fence_of_row_def ex_old_row_def parse_hex_encode bid_def)

lemma ex_old_row_blocked: "\<not> fr_blocked ex_old_row"
  by (simp add: ex_old_row_def)

lemma ex_old_prepares: "preparation W io_fine (ex_engine ex_old_rows) ex_request None = Inr ex_preparation"
  by (simp add: preparation_def ex_request_def MAX_COMMAND_TEXT_def example_simps decode_with_def ex_commands_def
      ex_plain_def ex_supported_def ex_engine_def stored_fence_def io_fine_def is_blocked_def ex_command_sel
      ex_preparation_def Let_def ex_old_rows_def ex_old_fence)

lemma ex_run_old: "service_run W (ex_idle ex_old_rows) (ex_service (ex_engine ex_old_rows) {ex_prepared})"
proof -
  have "service_step W (ex_idle ex_old_rows) (ex_service (ex_engine ex_old_rows) {})"
    using service_step.began [of W io_fine "ex_idle ex_old_rows" ex_request None ex_preparation] ex_old_prepares
    by (simp add: ex_idle_def ex_service_def)
  moreover have "service_step W (ex_service (ex_engine ex_old_rows) {}) (ex_service (ex_engine ex_old_rows) {ex_prepared})"
    using service_step.verified [of ex_preparation "ex_service (ex_engine ex_old_rows) {}" W ex_prepared] ex_verifies
    by (simp add: ex_service_def)
  ultimately show ?thesis by (meson converse_rtranclp_into_rtranclp rtranclp.rtrancl_refl)
qed

lemma ex_advances:
  "en_rows (fst (execute W io_fine ex_rnd (ex_engine ex_old_rows) ex_prepared 100)) (scope_key ex_scope) = Some (ex_row False)"
proof -
  have "proves_config_at head_a (bid 51) 1"
    by (simp add: proves_config_at_def example_simps ex_entry_def ex_configs_def ex_config_def)
  then show ?thesis
    by (simp add: ex_engine_simps ex_engine_def ex_old_rows_def ex_old_fence proves_recovery_ancestor_def advance_fence_def
        ex_head_a ex_head_sequence ex_recovery apply_command_frame queue_frame ex_row_def upsert_row_def ex_old_row_blocked)
qed

theorem fence_moves_forward_witness:
  "en_rows (ex_engine ex_old_rows) (scope_key ex_scope) = Some ex_old_row
    \<and> en_rows (fst (execute W io_fine ex_rnd (ex_engine ex_old_rows) ex_prepared 100)) (scope_key ex_scope) = Some (ex_row False)
    \<and> fence_moves W ex_prepared ex_old_row (ex_row False)"
proof -
  let ?sv = "ex_service (ex_engine ex_old_rows) {ex_prepared}"
  have r: "en_rows (sv_engine ?sv) (scope_key ex_scope) = Some ex_old_row"
    by (simp add: ex_service_def ex_engine_def ex_old_rows_def)
  have p: "ex_prepared \<in> sv_prepared ?sv" and changed: "ex_row False \<noteq> ex_old_row"
    by (simp_all add: ex_service_def ex_row_def ex_old_row_def bid_def encode_hex_inj)
  from fence_moves_forward [OF W_sha256 ex_starts ex_run_old r, THEN conjunct1, rule_format, OF p, of io_fine ex_rnd]
  have "fence_moves W ex_prepared ex_old_row (ex_row False)"
    using ex_advances changed by (simp add: ex_service_def)
  with r ex_advances show ?thesis by (simp add: ex_service_def)
qed

theorem command_applied_once_witness:
  "ap_duplicate (ex_result True) \<and> ap_events (ex_result True) = []"
proof -
  let ?sv = "ex_service (ex_engine Map.empty) {ex_prepared}"
  have x: "execute W io_fine ex_rnd (sv_engine ?sv) ex_prepared (sv_clock ?sv) = (ex_engine_1, Inr (ex_result False))"
    using ex_executes by (simp add: ex_service_def)
  have y: "execute W io_fine ex_rnd (sv_engine (?sv\<lparr>sv_engine := ex_engine_1\<rparr>)) ex_prepared (sv_clock (?sv\<lparr>sv_engine := ex_engine_1\<rparr>))
      = (ex_engine_1, Inr (ex_result True))"
    using ex_repeats by (simp add: ex_service_def)
  have "ex_prepared \<in> sv_prepared ?sv" "\<not> ap_duplicate (ex_result False)" by (simp_all add: ex_service_def ex_result_def)
  from command_applied_once [OF W_sha256 ex_starts ex_run_prepared this(1) x this(2) rtranclp.rtrancl_refl refl y]
  show ?thesis by simp
qed

lemma ex_engine_ok: "engine_ok W (ex_engine rows)"
  by (rule open_with_witness_ok [OF ex_opens])

theorem refused_request_inert_witness:
  "execute W io_fine ex_rnd (ex_engine Map.empty) ex_prepared 200 = (ex_engine Map.empty, Inl Unauthorized)
    \<and> en_receipts (ex_engine Map.empty) = Map.empty"
proof -
  have x: "execute W io_fine ex_rnd (ex_engine Map.empty) ex_prepared 200 = (ex_engine Map.empty, Inl Unauthorized)"
    by (simp add: execute_def ex_prepared_def ex_command_times)
  from refused_request_inert [OF ex_engine_ok x] x show ?thesis by (simp add: ex_engine_def)
qed

theorem execute_refines_spec_witness:
  "spec_execute W ex_rnd (ledger_of (ex_engine Map.empty)) ex_prepared 100 = (ledger_of ex_engine_1, Inr (ex_result False))"
  by (rule execute_refines_spec [OF ex_engine_ok ex_executes]) simp

end
