(* ===== verification/Storage_Engine.thy ===== *)
theory Storage_Engine
  imports Storage_Broker
begin

text \<open>
  \<^verbatim>\<open>crates/elo-storage/src/engine.rs\<close>: the tables of the attachment broker and every operation on
  them. A transaction works on the tables it is given and its result is kept only when it
  succeeds. A table is the map from its primary key to the other columns; identifiers are the
  text the source stores. Values are inserted through \<open>int64\<close>, and a sum or an incremented
  column that leaves the range of a 64-bit integer fails when it is read (\<open>unsigned\<close>).
  The key file, the directory checks and randomness are arguments.
\<close>

datatype StorageError = SE_Invalid | SE_Unauthorized | SE_Conflict | SE_NotConfigured | SE_Limit | SE_Missing | SE_Unavailable

definition storage_rec :: "RecordError + 'a \<Rightarrow> StorageError + 'a" where
  "storage_rec = map_err (\<lambda>_. SE_Unauthorized)"

lemma storage_rec_iff [result_simps]: "storage_rec m = Inr y \<longleftrightarrow> m = Inr y"
  by (simp add: storage_rec_def map_err_eq_Inr)

lemma storage_rec_Inr [simp]: "storage_rec (Inr y) = Inr y"
  by (simp add: storage_rec_def)

definition int64 :: "nat \<Rightarrow> StorageError + nat" where
  "int64 v = (if v > I64_MAX then Inl SE_Invalid else Inr v)"

definition unsigned :: "nat \<Rightarrow> StorageError + nat" where
  "unsigned v = (if v > I64_MAX then Inl SE_Unavailable else Inr v)"

lemma int64_eq_Inr [result_simps]: "int64 v = Inr w \<longleftrightarrow> v \<le> I64_MAX \<and> w = v"
  by (auto simp: int64_def)

lemma unsigned_eq_Inr [result_simps]: "unsigned v = Inr w \<longleftrightarrow> v \<le> I64_MAX \<and> w = v"
  by (auto simp: unsigned_def)

subsection \<open>Tables\<close>

record head_row =
  hd_stream :: string
  hd_head :: string
  hd_sequence :: nat

record settings_row =
  st_revision :: nat
  st_provider :: "string option"
  st_enabled :: bool
  st_provider_revision :: nat
  st_retention_hours :: "nat option"

record object_row =
  ob_revision :: nat
  ob_creator :: string
  ob_size :: nat
  ob_hash :: string
  ob_expires :: nat
  ob_state :: string
  ob_busy_until :: nat

record token_row =
  tk_space :: string
  tk_object :: string
  tk_head :: string
  tk_action :: string
  tk_expires :: nat

record sreceipt_row =
  rc_request :: string
  rc_response :: string
  rc_expires :: nat
  rc_created :: nat

record floor_row =
  fl_pin :: string
  fl_sequence :: nat
  fl_record :: "string option"

record storage_db =
  sd_heads :: "(string, head_row) btree_map"
  sd_settings :: "(string, settings_row) btree_map"
  sd_providers :: "(string \<times> nat, bytes) btree_map"
  sd_objects :: "(string \<times> string, object_row) btree_map"
  sd_tokens :: "(string, token_row) btree_map"
  sd_receipts :: "(string \<times> string, sreceipt_row) btree_map"
  sd_registrations :: "(string \<times> nat, nat) btree_map"
  sd_floor :: "floor_row option"

record Object =
  oj_space :: string
  oj_object :: string
  oj_revision :: nat
  oj_creator :: string
  oj_size :: nat
  oj_hash :: string
  oj_expires :: nat
  oj_state :: string

record StorageEngine =
  sg_db :: storage_db
  sg_key :: bytes
  sg_audience :: string
  sg_max_spaces :: nat

text \<open>Insertion under a primary key fails when the key is taken.\<close>

definition insert_row :: "'k :: linorder \<Rightarrow> 'v \<Rightarrow> ('k, 'v) btree_map \<Rightarrow> StorageError + ('k, 'v) btree_map" where
  "insert_row k v m = (if bt_contains m k then Inl SE_Unavailable else Inr (bt_insert k v m))"

lemma insert_row_eq_Inr [result_simps]: "insert_row k v m = Inr m' \<longleftrightarrow> bt_get m k = None \<and> m' = bt_insert k v m"
  by (auto simp: insert_row_def bt_contains_def)

subsection \<open>Opening\<close>

text \<open>Uploads a crash interrupted are left for deletion.\<close>

definition interrupt_upload :: "object_row \<Rightarrow> object_row" where
  "interrupt_upload r = (if ob_state r = ''uploading'' then r\<lparr>ob_state := ''deleting''\<rparr> else r)"

text \<open>Settings written before providers had generations, or before owners signed a retention policy.\<close>

definition latest_provider :: "storage_db \<Rightarrow> string \<Rightarrow> nat option" where
  "latest_provider db sp =
     (let revs = map (snd \<circ> fst) (filter (\<lambda>e. fst (fst e) = sp) (sd_providers db)) in
      if revs = [] then None else Some (Max (set revs)))"

definition migrate_settings :: "string list \<Rightarrow> storage_db \<Rightarrow> storage_db" where
  "migrate_settings columns db =
     db\<lparr>sd_settings := map (\<lambda>(sp, r).
       (sp,
        let r1 = (if ''provider_revision'' \<in> set columns then r
                  else r\<lparr>st_provider_revision :=
                      (case latest_provider db sp of Some n \<Rightarrow> n | None \<Rightarrow> st_revision r)\<rparr>) in
        if ''retention_hours'' \<in> set columns then r1 else r1\<lparr>st_retention_hours := None\<rparr>)) (sd_settings db)\<rparr>"

definition Broker_open ::
  "StorageError + bytes \<Rightarrow> string list \<Rightarrow> storage_db \<Rightarrow> string \<Rightarrow> nat \<Rightarrow> StorageError + StorageEngine" where
  "Broker_open key_file columns db audience max_spaces =
     (if max_spaces = 0 \<or> max_spaces > 128 then Inl SE_Invalid
      else
      bindr key_file (\<lambda>key.
      if length key \<noteq> 32 then Inl SE_Invalid
      else
      let db1 = db\<lparr>sd_objects := map (\<lambda>(k, r). (k, interrupt_upload r)) (sd_objects db)\<rparr> in
      Inr \<lparr>sg_db = migrate_settings columns db1, sg_key = key, sg_audience = audience, sg_max_spaces = max_spaces\<rparr>))"

subsection \<open>The witness floor\<close>

definition pin_witness :: "('z storage_ext_scheme) \<Rightarrow> storage_db \<Rightarrow> WitnessPin \<Rightarrow> StorageError + storage_db" where
  "pin_witness E db pin =
     bindr (storage_rec (pin_validate E pin)) (\<lambda>_.
     let text' = ser_pin E pin in
     (case sd_floor db of
        Some f \<Rightarrow> if fl_pin f \<noteq> text' then Inl SE_Conflict else Inr db
      | None \<Rightarrow> Inr (db\<lparr>sd_floor := Some \<lparr>fl_pin = text', fl_sequence = 0, fl_record = None\<rparr>\<rparr>)))"

definition witness_position :: "storage_db \<Rightarrow> StorageError + Position option" where
  "witness_position db =
     (case sd_floor db of
        None \<Rightarrow> Inr None
      | Some f \<Rightarrow>
        if fl_sequence f = 0 then Inr None
        else
        bindr (ok_or (fl_record f) SE_Unavailable) (\<lambda>text'.
        bindr (map_err (\<lambda>_. SE_Unavailable) (parse_hex 32 text')) (\<lambda>rid.
        Inr (Some \<lparr>po_sequence = fl_sequence f, po_record_id = Some rid\<rparr>))))"

definition check_witness :: "storage_db \<Rightarrow> VerifiedFreshness \<Rightarrow> nat \<Rightarrow> StorageError + unit" where
  "check_witness db fresh now_ms =
     (if \<not> freshness_valid fresh now_ms then Inl SE_Unauthorized
      else
      bindr (witness_position db) (\<lambda>floor'.
      if below_floor floor' (fs_position (vf_body fresh)) then Inl SE_Unauthorized else Inr ()))"

definition observe_witness :: "storage_db \<Rightarrow> VerifiedFreshness \<Rightarrow> nat \<Rightarrow> StorageError + storage_db" where
  "observe_witness db fresh now_ms =
     bindr (check_witness db fresh now_ms) (\<lambda>_.
     let pos = fs_position (vf_body fresh) in
     bindr (int64 (po_sequence pos)) (\<lambda>sequence.
     bindr (ok_or (po_record_id pos) SE_Unauthorized) (\<lambda>rid.
     (case sd_floor db of
        None \<Rightarrow> Inl SE_Unavailable
      | Some f \<Rightarrow> Inr (db\<lparr>sd_floor := Some (f\<lparr>fl_sequence := sequence, fl_record := Some (encode_hex rid)\<rparr>)\<rparr>)))))"

subsection \<open>Requests\<close>

record Verified =
  vd_command :: SCommand
  vd_authority :: Authority
  vd_request_id :: RecordId

definition Verified_new ::
  "('z storage_ext_scheme) \<Rightarrow> SRequest \<Rightarrow> string \<Rightarrow> nat \<Rightarrow> WitnessPin \<Rightarrow> StorageError + Verified" where
  "Verified_new E request audience now pin =
     (if length (sq_command request) > MAX_RECORD * 2 then Inl SE_Invalid
      else
      bindr (ok_or (b64_decode E (sq_command request)) SE_Invalid) (\<lambda>b.
      bindr (storage_rec (parse E b)) (\<lambda>srec.
      bindr (storage_rec (decode_with (dec_scommand E) srec)) (\<lambda>command.
      bindr (storage_rec (proof_credential E (sq_proof request) (sm_credential_id command))) (\<lambda>device.
      bindr (storage_rec (verify_signature E srec (vc_key device))) (\<lambda>_.
      bindr (storage_rec (verify_witnessed E (sq_proof request) (sm_space_id command) (sm_stream_id command) pin)) (\<lambda>a.
      bindr (storage_rec (storage_verify_command E a srec audience now)) (\<lambda>command'.
      Inr \<lparr>vd_command = command', vd_authority = a, vd_request_id = record_id E srec\<rparr>))))))))"

definition configures :: "SOperation \<Rightarrow> bool" where
  "configures op = (case op of S_Configure _ _ _ \<Rightarrow> True | S_ConfigureManaged _ _ \<Rightarrow> True | _ \<Rightarrow> False)"

definition storage_authorize :: "StorageEngine \<Rightarrow> Verified \<Rightarrow> nat \<Rightarrow> StorageError + unit" where
  "storage_authorize eng v now =
     (let c = vd_command v in
      if sm_expires_at c \<le> now then Inl SE_Unauthorized
      else
      bindr (case bt_get (sd_heads (sg_db eng)) (encode_hex (sm_space_id c)) of
               Some row \<Rightarrow>
                 bindr (map_err (\<lambda>_. SE_Unavailable) (parse_hex 32 (hd_head row))) (\<lambda>head'.
                 if hd_stream row \<noteq> encode_hex (sm_stream_id c)
                    \<or> (sm_config_id c \<noteq> head' \<and> \<not> proves_config_at (vd_authority v) head' (hd_sequence row))
                 then Inl SE_Unauthorized else Inr ())
             | None \<Rightarrow>
                 if sm_operation c = S_Status then Inr ()
                 else if op_first (sm_operation c) then
                   (if length (sd_heads (sg_db eng)) \<ge> sg_max_spaces eng then Inl SE_Limit else Inr ())
                 else Inl SE_NotConfigured) (\<lambda>_.
      if op_manages (sm_operation c) \<and> \<not> can_manage (vd_authority v) (sm_credential_id c)
      then Inl SE_Unauthorized else Inr ()))"

definition storage_hash :: "('z crypto_scheme) \<Rightarrow> string \<Rightarrow> string" where
  "storage_hash E s = encode_hex (sha256 E (ascii s))"

definition ip_hash :: "('z crypto_scheme) \<Rightarrow> IpAddr \<Rightarrow> string" where
  "ip_hash E ip = storage_hash E (''elo.now/storage-admission/v1/'' @ ip_text ip)"

definition transfer_token :: "('z storage_ext_scheme) \<Rightarrow> bytes \<Rightarrow> RecordId \<Rightarrow> string" where
  "transfer_token E key request =
     encode_hex (hmac_sha256 E key (ascii ''elo.now/storage-transfer/v1'' @ [0] @ request))"

definition storage_replay ::
  "('z storage_ext_scheme) \<Rightarrow> StorageEngine \<Rightarrow> Verified \<Rightarrow> StorageError + SResponse option" where
  "storage_replay E eng v =
     (let c = vd_command v in
      case bt_get (sd_receipts (sg_db eng)) (encode_hex (sm_credential_id c), sm_nonce c) of
        None \<Rightarrow> Inr None
      | Some row \<Rightarrow>
          if rc_request row \<noteq> encode_hex (vd_request_id v) then Inl SE_Unauthorized
          else
          bindr (ok_or (de_sresponse E (rc_response row)) SE_Unavailable) (\<lambda>response.
          Inr (Some (case response of
            R_Transfer ob url _ ex oex \<Rightarrow> R_Transfer ob url (transfer_token E (sg_key eng) (vd_request_id v)) ex oex
          | _ \<Rightarrow> response))))"

subsection \<open>Status\<close>

definition space_objects :: "storage_db \<Rightarrow> string \<Rightarrow> ((string \<times> string) \<times> object_row) list" where
  "space_objects db sp = filter (\<lambda>e. fst (fst e) = sp) (sd_objects db)"

definition used_bytes :: "storage_db \<Rightarrow> string \<Rightarrow> nat" where
  "used_bytes db sp = sum_list (map (ob_size \<circ> snd) (space_objects db sp))"

definition status_from :: "storage_db \<Rightarrow> string \<Rightarrow> StorageError + StorageStatus" where
  "status_from db sp =
     bindr (case bt_get (sd_settings db) sp of
              None \<Rightarrow> Inr (0, None, False, None)
            | Some r \<Rightarrow> bindr (unsigned (st_revision r)) (\<lambda>revision.
                Inr (revision, st_provider r, st_enabled r, st_retention_hours r))) (\<lambda>(revision, provider, enabled, retention).
     bindr (unsigned (used_bytes db sp)) (\<lambda>used.
     Inr \<lparr>ss_configured = (provider \<noteq> None), ss_enabled = (enabled \<and> retention \<noteq> None), ss_provider = provider,
       ss_revision = revision, ss_used_bytes = used, ss_max_space_bytes = MAX_SPACE_ATTACHMENT_STORAGE,
       ss_max_file_bytes = MAX_ATTACHMENT_FILE_SIZE, ss_retention_hours = retention\<rparr>))"

subsection \<open>Admission of a command\<close>

definition expected_revision :: "SOperation \<Rightarrow> nat option" where
  "expected_revision op =
     (case op of S_Configure n _ _ \<Rightarrow> Some n | S_ConfigureManaged n _ \<Rightarrow> Some n | S_Policy n _ \<Rightarrow> Some n
      | S_Disable n \<Rightarrow> Some n | _ \<Rightarrow> None)"

definition recent_receipts :: "storage_db \<Rightarrow> string \<Rightarrow> nat \<Rightarrow> nat" where
  "recent_receipts db cred since =
     length (filter (\<lambda>e. fst (fst e) = cred \<and> rc_created (snd e) > since) (sd_receipts db))"

definition registration_count :: "storage_db \<Rightarrow> (string \<Rightarrow> bool) \<Rightarrow> nat \<Rightarrow> nat" where
  "registration_count db who day =
     sum_list (map snd (filter (\<lambda>e. who (fst (fst e)) \<and> snd (fst e) = day) (sd_registrations db)))"

definition preflight ::
  "('z storage_ext_scheme) \<Rightarrow> StorageEngine \<Rightarrow> Verified \<Rightarrow> IpAddr \<Rightarrow> nat \<Rightarrow> StorageError + SResponse option" where
  "preflight E eng v ip now =
     bindr (storage_authorize eng v now) (\<lambda>_.
     let c = vd_command v; db = sg_db eng in
     bindr (storage_rec (op_validate (sm_operation c))) (\<lambda>_.
     bindr (storage_replay E eng v) (\<lambda>replayed.
     if replayed \<noteq> None then Inr replayed
     else
     bindr (int64 (saturating_sub now 60)) (\<lambda>since.
     if recent_receipts db (encode_hex (sm_credential_id c)) since \<ge> 60 then Inl SE_Limit
     else
     (case expected_revision (sm_operation c) of
        None \<Rightarrow> Inr None
      | Some expected \<Rightarrow>
        bindr (status_from db (encode_hex (sm_space_id c))) (\<lambda>status.
        if ss_revision status \<noteq> expected then Inl SE_Conflict
        else if expected = 0 \<and> configures (sm_operation c) then
          bindr (int64 (now div 86400)) (\<lambda>day.
          bindr (unsigned (registration_count db (\<lambda>i. i = ip_hash E ip) day)) (\<lambda>mine.
          bindr (unsigned (registration_count db (\<lambda>_. True) day)) (\<lambda>all'.
          if mine \<ge> 4 \<or> all' \<ge> 32 then Inl SE_Limit else Inr None)))
        else Inr None))))))"

subsection \<open>Provider secrets\<close>

definition secret_aad :: "string \<Rightarrow> nat \<Rightarrow> bytes" where
  "secret_aad sp revision = ascii (''elo.now/storage-secret/v1/'' @ sp @ ''/'' @ decimal revision)"

definition seal_provider ::
  "('z storage_ext_scheme) \<Rightarrow> bytes option \<Rightarrow> bytes \<Rightarrow> string \<Rightarrow> nat \<Rightarrow> ProviderConfig \<Rightarrow> StorageError + bytes" where
  "seal_provider E rnd key sp revision provider =
     bindr (ok_or rnd SE_Unavailable) (\<lambda>nonce.
     bindr (ok_or (xchacha_encrypt E key nonce (secret_aad sp revision) (ser_provider E provider)) SE_Unavailable) (\<lambda>c.
     Inr (nonce @ c)))"

definition open_provider ::
  "('z storage_ext_scheme) \<Rightarrow> StorageEngine \<Rightarrow> string \<Rightarrow> nat \<Rightarrow> StorageError + ProviderConfig" where
  "open_provider E eng sp revision =
     bindr (int64 revision) (\<lambda>rev.
     bindr (ok_or (bt_get (sd_providers (sg_db eng)) (sp, rev)) SE_Unavailable) (\<lambda>secret.
     if length secret < 40 then Inl SE_Unavailable
     else
     bindr (ok_or (xchacha_decrypt E (sg_key eng) (take 24 secret) (secret_aad sp revision) (drop 24 secret)) SE_Unavailable)
       (\<lambda>plain.
     ok_or (de_provider E plain) SE_Unavailable)))"

subsection \<open>Operations inside the transaction\<close>

definition object_of :: "string \<Rightarrow> string \<Rightarrow> object_row \<Rightarrow> Object" where
  "object_of sp ob r = \<lparr>oj_space = sp, oj_object = ob, oj_revision = ob_revision r, oj_creator = ob_creator r,
     oj_size = ob_size r, oj_hash = ob_hash r, oj_expires = ob_expires r, oj_state = ob_state r\<rparr>"

definition read_object :: "storage_db \<Rightarrow> string \<Rightarrow> string \<Rightarrow> StorageError + Object" where
  "read_object db sp ob =
     (case bt_get (sd_objects db) (sp, ob) of None \<Rightarrow> Inl SE_Missing | Some r \<Rightarrow> Inr (object_of sp ob r))"

definition set_state :: "string \<Rightarrow> string \<Rightarrow> string \<Rightarrow> storage_db \<Rightarrow> storage_db" where
  "set_state sp ob state db = db\<lparr>sd_objects := bt_modify (sp, ob) (\<lambda>r. r\<lparr>ob_state := state\<rparr>) (sd_objects db)\<rparr>"

definition delete_tokens :: "(token_row \<Rightarrow> bool) \<Rightarrow> storage_db \<Rightarrow> storage_db" where
  "delete_tokens P db = db\<lparr>sd_tokens := bt_retain (\<lambda>r. \<not> P r) (sd_tokens db)\<rparr>"

text \<open>\<^verbatim>\<open>now * 1000\<close> on \<^verbatim>\<open>u64\<close>\<close>

definition millis :: "nat \<Rightarrow> nat" where
  "millis now = now * 1000 mod 2 ^ 64"

definition answer_status :: "storage_db \<Rightarrow> string \<Rightarrow> StorageError + storage_db \<times> SResponse" where
  "answer_status db sp = bindr (status_from db sp) (\<lambda>s. Inr (db, R_Status s))"

text \<open>A first configuration counts against the day's limit of its source.\<close>

definition count_registration ::
  "('z storage_ext_scheme) \<Rightarrow> storage_db \<Rightarrow> nat \<Rightarrow> IpAddr \<Rightarrow> nat \<Rightarrow> StorageError + (string \<times> nat, nat) btree_map" where
  "count_registration E db expected ip now =
     (if expected = 0 then
        bindr (int64 (now div 86400)) (\<lambda>day.
        let k = (ip_hash E ip, day) in
        Inr (bt_insert k (case bt_get (sd_registrations db) k of None \<Rightarrow> 1 | Some n \<Rightarrow> n + 1) (sd_registrations db)))
      else Inr (sd_registrations db))"

definition op_configure ::
  "('z storage_ext_scheme) \<Rightarrow> storage_db \<Rightarrow> string \<Rightarrow> nat \<Rightarrow> ProviderConfig \<Rightarrow> nat \<Rightarrow> bytes \<Rightarrow> IpAddr \<Rightarrow> nat \<Rightarrow>
   StorageError + storage_db \<times> SResponse" where
  "op_configure E db sp expected provider retention secret ip now =
     (let revision = expected + 1 in
      if length (filter (\<lambda>e. fst (fst e) = sp) (sd_providers db)) \<ge> 32 then Inl SE_Limit
      else
      bindr (int64 revision) (\<lambda>rev.
      bindr (insert_row (sp, rev) secret (sd_providers db)) (\<lambda>providers.
      let settings = bt_insert sp \<lparr>st_revision = rev, st_provider = Some (provider_name provider), st_enabled = True,
            st_provider_revision = rev, st_retention_hours = Some retention\<rparr> (sd_settings db) in
      bindr (count_registration E db expected ip now) (\<lambda>registrations.
      answer_status (db\<lparr>sd_providers := providers, sd_settings := settings, sd_registrations := registrations\<rparr>) sp))))"

definition op_policy :: "storage_db \<Rightarrow> string \<Rightarrow> nat \<Rightarrow> nat \<Rightarrow> StorageError + storage_db \<times> SResponse" where
  "op_policy db sp expected retention =
     (if expected = 0 then Inl SE_NotConfigured
      else answer_status (db\<lparr>sd_settings :=
        bt_modify sp (\<lambda>r. r\<lparr>st_revision := st_revision r + 1, st_retention_hours := Some retention\<rparr>) (sd_settings db)\<rparr>) sp)"

definition op_disable :: "storage_db \<Rightarrow> string \<Rightarrow> nat \<Rightarrow> StorageError + storage_db \<times> SResponse" where
  "op_disable db sp expected =
     (if expected = 0 then Inl SE_NotConfigured
      else
      let db1 = db\<lparr>sd_settings :=
            bt_modify sp (\<lambda>r. r\<lparr>st_revision := st_revision r + 1, st_enabled := False\<rparr>) (sd_settings db)\<rparr> in
      answer_status (delete_tokens (\<lambda>t. tk_space t = sp \<and> tk_action t = ''upload'') db1) sp)"

definition object_url :: "string \<Rightarrow> AttachmentObjectId \<Rightarrow> string" where
  "object_url audience ob = audience @ ''/objects/'' @ encode_hex ob"

definition expiry_ms :: "nat \<Rightarrow> nat \<Rightarrow> nat option" where
  "expiry_ms now hours =
     (case checked_mul hours 3600 of
        None \<Rightarrow> None
      | Some secs \<Rightarrow>
        (case checked_add now secs of
           None \<Rightarrow> None
         | Some s \<Rightarrow>
           (case checked_mul s 1000 of
              None \<Rightarrow> None
            | Some ms \<Rightarrow> if ms \<le> MAX_EXPIRY_TIMESTAMP_MS then Some ms else None)))"

definition issue_token ::
  "string \<Rightarrow> string \<Rightarrow> SCommand \<Rightarrow> AttachmentObjectId \<Rightarrow> string \<Rightarrow> nat \<Rightarrow> storage_db \<Rightarrow> StorageError + storage_db" where
  "issue_token token_hash sp c ob action expires db =
     bindr (int64 expires) (\<lambda>ex.
     bindr (insert_row token_hash \<lparr>tk_space = sp, tk_object = encode_hex ob, tk_head = encode_hex (sm_config_id c),
       tk_action = action, tk_expires = ex\<rparr> (sd_tokens db)) (\<lambda>tokens.
     Inr (db\<lparr>sd_tokens := tokens\<rparr>)))"

definition op_reserve ::
  "storage_db \<Rightarrow> string \<Rightarrow> string \<Rightarrow> string \<Rightarrow> string \<Rightarrow> SCommand \<Rightarrow> AttachmentObjectId \<Rightarrow> nat \<Rightarrow> string \<Rightarrow> nat \<Rightarrow>
   StorageError + storage_db \<times> SResponse" where
  "op_reserve db audience token token_hash sp c ob encrypted hash' now =
     bindr (case bt_get (sd_settings db) sp of
              None \<Rightarrow> Inl SE_NotConfigured
            | Some r \<Rightarrow>
              (case st_retention_hours r of
                 None \<Rightarrow> Inl SE_NotConfigured
               | Some hours \<Rightarrow>
                   if st_enabled r \<and> hours \<in> set [1, 12, 24] then Inr (st_provider_revision r, hours)
                   else Inl SE_NotConfigured)) (\<lambda>(revision, hours).
     bindr (ok_or (expiry_ms now hours) SE_Invalid) (\<lambda>expires_at_ms.
     bindr (unsigned (used_bytes db sp)) (\<lambda>used.
     if saturating_add used encrypted > MAX_SPACE_ATTACHMENT_STORAGE \<or> length (space_objects db sp) \<ge> 1024
     then Inl SE_Limit
     else if bt_contains (sd_objects db) (sp, encode_hex ob) then Inl SE_Conflict
     else
     bindr (int64 revision) (\<lambda>rev.
     bindr (int64 encrypted) (\<lambda>sz.
     bindr (int64 expires_at_ms) (\<lambda>ms.
     bindr (insert_row (sp, encode_hex ob) \<lparr>ob_revision = rev, ob_creator = encode_hex (sm_credential_id c),
       ob_size = sz, ob_hash = hash', ob_expires = ms, ob_state = ''pending'', ob_busy_until = 0\<rparr> (sd_objects db)) (\<lambda>objects.
     let expires = min (saturating_add now TRANSFER_TTL) (expires_at_ms div 1000) in
     bindr (issue_token token_hash sp c ob ''upload'' expires (db\<lparr>sd_objects := objects\<rparr>)) (\<lambda>db'.
     Inr (db', R_Transfer ob (object_url audience ob) token expires expires_at_ms)))))))))"

definition op_complete ::
  "storage_db \<Rightarrow> string \<Rightarrow> SCommand \<Rightarrow> AttachmentObjectId \<Rightarrow> nat \<Rightarrow> StorageError + storage_db \<times> SResponse" where
  "op_complete db sp c ob now =
     bindr (read_object db sp (encode_hex ob)) (\<lambda>obj.
     if oj_creator obj \<noteq> encode_hex (sm_credential_id c) \<or> oj_expires obj \<le> millis now then Inl SE_Unauthorized
     else if oj_state obj \<noteq> ''uploaded'' \<and> oj_state obj \<noteq> ''complete'' then Inl SE_Conflict
     else Inr (set_state sp (encode_hex ob) ''complete'' db, R_Complete ob))"

definition op_download ::
  "storage_db \<Rightarrow> string \<Rightarrow> string \<Rightarrow> string \<Rightarrow> string \<Rightarrow> SCommand \<Rightarrow> AttachmentObjectId \<Rightarrow> nat \<Rightarrow>
   StorageError + storage_db \<times> SResponse" where
  "op_download db audience token token_hash sp c ob now =
     bindr (read_object db sp (encode_hex ob)) (\<lambda>obj.
     if oj_state obj \<noteq> ''complete'' \<or> oj_expires obj \<le> millis now then Inl SE_Missing
     else
     let expires = min (saturating_add now TRANSFER_TTL) (oj_expires obj div 1000) in
     bindr (issue_token token_hash sp c ob ''download'' expires db) (\<lambda>db'.
     Inr (db', R_Transfer ob (object_url audience ob) token expires (oj_expires obj))))"

definition op_cancel_object ::
  "storage_db \<Rightarrow> string \<Rightarrow> Authority \<Rightarrow> SCommand \<Rightarrow> AttachmentObjectId \<Rightarrow> StorageError + storage_db \<times> SResponse" where
  "op_cancel_object db sp a c ob =
     bindr (read_object db sp (encode_hex ob)) (\<lambda>obj.
     if oj_creator obj \<noteq> encode_hex (sm_credential_id c) \<and> \<not> can_manage a (sm_credential_id c) then Inl SE_Unauthorized
     else if oj_state obj = ''uploading'' \<or> oj_state obj = ''complete'' then Inl SE_Conflict
     else Inr (delete_tokens (\<lambda>t. tk_space t = sp \<and> tk_object t = encode_hex ob)
                 (set_state sp (encode_hex ob) ''deleting'' db), R_Cancelled ob))"

text \<open>The provider a configuration names, and its sealed credentials.\<close>

definition configuration :: "ProviderConfig option \<Rightarrow> SOperation \<Rightarrow> StorageError + (nat \<times> ProviderConfig \<times> nat) option" where
  "configuration managed op =
     (case op of
        S_Configure expected provider retention \<Rightarrow> Inr (Some (expected, provider, retention))
      | S_ConfigureManaged expected retention \<Rightarrow>
          bindr (ok_or managed SE_Unauthorized) (\<lambda>provider. Inr (Some (expected, provider, retention)))
      | _ \<Rightarrow> Inr None)"

definition sealed_configuration ::
  "('z storage_ext_scheme) \<Rightarrow> bytes option \<Rightarrow> bytes \<Rightarrow> string \<Rightarrow> (nat \<times> ProviderConfig \<times> nat) option \<Rightarrow>
   StorageError + (nat \<times> ProviderConfig \<times> nat \<times> bytes) option" where
  "sealed_configuration E rnd key sp conf =
     (case conf of
        None \<Rightarrow> Inr None
      | Some (expected, provider, retention) \<Rightarrow>
          bindr (storage_rec (provider_validate provider)) (\<lambda>_.
          bindr (seal_provider E rnd key sp (expected + 1) provider) (\<lambda>secret.
          Inr (Some (expected, provider, retention, secret)))))"

definition storage_operation ::
  "('z storage_ext_scheme) \<Rightarrow> StorageEngine \<Rightarrow> Verified \<Rightarrow> IpAddr \<Rightarrow> nat \<Rightarrow>
   (nat \<times> ProviderConfig \<times> nat \<times> bytes) option \<Rightarrow> StorageError + storage_db \<times> SResponse" where
  "storage_operation E eng v ip now conf =
     (let c = vd_command v; db = sg_db eng; sp = encode_hex (sm_space_id c);
          token = transfer_token E (sg_key eng) (vd_request_id v); token_hash = storage_hash E token in
      case sm_operation c of
        S_Status \<Rightarrow> answer_status db sp
      | S_Configure _ _ _ \<Rightarrow>
          bindr (ok_or conf SE_Invalid) (\<lambda>(expected, provider, retention, secret).
          op_configure E db sp expected provider retention secret ip now)
      | S_ConfigureManaged _ _ \<Rightarrow>
          bindr (ok_or conf SE_Invalid) (\<lambda>(expected, provider, retention, secret).
          op_configure E db sp expected provider retention secret ip now)
      | S_Policy expected retention \<Rightarrow> op_policy db sp expected retention
      | S_Disable expected \<Rightarrow> op_disable db sp expected
      | S_Reserve ob encrypted hash' \<Rightarrow> op_reserve db (sg_audience eng) token token_hash sp c ob encrypted hash' now
      | S_Complete ob \<Rightarrow> op_complete db sp c ob now
      | S_Download ob \<Rightarrow> op_download db (sg_audience eng) token token_hash sp c ob now
      | S_Cancel ob \<Rightarrow> op_cancel_object db sp (vd_authority v) c ob)"

text \<open>The head the command was signed under becomes the fence of its space.\<close>

definition advance_head :: "Verified \<Rightarrow> storage_db \<Rightarrow> StorageError + storage_db" where
  "advance_head v db =
     (let c = vd_command v; sp = encode_hex (sm_space_id c) in
      if bt_contains (sd_heads db) sp \<or> configures (sm_operation c) then
        bindr (storage_rec (head (vd_authority v))) (\<lambda>h.
        bindr (int64 (sc_sequence h)) (\<lambda>sequence.
        Inr (db\<lparr>sd_heads := bt_insert sp
          (case bt_get (sd_heads db) sp of
             Some row \<Rightarrow> row\<lparr>hd_head := encode_hex (sm_config_id c), hd_sequence := sequence\<rparr>
           | None \<Rightarrow> \<lparr>hd_stream = encode_hex (sm_stream_id c), hd_head = encode_hex (sm_config_id c),
               hd_sequence = sequence\<rparr>) (sd_heads db)\<rparr>)))
      else Inr db)"

definition cleared :: "SResponse \<Rightarrow> SResponse" where
  "cleared r = (case r of R_Transfer ob url _ ex oex \<Rightarrow> R_Transfer ob url [] ex oex | _ \<Rightarrow> r)"

definition store_receipt ::
  "('z storage_ext_scheme) \<Rightarrow> Verified \<Rightarrow> nat \<Rightarrow> SResponse \<Rightarrow> storage_db \<Rightarrow> StorageError + storage_db" where
  "store_receipt E v now response db =
     (let c = vd_command v in
      bindr (int64 (sm_expires_at c)) (\<lambda>ex.
      bindr (int64 now) (\<lambda>created.
      bindr (insert_row (encode_hex (sm_credential_id c), sm_nonce c)
        \<lparr>rc_request = encode_hex (vd_request_id v), rc_response = ser_sresponse E (cleared response),
         rc_expires = ex, rc_created = created\<rparr> (sd_receipts db)) (\<lambda>receipts.
      Inr (db\<lparr>sd_receipts := receipts\<rparr>)))))"

definition apply_with_managed ::
  "('z storage_ext_scheme) \<Rightarrow> bytes option \<Rightarrow> StorageEngine \<Rightarrow> Verified \<Rightarrow> IpAddr \<Rightarrow> nat \<Rightarrow> ProviderConfig option \<Rightarrow>
   StorageError + storage_db \<times> SResponse" where
  "apply_with_managed E rnd eng v ip now managed =
     bindr (preflight E eng v ip now) (\<lambda>replayed.
     case replayed of
       Some response \<Rightarrow> Inr (sg_db eng, response)
     | None \<Rightarrow>
       let c = vd_command v; sp = encode_hex (sm_space_id c) in
       bindr (configuration managed (sm_operation c)) (\<lambda>conf.
       bindr (sealed_configuration E rnd (sg_key eng) sp conf) (\<lambda>conf'.
       bindr (storage_operation E eng v ip now conf') (\<lambda>(db1, response).
       bindr (advance_head v db1) (\<lambda>db2.
       bindr (store_receipt E v now response db2) (\<lambda>db3.
       Inr (db3, response)))))))"

subsection \<open>Transfers\<close>

definition token_matches :: "storage_db \<Rightarrow> string \<Rightarrow> AttachmentObjectId \<Rightarrow> string \<Rightarrow> nat \<Rightarrow> (token_row \<times> head_row) option" where
  "token_matches db token_hash ob action now =
     (case bt_get (sd_tokens db) token_hash of
        None \<Rightarrow> None
      | Some t \<Rightarrow>
        (case bt_get (sd_heads db) (tk_space t) of
           None \<Rightarrow> None
         | Some h \<Rightarrow>
             if hd_head h = tk_head t \<and> tk_object t = encode_hex ob \<and> tk_action t = action \<and> tk_expires t > now
             then Some (t, h) else None))"

definition token_wellformed :: "string \<Rightarrow> bool" where
  "token_wellformed token \<longleftrightarrow>
     length token = 64
     \<and> list_all (\<lambda>c. (48 \<le> (of_char c :: nat) \<and> of_char c \<le> (57 :: nat)) \<or> (97 \<le> (of_char c :: nat) \<and> of_char c \<le> (102 :: nat))) token"

definition token_target ::
  "('z crypto_scheme) \<Rightarrow> storage_db \<Rightarrow> AttachmentObjectId \<Rightarrow> string \<Rightarrow> string \<Rightarrow> nat \<Rightarrow>
   StorageError + SpaceId \<times> StreamId \<times> RecordId" where
  "token_target E db ob token action now =
     (if \<not> token_wellformed token then Inl SE_Unauthorized
      else
      bindr (int64 now) (\<lambda>n.
      bindr (ok_or (token_matches db (storage_hash E token) ob action n) SE_Unauthorized) (\<lambda>(t, h).
      bindr (map_err (\<lambda>_. SE_Unavailable) (parse_hex 32 (tk_space t))) (\<lambda>sp.
      bindr (map_err (\<lambda>_. SE_Unavailable) (parse_hex 16 (hd_stream h))) (\<lambda>strm.
      bindr (map_err (\<lambda>_. SE_Unavailable) (parse_hex 32 (tk_head t))) (\<lambda>rid.
      Inr (sp, strm, rid)))))))"

text \<open>The object under a matching token: an upload takes it, and the token is gone.\<close>

definition claim_row ::
  "storage_db \<Rightarrow> string \<Rightarrow> string \<Rightarrow> string \<Rightarrow> string \<Rightarrow> nat \<Rightarrow> StorageError + storage_db \<times> Object" where
  "claim_row db sp ob token_hash action now =
     bindr (read_object db sp ob) (\<lambda>row.
     if oj_expires row \<le> millis now
        \<or> (action = ''upload'' \<and> oj_state row \<noteq> ''pending'')
        \<or> (action = ''download'' \<and> oj_state row \<noteq> ''complete'')
     then Inl SE_Missing
     else
     bindr (if action = ''upload'' then
              bindr (int64 (saturating_add now 100)) (\<lambda>busy.
              Inr (db\<lparr>sd_objects := bt_modify (sp, ob)
                (\<lambda>r. r\<lparr>ob_state := ''uploading'', ob_busy_until := busy\<rparr>) (sd_objects db)\<rparr>))
            else Inr db) (\<lambda>db'.
     Inr (db'\<lparr>sd_tokens := bt_remove token_hash (sd_tokens db')\<rparr>, row)))"

definition storage_claim ::
  "('z crypto_scheme) \<Rightarrow> storage_db \<Rightarrow> AttachmentObjectId \<Rightarrow> string \<Rightarrow> string \<Rightarrow> nat \<Rightarrow>
   StorageError + storage_db \<times> Object" where
  "storage_claim E db ob token action now =
     bindr (token_target E db ob token action now) (\<lambda>_.
     bindr (int64 now) (\<lambda>n.
     bindr (ok_or (token_matches db (storage_hash E token) ob action n) SE_Unauthorized) (\<lambda>(t, h).
     claim_row db (tk_space t) (encode_hex ob) (storage_hash E token) action now)))"

definition upload_finished :: "storage_db \<Rightarrow> Object \<Rightarrow> bool \<Rightarrow> storage_db" where
  "upload_finished db obj success =
     db\<lparr>sd_objects := bt_modify (oj_space obj, oj_object obj)
       (\<lambda>r. if ob_state r \<noteq> ''uploading'' then r
            else if success then r\<lparr>ob_state := ''uploaded'', ob_busy_until := 0\<rparr>
            else r\<lparr>ob_state := ''deleting''\<rparr>) (sd_objects db)\<rparr>"

subsection \<open>Garbage collection\<close>

definition saturating_mul :: "nat \<Rightarrow> nat \<Rightarrow> nat" where
  "saturating_mul a b = min (a * b) U64_MAX"

definition is_garbage :: "nat \<Rightarrow> nat \<Rightarrow> object_row \<Rightarrow> bool" where
  "is_garbage ms now r \<longleftrightarrow>
     ob_state r \<noteq> ''uploading'' \<and> ob_busy_until r \<le> now \<and> (ob_state r = ''deleting'' \<or> ob_expires r \<le> ms)"

text \<open>All rows the query selects; \<^verbatim>\<open>LIMIT 32\<close> without an order keeps any thirty-two of them.\<close>

definition garbage_rows :: "storage_db \<Rightarrow> nat \<Rightarrow> StorageError + Object list" where
  "garbage_rows db now =
     bindr (int64 (saturating_mul now 1000)) (\<lambda>ms.
     bindr (int64 now) (\<lambda>n.
     Inr (map (\<lambda>((sp, ob), r). object_of sp ob r) (filter (\<lambda>e. is_garbage ms n (snd e)) (sd_objects db)))))"

definition garbage :: "storage_db \<Rightarrow> nat \<Rightarrow> Object list \<Rightarrow> bool" where
  "garbage db now chosen \<longleftrightarrow>
     (case garbage_rows db now of
        Inl _ \<Rightarrow> False
      | Inr rows \<Rightarrow> distinct chosen \<and> set chosen \<subseteq> set rows \<and> length chosen = min 32 (length rows))"

definition object_deleted :: "storage_db \<Rightarrow> Object \<Rightarrow> storage_db" where
  "object_deleted db obj =
     (let db1 = delete_tokens (\<lambda>t. tk_space t = oj_space obj \<and> tk_object t = oj_object obj) db in
      db1\<lparr>sd_objects := filter (\<lambda>(k, r). \<not> (k = (oj_space obj, oj_object obj) \<and> ob_state r \<noteq> ''uploading'')) (sd_objects db1)\<rparr>)"

definition provider_needed :: "storage_db \<Rightarrow> string \<times> nat \<Rightarrow> bool" where
  "provider_needed db k \<longleftrightarrow>
     list_ex (\<lambda>((sp, ob), r). sp = fst k \<and> ob_revision r = snd k) (sd_objects db)
     \<or> list_ex (\<lambda>(sp, s). sp = fst k \<and> st_provider_revision s = snd k \<and> st_enabled s) (sd_settings db)"

text \<open>The statements run one by one: a clock beyond the range of the columns stops the pass.\<close>

definition storage_prune :: "storage_db \<Rightarrow> nat \<Rightarrow> storage_db" where
  "storage_prune db now =
     (case int64 (saturating_sub now 60) of
        Inl _ \<Rightarrow> db
      | Inr since \<Rightarrow>
        let db1 = db\<lparr>sd_receipts := bt_retain (\<lambda>r. \<not> rc_expires r < since) (sd_receipts db)\<rparr> in
        (case int64 now of
           Inl _ \<Rightarrow> db1
         | Inr n \<Rightarrow>
           let db2 = delete_tokens (\<lambda>t. tk_expires t \<le> n) db1;
               db3 = db2\<lparr>sd_registrations := filter (\<lambda>(k, _). \<not> snd k < now div 86400) (sd_registrations db2)\<rparr> in
           db3\<lparr>sd_providers := filter (\<lambda>(k, _). provider_needed db3 k) (sd_providers db3)\<rparr>))"

end
