(* ===== verification/Storage_Server.thy ===== *)
theory Storage_Server
  imports Storage_Engine
begin

text \<open>
  \<^verbatim>\<open>crates/elo-storage/src/server.rs\<close> and \<^verbatim>\<open>freshness.rs\<close>: the witness lease every command and every
  transfer needs, the limits on sources, the stages of the command handler, and the checks on
  the bytes of an upload and of a download. Network calls, the provider and the clock are
  arguments; a stage that runs under the engine lock is one definition.
\<close>

subsection \<open>Sources\<close>

definition COMMANDS_PER_SOURCE :: nat where "COMMANDS_PER_SOURCE = 2"
definition MAX_COMMAND_SOURCES :: nat where "MAX_COMMAND_SOURCES = 4096"

definition source_network :: "IpAddr \<Rightarrow> IpAddr" where
  "source_network ip =
     (case ip of
        V4 _ \<Rightarrow> ip
      | V6 o6 \<Rightarrow> (case to_ipv4_mapped o6 of Some o4 \<Rightarrow> V4 o4 | None \<Rightarrow> V6 (take 8 o6 @ replicate 8 0)))"

text \<open>\<^verbatim>\<open>IpAddr\<close> orders version 4 before version 6, then by octets.\<close>

fun ip_key :: "IpAddr \<Rightarrow> nat \<times> nat list" where
  "ip_key (V4 o4) = (4, map unat o4)"
| "ip_key (V6 o6) = (6, map unat o6)"

type_synonym sources = "(nat \<times> nat list, nat) btree_map"

definition acquire_source :: "sources \<Rightarrow> IpAddr \<Rightarrow> StorageError + sources" where
  "acquire_source active ip =
     (let k = ip_key (source_network ip);
          n = (case bt_get active k of Some n \<Rightarrow> n | None \<Rightarrow> 0) in
      if n \<ge> COMMANDS_PER_SOURCE \<or> (length active \<ge> MAX_COMMAND_SOURCES \<and> \<not> bt_contains active k) then Inl SE_Limit
      else Inr (bt_insert k (n + 1) active))"

text \<open>Dropping a permit. A count is never zero while it is stored.\<close>

definition release_source :: "sources \<Rightarrow> IpAddr \<Rightarrow> sources" where
  "release_source active ip =
     (let k = ip_key (source_network ip) in
      case bt_get active k of
        None \<Rightarrow> active
      | Some n \<Rightarrow> if n - 1 = 0 then bt_remove k active else bt_insert k (n - 1) active)"

type_synonym rates = "(nat \<times> nat list, nat \<times> nat) btree_map"

definition rate_source :: "rates \<Rightarrow> IpAddr \<Rightarrow> nat \<Rightarrow> rates \<times> (StorageError + unit)" where
  "rate_source rates ip now =
     (let k = ip_key (source_network ip);
          live = bt_retain (\<lambda>(start, _). saturating_sub now start < 60) rates in
      if length live \<ge> 4096 \<and> \<not> bt_contains live k then (live, Inl SE_Limit)
      else
      let entry = (case bt_get live k of Some e \<Rightarrow> e | None \<Rightarrow> (now, 0)) in
      if snd entry \<ge> 120 then (bt_insert k entry live, Inl SE_Limit)
      else (bt_insert k (fst entry, snd entry + 1) live, Inr ()))"

definition source_ip :: "bool \<Rightarrow> IpAddr \<Rightarrow> IpAddr option \<Rightarrow> StorageError + IpAddr" where
  "source_ip trusted_loopback_proxy peer real_ip =
     (if trusted_loopback_proxy \<and> is_loopback peer then ok_or real_ip SE_Invalid else Inr peer)"

subsection \<open>Operator-owned storage\<close>

record ManagedStorage =
  mg_provider :: ProviderConfig
  mg_allowed_owners :: "IdentityId list"

definition with_managed_storage :: "ManagedStorage option \<Rightarrow> StorageError + ManagedStorage option" where
  "with_managed_storage storage =
     (case storage of
        None \<Rightarrow> Inr None
      | Some s \<Rightarrow>
          bindr (storage_rec (provider_validate (mg_provider s))) (\<lambda>_.
          if length (mg_allowed_owners s) > 1024 then Inl SE_Invalid else Inr (Some s)))"

definition for_command :: "ManagedStorage \<Rightarrow> Verified \<Rightarrow> StorageError + ProviderConfig" where
  "for_command s v =
     bindr (storage_rec (credential (vd_authority v) (sm_credential_id (vd_command v)))) (\<lambda>device.
     if \<not> can_manage (vd_authority v) (sm_credential_id (vd_command v))
        \<or> identity device \<notin> set (mg_allowed_owners s)
     then Inl SE_Unauthorized else Inr (mg_provider s))"

definition managed_for :: "ManagedStorage option \<Rightarrow> Verified \<Rightarrow> StorageError + ProviderConfig option" where
  "managed_for storage v =
     (case sm_operation (vd_command v) of
        S_ConfigureManaged _ _ \<Rightarrow>
          bindr (ok_or storage SE_Unauthorized) (\<lambda>s.
          bindr (for_command s v) (\<lambda>provider. Inr (Some provider)))
      | _ \<Rightarrow> Inr None)"

subsection \<open>Witness leases\<close>

text \<open>
  A lease keeps the instant of its request; the time elapsed since then is supplied when the
  lease is looked at.
\<close>

type_synonym lease_cache = "(SpaceId \<times> StreamId, VerifiedFreshness) btree_map"

definition aged :: "nat \<Rightarrow> VerifiedFreshness \<Rightarrow> VerifiedFreshness" where
  "aged elapsed lease = lease\<lparr>vf_elapsed_ms := elapsed\<rparr>"

definition gate_cached ::
  "lease_cache \<Rightarrow> storage_db \<Rightarrow> SpaceId \<Rightarrow> StreamId \<Rightarrow> RecordId \<Rightarrow> nat \<Rightarrow> nat \<Rightarrow> VerifiedFreshness option" where
  "gate_cached cache db sp strm head' elapsed now_ms =
     (case bt_get cache (sp, strm) of
        None \<Rightarrow> None
      | Some c \<Rightarrow>
          let lease = aged elapsed c in
          if fs_authority_head (vf_body lease) = head' \<and> is_ok (check_witness db lease now_ms) then Some lease else None)"

text \<open>The answer of the witness to a request made with the floor read before it.\<close>

definition gate_answer ::
  "('z storage_ext_scheme) \<Rightarrow> WitnessPin \<Rightarrow> HeadRequest \<Rightarrow> string \<Rightarrow> Position option \<Rightarrow> lease_cache \<Rightarrow> storage_db \<Rightarrow>
   RecordId \<Rightarrow> nat \<Rightarrow> (SpaceId \<times> StreamId \<Rightarrow> nat) \<Rightarrow> nat \<Rightarrow>
   lease_cache \<times> storage_db \<times> (StorageError + VerifiedFreshness)" where
  "gate_answer E pin request encoded floor' cache db head' elapsed ages now_ms =
     (case storage_rec (verify_freshness E pin request encoded elapsed now_ms floor') of
        Inl e \<Rightarrow> (cache, db, Inl e)
      | Inr lease \<Rightarrow>
        (case observe_witness db lease now_ms of
           Inl e \<Rightarrow> (cache, db, Inl e)
         | Inr db' \<Rightarrow>
           let k = (hr_space_id request, hr_stream_id request);
               c1 = filter (\<lambda>(k', c). freshness_valid (aged (ages k') c) now_ms) cache;
               c2 = (if length c1 \<ge> 128 \<and> \<not> bt_contains c1 k then tl c1 else c1);
               c3 = bt_insert k lease c2 in
           (c3, db', if fs_authority_head (vf_body lease) \<noteq> head' then Inl SE_Unauthorized else Inr lease)))"

subsection \<open>Commands\<close>

text \<open>The first look at the engine: a command that was answered before is answered again.\<close>

definition command_preflight ::
  "('z storage_ext_scheme) \<Rightarrow> StorageEngine \<Rightarrow> VerifiedFreshness \<Rightarrow> Verified \<Rightarrow> IpAddr \<Rightarrow> nat \<Rightarrow> StorageError + SResponse option" where
  "command_preflight E eng lease v ip now_ms =
     bindr (check_witness (sg_db eng) lease now_ms) (\<lambda>_. preflight E eng v ip (now_ms div 1000))"

text \<open>The commit, after the provider was probed and the lease renewed.\<close>

definition command_commit ::
  "('z storage_ext_scheme) \<Rightarrow> bytes option \<Rightarrow> ManagedStorage option \<Rightarrow> StorageEngine \<Rightarrow> VerifiedFreshness \<Rightarrow> Verified \<Rightarrow>
   IpAddr \<Rightarrow> nat \<Rightarrow> StorageError + storage_db \<times> SResponse" where
  "command_commit E rnd storage eng lease v ip now_ms =
     bindr (managed_for storage v) (\<lambda>managed.
     bindr (check_witness (sg_db eng) lease now_ms) (\<lambda>_.
     apply_with_managed E rnd eng v ip (now_ms div 1000) managed))"

subsection \<open>Transfers\<close>

definition service_claim ::
  "('z crypto_scheme) \<Rightarrow> storage_db \<Rightarrow> SpaceId \<times> StreamId \<times> RecordId \<Rightarrow> VerifiedFreshness \<Rightarrow> AttachmentObjectId \<Rightarrow>
   string \<Rightarrow> string \<Rightarrow> nat \<Rightarrow> StorageError + storage_db \<times> Object" where
  "service_claim E db target lease ob token action now_ms =
     bindr (check_witness db lease now_ms) (\<lambda>_.
     bindr (token_target E db ob token action (now_ms div 1000)) (\<lambda>target'.
     if target' \<noteq> target then Inl SE_Unauthorized
     else storage_claim E db ob token action (now_ms div 1000)))"

text \<open>
  The body of an upload: bytes counted and hashed so far, and whether it was too long. A chunk
  that goes over is not passed on and not hashed, and the provider sees an error.
\<close>

fun upload_stats :: "nat \<Rightarrow> nat \<times> bytes \<times> bool \<Rightarrow> bytes list \<Rightarrow> nat \<times> bytes \<times> bool" where
  "upload_stats expected st [] = st"
| "upload_stats expected (seen, hashed, over) (chunk # rest) =
     (let seen' = saturating_add seen (length chunk) in
      if seen' > expected then (seen', hashed, True)
      else upload_stats expected (seen', hashed @ chunk, over) rest)"

definition upload_valid :: "('z crypto_scheme) \<Rightarrow> Object \<Rightarrow> nat option \<Rightarrow> bytes list \<Rightarrow> bool \<Rightarrow> bool" where
  "upload_valid E obj content_length chunks put_ok \<longleftrightarrow>
     content_length = Some (oj_size obj) \<and>
     (let (seen, hashed, over) = upload_stats (oj_size obj) (0, [], False) chunks in
      put_ok \<and> \<not> over \<and> seen = oj_size obj \<and> encode_hex (sha256 E hashed) = oj_hash obj)"

text \<open>
  The body of a download: what the provider sends and what the client is sent. Every step of
  the stream yields a chunk, an error, or its end.
\<close>

datatype provider_event = Chunk bytes | Failed | TimedOut

datatype sent = Data bytes | Error_sent

fun download_stream :: "nat \<Rightarrow> nat \<Rightarrow> provider_event list \<Rightarrow> sent list" where
  "download_stream expected seen [] = (if seen = expected then [] else [Error_sent])"
| "download_stream expected seen (e # rest) =
     (case e of
        Chunk b \<Rightarrow>
          let next' = saturating_add seen (length b) in
          if next' > expected then Error_sent # download_stream expected U64_MAX rest
          else Data b # download_stream expected next' rest
      | Failed \<Rightarrow> Error_sent # download_stream expected expected rest
      | TimedOut \<Rightarrow> Error_sent # download_stream expected expected rest)"

end
