(* ===== verification/Storage_Invariant.thy ===== *)
theory Storage_Invariant
  imports Storage_Server
begin

text \<open>
  What the broker keeps true of its tables: every table is a map, no space exceeds its quota,
  the provider credentials of every stored object are there and can be opened, and a stored
  object's size, digest, creator, provider and deadline never change.
\<close>

subsection \<open>What a row fixes\<close>

type_synonym ledger_entry = "(string \<times> string) \<times> nat \<times> string \<times> nat \<times> string \<times> nat"

definition fixed :: "object_row \<Rightarrow> nat \<times> string \<times> nat \<times> string \<times> nat" where
  "fixed r = (ob_revision r, ob_creator r, ob_size r, ob_hash r, ob_expires r)"

definition ledger :: "storage_db \<Rightarrow> ledger_entry list" where
  "ledger db = map (\<lambda>e. (fst e, fixed (snd e))) (sd_objects db)"

lemma fixed_state [simp]: "fixed (r\<lparr>ob_state := s\<rparr>) = fixed r" "fixed (r\<lparr>ob_busy_until := n\<rparr>) = fixed r"
  by (simp_all add: fixed_def)

lemma ledger_modify:
  assumes "\<And>r. fixed (f r) = fixed r"
  shows "ledger (db\<lparr>sd_objects := bt_modify k f (sd_objects db)\<rparr>) = ledger db"
  by (simp add: ledger_def bt_modify_def assms)

lemma ledger_other [simp]:
  "ledger (db\<lparr>sd_heads := h\<rparr>) = ledger db" "ledger (db\<lparr>sd_settings := s\<rparr>) = ledger db"
  "ledger (db\<lparr>sd_providers := p\<rparr>) = ledger db" "ledger (db\<lparr>sd_tokens := t\<rparr>) = ledger db"
  "ledger (db\<lparr>sd_receipts := rc\<rparr>) = ledger db" "ledger (db\<lparr>sd_registrations := rg\<rparr>) = ledger db"
  "ledger (db\<lparr>sd_floor := f\<rparr>) = ledger db"
  by (simp_all add: ledger_def)

lemma ledger_get: "map_of (ledger db) k = map_option fixed (bt_get (sd_objects db) k)"
proof -
  have "map_of (map (\<lambda>e. (fst e, f (snd e))) m) k = map_option f (map_of m k)" for f and m :: "((string \<times> string) \<times> object_row) list"
    by (induction m) auto
  then show ?thesis by (simp add: ledger_def bt_get_def)
qed

definition ledger_size :: "ledger_entry \<Rightarrow> nat" where
  "ledger_size e = fst (snd (snd (snd e)))"

lemma space_objects_ledger: "length (space_objects db sp) = length (filter (\<lambda>e. fst (fst e) = sp) (ledger db))"
  by (simp add: space_objects_def ledger_def filter_map comp_def)

lemma used_bytes_ledger: "used_bytes db sp = sum_list (map ledger_size (filter (\<lambda>e. fst (fst e) = sp) (ledger db)))"
  by (simp add: used_bytes_def space_objects_def ledger_def filter_map comp_def ledger_size_def fixed_def)

subsection \<open>The invariant\<close>

definition tables_wf :: "storage_db \<Rightarrow> bool" where
  "tables_wf db \<longleftrightarrow>
     bt_wf (sd_heads db) \<and> bt_wf (sd_settings db) \<and> bt_wf (sd_providers db) \<and> bt_wf (sd_objects db)
     \<and> bt_wf (sd_tokens db) \<and> bt_wf (sd_receipts db) \<and> bt_wf (sd_registrations db)"

definition space_providers :: "storage_db \<Rightarrow> string \<Rightarrow> nat" where
  "space_providers db sp = length (filter (\<lambda>e. fst (fst e) = sp) (sd_providers db))"

definition within_quota :: "storage_db \<Rightarrow> bool" where
  "within_quota db \<longleftrightarrow>
     (\<forall>sp. used_bytes db sp \<le> MAX_SPACE_ATTACHMENT_STORAGE \<and> length (space_objects db sp) \<le> 1024
           \<and> space_providers db sp \<le> 32)
     \<and> length (sd_heads db) \<le> 128"

text \<open>The credentials stored under a provider generation open with the key of the broker.\<close>

definition secret_opens :: "('z storage_ext_scheme) \<Rightarrow> bytes \<Rightarrow> string \<Rightarrow> nat \<Rightarrow> bytes \<Rightarrow> bool" where
  "secret_opens E key sp gen secret \<longleftrightarrow>
     gen \<le> I64_MAX \<and> 40 \<le> length secret
     \<and> (\<exists>plain provider. xchacha_decrypt E key (take 24 secret) (secret_aad sp gen) (drop 24 secret) = Some plain
          \<and> de_provider E plain = Some provider)"

definition credentials_kept :: "('z storage_ext_scheme) \<Rightarrow> bytes \<Rightarrow> storage_db \<Rightarrow> bool" where
  "credentials_kept E key db \<longleftrightarrow>
     (\<forall>k r. bt_get (sd_objects db) k = Some r \<longrightarrow> bt_get (sd_providers db) (fst k, ob_revision r) \<noteq> None)
     \<and> (\<forall>sp s. bt_get (sd_settings db) sp = Some s \<and> st_enabled s \<longrightarrow>
          bt_get (sd_providers db) (sp, st_provider_revision s) \<noteq> None)
     \<and> (\<forall>sp gen secret. bt_get (sd_providers db) (sp, gen) = Some secret \<longrightarrow> secret_opens E key sp gen secret)"

definition broker_ok :: "('z storage_ext_scheme) \<Rightarrow> bytes \<Rightarrow> storage_db \<Rightarrow> bool" where
  "broker_ok E key db \<longleftrightarrow> tables_wf db \<and> within_quota db \<and> credentials_kept E key db"

text \<open>What the sealing of credentials relies on: decryption inverts encryption, which adds a tag.\<close>

definition sealing_correct :: "('z storage_ext_scheme) \<Rightarrow> bool" where
  "sealing_correct E \<longleftrightarrow>
     (\<forall>key nonce aad m c. xchacha_encrypt E key nonce aad m = Some c \<longrightarrow>
        xchacha_decrypt E key nonce aad c = Some m \<and> length c = length m + TAG_BYTES)
     \<and> (\<forall>p. de_provider E (ser_provider E p) = Some p)"

lemma broker_okD:
  assumes "broker_ok E key db"
  shows "bt_wf (sd_heads db)" "bt_wf (sd_settings db)" "bt_wf (sd_providers db)" "bt_wf (sd_objects db)"
    "bt_wf (sd_tokens db)" "bt_wf (sd_receipts db)" "bt_wf (sd_registrations db)"
    "used_bytes db sp \<le> MAX_SPACE_ATTACHMENT_STORAGE" "length (space_objects db sp) \<le> 1024"
    "space_providers db sp \<le> 32" "length (sd_heads db) \<le> 128"
    "bt_get (sd_objects db) k = Some r \<Longrightarrow> \<exists>s. bt_get (sd_providers db) (fst k, ob_revision r) = Some s"
    "bt_get (sd_settings db) sp = Some s \<Longrightarrow> st_enabled s \<Longrightarrow> \<exists>x. bt_get (sd_providers db) (sp, st_provider_revision s) = Some x"
    "bt_get (sd_providers db) (sp, gen) = Some secret \<Longrightarrow> secret_opens E key sp gen secret"
  using assms by (auto simp: broker_ok_def tables_wf_def within_quota_def credentials_kept_def simp del: split_paired_All)

lemma sealed_opens:
  assumes "sealing_correct E" "seal_provider E rnd key sp gen p = Inr secret" "rnd = Some nonce" "length nonce = 24"
    and "gen \<le> I64_MAX"
  shows "secret_opens E key sp gen secret"
  using assms by (auto simp: seal_provider_def result_simps sealing_correct_def secret_opens_def TAG_BYTES_def)

text \<open>Changes that leave quotas and credentials alone.\<close>

lemma broker_ok_frame:
  assumes "broker_ok E key db" "ledger db' = ledger db" "sd_providers db' = sd_providers db"
    "sd_settings db' = sd_settings db" "tables_wf db'" "length (sd_heads db') \<le> 128"
  shows "broker_ok E key db'"
proof -
  have "bt_get (sd_providers db) (fst k, ob_revision r) \<noteq> None" if row: "bt_get (sd_objects db') k = Some r" for k r
  proof -
    have "map_option fixed (bt_get (sd_objects db') k) = map_option fixed (bt_get (sd_objects db) k)"
      using assms(2) by (metis ledger_get)
    then obtain r' where "bt_get (sd_objects db) k = Some r'" "ob_revision r' = ob_revision r"
      using row by (cases "bt_get (sd_objects db) k") (auto simp: fixed_def)
    then show ?thesis using broker_okD(12) [OF assms(1)] by fastforce
  qed
  then show ?thesis
    using assms unfolding broker_ok_def within_quota_def credentials_kept_def
    by (simp add: used_bytes_ledger space_objects_ledger space_providers_def)
qed

lemma bt_get_filter_key:
  "bt_wf m \<Longrightarrow> bt_get (filter (\<lambda>(k, v). P k v) m) k = (case bt_get m k of Some v \<Rightarrow> if P k v then Some v else None | None \<Rightarrow> None)"
proof (induction m)
  case (Cons e m)
  obtain k' v' where e: "e = (k', v')" by (cases e)
  have fresh: "bt_get m k' = None" and wf: "bt_wf m"
    using Cons.prems e by (auto simp: bt_wf_def bt_get_None)
  have none: "bt_get (filter (\<lambda>(k, v). P k v) m) k' = None"
    using fresh by (auto simp: bt_get_None)
  show ?case using Cons.IH [OF wf] none fresh by (auto simp: e bt_get_def split: option.splits)
qed simp

text \<open>Fewer objects.\<close>

lemma broker_ok_fewer:
  assumes ok: "broker_ok E key db"
  shows "broker_ok E key (db\<lparr>sd_objects := filter (\<lambda>(k, r). P k r) (sd_objects db)\<rparr>)" (is "broker_ok E key ?db'")
proof -
  let ?in = "\<lambda>sp. filter (\<lambda>e. fst (fst e) = sp)"
  have "used_bytes ?db' sp \<le> used_bytes db sp" for sp
  proof -
    have "sum_list (map f (filter Q (filter R xs))) \<le> sum_list (map f (filter Q xs))" for f :: "_ \<Rightarrow> nat" and Q R and xs :: "((string \<times> string) \<times> object_row) list"
      by (induction xs) auto
    then show ?thesis by (simp add: used_bytes_def space_objects_def)
  qed
  moreover have "length (space_objects ?db' sp) \<le> length (space_objects db sp)" for sp
  proof -
    have "length (filter Q (filter R xs)) \<le> length (filter Q xs)" for Q R and xs :: "((string \<times> string) \<times> object_row) list"
      by (induction xs) auto
    then show ?thesis by (simp add: space_objects_def)
  qed
  ultimately have "within_quota ?db'"
    using ok unfolding broker_ok_def within_quota_def by (auto simp: space_providers_def intro: order_trans)
  moreover have "bt_get (sd_objects db) k = Some r" if "bt_get (sd_objects ?db') k = Some r" for k r
    using that by (simp add: bt_get_filter_key broker_okD(4) [OF ok] split: option.splits if_splits)
  then have "credentials_kept E key ?db'"
    using ok unfolding broker_ok_def credentials_kept_def by (simp del: split_paired_All)
  ultimately show ?thesis
    using ok unfolding broker_ok_def tables_wf_def by (simp add: bt_wf_filter)
qed

text \<open>A new object under an existing provider generation.\<close>

lemma used_bytes_insert:
  assumes "bt_get (sd_objects db) k = None"
  shows "used_bytes (db\<lparr>sd_objects := bt_insert k r (sd_objects db)\<rparr>) sp = used_bytes db sp + (if fst k = sp then ob_size r else 0)"
    and "length (space_objects (db\<lparr>sd_objects := bt_insert k r (sd_objects db)\<rparr>) sp)
           = length (space_objects db sp) + (if fst k = sp then 1 else 0)"
proof -
  let ?P = "\<lambda>e. fst (fst e) = sp"
  have m: "mset (filter ?P (bt_insert k r (sd_objects db)))
      = (if fst k = sp then add_mset (k, r) (mset (filter ?P (sd_objects db))) else mset (filter ?P (sd_objects db)))"
    by (simp add: mset_filter mset_bt_insert_fresh [OF assms])
  have "sum_mset (image_mset (ob_size \<circ> snd) (mset (filter ?P (bt_insert k r (sd_objects db)))))
      = sum_mset (image_mset (ob_size \<circ> snd) (mset (filter ?P (sd_objects db)))) + (if fst k = sp then ob_size r else 0)"
    unfolding m by simp
  then show "used_bytes (db\<lparr>sd_objects := bt_insert k r (sd_objects db)\<rparr>) sp = used_bytes db sp + (if fst k = sp then ob_size r else 0)"
    by (simp add: used_bytes_def space_objects_def flip: sum_mset_sum_list)
  have "size (mset (filter ?P (bt_insert k r (sd_objects db))))
      = size (mset (filter ?P (sd_objects db))) + (if fst k = sp then 1 else 0)"
    unfolding m by simp
  then show "length (space_objects (db\<lparr>sd_objects := bt_insert k r (sd_objects db)\<rparr>) sp)
           = length (space_objects db sp) + (if fst k = sp then 1 else 0)"
    by (simp add: space_objects_def del: mset_filter split: if_splits)
qed

lemma broker_ok_new_object:
  assumes ok: "broker_ok E key db" and fresh: "bt_get (sd_objects db) (sp, ob) = None"
    and quota: "used_bytes db sp + ob_size r \<le> MAX_SPACE_ATTACHMENT_STORAGE" "length (space_objects db sp) < 1024"
    and prov: "bt_get (sd_providers db) (sp, ob_revision r) \<noteq> None"
  shows "broker_ok E key (db\<lparr>sd_objects := bt_insert (sp, ob) r (sd_objects db)\<rparr>)"
  using ok quota prov unfolding broker_ok_def within_quota_def credentials_kept_def tables_wf_def
  by (auto simp: used_bytes_insert [OF fresh] space_providers_def)

subsection \<open>The operations of a transaction\<close>

lemma answer_status_Inr: "answer_status db sp = Inr (db', r) \<Longrightarrow> db' = db"
  by (auto simp: answer_status_def result_simps)

lemma op_configure_Inr:
  assumes "op_configure E db sp expected provider retention secret ip now = Inr (db', resp)"
  obtains regs where "space_providers db sp < 32" "expected + 1 \<le> I64_MAX"
    "bt_get (sd_providers db) (sp, expected + 1) = None"
    "bt_wf (sd_registrations db) \<longrightarrow> bt_wf regs"
    "db' = db\<lparr>sd_providers := bt_insert (sp, expected + 1) secret (sd_providers db),
       sd_settings := bt_insert sp \<lparr>st_revision = expected + 1, st_provider = Some (provider_name provider), st_enabled = True,
            st_provider_revision = expected + 1, st_retention_hours = Some retention\<rparr> (sd_settings db),
       sd_registrations := regs\<rparr>"
proof -
  have regs: "bt_wf (sd_registrations db) \<longrightarrow> bt_wf regs" if "count_registration E db expected ip now = Inr regs" for regs
    using that by (auto simp: count_registration_def Let_def result_simps split: if_splits)
  from assms obtain rs where "count_registration E db expected ip now = Inr rs" "space_providers db sp < 32"
    "expected + 1 \<le> I64_MAX" "bt_get (sd_providers db) (sp, expected + 1) = None"
    "db' = db\<lparr>sd_providers := bt_insert (sp, expected + 1) secret (sd_providers db),
       sd_settings := bt_insert sp \<lparr>st_revision = expected + 1, st_provider = Some (provider_name provider), st_enabled = True,
            st_provider_revision = expected + 1, st_retention_hours = Some retention\<rparr> (sd_settings db),
       sd_registrations := rs\<rparr>"
    unfolding op_configure_def Let_def bindr_eq_Inr guard_eq_Inr int64_eq_Inr insert_row_eq_Inr
    by (auto dest!: answer_status_Inr simp: space_providers_def)
  with that regs show thesis by blast
qed

lemma op_policy_Inr:
  "op_policy db sp expected retention = Inr (db', resp) \<Longrightarrow>
   expected \<noteq> 0 \<and> db' = db\<lparr>sd_settings :=
     bt_modify sp (\<lambda>r. r\<lparr>st_revision := st_revision r + 1, st_retention_hours := Some retention\<rparr>) (sd_settings db)\<rparr>"
  by (auto simp: op_policy_def dest!: answer_status_Inr split: if_splits)

lemma op_disable_Inr:
  "op_disable db sp expected = Inr (db', resp) \<Longrightarrow>
   expected \<noteq> 0 \<and> db' = delete_tokens (\<lambda>t. tk_space t = sp \<and> tk_action t = ''upload'')
     (db\<lparr>sd_settings := bt_modify sp (\<lambda>r. r\<lparr>st_revision := st_revision r + 1, st_enabled := False\<rparr>) (sd_settings db)\<rparr>)"
  by (auto simp: op_disable_def Let_def dest!: answer_status_Inr split: if_splits)

lemma issue_token_Inr:
  "issue_token th sp c ob action expires db = Inr db' \<Longrightarrow>
   bt_get (sd_tokens db) th = None
   \<and> db' = db\<lparr>sd_tokens := bt_insert th \<lparr>tk_space = sp, tk_object = encode_hex ob, tk_head = encode_hex (sm_config_id c),
       tk_action = action, tk_expires = expires\<rparr> (sd_tokens db)\<rparr>"
  by (auto simp: issue_token_def result_simps)

lemma op_reserve_Inr:
  assumes "op_reserve db audience token th sp c ob encrypted hash' now = Inr (db', resp)"
  obtains s hours ms tokens where
    "bt_get (sd_settings db) sp = Some s" "st_enabled s" "st_retention_hours s = Some hours" "hours \<in> {1, 12, 24}"
    "expiry_ms now hours = Some ms" "used_bytes db sp + encrypted \<le> MAX_SPACE_ATTACHMENT_STORAGE"
    "length (space_objects db sp) < 1024" "bt_get (sd_objects db) (sp, encode_hex ob) = None"
    "bt_get (sd_tokens db) th = None"
    "tokens = bt_insert th \<lparr>tk_space = sp, tk_object = encode_hex ob, tk_head = encode_hex (sm_config_id c),
       tk_action = ''upload'', tk_expires = min (saturating_add now TRANSFER_TTL) (ms div 1000)\<rparr> (sd_tokens db)"
    "db' = db\<lparr>sd_objects := bt_insert (sp, encode_hex ob)
        \<lparr>ob_revision = st_provider_revision s, ob_creator = encode_hex (sm_credential_id c), ob_size = encrypted,
         ob_hash = hash', ob_expires = ms, ob_state = ''pending'', ob_busy_until = 0\<rparr> (sd_objects db),
       sd_tokens := tokens\<rparr>"
proof -
  have sat: "saturating_add used encrypted \<le> MAX_SPACE_ATTACHMENT_STORAGE \<Longrightarrow> used + encrypted \<le> MAX_SPACE_ATTACHMENT_STORAGE" for used
    by (simp add: saturating_add_def MAX_SPACE_ATTACHMENT_STORAGE_def U64_MAX_def split: if_splits)
  show thesis
    using assms that unfolding op_reserve_def Let_def bindr_eq_Inr guard_eq_Inr int64_eq_Inr insert_row_eq_Inr ok_or_eq_Inr
      unsigned_eq_Inr
    by (auto dest!: issue_token_Inr sat simp: not_le not_less result_simps split: if_splits option.splits)
qed

lemma read_object_Inr:
  "read_object db sp ob = Inr obj \<longleftrightarrow> (\<exists>r. bt_get (sd_objects db) (sp, ob) = Some r \<and> obj = object_of sp ob r)"
  by (auto simp: read_object_def split: option.splits)

lemma object_of_sel [simp]:
  "oj_space (object_of sp ob r) = sp" "oj_object (object_of sp ob r) = ob" "oj_revision (object_of sp ob r) = ob_revision r"
  "oj_creator (object_of sp ob r) = ob_creator r" "oj_size (object_of sp ob r) = ob_size r"
  "oj_hash (object_of sp ob r) = ob_hash r" "oj_expires (object_of sp ob r) = ob_expires r"
  "oj_state (object_of sp ob r) = ob_state r"
  by (simp_all add: object_of_def)

lemma op_complete_Inr:
  assumes "op_complete db sp c ob now = Inr (db', resp)"
  obtains r where "bt_get (sd_objects db) (sp, encode_hex ob) = Some r" "ob_creator r = encode_hex (sm_credential_id c)"
    "millis now < ob_expires r" "ob_state r = ''uploaded'' \<or> ob_state r = ''complete''"
    "db' = set_state sp (encode_hex ob) ''complete'' db"
  using assms by (auto simp: op_complete_def bindr_eq_Inr read_object_Inr not_le split: if_splits)

lemma op_download_Inr:
  assumes "op_download db audience token th sp c ob now = Inr (db', resp)"
  obtains r tokens where "bt_get (sd_objects db) (sp, encode_hex ob) = Some r" "ob_state r = ''complete''"
    "millis now < ob_expires r" "bt_get (sd_tokens db) th = None"
    "tokens = bt_insert th \<lparr>tk_space = sp, tk_object = encode_hex ob, tk_head = encode_hex (sm_config_id c),
       tk_action = ''download'', tk_expires = min (saturating_add now TRANSFER_TTL) (ob_expires r div 1000)\<rparr> (sd_tokens db)"
    "db' = db\<lparr>sd_tokens := tokens\<rparr>"
  using assms by (auto simp: op_download_def Let_def bindr_eq_Inr read_object_Inr not_le dest!: issue_token_Inr split: if_splits)

lemma op_cancel_object_Inr:
  assumes "op_cancel_object db sp a c ob = Inr (db', resp)"
  obtains r where "bt_get (sd_objects db) (sp, encode_hex ob) = Some r"
    "ob_creator r = encode_hex (sm_credential_id c) \<or> can_manage a (sm_credential_id c)"
    "ob_state r \<noteq> ''uploading''" "ob_state r \<noteq> ''complete''"
    "db' = delete_tokens (\<lambda>t. tk_space t = sp \<and> tk_object t = encode_hex ob) (set_state sp (encode_hex ob) ''deleting'' db)"
  using assms by (auto simp: op_cancel_object_def bindr_eq_Inr read_object_Inr split: if_splits)

lemma frame_sel [simp]:
  "ledger (set_state sp ob s db) = ledger db" "ledger (delete_tokens P db) = ledger db"
  "sd_providers (set_state sp ob s db) = sd_providers db" "sd_providers (delete_tokens P db) = sd_providers db"
  "sd_settings (set_state sp ob s db) = sd_settings db" "sd_settings (delete_tokens P db) = sd_settings db"
  "sd_heads (set_state sp ob s db) = sd_heads db" "sd_heads (delete_tokens P db) = sd_heads db"
  "sd_receipts (set_state sp ob s db) = sd_receipts db" "sd_receipts (delete_tokens P db) = sd_receipts db"
  "sd_floor (set_state sp ob s db) = sd_floor db" "sd_floor (delete_tokens P db) = sd_floor db"
  "sd_registrations (set_state sp ob s db) = sd_registrations db" "sd_registrations (delete_tokens P db) = sd_registrations db"
  "sd_tokens (set_state sp ob s db) = sd_tokens db" "sd_objects (delete_tokens P db) = sd_objects db"
  by (simp_all add: set_state_def delete_tokens_def ledger_modify)

lemma tables_wf_simps [simp]:
  "tables_wf db \<Longrightarrow> tables_wf (set_state sp ob s db)" "tables_wf db \<Longrightarrow> tables_wf (delete_tokens P db)"
  by (simp_all add: tables_wf_def set_state_def delete_tokens_def)

lemma broker_ok_tokens: "broker_ok E key db \<Longrightarrow> bt_wf t \<Longrightarrow> broker_ok E key (db\<lparr>sd_tokens := t\<rparr>)"
  by (rule broker_ok_frame) (auto simp: broker_ok_def tables_wf_def within_quota_def)

lemma broker_ok_delete_tokens: "broker_ok E key db \<Longrightarrow> broker_ok E key (delete_tokens P db)"
  by (rule broker_ok_frame) (auto simp: broker_ok_def within_quota_def)

lemma broker_ok_set_state: "broker_ok E key db \<Longrightarrow> broker_ok E key (set_state sp ob s db)"
  by (rule broker_ok_frame) (auto simp: broker_ok_def within_quota_def)

lemma broker_ok_settings:
  assumes "broker_ok E key db" "bt_wf m"
    and "\<And>sp s. bt_get m sp = Some s \<Longrightarrow> st_enabled s \<Longrightarrow>
      \<exists>s'. bt_get (sd_settings db) sp = Some s' \<and> st_enabled s' \<and> st_provider_revision s' = st_provider_revision s"
  shows "broker_ok E key (db\<lparr>sd_settings := m\<rparr>)"
proof -
  have "bt_get (sd_providers db) (sp, st_provider_revision s) \<noteq> None" if "bt_get m sp = Some s" "st_enabled s" for sp s
    using assms(3) [OF that] broker_okD(13) [OF assms(1)] by fastforce
  then show ?thesis
    using assms(1,2) unfolding broker_ok_def credentials_kept_def tables_wf_def within_quota_def
    by (simp add: used_bytes_def space_objects_def space_providers_def)
qed

lemma broker_ok_configure:
  assumes ok: "broker_ok E key db" and c: "op_configure E db sp expected provider retention secret ip now = Inr (db', resp)"
    and s: "secret_opens E key sp (expected + 1) secret"
  shows "broker_ok E key db'"
proof -
  from c obtain regs where n: "space_providers db sp < 32"
    and "expected + 1 \<le> I64_MAX" and fresh: "bt_get (sd_providers db) (sp, expected + 1) = None"
    and wf: "bt_wf (sd_registrations db) \<longrightarrow> bt_wf regs"
    and db': "db' = db\<lparr>sd_providers := bt_insert (sp, expected + 1) secret (sd_providers db),
       sd_settings := bt_insert sp \<lparr>st_revision = expected + 1, st_provider = Some (provider_name provider), st_enabled = True,
            st_provider_revision = expected + 1, st_retention_hours = Some retention\<rparr> (sd_settings db),
       sd_registrations := regs\<rparr>"
    by (rule op_configure_Inr)
  have "mset (filter (\<lambda>e. fst (fst e) = p) (bt_insert (sp, expected + 1) secret (sd_providers db)))
      = (if sp = p then {#((sp, expected + 1), secret)#} else {#}) + mset (filter (\<lambda>e. fst (fst e) = p) (sd_providers db))" for p
    using mset_bt_insert_fresh [OF fresh, of secret] by simp
  from arg_cong [OF this, of size] n broker_okD(10) [OF ok]
  have "space_providers db' p \<le> 32" for p
    by (auto simp: db' space_providers_def Suc_le_eq simp del: mset_filter split: if_splits)
  then have "within_quota db'"
    using ok by (simp add: broker_ok_def within_quota_def db' used_bytes_def space_objects_def)
  moreover have "credentials_kept E key db'"
    using ok s unfolding broker_ok_def credentials_kept_def db' by auto
  moreover have "tables_wf db'"
    using ok wf by (simp add: broker_ok_def tables_wf_def db')
  ultimately show ?thesis by (simp add: broker_ok_def)
qed

end
