(* ===== verification/Storage_Service.thy ===== *)
theory Storage_Service
  imports Storage_Invariant
begin

text \<open>
  The broker as a machine: commands, leases, transfers, garbage collection and restarts in any
  order, over a clock that does not go back. The invariant of the tables is kept by every step.
\<close>

subsection \<open>Commands\<close>

text \<open>What a command that is not answered from a receipt went through.\<close>

lemma apply_new:
  assumes "apply_with_managed E rnd eng v ip now managed = Inr (db', resp)"
  obtains "preflight E eng v ip now = Inr (Some resp)" "db' = sg_db eng"
  | conf conf' db1 db2 where "preflight E eng v ip now = Inr None"
    "configuration managed (sm_operation (vd_command v)) = Inr conf"
    "sealed_configuration E rnd (sg_key eng) (encode_hex (sm_space_id (vd_command v))) conf = Inr conf'"
    "storage_operation E eng v ip now conf' = Inr (db1, resp)" "advance_head v db1 = Inr db2"
    "store_receipt E v now resp db2 = Inr db'"
proof -
  from assms obtain replayed where r: "preflight E eng v ip now = Inr replayed"
    and cont: "(case replayed of Some response \<Rightarrow> Inr (sg_db eng, response)
     | None \<Rightarrow> let c = vd_command v; sp = encode_hex (sm_space_id c) in
       bindr (configuration managed (sm_operation c)) (\<lambda>conf.
       bindr (sealed_configuration E rnd (sg_key eng) sp conf) (\<lambda>conf'.
       bindr (storage_operation E eng v ip now conf') (\<lambda>(db1, response).
       bindr (advance_head v db1) (\<lambda>db2.
       bindr (store_receipt E v now response db2) (\<lambda>db3.
       Inr (db3, response))))))) = Inr (db', resp)"
    unfolding apply_with_managed_def bindr_eq_Inr by blast
  show thesis
  proof (cases replayed)
    case None
    from cont [unfolded None option.case Let_def bindr_eq_Inr] show thesis
      using that(2) r None by (auto simp: bindr_eq_Inr split: prod.splits)
  next
    case (Some response)
    then show thesis using that(1) r cont by simp
  qed
qed

lemma authorize_Inr:
  assumes "storage_authorize eng v now = Inr ()"
  shows "now < sm_expires_at (vd_command v)"
    and "op_manages (sm_operation (vd_command v)) \<Longrightarrow> can_manage (vd_authority v) (sm_credential_id (vd_command v))"
    and "bt_get (sd_heads (sg_db eng)) (encode_hex (sm_space_id (vd_command v))) = None \<Longrightarrow>
      sm_operation (vd_command v) = S_Status
      \<or> op_first (sm_operation (vd_command v)) \<and> length (sd_heads (sg_db eng)) < sg_max_spaces eng"
    and "bt_get (sd_heads (sg_db eng)) (encode_hex (sm_space_id (vd_command v))) = Some row \<Longrightarrow>
      hd_stream row = encode_hex (sm_stream_id (vd_command v))
      \<and> (\<exists>h. parse_hex 32 (hd_head row) = Inr h
           \<and> (sm_config_id (vd_command v) = h \<or> proves_config_at (vd_authority v) h (hd_sequence row)))"
  using assms by (auto simp: storage_authorize_def Let_def result_simps not_le split: if_splits option.splits)

lemma preflight_Inr:
  assumes "preflight E eng v ip now = Inr None"
  shows "storage_authorize eng v now = Inr ()" "op_validate (sm_operation (vd_command v)) = Inr ()"
    "bt_get (sd_receipts (sg_db eng)) (encode_hex (sm_credential_id (vd_command v)), sm_nonce (vd_command v)) = None"
    "expected_revision (sm_operation (vd_command v)) = Some n \<Longrightarrow>
       \<exists>status. status_from (sg_db eng) (encode_hex (sm_space_id (vd_command v))) = Inr status \<and> ss_revision status = n"
proof -
  from assms obtain replayed where a: "storage_authorize eng v now = Inr ()" "op_validate (sm_operation (vd_command v)) = Inr ()"
    and r: "storage_replay E eng v = Inr replayed"
    and rest: "(if replayed \<noteq> None then Inr replayed
     else
     bindr (int64 (saturating_sub now 60)) (\<lambda>since.
     if recent_receipts (sg_db eng) (encode_hex (sm_credential_id (vd_command v))) since \<ge> 60 then Inl SE_Limit
     else
     (case expected_revision (sm_operation (vd_command v)) of
        None \<Rightarrow> Inr None
      | Some expected \<Rightarrow>
        bindr (status_from (sg_db eng) (encode_hex (sm_space_id (vd_command v)))) (\<lambda>status.
        if ss_revision status \<noteq> expected then Inl SE_Conflict
        else if expected = 0 \<and> configures (sm_operation (vd_command v)) then
          bindr (int64 (now div 86400)) (\<lambda>day.
          bindr (unsigned (registration_count (sg_db eng) (\<lambda>i. i = ip_hash E ip) day)) (\<lambda>mine.
          bindr (unsigned (registration_count (sg_db eng) (\<lambda>_. True) day)) (\<lambda>all'.
          if mine \<ge> 4 \<or> all' \<ge> 32 then Inl SE_Limit else Inr None)))
        else Inr None)))) = Inr None"
    unfolding preflight_def Let_def bindr_eq_Inr storage_rec_iff by auto
  from rest have none: "replayed = None" by (cases replayed) auto
  show "storage_authorize eng v now = Inr ()" "op_validate (sm_operation (vd_command v)) = Inr ()" by fact+
  show "bt_get (sd_receipts (sg_db eng)) (encode_hex (sm_credential_id (vd_command v)), sm_nonce (vd_command v)) = None"
    using r none by (auto simp: storage_replay_def Let_def result_simps split: option.splits if_splits)
  show "\<exists>status. status_from (sg_db eng) (encode_hex (sm_space_id (vd_command v))) = Inr status \<and> ss_revision status = n"
    if "expected_revision (sm_operation (vd_command v)) = Some n"
    using rest none that by (auto simp: bindr_eq_Inr guard_eq_Inr split: if_splits)
qed

text \<open>A sealed configuration can be opened again, and says what the command said.\<close>

lemma sealed_configuration_Inr:
  assumes "sealed_configuration E rnd key sp conf = Inr (Some (expected, provider, retention, secret))"
  shows "conf = Some (expected, provider, retention)" "seal_provider E rnd key sp (expected + 1) provider = Inr secret"
  using assms by (auto simp: sealed_configuration_def result_simps split: option.splits)

lemma configuration_Inr:
  "configuration managed op = Inr (Some (expected, provider, retention)) \<Longrightarrow>
   configures op \<and> expected_revision op = Some expected"
  by (auto simp: configuration_def configures_def expected_revision_def result_simps split: SOperation.splits)

lemma int64_sound: "op_validate op = Inr () \<Longrightarrow> configures op \<Longrightarrow> expected_revision op = Some n \<Longrightarrow> n + 1 \<le> I64_MAX"
  by (auto simp: op_validate_def configures_def expected_revision_def MAX_INTEGER_def I64_MAX_def split: SOperation.splits if_splits)

definition fresh_nonce :: "bytes option \<Rightarrow> bool" where
  "fresh_nonce rnd \<longleftrightarrow> (\<forall>nonce. rnd = Some nonce \<longrightarrow> length nonce = 24)"

lemma storage_operation_ok:
  assumes ok: "broker_ok E (sg_key eng) (sg_db eng)" and E: "sealing_correct E" and rnd: "fresh_nonce rnd"
    and pre: "preflight E eng v ip now = Inr None"
    and conf: "configuration managed (sm_operation (vd_command v)) = Inr conf"
      "sealed_configuration E rnd (sg_key eng) (encode_hex (sm_space_id (vd_command v))) conf = Inr conf'"
    and run: "storage_operation E eng v ip now conf' = Inr (db1, resp)"
  shows "broker_ok E (sg_key eng) db1"
proof -
  let ?c = "vd_command v" let ?sp = "encode_hex (sm_space_id ?c)"
  note run = run [unfolded storage_operation_def Let_def]
  have configure: "broker_ok E (sg_key eng) db1"
    if "bindr (ok_or conf' SE_Invalid) (\<lambda>(expected, provider, retention, secret).
          op_configure E (sg_db eng) ?sp expected provider retention secret ip now) = Inr (db1, resp)"
  proof -
    from that obtain expected provider retention secret
      where c': "conf' = Some (expected, provider, retention, secret)"
        and op: "op_configure E (sg_db eng) ?sp expected provider retention secret ip now = Inr (db1, resp)"
      by (auto simp: result_simps)
    note s = sealed_configuration_Inr [OF conf(2) [unfolded c']]
    note f = configuration_Inr [OF conf(1) [unfolded s(1)]]
    from s(2) obtain nonce where "rnd = Some nonce" by (auto simp: seal_provider_def result_simps)
    with sealed_opens [OF E s(2) this] rnd int64_sound [OF preflight_Inr(2) [OF pre]] f
    show ?thesis by (intro broker_ok_configure [OF ok op]) (auto simp: fresh_nonce_def)
  qed
  show ?thesis
  proof (cases "sm_operation ?c")
    case S_Status
    then show ?thesis using run ok by (auto dest: answer_status_Inr)
  next
    case (S_Configure expected provider retention)
    then show ?thesis using run configure by simp
  next
    case (S_ConfigureManaged expected retention)
    then show ?thesis using run configure by simp
  next
    case (S_Policy expected retention)
    then have d: "db1 = (sg_db eng)\<lparr>sd_settings :=
        bt_modify ?sp (\<lambda>r. r\<lparr>st_revision := st_revision r + 1, st_retention_hours := Some retention\<rparr>) (sd_settings (sg_db eng))\<rparr>"
      using run by (auto dest: op_policy_Inr)
    show ?thesis unfolding d
      by (rule broker_ok_settings [OF ok]) (auto simp: broker_okD(2) [OF ok] split: if_splits option.splits)
  next
    case (S_Disable expected)
    then have d: "db1 = delete_tokens (\<lambda>t. tk_space t = ?sp \<and> tk_action t = ''upload'')
      ((sg_db eng)\<lparr>sd_settings := bt_modify ?sp (\<lambda>r. r\<lparr>st_revision := st_revision r + 1, st_enabled := False\<rparr>)
         (sd_settings (sg_db eng))\<rparr>)"
      using run by (auto dest: op_disable_Inr)
    show ?thesis unfolding d
      by (rule broker_ok_delete_tokens, rule broker_ok_settings [OF ok])
        (auto simp: broker_okD(2) [OF ok] split: if_splits option.splits)
  next
    case (S_Reserve ob encrypted hash')
    with run have "op_reserve (sg_db eng) (sg_audience eng) (transfer_token E (sg_key eng) (vd_request_id v))
        (storage_hash E (transfer_token E (sg_key eng) (vd_request_id v))) ?sp ?c ob encrypted hash' now = Inr (db1, resp)"
      by simp
    then show ?thesis
    proof (rule op_reserve_Inr)
      fix s :: settings_row and hours ms tokens
      let ?th = "storage_hash E (transfer_token E (sg_key eng) (vd_request_id v))"
      let ?t = "\<lparr>tk_space = ?sp, tk_object = encode_hex ob, tk_head = encode_hex (sm_config_id ?c),
       tk_action = ''upload'', tk_expires = min (saturating_add now TRANSFER_TTL) (ms div 1000)\<rparr>"
      let ?r = "\<lparr>ob_revision = st_provider_revision s, ob_creator = encode_hex (sm_credential_id ?c), ob_size = encrypted,
         ob_hash = hash', ob_expires = ms, ob_state = ''pending'', ob_busy_until = 0\<rparr>"
      assume s: "bt_get (sd_settings (sg_db eng)) ?sp = Some s" "st_enabled s"
        and q: "used_bytes (sg_db eng) ?sp + encrypted \<le> MAX_SPACE_ATTACHMENT_STORAGE"
          "length (space_objects (sg_db eng) ?sp) < 1024" "bt_get (sd_objects (sg_db eng)) (?sp, encode_hex ob) = None"
        and tokens: "tokens = bt_insert ?th ?t (sd_tokens (sg_db eng))"
        and d: "db1 = (sg_db eng)\<lparr>sd_objects := bt_insert (?sp, encode_hex ob) ?r (sd_objects (sg_db eng)), sd_tokens := tokens\<rparr>"
      have "broker_ok E (sg_key eng) ((sg_db eng)\<lparr>sd_objects := bt_insert (?sp, encode_hex ob) ?r (sd_objects (sg_db eng))\<rparr>)"
        using broker_okD(13) [OF ok s] q by (intro broker_ok_new_object [OF ok]) auto
      from broker_ok_tokens [OF this, of tokens] show ?thesis
        unfolding d tokens by (simp add: broker_okD(5) [OF ok])
    qed
  next
    case (S_Complete ob)
    with run show ?thesis using ok by (auto elim!: op_complete_Inr intro: broker_ok_set_state)
  next
    case (S_Download ob)
    with run show ?thesis
      using ok broker_okD(5) [OF ok] by (auto elim!: op_download_Inr intro: broker_ok_tokens)
  next
    case (S_Cancel ob)
    with run show ?thesis using ok by (auto elim!: op_cancel_object_Inr intro: broker_ok_set_state broker_ok_delete_tokens)
  qed
qed

lemma storage_operation_frame:
  assumes "storage_operation E eng v ip now conf = Inr (db1, resp)"
  shows "sd_heads db1 = sd_heads (sg_db eng)" "sd_receipts db1 = sd_receipts (sg_db eng)" "sd_floor db1 = sd_floor (sg_db eng)"
  using assms unfolding storage_operation_def Let_def
  by (auto simp: bindr_eq_Inr dest!: answer_status_Inr op_policy_Inr op_disable_Inr
      elim!: op_configure_Inr op_reserve_Inr op_complete_Inr op_download_Inr op_cancel_object_Inr split: SOperation.splits)

lemma advance_head_Inr:
  assumes "advance_head v db = Inr db'"
  obtains "db' = db" "\<not> bt_contains (sd_heads db) (encode_hex (sm_space_id (vd_command v)))"
    "\<not> configures (sm_operation (vd_command v))"
  | h row where "head (vd_authority v) = Inr h"
    "hd_head row = encode_hex (sm_config_id (vd_command v))" "hd_sequence row = sc_sequence h"
    "hd_stream row = (case bt_get (sd_heads db) (encode_hex (sm_space_id (vd_command v))) of
        Some old \<Rightarrow> hd_stream old | None \<Rightarrow> encode_hex (sm_stream_id (vd_command v)))"
    "bt_contains (sd_heads db) (encode_hex (sm_space_id (vd_command v))) \<or> configures (sm_operation (vd_command v))"
    "db' = db\<lparr>sd_heads := bt_insert (encode_hex (sm_space_id (vd_command v))) row (sd_heads db)\<rparr>"
proof (cases "bt_contains (sd_heads db) (encode_hex (sm_space_id (vd_command v))) \<or> configures (sm_operation (vd_command v))")
  case True
  with assms obtain h where "head (vd_authority v) = Inr h"
    "db' = db\<lparr>sd_heads := bt_insert (encode_hex (sm_space_id (vd_command v)))
       (case bt_get (sd_heads db) (encode_hex (sm_space_id (vd_command v))) of
          Some old \<Rightarrow> old\<lparr>hd_head := encode_hex (sm_config_id (vd_command v)), hd_sequence := sc_sequence h\<rparr>
        | None \<Rightarrow> \<lparr>hd_stream = encode_hex (sm_stream_id (vd_command v)), hd_head = encode_hex (sm_config_id (vd_command v)),
            hd_sequence = sc_sequence h\<rparr>) (sd_heads db)\<rparr>"
    unfolding advance_head_def Let_def by (auto simp: result_simps)
  with True show thesis by (intro that(2)) (auto split: option.splits)
next
  case False
  with assms that(1) show thesis by (auto simp: advance_head_def Let_def)
qed

lemma store_receipt_Inr:
  "store_receipt E v now resp db = Inr db' \<Longrightarrow>
   bt_get (sd_receipts db) (encode_hex (sm_credential_id (vd_command v)), sm_nonce (vd_command v)) = None
   \<and> db' = db\<lparr>sd_receipts := bt_insert (encode_hex (sm_credential_id (vd_command v)), sm_nonce (vd_command v))
      \<lparr>rc_request = encode_hex (vd_request_id v), rc_response = ser_sresponse E (cleared resp),
       rc_expires = sm_expires_at (vd_command v), rc_created = now\<rparr> (sd_receipts db)\<rparr>"
  by (auto simp: store_receipt_def Let_def result_simps)

lemma first_expected: "op_first op \<Longrightarrow> configures op"
  by (auto simp: op_first_def configures_def split: SOperation.splits)

lemma apply_ok:
  assumes ok: "broker_ok E (sg_key eng) (sg_db eng)" and E: "sealing_correct E" and rnd: "fresh_nonce rnd"
    and max: "sg_max_spaces eng \<le> 128" and app: "apply_with_managed E rnd eng v ip now managed = Inr (db', resp)"
  shows "broker_ok E (sg_key eng) db'"
  using app
proof (cases rule: apply_new)
  case 1
  then show ?thesis using ok by simp
next
  case (2 conf conf' db1 db2)
  let ?sp = "encode_hex (sm_space_id (vd_command v))"
  have ok1: "broker_ok E (sg_key eng) db1" by (rule storage_operation_ok [OF ok E rnd 2(1-4)])
  note h = storage_operation_frame(1) [OF 2(4)]
  have room: "length (sd_heads db1) < 128" if "bt_get (sd_heads db1) ?sp = None" "configures (sm_operation (vd_command v))"
    using authorize_Inr(3) [OF preflight_Inr(1) [OF 2(1)]] that max h by (auto simp: configures_def)
  have ok2: "broker_ok E (sg_key eng) db2"
    using 2(5)
  proof (cases rule: advance_head_Inr)
    case 1
    then show ?thesis using ok1 by simp
  next
    case (2 hh row)
    have "length (bt_insert ?sp row (sd_heads db1)) \<le> 128"
      by (rule insert_length [OF broker_okD(1,11) [OF ok1]]) (use 2(5) room in \<open>auto simp: bt_contains_def\<close>)
    with ok1 show ?thesis unfolding 2(6) by (intro broker_ok_frame [OF ok1]) (auto simp: broker_ok_def tables_wf_def)
  qed
  show ?thesis
    using store_receipt_Inr [OF 2(6)] ok2
    by (intro broker_ok_frame [OF ok2]) (auto simp: broker_ok_def tables_wf_def within_quota_def)
qed

subsection \<open>The life of an object\<close>

text \<open>What a command does to a stored object.\<close>

definition command_row :: "object_row \<Rightarrow> object_row \<Rightarrow> bool" where
  "command_row r r' \<longleftrightarrow>
     r' = r
     \<or> (ob_state r = ''uploaded'' \<and> r' = r\<lparr>ob_state := ''complete''\<rparr>)
     \<or> (ob_state r \<notin> {''uploading'', ''complete''} \<and> r' = r\<lparr>ob_state := ''deleting''\<rparr>)"

lemma set_state_row:
  "bt_get (sd_objects (set_state sp ob s db)) k =
     (if k = (sp, ob) then map_option (\<lambda>r. r\<lparr>ob_state := s\<rparr>) (bt_get (sd_objects db) k) else bt_get (sd_objects db) k)"
  by (simp add: set_state_def split: option.splits)

lemma storage_operation_rows:
  assumes "storage_operation E eng v ip now conf = Inr (db1, resp)"
  shows "bt_get (sd_objects (sg_db eng)) k = Some r \<Longrightarrow> \<exists>r'. bt_get (sd_objects db1) k = Some r' \<and> command_row r r'"
    and "bt_get (sd_objects (sg_db eng)) k = None \<Longrightarrow> bt_get (sd_objects db1) k = Some r \<Longrightarrow>
      ob_state r = ''pending'' \<and> fst k = encode_hex (sm_space_id (vd_command v))
      \<and> ob_creator r = encode_hex (sm_credential_id (vd_command v))
      \<and> (\<exists>ob. snd k = encode_hex ob \<and> sm_operation (vd_command v) = S_Reserve ob (ob_size r) (ob_hash r))"
proof -
  let ?c = "vd_command v" let ?sp = "encode_hex (sm_space_id ?c)" let ?th = "storage_hash E (transfer_token E (sg_key eng) (vd_request_id v))"
  consider (same) "sd_objects db1 = sd_objects (sg_db eng)"
    | (reserve) ob encrypted hash' where "sm_operation ?c = S_Reserve ob encrypted hash'"
      "op_reserve (sg_db eng) (sg_audience eng) (transfer_token E (sg_key eng) (vd_request_id v)) ?th ?sp ?c ob encrypted hash' now = Inr (db1, resp)"
    | (complete) ob where "op_complete (sg_db eng) ?sp ?c ob now = Inr (db1, resp)"
    | (cancel) ob where "op_cancel_object (sg_db eng) ?sp (vd_authority v) ?c ob = Inr (db1, resp)"
    using assms unfolding storage_operation_def Let_def
    by (auto simp: bindr_eq_Inr dest!: answer_status_Inr op_policy_Inr op_disable_Inr
        elim!: op_configure_Inr op_download_Inr split: SOperation.splits)
  then have "(bt_get (sd_objects (sg_db eng)) k = Some r \<longrightarrow> (\<exists>r'. bt_get (sd_objects db1) k = Some r' \<and> command_row r r'))
    \<and> (bt_get (sd_objects (sg_db eng)) k = None \<longrightarrow> bt_get (sd_objects db1) k = Some r \<longrightarrow>
      ob_state r = ''pending'' \<and> fst k = ?sp \<and> ob_creator r = encode_hex (sm_credential_id ?c)
      \<and> (\<exists>ob. snd k = encode_hex ob \<and> sm_operation ?c = S_Reserve ob (ob_size r) (ob_hash r)))"
  proof cases
    case same
    then show ?thesis by (auto simp: command_row_def)
  next
    case (reserve ob encrypted hash')
    from reserve(2) show ?thesis by (rule op_reserve_Inr) (auto simp: command_row_def reserve(1))
  next
    case (complete ob)
    then show ?thesis by (rule op_complete_Inr) (auto simp: command_row_def set_state_row)
  next
    case (cancel ob)
    then show ?thesis by (rule op_cancel_object_Inr) (auto simp: command_row_def set_state_row)
  qed
  then show "bt_get (sd_objects (sg_db eng)) k = Some r \<Longrightarrow> \<exists>r'. bt_get (sd_objects db1) k = Some r' \<and> command_row r r'"
    and "bt_get (sd_objects (sg_db eng)) k = None \<Longrightarrow> bt_get (sd_objects db1) k = Some r \<Longrightarrow>
      ob_state r = ''pending'' \<and> fst k = ?sp \<and> ob_creator r = encode_hex (sm_credential_id ?c)
      \<and> (\<exists>ob. snd k = encode_hex ob \<and> sm_operation ?c = S_Reserve ob (ob_size r) (ob_hash r))"
    by blast+
qed

lemma apply_objects:
  assumes "apply_with_managed E rnd eng v ip now managed = Inr (db', resp)"
  shows "sd_objects db' = sd_objects (sg_db eng) \<or> (\<exists>conf db1 resp'. storage_operation E eng v ip now conf = Inr (db1, resp')
     \<and> sd_objects db' = sd_objects db1)"
  using assms
proof (cases rule: apply_new)
  case (2 conf conf' db1 db2)
  have "sd_objects db2 = sd_objects db1" using 2(5) by (cases rule: advance_head_Inr) auto
  with 2(4) store_receipt_Inr [OF 2(6)] show ?thesis by auto
qed simp

lemma apply_rows:
  assumes "apply_with_managed E rnd eng v ip now managed = Inr (db', resp)"
  shows "bt_get (sd_objects (sg_db eng)) k = Some r \<Longrightarrow> \<exists>r'. bt_get (sd_objects db') k = Some r' \<and> command_row r r'"
    and "bt_get (sd_objects (sg_db eng)) k = None \<Longrightarrow> bt_get (sd_objects db') k = Some r \<Longrightarrow> ob_state r = ''pending''"
  using apply_objects [OF assms] by (auto simp: command_row_def dest: storage_operation_rows)

subsection \<open>The machine\<close>

record StorageService =
  sy_engine :: StorageEngine
  sy_now :: nat
  sy_cache :: lease_cache
  sy_uploads :: "Object list"
  sy_collecting :: "Object list"
  sy_blobs :: "string \<times> string \<Rightarrow> bytes option"

abbreviation sy_db :: "StorageService \<Rightarrow> storage_db" where
  "sy_db sv \<equiv> sg_db (sy_engine sv)"

definition with_db :: "StorageService \<Rightarrow> storage_db \<Rightarrow> StorageService" where
  "with_db sv db = sv\<lparr>sy_engine := (sy_engine sv)\<lparr>sg_db := db\<rparr>\<rparr>"

lemma with_db_sel [simp]:
  "sy_db (with_db sv db) = db" "sg_key (sy_engine (with_db sv db)) = sg_key (sy_engine sv)"
  "sg_max_spaces (sy_engine (with_db sv db)) = sg_max_spaces (sy_engine sv)"
  "sg_audience (sy_engine (with_db sv db)) = sg_audience (sy_engine sv)"
  "sy_now (with_db sv db) = sy_now sv" "sy_cache (with_db sv db) = sy_cache sv" "sy_uploads (with_db sv db) = sy_uploads sv"
  "sy_collecting (with_db sv db) = sy_collecting sv" "sy_blobs (with_db sv db) = sy_blobs sv"
  by (simp_all add: with_db_def)

abbreviation object_key :: "Object \<Rightarrow> string \<times> string" where
  "object_key obj \<equiv> (oj_space obj, oj_object obj)"

text \<open>A lease that came from the pinned witness in answer to a request for the given scope.\<close>

definition witness_lease ::
  "('z storage_ext_scheme) \<Rightarrow> WitnessPin \<Rightarrow> SpaceId \<Rightarrow> StreamId \<Rightarrow> VerifiedFreshness \<Rightarrow> bool" where
  "witness_lease E pin sp strm lease \<longleftrightarrow>
     (\<exists>request encoded elapsed now_ms floor' lease0.
        verify_freshness E pin request encoded elapsed now_ms floor' = Inr lease0
        \<and> hr_space_id request = sp \<and> hr_stream_id request = strm \<and> vf_body lease = vf_body lease0)"

definition storage_columns :: "string list" where
  "storage_columns = [''space'', ''revision'', ''provider'', ''enabled'', ''provider_revision'', ''retention_hours'']"

text \<open>
  Every step of the service. \<open>sy_blobs\<close> is what the provider holds: an accepted upload stores its
  bytes, an abandoned one leaves anything, a deletion removes them. One collection runs at a
  time (\<^verbatim>\<open>main.rs\<close> awaits \<^verbatim>\<open>maintain\<close> in a single loop). A restart keeps the tables and the key and
  loses everything in memory.
\<close>

inductive storage_step ::
  "('z storage_ext_scheme) \<Rightarrow> WitnessPin \<Rightarrow> ManagedStorage option \<Rightarrow> StorageService \<Rightarrow> StorageService \<Rightarrow> bool"
  for E pin storage where
  s_clock: "sy_now sv \<le> t \<Longrightarrow> t \<le> U64_MAX \<Longrightarrow> storage_step E pin storage sv (sv\<lparr>sy_now := t\<rparr>)"
| s_lease: "gate_answer E pin request encoded floor' (sy_cache sv) (sy_db sv) head' elapsed ages (sy_now sv) = (cache', db', answer) \<Longrightarrow>
    storage_step E pin storage sv ((with_db sv db')\<lparr>sy_cache := cache'\<rparr>)"
| s_command: "Verified_new E request (sg_audience (sy_engine sv)) t pin = Inr v \<Longrightarrow> t \<le> sy_now sv div 1000 \<Longrightarrow>
    witness_lease E pin (sm_space_id (vd_command v)) (sm_stream_id (vd_command v)) lease \<Longrightarrow>
    fs_authority_head (vf_body lease) = sm_config_id (vd_command v) \<Longrightarrow> fresh_nonce rnd \<Longrightarrow>
    command_commit E rnd storage (sy_engine sv) lease v ip (sy_now sv) = Inr (db', response) \<Longrightarrow>
    storage_step E pin storage sv (with_db sv db')"
| s_upload: "witness_lease E pin sp strm lease \<Longrightarrow> fs_authority_head (vf_body lease) = head' \<Longrightarrow>
    service_claim E (sy_db sv) (sp, strm, head') lease ob token ''upload'' (sy_now sv) = Inr (db', obj) \<Longrightarrow>
    storage_step E pin storage sv ((with_db sv db')\<lparr>sy_uploads := obj # sy_uploads sv\<rparr>)"
| s_download: "witness_lease E pin sp strm lease \<Longrightarrow> fs_authority_head (vf_body lease) = head' \<Longrightarrow>
    service_claim E (sy_db sv) (sp, strm, head') lease ob token ''download'' (sy_now sv) = Inr (db', obj) \<Longrightarrow>
    storage_step E pin storage sv (with_db sv db')"
| s_stored: "obj \<in> set (sy_uploads sv) \<Longrightarrow> upload_valid E obj content_length chunks put_ok \<Longrightarrow>
    storage_step E pin storage sv ((with_db sv (upload_finished (sy_db sv) obj True))
      \<lparr>sy_uploads := remove1 obj (sy_uploads sv), sy_blobs := (sy_blobs sv)(object_key obj \<mapsto> concat chunks)\<rparr>)"
| s_abandoned: "obj \<in> set (sy_uploads sv) \<Longrightarrow>
    storage_step E pin storage sv ((with_db sv (upload_finished (sy_db sv) obj False))
      \<lparr>sy_uploads := remove1 obj (sy_uploads sv), sy_blobs := (sy_blobs sv)(object_key obj := left)\<rparr>)"
| s_collect: "sy_collecting sv = [] \<Longrightarrow> garbage (sy_db sv) (sy_now sv div 1000) chosen \<Longrightarrow>
    storage_step E pin storage sv (sv\<lparr>sy_collecting := chosen\<rparr>)"
| s_deleted: "sy_collecting sv = obj # rest \<Longrightarrow>
    storage_step E pin storage sv ((with_db sv (object_deleted (sy_db sv) obj))
      \<lparr>sy_collecting := rest, sy_blobs := (sy_blobs sv)(object_key obj := None)\<rparr>)"
| s_skipped: "sy_collecting sv = obj # rest \<Longrightarrow> left = sy_blobs sv (object_key obj) \<or> left = None \<Longrightarrow>
    storage_step E pin storage sv (sv\<lparr>sy_collecting := rest, sy_blobs := (sy_blobs sv)(object_key obj := left)\<rparr>)"
| s_stopped: "storage_step E pin storage sv (sv\<lparr>sy_collecting := []\<rparr>)"
| s_prune: "storage_step E pin storage sv (with_db sv (storage_prune (sy_db sv) (sy_now sv div 1000)))"
| s_restart: "Broker_open (Inr (sg_key (sy_engine sv))) storage_columns (sy_db sv) audience max_spaces = Inr eng' \<Longrightarrow>
    \<forall>k. k \<notin> object_key ` set (sy_uploads sv) \<longrightarrow> blobs k = sy_blobs sv k \<Longrightarrow>
    storage_step E pin storage sv (sv\<lparr>sy_engine := eng', sy_cache := [], sy_uploads := [], sy_collecting := [], sy_blobs := blobs\<rparr>)"

definition empty_storage :: storage_db where
  "empty_storage = \<lparr>sd_heads = [], sd_settings = [], sd_providers = [], sd_objects = [], sd_tokens = [], sd_receipts = [],
     sd_registrations = [], sd_floor = None\<rparr>"

definition storage_start :: "('z storage_ext_scheme) \<Rightarrow> WitnessPin \<Rightarrow> StorageService \<Rightarrow> bool" where
  "storage_start E pin sv \<longleftrightarrow>
     (\<exists>key audience max_spaces eng db.
        Broker_open (Inr key) storage_columns empty_storage audience max_spaces = Inr eng
        \<and> pin_witness E (sg_db eng) pin = Inr db \<and> sy_engine sv = eng\<lparr>sg_db := db\<rparr>)
     \<and> sy_now sv \<le> U64_MAX \<and> sy_cache sv = [] \<and> sy_uploads sv = [] \<and> sy_collecting sv = []"

abbreviation storage_run where
  "storage_run E pin storage \<equiv> (storage_step E pin storage)\<^sup>*\<^sup>*"

end
