(* ===== verification/Storage_Guarantees.thy ===== *)
theory Storage_Guarantees
  imports Storage_Service
begin

text \<open>
  What the broker guarantees to the spaces that use it, in every run: quotas, the credentials and
  the bytes behind every stored attachment, a completed attachment until its deadline, one
  effect per command, and commits only under a fresh statement of the witness.
\<close>

subsection \<open>The invariant of the service\<close>

text \<open>The clock in whole seconds, in milliseconds.\<close>

definition sy_second :: "StorageService \<Rightarrow> nat" where
  "sy_second sv = sy_now sv div 1000 * 1000"

definition collecting_ok :: "StorageService \<Rightarrow> bool" where
  "collecting_ok sv \<longleftrightarrow>
     (\<forall>obj \<in> set (sy_collecting sv). \<exists>r. bt_get (sd_objects (sy_db sv)) (object_key obj) = Some r
        \<and> ob_state r \<noteq> ''uploading'' \<and> (ob_state r = ''deleting'' \<or> ob_expires r \<le> sy_second sv))
     \<and> distinct (map object_key (sy_collecting sv))"

definition uploads_ok :: "StorageService \<Rightarrow> bool" where
  "uploads_ok sv \<longleftrightarrow>
     (\<forall>obj \<in> set (sy_uploads sv). \<exists>r. bt_get (sd_objects (sy_db sv)) (object_key obj) = Some r
        \<and> ob_state r = ''uploading'' \<and> oj_size obj = ob_size r \<and> oj_hash obj = ob_hash r)
     \<and> distinct (map object_key (sy_uploads sv))"

text \<open>The provider holds bytes of the reserved size and digest.\<close>

definition blob_matches :: "('z storage_ext_scheme) \<Rightarrow> bytes option \<Rightarrow> object_row \<Rightarrow> bool" where
  "blob_matches E blob r \<longleftrightarrow>
     (\<exists>b. blob = Some b \<and> length b = ob_size r \<and> encode_hex (sha256 E b) = ob_hash r)"

definition blobs_ok :: "('z storage_ext_scheme) \<Rightarrow> StorageService \<Rightarrow> bool" where
  "blobs_ok E sv \<longleftrightarrow>
     (\<forall>k r. bt_get (sd_objects (sy_db sv)) k = Some r \<longrightarrow> ob_state r \<in> {''uploaded'', ''complete''} \<longrightarrow>
        sy_second sv < ob_expires r \<longrightarrow> blob_matches E (sy_blobs sv k) r)"

definition storage_ok :: "('z storage_ext_scheme) \<Rightarrow> StorageService \<Rightarrow> bool" where
  "storage_ok E sv \<longleftrightarrow>
     broker_ok E (sg_key (sy_engine sv)) (sy_db sv) \<and> sy_now sv \<le> U64_MAX \<and> sg_max_spaces (sy_engine sv) \<le> 128
     \<and> collecting_ok sv \<and> uploads_ok sv \<and> blobs_ok E sv"

lemma millis_second: "sy_now sv \<le> U64_MAX \<Longrightarrow> millis (sy_now sv div 1000) = sy_second sv"
  by (simp add: millis_def sy_second_def U64_MAX_def)

lemma second_mono: "sy_now sv \<le> t \<Longrightarrow> sy_second sv \<le> sy_second (sv\<lparr>sy_now := t\<rparr>)"
  by (simp add: sy_second_def div_le_mono)

lemma sy_second_simps [simp]:
  "sy_second (with_db sv db) = sy_second sv" "sy_second (sv\<lparr>sy_uploads := u\<rparr>) = sy_second sv"
  "sy_second (sv\<lparr>sy_collecting := c\<rparr>) = sy_second sv" "sy_second (sv\<lparr>sy_blobs := b\<rparr>) = sy_second sv"
  "sy_second (sv\<lparr>sy_cache := ca\<rparr>) = sy_second sv" "sy_second (sv\<lparr>sy_engine := e\<rparr>) = sy_second sv"
  by (simp_all add: sy_second_def)

subsection \<open>The bytes of an upload\<close>

text \<open>While the body is not too long, every chunk is counted and hashed.\<close>

lemma upload_stats_not_over:
  assumes "seen + length (concat chunks) < U64_MAX \<or> expected < U64_MAX" "upload_stats expected (seen, hashed, False) chunks = (n, h, False)"
  shows "h = hashed @ concat chunks \<and> n = seen + length (concat chunks)"
  using assms
proof (induction chunks arbitrary: seen hashed)
  case (Cons c cs)
  let ?s = "saturating_add seen (length c)"
  from Cons.prems(2) have le: "\<not> ?s > expected" and rest: "upload_stats expected (?s, hashed @ c, False) cs = (n, h, False)"
    by (auto simp: Let_def split: if_splits)
  from Cons.prems(1) le have s: "?s = seen + length c" by (auto simp: saturating_add_def split: if_splits)
  with Cons.IH [OF _ rest] Cons.prems(1) show ?case by (auto simp: add.assoc)
qed simp

lemma upload_valid_bytes:
  assumes "upload_valid E obj content_length chunks put_ok" "oj_size obj < U64_MAX"
  shows "length (concat chunks) = oj_size obj \<and> encode_hex (sha256 E (concat chunks)) = oj_hash obj"
proof -
  obtain n h over where s: "upload_stats (oj_size obj) (0, [], False) chunks = (n, h, over)" by (cases rule: prod_cases3)
  with assms(1) have "\<not> over" "n = oj_size obj" "encode_hex (sha256 E h) = oj_hash obj" by (auto simp: upload_valid_def)
  with upload_stats_not_over [of 0 chunks "oj_size obj" "[]" n h] s assms(2) show ?thesis by simp
qed

subsection \<open>Steps\<close>

text \<open>A table change that only moves rows the way a command does keeps what the service holds in memory.\<close>

lemma collecting_ok_rows:
  assumes "collecting_ok sv" and "sy_collecting sv' = sy_collecting sv" "sy_second sv \<le> sy_second sv'"
    and "\<And>k r. bt_get (sd_objects (sy_db sv)) k = Some r \<Longrightarrow> ob_state r \<noteq> ''uploading'' \<Longrightarrow>
      ob_state r = ''deleting'' \<or> ob_expires r \<le> sy_second sv \<Longrightarrow>
      \<exists>r'. bt_get (sd_objects (sy_db sv')) k = Some r' \<and> ob_state r' \<noteq> ''uploading''
        \<and> (ob_state r' = ''deleting'' \<or> ob_expires r' \<le> sy_second sv)"
  shows "collecting_ok sv'"
  unfolding collecting_ok_def assms(2)
proof (intro conjI ballI)
  fix obj assume "obj \<in> set (sy_collecting sv)"
  with assms(1) obtain r where "bt_get (sd_objects (sy_db sv)) (object_key obj) = Some r" "ob_state r \<noteq> ''uploading''"
    "ob_state r = ''deleting'' \<or> ob_expires r \<le> sy_second sv" unfolding collecting_ok_def by blast
  from assms(4) [OF this] assms(3) show "\<exists>r. bt_get (sd_objects (sy_db sv')) (object_key obj) = Some r \<and> ob_state r \<noteq> ''uploading''
      \<and> (ob_state r = ''deleting'' \<or> ob_expires r \<le> sy_second sv')" by (meson order_trans)
qed (use assms(1) in \<open>simp add: collecting_ok_def\<close>)

lemma uploads_ok_rows:
  assumes "uploads_ok sv" and "sy_uploads sv' = sy_uploads sv"
    and "\<And>k r. bt_get (sd_objects (sy_db sv)) k = Some r \<Longrightarrow> ob_state r = ''uploading'' \<Longrightarrow>
      bt_get (sd_objects (sy_db sv')) k = Some r"
  shows "uploads_ok sv'"
  using assms(1) unfolding uploads_ok_def assms(2) by (blast intro: assms(3))

lemma blobs_ok_rows:
  assumes "blobs_ok E sv" and "sy_blobs sv' = sy_blobs sv" "sy_second sv \<le> sy_second sv'"
    and "\<And>k r. bt_get (sd_objects (sy_db sv')) k = Some r \<Longrightarrow> ob_state r \<in> {''uploaded'', ''complete''} \<Longrightarrow>
      \<exists>r0. bt_get (sd_objects (sy_db sv)) k = Some r0 \<and> ob_state r0 \<in> {''uploaded'', ''complete''} \<and> fixed r0 = fixed r"
  shows "blobs_ok E sv'"
  unfolding blobs_ok_def
proof (intro allI impI)
  fix k r assume r: "bt_get (sd_objects (sy_db sv')) k = Some r" "ob_state r \<in> {''uploaded'', ''complete''}" "sy_second sv' < ob_expires r"
  from assms(4) [OF r(1,2)] obtain r0 where r0: "bt_get (sd_objects (sy_db sv)) k = Some r0"
    "ob_state r0 \<in> {''uploaded'', ''complete''}" "fixed r0 = fixed r" by blast
  with r(3) assms(3) have "sy_second sv < ob_expires r0" by (simp add: fixed_def)
  with assms(1) r0 have "blob_matches E (sy_blobs sv k) r0" unfolding blobs_ok_def by blast
  with r0(3) assms(2) show "blob_matches E (sy_blobs sv' k) r" by (simp add: blob_matches_def fixed_def)
qed

lemma same_objects_ok:
  assumes "collecting_ok sv" "uploads_ok sv" "blobs_ok E sv" "sd_objects (sy_db sv') = sd_objects (sy_db sv)"
    "sy_collecting sv' = sy_collecting sv" "sy_uploads sv' = sy_uploads sv" "sy_blobs sv' = sy_blobs sv" "sy_second sv \<le> sy_second sv'"
  shows "collecting_ok sv'" "uploads_ok sv'" "blobs_ok E sv'"
  by (rule collecting_ok_rows [OF assms(1)] uploads_ok_rows [OF assms(2)] blobs_ok_rows [OF assms(3)]; use assms in auto)+

text \<open>Leases and the witness floor do not touch the objects.\<close>

lemma observe_witness_frame:
  "observe_witness db lease now_ms = Inr db' \<Longrightarrow> \<exists>f. db' = db\<lparr>sd_floor := f\<rparr>"
  by (auto simp: observe_witness_def Let_def result_simps split: option.splits)

lemma gate_answer_db:
  assumes "gate_answer E pin request encoded floor' cache db head' elapsed ages now_ms = (cache', db', answer)"
  obtains "db' = db" "cache' = cache" | lease where "observe_witness db lease now_ms = Inr db'"
    "verify_freshness E pin request encoded elapsed now_ms floor' = Inr lease"
  using assms unfolding gate_answer_def
  by (auto simp: Let_def result_simps split: sum.splits)

lemma broker_ok_floor: "broker_ok E key db \<Longrightarrow> broker_ok E key (db\<lparr>sd_floor := f\<rparr>)"
  by (rule broker_ok_frame) (auto simp: broker_ok_def tables_wf_def within_quota_def)

lemma gate_answer_ok:
  assumes "gate_answer E pin request encoded floor' cache db head' elapsed ages now_ms = (cache', db', answer)"
    and "broker_ok E key db"
  shows "broker_ok E key db'" "sd_objects db' = sd_objects db"
  using assms by (auto elim!: gate_answer_db dest!: observe_witness_frame intro: broker_ok_floor)

text \<open>Claiming a token.\<close>

lemma claim_row_Inr:
  assumes "claim_row db sp ob th action now = Inr (db', obj)"
  obtains r where "bt_get (sd_objects db) (sp, ob) = Some r" "obj = object_of sp ob r" "millis now < ob_expires r"
    "action = ''upload'' \<longrightarrow> ob_state r = ''pending''" "action = ''download'' \<longrightarrow> ob_state r = ''complete''"
    "db' = (if action = ''upload''
       then db\<lparr>sd_objects := bt_modify (sp, ob)
              (\<lambda>r. r\<lparr>ob_state := ''uploading'', ob_busy_until := saturating_add now 100\<rparr>) (sd_objects db)\<rparr> else db)
       \<lparr>sd_tokens := bt_remove th (sd_tokens db)\<rparr>"
proof -
  from assms obtain r where r: "bt_get (sd_objects db) (sp, ob) = Some r"
    and rest: "(if ob_expires r \<le> millis now \<or> (action = ''upload'' \<and> ob_state r \<noteq> ''pending'')
        \<or> (action = ''download'' \<and> ob_state r \<noteq> ''complete'') then Inl SE_Missing
     else bindr (if action = ''upload'' then
              bindr (int64 (saturating_add now 100)) (\<lambda>busy.
              Inr (db\<lparr>sd_objects := bt_modify (sp, ob)
                (\<lambda>r. r\<lparr>ob_state := ''uploading'', ob_busy_until := busy\<rparr>) (sd_objects db)\<rparr>))
            else Inr db) (\<lambda>db'.
     Inr (db'\<lparr>sd_tokens := bt_remove th (sd_tokens db')\<rparr>, object_of sp ob r))) = Inr (db', obj)"
    unfolding claim_row_def bindr_eq_Inr read_object_Inr by auto
  from rest show thesis
    by (intro that [OF r]) (auto simp: result_simps not_le split: if_splits)
qed

lemma storage_claim_Inr:
  assumes "storage_claim E db ob token action now = Inr (db', obj)"
  obtains t h where "token_matches db (storage_hash E token) ob action now = Some (t, h)"
    "claim_row db (tk_space t) (encode_hex ob) (storage_hash E token) action now = Inr (db', obj)"
  using assms unfolding storage_claim_def by (auto simp: bindr_eq_Inr int64_eq_Inr ok_or_eq_Inr)

lemma service_claim_Inr:
  "service_claim E db target lease ob token action now_ms = Inr (db', obj) \<Longrightarrow>
   check_witness db lease now_ms = Inr () \<and> token_target E db ob token action (now_ms div 1000) = Inr target
   \<and> storage_claim E db ob token action (now_ms div 1000) = Inr (db', obj)"
  by (auto simp: service_claim_def result_simps)

lemma broker_ok_claim:
  assumes ok: "broker_ok E key db" and c: "storage_claim E db ob token action now = Inr (db', obj)"
  shows "broker_ok E key db'"
proof -
  from c obtain sp th where "claim_row db sp (encode_hex ob) th action now = Inr (db', obj)" by (rule storage_claim_Inr)
  then show ?thesis
  proof (rule claim_row_Inr)
    let ?f = "\<lambda>r. r\<lparr>ob_state := ''uploading'', ob_busy_until := saturating_add now 100\<rparr>"
    let ?db = "if action = ''upload'' then db\<lparr>sd_objects := bt_modify (sp, encode_hex ob) ?f (sd_objects db)\<rparr> else db"
    assume db': "db' = ?db\<lparr>sd_tokens := bt_remove th (sd_tokens db)\<rparr>"
    have f: "fixed (?f r) = fixed r" for r :: object_row by simp
    have "broker_ok E key ?db"
      using ok by (intro broker_ok_frame [OF ok]) (auto simp: ledger_modify [OF f] broker_ok_def tables_wf_def within_quota_def)
    then show ?thesis unfolding db' by (rule broker_ok_tokens) (simp add: broker_okD(5) [OF ok])
  qed
qed

lemma claim_upload_objects:
  assumes "storage_claim E db ob token ''upload'' now = Inr (db', obj)"
  obtains r where "bt_get (sd_objects db) (object_key obj) = Some r" "ob_state r = ''pending''" "millis now < ob_expires r"
    "oj_size obj = ob_size r" "oj_hash obj = ob_hash r"
    "sd_objects db' = bt_modify (object_key obj)
       (\<lambda>r. r\<lparr>ob_state := ''uploading'', ob_busy_until := saturating_add now 100\<rparr>) (sd_objects db)"
proof -
  from assms obtain sp th where "claim_row db sp (encode_hex ob) th ''upload'' now = Inr (db', obj)" by (rule storage_claim_Inr)
  then show thesis by (rule claim_row_Inr) (auto intro: that)
qed

lemma claim_download_objects:
  assumes "storage_claim E db ob token ''download'' now = Inr (db', obj)"
  shows "sd_objects db' = sd_objects db"
proof -
  from assms obtain sp th where "claim_row db sp (encode_hex ob) th ''download'' now = Inr (db', obj)" by (rule storage_claim_Inr)
  then show ?thesis by (rule claim_row_Inr) simp
qed

text \<open>Finishing an upload.\<close>

lemma upload_finished_row:
  "bt_get (sd_objects (upload_finished db obj success)) k =
     (case bt_get (sd_objects db) k of
        None \<Rightarrow> None
      | Some r \<Rightarrow> if k = object_key obj \<and> ob_state r = ''uploading''
          then Some (if success then r\<lparr>ob_state := ''uploaded'', ob_busy_until := 0\<rparr> else r\<lparr>ob_state := ''deleting''\<rparr>) else Some r)"
  by (auto simp: upload_finished_def split: option.splits)

lemma broker_ok_finished: "broker_ok E key db \<Longrightarrow> broker_ok E key (upload_finished db obj success)"
  unfolding upload_finished_def
  by (rule broker_ok_frame, assumption) (auto simp: ledger_modify broker_ok_def tables_wf_def within_quota_def)

text \<open>Deleting.\<close>

lemma object_deleted_row:
  "bt_wf (sd_objects db) \<Longrightarrow> bt_get (sd_objects (object_deleted db obj)) k =
     (case bt_get (sd_objects db) k of
        None \<Rightarrow> None
      | Some r \<Rightarrow> if k = object_key obj \<and> ob_state r \<noteq> ''uploading'' then None else Some r)"
  by (auto simp: object_deleted_def Let_def bt_get_filter_key split: option.splits)

lemma broker_ok_deleted: "broker_ok E key db \<Longrightarrow> broker_ok E key (object_deleted db obj)"
  unfolding object_deleted_def Let_def
  by (intro broker_ok_fewer [where P = "\<lambda>k r. \<not> (k = object_key obj \<and> ob_state r \<noteq> ''uploading'')"] broker_ok_delete_tokens)

text \<open>Pruning keeps every generation of credentials that an object or the settings name.\<close>

lemma provider_needed_object:
  "bt_get (sd_objects db) k = Some r \<Longrightarrow> provider_needed db (fst k, ob_revision r)"
  using bt_get_in [of "sd_objects db" k r] unfolding provider_needed_def list_ex_iff
  by (intro disjI1 bexI [of _ "(k, r)"]) (auto simp: case_prod_beta)

lemma provider_needed_settings:
  "bt_get (sd_settings db) sp = Some s \<Longrightarrow> st_enabled s \<Longrightarrow> provider_needed db (sp, st_provider_revision s)"
  using bt_get_in [of "sd_settings db" sp s] unfolding provider_needed_def list_ex_iff
  by (intro disjI2 bexI [of _ "(sp, s)"]) auto

lemma broker_ok_providers:
  assumes ok: "broker_ok E key db" and needed: "\<And>k. provider_needed db k \<Longrightarrow> P k"
  shows "broker_ok E key (db\<lparr>sd_providers := filter (\<lambda>(k, _). P k) (sd_providers db)\<rparr>)" (is "broker_ok E key ?db'")
proof -
  note get = bt_get_filter_key [OF broker_okD(3) [OF ok], of "\<lambda>k _. P k"]
  have sub: "length (filter Q (filter R xs)) \<le> length (filter Q xs)" for Q R and xs :: "((string \<times> nat) \<times> bytes) list"
    by (induction xs) auto
  have "space_providers ?db' sp \<le> 32" for sp
    using order_trans [OF sub broker_okD(10) [OF ok, of sp, unfolded space_providers_def]]
    by (simp add: space_providers_def del: filter_filter)
  then have "within_quota ?db'" using ok by (simp add: broker_ok_def within_quota_def used_bytes_def space_objects_def)
  moreover have "credentials_kept E key ?db'"
    unfolding credentials_kept_def
  proof (intro conjI allI impI)
    fix k r assume "bt_get (sd_objects ?db') k = Some r"
    then have r: "bt_get (sd_objects db) k = Some r" by simp
    from broker_okD(12) [OF ok r] needed [OF provider_needed_object [OF r]]
    show "bt_get (sd_providers ?db') (fst k, ob_revision r) \<noteq> None" by (auto simp: get)
  next
    fix sp s assume "bt_get (sd_settings ?db') sp = Some s \<and> st_enabled s"
    then have s: "bt_get (sd_settings db) sp = Some s" "st_enabled s" by simp_all
    from broker_okD(13) [OF ok s] needed [OF provider_needed_settings [OF s]]
    show "bt_get (sd_providers ?db') (sp, st_provider_revision s) \<noteq> None" by (auto simp: get)
  next
    fix sp n secret assume "bt_get (sd_providers ?db') (sp, n) = Some secret"
    then show "secret_opens E key sp n secret"
      using broker_okD(14) [OF ok, of sp n secret] by (auto simp: get split: option.splits if_splits)
  qed
  ultimately show ?thesis using ok by (simp add: broker_ok_def tables_wf_def bt_wf_filter)
qed

lemma broker_ok_prune:
  assumes "broker_ok E key db"
  shows "broker_ok E key (storage_prune db now)" "sd_objects (storage_prune db now) = sd_objects db"
proof -
  have receipts: "broker_ok E key (db\<lparr>sd_receipts := bt_retain P (sd_receipts db)\<rparr>)" for P
    using assms by (intro broker_ok_frame [OF assms]) (auto simp: broker_ok_def tables_wf_def within_quota_def)
  have regs: "broker_ok E key (db'\<lparr>sd_registrations := filter P (sd_registrations db')\<rparr>)" if "broker_ok E key db'" for P db'
    using that by (intro broker_ok_frame [OF that]) (auto simp: broker_ok_def tables_wf_def within_quota_def bt_wf_filter)
  let ?db1 = "db\<lparr>sd_receipts := bt_retain (\<lambda>r. \<not> rc_expires r < saturating_sub now 60) (sd_receipts db)\<rparr>"
  let ?db2 = "delete_tokens (\<lambda>t. tk_expires t \<le> now) ?db1"
  let ?db3 = "?db2\<lparr>sd_registrations := filter (\<lambda>(k, _). \<not> snd k < now div 86400) (sd_registrations ?db2)\<rparr>"
  let ?db4 = "?db3\<lparr>sd_providers := filter (\<lambda>(k, _). provider_needed ?db3 k) (sd_providers ?db3)\<rparr>"
  have "storage_prune db now = db \<or> storage_prune db now = ?db1 \<or> storage_prune db now = ?db4"
    by (simp add: storage_prune_def int64_def Let_def)
  moreover have ok3: "broker_ok E key ?db3" by (intro regs broker_ok_delete_tokens receipts)
  moreover have "broker_ok E key ?db4" by (rule broker_ok_providers [OF ok3])
  ultimately show "broker_ok E key (storage_prune db now)" using assms receipts by metis
  show "sd_objects (storage_prune db now) = sd_objects db"
    by (auto simp: storage_prune_def Let_def split: sum.splits)
qed

text \<open>Opening the tables again.\<close>

lemma open_again:
  assumes "Broker_open (Inr key) storage_columns db audience max_spaces = Inr eng'"
  shows "sg_key eng' = key" "sg_max_spaces eng' \<le> 128"
    "sg_db eng' = db\<lparr>sd_objects := map (\<lambda>(k, r). (k, interrupt_upload r)) (sd_objects db)\<rparr>"
  using assms
  by (auto simp: Broker_open_def migrate_settings_def storage_columns_def result_simps Let_def split: if_splits)

lemma interrupt_row:
  "bt_get (map (\<lambda>(k, r). (k, interrupt_upload r)) m) k = map_option interrupt_upload (bt_get m k)"
  by (induction m) (auto simp: bt_get_def)

lemma broker_ok_interrupt:
  assumes "broker_ok E key db"
  shows "broker_ok E key (db\<lparr>sd_objects := map (\<lambda>(k, r). (k, interrupt_upload r)) (sd_objects db)\<rparr>)"
proof -
  have "fixed (interrupt_upload r) = fixed r" for r by (simp add: interrupt_upload_def)
  then have "ledger (db\<lparr>sd_objects := map (\<lambda>(k, r). (k, interrupt_upload r)) (sd_objects db)\<rparr>) = ledger db"
    by (simp add: ledger_def case_prod_beta)
  then show ?thesis
    using assms by (intro broker_ok_frame [OF assms])
      (auto simp: broker_ok_def tables_wf_def within_quota_def bt_wf_def case_prod_beta comp_def)
qed

text \<open>What a collection pass starts with.\<close>

lemma garbage_row:
  assumes "garbage db now chosen" "obj \<in> set chosen" "bt_wf (sd_objects db)"
  shows "\<exists>r. bt_get (sd_objects db) (object_key obj) = Some r \<and> obj = object_of (oj_space obj) (oj_object obj) r
     \<and> ob_state r \<noteq> ''uploading'' \<and> (ob_state r = ''deleting'' \<or> ob_expires r \<le> now * 1000)"
  using assms
  by (fastforce simp: garbage_def garbage_rows_def result_simps is_garbage_def saturating_mul_def bt_get_iff
      split: sum.splits dest!: subsetD)

lemma garbage_distinct:
  assumes "garbage db now chosen" "bt_wf (sd_objects db)"
  shows "distinct (map object_key chosen)"
proof -
  have "inj_on object_key (set chosen)"
  proof (rule inj_onI)
    fix a b assume "a \<in> set chosen" "b \<in> set chosen" "object_key a = object_key b"
    with garbage_row [OF assms(1) _ assms(2)] show "a = b" by (metis option.inject prod.inject)
  qed
  moreover have "distinct chosen" using assms(1) by (auto simp: garbage_def split: sum.splits)
  ultimately show ?thesis by (simp add: distinct_map)
qed

subsection \<open>Every step keeps the invariant\<close>

lemma storage_okD:
  assumes "storage_ok E sv"
  shows "broker_ok E (sg_key (sy_engine sv)) (sy_db sv)" "sy_now sv \<le> U64_MAX" "sg_max_spaces (sy_engine sv) \<le> 128"
    "collecting_ok sv" "uploads_ok sv" "blobs_ok E sv"
  using assms by (simp_all add: storage_ok_def)

lemma storage_ok_same_objects:
  assumes ok: "storage_ok E sv" and "broker_ok E (sg_key (sy_engine sv')) (sy_db sv')" "sy_now sv' \<le> U64_MAX"
    "sg_max_spaces (sy_engine sv') \<le> 128" "sd_objects (sy_db sv') = sd_objects (sy_db sv)"
    "sy_collecting sv' = sy_collecting sv" "sy_uploads sv' = sy_uploads sv" "sy_blobs sv' = sy_blobs sv" "sy_second sv \<le> sy_second sv'"
  shows "storage_ok E sv'"
  using assms(2-4) same_objects_ok [OF storage_okD(4-6) [OF ok] assms(5-9)] by (simp add: storage_ok_def)

lemma command_commit_Inr:
  "command_commit E rnd storage eng lease v ip now_ms = Inr (db', resp) \<Longrightarrow>
   check_witness (sg_db eng) lease now_ms = Inr ()
   \<and> (\<exists>managed. managed_for storage v = Inr managed \<and> apply_with_managed E rnd eng v ip (now_ms div 1000) managed = Inr (db', resp))"
  by (auto simp: command_commit_def result_simps)

lemma command_step_ok:
  assumes ok: "storage_ok E sv" and E: "sealing_correct E" "fresh_nonce rnd"
    and c: "command_commit E rnd storage (sy_engine sv) lease v ip (sy_now sv) = Inr (db', resp)"
  shows "storage_ok E (with_db sv db')"
proof -
  from command_commit_Inr [OF c] obtain managed
    where app: "apply_with_managed E rnd (sy_engine sv) v ip (sy_now sv div 1000) managed = Inr (db', resp)" by blast
  note rows = apply_rows [OF app]
  have "collecting_ok (with_db sv db')"
    by (rule collecting_ok_rows [OF storage_okD(4) [OF ok]]) (auto simp: command_row_def dest!: rows(1))
  moreover have "uploads_ok (with_db sv db')"
    by (rule uploads_ok_rows [OF storage_okD(5) [OF ok]]) (auto simp: command_row_def dest!: rows(1))
  moreover have "blobs_ok E (with_db sv db')"
  proof (rule blobs_ok_rows [OF storage_okD(6) [OF ok]])
    fix k r assume r: "bt_get (sd_objects (sy_db (with_db sv db'))) k = Some r" "ob_state r \<in> {''uploaded'', ''complete''}"
    show "\<exists>r0. bt_get (sd_objects (sy_db sv)) k = Some r0 \<and> ob_state r0 \<in> {''uploaded'', ''complete''} \<and> fixed r0 = fixed r"
    proof (cases "bt_get (sd_objects (sy_db sv)) k")
      case None
      with rows(2) r show ?thesis by auto
    next
      case (Some r0)
      with rows(1) [OF Some] r show ?thesis by (auto simp: command_row_def)
    qed
  qed auto
  ultimately show ?thesis
    using apply_ok [OF storage_okD(1) [OF ok] E storage_okD(3) [OF ok] app] ok by (simp add: storage_ok_def)
qed

lemma upload_step_ok:
  assumes ok: "storage_ok E sv" and c: "storage_claim E (sy_db sv) ob token ''upload'' (sy_now sv div 1000) = Inr (db', obj)"
  shows "storage_ok E ((with_db sv db')\<lparr>sy_uploads := obj # sy_uploads sv\<rparr>)" (is "storage_ok E ?sv'")
  using c
proof (rule claim_upload_objects)
  fix r assume r: "bt_get (sd_objects (sy_db sv)) (object_key obj) = Some r" "ob_state r = ''pending''"
      "millis (sy_now sv div 1000) < ob_expires r" "oj_size obj = ob_size r" "oj_hash obj = ob_hash r"
    and objs: "sd_objects db' = bt_modify (object_key obj)
       (\<lambda>r. r\<lparr>ob_state := ''uploading'', ob_busy_until := saturating_add (sy_now sv div 1000) 100\<rparr>) (sd_objects (sy_db sv))"
  note second = r(3) [unfolded millis_second [OF storage_okD(2) [OF ok]]]
  have get: "bt_get (sd_objects db') k = (if k = object_key obj
      then Some (r\<lparr>ob_state := ''uploading'', ob_busy_until := saturating_add (sy_now sv div 1000) 100\<rparr>)
      else bt_get (sd_objects (sy_db sv)) k)" for k
    using r(1) by (simp add: objs)
  have "collecting_ok ?sv'"
    by (rule collecting_ok_rows [OF storage_okD(4) [OF ok]]) (use second r(1,2) in \<open>auto simp: get\<close>)
  moreover have "object_key obj \<notin> object_key ` set (sy_uploads sv)"
    using storage_okD(5) [OF ok] r(1,2) unfolding uploads_ok_def by (fastforce dest: bspec)
  then have "uploads_ok ?sv'"
    using storage_okD(5) [OF ok] r(4,5) unfolding uploads_ok_def by (auto simp: get image_iff)
  moreover have "blobs_ok E ?sv'"
    by (rule blobs_ok_rows [OF storage_okD(6) [OF ok]]) (auto simp: get split: if_splits)
  ultimately show ?thesis
    using broker_ok_claim [OF storage_okD(1) [OF ok] c] ok by (simp add: storage_ok_def)
qed

text \<open>The quota keeps the size of an upload far below the end of the counter.\<close>

lemma upload_size:
  assumes "storage_ok E sv" "obj \<in> set (sy_uploads sv)"
  shows "oj_size obj < U64_MAX"
proof -
  from storage_okD(5) [OF assms(1)] assms(2) obtain r where r: "bt_get (sd_objects (sy_db sv)) (object_key obj) = Some r"
    "oj_size obj = ob_size r" unfolding uploads_ok_def by blast
  have "(k, x) \<in> set m \<Longrightarrow> fst k = p \<Longrightarrow> f x \<le> sum_list (map (f \<circ> snd) (filter (\<lambda>e. fst (fst e) = p) m))"
    for k p and f :: "object_row \<Rightarrow> nat" and x and m :: "((string \<times> string) \<times> object_row) list" by (induction m) auto
  from this [OF bt_get_in [OF r(1)], of "oj_space obj" ob_size] broker_okD(8) [OF storage_okD(1) [OF assms(1)], of "oj_space obj"]
  show ?thesis by (simp add: r(2) used_bytes_def space_objects_def MAX_SPACE_ATTACHMENT_STORAGE_def U64_MAX_def)
qed

lemma finish_step_ok:
  assumes ok: "storage_ok E sv" and obj: "obj \<in> set (sy_uploads sv)"
    and good: "success \<Longrightarrow> blob = Some b \<and> length b = oj_size obj \<and> encode_hex (sha256 E b) = oj_hash obj"
  shows "storage_ok E ((with_db sv (upload_finished (sy_db sv) obj success))
      \<lparr>sy_uploads := remove1 obj (sy_uploads sv), sy_blobs := (sy_blobs sv)(object_key obj := blob)\<rparr>)" (is "storage_ok E ?sv'")
proof -
  from storage_okD(5) [OF ok] obj obtain r where r: "bt_get (sd_objects (sy_db sv)) (object_key obj) = Some r"
    "ob_state r = ''uploading''" "oj_size obj = ob_size r" "oj_hash obj = ob_hash r" unfolding uploads_ok_def by blast
  have d: "distinct (map object_key (sy_uploads sv))" using storage_okD(5) [OF ok] by (simp add: uploads_ok_def)
  have get: "bt_get (sd_objects (upload_finished (sy_db sv) obj success)) k = (if k = object_key obj
      then Some (if success then r\<lparr>ob_state := ''uploaded'', ob_busy_until := 0\<rparr> else r\<lparr>ob_state := ''deleting''\<rparr>)
      else bt_get (sd_objects (sy_db sv)) k)" for k
    using r(1,2) by (auto simp: upload_finished_row split: option.splits)
  have "collecting_ok ?sv'"
    by (rule collecting_ok_rows [OF storage_okD(4) [OF ok]]) (use r(1,2) in \<open>auto simp: get\<close>)
  moreover have other: "object_key o' \<noteq> object_key obj" if "o' \<in> set (remove1 obj (sy_uploads sv))" for o'
  proof -
    have "inj_on object_key (set (sy_uploads sv))" and "distinct (sy_uploads sv)"
      using d by (simp_all add: distinct_map)
    with that obj show ?thesis by (auto dest: inj_onD)
  qed
  have "uploads_ok ?sv'"
    unfolding uploads_ok_def
  proof (intro conjI ballI)
    fix o' assume o': "o' \<in> set (sy_uploads ?sv')"
    then have "o' \<in> set (sy_uploads sv)" by (auto dest: notin_set_remove1 set_remove1_subset [THEN subsetD])
    with storage_okD(5) [OF ok] other o' show "\<exists>r. bt_get (sd_objects (sy_db ?sv')) (object_key o') = Some r
        \<and> ob_state r = ''uploading'' \<and> oj_size o' = ob_size r \<and> oj_hash o' = ob_hash r"
      unfolding uploads_ok_def by (auto simp: get)
  qed (use d in \<open>simp add: distinct_map distinct_remove1 inj_on_diff\<close>)
  moreover have "blobs_ok E ?sv'"
    using storage_okD(6) [OF ok] good r unfolding blobs_ok_def by (auto simp: get blob_matches_def)
  ultimately show ?thesis
    using broker_ok_finished [OF storage_okD(1) [OF ok]] ok by (simp add: storage_ok_def)
qed

lemma delete_step_ok:
  assumes ok: "storage_ok E sv" and c: "sy_collecting sv = obj # rest"
  shows "storage_ok E ((with_db sv (object_deleted (sy_db sv) obj))
      \<lparr>sy_collecting := rest, sy_blobs := (sy_blobs sv)(object_key obj := None)\<rparr>)" (is "storage_ok E ?sv'")
    and "storage_ok E (sv\<lparr>sy_collecting := rest, sy_blobs := (sy_blobs sv)(object_key obj := left)\<rparr>)" (is "storage_ok E ?skip")
proof -
  from storage_okD(4) [OF ok] c obtain r where r: "bt_get (sd_objects (sy_db sv)) (object_key obj) = Some r"
    "ob_state r \<noteq> ''uploading''" "ob_state r = ''deleting'' \<or> ob_expires r \<le> sy_second sv" unfolding collecting_ok_def by auto
  have others: "object_key obj \<notin> object_key ` set rest" and d: "distinct (map object_key rest)"
    using storage_okD(4) [OF ok] c by (auto simp: collecting_ok_def)
  have get: "bt_get (sd_objects (object_deleted (sy_db sv) obj)) k =
      (if k = object_key obj then None else bt_get (sd_objects (sy_db sv)) k)" for k
    using r(1,2) by (auto simp: object_deleted_row [OF broker_okD(4) [OF storage_okD(1) [OF ok]]] split: option.splits)
  have "collecting_ok ?sv'" "collecting_ok ?skip"
    using storage_okD(4) [OF ok] others d unfolding collecting_ok_def c by (auto simp: get image_iff)
  moreover have "uploads_ok ?sv'" "uploads_ok ?skip"
    using storage_okD(5) [OF ok] r(1,2) unfolding uploads_ok_def by (auto simp: get)
  moreover have "blobs_ok E ?sv'" "blobs_ok E ?skip"
    using storage_okD(6) [OF ok] r unfolding blobs_ok_def by (auto simp: get)
  ultimately show "storage_ok E ?sv'" "storage_ok E ?skip"
    using broker_ok_deleted [OF storage_okD(1) [OF ok]] ok by (simp_all add: storage_ok_def)
qed

lemma restart_step_ok:
  assumes ok: "storage_ok E sv"
    and o: "Broker_open (Inr (sg_key (sy_engine sv))) storage_columns (sy_db sv) audience max_spaces = Inr eng'"
    and b: "\<forall>k. k \<notin> object_key ` set (sy_uploads sv) \<longrightarrow> blobs k = sy_blobs sv k"
  shows "storage_ok E (sv\<lparr>sy_engine := eng', sy_cache := [], sy_uploads := [], sy_collecting := [], sy_blobs := blobs\<rparr>)"
    (is "storage_ok E ?sv'")
proof -
  have get: "bt_get (sd_objects (sg_db eng')) k = map_option interrupt_upload (bt_get (sd_objects (sy_db sv)) k)" for k
    by (simp add: open_again(3) [OF o] interrupt_row)
  have "blob_matches E (blobs k) r" if new: "bt_get (sd_objects (sg_db eng')) k = Some r"
    and s: "ob_state r \<in> {''uploaded'', ''complete''}" "sy_second sv < ob_expires r" for k r
  proof -
    from new obtain r0 where r0: "bt_get (sd_objects (sy_db sv)) k = Some r0" "r = interrupt_upload r0" by (auto simp: get)
    with s have [simp]: "r = r0" and st: "ob_state r0 \<noteq> ''uploading''" by (auto simp: interrupt_upload_def split: if_splits)
    have "k \<notin> object_key ` set (sy_uploads sv)" using storage_okD(5) [OF ok] r0(1) st unfolding uploads_ok_def by fastforce
    with b storage_okD(6) [OF ok] r0 s show ?thesis unfolding blobs_ok_def by (cases k) auto
  qed
  then have "blobs_ok E ?sv'" by (auto simp: blobs_ok_def)
  then show ?thesis
    using broker_ok_interrupt [OF storage_okD(1) [OF ok]] ok open_again [OF o]
    by (simp add: storage_ok_def collecting_ok_def uploads_ok_def)
qed

lemma storage_step_ok:
  assumes "storage_step E pin storage sv sv'" "storage_ok E sv" "sealing_correct E"
  shows "storage_ok E sv'"
  using assms(1)
proof cases
  case (s_clock t)
  then show ?thesis using assms(2) second_mono [of sv t]
    by (intro storage_ok_same_objects [OF assms(2)]) (auto simp: storage_ok_def)
next
  case (s_lease request encoded floor' head' elapsed ages cache' db' answer)
  note g = gate_answer_ok [OF s_lease(2) storage_okD(1) [OF assms(2)]]
  show ?thesis unfolding s_lease(1)
    by (rule storage_ok_same_objects [OF assms(2)]) (use g assms(2) in \<open>auto simp: storage_ok_def\<close>)
next
  case (s_command request t v lease rnd ip db' response)
  then show ?thesis using command_step_ok [OF assms(2,3)] by simp
next
  case (s_upload sp strm lease head' ob token db' obj)
  then show ?thesis using upload_step_ok [OF assms(2)] service_claim_Inr [of E "sy_db sv"] by blast
next
  case (s_download sp strm lease head' ob token db' obj)
  then have c: "storage_claim E (sy_db sv) ob token ''download'' (sy_now sv div 1000) = Inr (db', obj)"
    using service_claim_Inr by blast
  show ?thesis unfolding s_download(1)
    by (rule storage_ok_same_objects [OF assms(2)])
      (use assms(2) broker_ok_claim [OF storage_okD(1) [OF assms(2)] c] claim_download_objects [OF c] in \<open>auto simp: storage_ok_def\<close>)
next
  case (s_stored obj content_length chunks put_ok)
  from upload_valid_bytes [OF s_stored(3) upload_size [OF assms(2) s_stored(2)]] finish_step_ok [OF assms(2) s_stored(2)]
  show ?thesis unfolding s_stored(1) by blast
next
  case (s_abandoned obj left)
  then show ?thesis using finish_step_ok [OF assms(2), of obj False left] by simp
next
  case (s_collect chosen)
  note wf = broker_okD(4) [OF storage_okD(1) [OF assms(2)]]
  have "collecting_ok sv'"
    using garbage_row [OF s_collect(3) _ wf] garbage_distinct [OF s_collect(3) wf]
    unfolding s_collect(1) collecting_ok_def by (auto simp: sy_second_def)
  then show ?thesis using assms(2) unfolding s_collect(1)
    by (auto simp: storage_ok_def uploads_ok_def blobs_ok_def)
next
  case (s_deleted obj rest)
  then show ?thesis using delete_step_ok(1) [OF assms(2)] by simp
next
  case (s_skipped obj rest left)
  then show ?thesis using delete_step_ok(2) [OF assms(2)] by simp
next
  case s_stopped
  then show ?thesis using assms(2) by (auto simp: storage_ok_def collecting_ok_def uploads_ok_def blobs_ok_def)
next
  case s_prune
  show ?thesis unfolding s_prune
    by (rule storage_ok_same_objects [OF assms(2)])
      (use assms(2) broker_ok_prune [OF storage_okD(1) [OF assms(2)]] in \<open>auto simp: storage_ok_def\<close>)
next
  case (s_restart audience max_spaces eng' blobs)
  then show ?thesis using restart_step_ok [OF assms(2)] by simp
qed

lemma storage_start_ok: "storage_start E pin sv \<Longrightarrow> storage_ok E sv"
  by (auto simp: storage_start_def Broker_open_def migrate_settings_def empty_storage_def pin_witness_def result_simps Let_def
      storage_ok_def collecting_ok_def uploads_ok_def blobs_ok_def broker_ok_def tables_wf_def within_quota_def
      credentials_kept_def used_bytes_def space_objects_def space_providers_def split: if_splits option.splits)

lemma storage_clock: "storage_step E pin storage sv sv' \<Longrightarrow> sy_now sv \<le> sy_now sv'"
  by (erule storage_step.cases) auto

interpretation broker: clocked_system "storage_step E pin storage" "\<lambda>sv. sealing_correct E \<and> storage_ok E sv" sy_now
  for E pin storage
  by unfold_locales (auto dest: storage_step_ok storage_clock)

lemma storage_run_ok:
  "storage_run E pin storage sv sv' \<Longrightarrow> storage_ok E sv \<Longrightarrow> sealing_correct E \<Longrightarrow> storage_ok E sv'"
  using broker.run_good by blast

subsection \<open>Quotas\<close>

text \<open>
  In every state the broker can reach, whatever commands, transfers, failures, restarts and
  collections happened and in whatever order, the reserved bytes of a space never exceed fifty
  million, a space has at most 1024 objects and 32 generations of provider credentials, and at
  most 128 spaces are registered.
\<close>

lemma storage_quota:
  assumes "sealing_correct E" "storage_start E pin sv0" "storage_run E pin storage sv0 sv"
  shows "used_bytes (sy_db sv) sp \<le> 50000000 \<and> length (space_objects (sy_db sv) sp) \<le> 1024
     \<and> space_providers (sy_db sv) sp \<le> 32 \<and> length (sd_heads (sy_db sv)) \<le> 128"
proof -
  have ok: "broker_ok E (sg_key (sy_engine sv)) (sy_db sv)"
    by (rule storage_okD(1) [OF storage_run_ok [OF assms(3) storage_start_ok [OF assms(2)] assms(1)]])
  show ?thesis using broker_okD(8-10) [OF ok, of sp] broker_okD(11) [OF ok] by (simp add: MAX_SPACE_ATTACHMENT_STORAGE_def)
qed

subsection \<open>A completed attachment\<close>

lemma complete_step:
  assumes step: "storage_step E pin storage sv sv'" and ok: "storage_ok E sv"
    and r: "bt_get (sd_objects (sy_db sv)) k = Some r" "ob_state r = ''complete''" and t: "sy_now sv' < ob_expires r"
  shows "bt_get (sd_objects (sy_db sv')) k = Some r"
  using step
proof cases
  case (s_lease request encoded floor' head' elapsed ages cache' db' answer)
  then show ?thesis using gate_answer_ok(2) [OF s_lease(2) storage_okD(1) [OF ok]] r by simp
next
  case (s_command request tt v lease rnd ip db' response)
  from command_commit_Inr [OF s_command(7)] apply_rows(1) [OF _ r(1)] r(2) show ?thesis
    by (auto simp: s_command(1) command_row_def)
next
  case (s_upload sp strm lease head' ob token db' obj)
  then have "storage_claim E (sy_db sv) ob token ''upload'' (sy_now sv div 1000) = Inr (db', obj)" using service_claim_Inr by blast
  then show ?thesis by (rule claim_upload_objects) (use r s_upload(1) in auto)
next
  case (s_download sp strm lease head' ob token db' obj)
  then have "storage_claim E (sy_db sv) ob token ''download'' (sy_now sv div 1000) = Inr (db', obj)" using service_claim_Inr by blast
  from claim_download_objects [OF this] show ?thesis using r s_download(1) by simp
next
  case (s_stored obj content_length chunks put_ok)
  then show ?thesis using r by (auto simp: upload_finished_row)
next
  case (s_abandoned obj left)
  then show ?thesis using r by (auto simp: upload_finished_row)
next
  case (s_deleted obj rest)
  have "sy_second sv \<le> sy_now sv" by (simp add: sy_second_def)
  with storage_okD(4) [OF ok] s_deleted r t have "k \<noteq> object_key obj" by (auto simp: collecting_ok_def)
  then show ?thesis using s_deleted(1) r
    by (simp add: object_deleted_row [OF broker_okD(4) [OF storage_okD(1) [OF ok]]])
next
  case s_prune
  then show ?thesis using broker_ok_prune(2) [OF storage_okD(1) [OF ok]] r by simp
next
  case (s_restart audience max_spaces eng' blobs)
  then show ?thesis using r open_again(3) [OF s_restart(2)] by (simp add: interrupt_row) (simp add: interrupt_upload_def)
qed (use r in auto)

text \<open>
  C11: once an attachment is complete, it is there until its deadline: at any later moment before
  it, its row is unchanged, the provider holds bytes of exactly the reserved size and digest, and
  the credentials of the provider it was stored with can still be opened, whatever the owner
  reconfigured and whatever was deleted, pruned, retried or restarted in between.
\<close>

theorem attachment_kept:
  assumes "sealing_correct E" "storage_start E pin sv0" "storage_run E pin storage sv0 sv"
    and "bt_get (sd_objects (sy_db sv)) (sp, ob) = Some r" "ob_state r = ''complete''"
    and "storage_run E pin storage sv sv'" "sy_now sv' < ob_expires r"
  shows "bt_get (sd_objects (sy_db sv')) (sp, ob) = Some r
    \<and> (\<exists>b. sy_blobs sv' (sp, ob) = Some b \<and> length b = ob_size r \<and> encode_hex (sha256 E b) = ob_hash r)
    \<and> (\<exists>provider. open_provider E (sy_engine sv') sp (ob_revision r) = Inr provider)"
proof -
  have ok: "storage_ok E sv" by (rule storage_run_ok [OF assms(3) storage_start_ok [OF assms(2)] assms(1)])
  have row: "bt_get (sd_objects (sy_db sv')) (sp, ob) = Some r"
    by (rule broker.run_keeps_until [OF assms(6,7)]) (use assms(1,4,5) ok complete_step in auto)
  have "sy_second sv' < ob_expires r" using assms(7) by (simp add: sy_second_def)
  moreover have ok': "storage_ok E sv'" by (rule storage_run_ok [OF assms(6) ok assms(1)])
  ultimately have "blob_matches E (sy_blobs sv' (sp, ob)) r"
    using row assms(5) storage_okD(6) [OF ok'] unfolding blobs_ok_def by blast
  then have "\<exists>b. sy_blobs sv' (sp, ob) = Some b \<and> length b = ob_size r \<and> encode_hex (sha256 E b) = ob_hash r"
    by (simp add: blob_matches_def)
  moreover note b = storage_okD(1) [OF ok']
  from broker_okD(12) [OF b row] broker_okD(14) [OF b]
  have "\<exists>provider. open_provider E (sy_engine sv') sp (ob_revision r) = Inr provider"
    by (fastforce simp: open_provider_def secret_opens_def int64_def)
  ultimately show ?thesis using row by blast
qed

subsection \<open>One effect per command\<close>

text \<open>The receipt of a command stays until the command has expired.\<close>

definition command_spent :: "SCommand \<Rightarrow> StorageService \<Rightarrow> bool" where
  "command_spent c sv \<longleftrightarrow>
     bt_get (sd_receipts (sy_db sv)) (encode_hex (sm_credential_id c), sm_nonce c) \<noteq> None
     \<and> (\<forall>row. bt_get (sd_receipts (sy_db sv)) (encode_hex (sm_credential_id c), sm_nonce c) = Some row \<longrightarrow>
          sm_expires_at c \<le> rc_expires row)
     \<or> sm_expires_at c \<le> sy_now sv div 1000"

lemma apply_receipts:
  assumes "apply_with_managed E rnd eng v ip now managed = Inr (db', resp)"
  shows "(db' = sg_db eng \<and> preflight E eng v ip now = Inr (Some resp))
    \<or> (bt_get (sd_receipts (sg_db eng)) (encode_hex (sm_credential_id (vd_command v)), sm_nonce (vd_command v)) = None
       \<and> now < sm_expires_at (vd_command v)
       \<and> (\<exists>row. rc_expires row = sm_expires_at (vd_command v)
            \<and> sd_receipts db' = bt_insert (encode_hex (sm_credential_id (vd_command v)), sm_nonce (vd_command v)) row (sd_receipts (sg_db eng))))"
  using assms
proof (cases rule: apply_new)
  case (2 conf conf' db1 db2)
  have "sd_receipts db2 = sd_receipts db1" using 2(5) by (cases rule: advance_head_Inr) auto
  with storage_operation_frame(2) [OF 2(4)] store_receipt_Inr [OF 2(6)] authorize_Inr(1) [OF preflight_Inr(1) [OF 2(1)]]
  show ?thesis by (intro disjI2) (auto intro!: exI)
qed simp

lemma claim_receipts: "service_claim E db target lease ob token action now_ms = Inr (db', obj) \<Longrightarrow> sd_receipts db' = sd_receipts db"
  by (auto dest!: service_claim_Inr elim!: storage_claim_Inr claim_row_Inr)

lemma spent_step:
  assumes "storage_step E pin storage sv sv'" "command_spent c sv" "storage_ok E sv"
  shows "command_spent c sv'"
proof -
  have same: ?thesis if "sd_receipts (sy_db sv') = sd_receipts (sy_db sv)" "sy_now sv \<le> sy_now sv'"
    using assms(2) that div_le_mono [OF that(2), of 1000] by (auto simp: command_spent_def)
  from assms(1) show ?thesis
  proof cases
    case (s_lease request encoded floor' head' elapsed ages cache' db' answer)
    then show ?thesis using same by (auto elim!: gate_answer_db dest!: observe_witness_frame)
  next
    case (s_command request t v lease rnd ip db' response)
    from command_commit_Inr [OF s_command(7)] obtain managed
      where app: "apply_with_managed E rnd (sy_engine sv) v ip (sy_now sv div 1000) managed = Inr (db', response)" by blast
    from apply_receipts [OF app] assms(2) show ?thesis unfolding s_command(1) command_spent_def by (auto split: if_splits)
  next
    case (s_prune)
    have "command_spent c (with_db sv (storage_prune (sy_db sv) (sy_now sv div 1000)))"
      using assms(2) broker_okD(6) [OF storage_okD(1) [OF assms(3)]]
      by (auto simp: command_spent_def storage_prune_def Let_def bt_get_retain result_simps saturating_sub_def
          split: sum.splits option.splits)
    then show ?thesis by (simp add: s_prune)
  next
    case (s_restart audience max_spaces eng' blobs)
    then show ?thesis using same open_again(3) [OF s_restart(2)] by simp
  next
    case (s_upload sp strm lease head' ob token db' obj)
    then show ?thesis using same claim_receipts [OF s_upload(4)] by simp
  next
    case (s_download sp strm lease head' ob token db' obj)
    then show ?thesis using same claim_receipts [OF s_download(4)] by simp
  next
    case (s_deleted obj rest)
    then show ?thesis using same by (simp add: object_deleted_def Let_def)
  next
    case (s_stored obj content_length chunks put_ok)
    then show ?thesis using same by (simp add: upload_finished_def)
  next
    case (s_abandoned obj left)
    then show ?thesis using same by (simp add: upload_finished_def)
  qed (use same in auto)
qed

lemma spent_run:
  "storage_run E pin storage sv sv' \<Longrightarrow> command_spent c sv \<Longrightarrow> storage_ok E sv \<Longrightarrow> sealing_correct E \<Longrightarrow> command_spent c sv'"
  by (rule broker.run_keeps) (auto dest: spent_step)

text \<open>
  C13: a command takes effect at most once. After it has taken effect, committing the same command
  again, at any later moment, by any retry, before or after a restart or a collection of old
  receipts, leaves the tables as they are.
\<close>

theorem storage_command_once:
  assumes "sealing_correct E" "storage_start E pin sv0" "storage_run E pin storage sv0 sv" "fresh_nonce rnd"
    and "command_commit E rnd storage (sy_engine sv) lease v ip (sy_now sv) = Inr (db1, resp1)" "db1 \<noteq> sy_db sv"
    and "storage_run E pin storage (with_db sv db1) sv'" "vd_command v' = vd_command v"
    and "command_commit E rnd' storage (sy_engine sv') lease' v' ip' (sy_now sv') = Inr (db2, resp2)"
  shows "db2 = sy_db sv'"
proof -
  have ok: "storage_ok E sv" by (rule storage_run_ok [OF assms(3) storage_start_ok [OF assms(2)] assms(1)])
  from command_commit_Inr [OF assms(5)] obtain m
    where app: "apply_with_managed E rnd (sy_engine sv) v ip (sy_now sv div 1000) m = Inr (db1, resp1)" by blast
  from command_commit_Inr [OF assms(9)] obtain m'
    where app': "apply_with_managed E rnd' (sy_engine sv') v' ip' (sy_now sv' div 1000) m' = Inr (db2, resp2)" by blast
  have spent: "command_spent (vd_command v) sv'"
    using apply_receipts [OF app] assms(6)
    by (intro spent_run [OF assms(7) _ command_step_ok [OF ok assms(1,4,5)] assms(1)]) (auto simp: command_spent_def)
  with apply_receipts [OF app'] assms(8) show ?thesis by (auto simp: command_spent_def)
qed

subsection \<open>Who changes what\<close>



























subsection \<open>Exact transfers\<close>

definition chunk_bytes :: "provider_event list \<Rightarrow> bytes" where
  "chunk_bytes es = concat (map (\<lambda>e. case e of Chunk b \<Rightarrow> b | _ \<Rightarrow> []) es)"

lemma upload_stats_over: "snd (snd (upload_stats expected (seen, hashed, True) chunks))"
  by (induction chunks arbitrary: seen hashed) (auto simp: Let_def)

lemma upload_stats_fits:
  "expected < U64_MAX \<Longrightarrow> seen + length (concat chunks) \<le> expected \<Longrightarrow>
   upload_stats expected (seen, hashed, False) chunks = (seen + length (concat chunks), hashed @ concat chunks, False)"
proof (induction chunks arbitrary: seen hashed)
  case (Cons c cs)
  then have "saturating_add seen (length c) = seen + length c" by (simp add: saturating_add_def)
  with Cons show ?case by (simp add: Let_def add.assoc)
qed simp

lemma download_stream_clean:
  "expected < U64_MAX \<Longrightarrow> seen \<le> expected \<Longrightarrow>
   Error_sent \<notin> set (download_stream expected seen es) \<longleftrightarrow>
     (\<forall>e \<in> set es. \<exists>b. e = Chunk b) \<and> seen + length (chunk_bytes es) = expected"
proof (induction es arbitrary: seen)
  case (Cons e es)
  show ?case
  proof (cases e)
    case (Chunk b)
    let ?n = "saturating_add seen (length b)"
    show ?thesis
    proof (cases "?n > expected")
      case True
      then have "seen + length b > expected" by (meson saturating_add_le less_le_trans)
      with True Chunk show ?thesis by (auto simp: Let_def chunk_bytes_def)
    next
      case False
      with Cons.prems have "?n = seen + length b" by (auto simp: saturating_add_def split: if_splits)
      with False Chunk Cons show ?thesis by (auto simp: Let_def chunk_bytes_def add.assoc)
    qed
  qed auto
qed (auto simp: chunk_bytes_def)

lemma download_stream_data:
  "Error_sent \<notin> set (download_stream expected seen es) \<Longrightarrow>
   concat (map (\<lambda>s. case s of Data b \<Rightarrow> b | Error_sent \<Rightarrow> []) (download_stream expected seen es)) = chunk_bytes es"
  by (induction es arbitrary: seen) (auto simp: chunk_bytes_def Let_def split: provider_event.splits if_splits)

lemma upload_valid_exact:
  assumes "oj_size obj < U64_MAX"
  shows "upload_valid E obj content_length chunks put_ok \<longleftrightarrow>
      put_ok \<and> content_length = Some (oj_size obj) \<and> length (concat chunks) = oj_size obj
      \<and> encode_hex (sha256 E (concat chunks)) = oj_hash obj"
proof
  assume v: "upload_valid E obj content_length chunks put_ok"
  then show "put_ok \<and> content_length = Some (oj_size obj) \<and> length (concat chunks) = oj_size obj
      \<and> encode_hex (sha256 E (concat chunks)) = oj_hash obj"
    using upload_valid_bytes [OF v assms] by (auto simp: upload_valid_def split: prod.splits)
qed (use upload_stats_fits [OF assms, of 0 chunks "[]"] in \<open>auto simp: upload_valid_def\<close>)

text \<open>
  Transfers are exact. An upload is accepted if and only if the provider took it, the declared
  length and the number of bytes are the reserved size, and the digest of all the bytes is the
  reserved one; and a download reaches its end without an error if and only if the provider sent
  nothing but data, of exactly the stored size, and then the client received those bytes.
\<close>

lemma transfer_exact:
  assumes "oj_size obj < U64_MAX"
  shows "(upload_valid E obj content_length chunks put_ok \<longleftrightarrow>
      put_ok \<and> content_length = Some (oj_size obj) \<and> length (concat chunks) = oj_size obj
      \<and> encode_hex (sha256 E (concat chunks)) = oj_hash obj)
    \<and> (Error_sent \<notin> set (download_stream (oj_size obj) 0 events) \<longleftrightarrow>
      (\<forall>e \<in> set events. \<exists>b. e = Chunk b) \<and> length (chunk_bytes events) = oj_size obj)
    \<and> (Error_sent \<notin> set (download_stream (oj_size obj) 0 events) \<longrightarrow>
      concat (map (\<lambda>s. case s of Data b \<Rightarrow> b | Error_sent \<Rightarrow> []) (download_stream (oj_size obj) 0 events)) = chunk_bytes events)"
  using upload_valid_exact [OF assms] download_stream_clean [OF assms, of 0 events] download_stream_data [of "oj_size obj" 0 events]
  by simp

subsection \<open>Leases and the floor\<close>

text \<open>Every lease the gate hands out, new or cached, answers a request for its scope and names the head asked for.\<close>

definition leases_ok :: "('z storage_ext_scheme) \<Rightarrow> WitnessPin \<Rightarrow> StorageService \<Rightarrow> bool" where
  "leases_ok E pin sv \<longleftrightarrow> (\<forall>(k, c) \<in> set (sy_cache sv). witness_lease E pin (fst k) (snd k) c)"

lemma gate_answer_lease:
  assumes "gate_answer E pin request encoded floor' cache db head' elapsed ages now_ms = (cache', db', answer)"
  shows "answer = Inr lease \<Longrightarrow> witness_lease E pin (hr_space_id request) (hr_stream_id request) lease
      \<and> fs_authority_head (vf_body lease) = head'"
    and "e \<in> set cache' \<Longrightarrow> e \<in> set cache
      \<or> fst e = (hr_space_id request, hr_stream_id request) \<and> witness_lease E pin (hr_space_id request) (hr_stream_id request) (snd e)"
proof -
  have ins: "set (bt_insert k v m) \<subseteq> insert (k, v) (set m)" for k v and m :: lease_cache
    by (induction m) (auto split: if_splits)
  have lease: "witness_lease E pin (hr_space_id request) (hr_stream_id request) l"
    if "verify_freshness E pin request encoded elapsed now_ms floor' = Inr l" for l
    using that unfolding witness_lease_def by blast
  show "answer = Inr lease \<Longrightarrow> witness_lease E pin (hr_space_id request) (hr_stream_id request) lease
      \<and> fs_authority_head (vf_body lease) = head'"
    using assms lease by (auto simp: gate_answer_def Let_def result_simps split: sum.splits if_splits)
  assume e: "e \<in> set cache'"
  have sub: "set (if b then tl m else m) \<subseteq> set m" for b and m :: lease_cache
    by (cases m) auto
  show "e \<in> set cache
      \<or> fst e = (hr_space_id request, hr_stream_id request) \<and> witness_lease E pin (hr_space_id request) (hr_stream_id request) (snd e)"
  proof (cases "cache' = cache")
    case False
    let ?k = "(hr_space_id request, hr_stream_id request)"
    let ?c1 = "filter (\<lambda>(k', c). freshness_valid (aged (ages k') c) now_ms) cache"
    let ?c2 = "if length ?c1 \<ge> 128 \<and> \<not> bt_contains ?c1 ?k then tl ?c1 else ?c1"
    from False assms obtain l db1 where l: "verify_freshness E pin request encoded elapsed now_ms floor' = Inr l"
      "observe_witness db l now_ms = Inr db1"
      unfolding gate_answer_def by (auto simp: storage_rec_iff split: sum.splits)
    then have "cache' = bt_insert ?k l ?c2" using assms by (simp add: gate_answer_def Let_def)
    then have "e = (?k, l) \<or> e \<in> set ?c2" using e ins by blast
    moreover have "set ?c2 \<subseteq> set cache" using sub [of _ ?c1] by (meson filter_is_subset order_trans)
    ultimately show ?thesis using lease [OF l(1)] by auto
  qed (use e in simp)
qed

lemma leases_step:
  assumes "storage_step E pin storage sv sv'" "leases_ok E pin sv"
  shows "leases_ok E pin sv'"
  using assms(1)
proof cases
  case (s_lease request encoded floor' head' elapsed ages cache' db' answer)
  with gate_answer_lease(2) [OF s_lease(2)] assms(2) show ?thesis by (fastforce simp: leases_ok_def)
qed (use assms(2) in \<open>auto simp: leases_ok_def with_db_def\<close>)

lemma gate_cached_lease:
  assumes "leases_ok E pin sv" "gate_cached (sy_cache sv) db sp strm head' elapsed now_ms = Some lease"
  shows "witness_lease E pin sp strm lease" "fs_authority_head (vf_body lease) = head'" "check_witness db lease now_ms = Inr ()"
proof -
  from assms(2) obtain c where c: "bt_get (sy_cache sv) (sp, strm) = Some c" "lease = aged elapsed c"
    "fs_authority_head (vf_body lease) = head'" "check_witness db lease now_ms = Inr ()"
    by (auto simp: gate_cached_def Let_def is_ok_iff split: option.splits if_splits)
  from assms(1) bt_get_in [OF c(1)] have "witness_lease E pin sp strm c" by (auto simp: leases_ok_def)
  then show "witness_lease E pin sp strm lease" by (simp add: c(2) witness_lease_def aged_def)
qed (use assms(2) in \<open>auto simp: gate_cached_def Let_def is_ok_iff split: option.splits if_splits\<close>)

text \<open>The floor only rises, and one position never stands for two records.\<close>

definition floor_le :: "storage_db \<Rightarrow> storage_db \<Rightarrow> bool" where
  "floor_le db db' \<longleftrightarrow>
     (\<forall>f. sd_floor db = Some f \<longrightarrow> (\<exists>f'. sd_floor db' = Some f' \<and> fl_pin f' = fl_pin f \<and> fl_sequence f \<le> fl_sequence f'
        \<and> (fl_sequence f = fl_sequence f' \<longrightarrow> fl_sequence f = 0 \<or> fl_record f' = fl_record f)))"

lemma observe_witness_floor:
  assumes "observe_witness db lease now_ms = Inr db'"
  shows "floor_le db db'"
  using assms
  by (auto simp: observe_witness_def check_witness_def witness_position_def below_floor_def floor_le_def Let_def result_simps not_less
      dest!: parse_hex_sound split: option.splits if_splits)

end
