(* ===== verification/Witness_Journal.thy ===== *)
theory Witness_Journal
  imports Witness_Wire
begin

text \<open>
  \<^verbatim>\<open>crates/elo-witness/src/journal.rs\<close> and \<^verbatim>\<open>journal/capacity.rs\<close>: the transaction journal of
  the witness, its materialized state and the budgets that bound it. The SQLite tables are
  the fields of \<open>witness_db\<close>: the events in order of their sequence, the other tables as maps
  from their primary keys. Columns have the types of the schema, so identifiers are text. A
  statement that fails gives \<^verbatim>\<open>Unavailable\<close> and rolls the transaction back, so nothing of it
  shows in the model except where the failure depends on the data. Files and the monotonic
  clock are arguments.
\<close>

datatype WError =
  W_Invalid | W_Unauthorized | W_Conflict | W_Limit | W_Missing | W_RecoveryRequired | W_Unavailable

text \<open>\<^verbatim>\<open>From<RecordError>\<close>\<close>

definition rec_err :: "RecordError + 'a \<Rightarrow> WError + 'a" where
  "rec_err m = map_err (\<lambda>_. W_Unauthorized) m"

lemma rec_err_iff [result_simps]: "rec_err m = Inr x \<longleftrightarrow> m = Inr x"
  by (simp add: rec_err_def map_err_eq_Inr)

definition MAX_EVENTS :: nat where "MAX_EVENTS = 1000000"

subsection \<open>The tables\<close>

record event_row =
  ev_sequence :: int
  ev_record_id :: string
  ev_receipt :: string
  ev_request_id :: string
  ev_response :: string
  ev_space :: string

record space_row =
  sw_stream :: string
  sw_proof :: string

record policy_row =
  pw_space :: string
  pw_record :: string
  pw_revoked :: bool
  pw_uses :: int

record challenge_row =
  ch_space :: string
  ch_policy :: string
  ch_credential :: string
  ch_record :: string
  ch_expires :: int
  ch_intent :: "string option"

record nonce_row =
  nr_request :: string
  nr_expires :: int

record witness_db =
  wd_pin :: "string option"
  wd_events :: "event_row list"
  wd_spaces :: "(string, space_row) btree_map"
  wd_policies :: "(string, policy_row) btree_map"
  wd_challenges :: "(string, challenge_row) btree_map"
  wd_tombstones :: "(string \<times> string, string) btree_map"
  wd_nonces :: "(string \<times> string, nonce_row) btree_map"
  wd_limits :: "(string \<times> int, int) btree_map"

record Journal =
  jo_db :: witness_db
  jo_key :: bytes
  jo_pin :: WitnessPin
  jo_registration_hosts :: "RegistrationHost list"
  jo_startup_nonce :: string
  jo_active :: bool
  jo_clock_failed :: bool
  jo_last_clock :: nat
  jo_anchor_wall :: nat

record Activation =
  av_startup_nonce :: string
  av_expected_position :: Position
  av_public_key :: string
  av_key_generation :: nat
  av_expires_at_ms :: nat

record Startup =
  st_startup_nonce :: string
  st_observed_position :: Position
  st_public_key :: string
  st_key_generation :: nat

definition journal_decode :: "('z crypto_scheme) \<Rightarrow> string \<Rightarrow> WError + SignedRecord" where
  "journal_decode E encoded =
     (if length encoded > MAX_RECORD * 2 then Inl W_Invalid
      else bindr (ok_or (b64_decode E encoded) W_Invalid) (\<lambda>b. rec_err (parse E b)))"

definition position :: "witness_db \<Rightarrow> WError + Position" where
  "position db =
     (if wd_events db = [] then Inr \<lparr>po_sequence = 0, po_record_id = None\<rparr>
      else
      let row = last (wd_events db) in
      if ev_sequence row < 0 then Inl W_Unavailable
      else
      bindr (map_err (\<lambda>_. W_Unavailable) (parse_hex 32 (ev_record_id row))) (\<lambda>id'.
      Inr \<lparr>po_sequence = nat (ev_sequence row), po_record_id = Some id'\<rparr>))"

subsection \<open>The digest of a space's rows\<close>

datatype sql_value = SNull | SInt int | SText string

definition i64_to_be_bytes :: "int \<Rightarrow> bytes" where
  "i64_to_be_bytes x = u64_to_be_bytes (nat (x mod 2 ^ 64))"

fun value_bytes :: "sql_value \<Rightarrow> bytes" where
  "value_bytes SNull = [0]"
| "value_bytes (SInt x) = 1 # i64_to_be_bytes x"
| "value_bytes (SText s) = 2 # u64_to_be_bytes (length s) @ ascii s"

definition row_bytes :: "sql_value list \<Rightarrow> bytes" where
  "row_bytes cols = 1 # concat (map value_bytes cols)"

definition table_bytes :: "string \<Rightarrow> sql_value list list \<Rightarrow> bytes" where
  "table_bytes name rows =
     0 # u64_to_be_bytes (length name) @ ascii name @ concat (map row_bytes rows) @ [2]"

definition space_rows :: "witness_db \<Rightarrow> string \<Rightarrow> sql_value list list" where
  "space_rows db sp =
     map (\<lambda>e. [SText (fst e), SText (sw_stream (snd e)), SText (sw_proof (snd e))])
       (filter (\<lambda>e. fst e = sp) (wd_spaces db))"

definition policy_rows :: "witness_db \<Rightarrow> string \<Rightarrow> sql_value list list" where
  "policy_rows db sp =
     map (\<lambda>e. [SText (pw_space (snd e)), SText (fst e), SText (pw_record (snd e)),
               SInt (if pw_revoked (snd e) then 1 else 0), SInt (pw_uses (snd e))])
       (filter (\<lambda>e. pw_space (snd e) = sp) (wd_policies db))"

definition challenge_rows :: "witness_db \<Rightarrow> string \<Rightarrow> sql_value list list" where
  "challenge_rows db sp =
     map (\<lambda>e. [SText (fst e), SText (ch_space (snd e)), SText (ch_policy (snd e)), SText (ch_credential (snd e)),
               SText (ch_record (snd e)), SInt (ch_expires (snd e)),
               (case ch_intent (snd e) of None \<Rightarrow> SNull | Some s \<Rightarrow> SText s)])
       (filter (\<lambda>e. ch_space (snd e) = sp) (wd_challenges db))"

definition tombstone_rows :: "witness_db \<Rightarrow> string \<Rightarrow> sql_value list list" where
  "tombstone_rows db sp =
     map (\<lambda>e. [SText (fst (fst e)), SText (snd (fst e)), SText (snd e)])
       (filter (\<lambda>e. fst (fst e) = sp) (wd_tombstones db))"

definition DIGEST_DOMAIN :: bytes where
  "DIGEST_DOMAIN = ascii ''elo.now/witness/materialized-state/v1'' @ [0]"

definition digest_input :: "witness_db \<Rightarrow> SpaceId \<Rightarrow> bytes" where
  "digest_input db sp =
     (let key = encode_hex sp in
      DIGEST_DOMAIN @ sp @ table_bytes ''spaces'' (space_rows db key) @ table_bytes ''policies'' (policy_rows db key)
        @ table_bytes ''challenges'' (challenge_rows db key) @ table_bytes ''tombstones'' (tombstone_rows db key))"

definition state_digest :: "('z crypto_scheme) \<Rightarrow> witness_db \<Rightarrow> SpaceId \<Rightarrow> string" where
  "state_digest E db sp = encode_hex (sha256 E (digest_input db sp))"

subsection \<open>Verifying what is stored\<close>

definition last_event :: "witness_db \<Rightarrow> string \<Rightarrow> event_row option" where
  "last_event db key =
     (let rows = filter (\<lambda>r. ev_space r = key) (wd_events db) in if rows = [] then None else Some (last rows))"

definition verify_materialized_space ::
  "('z witness_ext_scheme) \<Rightarrow> witness_db \<Rightarrow> SpaceId \<Rightarrow> WitnessPin \<Rightarrow> WError + Receipt" where
  "verify_materialized_space E db sp pin =
     bindr (ok_or (last_event db (encode_hex sp)) W_RecoveryRequired) (\<lambda>row.
     bindr (journal_decode E (ev_receipt row)) (\<lambda>signed.
     bindr (rec_err (pin_key E pin)) (\<lambda>key.
     bindr (rec_err (verify_signature E signed key)) (\<lambda>_.
     bindr (rec_err (decode_with (dec_receipt E) signed)) (\<lambda>receipt.
     if re_v receipt \<noteq> 1
        \<or> re_kind receipt \<noteq> ''witness.receipt''
        \<or> re_audience receipt \<noteq> wp_url pin
        \<or> re_space_id receipt \<noteq> sp
        \<or> re_witness_key_generation receipt \<noteq> wp_key_generation pin
        \<or> ev_sequence row < 1
        \<or> int (re_sequence receipt) \<noteq> ev_sequence row
        \<or> ev_record_id row \<noteq> encode_hex (record_id E signed)
        \<or> re_state_digest receipt \<noteq> state_digest E db sp
     then Inl W_RecoveryRequired
     else Inr receipt)))))"

text \<open>Every space named by any table, once each.\<close>

definition known_spaces :: "witness_db \<Rightarrow> string list" where
  "known_spaces db =
     bs_of_list (map fst (wd_spaces db) @ map (\<lambda>e. pw_space (snd e)) (wd_policies db)
       @ map (\<lambda>e. ch_space (snd e)) (wd_challenges db) @ map (\<lambda>e. fst (fst e)) (wd_tombstones db)
       @ map ev_space (wd_events db))"

definition verify_materialized :: "('z witness_ext_scheme) \<Rightarrow> witness_db \<Rightarrow> WitnessPin \<Rightarrow> WError + unit" where
  "verify_materialized E db pin =
     (if length (known_spaces db) > 128 then Inl W_RecoveryRequired
      else check_all (\<lambda>key.
        bindr (map_err (\<lambda>_. W_RecoveryRequired) (parse_hex 32 key)) (\<lambda>sp.
        bindr (verify_materialized_space E db sp pin) (\<lambda>_. Inr ()))) (known_spaces db))"

text \<open>One row of the event chain; the state is the previous receipt, the sequence and the time.\<close>

definition verify_event ::
  "('z witness_ext_scheme) \<Rightarrow> bytes \<Rightarrow> WitnessPin \<Rightarrow> RecordId option \<times> nat \<times> nat \<Rightarrow> event_row \<Rightarrow>
   WError + RecordId option \<times> nat \<times> nat" where
  "verify_event E key pin st row =
     (case st of (previous, sequence, time) \<Rightarrow>
      bindr (journal_decode E (ev_receipt row)) (\<lambda>srec.
      bindr (rec_err (verify_signature E srec (ed_public E key))) (\<lambda>_.
      bindr (rec_err (decode_with (dec_receipt E) srec)) (\<lambda>body.
      let sequence' = sequence + 1 in
      if sequence' > MAX_EVENTS
         \<or> ev_sequence row \<noteq> int sequence'
         \<or> ev_record_id row \<noteq> encode_hex (record_id E srec)
         \<or> ev_request_id row \<noteq> encode_hex (re_request_id body)
         \<or> ev_space row \<noteq> encode_hex (re_space_id body)
         \<or> re_v body \<noteq> 1
         \<or> re_kind body \<noteq> ''witness.receipt''
         \<or> re_audience body \<noteq> wp_url pin
         \<or> re_sequence body \<noteq> sequence'
         \<or> re_previous body \<noteq> previous
         \<or> re_accepted_at_ms body < time
         \<or> re_witness_key_generation body \<noteq> wp_key_generation pin
      then Inl W_RecoveryRequired
      else Inr (Some (record_id E srec), sequence', re_accepted_at_ms body)))))"

definition verify_events ::
  "('z witness_ext_scheme) \<Rightarrow> bytes \<Rightarrow> WitnessPin \<Rightarrow> event_row list \<Rightarrow> WError + RecordId option \<times> nat \<times> nat" where
  "verify_events E key pin rows = foldr_result (verify_event E key pin) (None, 0, 0) rows"

subsection \<open>Opening, activation and the clock\<close>

record journal_io =
  ji_directory :: "WError + unit"
  ji_key_inside :: "bool option"
  ji_key :: "bytes option"
  ji_files :: "WError + unit"
  ji_db :: "witness_db option"
  ji_quick_check :: "bool option"
  ji_random :: "bytes option"

definition Journal_open ::
  "('z witness_ext_scheme) \<Rightarrow> journal_io \<Rightarrow> WitnessPin \<Rightarrow> nat \<Rightarrow> WError + Journal" where
  "Journal_open E io pin now =
     bindr (rec_err (pin_validate E pin)) (\<lambda>_.
     bindr (ji_directory io) (\<lambda>_.
     bindr (ok_or (ji_key_inside io) W_Unavailable) (\<lambda>inside.
     if inside then Inl W_Invalid
     else
     bindr (ok_or (ji_key io) W_Unavailable) (\<lambda>key.
     if length key \<noteq> 32 then Inl W_Invalid
     else if encode_hex (ed_public E key) \<noteq> wp_public_key pin \<or> wp_key_generation pin = 0 then Inl W_Invalid
     else
     bindr (ji_files io) (\<lambda>_.
     bindr (ok_or (ji_db io) W_Unavailable) (\<lambda>db.
     let pin_json = ser_pin E pin in
     if (case wd_pin db of None \<Rightarrow> False | Some old \<Rightarrow> old \<noteq> pin_json) then Inl W_RecoveryRequired
     else
     let db1 = db\<lparr>wd_pin := Some pin_json\<rparr> in
     bindr (ok_or (ji_quick_check io) W_Unavailable) (\<lambda>fine.
     if \<not> fine then Inl W_RecoveryRequired
     else
     bindr (verify_events E key pin (wd_events db1)) (\<lambda>st.
     if now < snd (snd st) then Inl W_RecoveryRequired
     else
     bindr (verify_materialized E db1 pin) (\<lambda>_.
     bindr (rec_err (random_hex (ji_random io))) (\<lambda>nonce.
     Inr \<lparr>jo_db = db1, jo_key = key, jo_pin = pin, jo_registration_hosts = [], jo_startup_nonce = nonce,
          jo_active = False, jo_clock_failed = False, jo_last_clock = now, jo_anchor_wall = now\<rparr>))))))))))"

definition set_registration_hosts ::
  "('z witness_ext_scheme) \<Rightarrow> Journal \<Rightarrow> RegistrationHost list \<Rightarrow> Journal \<times> (WError + unit)" where
  "set_registration_hosts E jo hosts =
     (if length hosts > 16 then (jo, Inl W_Invalid)
      else
      (case foldr_result (\<lambda>seen h.
              bindr (rec_err (RegistrationHost_validate E h)) (\<lambda>_.
              if rh_host h \<in> set seen then Inl W_Invalid else Inr (rh_host h # seen))) [] hosts of
         Inl e \<Rightarrow> (jo, Inl e)
       | Inr _ \<Rightarrow> (jo\<lparr>jo_registration_hosts := hosts\<rparr>, Inr ())))"

definition startup :: "Journal \<Rightarrow> WError + Startup" where
  "startup jo =
     bindr (position (jo_db jo)) (\<lambda>pos.
     Inr \<lparr>st_startup_nonce = jo_startup_nonce jo, st_observed_position = pos,
          st_public_key = wp_public_key (jo_pin jo), st_key_generation = wp_key_generation (jo_pin jo)\<rparr>)"

definition activation_refused :: "Journal \<Rightarrow> Activation \<Rightarrow> nat \<Rightarrow> WError + bool" where
  "activation_refused jo av now =
     (if jo_active jo \<or> jo_clock_failed jo \<or> now < jo_last_clock jo
         \<or> av_startup_nonce av \<noteq> jo_startup_nonce jo
         \<or> av_public_key av \<noteq> wp_public_key (jo_pin jo)
         \<or> av_key_generation av \<noteq> wp_key_generation (jo_pin jo)
      then Inr True
      else
      bindr (position (jo_db jo)) (\<lambda>pos.
      Inr (av_expected_position av \<noteq> pos
         \<or> av_expires_at_ms av < now
         \<or> av_expires_at_ms av > saturating_add now 600000)))"

definition activate ::
  "('z witness_ext_scheme) \<Rightarrow> Journal \<Rightarrow> Activation \<Rightarrow> nat \<Rightarrow> Journal \<times> (WError + unit)" where
  "activate E jo av now =
     (case activation_refused jo av now of
        Inl e \<Rightarrow> (jo, Inl e)
      | Inr True \<Rightarrow> (jo, Inl W_RecoveryRequired)
      | Inr False \<Rightarrow>
          (case verify_materialized E (jo_db jo) (jo_pin jo) of
             Inl e \<Rightarrow> (jo, Inl e)
           | Inr _ \<Rightarrow> (jo\<lparr>jo_last_clock := now, jo_anchor_wall := now, jo_active := True\<rparr>, Inr ())))"

definition abs_diff :: "nat \<Rightarrow> nat \<Rightarrow> nat" where
  "abs_diff a b = (if a < b then b - a else a - b)"

text \<open>\<open>elapsed\<close> is what the monotonic clock measured since activation, in milliseconds.\<close>

definition guard :: "Journal \<Rightarrow> nat \<Rightarrow> nat \<Rightarrow> Journal \<times> (WError + unit)" where
  "guard jo elapsed now =
     (if now > MAX_INTEGER \<or> \<not> jo_active jo then (jo, Inl W_RecoveryRequired)
      else
      let wall = saturating_sub now (jo_anchor_wall jo) in
      if now < jo_last_clock jo \<or> abs_diff wall (min elapsed U64_MAX) > 5000
      then (jo\<lparr>jo_active := False, jo_clock_failed := True\<rparr>, Inl W_RecoveryRequired)
      else (jo\<lparr>jo_last_clock := now\<rparr>, Inr ()))"

definition ready :: "Journal \<Rightarrow> nat \<Rightarrow> nat \<Rightarrow> Journal \<times> bool" where
  "ready jo elapsed now = (case guard jo elapsed now of (jo', r) \<Rightarrow> (jo', is_ok r))"

subsection \<open>Capacity\<close>

definition MAX_SPACES :: nat where "MAX_SPACES = 128"
definition NORMAL_EVENTS :: nat where "NORMAL_EVENTS = 3072"
definition RESERVED_EVENTS :: nat where "RESERVED_EVENTS = 4096"
definition NORMAL_BYTES :: nat where "NORMAL_BYTES = 3 * 1024 * 1024"
definition RESERVED_BYTES :: nat where "RESERVED_BYTES = 4 * 1024 * 1024"

definition usage_events :: "witness_db \<Rightarrow> string \<Rightarrow> nat" where
  "usage_events db key = length (filter (\<lambda>r. ev_space r = key) (wd_events db))"

definition usage_bytes :: "witness_db \<Rightarrow> string \<Rightarrow> nat" where
  "usage_bytes db key =
     sum_list (map (\<lambda>r. length (ev_receipt r) + length (ev_response r) + 1024)
       (filter (\<lambda>r. ev_space r = key) (wd_events db)))
     + (sum_list (map (\<lambda>e. length (sw_proof (snd e)) + 512) (filter (\<lambda>e. fst e = key) (wd_spaces db)))
        + sum_list (map (\<lambda>e. length (pw_record (snd e)) + 512) (filter (\<lambda>e. pw_space (snd e) = key) (wd_policies db)))
        + sum_list (map (\<lambda>e. length (ch_record (snd e))
              + (case ch_intent (snd e) of None \<Rightarrow> 0 | Some s \<Rightarrow> length s) + 512)
            (filter (\<lambda>e. ch_space (snd e) = key) (wd_challenges db)))
        + sum_list (map (\<lambda>e. 512) (filter (\<lambda>e. fst (fst e) = key) (wd_tombstones db))))"

definition enforce :: "witness_db \<Rightarrow> SpaceId \<Rightarrow> bool \<Rightarrow> WError + unit" where
  "enforce db sp security_reduction =
     (let key = encode_hex sp;
          events = (if security_reduction then RESERVED_EVENTS else NORMAL_EVENTS);
          bytes = (if security_reduction then RESERVED_BYTES else NORMAL_BYTES) in
      if usage_events db key > events \<or> usage_bytes db key > bytes then Inl W_Limit else Inr ())"

definition reserve_space :: "witness_db \<Rightarrow> WError + unit" where
  "reserve_space db =
     (if length (wd_spaces db) \<ge> MAX_SPACES then Inl W_Limit
      else
      let events = foldl (\<lambda>acc key. saturating_add acc (max (usage_events db key) RESERVED_EVENTS))
            RESERVED_EVENTS (bt_keys (wd_spaces db));
          bytes = foldl (\<lambda>acc key. saturating_add acc (max (usage_bytes db key) RESERVED_BYTES))
            RESERVED_BYTES (bt_keys (wd_spaces db)) in
      if events > MAX_EVENTS \<or> bytes > MAX_SPACES * RESERVED_BYTES then Inl W_Limit else Inr ())"

subsection \<open>Replays and new events\<close>

definition replay :: "('z witness_ext_scheme) \<Rightarrow> witness_db \<Rightarrow> RecordId \<Rightarrow> WError + WResponse option" where
  "replay E db request =
     (case List.find (\<lambda>r. ev_request_id r = encode_hex request) (wd_events db) of
        None \<Rightarrow> Inr None
      | Some row \<Rightarrow> bindr (ok_or (de_response E (ev_response row)) W_Unavailable) (\<lambda>r. Inr (Some r)))"

record Event_in =
  ei_request :: RecordId
  ei_space :: SpaceId
  ei_head :: RecordId
  ei_name :: string
  ei_now :: nat

definition receipt_body ::
  "('z witness_ext_scheme) \<Rightarrow> witness_db \<Rightarrow> WitnessPin \<Rightarrow> Event_in \<Rightarrow> Position \<Rightarrow> Receipt" where
  "receipt_body E db pin event tip =
     \<lparr>re_v = 1, re_kind = ''witness.receipt'', re_audience = wp_url pin, re_sequence = po_sequence tip + 1,
      re_previous = po_record_id tip, re_request_id = ei_request event, re_space_id = ei_space event,
      re_authority_head = ei_head event, re_state_digest = state_digest E db (ei_space event),
      re_accepted_at_ms = ei_now event, re_event = ei_name event,
      re_witness_key_generation = wp_key_generation pin\<rparr>"

text \<open>The unique columns refuse a second row for one receipt or one request.\<close>

definition append_with_budget ::
  "('z witness_ext_scheme) \<Rightarrow> witness_db \<Rightarrow> bytes \<Rightarrow> WitnessPin \<Rightarrow> Event_in \<Rightarrow> WResponse \<Rightarrow> bool \<Rightarrow>
   WError + witness_db \<times> WResponse" where
  "append_with_budget E db key pin event response security_reduction =
     bindr (position db) (\<lambda>tip.
     if po_sequence tip \<ge> MAX_EVENTS then Inl W_Limit
     else
     let body = receipt_body E db pin event tip in
     bindr (rec_err (sign E (ser_receipt E body) key)) (\<lambda>srec.
     let encoded = b64_encode E (rec_bytes srec);
         response' = response\<lparr>wr_receipt := Some encoded\<rparr>;
         row = \<lparr>ev_sequence = int (re_sequence body), ev_record_id = encode_hex (record_id E srec),
                ev_receipt = encoded, ev_request_id = encode_hex (ei_request event),
                ev_response = ser_response E response', ev_space = encode_hex (ei_space event)\<rparr> in
     if list_ex (\<lambda>r. ev_record_id r = ev_record_id row \<or> ev_request_id r = ev_request_id row) (wd_events db)
     then Inl W_Unavailable
     else
     let db' = db\<lparr>wd_events := wd_events db @ [row]\<rparr> in
     bindr (enforce db' (ei_space event) security_reduction) (\<lambda>_.
     Inr (db', response'))))"

end
