(* ===== verification/Witness_Engine.thy ===== *)
theory Witness_Engine
  imports Witness_Journal Net
begin

text \<open>
  \<^verbatim>\<open>crates/elo-witness/src/engine.rs\<close>: the witness decides each command against the authority it
  stores itself and answers with a signed receipt. A transaction works on a copy of the
  tables that is kept only when the whole command succeeds. Every operation of the source is
  one definition; \<open>Committed\<close> carries the tables, the authority and the event of a change,
  \<open>Acknowledged\<close> the answer to an invitation command that changes nothing.
\<close>

text \<open>The octets of an IPv4-mapped address, or the first half of an IPv6 address.\<close>

definition network_prefix :: "IpAddr \<Rightarrow> bytes" where
  "network_prefix ip =
     (case ip of
        V4 octets \<Rightarrow> octets
      | V6 octets \<Rightarrow>
          (case to_ipv4_mapped octets of Some mapped \<Rightarrow> mapped | None \<Rightarrow> take 8 octets))"

definition registration_network :: "('z crypto_scheme) \<Rightarrow> IpAddr \<Rightarrow> int \<Rightarrow> string" where
  "registration_network E ip day =
     encode_hex (sha256 E (ascii ''elo.witness.registration-network.v1'' @ [0] @ i64_to_be_bytes day @ network_prefix ip))"

subsection \<open>Helpers\<close>

definition hex32 :: "string \<Rightarrow> WError + bytes" where
  "hex32 value = map_err (\<lambda>_. W_Invalid) (parse_hex 32 value)"

definition wverify_credential :: "('z witness_ext_scheme) \<Rightarrow> string \<Rightarrow> WError + VerifiedCredential" where
  "wverify_credential E encoded =
     bindr (journal_decode E encoded) (\<lambda>crec.
     bindr (rec_err (decode_with (dec_credential E) crec)) (\<lambda>body.
     bindr (hex32 (dc_root_public_key body)) (\<lambda>kb.
     bindr (verifying_key E kb W_Invalid) (\<lambda>root.
     rec_err (verify E (rec_bytes crec) root)))))"

definition load :: "('z witness_ext_scheme) \<Rightarrow> witness_db \<Rightarrow> SpaceId \<Rightarrow> StreamId \<Rightarrow> WitnessPin \<Rightarrow> WError + Authority" where
  "load E db sp strm pin =
     bindr (case bt_get (wd_spaces db) (encode_hex sp) of
              Some row \<Rightarrow> if sw_stream row = encode_hex strm then Inr (sw_proof row) else Inl W_Missing
            | None \<Rightarrow> Inl W_Missing) (\<lambda>text.
     if length text > 9 * 1024 * 1024 then Inl W_Unavailable
     else
     bindr (ok_or (de_proof E text) W_Unavailable) (\<lambda>proof.
     bindr (verify_materialized_space E db sp pin) (\<lambda>receipt.
     bindr (rec_err (verify_witnessed E proof sp strm pin)) (\<lambda>a.
     if au_head a \<noteq> Some (re_authority_head receipt) then Inl W_RecoveryRequired else Inr a))))"

definition save :: "('z witness_ext_scheme) \<Rightarrow> witness_db \<Rightarrow> Authority \<Rightarrow> WError + witness_db" where
  "save E db a =
     bindr (rec_err (call_proof E a)) (\<lambda>proof.
     let key = encode_hex (space E a); text = ser_proof E proof in
     Inr (db\<lparr>wd_spaces := bt_insert key
            (case bt_get (wd_spaces db) key of
               Some row \<Rightarrow> row\<lparr>sw_proof := text\<rparr>
             | None \<Rightarrow> \<lparr>sw_stream = encode_hex (au_stream a), sw_proof = text\<rparr>) (wd_spaces db)\<rparr>))"

definition require_read :: "Authority \<Rightarrow> RecordId \<Rightarrow> WError + unit" where
  "require_read a cred =
     bindr (rec_err (head a)) (\<lambda>h.
     if \<not> list_ex (\<lambda>m. cred \<in> set (me_credential_ids m) \<and> Read \<in> set (me_capabilities m)) (sc_members h)
     then Inl W_Unauthorized else Inr ())"

definition wmembers :: "Authority \<Rightarrow> WError + (string \<times> string) list" where
  "wmembers a =
     bindr (rec_err (head a)) (\<lambda>h.
     Inr (bs_of_list (concat (map (\<lambda>m. map (\<lambda>i. (encode_hex i, encode_hex (me_identity_id m))) (me_credential_ids m))
       (sc_members h)))))"

definition grants :: "Authority \<Rightarrow> WError + (string \<times> string \<times> Capability) list" where
  "grants a =
     bindr (rec_err (head a)) (\<lambda>h.
     Inr (concat (map (\<lambda>m. concat (map (\<lambda>cred. map (\<lambda>cap.
       (encode_hex (me_identity_id m), encode_hex cred, cap)) (me_capabilities m)) (me_credential_ids m)))
       (sc_members h))))"

definition wpolicy ::
  "('z witness_ext_scheme) \<Rightarrow> witness_db \<Rightarrow> Authority \<Rightarrow> RecordId \<Rightarrow> nat \<Rightarrow> WError + string \<times> WitnessInvitationPolicy" where
  "wpolicy E db a pid now =
     bindr (case bt_get (wd_policies db) (encode_hex pid) of
              Some row \<Rightarrow> if pw_space row = encode_hex (space E a) then Inr row else Inl W_Missing
            | None \<Rightarrow> Inl W_Missing) (\<lambda>row.
     bindr (journal_decode E (pw_record row)) (\<lambda>srec.
     bindr (rec_err (verify_witness_invitation E a srec now)) (\<lambda>body.
     if pw_revoked row \<or> pw_uses row < 0 \<or> nat (pw_uses row) \<ge> wip_max_uses body then Inl W_Unauthorized
     else Inr (pw_record row, body))))"

definition verify_registration_ticket ::
  "('z witness_ext_scheme) \<Rightarrow> string \<Rightarrow> RegistrationHost list \<Rightarrow> WitnessPin \<Rightarrow> WCommand \<Rightarrow> IdentityId \<Rightarrow> nat \<Rightarrow>
   WError + unit" where
  "verify_registration_ticket E encoded hosts pin cmd creator now =
     bindr (rec_err (ticket_parse E encoded)) (\<lambda>parsed.
     let ticket = fst parsed; crec = snd parsed in
     bindr (ok_or (List.find (\<lambda>h. rh_host h = rt_host ticket) hosts) W_Unauthorized) (\<lambda>host.
     bindr (hex32 (rh_public_key host)) (\<lambda>kb.
     bindr (verifying_key E kb W_Invalid) (\<lambda>key.
     bindr (rec_err (verify_signature E crec key)) (\<lambda>_.
     if rt_audience ticket \<noteq> wp_url pin
        \<or> rt_witness_public_key ticket \<noteq> wp_public_key pin
        \<or> rt_witness_key_generation ticket \<noteq> wp_key_generation pin
        \<or> rt_space_id ticket \<noteq> cw_space_id cmd
        \<or> rt_stream_id ticket \<noteq> cw_stream_id cmd
        \<or> rt_authority_head ticket \<noteq> cw_authority_head cmd
        \<or> rt_creator_identity ticket \<noteq> creator
        \<or> rt_credential_id ticket \<noteq> cw_credential_id cmd
        \<or> rt_issued_at_ms ticket > saturating_add now 5000
        \<or> rt_expires_at_ms ticket \<le> now
     then Inl W_Unauthorized else Inr ())))))"

definition noop ::
  "('z witness_ext_scheme) \<Rightarrow> witness_db \<Rightarrow> bytes \<Rightarrow> WitnessPin \<Rightarrow> SignedRecord \<Rightarrow> WCommand \<Rightarrow> string \<Rightarrow> nat \<Rightarrow>
   WError + WResponse" where
  "noop E db key pin crec cmd event now =
     bindr (position db) (\<lambda>pos.
     bindr (rec_err (sign E (ser_noop E
       \<lparr>na_v = 1, na_kind = ''witness.noop'', na_audience = wp_url pin, na_request_id = record_id E crec,
        na_space_id = cw_space_id cmd, na_stream_id = cw_stream_id cmd, na_authority_head = cw_authority_head cmd,
        na_event = event, na_position = pos, na_issued_at_ms = now, na_expires_at_ms = cw_expires_at_ms cmd,
        na_witness_key_generation = wp_key_generation pin\<rparr>) key)) (\<lambda>srec.
     Inr \<lparr>wr_receipt = Some (b64_encode E (rec_bytes srec)), wr_proof = None, wr_challenge = None\<rparr>))"

subsection \<open>Operations inside the transaction\<close>

record change =
  cg_db :: witness_db
  cg_authority :: Authority
  cg_event :: string
  cg_challenge :: "string option"
  cg_security_reduction :: bool

datatype op_result = Committed change | Acknowledged WResponse

definition day_of :: "nat \<Rightarrow> int" where
  "day_of now = int (now div 86400000)"

definition op_register ::
  "('z witness_ext_scheme) \<Rightarrow> witness_db \<Rightarrow> Authority \<Rightarrow> WCommand \<Rightarrow> IpAddr \<Rightarrow> nat \<Rightarrow> WError + op_result" where
  "op_register E db a cmd ip now =
     (if bt_contains (wd_spaces db) (encode_hex (cw_space_id cmd)) then Inl W_Conflict
      else
      bindr (reserve_space db) (\<lambda>_.
      let day = day_of now;
          network = registration_network E ip day;
          count = (case bt_get (wd_limits db) (network, day) of Some n \<Rightarrow> n | None \<Rightarrow> 0);
          total = sum_list (map snd (filter (\<lambda>e. snd (fst e) = day) (wd_limits db))) in
      if count \<ge> 4 \<or> total \<ge> 32 then Inl W_Limit
      else
      let db1 = db\<lparr>wd_limits := filter (\<lambda>e. \<not> snd (fst e) < day)
            (bt_insert (network, day) (count + 1) (wd_limits db))\<rparr> in
      bindr (save E db1 a) (\<lambda>db2.
      Inr (Committed \<lparr>cg_db = db2, cg_authority = a, cg_event = ''space.registered'', cg_challenge = None,
                      cg_security_reduction = False\<rparr>))))"

definition op_register_invitation ::
  "('z witness_ext_scheme) \<Rightarrow> witness_db \<Rightarrow> bytes \<Rightarrow> WitnessPin \<Rightarrow> Authority \<Rightarrow> SignedRecord \<Rightarrow> WCommand \<Rightarrow> string \<Rightarrow>
   nat \<Rightarrow> WError + op_result" where
  "op_register_invitation E db key pin a crec cmd policy now =
     bindr (journal_decode E policy) (\<lambda>srec.
     bindr (rec_err (verify_witness_invitation E a srec now)) (\<lambda>body.
     if wip_issuer_credential_id body \<noteq> cw_credential_id cmd then Inl W_Unauthorized
     else
     let sp = encode_hex (cw_space_id cmd); pid = encode_hex (record_id E srec) in
     (case bt_get (wd_policies db) pid of
        Some row \<Rightarrow>
          if pw_space row = sp then
            (if pw_record row \<noteq> policy \<or> pw_revoked row then Inl W_Unauthorized
             else bindr (noop E db key pin crec cmd ''invitation.registered'' now) (\<lambda>r. Inr (Acknowledged r)))
          else if length (filter (\<lambda>e. pw_space (snd e) = sp) (wd_policies db)) \<ge> 4096 then Inl W_Limit
          else Inr (Committed \<lparr>cg_db = db, cg_authority = a, cg_event = ''invitation.registered'',
                               cg_challenge = None, cg_security_reduction = False\<rparr>)
      | None \<Rightarrow>
          if length (filter (\<lambda>e. pw_space (snd e) = sp) (wd_policies db)) \<ge> 4096 then Inl W_Limit
          else Inr (Committed \<lparr>cg_db = db\<lparr>wd_policies := bt_insert pid
                 \<lparr>pw_space = sp, pw_record = policy, pw_revoked = False, pw_uses = 0\<rparr> (wd_policies db)\<rparr>,
               cg_authority = a, cg_event = ''invitation.registered'', cg_challenge = None,
               cg_security_reduction = False\<rparr>))))"

definition op_revoke_invitation ::
  "('z witness_ext_scheme) \<Rightarrow> witness_db \<Rightarrow> bytes \<Rightarrow> WitnessPin \<Rightarrow> Authority \<Rightarrow> SignedRecord \<Rightarrow> WCommand \<Rightarrow> RecordId \<Rightarrow>
   nat \<Rightarrow> WError + op_result" where
  "op_revoke_invitation E db key pin a crec cmd policy_id now =
     (let sp = encode_hex (cw_space_id cmd); pid = encode_hex policy_id in
      case bt_get (wd_policies db) pid of
        None \<Rightarrow> Inl W_Missing
      | Some row \<Rightarrow>
          if pw_space row \<noteq> sp then Inl W_Missing
          else if pw_revoked row then
            bindr (noop E db key pin crec cmd ''invitation.revoked'' now) (\<lambda>r. Inr (Acknowledged r))
          else Inr (Committed \<lparr>cg_db = db\<lparr>wd_policies := bt_insert pid (row\<lparr>pw_revoked := True\<rparr>) (wd_policies db)\<rparr>,
                 cg_authority = a, cg_event = ''invitation.revoked'', cg_challenge = None,
                 cg_security_reduction = True\<rparr>))"

text \<open>The same command signed with the invitation's own key.\<close>

definition check_possession ::
  "('z witness_ext_scheme) \<Rightarrow> WRequest \<Rightarrow> SignedRecord \<Rightarrow> WitnessInvitationPolicy \<Rightarrow> WError + unit" where
  "check_possession E rq crec policy =
     bindr (ok_or (wq_invitation_signature rq) W_Unauthorized) (\<lambda>text.
     bindr (journal_decode E text) (\<lambda>possession.
     if body_bytes possession \<noteq> body_bytes crec then Inl W_Unauthorized
     else
     bindr (hex32 (wip_invitation_public_key policy)) (\<lambda>kb.
     bindr (verifying_key E kb W_Invalid) (\<lambda>key.
     rec_err (verify_signature E possession key)))))"

definition open_challenges :: "witness_db \<Rightarrow> string \<Rightarrow> nat \<Rightarrow> nat" where
  "open_challenges db sp now =
     length (filter (\<lambda>e. ch_space (snd e) = sp \<and> ch_expires (snd e) \<ge> int now \<and> ch_intent (snd e) = None)
       (wd_challenges db))"

definition add_challenge ::
  "witness_db \<Rightarrow> string \<Rightarrow> challenge_row \<Rightarrow> WError + witness_db" where
  "add_challenge db cid row =
     (if bt_contains (wd_challenges db) cid then Inl W_Unavailable
      else Inr (db\<lparr>wd_challenges := bt_insert cid row (wd_challenges db)\<rparr>))"

definition op_challenge ::
  "('z witness_ext_scheme) \<Rightarrow> bytes option \<Rightarrow> witness_db \<Rightarrow> bytes \<Rightarrow> WitnessPin \<Rightarrow> Authority \<Rightarrow> WRequest \<Rightarrow>
   SignedRecord \<Rightarrow> WCommand \<Rightarrow> RecordId \<Rightarrow> string \<Rightarrow> nat \<Rightarrow> WError + op_result" where
  "op_challenge E rnd db key pin a rq crec cmd policy_id client_nonce now =
     bindr (hex32 client_nonce) (\<lambda>_.
     bindr (wpolicy E db a policy_id now) (\<lambda>policy.
     bindr (check_possession E rq crec (snd policy)) (\<lambda>_.
     let sp = encode_hex (cw_space_id cmd) in
     if open_challenges db sp now \<ge> 256 then Inl W_Limit
     else
     bindr (rec_err (random_hex rnd)) (\<lambda>nonce.
     let body = \<lparr>wc_v = 1, wc_kind = ''witness.challenge'', wc_nonce = nonce, wc_client_nonce = client_nonce,
           wc_space_id = cw_space_id cmd, wc_stream_id = cw_stream_id cmd, wc_policy_id = policy_id,
           wc_credential_id = cw_credential_id cmd, wc_issued_at_ms = now,
           wc_expires_at_ms = saturating_add now 120000, wc_witness_key_generation = wp_key_generation pin\<rparr> in
     bindr (rec_err (sign E (ser_challenge E body) key)) (\<lambda>srec.
     let encoded = b64_encode E (rec_bytes srec) in
     bindr (add_challenge db (encode_hex (record_id E srec))
              \<lparr>ch_space = sp, ch_policy = encode_hex policy_id, ch_credential = encode_hex (cw_credential_id cmd),
               ch_record = encoded, ch_expires = int (wc_expires_at_ms body), ch_intent = None\<rparr>) (\<lambda>db'.
     Inr (Committed \<lparr>cg_db = db', cg_authority = a, cg_event = ''invitation.challenged'',
                     cg_challenge = Some encoded, cg_security_reduction = False\<rparr>)))))))"

definition consumption :: "RecordId \<Rightarrow> string" where
  "consumption request_id = ''v2:'' @ encode_hex request_id"

definition consumed_requests :: "witness_db \<Rightarrow> string \<Rightarrow> RecordId \<Rightarrow> nat" where
  "consumed_requests db sp request_id =
     length (filter (\<lambda>e. ch_space (snd e) = sp \<and> ch_intent (snd e) = Some (consumption request_id)) (wd_challenges db))"

definition op_challenge_v2 ::
  "('z witness_ext_scheme) \<Rightarrow> bytes option \<Rightarrow> witness_db \<Rightarrow> bytes \<Rightarrow> WitnessPin \<Rightarrow> Authority \<Rightarrow> WRequest \<Rightarrow>
   SignedRecord \<Rightarrow> WCommand \<Rightarrow> VerifiedCredential \<Rightarrow> WitnessJoinRequestEvidence \<Rightarrow> string \<Rightarrow> nat \<Rightarrow>
   WError + op_result" where
  "op_challenge_v2 E rnd db key pin a rq crec cmd candidate join client_nonce now =
     bindr (hex32 client_nonce) (\<lambda>_.
     bindr (rec_err (verify_witness_join_request E a join candidate now)) (\<lambda>body.
     bindr (wpolicy E db a (wjr_policy_id body) now) (\<lambda>policy.
     if fst policy \<noteq> wje_policy join then Inl W_Unauthorized
     else
     bindr (check_possession E rq crec (snd policy)) (\<lambda>_.
     bindr (journal_decode E (wje_device_request join)) (\<lambda>device_request.
     let request_id = record_id E device_request; sp = encode_hex (cw_space_id cmd) in
     if consumed_requests db sp request_id \<noteq> 0 then Inl W_Conflict
     else if open_challenges db sp now \<ge> 256 then Inl W_Limit
     else
     bindr (rec_err (random_hex rnd)) (\<lambda>nonce.
     bindr (ok_or (au_head a) W_Missing) (\<lambda>h.
     let challenge = \<lparr>wc_v = 2, wc_kind = ''witness.challenge'', wc_nonce = nonce, wc_client_nonce = client_nonce,
           wc_space_id = cw_space_id cmd, wc_stream_id = cw_stream_id cmd, wc_policy_id = wjr_policy_id body,
           wc_credential_id = cw_credential_id cmd, wc_issued_at_ms = now,
           wc_expires_at_ms = min (saturating_add now 120000) (wjr_expires_at_ms body),
           wc_witness_key_generation = wp_key_generation pin, wc_request_id = request_id, wc_authority_head = h\<rparr> in
     bindr (rec_err (sign E (ser_challenge_v2 E challenge) key)) (\<lambda>srec.
     let encoded = b64_encode E (rec_bytes srec) in
     bindr (add_challenge db (encode_hex (record_id E srec))
              \<lparr>ch_space = sp, ch_policy = encode_hex (wjr_policy_id body),
               ch_credential = encode_hex (cw_credential_id cmd), ch_record = encoded,
               ch_expires = int (wc_expires_at_ms challenge), ch_intent = None\<rparr>) (\<lambda>db'.
     Inr (Committed \<lparr>cg_db = db', cg_authority = a, cg_event = ''invitation.challenged_v2'',
                     cg_challenge = Some encoded, cg_security_reduction = False\<rparr>))))))))))"

text \<open>The stored challenge an admission answers, with what has consumed it.\<close>

definition stored_challenge ::
  "witness_db \<Rightarrow> RecordId \<Rightarrow> WCommand \<Rightarrow> nat \<Rightarrow> WError + challenge_row" where
  "stored_challenge db challenge_id cmd now =
     (case bt_get (wd_challenges db) (encode_hex challenge_id) of
        None \<Rightarrow> Inl W_Unauthorized
      | Some row \<Rightarrow>
          if ch_space row = encode_hex (cw_space_id cmd) \<and> ch_credential row = encode_hex (cw_credential_id cmd)
             \<and> ch_expires row \<ge> int now
          then Inr row else Inl W_Unauthorized)"

definition was_removed :: "('z crypto_scheme) \<Rightarrow> witness_db \<Rightarrow> WCommand \<Rightarrow> VerifiedCredential \<Rightarrow> bool" where
  "was_removed E db cmd candidate \<longleftrightarrow>
     list_ex (\<lambda>e. fst (fst e) = encode_hex (cw_space_id cmd)
        \<and> (snd (fst e) = encode_hex (credential_id E candidate) \<or> snd e = encode_hex (identity candidate)))
       (wd_tombstones db)"

definition consume_challenge :: "witness_db \<Rightarrow> string \<Rightarrow> string \<Rightarrow> witness_db" where
  "consume_challenge db cid intent =
     db\<lparr>wd_challenges := bt_modify cid
       (\<lambda>row. if ch_intent row = None then row\<lparr>ch_intent := Some intent\<rparr> else row) (wd_challenges db)\<rparr>"

definition count_use :: "witness_db \<Rightarrow> string \<Rightarrow> witness_db" where
  "count_use db pid =
     db\<lparr>wd_policies := bt_modify pid (\<lambda>row. row\<lparr>pw_uses := pw_uses row + 1\<rparr>) (wd_policies db)\<rparr>"

definition op_admit ::
  "('z witness_ext_scheme) \<Rightarrow> witness_db \<Rightarrow> bytes \<Rightarrow> Authority \<Rightarrow> WCommand \<Rightarrow> VerifiedCredential \<Rightarrow>
   WitnessAdmissionEvidence \<Rightarrow> nat \<Rightarrow> WError + op_result" where
  "op_admit E db key a cmd candidate evidence now =
     bindr (journal_decode E (wae_device_intent evidence)) (\<lambda>intent_record.
     bindr (rec_err (decode_with (dec_intent E) intent_record)) (\<lambda>intent.
     bindr (wpolicy E db a (wi_policy_id intent) now) (\<lambda>policy.
     if fst policy \<noteq> wae_policy evidence \<or> wi_credential_id intent \<noteq> cw_credential_id cmd then Inl W_Unauthorized
     else
     bindr (stored_challenge db (wi_challenge_id intent) cmd now) (\<lambda>row.
     if ch_record row \<noteq> wae_challenge evidence \<or> ch_intent row \<noteq> None then Inl W_Conflict
     else
     bindr (if was_removed E db cmd candidate then
              bindr (ok_or (wae_approval evidence) W_Unauthorized) (\<lambda>text.
              bindr (journal_decode E text) (\<lambda>srec.
              bindr (rec_err (decode_with (dec_approval E) srec)) (\<lambda>approval.
              if \<not> wap_readmission approval then Inl W_Unauthorized else Inr ())))
            else Inr ()) (\<lambda>_.
     let a1 = add_credential E candidate a in
     bindr (rec_err (prepare_witness_admission E a1 (evidence\<lparr>wae_admitted_at_ms := now\<rparr>) key)) (\<lambda>config.
     bindr (rec_err (snd (apply_config E a1 config))) (\<lambda>_.
     let a2 = fst (apply_config E a1 config) in
     bindr (save E db a2) (\<lambda>db1.
     Inr (Committed \<lparr>cg_db = count_use (consume_challenge db1 (encode_hex (wi_challenge_id intent))
              (encode_hex (record_id E intent_record))) (encode_hex (wi_policy_id intent)),
            cg_authority = a2, cg_event = ''device.admitted'', cg_challenge = None,
            cg_security_reduction = False\<rparr>)))))))))"

definition op_admit_v2 ::
  "('z witness_ext_scheme) \<Rightarrow> witness_db \<Rightarrow> bytes \<Rightarrow> Authority \<Rightarrow> WCommand \<Rightarrow> VerifiedCredential \<Rightarrow>
   WitnessAdmissionEvidenceV2 \<Rightarrow> nat \<Rightarrow> WError + op_result" where
  "op_admit_v2 E db key a cmd candidate evidence now =
     bindr (journal_decode E (wa2_device_intent evidence)) (\<lambda>intent_record.
     bindr (rec_err (decode_with (dec_intent_v2 E) intent_record)) (\<lambda>intent.
     bindr (wpolicy E db a (wi_policy_id intent) now) (\<lambda>policy.
     if fst policy \<noteq> wje_policy (wa2_request evidence) \<or> wi_credential_id intent \<noteq> cw_credential_id cmd
     then Inl W_Unauthorized
     else
     bindr (journal_decode E (wje_device_request (wa2_request evidence))) (\<lambda>device_request.
     let request_id = record_id E device_request; sp = encode_hex (cw_space_id cmd) in
     if consumed_requests db sp request_id \<noteq> 0 then Inl W_Conflict
     else
     bindr (stored_challenge db (wi_challenge_id intent) cmd now) (\<lambda>row.
     if ch_record row \<noteq> wa2_challenge evidence \<or> ch_intent row \<noteq> None then Inl W_Conflict
     else
     bindr (journal_decode E (ch_record row)) (\<lambda>challenge_record.
     bindr (rec_err (decode_with (dec_challenge_v2 E) challenge_record)) (\<lambda>body.
     if wc_authority_head body \<noteq> cw_authority_head cmd \<or> wc_request_id body \<noteq> request_id then Inl W_Unauthorized
     else
     bindr (if was_removed E db cmd candidate then
              bindr (ok_or (wa2_approval evidence) W_Unauthorized) (\<lambda>text.
              bindr (journal_decode E text) (\<lambda>srec.
              bindr (rec_err (decode_with (dec_approval_v2 E) srec)) (\<lambda>approval.
              if \<not> wap2_readmission approval then Inl W_Unauthorized else Inr ())))
            else Inr ()) (\<lambda>_.
     let a1 = add_credential E candidate a in
     bindr (rec_err (prepare_witness_admission_v2 E a1 (evidence\<lparr>wa2_admitted_at_ms := now\<rparr>) key)) (\<lambda>config.
     bindr (rec_err (snd (apply_config E a1 config))) (\<lambda>_.
     let a2 = fst (apply_config E a1 config) in
     bindr (save E db a2) (\<lambda>db1.
     if \<not> (case bt_get (wd_challenges db1) (encode_hex (wi_challenge_id intent)) of
             None \<Rightarrow> False | Some r \<Rightarrow> ch_intent r = None) then Inl W_Conflict
     else if \<not> (case bt_get (wd_policies db1) (encode_hex (wi_policy_id intent)) of
             None \<Rightarrow> False | Some r \<Rightarrow> pw_space r = sp \<and> \<not> pw_revoked r) then Inl W_Conflict
     else
     Inr (Committed \<lparr>cg_db = count_use (consume_challenge db1 (encode_hex (wi_challenge_id intent))
              (consumption request_id)) (encode_hex (wi_policy_id intent)),
            cg_authority = a2, cg_event = ''device.admitted_v2'', cg_challenge = None,
            cg_security_reduction = False\<rparr>))))))))))))"

fun add_tombstones :: "string \<Rightarrow> (string \<times> string) list \<Rightarrow> (string \<times> string, string) btree_map \<Rightarrow>
  (string \<times> string, string) btree_map" where
  "add_tombstones sp [] m = m"
| "add_tombstones sp ((cred, ident) # rest) m =
     add_tombstones sp rest (if bt_contains m (sp, cred) then m else bt_insert (sp, cred) ident m)"

definition op_owner_update ::
  "('z witness_ext_scheme) \<Rightarrow> witness_db \<Rightarrow> bytes \<Rightarrow> Authority \<Rightarrow> WCommand \<Rightarrow> string \<Rightarrow> string list \<Rightarrow>
   WError + op_result" where
  "op_owner_update E db key a cmd proposal credentials =
     (if length credentials > 64 then Inl W_Limit
      else
      bindr (wmembers a) (\<lambda>before.
      bindr (grants a) (\<lambda>before_grants.
      bindr (rec_err (head a)) (\<lambda>h0.
      bindr (foldr_result (\<lambda>acc text. bindr (wverify_credential E text) (\<lambda>c. Inr (add_credential E c acc))) a credentials) (\<lambda>a1.
      bindr (journal_decode E proposal) (\<lambda>srec.
      bindr (rec_err (prepare_witness_owner_config E a1 srec key)) (\<lambda>config.
      bindr (rec_err (snd (apply_config E a1 config))) (\<lambda>_.
      let a2 = fst (apply_config E a1 config) in
      bindr (wmembers a2) (\<lambda>after.
      bindr (grants a2) (\<lambda>after_grants.
      bindr (rec_err (head a2)) (\<lambda>h1.
      let owners0 = set (sc_owner_credential_ids h0); owners1 = set (sc_owner_credential_ids h1);
          reduction = set after_grants \<subseteq> set before_grants \<and> owners1 \<subseteq> owners0
            \<and> (set after_grants \<noteq> set before_grants \<or> owners1 \<noteq> owners0);
          db1 = db\<lparr>wd_tombstones := add_tombstones (encode_hex (cw_space_id cmd))
            (filter (\<lambda>x. x \<notin> set after) before) (wd_tombstones db)\<rparr> in
      bindr (save E db1 a2) (\<lambda>db2.
      Inr (Committed \<lparr>cg_db = db2, cg_authority = a2, cg_event = ''authority.updated'', cg_challenge = None,
                      cg_security_reduction = reduction\<rparr>)))))))))))))"

subsection \<open>Commands\<close>

definition command_malformed :: "WitnessPin \<Rightarrow> WCommand \<Rightarrow> nat \<Rightarrow> bool" where
  "command_malformed pin cmd now \<longleftrightarrow>
     cw_v cmd \<noteq> 1
     \<or> cw_kind cmd \<noteq> ''witness.command''
     \<or> cw_audience cmd \<noteq> wp_url pin
     \<or> cw_expires_at_ms cmd \<le> now
     \<or> cw_issued_at_ms cmd > saturating_add now 5000
     \<or> cw_expires_at_ms cmd \<le> cw_issued_at_ms cmd
     \<or> cw_expires_at_ms cmd - cw_issued_at_ms cmd > 60000"

definition is_registered :: "witness_db \<Rightarrow> string \<Rightarrow> bool" where
  "is_registered db sp \<longleftrightarrow>
     list_ex (\<lambda>e. fst e = sp) (wd_spaces db) \<or> list_ex (\<lambda>r. ev_space r = sp) (wd_events db)
     \<or> list_ex (\<lambda>e. pw_space (snd e) = sp) (wd_policies db) \<or> list_ex (\<lambda>e. ch_space (snd e) = sp) (wd_challenges db)
     \<or> list_ex (\<lambda>e. fst (fst e) = sp) (wd_tombstones db)"

definition registers :: "WOperation \<Rightarrow> bool" where
  "registers op = (case op of Register \<Rightarrow> True | _ \<Rightarrow> False)"

definition manages :: "WOperation \<Rightarrow> bool" where
  "manages op =
     (case op of Register \<Rightarrow> True | RegisterInvitation _ \<Rightarrow> True | RevokeInvitation _ \<Rightarrow> True | OwnerUpdate _ _ \<Rightarrow> True
      | _ \<Rightarrow> False)"

definition admits :: "WOperation \<Rightarrow> bool" where
  "admits op = (case op of Admit _ _ \<Rightarrow> True | AdmitV2 _ _ \<Rightarrow> True | _ \<Rightarrow> False)"

definition candidate_text :: "WOperation \<Rightarrow> string option" where
  "candidate_text op =
     (case op of Challenge _ c _ \<Rightarrow> Some c | Admit c _ \<Rightarrow> Some c | ChallengeV2 c _ _ \<Rightarrow> Some c | AdmitV2 c _ \<Rightarrow> Some c
      | _ \<Rightarrow> None)"

definition registration_authority ::
  "('z witness_ext_scheme) \<Rightarrow> WitnessPin \<Rightarrow> WRequest \<Rightarrow> WCommand \<Rightarrow> WError + Authority" where
  "registration_authority E pin rq cmd =
     bindr (ok_or (wq_proof rq) W_Invalid) (\<lambda>proof.
     bindr (rec_err (verify_witnessed E proof (cw_space_id cmd) (cw_stream_id cmd) pin)) (\<lambda>a.
     bindr (rec_err (head a)) (\<lambda>h.
     if sc_sequence h \<noteq> 1
        \<or> sc_chat_kind h \<noteq> Some ChatKind_Chat
        \<or> as_str (json_index (rec_body (au_genesis a)) ''nonce'') \<noteq> Some (encode_hex (cw_stream_id cmd))
     then Inl W_Invalid else Inr a)))"

definition command_authority ::
  "('z witness_ext_scheme) \<Rightarrow> witness_db \<Rightarrow> WitnessPin \<Rightarrow> WRequest \<Rightarrow> WCommand \<Rightarrow> WError + Authority" where
  "command_authority E db pin rq cmd =
     (if registers (cw_operation cmd) then
        bindr (registration_authority E pin rq cmd) (\<lambda>a.
        if is_registered db (encode_hex (cw_space_id cmd)) then load E db (cw_space_id cmd) (cw_stream_id cmd) pin
        else Inr a)
      else if wq_proof rq \<noteq> None then Inl W_Invalid
      else load E db (cw_space_id cmd) (cw_stream_id cmd) pin)"

text \<open>Signature and standing of the author, up to the point where a change may be made.\<close>

definition authorize_command ::
  "('z witness_ext_scheme) \<Rightarrow> Authority \<Rightarrow> SignedRecord \<Rightarrow> WCommand \<Rightarrow>
   WError + VerifiedCredential option \<times> VerifiedCredential" where
  "authorize_command E a crec cmd =
     bindr (case candidate_text (cw_operation cmd) of
              Some text \<Rightarrow> bindr (wverify_credential E text) (\<lambda>c. Inr (Some c))
            | None \<Rightarrow> Inr None) (\<lambda>candidate.
     bindr (case candidate of Some c \<Rightarrow> Inr c | None \<Rightarrow> rec_err (credential a (cw_credential_id cmd))) (\<lambda>signer.
     if credential_id E signer \<noteq> cw_credential_id cmd then Inl W_Unauthorized
     else
     bindr (rec_err (verify_signature E crec (vc_key signer))) (\<lambda>_.
     bindr (if candidate = None then require_read a (cw_credential_id cmd) else Inr ()) (\<lambda>_.
     if manages (cw_operation cmd) \<and> \<not> can_manage a (cw_credential_id cmd) then Inl W_Unauthorized
     else Inr (candidate, signer)))))"

definition run_operation ::
  "('z witness_ext_scheme) \<Rightarrow> bytes option \<Rightarrow> witness_db \<Rightarrow> Journal \<Rightarrow> Authority \<Rightarrow> VerifiedCredential option \<Rightarrow>
   WRequest \<Rightarrow> SignedRecord \<Rightarrow> WCommand \<Rightarrow> IpAddr \<Rightarrow> nat \<Rightarrow> WError + op_result" where
  "run_operation E rnd db jo a candidate rq crec cmd ip now =
     (case cw_operation cmd of
        Register \<Rightarrow> op_register E db a cmd ip now
      | RegisterInvitation policy \<Rightarrow> op_register_invitation E db (jo_key jo) (jo_pin jo) a crec cmd policy now
      | RevokeInvitation policy_id \<Rightarrow> op_revoke_invitation E db (jo_key jo) (jo_pin jo) a crec cmd policy_id now
      | Challenge policy_id _ client_nonce \<Rightarrow>
          op_challenge E rnd db (jo_key jo) (jo_pin jo) a rq crec cmd policy_id client_nonce now
      | ChallengeV2 _ join client_nonce \<Rightarrow>
          bindr (ok_or candidate W_Invalid) (\<lambda>c.
          op_challenge_v2 E rnd db (jo_key jo) (jo_pin jo) a rq crec cmd c join client_nonce now)
      | AdmitV2 _ evidence \<Rightarrow>
          bindr (ok_or candidate W_Invalid) (\<lambda>c. op_admit_v2 E db (jo_key jo) a cmd c evidence now)
      | Admit _ evidence \<Rightarrow>
          bindr (ok_or candidate W_Invalid) (\<lambda>c. op_admit E db (jo_key jo) a cmd c evidence now)
      | OwnerUpdate proposal credentials \<Rightarrow> op_owner_update E db (jo_key jo) a cmd proposal credentials
      | Read_op \<Rightarrow> Inl W_Invalid)"

text \<open>What a transaction forgets first: nonces and unanswered challenges ten minutes past their time.\<close>

definition forget_expired :: "witness_db \<Rightarrow> string \<Rightarrow> nat \<Rightarrow> witness_db" where
  "forget_expired db sp now =
     (let limit = int (saturating_sub now 600000) in
      db\<lparr>wd_nonces := filter (\<lambda>e. \<not> nr_expires (snd e) < limit) (wd_nonces db),
         wd_challenges := filter (\<lambda>e. \<not> (ch_space (snd e) = sp \<and> ch_expires (snd e) < limit \<and> ch_intent (snd e) = None))
           (wd_challenges db)\<rparr>)"

text \<open>The transaction: the operation, its nonce and its receipt, or nothing.\<close>

definition transact ::
  "('z witness_ext_scheme) \<Rightarrow> bytes option \<Rightarrow> Journal \<Rightarrow> Authority \<Rightarrow> VerifiedCredential option \<Rightarrow> WRequest \<Rightarrow>
   SignedRecord \<Rightarrow> WCommand \<Rightarrow> IpAddr \<Rightarrow> nat \<Rightarrow> WError + witness_db \<times> WResponse" where
  "transact E rnd jo a candidate rq crec cmd ip now =
     (let db0 = forget_expired (jo_db jo) (encode_hex (cw_space_id cmd)) now;
          nkey = (encode_hex (cw_credential_id cmd), cw_nonce cmd) in
      if bt_contains (wd_nonces db0) nkey then Inl W_Conflict
      else
      bindr (run_operation E rnd db0 jo a candidate rq crec cmd ip now) (\<lambda>result.
      case result of
        Acknowledged response \<Rightarrow> Inr (jo_db jo, response)
      | Committed c \<Rightarrow>
          let db1 = (cg_db c)\<lparr>wd_nonces := bt_insert nkey
                \<lparr>nr_request = encode_hex (record_id E crec), nr_expires = int (cw_expires_at_ms cmd)\<rparr>
                (wd_nonces (cg_db c))\<rparr> in
          bindr (ok_or (au_head (cg_authority c)) W_Missing) (\<lambda>h.
          append_with_budget E db1 (jo_key jo) (jo_pin jo)
            \<lparr>ei_request = record_id E crec, ei_space = cw_space_id cmd, ei_head = h, ei_name = cg_event c, ei_now = now\<rparr>
            \<lparr>wr_receipt = None, wr_proof = None, wr_challenge = cg_challenge c\<rparr> (cg_security_reduction c))))"

definition decide ::
  "('z witness_ext_scheme) \<Rightarrow> bytes option \<Rightarrow> Journal \<Rightarrow> WRequest \<Rightarrow> IpAddr \<Rightarrow> nat \<Rightarrow> WError + witness_db \<times> WResponse" where
  "decide E rnd jo rq ip now =
     bindr (journal_decode E (wq_command rq)) (\<lambda>crec.
     bindr (rec_err (decode_with (dec_wcommand E) crec)) (\<lambda>cmd.
     bindr (hex32 (cw_nonce cmd)) (\<lambda>_.
     if command_malformed (jo_pin jo) cmd now then Inl W_Invalid
     else
     let registering = registers (cw_operation cmd); registered = is_registered (jo_db jo) (encode_hex (cw_space_id cmd)) in
     bindr (if registering then rec_err (verify_registration_work E rq)
            else if wq_registration_work rq \<noteq> None \<or> wq_registration_ticket rq \<noteq> None then Inl W_Invalid
            else Inr ()) (\<lambda>_.
     bindr (command_authority E (jo_db jo) (jo_pin jo) rq cmd) (\<lambda>a.
     bindr (authorize_command E a crec cmd) (\<lambda>who.
     if cw_operation cmd = Read_op then
       bindr (rec_err (call_proof E a)) (\<lambda>proof.
       Inr (jo_db jo, \<lparr>wr_receipt = None, wr_proof = Some proof, wr_challenge = None\<rparr>))
     else
     bindr (if registering \<and> \<not> registered then
              bindr (ok_or (wq_registration_ticket rq) W_Unauthorized) (\<lambda>ticket.
              verify_registration_ticket E ticket (jo_registration_hosts jo) (jo_pin jo) cmd (identity (snd who)) now)
            else Inr ()) (\<lambda>_.
     bindr (replay E (jo_db jo) (record_id E crec)) (\<lambda>earlier.
     case earlier of
       Some response \<Rightarrow>
         bindr (if admits (cw_operation cmd) then require_read a (cw_credential_id cmd) else Inr ()) (\<lambda>_.
         Inr (jo_db jo, response))
     | None \<Rightarrow>
         if manages (cw_operation cmd) \<and> au_head a \<noteq> Some (cw_authority_head cmd) then Inl W_Conflict
         else transact E rnd jo a (fst who) rq crec cmd ip now))))))))"

definition wapply ::
  "('z witness_ext_scheme) \<Rightarrow> bytes option \<Rightarrow> Journal \<Rightarrow> WRequest \<Rightarrow> IpAddr \<Rightarrow> nat \<Rightarrow> nat \<Rightarrow>
   Journal \<times> (WError + WResponse)" where
  "wapply E rnd jo rq ip elapsed now =
     bindst (guard jo elapsed now) (\<lambda>jo1 _.
     case decide E rnd jo1 rq ip now of
       Inl e \<Rightarrow> (jo1, Inl e)
     | Inr (db, response) \<Rightarrow> (jo1\<lparr>jo_db := db\<rparr>, Inr response))"

definition whead ::
  "('z witness_ext_scheme) \<Rightarrow> Journal \<Rightarrow> HeadRequest \<Rightarrow> nat \<Rightarrow> nat \<Rightarrow> Journal \<times> (WError + string)" where
  "whead E jo request elapsed now =
     bindst (guard jo elapsed now) (\<lambda>jo1 _.
     (jo1,
      bindr (hex32 (hr_nonce request)) (\<lambda>_.
      bindr (load E (jo_db jo1) (hr_space_id request) (hr_stream_id request) (jo_pin jo1)) (\<lambda>a.
      bindr (ok_or (au_head a) W_Missing) (\<lambda>h.
      bindr (position (jo_db jo1)) (\<lambda>pos.
      bindr (ok_or (checked_add now 30000) W_Invalid) (\<lambda>expires.
      bindr (rec_err (sign E (ser_freshness E
        \<lparr>fs_v = 1, fs_kind = ''witness.freshness'', fs_audience = wp_url (jo_pin jo1), fs_nonce = hr_nonce request,
         fs_space_id = hr_space_id request, fs_stream_id = hr_stream_id request, fs_authority_head = h,
         fs_position = pos, fs_issued_at_ms = now, fs_expires_at_ms = expires,
         fs_witness_key_generation = wp_key_generation (jo_pin jo1)\<rparr>) (jo_key jo1))) (\<lambda>srec.
      Inr (b64_encode E (rec_bytes srec))))))))))"

end
