(* ===== verification/Witness_Tables.thy ===== *)
theory Witness_Tables
  imports Witness_Engine
begin

text \<open>
  What the operations of the witness may do to its tables. Every operation is a sequence of
  edits of the rows of one space (relation \<open>edit\<close>); an edit keeps the tables consistent
  (\<open>tables_ok\<close>), leaves the rows of every other space as they are (\<open>space_view\<close>) and never
  takes back what has to stay: a revocation, a use, an answered challenge, a removal
  (\<open>retained\<close>).
\<close>

named_theorems edit_intros \<open>introduction rules for edits\<close>

subsection \<open>Filters over ordered maps\<close>

lemma filter_bt_insert:
  "(\<And>v'. bt_get m k = Some v' \<Longrightarrow> \<not> P (k, v')) \<Longrightarrow> \<not> P (k, v) \<Longrightarrow> filter P (bt_insert k v m) = filter P m"
proof (induction m)
  case (Cons e m)
  obtain k' v' where e: "e = (k', v')" by (cases e)
  have "bt_get (e # m) k = (if k = k' then Some v' else bt_get m k)" by (simp add: e bt_get_def)
  with Cons show ?case by (auto simp: e split: if_splits)
qed simp

lemma filter_bt_modify:
  "(\<And>e. e \<in> set m \<Longrightarrow> fst e = k \<Longrightarrow> \<not> P e \<and> \<not> P (k, f (snd e))) \<Longrightarrow> filter P (bt_modify k f m) = filter P m"
  by (induction m) (auto simp: bt_modify_def)

lemma filter_bt_modify_same:
  "(\<And>e. e \<in> set m \<Longrightarrow> fst e = k \<Longrightarrow> P e = P (k, f (snd e))) \<Longrightarrow>
   filter P (bt_modify k f m) = bt_modify k f (filter P m)"
  by (induction m) (auto simp: bt_modify_def)

lemma bt_wf_get_unique: "bt_wf m \<Longrightarrow> e \<in> set m \<Longrightarrow> bt_get m (fst e) = Some (snd e)"
  by (simp add: bt_get_iff)

text \<open>A sum over the entries of a map changes by the change of the one entry written.\<close>

lemma sum_list_bt_modify:
  fixes g :: "'k :: linorder \<times> 'v \<Rightarrow> int"
  assumes "bt_wf m" "bt_get m k = Some v"
  shows "sum_list (map g (bt_modify k f m)) = sum_list (map g m) + g (k, f v) - g (k, v)"
  using assms
proof (induction m)
  case (Cons e m)
  obtain k' v' where e: "e = (k', v')" by (cases e)
  have wf: "bt_wf m" and fresh: "\<forall>e \<in> set m. fst e \<noteq> k'" using Cons.prems(1) by (auto simp: e bt_wf_def)
  show ?case
  proof (cases "k' = k")
    case True
    then have "bt_modify k f m = m" using fresh by (auto simp: bt_modify_def intro!: map_idI)
    with True Cons.prems(2) show ?thesis by (simp add: e bt_modify_def bt_get_def)
  next
    case False
    then have "bt_get m k = Some v" using Cons.prems(2) by (simp add: e bt_get_def)
    from Cons.IH [OF wf this] False show ?thesis by (simp add: e bt_modify_def)
  qed
qed simp

lemma sum_list_bt_insert:
  fixes g :: "'k :: linorder \<times> 'v \<Rightarrow> int"
  assumes "bt_wf m"
  shows "sum_list (map g (bt_insert k v m)) =
    sum_list (map g m) + g (k, v) - (case bt_get m k of None \<Rightarrow> 0 | Some v' \<Rightarrow> g (k, v'))"
  using assms
proof (induction m)
  case (Cons e m)
  obtain k' v' where e: "e = (k', v')" by (cases e)
  have wf: "bt_wf m" and less: "\<forall>e \<in> set m. k' < fst e" using Cons.prems by (auto simp: e bt_wf_def)
  have "bt_get m k = None" if "k < k'" using less that by (force simp: bt_get_None)
  with Cons.IH [OF wf] show ?case by (auto simp: e bt_get_def split: option.splits)
qed simp

lemma sum_list_filter_bt:
  fixes g :: "'k \<times> 'v \<Rightarrow> int"
  shows "(\<And>e. e \<in> set m \<Longrightarrow> \<not> P e \<Longrightarrow> g e = 0) \<Longrightarrow> sum_list (map g (filter P m)) = sum_list (map g m)"
  by (induction m) auto

subsection \<open>Consistent tables\<close>

text \<open>The uses an invitation allows, as its signed record says.\<close>

definition policy_max :: "('z witness_ext_scheme) \<Rightarrow> string \<Rightarrow> nat" where
  "policy_max E text =
     (case journal_decode E text of
        Inl _ \<Rightarrow> 0
      | Inr srec \<Rightarrow> (case dec_policy E (rec_body srec) of None \<Rightarrow> 0 | Some body \<Rightarrow> wip_max_uses body))"

definition uses_of :: "string \<Rightarrow> string \<times> policy_row \<Rightarrow> int" where
  "uses_of key e = (if pw_space (snd e) = key then pw_uses (snd e) else 0)"

definition spent_of :: "string \<Rightarrow> string \<times> challenge_row \<Rightarrow> int" where
  "spent_of key e = (if ch_space (snd e) = key \<and> ch_intent (snd e) \<noteq> None then 1 else 0)"

definition uses_counted :: "witness_db \<Rightarrow> string \<Rightarrow> int" where
  "uses_counted db key = sum_list (map (uses_of key) (wd_policies db))"

definition challenges_answered :: "witness_db \<Rightarrow> string \<Rightarrow> int" where
  "challenges_answered db key = sum_list (map (spent_of key) (wd_challenges db))"

definition policy_row_ok :: "('z witness_ext_scheme) \<Rightarrow> policy_row \<Rightarrow> bool" where
  "policy_row_ok E row \<longleftrightarrow> 0 \<le> pw_uses row \<and> pw_uses row \<le> int (policy_max E (pw_record row))"

definition tables_ok :: "('z witness_ext_scheme) \<Rightarrow> witness_db \<Rightarrow> bool" where
  "tables_ok E db \<longleftrightarrow>
     bt_wf (wd_spaces db) \<and> bt_wf (wd_policies db) \<and> bt_wf (wd_challenges db) \<and> bt_wf (wd_tombstones db)
     \<and> length (wd_spaces db) \<le> MAX_SPACES
     \<and> (\<forall>e \<in> set (wd_spaces db). \<exists>sp. length sp = 32 \<and> fst e = encode_hex sp)
     \<and> (\<forall>e \<in> set (wd_policies db). bt_contains (wd_spaces db) (pw_space (snd e)) \<and> policy_row_ok E (snd e))
     \<and> (\<forall>e \<in> set (wd_challenges db). bt_contains (wd_spaces db) (ch_space (snd e)))
     \<and> (\<forall>e \<in> set (wd_tombstones db). bt_contains (wd_spaces db) (fst (fst e)))
     \<and> (\<forall>r \<in> set (wd_events db). bt_contains (wd_spaces db) (ev_space r))
     \<and> (\<forall>key. uses_counted db key = challenges_answered db key)"

lemma tables_okD:
  assumes "tables_ok E db"
  shows "bt_wf (wd_spaces db)" "bt_wf (wd_policies db)" "bt_wf (wd_challenges db)" "bt_wf (wd_tombstones db)"
    "length (wd_spaces db) \<le> MAX_SPACES"
    "\<And>e. e \<in> set (wd_spaces db) \<Longrightarrow> \<exists>sp. length sp = 32 \<and> fst e = encode_hex sp"
    "\<And>e. e \<in> set (wd_policies db) \<Longrightarrow> bt_contains (wd_spaces db) (pw_space (snd e))"
    "\<And>e. e \<in> set (wd_policies db) \<Longrightarrow> policy_row_ok E (snd e)"
    "\<And>e. e \<in> set (wd_challenges db) \<Longrightarrow> bt_contains (wd_spaces db) (ch_space (snd e))"
    "\<And>e. e \<in> set (wd_tombstones db) \<Longrightarrow> bt_contains (wd_spaces db) (fst (fst e))"
    "\<And>r. r \<in> set (wd_events db) \<Longrightarrow> bt_contains (wd_spaces db) (ev_space r)"
    "\<And>key. uses_counted db key = challenges_answered db key"
  using assms unfolding tables_ok_def by blast+

subsection \<open>Edits\<close>

inductive edit :: "('z witness_ext_scheme) \<Rightarrow> string \<Rightarrow> witness_db \<Rightarrow> witness_db \<Rightarrow> bool" for E key where
  limits: "edit E key db (db\<lparr>wd_limits := l\<rparr>)"
| nonces: "edit E key db (db\<lparr>wd_nonces := n\<rparr>)"
| expire: "(\<And>e. e \<in> set (wd_challenges db) \<Longrightarrow> \<not> P e \<Longrightarrow> ch_space (snd e) = key \<and> ch_intent (snd e) = None) \<Longrightarrow>
    edit E key db (db\<lparr>wd_challenges := filter P (wd_challenges db)\<rparr>)"
| register: "bt_get (wd_spaces db) key = None \<Longrightarrow> length (wd_spaces db) < MAX_SPACES \<Longrightarrow> length sp = 32 \<Longrightarrow>
    key = encode_hex sp \<Longrightarrow> edit E key db (db\<lparr>wd_spaces := bt_insert key row (wd_spaces db)\<rparr>)"
| update: "bt_get (wd_spaces db) key = Some row \<Longrightarrow>
    edit E key db (db\<lparr>wd_spaces := bt_insert key (row\<lparr>sw_proof := text\<rparr>) (wd_spaces db)\<rparr>)"
| invite: "bt_contains (wd_spaces db) key \<Longrightarrow> bt_get (wd_policies db) pid = None \<Longrightarrow>
    edit E key db (db\<lparr>wd_policies := bt_insert pid
      \<lparr>pw_space = key, pw_record = text, pw_revoked = False, pw_uses = 0\<rparr> (wd_policies db)\<rparr>)"
| revoke: "bt_get (wd_policies db) pid = Some row \<Longrightarrow> pw_space row = key \<Longrightarrow>
    edit E key db (db\<lparr>wd_policies := bt_insert pid (row\<lparr>pw_revoked := True\<rparr>) (wd_policies db)\<rparr>)"
| challenge: "bt_contains (wd_spaces db) key \<Longrightarrow> bt_get (wd_challenges db) cid = None \<Longrightarrow> ch_space row = key \<Longrightarrow>
    ch_intent row = None \<Longrightarrow> edit E key db (db\<lparr>wd_challenges := bt_insert cid row (wd_challenges db)\<rparr>)"
| admit: "bt_get (wd_policies db) pid = Some p \<Longrightarrow> pw_space p = key \<Longrightarrow> \<not> pw_revoked p \<Longrightarrow>
    pw_uses p < int (policy_max E (pw_record p)) \<Longrightarrow>
    bt_get (wd_challenges db) cid = Some c \<Longrightarrow> ch_space c = key \<Longrightarrow> ch_intent c = None \<Longrightarrow>
    edit E key db (count_use (consume_challenge db cid intent) pid)"
| tombstone: "bt_contains (wd_spaces db) key \<Longrightarrow> bt_get (wd_tombstones db) (key, cred) = None \<Longrightarrow>
    edit E key db (db\<lparr>wd_tombstones := bt_insert (key, cred) ident (wd_tombstones db)\<rparr>)"

abbreviation edits :: "('z witness_ext_scheme) \<Rightarrow> string \<Rightarrow> witness_db \<Rightarrow> witness_db \<Rightarrow> bool" where
  "edits E key \<equiv> (edit E key)\<^sup>*\<^sup>*"

lemmas edits_trans = rtranclp_trans [of "edit E key" for E key]

lemma bt_contains_insert: "bt_contains (bt_insert k v m) k' \<longleftrightarrow> k' = k \<or> bt_contains m k'"
  by (auto simp: bt_contains_def)

lemma edit_events: "edit E key db db' \<Longrightarrow> wd_events db' = wd_events db \<and> wd_pin db' = wd_pin db"
  by (induction rule: edit.induct) (simp_all add: count_use_def consume_challenge_def)

lemma edits_events: "edits E key db db' \<Longrightarrow> wd_events db' = wd_events db \<and> wd_pin db' = wd_pin db"
  by (induction rule: rtranclp_induct) (simp_all add: edit_events)

lemma edit_spaces:
  "edit E key db db' \<Longrightarrow> bt_contains (wd_spaces db) k \<Longrightarrow> bt_contains (wd_spaces db') k"
  by (induction rule: edit.induct) (simp_all add: count_use_def consume_challenge_def bt_contains_insert)

lemma edits_spaces:
  "edits E key db db' \<Longrightarrow> bt_contains (wd_spaces db) k \<Longrightarrow> bt_contains (wd_spaces db') k"
  by (induction rule: rtranclp_induct) (auto dest: edit_spaces)

lemma bt_contains_modify [simp]: "bt_contains (bt_modify k f m) k' = bt_contains m k'"
  by (simp add: bt_contains_def)

lemma set_bt_insert_le: "e \<in> set (bt_insert k v m) \<Longrightarrow> e = (k, v) \<or> e \<in> set m"
  by (induction m) (auto split: if_splits)

text \<open>Each edit changes the uses and the answered challenges of its space by the same amount.\<close>

lemma edit_counts:
  assumes "edit E key db db'" "tables_ok E db"
  shows "uses_counted db' k - uses_counted db k = challenges_answered db' k - challenges_answered db k"
  using assms
proof (induction rule: edit.induct)
  case (expire db P)
  have "sum_list (map (spent_of k) (filter P (wd_challenges db))) = sum_list (map (spent_of k) (wd_challenges db))"
    using expire.hyps by (intro sum_list_filter_bt) (auto simp: spent_of_def)
  then show ?case by (simp add: uses_counted_def challenges_answered_def)
next
  case (invite db pid w)
  then show ?case
    using tables_okD(2) [OF invite.prems] by (simp add: uses_counted_def challenges_answered_def sum_list_bt_insert uses_of_def)
next
  case (revoke db pid row)
  then show ?case
    using tables_okD(2) [OF revoke.prems] by (simp add: uses_counted_def challenges_answered_def sum_list_bt_insert uses_of_def)
next
  case (challenge db cid row)
  then show ?case
    using tables_okD(3) [OF challenge.prems] by (simp add: uses_counted_def challenges_answered_def sum_list_bt_insert spent_of_def)
next
  case (admit db pid p cid c intent)
  let ?f = "\<lambda>row. if ch_intent row = None then row\<lparr>ch_intent := Some intent\<rparr> else row"
  have "sum_list (map (uses_of k) (bt_modify pid (\<lambda>row. row\<lparr>pw_uses := pw_uses row + 1\<rparr>) (wd_policies db)))
      = uses_counted db k + (if key = k then 1 else 0)"
    using tables_okD(2) [OF admit.prems] admit.hyps(1,2) by (simp add: sum_list_bt_modify uses_counted_def uses_of_def)
  moreover have "sum_list (map (spent_of k) (bt_modify cid ?f (wd_challenges db)))
      = challenges_answered db k + (if key = k then 1 else 0)"
    using tables_okD(3) [OF admit.prems] admit.hyps(5-7) by (simp add: sum_list_bt_modify challenges_answered_def spent_of_def)
  ultimately show ?case by (simp add: uses_counted_def challenges_answered_def count_use_def consume_challenge_def)
qed (simp_all add: uses_counted_def challenges_answered_def)

text \<open>Where a row of the tables after an edit comes from.\<close>

lemma fst_set_bt_insert: "fst ` set (bt_insert k v m) = insert k (fst ` set m)"
  using bt_keys_insert [of k v m] by simp

lemma edit_space_keys:
  "edit E key db db' \<Longrightarrow> fst ` set (wd_spaces db') \<subseteq> fst ` set (wd_spaces db) \<union> {encode_hex sp | sp. length sp = 32}"
  by (induction rule: edit.induct)
    (auto simp: count_use_def consume_challenge_def fst_set_bt_insert dest: bt_get_key_in)

lemma edit_policy_rows:
  assumes "edit E key db db'" "bt_get (wd_policies db') pid = Some row"
  obtains "bt_get (wd_policies db) pid = Some row"
  | "pw_space row = key" "bt_contains (wd_spaces db) key" "policy_row_ok E row"
  | row0 where "bt_get (wd_policies db) pid = Some row0" "pw_space row0 = key" "pw_space row = key"
      "policy_row_ok E row0 \<longrightarrow> policy_row_ok E row"
  using assms(1,2)
  by (induction rule: edit.induct)
    (auto simp: count_use_def consume_challenge_def policy_row_ok_def split: if_splits)

lemma edit_challenge_rows:
  assumes "edit E key db db'" "bt_wf (wd_challenges db)" "bt_get (wd_challenges db') cid = Some row"
  obtains row0 where "bt_get (wd_challenges db) cid = Some row0" "ch_space row = ch_space row0"
  | "ch_space row = key" "bt_contains (wd_spaces db) key"
  using assms
proof (induction rule: edit.induct)
  case (expire db P)
  then have "(cid, row) \<in> set (filter P (wd_challenges db))" by (auto dest: bt_get_in)
  with expire.prems show ?case by (auto simp: bt_get_iff)
qed (auto simp: count_use_def consume_challenge_def split: if_splits)

lemma edit_tombstone_rows:
  assumes "edit E key db db'"
  shows "fst ` set (wd_tombstones db') = fst ` set (wd_tombstones db)
    \<or> (bt_contains (wd_spaces db) key \<and> (\<exists>cred. fst ` set (wd_tombstones db') = insert (key, cred) (fst ` set (wd_tombstones db))))"
  using assms
  by (induction rule: edit.induct) (auto simp: count_use_def consume_challenge_def fst_set_bt_insert)

lemma edit_tables_ok:
  assumes "edit E key db db'" "tables_ok E db"
  shows "tables_ok E db'"
proof -
  note ok = tables_okD [OF assms(2)]
  have contains: "bt_contains (wd_spaces db) k \<Longrightarrow> bt_contains (wd_spaces db') k" for k
    using assms(1) by (rule edit_spaces)
  have count: "uses_counted db' k = challenges_answered db' k" for k using edit_counts [OF assms, of k] ok(12) [of k] by simp
  have wf: "bt_wf (wd_spaces db')" "bt_wf (wd_policies db')" "bt_wf (wd_challenges db')" "bt_wf (wd_tombstones db')"
    using assms(1) ok(1-4)
    by (induction rule: edit.induct) (simp_all add: count_use_def consume_challenge_def bt_wf_filter)
  have size: "length (wd_spaces db') \<le> MAX_SPACES"
    using assms(1) ok(1,5)
  proof (induction rule: edit.induct)
    case (update db row w)
    then have "length (bt_keys (bt_insert key (row\<lparr>sw_proof := w\<rparr>) (wd_spaces db))) = length (bt_keys (wd_spaces db))"
      by (metis bt_get_key_in bt_keys_insert bt_wf_distinct bt_wf_insert distinct_card insert_absorb set_map)
    with update show ?case by simp
  qed (simp_all add: count_use_def consume_challenge_def length_bt_insert_fresh)
  have hex: "\<exists>sp. length sp = 32 \<and> fst e = encode_hex sp" if "e \<in> set (wd_spaces db')" for e
  proof -
    have "fst e \<in> fst ` set (wd_spaces db')" using that by simp
    then have "fst e \<in> fst ` set (wd_spaces db) \<or> (\<exists>sp. length sp = 32 \<and> fst e = encode_hex sp)"
      using edit_space_keys [OF assms(1)] by blast
    with ok(6) show ?thesis by force
  qed
  have policies: "bt_contains (wd_spaces db') (pw_space (snd e)) \<and> policy_row_ok E (snd e)"
    if "e \<in> set (wd_policies db')" for e
    using edit_policy_rows [OF assms(1) bt_wf_get_unique [OF wf(2) that]] ok(7,8) contains
    by (metis bt_get_in snd_conv)
  have challenges: "bt_contains (wd_spaces db') (ch_space (snd e))" if "e \<in> set (wd_challenges db')" for e
    using edit_challenge_rows [OF assms(1) ok(3) bt_wf_get_unique [OF wf(3) that]] ok(9) contains
    by (metis bt_get_in snd_conv)
  have tombstones: "bt_contains (wd_spaces db') (fst (fst e))" if "e \<in> set (wd_tombstones db')" for e
  proof -
    have "fst e \<in> fst ` set (wd_tombstones db')" using that by simp
    then consider "fst e \<in> fst ` set (wd_tombstones db)" | "fst (fst e) = key" "bt_contains (wd_spaces db) key"
      using edit_tombstone_rows [OF assms(1)] by (metis fst_conv insert_iff)
    then show ?thesis using ok(10) contains by cases auto
  qed
  have events: "bt_contains (wd_spaces db') (ev_space r)" if "r \<in> set (wd_events db')" for r
    using ok(11) contains that edit_events [OF assms(1)] by simp
  show ?thesis
    unfolding tables_ok_def using wf size hex policies challenges tombstones events count by blast
qed

lemma edits_tables_ok: "edits E key db db' \<Longrightarrow> tables_ok E db \<Longrightarrow> tables_ok E db'"
  by (induction rule: rtranclp_induct) (auto dest: edit_tables_ok)

subsection \<open>The rows of other spaces\<close>

definition space_view :: "witness_db \<Rightarrow> string \<Rightarrow>
  (string \<times> space_row) list \<times> (string \<times> policy_row) list \<times> (string \<times> challenge_row) list
  \<times> ((string \<times> string) \<times> string) list" where
  "space_view db key =
     (filter (\<lambda>e. fst e = key) (wd_spaces db), filter (\<lambda>e. pw_space (snd e) = key) (wd_policies db),
      filter (\<lambda>e. ch_space (snd e) = key) (wd_challenges db), filter (\<lambda>e. fst (fst e) = key) (wd_tombstones db))"

lemma digest_input_view:
  "space_view db' (encode_hex sp) = space_view db (encode_hex sp) \<Longrightarrow> state_digest E db' sp = state_digest E db sp"
  by (simp add: space_view_def state_digest_def digest_input_def space_rows_def policy_rows_def
      challenge_rows_def tombstone_rows_def)

lemma edit_view:
  assumes "edit E key db db'" "tables_ok E db" "k \<noteq> key"
  shows "space_view db' k = space_view db k"
  using assms
proof (induction rule: edit.induct)
  case (expire db P)
  have "filter (\<lambda>e. ch_space (snd e) = k) (filter P (wd_challenges db)) = filter (\<lambda>e. ch_space (snd e) = k) (wd_challenges db)"
    unfolding filter_filter using expire.hyps expire.prems(2) by (intro filter_cong) auto
  then show ?case by (simp add: space_view_def)
next
  case (admit db pid p cid c intent)
  note ok = tables_okD [OF admit.prems(1)]
  have "e \<in> set (wd_policies db) \<Longrightarrow> fst e = pid \<Longrightarrow> pw_space (snd e) \<noteq> k" for e
    using bt_wf_get_unique [OF ok(2), of e] admit by simp
  moreover have "e \<in> set (wd_challenges db) \<Longrightarrow> fst e = cid \<Longrightarrow> ch_space (snd e) \<noteq> k" for e
    using bt_wf_get_unique [OF ok(3), of e] admit by simp
  ultimately show ?case
    by (simp add: space_view_def count_use_def consume_challenge_def filter_bt_modify)
qed (auto simp: space_view_def intro!: filter_bt_insert)

lemma edits_view: "edits E key db db' \<Longrightarrow> tables_ok E db \<Longrightarrow> k \<noteq> key \<Longrightarrow> space_view db' k = space_view db k"
  by (induction rule: rtranclp_induct) (auto simp: edit_view edits_tables_ok)

subsection \<open>What is never taken back\<close>

definition policy_kept :: "policy_row \<Rightarrow> policy_row \<Rightarrow> bool" where
  "policy_kept row row' \<longleftrightarrow>
     pw_space row' = pw_space row \<and> pw_record row' = pw_record row \<and> pw_uses row \<le> pw_uses row'
     \<and> (pw_revoked row \<longrightarrow> row' = row)"

definition retained :: "witness_db \<Rightarrow> witness_db \<Rightarrow> bool" where
  "retained db db' \<longleftrightarrow>
     (\<forall>key row. bt_get (wd_spaces db) key = Some row \<longrightarrow>
        (\<exists>row'. bt_get (wd_spaces db') key = Some row' \<and> sw_stream row' = sw_stream row))
     \<and> (\<forall>pid row. bt_get (wd_policies db) pid = Some row \<longrightarrow>
        (\<exists>row'. bt_get (wd_policies db') pid = Some row' \<and> policy_kept row row'))
     \<and> (\<forall>cid row. bt_get (wd_challenges db) cid = Some row \<and> ch_intent row \<noteq> None \<longrightarrow>
        bt_get (wd_challenges db') cid = Some row)
     \<and> (\<forall>k ident. bt_get (wd_tombstones db) k = Some ident \<longrightarrow> bt_get (wd_tombstones db') k = Some ident)"

lemma policy_kept_refl: "policy_kept row row"
  by (simp add: policy_kept_def)

lemma retained_refl: "retained db db"
  by (simp add: retained_def policy_kept_def)

lemma policy_kept_trans: "policy_kept a b \<Longrightarrow> policy_kept b c \<Longrightarrow> policy_kept a c"
  by (auto simp: policy_kept_def)

lemma retained_trans: "retained a b \<Longrightarrow> retained b c \<Longrightarrow> retained a c"
  unfolding retained_def by (elim conjE, intro conjI, metis, meson policy_kept_trans, metis, metis)

lemma edit_retained:
  assumes "edit E key db db'" "tables_ok E db"
  shows "retained db db'"
  using assms
proof (induction rule: edit.induct)
  case (expire db P)
  have "bt_get (filter P (wd_challenges db)) cid = Some row"
    if "bt_get (wd_challenges db) cid = Some row" "ch_intent row \<noteq> None" for cid row
  proof -
    note wf = tables_okD(3) [OF expire.prems]
    have "(cid, row) \<in> set (wd_challenges db)" using that(1) by (rule bt_get_in)
    moreover from this have "P (cid, row)" using expire.hyps [of "(cid, row)"] that(2) by force
    ultimately show ?thesis using bt_get_iff [OF bt_wf_filter [OF wf]] by simp
  qed
  then show ?case by (auto simp: retained_def policy_kept_refl)
qed (auto simp: retained_def policy_kept_def count_use_def consume_challenge_def)

lemma edits_retained: "edits E key db db' \<Longrightarrow> tables_ok E db \<Longrightarrow> retained db db'"
  by (induction rule: rtranclp_induct) (auto intro: retained_refl retained_trans edit_retained edits_tables_ok)

end
