(* ===== verification/Witness_Invariant.thy ===== *)
theory Witness_Invariant
  imports Witness_Tables
begin

text \<open>
  Every operation of the witness edits the rows of its own space only, and the journal it
  writes passes the checks the next start makes: the receipts form a chain from the first
  event on and the digest of every space is the one its last receipt states.
\<close>

subsection \<open>Operations are edits\<close>

abbreviation cmd_key :: "WCommand \<Rightarrow> string" where
  "cmd_key cmd \<equiv> encode_hex (cw_space_id cmd)"

lemma save_Inr:
  assumes "save E db a = Inr db'" "space E a = sp"
  obtains proof_text where "db' = db\<lparr>wd_spaces := bt_insert (encode_hex sp)
            (case bt_get (wd_spaces db) (encode_hex sp) of
               Some row \<Rightarrow> row\<lparr>sw_proof := proof_text\<rparr>
             | None \<Rightarrow> \<lparr>sw_stream = encode_hex (au_stream a), sw_proof = proof_text\<rparr>) (wd_spaces db)\<rparr>"
  using assms by (auto simp: save_def Let_def result_simps)

lemma save_edit:
  assumes "save E db a = Inr db'" "space E a = sp" "bt_contains (wd_spaces db) (encode_hex sp)"
  shows "edit E (encode_hex sp) db db'"
  using assms(3) by (rule_tac save_Inr [OF assms(1,2)]) (auto simp: bt_contains_def intro: edit.update)

lemma save_register:
  assumes "save E db a = Inr db'" "space E a = sp" "\<not> bt_contains (wd_spaces db) (encode_hex sp)"
    "length (wd_spaces db) < MAX_SPACES" "length sp = 32"
  shows "edit E (encode_hex sp) db db'" "bt_contains (wd_spaces db') (encode_hex sp)"
  using assms(3-) by (rule_tac save_Inr [OF assms(1,2)], auto simp: bt_contains_def intro: edit.register)+

lemma save_frame:
  assumes "save E db a = Inr db'"
  shows "wd_policies db' = wd_policies db" "wd_challenges db' = wd_challenges db" "wd_tombstones db' = wd_tombstones db"
  by (rule save_Inr [OF assms refl], simp)+

lemma add_credential_space [simp]: "space E (add_credential E c a) = space E a"
  by (simp add: space_def add_credential_def)

lemma apply_config_space: "authority_ok E a \<Longrightarrow> space E (fst (apply_config E a r)) = space E a"
  using apply_config_le [of E a r] by (simp add: space_def authority_le_def)

lemma add_credentials_result:
  assumes "foldr_result (\<lambda>acc text. bindr (wverify_credential E text) (\<lambda>c. Inr (add_credential E c acc))) a texts = Inr b"
    "authority_ok E a"
  shows "authority_ok E b \<and> space E b = space E a"
  by (rule foldr_result_invariant [OF assms(1)]) (auto simp: assms(2) result_simps intro: add_credential_ok)

text \<open>The stored invitation an operation relies on is unrevoked and has uses left.\<close>

lemma wpolicy_Inr:
  assumes "wpolicy E db a pid now = Inr p"
  obtains row where "bt_get (wd_policies db) (encode_hex pid) = Some row" "pw_space row = encode_hex (space E a)"
    "\<not> pw_revoked row" "pw_record row = fst p" "0 \<le> pw_uses row" "pw_uses row < int (policy_max E (pw_record row))"
proof -
  from assms obtain row srec body where *: "bt_get (wd_policies db) (encode_hex pid) = Some row"
    "pw_space row = encode_hex (space E a)" "journal_decode E (pw_record row) = Inr srec"
    "verify_witness_invitation E a srec now = Inr body" "\<not> pw_revoked row" "0 \<le> pw_uses row"
    "nat (pw_uses row) < wip_max_uses body" "p = (pw_record row, body)"
    unfolding wpolicy_def by (auto simp: result_simps split: option.splits if_splits)
  have "dec_policy E (rec_body srec) = Some body"
    using *(4) unfolding verify_witness_invitation_def bindr_eq_Inr guard_eq_Inr decode_with_iff by blast
  with * show thesis by (intro that [of row]) (auto simp: policy_max_def)
qed

lemma stored_challenge_Inr:
  assumes "stored_challenge db cid cmd now = Inr row"
  shows "bt_get (wd_challenges db) (encode_hex cid) = Some row" "ch_space row = cmd_key cmd"
    "ch_credential row = encode_hex (cw_credential_id cmd)" "int now \<le> ch_expires row"
  using assms by (auto simp: stored_challenge_def split: option.splits if_splits)

text \<open>What an operation leaves: edited rows of the space of the command, and an authority of that space.\<close>

definition op_edits :: "('z witness_ext_scheme) \<Rightarrow> witness_db \<Rightarrow> WCommand \<Rightarrow> op_result \<Rightarrow> bool" where
  "op_edits E db cmd result \<longleftrightarrow>
     (\<forall>c. result = Committed c \<longrightarrow>
        edits E (cmd_key cmd) db (cg_db c) \<and> bt_contains (wd_spaces (cg_db c)) (cmd_key cmd)
        \<and> space E (cg_authority c) = cw_space_id cmd)"

lemma op_editsI:
  assumes "edits E (cmd_key cmd) db (cg_db c)" "bt_contains (wd_spaces (cg_db c)) (cmd_key cmd)"
    "space E (cg_authority c) = cw_space_id cmd"
  shows "op_edits E db cmd (Committed c)"
  using assms by (simp add: op_edits_def)

lemma op_edits_Acknowledged [simp]: "op_edits E db cmd (Acknowledged r)"
  by (simp add: op_edits_def)

lemma op_register_edits:
  assumes "op_register E db a cmd ip now = Inr r" "space E a = cw_space_id cmd" "length (cw_space_id cmd) = 32"
  shows "op_edits E db cmd r"
proof -
  from assms(1) obtain l db2 where *: "\<not> bt_contains (wd_spaces db) (cmd_key cmd)" "reserve_space db = Inr ()"
    "save E (db\<lparr>wd_limits := l\<rparr>) a = Inr db2"
    "r = Committed \<lparr>cg_db = db2, cg_authority = a, cg_event = ''space.registered'', cg_challenge = None,
                      cg_security_reduction = False\<rparr>"
    unfolding op_register_def Let_def bindr_eq_Inr guard_eq_Inr by auto
  have "length (wd_spaces db) < MAX_SPACES"
    using *(2) unfolding reserve_space_def by (simp split: if_splits)
  with *(1) assms have "edit E (cmd_key cmd) (db\<lparr>wd_limits := l\<rparr>) db2" "bt_contains (wd_spaces db2) (cmd_key cmd)"
    using save_register [OF *(3)] by auto
  then have "edits E (cmd_key cmd) db db2" "bt_contains (wd_spaces db2) (cmd_key cmd)"
    using edit.limits [of E "cmd_key cmd" db l] by (auto intro: rtranclp.rtrancl_into_rtrancl)
  then show ?thesis using *(4) assms(2) by (simp add: op_edits_def)
qed

lemmas edits_invite = r_into_rtranclp [of "edit E key" for E key, OF edit.invite]

lemma op_register_invitation_edits:
  assumes "op_register_invitation E db key pin a crec cmd policy now = Inr r" "space E a = cw_space_id cmd"
    "bt_contains (wd_spaces db) (cmd_key cmd)"
  shows "op_edits E db cmd r"
proof -
  obtain srec where srec: "journal_decode E policy = Inr srec"
    using assms(1) by (auto simp: op_register_invitation_def result_simps)
  show ?thesis
    using assms srec
    by (cases "bt_get (wd_policies db) (encode_hex (record_id E srec))")
      (auto simp: op_register_invitation_def Let_def result_simps op_edits_def intro!: edits_invite split: if_splits)
qed

lemma op_revoke_invitation_edits:
  assumes "op_revoke_invitation E db key pin a crec cmd pid now = Inr r" "space E a = cw_space_id cmd"
    "bt_contains (wd_spaces db) (cmd_key cmd)"
  shows "op_edits E db cmd r"
  using assms
  by (auto simp: op_revoke_invitation_def Let_def result_simps op_edits_def intro!: r_into_rtranclp edit.revoke
      split: if_splits option.splits)

lemma add_challenge_edits:
  assumes "add_challenge db cid row = Inr db'" "bt_contains (wd_spaces db) key" "ch_space row = key" "ch_intent row = None"
  shows "edits E key db db' \<and> bt_contains (wd_spaces db') key"
  using assms by (auto simp: add_challenge_def bt_contains_def intro!: r_into_rtranclp edit.challenge split: if_splits)

lemma op_challenge_edits:
  assumes "op_challenge E rnd db key pin a rq crec cmd pid nonce now = Inr r" "space E a = cw_space_id cmd"
    "bt_contains (wd_spaces db) (cmd_key cmd)"
  shows "op_edits E db cmd r"
  using assms(1) unfolding op_challenge_def Let_def bindr_eq_Inr guard_eq_Inr
  by (auto simp: assms op_edits_def dest!: add_challenge_edits [where key = "cmd_key cmd" and E = E])

lemma op_challenge_v2_edits:
  assumes "op_challenge_v2 E rnd db key pin a rq crec cmd c join nonce now = Inr r" "space E a = cw_space_id cmd"
    "bt_contains (wd_spaces db) (cmd_key cmd)"
  shows "op_edits E db cmd r"
  using assms(1) unfolding op_challenge_v2_def Let_def bindr_eq_Inr guard_eq_Inr
  by (auto simp: assms op_edits_def dest!: add_challenge_edits [where key = "cmd_key cmd" and E = E])

text \<open>An admission answers one challenge and uses the invitation once.\<close>

lemma admit_edits:
  assumes "wpolicy E db a pid now = Inr p" "stored_challenge db cid cmd now = Inr row" "ch_intent row = None"
    "save E db a2 = Inr db1" "space E a = cw_space_id cmd" "space E a2 = cw_space_id cmd"
    "bt_contains (wd_spaces db) (cmd_key cmd)"
  shows "edits E (cmd_key cmd) db (count_use (consume_challenge db1 (encode_hex cid) intent) (encode_hex pid))
    \<and> bt_contains (wd_spaces (count_use (consume_challenge db1 (encode_hex cid) intent) (encode_hex pid))) (cmd_key cmd)"
proof -
  have s: "edit E (cmd_key cmd) db db1" using save_edit [OF assms(4) refl] assms(6,7) by simp
  obtain prow where "bt_get (wd_policies db1) (encode_hex pid) = Some prow" "pw_space prow = cmd_key cmd"
    "\<not> pw_revoked prow" "pw_uses prow < int (policy_max E (pw_record prow))"
    using assms(5) save_frame(1) [OF assms(4)] by (rule_tac wpolicy_Inr [OF assms(1)]) auto
  then have "edit E (cmd_key cmd) db1 (count_use (consume_challenge db1 (encode_hex cid) intent) (encode_hex pid))"
    using stored_challenge_Inr [OF assms(2)] save_frame(2) [OF assms(4)] assms(3) by (intro edit.admit) auto
  with s have "edits E (cmd_key cmd) db (count_use (consume_challenge db1 (encode_hex cid) intent) (encode_hex pid))"
    by auto
  then show ?thesis using edits_spaces assms(7) by blast
qed

lemma op_admit_edits:
  assumes "op_admit E db key a cmd cand evidence now = Inr r" "space E a = cw_space_id cmd" "authority_ok E a"
    "bt_contains (wd_spaces db) (cmd_key cmd)"
  shows "op_edits E db cmd r"
proof -
  from assms(1) obtain intent :: WitnessAdmissionIntent and p row config db1 it where *: "wpolicy E db a (wi_policy_id intent) now = Inr p"
    "stored_challenge db (wi_challenge_id intent) cmd now = Inr row" "ch_intent row = None"
    "save E db (fst (apply_config E (add_credential E cand a) config)) = Inr db1"
    "r = Committed \<lparr>cg_db = count_use (consume_challenge db1 (encode_hex (wi_challenge_id intent)) it)
            (encode_hex (wi_policy_id intent)),
          cg_authority = fst (apply_config E (add_credential E cand a) config), cg_event = ''device.admitted'',
          cg_challenge = None, cg_security_reduction = False\<rparr>"
    unfolding op_admit_def Let_def bindr_eq_Inr guard_eq_Inr de_Morgan_disj not_not rec_err_iff sum.inject
    by blast
  have "space E (fst (apply_config E (add_credential E cand a) config)) = cw_space_id cmd"
    using apply_config_space [OF add_credential_ok [OF assms(3)]] assms(2) by simp
  with admit_edits [OF *(1-4) assms(2) _ assms(4)] *(5) show ?thesis by (simp add: op_edits_def)
qed

lemma op_admit_v2_edits:
  assumes "op_admit_v2 E db key a cmd cand evidence now = Inr r" "space E a = cw_space_id cmd" "authority_ok E a"
    "bt_contains (wd_spaces db) (cmd_key cmd)"
  shows "op_edits E db cmd r"
proof -
  from assms(1) obtain intent :: WitnessAdmissionIntentV2 and p row config db1 it where *: "wpolicy E db a (wi_policy_id intent) now = Inr p"
    "stored_challenge db (wi_challenge_id intent) cmd now = Inr row" "ch_intent row = None"
    "save E db (fst (apply_config E (add_credential E cand a) config)) = Inr db1"
    "r = Committed \<lparr>cg_db = count_use (consume_challenge db1 (encode_hex (wi_challenge_id intent)) it)
            (encode_hex (wi_policy_id intent)),
          cg_authority = fst (apply_config E (add_credential E cand a) config), cg_event = ''device.admitted_v2'',
          cg_challenge = None, cg_security_reduction = False\<rparr>"
    unfolding op_admit_v2_def Let_def bindr_eq_Inr guard_eq_Inr de_Morgan_disj not_not rec_err_iff sum.inject
    by blast
  have "space E (fst (apply_config E (add_credential E cand a) config)) = cw_space_id cmd"
    using apply_config_space [OF add_credential_ok [OF assms(3)]] assms(2) by simp
  with admit_edits [OF *(1-4) assms(2) _ assms(4)] *(5) show ?thesis by (simp add: op_edits_def)
qed

lemma add_tombstones_edits:
  "bt_contains (wd_spaces db) sp \<Longrightarrow>
   edits E sp db (db\<lparr>wd_tombstones := add_tombstones sp xs (wd_tombstones db)\<rparr>)"
proof (induction xs arbitrary: db)
  case (Cons x xs)
  obtain cred ident where x: "x = (cred, ident)" by (cases x)
  show ?case
  proof (cases "bt_contains (wd_tombstones db) (sp, cred)")
    case False
    let ?db = "db\<lparr>wd_tombstones := bt_insert (sp, cred) ident (wd_tombstones db)\<rparr>"
    have "edit E sp db ?db" using False Cons.prems by (intro edit.tombstone) (simp_all add: bt_contains_def)
    moreover have "edits E sp ?db (?db\<lparr>wd_tombstones := add_tombstones sp xs (wd_tombstones ?db)\<rparr>)"
      using Cons.prems by (intro Cons.IH) simp
    ultimately show ?thesis using False by (simp add: x)
  qed (use Cons in \<open>simp add: x\<close>)
qed simp

lemma op_owner_update_edits:
  assumes "op_owner_update E db key a cmd proposal credentials = Inr r" "space E a = cw_space_id cmd" "authority_ok E a"
    "bt_contains (wd_spaces db) (cmd_key cmd)"
  shows "op_edits E db cmd r"
proof -
  from assms(1) obtain a1 config xs db2 reduction where
    *: "foldr_result (\<lambda>acc text. bindr (wverify_credential E text) (\<lambda>c. Inr (add_credential E c acc))) a credentials = Inr a1"
    "save E (db\<lparr>wd_tombstones := add_tombstones (cmd_key cmd) xs (wd_tombstones db)\<rparr>) (fst (apply_config E a1 config)) = Inr db2"
    "r = Committed \<lparr>cg_db = db2, cg_authority = fst (apply_config E a1 config), cg_event = ''authority.updated'',
          cg_challenge = None, cg_security_reduction = reduction\<rparr>"
    unfolding op_owner_update_def Let_def bindr_eq_Inr guard_eq_Inr de_Morgan_disj not_not rec_err_iff sum.inject
    by blast
  note c = add_credentials_result [OF *(1) assms(3)]
  have sp: "space E (fst (apply_config E a1 config)) = cw_space_id cmd" using apply_config_space c assms(2) by metis
  have "edits E (cmd_key cmd) db (db\<lparr>wd_tombstones := add_tombstones (cmd_key cmd) xs (wd_tombstones db)\<rparr>)"
    by (rule add_tombstones_edits [OF assms(4)])
  moreover have "edit E (cmd_key cmd) (db\<lparr>wd_tombstones := add_tombstones (cmd_key cmd) xs (wd_tombstones db)\<rparr>) db2"
    using save_edit [OF *(2) sp] assms(4) by simp
  ultimately have "edits E (cmd_key cmd) db db2" by (rule rtranclp.rtrancl_into_rtrancl)
  with edits_spaces [OF this assms(4)] *(3) sp show ?thesis by (simp add: op_edits_def)
qed

lemma run_operation_edits:
  assumes "run_operation E rnd db jo a cand rq crec cmd ip now = Inr r" "space E a = cw_space_id cmd"
    "authority_ok E a" "length (cw_space_id cmd) = 32"
    "\<not> registers (cw_operation cmd) \<Longrightarrow> bt_contains (wd_spaces db) (cmd_key cmd)"
  shows "op_edits E db cmd r"
  using assms unfolding run_operation_def registers_def
  by (cases "cw_operation cmd")
    (auto simp: result_simps intro: op_register_edits op_register_invitation_edits op_revoke_invitation_edits
      op_challenge_edits op_challenge_v2_edits op_admit_edits op_admit_v2_edits op_owner_update_edits)

lemma forget_expired_edits: "edits E key db (forget_expired db key now)"
proof -
  let ?P = "\<lambda>e. \<not> (ch_space (snd e) = key \<and> ch_expires (snd e) < int (saturating_sub now 600000) \<and> ch_intent (snd e) = None)"
  let ?db = "db\<lparr>wd_nonces := filter (\<lambda>e. \<not> nr_expires (snd e) < int (saturating_sub now 600000)) (wd_nonces db)\<rparr>"
  have "edit E key ?db (?db\<lparr>wd_challenges := filter ?P (wd_challenges ?db)\<rparr>)"
    by (rule edit.expire) auto
  moreover have "forget_expired db key now = ?db\<lparr>wd_challenges := filter ?P (wd_challenges ?db)\<rparr>"
    by (simp add: forget_expired_def Let_def)
  ultimately show ?thesis using edit.nonces [of E key db] by (auto intro: converse_rtranclp_into_rtranclp)
qed

subsection \<open>Appending to the journal\<close>

text \<open>What the journal relies on: Ed25519, base64, the derived encoding of receipts and SHA-256's size.\<close>

definition base64_size :: "('z crypto_scheme) \<Rightarrow> bool" where
  "base64_size E \<longleftrightarrow> (\<forall>b. 4 \<le> length b \<longrightarrow> length (b64_encode E b) \<le> 2 * length b)"

definition receipt_serde :: "('z witness_ext_scheme) \<Rightarrow> bool" where
  "receipt_serde E \<longleftrightarrow> (\<forall>body m j. strict_json E (ser_receipt E body) m = Inr j \<longrightarrow> dec_receipt E j = Some body)"

definition journal_codec :: "('z witness_ext_scheme) \<Rightarrow> bool" where
  "journal_codec E \<longleftrightarrow>
     signing_correct E \<and> base64_correct E \<and> base64_size E \<and> sha256_length E \<and> receipt_serde E"

lemma signed_text:
  assumes "sign E body key = Inr srec" "signing_correct E" "base64_correct E" "base64_size E"
  shows "journal_decode E (b64_encode E (rec_bytes srec)) = Inr srec"
    "verify_signature E srec (ed_public E key) = Inr ()"
    "strict_json E body MAX_RECORD = Inr (rec_body srec)"
proof -
  note s = sign_bounded_Inr [OF assms(1) [unfolded sign_def] assms(2)]
  have p: "72 \<le> length (rec_bytes srec)" "length (rec_bytes srec) \<le> MAX_RECORD"
    using s(1) by (auto simp: parse_bounded_def Let_def split: if_splits)
  have "length (b64_encode E (rec_bytes srec)) \<le> 2 * length (rec_bytes srec)"
    using assms(4) p(1) by (simp add: base64_size_def)
  with p(2) have "\<not> length (b64_encode E (rec_bytes srec)) > MAX_RECORD * 2" by simp
  then show "journal_decode E (b64_encode E (rec_bytes srec)) = Inr srec"
    using s(1) assms(3) by (simp add: journal_decode_def base64_correct_def parse_def rec_err_def)
  show "verify_signature E srec (ed_public E key) = Inr ()"
    using s(2,3) assms(2) by (simp add: verify_signature_def signing_correct_def)
  show "strict_json E body MAX_RECORD = Inr (rec_body srec)"
    using s(1,2) parse_bounded_body_bytes by metis
qed

lemma verify_event_Inr:
  assumes "verify_event E key pin st row = Inr st'"
  obtains srec where "st' = (Some (record_id E srec), fst (snd st) + 1, snd (snd st'))"
    "ev_sequence row = int (fst (snd st) + 1)" "ev_record_id row = encode_hex (record_id E srec)"
    "fst (snd st) + 1 \<le> MAX_EVENTS" "snd (snd st) \<le> snd (snd st')"
  using assms by (cases st) (auto simp: verify_event_def Let_def result_simps not_less)

lemma verify_events_snoc:
  "verify_events E key pin (rows @ [row]) = bindr (verify_events E key pin rows) (\<lambda>st. verify_event E key pin st row)"
  by (cases "verify_events E key pin rows") (simp_all add: verify_events_def foldr_result_append bindr_def split: sum.splits)

lemma verify_events_position:
  assumes "verify_events E key pin (wd_events db) = Inr (p, n, t)" "sha256_length E"
  shows "position db = Inr \<lparr>po_sequence = n, po_record_id = p\<rparr> \<and> n = length (wd_events db)"
proof -
  have "n = length rows \<and> (rows \<noteq> [] \<longrightarrow> ev_sequence (last rows) = int n
      \<and> (\<exists>srec. p = Some (record_id E srec) \<and> ev_record_id (last rows) = encode_hex (record_id E srec)))
      \<and> (rows = [] \<longrightarrow> p = None)"
    if "verify_events E key pin rows = Inr (p, n, t)" for rows
    using that
  proof (induction rows arbitrary: p n t rule: rev_induct)
    case (snoc row rows)
    then obtain st where st: "verify_events E key pin rows = Inr st" "verify_event E key pin st row = Inr (p, n, t)"
      by (auto simp: verify_events_snoc result_simps)
    have len: "fst (snd st) = length rows" using snoc.IH [of "fst st" "fst (snd st)" "snd (snd st)"] st(1) by simp
    show ?case
      by (rule verify_event_Inr [OF st(2)]) (use len in auto)
  qed (simp add: verify_events_def)
  from this [OF assms(1)] show ?thesis
    using assms(2) by (cases "wd_events db = []") (auto simp: position_def Let_def record_id_length)
qed

lemma append_Inr:
  assumes "append_with_budget E db key pin event response reduction = Inr (db', response')"
    "position db = Inr tip" 
  obtains srec row where
    "sign E (ser_receipt E (receipt_body E db pin event tip)) key = Inr srec" "po_sequence tip < MAX_EVENTS"
    "row = \<lparr>ev_sequence = int (po_sequence tip + 1), ev_record_id = encode_hex (record_id E srec),
       ev_receipt = b64_encode E (rec_bytes srec), ev_request_id = encode_hex (ei_request event),
       ev_response = ser_response E response', ev_space = encode_hex (ei_space event)\<rparr>"
    "db' = db\<lparr>wd_events := wd_events db @ [row]\<rparr>"
    "response' = response\<lparr>wr_receipt := Some (b64_encode E (rec_bytes srec))\<rparr>"
    "\<forall>r \<in> set (wd_events db). ev_record_id r \<noteq> ev_record_id row \<and> ev_request_id r \<noteq> ev_request_id row"
    "enforce db' (ei_space event) reduction = Inr ()"
proof -
  from assms obtain srec where *: "sign E (ser_receipt E (receipt_body E db pin event tip)) key = Inr srec"
    "po_sequence tip < MAX_EVENTS"
    "response' = response\<lparr>wr_receipt := Some (b64_encode E (rec_bytes srec))\<rparr>"
    "db' = db\<lparr>wd_events := wd_events db @ [\<lparr>ev_sequence = int (po_sequence tip + 1),
       ev_record_id = encode_hex (record_id E srec),
       ev_receipt = b64_encode E (rec_bytes srec), ev_request_id = encode_hex (ei_request event),
       ev_response = ser_response E response', ev_space = encode_hex (ei_space event)\<rparr>]\<rparr>"
    "\<forall>r \<in> set (wd_events db). ev_record_id r \<noteq> encode_hex (record_id E srec) \<and> ev_request_id r \<noteq> encode_hex (ei_request event)"
    "enforce db' (ei_space event) reduction = Inr ()"
    by (auto simp: append_with_budget_def Let_def result_simps receipt_body_def list_ex_iff not_le split: if_splits)
  show thesis by (rule that [OF *(1,2) refl]) (use * in auto)
qed

lemma append_events:
  assumes "append_with_budget E db key pin event response reduction = Inr (db', response')"
    "verify_events E key pin (wd_events db) = Inr (p, n, t)" "t \<le> ei_now event" "journal_codec E"
  shows "\<exists>p'. verify_events E key pin (wd_events db') = Inr (p', n + 1, ei_now event)"
proof -
  note c = assms(4) [unfolded journal_codec_def]
  have pos: "position db = Inr \<lparr>po_sequence = n, po_record_id = p\<rparr>"
    using verify_events_position [OF assms(2)] c by blast
  show ?thesis
  proof (rule append_Inr [OF assms(1) pos])
    fix srec row
    assume a: "sign E (ser_receipt E (receipt_body E db pin event \<lparr>po_sequence = n, po_record_id = p\<rparr>)) key = Inr srec"
      "po_sequence \<lparr>po_sequence = n, po_record_id = p\<rparr> < MAX_EVENTS"
      "row = \<lparr>ev_sequence = int (po_sequence \<lparr>po_sequence = n, po_record_id = p\<rparr> + 1),
       ev_record_id = encode_hex (record_id E srec),
       ev_receipt = b64_encode E (rec_bytes srec), ev_request_id = encode_hex (ei_request event),
       ev_response = ser_response E response', ev_space = encode_hex (ei_space event)\<rparr>"
      "db' = db\<lparr>wd_events := wd_events db @ [row]\<rparr>"
    note t = signed_text [OF a(1)]
    have d: "dec_receipt E (rec_body srec) = Some (receipt_body E db pin event \<lparr>po_sequence = n, po_record_id = p\<rparr>)"
      using t(3) c by (auto simp: receipt_serde_def)
    have "verify_event E key pin (p, n, t) row = Inr (Some (record_id E srec), n + 1, ei_now event)"
      using t c a d assms(3)
      by (simp add: verify_event_def Let_def rec_err_def decode_with_def receipt_body_def)
    with assms(2) a(4) show ?thesis by (simp add: verify_events_snoc)
  qed
qed

lemma verify_materialized_space_cong:
  assumes "last_event db' (encode_hex sp) = last_event db (encode_hex sp)" "state_digest E db' sp = state_digest E db sp"
  shows "verify_materialized_space E db' sp pin = verify_materialized_space E db sp pin"
  by (simp add: verify_materialized_space_def assms)

lemma state_digest_events [simp]: "state_digest E (db\<lparr>wd_events := rows\<rparr>) sp = state_digest E db sp"
  by (rule digest_input_view) (simp add: space_view_def)

lemma last_event_snoc:
  "last_event (db\<lparr>wd_events := wd_events db @ [row]\<rparr>) key = (if ev_space row = key then Some row else last_event db key)"
  by (simp add: last_event_def Let_def)

lemma append_materialized:
  assumes "append_with_budget E db key pin event response reduction = Inr (db', response')"
    "verify_events E key pin (wd_events db) = Inr (p, n, t)" "journal_codec E" "pin_key E pin = Inr (ed_public E key)"
  shows "\<exists>receipt. verify_materialized_space E db' (ei_space event) pin = Inr receipt
      \<and> re_authority_head receipt = ei_head event"
    "encode_hex sp \<noteq> encode_hex (ei_space event) \<Longrightarrow>
       verify_materialized_space E db' sp pin = verify_materialized_space E db sp pin"
proof -
  note c = assms(3) [unfolded journal_codec_def]
  let ?tip = "\<lparr>po_sequence = n, po_record_id = p\<rparr>"
  have pos: "position db = Inr ?tip" using verify_events_position [OF assms(2)] c by blast
  obtain srec row where a: "sign E (ser_receipt E (receipt_body E db pin event ?tip)) key = Inr srec"
    "row = \<lparr>ev_sequence = int (po_sequence ?tip + 1), ev_record_id = encode_hex (record_id E srec),
       ev_receipt = b64_encode E (rec_bytes srec), ev_request_id = encode_hex (ei_request event),
       ev_response = ser_response E response', ev_space = encode_hex (ei_space event)\<rparr>"
    "db' = db\<lparr>wd_events := wd_events db @ [row]\<rparr>"
    by (rule append_Inr [OF assms(1) pos])
  note t = signed_text [OF a(1)]
  have d: "dec_receipt E (rec_body srec) = Some (receipt_body E db pin event ?tip)"
    using t(3) c by (auto simp: receipt_serde_def)
  show "\<exists>receipt. verify_materialized_space E db' (ei_space event) pin = Inr receipt
      \<and> re_authority_head receipt = ei_head event"
    using t c a d assms(4)
    by (simp add: verify_materialized_space_def last_event_snoc rec_err_def decode_with_def receipt_body_def)
  show "encode_hex sp \<noteq> encode_hex (ei_space event) \<Longrightarrow>
       verify_materialized_space E db' sp pin = verify_materialized_space E db sp pin"
    by (rule verify_materialized_space_cong) (auto simp: a(2,3) last_event_snoc)
qed

subsection \<open>The invariant of the journal\<close>

definition journal_ok :: "('z witness_ext_scheme) \<Rightarrow> Journal \<Rightarrow> bool" where
  "journal_ok E jo \<longleftrightarrow>
     tables_ok E (jo_db jo)
     \<and> (\<exists>p n t. verify_events E (jo_key jo) (jo_pin jo) (wd_events (jo_db jo)) = Inr (p, n, t) \<and> t \<le> jo_last_clock jo)
     \<and> (\<forall>sp. bt_contains (wd_spaces (jo_db jo)) (encode_hex sp) \<longrightarrow>
          (\<exists>r. verify_materialized_space E (jo_db jo) sp (jo_pin jo) = Inr r))
     \<and> pin_validate E (jo_pin jo) = Inr () \<and> pin_key E (jo_pin jo) = Inr (ed_public E (jo_key jo))
     \<and> length (jo_key jo) = 32
     \<and> wd_pin (jo_db jo) = Some (ser_pin E (jo_pin jo))
     \<and> distinct (map ev_request_id (wd_events (jo_db jo)))
     \<and> (jo_clock_failed jo \<longrightarrow> \<not> jo_active jo)"

lemma journal_okD:
  assumes "journal_ok E jo"
  shows "tables_ok E (jo_db jo)"
    "\<exists>p n t. verify_events E (jo_key jo) (jo_pin jo) (wd_events (jo_db jo)) = Inr (p, n, t) \<and> t \<le> jo_last_clock jo"
    "\<And>sp. bt_contains (wd_spaces (jo_db jo)) (encode_hex sp) \<Longrightarrow>
          \<exists>r. verify_materialized_space E (jo_db jo) sp (jo_pin jo) = Inr r"
    "pin_validate E (jo_pin jo) = Inr ()" "pin_key E (jo_pin jo) = Inr (ed_public E (jo_key jo))"
    "length (jo_key jo) = 32" "wd_pin (jo_db jo) = Some (ser_pin E (jo_pin jo))"
    "distinct (map ev_request_id (wd_events (jo_db jo)))"
    "jo_clock_failed jo \<Longrightarrow> \<not> jo_active jo"
  using assms unfolding journal_ok_def by blast+

lemma load_Inr:
  assumes "load E db sp strm pin = Inr a"
  shows "authority_ok E a" "space E a = sp" "au_stream a = strm" "witness_pin a = Some pin" "\<exists>c. head a = Inr c"
    "bt_contains (wd_spaces db) (encode_hex sp)"
    "\<exists>receipt. verify_materialized_space E db sp pin = Inr receipt \<and> au_head a = Some (re_authority_head receipt)"
proof -
  from assms obtain row p receipt where *: "bt_get (wd_spaces db) (encode_hex sp) = Some row"
    "verify_witnessed E p sp strm pin = Inr a" "verify_materialized_space E db sp pin = Inr receipt"
    "au_head a = Some (re_authority_head receipt)"
    unfolding load_def by (auto simp: result_simps split: option.splits if_splits)
  from *(2) have "verify_with_witness E p sp strm (Some pin) = Inr a"
    by (simp add: verify_witnessed_def result_simps)
  from verify_with_witness_usable [OF this]
  show "authority_ok E a" "space E a = sp" "au_stream a = strm" "witness_pin a = Some pin" "\<exists>c. head a = Inr c"
    by blast+
  show "bt_contains (wd_spaces db) (encode_hex sp)" using *(1) by (simp add: bt_contains_def)
  show "\<exists>receipt. verify_materialized_space E db sp pin = Inr receipt \<and> au_head a = Some (re_authority_head receipt)"
    using *(3,4) by blast
qed

lemma registration_authority_Inr:
  assumes "registration_authority E pin rq cmd = Inr a"
  shows "authority_ok E a" "space E a = cw_space_id cmd" "au_stream a = cw_stream_id cmd" "witness_pin a = Some pin"
proof -
  from assms obtain p where "verify_with_witness E p (cw_space_id cmd) (cw_stream_id cmd) (Some pin) = Inr a"
    by (auto simp: registration_authority_def verify_witnessed_def result_simps)
  from verify_with_witness_usable [OF this]
  show "authority_ok E a" "space E a = cw_space_id cmd" "au_stream a = cw_stream_id cmd" "witness_pin a = Some pin"
    by blast+
qed

lemma command_authority_Inr:
  assumes "command_authority E db pin rq cmd = Inr a"
  shows "authority_ok E a" "space E a = cw_space_id cmd" "au_stream a = cw_stream_id cmd" "witness_pin a = Some pin"
    "\<not> registers (cw_operation cmd) \<Longrightarrow> bt_contains (wd_spaces db) (cmd_key cmd)"
    "\<not> registers (cw_operation cmd) \<Longrightarrow> load E db (cw_space_id cmd) (cw_stream_id cmd) pin = Inr a"
  using assms registration_authority_Inr load_Inr
  unfolding command_authority_def by (auto simp: result_simps split: if_splits)

lemma transact_cases:
  assumes "transact E rnd jo a cand rq crec cmd ip now = Inr (db', response)" "space E a = cw_space_id cmd"
    "authority_ok E a" "sha256_length E"
    "\<not> registers (cw_operation cmd) \<Longrightarrow> bt_contains (wd_spaces (jo_db jo)) (cmd_key cmd)"
  obtains (unchanged) "db' = jo_db jo"
  | (committed) db1 h name r0 reduction where "edits E (cmd_key cmd) (jo_db jo) db1"
      "bt_contains (wd_spaces db1) (cmd_key cmd)"
      "append_with_budget E db1 (jo_key jo) (jo_pin jo)
         \<lparr>ei_request = record_id E crec, ei_space = cw_space_id cmd, ei_head = h, ei_name = name, ei_now = now\<rparr>
         r0 reduction = Inr (db', response)"
proof -
  let ?db0 = "forget_expired (jo_db jo) (cmd_key cmd) now"
  have forgotten: "edits E (cmd_key cmd) (jo_db jo) ?db0" by (rule forget_expired_edits)
  from assms(1) obtain result where r: "run_operation E rnd ?db0 jo a cand rq crec cmd ip now = Inr result"
    and rest: "(case result of
        Acknowledged response \<Rightarrow> Inr (jo_db jo, response)
      | Committed c \<Rightarrow>
          let db1 = (cg_db c)\<lparr>wd_nonces := bt_insert (encode_hex (cw_credential_id cmd), cw_nonce cmd)
                \<lparr>nr_request = encode_hex (record_id E crec), nr_expires = int (cw_expires_at_ms cmd)\<rparr>
                (wd_nonces (cg_db c))\<rparr> in
          bindr (ok_or (au_head (cg_authority c)) W_Missing) (\<lambda>h.
          append_with_budget E db1 (jo_key jo) (jo_pin jo)
            \<lparr>ei_request = record_id E crec, ei_space = cw_space_id cmd, ei_head = h, ei_name = cg_event c, ei_now = now\<rparr>
            \<lparr>wr_receipt = None, wr_proof = None, wr_challenge = cg_challenge c\<rparr> (cg_security_reduction c))) = Inr (db', response)"
    unfolding transact_def Let_def bindr_eq_Inr guard_eq_Inr by blast
  have len: "length (cw_space_id cmd) = 32"
    using assms(2,4) record_id_length by (metis space_def)
  have op: "op_edits E ?db0 cmd result"
    using assms(5) edits_spaces [OF forgotten] by (intro run_operation_edits [OF r assms(2,3) len]) blast
  show thesis
  proof (cases result)
    case (Committed c)
    let ?db1 = "(cg_db c)\<lparr>wd_nonces := bt_insert (encode_hex (cw_credential_id cmd), cw_nonce cmd)
                \<lparr>nr_request = encode_hex (record_id E crec), nr_expires = int (cw_expires_at_ms cmd)\<rparr>
                (wd_nonces (cg_db c))\<rparr>"
    have e: "edits E (cmd_key cmd) ?db0 (cg_db c)" and "bt_contains (wd_spaces (cg_db c)) (cmd_key cmd)"
      using op Committed by (simp_all add: op_edits_def)
    then have "edits E (cmd_key cmd) (jo_db jo) ?db1" "bt_contains (wd_spaces ?db1) (cmd_key cmd)"
      by (auto intro: rtranclp.rtrancl_into_rtrancl [OF rtranclp_trans [OF forgotten e] edit.nonces])
    with rest Committed show thesis by (auto simp: Let_def result_simps intro: committed)
  qed (use rest unchanged in auto)
qed

lemma contains_filter: "bt_contains m k \<longleftrightarrow> filter (\<lambda>e. fst e = k) m \<noteq> []"
  by (force simp: bt_contains_iff filter_empty_conv)

lemma contains_view: "space_view db' k = space_view db k \<Longrightarrow> bt_contains (wd_spaces db') k = bt_contains (wd_spaces db) k"
  by (simp add: contains_filter space_view_def)

lemma edits_last_event: "edits E key db db' \<Longrightarrow> last_event db' k = last_event db k"
  by (drule edits_events) (simp add: last_event_def)

text \<open>One committed command keeps the invariant and adds one event.\<close>

lemma committed_ok:
  assumes "journal_ok E jo" "journal_codec E" "jo_last_clock jo = now"
    and "edits E (encode_hex sp) (jo_db jo) db1" "bt_contains (wd_spaces db1) (encode_hex sp)"
    and "append_with_budget E db1 (jo_key jo) (jo_pin jo)
         \<lparr>ei_request = rid, ei_space = sp, ei_head = h, ei_name = name, ei_now = now\<rparr> r0 reduction = Inr (db', response)"
  shows "journal_ok E (jo\<lparr>jo_db := db'\<rparr>)"
proof -
  note ok = journal_okD [OF assms(1)]
  let ?ev = "\<lparr>ei_request = rid, ei_space = sp, ei_head = h, ei_name = name, ei_now = now\<rparr>"
  have ev: "wd_events db1 = wd_events (jo_db jo)" "wd_pin db1 = wd_pin (jo_db jo)"
    using edits_events [OF assms(4)] by simp_all
  from ok(2) ev assms(3) obtain p n t where v: "verify_events E (jo_key jo) (jo_pin jo) (wd_events db1) = Inr (p, n, t)"
    "t \<le> ei_now ?ev" by auto
  have t1: "tables_ok E db1" by (rule edits_tables_ok [OF assms(4) ok(1)])
  have "\<exists>row. db' = db1\<lparr>wd_events := wd_events db1 @ [row]\<rparr> \<and> ev_space row = encode_hex sp
      \<and> (\<forall>r \<in> set (wd_events db1). ev_request_id r \<noteq> ev_request_id row)"
    using verify_events_position [OF v(1)] assms(2)
    by (rule_tac append_Inr [OF assms(6)]) (auto simp: journal_codec_def)
  then obtain row where row: "db' = db1\<lparr>wd_events := wd_events db1 @ [row]\<rparr>" "ev_space row = encode_hex sp"
    "\<forall>r \<in> set (wd_events db1). ev_request_id r \<noteq> ev_request_id row" by blast
  have tables: "tables_ok E db'"
    using tables_okD [OF t1] assms(5) row(1,2) by (auto simp: tables_ok_def uses_counted_def challenges_answered_def)
  have spaces: "\<exists>r. verify_materialized_space E db' sp' (jo_pin jo) = Inr r"
    if "bt_contains (wd_spaces db') (encode_hex sp')" for sp'
  proof (cases "sp' = sp")
    case True
    with append_materialized(1) [OF assms(6) v(1) assms(2) ok(5)] show ?thesis by auto
  next
    case False
    then have ne: "encode_hex sp' \<noteq> encode_hex sp" by (simp add: encode_hex_inj)
    have view: "space_view db1 (encode_hex sp') = space_view (jo_db jo) (encode_hex sp')"
      by (rule edits_view [OF assms(4) ok(1) ne])
    have eq: "verify_materialized_space E db1 sp' (jo_pin jo) = verify_materialized_space E (jo_db jo) sp' (jo_pin jo)"
      by (rule verify_materialized_space_cong [OF edits_last_event [OF assms(4)] digest_input_view [OF view]])
    have "bt_contains (wd_spaces (jo_db jo)) (encode_hex sp')"
      using that contains_view [OF view] row(1) by simp
    then show ?thesis
      using ok(3) eq append_materialized(2) [OF assms(6) v(1) assms(2) ok(5), of sp'] ne by auto
  qed
  have "distinct (map ev_request_id (wd_events db'))"
    using ok(8) row(1,3) ev(1) by auto
  moreover have "wd_pin db' = Some (ser_pin E (jo_pin jo))" using row(1) ev(2) ok(7) by simp
  ultimately show ?thesis
    using tables spaces append_events [OF assms(6) v assms(2)] ok(4-6,9) assms(3)
    unfolding journal_ok_def by auto
qed

lemma guard_cases:
  obtains (sealed) e where "guard jo elapsed now = (jo, Inl e)"
  | (failed) "guard jo elapsed now = (jo\<lparr>jo_active := False, jo_clock_failed := True\<rparr>, Inl W_RecoveryRequired)"
  | (passed) "guard jo elapsed now = (jo\<lparr>jo_last_clock := now\<rparr>, Inr ())" "jo_last_clock jo \<le> now" "jo_active jo"
      "now \<le> MAX_INTEGER"
  unfolding guard_def Let_def by (force simp: not_less split: if_splits)

lemma guard_ok: "journal_ok E jo \<Longrightarrow> journal_ok E (fst (guard jo elapsed now))"
  by (rule guard_cases [of jo elapsed now]) (auto simp: journal_ok_def)

text \<open>What a request had to show before anything is changed.\<close>

lemma decide_Inr:
  assumes "decide E rnd jo rq ip now = Inr (db', response)"
  obtains crec cmd a who where "journal_decode E (wq_command rq) = Inr crec" "dec_wcommand E (rec_body crec) = Some cmd"
    "\<not> command_malformed (jo_pin jo) cmd now" "command_authority E (jo_db jo) (jo_pin jo) rq cmd = Inr a"
    "authorize_command E a crec cmd = Inr who"
    "db' \<noteq> jo_db jo \<Longrightarrow> manages (cw_operation cmd) \<Longrightarrow> au_head a = Some (cw_authority_head cmd)"
    "db' \<noteq> jo_db jo \<Longrightarrow> replay E (jo_db jo) (record_id E crec) = Inr None"
    "cw_operation cmd \<noteq> Read_op \<Longrightarrow> replay E (jo_db jo) (record_id E crec) \<in> {Inr None, Inr (Some response)}"
    "db' = jo_db jo \<or> transact E rnd jo a (fst who) rq crec cmd ip now = Inr (db', response)"
proof -
  from assms obtain crec cmd a who where *: "journal_decode E (wq_command rq) = Inr crec"
    "dec_wcommand E (rec_body crec) = Some cmd" "\<not> command_malformed (jo_pin jo) cmd now"
    "command_authority E (jo_db jo) (jo_pin jo) rq cmd = Inr a" "authorize_command E a crec cmd = Inr who"
    and rest: "(if cw_operation cmd = Read_op then
       bindr (rec_err (call_proof E a)) (\<lambda>proof.
       Inr (jo_db jo, \<lparr>wr_receipt = None, wr_proof = Some proof, wr_challenge = None\<rparr>))
     else
     bindr (if registers (cw_operation cmd) \<and> \<not> is_registered (jo_db jo) (encode_hex (cw_space_id cmd)) then
              bindr (ok_or (wq_registration_ticket rq) W_Unauthorized) (\<lambda>ticket.
              verify_registration_ticket E ticket (jo_registration_hosts jo) (jo_pin jo) cmd (identity (snd who)) now)
            else Inr ()) (\<lambda>_.
     bindr (replay E (jo_db jo) (record_id E crec)) (\<lambda>earlier.
     case earlier of
       Some response \<Rightarrow>
         bindr (if admits (cw_operation cmd) then require_read a (cw_credential_id cmd) else Inr ()) (\<lambda>_.
         Inr (jo_db jo, response))
     | None \<Rightarrow>
         if manages (cw_operation cmd) \<and> au_head a \<noteq> Some (cw_authority_head cmd) then Inl W_Conflict
         else transact E rnd jo a (fst who) rq crec cmd ip now))) = Inr (db', response)"
    unfolding decide_def Let_def bindr_eq_Inr guard_eq_Inr rec_err_iff decode_with_iff by blast
  have "db' = jo_db jo \<or> (replay E (jo_db jo) (record_id E crec) = Inr None
      \<and> (manages (cw_operation cmd) \<longrightarrow> au_head a = Some (cw_authority_head cmd))
      \<and> transact E rnd jo a (fst who) rq crec cmd ip now = Inr (db', response))"
    using rest by (auto simp: bindr_eq_Inr split: if_splits option.splits)
  moreover have "replay E (jo_db jo) (record_id E crec) \<in> {Inr None, Inr (Some response)}"
    if "cw_operation cmd \<noteq> Read_op"
  proof -
    from rest that obtain earlier where e: "replay E (jo_db jo) (record_id E crec) = Inr earlier"
      "earlier \<noteq> None \<longrightarrow> earlier = Some response"
      by (auto simp: bindr_eq_Inr split: option.splits)
    then show ?thesis by (cases earlier) auto
  qed
  ultimately show thesis using * by (intro that) auto
qed

lemma authorize_command_Inr:
  assumes "authorize_command E a crec cmd = Inr who"
  shows "credential_id E (snd who) = cw_credential_id cmd" "verify_signature E crec (vc_key (snd who)) = Inr ()"
    "manages (cw_operation cmd) \<Longrightarrow> can_manage a (cw_credential_id cmd)"
    "candidate_text (cw_operation cmd) = None \<Longrightarrow> require_read a (cw_credential_id cmd) = Inr ()"
proof -
  from assms have *: "credential_id E (snd who) = cw_credential_id cmd \<and> verify_signature E crec (vc_key (snd who)) = Inr ()
    \<and> (candidate_text (cw_operation cmd) = None \<longrightarrow> require_read a (cw_credential_id cmd) = Inr ())
    \<and> \<not> (manages (cw_operation cmd) \<and> \<not> can_manage a (cw_credential_id cmd))"
    unfolding authorize_command_def bindr_eq_Inr guard_eq_Inr rec_err_iff
    by (cases "candidate_text (cw_operation cmd)") (auto simp: bindr_eq_Inr)
  then show "credential_id E (snd who) = cw_credential_id cmd" "verify_signature E crec (vc_key (snd who)) = Inr ()"
    "manages (cw_operation cmd) \<Longrightarrow> can_manage a (cw_credential_id cmd)"
    "candidate_text (cw_operation cmd) = None \<Longrightarrow> require_read a (cw_credential_id cmd) = Inr ()"
    by blast+
qed

lemma decide_ok:
  assumes "decide E rnd jo rq ip now = Inr (db', response)" "journal_ok E jo" "journal_codec E" "jo_last_clock jo = now"
  shows "journal_ok E (jo\<lparr>jo_db := db'\<rparr>)"
proof (rule decide_Inr [OF assms(1)])
  fix crec cmd a who
  assume a: "command_authority E (jo_db jo) (jo_pin jo) rq cmd = Inr a"
    and t: "db' = jo_db jo \<or> transact E rnd jo a (fst who) rq crec cmd ip now = Inr (db', response)"
  note ca = command_authority_Inr [OF a]
  have same: ?thesis if "db' = jo_db jo" using that assms(2) by simp
  have "?thesis" if tr: "transact E rnd jo a (fst who) rq crec cmd ip now = Inr (db', response)"
    using assms(3)
    by (rule_tac transact_cases [OF tr ca(2,1) _ ca(5)])
      (auto intro: committed_ok [OF assms(2-4)] simp: journal_codec_def assms(2))
  with t same show ?thesis by blast
qed

lemma wapply_ok:
  assumes "journal_ok E jo" "journal_codec E"
  shows "journal_ok E (fst (wapply E rnd jo rq ip elapsed now))"
proof (rule guard_cases [of jo elapsed now])
  assume g: "guard jo elapsed now = (jo\<lparr>jo_last_clock := now\<rparr>, Inr ())"
  have "journal_ok E (jo\<lparr>jo_last_clock := now\<rparr>)" using guard_ok [OF assms(1), of elapsed now] g by simp
  from decide_ok [OF _ this assms(2)] this show ?thesis
    by (auto simp: wapply_def g split: sum.splits)
qed (use guard_ok [OF assms(1), of elapsed now] in \<open>auto simp: wapply_def\<close>)

text \<open>A request changes the tables only by one committed command.\<close>

lemma wapply_cases:
  assumes "journal_ok E jo" "journal_codec E"
  obtains (unchanged) "jo_db (fst (wapply E rnd jo rq ip elapsed now)) = jo_db jo"
  | (committed) crec cmd a who db1 db' h name r0 reduction response where
    "wapply E rnd jo rq ip elapsed now = (jo\<lparr>jo_last_clock := now, jo_db := db'\<rparr>, Inr response)"
    "journal_decode E (wq_command rq) = Inr crec" "dec_wcommand E (rec_body crec) = Some cmd"
    "\<not> command_malformed (jo_pin jo) cmd now" "command_authority E (jo_db jo) (jo_pin jo) rq cmd = Inr a"
    "authorize_command E a crec cmd = Inr who"
    "manages (cw_operation cmd) \<Longrightarrow> au_head a = Some (cw_authority_head cmd)"
    "edits E (cmd_key cmd) (jo_db jo) db1" "bt_contains (wd_spaces db1) (cmd_key cmd)"
    "append_with_budget E db1 (jo_key jo) (jo_pin jo)
       \<lparr>ei_request = record_id E crec, ei_space = cw_space_id cmd, ei_head = h, ei_name = name, ei_now = now\<rparr>
       r0 reduction = Inr (db', response)"
proof (rule guard_cases [of jo elapsed now])
  let ?jo = "jo\<lparr>jo_last_clock := now\<rparr>"
  assume g: "guard jo elapsed now = (?jo, Inr ())"
  show thesis
  proof (cases "decide E rnd ?jo rq ip now")
    case (Inl e)
    then show thesis by (intro unchanged) (simp add: wapply_def g)
  next
    case (Inr dr)
    obtain db' response where dr: "dr = (db', response)" by (cases dr)
    with Inr have d: "decide E rnd ?jo rq ip now = Inr (db', response)" by simp
    have w: "wapply E rnd jo rq ip elapsed now = (jo\<lparr>jo_last_clock := now, jo_db := db'\<rparr>, Inr response)"
      by (simp add: wapply_def g d)
    show thesis
    proof (cases "db' = jo_db jo")
      case True
      then show thesis by (intro unchanged) (simp add: w)
    next
      case changed: False
      show thesis
      proof (rule decide_Inr [OF d])
        fix crec cmd a who
        assume a: "journal_decode E (wq_command rq) = Inr crec" "dec_wcommand E (rec_body crec) = Some cmd"
          "\<not> command_malformed (jo_pin ?jo) cmd now" "command_authority E (jo_db ?jo) (jo_pin ?jo) rq cmd = Inr a"
          "authorize_command E a crec cmd = Inr who"
          "db' \<noteq> jo_db ?jo \<Longrightarrow> manages (cw_operation cmd) \<Longrightarrow> au_head a = Some (cw_authority_head cmd)"
          "db' = jo_db ?jo \<or> transact E rnd ?jo a (fst who) rq crec cmd ip now = Inr (db', response)"
        note ca = command_authority_Inr [OF a(4)]
        have tr: "transact E rnd ?jo a (fst who) rq crec cmd ip now = Inr (db', response)" using a(7) changed by simp
        have sha: "sha256_length E" using assms(2) by (simp add: journal_codec_def)
        show thesis
          by (rule transact_cases [OF tr ca(2,1) sha ca(5)]) (use changed w a in \<open>auto intro: committed\<close>)
      qed
    qed
  qed
qed (auto simp: wapply_def intro: unchanged)

end
