(* ===== verification/Witness_Service.thy ===== *)
theory Witness_Service
  imports Witness_Invariant "HOL-Library.Sublist"
begin

text \<open>
  The witness as a running service: every way its journal changes is a rule of
  \<open>witness_step\<close>, a restart from the stored tables included. The invariant of the journal
  holds in every state it reaches, so its properties hold for every sequence of requests,
  restarts and clock readings.
\<close>

subsection \<open>Steps\<close>

definition empty_db :: witness_db where
  "empty_db = \<lparr>wd_pin = None, wd_events = [], wd_spaces = [], wd_policies = [], wd_challenges = [],
     wd_tombstones = [], wd_nonces = [], wd_limits = []\<rparr>"

inductive witness_step :: "('z witness_ext_scheme) \<Rightarrow> Journal \<Rightarrow> Journal \<Rightarrow> bool" for E where
  apply_step: "witness_step E jo (fst (wapply E rnd jo rq ip elapsed now))"
| head_step: "witness_step E jo (fst (whead E jo request elapsed now))"
| ready_step: "witness_step E jo (fst (ready jo elapsed now))"
| activate_step: "witness_step E jo (fst (activate E jo av now))"
| hosts_step: "witness_step E jo (fst (set_registration_hosts E jo hosts))"
| reopen_step: "ji_db io = Some (jo_db jo) \<Longrightarrow> Journal_open E io pin now = Inr jo' \<Longrightarrow> witness_step E jo jo'"

abbreviation witness_run :: "('z witness_ext_scheme) \<Rightarrow> Journal \<Rightarrow> Journal \<Rightarrow> bool" where
  "witness_run E \<equiv> (witness_step E)\<^sup>*\<^sup>*"

definition witness_start :: "('z witness_ext_scheme) \<Rightarrow> Journal \<Rightarrow> bool" where
  "witness_start E jo \<longleftrightarrow> (\<exists>io pin now. ji_db io = Some empty_db \<and> Journal_open E io pin now = Inr jo)"

lemma find_distinct_key:
  "x \<in> set xs \<Longrightarrow> f x = k \<Longrightarrow> distinct (map f xs) \<Longrightarrow> List.find (\<lambda>y. f y = k) xs = Some x"
  by (induction xs) auto

lemma pin_validate_key:
  assumes "pin_validate E pin = Inr ()" "encode_hex k = wp_public_key pin"
  shows "pin_key E pin = Inr k"
proof -
  from assms(1) obtain k' where "pin_key E pin = Inr k'"
    unfolding pin_validate_def bindr_eq_Inr guard_eq_Inr by blast
  moreover from this have "wp_public_key pin = encode_hex k'"
    by (auto simp: pin_key_def public_key_def result_simps)
  ultimately show ?thesis using assms(2) by (simp add: encode_hex_inj)
qed

lemma set_known_spaces:
  "set (known_spaces db) = fst ` set (wd_spaces db) \<union> (\<lambda>e. pw_space (snd e)) ` set (wd_policies db)
     \<union> (\<lambda>e. ch_space (snd e)) ` set (wd_challenges db) \<union> (\<lambda>e. fst (fst e)) ` set (wd_tombstones db)
     \<union> ev_space ` set (wd_events db)"
  by (auto simp: known_spaces_def)

lemma known_spaces_registered: "tables_ok E db \<Longrightarrow> set (known_spaces db) = fst ` set (wd_spaces db)"
  using tables_okD [of E db] by (auto simp: set_known_spaces bt_contains_iff)

lemma length_known_spaces:
  assumes "tables_ok E db"
  shows "length (known_spaces db) \<le> MAX_SPACES"
proof -
  have "distinct (known_spaces db)" by (simp add: known_spaces_def sorted_wrt_less_distinct)
  then have "length (known_spaces db) = card (fst ` set (wd_spaces db))"
    by (metis assms distinct_card known_spaces_registered)
  also have "\<dots> \<le> length (wd_spaces db)" by (metis card_length set_map length_map)
  finally show ?thesis using tables_okD(5) [OF assms] by simp
qed

text \<open>For consistent tables the check at the start is that every registered space is materialized.\<close>

lemma verify_materialized_iff:
  assumes "tables_ok E db"
  shows "verify_materialized E db pin = Inr () \<longleftrightarrow>
    (\<forall>sp. bt_contains (wd_spaces db) (encode_hex sp) \<longrightarrow> (\<exists>r. verify_materialized_space E db sp pin = Inr r))"
proof -
  have "verify_materialized E db pin = Inr () \<longleftrightarrow> (\<forall>key \<in> set (known_spaces db). \<exists>sp r.
      parse_hex 32 key = Inr sp \<and> verify_materialized_space E db sp pin = Inr r)"
    using length_known_spaces [OF assms] by (simp add: verify_materialized_def MAX_SPACES_def result_simps)
  also have "\<dots> \<longleftrightarrow> (\<forall>sp. bt_contains (wd_spaces db) (encode_hex sp) \<longrightarrow>
      (\<exists>r. verify_materialized_space E db sp pin = Inr r))" (is "?l \<longleftrightarrow> ?r")
  proof
    assume l: ?l
    show ?r
    proof (intro allI impI)
      fix sp
      assume "bt_contains (wd_spaces db) (encode_hex sp)"
      with l known_spaces_registered [OF assms] obtain sp' r where
        "parse_hex 32 (encode_hex sp) = Inr sp'" "verify_materialized_space E db sp' pin = Inr r"
        by (auto simp: bt_contains_iff)
      then show "\<exists>r. verify_materialized_space E db sp pin = Inr r"
        by (metis encode_hex_inj parse_hex_sound)
    qed
  next
    assume r: ?r
    show ?l
    proof
      fix key
      assume "key \<in> set (known_spaces db)"
      then obtain e where "e \<in> set (wd_spaces db)" "fst e = key"
        using known_spaces_registered [OF assms] by auto
      moreover from this obtain sp where "length sp = 32" "key = encode_hex sp"
        using tables_okD(6) [OF assms] by blast
      moreover from calculation have "bt_contains (wd_spaces db) (encode_hex sp)" by (force simp: bt_contains_iff)
      ultimately show "\<exists>sp r. parse_hex 32 key = Inr sp \<and> verify_materialized_space E db sp pin = Inr r"
        using r by auto
    qed
  qed
  finally show ?thesis .
qed

lemma tables_ok_pin [simp]: "tables_ok E (db\<lparr>wd_pin := p\<rparr>) = tables_ok E db"
  by (simp add: tables_ok_def uses_counted_def challenges_answered_def)

lemma Journal_open_Inr:
  assumes "Journal_open E io pin now = Inr jo"
  obtains db where "ji_db io = Some db" "jo_db jo = db\<lparr>wd_pin := Some (ser_pin E pin)\<rparr>" "jo_pin jo = pin"
    "pin_validate E pin = Inr ()" "ji_key io = Some (jo_key jo)" "length (jo_key jo) = 32"
    "encode_hex (ed_public E (jo_key jo)) = wp_public_key pin"
    "\<exists>p n t. verify_events E (jo_key jo) pin (wd_events db) = Inr (p, n, t) \<and> t \<le> now"
    "verify_materialized E (jo_db jo) pin = Inr ()" "jo_last_clock jo = now" "jo_anchor_wall jo = now"
    "\<not> jo_active jo" "\<not> jo_clock_failed jo" "wd_pin db = None \<or> wd_pin db = Some (ser_pin E pin)"
    "jo_registration_hosts jo = []"
  using assms unfolding Journal_open_def Let_def bindr_eq_Inr guard_eq_Inr ok_or_eq_Inr rec_err_iff
  by (elim exE conjE) (auto simp: not_less split: option.splits)

lemma Journal_open_ok:
  assumes "Journal_open E io pin now = Inr jo" "ji_db io = Some db" "tables_ok E db"
    "distinct (map ev_request_id (wd_events db))"
  shows "journal_ok E jo"
proof (rule Journal_open_Inr [OF assms(1)])
  fix db'
  assume "ji_db io = Some db'" and a: "jo_db jo = db'\<lparr>wd_pin := Some (ser_pin E pin)\<rparr>" "jo_pin jo = pin"
    "pin_validate E pin = Inr ()" "length (jo_key jo) = 32" "encode_hex (ed_public E (jo_key jo)) = wp_public_key pin"
    "\<exists>p n t. verify_events E (jo_key jo) pin (wd_events db') = Inr (p, n, t) \<and> t \<le> now"
    "verify_materialized E (jo_db jo) pin = Inr ()" "jo_last_clock jo = now" "\<not> jo_clock_failed jo"
  then have db: "db' = db" using assms(2) by simp
  have t: "tables_ok E (jo_db jo)" using assms(3) a(1) db by simp
  show ?thesis
    using t a db assms(4) pin_validate_key [OF a(3,5)] verify_materialized_iff [OF t] by (simp add: journal_ok_def)
qed

lemma activate_cases:
  obtains (unchanged) "fst (activate E jo av now) = jo"
  | (activated) "fst (activate E jo av now) = jo\<lparr>jo_last_clock := now, jo_anchor_wall := now, jo_active := True\<rparr>"
    "jo_last_clock jo \<le> now" "\<not> jo_active jo" "\<not> jo_clock_failed jo" "av_startup_nonce av = jo_startup_nonce jo"
    "position (jo_db jo) = Inr (av_expected_position av)" "verify_materialized E (jo_db jo) (jo_pin jo) = Inr ()"
proof (cases "activation_refused jo av now = Inr False \<and> verify_materialized E (jo_db jo) (jo_pin jo) = Inr ()")
  case True
  then show thesis
    by (intro activated) (auto simp: activate_def activation_refused_def result_simps not_less split: if_splits)
next
  case False
  then have "fst (activate E jo av now) = jo" by (auto simp: activate_def split: sum.splits bool.splits)
  then show thesis by (rule unchanged)
qed

lemma whead_state: "fst (whead E jo request elapsed now) = fst (guard jo elapsed now)"
  by (cases "guard jo elapsed now"; cases "snd (guard jo elapsed now)") (auto simp: whead_def)

lemma ready_state: "fst (ready jo elapsed now) = fst (guard jo elapsed now)"
  by (simp add: ready_def split: prod.splits)

lemma hosts_state:
  "fst (set_registration_hosts E jo hosts) = jo \<or> fst (set_registration_hosts E jo hosts) = jo\<lparr>jo_registration_hosts := hosts\<rparr>"
  by (auto simp: set_registration_hosts_def split: sum.splits)

lemma witness_step_ok:
  assumes "witness_step E jo jo'" "journal_ok E jo" "journal_codec E"
  shows "journal_ok E jo'"
  using assms
proof (induction rule: witness_step.induct)
  case (activate_step jo av now)
  then show ?case
    by (rule_tac activate_cases [of E jo av now]) (auto simp: journal_ok_def intro: le_trans)
next
  case (hosts_step jo hosts)
  then show ?case using hosts_state [of E jo hosts] by (auto simp: journal_ok_def)
next
  case (reopen_step io jo pin now jo')
  then show ?case using Journal_open_ok [OF reopen_step.hyps(2,1)] journal_okD(1,8) by blast
qed (simp_all add: wapply_ok whead_state ready_state guard_ok)

lemma witness_start_ok: "witness_start E jo \<Longrightarrow> journal_ok E jo"
  by (auto simp: witness_start_def empty_db_def tables_ok_def uses_counted_def challenges_answered_def intro!: Journal_open_ok)

interpretation journal: step_system "witness_step E" "\<lambda>jo. journal_codec E \<and> journal_ok E jo"
  for E
  by unfold_locales (auto intro: witness_step_ok)

lemma witness_run_ok:
  "witness_run E jo jo' \<Longrightarrow> journal_ok E jo \<Longrightarrow> journal_codec E \<Longrightarrow> journal_ok E jo'"
  using journal.run_good by blast

text \<open>
  C7: a witness never locks itself out. In every state the service reaches from empty tables,
  whatever requests, restarts and clock readings came before, the stored journal passes all
  checks of the next start with the same key and pin: the chain of receipts, the digest of every
  space, the number of spaces. The restarted witness holds the same tables, is sealed, and an
  activation that names the position it observes unseals it.
\<close>

theorem journal_reopens:
  assumes "journal_codec E" "witness_start E jo0" "witness_run E jo0 jo" "jo_last_clock jo \<le> now" "now \<le> U64_MAX"
    and "ji_directory io = Inr ()" "ji_key_inside io = Some False" "ji_key io = Some (jo_key jo)"
      "ji_files io = Inr ()" "ji_db io = Some (jo_db jo)" "ji_quick_check io = Some True" "ji_random io = Some rnd"
  shows "\<exists>jo1 st jo2. Journal_open E io (jo_pin jo) now = Inr jo1 \<and> jo_db jo1 = jo_db jo \<and> \<not> jo_active jo1
    \<and> startup jo1 = Inr st
    \<and> activate E jo1 \<lparr>av_startup_nonce = st_startup_nonce st, av_expected_position = st_observed_position st,
         av_public_key = st_public_key st, av_key_generation = st_key_generation st, av_expires_at_ms = now\<rparr> now
       = (jo2, Inr ()) \<and> jo_active jo2 \<and> jo_db jo2 = jo_db jo"
proof -
  have jok: "journal_ok E jo" by (rule witness_run_ok [OF assms(3) witness_start_ok [OF assms(2)] assms(1)])
  note ok = journal_okD [OF jok]
  have sha: "sha256_length E" using assms(1) by (simp add: journal_codec_def)
  obtain p n t where v: "verify_events E (jo_key jo) (jo_pin jo) (wd_events (jo_db jo)) = Inr (p, n, t)" "t \<le> now"
    using ok(2) assms(4) by (meson le_trans)
  have m: "verify_materialized E (jo_db jo) (jo_pin jo) = Inr ()"
    using verify_materialized_iff [OF ok(1)] ok(3) by blast
  have same: "(jo_db jo)\<lparr>wd_pin := Some (ser_pin E (jo_pin jo))\<rparr> = jo_db jo" using ok(7) by simp
  have key: "encode_hex (ed_public E (jo_key jo)) = wp_public_key (jo_pin jo)"
    using ok(5) by (auto simp: pin_key_def public_key_def result_simps)
  have gen: "wp_key_generation (jo_pin jo) \<noteq> 0"
    using ok(4) by (auto simp: pin_validate_def result_simps)
  let ?jo1 = "\<lparr>jo_db = jo_db jo, jo_key = jo_key jo, jo_pin = jo_pin jo, jo_registration_hosts = [],
     jo_startup_nonce = encode_hex rnd, jo_active = False, jo_clock_failed = False, jo_last_clock = now, jo_anchor_wall = now\<rparr>"
  have "Journal_open E io (jo_pin jo) now = Inr ?jo1"
    using assms(6-) ok(4,6,7) key gen v m
    by (simp add: Journal_open_def Let_def rec_err_def random_hex_def same)
  moreover have pos: "position (jo_db jo) = Inr \<lparr>po_sequence = n, po_record_id = p\<rparr>"
    using verify_events_position [OF v(1) sha] by simp
  let ?st = "\<lparr>st_startup_nonce = encode_hex rnd, st_observed_position = \<lparr>po_sequence = n, po_record_id = p\<rparr>,
     st_public_key = wp_public_key (jo_pin jo), st_key_generation = wp_key_generation (jo_pin jo)\<rparr>"
  have "startup ?jo1 = Inr ?st" by (simp add: startup_def pos)
  moreover have "activation_refused ?jo1 \<lparr>av_startup_nonce = st_startup_nonce ?st, av_expected_position = st_observed_position ?st,
         av_public_key = st_public_key ?st, av_key_generation = st_key_generation ?st, av_expires_at_ms = now\<rparr> now = Inr False"
    using assms(5) by (simp add: activation_refused_def pos saturating_add_def)
  then have "activate E ?jo1 \<lparr>av_startup_nonce = st_startup_nonce ?st, av_expected_position = st_observed_position ?st,
         av_public_key = st_public_key ?st, av_key_generation = st_key_generation ?st, av_expires_at_ms = now\<rparr> now
       = (?jo1\<lparr>jo_active := True\<rparr>, Inr ())"
    using m by (simp add: activate_def)
  ultimately show ?thesis by fastforce
qed

subsection \<open>What a request changes\<close>

lemma committed_events:
  assumes "journal_ok E jo" "journal_codec E" "edits E key (jo_db jo) db1"
    "append_with_budget E db1 (jo_key jo) (jo_pin jo) event r0 reduction = Inr (db', response)"
  obtains row where "db' = db1\<lparr>wd_events := wd_events (jo_db jo) @ [row]\<rparr>"
    "ev_request_id row = encode_hex (ei_request event)" "ev_space row = encode_hex (ei_space event)"
    "ev_response row = ser_response E response" "enforce db' (ei_space event) reduction = Inr ()"
proof -
  from journal_okD(2) [OF assms(1)] edits_events [OF assms(3)] obtain p n t where
    "verify_events E (jo_key jo) (jo_pin jo) (wd_events db1) = Inr (p, n, t)" by auto
  then have "position db1 = Inr \<lparr>po_sequence = n, po_record_id = p\<rparr>"
    using verify_events_position assms(2) unfolding journal_codec_def by blast
  then show thesis
    using edits_events [OF assms(3)] by (rule_tac append_Inr [OF assms(4)]) (auto intro: that)
qed

lemma view_events [simp]: "space_view (db\<lparr>wd_events := rows\<rparr>) k = space_view db k"
  by (simp add: space_view_def)

text \<open>Who signed a command: the member device the authority lists, or the device that wants to join.\<close>

lemma authorize_command_signer:
  assumes "authorize_command E a crec cmd = Inr who"
  shows "case candidate_text (cw_operation cmd) of
      None \<Rightarrow> credential a (cw_credential_id cmd) = Inr (snd who)
    | Some text \<Rightarrow> wverify_credential E text = Inr (snd who)"
  using assms unfolding authorize_command_def bindr_eq_Inr guard_eq_Inr rec_err_iff
  by (cases "candidate_text (cw_operation cmd)") (auto simp: bindr_eq_Inr rec_err_iff)

text \<open>
  What lets a device that is not a member change anything: a stored invitation of the space,
  unrevoked, with uses left, inside its time, signed by a device that manages the space now; and
  either the invitation's key signed this very command, or the command answers an open challenge
  that was made out to this device.
\<close>

definition live_invitation ::
  "('z witness_ext_scheme) \<Rightarrow> witness_db \<Rightarrow> Authority \<Rightarrow> RecordId \<Rightarrow> nat \<Rightarrow> WitnessInvitationPolicy \<Rightarrow> bool" where
  "live_invitation E db a pid now policy \<longleftrightarrow>
     (\<exists>row srec issuer. bt_get (wd_policies db) (encode_hex pid) = Some row \<and> pw_space row = encode_hex (space E a)
        \<and> \<not> pw_revoked row \<and> 0 \<le> pw_uses row \<and> pw_uses row < int (wip_max_uses policy)
        \<and> journal_decode E (pw_record row) = Inr srec \<and> dec_policy E (rec_body srec) = Some policy
        \<and> wip_not_before_ms policy \<le> now \<and> now < wip_expires_at_ms policy
        \<and> can_manage a (wip_issuer_credential_id policy)
        \<and> credential a (wip_issuer_credential_id policy) = Inr issuer \<and> verify_signature E srec (vc_key issuer) = Inr ())"

definition possession_shown ::
  "('z witness_ext_scheme) \<Rightarrow> WRequest \<Rightarrow> SignedRecord \<Rightarrow> WitnessInvitationPolicy \<Rightarrow> bool" where
  "possession_shown E rq crec policy \<longleftrightarrow>
     (\<exists>text possession kb key. wq_invitation_signature rq = Some text \<and> journal_decode E text = Inr possession
        \<and> body_bytes possession = body_bytes crec \<and> hex32 (wip_invitation_public_key policy) = Inr kb
        \<and> verifying_key E kb W_Invalid = Inr key \<and> verify_signature E possession key = Inr ())"

definition open_challenge :: "witness_db \<Rightarrow> WCommand \<Rightarrow> RecordId \<Rightarrow> nat \<Rightarrow> bool" where
  "open_challenge db cmd cid now \<longleftrightarrow>
     (\<exists>row. bt_get (wd_challenges db) (encode_hex cid) = Some row \<and> ch_space row = encode_hex (cw_space_id cmd)
        \<and> ch_credential row = encode_hex (cw_credential_id cmd) \<and> int now \<le> ch_expires row \<and> ch_intent row = None)"

definition invited ::
  "('z witness_ext_scheme) \<Rightarrow> witness_db \<Rightarrow> Authority \<Rightarrow> WRequest \<Rightarrow> SignedRecord \<Rightarrow> WCommand \<Rightarrow> nat \<Rightarrow> bool" where
  "invited E db a rq crec cmd now \<longleftrightarrow>
     (case cw_operation cmd of
        Challenge pid _ _ \<Rightarrow> (\<exists>policy. live_invitation E db a pid now policy \<and> possession_shown E rq crec policy)
      | ChallengeV2 _ join _ \<Rightarrow>
          (\<exists>device request policy. witness_decode E (wje_device_request join) = Inr device
             \<and> dec_join_request E (rec_body device) = Some request
             \<and> live_invitation E db a (wjr_policy_id request) now policy \<and> possession_shown E rq crec policy)
      | Admit _ ev \<Rightarrow>
          (\<exists>device intent policy. journal_decode E (wae_device_intent ev) = Inr device
             \<and> dec_intent E (rec_body device) = Some intent
             \<and> live_invitation E db a (wi_policy_id intent) now policy \<and> open_challenge db cmd (wi_challenge_id intent) now)
      | AdmitV2 _ ev \<Rightarrow>
          (\<exists>device intent policy. journal_decode E (wa2_device_intent ev) = Inr device
             \<and> dec_intent_v2 E (rec_body device) = Some intent
             \<and> live_invitation E db a (wi_policy_id intent) now policy \<and> open_challenge db cmd (wi_challenge_id intent) now)
      | _ \<Rightarrow> False)"

lemma wpolicy_live: "wpolicy E db a pid now = Inr p \<Longrightarrow> live_invitation E db a pid now (snd p)"
proof -
  assume "wpolicy E db a pid now = Inr p"
  then obtain row srec where *: "bt_get (wd_policies db) (encode_hex pid) = Some row"
    "pw_space row = encode_hex (space E a)" "journal_decode E (pw_record row) = Inr srec"
    "verify_witness_invitation E a srec now = Inr (snd p)" "\<not> pw_revoked row" "0 \<le> pw_uses row"
    "nat (pw_uses row) < wip_max_uses (snd p)"
    unfolding wpolicy_def by (auto simp: result_simps split: option.splits if_splits)
  note inv = verify_witness_invitation_Inr [OF *(4)]
  from inv(6) witness_owner_at_Inr [OF inv(5)] inv(1-3) * show ?thesis
    unfolding live_invitation_def by (auto simp del: verify_signature_iff intro!: exI)
qed

lemma check_possession_shown: "check_possession E rq crec policy = Inr () \<Longrightarrow> possession_shown E rq crec policy"
  unfolding check_possession_def possession_shown_def bindr_eq_Inr guard_eq_Inr ok_or_eq_Inr rec_err_iff by blast

lemma stored_challenge_open:
  "stored_challenge db cid cmd now = Inr row \<Longrightarrow> ch_intent row = None \<Longrightarrow> open_challenge db cmd cid now"
  by (auto simp: stored_challenge_def open_challenge_def split: option.splits if_splits)

lemma forget_expired_rows:
  assumes "bt_wf (wd_challenges db)"
  shows "live_invitation E (forget_expired db sp now) a pid t policy = live_invitation E db a pid t policy"
    "open_challenge (forget_expired db sp now) cmd cid t \<Longrightarrow> open_challenge db cmd cid t"
  using assms by (auto simp: live_invitation_def open_challenge_def forget_expired_def Let_def bt_get_iff bt_wf_filter)

lemma join_request_decoded:
  "verify_witness_join_request E a join candidate now = Inr request \<Longrightarrow>
   \<exists>device. witness_decode E (wje_device_request join) = Inr device \<and> dec_join_request E (rec_body device) = Some request"
  unfolding verify_witness_join_request_def bindr_eq_Inr guard_eq_Inr decode_with_iff by blast

lemma run_operation_invited:
  assumes "run_operation E rnd db jo a candidate rq crec cmd ip now = Inr (Committed change)"
    and "candidate_text (cw_operation cmd) = Some text"
  shows "invited E db a rq crec cmd now"
proof (cases "cw_operation cmd")
  case (Challenge pid cred nonce)
  with assms(1) show ?thesis
    by (auto simp: run_operation_def op_challenge_def invited_def bindr_eq_Inr dest!: wpolicy_live check_possession_shown)
next
  case (ChallengeV2 cred join nonce)
  with assms(1) show ?thesis
    by (auto simp: run_operation_def op_challenge_v2_def invited_def bindr_eq_Inr guard_eq_Inr rec_err_iff
        dest!: wpolicy_live check_possession_shown join_request_decoded)
next
  case (Admit cred ev)
  with assms(1) show ?thesis
    unfolding run_operation_def op_admit_def invited_def
    by (auto simp: bindr_eq_Inr guard_eq_Inr rec_err_iff decode_with_iff dest!: wpolicy_live stored_challenge_open)
next
  case (AdmitV2 cred ev)
  with assms(1) show ?thesis
    unfolding run_operation_def op_admit_v2_def invited_def Let_def
    by (auto simp: bindr_eq_Inr guard_eq_Inr rec_err_iff decode_with_iff dest!: wpolicy_live stored_challenge_open)
qed (use assms(2) in \<open>auto simp: candidate_text_def\<close>)

lemma wapply_operation:
  assumes "wapply E rnd jo rq ip elapsed now = (jo', result)" "jo_db jo' \<noteq> jo_db jo"
    and "journal_decode E (wq_command rq) = Inr crec" "dec_wcommand E (rec_body crec) = Some cmd"
    and "command_authority E (jo_db jo) (jo_pin jo) rq cmd = Inr a"
  obtains who change where "authorize_command E a crec cmd = Inr who"
    "run_operation E rnd (forget_expired (jo_db jo) (cmd_key cmd) now) (jo\<lparr>jo_last_clock := now\<rparr>) a (fst who) rq crec cmd ip now
       = Inr (Committed change)"
proof (rule guard_cases [of jo elapsed now])
  let ?jo = "jo\<lparr>jo_last_clock := now\<rparr>"
  assume g: "guard jo elapsed now = (?jo, Inr ())"
  with assms(1,2) obtain db' response where d: "decide E rnd ?jo rq ip now = Inr (db', response)" "db' \<noteq> jo_db jo"
    by (auto simp: wapply_def split: sum.splits)
  show thesis
  proof (rule decide_Inr [OF d(1)])
    fix crec' cmd' a' who
    assume "journal_decode E (wq_command rq) = Inr crec'" "dec_wcommand E (rec_body crec') = Some cmd'"
      "command_authority E (jo_db ?jo) (jo_pin ?jo) rq cmd' = Inr a'" "authorize_command E a' crec' cmd' = Inr who"
      "db' = jo_db ?jo \<or> transact E rnd ?jo a' (fst who) rq crec' cmd' ip now = Inr (db', response)"
    with assms(3-5) d(2) have "authorize_command E a crec cmd = Inr who"
      "transact E rnd ?jo a (fst who) rq crec cmd ip now = Inr (db', response)" by auto
    with d(2) show thesis
      by (auto simp: transact_def Let_def bindr_eq_Inr guard_eq_Inr split: op_result.splits)
        (metis op_result.exhaust that)
  qed
qed (use assms(1,2) in \<open>auto simp: wapply_def\<close>)

text \<open>
  C8: what the witness stores changes only by an authorized command. When a request leaves other
  tables behind, it carried a command for this witness, inside its time window, under the
  authority the witness stores for that space or, for a first registration, the one the request
  proves. Either it is signed with the key of the device that this authority lists under the
  credential it names, and that device manages the space and named its current head; or it is
  signed by the very device whose certificate it carries, which wants to join, and a live
  invitation of the space covers it: the invitation's key signed the same command, or it answers
  an open challenge made out to that device. Exactly one event is added, for this request and
  this space, and no row of any other space is different.
\<close>

theorem witness_change_authorized:
  assumes "journal_codec E" "witness_start E jo0" "witness_run E jo0 jo"
    "wapply E rnd jo rq ip elapsed now = (jo', result)" "jo_db jo' \<noteq> jo_db jo"
  shows "\<exists>crec cmd a c row.
    journal_decode E (wq_command rq) = Inr crec \<and> dec_wcommand E (rec_body crec) = Some cmd
    \<and> cw_audience cmd = wp_url (jo_pin jo) \<and> now < cw_expires_at_ms cmd \<and> cw_issued_at_ms cmd \<le> now + 5000
    \<and> command_authority E (jo_db jo) (jo_pin jo) rq cmd = Inr a \<and> space E a = cw_space_id cmd
    \<and> credential_id E c = cw_credential_id cmd \<and> verify_signature E crec (vc_key c) = Inr ()
    \<and> (case candidate_text (cw_operation cmd) of
         None \<Rightarrow> credential a (cw_credential_id cmd) = Inr c \<and> can_manage a (cw_credential_id cmd)
           \<and> au_head a = Some (cw_authority_head cmd)
       | Some text \<Rightarrow> wverify_credential E text = Inr c \<and> invited E (jo_db jo) a rq crec cmd now)
    \<and> wd_events (jo_db jo') = wd_events (jo_db jo) @ [row]
    \<and> ev_request_id row = encode_hex (record_id E crec) \<and> ev_space row = encode_hex (cw_space_id cmd)
    \<and> (\<forall>k. k \<noteq> encode_hex (cw_space_id cmd) \<longrightarrow> space_view (jo_db jo') k = space_view (jo_db jo) k)"
proof -
  have ok: "journal_ok E jo" by (rule witness_run_ok [OF assms(3) witness_start_ok [OF assms(2)] assms(1)])
  note wf = tables_okD(3) [OF journal_okD(1) [OF ok]]
  show ?thesis
  proof (rule wapply_cases [OF ok assms(1), of rnd rq ip elapsed now])
    fix crec cmd a who db1 db' h name r0 reduction response
    assume c: "wapply E rnd jo rq ip elapsed now = (jo\<lparr>jo_last_clock := now, jo_db := db'\<rparr>, Inr response)"
      "journal_decode E (wq_command rq) = Inr crec" "dec_wcommand E (rec_body crec) = Some cmd"
      "\<not> command_malformed (jo_pin jo) cmd now" "command_authority E (jo_db jo) (jo_pin jo) rq cmd = Inr a"
      "authorize_command E a crec cmd = Inr who"
      "manages (cw_operation cmd) \<Longrightarrow> au_head a = Some (cw_authority_head cmd)"
      "edits E (cmd_key cmd) (jo_db jo) db1"
      "append_with_budget E db1 (jo_key jo) (jo_pin jo)
       \<lparr>ei_request = record_id E crec, ei_space = cw_space_id cmd, ei_head = h, ei_name = name, ei_now = now\<rparr>
       r0 reduction = Inr (db', response)"
    obtain row where row: "db' = db1\<lparr>wd_events := wd_events (jo_db jo) @ [row]\<rparr>"
      "ev_request_id row = encode_hex (record_id E crec)" "ev_space row = cmd_key cmd"
      by (rule committed_events [OF ok assms(1) c(8,9)]) simp
    have view: "space_view db' k = space_view (jo_db jo) k" if "k \<noteq> cmd_key cmd" for k
      using edits_view [OF c(8) journal_okD(1) [OF ok] that] row(1) by simp
    have win: "cw_audience cmd = wp_url (jo_pin jo)" "now < cw_expires_at_ms cmd" "cw_issued_at_ms cmd \<le> now + 5000"
      using c(4) saturating_add_le [of now 5000] by (auto simp: command_malformed_def)
    obtain change where run: "run_operation E rnd (forget_expired (jo_db jo) (cmd_key cmd) now) (jo\<lparr>jo_last_clock := now\<rparr>) a
        (fst who) rq crec cmd ip now = Inr (Committed change)"
      by (rule wapply_operation [OF assms(4,5) c(2,3,5)]) (use c(6) in auto)
    have standing: "case candidate_text (cw_operation cmd) of
         None \<Rightarrow> credential a (cw_credential_id cmd) = Inr (snd who) \<and> can_manage a (cw_credential_id cmd)
           \<and> au_head a = Some (cw_authority_head cmd)
       | Some text \<Rightarrow> wverify_credential E text = Inr (snd who) \<and> invited E (jo_db jo) a rq crec cmd now"
    proof (cases "candidate_text (cw_operation cmd)")
      case None
      with run have "manages (cw_operation cmd)"
        by (auto simp: run_operation_def manages_def candidate_text_def split: WOperation.splits)
      with None c(7) authorize_command_Inr(3) [OF c(6)] authorize_command_signer [OF c(6)] show ?thesis by simp
    next
      case (Some encoded)
      from run_operation_invited [OF run Some] have "invited E (jo_db jo) a rq crec cmd now"
        by (auto simp: invited_def forget_expired_rows(1) [OF wf] split: WOperation.splits dest: forget_expired_rows(2) [OF wf])
      with Some authorize_command_signer [OF c(6)] show ?thesis by simp
    qed
    show ?thesis
      using win c(2,3,5) standing command_authority_Inr(2) [OF c(5)] authorize_command_Inr(1,2) [OF c(6)] row view assms(4) c(1)
      by (intro exI [of _ crec] exI [of _ cmd] exI [of _ a] exI [of _ "snd who"] exI [of _ row])
        (auto simp del: verify_signature_iff)
  qed (use assms(4,5) in auto)
qed

text \<open>Everything else leaves the tables as they are.\<close>

lemma guard_db: "jo_db (fst (guard jo elapsed now)) = jo_db jo"
  by (rule guard_cases [of jo elapsed now]) auto

definition kept :: "witness_db \<Rightarrow> witness_db \<Rightarrow> bool" where
  "kept db db' \<longleftrightarrow> prefix (wd_events db) (wd_events db') \<and> retained db db'"

lemma kept_refl: "kept db db"
  by (simp add: kept_def retained_refl)

lemma kept_trans: "kept a b \<Longrightarrow> kept b c \<Longrightarrow> kept a c"
  unfolding kept_def using prefix_order.trans retained_trans by blast

lemma retained_events [simp]: "retained db (db'\<lparr>wd_events := rows\<rparr>) = retained db db'"
  by (simp add: retained_def)

lemma retained_pin [simp]: "retained db (db'\<lparr>wd_pin := p\<rparr>) = retained db db'"
  by (simp add: retained_def)

lemma wapply_kept:
  assumes "journal_ok E jo" "journal_codec E"
  shows "kept (jo_db jo) (jo_db (fst (wapply E rnd jo rq ip elapsed now)))"
proof (rule wapply_cases [OF assms, of rnd rq ip elapsed now])
  fix crec cmd db1 db' h name r0 reduction response
  assume c: "wapply E rnd jo rq ip elapsed now = (jo\<lparr>jo_last_clock := now, jo_db := db'\<rparr>, Inr response)"
    "edits E (cmd_key cmd) (jo_db jo) db1"
    "append_with_budget E db1 (jo_key jo) (jo_pin jo)
       \<lparr>ei_request = record_id E crec, ei_space = cw_space_id cmd, ei_head = h, ei_name = name, ei_now = now\<rparr>
       r0 reduction = Inr (db', response)"
  show ?thesis
    by (rule committed_events [OF assms c(2,3)])
      (use edits_retained [OF c(2) journal_okD(1) [OF assms(1)]] c(1) in \<open>simp add: kept_def\<close>)
qed (simp add: kept_refl)

lemma witness_step_kept:
  assumes "witness_step E jo jo'" "journal_ok E jo" "journal_codec E"
  shows "kept (jo_db jo) (jo_db jo')"
  using assms
proof (induction rule: witness_step.induct)
  case (activate_step jo av now)
  show ?case by (rule activate_cases [of E jo av now]) (simp_all add: kept_refl)
next
  case (hosts_step jo hosts)
  show ?case using hosts_state [of E jo hosts] by (auto simp: kept_refl)
next
  case (reopen_step io jo pin now jo')
  show ?case
    by (rule Journal_open_Inr [OF reopen_step.hyps(2)])
      (use reopen_step.hyps(1) in \<open>auto simp: kept_def retained_refl\<close>)
qed (simp_all add: wapply_kept whead_state ready_state guard_db kept_refl)

text \<open>
  C9: the witness takes nothing back. Over any run, restarts included, the journal only grows at
  its end; a registered space keeps its stream; an invitation keeps its text and never loses a
  use, and once revoked its row never changes again; an answered challenge stays answered by the
  same request; a removed device stays recorded as removed.
\<close>

theorem witness_record_kept:
  assumes "journal_codec E" "witness_start E jo0" "witness_run E jo0 jo" "witness_run E jo jo'"
  shows "prefix (wd_events (jo_db jo)) (wd_events (jo_db jo')) \<and> retained (jo_db jo) (jo_db jo')"
proof -
  have ok: "journal_ok E jo" by (rule witness_run_ok [OF assms(3) witness_start_ok [OF assms(2)] assms(1)])
  from assms(4) have "kept (jo_db jo) (jo_db jo')"
    by (induction rule: rtranclp_induct)
      (auto intro: kept_refl kept_trans witness_step_kept witness_run_ok [OF _ ok assms(1)] assms(1))
  then show ?thesis by (simp add: kept_def)
qed

text \<open>
  A command takes effect once. When the journal already holds an event for a request, sending
  the same command again never changes a table, and if it is answered the answer is the response
  stored with that event; only the read of an authority is answered afresh.
\<close>

lemma witness_command_once:
  assumes "journal_codec E" "witness_start E jo0" "witness_run E jo0 jo"
    "journal_decode E (wq_command rq) = Inr crec" "row \<in> set (wd_events (jo_db jo))"
    "ev_request_id row = encode_hex (record_id E crec)" "wapply E rnd jo rq ip elapsed now = (jo', result)"
  shows "jo_db jo' = jo_db jo \<and>
    (\<forall>response. result = Inr response \<longrightarrow>
       de_response E (ev_response row) = Some response
       \<or> (\<exists>cmd. dec_wcommand E (rec_body crec) = Some cmd \<and> cw_operation cmd = Read_op))"
proof -
  have ok: "journal_ok E jo" by (rule witness_run_ok [OF assms(3) witness_start_ok [OF assms(2)] assms(1)])
  have "List.find (\<lambda>r. ev_request_id r = encode_hex (record_id E crec)) (wd_events (jo_db jo)) = Some row"
    using assms(5,6) journal_okD(8) [OF ok] by (rule find_distinct_key)
  then have rep: "replay E (jo_db jo) (record_id E crec) =
      bindr (ok_or (de_response E (ev_response row)) W_Unavailable) (\<lambda>r. Inr (Some r))"
    by (simp add: replay_def)
  show ?thesis
  proof (rule guard_cases [of jo elapsed now])
    assume g: "guard jo elapsed now = (jo\<lparr>jo_last_clock := now\<rparr>, Inr ())"
    let ?jo = "jo\<lparr>jo_last_clock := now\<rparr>"
    have "db' = jo_db jo \<and> (de_response E (ev_response row) = Some response
       \<or> (\<exists>cmd. dec_wcommand E (rec_body crec) = Some cmd \<and> cw_operation cmd = Read_op))"
      if "decide E rnd ?jo rq ip now = Inr (db', response)" for db' response
      by (rule decide_Inr [OF that]) (use rep assms(4) in \<open>auto simp: result_simps\<close>)
    then show ?thesis using assms(7) by (auto simp: wapply_def g split: sum.splits prod.splits)
  qed (use assms(7) in \<open>auto simp: wapply_def\<close>)
qed

end
