(* ===== verification/Witness_Digest.thy ===== *)
theory Witness_Digest
  imports Witness_Service
begin

text \<open>
  The digest a receipt states covers the rows of its space exactly: the byte encoding that is
  hashed (\<^verbatim>\<open>state_digest\<close> of journal.rs) can be read back, so two sets of rows with one
  digest are equal or are a collision of SHA-256.
\<close>

subsection \<open>The encoding can be read back\<close>

lemma ascii_inj: "ascii s = ascii s' \<longleftrightarrow> s = s'"
proof
  assume "ascii s = ascii s'"
  moreover have "unat (of_char c :: 8 word) = of_char c" for c
  proof -
    have "(of_char c :: 8 word) = of_nat (of_char c)" by (rule of_nat_of_char [symmetric])
    moreover have "(of_char c :: nat) < 256" by (metis nat_of_char_less_256)
    ultimately show ?thesis by (metis unat_byte_of_nat)
  qed
  then have "inj (of_char :: char \<Rightarrow> 8 word)" by (metis injI of_char_eq_iff)
  ultimately show "s = s'" by (simp add: ascii_def)
qed simp

lemma length_ascii [simp]: "length (ascii s) = length s"
  by (simp add: ascii_def)

lemma length_u64_to_be_bytes [simp]: "length (u64_to_be_bytes n) = 8"
  by (simp add: u64_to_be_bytes_def)

lemma u32_to_be_bytes_inj: "a < 2 ^ 32 \<Longrightarrow> b < 2 ^ 32 \<Longrightarrow> u32_to_be_bytes a = u32_to_be_bytes b \<Longrightarrow> a = b"
  by (metis from_be_bytes_u32)

lemma u64_to_be_bytes_inj:
  assumes "a < 2 ^ 64" "b < 2 ^ 64" "u64_to_be_bytes a = u64_to_be_bytes b"
  shows "a = b"
proof -
  from assms(3) have "u32_to_be_bytes (a div 2 ^ 32) = u32_to_be_bytes (b div 2 ^ 32)"
    "u32_to_be_bytes (a mod 2 ^ 32) = u32_to_be_bytes (b mod 2 ^ 32)"
    by (simp_all add: u64_to_be_bytes_def)
  then have "a div 2 ^ 32 = b div 2 ^ 32" "a mod 2 ^ 32 = b mod 2 ^ 32"
    using assms(1,2) by (auto intro!: u32_to_be_bytes_inj)
  then show ?thesis by (metis div_mult_mod_eq)
qed

text \<open>Integers of a column are 64-bit, texts shorter than 2^64 bytes.\<close>

fun value_sized :: "sql_value \<Rightarrow> bool" where
  "value_sized SNull = True"
| "value_sized (SInt x) = (- (2 ^ 63) \<le> x \<and> x < 2 ^ 63)"
| "value_sized (SText s) = (length s < 2 ^ 64)"

lemma i64_to_be_bytes_inj:
  assumes "- (2 ^ 63) \<le> x" "x < 2 ^ 63" "- (2 ^ 63) \<le> y" "y < 2 ^ 63" "i64_to_be_bytes x = i64_to_be_bytes y"
  shows "x = y"
proof -
  have "nat (x mod 2 ^ 64) = nat (y mod 2 ^ 64)"
    using assms(5) unfolding i64_to_be_bytes_def by (intro u64_to_be_bytes_inj) (simp_all add: nat_less_iff)
  then have "x mod 2 ^ 64 = y mod 2 ^ 64" by simp
  moreover have "z mod 2 ^ 64 = (if 0 \<le> z then z else z + 2 ^ 64)" if "- (2 ^ 63) \<le> z" "z < 2 ^ 63" for z :: int
  proof (cases "0 \<le> z")
    case False
    then have "(z + 2 ^ 64) mod 2 ^ 64 = z + 2 ^ 64" using that by (intro mod_pos_pos_trivial) auto
    then show ?thesis using False by simp
  qed (use that in simp)
  ultimately show ?thesis using assms(1-4) by (auto split: if_splits)
qed

lemma length_i64_to_be_bytes [simp]: "length (i64_to_be_bytes x) = 8"
  by (simp add: i64_to_be_bytes_def)

lemma value_bytes_prefix:
  assumes "value_bytes v @ xs = value_bytes w @ ys" "value_sized v" "value_sized w"
  shows "v = w \<and> xs = ys"
proof (cases v; cases w)
  fix s t
  assume vw: "v = SText s" "w = SText t"
  then have len: "length s = length t" using assms by (auto intro: u64_to_be_bytes_inj)
  with assms(1) vw show ?thesis by (simp add: ascii_inj)
next
  fix x y
  assume "v = SInt x" "w = SInt y"
  with assms show ?thesis by (auto intro: i64_to_be_bytes_inj)
qed (use assms(1) in auto)

lemma values_prefix:
  assumes "concat (map value_bytes vs) @ xs = concat (map value_bytes ws) @ ys" "length vs = length ws"
    "\<forall>v \<in> set vs. value_sized v" "\<forall>w \<in> set ws. value_sized w"
  shows "vs = ws \<and> xs = ys"
  using assms(2,1,3,4)
proof (induction vs ws rule: list_induct2)
  case (Cons v vs w ws)
  have "v = w \<and> concat (map value_bytes vs) @ xs = concat (map value_bytes ws) @ ys"
    using Cons.prems by (intro value_bytes_prefix) auto
  with Cons show ?case by simp
qed simp

definition rows_sized :: "nat \<Rightarrow> sql_value list list \<Rightarrow> bool" where
  "rows_sized n rows \<longleftrightarrow> (\<forall>row \<in> set rows. length row = n \<and> (\<forall>v \<in> set row. value_sized v))"

lemma rows_prefix:
  assumes "concat (map row_bytes rs) @ 2 # xs = concat (map row_bytes qs) @ 2 # ys" "rows_sized n rs" "rows_sized n qs"
  shows "rs = qs \<and> xs = ys"
  using assms
proof (induction rs arbitrary: qs)
  case Nil
  then show ?case by (cases qs) (auto simp: row_bytes_def)
next
  case (Cons r rs)
  then obtain q qs' where q: "qs = q # qs'" by (cases qs) (auto simp: row_bytes_def)
  have "concat (map value_bytes r) @ concat (map row_bytes rs) @ 2 # xs
      = concat (map value_bytes q) @ concat (map row_bytes qs') @ 2 # ys"
    using Cons.prems(1) q by (simp add: row_bytes_def [of r] row_bytes_def [of q])
  then have "r = q \<and> concat (map row_bytes rs) @ 2 # xs = concat (map row_bytes qs') @ 2 # ys"
    using Cons.prems(2,3) q by (intro values_prefix) (auto simp: rows_sized_def)
  with Cons q show ?case by (auto simp: rows_sized_def)
qed

lemma table_prefix:
  assumes "table_bytes name rs @ xs = table_bytes name qs @ ys" "rows_sized n rs" "rows_sized n qs"
  shows "rs = qs \<and> xs = ys"
  using assms by (intro rows_prefix [of rs xs qs ys n]) (simp_all add: table_bytes_def)

definition columns_sized :: "witness_db \<Rightarrow> string \<Rightarrow> bool" where
  "columns_sized db key \<longleftrightarrow>
     rows_sized 3 (space_rows db key) \<and> rows_sized 5 (policy_rows db key) \<and> rows_sized 7 (challenge_rows db key)
     \<and> rows_sized 3 (tombstone_rows db key)"

lemma digest_input_rows:
  assumes "digest_input db sp = digest_input db' sp" "columns_sized db (encode_hex sp)" "columns_sized db' (encode_hex sp)"
  shows "space_rows db (encode_hex sp) = space_rows db' (encode_hex sp)"
    "policy_rows db (encode_hex sp) = policy_rows db' (encode_hex sp)"
    "challenge_rows db (encode_hex sp) = challenge_rows db' (encode_hex sp)"
    "tombstone_rows db (encode_hex sp) = tombstone_rows db' (encode_hex sp)"
proof -
  note s = assms(2,3) [unfolded columns_sized_def]
  from assms(1) have e: "table_bytes ''spaces'' (space_rows db (encode_hex sp)) @ table_bytes ''policies'' (policy_rows db (encode_hex sp))
        @ table_bytes ''challenges'' (challenge_rows db (encode_hex sp)) @ table_bytes ''tombstones'' (tombstone_rows db (encode_hex sp))
      = table_bytes ''spaces'' (space_rows db' (encode_hex sp)) @ table_bytes ''policies'' (policy_rows db' (encode_hex sp))
        @ table_bytes ''challenges'' (challenge_rows db' (encode_hex sp)) @ table_bytes ''tombstones'' (tombstone_rows db' (encode_hex sp))"
    by (simp add: digest_input_def Let_def)
  from table_prefix [OF this] s show a: "space_rows db (encode_hex sp) = space_rows db' (encode_hex sp)" by blast
  from table_prefix [OF e] s have e: "table_bytes ''policies'' (policy_rows db (encode_hex sp))
        @ table_bytes ''challenges'' (challenge_rows db (encode_hex sp)) @ table_bytes ''tombstones'' (tombstone_rows db (encode_hex sp))
      = table_bytes ''policies'' (policy_rows db' (encode_hex sp))
        @ table_bytes ''challenges'' (challenge_rows db' (encode_hex sp)) @ table_bytes ''tombstones'' (tombstone_rows db' (encode_hex sp))"
    by blast
  from table_prefix [OF this] s show "policy_rows db (encode_hex sp) = policy_rows db' (encode_hex sp)" by blast
  from table_prefix [OF e] s have e: "table_bytes ''challenges'' (challenge_rows db (encode_hex sp))
        @ table_bytes ''tombstones'' (tombstone_rows db (encode_hex sp))
      = table_bytes ''challenges'' (challenge_rows db' (encode_hex sp)) @ table_bytes ''tombstones'' (tombstone_rows db' (encode_hex sp))"
    by blast
  from table_prefix [OF this] s show "challenge_rows db (encode_hex sp) = challenge_rows db' (encode_hex sp)" by blast
  from table_prefix [OF e] s have "table_bytes ''tombstones'' (tombstone_rows db (encode_hex sp)) @ []
      = table_bytes ''tombstones'' (tombstone_rows db' (encode_hex sp)) @ []" by force
  from table_prefix [OF this] s show "tombstone_rows db (encode_hex sp) = tombstone_rows db' (encode_hex sp)" by blast
qed

text \<open>The rows hold every column, so they determine the entries.\<close>

lemma rows_view:
  assumes "space_rows db k = space_rows db' k" "policy_rows db k = policy_rows db' k"
    "challenge_rows db k = challenge_rows db' k" "tombstone_rows db k = tombstone_rows db' k"
  shows "space_view db k = space_view db' k"
proof -
  have "filter (\<lambda>e. fst e = k) (wd_spaces db) = filter (\<lambda>e. fst e = k) (wd_spaces db')"
    using assms(1) unfolding space_rows_def by (rule map_injective) (auto intro!: injI space_row.equality prod_eqI)
  moreover have "filter (\<lambda>e. pw_space (snd e) = k) (wd_policies db) = filter (\<lambda>e. pw_space (snd e) = k) (wd_policies db')"
    using assms(2) unfolding policy_rows_def
    by (rule map_injective) (auto intro!: injI policy_row.equality prod_eqI split: if_splits)
  moreover have "filter (\<lambda>e. ch_space (snd e) = k) (wd_challenges db) = filter (\<lambda>e. ch_space (snd e) = k) (wd_challenges db')"
    using assms(3) unfolding challenge_rows_def
    by (rule map_injective) (auto intro!: injI challenge_row.equality prod_eqI split: option.splits)
  moreover have "filter (\<lambda>e. fst (fst e) = k) (wd_tombstones db) = filter (\<lambda>e. fst (fst e) = k) (wd_tombstones db')"
    using assms(4) unfolding tombstone_rows_def by (rule map_injective) (auto intro!: injI prod_eqI)
  ultimately show ?thesis by (simp add: space_view_def)
qed

text \<open>
  C10: a receipt commits the witness to the rows of its space. When two states of the tables with
  the same last event of a space both pass the check of that space, they hold the same row for
  the space, the same invitations with the same uses, the same challenges and the same removals;
  otherwise the two encodings of the rows are a collision of SHA-256. Editing, dropping or
  restoring rows behind the journal is therefore noticed at the next start and at every command.
\<close>

theorem stored_rows_committed:
  assumes "verify_materialized_space E db sp pin = Inr r" "verify_materialized_space E db' sp pin = Inr r'"
    "last_event db' (encode_hex sp) = last_event db (encode_hex sp)"
    "columns_sized db (encode_hex sp)" "columns_sized db' (encode_hex sp)"
  shows "space_view db (encode_hex sp) = space_view db' (encode_hex sp)
    \<or> (digest_input db sp \<noteq> digest_input db' sp \<and> sha256 E (digest_input db sp) = sha256 E (digest_input db' sp))"
proof -
  from assms(1-3) have "state_digest E db sp = state_digest E db' sp"
    by (auto simp: verify_materialized_space_def result_simps split: if_splits)
  then have "sha256 E (digest_input db sp) = sha256 E (digest_input db' sp)"
    by (simp add: state_digest_def encode_hex_inj)
  then show ?thesis using rows_view [OF digest_input_rows [OF _ assms(4,5)]] by blast
qed

subsection \<open>Budgets\<close>

text \<open>
  C31: an invitation is used at most as often as its signed record allows, in every state the
  witness reaches, and each use answered a challenge of its own: per space the uses counted equal
  the challenges answered.
\<close>

theorem invitation_uses_bounded:
  assumes "journal_codec E" "witness_start E jo0" "witness_run E jo0 jo"
  shows "(\<forall>pid row. bt_get (wd_policies (jo_db jo)) pid = Some row \<longrightarrow>
       0 \<le> pw_uses row \<and> pw_uses row \<le> int (policy_max E (pw_record row)))
    \<and> (\<forall>key. uses_counted (jo_db jo) key = challenges_answered (jo_db jo) key)"
proof -
  have "tables_ok E (jo_db jo)"
    by (rule journal_okD(1) [OF witness_run_ok [OF assms(3) witness_start_ok [OF assms(2)] assms(1)]])
  note ok = tables_okD [OF this]
  show ?thesis using ok(8,12) by (auto simp: policy_row_ok_def dest!: bt_get_in)
qed

definition capacity_ok :: "witness_db \<Rightarrow> bool" where
  "capacity_ok db \<longleftrightarrow> (\<forall>key. usage_events db key \<le> RESERVED_EVENTS \<and> usage_bytes db key \<le> RESERVED_BYTES)"

lemma usage_view:
  assumes "space_view db' k = space_view db k"
    "filter (\<lambda>r. ev_space r = k) (wd_events db') = filter (\<lambda>r. ev_space r = k) (wd_events db)"
  shows "usage_events db' k = usage_events db k \<and> usage_bytes db' k = usage_bytes db k"
  using assms by (simp add: usage_events_def usage_bytes_def space_view_def)

lemma usage_pin [simp]: "capacity_ok (db\<lparr>wd_pin := p\<rparr>) = capacity_ok db"
  by (simp add: capacity_ok_def usage_events_def usage_bytes_def)

lemma enforce_Inr:
  assumes "enforce db sp reduction = Inr ()"
  shows "usage_events db (encode_hex sp) \<le> RESERVED_EVENTS" "usage_bytes db (encode_hex sp) \<le> RESERVED_BYTES"
proof -
  have "NORMAL_EVENTS \<le> RESERVED_EVENTS" "NORMAL_BYTES \<le> RESERVED_BYTES"
    by (simp_all add: NORMAL_EVENTS_def RESERVED_EVENTS_def NORMAL_BYTES_def RESERVED_BYTES_def)
  then show "usage_events db (encode_hex sp) \<le> RESERVED_EVENTS" "usage_bytes db (encode_hex sp) \<le> RESERVED_BYTES"
    using assms by (auto simp: enforce_def Let_def split: if_splits)
qed

lemma wapply_capacity:
  assumes "journal_ok E jo" "journal_codec E" "capacity_ok (jo_db jo)"
  shows "capacity_ok (jo_db (fst (wapply E rnd jo rq ip elapsed now)))"
proof (rule wapply_cases [OF assms(1,2), of rnd rq ip elapsed now])
  fix crec cmd db1 db' h name r0 reduction response
  assume c: "wapply E rnd jo rq ip elapsed now = (jo\<lparr>jo_last_clock := now, jo_db := db'\<rparr>, Inr response)"
    "edits E (cmd_key cmd) (jo_db jo) db1"
    "append_with_budget E db1 (jo_key jo) (jo_pin jo)
       \<lparr>ei_request = record_id E crec, ei_space = cw_space_id cmd, ei_head = h, ei_name = name, ei_now = now\<rparr>
       r0 reduction = Inr (db', response)"
  obtain row where row: "db' = db1\<lparr>wd_events := wd_events (jo_db jo) @ [row]\<rparr>" "ev_space row = cmd_key cmd"
    "enforce db' (cw_space_id cmd) reduction = Inr ()"
    by (rule committed_events [OF assms(1,2) c(2,3)]) simp
  have "usage_events db' k \<le> RESERVED_EVENTS \<and> usage_bytes db' k \<le> RESERVED_BYTES" for k
  proof (cases "k = cmd_key cmd")
    case False
    have "space_view db' k = space_view (jo_db jo) k"
      using edits_view [OF c(2) journal_okD(1) [OF assms(1)] False] row(1) by simp
    then have "usage_events db' k = usage_events (jo_db jo) k \<and> usage_bytes db' k = usage_bytes (jo_db jo) k"
      using row(1,2) False by (intro usage_view) simp_all
    with assms(3) show ?thesis by (simp add: capacity_ok_def)
  qed (use enforce_Inr [OF row(3)] in simp)
  then show ?thesis using c(1) by (simp add: capacity_ok_def)
qed (use assms(3) in simp)

lemma witness_step_capacity:
  assumes "witness_step E jo jo'" "journal_ok E jo" "journal_codec E" "capacity_ok (jo_db jo)"
  shows "capacity_ok (jo_db jo')"
  using assms
proof (induction rule: witness_step.induct)
  case (activate_step jo av now)
  then show ?case by (rule_tac activate_cases [of E jo av now]) simp_all
next
  case (hosts_step jo hosts)
  then show ?case using hosts_state [of E jo hosts] by auto
next
  case (reopen_step io jo pin now jo')
  show ?case by (rule Journal_open_Inr [OF reopen_step.hyps(2)]) (use reopen_step in auto)
qed (simp_all add: wapply_capacity whead_state ready_state guard_db)

lemma witness_start_capacity: "witness_start E jo \<Longrightarrow> capacity_ok (jo_db jo)"
  unfolding witness_start_def
  by (elim exE conjE, erule Journal_open_Inr)
    (auto simp: empty_db_def capacity_ok_def usage_events_def usage_bytes_def)

lemma length_by_key:
  assumes "\<And>x. x \<in> set xs \<Longrightarrow> f x \<in> K" "finite K" "\<And>k. length (filter (\<lambda>x. f x = k) xs) \<le> b"
  shows "length xs \<le> card K * b"
proof -
  have "length xs = (\<Sum>k \<in> K. length (filter (\<lambda>x. f x = k) xs))"
    using assms(1)
  proof (induction xs)
    case (Cons x xs)
    have "(\<Sum>k \<in> K. length (filter (\<lambda>y. f y = k) (x # xs)))
        = (\<Sum>k \<in> K. (if f x = k then 1 else 0) + length (filter (\<lambda>y. f y = k) xs))"
      by (rule sum.cong) auto
    also have "\<dots> = 1 + length xs"
      using Cons assms(2) by (simp add: sum.distrib)
    finally show ?case by simp
  qed simp
  also have "\<dots> \<le> card K * b" using assms(3) by (rule sum_bounded_above [of K _ b, simplified])
  finally show ?thesis .
qed

text \<open>
  The witness stays within its budgets. In every state it reaches it serves at most 128
  spaces, no space has more than 4096 events or four megabytes accounted to it, and the journal
  as a whole holds at most 524288 events, so its limit of a million is never what refuses a command.
\<close>

lemma witness_capacity:
  assumes "journal_codec E" "witness_start E jo0" "witness_run E jo0 jo"
  shows "length (wd_spaces (jo_db jo)) \<le> 128
    \<and> (\<forall>key. usage_events (jo_db jo) key \<le> 4096 \<and> usage_bytes (jo_db jo) key \<le> 4194304)
    \<and> length (wd_events (jo_db jo)) \<le> 524288 \<and> 524288 < MAX_EVENTS"
proof -
  have ok0: "journal_ok E jo0" by (rule witness_start_ok [OF assms(2)])
  note ok = witness_run_ok [OF assms(3) ok0 assms(1)]
  note t = tables_okD [OF journal_okD(1) [OF ok]]
  have cap: "capacity_ok (jo_db jo)"
    using assms(3)
    by (induction rule: rtranclp_induct)
      (auto intro: witness_step_capacity witness_start_capacity [OF assms(2)] witness_run_ok [OF _ ok0 assms(1)] assms(1))
  let ?K = "fst ` set (wd_spaces (jo_db jo))"
  have "length (wd_events (jo_db jo)) \<le> card ?K * RESERVED_EVENTS"
    using t(11) cap by (intro length_by_key [where f = ev_space])
      (auto simp: bt_contains_iff capacity_ok_def usage_events_def)
  moreover have "card ?K \<le> length (wd_spaces (jo_db jo))" by (metis card_length length_map set_map)
  ultimately have "length (wd_events (jo_db jo)) \<le> MAX_SPACES * RESERVED_EVENTS"
    using t(5) by (meson le_trans mult_le_mono1)
  then show ?thesis
    using t(5) cap by (simp add: capacity_ok_def MAX_SPACES_def RESERVED_EVENTS_def RESERVED_BYTES_def MAX_EVENTS_def)
qed

end
