(* ===== verification/Witness_Client.thy ===== *)
theory Witness_Client
  imports Witness_Service
begin

text \<open>
  What a client of the witness relies on: the freshness statement it asks for is accepted while
  it is fresh and speaks of the authority the witness stores, and the proof of work of a
  registration is found exactly when there is one.
\<close>

subsection \<open>Registration work\<close>

lemma work_prefix_nonce [simp]:
  "registration_work_prefix E (rq\<lparr>wq_registration_work := w\<rparr>) = registration_work_prefix E rq"
  by (simp add: registration_work_prefix_def cong: if_cong)

lemma verify_work_iff:
  "verify_registration_work E (rq\<lparr>wq_registration_work := Some n\<rparr>) = Inr () \<longleftrightarrow>
     (\<exists>pre. registration_work_prefix E rq = Inr pre \<and> n \<le> MAX_INTEGER \<and> work_done (work_digest E pre n))"
  by (auto simp: verify_registration_work_def result_simps not_less split: if_splits)

text \<open>The loop ends at the first nonce that does the work, or has tried them all.\<close>

lemma search_work_Some:
  "search_work E pre n = Some k \<longleftrightarrow>
     n \<le> k \<and> k \<le> MAX_INTEGER \<and> work_done (work_digest E pre k)
     \<and> (\<forall>j. n \<le> j \<and> j < k \<longrightarrow> \<not> work_done (work_digest E pre j))"
proof (induction E pre n rule: search_work.induct)
  case (1 E pre n)
  show ?case
  proof (cases "n > MAX_INTEGER \<or> work_done (work_digest E pre n)")
    case True
    then show ?thesis by (subst search_work.simps) (auto simp: le_less)
  next
    case False
    have "(\<forall>j. n \<le> j \<and> j < k \<longrightarrow> \<not> work_done (work_digest E pre j))
        \<longleftrightarrow> (\<forall>j. Suc n \<le> j \<and> j < k \<longrightarrow> \<not> work_done (work_digest E pre j))"
      using False by (metis Suc_leI le_less Suc_leD)
    moreover have "n \<le> k \<and> work_done (work_digest E pre k) \<longleftrightarrow> Suc n \<le> k \<and> work_done (work_digest E pre k)"
      using False by (metis Suc_leI le_less Suc_leD)
    ultimately show ?thesis using False 1 by (subst search_work.simps) auto
  qed
qed

text \<open>
  C33: the search for the proof of work a registration needs ends, and it finds one exactly when
  the verifier would accept one: it returns the request with the smallest nonce that verifies and
  nothing else changed, and it fails only if no nonce at all verifies.
\<close>

theorem registration_work_found:
  "solve_registration_work E rq = Inr rq' \<longleftrightarrow>
     (\<exists>n. verify_registration_work E (rq\<lparr>wq_registration_work := Some n\<rparr>) = Inr ())
     \<and> rq' = rq\<lparr>wq_registration_work :=
         Some (LEAST n. verify_registration_work E (rq\<lparr>wq_registration_work := Some n\<rparr>) = Inr ())\<rparr>"
proof (cases "registration_work_prefix E rq")
  case (Inr pre)
  let ?P = "\<lambda>n. verify_registration_work E (rq\<lparr>wq_registration_work := Some n\<rparr>) = Inr ()"
  have P: "?P n \<longleftrightarrow> n \<le> MAX_INTEGER \<and> work_done (work_digest E pre n)" for n
    by (simp add: verify_work_iff Inr)
  have least: "search_work E pre 0 = Some k \<longleftrightarrow> ?P k \<and> (\<forall>j < k. \<not> ?P j)" for k
    unfolding search_work_Some P using less_trans le_less by fastforce
  show ?thesis
  proof (cases "search_work E pre 0")
    case (Some k)
    then have k: "?P k" "\<forall>j < k. \<not> ?P j" using least by auto
    then have "(LEAST n. ?P n) = k" by (intro Least_equality) (auto simp: not_less [symmetric])
    then show ?thesis using k(1) Some by (auto simp: solve_registration_work_def Inr)
  next
    case None
    have "\<not> ?P n" for n
    proof
      assume "?P n"
      then have "?P (LEAST n. ?P n)" "\<forall>j < (LEAST n. ?P n). \<not> ?P j" by (auto intro: LeastI dest: not_less_Least)
      then have "search_work E pre 0 = Some (LEAST n. ?P n)" using least by blast
      with None show False by simp
    qed
    then show ?thesis using None by (simp add: solve_registration_work_def Inr)
  qed
qed (simp add: solve_registration_work_def verify_work_iff)

subsection \<open>Freshness\<close>

definition freshness_serde :: "('z witness_ext_scheme) \<Rightarrow> bool" where
  "freshness_serde E \<longleftrightarrow>
     (\<forall>body m j. strict_json E (ser_freshness E body) m = Inr j \<longrightarrow> dec_freshness E j = Some body)"

lemma whead_Inr:
  assumes "whead E jo request elapsed now = (jo', Inr encoded)"
  obtains a h pos srec nb where "load E (jo_db jo) (hr_space_id request) (hr_stream_id request) (jo_pin jo) = Inr a"
    "au_head a = Some h" "position (jo_db jo) = Inr pos" "now + 30000 \<le> U64_MAX"
    "hex 32 (hr_nonce request) = Inr nb"
    "sign E (ser_freshness E
        \<lparr>fs_v = 1, fs_kind = ''witness.freshness'', fs_audience = wp_url (jo_pin jo), fs_nonce = hr_nonce request,
         fs_space_id = hr_space_id request, fs_stream_id = hr_stream_id request, fs_authority_head = h,
         fs_position = pos, fs_issued_at_ms = now, fs_expires_at_ms = now + 30000,
         fs_witness_key_generation = wp_key_generation (jo_pin jo)\<rparr>) (jo_key jo) = Inr srec"
    "encoded = b64_encode E (rec_bytes srec)"
proof (rule guard_cases [of jo elapsed now])
  assume g: "guard jo elapsed now = (jo\<lparr>jo_last_clock := now\<rparr>, Inr ())"
  from assms obtain nb a h pos expires srec where *: "parse_hex 32 (hr_nonce request) = Inr nb"
    "load E (jo_db jo) (hr_space_id request) (hr_stream_id request) (jo_pin jo) = Inr a"
    "au_head a = Some h" "position (jo_db jo) = Inr pos" "now + 30000 \<le> U64_MAX" "expires = now + 30000"
    "sign E (ser_freshness E
        \<lparr>fs_v = 1, fs_kind = ''witness.freshness'', fs_audience = wp_url (jo_pin jo), fs_nonce = hr_nonce request,
         fs_space_id = hr_space_id request, fs_stream_id = hr_stream_id request, fs_authority_head = h,
         fs_position = pos, fs_issued_at_ms = now, fs_expires_at_ms = expires,
         fs_witness_key_generation = wp_key_generation (jo_pin jo)\<rparr>) (jo_key jo) = Inr srec"
    "encoded = b64_encode E (rec_bytes srec)"
    unfolding whead_def g bindst_simps prod.inject bindr_eq_Inr ok_or_eq_Inr rec_err_iff hex32_def map_err_eq_Inr
      checked_add_eq_Some sum.inject
    by auto
  show thesis
    by (rule that [OF *(2-5) _ *(7,8) [unfolded *(6)], of nb]) (simp add: hex_def *(1))
qed (use assms in \<open>auto simp: whead_def\<close>)

lemma load_position:
  assumes "load E (jo_db jo) sp strm (jo_pin jo) = Inr a" "journal_ok E jo" "sha256_length E" "position (jo_db jo) = Inr pos"
  shows "po_sequence pos \<noteq> 0" "po_record_id pos \<noteq> None"
proof -
  have "wd_events (jo_db jo) \<noteq> []"
    using load_Inr(7) [OF assms(1)] by (auto simp: verify_materialized_space_def last_event_def result_simps)
  moreover obtain p n t where v: "verify_events E (jo_key jo) (jo_pin jo) (wd_events (jo_db jo)) = Inr (p, n, t)"
    using journal_okD(2) [OF assms(2)] by blast
  ultimately show "po_sequence pos \<noteq> 0" "po_record_id pos \<noteq> None"
    using verify_events_position [OF v assms(3)] assms(4)
    by (auto simp: position_def Let_def result_simps split: if_splits)
qed

text \<open>
  C32: the freshness statement of a running witness is accepted by the client that asked for it.
  For a client with the same pin and a clock at most five seconds behind and not yet past the end
  of the statement, that received it within 30 seconds and has seen no later position, the check
  succeeds, and the head it learns is the head of the authority the witness stores at that moment.
\<close>

theorem freshness_accepted:
  assumes "journal_codec E" "freshness_serde E" "witness_start E jo0" "witness_run E jo0 jo"
    "whead E jo request elapsed now = (jo', Inr encoded)" "length encoded \<le> 16384"
    "waited < 30000" "now \<le> client_now + 5000" "client_now < now + 30000"
    "\<And>pos. position (jo_db jo) = Inr pos \<Longrightarrow> \<not> below_floor seen pos"
  shows "\<exists>vf a. verify_freshness E (jo_pin jo) request encoded waited client_now seen = Inr vf
    \<and> load E (jo_db jo) (hr_space_id request) (hr_stream_id request) (jo_pin jo) = Inr a
    \<and> au_head a = Some (fs_authority_head (vf_body vf)) \<and> position (jo_db jo) = Inr (fs_position (vf_body vf))"
proof -
  have ok: "journal_ok E jo" by (rule witness_run_ok [OF assms(4) witness_start_ok [OF assms(3)] assms(1)])
  note c = assms(1) [unfolded journal_codec_def]
  obtain a h pos srec nb where w: "load E (jo_db jo) (hr_space_id request) (hr_stream_id request) (jo_pin jo) = Inr a"
    "au_head a = Some h" "position (jo_db jo) = Inr pos" "now + 30000 \<le> U64_MAX"
    "hex 32 (hr_nonce request) = Inr nb"
    "sign E (ser_freshness E
        \<lparr>fs_v = 1, fs_kind = ''witness.freshness'', fs_audience = wp_url (jo_pin jo), fs_nonce = hr_nonce request,
         fs_space_id = hr_space_id request, fs_stream_id = hr_stream_id request, fs_authority_head = h,
         fs_position = pos, fs_issued_at_ms = now, fs_expires_at_ms = now + 30000,
         fs_witness_key_generation = wp_key_generation (jo_pin jo)\<rparr>) (jo_key jo) = Inr srec"
      (is "sign E (ser_freshness E ?body) _ = _")
    "encoded = b64_encode E (rec_bytes srec)"
    by (rule whead_Inr [OF assms(5)])
  note s = signed_text [OF w(6)]
  have parsed: "b64_decode E encoded = Some (rec_bytes srec)" "parse E (rec_bytes srec) = Inr srec"
    using c sign_bounded_Inr(1) [OF w(6) [unfolded sign_def]] w(7) by (simp_all add: base64_correct_def parse_def)
  have dec: "dec_freshness E (rec_body srec) = Some ?body"
    using s(3) c assms(2) by (auto simp: freshness_serde_def)
  have pos: "po_sequence pos \<noteq> 0" "po_record_id pos \<noteq> None" "\<not> below_floor seen pos"
    using load_position [OF w(1) ok _ w(3)] c assms(10) [OF w(3)] by simp_all
  let ?vf = "\<lparr>vf_body = ?body, vf_elapsed_ms = waited\<rparr>"
  have valid: "freshness_valid ?vf client_now"
    using assms(7-9) by (simp add: freshness_valid_def saturating_sub_def)
  have early: "\<not> saturating_add client_now 5000 < now" using assms(8) w(4) by (simp add: saturating_add_def)
  have "verify_freshness E (jo_pin jo) request encoded waited client_now seen = Inr ?vf"
    using parsed dec pos valid early assms(6) w(5) journal_okD(4,5) [OF ok] s(2) c
    unfolding verify_freshness_def by (simp add: decode_with_def)
  with w(1-3) show ?thesis by fastforce
qed

end
