(* ===== verification/Witness_Examples.thy ===== *)
theory Witness_Examples
  imports Witness_Digest Witness_Client Witnesses
begin

text \<open>
  The witness service at work in the example world: it opens on empty tables, learns its hosting
  service, is activated and registers the space with a pinned witness. The theorems about the
  service are applied to the states of this run.
\<close>

declare One_nat_def [simp del]

subsection \<open>Opening and activating\<close>

definition ex_wio :: "witness_db \<Rightarrow> journal_io" where
  "ex_wio db = \<lparr>ji_directory = Inr (), ji_key_inside = Some False, ji_key = Some (bid 31), ji_files = Inr (),
     ji_db = Some db, ji_quick_check = Some True, ji_random = Some (bid 9)\<rparr>"

definition ex_journal :: "witness_db \<Rightarrow> RegistrationHost list \<Rightarrow> bool \<Rightarrow> nat \<Rightarrow> nat \<Rightarrow> Journal" where
  "ex_journal db hosts active clock anchor =
     \<lparr>jo_db = db, jo_key = bid 31, jo_pin = ex_pin, jo_registration_hosts = hosts,
      jo_startup_nonce = encode_hex (bid 9), jo_active = active, jo_clock_failed = False, jo_last_clock = clock,
      jo_anchor_wall = anchor\<rparr>"

definition ex_db0 :: witness_db where
  "ex_db0 = empty_db\<lparr>wd_pin := Some ''https://w''\<rparr>"

definition ex_hosts :: "RegistrationHost list" where
  "ex_hosts = [\<lparr>rh_host = ''https://h'', rh_public_key = encode_hex (bid 34)\<rparr>]"

definition ex_activation :: Activation where
  "ex_activation = \<lparr>av_startup_nonce = encode_hex (bid 9), av_expected_position = \<lparr>po_sequence = 0, po_record_id = None\<rparr>,
     av_public_key = encode_hex (bid 31), av_key_generation = 1, av_expires_at_ms = 110\<rparr>"

lemma ex_pin_sel [example_simps]:
  "wp_url ex_pin = ''https://w''" "wp_public_key ex_pin = encode_hex (bid 31)" "wp_key_generation ex_pin = 1"
  by (simp_all add: ex_pin_def)

lemma W_witness [example_simps]:
  "ser_pin W = wp_url" "url_path W s = ''/spaces/v1/create''" "ser_proof W p = ''p''" "de_proof W s = Some ex_wproof"
  "ser_response W r = ''r''" "de_response W s = Some ex_response" "ser_receipt W ex_receipt = ex_body 1 5 96"
  "ser_freshness W ex_freshness = ex_body 1 5 95"
  by (simp_all add: W_def)

lemma W_codec: "journal_codec W" "freshness_serde W"
proof -
  have empty: "strict_json W [] m = Inl Json" for m by (simp add: strict_json_def)
  have body: "strict_json W (ex_body 1 5 i) m = Inr j \<Longrightarrow> ex_plain i \<Longrightarrow> j = ex_object 1 5 i" for i m j
    using W_strict_json [of 1 5 i m] strict_json_length [of W "ex_body 1 5 i" m j]
    by (cases "77 \<le> m") (auto simp: ex_plain_def length_ex_body)
  have plain: "ex_plain 96" "ex_plain 95" by (simp_all add: ex_plain_def)
  show "freshness_serde W"
    unfolding freshness_serde_def
    by (auto simp: W_def [THEN arg_cong, of ser_freshness] empty example_simps dest!: body [OF _ plain(2)] split: if_splits)
  have "receipt_serde W"
    unfolding receipt_serde_def
    by (auto simp: W_def [THEN arg_cong, of ser_receipt] empty example_simps dest!: body [OF _ plain(1)] split: if_splits)
  moreover have "base64_correct W" by (simp add: base64_correct_def W_def ex_decode_encode)
  moreover have "base64_size W" by (simp add: base64_size_def W_def ex_encode_def)
  moreover have "sha256_length W" by (simp add: sha256_length_def W_def ex_hash_def)
  ultimately show "journal_codec W" using W_signing_correct by (simp add: journal_codec_def)
qed

lemma ex_journal_sel [example_simps]:
  "jo_db (ex_journal db hosts b n m) = db" "jo_key (ex_journal db hosts b n m) = bid 31"
  "jo_pin (ex_journal db hosts b n m) = ex_pin" "jo_registration_hosts (ex_journal db hosts b n m) = hosts"
  "jo_last_clock (ex_journal db hosts b n m) = n"
  by (simp_all add: ex_journal_def)

lemma wx_opens: "Journal_open W (ex_wio empty_db) ex_pin 100 = Inr (ex_journal ex_db0 [] False 100 100)"
  by (simp add: Journal_open_def ex_wio_def empty_db_def example_simps rec_err_def verify_events_def
      verify_materialized_def known_spaces_def bs_extend_def random_hex_def ex_journal_def ex_db0_def)

lemma wx_start: "witness_start W (ex_journal ex_db0 [] False 100 100)"
  unfolding witness_start_def
  using wx_opens by (intro exI [of _ "ex_wio empty_db"]) (auto simp: ex_wio_def)

lemma ex_takes_hosts:
  "fst (set_registration_hosts W (ex_journal db [] b c d) ex_hosts) = ex_journal db ex_hosts b c d"
  by (simp add: set_registration_hosts_def ex_hosts_def RegistrationHost_validate_def validate_host_def rec_err_def
      example_simps verifying_key_def) (simp add: W_def ex_journal_def)

lemma ex_activates: "fst (activate W (ex_journal ex_db0 ex_hosts False 100 100) ex_activation 110) = ex_journal ex_db0 ex_hosts True 110 110"
  by (simp add: activate_def activation_refused_def ex_journal_def ex_activation_def example_simps position_def
      ex_db0_def empty_db_def verify_materialized_def known_spaces_def bs_extend_def saturating_add_def U64_MAX_def)

subsection \<open>A registration\<close>

abbreviation new_c :: "(RecordId \<times> SignedRecord \<times> StreamConfig) list \<Rightarrow> Authority" where
  "new_c \<equiv> ex_space (ex_record 4 3 70 11) (ex_genesis 4 (Some ex_pin)) [(bid 41, cred41)]"

lemma apply_new_c: "apply_config W (new_c []) (ex_record 4 4 71 11) = (new_c [ex_entry 4 71 11], Inr Applied)"
proof -
  have "check_config W (new_c []) (ex_record 4 4 71 11) = Inr (Some (the (map_of ex_configs 71)))"
    by (simp add: ex_check_simps example_simps)
  then show ?thesis by (simp add: ex_head_simps example_simps)
qed

lemma head_new_c: "head (new_c [ex_entry 4 71 11]) = Inr (the (map_of ex_configs 71))"
  by (simp add: head_def example_simps ex_entry_def)

lemma ex_wproof_verifies: "verify_witnessed W ex_wproof (bid 70) sid ex_pin = Inr (new_c [ex_entry 4 71 11])"
proof -
  have "check_size ex_wproof = Inr ()"
    by (simp add: check_size_def ex_wproof_def MAX_PROOF_BYTES_def saturating_add_def U64_MAX_def)
  moreover have "collect_credentials W [] [ex_text 1 1 41 1] = Inr [(bid 41, cred41)]"
    by (simp add: example_simps ex_self_rooted bt_contains_def bt_get_def)
  moreover have "add_credentials W [cred41] (new_c []) = new_c []"
    by (simp add: add_credentials_def add_credential_def example_simps)
  ultimately show ?thesis
    by (simp add: verify_witnessed_def verify_with_witness_def ex_wproof_def decode_with_def example_simps apply_proof_def
        ex_genesis_controller verifying_key_def bt_get_def apply_new_c head_new_c)
qed

definition ex_registration :: WRequest where
  "ex_registration = \<lparr>wq_command = ex_text 1 5 94 11, wq_invitation_signature = None, wq_proof = Some ex_wproof,
     wq_registration_work = Some 0, wq_registration_ticket = Some (ex_text 1 5 97 34)\<rparr>"

lemma ex_decode: "ex_plain i \<Longrightarrow> journal_decode W (ex_text 1 5 i key) = Inr (ex_record 1 5 i key)"
  by (simp add: journal_decode_def example_simps MAX_RECORD_def rec_err_def ex_plain_def ex_supported_def)

lemma ex_work: "verify_registration_work W ex_registration = Inr ()"
  by (simp add: verify_registration_work_def ex_registration_def registration_work_prefix_def ex_wproof_def
      MAX_INTEGER_def work_done_def work_digest_def WORK_DOMAIN_def ascii_def W_def ex_hash_def)

lemma ex_registers: "registration_authority W ex_pin ex_registration ex_wcommand = Inr (new_c [ex_entry 4 71 11])"
  by (simp add: registration_authority_def ex_registration_def ex_wcommand_def ex_wproof_verifies rec_err_def head_new_c
      example_simps)
    (simp add: ex_configs_def ex_config_def ex_object_def json_index_def bt_get_def)

lemma ex_authorized: "authorize_command W (new_c [ex_entry 4 71 11]) (ex_record 1 5 94 11) ex_wcommand = Inr (None, cred41)"
  by (simp add: authorize_command_def ex_wcommand_def candidate_text_def example_simps rec_err_def require_read_def
      head_new_c manages_def can_manage_def)
    (simp add: ex_configs_def ex_config_def ex_member_def)

lemma ex_ticket_good: "verify_registration_ticket W (ex_text 1 5 97 34) ex_hosts ex_pin ex_wcommand (bid 1) 120 = Inr ()"
proof -
  have "ticket_validate W ex_ticket = Inr ()"
    using pin_ok(1) by (simp add: ticket_validate_def ex_ticket_def validate_host_def example_simps MAX_INTEGER_def
        MAX_TICKET_LIFETIME_MS_def ex_pin_def) (simp add: W_def)
  then have "ticket_parse W (ex_text 1 5 97 34) = Inr (ex_ticket, ex_record 1 5 97 34)"
    by (simp add: ticket_parse_def MAX_TICKET_BYTES_def example_simps ex_plain_def ex_supported_def decode_with_def)
  then show ?thesis
    by (simp add: verify_registration_ticket_def rec_err_def ex_hosts_def ex_ticket_def hex32_def verifying_key_def
        example_simps ex_wcommand_def saturating_add_def U64_MAX_def)
qed

lemma ex_call_proof: "call_proof W (new_c [ex_entry 4 71 11]) = Inr ex_wproof"
proof -
  have "current_checkpoint W (new_c [ex_entry 4 71 11]) = None"
    by (simp add: current_checkpoint_def example_simps)
  then show ?thesis
    by (simp add: call_proof_def sorted_configs_def example_simps ex_entry_def ex_wproof_def encode_record_def
        check_size_def MAX_PROOF_BYTES_def saturating_add_def U64_MAX_def)
qed

definition ex_event :: event_row where
  "ex_event = \<lparr>ev_sequence = 1, ev_record_id = encode_hex (bid 96), ev_receipt = ex_text 1 5 96 31,
     ev_request_id = encode_hex (bid 94), ev_response = ''r'', ev_space = encode_hex (bid 70)\<rparr>"

definition ex_db1 :: witness_db where
  "ex_db1 = ex_db0\<lparr>wd_events := [ex_event],
     wd_spaces := [(encode_hex (bid 70), \<lparr>sw_stream = encode_hex sid, sw_proof = ''p''\<rparr>)],
     wd_nonces := [((encode_hex (bid 41), nonce32), \<lparr>nr_request = encode_hex (bid 94), nr_expires = 160\<rparr>)],
     wd_limits := [((registration_network W (V4 [1, 2, 3, 4]) 0, 0), 1)]\<rparr>"

lemma ex_digest: "state_digest W db sp = encode_hex (bid 116)"
  by (simp add: state_digest_def digest_input_def DIGEST_DOMAIN_def ascii_def W_def ex_hash_def Let_def bid_def)

lemma ex_operation:
  "op_register W ex_db0 (new_c [ex_entry 4 71 11]) ex_wcommand (V4 [1, 2, 3, 4]) 120
    = Inr (Committed \<lparr>cg_db = ex_db0\<lparr>wd_spaces := wd_spaces ex_db1, wd_limits := wd_limits ex_db1\<rparr>,
        cg_authority = new_c [ex_entry 4 71 11], cg_event = ''space.registered'', cg_challenge = None,
        cg_security_reduction = False\<rparr>)"
  by (simp add: op_register_def reserve_space_def ex_db0_def ex_db1_def empty_db_def bt_contains_def day_of_def
      MAX_SPACES_def RESERVED_EVENTS_def RESERVED_BYTES_def MAX_EVENTS_def save_def ex_call_proof rec_err_def
      ex_wcommand_def example_simps)

lemma ex_append:
  "append_with_budget W (ex_db1\<lparr>wd_events := []\<rparr>) (bid 31) ex_pin
     \<lparr>ei_request = bid 94, ei_space = bid 70, ei_head = bid 71, ei_name = ''space.registered'', ei_now = 120\<rparr>
     \<lparr>wr_receipt = None, wr_proof = None, wr_challenge = None\<rparr> False = Inr (ex_db1, ex_response)"
proof -
  have body: "receipt_body W (ex_db1\<lparr>wd_events := []\<rparr>) ex_pin
     \<lparr>ei_request = bid 94, ei_space = bid 70, ei_head = bid 71, ei_name = ''space.registered'', ei_now = 120\<rparr>
     \<lparr>po_sequence = 0, po_record_id = None\<rparr> = ex_receipt"
    by (simp add: receipt_body_def ex_receipt_def ex_digest example_simps)
  have "sign W (ex_body 1 5 96) (bid 31) = Inr (ex_record 1 5 96 31)"
    by (simp add: example_simps ex_plain_def ex_supported_def)
  then show ?thesis
    by (simp add: append_with_budget_def position_def MAX_EVENTS_def body example_simps rec_err_def Let_def)
      (simp add: ex_receipt_def ex_db1_def ex_event_def ex_response_def enforce_def usage_events_def usage_bytes_def
        NORMAL_EVENTS_def NORMAL_BYTES_def ex_db0_def empty_db_def example_simps)
qed

lemma ex_applies:
  "wapply W None (ex_journal ex_db0 ex_hosts True 110 110) ex_registration (V4 [1, 2, 3, 4]) 10 120
    = (ex_journal ex_db1 ex_hosts True 120 110, Inr ex_response)"
proof -
  have guard: "guard (ex_journal ex_db0 ex_hosts True 110 110) 10 120 = (ex_journal ex_db0 ex_hosts True 120 110, Inr ())"
    by (simp add: guard_def ex_journal_def MAX_INTEGER_def saturating_sub_def abs_diff_def U64_MAX_def)
  have fresh: "is_registered ex_db0 k = False" "forget_expired ex_db0 k n = ex_db0" "replay W ex_db0 r = Inr None"
    "bt_contains (wd_nonces ex_db0) q = False" for k n r q
    by (simp_all add: is_registered_def forget_expired_def replay_def ex_db0_def empty_db_def bt_contains_def)
  have c: "registers (cw_operation ex_wcommand)" "cw_operation ex_wcommand \<noteq> Read_op" "cw_nonce ex_wcommand = nonce32"
    "cw_authority_head ex_wcommand = bid 71" "cw_space_id ex_wcommand = bid 70" "\<not> command_malformed ex_pin ex_wcommand 120"
    "cw_credential_id ex_wcommand = bid 41" "cw_expires_at_ms ex_wcommand = 160" "cw_operation ex_wcommand = Register"
    by (simp_all add: registers_def ex_wcommand_def command_malformed_def example_simps saturating_add_def U64_MAX_def)
  have db: "ex_db0\<lparr>wd_spaces := wd_spaces ex_db1, wd_limits := wd_limits ex_db1,
      wd_nonces := [((encode_hex (bid 41), nonce32), \<lparr>nr_request = encode_hex (bid 94), nr_expires = 160\<rparr>)]\<rparr>
      = ex_db1\<lparr>wd_events := []\<rparr>" "wd_nonces ex_db0 = []"
    by (simp_all add: ex_db1_def ex_db0_def empty_db_def)
  have head_id: "fst (ex_entry 4 71 11) = bid 71" by (simp add: ex_entry_def)
  have run: "run_operation W None ex_db0 jo (new_c [ex_entry 4 71 11]) None rq r ex_wcommand (V4 [1, 2, 3, 4]) 120
      = Inr (Committed \<lparr>cg_db = ex_db0\<lparr>wd_spaces := wd_spaces ex_db1, wd_limits := wd_limits ex_db1\<rparr>,
        cg_authority = new_c [ex_entry 4 71 11], cg_event = ''space.registered'', cg_challenge = None,
        cg_security_reduction = False\<rparr>)" for jo rq r
    by (simp add: run_operation_def c ex_operation)
  have "transact W None (ex_journal ex_db0 ex_hosts True 120 110) (new_c [ex_entry 4 71 11]) None ex_registration
      (ex_record 1 5 94 11) ex_wcommand (V4 [1, 2, 3, 4]) 120 = Inr (ex_db1, ex_response)"
    using ex_append by (simp add: transact_def fresh c example_simps run db head_id Let_def bt_contains_def)
  moreover have "command_authority W ex_db0 ex_pin ex_registration ex_wcommand = Inr (new_c [ex_entry 4 71 11])"
    by (simp add: command_authority_def c registers_def ex_registers fresh)
  ultimately have "decide W None (ex_journal ex_db0 ex_hosts True 120 110) ex_registration (V4 [1, 2, 3, 4]) 120
      = Inr (ex_db1, ex_response)"
    using ex_work ex_ticket_good ex_authorized
    by (simp add: decide_def ex_registration_def ex_decode ex_plain_def decode_with_def rec_err_def example_simps c
        hex32_def fresh manages_def registers_def head_id Let_def nonce32_def)
  then show ?thesis by (simp add: wapply_def guard) (simp add: ex_journal_def)
qed

subsection \<open>The run and what the theorems say of it\<close>

abbreviation wj_new :: Journal where "wj_new \<equiv> ex_journal ex_db0 [] False 100 100"
abbreviation wj_active :: Journal where "wj_active \<equiv> ex_journal ex_db0 ex_hosts True 110 110"
abbreviation wj_registered :: Journal where "wj_registered \<equiv> ex_journal ex_db1 ex_hosts True 120 110"

lemma ex_run_active: "witness_run W wj_new wj_active"
proof -
  have "witness_step W wj_new (ex_journal ex_db0 ex_hosts False 100 100)"
    using hosts_step [of W wj_new ex_hosts] by (simp add: ex_takes_hosts)
  moreover have "witness_step W (ex_journal ex_db0 ex_hosts False 100 100) wj_active"
    using activate_step [of W "ex_journal ex_db0 ex_hosts False 100 100" ex_activation 110] by (simp add: ex_activates)
  ultimately show ?thesis by auto
qed

lemma ex_run_registered: "witness_run W wj_active wj_registered" "witness_run W wj_new wj_registered"
proof -
  have "witness_step W wj_active wj_registered"
    using apply_step [of W wj_active None ex_registration "V4 [1, 2, 3, 4]" 10 120] by (simp add: ex_applies)
  then show "witness_run W wj_active wj_registered" by blast
  with ex_run_active show "witness_run W wj_new wj_registered" by (rule rtranclp_trans)
qed

lemma ex_db_events [example_simps]: "wd_events ex_db0 = []" "wd_events ex_db1 = [ex_event]"
  by (simp_all add: ex_db0_def ex_db1_def empty_db_def)

lemma ex_db_differ: "ex_db1 \<noteq> ex_db0"
  by (rule notI, drule arg_cong [of _ _ wd_events]) (simp add: example_simps)

theorem journal_reopens_witness:
  "\<exists>jo1. Journal_open W (ex_wio ex_db1) ex_pin 200 = Inr jo1 \<and> jo_db jo1 = ex_db1 \<and> \<not> jo_active jo1"
proof -
  have io: "ji_directory (ex_wio ex_db1) = Inr ()" "ji_key_inside (ex_wio ex_db1) = Some False"
    "ji_key (ex_wio ex_db1) = Some (jo_key wj_registered)" "ji_files (ex_wio ex_db1) = Inr ()"
    "ji_db (ex_wio ex_db1) = Some (jo_db wj_registered)" "ji_quick_check (ex_wio ex_db1) = Some True"
    "ji_random (ex_wio ex_db1) = Some (bid 9)"
    by (simp_all add: ex_wio_def example_simps)
  have clock: "jo_last_clock wj_registered \<le> 200" "200 \<le> U64_MAX" by (simp_all add: example_simps U64_MAX_def)
  from journal_reopens [OF W_codec(1) wx_start ex_run_registered(2) clock io] show ?thesis
    by (auto simp: example_simps)
qed

theorem witness_change_authorized_witness:
  "\<exists>crec a c row. journal_decode W (wq_command ex_registration) = Inr crec \<and> space W a = bid 70
    \<and> credential a (bid 41) = Inr c \<and> verify_signature W crec (vc_key c) = Inr () \<and> can_manage a (bid 41)
    \<and> au_head a = Some (bid 71) \<and> wd_events ex_db1 = wd_events ex_db0 @ [row]"
proof -
  have "jo_db wj_registered \<noteq> jo_db wj_active" using ex_db_differ by (simp add: example_simps)
  from witness_change_authorized [OF W_codec(1) wx_start ex_run_active ex_applies this]
  obtain crec cmd a c row where d: "journal_decode W (wq_command ex_registration) = Inr crec" "dec_wcommand W (rec_body crec) = Some cmd"
    and s: "space W a = cw_space_id cmd" "verify_signature W crec (vc_key c) = Inr ()"
    and who: "case candidate_text (cw_operation cmd) of
         None \<Rightarrow> credential a (cw_credential_id cmd) = Inr c \<and> can_manage a (cw_credential_id cmd)
           \<and> au_head a = Some (cw_authority_head cmd)
       | Some text \<Rightarrow> wverify_credential W text = Inr c \<and> invited W (jo_db wj_active) a ex_registration crec cmd 120"
    and row: "wd_events (jo_db wj_registered) = wd_events (jo_db wj_active) @ [row]"
    by blast
  from d have "cmd = ex_wcommand" by (auto simp: ex_registration_def ex_decode ex_plain_def example_simps)
  with d(1) s who row show ?thesis
    by (intro exI [of _ crec] exI [of _ a] exI [of _ c] exI [of _ row])
      (simp add: ex_wcommand_def candidate_text_def example_simps)
qed

theorem witness_record_kept_witness: "prefix (wd_events ex_db0) (wd_events ex_db1) \<and> retained ex_db0 ex_db1"
  using witness_record_kept [OF W_codec(1) wx_start ex_run_active ex_run_registered(1)] by (simp add: example_simps)

theorem invitation_uses_bounded_witness: "uses_counted ex_db1 (encode_hex (bid 70)) = challenges_answered ex_db1 (encode_hex (bid 70))"
  using invitation_uses_bounded [OF W_codec(1) wx_start ex_run_registered(2)] by (simp add: example_simps)

lemma ex_journal_ok: "journal_ok W wj_registered"
  by (rule witness_run_ok [OF ex_run_registered(2) witness_start_ok [OF wx_start] W_codec(1)])

lemma ex_materialized: "\<exists>r. verify_materialized_space W ex_db1 (bid 70) ex_pin = Inr r"
  using journal_okD(3) [OF ex_journal_ok, of "bid 70"]
  by (simp add: example_simps ex_db1_def bt_contains_def bt_get_def)

theorem stored_rows_committed_witness:
  "space_view ex_db1 (encode_hex (bid 70)) = space_view (ex_db1\<lparr>wd_limits := []\<rparr>) (encode_hex (bid 70))"
proof -
  let ?db = "ex_db1\<lparr>wd_limits := []\<rparr>"
  have same: "verify_materialized_space W ?db (bid 70) ex_pin = verify_materialized_space W ex_db1 (bid 70) ex_pin"
    by (rule verify_materialized_space_cong) (simp_all add: last_event_def ex_digest)
  have sized: "columns_sized ex_db1 (encode_hex (bid 70))" "columns_sized ?db (encode_hex (bid 70))"
    by (simp_all add: columns_sized_def rows_sized_def space_rows_def policy_rows_def challenge_rows_def
        tombstone_rows_def ex_db1_def ex_db0_def empty_db_def)
  have input: "digest_input ex_db1 (bid 70) = digest_input ?db (bid 70)"
    by (simp add: digest_input_def space_rows_def policy_rows_def challenge_rows_def tombstone_rows_def)
  obtain r where r: "verify_materialized_space W ex_db1 (bid 70) ex_pin = Inr r" using ex_materialized by blast
  have "last_event ?db (encode_hex (bid 70)) = last_event ex_db1 (encode_hex (bid 70))" by (simp add: last_event_def)
  from stored_rows_committed [OF r _ this sized] r same input show ?thesis by auto
qed

definition ex_head_request :: HeadRequest where
  "ex_head_request = \<lparr>hr_space_id = bid 70, hr_stream_id = sid, hr_nonce = nonce32\<rparr>"

lemma ex_loads: "load W ex_db1 (bid 70) sid ex_pin = Inr (new_c [ex_entry 4 71 11])"
proof -
  have "verify_materialized_space W ex_db1 (bid 70) ex_pin = Inr ex_receipt"
    by (simp add: verify_materialized_space_def last_event_def example_simps rec_err_def decode_with_def ex_digest)
      (simp add: ex_event_def ex_receipt_def ex_decode ex_plain_def example_simps)
  then show ?thesis
    by (simp add: load_def ex_db1_def bt_get_def example_simps rec_err_def ex_wproof_verifies)
      (simp add: ex_receipt_def ex_entry_def)
qed

lemma ex_head:
  "whead W wj_registered ex_head_request 20 130 = (ex_journal ex_db1 ex_hosts True 130 110, Inr (ex_text 1 5 95 31))"
proof -
  have guard: "guard wj_registered 20 130 = (ex_journal ex_db1 ex_hosts True 130 110, Inr ())"
    by (simp add: guard_def ex_journal_def MAX_INTEGER_def saturating_sub_def abs_diff_def U64_MAX_def)
  have pos: "position ex_db1 = Inr \<lparr>po_sequence = 1, po_record_id = Some (bid 96)\<rparr>"
    by (simp add: position_def example_simps ex_event_def)
  have "\<lparr>fs_v = 1, fs_kind = ''witness.freshness'', fs_audience = ''https://w'', fs_nonce = nonce32,
         fs_space_id = bid 70, fs_stream_id = sid, fs_authority_head = bid 71,
         fs_position = \<lparr>po_sequence = 1, po_record_id = Some (bid 96)\<rparr>, fs_issued_at_ms = 130, fs_expires_at_ms = 30130,
         fs_witness_key_generation = 1\<rparr> = ex_freshness"
    by (simp add: ex_freshness_def)
  then show ?thesis
    by (simp add: whead_def guard ex_head_request_def hex32_def nonce32_def example_simps ex_loads pos checked_add_def
        U64_MAX_def rec_err_def ex_plain_def ex_supported_def ex_entry_def)
qed

theorem freshness_accepted_witness:
  "\<exists>vf. verify_freshness W ex_pin ex_head_request (ex_text 1 5 95 31) 40 140 None = Inr vf"
proof -
  have floor: "position (jo_db wj_registered) = Inr pos \<Longrightarrow> \<not> below_floor None pos" for pos
    by (simp add: below_floor_def)
  have len: "length (ex_text 1 5 95 31) \<le> 16384" by simp
  from freshness_accepted [OF W_codec wx_start ex_run_registered(2) ex_head len _ _ _ floor, of 40 140] show ?thesis
    by (auto simp: example_simps)
qed

end
