(* ===== verification/Storage_Examples.thy ===== *)
theory Storage_Examples
  imports Storage_Guarantees Witness_Examples
begin

text \<open>
  The broker at work in the example world: the owner of the space with a pinned witness configures
  a provider, reserves an attachment, uploads it and completes it. The theorems about the broker
  are applied to the states of this run.
\<close>

declare One_nat_def [simp del]

subsection \<open>Commands\<close>

lemma W_storage [example_simps]:
  "dec_scommand W = by_index ex_scommands" "ser_sresponse W r = ''s''" "de_sresponse W s = Some (R_Complete ex_object_id)"
  "hmac_sha256 W k m = replicate 32 (hd (drop 28 m @ [0]))"
  by (simp_all add: W_def)

lemma W_sealing: "sealing_correct W"
  by (auto simp: sealing_correct_def W_def TAG_BYTES_def)

abbreviation ex_authority :: Authority where
  "ex_authority \<equiv> new_c [ex_entry 4 71 11]"

definition ex_srequest :: "nat \<Rightarrow> SRequest" where
  "ex_srequest i = \<lparr>sq_command = ex_text 1 5 i 11, sq_proof = ex_wproof\<rparr>"

lemma ex_scommands_sel [example_simps]:
  "map_of ex_scommands 98 = Some (ex_scommand (S_Configure 0 ex_provider 12) nonce16 (encode_hex (replicate 8 0)))"
  "map_of ex_scommands 99 = Some (ex_scommand (S_Reserve ex_object_id 40 nonce32) (encode_hex (replicate 16 8)) [])"
  "map_of ex_scommands 100 = Some (ex_scommand (S_Complete ex_object_id) (encode_hex (replicate 16 9)) [])"
  by (simp_all add: ex_scommands_def)

lemma ex_scommand_sel [example_simps]:
  "sm_v (ex_scommand op n w) = 1" "sm_kind (ex_scommand op n w) = ''storage.command''"
  "sm_audience (ex_scommand op n w) = ''https://s''" "sm_space_id (ex_scommand op n w) = bid 70"
  "sm_stream_id (ex_scommand op n w) = sid" "sm_config_id (ex_scommand op n w) = bid 71"
  "sm_credential_id (ex_scommand op n w) = bid 41" "sm_nonce (ex_scommand op n w) = n" "sm_work (ex_scommand op n w) = w"
  "sm_issued_at (ex_scommand op n w) = 5" "sm_expires_at (ex_scommand op n w) = 40" "sm_operation (ex_scommand op n w) = op"
  by (simp_all add: ex_scommand_def)

lemma ex_member_ok: "storage_member W ex_authority (bid 41) b = Inr ()" "can_manage ex_authority (bid 41)"
  by (simp_all add: storage_member_def can_manage_def head_new_c example_simps decode_with_def)
    (simp_all add: ex_configs_def ex_config_def ex_member_def ex_genesis_def nonce16_def sid_def)


definition ex_verified :: "nat \<Rightarrow> SCommand \<Rightarrow> Verified" where
  "ex_verified i c = \<lparr>vd_command = c, vd_authority = ex_authority, vd_request_id = bid i\<rparr>"

lemma ex_verified_sel [example_simps]:
  "vd_command (ex_verified i c) = c" "vd_authority (ex_verified i c) = ex_authority" "vd_request_id (ex_verified i c) = bid i"
  by (simp_all add: ex_verified_def)

lemma ex_storage_bad:
  "op_ttl op \<ge> 35 \<Longrightarrow> \<not> storage_command_bad W ex_authority (ex_scommand op n w) ''https://s'' 10"
  by (simp add: storage_command_bad_def example_simps saturating_add_def U64_MAX_def) (simp add: ex_entry_def)

lemma ex_command_verifies:
  assumes "map_of ex_scommands i = Some c" "c = ex_scommand op n w" "ex_plain i" "hex 16 n = Inr b" "op_validate op = Inr ()"
    "op_first op \<Longrightarrow> w = encode_hex (replicate 8 0)" "\<not> op_first op \<Longrightarrow> w = []"
  shows "Verified_new W (ex_srequest i) ''https://s'' 10 ex_pin = Inr (ex_verified i c)"
proof -
  have cred: "proof_credential W ex_wproof (bid 41) = Inr cred41"
    by (simp add: proof_credential_def check_size_def ex_wproof_def MAX_PROOF_BYTES_def saturating_add_def U64_MAX_def
        example_simps ex_self_rooted)
  have sig: "verify_signature W (ex_record 1 5 i 11) (vc_key cred41) = Inr ()"
    using assms(3) by (simp add: example_simps)
  have ttl: "op_ttl op \<ge> 35" by (simp add: op_ttl_def CONFIGURE_TTL_def STORAGE_COMMAND_TTL_def split: SOperation.split)
  have work: "valid_work W (work_base W x) (from_be_bytes (replicate 8 0))" for x
  proof -
    have "from_be_bytes (replicate 8 0) = 0" by (simp add: from_be_bytes_def numeral_eq_Suc)
    then show ?thesis
      by (simp add: valid_work_def work_base_def W_def ex_hash_def u64_to_be_bytes_def u32_to_be_bytes_def)
  qed
  have "storage_verify_command W ex_authority (ex_record 1 5 i 11) ''https://s'' 10 = Inr c"
    using assms ttl sig work
    by (simp add: storage_verify_command_def decode_with_def example_simps ex_storage_bad ex_member_ok hex_def)
  with assms(1-3) cred sig show ?thesis
    by (simp add: Verified_new_def ex_srequest_def example_simps MAX_RECORD_def decode_with_def ex_plain_def ex_supported_def
        ex_wproof_verifies ex_verified_def)
qed

subsection \<open>The states of the run\<close>

definition ex_lease :: VerifiedFreshness where
  "ex_lease = \<lparr>vf_body = ex_freshness, vf_elapsed_ms = 40\<rparr>"

lemma ex_witness_lease: "witness_lease W ex_pin (bid 70) sid ex_lease"
proof -
  have "verify_freshness W ex_pin ex_head_request (ex_text 1 5 95 31) 40 140 None = Inr ex_lease"
    by (simp add: verify_freshness_def ex_head_request_def nonce32_def hex_def example_simps decode_with_def
        ex_plain_def ex_supported_def)
      (simp add: ex_freshness_def nonce32_def below_floor_def freshness_valid_def saturating_add_def saturating_sub_def
        U64_MAX_def ex_lease_def)
  moreover have "hr_space_id ex_head_request = bid 70" "hr_stream_id ex_head_request = sid" by (simp_all add: ex_head_request_def)
  ultimately show ?thesis unfolding witness_lease_def by blast
qed

lemma ex_lease_head: "fs_authority_head (vf_body ex_lease) = bid 71"
  by (simp add: ex_lease_def ex_freshness_def)

definition ex_broker :: "storage_db \<Rightarrow> StorageEngine" where
  "ex_broker db = \<lparr>sg_db = db, sg_key = bid 9, sg_audience = ''https://s'', sg_max_spaces = 8\<rparr>"

definition ex_sv :: "storage_db \<Rightarrow> Object list \<Rightarrow> (string \<times> string \<Rightarrow> bytes option) \<Rightarrow> nat \<Rightarrow> StorageService" where
  "ex_sv db uploads blobs now = \<lparr>sy_engine = ex_broker db, sy_now = now, sy_cache = [], sy_uploads = uploads,
     sy_collecting = [], sy_blobs = blobs\<rparr>"

lemma ex_sv_sel [simp]:
  "sg_db (ex_broker db) = db" "sg_key (ex_broker db) = bid 9" "sg_audience (ex_broker db) = ''https://s''"
  "sg_max_spaces (ex_broker db) = 8" "sy_engine (ex_sv db u b n) = ex_broker db" "sy_now (ex_sv db u b n) = n"
  "sy_cache (ex_sv db u b n) = []" "sy_uploads (ex_sv db u b n) = u" "sy_collecting (ex_sv db u b n) = []"
  "sy_blobs (ex_sv db u b n) = b" "with_db (ex_sv db u b n) db' = ex_sv db' u b n"
  "(ex_sv db u b n)\<lparr>sy_uploads := u'\<rparr> = ex_sv db u' b n" "(ex_sv db u b n)\<lparr>sy_blobs := b'\<rparr> = ex_sv db u b' n"
  "(ex_sv db u b n)\<lparr>sy_now := n'\<rparr> = ex_sv db u b n'"
  by (simp_all add: ex_broker_def ex_sv_def with_db_def)

definition ex_sp :: string where "ex_sp = encode_hex (bid 70)"
definition ex_ob :: string where "ex_ob = encode_hex ex_object_id"

definition ex_sdb0 :: storage_db where
  "ex_sdb0 = empty_storage\<lparr>sd_floor := Some \<lparr>fl_pin = ''https://w'', fl_sequence = 0, fl_record = None\<rparr>\<rparr>"

definition ex_secret :: bytes where
  "ex_secret = replicate 24 0 @ ser_provider W ex_provider @ replicate 16 0"

definition ex_headrow :: head_row where
  "ex_headrow = \<lparr>hd_stream = encode_hex sid, hd_head = encode_hex (bid 71), hd_sequence = 1\<rparr>"

definition ex_sreceipt :: "nat \<Rightarrow> sreceipt_row" where
  "ex_sreceipt i = \<lparr>rc_request = encode_hex (bid i), rc_response = ''s'', rc_expires = 40, rc_created = 10\<rparr>"

definition ex_source :: IpAddr where "ex_source = V4 [127, 0, 0, 1]"

definition ex_sdb1 :: storage_db where
  "ex_sdb1 = ex_sdb0\<lparr>sd_heads := [(ex_sp, ex_headrow)],
     sd_settings := [(ex_sp, \<lparr>st_revision = 1, st_provider = Some ''mega_folder'', st_enabled = True,
        st_provider_revision = 1, st_retention_hours = Some 12\<rparr>)],
     sd_providers := [((ex_sp, 1), ex_secret)],
     sd_receipts := [((encode_hex (bid 41), nonce16), ex_sreceipt 98)],
     sd_registrations := [((ip_hash W ex_source, 0), 1)]\<rparr>"

lemma ex_storage_starts: "storage_start W ex_pin (ex_sv ex_sdb0 [] (\<lambda>_. None) 10000)"
proof -
  have "Broker_open (Inr (bid 9)) storage_columns empty_storage ''https://s'' 8 = Inr (ex_broker empty_storage)"
    by (simp add: Broker_open_def migrate_settings_def storage_columns_def empty_storage_def ex_broker_def)
  moreover have "pin_witness W empty_storage ex_pin = Inr ex_sdb0"
    by (simp add: pin_witness_def example_simps empty_storage_def ex_sdb0_def)
  moreover have "ex_broker ex_sdb0 = (ex_broker empty_storage)\<lparr>sg_db := ex_sdb0\<rparr>" by (simp add: ex_broker_def)
  ultimately show ?thesis
    unfolding storage_start_def
    by (intro conjI exI [of _ "bid 9"] exI [of _ "''https://s''"] exI [of _ 8] exI [of _ "ex_broker empty_storage"] exI [of _ ex_sdb0])
      (simp_all add: U64_MAX_def)
qed

lemma ex_provider_valid: "provider_validate ex_provider = Inr ()"
  by (simp add: provider_validate_def ex_provider_def is_control_def str_chars_def)

lemma ex_head_storage: "head ex_authority = Inr h \<Longrightarrow> sc_sequence h = 1"
  by (auto simp: head_new_c ex_configs_def ex_config_def)

lemma ex_check_lease:
  "sd_floor db = sd_floor ex_sdb0 \<Longrightarrow> check_witness db ex_lease 10000 = Inr ()"
  by (simp add: check_witness_def witness_position_def ex_sdb0_def ex_lease_def ex_freshness_def below_floor_def
      freshness_valid_def saturating_sub_def)

abbreviation ex_c1 :: SCommand where
  "ex_c1 \<equiv> ex_scommand (S_Configure 0 ex_provider 12) nonce16 (encode_hex (replicate 8 0))"

lemma ex_preflight1: "preflight W (ex_broker ex_sdb0) (ex_verified 98 ex_c1) ex_source 10 = Inr None"
  by (simp add: preflight_def storage_authorize_def example_simps ex_sdb0_def empty_storage_def op_first_def op_manages_def
      ex_member_ok op_validate_def ex_provider_valid MAX_INTEGER_def storage_replay_def int64_def saturating_sub_def I64_MAX_def
      recent_receipts_def expected_revision_def status_from_def unsigned_def used_bytes_def space_objects_def configures_def
      registration_count_def)

lemma ex_commit1: "command_commit W (Some (replicate 24 0)) None (ex_broker ex_sdb0) ex_lease (ex_verified 98 ex_c1) ex_source 10000
    = Inr (ex_sdb1, R_Status \<lparr>ss_configured = True, ss_enabled = True, ss_provider = Some ''mega_folder'', ss_revision = 1,
       ss_used_bytes = 0, ss_max_space_bytes = MAX_SPACE_ATTACHMENT_STORAGE, ss_max_file_bytes = MAX_ATTACHMENT_FILE_SIZE,
       ss_retention_hours = Some 12\<rparr>)"
proof -
  have seal: "seal_provider W (Some (replicate 24 0)) (bid 9) ex_sp 1 ex_provider = Inr ex_secret"
    by (simp add: seal_provider_def ex_secret_def W_def)
  obtain h where h: "head ex_authority = Inr h" "sc_sequence h = 1"
    using head_new_c ex_head_storage by blast
  show ?thesis
    using seal h
    by (simp add: command_commit_def managed_for_def example_simps ex_check_lease apply_with_managed_def ex_preflight1
        configuration_def sealed_configuration_def ex_provider_valid storage_operation_def op_configure_def count_registration_def
        int64_def I64_MAX_def insert_row_def bt_contains_def answer_status_def status_from_def unsigned_def used_bytes_def
        space_objects_def advance_head_def configures_def store_receipt_def cleared_def ex_sp_def [symmetric])
      (simp add: ex_sdb1_def ex_sdb0_def empty_storage_def ex_headrow_def ex_sreceipt_def provider_name_def ex_provider_def bt_get_def Let_def example_simps)
qed

abbreviation ex_c2 :: SCommand where
  "ex_c2 \<equiv> ex_scommand (S_Reserve ex_object_id 40 nonce32) (encode_hex (replicate 16 8)) []"

abbreviation ex_c3 :: SCommand where
  "ex_c3 \<equiv> ex_scommand (S_Complete ex_object_id) (encode_hex (replicate 16 9)) []"

definition ex_token :: string where "ex_token = transfer_token W (bid 9) (bid 99)"
definition ex_th :: string where "ex_th = storage_hash W ex_token"

definition ex_orow :: "string \<Rightarrow> nat \<Rightarrow> object_row" where
  "ex_orow state busy = \<lparr>ob_revision = 1, ob_creator = encode_hex (bid 41), ob_size = 40, ob_hash = nonce32,
     ob_expires = 43210000, ob_state = state, ob_busy_until = busy\<rparr>"

text \<open>The tables after the reservation, with the object in the given state and the given tokens.\<close>

definition ex_sdb2 :: "object_row \<Rightarrow> (string, token_row) btree_map \<Rightarrow> storage_db" where
  "ex_sdb2 row tokens = ex_sdb1\<lparr>sd_objects := [((ex_sp, ex_ob), row)], sd_tokens := tokens,
     sd_receipts := bt_insert (encode_hex (bid 41), encode_hex (replicate 16 8)) (ex_sreceipt 99) (sd_receipts ex_sdb1)\<rparr>"

definition ex_tokens :: "(string, token_row) btree_map" where
  "ex_tokens = [(ex_th, \<lparr>tk_space = ex_sp, tk_object = ex_ob, tk_head = encode_hex (bid 71), tk_action = ''upload'', tk_expires = 130\<rparr>)]"

lemma ex_sdb1_sel [simp]:
  "sd_heads ex_sdb1 = [(ex_sp, ex_headrow)]" "sd_floor ex_sdb1 = sd_floor ex_sdb0" "sd_objects ex_sdb1 = []" "sd_tokens ex_sdb1 = []"
  "sd_receipts ex_sdb1 = [((encode_hex (bid 41), nonce16), ex_sreceipt 98)]"
  "sd_settings ex_sdb1 = [(ex_sp, \<lparr>st_revision = 1, st_provider = Some ''mega_folder'', st_enabled = True,
        st_provider_revision = 1, st_retention_hours = Some 12\<rparr>)]"
  by (simp_all add: ex_sdb1_def ex_sdb0_def empty_storage_def)

lemma ex_sdb2_sel [simp]:
  "sd_heads (ex_sdb2 r t) = [(ex_sp, ex_headrow)]" "sd_floor (ex_sdb2 r t) = sd_floor ex_sdb0"
  "sd_objects (ex_sdb2 r t) = [((ex_sp, ex_ob), r)]" "sd_tokens (ex_sdb2 r t) = t"
  "sd_receipts (ex_sdb2 r t) = bt_insert (encode_hex (bid 41), encode_hex (replicate 16 8)) (ex_sreceipt 99)
     [((encode_hex (bid 41), nonce16), ex_sreceipt 98)]"
  "(ex_sdb2 r t)\<lparr>sd_objects := [((ex_sp, ex_ob), r')]\<rparr> = ex_sdb2 r' t" "(ex_sdb2 r t)\<lparr>sd_tokens := t'\<rparr> = ex_sdb2 r t'"
  by (simp_all add: ex_sdb2_def)

lemma ex_authorize_known:
  assumes "sd_heads db = [(ex_sp, ex_headrow)]" "\<not> op_manages op"
  shows "storage_authorize (ex_broker db) (ex_verified i (ex_scommand op n w)) 10 = Inr ()"
  using assms by (simp add: storage_authorize_def example_simps bt_get_def ex_headrow_def ex_sp_def)

lemma recent_le: "recent_receipts db cred since \<le> length (sd_receipts db)"
  by (simp add: recent_receipts_def)

lemma ex_preflight_known:
  assumes "sd_heads db = [(ex_sp, ex_headrow)]" "\<not> op_manages op" "op_validate op = Inr ()" "expected_revision op = None"
    "bt_get (sd_receipts db) (encode_hex (bid 41), n) = None" "length (sd_receipts db) < 60"
  shows "preflight W (ex_broker db) (ex_verified i (ex_scommand op n w)) ex_source 10 = Inr None"
  using assms recent_le [of db "encode_hex (bid 41)" 0]
  by (simp add: preflight_def ex_authorize_known example_simps storage_replay_def int64_def saturating_sub_def)

lemma ex_advance_known:
  assumes "sd_heads db = [(ex_sp, ex_headrow)]"
  shows "advance_head (ex_verified i (ex_scommand op n w)) db = Inr db"
proof -
  obtain h where h: "head ex_authority = Inr h" "sc_sequence h = 1" using head_new_c ex_head_storage by blast
  have "db\<lparr>sd_heads := sd_heads db\<rparr> = db" by simp
  with h assms show ?thesis
    by (simp add: advance_head_def example_simps ex_sp_def [symmetric] bt_contains_def bt_get_def int64_def I64_MAX_def)
      (simp add: ex_headrow_def)
qed

lemma ex_reserves: "op_reserve ex_sdb1 ''https://s'' ex_token ex_th ex_sp ex_c2 ex_object_id 40 nonce32 10
    = Inr ((ex_sdb2 (ex_orow ''pending'' 0) ex_tokens)\<lparr>sd_receipts := sd_receipts ex_sdb1\<rparr>,
        R_Transfer ex_object_id (object_url ''https://s'' ex_object_id) ex_token 130 43210000)"
  by (simp add: op_reserve_def bt_get_def expiry_ms_def checked_mul_def checked_add_def U64_MAX_def MAX_EXPIRY_TIMESTAMP_MS_def
      used_bytes_def space_objects_def unsigned_def saturating_add_def MAX_SPACE_ATTACHMENT_STORAGE_def bt_contains_def int64_def
      I64_MAX_def insert_row_def issue_token_def TRANSFER_TTL_def example_simps ex_ob_def [symmetric])
    (simp add: ex_sdb2_def ex_sdb1_def ex_orow_def ex_tokens_def ex_sdb0_def empty_storage_def)

lemma ex_commit_known:
  assumes "preflight W (ex_broker db) (ex_verified i (ex_scommand op n [])) ex_source 10 = Inr None" "\<not> op_manages op"
    "storage_operation W (ex_broker db) (ex_verified i (ex_scommand op n [])) ex_source 10 None = Inr (db1, resp)"
    "sd_floor db = sd_floor ex_sdb0" "sd_heads db1 = [(ex_sp, ex_headrow)]" "bt_get (sd_receipts db1) (encode_hex (bid 41), n) = None"
  shows "command_commit W None None (ex_broker db) ex_lease (ex_verified i (ex_scommand op n [])) ex_source 10000
    = Inr (db1\<lparr>sd_receipts := bt_insert (encode_hex (bid 41), n) (ex_sreceipt i) (sd_receipts db1)\<rparr>, resp)"
proof -
  have "configuration None op = Inr None" "managed_for None (ex_verified i (ex_scommand op n [])) = Inr None"
    using assms(2) by (auto simp: configuration_def managed_for_def op_manages_def example_simps split: SOperation.splits)
  with assms show ?thesis
    by (simp add: command_commit_def ex_check_lease apply_with_managed_def sealed_configuration_def ex_advance_known
        store_receipt_def int64_def I64_MAX_def insert_row_def bt_contains_def example_simps)
      (simp add: ex_sreceipt_def)
qed

lemma ex_commit2: "\<exists>resp. command_commit W None None (ex_broker ex_sdb1) ex_lease (ex_verified 99 ex_c2) ex_source 10000
    = Inr (ex_sdb2 (ex_orow ''pending'' 0) ex_tokens, resp)"
proof -
  have valid: "op_validate (S_Reserve ex_object_id 40 nonce32) = Inr ()"
    by (simp add: op_validate_def nonce32_def hex_def encrypted_size_def MAX_ATTACHMENT_FILE_SIZE_def HEADER_BYTES_def)
  let ?db = "(ex_sdb2 (ex_orow ''pending'' 0) ex_tokens)\<lparr>sd_receipts := sd_receipts ex_sdb1\<rparr>"
  have "command_commit W None None (ex_broker ex_sdb1) ex_lease (ex_verified 99 ex_c2) ex_source 10000
    = Inr (?db\<lparr>sd_receipts := bt_insert (encode_hex (bid 41), encode_hex (replicate 16 8)) (ex_sreceipt 99) (sd_receipts ?db)\<rparr>,
        R_Transfer ex_object_id (object_url ''https://s'' ex_object_id) ex_token 130 43210000)"
  proof (rule ex_commit_known)
    show "preflight W (ex_broker ex_sdb1) (ex_verified 99 ex_c2) ex_source 10 = Inr None"
      using valid by (intro ex_preflight_known)
        (simp_all add: op_manages_def expected_revision_def bt_get_def nonce16_def encode_hex_inj)
    show "storage_operation W (ex_broker ex_sdb1) (ex_verified 99 ex_c2) ex_source 10 None =
        Inr (?db, R_Transfer ex_object_id (object_url ''https://s'' ex_object_id) ex_token 130 43210000)"
      by (simp add: storage_operation_def example_simps ex_sp_def [symmetric] ex_token_def [symmetric] ex_th_def [symmetric] ex_reserves)
  qed (simp_all add: op_manages_def bt_get_def nonce16_def encode_hex_inj)
  then show ?thesis by (simp add: ex_sdb2_def del: bt_insert.simps)
qed

subsection \<open>Upload and completion\<close>

lemma ex_token_shape: "token_wellformed ex_token"
proof -
  have tk: "ex_token = encode_hex (replicate 32 99)"
    by (simp add: ex_token_def transfer_token_def example_simps ascii_def) (simp add: bid_def)
  show ?thesis
    by (simp add: token_wellformed_def tk list_all_iff) (simp add: encode_hex_def encode_byte_def hex_digit_def unat_byte_of_nat)
qed

definition ex_obj :: Object where "ex_obj = object_of ex_sp ex_ob (ex_orow ''pending'' 0)"

lemma ex_claims: "service_claim W (ex_sdb2 (ex_orow ''pending'' 0) ex_tokens) (bid 70, sid, bid 71) ex_lease ex_object_id ex_token ''upload'' 10000
    = Inr (ex_sdb2 (ex_orow ''uploading'' 110) [], ex_obj)"
proof -
  let ?db = "ex_sdb2 (ex_orow ''pending'' 0) ex_tokens"
  have match: "token_matches ?db ex_th ex_object_id ''upload'' 10 =
      Some (\<lparr>tk_space = ex_sp, tk_object = ex_ob, tk_head = encode_hex (bid 71), tk_action = ''upload'', tk_expires = 130\<rparr>, ex_headrow)"
    by (simp add: token_matches_def ex_tokens_def bt_get_def ex_ob_def) (simp add: ex_headrow_def)
  have target: "token_target W ?db ex_object_id ex_token ''upload'' 10 = Inr (bid 70, sid, bid 71)"
    by (simp add: token_target_def ex_token_shape int64_def I64_MAX_def ex_th_def [symmetric] match)
      (simp add: ex_sp_def ex_headrow_def)
  have "claim_row ?db ex_sp (encode_hex ex_object_id) ex_th ''upload'' 10 = Inr (ex_sdb2 (ex_orow ''uploading'' 110) [], ex_obj)"
    by (simp add: claim_row_def read_object_def bt_get_def ex_ob_def [symmetric] millis_def int64_def I64_MAX_def saturating_add_def
        U64_MAX_def ex_tokens_def bt_remove_def bt_modify_def ex_obj_def)
      (simp add: ex_orow_def)
  with target match show ?thesis
    by (simp add: service_claim_def ex_check_lease storage_claim_def ex_th_def [symmetric] int64_def I64_MAX_def)
qed

definition ex_blob :: bytes where "ex_blob = replicate 40 7"

lemma ex_upload_valid: "upload_valid W ex_obj (Some 40) [ex_blob] True"
  by (simp add: upload_valid_def ex_obj_def ex_orow_def ex_blob_def saturating_add_def U64_MAX_def W_def ex_hash_def nonce32_def)

lemma ex_finished: "upload_finished (ex_sdb2 (ex_orow ''uploading'' 110) []) ex_obj True = ex_sdb2 (ex_orow ''uploaded'' 0) []"
  by (simp add: upload_finished_def bt_modify_def ex_obj_def) (simp add: ex_orow_def)

definition ex_sdb3 :: storage_db where
  "ex_sdb3 = (ex_sdb2 (ex_orow ''complete'' 0) [])\<lparr>sd_receipts :=
     bt_insert (encode_hex (bid 41), encode_hex (replicate 16 9)) (ex_sreceipt 100) (sd_receipts (ex_sdb2 (ex_orow ''complete'' 0) []))\<rparr>"

lemma ex_commit3: "command_commit W None None (ex_broker (ex_sdb2 (ex_orow ''uploaded'' 0) [])) ex_lease (ex_verified 100 ex_c3) ex_source 10000
    = Inr (ex_sdb3, R_Complete ex_object_id)"
  unfolding ex_sdb3_def
proof (rule ex_commit_known)
  let ?db = "ex_sdb2 (ex_orow ''uploaded'' 0) []"
  show "preflight W (ex_broker ?db) (ex_verified 100 ex_c3) ex_source 10 = Inr None"
    by (intro ex_preflight_known)
      (simp_all add: op_manages_def expected_revision_def op_validate_def nonce16_def encode_hex_inj del: bt_insert.simps,
       simp_all add: bt_get_def encode_hex_inj)
  show "storage_operation W (ex_broker ?db) (ex_verified 100 ex_c3) ex_source 10 None =
      Inr (ex_sdb2 (ex_orow ''complete'' 0) [], R_Complete ex_object_id)"
    by (simp add: storage_operation_def example_simps op_complete_def read_object_def bt_get_def ex_sp_def [symmetric] ex_ob_def [symmetric]
        set_state_def bt_modify_def millis_def del: bt_insert.simps)
      (simp add: ex_orow_def del: bt_insert.simps)
  show "bt_get (sd_receipts (ex_sdb2 (ex_orow ''complete'' 0) [])) (encode_hex (bid 41), encode_hex (replicate 16 9)) = None"
    by (simp add: encode_hex_inj nonce16_def del: bt_insert.simps) (simp add: bt_get_def encode_hex_inj)
qed (simp_all add: op_manages_def)

lemma ex_commands_verify:
  "Verified_new W (ex_srequest 98) ''https://s'' 10 ex_pin = Inr (ex_verified 98 ex_c1)"
  "Verified_new W (ex_srequest 99) ''https://s'' 10 ex_pin = Inr (ex_verified 99 ex_c2)"
  "Verified_new W (ex_srequest 100) ''https://s'' 10 ex_pin = Inr (ex_verified 100 ex_c3)"
proof -
  have "op_validate (S_Reserve ex_object_id 40 nonce32) = Inr ()"
    by (simp add: op_validate_def nonce32_def hex_def encrypted_size_def MAX_ATTACHMENT_FILE_SIZE_def HEADER_BYTES_def)
  then show "Verified_new W (ex_srequest 99) ''https://s'' 10 ex_pin = Inr (ex_verified 99 ex_c2)"
    by (intro ex_command_verifies [OF ex_scommands_sel(2) refl, of "replicate 16 8"])
      (simp_all add: ex_plain_def hex_def op_first_def)
  show "Verified_new W (ex_srequest 98) ''https://s'' 10 ex_pin = Inr (ex_verified 98 ex_c1)"
    by (intro ex_command_verifies [OF ex_scommands_sel(1) refl, of "replicate 16 7"])
      (simp_all add: ex_plain_def hex_def op_first_def op_validate_def MAX_INTEGER_def ex_provider_valid nonce16_def)
  show "Verified_new W (ex_srequest 100) ''https://s'' 10 ex_pin = Inr (ex_verified 100 ex_c3)"
    by (intro ex_command_verifies [OF ex_scommands_sel(3) refl, of "replicate 16 9"])
      (simp_all add: ex_plain_def hex_def op_first_def op_validate_def)
qed

subsection \<open>The run\<close>

lemma ex_command_step:
  assumes "Verified_new W (ex_srequest i) ''https://s'' 10 ex_pin = Inr (ex_verified i (ex_scommand op n w))" "fresh_nonce rnd"
    "command_commit W rnd None (ex_broker db) ex_lease (ex_verified i (ex_scommand op n w)) ex_source 10000 = Inr (db', resp)"
  shows "storage_step W ex_pin None (ex_sv db u b 10000) (ex_sv db' u b 10000)"
  using s_command [of W "ex_srequest i" "ex_sv db u b 10000" 10 ex_pin "ex_verified i (ex_scommand op n w)" ex_lease rnd None ex_source db' resp]
    assms ex_witness_lease ex_lease_head by (simp add: example_simps)

abbreviation ex_sv0 :: StorageService where "ex_sv0 \<equiv> ex_sv ex_sdb0 [] (\<lambda>_. None) 10000"
abbreviation ex_sv1 :: StorageService where "ex_sv1 \<equiv> ex_sv ex_sdb1 [] (\<lambda>_. None) 10000"
abbreviation ex_sv2 :: StorageService where "ex_sv2 \<equiv> ex_sv (ex_sdb2 (ex_orow ''pending'' 0) ex_tokens) [] (\<lambda>_. None) 10000"
abbreviation ex_sv3 :: StorageService where "ex_sv3 \<equiv> ex_sv (ex_sdb2 (ex_orow ''uploading'' 110) []) [ex_obj] (\<lambda>_. None) 10000"
abbreviation ex_sv4 :: StorageService where
  "ex_sv4 \<equiv> ex_sv (ex_sdb2 (ex_orow ''uploaded'' 0) []) [] [(ex_sp, ex_ob) \<mapsto> ex_blob] 10000"
abbreviation ex_sv5 :: StorageService where "ex_sv5 \<equiv> ex_sv ex_sdb3 [] [(ex_sp, ex_ob) \<mapsto> ex_blob] 10000"

lemma ex_steps:
  "storage_step W ex_pin None ex_sv0 ex_sv1" "storage_step W ex_pin None ex_sv1 ex_sv2" "storage_step W ex_pin None ex_sv2 ex_sv3"
  "storage_step W ex_pin None ex_sv3 ex_sv4" "storage_step W ex_pin None ex_sv4 ex_sv5"
proof -
  show "storage_step W ex_pin None ex_sv0 ex_sv1"
    by (rule ex_command_step [OF ex_commands_verify(1) _ ex_commit1]) (simp add: fresh_nonce_def)
  show "storage_step W ex_pin None ex_sv1 ex_sv2"
    using ex_commit2 ex_command_step [OF ex_commands_verify(2), of None] by (auto simp: fresh_nonce_def)
  show "storage_step W ex_pin None ex_sv2 ex_sv3"
    using s_upload [OF ex_witness_lease ex_lease_head, of ex_sv2] ex_claims by simp
  show "storage_step W ex_pin None ex_sv3 ex_sv4"
    using s_stored [of ex_obj ex_sv3 W "Some 40" "[ex_blob]" True ex_pin None] ex_upload_valid ex_finished
    by (simp add: ex_obj_def)
  show "storage_step W ex_pin None ex_sv4 ex_sv5"
    by (rule ex_command_step [OF ex_commands_verify(3) _ ex_commit3]) (simp add: fresh_nonce_def)
qed

lemma ex_storage_run: "storage_run W ex_pin None ex_sv0 ex_sv1" "storage_run W ex_pin None ex_sv0 ex_sv5"
  using ex_steps by (meson rtranclp.rtrancl_refl rtranclp.rtrancl_into_rtrancl)+

subsection \<open>The theorems about the broker at work\<close>

theorem attachment_kept_witness:
  "bt_get (sd_objects ex_sdb3) (ex_sp, ex_ob) = Some (ex_orow ''complete'' 0)
   \<and> (\<exists>provider. open_provider W (ex_broker ex_sdb3) ex_sp 1 = Inr provider)"
proof -
  have row: "bt_get (sd_objects (sy_db ex_sv5)) (ex_sp, ex_ob) = Some (ex_orow ''complete'' 0)"
    by (simp add: ex_sdb3_def bt_get_def)
  have later: "storage_run W ex_pin None ex_sv5 (ex_sv ex_sdb3 [] [(ex_sp, ex_ob) \<mapsto> ex_blob] 43209999)"
    using s_clock [of ex_sv5 43209999 W ex_pin None] by (auto simp: U64_MAX_def)
  have state: "ob_state (ex_orow ''complete'' 0) = ''complete''" "43209999 < ob_expires (ex_orow ''complete'' 0)"
    by (simp_all add: ex_orow_def)
  have "ob_revision (ex_orow ''complete'' 0) = 1" by (simp add: ex_orow_def)
  with attachment_kept [OF W_sealing ex_storage_starts ex_storage_run(2) row state(1) later] state(2)
  show ?thesis by simp
qed

theorem storage_command_once_witness:
  "\<exists>resp. command_commit W None None (ex_broker ex_sdb1) ex_lease (ex_verified 98 ex_c1) ex_source 10000 = Inr (ex_sdb1, resp)"
proof -
  let ?v = "ex_verified 98 ex_c1"
  have rep: "storage_replay W (ex_broker ex_sdb1) ?v = Inr (Some (R_Complete ex_object_id))"
    by (simp add: storage_replay_def example_simps bt_get_def) (simp add: ex_sreceipt_def)
  have auth: "storage_authorize (ex_broker ex_sdb1) ?v 10 = Inr ()"
    by (simp add: storage_authorize_def example_simps bt_get_def ex_headrow_def ex_sp_def ex_member_ok)
  have val: "op_validate (S_Configure 0 ex_provider 12) = Inr ()"
    by (simp add: op_validate_def MAX_INTEGER_def ex_provider_valid)
  have again: "command_commit W None None (ex_broker ex_sdb1) ex_lease ?v ex_source 10000 = Inr (ex_sdb1, R_Complete ex_object_id)"
    by (simp add: command_commit_def managed_for_def example_simps ex_check_lease apply_with_managed_def preflight_def rep auth val)
  have differ: "ex_sdb1 \<noteq> sy_db ex_sv0"
    by (rule notI, drule arg_cong [of _ _ sd_heads]) (simp add: ex_sdb0_def empty_storage_def)
  have nonce: "fresh_nonce (Some (replicate 24 0))" by (simp add: fresh_nonce_def)
  have first: "command_commit W (Some (replicate 24 0)) None (sy_engine ex_sv0) ex_lease ?v ex_source (sy_now ex_sv0)
      = Inr (ex_sdb1, R_Status \<lparr>ss_configured = True, ss_enabled = True, ss_provider = Some ''mega_folder'', ss_revision = 1,
       ss_used_bytes = 0, ss_max_space_bytes = MAX_SPACE_ATTACHMENT_STORAGE, ss_max_file_bytes = MAX_ATTACHMENT_FILE_SIZE,
       ss_retention_hours = Some 12\<rparr>)"
    using ex_commit1 by simp
  have stay: "storage_run W ex_pin None (with_db ex_sv0 ex_sdb1) ex_sv1" by simp
  have again': "command_commit W None None (sy_engine ex_sv1) ex_lease ?v ex_source (sy_now ex_sv1) = Inr (ex_sdb1, R_Complete ex_object_id)"
    using again by simp
  have "ex_sdb1 = sy_db ex_sv1"
    by (rule storage_command_once [OF W_sealing ex_storage_starts rtranclp.rtrancl_refl nonce first differ stay refl again'])
  with again show ?thesis by auto
qed


end
