(* ===== verification/Owned_Content.thy ===== *)
theory Owned_Content
  imports Identity
begin

text \<open>
  What a replica may learn about an encrypted object. \<^verbatim>\<open>crates/elo-core/src/message_retention.rs\<close>:
  how long a server keeps a delivery copy. \<^verbatim>\<open>retention_access.rs\<close>: the per-message capabilities by
  which a member asks for a body again or reports it received. \<^verbatim>\<open>erasure.rs\<close>: the signed envelope
  that attributes a ciphertext to an account and states its retention, without its plaintext.
\<close>

subsection \<open>Retention policies\<close>

datatype MessageRetention = Hours6 | Hours12 | Hours24 | Hours48 | NoExpiry

fun retention_seconds :: "MessageRetention \<Rightarrow> nat option" where
  "retention_seconds Hours6 = Some 21600"
| "retention_seconds Hours12 = Some 43200"
| "retention_seconds Hours24 = Some 86400"
| "retention_seconds Hours48 = Some 172800"
| "retention_seconds NoExpiry = None"

definition public_policies :: "MessageRetention list" where
  "public_policies = [Hours6, Hours12, Hours24]"

definition validate_allowed :: "MessageRetention list \<Rightarrow> bool" where
  "validate_allowed policies \<longleftrightarrow>
     policies \<noteq> [] \<and> length policies \<le> 5 \<and> length (remdups policies) = length policies"

text \<open>The wire form: the number of seconds, or the text that has to be written out for no expiry.\<close>

datatype retention_wire = Seconds nat | Explicit string

definition serialize_retention :: "MessageRetention \<Rightarrow> retention_wire" where
  "serialize_retention r = (case retention_seconds r of Some s \<Rightarrow> Seconds s | None \<Rightarrow> Explicit ''no_expiry'')"

definition deserialize_retention :: "retention_wire \<Rightarrow> MessageRetention option" where
  "deserialize_retention w =
     (case w of
        Seconds s \<Rightarrow>
          if s = 21600 then Some Hours6 else if s = 43200 then Some Hours12
          else if s = 86400 then Some Hours24 else if s = 172800 then Some Hours48 else None
      | Explicit t \<Rightarrow> if t = ''no_expiry'' then Some NoExpiry else None)"

lemma retention_wire_roundtrip: "deserialize_retention w = Some r \<longleftrightarrow> w = serialize_retention r"
  by (cases r) (auto simp: deserialize_retention_def serialize_retention_def split: retention_wire.splits if_splits)

lemma retention_seconds_pos: "retention_seconds r = Some s \<Longrightarrow> 0 < s \<and> s \<le> 172800"
  by (cases r) auto

subsection \<open>Message capabilities\<close>

definition WINDOW_MS :: nat where "WINDOW_MS = 300000"

record Actor =
  at_identity :: IdentityId
  at_credential :: RecordId

definition actor_of :: "('z crypto_scheme) \<Rightarrow> VerifiedCredential \<Rightarrow> Actor" where
  "actor_of E c = \<lparr>at_identity = identity c, at_credential = credential_id E c\<rparr>"

datatype AccessOperation = Op_Request | Op_Accept

record Context =
  cx_operation :: AccessOperation
  cx_replica :: PeerId
  cx_mailbox :: MailboxId
  cx_object :: ObjectId
  cx_record :: RecordId
  cx_actor :: Actor

record Proof =
  pf_expires_ms :: nat
  pf_nonce :: string
  pf_signature :: string

datatype RetentionClaim =
    MessageBody (cl_locator_nonce: string) (cl_record_id: RecordId) (cl_lifetime: MessageRetention)
      (cl_direct_peer: "IdentityId option") (cl_request_key: string) (cl_accept_key: "string option")
  | MessageLocator_claim (cl_locator_nonce: string) (cl_body_object_id: ObjectId) (cl_record_id: RecordId)
      (cl_lifetime: MessageRetention) (cl_request_key: string)

record Claim =
  ow_v :: nat
  ow_kind :: string
  ow_credential :: string
  ow_ciphertext :: ObjectId
  ow_subjects :: "IdentityId list"
  ow_retention :: "RetentionClaim option"

text \<open>The serde derives of the two modules.\<close>

record content_ext = identity_ext +
  ser_access :: "Context \<Rightarrow> nat \<Rightarrow> string \<Rightarrow> bytes"
  ser_claim :: "Claim \<Rightarrow> bytes"
  dec_claim :: "json \<Rightarrow> Claim option"

definition capability_key :: "('z crypto_scheme) \<Rightarrow> string \<Rightarrow> RecordError + string" where
  "capability_key E seed = bindr (hex 32 seed) (\<lambda>s. Inr (encode_hex (ed_public E s)))"

definition Proof_issue ::
  "('z content_ext_scheme) \<Rightarrow> bytes option \<Rightarrow> string \<Rightarrow> Context \<Rightarrow> nat \<Rightarrow> RecordError + Proof" where
  "Proof_issue E rnd seed cx now =
     bindr (hex 32 seed) (\<lambda>s.
     bindr (ok_or (checked_add now WINDOW_MS) Json) (\<lambda>expires.
     bindr (random_hex rnd) (\<lambda>nonce.
     Inr \<lparr>pf_expires_ms = expires, pf_nonce = nonce,
          pf_signature = encode_hex (ed_sign E s (ser_access E cx expires nonce))\<rparr>)))"

definition Proof_verify ::
  "('z content_ext_scheme) \<Rightarrow> Proof \<Rightarrow> string \<Rightarrow> Context \<Rightarrow> nat \<Rightarrow> RecordError + unit" where
  "Proof_verify E p key cx now =
     (if pf_expires_ms p \<le> now \<or> pf_expires_ms p > saturating_add now (WINDOW_MS + 120000)
         \<or> \<not> is_ok (hex 16 (pf_nonce p))
      then Inl Authority_err
      else
      bindr (hex 32 key) (\<lambda>kb.
      bindr (verifying_key E kb Authority_err) (\<lambda>k.
      bindr (hex 64 (pf_signature p)) (\<lambda>sig.
      if ed_verify_strict E k (ser_access E cx (pf_expires_ms p) (pf_nonce p)) sig then Inr () else Inl Authority_err))))"

text \<open>A device's own proof passes at once, under the public key of the seed it was issued with.\<close>

lemma Proof_issue_verifies:
  assumes "Proof_issue E (Some bs) seed cx now = Inr p" "length bs = 16" "seed = encode_hex s" "signing_correct E"
    "ed_key_valid E (ed_public E s)" "length (ed_public E s) = 32"
  shows "Proof_verify E p (encode_hex (ed_public E s)) cx now = Inr ()"
  using assms
  by (auto simp: Proof_issue_def Proof_verify_def hex_def bindr_eq_Inr map_err_eq_Inr parse_hex_canonical encode_hex_inj
      ok_or_eq_Inr random_hex_def checked_add_eq_Some saturating_add_def WINDOW_MS_def signing_correct_def U64_MAX_def
      verifying_key_def)

subsection \<open>The signed envelope\<close>

datatype CryptoError = InvalidInput | Encrypt_err | Decrypt_err | Recipients_err

definition MAX_CIPHERTEXT :: nat where "MAX_CIPHERTEXT = 16 * 1024 * 1024"
definition MAGIC :: bytes where "MAGIC = ascii ''elo-owned-object-v1'' @ [10]"
definition MAX_PROOF :: nat where "MAX_PROOF = 128 * 1024"

record Content =
  ct_credential :: VerifiedCredential
  ct_ciphertext :: bytes
  ct_subjects :: "IdentityId list"
  ct_retention :: "RetentionClaim option"

definition starts_with :: "bytes \<Rightarrow> bytes \<Rightarrow> bool" where
  "starts_with b p \<longleftrightarrow> take (length p) b = p"

definition wrap_subjects_with_retention ::
  "('z content_ext_scheme) \<Rightarrow> bytes \<Rightarrow> VerifiedCredential \<Rightarrow> bytes \<Rightarrow> IdentityId list \<Rightarrow> RetentionClaim option
     \<Rightarrow> CryptoError + bytes" where
  "wrap_subjects_with_retention E ciphertext credential key subjects retention =
     (let subjects = remdups_adj (sort (subjects @ [identity credential])) in
      if length subjects > 1002 then Inl InvalidInput
      else if ed_public E key \<noteq> vc_key credential \<or> starts_with ciphertext MAGIC then Inl InvalidInput
      else
      let claim = \<lparr>ow_v = 1, ow_kind = ''object.owner'', ow_credential = b64_encode E (rec_bytes (vc_record credential)),
            ow_ciphertext = of_ciphertext E ciphertext, ow_subjects = subjects, ow_retention = retention\<rparr> in
      bindr (map_err (\<lambda>_. Encrypt_err) (sign E (ser_claim E claim) key)) (\<lambda>record.
      let proof = rec_bytes record in
      if length proof > MAX_PROOF \<or> length MAGIC + 4 + length proof + length ciphertext > MAX_CIPHERTEXT
      then Inl InvalidInput
      else Inr (MAGIC @ u32_to_be_bytes (length proof) @ proof @ ciphertext)))"

definition wrap_subjects ::
  "('z content_ext_scheme) \<Rightarrow> bytes \<Rightarrow> VerifiedCredential \<Rightarrow> bytes \<Rightarrow> IdentityId list \<Rightarrow> CryptoError + bytes" where
  "wrap_subjects E ciphertext credential key subjects =
     wrap_subjects_with_retention E ciphertext credential key subjects None"

definition wrap :: "('z content_ext_scheme) \<Rightarrow> bytes \<Rightarrow> VerifiedCredential \<Rightarrow> bytes \<Rightarrow> CryptoError + bytes" where
  "wrap E ciphertext credential key = wrap_subjects E ciphertext credential key [identity credential]"

definition valid_retention ::
  "('z crypto_scheme) \<Rightarrow> RetentionClaim option \<Rightarrow> IdentityId \<Rightarrow> IdentityId list \<Rightarrow> bool" where
  "valid_retention E retention issuer subjects =
     (case retention of
        None \<Rightarrow> True
      | Some (MessageBody nonce _ _ direct_peer request_key accept_key) \<Rightarrow>
          is_ok (hex 16 nonce)
          \<and> (request_key = [] \<or> valid_key E request_key)
          \<and> (case accept_key of None \<Rightarrow> True | Some key \<Rightarrow> valid_key E key \<and> key \<noteq> request_key)
          \<and> (request_key = [] \<or> (direct_peer \<noteq> None) = (accept_key \<noteq> None))
          \<and> (case direct_peer of None \<Rightarrow> True | Some peer \<Rightarrow> peer \<noteq> issuer \<and> issuer \<in> set subjects)
      | Some (MessageLocator_claim nonce _ _ _ request_key) \<Rightarrow>
          is_ok (hex 16 nonce) \<and> (request_key = [] \<or> valid_key E request_key))"

text \<open>\<open>get\<close> of a slice by a range: nothing when the range leaves the slice.\<close>

definition slice :: "bytes \<Rightarrow> nat \<Rightarrow> nat \<Rightarrow> bytes option" where
  "slice b from len = (if from + len \<le> length b then Some (take len (drop from b)) else None)"

definition inspect :: "('z content_ext_scheme) \<Rightarrow> bytes \<Rightarrow> CryptoError + Content option" where
  "inspect E b =
     (if \<not> starts_with b MAGIC then Inr None
      else if length b > MAX_CIPHERTEXT then Inl Decrypt_err
      else
      bindr (ok_or (slice b (length MAGIC) 4) Decrypt_err) (\<lambda>n.
      let sz = from_be_bytes n; start = length MAGIC + 4 in
      if sz = 0 \<or> sz > MAX_PROOF then Inl Decrypt_err
      else
      bindr (ok_or (slice b start sz) Decrypt_err) (\<lambda>pb.
      bindr (map_err (\<lambda>_. Decrypt_err) (parse E pb)) (\<lambda>proof.
      bindr (map_err (\<lambda>_. Decrypt_err) (decode_with (dec_claim E) proof)) (\<lambda>claim.
      bindr (ok_or (b64_decode E (ow_credential claim)) Decrypt_err) (\<lambda>cb.
      bindr (map_err (\<lambda>_. Decrypt_err) (parse E cb)) (\<lambda>raw.
      bindr (ok_or (as_str (json_index (rec_body raw) ''root_public_key'')) Decrypt_err) (\<lambda>rt.
      bindr (map_err (\<lambda>_. Decrypt_err) (hex 32 rt)) (\<lambda>rb.
      bindr (verifying_key E rb Decrypt_err) (\<lambda>root.
      bindr (map_err (\<lambda>_. Decrypt_err) (verify E (rec_bytes raw) root)) (\<lambda>credential.
      bindr (map_err (\<lambda>_. Decrypt_err) (verify_signature E proof (vc_key credential))) (\<lambda>_.
      let ciphertext = drop (start + sz) b in
      if ciphertext = [] then Inl Decrypt_err
      else if ow_v claim \<noteq> 1
         \<or> ow_kind claim \<noteq> ''object.owner''
         \<or> ow_ciphertext claim \<noteq> of_ciphertext E ciphertext
         \<or> starts_with ciphertext MAGIC
         \<or> \<not> sorted_unique (ow_subjects claim) 1 1002
         \<or> identity credential \<notin> set (ow_subjects claim)
         \<or> \<not> valid_retention E (ow_retention claim) (identity credential) (ow_subjects claim)
      then Inl Decrypt_err
      else Inr (Some \<lparr>ct_credential = credential, ct_ciphertext = ciphertext, ct_subjects = ow_subjects claim,
                      ct_retention = ow_retention claim\<rparr>)))))))))))))"

definition owner :: "('z content_ext_scheme) \<Rightarrow> bytes \<Rightarrow> CryptoError + IdentityId option" where
  "owner E b = bindr (inspect E b) (\<lambda>c. Inr (map_option (\<lambda>v. identity (ct_credential v)) c))"

text \<open>After decryption: the attribution, the retention and the capabilities agree with the record inside.\<close>

definition retention_matches ::
  "('z content_ext_scheme) \<Rightarrow> RetentionClaim \<Rightarrow> RecordId \<Rightarrow> ChatMessage \<Rightarrow> bool" where
  "retention_matches E retention original_id m =
     (case retention of
        MessageBody nonce record' _ direct_peer request_key accept_key \<Rightarrow>
          cm_kind m = ''chat.message''
          \<and> record' = original_id
          \<and> (request_key = [] \<and> cm_access m = None \<and> accept_key = None
             \<or> nonce = cm_nonce m
               \<and> (case cm_access m of
                     None \<Rightarrow> False
                   | Some a \<Rightarrow> ma_request_key a = request_key
                       \<and> (case ma_accept_secret a of
                            None \<Rightarrow> accept_key = None
                          | Some s \<Rightarrow> (case capability_key E s of Inl _ \<Rightarrow> False | Inr k \<Rightarrow> accept_key = Some k))))
          \<and> (case direct_peer of None \<Rightarrow> True
             | Some peer \<Rightarrow> length (cm_audience m) = 2 \<and> peer \<noteq> cm_issuer_identity m \<and> peer \<in> set (cm_audience m))
      | MessageLocator_claim nonce body' record' _ request_key \<Rightarrow>
          cm_kind m = ''chat.locator''
          \<and> (case cm_locator m of
               None \<Rightarrow> False
             | Some l \<Rightarrow> ml_message_record_id l = record' \<and> ml_body_object_id l = body' \<and> ml_locator_nonce l = nonce
                 \<and> (request_key = [] \<and> ml_request_secret l = []
                    \<or> ok (capability_key E (ml_request_secret l)) = Some request_key)))"

definition verify_original :: "('z content_ext_scheme) \<Rightarrow> bytes \<Rightarrow> SignedRecord \<Rightarrow> CryptoError + unit" where
  "verify_original E b original =
     bindr (inspect E b) (\<lambda>found.
     case found of
       None \<Rightarrow> Inr ()
     | Some content \<Rightarrow>
         if json_index (rec_body original) ''issuer_identity'' \<noteq> String (encode_hex (identity (ct_credential content)))
            \<or> json_index (rec_body original) ''issuer_credential'' \<noteq> String (encode_hex (credential_id E (ct_credential content)))
         then Inl Decrypt_err
         else
         bindr (map_err (\<lambda>_. Decrypt_err) (verify_signature E original (vc_key (ct_credential content)))) (\<lambda>_.
         case ct_retention content of
           None \<Rightarrow> Inr ()
         | Some retention \<Rightarrow>
             bindr (map_err (\<lambda>_. Decrypt_err) (chat E original)) (\<lambda>message.
             if retention_matches E retention (record_id E original) message then Inr () else Inl Decrypt_err)))"

subsection \<open>Wrapping and inspecting\<close>

text \<open>What the theorems assume of serde: a claim reads back as it was written, and a decoded credential's
  root key is the entry of that name in the body.\<close>

definition content_codec :: "('z content_ext_scheme) \<Rightarrow> bool" where
  "content_codec E \<longleftrightarrow>
     (\<forall>c j. strict_json E (ser_claim E c) MAX_RECORD = Inr j \<longrightarrow> dec_claim E j = Some c)
     \<and> (\<forall>j b. dec_credential E j = Some b \<longrightarrow> json_index j ''root_public_key'' = String (dc_root_public_key b))"

text \<open>Everything \<open>inspect\<close> has checked when it attributes an object.\<close>

lemma inspect_Some:
  assumes "inspect E b = Inr (Some c)"
  obtains pr claim root where
    "b = MAGIC @ u32_to_be_bytes (length (rec_bytes pr)) @ rec_bytes pr @ ct_ciphertext c"
    "0 < length (rec_bytes pr)" "length (rec_bytes pr) \<le> MAX_PROOF" "length b \<le> MAX_CIPHERTEXT"
    "parse E (rec_bytes pr) = Inr pr" "dec_claim E (rec_body pr) = Some claim"
    "verify E (rec_bytes (vc_record (ct_credential c))) root = Inr (ct_credential c)"
    "verify_signature E pr (vc_key (ct_credential c)) = Inr ()"
    "ow_ciphertext claim = of_ciphertext E (ct_ciphertext c)" "ow_subjects claim = ct_subjects c"
    "ow_retention claim = ct_retention c" "ct_ciphertext c \<noteq> []" "\<not> starts_with (ct_ciphertext c) MAGIC"
    "b64_decode E (ow_credential claim) = Some (rec_bytes (vc_record (ct_credential c)))"
    "sorted_wrt (<) (ct_subjects c)" "length (ct_subjects c) \<le> 1002" "identity (ct_credential c) \<in> set (ct_subjects c)"
    "valid_retention E (ct_retention c) (identity (ct_credential c)) (ct_subjects c)"
proof -
  have m1: "starts_with b MAGIC" using assms by (simp add: inspect_def split: if_splits)
  with assms obtain n pb pr claim cb raw rt rb root where
    m: "starts_with b MAGIC" "length b \<le> MAX_CIPHERTEXT" and n: "slice b (length MAGIC) 4 = Some n"
    and sz: "from_be_bytes n \<noteq> 0" "from_be_bytes n \<le> MAX_PROOF" and pb: "slice b (length MAGIC + 4) (from_be_bytes n) = Some pb"
    and p: "parse E pb = Inr pr" "decode_with (dec_claim E) pr = Inr claim" "b64_decode E (ow_credential claim) = Some cb"
    "parse E cb = Inr raw" "verify E (rec_bytes raw) root = Inr (ct_credential c)"
    "verify_signature E pr (vc_key (ct_credential c)) = Inr ()"
    and ct: "ct_ciphertext c = drop (length MAGIC + 4 + from_be_bytes n) b"
    and rest: "ow_ciphertext claim = of_ciphertext E (ct_ciphertext c)" "ow_subjects claim = ct_subjects c"
    "ow_retention claim = ct_retention c" "ct_ciphertext c \<noteq> []" "\<not> starts_with (ct_ciphertext c) MAGIC"
    "sorted_unique (ct_subjects c) 1 1002" "identity (ct_credential c) \<in> set (ct_subjects c)"
    "valid_retention E (ct_retention c) (identity (ct_credential c)) (ct_subjects c)"
    by (auto simp: inspect_def Let_def bindr_eq_Inr ok_or_eq_Inr map_err_eq_Inr guard_eq_Inr)
  have len: "length n = 4" "length pb = from_be_bytes n" and parts: "take 4 (drop (length MAGIC) b) = n"
      "take (from_be_bytes n) (drop (length MAGIC + 4) b) = pb"
    using n pb by (auto simp: slice_def split: if_splits)
  have bytes: "rec_bytes pr = pb" "rec_bytes raw = cb"
    using p(1,4) by (auto simp: parse_def dest: parse_bounded_body_bytes)
  have "b = MAGIC @ n @ pb @ ct_ciphertext c"
    using m(1) parts ct unfolding starts_with_def
    by (metis append_take_drop_id drop_drop add.commute)
  moreover have "u32_to_be_bytes (length pb) = n" using len by simp
  moreover have "cb = rec_bytes (vc_record (ct_credential c))"
    using verify_cases(1) [OF p(5)] bytes(2) by (auto dest: parse_bounded_body_bytes)
  ultimately show thesis
    using that [of pr claim root] m sz p rest bytes len by (auto simp: sorted_unique_iff result_simps)
qed

lemma starts_with_append [simp]: "starts_with (p @ b) p"
  by (simp add: starts_with_def)

lemma slice_append [simp]: "slice (a @ b @ c) (length a) (length b) = Some b"
  by (simp add: slice_def)

lemma sorted_remdups_adj_strict: "sorted xs \<Longrightarrow> sorted_wrt (<) (remdups_adj (xs :: 'a :: linorder list))"
  by (induction xs rule: remdups_adj.induct) (auto simp: order_less_le_trans order_le_neq_trans)

lemma sorted_dedup: "sorted_wrt (<) (remdups_adj (sort (xs :: 'a :: linorder list)))" "set (remdups_adj (sort xs)) = set xs"
  by (simp_all add: sorted_remdups_adj_strict)

text \<open>
  C39: what a device wraps, a replica reads. If wrapping succeeds with a device's own key, the envelope
  is read back as exactly that ciphertext, attributed to that device, with the account among the sorted
  subjects and the retention the device stated.
\<close>

theorem wrap_inspect:
  assumes "signing_correct E" "base64_correct E" "content_codec E"
    and "verify E b root = Inr credential" "ed_key_valid E root"
    and "wrap_subjects_with_retention E ciphertext credential key subjects retention = Inr w"
    and "ciphertext \<noteq> []" "valid_retention E retention (identity credential) (identity credential # subjects)"
  shows "\<exists>subjects'. inspect E w = Inr (Some \<lparr>ct_credential = credential, ct_ciphertext = ciphertext,
      ct_subjects = subjects', ct_retention = retention\<rparr>) \<and> sorted_wrt (<) subjects' \<and> set subjects' = insert (identity credential) (set subjects)"
proof -
  define ss where "ss = remdups_adj (sort (subjects @ [identity credential]))"
  define claim where "claim = \<lparr>ow_v = 1, ow_kind = ''object.owner'', ow_credential = b64_encode E (rec_bytes (vc_record credential)),
    ow_ciphertext = of_ciphertext E ciphertext, ow_subjects = ss, ow_retention = retention\<rparr>"
  from assms(6) obtain r where key: "ed_public E key = vc_key credential" and len: "length ss \<le> 1002"
    and nomagic: "\<not> starts_with ciphertext MAGIC" and r: "sign E (ser_claim E claim) key = Inr r"
    and fits: "length (rec_bytes r) \<le> MAX_PROOF" "length MAGIC + 4 + length (rec_bytes r) + length ciphertext \<le> MAX_CIPHERTEXT"
    and w: "w = MAGIC @ u32_to_be_bytes (length (rec_bytes r)) @ rec_bytes r @ ciphertext"
    unfolding wrap_subjects_with_retention_def Let_def ss_def [symmetric] claim_def [symmetric] bindr_eq_Inr map_err_eq_Inr guard_eq_Inr
    by (auto split: if_splits)
  note s = sign_bounded_Inr [OF r [unfolded sign_def] assms(1)]
  have parsed: "parse E (rec_bytes r) = Inr r" using s(1) by (simp add: parse_def)
  have dec: "dec_claim E (rec_body r) = Some claim"
    using assms(3) s(2) parse_bounded_body_bytes(2) [OF s(1)] by (simp add: content_codec_def)
  have sig: "verify_signature E r (vc_key credential) = Inr ()"
    using assms(1) s(2,3) by (simp add: verify_signature_iff signing_correct_def key [symmetric])
  have pos: "0 < length (rec_bytes r)" "length (rec_bytes r) < 2 ^ 32"
    using s(4) fits(1) by (simp_all add: MAX_PROOF_def)
  have cred: "parse E (rec_bytes (vc_record credential)) = Inr (vc_record credential)" "verify E (rec_bytes (vc_record credential)) root = Inr credential"
    using parse_of_credential [OF verify_cases(1) [OF assms(4)]] parse_bounded_body_bytes(1) [OF verify_cases(1) [OF assms(4)]] assms(4)
    by simp_all
  have rt: "as_str (json_index (rec_body (vc_record credential)) ''root_public_key'') = Some (encode_hex root)" "length root = 32"
    using assms(3) verify_cases(2,4) [OF assms(4)] by (auto simp: content_codec_def)
  have ss: "sorted_wrt (<) ss" "set ss = insert (identity credential) (set subjects)"
    unfolding ss_def by (auto simp: sorted_dedup)
  have subj: "sorted_unique ss 1 1002" using ss len by (cases ss) (auto simp: sorted_unique_iff)
  have ret: "valid_retention E retention (identity credential) ss"
    using assms(8) ss(2) by (auto simp: valid_retention_def split: option.splits RetentionClaim.splits)
  have "slice w (length MAGIC) 4 = Some (u32_to_be_bytes (length (rec_bytes r)))"
    "slice w (length MAGIC + 4) (length (rec_bytes r)) = Some (rec_bytes r)" "drop (length MAGIC + 4 + length (rec_bytes r)) w = ciphertext"
    "starts_with w MAGIC" "length w \<le> MAX_CIPHERTEXT"
    using fits(2) by (simp_all add: w slice_def starts_with_def)
  then have "inspect E w = Inr (Some \<lparr>ct_credential = credential, ct_ciphertext = ciphertext, ct_subjects = ss, ct_retention = retention\<rparr>)"
    using pos fits(1) parsed dec sig cred rt subj ret ss(2) nomagic assms(2,5,7)
    by (simp add: inspect_def Let_def claim_def decode_with_def base64_correct_def hex_def verifying_key_def)
  with ss show ?thesis by blast
qed

end
