(* ===== verification/Replica_Store.thy ===== *)
theory Replica_Store
  imports Owned_Content Revocations "HOL-Library.Product_Lexorder"
begin

text \<open>
  \<^verbatim>\<open>crates/elo-core/src/replica.rs\<close> with \<^verbatim>\<open>replica/packing.rs\<close>: the ciphertext-only store of a
  server, its tables and the operations on mailboxes and objects. A table is an ordered map on its
  primary key; identifiers are stored as bytes where the database holds their text. The statements
  that delete rows carry the cascades and triggers of the schema under \<^verbatim>\<open>migrations/\<close>. Foreign keys
  and recursive queries rely on the shape of the mailbox forest, which theory Replica\_Invariant
  proves of every state the store can reach. Every operation takes the time in milliseconds as the
  clock gave it, before the check of \<^verbatim>\<open>now()\<close>; all readings of one operation agree. Failures of the
  disk are not modelled.
\<close>

subsection \<open>Errors and limits\<close>

datatype ReplicaError =
    RE_Unauthorized | RE_Invalid | RE_Quota | RE_Pruned bytes | RE_Expired | RE_NotFound | RE_Conflict | RE_Storage | RE_Directory

definition MAX_CHILD_MAILBOXES :: nat where "MAX_CHILD_MAILBOXES = 256"
definition MAX_MAILBOX_LIFETIME_MS :: nat where "MAX_MAILBOX_LIFETIME_MS = 37 * 86400000"
definition METADATA_BYTES :: nat where "METADATA_BYTES = 1024"

text \<open>The clock before the epoch, or past the range of the database, is an error.\<close>

definition replica_now :: "int \<Rightarrow> ReplicaError + nat" where
  "replica_now clock = (if clock < 0 \<or> clock > int MAX_INTEGER then Inl RE_Storage else Inr (nat clock))"

datatype TransferHint = Eager | Lazy

subsection \<open>Tables\<close>

record mailbox_row =
  mb_read :: bytes
  mb_write :: bytes
  mb_quota :: nat

record delegation_row =
  dg_parent :: MailboxId
  dg_expires :: nat

text \<open>A packed object keeps the credential it was cut out of, the offset and its size on the wire.\<close>

record stored_object =
  so_ciphertext :: bytes
  so_stored :: nat
  so_packed :: "(RecordId \<times> nat \<times> nat) option"

record delivery =
  dl_seq :: nat
  dl_mailbox :: MailboxId
  dl_object :: ObjectId
  dl_hint :: TransferHint

record body_row =
  by_record :: RecordId
  by_nonce :: string
  by_issuer :: IdentityId
  by_direct_peer :: "IdentityId option"
  by_policy :: MessageRetention
  by_received :: nat
  by_expires :: "nat option"
  by_expired :: "nat option"
  by_refill :: "nat option"
  by_request_key :: "string option"
  by_accept_key :: "string option"

record locator_row =
  lo_body :: ObjectId
  lo_record :: RecordId
  lo_nonce :: string
  lo_policy :: MessageRetention
  lo_received :: nat
  lo_expires :: "nat option"
  lo_request_key :: "string option"

record request_row =
  rq_record :: RecordId
  rq_requested :: nat
  rq_expires :: nat
  rq_credential :: RecordId
  rq_nonce :: string
  rq_proof_expires :: nat

record acceptance_row =
  ac_accepted :: nat
  ac_expires :: nat
  ac_nonce :: string
  ac_proof_expires :: nat

record replica_db =
  rd_mailboxes :: "(MailboxId, mailbox_row) btree_map"
  rd_delegations :: "(MailboxId, delegation_row) btree_map"
  rd_objects :: "(ObjectId, stored_object) btree_map"
  rd_credentials :: "(RecordId, bytes) btree_map"
  rd_deliveries :: "delivery list"
  rd_sequence :: nat
  rd_access_roots :: "MailboxId list"
  rd_access_members :: "(MailboxId \<times> IdentityId) list"
  rd_copies :: "(MailboxId \<times> ObjectId, nat) btree_map"
  rd_pruned :: "(MailboxId \<times> ObjectId, nat) btree_map"
  rd_owners :: "(ObjectId \<times> IdentityId) list"
  rd_erased :: "(IdentityId, nat) btree_map"
  rd_bodies :: "(MailboxId \<times> ObjectId, body_row) btree_map"
  rd_locators :: "(MailboxId \<times> ObjectId, locator_row) btree_map"
  rd_requests :: "(MailboxId \<times> ObjectId \<times> IdentityId, request_row) btree_map"
  rd_acceptances :: "(MailboxId \<times> ObjectId \<times> IdentityId, acceptance_row) btree_map"
  rd_nonces :: "(RecordId \<times> string, nat) btree_map"
  rd_require_owner :: bool
  rd_complete :: bool
  rd_seed :: bytes
  rd_generation :: string

text \<open>The tables after the migrations of a new database, with its key and generation.\<close>

definition empty_replica :: "bytes \<Rightarrow> string \<Rightarrow> replica_db" where
  "empty_replica seed generation =
     \<lparr>rd_mailboxes = [], rd_delegations = [], rd_objects = [], rd_credentials = [], rd_deliveries = [], rd_sequence = 0,
      rd_access_roots = [], rd_access_members = [], rd_copies = [], rd_pruned = [], rd_owners = [], rd_erased = [],
      rd_bodies = [], rd_locators = [], rd_requests = [], rd_acceptances = [], rd_nonces = [], rd_require_owner = False,
      rd_complete = True, rd_seed = seed, rd_generation = generation\<rparr>"

subsection \<open>The mailbox forest\<close>

definition mailbox_parent :: "replica_db \<Rightarrow> MailboxId \<Rightarrow> MailboxId option" where
  "mailbox_parent db m = map_option dg_parent (bt_get (rd_delegations db) m)"

text \<open>
  The recursive query over the parents. It stops at a mailbox that has none; the fuel is the number
  of delegations, which no chain without repetition exceeds.
\<close>

fun chain :: "nat \<Rightarrow> (MailboxId \<Rightarrow> MailboxId option) \<Rightarrow> MailboxId \<Rightarrow> MailboxId list" where
  "chain 0 p m = [m]"
| "chain (Suc n) p m = m # (case p m of None \<Rightarrow> [] | Some q \<Rightarrow> chain n p q)"

definition ancestors :: "replica_db \<Rightarrow> MailboxId \<Rightarrow> MailboxId list" where
  "ancestors db m = chain (length (rd_delegations db)) (mailbox_parent db) m"

definition root_mailbox :: "replica_db \<Rightarrow> MailboxId \<Rightarrow> ReplicaError + MailboxId" where
  "root_mailbox db m = ok_or (List.find (\<lambda>a. mailbox_parent db a = None) (ancestors db m)) RE_Storage"

text \<open>The recursive query over the children, one generation at a time.\<close>

definition children :: "(MailboxId, delegation_row) btree_map \<Rightarrow> MailboxId list \<Rightarrow> MailboxId list" where
  "children ds ms = map fst (filter (\<lambda>e. dg_parent (snd e) \<in> set ms) ds)"

fun descend :: "nat \<Rightarrow> (MailboxId, delegation_row) btree_map \<Rightarrow> MailboxId list \<Rightarrow> MailboxId list" where
  "descend 0 ds ms = ms"
| "descend (Suc n) ds ms = ms @ (if ms = [] then [] else descend n ds (children ds ms))"

definition tree :: "replica_db \<Rightarrow> MailboxId \<Rightarrow> MailboxId list" where
  "tree db m = descend (length (rd_delegations db)) (rd_delegations db) [m]"

subsection \<open>Deleting rows\<close>

definition object_used :: "replica_db \<Rightarrow> ObjectId \<Rightarrow> bool" where
  "object_used db ob = list_ex (\<lambda>d. dl_object d = ob) (rd_deliveries db)"

text \<open>\<^verbatim>\<open>DELETE FROM deliveries WHERE\<close>, with the cascade to \<^verbatim>\<open>message_copies\<close>.\<close>

definition delete_deliveries :: "(delivery \<Rightarrow> bool) \<Rightarrow> replica_db \<Rightarrow> replica_db" where
  "delete_deliveries P db =
     db\<lparr>rd_deliveries := filter (\<lambda>d. \<not> P d) (rd_deliveries db),
        rd_copies := filter (\<lambda>((m, ob), t). \<not> list_ex (\<lambda>d. P d \<and> dl_mailbox d = m \<and> dl_object d = ob) (rd_deliveries db)) (rd_copies db)\<rparr>"

definition object_credential :: "stored_object \<Rightarrow> RecordId option" where
  "object_credential o' = map_option fst (so_packed o')"

text \<open>
  \<^verbatim>\<open>DELETE FROM objects WHERE ... AND NOT EXISTS(SELECT 1 FROM deliveries ...)\<close>, with the cascade to
  \<^verbatim>\<open>object_owners\<close> and the trigger that drops a credential with its last object.
\<close>

definition delete_orphans :: "(ObjectId \<Rightarrow> bool) \<Rightarrow> replica_db \<Rightarrow> replica_db" where
  "delete_orphans P db =
     (let gone = (\<lambda>ob. P ob \<and> \<not> object_used db ob);
          dropped = filter (\<lambda>e. gone (fst e)) (rd_objects db);
          kept = filter (\<lambda>e. \<not> gone (fst e)) (rd_objects db);
          uses = (\<lambda>os c. list_ex (\<lambda>e. object_credential (snd e) = Some c) os) in
      db\<lparr>rd_objects := kept,
         rd_owners := filter (\<lambda>(ob, i). \<not> list_ex (\<lambda>e. fst e = ob) dropped) (rd_owners db),
         rd_credentials := filter (\<lambda>(c, b). \<not> (uses dropped c \<and> \<not> uses kept c)) (rd_credentials db)\<rparr>)"

text \<open>\<^verbatim>\<open>DELETE FROM message_bodies WHERE\<close>, with the cascade to requests and acceptances.\<close>

definition delete_bodies :: "(MailboxId \<times> ObjectId \<Rightarrow> bool) \<Rightarrow> replica_db \<Rightarrow> replica_db" where
  "delete_bodies P db =
     db\<lparr>rd_bodies := filter (\<lambda>(k, r). \<not> P k) (rd_bodies db),
        rd_requests := filter (\<lambda>((m, ob, i), r). \<not> (P (m, ob) \<and> bt_contains (rd_bodies db) (m, ob))) (rd_requests db),
        rd_acceptances := filter (\<lambda>((m, ob, i), r). \<not> (P (m, ob) \<and> bt_contains (rd_bodies db) (m, ob))) (rd_acceptances db)\<rparr>"

text \<open>\<^verbatim>\<open>DELETE FROM mailboxes\<close> for each of the identifiers, with every cascade.\<close>

definition delete_mailboxes :: "MailboxId list \<Rightarrow> replica_db \<Rightarrow> replica_db" where
  "delete_mailboxes ids db =
     (let db1 = delete_bodies (\<lambda>(m, ob). m \<in> set ids) db in
      db1\<lparr>rd_mailboxes := filter (\<lambda>(m, r). m \<notin> set ids) (rd_mailboxes db),
          rd_access_roots := filter (\<lambda>m. m \<notin> set ids) (rd_access_roots db),
          rd_access_members := filter (\<lambda>(m, i). m \<notin> set ids) (rd_access_members db),
          rd_pruned := filter (\<lambda>((m, ob), t). m \<notin> set ids) (rd_pruned db),
          rd_locators := filter (\<lambda>((m, ob), r). m \<notin> set ids) (rd_locators db)\<rparr>)"

definition delete_tree_rows :: "MailboxId list \<Rightarrow> replica_db \<Rightarrow> replica_db" where
  "delete_tree_rows ids db =
     (let db1 = delete_deliveries (\<lambda>d. dl_mailbox d \<in> set ids) db;
          db2 = db1\<lparr>rd_delegations := filter (\<lambda>(m, r). m \<notin> set ids) (rd_delegations db1)\<rparr> in
      delete_mailboxes ids db2)"

subsection \<open>The store\<close>

record ReceiptBody =
  rt_v :: nat
  rt_kind :: string
  rt_peer_id :: PeerId
  rt_mailbox_id :: MailboxId
  rt_object_id :: ObjectId
  rt_size_bytes :: nat
  rt_arrival_seq :: nat
  rt_storage_generation :: string
  rt_storage_class :: string
  rt_retention :: string
  rt_nonce :: string
  rt_stored_local_ms :: nat

record PrunedBody =
  pb_v :: nat
  pb_kind :: string
  pb_peer_id :: PeerId
  pb_mailbox_id :: MailboxId
  pb_object_id :: ObjectId
  pb_pruned_local_ms :: nat

text \<open>The URL-safe base64 of the tokens and the serde derives of the two signed answers.\<close>

record replica_ext = content_ext +
  b64url_decode :: "string \<Rightarrow> bytes option"
  b64url_encode :: "bytes \<Rightarrow> string"
  ser_receipt :: "ReceiptBody \<Rightarrow> bytes"
  dec_receipt :: "json \<Rightarrow> ReceiptBody option"
  ser_pruned :: "PrunedBody \<Rightarrow> bytes"
  dec_pruned :: "json \<Rightarrow> PrunedBody option"

record ReplicaStore =
  rp_allowed :: "MessageRetention list"
  rp_admitted :: "RecordId btree_set"
  rp_revocations :: Revocations
  rp_db :: replica_db

definition peer_id :: "('z crypto_scheme) \<Rightarrow> bytes \<Rightarrow> PeerId" where
  "peer_id E key = sha256 E (ascii ''elo.now/peer-id/v1'' @ [0] @ key)"

definition replica_key :: "('z crypto_scheme) \<Rightarrow> replica_db \<Rightarrow> bytes" where
  "replica_key E db = ed_public E (rd_seed db)"

definition with_allowed_message_retentions :: "ReplicaStore \<Rightarrow> MessageRetention list \<Rightarrow> ReplicaError + ReplicaStore" where
  "with_allowed_message_retentions s policies =
     (if \<not> validate_allowed policies then Inl RE_Invalid else Inr (s\<lparr>rp_allowed := policies\<rparr>))"

definition require_active_device :: "('z identity_ext_scheme) \<Rightarrow> ReplicaStore \<Rightarrow> RecordId \<Rightarrow> ReplicaError + unit" where
  "require_active_device E s credential =
     bindr (map_err (\<lambda>_. RE_Storage) (Revocations_get E (rp_revocations s) credential)) (\<lambda>found.
     if found \<noteq> None then Inl RE_Unauthorized else Inr ())"

definition set_admitted_devices :: "ReplicaStore \<Rightarrow> RecordId list \<Rightarrow> ReplicaStore" where
  "set_admitted_devices s devices = s\<lparr>rp_admitted := bs_of_list devices\<rparr>"

definition require_admitted_companion :: "ReplicaStore \<Rightarrow> RecordId \<Rightarrow> ReplicaError + unit" where
  "require_admitted_companion s credential =
     (if credential \<in> set (rp_admitted s) then Inr () else Inl RE_Unauthorized)"

subsection \<open>Mailboxes and their capabilities\<close>

record MailboxDescriptor =
  md_mailbox_id :: MailboxId
  md_read_token :: string
  md_write_token :: string

record ChildMailbox =
  ch_descriptor :: MailboxDescriptor
  ch_quota_bytes :: nat
  ch_expires_at :: nat

definition token_hash :: "('z replica_ext_scheme) \<Rightarrow> string \<Rightarrow> ReplicaError + bytes" where
  "token_hash E token =
     bindr (ok_or (b64url_decode E token) RE_Unauthorized) (\<lambda>b.
     if length b \<noteq> 32 \<or> b64url_encode E b \<noteq> token then Inl RE_Unauthorized else Inr (sha256 E b))"

definition mailbox_authorize ::
  "('z replica_ext_scheme) \<Rightarrow> replica_db \<Rightarrow> MailboxId \<Rightarrow> string \<Rightarrow> bool \<Rightarrow> int \<Rightarrow> ReplicaError + unit" where
  "mailbox_authorize E db m token write clock =
     (if (case bt_get (rd_delegations db) m of
            None \<Rightarrow> False
          | Some d \<Rightarrow> (case replica_now clock of Inl _ \<Rightarrow> True | Inr n \<Rightarrow> dg_expires d \<le> n))
      then Inl RE_Unauthorized
      else
      bindr (token_hash E token) (\<lambda>actual.
      let expected = (case bt_get (rd_mailboxes db) m of
            None \<Rightarrow> replicate 32 0
          | Some r \<Rightarrow> if write then mb_write r else mb_read r) in
      if expected \<noteq> actual then Inl RE_Unauthorized else Inr ()))"

definition reserve_mailbox ::
  "('z replica_ext_scheme) \<Rightarrow> replica_db \<Rightarrow> MailboxDescriptor \<Rightarrow> nat \<Rightarrow> ReplicaError + replica_db" where
  "reserve_mailbox E db d quota =
     (if quota = 0 \<or> quota > MAX_INTEGER then Inl RE_Invalid
      else
      bindr (token_hash E (md_read_token d)) (\<lambda>read.
      bindr (token_hash E (md_write_token d)) (\<lambda>write.
      if read = write then Inl RE_Invalid
      else case bt_get (rd_mailboxes db) (md_mailbox_id d) of
        Some r \<Rightarrow> if mb_read r = read \<and> mb_write r = write \<and> mb_quota r = quota then Inr db else Inl RE_Conflict
      | None \<Rightarrow> Inr (db\<lparr>rd_mailboxes := bt_insert (md_mailbox_id d) \<lparr>mb_read = read, mb_write = write, mb_quota = quota\<rparr>
                                     (rd_mailboxes db)\<rparr>))))"

definition delete_mailbox_tree :: "replica_db \<Rightarrow> MailboxId \<Rightarrow> replica_db" where
  "delete_mailbox_tree db m = delete_orphans (\<lambda>_. True) (delete_tree_rows (tree db m) db)"

text \<open>The delegations that have ended, with everything below them.\<close>

definition expired_mailboxes :: "replica_db \<Rightarrow> nat \<Rightarrow> MailboxId list" where
  "expired_mailboxes db time =
     descend (length (rd_delegations db)) (rd_delegations db)
       (map fst (filter (\<lambda>e. dg_expires (snd e) \<le> time) (rd_delegations db)))"

definition release_expired :: "replica_db \<Rightarrow> nat \<Rightarrow> replica_db" where
  "release_expired db time =
     (let expired = expired_mailboxes db time; db1 = delete_tree_rows expired db in
      if expired = [] then db1 else delete_orphans (\<lambda>_. True) db1)"

definition child_budget :: "replica_db \<Rightarrow> ChildMailbox \<Rightarrow> MailboxId \<Rightarrow> ReplicaError + unit" where
  "child_budget db child ancestor =
     bindr (ok_or (bt_get (rd_mailboxes db) ancestor) RE_Storage) (\<lambda>r.
     if ch_quota_bytes child > mb_quota r
        \<or> (case bt_get (rd_delegations db) ancestor of None \<Rightarrow> False | Some d \<Rightarrow> ch_expires_at child > dg_expires d)
     then Inl RE_Quota
     else if length (tree db ancestor) - 1 \<ge> MAX_CHILD_MAILBOXES then Inl RE_Quota
     else Inr ())"

definition create_child ::
  "('z replica_ext_scheme) \<Rightarrow> replica_db \<Rightarrow> MailboxId \<Rightarrow> string \<Rightarrow> ChildMailbox \<Rightarrow> int \<Rightarrow> ReplicaError + replica_db" where
  "create_child E db parent token child clock =
     bindr (token_hash E (md_read_token (ch_descriptor child))) (\<lambda>read.
     bindr (token_hash E (md_write_token (ch_descriptor child))) (\<lambda>write.
     bindr (replica_now clock) (\<lambda>time.
     if read = write \<or> ch_quota_bytes child = 0 \<or> ch_quota_bytes child > MAX_INTEGER
        \<or> ch_expires_at child \<le> time \<or> ch_expires_at child > time + MAX_MAILBOX_LIFETIME_MS
     then Inl RE_Invalid
     else
     bindr (mailbox_authorize E db parent token True clock) (\<lambda>_.
     let db1 = release_expired db time; i = md_mailbox_id (ch_descriptor child) in
     if length (ancestors db1 parent) > 2 then Inl RE_Invalid
     else case (bt_get (rd_delegations db1) i, bt_get (rd_mailboxes db1) i) of
       (Some d, Some r) \<Rightarrow>
         if dg_parent d = parent \<and> mb_read r = read \<and> mb_write r = write \<and> mb_quota r = ch_quota_bytes child
            \<and> dg_expires d = ch_expires_at child
         then Inr db else Inl RE_Conflict
     | (_, existing) \<Rightarrow>
         bindr (check_all (child_budget db1 child) (ancestors db1 parent)) (\<lambda>_.
         if existing \<noteq> None then Inl RE_Conflict
         else if ch_expires_at child > MAX_INTEGER then Inl RE_Storage
         else Inr (db1\<lparr>rd_mailboxes := bt_insert i \<lparr>mb_read = read, mb_write = write, mb_quota = ch_quota_bytes child\<rparr> (rd_mailboxes db1),
                       rd_delegations := bt_insert i \<lparr>dg_parent = parent, dg_expires = ch_expires_at child\<rparr> (rd_delegations db1)\<rparr>))))))"

subsection \<open>Members of a hosted space\<close>

definition set_space_members :: "replica_db \<Rightarrow> MailboxId \<Rightarrow> IdentityId list \<Rightarrow> ReplicaError + replica_db" where
  "set_space_members db m ids =
     bindr (root_mailbox db m) (\<lambda>root.
     if \<not> bt_contains (rd_mailboxes db) m then Inl RE_Storage
     else
     let members = filter (\<lambda>(m', i). m' \<noteq> m) (rd_access_members db)
            @ map (Pair m) (remdups (filter (\<lambda>i. \<not> bt_contains (rd_erased db) i) ids)) in
     Inr (db\<lparr>rd_access_roots := List.insert m (rd_access_roots db),
             rd_access_members := members,
             rd_requests := filter (\<lambda>((r, ob, i), row). \<not> (r = root \<and> (root, i) \<notin> set members)) (rd_requests db),
             rd_acceptances := filter (\<lambda>((r, ob, i), row). \<not> (r = root \<and> (root, i) \<notin> set members)) (rd_acceptances db)\<rparr>))"

definition access_denied :: "replica_db \<Rightarrow> MailboxId \<Rightarrow> IdentityId option \<Rightarrow> bool" where
  "access_denied db m i =
     list_ex (\<lambda>a. a \<in> set (rd_access_roots db)
        \<and> \<not> (case i of None \<Rightarrow> False | Some j \<Rightarrow> (a, j) \<in> set (rd_access_members db))) (ancestors db m)"

definition authorize_identity :: "replica_db \<Rightarrow> MailboxId \<Rightarrow> IdentityId option \<Rightarrow> ReplicaError + unit" where
  "authorize_identity db m i = (if access_denied db m i then Inl RE_Unauthorized else Inr ())"

text \<open>\<^verbatim>\<open>retention::authorize_actor\<close>: a device that is not retired, of a member who was not erased.\<close>

definition authorize_actor ::
  "('z replica_ext_scheme) \<Rightarrow> Revocations \<Rightarrow> replica_db \<Rightarrow> MailboxId \<Rightarrow> Actor \<Rightarrow> int \<Rightarrow> ReplicaError + unit" where
  "authorize_actor E rv db m actor clock =
     bindr (map_err (\<lambda>_. RE_Storage) (Revocations_get E rv (at_credential actor))) (\<lambda>found.
     if found \<noteq> None then Inl RE_Unauthorized
     else
     bindr (replica_now clock) (\<lambda>time.
     if \<not> bt_contains (rd_mailboxes db) m
        \<or> access_denied db m (Some (at_identity actor))
        \<or> bt_contains (rd_erased db) (at_identity actor)
        \<or> list_ex (\<lambda>a. case bt_get (rd_delegations db) a of None \<Rightarrow> False | Some d \<Rightarrow> dg_expires d \<le> time) (ancestors db m)
     then Inl RE_Unauthorized else Inr ()))"

subsection \<open>Signed requests are used once\<close>

record VerifiedAccess =
  va_identity :: IdentityId
  va_credential :: RecordId
  va_companion :: bool
  va_nonce :: string
  va_expires :: nat

definition consume_access :: "replica_db \<Rightarrow> VerifiedAccess \<Rightarrow> int \<Rightarrow> ReplicaError + replica_db" where
  "consume_access db access clock =
     bindr (replica_now clock) (\<lambda>time.
     if va_expires access < time then Inl RE_Unauthorized
     else
     let live = filter (\<lambda>(k, e). \<not> e < time) (rd_nonces db); k = (va_credential access, va_nonce access) in
     if bt_contains live k then Inl RE_Unauthorized
     else if length live \<ge> 65536 \<or> length (filter (\<lambda>((c, n), e). c = va_credential access) live) \<ge> 4096
     then Inl RE_Quota
     else Inr (db\<lparr>rd_nonces := bt_insert k (va_expires access) live\<rparr>))"

subsection \<open>Account content\<close>

definition require_content_ownership :: "replica_db \<Rightarrow> replica_db" where
  "require_content_ownership db = db\<lparr>rd_require_owner := True\<rparr>"

definition has_account_content :: "replica_db \<Rightarrow> IdentityId \<Rightarrow> bool" where
  "has_account_content db i = list_ex (\<lambda>(ob, j). j = i) (rd_owners db)"

definition supports_account_erasure :: "replica_db \<Rightarrow> bool" where
  "supports_account_erasure db = rd_complete db"

definition root_mailboxes :: "replica_db \<Rightarrow> MailboxId list" where
  "root_mailboxes db = filter (\<lambda>m. bt_get (rd_delegations db) m = None) (bt_keys (rd_mailboxes db))"

text \<open>Insert-or-ignore of a row under each key.\<close>

definition insert_missing :: "'v \<Rightarrow> 'k :: linorder list \<Rightarrow> ('k, 'v) btree_map \<Rightarrow> ('k, 'v) btree_map" where
  "insert_missing v ks m = fold (\<lambda>k m. if bt_contains m k then m else bt_insert k v m) ks m"

definition erase_account_content ::
  "replica_db \<Rightarrow> MailboxId \<Rightarrow> IdentityId \<Rightarrow> int \<Rightarrow> ReplicaError + replica_db \<times> nat" where
  "erase_account_content db root i clock =
     (if \<not> rd_complete db then Inl RE_Invalid
      else if root_mailboxes db \<noteq> [root] then Inl RE_Invalid
      else
      bindr (replica_now clock) (\<lambda>time.
      let owned = map fst (filter (\<lambda>(ob, j). j = i) (rd_owners db));
          db1 = db\<lparr>rd_erased := insert_missing time [i] (rd_erased db),
                   rd_pruned := insert_missing time (map (Pair root) owned) (rd_pruned db)\<rparr>;
          db2 = delete_orphans (\<lambda>_. True) (delete_deliveries (\<lambda>d. dl_object d \<in> set owned) db1) in
      Inr (db2\<lparr>rd_access_members := filter (\<lambda>(m, j). j \<noteq> i) (rd_access_members db2),
               rd_requests := filter (\<lambda>((m, ob, j), r). j \<noteq> i) (rd_requests db2),
               rd_acceptances := filter (\<lambda>((m, ob, j), r). j \<noteq> i) (rd_acceptances db2)\<rparr>,
           length (filter (\<lambda>d. dl_object d \<in> set owned) (rd_deliveries db)))))"

subsection \<open>Packing\<close>

text \<open>\<^verbatim>\<open>proof.windows(n).position(|part| part == field)\<close>\<close>

definition find_part :: "bytes \<Rightarrow> bytes \<Rightarrow> nat option" where
  "find_part b part = List.find (\<lambda>i. take (length part) (drop i b) = part) [0..<length b + 1 - length part]"

definition CREDENTIAL_FIELD :: bytes where "CREDENTIAL_FIELD = ascii ''\"credential\":\"''"

definition pack :: "('z replica_ext_scheme) \<Rightarrow> bytes \<Rightarrow> Content \<Rightarrow> (RecordId \<times> bytes \<times> nat) option" where
  "pack E b content =
     (let encoded = ascii (b64_encode E (rec_bytes (vc_record (ct_credential content))));
          field = CREDENTIAL_FIELD @ encoded @ ascii ''\"'';
          proof = take (length b - length (ct_ciphertext content)) b in
      map_option (\<lambda>i. (credential_id E (ct_credential content), encoded, i + length CREDENTIAL_FIELD)) (find_part proof field))"

definition packing_insert ::
  "('z replica_ext_scheme) \<Rightarrow> replica_db \<Rightarrow> ObjectId \<Rightarrow> bytes \<Rightarrow> Content option \<Rightarrow> nat \<Rightarrow> ReplicaError + replica_db" where
  "packing_insert E db ob b content time =
     (if bt_contains (rd_objects db) ob then Inr db
      else case Option.bind content (pack E b) of
        Some (c, encoded, offset) \<Rightarrow>
          let creds = (if bt_contains (rd_credentials db) c \<or> length c \<noteq> 32 \<or> encoded = [] \<or> length encoded > 131072
                then rd_credentials db else bt_insert c encoded (rd_credentials db)) in
          bindr (ok_or (bt_get creds c) RE_Storage) (\<lambda>stored.
          if stored \<noteq> encoded then Inl RE_Conflict
          else Inr (db\<lparr>rd_credentials := creds,
                       rd_objects := bt_insert ob \<lparr>so_ciphertext = take offset b @ drop (offset + length encoded) b,
                         so_stored = time, so_packed = Some (c, offset, length b)\<rparr> (rd_objects db)\<rparr>))
      | None \<Rightarrow>
          Inr (db\<lparr>rd_objects := bt_insert ob \<lparr>so_ciphertext = b, so_stored = time, so_packed = None\<rparr> (rd_objects db)\<rparr>))"

definition wire_size :: "stored_object \<Rightarrow> nat" where
  "wire_size o' = (case so_packed o' of None \<Rightarrow> length (so_ciphertext o') | Some (c, offset, wire) \<Rightarrow> wire)"

definition unpack :: "replica_db \<Rightarrow> stored_object \<Rightarrow> bytes option" where
  "unpack db o' =
     (case so_packed o' of
        None \<Rightarrow> Some (so_ciphertext o')
      | Some (c, offset, wire) \<Rightarrow>
          (case bt_get (rd_credentials db) c of
             None \<Rightarrow> None
           | Some encoded \<Rightarrow>
               if offset \<le> length (so_ciphertext o') \<and> length (so_ciphertext o') + length encoded \<le> MAX_CIPHERTEXT
               then Some (take offset (so_ciphertext o') @ encoded @ drop offset (so_ciphertext o'))
               else None))"

definition packing_load :: "('z replica_ext_scheme) \<Rightarrow> replica_db \<Rightarrow> ObjectId \<Rightarrow> ReplicaError + bytes" where
  "packing_load E db ob =
     bindr (ok_or (bt_get (rd_objects db) ob) RE_NotFound) (\<lambda>o'.
     bindr (ok_or (unpack db o') RE_Storage) (\<lambda>b.
     if length b \<noteq> wire_size o' \<or> of_ciphertext E b \<noteq> ob then Inl RE_Storage else Inr b))"

end
