(* ===== verification/Replica_Retention.thy ===== *)
theory Replica_Retention
  imports Replica_Store
begin

text \<open>
  \<^verbatim>\<open>crates/elo-core/src/replica/retention.rs\<close>: how long the server keeps an encrypted message body,
  when a member may have it sent again, and the owner's cleanup of old copies. A body row outlives
  its bytes; the locator that announces the body outlives both. Statements outside a transaction
  take effect even when the operation then fails, so these operations return the tables they leave
  behind together with their result.
\<close>

definition LOCATOR_LIFETIME_MS :: nat where "LOCATOR_LIFETIME_MS = 30 * 24 * 60 * 60 * 1000"
definition REQUEST_LIFETIME_MS :: nat where "REQUEST_LIFETIME_MS = 5 * 60 * 1000"
definition ACCEPTANCE_LIFETIME_MS :: nat where "ACCEPTANCE_LIFETIME_MS = 24 * 60 * 60 * 1000"

subsection \<open>Classification of an upload\<close>

datatype UploadRetention =
    Retain
  | LegacyMessage
  | UR_Body (ur_nonce: string) (ur_record: RecordId) (ur_lifetime: MessageRetention) (ur_issuer: IdentityId)
      (ur_direct_peer: "IdentityId option") (ur_request_key: string) (ur_accept_key: "string option")
  | UR_Locator (ur_nonce: string) (ur_body: ObjectId) (ur_record: RecordId) (ur_lifetime: MessageRetention)
      (ur_issuer: IdentityId) (ur_request_key: string)

definition retention_policy :: "UploadRetention \<Rightarrow> MessageRetention option" where
  "retention_policy r =
     (case r of UR_Body _ _ l _ _ _ _ \<Rightarrow> Some l | UR_Locator _ _ _ l _ _ \<Rightarrow> Some l | _ \<Rightarrow> None)"

definition classify :: "Content option \<Rightarrow> bool \<Rightarrow> UploadRetention" where
  "classify content legacy_message =
     (case content of
        None \<Rightarrow> if legacy_message then LegacyMessage else Retain
      | Some c \<Rightarrow>
          (case ct_retention c of
             Some (MessageBody n r l p k a) \<Rightarrow> UR_Body n r l (identity (ct_credential c)) p k a
           | Some (MessageLocator_claim n b r l k) \<Rightarrow> UR_Locator n b r l (identity (ct_credential c)) k
           | None \<Rightarrow> if legacy_message then LegacyMessage else Retain))"

subsection \<open>Expiry\<close>

definition in_tree :: "replica_db \<Rightarrow> MailboxId \<Rightarrow> delivery \<Rightarrow> bool" where
  "in_tree db root d \<longleftrightarrow> dl_mailbox d \<in> set (tree db root)"

definition expire_row :: "nat \<Rightarrow> body_row \<Rightarrow> body_row" where
  "expire_row time r =
     r\<lparr>by_expired := (case by_expired r of None \<Rightarrow> Some time | Some t \<Rightarrow> Some t), by_refill := None\<rparr>"

definition remove_body :: "replica_db \<Rightarrow> MailboxId \<Rightarrow> ObjectId \<Rightarrow> nat \<Rightarrow> replica_db" where
  "remove_body db root ob time =
     (let db1 = delete_deliveries (\<lambda>d. dl_object d = ob \<and> in_tree db root d) db;
          db2 = db1\<lparr>rd_bodies := bt_modify (root, ob) (expire_row time) (rd_bodies db1)\<rparr> in
      delete_orphans (\<lambda>x. x = ob) db2)"

definition body_due :: "nat \<Rightarrow> body_row \<Rightarrow> bool" where
  "body_due time r \<longleftrightarrow>
     by_expired r = None
     \<and> ((case by_expires r of None \<Rightarrow> False | Some e \<Rightarrow> e \<le> time) \<or> (case by_refill r of None \<Rightarrow> False | Some e \<Rightarrow> e \<le> time))"

definition locator_due :: "nat \<Rightarrow> locator_row \<Rightarrow> bool" where
  "locator_due time r \<longleftrightarrow> (case lo_expires r of None \<Rightarrow> False | Some e \<Rightarrow> e \<le> time)"

definition remove_locator :: "replica_db \<Rightarrow> MailboxId \<Rightarrow> ObjectId \<Rightarrow> ObjectId \<Rightarrow> replica_db" where
  "remove_locator db root ob body =
     (let db1 = delete_deliveries (\<lambda>d. dl_object d = ob \<and> in_tree db root d) db;
          db2 = db1\<lparr>rd_locators := bt_remove (root, ob) (rd_locators db1)\<rparr>;
          db3 = delete_bodies (\<lambda>k. k = (root, body)) db2 in
      delete_orphans (\<lambda>x. x = ob) db3)"

definition sweep_bodies :: "replica_db \<Rightarrow> nat \<Rightarrow> replica_db" where
  "sweep_bodies db time =
     fold (\<lambda>((root, ob), r) db. remove_body db root ob time) (filter (\<lambda>(k, r). body_due time r) (rd_bodies db)) db"

definition sweep_locators :: "replica_db \<Rightarrow> nat \<Rightarrow> replica_db" where
  "sweep_locators db time =
     fold (\<lambda>((root, ob), r) db. remove_locator db root ob (lo_body r)) (filter (\<lambda>(k, r). locator_due time r) (rd_locators db)) db"

definition sweep :: "replica_db \<Rightarrow> nat \<Rightarrow> replica_db" where
  "sweep db time =
     (let db2 = sweep_locators (sweep_bodies db time) time in
      db2\<lparr>rd_requests := filter (\<lambda>(k, r). \<not> rq_proof_expires r \<le> time) (rd_requests db2),
          rd_acceptances := filter (\<lambda>(k, r). \<not> ac_expires r \<le> time) (rd_acceptances db2)\<rparr>)"

subsection \<open>Open requests\<close>

text \<open>Requests whose requester may no longer act are dropped on the way.\<close>

fun window_rows ::
  "('z replica_ext_scheme) \<Rightarrow> Revocations \<Rightarrow> MailboxId \<Rightarrow> int \<Rightarrow>
     ((MailboxId \<times> ObjectId \<times> IdentityId) \<times> request_row) list \<Rightarrow> nat option \<Rightarrow> replica_db
     \<Rightarrow> replica_db \<times> (ReplicaError + nat option)" where
  "window_rows E rv m clock [] expiry db = (db, Inr expiry)"
| "window_rows E rv m clock (((root, ob, i), r) # rows) expiry db =
     (case authorize_actor E rv db m \<lparr>at_identity = i, at_credential = rq_credential r\<rparr> clock of
        Inr _ \<Rightarrow> window_rows E rv m clock rows
           (Some (case expiry of None \<Rightarrow> rq_expires r | Some old \<Rightarrow> max old (rq_expires r))) db
      | Inl RE_Unauthorized \<Rightarrow>
          window_rows E rv m clock rows expiry (db\<lparr>rd_requests := bt_remove (root, ob, i) (rd_requests db)\<rparr>)
      | Inl e \<Rightarrow> (db, Inl e))"

definition valid_window ::
  "('z replica_ext_scheme) \<Rightarrow> Revocations \<Rightarrow> replica_db \<Rightarrow> MailboxId \<Rightarrow> MailboxId \<Rightarrow> ObjectId \<Rightarrow> nat \<Rightarrow> int
     \<Rightarrow> replica_db \<times> (ReplicaError + nat option)" where
  "valid_window E rv db m root ob time clock =
     window_rows E rv m clock (filter (\<lambda>((r', ob', i), r). r' = root \<and> ob' = ob \<and> rq_expires r > time) (rd_requests db)) None db"

fun active_objects ::
  "('z replica_ext_scheme) \<Rightarrow> Revocations \<Rightarrow> MailboxId \<Rightarrow> MailboxId \<Rightarrow> nat \<Rightarrow> int \<Rightarrow> ObjectId list \<Rightarrow> replica_db
     \<Rightarrow> replica_db \<times> (ReplicaError + ObjectId list)" where
  "active_objects E rv m root time clock [] db = (db, Inr [])"
| "active_objects E rv m root time clock (ob # obs) db =
     bindst (valid_window E rv db m root ob time clock) (\<lambda>db1 window.
     bindst (active_objects E rv m root time clock obs db1) (\<lambda>db2 rest.
     (db2, Inr (if window = None then rest else ob # rest))))"

definition active_requests ::
  "('z replica_ext_scheme) \<Rightarrow> Revocations \<Rightarrow> replica_db \<Rightarrow> MailboxId \<Rightarrow> nat \<Rightarrow> int
     \<Rightarrow> replica_db \<times> (ReplicaError + ObjectId list)" where
  "active_requests E rv db m time clock =
     bindst (db, root_mailbox db m) (\<lambda>db root.
     let objects = take 128 (bs_of_list (map (\<lambda>((r', ob, i), r). ob)
           (filter (\<lambda>((r', ob, i), r). r' = root \<and> rq_expires r > time) (rd_requests db)))) in
     active_objects E rv m root time clock objects db)"

subsection \<open>Uploads\<close>

definition locator_for :: "replica_db \<Rightarrow> MailboxId \<Rightarrow> ObjectId \<Rightarrow> nat \<Rightarrow> locator_row option" where
  "locator_for db root body time =
     map_option snd (List.find (\<lambda>((r', ob), l). r' = root \<and> lo_body l = body
        \<and> (case lo_expires l of None \<Rightarrow> True | Some e \<Rightarrow> e > time)) (rd_locators db))"

definition check_upload ::
  "('z replica_ext_scheme) \<Rightarrow> Revocations \<Rightarrow> replica_db \<Rightarrow> MailboxId \<Rightarrow> ObjectId \<Rightarrow> UploadRetention \<Rightarrow> IdentityId option
     \<Rightarrow> nat \<Rightarrow> int \<Rightarrow> replica_db \<times> (ReplicaError + unit)" where
  "check_upload E rv db m ob retention actor time clock =
     bindst (db, root_mailbox db m) (\<lambda>db root.
     case retention of
       UR_Locator _ _ _ _ issuer request_key \<Rightarrow>
         (db, if request_key = [] then Inl RE_Invalid else if actor \<noteq> Some issuer then Inl RE_Unauthorized else Inr ())
     | UR_Body nonce record' lifetime issuer direct_peer request_key _ \<Rightarrow>
         if actor = None then (db, Inl RE_Unauthorized)
         else if request_key = [] then (db, Inl RE_Invalid)
         else (case bt_get (rd_bodies db) (root, ob) of
           Some p \<Rightarrow>
             if by_nonce p \<noteq> nonce \<or> by_record p \<noteq> record' \<or> by_policy p \<noteq> lifetime \<or> by_issuer p \<noteq> issuer
                \<or> by_direct_peer p \<noteq> direct_peer
             then (db, Inl RE_Conflict)
             else if by_expired p = None then (db, Inr ())
             else
             bindst (valid_window E rv db m root ob time clock) (\<lambda>db1 window.
             (db1, if window = None then Inl RE_Expired else Inr ()))
         | None \<Rightarrow>
             (db, if actor \<noteq> Some issuer then Inl RE_Unauthorized
                  else case locator_for db root ob time of
                    None \<Rightarrow> Inl RE_Invalid
                  | Some l \<Rightarrow>
                      if lo_nonce l = nonce \<and> lo_record l = record' \<and> lo_policy l = lifetime \<and> lo_request_key l = Some request_key
                      then Inr () else Inl RE_Invalid))
     | _ \<Rightarrow> (db, Inr ()))"

text \<open>The UNIQUE constraints of the two tables refuse a second row for the same message.\<close>

definition locator_clash :: "replica_db \<Rightarrow> MailboxId \<Rightarrow> ObjectId \<Rightarrow> RecordId \<Rightarrow> bool" where
  "locator_clash db root body record' =
     list_ex (\<lambda>((r', ob), l). r' = root \<and> (lo_body l = body \<or> lo_record l = record')) (rd_locators db)"

definition body_clash :: "replica_db \<Rightarrow> MailboxId \<Rightarrow> ObjectId \<Rightarrow> RecordId \<Rightarrow> bool" where
  "body_clash db root ob record' =
     list_ex (\<lambda>((r', ob'), b). r' = root \<and> ob' \<noteq> ob \<and> by_record b = record') (rd_bodies db)"

text \<open>The latest end of an open window, as \<^verbatim>\<open>SELECT MAX(...)\<close>: an error when there is none.\<close>

definition latest_window :: "replica_db \<Rightarrow> MailboxId \<Rightarrow> ObjectId \<Rightarrow> nat \<Rightarrow> ReplicaError + nat" where
  "latest_window db root ob time =
     (let ends = map (\<lambda>(k, r). rq_expires r)
        (filter (\<lambda>((r', ob', i), r). r' = root \<and> ob' = ob \<and> rq_expires r > time) (rd_requests db)) in
      if ends = [] then Inl RE_Storage else Inr (Max (set ends)))"

definition record_body ::
  "replica_db \<Rightarrow> MailboxId \<Rightarrow> ObjectId \<Rightarrow> UploadRetention \<Rightarrow> nat \<Rightarrow> ReplicaError + replica_db" where
  "record_body db root ob retention time =
     (case bt_get (rd_bodies db) (root, ob) of
        Some p \<Rightarrow>
          bindr (case by_expired p of
                   None \<Rightarrow> Inr (by_expires p, by_refill p)
                 | Some _ \<Rightarrow>
                     bindr (latest_window db root ob time) (\<lambda>w.
                     Inr (map_option (\<lambda>_. w) (retention_seconds (ur_lifetime retention)), Some w))) (\<lambda>(expiry, refill).
          if (case expiry of None \<Rightarrow> False | Some e \<Rightarrow> e < by_received p) \<or> (case refill of None \<Rightarrow> False | Some e \<Rightarrow> e < by_received p)
          then Inl RE_Storage
          else Inr (db\<lparr>rd_bodies := bt_insert (root, ob) (p\<lparr>by_expires := expiry, by_expired := None, by_refill := refill\<rparr>) (rd_bodies db)\<rparr>))
      | None \<Rightarrow>
          if body_clash db root ob (ur_record retention) then Inl RE_Storage
          else Inr (db\<lparr>rd_bodies := bt_insert (root, ob)
                 \<lparr>by_record = ur_record retention, by_nonce = ur_nonce retention, by_issuer = ur_issuer retention,
                  by_direct_peer = ur_direct_peer retention, by_policy = ur_lifetime retention, by_received = time,
                  by_expires = map_option (\<lambda>s. saturating_add time (s * 1000)) (retention_seconds (ur_lifetime retention)),
                  by_expired = None, by_refill = None, by_request_key = Some (ur_request_key retention),
                  by_accept_key = ur_accept_key retention\<rparr> (rd_bodies db)\<rparr>))"

definition record_upload ::
  "replica_db \<Rightarrow> MailboxId \<Rightarrow> ObjectId \<Rightarrow> UploadRetention \<Rightarrow> nat \<Rightarrow> ReplicaError + replica_db" where
  "record_upload db m ob retention time =
     bindr (root_mailbox db m) (\<lambda>root.
     case retention of
       UR_Locator nonce body record' lifetime issuer request_key \<Rightarrow>
         if bt_contains (rd_locators db) (root, ob) then Inr db
         else if locator_clash db root body record' then Inl RE_Storage
         else Inr (db\<lparr>rd_locators := bt_insert (root, ob)
                \<lparr>lo_body = body, lo_record = record', lo_nonce = nonce, lo_policy = lifetime, lo_received = time,
                 lo_expires = map_option (\<lambda>_. saturating_add time LOCATOR_LIFETIME_MS) (retention_seconds lifetime),
                 lo_request_key = Some request_key\<rparr> (rd_locators db)\<rparr>)
     | UR_Body _ _ _ _ _ _ _ \<Rightarrow> record_body db root ob retention time
     | LegacyMessage \<Rightarrow> Inr (db\<lparr>rd_copies := insert_missing time [(m, ob)] (rd_copies db)\<rparr>)
     | Retain \<Rightarrow> Inr db)"

subsection \<open>Usage\<close>

definition metadata_usage :: "replica_db \<Rightarrow> MailboxId \<Rightarrow> nat" where
  "metadata_usage db root =
     (length (filter (\<lambda>(k, r). fst k = root) (rd_bodies db)) + length (filter (\<lambda>(k, r). fst k = root) (rd_locators db))
      + length (filter (\<lambda>(k, r). fst k = root) (rd_requests db)) + length (filter (\<lambda>(k, r). fst k = root) (rd_acceptances db)))
     * METADATA_BYTES"

definition metadata_delta :: "replica_db \<Rightarrow> MailboxId \<Rightarrow> ObjectId \<Rightarrow> UploadRetention \<Rightarrow> nat" where
  "metadata_delta db root ob retention =
     (case retention of
        UR_Body _ _ _ _ _ _ _ \<Rightarrow> if bt_contains (rd_bodies db) (root, ob) then 0 else METADATA_BYTES
      | UR_Locator _ _ _ _ _ _ \<Rightarrow> if bt_contains (rd_locators db) (root, ob) then 0 else METADATA_BYTES
      | _ \<Rightarrow> 0)"

definition delivery_size :: "replica_db \<Rightarrow> delivery \<Rightarrow> nat" where
  "delivery_size db d = (case bt_get (rd_objects db) (dl_object d) of None \<Rightarrow> 0 | Some o' \<Rightarrow> wire_size o')"

definition retained_usage :: "replica_db \<Rightarrow> MailboxId \<Rightarrow> nat" where
  "retained_usage db root = sum_list (map (delivery_size db) (filter (in_tree db root) (rd_deliveries db)))"

definition ensure_metadata_room :: "replica_db \<Rightarrow> MailboxId \<Rightarrow> nat \<Rightarrow> ReplicaError + unit" where
  "ensure_metadata_room db root delta =
     (if delta = 0 then Inr ()
      else
      bindr (ok_or (bt_get (rd_mailboxes db) root) RE_Storage) (\<lambda>r.
      if int delta > int (mb_quota r) - int (retained_usage db root + metadata_usage db root) then Inl RE_Quota else Inr ()))"

subsection \<open>Pruned objects\<close>

text \<open>A signed refusal to keep an object the owner removed, in the scope of any mailbox above.\<close>

definition pruned_body :: "('z replica_ext_scheme) \<Rightarrow> replica_db \<Rightarrow> MailboxId \<Rightarrow> ObjectId \<Rightarrow> nat \<Rightarrow> PrunedBody" where
  "pruned_body E db m ob t =
     \<lparr>pb_v = 1, pb_kind = ''storage.pruned'', pb_peer_id = peer_id E (replica_key E db), pb_mailbox_id = m, pb_object_id = ob,
      pb_pruned_local_ms = t\<rparr>"

definition check_pruned :: "('z replica_ext_scheme) \<Rightarrow> replica_db \<Rightarrow> MailboxId \<Rightarrow> ObjectId \<Rightarrow> ReplicaError + unit" where
  "check_pruned E db m ob =
     (case List.find (\<lambda>((r', ob'), t). r' \<in> set (ancestors db m) \<and> ob' = ob) (rd_pruned db) of
        None \<Rightarrow> Inr ()
      | Some (k, t) \<Rightarrow>
          (case sign E (ser_pruned E (pruned_body E db m ob t)) (rd_seed db) of
             Inl _ \<Rightarrow> Inl RE_Storage
           | Inr r \<Rightarrow> Inl (RE_Pruned (rec_bytes r))))"

definition VerifiedPruned_verify ::
  "('z replica_ext_scheme) \<Rightarrow> bytes \<Rightarrow> bytes \<Rightarrow> MailboxId \<Rightarrow> ObjectId \<Rightarrow> ReplicaError + PrunedBody" where
  "VerifiedPruned_verify E b key m ob =
     bindr (map_err (\<lambda>_. RE_Invalid) (parse E b)) (\<lambda>r.
     bindr (map_err (\<lambda>_. RE_Invalid) (verify_signature E r key)) (\<lambda>_.
     bindr (map_err (\<lambda>_. RE_Invalid) (decode_with (dec_pruned E) r)) (\<lambda>body.
     if pb_v body \<noteq> 1 \<or> pb_kind body \<noteq> ''storage.pruned'' \<or> pb_peer_id body \<noteq> peer_id E key \<or> pb_mailbox_id body \<noteq> m
        \<or> pb_object_id body \<noteq> ob \<or> pb_pruned_local_ms body > MAX_INTEGER
     then Inl RE_Invalid else Inr body)))"

end
