(* ===== verification/Replica_Objects.thy ===== *)
theory Replica_Objects
  imports Replica_Retention
begin

text \<open>
  \<^verbatim>\<open>crates/elo-core/src/replica.rs\<close> and \<^verbatim>\<open>replica/retention.rs\<close>: the requests of clients. An upload
  that is answered with a signed receipt, a download, a page of the inventory, a request to have an
  expired body sent again, the direct recipient's acceptance, and the owner's cleanup.
\<close>

subsection \<open>Uploads\<close>

definition upload_subjects ::
  "replica_db \<Rightarrow> MailboxId \<Rightarrow> Content option \<Rightarrow> Actor option \<Rightarrow> ReplicaError + IdentityId list" where
  "upload_subjects db m content actor =
     (let subjects = (case content of None \<Rightarrow> [] | Some c \<Rightarrow> ct_subjects c) in
      if subjects = [] \<and> rd_require_owner db then
        if bt_get (rd_delegations db) m = None then Inl RE_Invalid
        else bindr (ok_or (map_option at_identity actor) RE_Unauthorized) (\<lambda>i. Inr [i])
      else Inr subjects)"

text \<open>The byte and metadata budget of one mailbox above the upload.\<close>

definition upload_budget ::
  "replica_db \<Rightarrow> MailboxId \<Rightarrow> nat \<Rightarrow> nat \<Rightarrow> MailboxId \<Rightarrow> ReplicaError + unit" where
  "upload_budget db root delta len a =
     bindr (ok_or (bt_get (rd_mailboxes db) a) RE_Storage) (\<lambda>r.
     let used = retained_usage db a + metadata_usage db a; extra = (if a = root then delta else 0) in
     if int (len + extra) > int (mb_quota r) - int used then Inl RE_Quota else Inr ())"

definition insert_delivery :: "replica_db \<Rightarrow> MailboxId \<Rightarrow> ObjectId \<Rightarrow> TransferHint \<Rightarrow> ReplicaError + replica_db \<times> nat" where
  "insert_delivery db m ob hint =
     (let n = rd_sequence db + 1 in
      if n > MAX_INTEGER then Inl RE_Storage
      else Inr (db\<lparr>rd_deliveries := rd_deliveries db @ [\<lparr>dl_seq = n, dl_mailbox = m, dl_object = ob, dl_hint = hint\<rparr>],
                   rd_sequence := n\<rparr>, n))"

definition find_delivery :: "replica_db \<Rightarrow> MailboxId \<Rightarrow> ObjectId \<Rightarrow> delivery option" where
  "find_delivery db m ob = List.find (\<lambda>d. dl_mailbox d = m \<and> dl_object d = ob) (rd_deliveries db)"

text \<open>The transaction of an upload: the delivery that exists already, or a new one.\<close>

definition store_upload ::
  "('z replica_ext_scheme) \<Rightarrow> replica_db \<Rightarrow> MailboxId \<Rightarrow> ObjectId \<Rightarrow> bytes \<Rightarrow> TransferHint \<Rightarrow> bool \<Rightarrow> Content option
     \<Rightarrow> UploadRetention \<Rightarrow> IdentityId list \<Rightarrow> nat \<Rightarrow> ReplicaError + replica_db \<times> bool \<times> nat" where
  "store_upload E db m ob b hint message content retention subjects time =
     bindr (root_mailbox db m) (\<lambda>root.
     case find_delivery db m ob of
       Some d \<Rightarrow>
         bindr (packing_load E db ob) (\<lambda>stored.
         if stored \<noteq> b \<or> dl_hint d \<noteq> hint then Inl RE_Conflict else Inr (db, False, dl_seq d))
     | None \<Rightarrow>
         bindr (check_all (upload_budget db root (metadata_delta db root ob retention) (length b)) (ancestors db m)) (\<lambda>_.
         bindr (packing_insert E db ob b content time) (\<lambda>db1.
         let db2 = db1\<lparr>rd_owners := fold (\<lambda>i os. List.insert (ob, i) os) subjects (rd_owners db1),
                        rd_complete := (rd_complete db1 \<and> \<not> (message \<and> subjects = []))\<rparr> in
         bindr (packing_load E db2 ob) (\<lambda>stored.
         if stored \<noteq> b then Inl RE_Conflict
         else
         bindr (insert_delivery db2 m ob hint) (\<lambda>(db3, n).
         bindr (record_upload db3 m ob retention time) (\<lambda>db4.
         Inr (db4, True, n)))))))"

definition receipt_retention :: "UploadRetention \<Rightarrow> string" where
  "receipt_retention r =
     (case r of
        UR_Body _ _ l _ _ _ _ \<Rightarrow> if retention_seconds l = None then ''message-no-expiry'' else ''message-body-ttl''
      | UR_Locator _ _ _ l _ _ \<Rightarrow> if retention_seconds l = None then ''message-no-expiry'' else ''message-locator-30d''
      | _ \<Rightarrow> ''manual-no-auto-gc'')"

definition storage_receipt_body ::
  "('z replica_ext_scheme) \<Rightarrow> replica_db \<Rightarrow> MailboxId \<Rightarrow> ObjectId \<Rightarrow> nat \<Rightarrow> nat \<Rightarrow> string \<Rightarrow> string \<Rightarrow> ReceiptBody" where
  "storage_receipt_body E db m ob len n policy nonce =
     \<lparr>rt_v = 1, rt_kind = ''storage.receipt'', rt_peer_id = peer_id E (replica_key E db), rt_mailbox_id = m, rt_object_id = ob,
      rt_size_bytes = len, rt_arrival_seq = n, rt_storage_generation = rd_generation db, rt_storage_class = ''sqlite-wal-full'',
      rt_retention = policy, rt_nonce = nonce,
      rt_stored_local_ms = (case bt_get (rd_objects db) ob of None \<Rightarrow> 0 | Some o' \<Rightarrow> so_stored o')\<rparr>"

definition post_inner ::
  "('z replica_ext_scheme) \<Rightarrow> ReplicaStore \<Rightarrow> MailboxId \<Rightarrow> string \<Rightarrow> ObjectId \<Rightarrow> bytes \<Rightarrow> TransferHint \<Rightarrow> bool \<Rightarrow> Actor option
     \<Rightarrow> int \<Rightarrow> bytes option \<Rightarrow> replica_db \<times> (ReplicaError + bool \<times> bytes)" where
  "post_inner E s m token ob b hint message actor clock rnd =
     (let db = rp_db s; rv = rp_revocations s in
      bindst (db, mailbox_authorize E db m token True clock) (\<lambda>db _.
      bindst (db, case actor of None \<Rightarrow> Inr () | Some a \<Rightarrow> authorize_actor E rv db m a clock) (\<lambda>db _.
      bindst (db, if b = [] \<or> length b > MAX_CIPHERTEXT \<or> of_ciphertext E b \<noteq> ob then Inl RE_Invalid else Inr ()) (\<lambda>db _.
      bindst (db, replica_now clock) (\<lambda>db time.
      let db = sweep db time in
      bindst (db, check_pruned E db m ob) (\<lambda>db _.
      bindst (db, map_err (\<lambda>_. RE_Invalid) (inspect E b)) (\<lambda>db content.
      let retention = classify content message in
      bindst (db, case retention_policy retention of
          None \<Rightarrow> Inr () | Some p \<Rightarrow> if p \<notin> set (rp_allowed s) then Inl RE_Invalid else Inr ()) (\<lambda>db _.
      bindst (check_upload E rv db m ob retention (map_option at_identity actor) time clock) (\<lambda>db _.
      bindst (db, upload_subjects db m content actor) (\<lambda>db subjects.
      bindst (db, if list_ex (bt_contains (rd_erased db)) subjects then Inl RE_Unauthorized else Inr ()) (\<lambda>db _.
      case store_upload E db m ob b hint message content retention subjects time of
        Inl e \<Rightarrow> (db, Inl e)
      | Inr (db, inserted, n) \<Rightarrow>
          bindst (db, map_err (\<lambda>_. RE_Storage) (random_hex rnd)) (\<lambda>db nonce.
          bindst (db, map_err (\<lambda>_. RE_Storage)
              (sign E (ser_receipt E (storage_receipt_body E db m ob (length b) n (receipt_retention retention) nonce)) (rd_seed db))) (\<lambda>db r.
          (db, Inr (inserted, rec_bytes r)))))))))))))))"

definition post_classified ::
  "('z replica_ext_scheme) \<Rightarrow> ReplicaStore \<Rightarrow> MailboxId \<Rightarrow> string \<Rightarrow> ObjectId \<Rightarrow> bytes \<Rightarrow> TransferHint \<Rightarrow> bool
     \<Rightarrow> int \<Rightarrow> bytes option \<Rightarrow> replica_db \<times> (ReplicaError + bool \<times> bytes)" where
  "post_classified E s m token ob b hint message clock rnd = post_inner E s m token ob b hint message None clock rnd"

definition post ::
  "('z replica_ext_scheme) \<Rightarrow> ReplicaStore \<Rightarrow> MailboxId \<Rightarrow> string \<Rightarrow> ObjectId \<Rightarrow> bytes \<Rightarrow> TransferHint
     \<Rightarrow> int \<Rightarrow> bytes option \<Rightarrow> replica_db \<times> (ReplicaError + bool \<times> bytes)" where
  "post E s m token ob b hint clock rnd = post_classified E s m token ob b hint False clock rnd"

definition VerifiedReceipt_verify ::
  "('z replica_ext_scheme) \<Rightarrow> bytes \<Rightarrow> bytes \<Rightarrow> MailboxId \<Rightarrow> ObjectId \<Rightarrow> nat \<Rightarrow> ReplicaError + ReceiptBody" where
  "VerifiedReceipt_verify E b key m ob len =
     bindr (map_err (\<lambda>_. RE_Invalid) (parse E b)) (\<lambda>r.
     bindr (map_err (\<lambda>_. RE_Invalid) (verify_signature E r key)) (\<lambda>_.
     bindr (map_err (\<lambda>_. RE_Invalid) (decode_with (dec_receipt E) r)) (\<lambda>body.
     if rt_v body \<noteq> 1 \<or> rt_kind body \<noteq> ''storage.receipt'' \<or> rt_peer_id body \<noteq> peer_id E key \<or> rt_mailbox_id body \<noteq> m
        \<or> rt_object_id body \<noteq> ob \<or> rt_size_bytes body \<noteq> len \<or> rt_arrival_seq body = 0 \<or> rt_arrival_seq body > MAX_INTEGER
        \<or> rt_storage_class body \<noteq> ''sqlite-wal-full''
        \<or> rt_retention body \<notin> set [''manual-no-auto-gc'', ''message-body-ttl'', ''message-locator-30d'', ''message-no-expiry'']
     then Inl RE_Invalid
     else
     bindr (map_err (\<lambda>_. RE_Invalid) (hex 32 (rt_storage_generation body))) (\<lambda>_.
     bindr (map_err (\<lambda>_. RE_Invalid) (hex 16 (rt_nonce body))) (\<lambda>_.
     Inr body)))))"

subsection \<open>Downloads and the inventory\<close>

definition replica_get ::
  "('z replica_ext_scheme) \<Rightarrow> replica_db \<Rightarrow> MailboxId \<Rightarrow> string \<Rightarrow> ObjectId \<Rightarrow> int \<Rightarrow> replica_db \<times> (ReplicaError + bytes)" where
  "replica_get E db m token ob clock =
     bindst (db, mailbox_authorize E db m token False clock) (\<lambda>db _.
     bindst (db, replica_now clock) (\<lambda>db time.
     let db = sweep db time in
     bindst (db, check_pruned E db m ob) (\<lambda>db _.
     (db, if find_delivery db m ob = None then Inl RE_NotFound else packing_load E db ob))))"

record InventoryEntry =
  ie_arrival_seq :: nat
  ie_object_id :: ObjectId
  ie_size_bytes :: nat
  ie_transfer_hint :: TransferHint

record Inventory =
  iv_storage_generation :: string
  iv_head :: nat
  iv_entries :: "InventoryEntry list"
  iv_requested_messages :: "ObjectId list"

definition inventory_head :: "replica_db \<Rightarrow> MailboxId \<Rightarrow> nat" where
  "inventory_head db m = fold max (map dl_seq (filter (\<lambda>d. dl_mailbox d = m) (rd_deliveries db))) 0"

definition inventory_entry :: "replica_db \<Rightarrow> delivery \<Rightarrow> InventoryEntry" where
  "inventory_entry db d =
     \<lparr>ie_arrival_seq = dl_seq d, ie_object_id = dl_object d, ie_size_bytes = delivery_size db d, ie_transfer_hint = dl_hint d\<rparr>"

definition inventory_page :: "replica_db \<Rightarrow> MailboxId \<Rightarrow> nat \<Rightarrow> nat \<Rightarrow> InventoryEntry list" where
  "inventory_page db m after limit =
     map (inventory_entry db)
       (take limit (filter (\<lambda>d. dl_mailbox d = m \<and> dl_seq d > after \<and> bt_contains (rd_objects db) (dl_object d)) (rd_deliveries db)))"

definition replica_inventory ::
  "('z replica_ext_scheme) \<Rightarrow> ReplicaStore \<Rightarrow> MailboxId \<Rightarrow> string \<Rightarrow> nat \<Rightarrow> nat \<Rightarrow> int \<Rightarrow> replica_db \<times> (ReplicaError + Inventory)" where
  "replica_inventory E s m token after limit clock =
     (let db = rp_db s in
      if after > MAX_INTEGER \<or> \<not> (1 \<le> limit \<and> limit \<le> 128) then (db, Inl RE_Invalid)
      else
      bindst (db, mailbox_authorize E db m token False clock) (\<lambda>db _.
      bindst (db, replica_now clock) (\<lambda>db time.
      let db = sweep db time; head' = inventory_head db m; entries = inventory_page db m after limit in
      bindst (active_requests E (rp_revocations s) db m time clock) (\<lambda>db requested.
      (db, Inr \<lparr>iv_storage_generation = rd_generation db, iv_head = head', iv_entries = entries, iv_requested_messages = requested\<rparr>)))))"

subsection \<open>Requests and acceptances of message bodies\<close>

definition requested_body ::
  "replica_db \<Rightarrow> MailboxId \<Rightarrow> ObjectId \<Rightarrow> RecordId \<Rightarrow> nat \<Rightarrow> (string \<times> bool) option" where
  "requested_body db root ob record' time =
     (case bt_get (rd_bodies db) (root, ob) of
        None \<Rightarrow> None
      | Some b \<Rightarrow>
          (case by_request_key b of
             None \<Rightarrow> None
           | Some key \<Rightarrow>
               if by_record b = record'
                  \<and> list_ex (\<lambda>((r', ob'), l). r' = root \<and> lo_body l = ob \<and> lo_request_key l = Some key
                       \<and> (case lo_expires l of None \<Rightarrow> True | Some e \<Rightarrow> e > time)) (rd_locators db)
               then Some (key, by_expired b \<noteq> None) else None))"

definition request_message ::
  "('z replica_ext_scheme) \<Rightarrow> ReplicaStore \<Rightarrow> MailboxId \<Rightarrow> Actor \<Rightarrow> ObjectId \<Rightarrow> RecordId \<Rightarrow> Proof \<Rightarrow> int
     \<Rightarrow> replica_db \<times> (ReplicaError + unit)" where
  "request_message E s m actor ob record' p clock =
     (let db = rp_db s; rv = rp_revocations s in
      bindst (db, replica_now clock) (\<lambda>db time.
      bindst (db, authorize_actor E rv db m actor clock) (\<lambda>db _.
      let db = sweep db time in
      bindst (db, root_mailbox db m) (\<lambda>db root.
      bindst (db, ok_or (requested_body db root ob record' time) RE_NotFound) (\<lambda>db (key, expired).
      bindst (db, map_err (\<lambda>_. RE_Unauthorized) (Proof_verify E p key
          \<lparr>cx_operation = Op_Request, cx_replica = peer_id E (replica_key E db), cx_mailbox = m, cx_object = ob, cx_record = record',
           cx_actor = actor\<rparr> time)) (\<lambda>db _.
      bindst (valid_window E rv db m root ob time clock) (\<lambda>db _.
      let k = (root, ob, at_identity actor); existing = bt_get (rd_requests db) k in
      if (case existing of None \<Rightarrow> False | Some r \<Rightarrow> rq_expires r > time \<or> rq_nonce r = pf_nonce p) then (db, Inr ())
      else if \<not> expired then (db, Inl RE_NotFound)
      else
      bindst (db, ensure_metadata_room db root (if existing = None then METADATA_BYTES else 0)) (\<lambda>db _.
      (db\<lparr>rd_requests := bt_insert k \<lparr>rq_record = record', rq_requested = time,
            rq_expires = min (pf_expires_ms p) (saturating_add time REQUEST_LIFETIME_MS), rq_credential = at_credential actor,
            rq_nonce = pf_nonce p, rq_proof_expires = pf_expires_ms p\<rparr> (rd_requests db)\<rparr>, Inr ())))))))))"

definition accept_key_for :: "replica_db \<Rightarrow> MailboxId \<Rightarrow> ObjectId \<Rightarrow> RecordId \<Rightarrow> Actor \<Rightarrow> (body_row \<times> string) option" where
  "accept_key_for db root ob record' actor =
     (case bt_get (rd_bodies db) (root, ob) of
        None \<Rightarrow> None
      | Some b \<Rightarrow> if by_record b = record' \<and> by_direct_peer b = Some (at_identity actor)
                   then map_option (Pair b) (by_accept_key b) else None)"

definition accept_message ::
  "('z replica_ext_scheme) \<Rightarrow> ReplicaStore \<Rightarrow> MailboxId \<Rightarrow> Actor \<Rightarrow> ObjectId \<Rightarrow> RecordId \<Rightarrow> Proof \<Rightarrow> int
     \<Rightarrow> replica_db \<times> (ReplicaError + unit)" where
  "accept_message E s m actor ob record' p clock =
     (let db = rp_db s; rv = rp_revocations s in
      bindst (db, replica_now clock) (\<lambda>db time.
      bindst (db, authorize_actor E rv db m actor clock) (\<lambda>db _.
      let db = sweep db time in
      bindst (db, root_mailbox db m) (\<lambda>db root.
      bindst (db, ok_or (accept_key_for db root ob record' actor) RE_Unauthorized) (\<lambda>db (row, key).
      bindst (db, map_err (\<lambda>_. RE_Unauthorized) (Proof_verify E p key
          \<lparr>cx_operation = Op_Accept, cx_replica = peer_id E (replica_key E db), cx_mailbox = m, cx_object = ob, cx_record = record',
           cx_actor = actor\<rparr> time)) (\<lambda>db _.
      if by_policy row = NoExpiry then (db, Inr ())
      else
      let k = (root, ob, at_identity actor); previous = map_option ac_proof_expires (bt_get (rd_acceptances db) k) in
      if (case previous of None \<Rightarrow> False | Some deadline \<Rightarrow> pf_expires_ms p \<le> deadline) then (db, Inr ())
      else if by_expired row \<noteq> None then (db, Inl RE_Expired)
      else
      bindst (db, ensure_metadata_room db root (if previous = None then METADATA_BYTES else 0)) (\<lambda>db _.
      if time < by_received row then (db, Inl RE_Storage)
      else
      let db1 = db\<lparr>rd_acceptances := bt_insert k \<lparr>ac_accepted = time, ac_expires = saturating_add time ACCEPTANCE_LIFETIME_MS,
                     ac_nonce = pf_nonce p, ac_proof_expires = pf_expires_ms p\<rparr> (rd_acceptances db),
                   rd_requests := bt_modify k (\<lambda>r. r\<lparr>rq_expires := rq_requested r\<rparr>) (rd_requests db)\<rparr> in
      (remove_body db1 root ob time, Inr ()))))))))"

subsection \<open>The owner's cleanup\<close>

record SpaceStorage =
  sp_used_bytes :: nat
  sp_quota_bytes :: nat
  sp_before_ms :: nat
  sp_removable_copies :: nat
  sp_removable_bytes :: nat

text \<open>Objects all of whose copies in the tree are classified messages, the newest before the cutoff.\<close>

definition prune_candidate :: "replica_db \<Rightarrow> MailboxId \<Rightarrow> nat \<Rightarrow> ObjectId \<Rightarrow> bool" where
  "prune_candidate db root before ob =
     (let copies = filter (\<lambda>((m, ob'), t). m \<in> set (tree db root) \<and> ob' = ob) (rd_copies db) in
      copies \<noteq> [] \<and> list_all (\<lambda>(k, t). t < before) copies
      \<and> \<not> list_ex (\<lambda>d. dl_object d = ob \<and> in_tree db root d \<and> \<not> bt_contains (rd_copies db) (dl_mailbox d, ob)) (rd_deliveries db))"

definition space_usage :: "replica_db \<Rightarrow> MailboxId \<Rightarrow> nat \<Rightarrow> ReplicaError + SpaceStorage" where
  "space_usage db root before =
     (case bt_get (rd_mailboxes db) root of
        None \<Rightarrow> Inl RE_Invalid
      | Some r \<Rightarrow>
          if bt_get (rd_delegations db) root \<noteq> None then Inl RE_Invalid
          else
          let removable = filter (\<lambda>d. in_tree db root d \<and> prune_candidate db root before (dl_object d)) (rd_deliveries db) in
          Inr \<lparr>sp_used_bytes = retained_usage db root + metadata_usage db root, sp_quota_bytes = mb_quota r, sp_before_ms = before,
               sp_removable_copies = length removable, sp_removable_bytes = sum_list (map (delivery_size db) removable)\<rparr>)"

definition space_storage :: "replica_db \<Rightarrow> MailboxId \<Rightarrow> nat \<Rightarrow> int \<Rightarrow> ReplicaError + SpaceStorage" where
  "space_storage db root before clock =
     bindr (replica_now clock) (\<lambda>time. if before > time then Inl RE_Invalid else space_usage db root before)"

definition prune_messages :: "replica_db \<Rightarrow> MailboxId \<Rightarrow> nat \<Rightarrow> int \<Rightarrow> ReplicaError + replica_db \<times> SpaceStorage" where
  "prune_messages db root before clock =
     bindr (replica_now clock) (\<lambda>time.
     if before > time then Inl RE_Invalid
     else
     bindr (space_usage db root before) (\<lambda>result.
     let candidates = filter (prune_candidate db root before) (map (snd \<circ> fst) (rd_copies db));
         db1 = db\<lparr>rd_pruned := insert_missing time (map (Pair root) candidates) (rd_pruned db)\<rparr>;
         db2 = delete_deliveries (\<lambda>d. in_tree db1 root d \<and> bt_contains (rd_pruned db1) (root, dl_object d)) db1 in
     Inr (delete_orphans (\<lambda>_. True) db2, result)))"

definition maintain_message_lifetime :: "replica_db \<Rightarrow> int \<Rightarrow> ReplicaError + replica_db" where
  "maintain_message_lifetime db clock = bindr (replica_now clock) (\<lambda>time. Inr (sweep db time))"

end
