(* ===== verification/Replica_Forest.thy ===== *)
theory Replica_Forest
  imports Replica_Objects
begin

text \<open>
  The mailbox forest. Delegation is at most two levels deep, so the recursive queries over parents
  and children end, the chain from a mailbox reaches its root, and the two queries agree: a mailbox
  is in the tree of another exactly when that one is among its ancestors. The second half follows
  the forest through the statements that delete or add mailboxes.
\<close>

definition forest_ok :: "replica_db \<Rightarrow> bool" where
  "forest_ok db \<longleftrightarrow>
     bt_wf (rd_mailboxes db) \<and> bt_wf (rd_delegations db)
     \<and> (\<forall>m d. bt_get (rd_delegations db) m = Some d \<longrightarrow>
          bt_contains (rd_mailboxes db) m \<and> bt_contains (rd_mailboxes db) (dg_parent d)
          \<and> (\<forall>d'. bt_get (rd_delegations db) (dg_parent d) = Some d' \<longrightarrow>
               dg_expires d \<le> dg_expires d' \<and> bt_get (rd_delegations db) (dg_parent d') = None))"

lemma forest_depth:
  "forest_ok db \<Longrightarrow> mailbox_parent db m = Some p \<Longrightarrow> mailbox_parent db p = Some q \<Longrightarrow> mailbox_parent db q = None"
  by (auto simp: forest_ok_def mailbox_parent_def)

lemma forest_irrefl: "forest_ok db \<Longrightarrow> mailbox_parent db m \<noteq> Some m"
  using forest_depth [of db m m m] by auto

lemma forest_parent_mailbox: "forest_ok db \<Longrightarrow> mailbox_parent db m = Some p \<Longrightarrow> bt_contains (rd_mailboxes db) p"
  by (auto simp: forest_ok_def mailbox_parent_def)

lemma delegation_pos: "mailbox_parent db m = Some p \<Longrightarrow> \<exists>n. length (rd_delegations db) = Suc n"
  by (cases "rd_delegations db") (auto simp: mailbox_parent_def)

lemma delegation_two:
  assumes "mailbox_parent db m = Some p" "mailbox_parent db p = Some q" "m \<noteq> p"
  shows "\<exists>n. length (rd_delegations db) = Suc (Suc n)"
proof -
  from assms(1,2) obtain x y where "(m, x) \<in> set (rd_delegations db)" "(p, y) \<in> set (rd_delegations db)"
    by (auto simp: mailbox_parent_def dest!: bt_get_in)
  then have "{(m, x), (p, y)} \<subseteq> set (rd_delegations db)" by simp
  then have "card {(m, x), (p, y)} \<le> length (rd_delegations db)"
    by (meson List.finite_set card_length card_mono order_trans)
  with assms(3) have "2 \<le> length (rd_delegations db)" by simp
  then show ?thesis by (metis add_2_eq_Suc le_add_diff_inverse)
qed

text \<open>The chain of a mailbox is complete: the fuel never cuts it short.\<close>

lemma ancestors_eq:
  assumes "forest_ok db"
  shows "ancestors db m = (case mailbox_parent db m of None \<Rightarrow> [m]
    | Some p \<Rightarrow> (case mailbox_parent db p of None \<Rightarrow> [m, p] | Some q \<Rightarrow> [m, p, q]))"
proof (cases "mailbox_parent db m")
  case None
  then show ?thesis by (cases "length (rd_delegations db)") (simp_all add: ancestors_def)
next
  case (Some p)
  then obtain n where n: "length (rd_delegations db) = Suc n" using delegation_pos by blast
  have neq: "m \<noteq> p" using forest_irrefl [OF assms] Some by metis
  show ?thesis
  proof (cases "mailbox_parent db p")
    case None
    with Some n show ?thesis by (cases n) (simp_all add: ancestors_def)
  next
    case (Some q)
    with delegation_two [OF \<open>mailbox_parent db m = Some p\<close> Some neq] obtain k where "length (rd_delegations db) = Suc (Suc k)" by blast
    moreover have "mailbox_parent db q = None"
      by (rule forest_depth [OF assms \<open>mailbox_parent db m = Some p\<close> Some])
    ultimately show ?thesis using Some \<open>mailbox_parent db m = Some p\<close>
      by (cases k) (simp_all add: ancestors_def)
  qed
qed

text \<open>More fuel than that changes nothing: the query has ended.\<close>

lemma chain_more:
  assumes "forest_ok db"
  shows "chain (length (rd_delegations db) + n) (mailbox_parent db) m = ancestors db m"
proof (cases "mailbox_parent db m")
  case None
  then show ?thesis by (cases "length (rd_delegations db) + n") (simp_all add: ancestors_eq [OF assms])
next
  case (Some p)
  obtain k where k: "length (rd_delegations db) = Suc k" using delegation_pos [OF Some] by blast
  show ?thesis
  proof (cases "mailbox_parent db p")
    case None
    with Some show ?thesis by (cases "k + n") (simp_all add: ancestors_eq [OF assms] k)
  next
    case (Some q)
    have neq: "m \<noteq> p" using forest_irrefl [OF assms, of m] \<open>mailbox_parent db m = Some p\<close> by auto
    obtain j where "length (rd_delegations db) = Suc (Suc j)"
      using delegation_two [OF \<open>mailbox_parent db m = Some p\<close> Some neq] by blast
    moreover have "mailbox_parent db q = None" using forest_depth [OF assms \<open>mailbox_parent db m = Some p\<close> Some] .
    ultimately show ?thesis
      using Some \<open>mailbox_parent db m = Some p\<close> by (cases "j + n") (simp_all add: ancestors_eq [OF assms])
  qed
qed

lemma ancestors_self: "forest_ok db \<Longrightarrow> m \<in> set (ancestors db m)"
  by (simp add: ancestors_eq split: option.splits)

lemma ancestors_length: "forest_ok db \<Longrightarrow> length (ancestors db m) \<le> 3"
  by (simp add: ancestors_eq split: option.splits)

lemma ancestors_rec:
  "forest_ok db \<Longrightarrow> set (ancestors db m) = insert m (case mailbox_parent db m of None \<Rightarrow> {} | Some p \<Rightarrow> set (ancestors db p))"
  by (auto simp: ancestors_eq split: option.splits dest: forest_depth)

lemma ancestors_mailboxes:
  "forest_ok db \<Longrightarrow> bt_contains (rd_mailboxes db) m \<Longrightarrow> a \<in> set (ancestors db m) \<Longrightarrow> bt_contains (rd_mailboxes db) a"
  by (auto simp: ancestors_eq dest: forest_parent_mailbox split: option.splits)

lemma ancestors_trans:
  "forest_ok db \<Longrightarrow> a \<in> set (ancestors db m) \<Longrightarrow> x \<in> set (ancestors db a) \<Longrightarrow> x \<in> set (ancestors db m)"
  by (auto simp: ancestors_eq split: option.splits dest: forest_depth)

definition root_of :: "replica_db \<Rightarrow> MailboxId \<Rightarrow> MailboxId" where
  "root_of db m = last (ancestors db m)"

lemma root_mailbox_Inr [simp]: "forest_ok db \<Longrightarrow> root_mailbox db m = Inr (root_of db m)"
  by (auto simp: root_mailbox_def root_of_def ancestors_eq ok_or_def dest: forest_depth split: option.splits)

lemma root_of_root: "forest_ok db \<Longrightarrow> mailbox_parent db (root_of db m) = None"
  by (auto simp: root_of_def ancestors_eq dest: forest_depth split: option.splits)

lemma root_of_ancestor: "forest_ok db \<Longrightarrow> root_of db m \<in> set (ancestors db m)"
  by (auto simp: root_of_def ancestors_eq split: option.splits)

lemma root_ancestor_unique:
  "forest_ok db \<Longrightarrow> a \<in> set (ancestors db m) \<Longrightarrow> mailbox_parent db a = None \<Longrightarrow> a = root_of db m"
  by (auto simp: root_of_def ancestors_eq split: option.splits)

subsection \<open>Trees\<close>

lemma in_children:
  assumes "forest_ok db"
  shows "x \<in> set (children (rd_delegations db) ms) \<longleftrightarrow> (\<exists>p. mailbox_parent db x = Some p \<and> p \<in> set ms)"
proof -
  have "x \<in> set (children (rd_delegations db) ms) \<longleftrightarrow> (\<exists>d. (x, d) \<in> set (rd_delegations db) \<and> dg_parent d \<in> set ms)"
    by (force simp: children_def)
  then show ?thesis using bt_get_iff [of "rd_delegations db"] assms by (auto simp: mailbox_parent_def forest_ok_def)
qed

lemma in_grandchildren:
  assumes "forest_ok db"
  shows "x \<in> set (children (rd_delegations db) (children (rd_delegations db) ms)) \<longleftrightarrow>
    (\<exists>p q. mailbox_parent db x = Some p \<and> mailbox_parent db p = Some q \<and> q \<in> set ms)"
  using in_children [OF assms] by metis

lemma descend_levels:
  assumes "children ds (children ds (children ds ms)) = []" "children ds ms \<noteq> [] \<Longrightarrow> 1 \<le> n" "children ds (children ds ms) \<noteq> [] \<Longrightarrow> 2 \<le> n"
  shows "descend n ds ms = ms @ children ds ms @ children ds (children ds ms)"
proof -
  consider "n = 0" | "n = 1" | k where "n = Suc (Suc k)" by (metis One_nat_def not0_implies_Suc)
  then show ?thesis
  proof cases
    case 1
    with assms show ?thesis by force
  next
    case 2
    with assms(3) have "children ds (children ds ms) = []" by force
    then show ?thesis using 2 by (cases "ms = []") (simp_all add: children_def)
  next
    case 3
    have e: "descend n ds [] = []" for n by (cases n) simp_all
    have stop: "descend k ds xs = xs" if "children ds xs = []" for xs
      using that by (induction k) (auto simp: e)
    have nil: "children ds [] = []" by (simp add: children_def)
    show ?thesis using 3 stop [OF assms(1)] by (cases "ms = []"; cases "children ds ms = []") (simp_all add: e nil)
  qed
qed

lemma descend_more:
  assumes "forest_ok db"
  shows "descend (length (rd_delegations db) + n) (rd_delegations db) ms
    = ms @ children (rd_delegations db) ms @ children (rd_delegations db) (children (rd_delegations db) ms)"
proof (rule descend_levels)
  let ?c = "children (rd_delegations db)"
  show "?c (?c (?c ms)) = []"
  proof (rule ccontr)
    assume "?c (?c (?c ms)) \<noteq> []"
    then obtain x where x: "x \<in> set (?c (?c (?c ms)))" by (meson last_in_set)
    then obtain p q where pq: "mailbox_parent db x = Some p" "mailbox_parent db p = Some q" "q \<in> set (?c ms)"
      using in_grandchildren [OF assms] by blast
    from forest_depth [OF assms pq(1,2)] pq(3) in_children [OF assms, of q ms] show False by simp
  qed
  show "1 \<le> length (rd_delegations db) + n" if "?c ms \<noteq> []"
    using that by (cases "rd_delegations db") (auto simp: children_def)
  show "2 \<le> length (rd_delegations db) + n" if "?c (?c ms) \<noteq> []"
  proof -
    from that obtain x where x: "x \<in> set (?c (?c ms))" by (meson last_in_set)
    then obtain p q where pq: "mailbox_parent db x = Some p" "mailbox_parent db p = Some q"
      using in_grandchildren [OF assms] by blast
    have "x \<noteq> p" using pq(1) forest_irrefl [OF assms] by metis
    with delegation_two [OF pq] show ?thesis by fastforce
  qed
qed

lemmas descend_forest = descend_more [where n = 0, unfolded add_0_right]

text \<open>The query over children collects exactly the mailboxes below.\<close>

lemma in_descend:
  assumes "forest_ok db"
  shows "x \<in> set (descend (length (rd_delegations db)) (rd_delegations db) ms) \<longleftrightarrow> (\<exists>a \<in> set ms. a \<in> set (ancestors db x))"
  unfolding descend_forest [OF assms] set_append Un_iff in_grandchildren [OF assms] in_children [OF assms]
  by (cases "mailbox_parent db x"; cases "mailbox_parent db (the (mailbox_parent db x))")
    (auto simp: ancestors_eq [OF assms])

lemma in_tree_iff: "forest_ok db \<Longrightarrow> x \<in> set (tree db r) \<longleftrightarrow> r \<in> set (ancestors db x)"
  by (simp add: tree_def in_descend)

lemma in_tree_delivery: "forest_ok db \<Longrightarrow> in_tree db r d \<longleftrightarrow> r \<in> set (ancestors db (dl_mailbox d))"
  by (simp add: in_tree_def in_tree_iff)

lemma distinct_children: "bt_wf ds \<Longrightarrow> distinct (children ds ms)"
  unfolding children_def using bt_wf_distinct [of ds] distinct_map_filter by blast

lemma distinct_tree:
  assumes "forest_ok db"
  shows "distinct (tree db r)"
proof -
  let ?c = "children (rd_delegations db)"
  have wf: "bt_wf (rd_delegations db)" using assms by (simp add: forest_ok_def)
  have "r \<notin> set (?c [r])"
    using in_children [OF assms, of r] forest_irrefl [OF assms] by auto
  moreover have "r \<notin> set (?c (?c [r]))"
    using in_grandchildren [OF assms, of r "[r]"] forest_depth [OF assms, of r] by auto
  moreover have "x \<notin> set (?c (?c [r]))" if "x \<in> set (?c [r])" for x
    using that in_grandchildren [OF assms, of x] in_children [OF assms, of x] forest_irrefl [OF assms] by auto
  ultimately show ?thesis
    unfolding tree_def descend_forest [OF assms] using distinct_children [OF wf] by auto
qed

lemma tree_members: "forest_ok db \<Longrightarrow> set (tree db r) - {r} \<subseteq> {x. bt_get (rd_delegations db) x \<noteq> None}"
  by (auto simp: in_tree_iff ancestors_eq mailbox_parent_def split: option.splits)

subsection \<open>Changes of the forest\<close>

text \<open>Statements that leave the delegations alone leave the forest alone.\<close>

lemma forest_same:
  assumes "rd_delegations db' = rd_delegations db"
  shows "mailbox_parent db' = mailbox_parent db" "ancestors db' = ancestors db" "tree db' = tree db"
    "root_mailbox db' = root_mailbox db" "root_of db' = root_of db" "in_tree db' = in_tree db"
proof -
  show p: "mailbox_parent db' = mailbox_parent db" by (rule ext) (simp add: mailbox_parent_def assms)
  show a: "ancestors db' = ancestors db" by (rule ext) (simp add: ancestors_def assms p)
  show t: "tree db' = tree db" by (rule ext) (simp add: tree_def assms)
  show "root_mailbox db' = root_mailbox db" by (rule ext) (simp add: root_mailbox_def a p)
  show "root_of db' = root_of db" by (rule ext) (simp add: root_of_def a)
  show "in_tree db' = in_tree db" by (intro ext) (simp add: in_tree_def t)
qed

lemma forest_ok_same:
  "rd_delegations db' = rd_delegations db \<Longrightarrow> rd_mailboxes db' = rd_mailboxes db \<Longrightarrow> forest_ok db' \<longleftrightarrow> forest_ok db"
  by (simp add: forest_ok_def)

definition down_closed :: "replica_db \<Rightarrow> MailboxId list \<Rightarrow> bool" where
  "down_closed db ids \<longleftrightarrow> (\<forall>m a. a \<in> set ids \<and> a \<in> set (ancestors db m) \<longrightarrow> m \<in> set ids)"

lemma down_closed_descend:
  "forest_ok db \<Longrightarrow> down_closed db (descend (length (rd_delegations db)) (rd_delegations db) ms)"
  unfolding down_closed_def by (meson in_descend ancestors_trans)

lemma bt_get_filter_keys: "bt_get (filter (\<lambda>(k, v). P k) m) k = (if P k then bt_get m k else None)"
  by (induction m) (auto simp: bt_get_def)

lemma forest_delete:
  assumes ok: "forest_ok db" and down: "down_closed db ids"
    and ds: "rd_delegations db' = filter (\<lambda>(m, r). m \<notin> set ids) (rd_delegations db)"
    and ms: "rd_mailboxes db' = filter (\<lambda>(m, r). m \<notin> set ids) (rd_mailboxes db)"
  shows "forest_ok db'" "m \<notin> set ids \<Longrightarrow> ancestors db' m = ancestors db m"
proof -
  have d: "bt_get (rd_delegations db') m = (if m \<notin> set ids then bt_get (rd_delegations db) m else None)" for m
    unfolding ds by (rule bt_get_filter_keys)
  have mb: "bt_contains (rd_mailboxes db') m \<longleftrightarrow> m \<notin> set ids \<and> bt_contains (rd_mailboxes db) m" for m
    unfolding ms bt_contains_def bt_get_filter_keys by simp
  have up: "p \<notin> set ids" if "m \<notin> set ids" "mailbox_parent db m = Some p" for m p
    using that down ancestors_rec [OF ok, of m] ancestors_self [OF ok, of p] by (auto simp: down_closed_def)
  have "bt_wf (rd_delegations db')" "bt_wf (rd_mailboxes db')"
    using ok by (simp_all add: ds ms forest_ok_def bt_wf_filter)
  moreover have "bt_contains (rd_mailboxes db') m \<and> bt_contains (rd_mailboxes db') (dg_parent x)
      \<and> (\<forall>y. bt_get (rd_delegations db') (dg_parent x) = Some y \<longrightarrow>
           dg_expires x \<le> dg_expires y \<and> bt_get (rd_delegations db') (dg_parent y) = None)"
    if x: "bt_get (rd_delegations db') m = Some x" for m x
  proof -
    from x have m: "m \<notin> set ids" "bt_get (rd_delegations db) m = Some x" by (auto simp: d split: if_splits)
    then have p: "dg_parent x \<notin> set ids" using up [of m "dg_parent x"] by (simp add: mailbox_parent_def)
    with ok m show ?thesis unfolding forest_ok_def mb d by auto
  qed
  ultimately show ok': "forest_ok db'" by (simp add: forest_ok_def)
  assume m: "m \<notin> set ids"
  have same: "mailbox_parent db' x = mailbox_parent db x" if "x \<notin> set ids" for x
    using that by (simp add: mailbox_parent_def d)
  show "ancestors db' m = ancestors db m"
    unfolding ancestors_eq [OF ok'] ancestors_eq [OF ok] same [OF m]
    using up m same by (auto split: option.splits)
qed

text \<open>A new mailbox, at the top or below a parent that is itself at most one level down.\<close>

lemma forest_add_root:
  assumes "forest_ok db" "\<not> bt_contains (rd_mailboxes db) m" "rd_delegations db' = rd_delegations db"
    "rd_mailboxes db' = bt_insert m r (rd_mailboxes db)"
  shows "forest_ok db'"
  using assms by (auto simp: forest_ok_def bt_contains_def)

lemma forest_add_child:
  assumes ok: "forest_ok db" and new: "\<not> bt_contains (rd_mailboxes db) m" and p: "bt_contains (rd_mailboxes db) p"
    and short: "length (ancestors db p) \<le> 2"
    and exp: "\<And>d. bt_get (rd_delegations db) p = Some d \<Longrightarrow> dg_expires x \<le> dg_expires d" and x: "dg_parent x = p"
    and ds: "rd_delegations db' = bt_insert m x (rd_delegations db)" and ms: "rd_mailboxes db' = bt_insert m r (rd_mailboxes db)"
  shows "forest_ok db'" "ancestors db' m = m # ancestors db p" "y \<noteq> m \<Longrightarrow> ancestors db' y = ancestors db y"
proof -
  have fresh: "bt_get (rd_delegations db) m = None"
    using ok new by (cases "bt_get (rd_delegations db) m") (auto simp: forest_ok_def)
  have np: "dg_parent d \<noteq> m" if "bt_get (rd_delegations db) y = Some d" for y d
    using ok new that by (auto simp: forest_ok_def)
  have top: "bt_get (rd_delegations db) (dg_parent d) = None" if "bt_get (rd_delegations db) p = Some d" for d
    using short that by (auto simp: ancestors_eq [OF ok] mailbox_parent_def split: option.splits)
  have neq: "m \<noteq> p" using new p by auto
  have d: "bt_get (rd_delegations db') y = (if y = m then Some x else bt_get (rd_delegations db) y)" for y
    by (simp add: ds)
  have mb: "bt_contains (rd_mailboxes db') y \<longleftrightarrow> y = m \<or> bt_contains (rd_mailboxes db) y" for y
    by (simp add: ms bt_contains_def)
  have "bt_wf (rd_delegations db')" "bt_wf (rd_mailboxes db')" using ok by (simp_all add: ds ms forest_ok_def)
  moreover have "bt_contains (rd_mailboxes db') y \<and> bt_contains (rd_mailboxes db') (dg_parent z)
      \<and> (\<forall>w. bt_get (rd_delegations db') (dg_parent z) = Some w \<longrightarrow>
           dg_expires z \<le> dg_expires w \<and> bt_get (rd_delegations db') (dg_parent w) = None)"
    if z: "bt_get (rd_delegations db') y = Some z" for y z
  proof (cases "y = m")
    case True
    with z have "z = x" by (simp add: d)
    then show ?thesis using True p x neq exp top np by (auto simp: mb d)
  next
    case False
    with z have y: "bt_get (rd_delegations db) y = Some z" by (simp add: d)
    from ok y have *: "bt_contains (rd_mailboxes db) y" "bt_contains (rd_mailboxes db) (dg_parent z)"
      "\<And>w. bt_get (rd_delegations db) (dg_parent z) = Some w \<Longrightarrow>
         dg_expires z \<le> dg_expires w \<and> bt_get (rd_delegations db) (dg_parent w) = None"
      unfolding forest_ok_def by blast+
    then show ?thesis using np [OF y] np by (auto simp: mb d)
  qed
  ultimately show ok': "forest_ok db'" by (simp add: forest_ok_def)
  have par: "mailbox_parent db' y = (if y = m then Some p else mailbox_parent db y)" for y
    by (simp add: mailbox_parent_def d x)
  have npar: "mailbox_parent db y \<noteq> Some m" for y using np by (auto simp: mailbox_parent_def)
  have "mailbox_parent db q = None" if "mailbox_parent db p = Some q" for q
    using that top by (auto simp: mailbox_parent_def)
  then show "ancestors db' m = m # ancestors db p"
    unfolding ancestors_eq [OF ok'] ancestors_eq [OF ok] par using neq npar by (auto split: option.splits)
  show "y \<noteq> m \<Longrightarrow> ancestors db' y = ancestors db y"
    unfolding ancestors_eq [OF ok'] ancestors_eq [OF ok] par using npar by (auto split: option.splits)
qed

end
