(* ===== verification/Replica_Invariant.thy ===== *)
theory Replica_Invariant
  imports Replica_Forest
begin

text \<open>
  The invariant of the replica store. Mailboxes form a shallow forest; arrival numbers ascend and no
  object is delivered twice to one mailbox; every stored object can be put together again and hashes
  to its identifier; rows about messages belong to root mailboxes; and no mailbox holds more than its
  quota, descendants and metadata included. The statements the operations are made of keep it, each
  in a lemma of its own.
\<close>

subsection \<open>The invariant\<close>

abbreviation delivery_key :: "delivery \<Rightarrow> MailboxId \<times> ObjectId" where
  "delivery_key d \<equiv> (dl_mailbox d, dl_object d)"

definition deliveries_ok :: "replica_db \<Rightarrow> bool" where
  "deliveries_ok db \<longleftrightarrow>
     sorted_wrt (<) (map dl_seq (rd_deliveries db)) \<and> rd_sequence db \<le> MAX_INTEGER
     \<and> (\<forall>d \<in> set (rd_deliveries db). 1 \<le> dl_seq d \<and> dl_seq d \<le> rd_sequence db)
     \<and> distinct (map delivery_key (rd_deliveries db))
     \<and> (\<forall>d \<in> set (rd_deliveries db). bt_contains (rd_mailboxes db) (dl_mailbox d) \<and> bt_contains (rd_objects db) (dl_object d))"

definition object_ok :: "('z replica_ext_scheme) \<Rightarrow> replica_db \<Rightarrow> ObjectId \<Rightarrow> stored_object \<Rightarrow> bool" where
  "object_ok E db ob o' \<longleftrightarrow> (\<exists>b. unpack db o' = Some b \<and> length b = wire_size o' \<and> of_ciphertext E b = ob)"

definition objects_ok :: "('z replica_ext_scheme) \<Rightarrow> replica_db \<Rightarrow> bool" where
  "objects_ok E db \<longleftrightarrow>
     bt_wf (rd_objects db) \<and> bt_wf (rd_credentials db)
     \<and> (\<forall>ob o'. bt_get (rd_objects db) ob = Some o' \<longrightarrow> object_ok E db ob o')"

definition root_row :: "replica_db \<Rightarrow> MailboxId \<Rightarrow> bool" where
  "root_row db m \<longleftrightarrow> bt_contains (rd_mailboxes db) m \<and> bt_get (rd_delegations db) m = None"

definition body_row_ok :: "body_row \<Rightarrow> bool" where
  "body_row_ok r \<longleftrightarrow>
     (\<forall>e. by_expires r = Some e \<longrightarrow> by_received r \<le> e) \<and> (\<forall>e. by_refill r = Some e \<longrightarrow> by_received r \<le> e)"

definition messages_ok :: "replica_db \<Rightarrow> bool" where
  "messages_ok db \<longleftrightarrow>
     bt_wf (rd_bodies db) \<and> bt_wf (rd_locators db) \<and> bt_wf (rd_requests db) \<and> bt_wf (rd_acceptances db) \<and> bt_wf (rd_pruned db)
     \<and> (\<forall>k r. bt_get (rd_bodies db) k = Some r \<longrightarrow> root_row db (fst k) \<and> body_row_ok r)
     \<and> (\<forall>k. bt_contains (rd_locators db) k \<longrightarrow> root_row db (fst k))
     \<and> (\<forall>k. bt_contains (rd_pruned db) k \<longrightarrow> root_row db (fst k))
     \<and> (\<forall>m ob i. bt_contains (rd_requests db) (m, ob, i) \<longrightarrow> bt_contains (rd_bodies db) (m, ob))
     \<and> (\<forall>m ob i. bt_contains (rd_acceptances db) (m, ob, i) \<longrightarrow> bt_contains (rd_bodies db) (m, ob))"

definition quota_ok :: "replica_db \<Rightarrow> bool" where
  "quota_ok db \<longleftrightarrow>
     (\<forall>a r. bt_get (rd_mailboxes db) a = Some r \<longrightarrow>
        retained_usage db a + metadata_usage db a \<le> mb_quota r \<and> length (tree db a) \<le> Suc MAX_CHILD_MAILBOXES)"

definition replica_ok :: "('z replica_ext_scheme) \<Rightarrow> replica_db \<Rightarrow> bool" where
  "replica_ok E db \<longleftrightarrow> forest_ok db \<and> deliveries_ok db \<and> objects_ok E db \<and> messages_ok db \<and> quota_ok db"

lemma replica_okD:
  assumes "replica_ok E db"
  shows "forest_ok db" "deliveries_ok db" "objects_ok E db" "messages_ok db" "quota_ok db"
  using assms by (simp_all add: replica_ok_def)

lemma messages_okD:
  assumes "messages_ok db"
  shows "bt_wf (rd_bodies db)" "bt_wf (rd_locators db)" "bt_wf (rd_requests db)" "bt_wf (rd_acceptances db)" "bt_wf (rd_pruned db)"
    "bt_get (rd_bodies db) k = Some r \<Longrightarrow> root_row db (fst k) \<and> body_row_ok r"
    "bt_contains (rd_locators db) k \<Longrightarrow> root_row db (fst k)"
    "bt_contains (rd_pruned db) k \<Longrightarrow> root_row db (fst k)"
    "bt_contains (rd_requests db) (m, ob, i) \<Longrightarrow> bt_contains (rd_bodies db) (m, ob)"
    "bt_contains (rd_acceptances db) (m, ob, i) \<Longrightarrow> bt_contains (rd_bodies db) (m, ob)"
  using assms unfolding messages_ok_def by blast+

text \<open>The tables the invariant speaks of.\<close>

definition same_core :: "replica_db \<Rightarrow> replica_db \<Rightarrow> bool" where
  "same_core db db' \<longleftrightarrow>
     rd_mailboxes db' = rd_mailboxes db \<and> rd_delegations db' = rd_delegations db \<and> rd_objects db' = rd_objects db
     \<and> rd_credentials db' = rd_credentials db \<and> rd_deliveries db' = rd_deliveries db \<and> rd_sequence db' = rd_sequence db
     \<and> rd_bodies db' = rd_bodies db \<and> rd_locators db' = rd_locators db \<and> rd_requests db' = rd_requests db
     \<and> rd_acceptances db' = rd_acceptances db \<and> rd_pruned db' = rd_pruned db"

subsection \<open>Usage\<close>

definition rows_at :: "MailboxId \<Rightarrow> ((MailboxId \<times> 'b) \<times> 'v) list \<Rightarrow> nat" where
  "rows_at a xs = length (filter (\<lambda>(k, r). fst k = a) xs)"

lemma metadata_usage_rows:
  "metadata_usage db a =
     (rows_at a (rd_bodies db) + rows_at a (rd_locators db) + rows_at a (rd_requests db) + rows_at a (rd_acceptances db)) * METADATA_BYTES"
  by (simp add: metadata_usage_def rows_at_def)

lemma rows_at_filter [simp]: "rows_at a (filter P xs) \<le> rows_at a xs"
  unfolding rows_at_def by (induction xs) auto

lemma rows_at_remove [simp]: "rows_at a (bt_remove k xs) \<le> rows_at a xs"
  by (simp add: bt_remove_def)

lemma rows_at_modify [simp]: "rows_at a (bt_modify k f xs) = rows_at a xs"
  unfolding rows_at_def bt_modify_def by (induction xs) auto

lemma rows_at_insert_new:
  "bt_get xs k = None \<Longrightarrow> rows_at a (bt_insert k v xs) = rows_at a xs + (if fst k = a then 1 else 0)"
proof (induction xs)
  case (Cons e xs)
  then show ?case by (cases e) (auto simp: rows_at_def bt_get_def split: if_splits)
qed (simp add: rows_at_def)

lemma rows_at_insert_old: "bt_wf xs \<Longrightarrow> bt_get xs k = Some w \<Longrightarrow> rows_at a (bt_insert k v xs) = rows_at a xs"
  using rows_at_modify [of a k "\<lambda>_. v" xs] bt_modify_eq_insert [of xs k w "\<lambda>_. v"] by simp

lemma rows_at_zero: "(\<And>k v. (k, v) \<in> set xs \<Longrightarrow> fst k \<noteq> a) \<Longrightarrow> rows_at a xs = 0"
  by (auto simp: rows_at_def filter_empty_conv)

lemma metadata_usage_mono:
  assumes "rows_at a (rd_bodies db') \<le> rows_at a (rd_bodies db)" "rows_at a (rd_locators db') \<le> rows_at a (rd_locators db)"
    "rows_at a (rd_requests db') \<le> rows_at a (rd_requests db)" "rows_at a (rd_acceptances db') \<le> rows_at a (rd_acceptances db)"
  shows "metadata_usage db' a \<le> metadata_usage db a"
  unfolding metadata_usage_rows using assms by (intro mult_right_mono add_mono) auto

lemma sum_filter_le:
  "(\<And>d. d \<in> set xs \<Longrightarrow> Q d \<Longrightarrow> P' d \<Longrightarrow> P d \<and> f' d \<le> (f d :: nat)) \<Longrightarrow>
   sum_list (map f' (filter P' (filter Q xs))) \<le> sum_list (map f (filter P xs))"
proof (induction xs)
  case (Cons x xs)
  then have "sum_list (map f' (filter P' (filter Q xs))) \<le> sum_list (map f (filter P xs))" by simp
  with Cons.prems [of x] show ?case by auto
qed simp

lemma retained_usage_mono:
  assumes "rd_deliveries db' = filter Q (rd_deliveries db)"
    and "\<And>d. d \<in> set (rd_deliveries db) \<Longrightarrow> Q d \<Longrightarrow> in_tree db' a d \<Longrightarrow> in_tree db a d \<and> delivery_size db' d \<le> delivery_size db d"
  shows "retained_usage db' a \<le> retained_usage db a"
  unfolding retained_usage_def assms(1) by (rule sum_filter_le) (use assms(2) in auto)

text \<open>Statements that only remove rows and deliveries, on the same mailboxes.\<close>

lemma quota_ok_shrink:
  assumes "quota_ok db" "rd_mailboxes db' = rd_mailboxes db" "rd_delegations db' = rd_delegations db"
    and "rd_deliveries db' = filter Q (rd_deliveries db)"
    and "\<And>d. d \<in> set (rd_deliveries db') \<Longrightarrow> delivery_size db' d = delivery_size db d"
    and "\<And>a. metadata_usage db' a \<le> metadata_usage db a"
  shows "quota_ok db'"
  unfolding quota_ok_def assms(2)
proof (intro allI impI conjI)
  fix a r
  assume r: "bt_get (rd_mailboxes db) a = Some r"
  have "retained_usage db' a \<le> retained_usage db a"
    by (rule retained_usage_mono [OF assms(4)]) (use assms(4,5) forest_same(6) [OF assms(3)] in auto)
  with r assms(1,6) show "retained_usage db' a + metadata_usage db' a \<le> mb_quota r"
    by (meson add_mono order_trans quota_ok_def)
  show "length (tree db' a) \<le> Suc MAX_CHILD_MAILBOXES"
    using r assms(1) by (simp add: quota_ok_def forest_same(3) [OF assms(3)])
qed

lemma deliveries_ok_filter:
  assumes "deliveries_ok db" "rd_deliveries db' = filter Q (rd_deliveries db)" "rd_sequence db' = rd_sequence db"
    and "\<And>d. d \<in> set (rd_deliveries db') \<Longrightarrow> bt_contains (rd_mailboxes db') (dl_mailbox d) \<and> bt_contains (rd_objects db') (dl_object d)"
  shows "deliveries_ok db'"
proof -
  have "sorted_wrt (<) (map dl_seq (filter Q xs))" if "sorted_wrt (<) (map dl_seq xs)" for xs
    using that by (induction xs) auto
  with assms show ?thesis by (auto simp: deliveries_ok_def distinct_map_filter)
qed

subsection \<open>The statements\<close>

lemma unpack_cong: "rd_credentials db' = rd_credentials db \<Longrightarrow> unpack db' o' = unpack db o'"
  by (cases "so_packed o'") (auto simp: unpack_def)

lemma bt_get_filter_fst: "bt_get (filter (\<lambda>e. P (fst e)) m) k = (if P k then bt_get m k else None)"
  by (induction m) (auto simp: bt_get_def)

lemma replica_ok_core:
  assumes "replica_ok E db" "same_core db db'"
  shows "replica_ok E db'"
proof -
  note c = assms(2) [unfolded same_core_def]
  have f: "forest_ok db'" using replica_okD(1) [OF assms(1)] forest_ok_same c by metis
  have u: "unpack db' o' = unpack db o'" for o' using c by (intro unpack_cong) simp
  have o: "objects_ok E db'" using replica_okD(3) [OF assms(1)] by (simp add: objects_ok_def object_ok_def u c)
  have m: "messages_ok db'" using replica_okD(4) [OF assms(1)] by (simp add: messages_ok_def root_row_def c)
  have d: "deliveries_ok db'" using replica_okD(2) [OF assms(1)] by (simp add: deliveries_ok_def c)
  have "quota_ok db'"
    by (rule quota_ok_shrink [OF replica_okD(5) [OF assms(1)], of _ "\<lambda>_. True"])
      (use c in \<open>simp_all add: delivery_size_def metadata_usage_def\<close>)
  with f o m d show ?thesis by (simp add: replica_ok_def)
qed

lemma delete_deliveries_ok:
  assumes "replica_ok E db"
  shows "replica_ok E (delete_deliveries P db)"
proof -
  let ?db = "delete_deliveries P db"
  have same: "rd_mailboxes ?db = rd_mailboxes db" "rd_delegations ?db = rd_delegations db" "rd_objects ?db = rd_objects db"
    "rd_credentials ?db = rd_credentials db" "rd_sequence ?db = rd_sequence db" "rd_bodies ?db = rd_bodies db"
    "rd_locators ?db = rd_locators db" "rd_requests ?db = rd_requests db" "rd_acceptances ?db = rd_acceptances db"
    "rd_pruned ?db = rd_pruned db"
    and dl: "rd_deliveries ?db = filter (\<lambda>d. \<not> P d) (rd_deliveries db)"
    by (simp_all add: delete_deliveries_def)
  have f: "forest_ok ?db" using replica_okD(1) [OF assms] forest_ok_same [of ?db db] same by simp
  have u: "unpack ?db o' = unpack db o'" for o' by (intro unpack_cong) (simp add: same)
  have "objects_ok E ?db" using replica_okD(3) [OF assms] by (simp add: objects_ok_def object_ok_def u same)
  moreover have "messages_ok ?db" using replica_okD(4) [OF assms] by (simp add: messages_ok_def root_row_def same)
  moreover have "deliveries_ok ?db"
    by (rule deliveries_ok_filter [OF replica_okD(2) [OF assms] dl]) (use replica_okD(2) [OF assms] in \<open>auto simp: same dl deliveries_ok_def\<close>)
  moreover have "quota_ok ?db"
    by (rule quota_ok_shrink [OF replica_okD(5) [OF assms] _ _ dl]) (simp_all add: same delivery_size_def metadata_usage_def)
  ultimately show ?thesis using f by (simp add: replica_ok_def)
qed

lemma delete_orphans_objects:
  "bt_get (rd_objects (delete_orphans P db)) ob = (if P ob \<and> \<not> object_used db ob then None else bt_get (rd_objects db) ob)"
  using bt_get_filter_fst [of "\<lambda>ob. \<not> (P ob \<and> \<not> object_used db ob)" "rd_objects db" ob] by (simp add: delete_orphans_def Let_def)

lemma delete_orphans_unpack:
  assumes "bt_wf (rd_objects db)" "bt_get (rd_objects (delete_orphans P db)) ob = Some o'"
  shows "unpack (delete_orphans P db) o' = unpack db o'"
proof (cases "so_packed o'")
  case (Some x)
  obtain c i n where x: "x = (c, i, n)" by (cases x)
  from assms have in': "(ob, o') \<in> set (rd_objects db)" and kept: "\<not> (P ob \<and> \<not> object_used db ob)"
    by (auto simp: delete_orphans_objects bt_get_iff split: if_splits)
  have "object_credential o' = Some c" by (simp add: object_credential_def Some x)
  with in' kept have "bt_get (rd_credentials (delete_orphans P db)) c = bt_get (rd_credentials db) c"
    by (auto simp: delete_orphans_def Let_def bt_get_filter_keys list_ex_iff)
  then show ?thesis by (simp add: unpack_def Some x)
qed (simp add: unpack_def)

lemma delete_orphans_ok:
  assumes "replica_ok E db"
  shows "replica_ok E (delete_orphans P db)"
proof -
  let ?db = "delete_orphans P db"
  have same: "rd_mailboxes ?db = rd_mailboxes db" "rd_delegations ?db = rd_delegations db" "rd_deliveries ?db = rd_deliveries db"
    "rd_sequence ?db = rd_sequence db" "rd_bodies ?db = rd_bodies db" "rd_locators ?db = rd_locators db" "rd_requests ?db = rd_requests db"
    "rd_acceptances ?db = rd_acceptances db" "rd_pruned ?db = rd_pruned db"
    by (simp_all add: delete_orphans_def Let_def)
  note ob = replica_okD(3) [OF assms, unfolded objects_ok_def]
  have wf: "bt_wf (rd_objects ?db)" "bt_wf (rd_credentials ?db)"
    using ob by (simp_all add: delete_orphans_def Let_def bt_wf_filter)
  have used: "bt_get (rd_objects ?db) (dl_object d) = bt_get (rd_objects db) (dl_object d)" if "d \<in> set (rd_deliveries db)" for d
    using that by (auto simp: delete_orphans_objects object_used_def list_ex_iff)
  have f: "forest_ok ?db" using replica_okD(1) [OF assms] forest_ok_same [of ?db db] same by simp
  have "objects_ok E ?db"
    using ob wf delete_orphans_unpack [of db P] by (auto simp: objects_ok_def object_ok_def delete_orphans_objects split: if_splits)
  moreover have "messages_ok ?db" using replica_okD(4) [OF assms] by (simp add: messages_ok_def root_row_def same)
  moreover have "deliveries_ok ?db"
    using replica_okD(2) [OF assms] used by (simp add: deliveries_ok_def same bt_contains_def)
  moreover have "quota_ok ?db"
    by (rule quota_ok_shrink [OF replica_okD(5) [OF assms], of _ "\<lambda>_. True"]) (simp_all add: same delivery_size_def metadata_usage_def used)
  ultimately show ?thesis using f by (simp add: replica_ok_def)
qed

subsection \<open>Rows about messages\<close>

lemma bt_get_filter_pair: "bt_get (filter (\<lambda>((a, b), v). P a b) m) k = (if P (fst k) (snd k) then bt_get m k else None)"
  by (induction m) (auto simp: bt_get_def)

lemma bt_get_filter_triple:
  "bt_get (filter (\<lambda>((a, b, c), v). P a b c) m) k = (if P (fst k) (fst (snd k)) (snd (snd k)) then bt_get m k else None)"
  by (induction m) (auto simp: bt_get_def)

lemma bt_contains_filter: "bt_contains (filter Q m) k \<Longrightarrow> bt_contains m k"
  by (auto simp: bt_contains_iff)

definition same_objects :: "replica_db \<Rightarrow> replica_db \<Rightarrow> bool" where
  "same_objects db db' \<longleftrightarrow>
     rd_mailboxes db' = rd_mailboxes db \<and> rd_delegations db' = rd_delegations db \<and> rd_objects db' = rd_objects db
     \<and> rd_credentials db' = rd_credentials db \<and> rd_deliveries db' = rd_deliveries db \<and> rd_sequence db' = rd_sequence db"

lemma messages_change_ok:
  assumes "replica_ok E db" "same_objects db db'" "messages_ok db'"
    and "\<And>a r. bt_get (rd_mailboxes db) a = Some r \<Longrightarrow> retained_usage db a + metadata_usage db' a \<le> mb_quota r"
  shows "replica_ok E db'"
proof -
  note c = assms(2) [unfolded same_objects_def]
  have f: "forest_ok db'" using replica_okD(1) [OF assms(1)] forest_ok_same c by metis
  have u: "unpack db' o' = unpack db o'" for o' using c by (intro unpack_cong) simp
  have "objects_ok E db'" using replica_okD(3) [OF assms(1)] by (simp add: objects_ok_def object_ok_def u c)
  moreover have "deliveries_ok db'" using replica_okD(2) [OF assms(1)] by (simp add: deliveries_ok_def c)
  moreover have "delivery_size db' = delivery_size db" by (rule ext) (simp add: delivery_size_def c)
  then have "retained_usage db' a = retained_usage db a" for a
    using forest_same(6) [of db' db] c by (simp add: retained_usage_def)
  then have "quota_ok db'"
    using replica_okD(5) [OF assms(1)] assms(4) forest_same(3) [of db' db] c by (simp add: quota_ok_def)
  ultimately show ?thesis using f assms(3) by (simp add: replica_ok_def)
qed

lemma messages_shrink_ok:
  assumes "replica_ok E db" "same_objects db db'" "messages_ok db'" "\<And>a. metadata_usage db' a \<le> metadata_usage db a"
  shows "replica_ok E db'"
proof (rule messages_change_ok [OF assms(1-3)])
  fix a r
  assume "bt_get (rd_mailboxes db) a = Some r"
  with replica_okD(5) [OF assms(1)] have "retained_usage db a + metadata_usage db a \<le> mb_quota r" by (simp add: quota_ok_def)
  with assms(4) [of a] show "retained_usage db a + metadata_usage db' a \<le> mb_quota r" by simp
qed

lemma delete_bodies_ok:
  assumes "replica_ok E db"
  shows "replica_ok E (delete_bodies P db)"
proof -
  let ?db = "delete_bodies P db"
  note m = replica_okD(4) [OF assms, unfolded messages_ok_def]
  have b: "bt_get (rd_bodies ?db) k = (if P k then None else bt_get (rd_bodies db) k)" for k
    by (simp add: delete_bodies_def bt_get_filter_keys)
  have r: "bt_get (rd_requests ?db) k = (if P (fst k, fst (snd k)) \<and> bt_contains (rd_bodies db) (fst k, fst (snd k)) then None
      else bt_get (rd_requests db) k)" for k
    by (simp add: delete_bodies_def bt_get_filter_triple)
  have a: "bt_get (rd_acceptances ?db) k = (if P (fst k, fst (snd k)) \<and> bt_contains (rd_bodies db) (fst k, fst (snd k)) then None
      else bt_get (rd_acceptances db) k)" for k
    by (simp add: delete_bodies_def bt_get_filter_triple)
  have wf: "bt_wf (rd_bodies ?db)" "bt_wf (rd_requests ?db)" "bt_wf (rd_acceptances ?db)"
    using m by (simp_all add: delete_bodies_def bt_wf_filter)
  have same: "rd_locators ?db = rd_locators db" "rd_pruned ?db = rd_pruned db" "root_row ?db = root_row db"
    by (simp_all add: delete_bodies_def root_row_def fun_eq_iff)
  have req: "bt_contains (rd_bodies ?db) (x, y)" if "bt_contains (rd_requests ?db) (x, y, z)" for x y z
    using that messages_okD(9) [OF replica_okD(4) [OF assms], of x y z] by (auto simp: bt_contains_def b r split: if_splits)
  have acc: "bt_contains (rd_bodies ?db) (x, y)" if "bt_contains (rd_acceptances ?db) (x, y, z)" for x y z
    using that messages_okD(10) [OF replica_okD(4) [OF assms], of x y z] by (auto simp: bt_contains_def b a split: if_splits)
  have "messages_ok ?db"
    unfolding messages_ok_def same using m wf req acc by (auto simp: b split: if_splits)
  then show ?thesis
    by (intro messages_shrink_ok [OF assms] metadata_usage_mono) (simp_all add: same_objects_def delete_bodies_def)
qed

text \<open>A change of body rows under their keys.\<close>

lemma modify_body_ok:
  assumes "replica_ok E db" "\<And>r. body_row_ok r \<Longrightarrow> body_row_ok (f r)"
  shows "replica_ok E (db\<lparr>rd_bodies := bt_modify k f (rd_bodies db)\<rparr>)"
proof -
  let ?db = "db\<lparr>rd_bodies := bt_modify k f (rd_bodies db)\<rparr>"
  note m = replica_okD(4) [OF assms(1), unfolded messages_ok_def]
  have "bt_contains (rd_bodies ?db) = bt_contains (rd_bodies db)"
    by (auto simp: fun_eq_iff bt_contains_def)
  moreover have "root_row ?db = root_row db" by (simp add: root_row_def fun_eq_iff)
  ultimately have "messages_ok ?db"
    using m assms(2) by (auto simp: messages_ok_def split: if_splits)
  then show ?thesis
    by (intro messages_shrink_ok [OF assms(1)] metadata_usage_mono) (simp_all add: same_objects_def)
qed

lemma expire_row_ok: "body_row_ok r \<Longrightarrow> body_row_ok (expire_row time r)"
  by (simp add: body_row_ok_def expire_row_def)

lemma filter_requests_ok:
  assumes "replica_ok E db"
  shows "replica_ok E (db\<lparr>rd_requests := filter P (rd_requests db), rd_acceptances := filter Q (rd_acceptances db)\<rparr>)"
    (is "replica_ok E ?db")
proof -
  note m = replica_okD(4) [OF assms, unfolded messages_ok_def]
  have "root_row ?db = root_row db" by (simp add: root_row_def fun_eq_iff)
  then have "messages_ok ?db"
    using m unfolding messages_ok_def by (simp add: bt_wf_filter) (blast dest: bt_contains_filter)
  then show ?thesis
    by (intro messages_shrink_ok [OF assms] metadata_usage_mono) (simp_all add: same_objects_def)
qed

lemma remove_request_ok:
  assumes "replica_ok E db"
  shows "replica_ok E (db\<lparr>rd_requests := bt_remove k (rd_requests db)\<rparr>)"
proof -
  have "db\<lparr>rd_requests := bt_remove k (rd_requests db)\<rparr>
      = db\<lparr>rd_requests := filter (\<lambda>e. fst e \<noteq> k) (rd_requests db), rd_acceptances := filter (\<lambda>_. True) (rd_acceptances db)\<rparr>"
    by (simp add: bt_remove_def)
  then show ?thesis using filter_requests_ok [OF assms] by metis
qed

lemma remove_locator_row_ok:
  assumes "replica_ok E db"
  shows "replica_ok E (db\<lparr>rd_locators := bt_remove k (rd_locators db)\<rparr>)" (is "replica_ok E ?db")
proof -
  note m = replica_okD(4) [OF assms, unfolded messages_ok_def]
  have "root_row ?db = root_row db" by (simp add: root_row_def fun_eq_iff)
  then have "messages_ok ?db"
    using m unfolding messages_ok_def by (simp add: bt_remove_def bt_wf_filter) (blast dest: bt_contains_filter)
  then show ?thesis
    by (intro messages_shrink_ok [OF assms] metadata_usage_mono) (simp_all add: same_objects_def)
qed

lemma remove_body_ok: "replica_ok E db \<Longrightarrow> replica_ok E (remove_body db root ob time)"
  unfolding remove_body_def Let_def
  by (intro delete_orphans_ok modify_body_ok delete_deliveries_ok expire_row_ok)

lemma remove_locator_ok: "replica_ok E db \<Longrightarrow> replica_ok E (remove_locator db root ob body)"
  unfolding remove_locator_def Let_def
  by (intro delete_orphans_ok delete_bodies_ok remove_locator_row_ok delete_deliveries_ok)

lemma fold_ok: "(\<And>x db. P db \<Longrightarrow> P (f x db)) \<Longrightarrow> P db \<Longrightarrow> P (fold f xs db)"
  by (induction xs arbitrary: db) auto

lemma sweep_ok: "replica_ok E db \<Longrightarrow> replica_ok E (sweep db time)"
  unfolding sweep_def Let_def sweep_locators_def sweep_bodies_def
  by (intro filter_requests_ok fold_ok [where P = "replica_ok E"]) (auto intro: remove_body_ok remove_locator_ok)

subsection \<open>Mailboxes\<close>

lemma tree_length_mono:
  assumes "forest_ok db" "forest_ok db'" "set (tree db' a) \<subseteq> insert m (set (tree db a))"
  shows "length (tree db' a) \<le> Suc (length (tree db a))" "m \<in> set (tree db a) \<Longrightarrow> length (tree db' a) \<le> length (tree db a)"
proof -
  have l: "length (tree db' a) = card (set (tree db' a))" "length (tree db a) = card (set (tree db a))"
    using distinct_tree assms(1,2) by (simp_all add: distinct_card)
  have "card (set (tree db' a)) \<le> card (insert m (set (tree db a)))" by (rule card_mono) (use assms(3) in auto)
  then show "length (tree db' a) \<le> Suc (length (tree db a))" "m \<in> set (tree db a) \<Longrightarrow> length (tree db' a) \<le> length (tree db a)"
    unfolding l by (auto simp: card_insert_if insert_absorb split: if_splits)
qed

lemma delete_tree_rows_sel:
  "rd_mailboxes (delete_tree_rows ids db) = filter (\<lambda>(m, r). m \<notin> set ids) (rd_mailboxes db)"
  "rd_delegations (delete_tree_rows ids db) = filter (\<lambda>(m, r). m \<notin> set ids) (rd_delegations db)"
  "rd_deliveries (delete_tree_rows ids db) = filter (\<lambda>d. \<not> dl_mailbox d \<in> set ids) (rd_deliveries db)"
  "rd_objects (delete_tree_rows ids db) = rd_objects db" "rd_credentials (delete_tree_rows ids db) = rd_credentials db"
  "rd_sequence (delete_tree_rows ids db) = rd_sequence db"
  "rd_locators (delete_tree_rows ids db) = filter (\<lambda>((m, ob), r). m \<notin> set ids) (rd_locators db)"
  "rd_pruned (delete_tree_rows ids db) = filter (\<lambda>((m, ob), r). m \<notin> set ids) (rd_pruned db)"
  "rd_bodies (delete_tree_rows ids db) = rd_bodies (delete_bodies (\<lambda>(m, ob). m \<in> set ids) db)"
  "rd_requests (delete_tree_rows ids db) = rd_requests (delete_bodies (\<lambda>(m, ob). m \<in> set ids) db)"
  "rd_acceptances (delete_tree_rows ids db) = rd_acceptances (delete_bodies (\<lambda>(m, ob). m \<in> set ids) db)"
  by (simp_all add: delete_tree_rows_def delete_deliveries_def delete_mailboxes_def delete_bodies_def Let_def)

lemma delete_tree_rows_messages:
  assumes "messages_ok (delete_bodies (\<lambda>(m, ob). m \<in> set ids) db)" "messages_ok db"
  shows "messages_ok (delete_tree_rows ids db)"
proof -
  let ?db = "delete_tree_rows ids db"
  have root: "root_row ?db m" if "root_row db m" "m \<notin> set ids" for m
    using that by (simp add: root_row_def delete_tree_rows_sel bt_contains_def bt_get_filter_keys)
  have body: "bt_get (rd_bodies ?db) k = (if fst k \<in> set ids then None else bt_get (rd_bodies db) k)" for k
    by (cases k) (simp add: delete_tree_rows_sel delete_bodies_def bt_get_filter_keys)
  have loc: "bt_contains (rd_locators ?db) k \<longleftrightarrow> fst k \<notin> set ids \<and> bt_contains (rd_locators db) k"
    "bt_contains (rd_pruned ?db) k \<longleftrightarrow> fst k \<notin> set ids \<and> bt_contains (rd_pruned db) k" for k
    unfolding delete_tree_rows_sel bt_contains_def bt_get_filter_pair by simp_all
  have wf: "bt_wf (rd_locators ?db)" "bt_wf (rd_pruned ?db)"
    using messages_okD [OF assms(2)] by (simp_all add: delete_tree_rows_sel bt_wf_filter)
  note old = messages_okD [OF assms(2)] and mid = messages_okD [OF assms(1), folded delete_tree_rows_sel]
  show ?thesis
    unfolding messages_ok_def
    using wf mid(1,3,4,9,10) root old(6-8) by (auto simp: body loc split: if_splits)
qed

lemma delete_tree_rows_ok:
  assumes ok: "replica_ok E db" and down: "down_closed db ids"
  shows "replica_ok E (delete_tree_rows ids db)"
proof -
  let ?db = "delete_tree_rows ids db"
  note sel = delete_tree_rows_sel [of ids db]
  note f = forest_delete [OF replica_okD(1) [OF ok] down sel(2,1)]
  note db1 = delete_bodies_ok [OF ok, of "\<lambda>(m, ob). m \<in> set ids"]
  have u: "unpack ?db o' = unpack db o'" for o' by (intro unpack_cong) (simp add: sel)
  have "objects_ok E ?db" using replica_okD(3) [OF ok] by (simp add: objects_ok_def object_ok_def u sel)
  moreover have "messages_ok ?db" by (rule delete_tree_rows_messages [OF replica_okD(4) [OF db1] replica_okD(4) [OF ok]])
  moreover have "deliveries_ok ?db"
    by (rule deliveries_ok_filter [OF replica_okD(2) [OF ok] sel(3)])
      (use replica_okD(2) [OF ok] in \<open>auto simp: sel bt_contains_def bt_get_filter_keys deliveries_ok_def\<close>)
  moreover have "quota_ok ?db"
    unfolding quota_ok_def
  proof (intro allI impI conjI)
    fix a r
    assume "bt_get (rd_mailboxes ?db) a = Some r"
    then have a: "a \<notin> set ids" "bt_get (rd_mailboxes db) a = Some r" by (auto simp: sel bt_get_filter_keys split: if_splits)
    have q: "retained_usage db a + metadata_usage db a \<le> mb_quota r" "length (tree db a) \<le> Suc MAX_CHILD_MAILBOXES"
      using replica_okD(5) [OF ok] a(2) by (auto simp: quota_ok_def)
    have "retained_usage ?db a \<le> retained_usage db a"
      by (rule retained_usage_mono [OF sel(3)])
        (use f a in \<open>auto simp: in_tree_delivery replica_okD(1) [OF ok] delivery_size_def sel\<close>)
    moreover have "metadata_usage ?db a \<le> metadata_usage db a"
      by (intro metadata_usage_mono) (simp_all add: sel delete_bodies_def)
    ultimately show "retained_usage ?db a + metadata_usage ?db a \<le> mb_quota r" using q(1) by simp
    have "a \<in> set (tree db a)" using in_tree_iff ancestors_self replica_okD(1) [OF ok] by simp
    moreover have "set (tree ?db a) \<subseteq> insert a (set (tree db a))"
    proof
      fix x assume x: "x \<in> set (tree ?db a)"
      show "x \<in> insert a (set (tree db a))"
      proof (cases "x \<in> set ids")
        case True
        then have "mailbox_parent ?db x = None" by (simp add: mailbox_parent_def sel bt_get_filter_keys)
        with x f(1) show ?thesis by (simp add: in_tree_iff ancestors_eq)
      next
        case False
        with x f replica_okD(1) [OF ok] show ?thesis by (simp add: in_tree_iff)
      qed
    qed
    ultimately show "length (tree ?db a) \<le> Suc MAX_CHILD_MAILBOXES"
      using tree_length_mono(2) [OF replica_okD(1) [OF ok] f(1)] q(2) by (meson order_trans)
  qed
  ultimately show ?thesis using f(1) by (simp add: replica_ok_def)
qed

text \<open>A new mailbox starts empty; the trees above it grow by one.\<close>

lemma new_mailbox_empty:
  assumes "replica_ok E db" "\<not> bt_contains (rd_mailboxes db) m"
  shows "metadata_usage db m = 0" "d \<in> set (rd_deliveries db) \<Longrightarrow> m \<notin> set (ancestors db (dl_mailbox d))"
proof -
  note mm = messages_okD [OF replica_okD(4) [OF assms(1)]]
  have no: "fst k \<noteq> m" if "root_row db (fst k)" for k :: "MailboxId \<times> ObjectId"
    using that assms(2) by (auto simp: root_row_def)
  have b: "fst k \<noteq> m" if "(k, r) \<in> set (rd_bodies db)" for k r
    using mm(6) [of k r] that no by (simp add: bt_get_iff mm(1))
  have l: "fst k \<noteq> m" if "(k, r) \<in> set (rd_locators db)" for k r
    using mm(7) [of k] that no by (force simp: bt_contains_iff)
  have bodies: "x \<noteq> m" if "bt_contains (rd_bodies db) (x, y)" for x y
    using that b [of "(x, y)"] by (force simp: bt_contains_iff)
  have r: "fst k \<noteq> m" if "(k, r) \<in> set (rd_requests db)" for k r
    using mm(9) [of "fst k" "fst (snd k)" "snd (snd k)"] that bodies by (force simp: bt_contains_iff)
  have a: "fst k \<noteq> m" if "(k, r) \<in> set (rd_acceptances db)" for k r
    using mm(10) [of "fst k" "fst (snd k)" "snd (snd k)"] that bodies by (force simp: bt_contains_iff)
  have "rows_at m (rd_bodies db) = 0" "rows_at m (rd_locators db) = 0" "rows_at m (rd_requests db) = 0" "rows_at m (rd_acceptances db) = 0"
    by (rule rows_at_zero, erule b, rule rows_at_zero, erule l, rule rows_at_zero, erule r, rule rows_at_zero, erule a)
  then show "metadata_usage db m = 0" by (simp add: metadata_usage_rows)
  assume "d \<in> set (rd_deliveries db)"
  then have "bt_contains (rd_mailboxes db) (dl_mailbox d)" using replica_okD(2) [OF assms(1)] by (simp add: deliveries_ok_def)
  with assms(2) ancestors_mailboxes [OF replica_okD(1) [OF assms(1)]] show "m \<notin> set (ancestors db (dl_mailbox d))" by blast
qed

lemma add_mailbox_ok:
  assumes ok: "replica_ok E db" and new: "\<not> bt_contains (rd_mailboxes db) m"
    and db': "db' = db\<lparr>rd_mailboxes := bt_insert m r (rd_mailboxes db), rd_delegations := ds\<rparr>"
    and f: "forest_ok db'" and anc: "\<And>y. y \<noteq> m \<Longrightarrow> ancestors db' y = ancestors db y"
    and kept: "\<And>y. y \<noteq> m \<Longrightarrow> bt_get ds y = bt_get (rd_delegations db) y"
    and room: "\<And>a. a \<noteq> m \<Longrightarrow> a \<in> set (ancestors db' m) \<Longrightarrow> length (tree db a) \<le> MAX_CHILD_MAILBOXES"
  shows "replica_ok E db'"
proof -
  have u: "unpack db' o' = unpack db o'" for o' by (intro unpack_cong) (simp add: db')
  have "objects_ok E db'" using replica_okD(3) [OF ok] unfolding objects_ok_def object_ok_def u by (simp add: db')
  moreover have "deliveries_ok db'"
    using replica_okD(2) [OF ok] by (auto simp: deliveries_ok_def db' bt_contains_def)
  moreover have root: "root_row db' x" if "root_row db x" for x
  proof -
    from that new have "x \<noteq> m" by (auto simp: root_row_def)
    with that kept show ?thesis by (auto simp: root_row_def db' bt_contains_def)
  qed
  then have "messages_ok db'"
    using messages_okD [OF replica_okD(4) [OF ok]] unfolding messages_ok_def by (simp add: db')
  moreover have "quota_ok db'"
    unfolding quota_ok_def
  proof (intro allI impI conjI)
    fix a x
    assume a: "bt_get (rd_mailboxes db') a = Some x"
    have intree: "in_tree db' a d \<longleftrightarrow> a \<in> set (ancestors db (dl_mailbox d))" if "d \<in> set (rd_deliveries db)" for d
    proof -
      have "dl_mailbox d \<noteq> m" using that replica_okD(2) [OF ok] new by (auto simp: deliveries_ok_def)
      then show ?thesis using anc by (simp add: in_tree_delivery [OF f])
    qed
    have size: "delivery_size db' = delivery_size db" by (rule ext) (simp add: delivery_size_def db')
    have deliv: "rd_deliveries db' = rd_deliveries db" and md: "metadata_usage db' a = metadata_usage db a"
      by (simp_all add: db' metadata_usage_def)
    have "filter (in_tree db' a) (rd_deliveries db) = filter (\<lambda>d. a \<in> set (ancestors db (dl_mailbox d))) (rd_deliveries db)"
      using intree by (intro filter_cong) auto
    then have ret: "retained_usage db' a = sum_list (map (delivery_size db) (filter (\<lambda>d. a \<in> set (ancestors db (dl_mailbox d))) (rd_deliveries db)))"
      by (simp add: retained_usage_def deliv size)
    show "retained_usage db' a + metadata_usage db' a \<le> mb_quota x"
    proof (cases "a = m")
      case True
      with new_mailbox_empty [OF ok new] ret md show ?thesis by (simp add: filter_False)
    next
      case False
      then have "bt_get (rd_mailboxes db) a = Some x" using a by (simp add: db')
      moreover have "retained_usage db' a = retained_usage db a"
        using ret by (simp add: retained_usage_def [of db a] in_tree_delivery [OF replica_okD(1) [OF ok], abs_def])
      ultimately show ?thesis using replica_okD(5) [OF ok] by (simp add: quota_ok_def md)
    qed
    have sub: "set (tree db' a) \<subseteq> insert m (set (tree db a))"
      using anc in_tree_iff [OF f] in_tree_iff [OF replica_okD(1) [OF ok]] by (metis insert_iff subsetI)
    show "length (tree db' a) \<le> Suc MAX_CHILD_MAILBOXES"
    proof (cases "a \<noteq> m \<and> a \<in> set (ancestors db' m)")
      case True
      then have "length (tree db a) \<le> MAX_CHILD_MAILBOXES" using room by blast
      with tree_length_mono(1) [OF replica_okD(1) [OF ok] f sub] show ?thesis by simp
    next
      case no: False
      show ?thesis
      proof (cases "a = m")
        case True
        have "x = m" if "x \<in> set (tree db' m)" for x
        proof (rule ccontr)
          assume x: "x \<noteq> m"
          then have m: "m \<in> set (ancestors db x)" using that anc f by (simp add: in_tree_iff)
          then have "mailbox_parent db x \<noteq> None" using x by (auto simp: ancestors_eq [OF replica_okD(1) [OF ok]] split: option.splits)
          then have "bt_contains (rd_mailboxes db) x" using replica_okD(1) [OF ok] by (auto simp: forest_ok_def mailbox_parent_def)
          with m new ancestors_mailboxes [OF replica_okD(1) [OF ok]] show False by blast
        qed
        then have "set (tree db' m) \<subseteq> {m}" by blast
        then have "card (set (tree db' m)) \<le> 1" using card_mono [of "{m}"] by force
        then show ?thesis using distinct_card [OF distinct_tree [OF f, of m]] True by simp
      next
        case False
        then have "bt_get (rd_mailboxes db) a = Some x" using a by (simp add: db')
        then have "length (tree db a) \<le> Suc MAX_CHILD_MAILBOXES" using replica_okD(5) [OF ok] by (simp add: quota_ok_def)
        moreover have "set (tree db' a) \<subseteq> insert a (set (tree db a))"
          using sub no False f by (auto simp: in_tree_iff)
        moreover have "a \<in> set (tree db a)" using in_tree_iff ancestors_self replica_okD(1) [OF ok] by simp
        ultimately show ?thesis using tree_length_mono(2) [OF replica_okD(1) [OF ok] f] by (meson order_trans)
      qed
    qed
  qed
  ultimately show ?thesis using f by (simp add: replica_ok_def)
qed

end
