(* ===== verification/Replica_Service.thy ===== *)
theory Replica_Service
  imports Replica_Invariant Machines
begin

text \<open>
  The replica as a machine. Each operation keeps the invariant of theory Replica\_Invariant; the
  machine takes the operations in any order, each with the time its clock shows, and the locale
  \<open>invariant_machine\<close> lifts the invariant to every run.
\<close>

subsection \<open>Mailboxes\<close>

lemma reserve_mailbox_ok:
  assumes "replica_ok E db" "reserve_mailbox E db d quota = Inr db'"
  shows "replica_ok E db'"
proof (cases "bt_get (rd_mailboxes db) (md_mailbox_id d)")
  case None
  then obtain r where db': "db' = db\<lparr>rd_mailboxes := bt_insert (md_mailbox_id d) r (rd_mailboxes db), rd_delegations := rd_delegations db\<rparr>"
    using assms(2) by (auto simp: reserve_mailbox_def result_simps split: if_splits)
  have new: "\<not> bt_contains (rd_mailboxes db) (md_mailbox_id d)" using None by (simp add: bt_contains_def)
  have f: "forest_ok db'" by (rule forest_add_root [OF replica_okD(1) [OF assms(1)] new]) (simp_all add: db')
  have anc: "ancestors db' = ancestors db" by (rule forest_same) (simp add: db')
  have "mailbox_parent db (md_mailbox_id d) = None"
    using new replica_okD(1) [OF assms(1)] by (cases "bt_get (rd_delegations db) (md_mailbox_id d)") (auto simp: mailbox_parent_def forest_ok_def)
  then have "ancestors db' (md_mailbox_id d) = [md_mailbox_id d]" by (simp add: anc ancestors_eq [OF replica_okD(1) [OF assms(1)]])
  then show ?thesis by (intro add_mailbox_ok [OF assms(1) new db' f]) (simp_all add: anc)
qed (use assms in \<open>auto simp: reserve_mailbox_def result_simps split: if_splits\<close>)

lemma delete_mailbox_tree_ok: "replica_ok E db \<Longrightarrow> replica_ok E (delete_mailbox_tree db m)"
  unfolding delete_mailbox_tree_def tree_def
  by (intro delete_orphans_ok delete_tree_rows_ok down_closed_descend) (auto dest: replica_okD)

lemma release_expired_ok:
  assumes "replica_ok E db"
  shows "replica_ok E (release_expired db time)"
proof -
  have "replica_ok E (delete_tree_rows (expired_mailboxes db time) db)"
    unfolding expired_mailboxes_def by (intro delete_tree_rows_ok [OF assms] down_closed_descend replica_okD(1) [OF assms])
  then show ?thesis unfolding release_expired_def Let_def by (cases "expired_mailboxes db time = []") (auto intro: delete_orphans_ok)
qed

lemma create_child_Inr:
  assumes "create_child E db parent token child clock = Inr db'" "db' \<noteq> db"
  obtains time rd wr where
    "replica_now clock = Inr time" "mailbox_authorize E db parent token True clock = Inr ()"
    "time < ch_expires_at child" "ch_expires_at child \<le> time + MAX_MAILBOX_LIFETIME_MS" "ch_quota_bytes child \<noteq> 0"
    "length (ancestors (release_expired db time) parent) \<le> 2"
    "\<forall>a \<in> set (ancestors (release_expired db time) parent). child_budget (release_expired db time) child a = Inr ()"
    "bt_get (rd_mailboxes (release_expired db time)) (md_mailbox_id (ch_descriptor child)) = None"
    "db' = (release_expired db time)\<lparr>rd_mailboxes := bt_insert (md_mailbox_id (ch_descriptor child))
        \<lparr>mb_read = rd, mb_write = wr, mb_quota = ch_quota_bytes child\<rparr> (rd_mailboxes (release_expired db time)),
      rd_delegations := bt_insert (md_mailbox_id (ch_descriptor child))
        \<lparr>dg_parent = parent, dg_expires = ch_expires_at child\<rparr> (rd_delegations (release_expired db time))\<rparr>"
proof -
  let ?i = "md_mailbox_id (ch_descriptor child)"
  from assms(1) obtain rd wr time where
    t: "replica_now clock = Inr time" "mailbox_authorize E db parent token True clock = Inr ()"
      "time < ch_expires_at child" "ch_expires_at child \<le> time + MAX_MAILBOX_LIFETIME_MS" "ch_quota_bytes child \<noteq> 0"
      "length (ancestors (release_expired db time) parent) \<le> 2"
    and c: "(case (bt_get (rd_delegations (release_expired db time)) ?i, bt_get (rd_mailboxes (release_expired db time)) ?i) of
       (Some d, Some r) \<Rightarrow>
         if dg_parent d = parent \<and> mb_read r = rd \<and> mb_write r = wr \<and> mb_quota r = ch_quota_bytes child
            \<and> dg_expires d = ch_expires_at child
         then Inr db else Inl RE_Conflict
     | (_, existing) \<Rightarrow>
         bindr (check_all (child_budget (release_expired db time) child) (ancestors (release_expired db time) parent)) (\<lambda>_.
         if existing \<noteq> None then Inl RE_Conflict
         else if ch_expires_at child > MAX_INTEGER then Inl RE_Storage
         else Inr ((release_expired db time)\<lparr>rd_mailboxes := bt_insert ?i \<lparr>mb_read = rd, mb_write = wr, mb_quota = ch_quota_bytes child\<rparr>
                (rd_mailboxes (release_expired db time)),
              rd_delegations := bt_insert ?i \<lparr>dg_parent = parent, dg_expires = ch_expires_at child\<rparr> (rd_delegations (release_expired db time))\<rparr>)))
      = Inr db'"
    unfolding create_child_def Let_def bindr_eq_Inr guard_eq_Inr by (auto simp: not_le not_less)
  from c assms(2) have
    "check_all (child_budget (release_expired db time) child) (ancestors (release_expired db time) parent) = Inr ()
     \<and> bt_get (rd_mailboxes (release_expired db time)) ?i = None
     \<and> db' = (release_expired db time)\<lparr>rd_mailboxes := bt_insert ?i \<lparr>mb_read = rd, mb_write = wr, mb_quota = ch_quota_bytes child\<rparr>
                (rd_mailboxes (release_expired db time)),
              rd_delegations := bt_insert ?i \<lparr>dg_parent = parent, dg_expires = ch_expires_at child\<rparr> (rd_delegations (release_expired db time))\<rparr>"
    by (auto simp: bindr_eq_Inr guard_eq_Inr split: option.splits if_splits)
  with t that show thesis by (simp add: check_all_iff)
qed

lemma create_child_ok:
  assumes "replica_ok E db" "create_child E db parent token child clock = Inr db'"
  shows "replica_ok E db'"
proof (cases "db' = db")
  case False
  from assms(2) this show ?thesis
  proof (rule create_child_Inr)
    fix time rd wr
    let ?db = "release_expired db time" and ?i = "md_mailbox_id (ch_descriptor child)"
    let ?x = "\<lparr>dg_parent = parent, dg_expires = ch_expires_at child\<rparr>"
    assume short: "length (ancestors ?db parent) \<le> 2"
      and budget: "\<forall>a \<in> set (ancestors ?db parent). child_budget ?db child a = Inr ()"
      and new': "bt_get (rd_mailboxes ?db) ?i = None"
      and db': "db' = ?db\<lparr>rd_mailboxes := bt_insert ?i \<lparr>mb_read = rd, mb_write = wr, mb_quota = ch_quota_bytes child\<rparr> (rd_mailboxes ?db),
        rd_delegations := bt_insert ?i ?x (rd_delegations ?db)\<rparr>"
    have ok: "replica_ok E ?db" by (rule release_expired_ok [OF assms(1)])
    have new: "\<not> bt_contains (rd_mailboxes ?db) ?i" using new' by (simp add: bt_contains_def)
    have par: "bt_contains (rd_mailboxes ?db) parent" "\<And>d. bt_get (rd_delegations ?db) parent = Some d \<Longrightarrow> dg_expires ?x \<le> dg_expires d"
      using budget ancestors_self [OF replica_okD(1) [OF ok], of parent]
      by (force simp: child_budget_def result_simps bt_contains_def split: if_splits)+
    note f = forest_add_child [OF replica_okD(1) [OF ok] new par(1) short par(2), where db' = db']
    have fo: "forest_ok db'" "ancestors db' ?i = ?i # ancestors ?db parent" "\<And>y. y \<noteq> ?i \<Longrightarrow> ancestors db' y = ancestors ?db y"
      using f by (auto simp: db')
    have room: "length (tree ?db a) \<le> MAX_CHILD_MAILBOXES" if "a \<in> set (ancestors ?db parent)" for a
      using budget that by (fastforce simp: child_budget_def result_simps split: if_splits)
    show ?thesis by (rule add_mailbox_ok [OF ok new db' fo(1,3)]) (use room fo(2) in auto)
  qed
qed (use assms in simp)

subsection \<open>Members, accounts and cleanup\<close>

lemma set_space_members_ok:
  assumes "replica_ok E db" "set_space_members db m ids = Inr db'"
  shows "replica_ok E db'"
proof -
  from assms(2) obtain P Q where "same_core (db\<lparr>rd_requests := filter P (rd_requests db), rd_acceptances := filter Q (rd_acceptances db)\<rparr>) db'"
    by (auto simp: set_space_members_def result_simps Let_def same_core_def split: if_splits)
  then show ?thesis by (rule replica_ok_core [OF filter_requests_ok [OF assms(1)]])
qed

lemma consume_access_ok:
  assumes "replica_ok E db" "consume_access db access clock = Inr db'"
  shows "replica_ok E db'"
  by (rule replica_ok_core [OF assms(1)]) (use assms(2) in \<open>auto simp: consume_access_def result_simps Let_def same_core_def split: if_splits\<close>)

lemma insert_missing_get:
  "bt_get (insert_missing v ks m) k = (case bt_get m k of Some w \<Rightarrow> Some w | None \<Rightarrow> if k \<in> set ks then Some v else None)"
  unfolding insert_missing_def by (induction ks arbitrary: m) (auto simp: bt_contains_def split: option.splits)

lemma insert_missing_wf: "bt_wf m \<Longrightarrow> bt_wf (insert_missing v ks m)"
  unfolding insert_missing_def by (induction ks arbitrary: m) auto

lemma add_pruned_ok:
  assumes "replica_ok E db" "root_row db root"
  shows "replica_ok E (db\<lparr>rd_erased := es, rd_pruned := insert_missing time (map (Pair root) obs) (rd_pruned db)\<rparr>)" (is "replica_ok E ?db")
proof -
  note m = messages_okD [OF replica_okD(4) [OF assms(1)]]
  have "root_row ?db = root_row db" by (simp add: root_row_def fun_eq_iff)
  moreover have "root_row db (fst k)" if "bt_contains (rd_pruned ?db) k" for k
    using that m(8) [of k] assms(2) by (auto simp: bt_contains_def insert_missing_get split: option.splits if_splits)
  ultimately have "messages_ok ?db"
    unfolding messages_ok_def using m by (simp add: insert_missing_wf)
  then show ?thesis
    by (intro messages_shrink_ok [OF assms(1)]) (simp_all add: same_objects_def metadata_usage_def)
qed

lemma root_mailboxes_row: "root \<in> set (root_mailboxes db) \<Longrightarrow> root_row db root"
  by (auto simp: root_mailboxes_def root_row_def bt_contains_iff)

lemma erase_account_content_ok:
  assumes "replica_ok E db" "erase_account_content db root i clock = Inr (db', n)"
  shows "replica_ok E db'"
proof -
  define owned where "owned = map fst (filter (\<lambda>(ob, j). j = i) (rd_owners db))"
  from assms(2) obtain time where
    r: "root_mailboxes db = [root]" and
    db': "db' = (let db1 = db\<lparr>rd_erased := insert_missing time [i] (rd_erased db),
                   rd_pruned := insert_missing time (map (Pair root) owned) (rd_pruned db)\<rparr>;
          db2 = delete_orphans (\<lambda>_. True) (delete_deliveries (\<lambda>d. dl_object d \<in> set owned) db1) in
       db2\<lparr>rd_access_members := filter (\<lambda>(m, j). j \<noteq> i) (rd_access_members db2),
               rd_requests := filter (\<lambda>((m, ob, j), r). j \<noteq> i) (rd_requests db2),
               rd_acceptances := filter (\<lambda>((m, ob, j), r). j \<noteq> i) (rd_acceptances db2)\<rparr>)"
    by (auto simp: erase_account_content_def owned_def result_simps Let_def split: if_splits)
  let ?db1 = "db\<lparr>rd_erased := insert_missing time [i] (rd_erased db), rd_pruned := insert_missing time (map (Pair root) owned) (rd_pruned db)\<rparr>"
  let ?db2 = "delete_orphans (\<lambda>_. True) (delete_deliveries (\<lambda>d. dl_object d \<in> set owned) ?db1)"
  have "root_row db root" using root_mailboxes_row [of root db] r by simp
  then have "replica_ok E ?db2" by (intro delete_orphans_ok delete_deliveries_ok add_pruned_ok [OF assms(1)])
  from replica_ok_core [OF filter_requests_ok [OF this]] show ?thesis by (simp add: db' Let_def same_core_def)
qed

lemma prune_messages_ok:
  assumes "replica_ok E db" "prune_messages db root before clock = Inr (db', result)"
  shows "replica_ok E db'"
proof -
  from assms(2) obtain time where u: "space_usage db root before = Inr result"
    and db': "db' = delete_orphans (\<lambda>_. True) (let db1 = db\<lparr>rd_pruned := insert_missing time
        (map (Pair root) (filter (prune_candidate db root before) (map (snd \<circ> fst) (rd_copies db)))) (rd_pruned db)\<rparr> in
       delete_deliveries (\<lambda>d. in_tree db1 root d \<and> bt_contains (rd_pruned db1) (root, dl_object d)) db1)"
    by (auto simp: prune_messages_def result_simps Let_def)
  have "root_row db root" using u by (auto simp: space_usage_def root_row_def bt_contains_def split: option.splits if_splits)
  from add_pruned_ok [OF assms(1) this, where es = "rd_erased db"] show ?thesis
    unfolding db' Let_def by (intro delete_orphans_ok delete_deliveries_ok) simp
qed

subsection \<open>Storing an object\<close>

lemma packing_load_iff:
  "packing_load E db ob = Inr b \<longleftrightarrow>
     (\<exists>o'. bt_get (rd_objects db) ob = Some o' \<and> unpack db o' = Some b \<and> length b = wire_size o' \<and> of_ciphertext E b = ob)"
  by (auto simp: packing_load_def result_simps)

text \<open>Every object that is stored can be read.\<close>

lemma packing_load_total:
  "objects_ok E db \<Longrightarrow> bt_get (rd_objects db) ob = Some o' \<Longrightarrow> \<exists>b. packing_load E db ob = Inr b \<and> length b = wire_size o'"
  by (fastforce simp: objects_ok_def object_ok_def packing_load_iff)

definition same_messages :: "replica_db \<Rightarrow> replica_db \<Rightarrow> bool" where
  "same_messages db db' \<longleftrightarrow>
     rd_mailboxes db' = rd_mailboxes db \<and> rd_delegations db' = rd_delegations db \<and> rd_bodies db' = rd_bodies db
     \<and> rd_locators db' = rd_locators db \<and> rd_requests db' = rd_requests db \<and> rd_acceptances db' = rd_acceptances db
     \<and> rd_pruned db' = rd_pruned db"

text \<open>Packing only adds: the object, and the credential it was cut out of.\<close>

definition extends_objects :: "replica_db \<Rightarrow> replica_db \<Rightarrow> ObjectId \<Rightarrow> bool" where
  "extends_objects db db' ob \<longleftrightarrow>
     (\<forall>x. x \<noteq> ob \<longrightarrow> bt_get (rd_objects db') x = bt_get (rd_objects db) x)
     \<and> (\<forall>o'. bt_get (rd_objects db) ob = Some o' \<longrightarrow> bt_get (rd_objects db') ob = Some o')
     \<and> (\<forall>c e. bt_get (rd_credentials db) c = Some e \<longrightarrow> bt_get (rd_credentials db') c = Some e)
     \<and> bt_contains (rd_objects db') ob
     \<and> (bt_wf (rd_objects db) \<longrightarrow> bt_wf (rd_objects db')) \<and> (bt_wf (rd_credentials db) \<longrightarrow> bt_wf (rd_credentials db'))"

lemma packing_insert_Inr:
  assumes "packing_insert E db ob b content time = Inr db'"
  shows "extends_objects db db' ob" "same_messages db db'"
    "rd_deliveries db' = rd_deliveries db" "rd_sequence db' = rd_sequence db"
    "db' = db\<lparr>rd_objects := rd_objects db', rd_credentials := rd_credentials db'\<rparr>"
  using assms
  by (auto simp: packing_insert_def extends_objects_def same_messages_def result_simps Let_def bt_contains_def
      split: if_splits option.splits prod.splits)

lemma extends_unpack:
  assumes "extends_objects db db' ob" "unpack db o' = Some b"
  shows "unpack db' o' = Some b"
  using assms by (auto simp: extends_objects_def unpack_def split: option.splits if_splits)

lemma extends_object_ok: "extends_objects db db' ob \<Longrightarrow> object_ok E db x o' \<Longrightarrow> object_ok E db' x o'"
  by (auto simp: object_ok_def dest: extends_unpack)

lemma extends_objects_ok:
  assumes "objects_ok E db" "extends_objects db db' ob" "packing_load E db' ob = Inr b"
  shows "objects_ok E db'"
  unfolding objects_ok_def
proof (intro conjI allI impI)
  show "bt_wf (rd_objects db')" "bt_wf (rd_credentials db')" using assms(1,2) by (simp_all add: objects_ok_def extends_objects_def)
  fix x o'
  assume x: "bt_get (rd_objects db') x = Some o'"
  show "object_ok E db' x o'"
  proof (cases "x = ob")
    case True
    with x assms(3) show ?thesis by (auto simp: packing_load_iff object_ok_def)
  next
    case False
    with x assms(1,2) have "object_ok E db x o'" by (auto simp: objects_ok_def extends_objects_def)
    with assms(2) show ?thesis by (rule extends_object_ok)
  qed
qed

text \<open>A new delivery adds the size of its object to every mailbox above it.\<close>

lemma add_delivery_ok:
  fixes b :: bytes
  assumes ok: "replica_ok E db" and ext: "extends_objects db db' ob" and msg: "same_messages db db'"
    and load: "packing_load E db' ob = Inr b" and m: "bt_contains (rd_mailboxes db) m"
    and fresh: "find_delivery db m ob = None" and n: "n = rd_sequence db + 1" "n \<le> MAX_INTEGER" "rd_sequence db' = n"
    and dl: "rd_deliveries db' = rd_deliveries db @ [\<lparr>dl_seq = n, dl_mailbox = m, dl_object = ob, dl_hint = hint\<rparr>]"
  shows "forest_ok db'" "deliveries_ok db'" "objects_ok E db'" "messages_ok db'"
    "retained_usage db' a = retained_usage db a + (if a \<in> set (ancestors db m) then length b else 0)"
proof -
  note s = msg [unfolded same_messages_def]
  note d = replica_okD(2) [OF ok, unfolded deliveries_ok_def]
  show f: "forest_ok db'" using replica_okD(1) [OF ok] forest_ok_same s by metis
  show "objects_ok E db'" by (rule extends_objects_ok [OF replica_okD(3) [OF ok] ext load])
  show "messages_ok db'" using replica_okD(4) [OF ok] by (simp add: messages_ok_def root_row_def s)
  have new: "(m, ob) \<notin> delivery_key ` set (rd_deliveries db)"
    using fresh by (auto simp: find_delivery_def find_eq_None)
  have kept: "bt_get (rd_objects db') (dl_object x) = bt_get (rd_objects db) (dl_object x)" if "x \<in> set (rd_deliveries db)" for x
  proof -
    from d that obtain o' where "bt_get (rd_objects db) (dl_object x) = Some o'" by (auto simp: bt_contains_def)
    with ext show ?thesis by (cases "dl_object x = ob") (auto simp: extends_objects_def)
  qed
  show "deliveries_ok db'"
    unfolding deliveries_ok_def dl
    using d new m n ext kept s by (auto simp: sorted_wrt_append extends_objects_def bt_contains_def)
  have old: "delivery_size db' x = delivery_size db x" if "x \<in> set (rd_deliveries db)" for x
    using kept [OF that] by (simp add: delivery_size_def)
  have "filter (in_tree db a) (rd_deliveries db) = filter (in_tree db' a) (rd_deliveries db)"
    using forest_same(6) [of db' db] s by simp
  then have r: "sum_list (map (delivery_size db') (filter (in_tree db' a) (rd_deliveries db))) = retained_usage db a"
    unfolding retained_usage_def using old by (auto intro!: arg_cong [of _ _ sum_list] map_cong)
  have anc: "ancestors db' = ancestors db" by (rule forest_same) (simp add: s)
  have "delivery_size db' \<lparr>dl_seq = n, dl_mailbox = m, dl_object = ob, dl_hint = hint\<rparr> = length b"
    using load by (auto simp: delivery_size_def packing_load_iff)
  then show "retained_usage db' a = retained_usage db a + (if a \<in> set (ancestors db m) then length b else 0)"
    using r by (simp add: retained_usage_def [of db' a] dl in_tree_delivery [OF f] anc)
qed

subsection \<open>Recording its retention\<close>

lemma root_of_row: "forest_ok db \<Longrightarrow> bt_contains (rd_mailboxes db) m \<Longrightarrow> root_row db (root_of db m)"
  using ancestors_mailboxes [OF _ _ root_of_ancestor] root_of_root [of db m]
  by (auto simp: root_row_def mailbox_parent_def)

lemma insert_body_messages:
  assumes "messages_ok db" "root_row db root" "body_row_ok r"
  shows "messages_ok (db\<lparr>rd_bodies := bt_insert (root, ob) r (rd_bodies db)\<rparr>)" (is "messages_ok ?db")
proof -
  note m = messages_okD [OF assms(1)]
  have root: "root_row ?db = root_row db" by (simp add: root_row_def fun_eq_iff)
  have b: "bt_contains (rd_bodies ?db) k \<longleftrightarrow> k = (root, ob) \<or> bt_contains (rd_bodies db) k" for k
    by (simp add: bt_contains_def)
  show ?thesis
    unfolding messages_ok_def root b using m assms(2,3) by (auto split: if_splits)
qed

lemma insert_locator_messages:
  assumes "messages_ok db" "root_row db root"
  shows "messages_ok (db\<lparr>rd_locators := bt_insert (root, ob) r (rd_locators db)\<rparr>)" (is "messages_ok ?db")
proof -
  note m = messages_okD [OF assms(1)]
  have root: "root_row ?db = root_row db" by (simp add: root_row_def fun_eq_iff)
  have b: "bt_contains (rd_locators ?db) k \<longleftrightarrow> k = (root, ob) \<or> bt_contains (rd_locators db) k" for k
    by (simp add: bt_contains_def)
  show ?thesis
    unfolding messages_ok_def root b using m assms(2) by (auto split: if_splits)
qed

lemma record_body_Inr:
  assumes "record_body db root ob retention time = Inr db'" "time \<le> MAX_INTEGER"
  obtains r where "db' = db\<lparr>rd_bodies := bt_insert (root, ob) r (rd_bodies db)\<rparr>" "body_row_ok r" "by_expired r = None"
proof (cases "bt_get (rd_bodies db) (root, ob)")
  case None
  have small: "time \<le> saturating_add time n" for n
    using assms(2) by (auto simp: saturating_add_def MAX_INTEGER_def U64_MAX_def)
  define r where "r = \<lparr>by_record = ur_record retention, by_nonce = ur_nonce retention, by_issuer = ur_issuer retention,
      by_direct_peer = ur_direct_peer retention, by_policy = ur_lifetime retention, by_received = time,
      by_expires = map_option (\<lambda>s. saturating_add time (s * 1000)) (retention_seconds (ur_lifetime retention)),
      by_expired = None, by_refill = None, by_request_key = Some (ur_request_key retention), by_accept_key = ur_accept_key retention\<rparr>"
  have "db' = db\<lparr>rd_bodies := bt_insert (root, ob) r (rd_bodies db)\<rparr>"
    using assms(1) None by (auto simp: record_body_def r_def split: if_splits)
  moreover have "body_row_ok r" "by_expired r = None" by (auto simp: r_def body_row_ok_def small)
  ultimately show thesis by (rule that)
next
  case (Some p)
  define er where "er = (case by_expired p of None \<Rightarrow> Inr (by_expires p, by_refill p)
    | Some _ \<Rightarrow> bindr (latest_window db root ob time) (\<lambda>w.
        Inr (map_option (\<lambda>_. w) (retention_seconds (ur_lifetime retention)), Some w)))"
  from assms(1) Some have e: "bindr er (\<lambda>(expiry, refill).
      if (case expiry of None \<Rightarrow> False | Some e \<Rightarrow> e < by_received p) \<or> (case refill of None \<Rightarrow> False | Some e \<Rightarrow> e < by_received p)
      then Inl RE_Storage
      else Inr (db\<lparr>rd_bodies := bt_insert (root, ob) (p\<lparr>by_expires := expiry, by_expired := None, by_refill := refill\<rparr>) (rd_bodies db)\<rparr>)) = Inr db'"
    by (simp add: record_body_def er_def)
  then obtain expiry refill where "er = Inr (expiry, refill)" by (cases er) auto
  with e have d: "(if (case expiry of None \<Rightarrow> False | Some e \<Rightarrow> e < by_received p) \<or> (case refill of None \<Rightarrow> False | Some e \<Rightarrow> e < by_received p)
      then Inl RE_Storage
      else Inr (db\<lparr>rd_bodies := bt_insert (root, ob) (p\<lparr>by_expires := expiry, by_expired := None, by_refill := refill\<rparr>) (rd_bodies db)\<rparr>)) = Inr db'"
    by simp
  show thesis
    by (rule that [of "p\<lparr>by_expires := expiry, by_expired := None, by_refill := refill\<rparr>"])
      (use d in \<open>auto simp: body_row_ok_def not_less split: if_splits option.splits\<close>)
qed

lemma record_upload_Inr:
  assumes "record_upload db m ob retention time = Inr db'" "forest_ok db" "messages_ok db" "bt_contains (rd_mailboxes db) m"
    "time \<le> MAX_INTEGER"
  shows "same_objects db db'" "messages_ok db'"
    "metadata_usage db' a \<le> metadata_usage db a + (if a = root_of db m then metadata_delta db (root_of db m) ob retention else 0)"
proof -
  let ?r = "root_of db m"
  have row: "root_row db ?r" by (rule root_of_row [OF assms(2,4)])
  note mm = messages_okD [OF assms(3)]
  have bodies: "same_objects db db' \<and> messages_ok db'
      \<and> metadata_usage db' a \<le> metadata_usage db a + (if a = ?r then metadata_delta db ?r ob retention else 0)"
    if "record_body db ?r ob retention time = Inr db'" and ret: "retention = UR_Body n rec l i p k ac" for n rec l i p k ac
    using that(1) assms(5)
  proof (rule record_body_Inr)
    fix r
    assume r: "db' = db\<lparr>rd_bodies := bt_insert (?r, ob) r (rd_bodies db)\<rparr>" "body_row_ok r"
    have "rows_at a (rd_bodies db') = rows_at a (rd_bodies db) + (if a = ?r \<and> bt_get (rd_bodies db) (?r, ob) = None then 1 else 0)"
      using rows_at_insert_new [of "rd_bodies db" "(?r, ob)" a r] rows_at_insert_old [OF mm(1), of "(?r, ob)" _ a r]
      by (cases "bt_get (rd_bodies db) (?r, ob)") (auto simp: r(1))
    then have "metadata_usage db' a \<le> metadata_usage db a + (if a = ?r then metadata_delta db ?r ob retention else 0)"
      by (auto simp: metadata_usage_rows r(1) metadata_delta_def bt_contains_def ret algebra_simps split: if_splits)
    then show ?thesis using insert_body_messages [OF assms(3) row r(2)] by (simp add: r(1) same_objects_def)
  qed
  have "same_objects db db' \<and> messages_ok db'
      \<and> metadata_usage db' a \<le> metadata_usage db a + (if a = ?r then metadata_delta db ?r ob retention else 0)"
  proof (cases retention)
    case (UR_Locator n body rec l i k)
    show ?thesis
    proof (cases "bt_contains (rd_locators db) (?r, ob)")
      case True
      with assms(1) UR_Locator have "db' = db" by (auto simp: record_upload_def root_mailbox_Inr [OF assms(2)])
      with assms(3) show ?thesis by (simp add: same_objects_def)
    next
      case False
      with assms(1) UR_Locator obtain r where r: "db' = db\<lparr>rd_locators := bt_insert (?r, ob) r (rd_locators db)\<rparr>"
        by (auto simp: record_upload_def root_mailbox_Inr [OF assms(2)] split: if_splits)
      have "rows_at a (rd_locators db') = rows_at a (rd_locators db) + (if ?r = a then 1 else 0)"
        using False by (simp add: r rows_at_insert_new bt_contains_def)
      then have "metadata_usage db' a \<le> metadata_usage db a + (if a = ?r then metadata_delta db ?r ob retention else 0)"
        using False by (auto simp: metadata_usage_rows r metadata_delta_def UR_Locator algebra_simps)
      then show ?thesis using insert_locator_messages [OF assms(3) row] by (simp add: r same_objects_def)
    qed
  next
    case (UR_Body n rec l i p k ac)
    with assms(1) have "record_body db ?r ob retention time = Inr db'" by (simp add: record_upload_def root_mailbox_Inr [OF assms(2)])
    from bodies [OF this UR_Body] show ?thesis .
  next
    case Retain
    with assms(1,3) show ?thesis by (simp add: record_upload_def root_mailbox_Inr [OF assms(2)] same_objects_def)
  next
    case LegacyMessage
    with assms(1) have db': "db' = db\<lparr>rd_copies := insert_missing time [(m, ob)] (rd_copies db)\<rparr>"
      by (simp add: record_upload_def root_mailbox_Inr [OF assms(2)])
    have "messages_ok db'" using assms(3) by (simp add: messages_ok_def root_row_def db')
    then show ?thesis by (simp add: db' same_objects_def metadata_usage_def)
  qed
  then show "same_objects db db'" "messages_ok db'"
    "metadata_usage db' a \<le> metadata_usage db a + (if a = root_of db m then metadata_delta db (root_of db m) ob retention else 0)" by blast+
qed

subsection \<open>Uploads\<close>

lemma store_upload_Inr:
  assumes "store_upload E db m ob b hint message content retention subjects time = Inr (db', inserted, n)" "forest_ok db"
  obtains (old) d where "db' = db" "\<not> inserted" "find_delivery db m ob = Some d" "n = dl_seq d" "packing_load E db ob = Inr b"
  | (new) db1 db2 db3 where "inserted" "find_delivery db m ob = None"
      "\<forall>a \<in> set (ancestors db m). upload_budget db (root_of db m) (metadata_delta db (root_of db m) ob retention) (length b) a = Inr ()"
      "packing_insert E db ob b content time = Inr db1"
      "db2 = db1\<lparr>rd_owners := fold (\<lambda>i os. List.insert (ob, i) os) subjects (rd_owners db1),
                 rd_complete := (rd_complete db1 \<and> \<not> (message \<and> subjects = []))\<rparr>"
      "packing_load E db2 ob = Inr b" "n = rd_sequence db2 + 1" "n \<le> MAX_INTEGER"
      "db3 = db2\<lparr>rd_deliveries := rd_deliveries db2 @ [\<lparr>dl_seq = n, dl_mailbox = m, dl_object = ob, dl_hint = hint\<rparr>], rd_sequence := n\<rparr>"
      "record_upload db3 m ob retention time = Inr db'"
proof (cases "find_delivery db m ob")
  case (Some d)
  with assms old show thesis by (auto simp: store_upload_def result_simps split: if_splits)
next
  case None
  from assms None obtain db1 where
    b: "check_all (upload_budget db (root_of db m) (metadata_delta db (root_of db m) ob retention) (length b)) (ancestors db m) = Inr ()"
    and p: "packing_insert E db ob b content time = Inr db1"
    and r: "bindr (packing_load E (db1\<lparr>rd_owners := fold (\<lambda>i os. List.insert (ob, i) os) subjects (rd_owners db1),
                 rd_complete := (rd_complete db1 \<and> \<not> (message \<and> subjects = []))\<rparr>) ob) (\<lambda>stored.
         if stored \<noteq> b then Inl RE_Conflict
         else
         bindr (insert_delivery (db1\<lparr>rd_owners := fold (\<lambda>i os. List.insert (ob, i) os) subjects (rd_owners db1),
                 rd_complete := (rd_complete db1 \<and> \<not> (message \<and> subjects = []))\<rparr>) m ob hint) (\<lambda>(db3, n).
         bindr (record_upload db3 m ob retention time) (\<lambda>db4. Inr (db4, True, n)))) = Inr (db', inserted, n)"
    unfolding store_upload_def Let_def by (auto simp: bindr_eq_Inr)
  define db2 where "db2 = db1\<lparr>rd_owners := fold (\<lambda>i os. List.insert (ob, i) os) subjects (rd_owners db1),
                 rd_complete := (rd_complete db1 \<and> \<not> (message \<and> subjects = []))\<rparr>"
  from r [folded db2_def] have l: "packing_load E db2 ob = Inr b" "inserted" "n = rd_sequence db2 + 1" "n \<le> MAX_INTEGER"
      "record_upload (db2\<lparr>rd_deliveries := rd_deliveries db2 @ [\<lparr>dl_seq = n, dl_mailbox = m, dl_object = ob, dl_hint = hint\<rparr>], rd_sequence := n\<rparr>)
         m ob retention time = Inr db'"
    by (auto simp: result_simps insert_delivery_def Let_def split: if_splits)
  from new [OF l(2) None _ p db2_def l(1,3,4) refl l(5)] b show thesis by (simp add: check_all_iff)
qed

lemma store_upload_ok:
  assumes ok: "replica_ok E db" and up: "store_upload E db m ob b hint message content retention subjects time = Inr (db', inserted, n)"
    and time: "time \<le> MAX_INTEGER"
  shows "replica_ok E db'"
  using up replica_okD(1) [OF ok]
proof (cases rule: store_upload_Inr)
  case (new db1 db2 db3)
  note f = replica_okD(1) [OF ok]
  have budget: "retained_usage db a + metadata_usage db a + length b
      + (if a = root_of db m then metadata_delta db (root_of db m) ob retention else 0) \<le> mb_quota r"
    if "a \<in> set (ancestors db m)" "bt_get (rd_mailboxes db) a = Some r" for a r
    using new(3) that by (fastforce simp: upload_budget_def Let_def split: if_splits)
  have mb: "bt_contains (rd_mailboxes db) m"
    using new(3) ancestors_self [OF f, of m] by (force simp: upload_budget_def result_simps bt_contains_def)
  note p = packing_insert_Inr [OF new(4)]
  have e3: "extends_objects db db3 ob" using p(1) by (simp add: extends_objects_def new(5,9))
  have s3: "same_messages db db3" using p(2) by (simp add: same_messages_def new(5,9))
  have c: "unpack db3 o' = unpack db2 o'" for o' by (intro unpack_cong) (simp add: new(9))
  have l3: "packing_load E db3 ob = Inr b" using new(6) by (simp add: packing_load_iff c) (simp add: new(9))
  have n: "n = rd_sequence db + 1" using new(5,7) p(4) by simp
  note a = add_delivery_ok [OF ok e3 s3 l3 mb new(2) n new(8), where hint = hint]
  have d3: "rd_sequence db3 = n" "rd_deliveries db3 = rd_deliveries db @ [\<lparr>dl_seq = n, dl_mailbox = m, dl_object = ob, dl_hint = hint\<rparr>]"
    by (simp_all add: new(5,9) p(3))
  note a = a [OF d3]
  have anc: "root_of db3 = root_of db" "tree db3 = tree db" "metadata_usage db3 = metadata_usage db"
    using s3 forest_same [of db3 db] by (auto simp: same_messages_def metadata_usage_def fun_eq_iff)
  have delta: "metadata_delta db3 = metadata_delta db" using s3 by (auto simp: metadata_delta_def same_messages_def fun_eq_iff split: UploadRetention.splits)
  have mb3: "rd_mailboxes db3 = rd_mailboxes db" using s3 by (simp add: same_messages_def)
  have bound: "retained_usage db3 a + metadata_usage db a + (if a = root_of db m then metadata_delta db (root_of db m) ob retention else 0) \<le> mb_quota r"
    if r: "bt_get (rd_mailboxes db) a = Some r" for a r
  proof (cases "a \<in> set (ancestors db m)")
    case True
    with budget [OF True r] show ?thesis by (simp add: a(5))
  next
    case False
    then have "a \<noteq> root_of db m" using root_of_ancestor [OF f] by metis
    moreover have "retained_usage db a + metadata_usage db a \<le> mb_quota r" using replica_okD(5) [OF ok] r by (simp add: quota_ok_def)
    ultimately show ?thesis using False by (simp add: a(5))
  qed
  have "quota_ok db3" unfolding quota_ok_def
  proof (intro allI impI conjI)
    fix x r assume "bt_get (rd_mailboxes db3) x = Some r"
    then have r: "bt_get (rd_mailboxes db) x = Some r" by (simp add: mb3)
    show "retained_usage db3 x + metadata_usage db3 x \<le> mb_quota r" using bound [OF r] by (simp add: anc)
    show "length (tree db3 x) \<le> Suc MAX_CHILD_MAILBOXES" using replica_okD(5) [OF ok] r by (simp add: quota_ok_def anc)
  qed
  with a(1-4) have ok3: "replica_ok E db3" by (simp add: replica_ok_def)
  have mb3': "bt_contains (rd_mailboxes db3) m" using mb by (simp add: mb3)
  note r = record_upload_Inr [OF new(10) a(1,4) mb3' time]
  show ?thesis
  proof (rule messages_change_ok [OF ok3 r(1,2)])
    fix x row assume "bt_get (rd_mailboxes db3) x = Some row"
    then have row: "bt_get (rd_mailboxes db) x = Some row" by (simp add: mb3)
    from r(3) [of x] bound [OF row] show "retained_usage db3 x + metadata_usage db' x \<le> mb_quota row"
      by (simp add: anc delta split: if_splits)
  qed
qed (use ok in simp)

lemma replica_now_Inr: "replica_now clock = Inr time \<Longrightarrow> time \<le> MAX_INTEGER \<and> clock = int time"
  by (auto simp: replica_now_def split: if_splits)

end
