(* ===== verification/Replica_Requests.thy ===== *)
theory Replica_Requests
  imports Replica_Service
begin

text \<open>
  The requests of clients keep the invariant of the replica store, whether they succeed or fail: the
  sweep at their start and the requests they drop on the way are kept changes of a failed request.
\<close>

lemma bindst_keep:
  assumes "P (fst m)" and "\<And>s x. m = (s, Inr x) \<Longrightarrow> P s \<Longrightarrow> P (fst (f s x))"
  shows "P (fst (bindst m f))"
  using assms by (cases m; cases "snd m") auto

lemma bindst_pure:
  assumes "P db" and "\<And>x. r = Inr x \<Longrightarrow> P (fst (f db x))"
  shows "P (fst (bindst (db, r) f))"
  using assms by (cases r) auto

subsection \<open>Open requests\<close>

text \<open>Dropping requests of those who may no longer act changes nothing else.\<close>

lemma window_rows_keeps:
  assumes "\<And>k db. P db \<Longrightarrow> P (db\<lparr>rd_requests := bt_remove k (rd_requests db)\<rparr>)"
  shows "P db \<Longrightarrow> P (fst (window_rows F rv m clock rows expiry db))"
proof (induction rows arbitrary: db expiry)
  case (Cons e rows)
  obtain root ob i r where e: "e = ((root, ob, i), r)" by (cases e) auto
  let ?a = "authorize_actor F rv db m \<lparr>at_identity = i, at_credential = rq_credential r\<rparr> clock"
  show ?case
  proof (cases ?a)
    case (Inl x)
    with Cons.prems Cons.IH [OF assms [OF Cons.prems]] show ?thesis by (cases x) (simp_all add: e)
  next
    case (Inr u)
    with Cons.IH [OF Cons.prems] show ?thesis by (simp add: e)
  qed
qed simp

subsection \<open>Housekeeping\<close>

text \<open>
  Before a request does what it is for, it removes what is due at its time and drops requests whose
  requester may no longer act. Whatever becomes of the request, these changes stay.
\<close>

inductive housekeeping :: "int \<Rightarrow> replica_db \<Rightarrow> replica_db \<Rightarrow> bool" for clock db where
  hk_none: "housekeeping clock db db"
| hk_sweep: "housekeeping clock db db1 \<Longrightarrow> replica_now clock = Inr time \<Longrightarrow> housekeeping clock db (sweep db1 time)"
| hk_drop: "housekeeping clock db db1 \<Longrightarrow> housekeeping clock db (db1\<lparr>rd_requests := bt_remove k (rd_requests db1)\<rparr>)"

lemma housekeeping_trans: "housekeeping clock b c \<Longrightarrow> housekeeping clock a b \<Longrightarrow> housekeeping clock a c"
  by (induction rule: housekeeping.induct) (auto intro: housekeeping.intros)

lemma housekeeping_ok: "housekeeping clock db db' \<Longrightarrow> replica_ok E db \<Longrightarrow> replica_ok E db'"
  by (induction rule: housekeeping.induct) (auto intro: sweep_ok remove_request_ok)

lemma sweep_housekeeping: "replica_now clock = Inr time \<Longrightarrow> housekeeping clock db (sweep db time)"
  by (intro hk_sweep hk_none)

lemma window_housekeeping: "housekeeping clock db (fst (valid_window F rv db m root ob time clock))"
  unfolding valid_window_def by (rule window_rows_keeps [where P = "housekeeping clock db"]) (auto intro: housekeeping.intros)

lemma active_objects_housekeeping: "housekeeping clock db (fst (active_objects F rv m root time clock obs db))"
proof (induction obs arbitrary: db)
  case (Cons ob obs)
  show ?case unfolding active_objects.simps
  proof (rule bindst_keep [where P = "housekeeping clock db"])
    fix s x assume "housekeeping clock db s"
    with Cons.IH have "housekeeping clock db (fst (active_objects F rv m root time clock obs s))" by (rule housekeeping_trans)
    then show "housekeeping clock db (fst (bindst (active_objects F rv m root time clock obs s)
        (\<lambda>db2 rest. (db2, Inr (if x = None then rest else ob # rest)))))"
      by (rule bindst_keep [where P = "housekeeping clock db"]) simp
  qed (rule window_housekeeping)
qed (simp add: hk_none)

lemma active_requests_housekeeping: "housekeeping clock db (fst (active_requests F rv db m time clock))"
  unfolding active_requests_def Let_def
  by (rule bindst_pure [where P = "housekeeping clock db"]) (rule hk_none, rule active_objects_housekeeping)

lemma check_upload_housekeeping: "housekeeping clock db (fst (check_upload F rv db m ob retention actor time clock))"
proof -
  have w: "housekeeping clock db (fst (bindst (valid_window F rv db m root ob time clock)
      (\<lambda>db1 window. (db1, if window = None then Inl RE_Expired else Inr ()))))" for root
    by (rule bindst_keep [where P = "housekeeping clock db"]) (rule window_housekeeping, simp)
  show ?thesis unfolding check_upload_def
    by (rule bindst_pure [where P = "housekeeping clock db"]) (simp_all add: w hk_none split: UploadRetention.split option.split)
qed

lemma replica_get_housekeeping: "housekeeping clock db (fst (replica_get F db m token ob clock))"
  unfolding replica_get_def Let_def
  by (intro bindst_pure [where P = "housekeeping clock db"]) (auto intro: sweep_housekeeping hk_none)

lemma replica_inventory_housekeeping: "housekeeping clock (rp_db s) (fst (replica_inventory F s m token after limit clock))"
proof -
  have "housekeeping clock (rp_db s) (fst (active_requests F rv (sweep (rp_db s) time) m time clock))" if "replica_now clock = Inr time" for rv time
    by (rule housekeeping_trans [OF active_requests_housekeeping sweep_housekeeping [OF that]])
  then show ?thesis unfolding replica_inventory_def Let_def
    by (auto intro!: bindst_pure [where P = "housekeeping clock (rp_db s)"] bindst_keep [where P = "housekeeping clock (rp_db s)"] hk_none
        simp del: fst_conv) (simp_all add: hk_none)
qed

lemma check_upload_ok: "replica_ok E db \<Longrightarrow> replica_ok E (fst (check_upload F rv db m ob retention actor time clock))"
  by (rule housekeeping_ok [OF check_upload_housekeeping])

subsection \<open>Uploads and downloads\<close>

lemma post_inner_ok:
  assumes "replica_ok E (rp_db s)"
  shows "replica_ok E (fst (post_inner E s m token ob b hint message actor clock rnd))"
proof -
  note step = bindst_pure [where P = "replica_ok E"] and keep = bindst_keep [where P = "replica_ok E"]
  have last: "replica_ok E (fst (case store_upload E db m ob b hint message content retention subjects time of
        Inl e \<Rightarrow> (db, Inl e)
      | Inr (db, inserted, n) \<Rightarrow>
          bindst (db, map_err (\<lambda>_. RE_Storage) (random_hex rnd)) (\<lambda>db nonce.
          bindst (db, map_err (\<lambda>_. RE_Storage)
              (sign E (ser_receipt E (storage_receipt_body E db m ob (length b) n (receipt_retention retention) nonce)) (rd_seed db))) (\<lambda>db r.
          (db, Inr (inserted, rec_bytes r))))))"
    if "replica_now clock = Inr time" "replica_ok E db" for db content retention subjects time
  proof (cases "store_upload E db m ob b hint message content retention subjects time")
    case (Inr x)
    obtain db' ins n where x: "x = (db', ins, n)" by (cases x)
    with Inr that replica_now_Inr have "replica_ok E db'"
      using store_upload_ok [of E db m ob b hint message content retention subjects time db' ins n] by simp
    then show ?thesis by (auto simp: Inr x intro!: step)
  qed (simp add: that(2))
  show ?thesis unfolding post_inner_def Let_def
    by (intro step keep) (auto simp: assms intro!: last sweep_ok check_upload_ok)
qed

subsection \<open>Requests and acceptances\<close>

lemma metadata_room_ok:
  assumes ok: "replica_ok E db" and same: "same_objects db db'" "messages_ok db'"
    and room: "ensure_metadata_room db root delta = Inr ()"
    and usage: "\<And>a. metadata_usage db' a \<le> metadata_usage db a + (if a = root then delta else 0)"
  shows "replica_ok E db'"
proof (rule messages_change_ok [OF ok same])
  fix a r
  assume r: "bt_get (rd_mailboxes db) a = Some r"
  from replica_okD(5) [OF ok] r have q: "retained_usage db a + metadata_usage db a \<le> mb_quota r" by (simp add: quota_ok_def)
  show "retained_usage db a + metadata_usage db' a \<le> mb_quota r"
  proof (cases "a = root \<and> delta \<noteq> 0")
    case True
    with room r have "int delta \<le> int (mb_quota r) - int (retained_usage db a + metadata_usage db a)"
      by (auto simp: ensure_metadata_room_def result_simps split: if_splits)
    with usage [of a] True show ?thesis by simp
  next
    case False
    with usage [of a] q show ?thesis by (auto split: if_splits)
  qed
qed

lemma rows_at_insert:
  "bt_wf xs \<Longrightarrow> rows_at a (bt_insert (root, k) v xs) = rows_at a xs + (if a = root \<and> bt_get xs (root, k) = None then 1 else 0)"
  by (cases "bt_get xs (root, k)") (auto simp: rows_at_insert_new rows_at_insert_old)

lemma add_request_ok:
  assumes ok: "replica_ok E db" and body: "bt_contains (rd_bodies db) (root, ob)"
    and room: "ensure_metadata_room db root (if bt_get (rd_requests db) (root, ob, i) = None then METADATA_BYTES else 0) = Inr ()"
  shows "replica_ok E (db\<lparr>rd_requests := bt_insert (root, ob, i) r (rd_requests db)\<rparr>)" (is "replica_ok E ?db")
proof (rule metadata_room_ok [OF ok _ _ room])
  note m = replica_okD(4) [OF ok]
  have "root_row ?db = root_row db" by (simp add: root_row_def fun_eq_iff)
  then show "messages_ok ?db"
    using m body unfolding messages_ok_def by (simp add: bt_contains_def) blast
  show "metadata_usage ?db a \<le> metadata_usage db a
      + (if a = root then if bt_get (rd_requests db) (root, ob, i) = None then METADATA_BYTES else 0 else 0)" for a
    by (simp add: metadata_usage_rows rows_at_insert [OF messages_okD(3) [OF m]] algebra_simps)
qed (simp add: same_objects_def)

lemma add_acceptance_ok:
  assumes ok: "replica_ok E db" and body: "bt_contains (rd_bodies db) (root, ob)"
    and room: "ensure_metadata_room db root (if bt_get (rd_acceptances db) (root, ob, i) = None then METADATA_BYTES else 0) = Inr ()"
  shows "replica_ok E (db\<lparr>rd_acceptances := bt_insert (root, ob, i) r (rd_acceptances db),
      rd_requests := bt_modify k f (rd_requests db)\<rparr>)" (is "replica_ok E ?db")
proof (rule metadata_room_ok [OF ok _ _ room])
  note m = replica_okD(4) [OF ok]
  have "root_row ?db = root_row db" by (simp add: root_row_def fun_eq_iff)
  moreover have "bt_contains (bt_modify k f (rd_requests db)) = bt_contains (rd_requests db)"
    by (auto simp: fun_eq_iff bt_contains_def)
  ultimately show "messages_ok ?db"
    using m body unfolding messages_ok_def by (simp add: bt_contains_def) blast
  show "metadata_usage ?db a \<le> metadata_usage db a
      + (if a = root then if bt_get (rd_acceptances db) (root, ob, i) = None then METADATA_BYTES else 0 else 0)" for a
    by (simp add: metadata_usage_rows rows_at_insert [OF messages_okD(4) [OF m]] algebra_simps)
qed (simp add: same_objects_def)

lemma valid_window_bodies: "rd_bodies (fst (valid_window F rv db m root ob time clock)) = rd_bodies db"
  unfolding valid_window_def by (rule window_rows_keeps [where P = "\<lambda>x. rd_bodies x = rd_bodies db"]) simp_all

lemma request_message_ok:
  assumes "replica_ok E (rp_db s)"
  shows "replica_ok E (fst (request_message F s m actor ob record' p clock))"
proof -
  note step = bindst_pure [where P = "replica_ok E"] and keep = bindst_keep [where P = "replica_ok E"]
  have last: "replica_ok E (fst (bindst (valid_window F rv db m root ob time clock) (\<lambda>db _.
      if (case bt_get (rd_requests db) (root, ob, at_identity actor) of None \<Rightarrow> False
          | Some r \<Rightarrow> rq_expires r > time \<or> rq_nonce r = pf_nonce p) then (db, Inr ())
      else if \<not> expired then (db, Inl RE_NotFound)
      else
      bindst (db, ensure_metadata_room db root (if bt_get (rd_requests db) (root, ob, at_identity actor) = None then METADATA_BYTES else 0)) (\<lambda>db _.
      (db\<lparr>rd_requests := bt_insert (root, ob, at_identity actor) (row time) (rd_requests db)\<rparr>, Inr ()))))) "
    if ok: "replica_ok E db" and body: "bt_contains (rd_bodies db) (root, ob)" for db rv root time expired row
  proof (rule keep)
    show "replica_ok E (fst (valid_window F rv db m root ob time clock))" by (rule housekeeping_ok [OF window_housekeeping ok])
  next
    fix d x
    assume d: "valid_window F rv db m root ob time clock = (d, Inr x)" "replica_ok E d"
    from valid_window_bodies [of F rv db m root ob time clock] d(1) body have "bt_contains (rd_bodies d) (root, ob)" by simp
    with d(2) add_request_ok [of E d root ob "at_identity actor" "row time"] show "replica_ok E (fst (if (case bt_get (rd_requests d) (root, ob, at_identity actor) of None \<Rightarrow> False
          | Some r \<Rightarrow> rq_expires r > time \<or> rq_nonce r = pf_nonce p) then (d, Inr ())
      else if \<not> expired then (d, Inl RE_NotFound)
      else
      bindst (d, ensure_metadata_room d root (if bt_get (rd_requests d) (root, ob, at_identity actor) = None then METADATA_BYTES else 0)) (\<lambda>db _.
      (db\<lparr>rd_requests := bt_insert (root, ob, at_identity actor) (row time) (rd_requests db)\<rparr>, Inr ()))))"
      by (cases "ensure_metadata_room d root (if bt_get (rd_requests d) (root, ob, at_identity actor) = None then METADATA_BYTES else 0)")
        (simp_all del: split_paired_Ex)
  qed
  have body: "bt_contains (rd_bodies db) (root, ob)" if "ok_or (requested_body db root ob record' time) RE_NotFound = Inr x" for db root time x
    using that by (auto simp: requested_body_def bt_contains_def result_simps split: option.splits)
  show ?thesis unfolding request_message_def Let_def
    by (intro step) (auto simp: assms split: prod.split intro!: step sweep_ok last body)
qed

lemma accept_message_ok:
  assumes "replica_ok E (rp_db s)"
  shows "replica_ok E (fst (accept_message F s m actor ob record' p clock))"
proof -
  note step = bindst_pure [where P = "replica_ok E"]
  have body: "bt_contains (rd_bodies db) (root, ob)" if "accept_key_for db root ob record' actor \<noteq> None" for db root
    using that by (auto simp: accept_key_for_def bt_contains_def split: option.splits)
  have last: "replica_ok E (remove_body (db\<lparr>rd_acceptances := bt_insert (root, ob, at_identity actor) r (rd_acceptances db),
      rd_requests := bt_modify k f (rd_requests db)\<rparr>) root ob time)"
    if "replica_ok E db" "accept_key_for db root ob record' actor \<noteq> None"
      "ensure_metadata_room db root (if map_option ac_proof_expires (bt_get (rd_acceptances db) (root, ob, at_identity actor)) = None
         then METADATA_BYTES else 0) = Inr ()" for db root r k f time
    using that by (intro remove_body_ok add_acceptance_ok body) simp_all
  show ?thesis unfolding accept_message_def Let_def
    by (intro step) (auto simp: assms ok_or_eq_Inr split: prod.split intro!: step sweep_ok last)
qed

end
