(* ===== verification/Replica_Effects.thy ===== *)
theory Replica_Effects
  imports Replica_Requests
begin

text \<open>
  What the requests of clients do to the tables. The statements at their start only remove rows; an
  upload, a request for a body and an acceptance either do no more than that, or passed every check
  of the code and added the one row they are for. Later proofs use these case rules and never the
  definitions of the requests.
\<close>

subsection \<open>Requests only remove rows\<close>

text \<open>What the statements at the start of a request may do: nothing is added.\<close>

definition shrinks :: "replica_db \<Rightarrow> replica_db \<Rightarrow> bool" where
  "shrinks db db' \<longleftrightarrow>
     rd_mailboxes db' = rd_mailboxes db \<and> rd_delegations db' = rd_delegations db \<and> rd_pruned db' = rd_pruned db
     \<and> rd_erased db' = rd_erased db \<and> rd_nonces db' = rd_nonces db \<and> rd_seed db' = rd_seed db \<and> rd_generation db' = rd_generation db
     \<and> rd_access_members db' = rd_access_members db \<and> rd_access_roots db' = rd_access_roots db
     \<and> set (rd_deliveries db') \<subseteq> set (rd_deliveries db)
     \<and> fst ` set (rd_requests db') \<subseteq> fst ` set (rd_requests db) \<and> fst ` set (rd_acceptances db') \<subseteq> fst ` set (rd_acceptances db)"

lemma shrinks_refl [simp]: "shrinks db db"
  by (simp add: shrinks_def)

lemma shrinks_trans: "shrinks a b \<Longrightarrow> shrinks b c \<Longrightarrow> shrinks a c"
  unfolding shrinks_def by (simp, meson subset_trans)

lemma bt_remove_keys: "fst ` set (bt_remove k m) \<subseteq> fst ` set m"
  by (auto simp: bt_remove_def)

lemma filter_keys: "fst ` set (filter P m) \<subseteq> fst ` set m"
  by auto

lemma modify_keys: "fst ` set (bt_modify k f m) = fst ` set m"
  unfolding bt_modify_def by (induction m) auto

lemma shrinks_delete_orphans: "shrinks db (delete_orphans P db)"
  by (simp add: shrinks_def delete_orphans_def Let_def)

lemma shrinks_remove_body: "shrinks db (remove_body db root ob time)"
  by (simp add: shrinks_def remove_body_def delete_orphans_def delete_deliveries_def Let_def)

lemma shrinks_remove_locator: "shrinks db (remove_locator db root ob body)"
  by (simp add: shrinks_def remove_locator_def delete_orphans_def delete_deliveries_def delete_bodies_def Let_def
      image_mono)

lemma shrinks_fold: "(\<And>x d. shrinks d (f x d)) \<Longrightarrow> shrinks db (fold f xs db)"
  by (induction xs arbitrary: db) (auto intro: shrinks_trans)

lemma shrinks_sweep: "shrinks db (sweep db time)"
proof -
  let ?db = "sweep_locators (sweep_bodies db time) time"
  have "shrinks db (sweep_bodies db time)"
    unfolding sweep_bodies_def by (rule shrinks_fold) (auto intro: shrinks_remove_body)
  moreover have "shrinks (sweep_bodies db time) ?db"
    unfolding sweep_locators_def by (rule shrinks_fold) (auto intro: shrinks_remove_locator)
  moreover have "shrinks ?db (sweep db time)" by (simp add: sweep_def shrinks_def Let_def image_mono)
  ultimately show ?thesis by (blast intro: shrinks_trans)
qed

lemma housekeeping_shrinks: "housekeeping clock db db' \<Longrightarrow> shrinks db db'"
proof (induction rule: housekeeping.induct)
  case (hk_drop db1 k)
  moreover have "shrinks db1 (db1\<lparr>rd_requests := bt_remove k (rd_requests db1)\<rparr>)" by (simp add: shrinks_def bt_remove_keys)
  ultimately show ?case by (blast intro: shrinks_trans)
qed (auto intro: shrinks_trans shrinks_sweep)

subsection \<open>What an upload does\<close>

lemma bindst_eq:
  "bindst m f = (s', r) \<longleftrightarrow> (\<exists>e. m = (s', Inl e) \<and> r = Inl e) \<or> (\<exists>s x. m = (s, Inr x) \<and> f s x = (s', r))"
  by (cases m; cases "snd m") auto

lemma bindst_pure_eq:
  "bindst (s, x) f = (s', r) \<longleftrightarrow> (\<exists>e. x = Inl e \<and> s' = s \<and> r = Inl e) \<or> (\<exists>y. x = Inr y \<and> f s y = (s', r))"
  by (cases x) auto

text \<open>
  Either rows are only removed, or the upload passed every check, in the tables \<open>db0\<close> that the sweep
  and the dropped requests left, and its transaction was committed.
\<close>

lemma post_inner_cases:
  assumes "post_inner E s m token ob b hint message actor clock rnd = (db', r)"
  obtains (refused) e where "housekeeping clock (rp_db s) db'" "r = Inl e"
  | (stored) time content subjects db0 inserted n where
      "mailbox_authorize E (rp_db s) m token True clock = Inr ()"
      "\<And>a. actor = Some a \<Longrightarrow> authorize_actor E (rp_revocations s) (rp_db s) m a clock = Inr ()"
      "b \<noteq> []" "length b \<le> MAX_CIPHERTEXT" "of_ciphertext E b = ob" "replica_now clock = Inr time"
      "check_pruned E (sweep (rp_db s) time) m ob = Inr ()" "inspect E b = Inr content"
      "\<And>p. retention_policy (classify content message) = Some p \<Longrightarrow> p \<in> set (rp_allowed s)"
      "check_upload E (rp_revocations s) (sweep (rp_db s) time) m ob (classify content message) (map_option at_identity actor) time clock
         = (db0, Inr ())"
      "upload_subjects db0 m content actor = Inr subjects" "\<forall>i \<in> set subjects. \<not> bt_contains (rd_erased db0) i"
      "store_upload E db0 m ob b hint message content (classify content message) subjects time = Inr (db', inserted, n)"
      "\<And>x. r = Inr x \<Longrightarrow> \<exists>nonce rec. random_hex rnd = Inr nonce
         \<and> sign E (ser_receipt E (storage_receipt_body E db' m ob (length b) n (receipt_retention (classify content message)) nonce)) (rd_seed db') = Inr rec
         \<and> x = (inserted, rec_bytes rec)"
proof (cases "\<exists>e. housekeeping clock (rp_db s) db' \<and> r = Inl e")
  case True
  then show thesis using refused by blast
next
  case False
  let ?answer = "\<lambda>content n inserted db. bindst (db, map_err (\<lambda>_. RE_Storage) (random_hex rnd)) (\<lambda>db nonce.
      bindst (db, map_err (\<lambda>_. RE_Storage) (sign E (ser_receipt E (storage_receipt_body E db m ob (length b) n
          (receipt_retention (classify content message)) nonce)) (rd_seed db))) (\<lambda>db r. (db, Inr (inserted, rec_bytes r))))"
  let ?finish = "\<lambda>content subjects time db.
      case store_upload E db m ob b hint message content (classify content message) subjects time of
        Inl e \<Rightarrow> (db, Inl e) | Inr (db, inserted, n) \<Rightarrow> ?answer content n inserted db"
  let ?tail = "\<lambda>content time db.
      bindst (db, case retention_policy (classify content message) of
          None \<Rightarrow> Inr () | Some p \<Rightarrow> if p \<notin> set (rp_allowed s) then Inl RE_Invalid else Inr ()) (\<lambda>db _.
      bindst (check_upload E (rp_revocations s) db m ob (classify content message) (map_option at_identity actor) time clock) (\<lambda>db _.
      bindst (db, upload_subjects db m content actor) (\<lambda>db subjects.
      bindst (db, if list_ex (bt_contains (rd_erased db)) subjects then Inl RE_Unauthorized else Inr ()) (\<lambda>db _.
      ?finish content subjects time db))))"
  have sw: "housekeeping clock (rp_db s) (sweep (rp_db s) time)" if "replica_now clock = Inr time" for time
    using that by (rule sweep_housekeeping)
  have chk: "housekeeping clock (rp_db s) d"
    if "check_upload E rv (sweep (rp_db s) time) m ob retention i time clock = (d, x)" "replica_now clock = Inr time" for rv retention i time d x
    using housekeeping_trans [OF check_upload_housekeeping sw [OF that(2)]] that(1) by (metis fst_conv)
  from assms obtain u where s1: "mailbox_authorize E (rp_db s) m token True clock = Inr ()"
    "(case actor of None \<Rightarrow> Inr () | Some a \<Rightarrow> authorize_actor E (rp_revocations s) (rp_db s) m a clock) = Inr u"
    "b \<noteq> []" "length b \<le> MAX_CIPHERTEXT" "of_ciphertext E b = ob"
    and rest: "bindst (rp_db s, replica_now clock) (\<lambda>db time.
      bindst (sweep db time, check_pruned E (sweep db time) m ob) (\<lambda>db _.
      bindst (db, map_err (\<lambda>_. RE_Invalid) (inspect E b)) (\<lambda>db content. ?tail content time db))) = (db', r)"
    using False hk_none unfolding post_inner_def Let_def by (auto simp: bindst_eq split: if_splits)
  from rest obtain time content where s2: "replica_now clock = Inr time" "check_pruned E (sweep (rp_db s) time) m ob = Inr ()"
    "inspect E b = Inr content"
    and rest: "?tail content time (sweep (rp_db s) time) = (db', r)"
    using False sw hk_none by (auto simp: bindst_eq result_simps)
  from rest obtain db0 subjects where s3: "\<And>p. retention_policy (classify content message) = Some p \<Longrightarrow> p \<in> set (rp_allowed s)"
    "check_upload E (rp_revocations s) (sweep (rp_db s) time) m ob (classify content message) (map_option at_identity actor) time clock
       = (db0, Inr ())"
    "upload_subjects db0 m content actor = Inr subjects" "\<not> list_ex (bt_contains (rd_erased db0)) subjects"
    and rest: "?finish content subjects time db0 = (db', r)"
    using False sw [OF s2(1)] chk [OF _ s2(1)] by (auto simp: bindst_eq split: if_splits option.splits)
  have "housekeeping clock (rp_db s) db0" by (rule chk [OF s3(2) s2(1)])
  with rest False obtain d inserted n where st: "store_upload E db0 m ob b hint message content (classify content message) subjects time
      = Inr (d, inserted, n)"
    and rest: "?answer content n inserted d = (db', r)"
    by (auto split: sum.splits prod.splits)
  have d: "d = db'" using rest by (auto simp: bindst_eq)
  from rest have fin: "\<exists>nonce rec. random_hex rnd = Inr nonce
         \<and> sign E (ser_receipt E (storage_receipt_body E db' m ob (length b) n (receipt_retention (classify content message)) nonce)) (rd_seed db') = Inr rec
         \<and> x = (inserted, rec_bytes rec)" if "r = Inr x" for x
    using that by (auto simp: bindst_eq d result_simps)
  show thesis
    by (rule stored [OF s1(1) _ s1(3-5) s2 s3(1-3) _ st [unfolded d] fin]) (use s1(2) s3(4) in \<open>auto simp: list_ex_iff\<close>)
qed

text \<open>The tables an upload's transaction leaves alone, and the delivery it may add.\<close>

definition same_but_messages :: "replica_db \<Rightarrow> replica_db \<Rightarrow> bool" where
  "same_but_messages db db' \<longleftrightarrow>
     (\<exists>bs ls cs. db' = db\<lparr>rd_bodies := bs, rd_locators := ls, rd_copies := cs\<rparr>)"

lemma same_but_messagesI:
  "same_but_messages db db" "same_but_messages db (db\<lparr>rd_bodies := bs\<rparr>)" "same_but_messages db (db\<lparr>rd_locators := ls\<rparr>)"
  "same_but_messages db (db\<lparr>rd_copies := cs\<rparr>)"
  unfolding same_but_messages_def
  by (rule exI [of _ "rd_bodies db"] exI [of _ bs], rule exI [of _ "rd_locators db"] exI [of _ ls],
      rule exI [of _ "rd_copies db"] exI [of _ cs], simp; fail)+

lemma record_body_same: "record_body db root ob retention time = Inr db' \<Longrightarrow> same_but_messages db db'"
  by (cases "bt_get (rd_bodies db) (root, ob)")
    (auto simp: record_body_def result_simps split: if_splits intro: same_but_messagesI)

lemma record_upload_same:
  assumes "record_upload db m ob retention time = Inr db'"
  shows "same_but_messages db db'"
  using assms unfolding record_upload_def bindr_eq_Inr
  by (cases retention) (auto split: if_splits intro: same_but_messagesI record_body_same)

lemma store_upload_cases:
  assumes "store_upload E db m ob b hint message content retention subjects time = Inr (db', inserted, n)" "forest_ok db"
  shows "shrinks db (db'\<lparr>rd_deliveries := rd_deliveries db\<rparr>)"
    and "rd_deliveries db' = (if inserted then rd_deliveries db @ [\<lparr>dl_seq = n, dl_mailbox = m, dl_object = ob, dl_hint = hint\<rparr>] else rd_deliveries db)"
    and "packing_load E db' ob = Inr b"
    and "\<exists>d \<in> set (rd_deliveries db'). dl_seq d = n \<and> dl_mailbox d = m \<and> dl_object d = ob"
proof -
  have "shrinks db (db'\<lparr>rd_deliveries := rd_deliveries db\<rparr>)
    \<and> rd_deliveries db' = (if inserted then rd_deliveries db @ [\<lparr>dl_seq = n, dl_mailbox = m, dl_object = ob, dl_hint = hint\<rparr>] else rd_deliveries db)
    \<and> packing_load E db' ob = Inr b
    \<and> (\<exists>d \<in> set (rd_deliveries db'). dl_seq d = n \<and> dl_mailbox d = m \<and> dl_object d = ob)"
    using assms
  proof (cases rule: store_upload_Inr)
    case (old d)
    then have "d \<in> set (rd_deliveries db) \<and> dl_mailbox d = m \<and> dl_object d = ob"
      by (auto simp: find_delivery_def find_Some_iff)
    with old show ?thesis by auto
  next
    case (new db1 db2 db3)
    note p = packing_insert_Inr [OF new(4)] and r = record_upload_same [OF new(10)]
    from r obtain bs ls cs where db': "db' = db3\<lparr>rd_bodies := bs, rd_locators := ls, rd_copies := cs\<rparr>"
      by (auto simp: same_but_messages_def)
    from p(5) obtain os xs where db1: "db1 = db\<lparr>rd_objects := os, rd_credentials := xs\<rparr>" by blast
    have c: "unpack db' o' = unpack db2 o'" for o' by (intro unpack_cong) (simp add: db' new(9))
    have "packing_load E db' ob = Inr b" using new(6) by (simp add: packing_load_iff c) (simp add: db' new(9))
    then show ?thesis using new(1) by (simp add: shrinks_def db' new(5,9) db1)
  qed
  then show "shrinks db (db'\<lparr>rd_deliveries := rd_deliveries db\<rparr>)"
    "rd_deliveries db' = (if inserted then rd_deliveries db @ [\<lparr>dl_seq = n, dl_mailbox = m, dl_object = ob, dl_hint = hint\<rparr>] else rd_deliveries db)"
    "packing_load E db' ob = Inr b"
    "\<exists>d \<in> set (rd_deliveries db'). dl_seq d = n \<and> dl_mailbox d = m \<and> dl_object d = ob"
    by blast+
qed

subsection \<open>What requests and acceptances do\<close>

lemma request_message_cases:
  assumes "request_message E s m actor ob record' p clock = (db', r)"
  obtains (none) "housekeeping clock (rp_db s) db'"
  | (opened) time db0 root key row where
      "replica_now clock = Inr time" "authorize_actor E (rp_revocations s) (rp_db s) m actor clock = Inr ()"
      "root_mailbox (sweep (rp_db s) time) m = Inr root" "housekeeping clock (rp_db s) db0"
      "requested_body (sweep (rp_db s) time) root ob record' time = Some (key, True)"
      "Proof_verify E p key \<lparr>cx_operation = Op_Request, cx_replica = peer_id E (replica_key E (sweep (rp_db s) time)), cx_mailbox = m,
         cx_object = ob, cx_record = record', cx_actor = actor\<rparr> time = Inr ()"
      "db' = db0\<lparr>rd_requests := bt_insert (root, ob, at_identity actor) row (rd_requests db0)\<rparr>" "r = Inr ()"
proof (cases "housekeeping clock (rp_db s) db'")
  case False
  have sw: "housekeeping clock (rp_db s) (sweep (rp_db s) time)" if "replica_now clock = Inr time" for time
    using that by (rule sweep_housekeeping)
  from assms False sw hk_none obtain time root key expired where
    a: "replica_now clock = Inr time" "authorize_actor E (rp_revocations s) (rp_db s) m actor clock = Inr ()"
      "root_mailbox (sweep (rp_db s) time) m = Inr root"
      "requested_body (sweep (rp_db s) time) root ob record' time = Some (key, expired)"
      "Proof_verify E p key \<lparr>cx_operation = Op_Request, cx_replica = peer_id E (replica_key E (sweep (rp_db s) time)), cx_mailbox = m,
         cx_object = ob, cx_record = record', cx_actor = actor\<rparr> time = Inr ()"
    and rest: "bindst (valid_window E (rp_revocations s) (sweep (rp_db s) time) m root ob time clock) (\<lambda>db _.
      if (case bt_get (rd_requests db) (root, ob, at_identity actor) of None \<Rightarrow> False | Some r \<Rightarrow> rq_expires r > time \<or> rq_nonce r = pf_nonce p) then (db, Inr ())
      else if \<not> expired then (db, Inl RE_NotFound)
      else
      bindst (db, ensure_metadata_room db root (if bt_get (rd_requests db) (root, ob, at_identity actor) = None then METADATA_BYTES else 0)) (\<lambda>db _.
      (db\<lparr>rd_requests := bt_insert (root, ob, at_identity actor) \<lparr>rq_record = record', rq_requested = time,
            rq_expires = min (pf_expires_ms p) (saturating_add time REQUEST_LIFETIME_MS), rq_credential = at_credential actor,
            rq_nonce = pf_nonce p, rq_proof_expires = pf_expires_ms p\<rparr> (rd_requests db)\<rparr>, Inr ()))) = (db', r)"
    unfolding request_message_def Let_def by (auto simp: bindst_pure_eq result_simps split: prod.splits)
  have win: "housekeeping clock (rp_db s) d" if "valid_window E rv (sweep (rp_db s) time) m root ob time clock = (d, x)" for rv root d x
    using housekeeping_trans [OF window_housekeeping sw [OF a(1)]] that by (metis fst_conv)
  from rest [unfolded bindst_eq [of "valid_window E rv db m root ob time clock" for rv db root time]] win False obtain d x where
    v: "valid_window E (rp_revocations s) (sweep (rp_db s) time) m root ob time clock = (d, Inr x)"
    and rest: "(if (case bt_get (rd_requests d) (root, ob, at_identity actor) of None \<Rightarrow> False
         | Some r \<Rightarrow> rq_expires r > time \<or> rq_nonce r = pf_nonce p) then (d, Inr ())
      else if \<not> expired then (d, Inl RE_NotFound)
      else
      bindst (d, ensure_metadata_room d root (if bt_get (rd_requests d) (root, ob, at_identity actor) = None then METADATA_BYTES else 0)) (\<lambda>db _.
      (db\<lparr>rd_requests := bt_insert (root, ob, at_identity actor) \<lparr>rq_record = record', rq_requested = time,
            rq_expires = min (pf_expires_ms p) (saturating_add time REQUEST_LIFETIME_MS), rq_credential = at_credential actor,
            rq_nonce = pf_nonce p, rq_proof_expires = pf_expires_ms p\<rparr> (rd_requests db)\<rparr>, Inr ()))) = (db', r)"
    by blast
  from rest win [OF v] False have
    "expired \<and> (\<exists>row. db' = d\<lparr>rd_requests := bt_insert (root, ob, at_identity actor) row (rd_requests d)\<rparr>) \<and> r = Inr ()"
    by (auto simp: bindst_pure_eq split: if_splits)
  with opened [OF a(1-3) win [OF v] _ a(5)] a(4) show thesis by auto
qed (rule none)

lemma accept_message_cases:
  assumes "accept_message E s m actor ob record' p clock = (db', r)"
  obtains (none) "housekeeping clock (rp_db s) db'"
  | (accepted) time root key body row f where
      "replica_now clock = Inr time" "authorize_actor E (rp_revocations s) (rp_db s) m actor clock = Inr ()"
      "root_mailbox (sweep (rp_db s) time) m = Inr root"
      "accept_key_for (sweep (rp_db s) time) root ob record' actor = Some (body, key)"
      "Proof_verify E p key \<lparr>cx_operation = Op_Accept, cx_replica = peer_id E (replica_key E (sweep (rp_db s) time)), cx_mailbox = m,
         cx_object = ob, cx_record = record', cx_actor = actor\<rparr> time = Inr ()"
      "db' = remove_body ((sweep (rp_db s) time)\<lparr>rd_acceptances := bt_insert (root, ob, at_identity actor) row (rd_acceptances (sweep (rp_db s) time)),
           rd_requests := bt_modify (root, ob, at_identity actor) f (rd_requests (sweep (rp_db s) time))\<rparr>) root ob time"
proof (cases "housekeeping clock (rp_db s) db'")
  case False
  have sw: "housekeeping clock (rp_db s) (sweep (rp_db s) time)" if "replica_now clock = Inr time" for time
    using that by (rule sweep_housekeeping)
  from assms False sw hk_none obtain time root body key where
    a: "replica_now clock = Inr time" "authorize_actor E (rp_revocations s) (rp_db s) m actor clock = Inr ()"
      "root_mailbox (sweep (rp_db s) time) m = Inr root"
      "accept_key_for (sweep (rp_db s) time) root ob record' actor = Some (body, key)"
      "Proof_verify E p key \<lparr>cx_operation = Op_Accept, cx_replica = peer_id E (replica_key E (sweep (rp_db s) time)), cx_mailbox = m,
         cx_object = ob, cx_record = record', cx_actor = actor\<rparr> time = Inr ()"
    and rest: "(if by_policy body = NoExpiry then (sweep (rp_db s) time, Inr ())
      else
      if (case map_option ac_proof_expires (bt_get (rd_acceptances (sweep (rp_db s) time)) (root, ob, at_identity actor)) of
          None \<Rightarrow> False | Some deadline \<Rightarrow> pf_expires_ms p \<le> deadline) then (sweep (rp_db s) time, Inr ())
      else if by_expired body \<noteq> None then (sweep (rp_db s) time, Inl RE_Expired)
      else
      bindst (sweep (rp_db s) time, ensure_metadata_room (sweep (rp_db s) time) root
        (if map_option ac_proof_expires (bt_get (rd_acceptances (sweep (rp_db s) time)) (root, ob, at_identity actor)) = None
         then METADATA_BYTES else 0)) (\<lambda>db _.
      if time < by_received body then (db, Inl RE_Storage)
      else
      (remove_body (db\<lparr>rd_acceptances := bt_insert (root, ob, at_identity actor) \<lparr>ac_accepted = time,
              ac_expires = saturating_add time ACCEPTANCE_LIFETIME_MS, ac_nonce = pf_nonce p, ac_proof_expires = pf_expires_ms p\<rparr> (rd_acceptances db),
            rd_requests := bt_modify (root, ob, at_identity actor) (\<lambda>r. r\<lparr>rq_expires := rq_requested r\<rparr>) (rd_requests db)\<rparr>) root ob time,
       Inr ()))) = (db', r)"
    unfolding accept_message_def Let_def by (auto simp: bindst_pure_eq result_simps split: prod.splits)
  from rest False sw [OF a(1)] have "\<exists>row f. db' = remove_body ((sweep (rp_db s) time)\<lparr>rd_acceptances := bt_insert (root, ob, at_identity actor) row
           (rd_acceptances (sweep (rp_db s) time)),
         rd_requests := bt_modify (root, ob, at_identity actor) f (rd_requests (sweep (rp_db s) time))\<rparr>) root ob time"
    by (auto simp: bindst_eq Let_def split: if_splits)
  with accepted [OF a] show thesis by blast
qed (rule none)

end
