(* ===== verification/Replica_Machine.thy ===== *)
theory Replica_Machine
  imports Replica_Effects
begin

text \<open>
  The replica as a machine: the operations in any order, each with the time its clock shows. Next to
  the invariant of theory Replica\_Invariant, every state keeps what was removed on purpose removed:
  no copy of an object lies below a mailbox where the object was pruned, and nobody who was erased is
  a member or has an open request. The locale \<open>invariant_machine\<close> lifts both to every run.
\<close>

subsection \<open>What was removed stays removed\<close>

definition removed_ok :: "replica_db \<Rightarrow> bool" where
  "removed_ok db \<longleftrightarrow>
     (\<forall>d \<in> set (rd_deliveries db). \<forall>a \<in> set (ancestors db (dl_mailbox d)). \<not> bt_contains (rd_pruned db) (a, dl_object d))
     \<and> (\<forall>i. bt_contains (rd_erased db) i \<longrightarrow>
          (\<forall>m. (m, i) \<notin> set (rd_access_members db))
          \<and> (\<forall>m ob. \<not> bt_contains (rd_requests db) (m, ob, i) \<and> \<not> bt_contains (rd_acceptances db) (m, ob, i)))"

lemma removed_okD:
  assumes "removed_ok db"
  shows "d \<in> set (rd_deliveries db) \<Longrightarrow> a \<in> set (ancestors db (dl_mailbox d)) \<Longrightarrow> \<not> bt_contains (rd_pruned db) (a, dl_object d)"
    "bt_contains (rd_erased db) i \<Longrightarrow> (m, i) \<notin> set (rd_access_members db)"
    "bt_contains (rd_erased db) i \<Longrightarrow> \<not> bt_contains (rd_requests db) (m, ob, i)"
    "bt_contains (rd_erased db) i \<Longrightarrow> \<not> bt_contains (rd_acceptances db) (m, ob, i)"
  using assms unfolding removed_ok_def by blast+

text \<open>The general shape: fewer rows, and for what is new an argument of its own.\<close>

lemma removed_ok_change:
  assumes ok: "removed_ok db"
    and deliveries: "\<And>d a. d \<in> set (rd_deliveries db') \<Longrightarrow> a \<in> set (ancestors db' (dl_mailbox d)) \<Longrightarrow> bt_contains (rd_pruned db') (a, dl_object d) \<Longrightarrow>
        d \<in> set (rd_deliveries db) \<and> a \<in> set (ancestors db (dl_mailbox d)) \<and> bt_contains (rd_pruned db) (a, dl_object d)"
    and members: "\<And>m i. (m, i) \<in> set (rd_access_members db') \<Longrightarrow> bt_contains (rd_erased db') i \<Longrightarrow>
        (m, i) \<in> set (rd_access_members db) \<and> bt_contains (rd_erased db) i"
    and requests: "\<And>m ob i. bt_contains (rd_requests db') (m, ob, i) \<Longrightarrow> bt_contains (rd_erased db') i \<Longrightarrow>
        bt_contains (rd_requests db) (m, ob, i) \<and> bt_contains (rd_erased db) i"
    and acceptances: "\<And>m ob i. bt_contains (rd_acceptances db') (m, ob, i) \<Longrightarrow> bt_contains (rd_erased db') i \<Longrightarrow>
        bt_contains (rd_acceptances db) (m, ob, i) \<and> bt_contains (rd_erased db) i"
  shows "removed_ok db'"
  unfolding removed_ok_def using removed_okD [OF ok] deliveries members requests acceptances by meson

lemma shrinks_requests: "shrinks db db' \<Longrightarrow> bt_contains (rd_requests db') k \<Longrightarrow> bt_contains (rd_requests db) k"
  and shrinks_acceptances: "shrinks db db' \<Longrightarrow> bt_contains (rd_acceptances db') k \<Longrightarrow> bt_contains (rd_acceptances db) k"
  unfolding bt_contains_iff shrinks_def by auto

lemma shrinks_ancestors: "shrinks db db' \<Longrightarrow> ancestors db' = ancestors db"
  by (rule forest_same) (simp add: shrinks_def)

lemma shrinks_removed: "shrinks db db' \<Longrightarrow> removed_ok db \<Longrightarrow> removed_ok db'"
  by (rule removed_ok_change, assumption)
    (auto simp: shrinks_ancestors dest: shrinks_requests shrinks_acceptances, auto simp: shrinks_def)

lemma check_pruned_Inr:
  "check_pruned E db m ob = Inr () \<Longrightarrow> a \<in> set (ancestors db m) \<Longrightarrow> \<not> bt_contains (rd_pruned db) (a, ob)"
  by (auto simp: check_pruned_def bt_contains_iff find_None_iff split: option.splits sum.splits) force

lemma authorize_actor_Inr:
  "authorize_actor E rv db m a clock = Inr () \<Longrightarrow>
     Revocations_get E rv (at_credential a) = Inr None \<and> bt_contains (rd_mailboxes db) m
     \<and> \<not> access_denied db m (Some (at_identity a)) \<and> \<not> bt_contains (rd_erased db) (at_identity a)"
  by (auto simp: authorize_actor_def result_simps split: if_splits)

lemma post_inner_removed:
  assumes "removed_ok (rp_db s)" "replica_ok E (rp_db s)"
  shows "removed_ok (fst (post_inner E s m token ob b hint message actor clock rnd))"
proof -
  obtain db' r where p: "post_inner E s m token ob b hint message actor clock rnd = (db', r)" by fastforce
  then have "removed_ok db'"
  proof (cases rule: post_inner_cases)
    case (refused e)
    then show ?thesis using assms by (blast intro: shrinks_removed housekeeping_shrinks)
  next
    case (stored time content subjects db0 inserted n)
    have sh: "shrinks (sweep (rp_db s) time) db0"
      using housekeeping_shrinks [OF check_upload_housekeeping] stored(10) by (metis fst_conv)
    then have ok0: "removed_ok db0" using assms shrinks_removed shrinks_sweep by blast
    have f: "forest_ok db0"
      using check_upload_ok [OF sweep_ok [OF assms(2)]] stored(10) by (metis fst_conv replica_okD(1))
    note c = store_upload_cases [OF stored(13) f]
    have same: "rd_pruned db' = rd_pruned db0" "ancestors db' = ancestors db0"
      using c(1) shrinks_ancestors [OF c(1)] forest_same(2) [of "db'\<lparr>rd_deliveries := rd_deliveries db0\<rparr>" db'] by (simp_all add: shrinks_def)
    have new: "\<not> bt_contains (rd_pruned db0) (a, ob)" if "a \<in> set (ancestors db0 m)" for a
      using check_pruned_Inr [OF stored(7)] that shrinks_ancestors [OF sh] sh by (simp add: shrinks_def)
    show ?thesis
    proof (rule removed_ok_change [OF shrinks_removed [OF c(1) ok0]])
      fix d a
      assume "d \<in> set (rd_deliveries db')" "a \<in> set (ancestors db' (dl_mailbox d))" "bt_contains (rd_pruned db') (a, dl_object d)"
      then show "d \<in> set (rd_deliveries (db'\<lparr>rd_deliveries := rd_deliveries db0\<rparr>)) \<and> a \<in> set (ancestors (db'\<lparr>rd_deliveries := rd_deliveries db0\<rparr>) (dl_mailbox d))
          \<and> bt_contains (rd_pruned (db'\<lparr>rd_deliveries := rd_deliveries db0\<rparr>)) (a, dl_object d)"
        using new shrinks_ancestors [OF c(1)] by (auto simp: same c(2) split: if_splits)
    qed simp_all
  qed
  with p show ?thesis by simp
qed

lemma request_message_removed:
  assumes "removed_ok (rp_db s)"
  shows "removed_ok (fst (request_message E s m actor ob record' p clock))"
proof -
  obtain db' r where p: "request_message E s m actor ob record' p clock = (db', r)" by fastforce
  then have "removed_ok db'"
  proof (cases rule: request_message_cases)
    case (opened time db0 root key row)
    have "\<not> bt_contains (rd_erased db0) (at_identity actor)"
      using authorize_actor_Inr [OF opened(2)] housekeeping_shrinks [OF opened(4)] by (simp add: shrinks_def)
    then show ?thesis
      using forest_same(2) [of db' db0] unfolding opened(7)
      by (intro removed_ok_change [OF shrinks_removed [OF housekeeping_shrinks [OF opened(4)] assms]]) (auto simp: bt_contains_def split: if_splits)
  qed (use assms in \<open>auto intro: shrinks_removed housekeeping_shrinks\<close>)
  with p show ?thesis by simp
qed

lemma accept_message_removed:
  assumes "removed_ok (rp_db s)"
  shows "removed_ok (fst (accept_message E s m actor ob record' p clock))"
proof -
  obtain db' r where p: "accept_message E s m actor ob record' p clock = (db', r)" by fastforce
  then have "removed_ok db'"
  proof (cases rule: accept_message_cases)
    case (accepted time root key body row f)
    let ?db = "sweep (rp_db s) time"
    let ?db1 = "?db\<lparr>rd_acceptances := bt_insert (root, ob, at_identity actor) row (rd_acceptances ?db),
        rd_requests := bt_modify (root, ob, at_identity actor) f (rd_requests ?db)\<rparr>"
    have ok: "removed_ok ?db" by (rule shrinks_removed [OF shrinks_sweep assms])
    have "\<not> bt_contains (rd_erased ?db) (at_identity actor)"
      using authorize_actor_Inr [OF accepted(2)] shrinks_sweep [of "rp_db s" time] by (simp add: shrinks_def)
    moreover have "bt_contains (bt_modify k f (rd_requests ?db)) = bt_contains (rd_requests ?db)" for k
      by (auto simp: fun_eq_iff bt_contains_def)
    ultimately have "removed_ok ?db1"
      using forest_same(2) [of ?db1 ?db] by (intro removed_ok_change [OF ok]) (auto simp: bt_contains_def split: if_splits)
    then show ?thesis unfolding accepted(6) by (rule shrinks_removed [OF shrinks_remove_body])
  qed (use assms in \<open>auto intro: shrinks_removed housekeeping_shrinks\<close>)
  with p show ?thesis by simp
qed

lemma delete_tree_rows_removed:
  assumes "removed_ok db" "forest_ok db" "down_closed db ids"
  shows "removed_ok (delete_tree_rows ids db)"
proof -
  let ?db = "delete_tree_rows ids db"
  note sel = delete_tree_rows_sel [of ids db]
  have more: "rd_erased ?db = rd_erased db" "rd_access_members ?db = filter (\<lambda>(m, i). m \<notin> set ids) (rd_access_members db)"
    by (simp_all add: delete_tree_rows_def delete_deliveries_def delete_mailboxes_def delete_bodies_def Let_def)
  note f = forest_delete [OF assms(2,3) sel(2,1)]
  show ?thesis
    by (rule removed_ok_change [OF assms(1)])
      (auto simp: sel more f(2) delete_bodies_def dest: bt_contains_filter)
qed

lemma delete_mailbox_tree_removed: "removed_ok db \<Longrightarrow> forest_ok db \<Longrightarrow> removed_ok (delete_mailbox_tree db m)"
  unfolding delete_mailbox_tree_def tree_def
  by (intro shrinks_removed [OF shrinks_delete_orphans] delete_tree_rows_removed down_closed_descend)

lemma release_expired_removed:
  assumes "removed_ok db" "forest_ok db"
  shows "removed_ok (release_expired db time)"
proof -
  have "removed_ok (delete_tree_rows (expired_mailboxes db time) db)"
    unfolding expired_mailboxes_def by (intro delete_tree_rows_removed [OF assms] down_closed_descend assms)
  then show ?thesis unfolding release_expired_def Let_def
    by (cases "expired_mailboxes db time = []") (auto intro: shrinks_removed [OF shrinks_delete_orphans])
qed

lemma add_mailbox_removed:
  assumes "removed_ok db" "replica_ok E db" "\<not> bt_contains (rd_mailboxes db) m"
    and "db' = db\<lparr>rd_mailboxes := ms, rd_delegations := ds\<rparr>" "\<And>y. y \<noteq> m \<Longrightarrow> ancestors db' y = ancestors db y"
  shows "removed_ok db'"
proof -
  have "dl_mailbox d \<noteq> m" if "d \<in> set (rd_deliveries db)" for d
    using replica_okD(2) [OF assms(2)] assms(3) that by (auto simp: deliveries_ok_def)
  then have "ancestors db' (dl_mailbox d) = ancestors db (dl_mailbox d)" if "d \<in> set (rd_deliveries db)" for d
    using assms(5) that by blast
  moreover have same: "rd_deliveries db' = rd_deliveries db" "rd_pruned db' = rd_pruned db" "rd_erased db' = rd_erased db"
    "rd_access_members db' = rd_access_members db" "rd_requests db' = rd_requests db" "rd_acceptances db' = rd_acceptances db"
    by (simp_all add: assms(4))
  ultimately show ?thesis using assms(1) by (simp add: removed_ok_def same)
qed

lemma reserve_mailbox_removed:
  assumes "removed_ok db" "replica_ok E db" "reserve_mailbox E db d quota = Inr db'"
  shows "removed_ok db'"
proof (cases "bt_get (rd_mailboxes db) (md_mailbox_id d)")
  case None
  then obtain r where db': "db' = db\<lparr>rd_mailboxes := bt_insert (md_mailbox_id d) r (rd_mailboxes db), rd_delegations := rd_delegations db\<rparr>"
    using assms(3) by (auto simp: reserve_mailbox_def result_simps split: if_splits)
  have anc: "ancestors db' = ancestors db" by (rule forest_same) (simp add: db')
  show ?thesis
    by (rule add_mailbox_removed [OF assms(1,2) _ db', where m = "md_mailbox_id d"]) (simp_all add: None bt_contains_def anc)
qed (use assms in \<open>auto simp: reserve_mailbox_def result_simps split: if_splits\<close>)

lemma create_child_removed:
  assumes "removed_ok db" "replica_ok E db" "create_child E db parent token child clock = Inr db'"
  shows "removed_ok db'"
proof (cases "db' = db")
  case False
  from assms(3) this show ?thesis
  proof (cases rule: create_child_Inr)
    case (1 time rd wr)
    let ?db = "release_expired db time" and ?i = "md_mailbox_id (ch_descriptor child)"
    have ok: "replica_ok E ?db" by (rule release_expired_ok [OF assms(2)])
    have new: "\<not> bt_contains (rd_mailboxes ?db) ?i" using 1(8) by (simp add: bt_contains_def)
    have par: "bt_contains (rd_mailboxes ?db) parent" "\<And>d. bt_get (rd_delegations ?db) parent = Some d \<Longrightarrow> ch_expires_at child \<le> dg_expires d"
      using 1(7) ancestors_self [OF replica_okD(1) [OF ok], of parent]
      by (force simp: child_budget_def result_simps bt_contains_def split: if_splits)+
    have "ancestors db' y = ancestors ?db y" if "y \<noteq> ?i" for y
      by (rule forest_add_child(3) [OF replica_okD(1) [OF ok] new par(1) 1(6), where x = "\<lparr>dg_parent = parent, dg_expires = ch_expires_at child\<rparr>"])
        (use par(2) that in \<open>simp_all add: 1(9)\<close>)
    then show ?thesis
      by (intro add_mailbox_removed [OF release_expired_removed [OF assms(1) replica_okD(1) [OF assms(2)]] ok new 1(9)])
  qed
qed (use assms in simp)

lemma set_space_members_removed:
  assumes "removed_ok db" "set_space_members db m ids = Inr db'"
  shows "removed_ok db'"
proof -
  from assms(2) obtain roots members P Q where
    db': "db' = db\<lparr>rd_access_roots := roots, rd_access_members := members, rd_requests := filter P (rd_requests db),
        rd_acceptances := filter Q (rd_acceptances db)\<rparr>"
    and members: "members = filter (\<lambda>(m', i). m' \<noteq> m) (rd_access_members db)
            @ map (Pair m) (remdups (filter (\<lambda>i. \<not> bt_contains (rd_erased db) i) ids))"
    by (auto simp: set_space_members_def result_simps Let_def split: if_splits)
  have "ancestors db' = ancestors db" by (rule forest_same) (simp add: db')
  then show ?thesis
    by (intro removed_ok_change [OF assms(1)]) (auto simp: db' members dest: bt_contains_filter)
qed

lemma erase_account_content_Inr:
  assumes "erase_account_content db root i clock = Inr (db', n)"
  obtains time owned db2 where
    "replica_now clock = Inr time" "rd_complete db" "root_mailboxes db = [root]" "owned = map fst (filter (\<lambda>(ob, j). j = i) (rd_owners db))"
    "db2 = delete_orphans (\<lambda>_. True) (delete_deliveries (\<lambda>d. dl_object d \<in> set owned)
        (db\<lparr>rd_erased := insert_missing time [i] (rd_erased db), rd_pruned := insert_missing time (map (Pair root) owned) (rd_pruned db)\<rparr>))"
    "db' = db2\<lparr>rd_access_members := filter (\<lambda>(m, j). j \<noteq> i) (rd_access_members db2),
               rd_requests := filter (\<lambda>((m, ob, j), r). j \<noteq> i) (rd_requests db2),
               rd_acceptances := filter (\<lambda>((m, ob, j), r). j \<noteq> i) (rd_acceptances db2)\<rparr>"
  using assms by (auto simp: erase_account_content_def result_simps Let_def split: if_splits)

lemma insert_missing_contains: "bt_contains (insert_missing v ks m) k \<longleftrightarrow> k \<in> set ks \<or> bt_contains m k"
  by (auto simp: bt_contains_def insert_missing_get split: option.splits)

lemma contains_filter_triple:
  "bt_contains (filter (\<lambda>((a, b, c), v). P a b c) m) (x, y, z) \<longleftrightarrow> P x y z \<and> bt_contains m (x, y, z)"
  by (auto simp: bt_contains_def bt_get_filter_triple)

lemma erase_account_content_removed:
  assumes "removed_ok db" "erase_account_content db root i clock = Inr (db', n)"
  shows "removed_ok db'"
  using assms(2)
proof (cases rule: erase_account_content_Inr)
  case (1 time owned db2)
  have anc: "ancestors db' = ancestors db" by (rule forest_same) (simp add: 1(5,6) delete_orphans_def delete_deliveries_def Let_def)
  have same: "rd_deliveries db' = filter (\<lambda>d. dl_object d \<notin> set owned) (rd_deliveries db)"
    "rd_pruned db' = insert_missing time (map (Pair root) owned) (rd_pruned db)" "rd_erased db' = insert_missing time [i] (rd_erased db)"
    "rd_access_members db' = filter (\<lambda>(m, j). j \<noteq> i) (rd_access_members db)"
    "rd_requests db' = filter (\<lambda>((m, ob, j), r). j \<noteq> i) (rd_requests db)"
    "rd_acceptances db' = filter (\<lambda>((m, ob, j), r). j \<noteq> i) (rd_acceptances db)"
    by (simp_all add: 1(5,6) delete_orphans_def delete_deliveries_def Let_def)
  show ?thesis
    by (rule removed_ok_change [OF assms(1)])
      (auto simp: anc same insert_missing_contains contains_filter_triple)
qed

lemma prune_messages_Inr:
  assumes "prune_messages db root before clock = Inr (db', result)"
  obtains time candidates where
    "replica_now clock = Inr time" "before \<le> time" "space_usage db root before = Inr result"
    "candidates = filter (prune_candidate db root before) (map (snd \<circ> fst) (rd_copies db))"
    "db' = delete_orphans (\<lambda>_. True) (delete_deliveries (\<lambda>d. in_tree db root d
        \<and> bt_contains (insert_missing time (map (Pair root) candidates) (rd_pruned db)) (root, dl_object d))
      (db\<lparr>rd_pruned := insert_missing time (map (Pair root) candidates) (rd_pruned db)\<rparr>))"
proof -
  have t: "in_tree (db\<lparr>rd_pruned := x\<rparr>) = in_tree db" for x by (rule forest_same) simp
  show thesis using assms that by (auto simp: prune_messages_def result_simps Let_def t split: if_splits)
qed

lemma prune_messages_removed:
  assumes "removed_ok db" "forest_ok db" "prune_messages db root before clock = Inr (db', result)"
  shows "removed_ok db'"
  using assms(3)
proof (cases rule: prune_messages_Inr)
  case (1 time candidates)
  have anc: "ancestors db' = ancestors db" by (rule forest_same) (simp add: 1(5) delete_orphans_def delete_deliveries_def Let_def)
  have same: "rd_deliveries db' = filter (\<lambda>d. \<not> (in_tree db root d
        \<and> bt_contains (insert_missing time (map (Pair root) candidates) (rd_pruned db)) (root, dl_object d))) (rd_deliveries db)"
    "rd_pruned db' = insert_missing time (map (Pair root) candidates) (rd_pruned db)" "rd_erased db' = rd_erased db"
    "rd_access_members db' = rd_access_members db" "rd_requests db' = rd_requests db" "rd_acceptances db' = rd_acceptances db"
    by (simp_all add: 1(5) delete_orphans_def delete_deliveries_def Let_def)
  show ?thesis
    by (rule removed_ok_change [OF assms(1)])
      (auto simp: anc same insert_missing_contains in_tree_delivery [OF assms(2)])
qed

subsection \<open>The machine\<close>

datatype replica_input =
    In_Reserve MailboxDescriptor nat
  | In_Child MailboxId string ChildMailbox
  | In_DeleteTree MailboxId
  | In_Members MailboxId "IdentityId list"
  | In_Access VerifiedAccess
  | In_RequireOwner
  | In_Erase MailboxId IdentityId
  | In_Post MailboxId string ObjectId bytes TransferHint bool "Actor option" "bytes option"
  | In_Get MailboxId string ObjectId
  | In_Inventory MailboxId string nat nat
  | In_Request MailboxId Actor ObjectId RecordId Proof
  | In_Accept MailboxId Actor ObjectId RecordId Proof
  | In_Prune MailboxId nat
  | In_Maintain
  | In_Allowed "MessageRetention list"
  | In_Admitted "RecordId list"
  | In_Revocations Revocations

datatype replica_output =
    Out_Error ReplicaError
  | Out_Done
  | Out_Erased nat
  | Out_Posted bool bytes
  | Out_Bytes bytes
  | Out_Inventory Inventory
  | Out_Space SpaceStorage

text \<open>An operation in one transaction: a failure leaves the tables as they were.\<close>

definition atomically ::
  "ReplicaStore \<Rightarrow> (ReplicaError + 'a) \<Rightarrow> ('a \<Rightarrow> replica_db \<times> replica_output) \<Rightarrow> ReplicaStore \<times> replica_output" where
  "atomically s r f = (case r of Inl e \<Rightarrow> (s, Out_Error e) | Inr x \<Rightarrow> (s\<lparr>rp_db := fst (f x)\<rparr>, snd (f x)))"

definition replying ::
  "ReplicaStore \<Rightarrow> replica_db \<times> (ReplicaError + 'a) \<Rightarrow> ('a \<Rightarrow> replica_output) \<Rightarrow> ReplicaStore \<times> replica_output" where
  "replying s m f = (s\<lparr>rp_db := fst m\<rparr>, case snd m of Inl e \<Rightarrow> Out_Error e | Inr x \<Rightarrow> f x)"

fun replica_step :: "('z replica_ext_scheme) \<Rightarrow> ReplicaStore \<Rightarrow> int \<times> replica_input \<Rightarrow> ReplicaStore \<times> replica_output" where
  "replica_step E s (clock, In_Reserve d quota) = atomically s (reserve_mailbox E (rp_db s) d quota) (\<lambda>db. (db, Out_Done))"
| "replica_step E s (clock, In_Child parent token child) =
     atomically s (create_child E (rp_db s) parent token child clock) (\<lambda>db. (db, Out_Done))"
| "replica_step E s (clock, In_DeleteTree m) = (s\<lparr>rp_db := delete_mailbox_tree (rp_db s) m\<rparr>, Out_Done)"
| "replica_step E s (clock, In_Members m ids) = atomically s (set_space_members (rp_db s) m ids) (\<lambda>db. (db, Out_Done))"
| "replica_step E s (clock, In_Access access) = atomically s (consume_access (rp_db s) access clock) (\<lambda>db. (db, Out_Done))"
| "replica_step E s (clock, In_RequireOwner) = (s\<lparr>rp_db := require_content_ownership (rp_db s)\<rparr>, Out_Done)"
| "replica_step E s (clock, In_Erase root i) =
     atomically s (erase_account_content (rp_db s) root i clock) (\<lambda>(db, n). (db, Out_Erased n))"
| "replica_step E s (clock, In_Post m token ob b hint message actor rnd) =
     replying s (post_inner E s m token ob b hint message actor clock rnd) (\<lambda>(inserted, receipt). Out_Posted inserted receipt)"
| "replica_step E s (clock, In_Get m token ob) = replying s (replica_get E (rp_db s) m token ob clock) Out_Bytes"
| "replica_step E s (clock, In_Inventory m token after limit) =
     replying s (replica_inventory E s m token after limit clock) Out_Inventory"
| "replica_step E s (clock, In_Request m actor ob rec p) = replying s (request_message E s m actor ob rec p clock) (\<lambda>_. Out_Done)"
| "replica_step E s (clock, In_Accept m actor ob rec p) = replying s (accept_message E s m actor ob rec p clock) (\<lambda>_. Out_Done)"
| "replica_step E s (clock, In_Prune root before) =
     atomically s (prune_messages (rp_db s) root before clock) (\<lambda>(db, storage). (db, Out_Space storage))"
| "replica_step E s (clock, In_Maintain) = atomically s (maintain_message_lifetime (rp_db s) clock) (\<lambda>db. (db, Out_Done))"
| "replica_step E s (clock, In_Allowed policies) =
     (case with_allowed_message_retentions s policies of Inl e \<Rightarrow> (s, Out_Error e) | Inr s' \<Rightarrow> (s', Out_Done))"
| "replica_step E s (clock, In_Admitted devices) = (set_admitted_devices s devices, Out_Done)"
| "replica_step E s (clock, In_Revocations rv) = (s\<lparr>rp_revocations := rv\<rparr>, Out_Done)"

abbreviation replica_run :: "('z replica_ext_scheme) \<Rightarrow> ReplicaStore \<Rightarrow> (int \<times> replica_input) list \<Rightarrow> ReplicaStore" where
  "replica_run E \<equiv> run_steps (replica_step E)"

definition new_replica :: "MessageRetention list \<Rightarrow> bytes \<Rightarrow> string \<Rightarrow> Revocations \<Rightarrow> ReplicaStore" where
  "new_replica allowed seed generation rv =
     \<lparr>rp_allowed = allowed, rp_admitted = [], rp_revocations = rv, rp_db = empty_replica seed generation\<rparr>"

definition replica_inv :: "('z replica_ext_scheme) \<Rightarrow> ReplicaStore \<Rightarrow> bool" where
  "replica_inv E s \<longleftrightarrow> replica_ok E (rp_db s) \<and> removed_ok (rp_db s)"

lemma new_replica_inv: "replica_inv E (new_replica allowed seed generation rv)"
  by (simp add: replica_inv_def new_replica_def empty_replica_def replica_ok_def forest_ok_def deliveries_ok_def objects_ok_def
      messages_ok_def quota_ok_def removed_ok_def bt_contains_def)

lemma atomically_inv:
  assumes "replica_inv E s" "\<And>x. r = Inr x \<Longrightarrow> replica_ok E (fst (f x)) \<and> removed_ok (fst (f x))"
  shows "replica_inv E (fst (atomically s r f))"
  using assms by (auto simp: atomically_def replica_inv_def split: sum.splits)

lemma replying_inv: "replica_ok E (fst m) \<Longrightarrow> removed_ok (fst m) \<Longrightarrow> replica_inv E (fst (replying s m f))"
  by (simp add: replying_def replica_inv_def)

lemma replica_step_inv:
  assumes inv: "replica_inv E s"
  shows "replica_inv E (fst (replica_step E s (clock, i)))"
proof -
  note ok = inv [unfolded replica_inv_def, THEN conjunct1] and rem = inv [unfolded replica_inv_def, THEN conjunct2]
  have core: "replica_ok E db' \<and> removed_ok db'"
    if "same_core (rp_db s) db'" "rd_erased db' = rd_erased (rp_db s)" "rd_access_members db' = rd_access_members (rp_db s)" for db'
    using that replica_ok_core [OF ok that(1)] forest_same(2) [of db' "rp_db s"] rem by (simp add: removed_ok_def same_core_def)
  show ?thesis
  proof (cases i)
    case (In_Reserve d quota)
    then show ?thesis by (auto intro!: atomically_inv [OF inv] intro: reserve_mailbox_ok [OF ok] reserve_mailbox_removed [OF rem ok])
  next
    case (In_Child parent token child)
    then show ?thesis by (auto intro!: atomically_inv [OF inv] intro: create_child_ok [OF ok] create_child_removed [OF rem ok])
  next
    case (In_DeleteTree m)
    then show ?thesis
      using delete_mailbox_tree_ok [OF ok] delete_mailbox_tree_removed [OF rem replica_okD(1) [OF ok]] by (simp add: replica_inv_def)
  next
    case (In_Members m ids)
    then show ?thesis by (auto intro!: atomically_inv [OF inv] intro: set_space_members_ok [OF ok] set_space_members_removed [OF rem])
  next
    case (In_Access access)
    have "same_core (rp_db s) db' \<and> rd_erased db' = rd_erased (rp_db s) \<and> rd_access_members db' = rd_access_members (rp_db s)"
      if "consume_access (rp_db s) access clock = Inr db'" for db'
      using that by (auto simp: consume_access_def result_simps Let_def same_core_def split: if_splits)
    with core In_Access show ?thesis by (auto intro!: atomically_inv [OF inv])
  next
    case In_RequireOwner
    with core [of "require_content_ownership (rp_db s)"] show ?thesis
      by (simp add: replica_inv_def require_content_ownership_def same_core_def)
  next
    case (In_Erase root j)
    then show ?thesis
      by (auto intro!: atomically_inv [OF inv] intro: erase_account_content_ok [OF ok] erase_account_content_removed [OF rem])
  next
    case (In_Post m token ob b hint message actor rnd)
    then show ?thesis by (auto intro: replying_inv post_inner_ok [OF ok] post_inner_removed [OF rem ok])
  next
    case (In_Get m token ob)
    then show ?thesis by (auto intro: replying_inv housekeeping_ok [OF replica_get_housekeeping ok] shrinks_removed [OF housekeeping_shrinks [OF replica_get_housekeeping] rem])
  next
    case (In_Inventory m token after limit)
    then show ?thesis by (auto intro: replying_inv housekeeping_ok [OF replica_inventory_housekeeping ok] shrinks_removed [OF housekeeping_shrinks [OF replica_inventory_housekeeping] rem])
  next
    case (In_Request m actor ob rec p)
    then show ?thesis by (auto intro: replying_inv request_message_ok [OF ok] request_message_removed [OF rem])
  next
    case (In_Accept m actor ob rec p)
    then show ?thesis by (auto intro: replying_inv accept_message_ok [OF ok] accept_message_removed [OF rem])
  next
    case (In_Prune root before)
    then show ?thesis
      by (auto intro!: atomically_inv [OF inv] intro: prune_messages_ok [OF ok] prune_messages_removed [OF rem replica_okD(1) [OF ok]])
  next
    case In_Maintain
    then show ?thesis
      by (auto simp: maintain_message_lifetime_def result_simps
          intro!: atomically_inv [OF inv] sweep_ok [OF ok] shrinks_removed [OF shrinks_sweep rem])
  next
    case (In_Allowed policies)
    with inv show ?thesis by (auto simp: with_allowed_message_retentions_def replica_inv_def split: if_splits)
  qed (use inv in \<open>simp_all add: replica_inv_def set_admitted_devices_def\<close>)
qed

interpretation rep: invariant_machine "replica_step E" "replica_inv E" for E :: "('z replica_ext_scheme)"
  by unfold_locales (metis replica_step_inv surj_pair)

lemma replica_reachable:
  assumes "s = replica_run E (new_replica allowed seed generation rv) xs"
  shows "replica_ok E (rp_db s)" "removed_ok (rp_db s)"
  using rep.run_inv [OF new_replica_inv [of E allowed seed generation rv], of xs] assms by (simp_all add: replica_inv_def)

end
