(* ===== verification/Replica_Guarantees.thy ===== *)
theory Replica_Guarantees
  imports Replica_Machine
begin

text \<open>
  What the replica promises, in every state a run of the machine reaches from a new database: quotas
  hold, the recursive queries over mailboxes end, stored objects are intact and served exactly as they
  were uploaded until one of the causes the code names removes them, message bodies are not served
  after their deadline and come back only on an authorised request, and what was pruned, erased or
  already used does not return.
\<close>

subsection \<open>Space and shape\<close>

text \<open>
  C17: no mailbox ever holds more than its quota. In every state a run of the machine reaches, the
  ciphertexts delivered to a mailbox and all mailboxes below it, with the metadata of its messages,
  fit its quota, and it has at most 256 mailboxes below it.
\<close>

theorem replica_quota:
  assumes "db = rp_db (replica_run E (new_replica allowed seed generation rv) inputs)"
    and "bt_get (rd_mailboxes db) m = Some r"
  shows "retained_usage db m + metadata_usage db m \<le> mb_quota r \<and> card (set (tree db m)) \<le> 257"
proof -
  have ok: "replica_ok E db" using replica_reachable(1) [OF refl] by (simp add: assms(1))
  then show ?thesis
    using replica_okD(5) [OF ok] assms(2) distinct_card [OF distinct_tree [OF replica_okD(1) [OF ok]], of m]
    by (simp add: quota_ok_def MAX_CHILD_MAILBOXES_def)
qed

text \<open>
  C37: the recursive queries over the mailbox forest end. In every state a run of the machine
  reaches, climbing from a mailbox and descending from it give the same answer however many more
  rounds they are allowed than there are delegations; a climb takes at most three mailboxes and ends
  at one that has no parent, which is the root every operation finds.
\<close>

theorem mailbox_queries_end:
  assumes "db = rp_db (replica_run E (new_replica allowed seed generation rv) inputs)"
  shows "chain (length (rd_delegations db) + n) (mailbox_parent db) m = ancestors db m
    \<and> descend (length (rd_delegations db) + n) (rd_delegations db) [m] = tree db m
    \<and> length (ancestors db m) \<le> 3 \<and> mailbox_parent db (last (ancestors db m)) = None
    \<and> root_mailbox db m = Inr (last (ancestors db m))"
proof -
  have f: "forest_ok db" unfolding assms by (rule replica_okD(1) [OF replica_reachable(1) [OF refl]])
  show ?thesis
    using chain_more [OF f] descend_more [OF f, of n "[m]"] descend_forest [OF f, of "[m]"] ancestors_length [OF f] root_of_root [OF f, of m]
      root_mailbox_Inr [OF f, of m] by (simp add: tree_def root_of_def)
qed

text \<open>
  C38: the tables are well formed in every state a run of the machine reaches. Every stored object,
  packed or not, is put together to bytes of the recorded size that hash to its identifier; every
  delivery belongs to a mailbox and an object that exist, arrival numbers ascend strictly without
  leaving the range of the database, and no object is delivered twice to one mailbox.
\<close>

theorem replica_well_formed:
  assumes "db = rp_db (replica_run E (new_replica allowed seed generation rv) inputs)"
  shows "(\<forall>ob o'. bt_get (rd_objects db) ob = Some o' \<longrightarrow>
        (\<exists>b. packing_load E db ob = Inr b \<and> of_ciphertext E b = ob \<and> length b = wire_size o'))
    \<and> (\<forall>d \<in> set (rd_deliveries db). bt_contains (rd_mailboxes db) (dl_mailbox d) \<and> bt_contains (rd_objects db) (dl_object d)
        \<and> 1 \<le> dl_seq d \<and> dl_seq d \<le> rd_sequence db \<and> rd_sequence db \<le> MAX_INTEGER)
    \<and> sorted_wrt (<) (map dl_seq (rd_deliveries db)) \<and> distinct (map delivery_key (rd_deliveries db))"
proof -
  have ok: "replica_ok E db" unfolding assms by (rule replica_reachable(1) [OF refl])
  have "\<exists>b. packing_load E db ob = Inr b \<and> of_ciphertext E b = ob \<and> length b = wire_size o'"
    if "bt_get (rd_objects db) ob = Some o'" for ob o'
    using replica_okD(3) [OF ok] that by (fastforce simp: objects_ok_def object_ok_def packing_load_iff)
  then show ?thesis using replica_okD(2) [OF ok] by (simp add: deliveries_ok_def)
qed

subsection \<open>The sweep\<close>

text \<open>Nothing is due: the state a sweep leaves behind.\<close>

definition settled :: "nat \<Rightarrow> replica_db \<Rightarrow> bool" where
  "settled time db \<longleftrightarrow>
     (\<forall>k r. bt_get (rd_bodies db) k = Some r \<longrightarrow> \<not> body_due time r) \<and> (\<forall>k r. bt_get (rd_locators db) k = Some r \<longrightarrow> \<not> locator_due time r)"

lemma not_due_expired: "\<not> body_due time (expire_row time r)"
  by (auto simp: body_due_def expire_row_def split: option.split)

lemma remove_body_rows:
  "rd_bodies (remove_body db root ob time) = bt_modify (root, ob) (expire_row time) (rd_bodies db)"
  "rd_locators (remove_body db root ob time) = rd_locators db"
  "rd_delegations (remove_body db root ob time) = rd_delegations db"
  "rd_deliveries (remove_body db root ob time) = filter (\<lambda>d. \<not> (dl_object d = ob \<and> in_tree db root d)) (rd_deliveries db)"
  by (simp_all add: remove_body_def delete_deliveries_def delete_orphans_def Let_def)

lemma remove_locator_rows:
  "bt_get (rd_bodies (remove_locator db root ob body)) k = (if k = (root, body) then None else bt_get (rd_bodies db) k)"
  "rd_locators (remove_locator db root ob body) = bt_remove (root, ob) (rd_locators db)"
  "rd_delegations (remove_locator db root ob body) = rd_delegations db"
  "rd_deliveries (remove_locator db root ob body) = filter (\<lambda>d. \<not> (dl_object d = ob \<and> in_tree db root d)) (rd_deliveries db)"
  by (simp_all add: remove_locator_def delete_deliveries_def delete_bodies_def delete_orphans_def Let_def bt_get_filter_keys)

text \<open>One pass over the due bodies, one over the due locators.\<close>

lemma expire_row_twice: "expire_row time (expire_row time r) = expire_row time r"
  by (simp add: expire_row_def split: option.split)

lemma remove_bodies_fold:
  "db' = fold (\<lambda>((root, ob), r) db. remove_body db root ob time) xs db \<Longrightarrow>
     (\<forall>k. bt_get (rd_bodies db') k = (if k \<in> fst ` set xs then map_option (expire_row time) (bt_get (rd_bodies db) k) else bt_get (rd_bodies db) k))
     \<and> rd_locators db' = rd_locators db \<and> rd_delegations db' = rd_delegations db
     \<and> rd_deliveries db' = filter (\<lambda>d. \<not> (\<exists>root. (root, dl_object d) \<in> fst ` set xs \<and> in_tree db root d)) (rd_deliveries db)"
proof (induction xs arbitrary: db)
  case (Cons e xs)
  obtain root ob r where e: "e = ((root, ob), r)" by (cases e) auto
  let ?db = "remove_body db root ob time"
  have t: "in_tree ?db = in_tree db" by (rule forest_same) (simp add: remove_body_rows)
  have "db' = fold (\<lambda>((root, ob), r) db. remove_body db root ob time) xs ?db" using Cons.prems by (simp add: e)
  note IH = Cons.IH [OF this, unfolded t remove_body_rows filter_filter]
  have "bt_get (rd_bodies db') k = (if k \<in> fst ` set (e # xs) then map_option (expire_row time) (bt_get (rd_bodies db) k) else bt_get (rd_bodies db) k)" for k
    using IH [THEN conjunct1, THEN spec, of k] by (cases "bt_get (rd_bodies db) k") (auto simp: e expire_row_twice)
  moreover have "rd_deliveries db' = filter (\<lambda>d. \<not> (\<exists>root. (root, dl_object d) \<in> fst ` set (e # xs) \<and> in_tree db root d)) (rd_deliveries db)"
    unfolding IH [THEN conjunct2, THEN conjunct2, THEN conjunct2] by (rule filter_cong) (auto simp: e)
  ultimately show ?case using IH by blast
qed simp

lemma remove_locators_fold:
  "db' = fold (\<lambda>((root, ob), r) db. remove_locator db root ob (lo_body r)) xs db \<Longrightarrow>
     (\<forall>k. bt_get (rd_bodies db') k = (if \<exists>e \<in> set xs. k = (fst (fst e), lo_body (snd e)) then None else bt_get (rd_bodies db) k))
     \<and> (\<forall>k. bt_get (rd_locators db') k = (if k \<in> fst ` set xs then None else bt_get (rd_locators db) k))
     \<and> rd_deliveries db' = filter (\<lambda>d. \<not> (\<exists>root. (root, dl_object d) \<in> fst ` set xs \<and> in_tree db root d)) (rd_deliveries db)"
proof (induction xs arbitrary: db)
  case (Cons e xs)
  obtain root ob r where e: "e = ((root, ob), r)" by (cases e) auto
  let ?db = "remove_locator db root ob (lo_body r)"
  have t: "in_tree ?db = in_tree db" by (rule forest_same) (simp add: remove_locator_rows)
  have "db' = fold (\<lambda>((root, ob), r) db. remove_locator db root ob (lo_body r)) xs ?db" using Cons.prems by (simp add: e)
  note IH = Cons.IH [OF this, unfolded t remove_locator_rows filter_filter]
  have "bt_get (rd_bodies db') k = (if \<exists>e \<in> set (e # xs). k = (fst (fst e), lo_body (snd e)) then None else bt_get (rd_bodies db) k)" for k
    using IH [THEN conjunct1, THEN spec, of k] by (auto simp: e)
  moreover have "bt_get (rd_locators db') k = (if k \<in> fst ` set (e # xs) then None else bt_get (rd_locators db) k)" for k
    using IH [THEN conjunct2, THEN conjunct1, THEN spec, of k] by (auto simp: e)
  moreover have "rd_deliveries db' = filter (\<lambda>d. \<not> (\<exists>root. (root, dl_object d) \<in> fst ` set (e # xs) \<and> in_tree db root d)) (rd_deliveries db)"
    unfolding IH [THEN conjunct2, THEN conjunct2] by (rule filter_cong) (auto simp: e)
  ultimately show ?case by blast
qed simp

lemma sweep_rows:
  assumes "bt_wf (rd_bodies db)" "bt_wf (rd_locators db)"
  shows "bt_get (rd_locators (sweep db time)) k = (case bt_get (rd_locators db) k of None \<Rightarrow> None | Some r \<Rightarrow> if locator_due time r then None else Some r)"
    and "bt_get (rd_bodies (sweep db time)) k =
      (if \<exists>ob l. bt_get (rd_locators db) (fst k, ob) = Some l \<and> locator_due time l \<and> lo_body l = snd k then None
       else map_option (\<lambda>r. if body_due time r then expire_row time r else r) (bt_get (rd_bodies db) k))"
    and "rd_deliveries (sweep db time) = filter (\<lambda>d. \<not> (\<exists>root. in_tree db root d
        \<and> ((\<exists>r. bt_get (rd_bodies db) (root, dl_object d) = Some r \<and> body_due time r)
           \<or> (\<exists>l. bt_get (rd_locators db) (root, dl_object d) = Some l \<and> locator_due time l)))) (rd_deliveries db)"
proof -
  let ?bs = "filter (\<lambda>(k, r). body_due time r) (rd_bodies db)"
  let ?db1 = "sweep_bodies db time"
  have bs: "k \<in> fst ` set ?bs \<longleftrightarrow> (\<exists>r. bt_get (rd_bodies db) k = Some r \<and> body_due time r)" for k
    by (cases k) (force simp: bt_get_iff [OF assms(1)])
  have b: "\<And>k. bt_get (rd_bodies ?db1) k = (if \<exists>r. bt_get (rd_bodies db) k = Some r \<and> body_due time r
        then map_option (expire_row time) (bt_get (rd_bodies db) k) else bt_get (rd_bodies db) k)"
    "rd_locators ?db1 = rd_locators db" "rd_delegations ?db1 = rd_delegations db"
    "rd_deliveries ?db1 = filter (\<lambda>d. \<not> (\<exists>root. (\<exists>r. bt_get (rd_bodies db) (root, dl_object d) = Some r \<and> body_due time r) \<and> in_tree db root d)) (rd_deliveries db)"
    using remove_bodies_fold [OF sweep_bodies_def [of db time], unfolded bs] by blast+
  let ?ls = "filter (\<lambda>(k, r). locator_due time r) (rd_locators db)"
  have ls: "k \<in> fst ` set ?ls \<longleftrightarrow> (\<exists>l. bt_get (rd_locators db) k = Some l \<and> locator_due time l)" for k
    by (cases k) (force simp: bt_get_iff [OF assms(2)])
  have ls': "(\<exists>e \<in> set ?ls. k = (fst (fst e), lo_body (snd e)))
      \<longleftrightarrow> (\<exists>ob l. bt_get (rd_locators db) (fst k, ob) = Some l \<and> locator_due time l \<and> lo_body l = snd k)" for k
    by (cases k) (force simp: bt_get_iff [OF assms(2)])
  have d2: "sweep_locators ?db1 time = fold (\<lambda>((root, ob), r) db. remove_locator db root ob (lo_body r)) ?ls ?db1"
    by (simp add: sweep_locators_def b(2))
  note l = remove_locators_fold [OF d2, unfolded ls ls']
  have s: "rd_locators (sweep db time) = rd_locators (sweep_locators ?db1 time)" "rd_bodies (sweep db time) = rd_bodies (sweep_locators ?db1 time)"
    "rd_deliveries (sweep db time) = rd_deliveries (sweep_locators ?db1 time)" by (simp_all add: sweep_def Let_def)
  show "bt_get (rd_locators (sweep db time)) k = (case bt_get (rd_locators db) k of None \<Rightarrow> None | Some r \<Rightarrow> if locator_due time r then None else Some r)"
    unfolding s using l [THEN conjunct2, THEN conjunct1, THEN spec, of k] by (auto simp: b(2) split: option.split)
  show "bt_get (rd_bodies (sweep db time)) k =
      (if \<exists>ob l. bt_get (rd_locators db) (fst k, ob) = Some l \<and> locator_due time l \<and> lo_body l = snd k then None
       else map_option (\<lambda>r. if body_due time r then expire_row time r else r) (bt_get (rd_bodies db) k))"
    unfolding s using l [THEN conjunct1, THEN spec, of k] by (cases "bt_get (rd_bodies db) k") (auto simp: b(1))
  have t: "in_tree ?db1 = in_tree db" by (rule forest_same) (simp add: b(3))
  show "rd_deliveries (sweep db time) = filter (\<lambda>d. \<not> (\<exists>root. in_tree db root d
        \<and> ((\<exists>r. bt_get (rd_bodies db) (root, dl_object d) = Some r \<and> body_due time r)
           \<or> (\<exists>l. bt_get (rd_locators db) (root, dl_object d) = Some l \<and> locator_due time l)))) (rd_deliveries db)"
    unfolding s l [THEN conjunct2, THEN conjunct2] b(4) t filter_filter by (rule filter_cong) auto
qed

lemma sweep_settled:
  assumes "messages_ok db"
  shows "settled time (sweep db time)"
proof -
  note rows = sweep_rows(1,2) [OF messages_okD(1,2) [OF assms]]
  have n: "\<not> body_due time (if body_due time r then expire_row time r else r)" for r by (simp add: not_due_expired)
  have "\<not> body_due time r" if "bt_get (rd_bodies (sweep db time)) k = Some r" for k r
    using that n unfolding rows(2) by (metis (no_types, lifting) map_option_eq_Some option.discI)
  moreover have "\<not> locator_due time r" if "bt_get (rd_locators (sweep db time)) k = Some r" for k r
    using that unfolding rows(1) by (auto split: option.splits if_splits)
  ultimately show ?thesis by (simp add: settled_def)
qed

lemma sweep_of_settled:
  assumes "messages_ok db" "settled time db"
  shows "sweep db time = db\<lparr>rd_requests := filter (\<lambda>(k, r). \<not> rq_proof_expires r \<le> time) (rd_requests db),
          rd_acceptances := filter (\<lambda>(k, r). \<not> ac_expires r \<le> time) (rd_acceptances db)\<rparr>"
proof -
  have "filter (\<lambda>(k, r). body_due time r) (rd_bodies db) = []" "filter (\<lambda>(k, r). locator_due time r) (rd_locators db) = []"
    using assms(2) bt_get_iff [OF messages_okD(1) [OF assms(1)]] bt_get_iff [OF messages_okD(2) [OF assms(1)]]
    by (auto simp: settled_def filter_empty_conv)
  then show ?thesis by (simp add: sweep_def sweep_bodies_def sweep_locators_def Let_def)
qed

subsection \<open>Uploads and downloads\<close>

lemma latest_window_later:
  assumes "latest_window db root ob time = Inr w"
  shows "\<exists>i r. ((root, ob, i), r) \<in> set (rd_requests db) \<and> time < rq_expires r \<and> w = rq_expires r" "time < w"
proof -
  let ?rows = "filter (\<lambda>((r', ob', i), r). r' = root \<and> ob' = ob \<and> rq_expires r > time) (rd_requests db)"
  let ?ends = "map (\<lambda>(k, r). rq_expires r) ?rows"
  from assms have "?ends \<noteq> []" "w = Max (set ?ends)" by (auto simp: latest_window_def Let_def split: if_splits)
  then have "w \<in> set ?ends" by (metis Max_in List.finite_set set_empty)
  then show "\<exists>i r. ((root, ob, i), r) \<in> set (rd_requests db) \<and> time < rq_expires r \<and> w = rq_expires r" by auto
  then show "time < w" by auto
qed

lemma settled_insert:
  "settled time db \<Longrightarrow> \<not> body_due time r \<Longrightarrow> settled time (db\<lparr>rd_bodies := bt_insert k r (rd_bodies db)\<rparr>)"
  "settled time db \<Longrightarrow> \<not> locator_due time l \<Longrightarrow> settled time (db\<lparr>rd_locators := bt_insert k l (rd_locators db)\<rparr>)"
  by (simp_all add: settled_def)

lemma later_deadline: "time \<le> MAX_INTEGER \<Longrightarrow> 0 < n \<Longrightarrow> time < saturating_add time n"
  by (simp add: saturating_add_def MAX_INTEGER_def U64_MAX_def)

lemma record_body_settled:
  assumes "settled time db" "record_body db root ob retention time = Inr db'" "time \<le> MAX_INTEGER"
  shows "settled time db'"
proof (cases "bt_get (rd_bodies db) (root, ob)")
  case None
  with assms(2) obtain row where db': "db' = db\<lparr>rd_bodies := bt_insert (root, ob) row (rd_bodies db)\<rparr>"
    and row: "by_expires row = map_option (\<lambda>s. saturating_add time (s * 1000)) (retention_seconds (ur_lifetime retention))" "by_refill row = None"
    by (auto simp: record_body_def split: if_splits)
  have "\<not> body_due time row"
    using later_deadline [OF assms(3)] retention_seconds_pos by (cases "retention_seconds (ur_lifetime retention)") (auto simp: body_due_def row not_le)
  then show ?thesis unfolding db' by (rule settled_insert(1) [OF assms(1)])
next
  case (Some p)
  show ?thesis
  proof (cases "by_expired p")
    case None
    with assms(2) Some have db': "db' = db\<lparr>rd_bodies := bt_insert (root, ob) (p\<lparr>by_expires := by_expires p, by_expired := None, by_refill := by_refill p\<rparr>) (rd_bodies db)\<rparr>"
      by (auto simp: record_body_def result_simps split: if_splits)
    have "\<not> body_due time (p\<lparr>by_expires := by_expires p, by_expired := None, by_refill := by_refill p\<rparr>)"
      using assms(1) Some None unfolding settled_def by (fastforce simp: body_due_def)
    then show ?thesis unfolding db' by (rule settled_insert(1) [OF assms(1)])
  next
    case (Some t)
    with assms(2) \<open>bt_get (rd_bodies db) (root, ob) = Some p\<close> obtain w where w: "latest_window db root ob time = Inr w"
      and db': "db' = db\<lparr>rd_bodies := bt_insert (root, ob) (p\<lparr>by_expires := map_option (\<lambda>_. w) (retention_seconds (ur_lifetime retention)),
        by_expired := None, by_refill := Some w\<rparr>) (rd_bodies db)\<rparr>"
      by (auto simp: record_body_def result_simps split: if_splits)
    show ?thesis unfolding db' using latest_window_later(2) [OF w]
      by (intro settled_insert(1) [OF assms(1)]) (auto simp: body_due_def split: option.splits)
  qed
qed

lemma record_upload_settled:
  assumes "settled time db" "record_upload db m ob retention time = Inr db'" "time \<le> MAX_INTEGER"
  shows "settled time db'"
proof (cases retention)
  case (UR_Body a b c d e f g)
  with assms show ?thesis by (auto simp: record_upload_def result_simps intro: record_body_settled)
next
  case (UR_Locator a b c d e f)
  let ?l = "\<lparr>lo_body = b, lo_record = c, lo_nonce = a, lo_policy = d, lo_received = time,
      lo_expires = map_option (\<lambda>_. saturating_add time LOCATOR_LIFETIME_MS) (retention_seconds d), lo_request_key = Some f\<rparr>"
  from assms(2) UR_Locator obtain root where
    r: "(if bt_contains (rd_locators db) (root, ob) then Inr db
         else if locator_clash db root b c then Inl RE_Storage
         else Inr (db\<lparr>rd_locators := bt_insert (root, ob) ?l (rd_locators db)\<rparr>)) = Inr db'"
    unfolding record_upload_def bindr_eq_Inr by auto
  have "\<not> locator_due time ?l"
    using later_deadline [OF assms(3), of LOCATOR_LIFETIME_MS]
    by (cases "retention_seconds d") (auto simp: locator_due_def LOCATOR_LIFETIME_MS_def)
  from settled_insert(2) [OF assms(1) this] r assms(1) show ?thesis by (metis sum.inject(2) sum.distinct(1))
qed (use assms in \<open>auto simp: record_upload_def result_simps settled_def\<close>)

lemma store_upload_settled:
  assumes "store_upload E db m ob b hint message content retention subjects time = Inr (db', inserted, n)" "forest_ok db"
    "settled time db" "time \<le> MAX_INTEGER"
  shows "settled time db'"
  using assms(1,2)
proof (cases rule: store_upload_Inr)
  case (new db1 db2 db3)
  have "settled time db3" using packing_insert_Inr(2) [OF new(4)] assms(3) by (simp add: settled_def same_messages_def new(5,9))
  then show ?thesis by (rule record_upload_settled [OF _ new(10) assms(4)])
qed (use assms in simp)

lemma check_upload_rows:
  "rd_bodies (fst (check_upload F rv db m ob retention actor time clock)) = rd_bodies db
   \<and> rd_locators (fst (check_upload F rv db m ob retention actor time clock)) = rd_locators db"
proof -
  let ?P = "\<lambda>x. rd_bodies x = rd_bodies db \<and> rd_locators x = rd_locators db"
  have "?P (fst (valid_window F rv db m root ob time clock))" for root
    unfolding valid_window_def by (rule window_rows_keeps [where P = ?P]) simp_all
  then have w: "?P (fst (bindst (valid_window F rv db m root ob time clock)
      (\<lambda>db1 window. (db1, if window = None then Inl RE_Expired else Inr ()))))" for root
    by (rule bindst_keep [where P = ?P]) simp
  show ?thesis unfolding check_upload_def
    by (rule bindst_pure [where P = ?P]) (simp_all add: w split: UploadRetention.split option.split)
qed

text \<open>Everything that holds of the tables when an upload has been committed.\<close>

lemma post_inner_stored:
  assumes ok: "replica_ok E (rp_db s)" and p: "post_inner E s m token ob b hint message actor clock rnd = (db', Inr (inserted, receipt))"
  obtains time db0 content subjects n nonce rec where
    "replica_now clock = Inr time" "replica_ok E db0" "replica_ok E db'" "settled time db'" "of_ciphertext E b = ob"
    "check_upload E (rp_revocations s) (sweep (rp_db s) time) m ob (classify content message) (map_option at_identity actor) time clock
       = (db0, Inr ())"
    "inspect E b = Inr content" "store_upload E db0 m ob b hint message content (classify content message) subjects time = Inr (db', inserted, n)"
    "check_pruned E db' m ob = Inr ()" "packing_load E db' ob = Inr b" "find_delivery db' m ob \<noteq> None"
    "random_hex rnd = Inr nonce"
    "sign E (ser_receipt E (storage_receipt_body E db' m ob (length b) n (receipt_retention (classify content message)) nonce)) (rd_seed db') = Inr rec"
    "receipt = rec_bytes rec" "\<exists>d \<in> set (rd_deliveries db'). dl_seq d = n \<and> dl_mailbox d = m \<and> dl_object d = ob"
    "rd_seed db' = rd_seed (rp_db s)" "rd_generation db' = rd_generation (rp_db s)"
  using p
proof (cases rule: post_inner_cases)
  case (stored time content subjects db0 ins n)
  have sw: "replica_ok E (sweep (rp_db s) time)" by (rule sweep_ok [OF ok])
  have ok0: "replica_ok E db0" using check_upload_ok [OF sw] stored(10) by (metis fst_conv)
  have ok': "replica_ok E db'" using post_inner_ok [OF ok, of m token ob b hint message actor clock rnd] p by simp
  have time: "time \<le> MAX_INTEGER" using replica_now_Inr [OF stored(6)] by simp
  have "settled time (sweep (rp_db s) time)" by (rule sweep_settled [OF replica_okD(4) [OF ok]])
  then have "settled time db0"
    using check_upload_rows [of E "rp_revocations s" "sweep (rp_db s) time"] stored(10) by (simp add: settled_def) (metis fst_conv)
  then have set': "settled time db'" by (rule store_upload_settled [OF stored(13) replica_okD(1) [OF ok0] _ time])
  note c = store_upload_cases [OF stored(13) replica_okD(1) [OF ok0]]
  have sh: "shrinks (sweep (rp_db s) time) db0"
    using housekeeping_shrinks [OF check_upload_housekeeping] stored(10) by (metis fst_conv)
  have same: "rd_pruned db' = rd_pruned (sweep (rp_db s) time)" "ancestors db' = ancestors (sweep (rp_db s) time)"
    "rd_seed db' = rd_seed (rp_db s)" "rd_generation db' = rd_generation (rp_db s)"
    using c(1) sh shrinks_sweep [of "rp_db s" time] forest_same(2) [of db' "sweep (rp_db s) time"] by (simp_all add: shrinks_def)
  have "check_pruned E db' m ob = Inr ()"
    using stored(7) by (auto simp: check_pruned_def same split: option.splits sum.splits)
  moreover have "find_delivery db' m ob \<noteq> None"
    using c(4) by (auto simp: find_delivery_def find_None_iff)
  ultimately show thesis
    using that [OF stored(6) ok0 ok' set' stored(5,10,8)] stored(13,14) c(3,4) same(3,4) by blast
qed simp

lemma replica_get_settled:
  assumes "replica_ok E db" "settled time db" "replica_now clock = Inr time" "mailbox_authorize E db m token False clock = Inr ()"
    "check_pruned E db m ob = Inr ()" "find_delivery db m ob \<noteq> None" "packing_load E db ob = Inr b"
  shows "snd (replica_get E db m token ob clock) = Inr b"
proof -
  let ?db = "sweep db time"
  note s = sweep_of_settled [OF replica_okD(4) [OF assms(1)] assms(2)]
  have "ancestors ?db = ancestors db" by (rule forest_same) (simp add: s)
  then have "check_pruned E ?db m ob = Inr ()" using assms(5) by (auto simp: check_pruned_def s split: option.splits sum.splits)
  moreover have "unpack ?db = unpack db" by (rule ext) (rule unpack_cong, simp add: s)
  then have "packing_load E ?db ob = Inr b" using assms(7) by (simp add: packing_load_def) (simp add: s)
  moreover have "find_delivery ?db m ob \<noteq> None" using assms(6) by (simp add: find_delivery_def s)
  ultimately show ?thesis using assms(3,4) by (simp add: replica_get_def Let_def)
qed

text \<open>
  C18: what was uploaded is served. If an upload to a mailbox succeeds in a state a run of the
  machine reaches, then anyone with the mailbox's read token is served exactly the uploaded bytes.
\<close>

theorem upload_served:
  assumes "s = replica_run E (new_replica allowed seed generation rv) inputs"
    and "replica_step E s (clock, In_Post m token ob b hint message actor rnd) = (s', Out_Posted inserted receipt)"
    and "mailbox_authorize E (rp_db s') m token' False clock = Inr ()"
  shows "snd (replica_step E s' (clock, In_Get m token' ob)) = Out_Bytes b"
proof -
  have ok: "replica_ok E (rp_db s)" using replica_reachable(1) [OF assms(1)] .
  obtain db' r where p: "post_inner E s m token ob b hint message actor clock rnd = (db', r)" by fastforce
  with assms(2) have s': "rp_db s' = db'" "r = Inr (inserted, receipt)" by (auto simp: replying_def split: sum.splits)
  from ok p [unfolded s'(2)] have "snd (replica_get E db' m token' ob clock) = Inr b"
    by (rule post_inner_stored) (rule replica_get_settled, use assms(3) s' in simp_all)
  then show ?thesis by (simp add: replying_def s')
qed

text \<open>What the receipt claim assumes of serde: a receipt reads back as it was written.\<close>

definition receipt_codec :: "('z replica_ext_scheme) \<Rightarrow> bool" where
  "receipt_codec E \<longleftrightarrow> (\<forall>x j. strict_json E (ser_receipt E x) MAX_RECORD = Inr j \<longrightarrow> dec_receipt E j = Some x)"

text \<open>
  C34: the receipt of an upload proves it. The receipt a replica answers an upload with is accepted by
  the check a client makes, under the replica's key and for the mailbox, object and size the client
  asked for, and the arrival number in it is that of a delivery of the object to the mailbox.
\<close>

theorem receipt_verifies:
  assumes "s = replica_run E (new_replica allowed seed generation rv) inputs"
    and "replica_step E s (clock, In_Post m token ob b hint message actor (Some bs)) = (s', Out_Posted inserted receipt)"
    and "signing_correct E" "receipt_codec E" "length bs = 16" "rd_generation (rp_db s) = encode_hex g" "length g = 32"
  shows "\<exists>body. VerifiedReceipt_verify E receipt (replica_key E (rp_db s)) m ob (length b) = Inr body
    \<and> rt_storage_generation body = encode_hex g
    \<and> (\<exists>d \<in> set (rd_deliveries (rp_db s')). dl_seq d = rt_arrival_seq body \<and> dl_mailbox d = m \<and> dl_object d = ob)"
proof -
  have ok: "replica_ok E (rp_db s)" using replica_reachable(1) [OF assms(1)] .
  obtain db' r where p: "post_inner E s m token ob b hint message actor clock (Some bs) = (db', r)" by fastforce
  with assms(2) have s': "rp_db s' = db'" "r = Inr (inserted, receipt)" by (auto simp: replying_def split: sum.splits)
  from ok p [unfolded s'(2)] show ?thesis
  proof (rule post_inner_stored)
    fix time db0 content subjects n nonce rec
    let ?body = "storage_receipt_body E db' m ob (length b) n (receipt_retention (classify content message)) nonce"
    assume ok': "replica_ok E db'" and nonce: "random_hex (Some bs) = Inr nonce"
      and sg: "sign E (ser_receipt E ?body) (rd_seed db') = Inr rec" and rec: "receipt = rec_bytes rec"
      and d: "\<exists>d \<in> set (rd_deliveries db'). dl_seq d = n \<and> dl_mailbox d = m \<and> dl_object d = ob"
      and same: "rd_seed db' = rd_seed (rp_db s)" "rd_generation db' = rd_generation (rp_db s)"
    note g = sign_bounded_Inr [OF sg [unfolded sign_def] assms(3)]
    have parsed: "parse E receipt = Inr rec" using g(1) by (simp add: parse_def rec)
    have dec: "dec_receipt E (rec_body rec) = Some ?body"
      using assms(4) g(2) parse_bounded_body_bytes(2) [OF g(1)] by (simp add: receipt_codec_def)
    have key: "replica_key E (rp_db s) = ed_public E (rd_seed db')" by (simp add: replica_key_def same)
    have sig: "verify_signature E rec (replica_key E (rp_db s)) = Inr ()"
      using assms(3) g(2,3) by (simp add: verify_signature_iff signing_correct_def key)
    have n: "1 \<le> n" "n \<le> MAX_INTEGER"
      using d replica_okD(2) [OF ok'] by (fastforce simp: deliveries_ok_def)+
    have hexes: "hex 16 nonce = Inr bs" "hex 32 (encode_hex g) = Inr g"
      using nonce assms(5,7) by (auto simp: random_hex_def hex_def)
    have pol: "receipt_retention c \<in> set [''manual-no-auto-gc'', ''message-body-ttl'', ''message-locator-30d'', ''message-no-expiry'']" for c
      by (simp add: receipt_retention_def split: UploadRetention.split)
    have "VerifiedReceipt_verify E receipt (replica_key E (rp_db s)) m ob (length b) = Inr ?body"
      using parsed sig dec n hexes pol assms(6) same
      by (simp add: VerifiedReceipt_verify_def decode_with_def storage_receipt_body_def replica_key_def)
    then show ?thesis using d s' assms(6) same by (intro exI [of _ ?body]) (simp add: storage_receipt_body_def)
  qed
qed

subsection \<open>What removes a delivery\<close>

text \<open>The object is due in the scope of some mailbox above its delivery.\<close>

definition due_above :: "replica_db \<Rightarrow> nat \<Rightarrow> delivery \<Rightarrow> bool" where
  "due_above db time d \<longleftrightarrow>
     (\<exists>root. in_tree db root d
        \<and> ((\<exists>r. bt_get (rd_bodies db) (root, dl_object d) = Some r \<and> body_due time r)
           \<or> (\<exists>l. bt_get (rd_locators db) (root, dl_object d) = Some l \<and> locator_due time l)))"

lemma sweep_keeps_delivery:
  assumes "replica_ok E db" "d \<in> set (rd_deliveries db)" "\<not> due_above db time d"
  shows "d \<in> set (rd_deliveries (sweep db time))" "\<not> due_above (sweep db time) time d"
proof -
  note rows = sweep_rows [OF messages_okD(1,2) [OF replica_okD(4) [OF assms(1)]]]
  show "d \<in> set (rd_deliveries (sweep db time))" using assms(2,3) by (simp add: rows(3) due_above_def)
  show "\<not> due_above (sweep db time) time d"
    using sweep_settled [OF replica_okD(4) [OF assms(1)], of time] by (auto simp: settled_def due_above_def)
qed

lemma housekeeping_keeps_delivery:
  assumes "housekeeping clock db db'" "replica_ok E db" "d \<in> set (rd_deliveries db)" "\<And>time. replica_now clock = Inr time \<Longrightarrow> \<not> due_above db time d"
  shows "d \<in> set (rd_deliveries db') \<and> (\<forall>time. replica_now clock = Inr time \<longrightarrow> \<not> due_above db' time d)"
  using assms(1)
proof (induction rule: housekeeping.induct)
  case hk_none
  then show ?case using assms(3,4) by blast
next
  case (hk_sweep db1 time)
  from sweep_keeps_delivery [OF housekeeping_ok [OF hk_sweep.hyps(1) assms(2)]] hk_sweep.IH hk_sweep.hyps(2) show ?case by auto
next
  case (hk_drop db1 k)
  have "in_tree (db1\<lparr>rd_requests := bt_remove k (rd_requests db1)\<rparr>) = in_tree db1" by (rule forest_same) simp
  with hk_drop show ?case by (simp add: due_above_def)
qed

lemma delete_mailbox_tree_loses:
  assumes "forest_ok db" "d \<in> set (rd_deliveries db)" "d \<notin> set (rd_deliveries (delete_mailbox_tree db a))"
  shows "a \<in> set (ancestors db (dl_mailbox d))"
  using assms by (simp add: delete_mailbox_tree_def delete_orphans_def delete_tree_rows_sel Let_def in_tree_iff)

lemma release_expired_loses:
  assumes "forest_ok db" "d \<in> set (rd_deliveries db)" "d \<notin> set (rd_deliveries (release_expired db time))"
  shows "\<exists>a \<in> set (ancestors db (dl_mailbox d)). \<exists>x. bt_get (rd_delegations db) a = Some x \<and> dg_expires x \<le> time"
proof -
  from assms(2,3) have "dl_mailbox d \<in> set (expired_mailboxes db time)"
    by (auto simp: release_expired_def delete_orphans_def delete_tree_rows_sel Let_def split: if_splits)
  then obtain a x where "(a, x) \<in> set (rd_delegations db)" "dg_expires x \<le> time" "a \<in> set (ancestors db (dl_mailbox d))"
    unfolding expired_mailboxes_def in_descend [OF assms(1)] by auto
  moreover have "bt_wf (rd_delegations db)" using assms(1) by (simp add: forest_ok_def)
  ultimately show ?thesis using bt_get_iff by metis
qed

lemma accept_message_loses:
  assumes ok: "replica_ok E (rp_db s)" and d: "d \<in> set (rd_deliveries (rp_db s))"
    and p: "accept_message E s m actor ob rec p clock = (db', r)" and lost: "d \<notin> set (rd_deliveries db')"
    and due: "\<And>time. replica_now clock = Inr time \<Longrightarrow> \<not> due_above (rp_db s) time d"
  shows "dl_object d = ob \<and> root_of (rp_db s) m \<in> set (ancestors (rp_db s) (dl_mailbox d))
    \<and> (\<exists>row. bt_get (rd_bodies (rp_db s)) (root_of (rp_db s) m, ob) = Some row \<and> by_direct_peer row = Some (at_identity actor))"
  using p
proof (cases rule: accept_message_cases)
  case none
  with housekeeping_keeps_delivery [OF none ok d due] lost show ?thesis by blast
next
  case (accepted time root key body row f)
  let ?db = "sweep (rp_db s) time"
  have f: "forest_ok ?db" by (rule replica_okD(1) [OF sweep_ok [OF ok]])
  have anc: "ancestors ?db = ancestors (rp_db s)" "root_of ?db = root_of (rp_db s)"
    using shrinks_sweep [of "rp_db s" time] by (auto simp: shrinks_def intro: forest_same)
  have root: "root = root_of (rp_db s) m" using accepted(3) f anc(2) by simp
  have in_sweep: "d \<in> set (rd_deliveries ?db)" by (rule sweep_keeps_delivery(1) [OF ok d due [OF accepted(1)]])
  have t: "in_tree (?db\<lparr>rd_acceptances := x, rd_requests := y\<rparr>) = in_tree ?db" for x y by (rule forest_same) simp
  have gone: "dl_object d = ob" "root \<in> set (ancestors (rp_db s) (dl_mailbox d))"
    using lost in_sweep unfolding accepted(6) remove_body_rows t by (auto simp: in_tree_delivery [OF f] anc)
  have "bt_get (rd_bodies ?db) (root, ob) = Some body \<and> by_direct_peer body = Some (at_identity actor)"
    using accepted(4) by (auto simp: accept_key_for_def split: option.splits if_splits)
  then have "\<exists>row. bt_get (rd_bodies (rp_db s)) (root, ob) = Some row \<and> by_direct_peer row = Some (at_identity actor)"
    unfolding sweep_rows(2) [OF messages_okD(1,2) [OF replica_okD(4) [OF ok]]]
    by (auto simp: expire_row_def split: if_splits)
  with gone root show ?thesis by blast
qed

lemma post_inner_keeps_delivery:
  assumes ok: "replica_ok E (rp_db s)" and d: "d \<in> set (rd_deliveries (rp_db s))"
    and due: "\<And>time. replica_now clock = Inr time \<Longrightarrow> \<not> due_above (rp_db s) time d"
  shows "d \<in> set (rd_deliveries (fst (post_inner E s m token ob b hint message actor clock rnd)))"
proof -
  obtain db' r where p: "post_inner E s m token ob b hint message actor clock rnd = (db', r)" by fastforce
  then have "d \<in> set (rd_deliveries db')"
  proof (cases rule: post_inner_cases)
    case (refused e)
    with housekeeping_keeps_delivery [OF refused(1) ok d due] show ?thesis by blast
  next
    case (stored time content subjects db0 inserted n)
    have hk: "housekeeping clock (rp_db s) db0"
      using housekeeping_trans [OF check_upload_housekeeping sweep_housekeeping [OF stored(6)]] stored(10) by (metis fst_conv)
    with housekeeping_keeps_delivery [OF hk ok d due] store_upload_cases(2) [OF stored(13) replica_okD(1) [OF housekeeping_ok [OF hk ok]]]
    show ?thesis by (auto split: if_splits)
  qed
  with p show ?thesis by simp
qed

lemma request_message_keeps_delivery:
  assumes ok: "replica_ok E (rp_db s)" and d: "d \<in> set (rd_deliveries (rp_db s))"
    and due: "\<And>time. replica_now clock = Inr time \<Longrightarrow> \<not> due_above (rp_db s) time d"
  shows "d \<in> set (rd_deliveries (fst (request_message E s m actor ob rec p clock)))"
proof -
  obtain db' r where p: "request_message E s m actor ob rec p clock = (db', r)" by fastforce
  then have "d \<in> set (rd_deliveries db')"
  proof (cases rule: request_message_cases)
    case none
    with housekeeping_keeps_delivery [OF none ok d due] show ?thesis by blast
  next
    case (opened time db0 root key row)
    with housekeeping_keeps_delivery [OF opened(4) ok d due] show ?thesis by simp
  qed
  with p show ?thesis by simp
qed

lemma prune_messages_loses:
  assumes "prune_messages db root before clock = Inr (db', result)" "removed_ok db" "forest_ok db"
    and "d \<in> set (rd_deliveries db)" "d \<notin> set (rd_deliveries db')"
  shows "root \<in> set (ancestors db (dl_mailbox d)) \<and> prune_candidate db root before (dl_object d)"
  using assms(1)
proof (cases rule: prune_messages_Inr)
  case (1 time candidates)
  have "rd_deliveries db' = filter (\<lambda>d. \<not> (in_tree db root d
      \<and> bt_contains (insert_missing time (map (Pair root) candidates) (rd_pruned db)) (root, dl_object d))) (rd_deliveries db)"
    by (simp add: 1(5) delete_orphans_def delete_deliveries_def Let_def)
  with assms(4,5) have "root \<in> set (ancestors db (dl_mailbox d))"
    "dl_object d \<in> set candidates \<or> bt_contains (rd_pruned db) (root, dl_object d)"
    by (auto simp: insert_missing_contains in_tree_delivery [OF assms(3)])
  with removed_okD(1) [OF assms(2,4)] 1(4) show ?thesis by auto
qed

lemma create_child_loses:
  assumes "create_child E db parent token child clock = Inr db'" "forest_ok db" "d \<in> set (rd_deliveries db)" "d \<notin> set (rd_deliveries db')"
  shows "\<exists>time. replica_now clock = Inr time
    \<and> (\<exists>a \<in> set (ancestors db (dl_mailbox d)). \<exists>x. bt_get (rd_delegations db) a = Some x \<and> dg_expires x \<le> time)"
proof -
  have "db' \<noteq> db" using assms(3,4) by auto
  with assms(1) show ?thesis
  proof (cases rule: create_child_Inr)
    case (1 time rd wr)
    with release_expired_loses [OF assms(2,3), of time] assms(4) show ?thesis by simp
  qed
qed

text \<open>Operations that work on other tables only.\<close>

lemma other_tables_deliveries:
  shows "reserve_mailbox E db dsc quota = Inr db' \<Longrightarrow> rd_deliveries db' = rd_deliveries db"
    and "set_space_members db m ids = Inr db' \<Longrightarrow> rd_deliveries db' = rd_deliveries db"
    and "consume_access db access clock = Inr db' \<Longrightarrow> rd_deliveries db' = rd_deliveries db"
    and "rd_deliveries (require_content_ownership db) = rd_deliveries db"
proof -
  show "reserve_mailbox E db dsc quota = Inr db' \<Longrightarrow> rd_deliveries db' = rd_deliveries db"
    unfolding reserve_mailbox_def bindr_eq_Inr guard_eq_Inr
    by (cases "bt_get (rd_mailboxes db) (md_mailbox_id dsc)") (auto split: if_splits)
  show "set_space_members db m ids = Inr db' \<Longrightarrow> rd_deliveries db' = rd_deliveries db"
    unfolding set_space_members_def Let_def bindr_eq_Inr guard_eq_Inr by auto
  show "consume_access db access clock = Inr db' \<Longrightarrow> rd_deliveries db' = rd_deliveries db"
    unfolding consume_access_def Let_def bindr_eq_Inr guard_eq_Inr by auto
  show "rd_deliveries (require_content_ownership db) = rd_deliveries db" by (simp add: require_content_ownership_def)
qed

lemma erase_account_content_loses:
  assumes "erase_account_content db root j clock = Inr (db', n)" "d \<in> set (rd_deliveries db)" "d \<notin> set (rd_deliveries db')"
  shows "(dl_object d, j) \<in> set (rd_owners db)"
  using assms(1)
proof (cases rule: erase_account_content_Inr)
  case (1 time owned db2)
  have "rd_deliveries db' = filter (\<lambda>d. dl_object d \<notin> set owned) (rd_deliveries db)"
    by (simp add: 1(5,6) delete_orphans_def delete_deliveries_def Let_def)
  with assms(2,3) 1(4) show ?thesis by auto
qed

lemma atomically_db: "rp_db (fst (atomically s r f)) = (case r of Inl e \<Rightarrow> rp_db s | Inr x \<Rightarrow> fst (f x))"
  by (simp add: atomically_def split: sum.split)

lemma replying_db: "rp_db (fst (replying s m f)) = fst m"
  by (simp add: replying_def)

text \<open>
  C14: a stored object disappears from a mailbox only for one of the reasons the code names. If a step
  of the machine from a reachable state loses a delivery, then the deadline of the message body or of
  its locator had passed, or the step deleted a mailbox above it, released an expired delegation above
  it, erased an account that owned the object, pruned the object as an old message, or was the direct
  recipient's acceptance of that body.
\<close>

theorem delivery_lost_only_by:
  assumes "s = replica_run E (new_replica allowed seed generation rv) inputs"
    and "d \<in> set (rd_deliveries (rp_db s))" "d \<notin> set (rd_deliveries (rp_db (fst (replica_step E s (clock, i)))))"
  shows "(\<exists>time. replica_now clock = Inr time \<and> due_above (rp_db s) time d)
    \<or> (\<exists>a. i = In_DeleteTree a \<and> a \<in> set (ancestors (rp_db s) (dl_mailbox d)))
    \<or> (\<exists>parent token child time. i = In_Child parent token child \<and> replica_now clock = Inr time
         \<and> (\<exists>a \<in> set (ancestors (rp_db s) (dl_mailbox d)). \<exists>x. bt_get (rd_delegations (rp_db s)) a = Some x \<and> dg_expires x \<le> time))
    \<or> (\<exists>root j. i = In_Erase root j \<and> (dl_object d, j) \<in> set (rd_owners (rp_db s)))
    \<or> (\<exists>root before. i = In_Prune root before \<and> root \<in> set (ancestors (rp_db s) (dl_mailbox d))
         \<and> prune_candidate (rp_db s) root before (dl_object d))
    \<or> (\<exists>m actor rec p row. i = In_Accept m actor (dl_object d) rec p \<and> root_of (rp_db s) m \<in> set (ancestors (rp_db s) (dl_mailbox d))
         \<and> bt_get (rd_bodies (rp_db s)) (root_of (rp_db s) m, dl_object d) = Some row \<and> by_direct_peer row = Some (at_identity actor))"
proof (rule ccontr)
  assume no: "\<not> ?thesis"
  note ok = replica_reachable(1) [OF assms(1)] and rem = replica_reachable(2) [OF assms(1)]
  note f = replica_okD(1) [OF ok]
  have due: "\<not> due_above (rp_db s) time d" if "replica_now clock = Inr time" for time using no that by blast
  have hk: "d \<in> set (rd_deliveries db')" if "housekeeping clock (rp_db s) db'" for db'
    using housekeeping_keeps_delivery [OF that ok assms(2) due] by blast
  have "d \<in> set (rd_deliveries (rp_db (fst (replica_step E s (clock, i)))))"
  proof (cases i)
    case (In_Child parent token child)
    with no show ?thesis by (auto simp: atomically_db assms(2) split: sum.split) (blast dest: create_child_loses [OF _ f assms(2)])
  next
    case (In_DeleteTree a)
    with delete_mailbox_tree_loses [OF f assms(2)] no show ?thesis by auto
  next
    case (In_Erase root j)
    with no show ?thesis by (auto simp: atomically_db assms(2) split: sum.split) (blast dest: erase_account_content_loses [OF _ assms(2)])
  next
    case (In_Post m token ob b hint message actor rnd)
    then show ?thesis using post_inner_keeps_delivery [OF ok assms(2) due] by (simp add: replying_db)
  next
    case (In_Get m token ob)
    then show ?thesis using hk [OF replica_get_housekeeping] by (simp add: replying_db)
  next
    case (In_Inventory m token after limit)
    then show ?thesis using hk [OF replica_inventory_housekeeping] by (simp add: replying_db)
  next
    case (In_Request m actor ob rec p)
    then show ?thesis using request_message_keeps_delivery [OF ok assms(2) due] by (simp add: replying_db)
  next
    case (In_Accept m actor ob rec p)
    with no accept_message_loses [OF ok assms(2) prod.collapse [symmetric] _ due] show ?thesis by (simp add: replying_db) blast
  next
    case (In_Prune root before)
    with no show ?thesis by (auto simp: atomically_db assms(2) split: sum.split) (blast dest: prune_messages_loses [OF _ rem f assms(2)])+
  next
    case In_Maintain
    then show ?thesis using hk [OF sweep_housekeeping]
      by (auto simp: atomically_db maintain_message_lifetime_def result_simps assms(2) split: sum.split)
  next
    case (In_Allowed policies)
    then show ?thesis using assms(2) by (auto simp: with_allowed_message_retentions_def split: sum.split)
  qed (use assms(2) in \<open>auto simp: atomically_db other_tables_deliveries set_admitted_devices_def split: sum.split\<close>)
  with assms(3) show False ..
qed

end
