(* ===== verification/Replica_Lifetimes.thy ===== *)
theory Replica_Lifetimes
  imports Replica_Guarantees
begin

text \<open>
  What ends stays ended, and what is asked for is complete. A message body is not served once its
  retention row is due and comes back only in the window of an authorised request; an object pruned or erased in
  a scope does not return to it; a signed request is used once; a page of the inventory skips nothing.
\<close>

subsection \<open>Message bodies\<close>

lemma replica_get_delivered:
  assumes "replica_get E db m token ob clock = (db', Inr b)"
  obtains time d where "replica_now clock = Inr time" "mailbox_authorize E db m token False clock = Inr ()" "db' = sweep db time"
    "check_pruned E (sweep db time) m ob = Inr ()" "d \<in> set (rd_deliveries (sweep db time))" "dl_mailbox d = m" "dl_object d = ob"
    "packing_load E (sweep db time) ob = Inr b"
proof -
  from assms obtain time where t: "replica_now clock = Inr time" "mailbox_authorize E db m token False clock = Inr ()" "db' = sweep db time"
    "check_pruned E (sweep db time) m ob = Inr ()" "packing_load E (sweep db time) ob = Inr b" "find_delivery (sweep db time) m ob \<noteq> None"
    unfolding replica_get_def Let_def by (auto simp: bindst_pure_eq split: if_splits)
  from t(6) obtain d where d: "find_delivery (sweep db time) m ob = Some d" by auto
  have "d \<in> set (rd_deliveries (sweep db time)) \<and> dl_mailbox d = m \<and> dl_object d = ob"
    using d by (auto simp: find_delivery_def find_Some_iff)
  with that t show thesis by blast
qed




lemma authorize_actor_requests:
  "authorize_actor E rv (db\<lparr>rd_requests := x\<rparr>) m a clock = authorize_actor E rv db m a clock"
proof -
  have "ancestors (db\<lparr>rd_requests := x\<rparr>) = ancestors db" by (rule forest_same) simp
  then show ?thesis by (simp add: authorize_actor_def access_denied_def cong: if_cong)
qed

text \<open>A request that survives the check of the window is of somebody who may act.\<close>

lemma window_rows_authorised:
  assumes "window_rows E rv m clock rows expiry db = (db', Inr w)" "((root, ob, i), r) \<in> set rows" "bt_contains (rd_requests db') (root, ob, i)"
  shows "authorize_actor E rv db m \<lparr>at_identity = i, at_credential = rq_credential r\<rparr> clock = Inr ()"
  using assms
proof (induction rows arbitrary: expiry db)
  case (Cons e rows)
  obtain root' ob' i' r' where e: "e = ((root', ob', i'), r')" by (cases e) auto
  let ?a = "authorize_actor E rv db m \<lparr>at_identity = i', at_credential = rq_credential r'\<rparr> clock"
  let ?db = "db\<lparr>rd_requests := bt_remove (root', ob', i') (rd_requests db)\<rparr>"
  show ?case
  proof (cases ?a)
    case (Inr u)
    with Cons.prems(1) e obtain ex where "window_rows E rv m clock rows ex db = (db', Inr w)" by auto
    from Cons.IH [OF this _ Cons.prems(3)] Cons.prems(2) Inr e show ?thesis by auto
  next
    case (Inl x)
    with Cons.prems(1) e have x: "x = RE_Unauthorized" "window_rows E rv m clock rows expiry ?db = (db', Inr w)"
      by (cases x; simp)+
    have "bt_get (rd_requests (fst (window_rows E rv m clock rows expiry ?db))) (root', ob', i') = None"
      by (rule window_rows_keeps [where P = "\<lambda>x. bt_get (rd_requests x) (root', ob', i') = None"]) auto
    with x(2) Cons.prems(3) have "(root, ob, i) \<noteq> (root', ob', i')" by (auto simp: bt_contains_def)
    with Cons.IH [OF x(2) _ Cons.prems(3)] Cons.prems(2) e show ?thesis by (auto simp: authorize_actor_requests)
  qed
qed simp

lemma window_rows_requests:
  "bt_get (rd_requests (fst (window_rows F rv m clock rows expiry db))) k = Some r \<Longrightarrow> bt_get (rd_requests db) k = Some r"
proof -
  have "bt_get (rd_requests (fst (window_rows F rv m clock rows expiry db))) k = None
      \<or> bt_get (rd_requests (fst (window_rows F rv m clock rows expiry db))) k = bt_get (rd_requests db) k"
    by (rule window_rows_keeps [where P = "\<lambda>x. bt_get (rd_requests x) k = None \<or> bt_get (rd_requests x) k = bt_get (rd_requests db) k"]) auto
  then show "bt_get (rd_requests (fst (window_rows F rv m clock rows expiry db))) k = Some r \<Longrightarrow> bt_get (rd_requests db) k = Some r" by auto
qed

text \<open>An upload of an expired body got through, so an open request of somebody who may act was there.\<close>

lemma check_upload_expired:
  assumes "check_upload E rv db m ob (UR_Body nonce rec l issuer peer rk ak) actor time clock = (db0, Inr ())"
    "forest_ok db" "bt_get (rd_bodies db) (root_of db m, ob) = Some row" "by_expired row \<noteq> None"
  obtains w where "valid_window E rv db m (root_of db m) ob time clock = (db0, Inr (Some w))"
  using assms by (auto simp: check_upload_def bindst_eq split: if_splits)

lemma refill_request:
  assumes ok: "replica_ok E db" and w: "valid_window E rv db m root ob time clock = (db0, Inr x)"
    and l: "latest_window db0 root ob time = Inr w"
  obtains i r where "bt_get (rd_requests db) (root, ob, i) = Some r" "time < rq_expires r" "w = rq_expires r"
    "authorize_actor E rv db m \<lparr>at_identity = i, at_credential = rq_credential r\<rparr> clock = Inr ()"
proof -
  have ok0: "replica_ok E db0" using housekeeping_ok [OF window_housekeeping ok] w by (metis fst_conv)
  note wf = messages_okD(3) [OF replica_okD(4) [OF ok]] messages_okD(3) [OF replica_okD(4) [OF ok0]]
  obtain i r where r: "((root, ob, i), r) \<in> set (rd_requests db0)" "time < rq_expires r" "w = rq_expires r"
    using latest_window_later(1) [OF l] by blast
  then have g0: "bt_get (rd_requests db0) (root, ob, i) = Some r" using bt_get_iff [OF wf(2)] by blast
  then have g: "bt_get (rd_requests db) (root, ob, i) = Some r"
    using window_rows_requests [of E rv m clock _ None db] w unfolding valid_window_def by (metis fst_conv)
  have "((root, ob, i), r) \<in> set (filter (\<lambda>((r', ob', i), r). r' = root \<and> ob' = ob \<and> rq_expires r > time) (rd_requests db))"
    using g r(2) bt_get_iff [OF wf(1)] by auto
  from window_rows_authorised [OF w [unfolded valid_window_def] this] g0 that g r(2,3) show thesis by (simp add: bt_contains_def)
qed

text \<open>
  C19: an expired body comes back only on request. If, in a reachable state, an upload of a message
  body whose row has expired is stored, then some member asked for it: a request for that body in that
  scope is open, its requester is not erased, not excluded from the mailbox and not using a retired
  device, and the body is kept no longer than the window of that request.
\<close>

theorem refill_needs_request:
  assumes "s = replica_run E (new_replica allowed seed generation rv) inputs"
    and "replica_step E s (clock, In_Post m token ob b hint message actor rnd) = (s', Out_Posted True receipt)"
    and "inspect E b = Inr content" "classify content message = UR_Body nonce rec l issuer peer rk ak"
    and "replica_now clock = Inr time" "db = sweep (rp_db s) time"
    and "bt_get (rd_bodies db) (root_of db m, ob) = Some row" "by_expired row \<noteq> None"
  shows "\<exists>i r row'. bt_get (rd_requests db) (root_of db m, ob, i) = Some r \<and> time < rq_expires r
    \<and> Revocations_get E (rp_revocations s) (rq_credential r) = Inr None
    \<and> \<not> access_denied db m (Some i) \<and> \<not> bt_contains (rd_erased db) i
    \<and> bt_get (rd_bodies (rp_db s')) (root_of db m, ob) = Some row' \<and> by_refill row' = Some (rq_expires r)
    \<and> (\<forall>e. by_expires row' = Some e \<longrightarrow> e = rq_expires r)"
proof -
  note ok = replica_reachable(1) [OF assms(1)]
  have okd: "replica_ok E db" unfolding assms(6) by (rule sweep_ok [OF ok])
  obtain db' r0 where p: "post_inner E s m token ob b hint message actor clock rnd = (db', r0)" by fastforce
  with assms(2) have s': "rp_db s' = db'" "r0 = Inr (True, receipt)" by (auto simp: replying_def split: sum.splits)
  from ok p [unfolded s'(2)] show ?thesis
  proof (rule post_inner_stored)
    fix time' db0 content' subjects n nonce' rec'
    assume "replica_now clock = Inr time'" "inspect E b = Inr content'" and ok0: "replica_ok E db0"
      and cu: "check_upload E (rp_revocations s) (sweep (rp_db s) time') m ob (classify content' message) (map_option at_identity actor) time' clock = (db0, Inr ())"
      and st: "store_upload E db0 m ob b hint message content' (classify content' message) subjects time' = Inr (db', True, n)"
    then have eq: "time' = time" "content' = content" using assms(3,5) by auto
    obtain w where win: "valid_window E (rp_revocations s) db m (root_of db m) ob time clock = (db0, Inr (Some w))"
      using cu [unfolded eq assms(4), folded assms(6)] check_upload_expired [OF _ replica_okD(1) [OF okd] assms(7,8)] by blast
    have same: "rd_bodies db0 = rd_bodies db" "rd_delegations db0 = rd_delegations db"
      using check_upload_rows [of E "rp_revocations s" db m ob "classify content message" "map_option at_identity actor" time clock]
        housekeeping_shrinks [OF window_housekeeping, of db E "rp_revocations s" m "root_of db m" ob time clock] cu [unfolded eq, folded assms(6)] win
      by (simp_all add: shrinks_def)
    have root: "root_of db0 m = root_of db m" using forest_same(5) [OF same(2)] by simp
    from st [unfolded eq assms(4)] replica_okD(1) [OF ok0] show ?thesis
    proof (cases rule: store_upload_Inr)
      case (new db1 db2 db3)
      note pi = packing_insert_Inr [OF new(4)]
      have req: "rd_requests db3 = rd_requests db0" "rd_bodies db3 = rd_bodies db" "root_mailbox db3 m = root_mailbox db0 m"
        using pi(2) forest_same(4) [of db3 db0] same by (simp_all add: same_messages_def new(5,9))
      have lw: "latest_window db3 (root_of db m) ob time = latest_window db0 (root_of db m) ob time" by (simp add: latest_window_def req)
      from new(10) obtain w' where w': "latest_window db0 (root_of db m) ob time = Inr w'"
        and db': "rd_bodies db' = bt_insert (root_of db m, ob) (row\<lparr>by_expires := map_option (\<lambda>_. w') (retention_seconds l), by_expired := None,
           by_refill := Some w'\<rparr>) (rd_bodies db)"
        using assms(7,8) req root root_mailbox_Inr [OF replica_okD(1) [OF ok0]]
        by (auto simp: record_upload_def record_body_def result_simps lw split: if_splits)
      from okd win w' show ?thesis
      proof (rule refill_request)
        fix i r
        assume "bt_get (rd_requests db) (root_of db m, ob, i) = Some r" "time < rq_expires r" "w' = rq_expires r"
          "authorize_actor E (rp_revocations s) db m \<lparr>at_identity = i, at_credential = rq_credential r\<rparr> clock = Inr ()"
        then show ?thesis using authorize_actor_Inr [of E "rp_revocations s" db m _ clock] db' s'(1) by fastforce
      qed
    qed simp
  qed
qed

subsection \<open>Pruned objects\<close>

lemma release_expired_pruned:
  assumes ok: "replica_ok E db" and a: "bt_contains (rd_pruned db) (a, ob)"
  shows "bt_contains (rd_pruned (release_expired db time)) (a, ob)"
proof -
  have "root_row db a" using messages_okD(8) [OF replica_okD(4) [OF ok] a] by simp
  then have "mailbox_parent db a = None" "bt_get (rd_delegations db) a = None" by (simp_all add: root_row_def mailbox_parent_def)
  then have "a \<notin> set (expired_mailboxes db time)"
    using replica_okD(1) [OF ok] bt_get_iff [of "rd_delegations db" a]
    by (auto simp: expired_mailboxes_def in_descend ancestors_eq forest_ok_def)
  then show ?thesis
    using a by (auto simp: release_expired_def delete_orphans_def delete_tree_rows_sel Let_def bt_contains_def bt_get_filter_pair)
qed

lemma delete_mailbox_tree_pruned:
  assumes ok: "replica_ok E db" and a: "bt_contains (rd_pruned db) (a, ob)" and "x \<noteq> a"
  shows "bt_contains (rd_pruned (delete_mailbox_tree db x)) (a, ob)"
proof -
  have "root_row db a" using messages_okD(8) [OF replica_okD(4) [OF ok] a] by simp
  then have "ancestors db a = [a]" by (simp add: ancestors_eq [OF replica_okD(1) [OF ok]] root_row_def mailbox_parent_def)
  then have "a \<notin> set (tree db x)" using assms(3) by (simp add: in_tree_iff [OF replica_okD(1) [OF ok]])
  then show ?thesis
    using a by (simp add: delete_mailbox_tree_def delete_orphans_def delete_tree_rows_sel Let_def bt_contains_def bt_get_filter_pair)
qed

lemma housekeeping_pruned: "housekeeping clock db db' \<Longrightarrow> rd_pruned db' = rd_pruned db \<and> rd_erased db' = rd_erased db \<and> rd_nonces db' = rd_nonces db"
  using housekeeping_shrinks by (auto simp: shrinks_def)

lemma post_inner_pruned:
  assumes "replica_ok E (rp_db s)"
  shows "rd_pruned (fst (post_inner E s m token ob b hint message actor clock rnd)) = rd_pruned (rp_db s)
    \<and> rd_erased (fst (post_inner E s m token ob b hint message actor clock rnd)) = rd_erased (rp_db s)
    \<and> rd_nonces (fst (post_inner E s m token ob b hint message actor clock rnd)) = rd_nonces (rp_db s)"
proof -
  obtain db' r where p: "post_inner E s m token ob b hint message actor clock rnd = (db', r)" by fastforce
  then have "rd_pruned db' = rd_pruned (rp_db s) \<and> rd_erased db' = rd_erased (rp_db s) \<and> rd_nonces db' = rd_nonces (rp_db s)"
  proof (cases rule: post_inner_cases)
    case (refused e)
    then show ?thesis by (blast dest: housekeeping_pruned)
  next
    case (stored time content subjects db0 inserted n)
    have hk: "housekeeping clock (rp_db s) db0"
      using housekeeping_trans [OF check_upload_housekeeping sweep_housekeeping [OF stored(6)]] stored(10) by (metis fst_conv)
    from store_upload_cases(1) [OF stored(13) replica_okD(1) [OF housekeeping_ok [OF hk assms]]] housekeeping_pruned [OF hk]
    show ?thesis by (simp add: shrinks_def)
  qed
  with p show ?thesis by simp
qed

lemma request_message_pruned:
  "rd_pruned (fst (request_message E s m actor ob rec p clock)) = rd_pruned (rp_db s)
   \<and> rd_erased (fst (request_message E s m actor ob rec p clock)) = rd_erased (rp_db s)
   \<and> rd_nonces (fst (request_message E s m actor ob rec p clock)) = rd_nonces (rp_db s)"
proof -
  obtain db' r where p: "request_message E s m actor ob rec p clock = (db', r)" by fastforce
  then have "rd_pruned db' = rd_pruned (rp_db s) \<and> rd_erased db' = rd_erased (rp_db s) \<and> rd_nonces db' = rd_nonces (rp_db s)"
    by (cases rule: request_message_cases) (auto dest: housekeeping_pruned)
  with p show ?thesis by simp
qed

lemma accept_message_pruned:
  "rd_pruned (fst (accept_message E s m actor ob rec p clock)) = rd_pruned (rp_db s)
   \<and> rd_erased (fst (accept_message E s m actor ob rec p clock)) = rd_erased (rp_db s)
   \<and> rd_nonces (fst (accept_message E s m actor ob rec p clock)) = rd_nonces (rp_db s)"
proof -
  obtain db' r where p: "accept_message E s m actor ob rec p clock = (db', r)" by fastforce
  then have "rd_pruned db' = rd_pruned (rp_db s) \<and> rd_erased db' = rd_erased (rp_db s) \<and> rd_nonces db' = rd_nonces (rp_db s)"
  proof (cases rule: accept_message_cases)
    case (accepted time root key body row f)
    from housekeeping_pruned [OF sweep_housekeeping [OF accepted(1)], of "rp_db s"] show ?thesis
      by (simp add: accepted(6) remove_body_def delete_orphans_def delete_deliveries_def Let_def)
  qed (auto dest: housekeeping_pruned)
  with p show ?thesis by simp
qed

lemma create_child_keeps:
  assumes "create_child E db parent token child clock = Inr db'" "replica_ok E db"
  shows "rd_erased db' = rd_erased db" "rd_nonces db' = rd_nonces db" "bt_contains (rd_pruned db) k \<Longrightarrow> bt_contains (rd_pruned db') k"
proof -
  have r: "rd_erased (release_expired db time) = rd_erased db" "rd_nonces (release_expired db time) = rd_nonces db" for time
    by (simp_all add: release_expired_def delete_tree_rows_def delete_mailboxes_def delete_bodies_def delete_deliveries_def delete_orphans_def Let_def)
  have "rd_erased db' = rd_erased db \<and> rd_nonces db' = rd_nonces db \<and> (bt_contains (rd_pruned db) k \<longrightarrow> bt_contains (rd_pruned db') k)"
  proof (cases "db' = db")
    case False
    with assms(1) show ?thesis
    proof (cases rule: create_child_Inr)
      case (1 time rd wr)
      then show ?thesis using r release_expired_pruned [OF assms(2), of "fst k" "snd k"] by simp
    qed
  qed simp
  then show "rd_erased db' = rd_erased db" "rd_nonces db' = rd_nonces db" "bt_contains (rd_pruned db) k \<Longrightarrow> bt_contains (rd_pruned db') k"
    by blast+
qed

lemma erase_account_content_keeps:
  assumes "erase_account_content db root j clock = Inr (db', n)"
  shows "rd_nonces db' = rd_nonces db" "bt_contains (rd_pruned db') (a, ob) \<longleftrightarrow> a = root \<and> (ob, j) \<in> set (rd_owners db) \<or> bt_contains (rd_pruned db) (a, ob)"
    "bt_contains (rd_erased db') i \<longleftrightarrow> i = j \<or> bt_contains (rd_erased db) i"
proof -
  from assms obtain time owned db2 where o: "owned = map fst (filter (\<lambda>(ob, i). i = j) (rd_owners db))"
    and e: "db2 = delete_orphans (\<lambda>_. True) (delete_deliveries (\<lambda>d. dl_object d \<in> set owned)
        (db\<lparr>rd_erased := insert_missing time [j] (rd_erased db), rd_pruned := insert_missing time (map (Pair root) owned) (rd_pruned db)\<rparr>))"
    "db' = db2\<lparr>rd_access_members := filter (\<lambda>(m, i). i \<noteq> j) (rd_access_members db2),
               rd_requests := filter (\<lambda>((m, ob, i), r). i \<noteq> j) (rd_requests db2),
               rd_acceptances := filter (\<lambda>((m, ob, i), r). i \<noteq> j) (rd_acceptances db2)\<rparr>"
    by (rule erase_account_content_Inr)
  show "rd_nonces db' = rd_nonces db" by (simp add: e delete_orphans_def delete_deliveries_def Let_def)
  show "bt_contains (rd_pruned db') (a, ob) \<longleftrightarrow> a = root \<and> (ob, j) \<in> set (rd_owners db) \<or> bt_contains (rd_pruned db) (a, ob)"
    by (auto simp: e delete_orphans_def delete_deliveries_def Let_def insert_missing_contains o) force
  show "bt_contains (rd_erased db') i \<longleftrightarrow> i = j \<or> bt_contains (rd_erased db) i"
    by (simp add: e delete_orphans_def delete_deliveries_def Let_def insert_missing_contains)
qed

lemma prune_messages_keeps:
  assumes "prune_messages db root before clock = Inr (db', result)"
  shows "rd_erased db' = rd_erased db" "rd_nonces db' = rd_nonces db" "bt_contains (rd_pruned db) k \<Longrightarrow> bt_contains (rd_pruned db') k"
proof -
  from assms have "rd_erased db' = rd_erased db \<and> rd_nonces db' = rd_nonces db \<and> (bt_contains (rd_pruned db) k \<longrightarrow> bt_contains (rd_pruned db') k)"
  proof (cases rule: prune_messages_Inr)
    case (1 time candidates)
    then show ?thesis by (simp add: delete_orphans_def delete_deliveries_def Let_def insert_missing_contains)
  qed
  then show "rd_erased db' = rd_erased db" "rd_nonces db' = rd_nonces db" "bt_contains (rd_pruned db) k \<Longrightarrow> bt_contains (rd_pruned db') k"
    by blast+
qed

text \<open>The operations on other tables.\<close>

lemma other_tables_pruned:
  shows "reserve_mailbox E db dsc quota = Inr db' \<Longrightarrow> rd_pruned db' = rd_pruned db \<and> rd_erased db' = rd_erased db \<and> rd_nonces db' = rd_nonces db"
    and "set_space_members db m ids = Inr db' \<Longrightarrow> rd_pruned db' = rd_pruned db \<and> rd_erased db' = rd_erased db \<and> rd_nonces db' = rd_nonces db"
    and "consume_access db access clock = Inr db' \<Longrightarrow> rd_pruned db' = rd_pruned db \<and> rd_erased db' = rd_erased db"
    and "rd_pruned (require_content_ownership db) = rd_pruned db" "rd_erased (require_content_ownership db) = rd_erased db"
      "rd_nonces (require_content_ownership db) = rd_nonces db"
      "rd_erased (delete_mailbox_tree db m) = rd_erased db" "rd_nonces (delete_mailbox_tree db m) = rd_nonces db"
proof -
  show "reserve_mailbox E db dsc quota = Inr db' \<Longrightarrow> rd_pruned db' = rd_pruned db \<and> rd_erased db' = rd_erased db \<and> rd_nonces db' = rd_nonces db"
    unfolding reserve_mailbox_def bindr_eq_Inr guard_eq_Inr
    by (cases "bt_get (rd_mailboxes db) (md_mailbox_id dsc)") (auto split: if_splits)
  show "set_space_members db m ids = Inr db' \<Longrightarrow> rd_pruned db' = rd_pruned db \<and> rd_erased db' = rd_erased db \<and> rd_nonces db' = rd_nonces db"
    unfolding set_space_members_def Let_def bindr_eq_Inr guard_eq_Inr by auto
  show "consume_access db access clock = Inr db' \<Longrightarrow> rd_pruned db' = rd_pruned db \<and> rd_erased db' = rd_erased db"
    unfolding consume_access_def Let_def bindr_eq_Inr guard_eq_Inr by auto
qed (simp_all add: require_content_ownership_def delete_mailbox_tree_def delete_orphans_def delete_tree_rows_def delete_mailboxes_def
    delete_bodies_def delete_deliveries_def Let_def)

lemmas tombstone_facts = create_child_keeps erase_account_content_keeps prune_messages_keeps other_tables_pruned
  post_inner_pruned request_message_pruned accept_message_pruned housekeeping_pruned [OF replica_get_housekeeping]
  housekeeping_pruned [OF replica_inventory_housekeeping] housekeeping_pruned [OF sweep_housekeeping]

lemma step_tombstones:
  assumes inv: "replica_inv E s" and "bt_contains (rd_pruned (rp_db s)) (a, ob)" "i \<noteq> In_DeleteTree a"
  shows "bt_contains (rd_pruned (rp_db (fst (replica_step E s (clock, i))))) (a, ob)"
proof -
  have ok: "replica_ok E (rp_db s)" using inv by (simp add: replica_inv_def)
  from assms(2,3) delete_mailbox_tree_pruned [OF ok assms(2)] show ?thesis
    by (cases i)
      (auto simp: atomically_db replying_db tombstone_facts ok maintain_message_lifetime_def with_allowed_message_retentions_def
        set_admitted_devices_def result_simps split: sum.split)
qed

lemma step_erased:
  assumes inv: "replica_inv E s" and "bt_contains (rd_erased (rp_db s)) j"
  shows "bt_contains (rd_erased (rp_db (fst (replica_step E s (clock, i))))) j"
proof -
  have ok: "replica_ok E (rp_db s)" using inv by (simp add: replica_inv_def)
  from assms(2) show ?thesis
    by (cases i)
      (auto simp: atomically_db replying_db tombstone_facts ok maintain_message_lifetime_def with_allowed_message_retentions_def
        set_admitted_devices_def result_simps split: sum.split)
qed

lemma run_tombstones:
  assumes "replica_inv E s" "bt_contains (rd_pruned (rp_db s)) (a, ob)" "\<forall>x \<in> set xs. snd x \<noteq> In_DeleteTree a"
  shows "bt_contains (rd_pruned (rp_db (replica_run E s xs))) (a, ob)"
  using assms
proof (induction xs arbitrary: s)
  case (Cons x xs)
  obtain clock i where x: "x = (clock, i)" by (cases x)
  have "bt_contains (rd_pruned (rp_db (fst (replica_step E s x)))) (a, ob)"
    unfolding x by (rule step_tombstones [OF Cons.prems(1,2)]) (use Cons.prems(3) x in simp)
  with Cons.IH [OF replica_step_inv [OF Cons.prems(1), of clock i]] Cons.prems(3) show ?case by (simp add: x)
qed simp

text \<open>Below a mailbox with the tombstone nothing is stored and nothing is served.\<close>

lemma pruned_not_served:
  assumes "replica_inv E s" "bt_contains (rd_pruned (rp_db s)) (a, ob)" "a \<in> set (ancestors (rp_db s) m)"
  shows "snd (replica_step E s (clock, In_Get m token ob)) \<noteq> Out_Bytes b"
proof
  obtain db' r where g: "replica_get E (rp_db s) m token ob clock = (db', r)" by fastforce
  assume "snd (replica_step E s (clock, In_Get m token ob)) = Out_Bytes b"
  then have "r = Inr b" by (auto simp: replying_def g split: sum.splits)
  with g obtain time where "check_pruned E (sweep (rp_db s) time) m ob = Inr ()" by (auto elim: replica_get_delivered)
  from check_pruned_Inr [OF this, of a] assms(2,3) shrinks_sweep [of "rp_db s" time] shrinks_ancestors [OF shrinks_sweep, of "rp_db s" time]
  show False by (simp add: shrinks_def)
qed

text \<open>
  C20: a pruned object stays pruned. From a reachable state on, through any further steps except the
  deletion of that very mailbox, an object that was pruned at a mailbox keeps its tombstone, no copy of
  it lies in the mailbox or below, and no download there returns it.
\<close>

theorem pruned_stays_pruned:
  assumes "s = replica_run E (new_replica allowed seed generation rv) inputs" "bt_contains (rd_pruned (rp_db s)) (a, ob)"
    and "\<forall>x \<in> set xs. snd x \<noteq> In_DeleteTree a" "s' = replica_run E s xs"
  shows "bt_contains (rd_pruned (rp_db s')) (a, ob)
    \<and> (\<forall>d \<in> set (rd_deliveries (rp_db s')). dl_object d = ob \<longrightarrow> a \<notin> set (ancestors (rp_db s') (dl_mailbox d)))
    \<and> (\<forall>m clock token b. a \<in> set (ancestors (rp_db s') m) \<longrightarrow> snd (replica_step E s' (clock, In_Get m token ob)) \<noteq> Out_Bytes b)"
proof -
  have inv: "replica_inv E s" unfolding assms(1) by (rule rep.run_inv [OF new_replica_inv])
  have inv': "replica_inv E s'" unfolding assms(4) by (rule rep.run_inv [OF inv])
  have t: "bt_contains (rd_pruned (rp_db s')) (a, ob)" unfolding assms(4) by (rule run_tombstones [OF inv assms(2,3)])
  have "removed_ok (rp_db s')" using inv' by (simp add: replica_inv_def)
  then show ?thesis using t pruned_not_served [OF inv' t] removed_okD(1) by blast
qed

subsection \<open>Erased accounts\<close>

interpretation erased: growing_machine "replica_step E" "replica_inv E"
    "\<lambda>s s'. \<forall>i. bt_contains (rd_erased (rp_db s)) i \<longrightarrow> bt_contains (rd_erased (rp_db s')) i"
  for E :: "('z replica_ext_scheme)"
  by unfold_locales (auto intro: step_erased)

lemma erased_cannot_post:
  assumes ok: "replica_ok E (rp_db s)" and "bt_contains (rd_erased (rp_db s)) i"
    and "snd (replica_step E s (clock, In_Post m token ob b hint message actor rnd)) = Out_Posted inserted receipt"
  shows "(\<forall>a. actor = Some a \<longrightarrow> at_identity a \<noteq> i) \<and> (\<forall>c. inspect E b = Inr (Some c) \<longrightarrow> i \<notin> set (ct_subjects c))"
proof -
  obtain db' r where p: "post_inner E s m token ob b hint message actor clock rnd = (db', r)" by fastforce
  with assms(3) have r: "r = Inr (inserted, receipt)" by (auto simp: replying_def split: sum.splits)
  from p [unfolded r] show ?thesis
  proof (cases rule: post_inner_cases)
    case (stored time content subjects db0 ins n)
    have hk: "housekeeping clock (rp_db s) db0"
      using housekeeping_trans [OF check_upload_housekeeping sweep_housekeeping [OF stored(6)]] stored(10) by (metis fst_conv)
    have "i \<notin> set subjects" using stored(12) assms(2) housekeeping_pruned [OF hk] by auto
    moreover have "subjects = ct_subjects c" if "content = Some c" for c
    proof -
      have "ct_subjects c \<noteq> []" using stored(8) that by (auto elim: inspect_Some)
      then show ?thesis using stored(11) that by (simp add: upload_subjects_def Let_def)
    qed
    ultimately have "i \<notin> set (ct_subjects c)" if "inspect E b = Inr (Some c)" for c using stored(8) that by auto
    moreover have "at_identity a \<noteq> i" if "actor = Some a" for a
      using authorize_actor_Inr [OF stored(2) [OF that]] assms(2) by auto
    ultimately show ?thesis by blast
  qed simp
qed

text \<open>
  C21: an erased account is gone for good. After a step that erased an account, through any further
  steps that do not delete the mailbox, the account is in no member list and has no open request or
  acceptance, no upload by it or naming it as a subject is accepted, and no object it owned is stored
  below the mailbox.
\<close>

theorem erased_stays_erased:
  assumes "s = replica_run E (new_replica allowed seed generation rv) inputs"
    and "replica_step E s (clock, In_Erase root i) = (s1, Out_Erased n)"
    and "\<forall>x \<in> set xs. snd x \<noteq> In_DeleteTree root" "s' = replica_run E s1 xs"
  shows "(\<forall>m. (m, i) \<notin> set (rd_access_members (rp_db s')))
    \<and> (\<forall>m ob. \<not> bt_contains (rd_requests (rp_db s')) (m, ob, i) \<and> \<not> bt_contains (rd_acceptances (rp_db s')) (m, ob, i))
    \<and> (\<forall>c m token ob b hint message actor rnd inserted receipt.
         snd (replica_step E s' (c, In_Post m token ob b hint message actor rnd)) = Out_Posted inserted receipt \<longrightarrow>
         (\<forall>a. actor = Some a \<longrightarrow> at_identity a \<noteq> i) \<and> (\<forall>x. inspect E b = Inr (Some x) \<longrightarrow> i \<notin> set (ct_subjects x)))
    \<and> (\<forall>d \<in> set (rd_deliveries (rp_db s')). (dl_object d, i) \<in> set (rd_owners (rp_db s)) \<longrightarrow> root \<notin> set (ancestors (rp_db s') (dl_mailbox d)))"
proof -
  have inv: "replica_inv E s" unfolding assms(1) by (rule rep.run_inv [OF new_replica_inv])
  have inv1: "replica_inv E s1" using replica_step_inv [OF inv, of clock "In_Erase root i"] assms(2) by simp
  have inv': "replica_inv E s'" unfolding assms(4) by (rule rep.run_inv [OF inv1])
  obtain k where e: "erase_account_content (rp_db s) root i clock = Inr (rp_db s1, k)"
    using assms(2) by (auto simp: atomically_def split: sum.splits)
  have gone: "bt_contains (rd_erased (rp_db s')) i"
    using erased.run_le [OF inv1] erase_account_content_keeps(3) [OF e] by (auto simp: assms(4))
  have t: "bt_contains (rd_pruned (rp_db s')) (root, ob)" if "(ob, i) \<in> set (rd_owners (rp_db s))" for ob
    unfolding assms(4) by (rule run_tombstones [OF inv1 _ assms(3)]) (use that erase_account_content_keeps(2) [OF e] in simp)
  have rem: "replica_ok E (rp_db s')" "removed_ok (rp_db s')" using inv' by (simp_all add: replica_inv_def)
  show ?thesis
    using removed_okD(2-4) [OF rem(2) gone] removed_okD(1) [OF rem(2)] t erased_cannot_post [OF rem(1) gone] by blast
qed

subsection \<open>Signed requests\<close>

lemma bt_get_filter_value:
  "bt_get m k = Some v \<Longrightarrow> P v \<Longrightarrow> bt_get (filter (\<lambda>(k, v). P v) m) k = Some v"
  by (induction m) (auto simp: bt_get_def split: if_splits)

lemma consume_access_Inr:
  assumes "consume_access db access clock = Inr db'"
  shows "bt_get (rd_nonces db') (va_credential access, va_nonce access) = Some (va_expires access)"
    "bt_get (rd_nonces db) k = Some e \<Longrightarrow> clock \<le> int e \<Longrightarrow> k \<noteq> (va_credential access, va_nonce access) \<Longrightarrow> bt_get (rd_nonces db') k = Some e"
proof -
  from assms obtain time where time: "replica_now clock = Inr time"
    and db': "db' = db\<lparr>rd_nonces := bt_insert (va_credential access, va_nonce access) (va_expires access)
        (filter (\<lambda>(k, e). \<not> e < time) (rd_nonces db))\<rparr>"
    unfolding consume_access_def Let_def bindr_eq_Inr guard_eq_Inr by auto
  show "bt_get (rd_nonces db') (va_credential access, va_nonce access) = Some (va_expires access)" by (simp add: db')
  show "bt_get (rd_nonces db) k = Some e \<Longrightarrow> clock \<le> int e \<Longrightarrow> k \<noteq> (va_credential access, va_nonce access) \<Longrightarrow> bt_get (rd_nonces db') k = Some e"
    using replica_now_Inr [OF time] bt_get_filter_value [of "rd_nonces db" k e "\<lambda>e. \<not> e < time"] by (simp add: db')
qed

lemma consume_access_used:
  assumes "bt_get (rd_nonces db) (va_credential access, va_nonce access) = Some e" "clock \<le> int e"
  shows "consume_access db access clock \<noteq> Inr db'"
proof
  assume c: "consume_access db access clock = Inr db'"
  then obtain time where time: "replica_now clock = Inr time"
    and no: "\<not> bt_contains (filter (\<lambda>(k, e). \<not> e < time) (rd_nonces db)) (va_credential access, va_nonce access)"
    unfolding consume_access_def Let_def bindr_eq_Inr guard_eq_Inr by auto
  from bt_get_filter_value [OF assms(1), of "\<lambda>e. \<not> e < time"] replica_now_Inr [OF time] assms(2) no show False
    by (simp add: bt_contains_def)
qed

lemma step_nonces:
  assumes "replica_inv E s" "bt_get (rd_nonces (rp_db s)) k = Some e" "clock \<le> int e"
  shows "bt_get (rd_nonces (rp_db (fst (replica_step E s (clock, i))))) k = Some e"
proof -
  have ok: "replica_ok E (rp_db s)" using assms(1) by (simp add: replica_inv_def)
  show ?thesis
  proof (cases i)
    case (In_Access access)
    have "bt_get (rd_nonces db') k = Some e" if "consume_access (rp_db s) access clock = Inr db'" for db'
      using consume_access_Inr(2) [OF that assms(2,3)] consume_access_used [of "rp_db s" access e clock db'] assms(2,3) that by blast
    then show ?thesis using In_Access assms(2) by (simp add: atomically_db split: sum.split)
  qed (use assms(2) in \<open>auto simp: atomically_db replying_db tombstone_facts ok maintain_message_lifetime_def
      with_allowed_message_retentions_def set_admitted_devices_def result_simps split: sum.split\<close>)
qed

lemma run_nonces:
  "replica_inv E s \<Longrightarrow> bt_get (rd_nonces (rp_db s)) k = Some e \<Longrightarrow> \<forall>x \<in> set xs. fst x \<le> int e \<Longrightarrow>
   bt_get (rd_nonces (rp_db (replica_run E s xs))) k = Some e"
proof (induction xs arbitrary: s)
  case (Cons x xs)
  obtain clock i where x: "x = (clock, i)" by (cases x)
  with Cons.IH [OF replica_step_inv [OF Cons.prems(1), of clock i] step_nonces [OF Cons.prems(1,2), of clock i]] Cons.prems(3)
  show ?case by simp
qed simp

text \<open>
  A signed request is used once. After a step that accepted the nonce of a signed request, no
  later step accepts the same request again, as long as no clock in between was ahead of the clock of
  the second attempt: before the request's deadline its nonce is kept, and after it the request is late.
\<close>

lemma access_used_once:
  assumes "s = replica_run E (new_replica allowed seed generation rv) inputs"
    and "replica_step E s (c0, In_Access access) = (s1, Out_Done)"
    and "\<forall>x \<in> set xs. fst x \<le> clock"
  shows "snd (replica_step E (replica_run E s1 xs) (clock, In_Access access)) \<noteq> Out_Done"
proof
  let ?s = "replica_run E s1 xs"
  assume a: "snd (replica_step E ?s (clock, In_Access access)) = Out_Done"
  then obtain db' where c: "consume_access (rp_db ?s) access clock = Inr db'" by (auto simp: atomically_def split: sum.splits)
  then obtain time where "replica_now clock = Inr time" "\<not> va_expires access < time"
    unfolding consume_access_def Let_def bindr_eq_Inr guard_eq_Inr by auto
  then have late: "clock \<le> int (va_expires access)" using replica_now_Inr by fastforce
  have inv: "replica_inv E s" unfolding assms(1) by (rule rep.run_inv [OF new_replica_inv])
  have inv1: "replica_inv E s1" using replica_step_inv [OF inv, of c0 "In_Access access"] assms(2) by simp
  obtain db1 where "consume_access (rp_db s) access c0 = Inr db1" "rp_db s1 = db1"
    using assms(2) by (auto simp: atomically_def split: sum.splits)
  then have "bt_get (rd_nonces (rp_db s1)) (va_credential access, va_nonce access) = Some (va_expires access)"
    using consume_access_Inr(1) by blast
  from run_nonces [OF inv1 this, of xs] assms(3) late
  have "bt_get (rd_nonces (rp_db ?s)) (va_credential access, va_nonce access) = Some (va_expires access)" by force
  from consume_access_used [OF this late] c show False by blast
qed

subsection \<open>The inventory\<close>

lemma replica_inventory_Inr:
  assumes "replica_inventory E s m token after limit clock = (db', Inr page)"
  obtains time where "replica_now clock = Inr time" "1 \<le> limit" "limit \<le> 128"
    "rd_deliveries db' = rd_deliveries (sweep (rp_db s) time)" "iv_head page = inventory_head (sweep (rp_db s) time) m"
    "iv_entries page = inventory_page (sweep (rp_db s) time) m after limit"
proof -
  from assms obtain time reqs where t: "replica_now clock = Inr time" "1 \<le> limit" "limit \<le> 128"
    and a: "active_requests E (rp_revocations s) (sweep (rp_db s) time) m time clock = (db', Inr reqs)"
    and i: "iv_head page = inventory_head (sweep (rp_db s) time) m" "iv_entries page = inventory_page (sweep (rp_db s) time) m after limit"
    unfolding replica_inventory_def Let_def by (auto simp: bindst_eq not_less split: if_splits)
  have "rd_deliveries (fst (active_objects E rv m root time clock obs db)) = rd_deliveries db" for rv root obs db
  proof (induction obs arbitrary: db)
    case (Cons ob obs)
    have w: "rd_deliveries (fst (valid_window E rv db m root ob time clock)) = rd_deliveries db"
      unfolding valid_window_def by (rule window_rows_keeps [where P = "\<lambda>x. rd_deliveries x = rd_deliveries db"]) simp_all
    show ?case unfolding active_objects.simps
    proof (rule bindst_keep [where P = "\<lambda>x. rd_deliveries x = rd_deliveries db"])
      fix s' :: replica_db and x assume "rd_deliveries s' = rd_deliveries db"
      with Cons.IH [of s'] show "rd_deliveries (fst (bindst (active_objects E rv m root time clock obs s')
          (\<lambda>db2 rest. (db2, Inr (if x = None then rest else ob # rest))))) = rd_deliveries db"
        by (intro bindst_keep [where P = "\<lambda>x. rd_deliveries x = rd_deliveries db"]) simp_all
    qed (rule w)
  qed simp
  then have "rd_deliveries db' = rd_deliveries (sweep (rp_db s) time)"
    using a unfolding active_requests_def Let_def by (auto simp: bindst_pure_eq) (metis fst_conv)
  with that t i show thesis by blast
qed

lemma take_sorted_prefix:
  assumes "sorted_wrt (<) (map f xs)" "x \<in> set xs" "x \<notin> set (take n xs)"
  shows "length (take n xs) = n \<and> (\<forall>y \<in> set (take n xs). f y < (f x :: nat))"
proof -
  have "length (take n xs) = n" using assms(2,3) by (auto simp: min_def)
  moreover have "x \<in> set (drop n xs)" using assms(2,3) by (metis Un_iff append_take_drop_id set_append)
  moreover have "sorted_wrt (<) (map f (take n xs) @ map f (drop n xs))" using assms(1) by (metis append_take_drop_id map_append)
  ultimately show ?thesis by (auto simp: sorted_wrt_append)
qed

lemma fold_max_le: "x \<in> set xs \<Longrightarrow> x \<le> fold max xs (y :: nat)"
  by (metis List.finite_set Max.set_eq_fold Max_ge list.set_intros(2))

text \<open>
  C36: a page of the inventory skips nothing. The page a client is answered holds at most as many
  entries as it asked for, in strictly ascending order of arrival, each after the number the client
  gave and no later than the head, each a delivery of the mailbox with the size of its object; and a
  delivery to the mailbox with a later number is on the page, or the page is full and ends before it.
\<close>

theorem inventory_complete:
  assumes "s = replica_run E (new_replica allowed seed generation rv) inputs"
    and "replica_step E s (clock, In_Inventory m token after limit) = (s', Out_Inventory page)"
  shows "length (iv_entries page) \<le> limit \<and> sorted_wrt (<) (map ie_arrival_seq (iv_entries page))
    \<and> (\<forall>e \<in> set (iv_entries page). after < ie_arrival_seq e \<and> ie_arrival_seq e \<le> iv_head page
         \<and> (\<exists>d \<in> set (rd_deliveries (rp_db s')). dl_mailbox d = m \<and> dl_seq d = ie_arrival_seq e \<and> dl_object d = ie_object_id e))
    \<and> (\<forall>d \<in> set (rd_deliveries (rp_db s')). dl_mailbox d = m \<and> after < dl_seq d \<longrightarrow>
         (\<exists>e \<in> set (iv_entries page). ie_arrival_seq e = dl_seq d \<and> ie_object_id e = dl_object d)
         \<or> length (iv_entries page) = limit \<and> (\<forall>e \<in> set (iv_entries page). ie_arrival_seq e < dl_seq d))"
proof -
  note ok = replica_reachable(1) [OF assms(1)]
  obtain db' r where p: "replica_inventory E s m token after limit clock = (db', r)" by fastforce
  with assms(2) have s': "rp_db s' = db'" "r = Inr page" by (auto simp: replying_def split: sum.splits)
  from p [unfolded s'(2)] obtain time where
    d: "rd_deliveries db' = rd_deliveries (sweep (rp_db s) time)" and h: "iv_head page = inventory_head (sweep (rp_db s) time) m"
    and e: "iv_entries page = inventory_page (sweep (rp_db s) time) m after limit"
    by (rule replica_inventory_Inr)
  let ?db = "sweep (rp_db s) time"
  let ?ds = "filter (\<lambda>d. dl_mailbox d = m \<and> dl_seq d > after \<and> bt_contains (rd_objects ?db) (dl_object d)) (rd_deliveries ?db)"
  have dok: "deliveries_ok ?db" by (rule replica_okD(2) [OF sweep_ok [OF ok]])
  have sorted: "sorted_wrt (<) (map dl_seq ?ds)" using dok by (auto simp: deliveries_ok_def sorted_wrt_map sorted_wrt_filter)
  have entries: "iv_entries page = map (inventory_entry ?db) (take limit ?ds)" by (simp add: e inventory_page_def)
  have seqs: "map ie_arrival_seq (iv_entries page) = take limit (map dl_seq ?ds)" by (simp add: entries inventory_entry_def take_map)
  have inds: "d \<in> set ?ds" if "d \<in> set (rd_deliveries ?db)" "dl_mailbox d = m" "after < dl_seq d" for d
    using dok that by (auto simp: deliveries_ok_def)
  have hd: "dl_seq d \<le> iv_head page" if "d \<in> set ?ds" for d
    unfolding h inventory_head_def by (rule fold_max_le) (use that in auto)
  have sub: "d \<in> set ?ds" if "d \<in> set (take limit ?ds)" for d using in_set_takeD [OF that] .
  have one: "\<forall>e \<in> set (iv_entries page). after < ie_arrival_seq e \<and> ie_arrival_seq e \<le> iv_head page
         \<and> (\<exists>d \<in> set (rd_deliveries (rp_db s')). dl_mailbox d = m \<and> dl_seq d = ie_arrival_seq e \<and> dl_object d = ie_object_id e)"
  proof
    fix e assume "e \<in> set (iv_entries page)"
    then obtain x where "x \<in> set (take limit ?ds)" and e: "e = inventory_entry ?db x" unfolding entries by auto
    then have x: "x \<in> set ?ds" by (blast dest: sub)
    show "after < ie_arrival_seq e \<and> ie_arrival_seq e \<le> iv_head page
         \<and> (\<exists>d \<in> set (rd_deliveries (rp_db s')). dl_mailbox d = m \<and> dl_seq d = ie_arrival_seq e \<and> dl_object d = ie_object_id e)"
      using x hd [OF x] by (auto simp: e inventory_entry_def s' d)
  qed
  have two: "(\<exists>e \<in> set (iv_entries page). ie_arrival_seq e = dl_seq x \<and> ie_object_id e = dl_object x)
         \<or> length (iv_entries page) = limit \<and> (\<forall>e \<in> set (iv_entries page). ie_arrival_seq e < dl_seq x)"
    if "x \<in> set (rd_deliveries ?db)" "dl_mailbox x = m" "after < dl_seq x" for x
    using take_sorted_prefix [OF sorted inds [OF that], of limit]
    unfolding entries by (cases "x \<in> set (take limit ?ds)") (auto simp: inventory_entry_def)
  have asc: "sorted_wrt (<) (map ie_arrival_seq (iv_entries page))" unfolding seqs using sorted sorted_wrt_take by blast
  have len: "length (iv_entries page) \<le> limit" by (simp add: entries)
  show ?thesis
  proof (intro conjI)
    show "\<forall>d \<in> set (rd_deliveries (rp_db s')). dl_mailbox d = m \<and> after < dl_seq d \<longrightarrow>
         (\<exists>e \<in> set (iv_entries page). ie_arrival_seq e = dl_seq d \<and> ie_object_id e = dl_object d)
         \<or> length (iv_entries page) = limit \<and> (\<forall>e \<in> set (iv_entries page). ie_arrival_seq e < dl_seq d)"
      unfolding s'(1) d using two by blast
  qed (fact len, fact asc, fact one)
qed

subsection \<open>A body that outlives its locator\<close>

text \<open>
  When a locator expires, the sweep deletes the row of its body but not the body. A body stored so late
  that its own deadline lies after that of its locator is from then on an object without a deadline: no
  later sweep, at any time, removes it.
\<close>

lemma locator_expiry_keeps_body:
  assumes ok: "replica_ok E db" and l: "bt_get (rd_locators db) (root, lob) = Some l" "locator_due time l" "lo_body l = dl_object d"
    and d: "d \<in> set (rd_deliveries db)" "root \<in> set (ancestors db (dl_mailbox d))" "bt_get (rd_locators db) (root, dl_object d) = None"
    and body: "bt_get (rd_bodies db) (root, dl_object d) = Some row" "\<not> body_due time row"
  shows "d \<in> set (rd_deliveries (sweep (sweep db time) t))"
proof -
  note m = messages_okD [OF replica_okD(4) [OF ok]] and f = replica_okD(1) [OF ok]
  have only: "r = root" if "r \<in> set (ancestors db (dl_mailbox d))" "root_row db r" for r
    using that root_ancestor_unique [OF f that(1)] root_ancestor_unique [OF f d(2)] m(6) [OF body(1)]
    by (simp add: root_row_def mailbox_parent_def)
  have "\<not> due_above db time d"
    using m(6) m(7) only d(3) body unfolding due_above_def in_tree_delivery [OF f]
    by (metis bt_contains_def fst_conv option.discI option.inject)
  then have d1: "d \<in> set (rd_deliveries (sweep db time))" by (rule sweep_keeps_delivery(1) [OF ok d(1)])
  note rows = sweep_rows(1,2) [OF m(1,2)]
  have gone: "bt_get (rd_bodies (sweep db time)) (root, dl_object d) = None" "bt_get (rd_locators (sweep db time)) (root, dl_object d) = None"
    using l d(3) unfolding rows by auto
  have ok1: "replica_ok E (sweep db time)" by (rule sweep_ok [OF ok])
  note m1 = messages_okD [OF replica_okD(4) [OF ok1]] and f1 = replica_okD(1) [OF ok1]
  have same: "ancestors (sweep db time) = ancestors db" "root_row (sweep db time) = root_row db"
    using shrinks_sweep [of db time] shrinks_ancestors [OF shrinks_sweep, of db time] by (auto simp: root_row_def shrinks_def fun_eq_iff)
  have "\<not> due_above (sweep db time) t d"
    using m1(6) m1(7) only gone unfolding due_above_def in_tree_delivery [OF f1] same
    by (metis bt_contains_def fst_conv option.discI)
  then show ?thesis by (rule sweep_keeps_delivery(1) [OF ok1 d1])
qed

end
