(* ===== verification/Replica_Examples.thy ===== *)
theory Replica_Examples
  imports Example_Spaces Replica_Lifetimes
begin

text \<open>
  A replica at work in a concrete world. The records are those of theory Example\_World; the digest is
  the last byte of its input, so that objects with different last bytes have different identifiers. A
  mailbox is reserved, an unattributed message and an owned message body with its locator are uploaded,
  the body expires, is asked for and is sent again. The theorems about the replica are applied to the
  states of these runs.
\<close>

declare One_nat_def [simp del]

subsection \<open>The world\<close>

definition ex_last :: "bytes \<Rightarrow> bytes" where
  "ex_last b = replicate 32 (last (0 # b))"

definition ex_request_key :: string where "ex_request_key = encode_hex (bid 30)"

definition ex_body_claim :: Claim where
  "ex_body_claim = \<lparr>ow_v = 1, ow_kind = ''object.owner'', ow_credential = ex_text 1 1 41 1, ow_ciphertext = bid 9, ow_subjects = [bid 1],
     ow_retention = Some (MessageBody nonce16 (bid 80) Hours6 None ex_request_key None)\<rparr>"

definition ex_locator_claim :: Claim where
  "ex_locator_claim = \<lparr>ow_v = 1, ow_kind = ''object.owner'', ow_credential = ex_text 1 1 41 1, ow_ciphertext = bid 8, ow_subjects = [bid 1],
     ow_retention = Some (MessageLocator_claim nonce16 (bid 9) (bid 80) Hours6 ex_request_key)\<rparr>"

definition ex_mailbox :: MailboxId where "ex_mailbox = replicate 16 3"

definition rx_token :: "nat \<Rightarrow> string" where "rx_token n = ex_encode (bid n)"

definition ex_receipt_of :: "nat \<Rightarrow> nat \<Rightarrow> nat \<Rightarrow> string \<Rightarrow> nat \<Rightarrow> ReceiptBody" where
  "ex_receipt_of ob len n policy t = ReceiptBody.make 1 ''storage.receipt'' (bid 40) ex_mailbox (bid ob) len n nonce32 ''sqlite-wal-full''
     policy nonce16 t"

definition rx_receipts :: "(nat \<times> ReceiptBody) list" where
  "rx_receipts = [(120, ex_receipt_of 7 3 1 ''manual-no-auto-gc'' 1000), (121, ex_receipt_of 8 102 1 ''message-locator-30d'' 1000),
     (122, ex_receipt_of 9 102 2 ''message-body-ttl'' 1000), (124, ex_receipt_of 9 102 3 ''message-body-ttl'' 21701000)]"

definition ex_ser_receipt :: "ReceiptBody \<Rightarrow> bytes" where
  "ex_ser_receipt r = (case List.find (\<lambda>e. snd e = r) rx_receipts of None \<Rightarrow> [] | Some (i, x) \<Rightarrow> ex_body 1 5 i)"

definition ex_claimed :: "DeviceCredential \<Rightarrow> json \<Rightarrow> DeviceCredential option" where
  "ex_claimed c j = (if json_index j ''root_public_key'' = String (dc_root_public_key c) then Some c else None)"

definition R :: replica_ext where
  "R = replica_ext.make ex_last (\<lambda>k. length k = 32) (\<lambda>k. k = bid 0) (\<lambda>k m s. s = ex_sign k m) (\<lambda>k. k) ex_sign
    (\<lambda>s. Some (map (\<lambda>c. word_of_nat (of_char c)) s)) ex_encode (\<lambda>s. if s = [] then None else Some s) ex_json
    (by_index [(80, ex_chat)]) (\<lambda>_. ex_body 1 5 80) [''+'']
    (\<lambda>j. Option.bind (by_index ex_credentials j) (\<lambda>c. ex_claimed c j)) (\<lambda>_. ex_body 1 1 41) (by_index ex_revocations) (\<lambda>_. ex_body 2 2 47)
    (\<lambda>_ _ _. []) (\<lambda>c. if c = ex_body_claim then ex_body 1 5 110 else if c = ex_locator_claim then ex_body 1 5 111 else [])
    (by_index [(110, ex_body_claim), (111, ex_locator_claim)])
    (\<lambda>s. Some (map (\<lambda>c. word_of_nat (of_char c)) s)) ex_encode
    ex_ser_receipt (by_index rx_receipts) (\<lambda>_. []) (\<lambda>_. None)"

lemma R_fields [example_simps]:
  "sha256 R = ex_last" "ed_key_valid R k = (length k = 32)" "ed_key_weak R k = (k = bid 0)" "ed_verify_strict R k x s = (s = ex_sign k x)"
  "ed_public R k = k" "ed_sign R = ex_sign" "b64_decode R t = Some (map (\<lambda>c. word_of_nat (of_char c)) t)" "b64_encode R = ex_encode"
  "age_parse R t = (if t = [] then None else Some t)" "json_from_slice R = ex_json"
  "dec_credential R j = Option.bind (by_index ex_credentials j) (\<lambda>c. ex_claimed c j)" "ser_access R cx y z = []"
  "dec_claim R = by_index [(110, ex_body_claim), (111, ex_locator_claim)]"
  "b64url_decode R t = Some (map (\<lambda>c. word_of_nat (of_char c)) t)" "b64url_encode R = ex_encode"
  by (simp_all add: R_def replica_ext.defs)

text \<open>Reading and signing records depends on the parser and the signatures only, which are those of the other examples.\<close>

lemma R_records:
  "strict_json R = strict_json W" "parse_bounded R = parse_bounded W" "parse R = parse W" "verify_signature R = verify_signature W" "sign R = sign W"
proof -
  have e: "json_from_slice R = json_from_slice W" "ed_sign R = ed_sign W" "ed_verify_strict R = ed_verify_strict W"
    by (simp_all add: R_fields W_def fun_eq_iff)
  show j: "strict_json R = strict_json W" by (intro ext) (simp only: strict_json_def e)
  show p: "parse_bounded R = parse_bounded W" by (intro ext) (simp only: parse_bounded_def j)
  show "parse R = parse W" by (intro ext) (simp only: parse_def p)
  show "verify_signature R = verify_signature W" by (intro ext) (simp only: verify_signature_def e)
  show "sign R = sign W" by (intro ext) (simp only: sign_def sign_bounded_def j p e)
qed

lemma ex_last_append [example_simps]: "ex_last (xs @ [x]) = replicate 32 x"
  by (simp add: ex_last_def)

lemma R_ids [example_simps]:
  "of_root_key R (bid n) = bid n" "of_record_bytes R (ex_frame v k i key) = bid i" "credential_id R cred41 = bid 41"
  "of_ciphertext R (xs @ [x]) = replicate 32 x" "of_ciphertext R [x] = replicate 32 x"
proof -
  have f: "last (0 # ascii t @ [0] @ ex_frame v k i key) = word_of_nat i" for t
    by (simp add: ex_frame_def ex_sign_eq last_append)
  show r: "of_record_bytes R (ex_frame v k i key) = bid i" for v k i key
    by (simp add: of_record_bytes_def hash_def R_fields ex_last_def bid_def) (simp add: ex_frame_def ex_sign_eq last_append)
  show "of_root_key R (bid n) = bid n"
    by (simp add: of_root_key_def hash_def R_fields ex_last_def) (simp add: bid_def last_append)
  show "credential_id R cred41 = bid 41"
    by (simp add: credential_id_def record_id_def cred41_def W_record(1) r)
  show "of_ciphertext R (xs @ [x]) = replicate 32 x" for xs x
    by (simp add: of_ciphertext_def hash_def R_fields ex_last_def)
  from this [of "[]" x] show "of_ciphertext R [x] = replicate 32 x" by simp
qed

lemma R_verify: "verify R (ex_frame 1 1 41 1) (bid 1) = Inr cred41"
  unfolding verify_def
  by (subst verify_at_depth.simps)
    (simp add: R_records decode_with_def verifying_key_def example_simps ex_credentials_def ex_devices MAX_CREDENTIAL_BYTES_def
      ex_claimed_def)

definition ex_wrapped :: "nat \<Rightarrow> bytes \<Rightarrow> bytes" where
  "ex_wrapped i ciphertext = MAGIC @ u32_to_be_bytes 77 @ ex_frame 1 5 i 11 @ ciphertext"

lemma length_MAGIC: "length MAGIC = 20"
  by (simp add: MAGIC_def ascii_def)

lemma R_inspect:
  assumes "ex_plain i" "map_of [(110, ex_body_claim), (111, ex_locator_claim)] i = Some c" "x \<noteq> 101"
    and "c = \<lparr>ow_v = 1, ow_kind = ''object.owner'', ow_credential = ex_text 1 1 41 1, ow_ciphertext = replicate 32 x, ow_subjects = [bid 1],
      ow_retention = r\<rparr>" "valid_retention R r (bid 1) [bid 1]"
  shows "inspect R (ex_wrapped i [x]) = Inr (Some \<lparr>ct_credential = cred41, ct_ciphertext = [x], ct_subjects = [bid 1], ct_retention = r\<rparr>)"
proof -
  let ?b = "ex_wrapped i [x]"
  have s: "starts_with ?b MAGIC" "slice ?b (length MAGIC) 4 = Some (u32_to_be_bytes 77)"
    "slice ?b (length MAGIC + 4) 77 = Some (ex_frame 1 5 i 11)" "drop (length MAGIC + 4 + 77) ?b = [x]"
    by (simp_all add: ex_wrapped_def starts_with_def slice_def)
  have l: "length ?b \<le> MAX_CIPHERTEXT" "length ?b = 102" by (simp_all add: ex_wrapped_def length_MAGIC MAX_CIPHERTEXT_def)
  have n: "\<not> starts_with [x] MAGIC" using assms(3) by (simp add: starts_with_def length_MAGIC) (simp add: MAGIC_def ascii_def)
  have p: "parse R (ex_frame 1 5 i 11) = Inr (ex_record 1 5 i 11)" "parse R (ex_frame 1 1 41 1) = Inr (ex_record 1 1 41 1)"
    "verify_signature R (ex_record 1 5 i 11) (bid 11) = Inr ()"
    using assms(1) by (simp_all add: R_records example_simps)
  have d: "dec_claim R (ex_object 1 5 i) = Some c" "b64_decode R (ex_text 1 1 41 1) = Some (ex_frame 1 1 41 1)"
    using assms(2) by (simp_all add: R_fields by_index_object ex_text_def ex_decode_encode)
  show ?thesis
    using s l n p d assms(4,5)
    by (simp add: inspect_def Let_def decode_with_def W_record ex_object_root R_verify verifying_key_def R_fields device_facts R_ids
        sorted_unique_def MAX_PROOF_def ex_root_def)
qed

lemma R_claims_valid:
  "valid_retention R (ow_retention ex_body_claim) (bid 1) [bid 1]" "valid_retention R (ow_retention ex_locator_claim) (bid 1) [bid 1]"
  by (simp_all add: valid_retention_def ex_body_claim_def ex_locator_claim_def valid_key_def ex_request_key_def R_fields)

lemma R_inspect_messages:
  "inspect R (ex_wrapped 110 [9]) = Inr (Some \<lparr>ct_credential = cred41, ct_ciphertext = [9], ct_subjects = [bid 1], ct_retention = ow_retention ex_body_claim\<rparr>)"
  "inspect R (ex_wrapped 111 [8]) = Inr (Some \<lparr>ct_credential = cred41, ct_ciphertext = [8], ct_subjects = [bid 1], ct_retention = ow_retention ex_locator_claim\<rparr>)"
  using R_claims_valid
  by (intro R_inspect; simp add: ex_plain_def ex_body_claim_def ex_locator_claim_def bid_def)+

subsection \<open>A mailbox and an unattributed message\<close>

definition rx_registry :: Revocations where
  "rx_registry = \<lparr>rv_files = [], rv_budget = Budget_default\<rparr>"

definition ex_descriptor :: MailboxDescriptor where
  "ex_descriptor = \<lparr>md_mailbox_id = ex_mailbox, md_read_token = rx_token 1, md_write_token = rx_token 2\<rparr>"

abbreviation rx_new :: ReplicaStore where
  "rx_new \<equiv> new_replica [Hours6] (bid 40) nonce32 rx_registry"

definition rx_db1 :: replica_db where
  "rx_db1 = (empty_replica (bid 40) nonce32)\<lparr>rd_mailboxes := [(ex_mailbox, \<lparr>mb_read = bid 1, mb_write = bid 2, mb_quota = 100000\<rparr>)]\<rparr>"

definition ex_store :: "replica_db \<Rightarrow> ReplicaStore" where
  "ex_store db = \<lparr>rp_allowed = [Hours6], rp_admitted = [], rp_revocations = rx_registry, rp_db = db\<rparr>"

lemma ex_store_sel [simp]:
  "rp_db (ex_store db) = db" "rp_allowed (ex_store db) = [Hours6]" "rp_revocations (ex_store db) = rx_registry"
  "(ex_store db)\<lparr>rp_db := db'\<rparr> = ex_store db'"
  by (simp_all add: ex_store_def)

lemma ex_token_hash [example_simps]: "token_hash R (rx_token n) = Inr (bid n)"
proof -
  have "last (0 # bid n) = word_of_nat n" by (simp add: bid_def numeral_eq_Suc)
  then show ?thesis
    by (simp add: token_hash_def rx_token_def R_fields ex_decode_encode ex_last_def) (simp add: bid_def)
qed

definition ex_reserve :: "int \<times> replica_input" where "ex_reserve = (1000, In_Reserve ex_descriptor 100000)"

lemma ex_reserved: "replica_run R rx_new [ex_reserve] = ex_store rx_db1"
  by (simp add: ex_reserve_def new_replica_def atomically_def reserve_mailbox_def ex_descriptor_def example_simps MAX_INTEGER_def
      empty_replica_def ex_store_def rx_db1_def bt_get_def)

lemma ex_now [example_simps]: "0 \<le> t \<Longrightarrow> t \<le> 9007199254740991 \<Longrightarrow> replica_now t = Inr (nat t)"
  by (simp add: replica_now_def MAX_INTEGER_def)

definition ex_plain_delivery :: delivery where
  "ex_plain_delivery = \<lparr>dl_seq = 1, dl_mailbox = ex_mailbox, dl_object = bid 7, dl_hint = Eager\<rparr>"

definition ex_db2 :: replica_db where
  "ex_db2 = rx_db1\<lparr>rd_objects := [(bid 7, \<lparr>so_ciphertext = [5, 6, 7], so_stored = 1000, so_packed = None\<rparr>)],
     rd_deliveries := [ex_plain_delivery], rd_sequence := 1, rd_complete := False, rd_copies := [((ex_mailbox, bid 7), 1000)]\<rparr>"

definition ex_post :: "int \<times> replica_input" where
  "ex_post = (1000, In_Post ex_mailbox (rx_token 2) (bid 7) [5, 6, 7] Eager True None (Some (replicate 16 7)))"

text \<open>The tables of the example have one mailbox, so every query over the forest is immediate.\<close>

lemma ex_forest [example_simps]:
  assumes "rd_delegations db = []"
  shows "ancestors db m = [m]" "tree db m = [m]" "root_mailbox db m = Inr m" "root_of db m = m" "in_tree db m d \<longleftrightarrow> dl_mailbox d = m"
  using assms by (auto simp: ancestors_def tree_def root_mailbox_def root_of_def in_tree_def mailbox_parent_def bt_get_def)

lemma ex_authorize:
  assumes "rd_delegations db = []" "bt_get (rd_mailboxes db) m = Some \<lparr>mb_read = bid 1, mb_write = bid 2, mb_quota = 100000\<rparr>"
  shows "mailbox_authorize R db m (rx_token 2) True clock = Inr ()" "mailbox_authorize R db m (rx_token 1) False clock = Inr ()"
  using assms by (simp_all add: mailbox_authorize_def example_simps bt_get_def)

lemma ex_db1_sel [simp]:
  "rd_delegations rx_db1 = []" "rd_mailboxes rx_db1 = [(ex_mailbox, \<lparr>mb_read = bid 1, mb_write = bid 2, mb_quota = 100000\<rparr>)]"
  "rd_bodies rx_db1 = []" "rd_locators rx_db1 = []" "rd_requests rx_db1 = []" "rd_acceptances rx_db1 = []" "rd_pruned rx_db1 = []"
  "rd_objects rx_db1 = []" "rd_deliveries rx_db1 = []" "rd_sequence rx_db1 = 0" "rd_copies rx_db1 = []" "rd_owners rx_db1 = []"
  "rd_complete rx_db1" "rd_seed rx_db1 = bid 40" "rd_generation rx_db1 = nonce32" "rd_erased rx_db1 = []" "rd_credentials rx_db1 = []"
  "\<not> rd_require_owner rx_db1" "rd_access_roots rx_db1 = []" "rd_access_members rx_db1 = []" "rd_nonces rx_db1 = []"
  by (simp_all add: rx_db1_def empty_replica_def)

lemma ex_sweep_nothing: "rd_bodies db = [] \<Longrightarrow> rd_locators db = [] \<Longrightarrow> rd_requests db = [] \<Longrightarrow> rd_acceptances db = [] \<Longrightarrow> sweep db t = db"
  by (simp add: sweep_def sweep_bodies_def sweep_locators_def Let_def)

lemma ex_inspect_plain: "inspect R [5, 6, 7] = Inr None"
  by (simp add: inspect_def starts_with_def length_MAGIC) (simp add: MAGIC_def ascii_def)

lemma ex_plain_id: "of_ciphertext R [5, 6, 7] = bid 7"
  using R_ids(4) [of "[5, 6]" 7] by (simp add: bid_def)

lemma ex_store_plain:
  "store_upload R rx_db1 ex_mailbox (bid 7) [5, 6, 7] Eager True None LegacyMessage [] 1000 = Inr (ex_db2, True, 1)"
proof -
  have "upload_budget rx_db1 ex_mailbox 0 (Suc (Suc (Suc 0))) ex_mailbox = Inr ()"
    by (simp add: upload_budget_def bt_get_def retained_usage_def metadata_usage_def)
  then show ?thesis
    by (simp add: store_upload_def example_simps find_delivery_def metadata_delta_def packing_insert_def bt_contains_def bt_get_def
        packing_load_def unpack_def wire_size_def ex_plain_id insert_delivery_def record_upload_def insert_missing_def MAX_INTEGER_def
        ex_db2_def ex_plain_delivery_def Let_def)
qed

lemma ex_receipts_sel:
  "(i, r) \<in> set rx_receipts \<Longrightarrow> ser_receipt R r = ex_body 1 5 i \<and> map_of rx_receipts i = Some r \<and> ex_plain i"
proof -
  have "ser_receipt R = ex_ser_receipt" by (simp add: R_def replica_ext.defs)
  moreover have "distinct (map snd rx_receipts)" by (simp add: rx_receipts_def ex_receipt_of_def ReceiptBody.defs)
  moreover assume "(i, r) \<in> set rx_receipts"
  ultimately show ?thesis
    by (auto simp: ex_ser_receipt_def rx_receipts_def ex_plain_def split: option.splits)
qed

text \<open>The replica signs its receipt for what it stored.\<close>

lemma rx_receipt:
  assumes "(i, ex_receipt_of ob len n policy t) \<in> set rx_receipts" "rd_seed db = bid 40" "rd_generation db = nonce32"
    "map_option so_stored (bt_get (rd_objects db) (bid ob)) = Some t"
  shows "sign R (ser_receipt R (storage_receipt_body R db ex_mailbox (bid ob) len n policy (encode_hex (replicate 16 7)))) (rd_seed db)
    = Inr (ex_record 1 5 i 40)"
proof -
  have "peer_id R (replica_key R db) = bid 40"
    by (simp add: peer_id_def replica_key_def R_fields assms(2) ex_last_def) (simp add: bid_def last_append)
  then have "storage_receipt_body R db ex_mailbox (bid ob) len n policy (encode_hex (replicate 16 7)) = ex_receipt_of ob len n policy t"
    using assms(3,4) by (auto simp: storage_receipt_body_def ex_receipt_of_def ReceiptBody.defs nonce16_def)
  moreover have "ser_receipt R (ex_receipt_of ob len n policy t) = ex_body 1 5 i" "ex_plain i" using ex_receipts_sel [OF assms(1)] by simp_all
  ultimately show ?thesis unfolding R_records assms(2) by (simp add: W_sign example_simps)
qed

lemma ex_posted: "replica_step R (ex_store rx_db1) ex_post = (ex_store ex_db2, Out_Posted True (ex_frame 1 5 120 40))"
proof -
  have a: "mailbox_authorize R rx_db1 ex_mailbox (rx_token 2) True 1000 = Inr ()" by (rule ex_authorize) (simp_all add: bt_get_def)
  have c: "check_pruned R rx_db1 ex_mailbox (bid 7) = Inr ()" by (simp add: check_pruned_def)
  have "post_inner R (ex_store rx_db1) ex_mailbox (rx_token 2) (bid 7) [5, 6, 7] Eager True None 1000 (Some (replicate 16 7))
      = (ex_db2, Inr (True, ex_frame 1 5 120 40))"
    using ex_store_plain rx_receipt [of 120 7 3 1 "''manual-no-auto-gc''" 1000 ex_db2]
    by (simp add: post_inner_def a c ex_now ex_sweep_nothing ex_inspect_plain ex_plain_id classify_def retention_policy_def
        check_upload_def ex_forest upload_subjects_def receipt_retention_def random_hex_def MAX_CIPHERTEXT_def numeral_3_eq_3
        W_record rx_receipts_def) (simp add: ex_db2_def bt_get_def W_record)
  then show ?thesis by (simp add: ex_post_def replying_def)
qed

lemma ex_run2: "replica_run R rx_new [ex_reserve, ex_post] = ex_store ex_db2"
proof -
  have "replica_run R rx_new ([ex_reserve] @ [ex_post]) = ex_store ex_db2"
    unfolding run_steps_append ex_reserved by (simp add: ex_posted)
  then show ?thesis by simp
qed

lemma ex_db2_sel [simp]:
  "rd_delegations ex_db2 = []" "rd_mailboxes ex_db2 = rd_mailboxes rx_db1" "rd_bodies ex_db2 = []" "rd_locators ex_db2 = []"
  "rd_requests ex_db2 = []" "rd_acceptances ex_db2 = []" "rd_pruned ex_db2 = []" "rd_deliveries ex_db2 = [ex_plain_delivery]"
  "rd_objects ex_db2 = [(bid 7, \<lparr>so_ciphertext = [5, 6, 7], so_stored = 1000, so_packed = None\<rparr>)]"
  "rd_copies ex_db2 = [((ex_mailbox, bid 7), 1000)]" "rd_generation ex_db2 = nonce32" "rd_sequence ex_db2 = 1"
  by (simp_all add: ex_db2_def)

lemma ex_plain_delivery_sel [simp]:
  "dl_seq ex_plain_delivery = 1" "dl_mailbox ex_plain_delivery = ex_mailbox" "dl_object ex_plain_delivery = bid 7"
  by (simp_all add: ex_plain_delivery_def)

theorem replica_quota_witness:
  "bt_get (rd_mailboxes ex_db2) ex_mailbox = Some \<lparr>mb_read = bid 1, mb_write = bid 2, mb_quota = 100000\<rparr>
   \<and> retained_usage ex_db2 ex_mailbox = 3 \<and> retained_usage ex_db2 ex_mailbox + metadata_usage ex_db2 ex_mailbox \<le> 100000
   \<and> card (set (tree ex_db2 ex_mailbox)) \<le> 257"
proof -
  have r: "bt_get (rd_mailboxes ex_db2) ex_mailbox = Some \<lparr>mb_read = bid 1, mb_write = bid 2, mb_quota = 100000\<rparr>" by (simp add: bt_get_def)
  have "retained_usage ex_db2 ex_mailbox = 3" by (simp add: retained_usage_def ex_forest delivery_size_def bt_get_def wire_size_def)
  with replica_quota [of ex_db2 R, OF _ r] ex_run2 r show ?thesis by (metis ex_store_sel(1) mailbox_row.select_convs(3))
qed

theorem mailbox_queries_end_witness:
  "chain (length (rd_delegations ex_db2) + 5) (mailbox_parent ex_db2) ex_mailbox = [ex_mailbox]
   \<and> root_mailbox ex_db2 ex_mailbox = Inr (last (ancestors ex_db2 ex_mailbox))"
  using mailbox_queries_end [of ex_db2 R "[Hours6]" "bid 40" nonce32 rx_registry "[ex_reserve, ex_post]" 5 ex_mailbox] ex_run2
  by (simp add: ex_forest)

theorem replica_well_formed_witness:
  "(\<exists>b. packing_load R ex_db2 (bid 7) = Inr b \<and> of_ciphertext R b = bid 7 \<and> length b = 3)
   \<and> distinct (map delivery_key (rd_deliveries ex_db2))"
proof -
  have g: "bt_get (rd_objects ex_db2) (bid 7) = Some \<lparr>so_ciphertext = [5, 6, 7], so_stored = 1000, so_packed = None\<rparr>" by (simp add: bt_get_def)
  have "ex_db2 = rp_db (replica_run R rx_new [ex_reserve, ex_post])" unfolding ex_run2 by simp
  note w = replica_well_formed [OF this]
  from w [THEN conjunct1, rule_format, OF g] w show ?thesis by (simp add: wire_size_def numeral_3_eq_3)
qed

theorem upload_served_witness:
  "replica_step R (ex_store rx_db1) ex_post = (ex_store ex_db2, Out_Posted True (ex_frame 1 5 120 40))
   \<and> snd (replica_step R (ex_store ex_db2) (1000, In_Get ex_mailbox (rx_token 1) (bid 7))) = Out_Bytes [5, 6, 7]"
proof -
  have a: "mailbox_authorize R (rp_db (ex_store ex_db2)) ex_mailbox (rx_token 1) False 1000 = Inr ()"
    by (simp, rule ex_authorize) (simp_all add: bt_get_def)
  show ?thesis using upload_served [OF ex_reserved [symmetric] ex_posted [unfolded ex_post_def] a] ex_posted by simp
qed

lemma R_signing: "signing_correct R"
  by (simp add: signing_correct_def R_fields)

lemma R_receipts: "receipt_codec R"
  unfolding receipt_codec_def
proof (intro allI impI)
  fix x j
  assume j: "strict_json R (ser_receipt R x) MAX_RECORD = Inr j"
  have s: "ser_receipt R = ex_ser_receipt" "dec_receipt R = by_index rx_receipts" by (simp_all add: R_def replica_ext.defs)
  have "strict_json R [] m \<noteq> Inr j" for m by (simp add: strict_json_def)
  with j obtain i where i: "(i, x) \<in> set rx_receipts"
    by (auto simp: s(1) ex_ser_receipt_def find_Some_iff split: option.splits) (metis nth_mem prod.collapse)
  note e = ex_receipts_sel [OF i]
  have "strict_json R (ex_body 1 5 i) MAX_RECORD = Inr (ex_object 1 5 i)"
    unfolding R_records by (rule W_strict_json) (use e in \<open>simp_all add: ex_plain_def MAX_RECORD_def\<close>)
  with j e have "j = ex_object 1 5 i" by simp
  then show "dec_receipt R j = Some x" using e by (simp add: s(2) by_index_object)
qed

theorem receipt_verifies_witness:
  "signing_correct R \<and> receipt_codec R
   \<and> (\<exists>body. VerifiedReceipt_verify R (ex_frame 1 5 120 40) (replica_key R rx_db1) ex_mailbox (bid 7) 3 = Inr body
       \<and> rt_storage_generation body = nonce32
       \<and> (\<exists>d \<in> set (rd_deliveries ex_db2). dl_seq d = rt_arrival_seq body \<and> dl_mailbox d = ex_mailbox \<and> dl_object d = bid 7))"
proof -
  have g: "rd_generation (rp_db (ex_store rx_db1)) = encode_hex (replicate 32 7)" by (simp add: nonce32_def)
  have l: "length [5, 6, 7 :: byte] = 3" by simp
  from receipt_verifies [OF ex_reserved [symmetric] ex_posted [unfolded ex_post_def] R_signing R_receipts _ g] R_signing R_receipts show ?thesis
    unfolding l by (simp add: nonce32_def)
qed

theorem delivery_lost_only_by_witness:
  "ex_plain_delivery \<in> set (rd_deliveries ex_db2)
   \<and> ex_plain_delivery \<notin> set (rd_deliveries (rp_db (fst (replica_step R (ex_store ex_db2) (2000, In_DeleteTree ex_mailbox)))))
   \<and> (\<exists>a. In_DeleteTree ex_mailbox = In_DeleteTree a \<and> a \<in> set (ancestors ex_db2 (dl_mailbox ex_plain_delivery)))"
proof -
  have i: "ex_plain_delivery \<in> set (rd_deliveries (rp_db (ex_store ex_db2)))" by simp
  have o: "ex_plain_delivery \<notin> set (rd_deliveries (rp_db (fst (replica_step R (ex_store ex_db2) (2000, In_DeleteTree ex_mailbox)))))"
    by (simp add: delete_mailbox_tree_def delete_orphans_def delete_tree_rows_sel Let_def ex_forest)
  have "\<not> due_above ex_db2 time d" for time d by (simp add: due_above_def bt_get_def)
  with delivery_lost_only_by [OF ex_run2 [symmetric] i o] i o show ?thesis by simp
qed

theorem inventory_complete_witness:
  "\<exists>s' page. replica_step R (ex_store ex_db2) (1500, In_Inventory ex_mailbox (rx_token 1) 0 10) = (s', Out_Inventory page)
     \<and> map ie_arrival_seq (iv_entries page) = [1]
     \<and> length (iv_entries page) \<le> 10 \<and> sorted_wrt (<) (map ie_arrival_seq (iv_entries page))"
proof -
  have a: "mailbox_authorize R ex_db2 ex_mailbox (rx_token 1) False 1500 = Inr ()" by (rule ex_authorize) (simp_all add: bt_get_def)
  have r: "active_requests R rx_registry ex_db2 ex_mailbox 1500 1500 = (ex_db2, Inr [])"
    by (simp add: active_requests_def ex_forest bs_of_list_id)
  obtain s' page where p: "replica_step R (ex_store ex_db2) (1500, In_Inventory ex_mailbox (rx_token 1) 0 10) = (s', Out_Inventory page)"
    "map ie_arrival_seq (iv_entries page) = [1]"
    by (simp add: replying_def replica_inventory_def a r ex_now ex_sweep_nothing inventory_page_def bt_contains_def bt_get_def inventory_entry_def)
  note c = inventory_complete [OF ex_run2 [symmetric] p(1)]
  show ?thesis by (intro exI [of _ s'] exI [of _ page] conjI p c [THEN conjunct1] c [THEN conjunct2, THEN conjunct1])
qed

subsection \<open>Pruning and signed requests\<close>

definition ex_prune :: "int \<times> replica_input" where "ex_prune = (3000, In_Prune ex_mailbox 2000)"

definition ex_db3 :: replica_db where
  "ex_db3 = ex_db2\<lparr>rd_pruned := [((ex_mailbox, bid 7), 3000)], rd_deliveries := [], rd_copies := [], rd_objects := []\<rparr>"

lemma ex_pruned: "replica_run R rx_new [ex_reserve, ex_post, ex_prune] = ex_store ex_db3"
proof -
  have u: "\<exists>x. space_usage ex_db2 ex_mailbox 2000 = Inr x" by (simp add: space_usage_def bt_get_def)
  then obtain x where u: "space_usage ex_db2 ex_mailbox 2000 = Inr x" ..
  have c: "prune_candidate ex_db2 ex_mailbox 2000 (bid 7)"
    by (simp add: prune_candidate_def ex_forest bt_contains_def bt_get_def)
  have t: "in_tree (ex_db2\<lparr>rd_pruned := y\<rparr>) = in_tree ex_db2" for y by (rule forest_same) simp
  have "prune_messages ex_db2 ex_mailbox 2000 3000 = Inr (ex_db3, x)"
    by (simp add: prune_messages_def ex_now u c insert_missing_def bt_contains_def bt_get_def delete_deliveries_def delete_orphans_def t
        ex_forest object_used_def Let_def) (simp add: ex_db3_def ex_db2_def empty_replica_def rx_db1_def)
  then have "fst (replica_step R (ex_store ex_db2) ex_prune) = ex_store ex_db3" by (simp add: ex_prune_def atomically_def)
  moreover have "replica_run R rx_new ([ex_reserve, ex_post] @ [ex_prune]) = fst (replica_step R (ex_store ex_db2) ex_prune)"
    unfolding run_steps_append ex_run2 by simp
  ultimately show ?thesis by simp
qed

theorem pruned_stays_pruned_witness:
  "bt_contains (rd_pruned ex_db3) (ex_mailbox, bid 7)
   \<and> snd (replica_step R (replica_run R (ex_store ex_db3) [ex_post]) (4000, In_Get ex_mailbox (rx_token 1) (bid 7))) \<noteq> Out_Bytes [1, 2, 7]"
proof -
  have c: "bt_contains (rd_pruned (rp_db (ex_store ex_db3))) (ex_mailbox, bid 7)" by (simp add: ex_db3_def bt_contains_def bt_get_def)
  have x: "\<forall>x \<in> set [ex_post]. snd x \<noteq> In_DeleteTree ex_mailbox" by (simp add: ex_post_def)
  have "replica_inv R (replica_run R (ex_store ex_db3) [ex_post])"
    unfolding ex_pruned [symmetric] by (intro rep.run_inv new_replica_inv)
  then have "ex_mailbox \<in> set (ancestors (rp_db (replica_run R (ex_store ex_db3) [ex_post])) ex_mailbox)"
    by (intro ancestors_self replica_okD(1) [where E = R]) (simp add: replica_inv_def)
  with pruned_stays_pruned [OF ex_pruned [symmetric] c x refl] c show ?thesis by (simp del: run_steps.simps)
qed

definition ex_access :: VerifiedAccess where
  "ex_access = \<lparr>va_identity = bid 1, va_credential = bid 41, va_companion = False, va_nonce = nonce16, va_expires = 5000\<rparr>"

subsection \<open>An owned message body and its locator\<close>

definition ex_actor :: Actor where "ex_actor = \<lparr>at_identity = bid 1, at_credential = bid 41\<rparr>"

lemma ex_actor_sel [simp]: "at_identity ex_actor = bid 1" "at_credential ex_actor = bid 41"
  by (simp_all add: ex_actor_def)

lemma ex_actor_authorized:
  assumes "rd_delegations db = []" "bt_contains (rd_mailboxes db) m" "rd_access_roots db = []" "rd_erased db = []" "0 \<le> clock" "clock \<le> 9007199254740991"
  shows "authorize_actor R rx_registry db m a clock = Inr ()"
  using assms
  by (simp add: authorize_actor_def Revocations_get_def rx_registry_def file_content_def ex_now access_denied_def ex_forest bt_contains_def bt_get_def)

lemma find_part_absent: "x \<notin> set b \<Longrightarrow> find_part b (x # p) = None"
proof -
  assume x: "x \<notin> set b"
  have "take (Suc n) (drop i b) \<noteq> x # p" if "i < length b" for i n
    using x that by (metis Cons_nth_drop_Suc list.inject nth_mem take_Suc_Cons)
  then show ?thesis by (auto simp: find_part_def find_None_iff)
qed

lemma ex_wrapped_bytes: "34 \<notin> set (take 101 (ex_wrapped i [x]))" if "ex_plain i" for i x
proof -
  have "take 101 (ex_wrapped i [x]) = MAGIC @ u32_to_be_bytes 77 @ ex_frame 1 5 i 11" by (simp add: ex_wrapped_def length_MAGIC)
  moreover have "(34 :: byte) \<notin> set MAGIC" by (simp add: MAGIC_def ascii_def)
  moreover have "(34 :: byte) \<notin> set (ex_frame 1 5 i 11)"
    using plain_byte [OF that] unfolding ex_frame_def ex_sign_eq by (simp add: ex_body_def ELO1_def ascii_def u32_to_be_bytes_def)
  ultimately show ?thesis by (simp add: u32_to_be_bytes_def)
qed

lemma ex_not_packed:
  assumes "ex_plain i"
  shows "pack R (ex_wrapped i [x]) \<lparr>ct_credential = cred41, ct_ciphertext = [x], ct_subjects = ss, ct_retention = r\<rparr> = None"
proof -
  have "length (ex_wrapped i [x]) = 102" by (simp add: ex_wrapped_def length_MAGIC)
  then show ?thesis
    using find_part_absent [OF ex_wrapped_bytes [OF assms, of x]] by (simp add: pack_def Let_def CREDENTIAL_FIELD_def ascii_def)
qed

definition ex_stored :: "bytes \<Rightarrow> nat \<Rightarrow> stored_object" where
  "ex_stored b t = \<lparr>so_ciphertext = b, so_stored = t, so_packed = None\<rparr>"

definition ex_delivery :: "nat \<Rightarrow> nat \<Rightarrow> delivery" where
  "ex_delivery n ob = \<lparr>dl_seq = n, dl_mailbox = ex_mailbox, dl_object = bid ob, dl_hint = Eager\<rparr>"

definition ex_locator_row :: locator_row where
  "ex_locator_row = \<lparr>lo_body = bid 9, lo_record = bid 80, lo_nonce = nonce16, lo_policy = Hours6, lo_received = 1000,
     lo_expires = Some 2592001000, lo_request_key = Some ex_request_key\<rparr>"

definition ex_body_row :: body_row where
  "ex_body_row = \<lparr>by_record = bid 80, by_nonce = nonce16, by_issuer = bid 1, by_direct_peer = None, by_policy = Hours6, by_received = 1000,
     by_expires = Some 21601000, by_expired = None, by_refill = None, by_request_key = Some ex_request_key, by_accept_key = None\<rparr>"

definition ex_db4 :: replica_db where
  "ex_db4 = rx_db1\<lparr>rd_objects := [(bid 8, ex_stored (ex_wrapped 111 [8]) 1000)], rd_owners := [(bid 8, bid 1)],
     rd_deliveries := [ex_delivery 1 8], rd_sequence := 1, rd_locators := [((ex_mailbox, bid 8), ex_locator_row)]\<rparr>"

definition ex_db5 :: replica_db where
  "ex_db5 = ex_db4\<lparr>rd_objects := [(bid 8, ex_stored (ex_wrapped 111 [8]) 1000), (bid 9, ex_stored (ex_wrapped 110 [9]) 1000)],
     rd_owners := [(bid 9, bid 1), (bid 8, bid 1)], rd_deliveries := [ex_delivery 1 8, ex_delivery 2 9], rd_sequence := 2,
     rd_bodies := [((ex_mailbox, bid 9), ex_body_row)]\<rparr>"

definition ex_message_post :: "int \<Rightarrow> nat \<Rightarrow> nat \<Rightarrow> int \<times> replica_input" where
  "ex_message_post t i ob = (t, In_Post ex_mailbox (rx_token 2) (bid ob) (ex_wrapped i [word_of_nat ob]) Eager True (Some ex_actor) (Some (replicate 16 7)))"

text \<open>An upload, given what its checks and its transaction do.\<close>

lemma ex_message_posted:
  assumes "rd_delegations db = []" "rd_mailboxes db = rd_mailboxes rx_db1" "rd_access_roots db = []" "rd_erased db = []" "rd_pruned db = []"
    and time: "t = int n" "n \<le> 9007199254740991"
    and same: "shrinks db (sweep db n)" "rd_erased db2 = []"
    and c: "inspect R (ex_wrapped i [word_of_nat ob]) = Inr (Some \<lparr>ct_credential = cred41, ct_ciphertext = [word_of_nat ob], ct_subjects = [bid 1], ct_retention = r\<rparr>)"
    and k: "classify (Some \<lparr>ct_credential = cred41, ct_ciphertext = [word_of_nat ob], ct_subjects = [bid 1], ct_retention = r\<rparr>) True = k"
      "retention_policy k = Some Hours6" "receipt_retention k = policy"
    and up: "check_upload R rx_registry (sweep db n) ex_mailbox (bid ob) k (Some (bid 1)) n t = (db2, Inr ())"
    and st: "store_upload R db2 ex_mailbox (bid ob) (ex_wrapped i [word_of_nat ob]) Eager True
        (Some \<lparr>ct_credential = cred41, ct_ciphertext = [word_of_nat ob], ct_subjects = [bid 1], ct_retention = r\<rparr>) k [bid 1] n = Inr (db3, True, q)"
    and rt: "sign R (ser_receipt R (storage_receipt_body R db3 ex_mailbox (bid ob) 102 q policy (encode_hex (replicate 16 7)))) (rd_seed db3) = Inr rec"
  shows "replica_step R (ex_store db) (ex_message_post t i ob) = (ex_store db3, Out_Posted True (rec_bytes rec))"
proof -
  let ?b = "ex_wrapped i [word_of_nat ob]"
  have l: "length ?b = 102" "?b \<noteq> []" by (simp_all add: ex_wrapped_def length_MAGIC)
  have o: "of_ciphertext R ?b = bid ob" using R_ids(4) [of "MAGIC @ u32_to_be_bytes 77 @ ex_frame 1 5 i 11" "word_of_nat ob"] by (simp add: ex_wrapped_def bid_def)
  have a: "mailbox_authorize R db ex_mailbox (rx_token 2) True t = Inr ()" by (rule ex_authorize) (simp_all add: assms(1,2) bt_get_def)
  have m: "bt_contains (rd_mailboxes db) ex_mailbox" by (simp add: assms(2) bt_contains_def bt_get_def)
  have act: "authorize_actor R rx_registry db ex_mailbox ex_actor t = Inr ()"
    by (rule ex_actor_authorized [OF assms(1) m assms(3,4)]) (simp_all add: time)
  have now: "replica_now t = Inr n" using time by (simp add: ex_now)
  have p: "check_pruned R (sweep db n) ex_mailbox (bid ob) = Inr ()"
    using same(1) assms(1,5) by (simp add: check_pruned_def shrinks_def)
  have "post_inner R (ex_store db) ex_mailbox (rx_token 2) (bid ob) ?b Eager True (Some ex_actor) t (Some (replicate 16 7)) = (db3, Inr (True, rec_bytes rec))"
    using l o c k up st rt same(2)
    by (simp add: post_inner_def a act now p upload_subjects_def random_hex_def MAX_CIPHERTEXT_def bt_contains_def bt_get_def)
  then show ?thesis by (simp add: ex_message_post_def replying_def)
qed

abbreviation ex_content :: "nat \<Rightarrow> RetentionClaim option \<Rightarrow> Content" where
  "ex_content ob r \<equiv> \<lparr>ct_credential = cred41, ct_ciphertext = [word_of_nat ob], ct_subjects = [bid 1], ct_retention = r\<rparr>"

abbreviation ex_locator_kind :: UploadRetention where
  "ex_locator_kind \<equiv> UR_Locator nonce16 (bid 9) (bid 80) Hours6 (bid 1) ex_request_key"

abbreviation ex_body_kind :: UploadRetention where
  "ex_body_kind \<equiv> UR_Body nonce16 (bid 80) Hours6 (bid 1) None ex_request_key None"

lemma ex_kinds:
  "classify (Some (ex_content 8 (ow_retention ex_locator_claim))) True = ex_locator_kind"
  "classify (Some (ex_content 9 (ow_retention ex_body_claim))) True = ex_body_kind"
  by (simp_all add: classify_def ex_locator_claim_def ex_body_claim_def device_facts)

lemma ex_request_key_nonempty: "ex_request_key \<noteq> []"
proof -
  have "length ex_request_key = 64" by (simp add: ex_request_key_def)
  then show ?thesis by auto
qed

lemma ex_wrapped_id: "of_ciphertext R (ex_wrapped i [x]) = replicate 32 x" "length (ex_wrapped i [x]) = 102"
  using R_ids(4) [of "MAGIC @ u32_to_be_bytes 77 @ ex_frame 1 5 i 11" x] by (simp_all add: ex_wrapped_def length_MAGIC)

lemma ex_store_locator:
  "store_upload R rx_db1 ex_mailbox (bid 8) (ex_wrapped 111 [8]) Eager True (Some (ex_content 8 (ow_retention ex_locator_claim))) ex_locator_kind [bid 1] 1000
     = Inr (ex_db4, True, 1)"
proof -
  have p: "pack R (ex_wrapped 111 [8]) (ex_content 8 (ow_retention ex_locator_claim)) = None"
    using ex_not_packed [of 111 8] by (simp add: ex_plain_def)
  have b: "upload_budget rx_db1 ex_mailbox METADATA_BYTES 102 ex_mailbox = Inr ()"
    by (simp add: upload_budget_def bt_get_def retained_usage_def metadata_usage_def METADATA_BYTES_def)
  have i: "replicate 32 8 = bid 8" by (simp add: bid_def)
  have e: "saturating_add 1000 LOCATOR_LIFETIME_MS = 2592001000" by (simp add: saturating_add_def LOCATOR_LIFETIME_MS_def U64_MAX_def)
  show ?thesis
    using p b
    by (simp add: store_upload_def ex_forest find_delivery_def metadata_delta_def packing_insert_def bt_contains_def bt_get_def
        packing_load_def unpack_def wire_size_def ex_wrapped_id i insert_delivery_def record_upload_def MAX_INTEGER_def locator_clash_def e
        ex_db4_def ex_stored_def ex_delivery_def ex_locator_row_def Let_def)
qed

lemma ex_locator_posted:
  "replica_step R (ex_store rx_db1) (ex_message_post 1000 111 8) = (ex_store ex_db4, Out_Posted True (ex_frame 1 5 121 40))"
proof -
  have c: "check_upload R rx_registry (sweep rx_db1 1000) ex_mailbox (bid 8) ex_locator_kind (Some (bid 1)) 1000 1000 = (rx_db1, Inr ())"
    by (simp add: check_upload_def ex_forest ex_sweep_nothing ex_request_key_nonempty)
  have r: "sign R (ser_receipt R (storage_receipt_body R ex_db4 ex_mailbox (bid 8) 102 1 ''message-locator-30d'' (encode_hex (replicate 16 7)))) (rd_seed ex_db4)
      = Inr (ex_record 1 5 121 40)"
    by (rule rx_receipt) (simp_all add: rx_receipts_def ex_db4_def bt_get_def ex_stored_def)
  have "replica_step R (ex_store rx_db1) (ex_message_post 1000 111 8) = (ex_store ex_db4, Out_Posted True (rec_bytes (ex_record 1 5 121 40)))"
    by (rule ex_message_posted [where n = 1000 and r = "ow_retention ex_locator_claim" and k = ex_locator_kind and ?db2.0 = rx_db1 and policy = "''message-locator-30d''" and q = 1])
      (use R_inspect_messages(2) ex_kinds(1) ex_store_locator c r in
        \<open>simp_all add: ex_sweep_nothing retention_policy_def receipt_retention_def\<close>)
  then show ?thesis by (simp add: W_record)
qed

lemma ex_db4_sel [simp]:
  "rd_delegations ex_db4 = []" "rd_mailboxes ex_db4 = rd_mailboxes rx_db1" "rd_bodies ex_db4 = []" "rd_requests ex_db4 = []"
  "rd_acceptances ex_db4 = []" "rd_pruned ex_db4 = []" "rd_erased ex_db4 = []" "rd_access_roots ex_db4 = []"
  "rd_locators ex_db4 = [((ex_mailbox, bid 8), ex_locator_row)]" "rd_owners ex_db4 = [(bid 8, bid 1)]" "rd_complete ex_db4"
  "rd_objects ex_db4 = [(bid 8, ex_stored (ex_wrapped 111 [8]) 1000)]" "rd_deliveries ex_db4 = [ex_delivery 1 8]" "rd_sequence ex_db4 = 1"
  by (simp_all add: ex_db4_def)

lemma ex_delivery_sel [simp]:
  "dl_seq (ex_delivery n ob) = n" "dl_mailbox (ex_delivery n ob) = ex_mailbox" "dl_object (ex_delivery n ob) = bid ob"
  by (simp_all add: ex_delivery_def)

lemma ex_sweep_settled:
  assumes "list_all (\<lambda>e. \<not> body_due t (snd e)) (rd_bodies db)" "list_all (\<lambda>e. \<not> locator_due t (snd e)) (rd_locators db)"
    "list_all (\<lambda>e. \<not> rq_proof_expires (snd e) \<le> t) (rd_requests db)" "rd_acceptances db = []"
  shows "sweep db t = db"
proof -
  have "filter (\<lambda>(k, r). body_due t r) (rd_bodies db) = []" "filter (\<lambda>(k, r). locator_due t r) (rd_locators db) = []"
    "filter (\<lambda>(k, r). \<not> rq_proof_expires r \<le> t) (rd_requests db) = rd_requests db"
    using assms(1-3) by (auto simp: filter_empty_conv list_all_iff filter_id_conv)
  then show ?thesis by (simp add: sweep_def sweep_bodies_def sweep_locators_def assms(4) Let_def)
qed

lemma ex_store_body:
  "store_upload R ex_db4 ex_mailbox (bid 9) (ex_wrapped 110 [9]) Eager True (Some (ex_content 9 (ow_retention ex_body_claim))) ex_body_kind [bid 1] 1000
     = Inr (ex_db5, True, 2)"
proof -
  have p: "pack R (ex_wrapped 110 [9]) (ex_content 9 (ow_retention ex_body_claim)) = None"
    using ex_not_packed [of 110 9] by (simp add: ex_plain_def)
  have b: "upload_budget ex_db4 ex_mailbox METADATA_BYTES 102 ex_mailbox = Inr ()"
    by (simp add: upload_budget_def bt_get_def retained_usage_def metadata_usage_def METADATA_BYTES_def delivery_size_def ex_stored_def
        wire_size_def ex_forest ex_wrapped_id)
  have i: "replicate 32 9 = bid 9" by (simp add: bid_def)
  have e: "saturating_add 1000 21600000 = 21601000" by (simp add: saturating_add_def U64_MAX_def)
  show ?thesis
    using p b
    by (simp add: store_upload_def ex_forest find_delivery_def metadata_delta_def packing_insert_def bt_contains_def bt_get_def
        packing_load_def unpack_def wire_size_def ex_wrapped_id i insert_delivery_def record_upload_def record_body_def body_clash_def MAX_INTEGER_def e
        Let_def)
      (simp add: ex_db5_def ex_stored_def ex_delivery_def ex_body_row_def ex_db4_def)
qed

lemma ex_body_posted:
  "replica_step R (ex_store ex_db4) (ex_message_post 1000 110 9) = (ex_store ex_db5, Out_Posted True (ex_frame 1 5 122 40))"
proof -
  have s: "sweep ex_db4 1000 = ex_db4" by (rule ex_sweep_settled) (simp_all add: locator_due_def ex_locator_row_def)
  have c: "check_upload R rx_registry (sweep ex_db4 1000) ex_mailbox (bid 9) ex_body_kind (Some (bid 1)) 1000 1000 = (ex_db4, Inr ())"
    by (simp add: s check_upload_def ex_forest ex_request_key_nonempty locator_for_def bt_get_def ex_locator_row_def)
  have r: "sign R (ser_receipt R (storage_receipt_body R ex_db5 ex_mailbox (bid 9) 102 2 ''message-body-ttl'' (encode_hex (replicate 16 7)))) (rd_seed ex_db5)
      = Inr (ex_record 1 5 122 40)"
    by (rule rx_receipt) (simp_all add: rx_receipts_def ex_db5_def bt_get_def ex_stored_def, simp_all add: ex_db4_def)
  have "replica_step R (ex_store ex_db4) (ex_message_post 1000 110 9) = (ex_store ex_db5, Out_Posted True (rec_bytes (ex_record 1 5 122 40)))"
    by (rule ex_message_posted [where n = 1000 and r = "ow_retention ex_body_claim" and k = ex_body_kind and ?db2.0 = ex_db4 and policy = "''message-body-ttl''" and q = 2])
      (use R_inspect_messages(1) ex_kinds(2) ex_store_body c r in
        \<open>simp_all add: s retention_policy_def receipt_retention_def\<close>)
  then show ?thesis by (simp add: W_record)
qed

lemma ex_run5: "replica_run R rx_new [ex_reserve, ex_message_post 1000 111 8, ex_message_post 1000 110 9] = ex_store ex_db5"
proof -
  have "replica_run R rx_new ([ex_reserve] @ [ex_message_post 1000 111 8, ex_message_post 1000 110 9]) = ex_store ex_db5"
    unfolding run_steps_append ex_reserved by (simp add: ex_locator_posted ex_body_posted)
  then show ?thesis by simp
qed

lemma ex_db5_sel [simp]:
  "rd_delegations ex_db5 = []" "rd_mailboxes ex_db5 = rd_mailboxes rx_db1" "rd_bodies ex_db5 = [((ex_mailbox, bid 9), ex_body_row)]" "rd_requests ex_db5 = []"
  "rd_acceptances ex_db5 = []" "rd_pruned ex_db5 = []" "rd_erased ex_db5 = []" "rd_access_roots ex_db5 = []" "rd_access_members ex_db5 = []"
  "rd_locators ex_db5 = [((ex_mailbox, bid 8), ex_locator_row)]" "rd_owners ex_db5 = [(bid 9, bid 1), (bid 8, bid 1)]" "rd_complete ex_db5"
  "rd_deliveries ex_db5 = [ex_delivery 1 8, ex_delivery 2 9]" "rd_sequence ex_db5 = 2" "rd_seed ex_db5 = bid 40"
  "rd_objects ex_db5 = [(bid 8, ex_stored (ex_wrapped 111 [8]) 1000), (bid 9, ex_stored (ex_wrapped 110 [9]) 1000)]"
  by (simp_all add: ex_db5_def) (simp_all add: ex_db4_def)


theorem erased_stays_erased_witness:
  "\<exists>s1. replica_step R (ex_store ex_db5) (2000, In_Erase ex_mailbox (bid 1)) = (s1, Out_Erased 2)
     \<and> snd (replica_step R (replica_run R s1 [ex_reserve]) (ex_message_post 3000 110 9)) \<noteq> Out_Posted True (ex_frame 1 5 122 40)"
proof -
  have r: "root_mailboxes ex_db5 = [ex_mailbox]" by (simp add: root_mailboxes_def bt_get_def)
  obtain s1 where s1: "replica_step R (ex_store ex_db5) (2000, In_Erase ex_mailbox (bid 1)) = (s1, Out_Erased 2)"
    by (simp add: atomically_def erase_account_content_def r ex_now Let_def numeral_2_eq_2)
  have x: "\<forall>x \<in> set [ex_reserve]. snd x \<noteq> In_DeleteTree ex_mailbox" by (simp add: ex_reserve_def)
  note e = erased_stays_erased [OF ex_run5 [symmetric] s1 x refl, THEN conjunct2, THEN conjunct2, THEN conjunct1]
  have "snd (replica_step R (replica_run R s1 [ex_reserve]) (ex_message_post 3000 110 9)) \<noteq> Out_Posted True (ex_frame 1 5 122 40)"
    unfolding ex_message_post_def using e by fastforce
  with s1 show ?thesis by blast
qed

subsection \<open>A body is asked for and sent again\<close>

definition ex_requester :: Actor where "ex_requester = \<lparr>at_identity = bid 2, at_credential = bid 44\<rparr>"

definition ex_request_proof :: Proof where
  "ex_request_proof = \<lparr>pf_expires_ms = 22000000, pf_nonce = nonce16, pf_signature = encode_hex (ex_sign (bid 30) [])\<rparr>"

definition ex_expired_row :: body_row where
  "ex_expired_row = ex_body_row\<lparr>by_expired := Some 21700000\<rparr>"

definition ex_request_row :: request_row where
  "ex_request_row = \<lparr>rq_record = bid 80, rq_requested = 21700000, rq_expires = 22000000, rq_credential = bid 44, rq_nonce = nonce16,
     rq_proof_expires = 22000000\<rparr>"

definition ex_swept :: replica_db where
  "ex_swept = ex_db5\<lparr>rd_deliveries := [ex_delivery 1 8], rd_objects := [(bid 8, ex_stored (ex_wrapped 111 [8]) 1000)],
     rd_owners := [(bid 8, bid 1)], rd_bodies := [((ex_mailbox, bid 9), ex_expired_row)]\<rparr>"

definition ex_db6 :: replica_db where
  "ex_db6 = ex_swept\<lparr>rd_requests := [((ex_mailbox, bid 9, bid 2), ex_request_row)]\<rparr>"

definition rx_request :: "int \<times> replica_input" where
  "rx_request = (21700000, In_Request ex_mailbox ex_requester (bid 9) (bid 80) ex_request_proof)"

lemma ex_sweep_expired: "sweep ex_db5 21700000 = ex_swept"
proof -
  have d: "body_due 21700000 ex_body_row" "\<not> locator_due 21700000 ex_locator_row"
    by (simp_all add: body_due_def ex_body_row_def locator_due_def ex_locator_row_def)
  have "remove_body ex_db5 ex_mailbox (bid 9) 21700000 = ex_swept"
    by (simp add: remove_body_def delete_deliveries_def delete_orphans_def ex_forest bt_modify_def object_used_def Let_def object_credential_def ex_stored_def)
      (simp add: ex_swept_def ex_expired_row_def expire_row_def ex_body_row_def ex_db5_def ex_db4_def ex_stored_def)
  then show ?thesis
    by (simp add: sweep_def sweep_bodies_def sweep_locators_def d Let_def) (simp add: ex_swept_def d)
qed

lemma ex_swept_sel [simp]:
  "rd_delegations ex_swept = []" "rd_mailboxes ex_swept = rd_mailboxes rx_db1" "rd_bodies ex_swept = [((ex_mailbox, bid 9), ex_expired_row)]"
  "rd_requests ex_swept = []" "rd_acceptances ex_swept = []" "rd_pruned ex_swept = []" "rd_erased ex_swept = []" "rd_access_roots ex_swept = []"
  "rd_locators ex_swept = [((ex_mailbox, bid 8), ex_locator_row)]" "rd_owners ex_swept = [(bid 8, bid 1)]" "rd_complete ex_swept"
  "rd_deliveries ex_swept = [ex_delivery 1 8]" "rd_sequence ex_swept = 2" "rd_seed ex_swept = bid 40"
  "rd_objects ex_swept = [(bid 8, ex_stored (ex_wrapped 111 [8]) 1000)]"
  by (simp_all add: ex_swept_def)

lemma ex_rows_sel [simp]:
  "by_record ex_expired_row = bid 80" "by_nonce ex_expired_row = nonce16" "by_issuer ex_expired_row = bid 1" "by_direct_peer ex_expired_row = None"
  "by_policy ex_expired_row = Hours6" "by_received ex_expired_row = 1000" "by_expired ex_expired_row = Some 21700000"
  "by_request_key ex_expired_row = Some ex_request_key" "rq_expires ex_request_row = 22000000" "rq_credential ex_request_row = bid 44"
  "rq_proof_expires ex_request_row = 22000000"
  by (simp_all add: ex_expired_row_def ex_body_row_def ex_request_row_def)

lemma ex_requested: "replica_step R (ex_store ex_db5) rx_request = (ex_store ex_db6, Out_Done)"
proof -
  have m: "bt_contains (rd_mailboxes ex_db5) ex_mailbox" by (simp add: bt_contains_def bt_get_def)
  have a: "authorize_actor R rx_registry ex_db5 ex_mailbox ex_requester 21700000 = Inr ()"
    by (rule ex_actor_authorized [OF _ m]) simp_all
  have b: "requested_body ex_swept ex_mailbox (bid 9) (bid 80) 21700000 = Some (ex_request_key, True)"
    by (simp add: requested_body_def bt_get_def ex_locator_row_def)
  have v: "Proof_verify R ex_request_proof ex_request_key cx 21700000 = Inr ()" for cx
    by (simp add: Proof_verify_def ex_request_proof_def ex_request_key_def saturating_add_def WINDOW_MS_def U64_MAX_def verifying_key_def R_fields hex_def
        nonce16_def)
  have w: "valid_window R rx_registry ex_swept ex_mailbox ex_mailbox (bid 9) 21700000 21700000 = (ex_swept, Inr None)"
    by (simp add: valid_window_def)
  have q: "ensure_metadata_room ex_swept ex_mailbox METADATA_BYTES = Inr ()"
    by (simp add: ensure_metadata_room_def bt_get_def retained_usage_def metadata_usage_def METADATA_BYTES_def delivery_size_def ex_stored_def
        wire_size_def ex_forest ex_wrapped_id)
  have "request_message R (ex_store ex_db5) ex_mailbox ex_requester (bid 9) (bid 80) ex_request_proof 21700000 = (ex_db6, Inr ())"
    using b v w q
    by (simp add: request_message_def a ex_now ex_sweep_expired ex_forest bt_get_def Let_def)
      (simp add: ex_db6_def ex_request_row_def ex_requester_def ex_request_proof_def saturating_add_def REQUEST_LIFETIME_MS_def U64_MAX_def)
  then show ?thesis by (simp add: rx_request_def replying_def)
qed

definition ex_refilled_row :: body_row where
  "ex_refilled_row = ex_body_row\<lparr>by_expires := Some 22000000, by_expired := None, by_refill := Some 22000000\<rparr>"

definition ex_db7 :: replica_db where
  "ex_db7 = ex_db6\<lparr>rd_objects := [(bid 8, ex_stored (ex_wrapped 111 [8]) 1000), (bid 9, ex_stored (ex_wrapped 110 [9]) 21701000)],
     rd_owners := [(bid 9, bid 1), (bid 8, bid 1)], rd_deliveries := [ex_delivery 1 8, ex_delivery 3 9], rd_sequence := 3,
     rd_bodies := [((ex_mailbox, bid 9), ex_refilled_row)]\<rparr>"

lemma ex_db6_sel [simp]:
  "rd_delegations ex_db6 = []" "rd_mailboxes ex_db6 = rd_mailboxes rx_db1" "rd_bodies ex_db6 = [((ex_mailbox, bid 9), ex_expired_row)]"
  "rd_requests ex_db6 = [((ex_mailbox, bid 9, bid 2), ex_request_row)]" "rd_acceptances ex_db6 = []" "rd_pruned ex_db6 = []"
  "rd_erased ex_db6 = []" "rd_access_roots ex_db6 = []" "rd_locators ex_db6 = [((ex_mailbox, bid 8), ex_locator_row)]"
  "rd_owners ex_db6 = [(bid 8, bid 1)]" "rd_complete ex_db6" "rd_deliveries ex_db6 = [ex_delivery 1 8]" "rd_sequence ex_db6 = 2"
  "rd_objects ex_db6 = [(bid 8, ex_stored (ex_wrapped 111 [8]) 1000)]" "rd_seed ex_db6 = bid 40"
  by (simp_all add: ex_db6_def)

lemma ex_sweep_refill: "sweep ex_db6 21701000 = ex_db6"
  by (rule ex_sweep_settled) (simp_all add: locator_due_def ex_locator_row_def body_due_def)

lemma ex_store_refill:
  "store_upload R ex_db6 ex_mailbox (bid 9) (ex_wrapped 110 [9]) Eager True (Some (ex_content 9 (ow_retention ex_body_claim))) ex_body_kind [bid 1] 21701000
     = Inr (ex_db7, True, 3)"
proof -
  have p: "pack R (ex_wrapped 110 [9]) (ex_content 9 (ow_retention ex_body_claim)) = None"
    using ex_not_packed [of 110 9] by (simp add: ex_plain_def)
  have b: "upload_budget ex_db6 ex_mailbox 0 102 ex_mailbox = Inr ()"
    by (simp add: upload_budget_def bt_get_def retained_usage_def metadata_usage_def METADATA_BYTES_def delivery_size_def ex_stored_def
        wire_size_def ex_forest ex_wrapped_id)
  have i: "replicate 32 9 = bid 9" by (simp add: bid_def)
  show ?thesis
    using p b
    by (simp add: store_upload_def ex_forest find_delivery_def metadata_delta_def packing_insert_def bt_contains_def bt_get_def
        packing_load_def unpack_def wire_size_def ex_wrapped_id i insert_delivery_def record_upload_def record_body_def latest_window_def MAX_INTEGER_def
        Let_def)
      (simp add: ex_db7_def ex_stored_def ex_delivery_def ex_refilled_row_def ex_expired_row_def ex_body_row_def ex_db6_def)
qed

lemma ex_refilled:
  "replica_step R (ex_store ex_db6) (ex_message_post 21701000 110 9) = (ex_store ex_db7, Out_Posted True (ex_frame 1 5 124 40))"
proof -
  have m: "bt_contains (rd_mailboxes ex_db6) ex_mailbox" by (simp add: bt_contains_def bt_get_def)
  have a: "authorize_actor R rx_registry ex_db6 ex_mailbox x 21701000 = Inr ()" for x
    by (rule ex_actor_authorized [OF _ m]) simp_all
  have c: "check_upload R rx_registry (sweep ex_db6 21701000) ex_mailbox (bid 9) ex_body_kind (Some (bid 1)) 21701000 21701000 = (ex_db6, Inr ())"
    by (simp add: ex_sweep_refill check_upload_def ex_forest ex_request_key_nonempty bt_get_def valid_window_def a)
  have r: "sign R (ser_receipt R (storage_receipt_body R ex_db7 ex_mailbox (bid 9) 102 3 ''message-body-ttl'' (encode_hex (replicate 16 7)))) (rd_seed ex_db7)
      = Inr (ex_record 1 5 124 40)"
    by (rule rx_receipt) (simp_all add: rx_receipts_def ex_db7_def bt_get_def ex_stored_def, simp_all add: ex_db6_def ex_swept_def ex_db5_def ex_db4_def)
  have "replica_step R (ex_store ex_db6) (ex_message_post 21701000 110 9) = (ex_store ex_db7, Out_Posted True (rec_bytes (ex_record 1 5 124 40)))"
    by (rule ex_message_posted [where n = 21701000 and r = "ow_retention ex_body_claim" and k = ex_body_kind and ?db2.0 = ex_db6 and policy = "''message-body-ttl''" and q = 3])
      (use R_inspect_messages(1) ex_kinds(2) ex_store_refill c r in
        \<open>simp_all add: ex_sweep_refill retention_policy_def receipt_retention_def\<close>)
  then show ?thesis by (simp add: W_record)
qed

lemma ex_run6: "replica_run R rx_new [ex_reserve, ex_message_post 1000 111 8, ex_message_post 1000 110 9, rx_request] = ex_store ex_db6"
proof -
  have "replica_run R rx_new ([ex_reserve, ex_message_post 1000 111 8, ex_message_post 1000 110 9] @ [rx_request]) = ex_store ex_db6"
    unfolding run_steps_append ex_run5 by (simp add: ex_requested)
  then show ?thesis by simp
qed

theorem refill_needs_request_witness:
  "replica_step R (ex_store ex_db6) (ex_message_post 21701000 110 9) = (ex_store ex_db7, Out_Posted True (ex_frame 1 5 124 40))
   \<and> (\<exists>i r row'. bt_get (rd_requests ex_db6) (ex_mailbox, bid 9, i) = Some r \<and> 21701000 < rq_expires r
        \<and> \<not> bt_contains (rd_erased ex_db6) i
        \<and> bt_get (rd_bodies ex_db7) (ex_mailbox, bid 9) = Some row' \<and> by_refill row' = Some (rq_expires r))"
proof -
  have n: "replica_now 21701000 = Inr 21701000" by (simp add: ex_now)
  have d: "ex_db6 = sweep (rp_db (ex_store ex_db6)) 21701000" by (simp add: ex_sweep_refill)
  have i: "inspect R (ex_wrapped 110 [word_of_nat 9]) = Inr (Some (ex_content 9 (ow_retention ex_body_claim)))" using R_inspect_messages(1) by simp
  have b: "bt_get (rd_bodies ex_db6) (root_of ex_db6 ex_mailbox, bid 9) = Some ex_expired_row" by (simp add: bt_get_def ex_forest)
  have e: "by_expired ex_expired_row \<noteq> None" by simp
  have rt: "root_of ex_db6 ex_mailbox = ex_mailbox" by (simp add: ex_forest)
  from refill_needs_request [OF ex_run6 [symmetric] ex_refilled [unfolded ex_message_post_def] i ex_kinds(2) n d b e]
  obtain j r row' where "bt_get (rd_requests ex_db6) (ex_mailbox, bid 9, j) = Some r" "21701000 < rq_expires r" "\<not> bt_contains (rd_erased ex_db6) j"
    "bt_get (rd_bodies ex_db7) (ex_mailbox, bid 9) = Some row'" "by_refill row' = Some (rq_expires r)"
    unfolding rt ex_store_sel by blast
  with ex_refilled show ?thesis by blast
qed

subsection \<open>Wrapping\<close>

lemma R_content_codec: "content_codec R"
proof -
  have s: "ser_claim R c = (if c = ex_body_claim then ex_body 1 5 110 else if c = ex_locator_claim then ex_body 1 5 111 else [])" for c
    by (simp add: R_def replica_ext.defs)
  have n: "strict_json R [] m \<noteq> Inr j" for m j by (simp add: strict_json_def)
  have o: "strict_json R (ex_body 1 5 i) MAX_RECORD = Inr (ex_object 1 5 i)" if "ex_plain i" for i
    unfolding R_records by (rule W_strict_json) (use that in \<open>simp_all add: ex_plain_def MAX_RECORD_def\<close>)
  have "ex_body_claim \<noteq> ex_locator_claim" by (simp add: ex_body_claim_def ex_locator_claim_def)
  then have "dec_claim R j = Some c" if "strict_json R (ser_claim R c) MAX_RECORD = Inr j" for c j
    using that n o [of 110] o [of 111] by (auto simp: s R_fields by_index_object ex_plain_def split: if_splits)
  moreover have "json_index j ''root_public_key'' = String (dc_root_public_key b)" if "dec_credential R j = Some b" for j b
    using that by (auto simp: R_fields ex_claimed_def bind_eq_Some_conv split: if_splits)
  ultimately show ?thesis by (simp add: content_codec_def)
qed

theorem wrap_inspect_witness:
  "wrap_subjects_with_retention R [9] cred41 (bid 11) [] (ow_retention ex_body_claim) = Inr (ex_wrapped 110 [9])
   \<and> (\<exists>ss. inspect R (ex_wrapped 110 [9]) = Inr (Some \<lparr>ct_credential = cred41, ct_ciphertext = [9], ct_subjects = ss,
        ct_retention = ow_retention ex_body_claim\<rparr>) \<and> sorted_wrt (<) ss \<and> set ss = {bid 1})"
proof -
  have b: "base64_correct R" by (simp add: base64_correct_def R_fields ex_decode_encode)
  have c: "ser_claim R \<lparr>ow_v = 1, ow_kind = ''object.owner'', ow_credential = ex_text 1 1 41 1, ow_ciphertext = bid 9, ow_subjects = [bid 1],
      ow_retention = ow_retention ex_body_claim\<rparr> = ex_body 1 5 110"
    by (simp add: R_def replica_ext.defs ex_body_claim_def)
  have s: "sign R (ex_body 1 5 110) (bid 11) = Inr (ex_record 1 5 110 11)" unfolding R_records by (rule W_sign) (simp_all add: example_simps)
  have m: "\<not> starts_with [9] MAGIC" by (simp add: starts_with_def length_MAGIC) (simp add: MAGIC_def ascii_def)
  have i: "of_ciphertext R [9] = bid 9" by (simp add: R_ids bid_def)
  have t: "b64_encode R (ex_frame 1 1 41 1) = ex_text 1 1 41 1" by (simp add: R_fields ex_encode_frame)
  have w: "wrap_subjects_with_retention R [9] cred41 (bid 11) [] (ow_retention ex_body_claim) = Inr (ex_wrapped 110 [9])"
    by (simp add: wrap_subjects_with_retention_def device_facts R_fields(5) m i t W_record c s MAX_PROOF_def MAX_CIPHERTEXT_def length_MAGIC ex_wrapped_def Let_def)
  have k: "ed_key_valid R (bid 1)" by (simp add: R_fields)
  have v: "valid_retention R (ow_retention ex_body_claim) (identity cred41) [identity cred41]" using R_claims_valid(1) by (simp add: device_facts)
  from wrap_inspect [OF R_signing b R_content_codec R_verify k w _ v] w show ?thesis by (simp add: device_facts)
qed

end
