(* ===== verification/Replica_Access.thy ===== *)
theory Replica_Access
  imports Replica_Store
begin

text \<open>
  \<^verbatim>\<open>crates/elo-core/src/sync/access.rs\<close> with \<^verbatim>\<open>sync/endpoint.rs\<close>: how a request to a replica names
  the account it comes from. A device signs the origin, the replica, the method, the path, the body and
  the headers of one request under a nonce; for the pairing of a new device it may certify a temporary
  key for the objects and the inventory of one mailbox. The replica verifies both before it looks at
  the request. Unchecked additions of the source are of two or ten minutes to a time of the clock or of
  a record, whose numbers are at most \<open>MAX_INTEGER\<close>.
\<close>

definition REQUEST_WINDOW :: nat where "REQUEST_WINDOW = 120000"
definition GRANT_WINDOW :: nat where "GRANT_WINDOW = 600000"

subsection \<open>Paths\<close>

definition strip_prefix :: "string \<Rightarrow> string \<Rightarrow> string option" where
  "strip_prefix s p = (if take (length p) s = p then Some (drop (length p) s) else None)"

lemma strip_prefix_iff: "strip_prefix s p = Some r \<longleftrightarrow> s = p @ r"
  by (auto simp: strip_prefix_def) (metis append_take_drop_id)

definition strip_suffix :: "string \<Rightarrow> string \<Rightarrow> string option" where
  "strip_suffix s p = (if length p \<le> length s \<and> drop (length s - length p) s = p then Some (take (length s - length p) s) else None)"

text \<open>\<^verbatim>\<open>str::split_once\<close>, at the first occurrence.\<close>

fun split_once :: "string \<Rightarrow> string \<Rightarrow> (string \<times> string) option" where
  "split_once [] p = (if p = [] then Some ([], []) else None)"
| "split_once (c # s) p =
     (case strip_prefix (c # s) p of
        Some rest \<Rightarrow> Some ([], rest)
      | None \<Rightarrow> map_option (\<lambda>(a, b). (c # a, b)) (split_once s p))"

definition to_ascii_lowercase :: "string \<Rightarrow> string" where
  "to_ascii_lowercase = map (\<lambda>c. if 65 \<le> (of_char c :: nat) \<and> (of_char c :: nat) \<le> 90 then char_of (of_char c + 32 :: nat) else c)"

definition reservation :: "string \<Rightarrow> string option" where
  "reservation path =
     Option.bind (strip_prefix path ''/spaces/'') (\<lambda>r.
     Option.bind (strip_suffix r ''/replica/'') (\<lambda>i.
     Option.bind (ok (hex 32 i)) (\<lambda>_.
     if i = to_ascii_lowercase i then Some i else None)))"

definition valid_base :: "string \<Rightarrow> bool" where
  "valid_base path \<longleftrightarrow> path = ''/'' \<or> reservation path \<noteq> None"

text \<open>The part of a path after the namespace of a space, or nothing if the namespace is malformed.\<close>

definition relative_path :: "string \<Rightarrow> string option" where
  "relative_path path =
     (case strip_prefix path ''/spaces/'' of
        Some rest \<Rightarrow>
          (let (i, relative) = (case split_once rest ''/replica/'' of None \<Rightarrow> ([], []) | Some p \<Rightarrow> p) in
           if reservation (''/spaces/'' @ i @ ''/replica/'') = None then None else Some relative)
      | None \<Rightarrow> Some (case strip_prefix path ''/'' of None \<Rightarrow> [] | Some r \<Rightarrow> r))"

definition mailbox_prefix :: "string \<Rightarrow> bool" where
  "mailbox_prefix path =
     (case relative_path path of
        None \<Rightarrow> False
      | Some relative \<Rightarrow>
          (case Option.bind (strip_prefix relative ''v1/mailboxes/'') (\<lambda>r. strip_suffix r ''/'') of
             None \<Rightarrow> False | Some m \<Rightarrow> is_ok (hex 32 m)))"

subsection \<open>Signed requests\<close>

record AccessProof =
  ap_credential :: string
  ap_record :: string
  ap_grant :: "string option"

record Grant =
  gt_v :: nat
  gt_kind :: string
  gt_origin :: string
  gt_replica :: string
  gt_prefix :: string
  gt_key :: string
  gt_issued :: nat
  gt_expires :: nat
  gt_nonce :: string

record Pairing =
  dn_credential :: string
  dn_grant :: string
  dn_seed :: string

record Access =
  as_v :: nat
  as_kind :: string
  as_origin :: string
  as_replica :: string
  as_method :: string
  as_path :: string
  as_body_hash :: string
  as_transfer :: string
  as_retention :: string
  as_issued :: nat
  as_nonce :: string

record RequestContext =
  rc_origin :: string
  rc_replica :: bytes
  rc_method :: string
  rc_path :: string
  rc_body :: bytes
  rc_transfer :: string
  rc_retention :: string

record Signer =
  sg_actor :: Actor
  sg_key :: bytes
  sg_credential :: string

text \<open>The serde derives: two texts that travel as JSON, and the bodies of two signed records.\<close>

record access_ext = replica_ext +
  ser_access_proof :: "AccessProof \<Rightarrow> bytes"
  dec_access_proof :: "bytes \<Rightarrow> AccessProof option"
  ser_pairing :: "Pairing \<Rightarrow> bytes"
  dec_pairing :: "bytes \<Rightarrow> Pairing option"
  ser_pairing_grant :: "Grant \<Rightarrow> bytes"
  dec_pairing_grant :: "json \<Rightarrow> Grant option"
  ser_access_request :: "Access \<Rightarrow> bytes"
  dec_access_request :: "json \<Rightarrow> Access option"

text \<open>Every failure of this module is the same value.\<close>

definition access_time :: "int \<Rightarrow> unit + nat" where
  "access_time clock = (if clock < 0 then Inl () else Inr (nat clock))"

definition decode_record :: "('z replica_ext_scheme) \<Rightarrow> string \<Rightarrow> unit + SignedRecord" where
  "decode_record E value =
     bindr (ok_or (b64url_decode E value) ()) (\<lambda>b. map_err (\<lambda>_. ()) (parse E b))"

definition access_sign ::
  "('z access_ext_scheme) \<Rightarrow> int \<Rightarrow> bytes option \<Rightarrow> bytes \<Rightarrow> string \<Rightarrow> string option \<Rightarrow> RequestContext \<Rightarrow> unit + string" where
  "access_sign E clock rnd key credential grant cx =
     bindr (access_time clock) (\<lambda>issued.
     bindr (map_err (\<lambda>_. ()) (random_hex rnd)) (\<lambda>nonce.
     bindr (map_err (\<lambda>_. ()) (sign E (ser_access_request E
        \<lparr>as_v = 1, as_kind = ''replica.access.v2'', as_origin = rc_origin cx, as_replica = encode_hex (rc_replica cx),
         as_method = rc_method cx, as_path = rc_path cx, as_body_hash = encode_hex (sha256 E (rc_body cx)),
         as_transfer = rc_transfer cx, as_retention = rc_retention cx, as_issued = issued, as_nonce = nonce\<rparr>) key)) (\<lambda>signed.
     Inr (b64url_encode E (ser_access_proof E
        \<lparr>ap_credential = credential, ap_record = b64url_encode E (rec_bytes signed), ap_grant = grant\<rparr>)))))"

definition Signer_new :: "('z replica_ext_scheme) \<Rightarrow> VerifiedCredential \<Rightarrow> bytes \<Rightarrow> Signer" where
  "Signer_new E credential key =
     \<lparr>sg_actor = actor_of E credential, sg_key = key, sg_credential = b64url_encode E (rec_bytes (vc_record credential))\<rparr>"

definition Signer_proof ::
  "('z access_ext_scheme) \<Rightarrow> int \<Rightarrow> bytes option \<Rightarrow> Signer \<Rightarrow> RequestContext \<Rightarrow> unit + string" where
  "Signer_proof E clock rnd signer cx = access_sign E clock rnd (sg_key signer) (sg_credential signer) None cx"

definition Signer_delegate ::
  "('z access_ext_scheme) \<Rightarrow> int \<Rightarrow> bytes option \<Rightarrow> bytes option \<Rightarrow> Signer \<Rightarrow> string \<Rightarrow> bytes \<Rightarrow> string \<Rightarrow> unit + string" where
  "Signer_delegate E clock fresh rnd signer origin replica prefix =
     (if \<not> mailbox_prefix prefix then Inl ()
      else
      bindr (map_err (\<lambda>_. ()) (generate_signing_key fresh)) (\<lambda>key.
      bindr (access_time clock) (\<lambda>issued.
      bindr (map_err (\<lambda>_. ()) (random_hex rnd)) (\<lambda>nonce.
      bindr (map_err (\<lambda>_. ()) (sign E (ser_pairing_grant E
         \<lparr>gt_v = 1, gt_kind = ''replica.pairing-grant.v2'', gt_origin = origin, gt_replica = encode_hex replica, gt_prefix = prefix,
          gt_key = encode_hex (ed_public E key), gt_issued = issued, gt_expires = issued + GRANT_WINDOW, gt_nonce = nonce\<rparr>)
         (sg_key signer))) (\<lambda>signed.
      Inr (b64url_encode E (ser_pairing E
         \<lparr>dn_credential = sg_credential signer, dn_grant = b64url_encode E (rec_bytes signed), dn_seed = encode_hex key\<rparr>)))))))"

definition delegated_proof ::
  "('z access_ext_scheme) \<Rightarrow> int \<Rightarrow> bytes option \<Rightarrow> string \<Rightarrow> RequestContext \<Rightarrow> unit + string" where
  "delegated_proof E clock rnd encoded cx =
     (if length encoded > 12288 then Inl ()
      else
      bindr (ok_or (b64url_decode E encoded) ()) (\<lambda>b.
      bindr (ok_or (dec_pairing E b) ()) (\<lambda>d.
      bindr (map_err (\<lambda>_. ()) (hex 32 (dn_seed d))) (\<lambda>key.
      access_sign E clock rnd key (dn_credential d) (Some (dn_grant d)) cx))))"

subsection \<open>Verification\<close>

text \<open>What a temporary key may do: the objects of the mailbox, and its inventory.\<close>

definition grant_permits :: "string \<Rightarrow> string \<Rightarrow> bool" where
  "grant_permits method' suffix =
     (let object = (case strip_prefix suffix ''objects/'' of None \<Rightarrow> False | Some i \<Rightarrow> is_ok (hex 32 i)) in
      method' = ''GET'' \<and> (object \<or> strip_prefix suffix ''inventory?'' \<noteq> None) \<or> method' = ''POST'' \<and> object)"

definition verify_grant ::
  "('z access_ext_scheme) \<Rightarrow> bytes \<Rightarrow> string \<Rightarrow> RequestContext \<Rightarrow> nat \<Rightarrow> unit + (bytes \<times> nat)" where
  "verify_grant E credential_key encoded cx now =
     bindr (decode_record E encoded) (\<lambda>signed.
     bindr (map_err (\<lambda>_. ()) (verify_signature E signed credential_key)) (\<lambda>_.
     bindr (map_err (\<lambda>_. ()) (decode_with (dec_pairing_grant E) signed)) (\<lambda>grant.
     bindr (ok_or (strip_prefix (rc_path cx) (gt_prefix grant)) ()) (\<lambda>suffix.
     if gt_v grant \<noteq> 1
        \<or> gt_kind grant \<noteq> ''replica.pairing-grant.v2''
        \<or> gt_origin grant \<noteq> rc_origin cx
        \<or> gt_replica grant \<noteq> encode_hex (rc_replica cx)
        \<or> \<not> mailbox_prefix (gt_prefix grant)
        \<or> \<not> grant_permits (rc_method cx) suffix
        \<or> gt_issued grant > now + REQUEST_WINDOW
        \<or> gt_expires grant \<le> now
        \<or> gt_expires grant \<le> gt_issued grant
        \<or> gt_expires grant - gt_issued grant > GRANT_WINDOW
     then Inl ()
     else
     bindr (map_err (\<lambda>_. ()) (hex 32 (gt_nonce grant))) (\<lambda>_.
     bindr (map_err (\<lambda>_. ()) (hex 32 (gt_key grant))) (\<lambda>kb.
     bindr (verifying_key E kb ()) (\<lambda>key.
     if ed_key_weak E key then Inl () else Inr (key, gt_expires grant))))))))"

definition time_diff :: "nat \<Rightarrow> nat \<Rightarrow> nat" where
  "time_diff a b = (if a \<ge> b then a - b else b - a)"

definition verify_signed_request ::
  "('z access_ext_scheme) \<Rightarrow> VerifiedCredential \<Rightarrow> bytes \<Rightarrow> nat \<Rightarrow> string \<Rightarrow> RequestContext \<Rightarrow> nat \<Rightarrow> unit + VerifiedAccess" where
  "verify_signed_request E credential key grant_expiry encoded cx now =
     bindr (decode_record E encoded) (\<lambda>signed.
     bindr (map_err (\<lambda>_. ()) (verify_signature E signed key)) (\<lambda>_.
     bindr (map_err (\<lambda>_. ()) (decode_with (dec_access_request E) signed)) (\<lambda>access.
     bindr (map_err (\<lambda>_. ()) (hex 32 (as_nonce access))) (\<lambda>_.
     if as_v access \<noteq> 1
        \<or> as_kind access \<noteq> ''replica.access.v2''
        \<or> as_origin access \<noteq> rc_origin cx
        \<or> as_replica access \<noteq> encode_hex (rc_replica cx)
        \<or> as_method access \<noteq> rc_method cx
        \<or> as_path access \<noteq> rc_path cx
        \<or> as_body_hash access \<noteq> encode_hex (sha256 E (rc_body cx))
        \<or> as_transfer access \<noteq> rc_transfer cx
        \<or> as_retention access \<noteq> rc_retention cx
        \<or> time_diff now (as_issued access) > REQUEST_WINDOW
     then Inl ()
     else Inr \<lparr>va_identity = identity credential, va_credential = credential_id E credential,
               va_companion = (authorizing_device E credential \<noteq> None), va_nonce = as_nonce access,
               va_expires = min (as_issued access + REQUEST_WINDOW) grant_expiry\<rparr>))))"

definition access_verify ::
  "('z access_ext_scheme) \<Rightarrow> int \<Rightarrow> string \<Rightarrow> RequestContext \<Rightarrow> unit + VerifiedAccess" where
  "access_verify E clock encoded cx =
     (if length encoded > 16384 then Inl ()
      else
      bindr (ok_or (b64url_decode E encoded) ()) (\<lambda>b.
      bindr (ok_or (dec_access_proof E b) ()) (\<lambda>proof.
      bindr (decode_record E (ap_credential proof)) (\<lambda>raw.
      bindr (ok_or (as_str (json_index (rec_body raw) ''root_public_key'')) ()) (\<lambda>rt.
      bindr (map_err (\<lambda>_. ()) (hex 32 rt)) (\<lambda>rb.
      bindr (verifying_key E rb ()) (\<lambda>root.
      bindr (map_err (\<lambda>_. ()) (verify E (rec_bytes raw) root)) (\<lambda>credential.
      bindr (access_time clock) (\<lambda>now.
      bindr (case ap_grant proof of
               None \<Rightarrow> Inr (vc_key credential, U64_MAX)
             | Some grant \<Rightarrow> verify_grant E (vc_key credential) grant cx now) (\<lambda>(key, grant_expiry).
      verify_signed_request E credential key grant_expiry (ap_record proof) cx now))))))))))"

subsection \<open>What a verified proof is bound to\<close>

lemma verify_grant_Inr:
  assumes "verify_grant E k encoded cx now = Inr (key, expiry)"
  obtains signed grant suffix where "decode_record E encoded = Inr signed" "verify_signature E signed k = Inr ()"
    "dec_pairing_grant E (rec_body signed) = Some grant" "rc_path cx = gt_prefix grant @ suffix" "mailbox_prefix (gt_prefix grant)"
    "gt_origin grant = rc_origin cx" "gt_replica grant = encode_hex (rc_replica cx)"
    "grant_permits (rc_method cx) suffix" "gt_key grant = encode_hex key" "expiry = gt_expires grant" "now < expiry"
    "expiry \<le> gt_issued grant + GRANT_WINDOW" "gt_issued grant \<le> now + REQUEST_WINDOW"
proof -
  from assms obtain signed grant suffix kb where
    g: "decode_record E encoded = Inr signed" "verify_signature E signed k = Inr ()" "decode_with (dec_pairing_grant E) signed = Inr grant"
      "strip_prefix (rc_path cx) (gt_prefix grant) = Some suffix" "hex 32 (gt_key grant) = Inr kb" "verifying_key E kb () = Inr key"
      "expiry = gt_expires grant"
    and c: "mailbox_prefix (gt_prefix grant)" "gt_origin grant = rc_origin cx" "gt_replica grant = encode_hex (rc_replica cx)"
      "grant_permits (rc_method cx) suffix" "gt_issued grant \<le> now + REQUEST_WINDOW" "now < gt_expires grant"
      "gt_expires grant - gt_issued grant \<le> GRANT_WINDOW"
    unfolding verify_grant_def bindr_eq_Inr map_err_eq_Inr ok_or_eq_Inr guard_eq_Inr by (auto simp: not_less not_le)
  have "rc_path cx = gt_prefix grant @ suffix" using g(4) by (simp add: strip_prefix_iff)
  moreover have "gt_key grant = encode_hex key" using g(5,6) by (simp add: hex_def map_err_eq_Inr parse_hex_canonical verifying_key_eq_Inr)
  ultimately show thesis using that [of signed grant suffix] g c by (simp add: decode_with_def result_simps)
qed

lemma verify_signed_request_Inr:
  assumes "verify_signed_request E credential key expiry encoded cx now = Inr a"
  obtains signed access where
    "decode_record E encoded = Inr signed" "verify_signature E signed key = Inr ()"
    "dec_access_request E (rec_body signed) = Some access"
    "as_origin access = rc_origin cx" "as_replica access = encode_hex (rc_replica cx)" "as_method access = rc_method cx"
    "as_path access = rc_path cx" "as_body_hash access = encode_hex (sha256 E (rc_body cx))" "as_transfer access = rc_transfer cx"
    "as_retention access = rc_retention cx" "time_diff now (as_issued access) \<le> REQUEST_WINDOW"
    "a = \<lparr>va_identity = identity credential, va_credential = credential_id E credential,
          va_companion = (authorizing_device E credential \<noteq> None), va_nonce = as_nonce access,
          va_expires = min (as_issued access + REQUEST_WINDOW) expiry\<rparr>"
proof -
  from assms obtain signed access where
    "decode_record E encoded = Inr signed" "verify_signature E signed key = Inr ()" "decode_with (dec_access_request E) signed = Inr access"
    "as_origin access = rc_origin cx" "as_replica access = encode_hex (rc_replica cx)" "as_method access = rc_method cx"
    "as_path access = rc_path cx" "as_body_hash access = encode_hex (sha256 E (rc_body cx))" "as_transfer access = rc_transfer cx"
    "as_retention access = rc_retention cx" "time_diff now (as_issued access) \<le> REQUEST_WINDOW"
    "a = \<lparr>va_identity = identity credential, va_credential = credential_id E credential,
        va_companion = (authorizing_device E credential \<noteq> None), va_nonce = as_nonce access,
        va_expires = min (as_issued access + REQUEST_WINDOW) expiry\<rparr>"
    unfolding verify_signed_request_def bindr_eq_Inr map_err_eq_Inr guard_eq_Inr by (auto simp: not_less)
  with that [of signed access] show thesis by (simp add: decode_with_def result_simps)
qed

lemma access_verify_Inr:
  assumes "access_verify E clock encoded cx = Inr a"
  obtains b pr raw root credential now key expiry where
    "b64url_decode E encoded = Some b" "dec_access_proof E b = Some pr" "decode_record E (ap_credential pr) = Inr raw"
    "as_str (json_index (rec_body raw) ''root_public_key'') = Some (encode_hex root)" "verify E (rec_bytes raw) root = Inr credential"
    "access_time clock = Inr now"
    "(case ap_grant pr of None \<Rightarrow> Inr (vc_key credential, U64_MAX) | Some grant \<Rightarrow> verify_grant E (vc_key credential) grant cx now)
      = Inr (key, expiry)"
    "verify_signed_request E credential key expiry (ap_record pr) cx now = Inr a"
proof -
  from assms obtain b pr raw rt rb root credential now key expiry where
    g: "b64url_decode E encoded = Some b" "dec_access_proof E b = Some pr" "decode_record E (ap_credential pr) = Inr raw"
      "as_str (json_index (rec_body raw) ''root_public_key'') = Some rt" "hex 32 rt = Inr rb" "verifying_key E rb () = Inr root"
      "verify E (rec_bytes raw) root = Inr credential" "access_time clock = Inr now"
      "(case ap_grant pr of None \<Rightarrow> Inr (vc_key credential, U64_MAX) | Some grant \<Rightarrow> verify_grant E (vc_key credential) grant cx now)
        = Inr (key, expiry)"
      "verify_signed_request E credential key expiry (ap_record pr) cx now = Inr a"
    unfolding access_verify_def bindr_eq_Inr map_err_eq_Inr ok_or_eq_Inr guard_eq_Inr by auto
  have "rt = encode_hex root" using g(5,6) by (simp add: hex_def map_err_eq_Inr parse_hex_canonical verifying_key_eq_Inr)
  with that [of b pr raw root credential now key expiry] g show thesis by simp
qed

text \<open>The proof of a request determines the request and the access, whatever the time.\<close>

lemma same_proof_same_access:
  assumes "access_verify E c1 encoded cx1 = Inr a1" "access_verify E c2 encoded cx2 = Inr a2"
  shows "a1 = a2"
proof -
  from assms(1) obtain b pr raw root credential now key expiry where
    1: "b64url_decode E encoded = Some b" "dec_access_proof E b = Some pr" "decode_record E (ap_credential pr) = Inr raw"
      "as_str (json_index (rec_body raw) ''root_public_key'') = Some (encode_hex root)" "verify E (rec_bytes raw) root = Inr credential"
      "(case ap_grant pr of None \<Rightarrow> Inr (vc_key credential, U64_MAX) | Some grant \<Rightarrow> verify_grant E (vc_key credential) grant cx1 now)
        = Inr (key, expiry)"
      "verify_signed_request E credential key expiry (ap_record pr) cx1 now = Inr a1"
    by (rule access_verify_Inr)
  from assms(2) obtain now' key' expiry' where
    2: "(case ap_grant pr of None \<Rightarrow> Inr (vc_key credential, U64_MAX) | Some grant \<Rightarrow> verify_grant E (vc_key credential) grant cx2 now')
        = Inr (key', expiry')"
      "verify_signed_request E credential key' expiry' (ap_record pr) cx2 now' = Inr a2"
    by (rule access_verify_Inr) (use 1(1-5) in \<open>auto simp: encode_hex_inj\<close>)
  have "expiry = expiry'"
    using 1(6) 2(1) by (auto split: option.splits elim!: verify_grant_Inr)
  then show ?thesis using 1(7) 2(2) by (auto elim!: verify_signed_request_Inr)
qed

lemma same_proof_same_request:
  assumes "access_verify E c1 encoded cx1 = Inr a1" "access_verify E c2 encoded cx2 = Inr a2"
  shows "rc_origin cx1 = rc_origin cx2 \<and> rc_replica cx1 = rc_replica cx2 \<and> rc_method cx1 = rc_method cx2
    \<and> rc_path cx1 = rc_path cx2 \<and> rc_transfer cx1 = rc_transfer cx2 \<and> rc_retention cx1 = rc_retention cx2
    \<and> sha256 E (rc_body cx1) = sha256 E (rc_body cx2)"
proof -
  from assms(1) obtain b pr credential key expiry now where
    1: "b64url_decode E encoded = Some b" "dec_access_proof E b = Some pr"
      "verify_signed_request E credential key expiry (ap_record pr) cx1 now = Inr a1"
    by (rule access_verify_Inr)
  from assms(2) obtain credential' key' expiry' now' where
    2: "verify_signed_request E credential' key' expiry' (ap_record pr) cx2 now' = Inr a2"
    by (rule access_verify_Inr) (use 1 in auto)
  from 1(3) 2 show ?thesis by (auto simp: encode_hex_inj elim!: verify_signed_request_Inr)
qed

lemma grant_scope:
  assumes "access_verify E clock encoded cx = Inr a" "b64url_decode E encoded = Some b" "dec_access_proof E b = Some pr" "ap_grant pr = Some grant"
  shows "\<exists>signed g suffix. decode_record E grant = Inr signed \<and> dec_pairing_grant E (rec_body signed) = Some g
    \<and> mailbox_prefix (gt_prefix g) \<and> rc_path cx = gt_prefix g @ suffix \<and> grant_permits (rc_method cx) suffix
    \<and> va_expires a \<le> gt_expires g \<and> gt_expires g \<le> gt_issued g + GRANT_WINDOW"
proof -
  from assms(1) obtain credential key expiry now where
    1: "verify_grant E (vc_key credential) grant cx now = Inr (key, expiry)" "verify_signed_request E credential key expiry (ap_record pr) cx now = Inr a"
    by (rule access_verify_Inr) (use assms(2-4) in auto)
  from 1(2) have "va_expires a \<le> expiry" by (auto elim!: verify_signed_request_Inr)
  with 1(1) show ?thesis by (auto elim!: verify_grant_Inr)
qed

text \<open>
  C25: a proof authorizes one request. Whenever the same proof is accepted for two requests, at any
  times, both have the same origin, replica, method, path and headers and bodies with the same digest,
  and both verifications give the same account, device, nonce and deadline. A proof by a temporary key
  is accepted only below the mailbox its grant names, for objects and the inventory, until its deadline.
\<close>

theorem proof_binds_request:
  assumes "access_verify E c1 encoded cx1 = Inr a1" "access_verify E c2 encoded cx2 = Inr a2"
  shows "a1 = a2 \<and> rc_origin cx1 = rc_origin cx2 \<and> rc_replica cx1 = rc_replica cx2 \<and> rc_method cx1 = rc_method cx2
    \<and> rc_path cx1 = rc_path cx2 \<and> rc_transfer cx1 = rc_transfer cx2 \<and> rc_retention cx1 = rc_retention cx2
    \<and> sha256 E (rc_body cx1) = sha256 E (rc_body cx2)
    \<and> (\<forall>b pr grant. b64url_decode E encoded = Some b \<and> dec_access_proof E b = Some pr \<and> ap_grant pr = Some grant \<longrightarrow>
        (\<exists>signed g suffix. decode_record E grant = Inr signed \<and> dec_pairing_grant E (rec_body signed) = Some g
          \<and> mailbox_prefix (gt_prefix g) \<and> rc_path cx1 = gt_prefix g @ suffix \<and> grant_permits (rc_method cx1) suffix
          \<and> va_expires a1 \<le> gt_expires g \<and> gt_expires g \<le> gt_issued g + GRANT_WINDOW))"
proof -
  have "a1 = a2" by (rule same_proof_same_access [OF assms])
  then show ?thesis using same_proof_same_request [OF assms] grant_scope [OF assms(1)] by blast
qed

subsection \<open>A device's own proofs\<close>

text \<open>
  What the theorems assume of base64 and serde: texts and bodies read back as they were written, and a
  decoded credential's root key is the entry of that name in the body.
\<close>

definition access_codec :: "('z access_ext_scheme) \<Rightarrow> bool" where
  "access_codec E \<longleftrightarrow>
     (\<forall>b. b64url_decode E (b64url_encode E b) = Some b)
     \<and> (\<forall>p. dec_access_proof E (ser_access_proof E p) = Some p)
     \<and> (\<forall>d. dec_pairing E (ser_pairing E d) = Some d)
     \<and> (\<forall>g j. strict_json E (ser_pairing_grant E g) MAX_RECORD = Inr j \<longrightarrow> dec_pairing_grant E j = Some g)
     \<and> (\<forall>a j. strict_json E (ser_access_request E a) MAX_RECORD = Inr j \<longrightarrow> dec_access_request E j = Some a)
     \<and> (\<forall>j b. dec_credential E j = Some b \<longrightarrow> json_index j ''root_public_key'' = String (dc_root_public_key b))"

lemma access_codecD:
  assumes "access_codec E"
  shows "b64url_decode E (b64url_encode E b) = Some b" "dec_access_proof E (ser_access_proof E p) = Some p"
    "dec_pairing E (ser_pairing E d) = Some d"
    "strict_json E (ser_pairing_grant E g) MAX_RECORD = Inr j \<Longrightarrow> dec_pairing_grant E j = Some g"
    "strict_json E (ser_access_request E a) MAX_RECORD = Inr j \<Longrightarrow> dec_access_request E j = Some a"
    "dec_credential E j = Some c \<Longrightarrow> json_index j ''root_public_key'' = String (dc_root_public_key c)"
  using assms by (simp_all add: access_codec_def)

lemma signed_decodes:
  assumes "sign E body key = Inr r" "signing_correct E" "access_codec E"
  shows "decode_record E (b64url_encode E (rec_bytes r)) = Inr r" "strict_json E body MAX_RECORD = Inr (rec_body r)"
    "verify_signature E r (ed_public E key) = Inr ()"
proof -
  note s = sign_bounded_Inr [OF assms(1) [unfolded sign_def] assms(2)]
  show "decode_record E (b64url_encode E (rec_bytes r)) = Inr r"
    using s(1) by (simp add: decode_record_def access_codecD(1) [OF assms(3)] parse_def)
  show "strict_json E body MAX_RECORD = Inr (rec_body r)" using parse_bounded_body_bytes(2) [OF s(1)] s(2) by simp
  show "verify_signature E r (ed_public E key) = Inr ()"
    using assms(2) s(2,3) by (simp add: verify_signature_iff signing_correct_def)
qed

lemma credential_decodes:
  assumes "verify E b root = Inr credential" "access_codec E"
  shows "decode_record E (b64url_encode E (rec_bytes (vc_record credential))) = Inr (vc_record credential)"
    "verify E (rec_bytes (vc_record credential)) root = Inr credential"
    "as_str (json_index (rec_body (vc_record credential)) ''root_public_key'') = Some (encode_hex root)" "length root = 32"
  using parse_of_credential [OF verify_cases(1) [OF assms(1)]] parse_bounded_body_bytes(1) [OF verify_cases(1) [OF assms(1)]] assms(1)
    verify_cases(2,4) [OF assms(1)]
  by (auto simp: decode_record_def access_codecD(1,6) [OF assms(2)])

lemma access_sign_verifies:
  assumes "signing_correct E" "access_codec E" "verify E b root = Inr credential" "ed_key_valid E root"
    and "access_sign E clock (Some bs) key (b64url_encode E (rec_bytes (vc_record credential))) grant cx = Inr encoded"
    and "length bs = 32" "length encoded \<le> 16384" "access_time clock = Inr issued" "access_time clock' = Inr now" "time_diff now issued \<le> REQUEST_WINDOW"
    and "(case grant of None \<Rightarrow> Inr (vc_key credential, U64_MAX) | Some g \<Rightarrow> verify_grant E (vc_key credential) g cx now)
      = Inr (ed_public E key, expiry)"
  shows "access_verify E clock' encoded cx = Inr \<lparr>va_identity = identity credential, va_credential = credential_id E credential,
    va_companion = (authorizing_device E credential \<noteq> None), va_nonce = encode_hex bs, va_expires = min (issued + REQUEST_WINDOW) expiry\<rparr>"
proof -
  define access where "access = \<lparr>as_v = 1, as_kind = ''replica.access.v2'', as_origin = rc_origin cx, as_replica = encode_hex (rc_replica cx),
    as_method = rc_method cx, as_path = rc_path cx, as_body_hash = encode_hex (sha256 E (rc_body cx)),
    as_transfer = rc_transfer cx, as_retention = rc_retention cx, as_issued = issued, as_nonce = encode_hex bs\<rparr>"
  from assms(5,8) obtain signed where s: "sign E (ser_access_request E access) key = Inr signed"
    and enc: "encoded = b64url_encode E (ser_access_proof E \<lparr>ap_credential = b64url_encode E (rec_bytes (vc_record credential)),
      ap_record = b64url_encode E (rec_bytes signed), ap_grant = grant\<rparr>)"
    by (auto simp: access_sign_def bindr_eq_Inr map_err_eq_Inr random_hex_def access_def)
  note d = signed_decodes [OF s assms(1,2)] and c = credential_decodes [OF assms(3,2)]
  have "verify_signed_request E credential (ed_public E key) expiry (b64url_encode E (rec_bytes signed)) cx now = Inr
      \<lparr>va_identity = identity credential, va_credential = credential_id E credential,
       va_companion = (authorizing_device E credential \<noteq> None), va_nonce = encode_hex bs, va_expires = min (issued + REQUEST_WINDOW) expiry\<rparr>"
    using assms(6,10) by (simp add: verify_signed_request_def d decode_with_def access_codecD(5) [OF assms(2) d(2)] access_def hex_def)
  then show ?thesis
    using assms(4,7,9,11) c
    by (simp add: access_verify_def access_codecD(1,2) [OF assms(2)] enc hex_def verifying_key_def)
qed

text \<open>
  A temporary key works: what a device certifies for a mailbox, the holder of the pairing text can use
  for the objects and the inventory below it for ten minutes.
\<close>

lemma pairing_proof_verifies:
  assumes "signing_correct E" "access_codec E" "verify E b root = Inr credential" "ed_key_valid E root" "ed_public E dk = vc_key credential"
    and d: "Signer_delegate E clock (Some key) (Some gs) (Signer_new E credential dk) (rc_origin cx) (rc_replica cx) prefix = Inr pairing"
    and key: "ed_key_valid E (ed_public E key)" "\<not> ed_key_weak E (ed_public E key)" "length (ed_public E key) = 32" "length key = 32" "length gs = 32"
    and p: "delegated_proof E clock1 (Some bs) pairing cx = Inr encoded" "length bs = 32" "length encoded \<le> 16384"
    and path: "rc_path cx = prefix @ suffix" "grant_permits (rc_method cx) suffix"
    and times: "access_time clock = Inr issued" "access_time clock1 = Inr signed_at" "access_time clock2 = Inr now"
      "time_diff now signed_at \<le> REQUEST_WINDOW" "issued \<le> now + REQUEST_WINDOW" "now < issued + GRANT_WINDOW"
  shows "access_verify E clock2 encoded cx = Inr \<lparr>va_identity = identity credential, va_credential = credential_id E credential,
    va_companion = (authorizing_device E credential \<noteq> None), va_nonce = encode_hex bs,
    va_expires = min (signed_at + REQUEST_WINDOW) (issued + GRANT_WINDOW)\<rparr>"
proof -
  define grant where "grant = \<lparr>gt_v = 1, gt_kind = ''replica.pairing-grant.v2'', gt_origin = rc_origin cx,
    gt_replica = encode_hex (rc_replica cx), gt_prefix = prefix, gt_key = encode_hex (ed_public E key), gt_issued = issued,
    gt_expires = issued + GRANT_WINDOW, gt_nonce = encode_hex gs\<rparr>"
  from d times(1) obtain signed where s: "sign E (ser_pairing_grant E grant) dk = Inr signed" and pre: "mailbox_prefix prefix"
    and pairing: "pairing = b64url_encode E (ser_pairing E \<lparr>dn_credential = b64url_encode E (rec_bytes (vc_record credential)),
      dn_grant = b64url_encode E (rec_bytes signed), dn_seed = encode_hex key\<rparr>)"
    by (auto simp: Signer_delegate_def Signer_new_def generate_signing_key_def random_hex_def bindr_eq_Inr map_err_eq_Inr grant_def split: if_splits)
  note g = signed_decodes [OF s assms(1,2)]
  have grant: "verify_grant E (vc_key credential) (b64url_encode E (rec_bytes signed)) cx now = Inr (ed_public E key, issued + GRANT_WINDOW)"
    using path times(5,6) pre key
    by (simp add: verify_grant_def g assms(5) [symmetric] decode_with_def access_codecD(4) [OF assms(2) g(2)] strip_prefix_iff [THEN iffD2]
        grant_def hex_def verifying_key_def GRANT_WINDOW_def)
  from p(1) key(4) have "access_sign E clock1 (Some bs) key (b64url_encode E (rec_bytes (vc_record credential)))
      (Some (b64url_encode E (rec_bytes signed))) cx = Inr encoded"
    by (simp add: delegated_proof_def pairing access_codecD(1,3) [OF assms(2)] hex_def split: if_splits)
  from access_sign_verifies [OF assms(1-4) this p(2,3) times(2,3,4)] grant show ?thesis by simp
qed

end
