(* ===== verification/Replica_Http.thy ===== *)
theory Replica_Http
  imports Replica_Access Replica_Lifetimes
begin

text \<open>
  \<^verbatim>\<open>crates/elo-core/src/http.rs\<close>: the HTTP face of a replica. A request is what the router hands on:
  its method, path and headers, the body unless it could not be read or was too large, and the endpoint
  with the values the extractors of the framework decoded, or the status they reject the request with.
  The middleware \<^verbatim>\<open>authorize\<close> checks the mailbox token, verifies the signed proof if there is one,
  checks the device and the member list and consumes the nonce; then the handler of the endpoint runs.
  Every stage reads the clock of its own. The limit on parallel requests and the timeout only end
  requests early and are left out here; theory Replica\_Web interleaves the stages.
\<close>

subsection \<open>Requests and responses\<close>

datatype HttpMethod = GET | HEAD | POST

primrec method_text :: "HttpMethod \<Rightarrow> string" where
  "method_text GET = ''GET''"
| "method_text HEAD = ''HEAD''"
| "method_text POST = ''POST''"

text \<open>A header is readable text or not.\<close>

datatype header = Text string | Opaque

record Control =
  cl_record :: RecordId
  cl_proof :: Proof

datatype Endpoint =
    At_Object string
  | At_Inventory "nat + nat \<times> nat"
  | At_Request string "nat + Control"
  | At_Accept string "nat + Control"
  | At_Children "nat + ChildMailbox"

record HttpRequest =
  hq_method :: HttpMethod
  hq_path :: string
  hq_target :: string
  hq_headers :: "string \<Rightarrow> header option"
  hq_body :: "bytes option"
  hq_endpoint :: Endpoint

datatype Payload = P_Empty | P_Error ReplicaError | P_Bytes bytes | P_Inventory Inventory

record HttpResponse =
  rs_status :: nat
  rs_payload :: Payload

definition error_status :: "ReplicaError \<Rightarrow> nat" where
  "error_status e =
     (case e of
        RE_Pruned _ \<Rightarrow> 410
      | RE_Expired \<Rightarrow> 409
      | RE_Unauthorized \<Rightarrow> 403
      | RE_Invalid \<Rightarrow> 400
      | RE_Quota \<Rightarrow> 507
      | RE_NotFound \<Rightarrow> 404
      | RE_Conflict \<Rightarrow> 409
      | RE_Storage \<Rightarrow> 503
      | RE_Directory \<Rightarrow> 503)"

definition error_response :: "ReplicaError \<Rightarrow> HttpResponse" where
  "error_response e =
     (case e of
        RE_Pruned proof \<Rightarrow> \<lparr>rs_status = 410, rs_payload = P_Bytes proof\<rparr>
      | _ \<Rightarrow> \<lparr>rs_status = error_status e, rs_payload = P_Error e\<rparr>)"

definition no_content :: HttpResponse where
  "no_content = \<lparr>rs_status = 204, rs_payload = P_Empty\<rparr>"

definition bearer :: "HttpRequest \<Rightarrow> ReplicaError + string" where
  "bearer req =
     (case hq_headers req ''authorization'' of
        Some (Text h) \<Rightarrow>
          bindr (ok_or (strip_prefix h ''Bearer '') RE_Unauthorized) (\<lambda>token.
          if length token \<noteq> 43 then Inl RE_Unauthorized else Inr token)
      | _ \<Rightarrow> Inl RE_Unauthorized)"

text \<open>\<^verbatim>\<open>str::split\<close> at every slash, and the fourth part.\<close>

fun split_slash :: "string \<Rightarrow> string list" where
  "split_slash [] = [[]]"
| "split_slash (c # s) =
     (if c = CHR ''/'' then [] # split_slash s
      else case split_slash s of [] \<Rightarrow> [[c]] | p # ps \<Rightarrow> (c # p) # ps)"

definition mailbox_part :: "HttpRequest \<Rightarrow> string option" where
  "mailbox_part req = (let parts = split_slash (hq_path req) in if 3 < length parts then Some (parts ! 3) else None)"

definition request_mailbox :: "HttpRequest \<Rightarrow> MailboxId option" where
  "request_mailbox req = Option.bind (mailbox_part req) (\<lambda>s. ok (parse_hex 32 s))"

subsection \<open>The middleware\<close>

definition gate_token :: "('z replica_ext_scheme) \<Rightarrow> ReplicaStore \<Rightarrow> HttpRequest \<Rightarrow> int \<Rightarrow> HttpResponse + MailboxId" where
  "gate_token E s req clock =
     (case (request_mailbox req, bearer req) of
        (Some m, Inr token) \<Rightarrow>
          bindr (map_err error_response (mailbox_authorize E (rp_db s) m token (hq_method req = POST) clock)) (\<lambda>_.
          if hq_body req = None then Inl \<lparr>rs_status = 413, rs_payload = P_Empty\<rparr> else Inr m)
      | _ \<Rightarrow> Inl (error_response RE_Unauthorized))"

definition header_text :: "HttpRequest \<Rightarrow> string \<Rightarrow> unit + string" where
  "header_text req name =
     (case hq_headers req name of None \<Rightarrow> Inr [] | Some (Text t) \<Rightarrow> Inr t | Some Opaque \<Rightarrow> Inl ())"

definition request_context ::
  "('z replica_ext_scheme) \<Rightarrow> string \<Rightarrow> ReplicaStore \<Rightarrow> HttpRequest \<Rightarrow> unit + RequestContext" where
  "request_context E origin s req =
     bindr (header_text req ''x-elo-transfer'') (\<lambda>transfer.
     bindr (header_text req ''x-elo-retention'') (\<lambda>retention.
     Inr \<lparr>rc_origin = origin, rc_replica = replica_key E (rp_db s), rc_method = method_text (hq_method req), rc_path = hq_target req,
          rc_body = (case hq_body req of None \<Rightarrow> [] | Some b \<Rightarrow> b), rc_transfer = transfer, rc_retention = retention\<rparr>))"

definition gate_proof ::
  "('z access_ext_scheme) \<Rightarrow> string \<Rightarrow> ReplicaStore \<Rightarrow> HttpRequest \<Rightarrow> int \<Rightarrow> ReplicaError + VerifiedAccess option" where
  "gate_proof E origin s req clock =
     (case hq_headers req ''x-elo-identity'' of
        None \<Rightarrow> Inr None
      | Some Opaque \<Rightarrow> Inl RE_Unauthorized
      | Some (Text value) \<Rightarrow>
          bindr (map_err (\<lambda>_. RE_Unauthorized) (bindr (request_context E origin s req) (access_verify E clock value))) (\<lambda>access.
          Inr (Some access)))"

definition gate_device :: "('z replica_ext_scheme) \<Rightarrow> ReplicaStore \<Rightarrow> VerifiedAccess option \<Rightarrow> ReplicaError + unit" where
  "gate_device E s verified =
     (case verified of
        None \<Rightarrow> Inr ()
      | Some access \<Rightarrow>
          bindr (if va_companion access then require_admitted_companion s (va_credential access) else Inr ()) (\<lambda>_.
          require_active_device E s (va_credential access)))"

definition gate_consume :: "ReplicaStore \<Rightarrow> VerifiedAccess option \<Rightarrow> int \<Rightarrow> ReplicaError + ReplicaStore" where
  "gate_consume s verified clock =
     (case verified of
        None \<Rightarrow> Inr s
      | Some access \<Rightarrow> bindr (consume_access (rp_db s) access clock) (\<lambda>db. Inr (s\<lparr>rp_db := db\<rparr>)))"

definition access_actor :: "VerifiedAccess \<Rightarrow> Actor" where
  "access_actor access = \<lparr>at_identity = va_identity access, at_credential = va_credential access\<rparr>"

subsection \<open>The handlers\<close>

definition try_respond :: "ReplicaStore \<Rightarrow> ReplicaError + 'a \<Rightarrow> ('a \<Rightarrow> ReplicaStore \<times> HttpResponse) \<Rightarrow> ReplicaStore \<times> HttpResponse" where
  "try_respond s r f = (case r of Inl e \<Rightarrow> (s, error_response e) | Inr x \<Rightarrow> f x)"

definition answer :: "ReplicaStore \<Rightarrow> replica_db \<times> (ReplicaError + 'a) \<Rightarrow> ('a \<Rightarrow> HttpResponse) \<Rightarrow> ReplicaStore \<times> HttpResponse" where
  "answer s m f = (s\<lparr>rp_db := fst m\<rparr>, case snd m of Inl e \<Rightarrow> error_response e | Inr x \<Rightarrow> f x)"

definition reject :: "ReplicaStore \<Rightarrow> nat + 'a \<Rightarrow> ('a \<Rightarrow> ReplicaStore \<times> HttpResponse) \<Rightarrow> ReplicaStore \<times> HttpResponse" where
  "reject s r f = (case r of Inl status \<Rightarrow> (s, \<lparr>rs_status = status, rs_payload = P_Empty\<rparr>) | Inr x \<Rightarrow> f x)"

definition parse_id :: "string \<Rightarrow> ReplicaError + bytes" where
  "parse_id t = map_err (\<lambda>_. RE_Invalid) (parse_hex 32 t)"

definition http_create_child ::
  "('z replica_ext_scheme) \<Rightarrow> ReplicaStore \<Rightarrow> HttpRequest \<Rightarrow> MailboxId \<Rightarrow> ChildMailbox \<Rightarrow> int \<Rightarrow> ReplicaStore \<times> HttpResponse" where
  "http_create_child E s req m child clock =
     try_respond s (bearer req) (\<lambda>token.
     try_respond s (create_child E (rp_db s) m token child clock) (\<lambda>db. (s\<lparr>rp_db := db\<rparr>, no_content)))"

definition transfer_hint :: "HttpRequest \<Rightarrow> ReplicaError + TransferHint" where
  "transfer_hint req =
     (case hq_headers req ''x-elo-transfer'' of
        Some (Text t) \<Rightarrow> if t = ''eager'' then Inr Eager else if t = ''lazy'' then Inr Lazy else Inl RE_Invalid
      | _ \<Rightarrow> Inl RE_Invalid)"

definition message_flag :: "HttpRequest \<Rightarrow> ReplicaError + bool" where
  "message_flag req =
     (case hq_headers req ''x-elo-retention'' of
        None \<Rightarrow> Inr False
      | Some (Text t) \<Rightarrow> if t = ''retain'' then Inr False else if t = ''message'' then Inr True else Inl RE_Invalid
      | Some Opaque \<Rightarrow> Inl RE_Invalid)"

definition http_upload ::
  "('z replica_ext_scheme) \<Rightarrow> ReplicaStore \<Rightarrow> HttpRequest \<Rightarrow> MailboxId \<Rightarrow> string \<Rightarrow> Actor option \<Rightarrow> int \<Rightarrow> bytes option
     \<Rightarrow> ReplicaStore \<times> HttpResponse" where
  "http_upload E s req m object actor clock rnd =
     try_respond s (transfer_hint req) (\<lambda>hint.
     try_respond s (message_flag req) (\<lambda>message.
     try_respond s (bearer req) (\<lambda>token.
     try_respond s (parse_id object) (\<lambda>ob.
     answer s (post_inner E s m token ob (case hq_body req of None \<Rightarrow> [] | Some b \<Rightarrow> b) hint message actor clock rnd)
       (\<lambda>(inserted, receipt). \<lparr>rs_status = (if inserted then 201 else 200), rs_payload = P_Bytes receipt\<rparr>)))))"

definition http_control ::
  "(ReplicaStore \<Rightarrow> MailboxId \<Rightarrow> Actor \<Rightarrow> ObjectId \<Rightarrow> RecordId \<Rightarrow> Proof \<Rightarrow> int \<Rightarrow> replica_db \<times> (ReplicaError + unit)) \<Rightarrow>
     ReplicaStore \<Rightarrow> MailboxId \<Rightarrow> string \<Rightarrow> Actor option \<Rightarrow> Control \<Rightarrow> int \<Rightarrow> ReplicaStore \<times> HttpResponse" where
  "http_control operation s m object actor body clock =
     try_respond s (ok_or actor RE_Unauthorized) (\<lambda>a.
     try_respond s (parse_id object) (\<lambda>ob.
     answer s (operation s m a ob (cl_record body) (cl_proof body) clock) (\<lambda>_. no_content)))"

definition http_request_message ::
  "('z replica_ext_scheme) \<Rightarrow> ReplicaStore \<Rightarrow> MailboxId \<Rightarrow> string \<Rightarrow> Actor option \<Rightarrow> Control \<Rightarrow> int \<Rightarrow> ReplicaStore \<times> HttpResponse" where
  "http_request_message E = http_control (request_message E)"

definition http_accept_message ::
  "('z replica_ext_scheme) \<Rightarrow> ReplicaStore \<Rightarrow> MailboxId \<Rightarrow> string \<Rightarrow> Actor option \<Rightarrow> Control \<Rightarrow> int \<Rightarrow> ReplicaStore \<times> HttpResponse" where
  "http_accept_message E = http_control (accept_message E)"

definition http_download ::
  "('z replica_ext_scheme) \<Rightarrow> ReplicaStore \<Rightarrow> HttpRequest \<Rightarrow> MailboxId \<Rightarrow> string \<Rightarrow> int \<Rightarrow> ReplicaStore \<times> HttpResponse" where
  "http_download E s req m object clock =
     try_respond s (bearer req) (\<lambda>token.
     try_respond s (parse_id object) (\<lambda>ob.
     answer s (replica_get E (rp_db s) m token ob clock) (\<lambda>b. \<lparr>rs_status = 200, rs_payload = P_Bytes b\<rparr>)))"

definition http_inventory ::
  "('z replica_ext_scheme) \<Rightarrow> ReplicaStore \<Rightarrow> HttpRequest \<Rightarrow> MailboxId \<Rightarrow> nat \<Rightarrow> nat \<Rightarrow> int \<Rightarrow> ReplicaStore \<times> HttpResponse" where
  "http_inventory E s req m after limit clock =
     try_respond s (bearer req) (\<lambda>token.
     answer s (replica_inventory E s m token after limit clock) (\<lambda>page. \<lparr>rs_status = 200, rs_payload = P_Inventory page\<rparr>))"

text \<open>The routes. A method an endpoint does not have is answered with 405, before the middleware runs.\<close>

definition routed :: "HttpRequest \<Rightarrow> bool" where
  "routed req =
     (case hq_endpoint req of
        At_Object _ \<Rightarrow> True
      | At_Inventory _ \<Rightarrow> hq_method req \<noteq> POST
      | _ \<Rightarrow> hq_method req = POST)"

definition http_handle ::
  "('z replica_ext_scheme) \<Rightarrow> ReplicaStore \<Rightarrow> HttpRequest \<Rightarrow> MailboxId \<Rightarrow> Actor option \<Rightarrow> int \<Rightarrow> bytes option
     \<Rightarrow> ReplicaStore \<times> HttpResponse" where
  "http_handle E s req m actor clock rnd =
     (case hq_endpoint req of
        At_Object object \<Rightarrow>
          if hq_method req = POST then http_upload E s req m object actor clock rnd else http_download E s req m object clock
      | At_Inventory page \<Rightarrow> reject s page (\<lambda>(after, limit). http_inventory E s req m after limit clock)
      | At_Request object body \<Rightarrow> reject s body (\<lambda>c. http_request_message E s m object actor c clock)
      | At_Accept object body \<Rightarrow> reject s body (\<lambda>c. http_accept_message E s m object actor c clock)
      | At_Children body \<Rightarrow> reject s body (\<lambda>c. http_create_child E s req m c clock))"

subsection \<open>A request from beginning to end\<close>

record http_clocks =
  hk_token :: int
  hk_proof :: int
  hk_consume :: int
  hk_handle :: int

definition http_request ::
  "('z access_ext_scheme) \<Rightarrow> string \<Rightarrow> ReplicaStore \<Rightarrow> HttpRequest \<Rightarrow> http_clocks \<Rightarrow> bytes option \<Rightarrow> ReplicaStore \<times> HttpResponse" where
  "http_request E origin s req hk rnd =
     (if \<not> routed req then (s, \<lparr>rs_status = 405, rs_payload = P_Empty\<rparr>)
      else case gate_token E s req (hk_token hk) of
        Inl r \<Rightarrow> (s, r)
      | Inr m \<Rightarrow>
          try_respond s (gate_proof E origin s req (hk_proof hk)) (\<lambda>verified.
          try_respond s (gate_device E s verified) (\<lambda>_.
          try_respond s (authorize_identity (rp_db s) m (map_option va_identity verified)) (\<lambda>_.
          try_respond s (gate_consume s verified (hk_consume hk)) (\<lambda>s1.
          http_handle E s1 req m (map_option access_actor verified) (hk_handle hk) rnd)))))"

end
