(* ===== verification/Replica_Web.thy ===== *)
theory Replica_Web
  imports Replica_Http "HOL-Library.Multiset"
begin

text \<open>
  The HTTP service of a replica as a whole. Every handler is at most one step of the machine of theory
  Replica\_Machine, so what holds of its runs holds behind HTTP. A request that gets past the middleware
  carried the token of its mailbox and, in a space with members, the signed proof of a member's device.
  The step relation \<open>web_step\<close> interleaves the stages of any number of requests with local operations,
  the clock and restarts; a proof gets at most one request served.
\<close>

subsection \<open>Handlers as steps of the store\<close>

definition one_step :: "('z replica_ext_scheme) \<Rightarrow> int \<Rightarrow> ReplicaStore \<Rightarrow> ReplicaStore \<Rightarrow> bool" where
  "one_step E clock s s' \<longleftrightarrow> s' = s \<or> (\<exists>i. s' = fst (replica_step E s (clock, i)))"

lemma one_step_refl [simp]: "one_step E clock s s"
  by (simp add: one_step_def)

lemma one_step_try: "(\<And>x. r = Inr x \<Longrightarrow> one_step E clock s (fst (f x))) \<Longrightarrow> one_step E clock s (fst (try_respond s r f))"
  by (cases r) (simp_all add: try_respond_def)

lemma one_step_reject: "(\<And>x. r = Inr x \<Longrightarrow> one_step E clock s (fst (f x))) \<Longrightarrow> one_step E clock s (fst (reject s r f))"
  by (cases r) (simp_all add: reject_def)

lemma one_step_answer: "fst (answer s m f) = fst (replying s m g)"
  by (simp add: answer_def replying_def)

lemma one_stepI: "s' = fst (replica_step E s (clock, i)) \<Longrightarrow> one_step E clock s s'"
  by (auto simp: one_step_def)

lemma http_upload_step: "one_step E clock s (fst (http_upload E s req m object actor clock rnd))"
  unfolding http_upload_def
  by (intro one_step_try one_stepI [where i = "In_Post m token ob b hint message actor rnd" for token ob b hint message])
    (simp add: answer_def replying_def)

lemma http_download_step: "one_step E clock s (fst (http_download E s req m object clock))"
  unfolding http_download_def
  by (intro one_step_try one_stepI [where i = "In_Get m token ob" for token ob]) (simp add: answer_def replying_def)

lemma http_inventory_step: "one_step E clock s (fst (http_inventory E s req m after limit clock))"
  unfolding http_inventory_def
  by (intro one_step_try one_stepI [where i = "In_Inventory m token after limit" for token]) (simp add: answer_def replying_def)

lemma create_child_step: "create_child E (rp_db s) m token child clock = Inr db \<Longrightarrow> one_step E clock s (s\<lparr>rp_db := db\<rparr>)"
  by (rule one_stepI [where i = "In_Child m token child"]) (simp add: atomically_def)

lemma consume_access_step: "consume_access (rp_db s) access clock = Inr db \<Longrightarrow> one_step E clock s (s\<lparr>rp_db := db\<rparr>)"
  by (rule one_stepI [where i = "In_Access access"]) (simp add: atomically_def)

lemma http_create_child_step: "one_step E clock s (fst (http_create_child E s req m child clock))"
  unfolding http_create_child_def by (auto intro!: one_step_try intro: create_child_step)

lemma http_control_step:
  "one_step E clock s (fst (http_request_message E s m object actor body clock))"
  "one_step E clock s (fst (http_accept_message E s m object actor body clock))"
  unfolding http_request_message_def http_accept_message_def http_control_def
  by (intro one_step_try one_stepI [where i = "In_Request m a ob (cl_record body) (cl_proof body)" for a ob]; simp add: answer_def replying_def)
    (intro one_step_try one_stepI [where i = "In_Accept m a ob (cl_record body) (cl_proof body)" for a ob]; simp add: answer_def replying_def)

lemma http_handle_step: "one_step E clock s (fst (http_handle E s req m actor clock rnd))"
  by (auto simp: http_handle_def split: Endpoint.split
      intro: one_step_reject http_upload_step http_download_step http_inventory_step http_create_child_step http_control_step)

lemma gate_consume_step:
  "gate_consume s verified clock = Inr s' \<Longrightarrow> one_step E clock s s'"
  by (auto simp: gate_consume_def bindr_eq_Inr split: option.splits intro: consume_access_step)

lemma one_step_inv: "one_step E clock s s' \<Longrightarrow> replica_inv E s \<Longrightarrow> replica_inv E s'"
  by (auto simp: one_step_def intro: replica_step_inv)

lemma one_step_nonces:
  "one_step E clock s s' \<Longrightarrow> replica_inv E s \<Longrightarrow> bt_get (rd_nonces (rp_db s)) k = Some e \<Longrightarrow> clock \<le> int e \<Longrightarrow>
   bt_get (rd_nonces (rp_db s')) k = Some e"
  by (auto simp: one_step_def intro: step_nonces)

subsection \<open>Who gets past the middleware\<close>

lemma gate_token_Inr:
  assumes "gate_token E s req clock = Inr m"
  obtains token where "request_mailbox req = Some m" "bearer req = Inr token"
    "mailbox_authorize E (rp_db s) m token (hq_method req = POST) clock = Inr ()" "hq_body req \<noteq> None"
  using assms by (auto simp: gate_token_def bindr_eq_Inr map_err_eq_Inr guard_eq_Inr split: option.splits sum.splits)

lemma gate_proof_Inr:
  assumes "gate_proof E origin s req clock = Inr verified"
  shows "verified = None \<longleftrightarrow> hq_headers req ''x-elo-identity'' = None"
    "verified = Some access \<Longrightarrow> \<exists>value cx. hq_headers req ''x-elo-identity'' = Some (Text value)
       \<and> request_context E origin s req = Inr cx \<and> access_verify E clock value cx = Inr access"
  using assms by (auto simp: gate_proof_def bindr_eq_Inr map_err_eq_Inr split: option.splits header.splits)

lemma gate_device_Inr:
  "gate_device E s (Some access) = Inr () \<Longrightarrow>
   Revocations_get E (rp_revocations s) (va_credential access) = Inr None
   \<and> (va_companion access \<longrightarrow> va_credential access \<in> set (rp_admitted s))"
  by (auto simp: gate_device_def require_active_device_def require_admitted_companion_def bindr_eq_Inr map_err_eq_Inr split: if_splits)

text \<open>An error is answered with an error status.\<close>

lemma error_response_status: "rs_status (error_response e) \<ge> 400"
  by (cases e) (simp_all add: error_response_def error_status_def)

lemma try_respond_pass:
  assumes "try_respond s r f = (s', rs)" "s' \<noteq> s \<or> rs_status rs < 400"
  obtains x where "r = Inr x" "f x = (s', rs)"
  using assms error_response_status by (cases r) (auto simp: try_respond_def not_le [symmetric])

lemma gate_token_refuses: "gate_token E s req clock = Inl rs \<Longrightarrow> \<not> rs_status rs < 400"
  using error_response_status
  by (auto simp: gate_token_def bindr_eq_Inl map_err_def not_less split: option.splits sum.splits if_splits)

text \<open>
  C16: only members get in. If a request changes the store of a replica or is answered with success,
  it named a mailbox and carried its token for reading or writing, and for every space with a member
  list above the mailbox it carried a proof, signed for exactly this request, of a device of a member
  that is not retired and, if it is a companion, admitted; the proof's nonce is consumed before the
  handler runs.
\<close>

theorem request_needs_member:
  assumes "http_request E origin s req hk rnd = (s', rs)" "s' \<noteq> s \<or> rs_status rs < 400"
  shows "\<exists>m token. request_mailbox req = Some m \<and> bearer req = Inr token
    \<and> mailbox_authorize E (rp_db s) m token (hq_method req = POST) (hk_token hk) = Inr ()
    \<and> (\<forall>a \<in> set (ancestors (rp_db s) m). a \<in> set (rd_access_roots (rp_db s)) \<longrightarrow>
        (\<exists>value cx access db. hq_headers req ''x-elo-identity'' = Some (Text value) \<and> request_context E origin s req = Inr cx
          \<and> access_verify E (hk_proof hk) value cx = Inr access \<and> (a, va_identity access) \<in> set (rd_access_members (rp_db s))
          \<and> Revocations_get E (rp_revocations s) (va_credential access) = Inr None
          \<and> (va_companion access \<longrightarrow> va_credential access \<in> set (rp_admitted s))
          \<and> consume_access (rp_db s) access (hk_consume hk) = Inr db
          \<and> http_handle E (s\<lparr>rp_db := db\<rparr>) req m (Some (access_actor access)) (hk_handle hk) rnd = (s', rs)))"
proof -
  from assms obtain m where m: "gate_token E s req (hk_token hk) = Inr m"
    and r: "try_respond s (gate_proof E origin s req (hk_proof hk)) (\<lambda>verified.
          try_respond s (gate_device E s verified) (\<lambda>_.
          try_respond s (authorize_identity (rp_db s) m (map_option va_identity verified)) (\<lambda>_.
          try_respond s (gate_consume s verified (hk_consume hk)) (\<lambda>s1.
          http_handle E s1 req m (map_option access_actor verified) (hk_handle hk) rnd)))) = (s', rs)"
    by (auto simp: http_request_def gate_token_refuses split: if_splits sum.splits)
  from m obtain token where t: "request_mailbox req = Some m" "bearer req = Inr token"
    "mailbox_authorize E (rp_db s) m token (hq_method req = POST) (hk_token hk) = Inr ()" by (rule gate_token_Inr)
  from r assms(2) obtain verified s1 where
    p: "gate_proof E origin s req (hk_proof hk) = Inr verified" "gate_device E s verified = Inr ()"
      "authorize_identity (rp_db s) m (map_option va_identity verified) = Inr ()" "gate_consume s verified (hk_consume hk) = Inr s1"
      "http_handle E s1 req m (map_option access_actor verified) (hk_handle hk) rnd = (s', rs)"
    by (elim try_respond_pass) auto
  have "\<exists>value cx access db. hq_headers req ''x-elo-identity'' = Some (Text value) \<and> request_context E origin s req = Inr cx
          \<and> access_verify E (hk_proof hk) value cx = Inr access \<and> (a, va_identity access) \<in> set (rd_access_members (rp_db s))
          \<and> Revocations_get E (rp_revocations s) (va_credential access) = Inr None
          \<and> (va_companion access \<longrightarrow> va_credential access \<in> set (rp_admitted s))
          \<and> consume_access (rp_db s) access (hk_consume hk) = Inr db
          \<and> http_handle E (s\<lparr>rp_db := db\<rparr>) req m (Some (access_actor access)) (hk_handle hk) rnd = (s', rs)"
    if a: "a \<in> set (ancestors (rp_db s) m)" "a \<in> set (rd_access_roots (rp_db s))" for a
  proof -
    from p(3) a obtain access where v: "verified = Some access" "(a, va_identity access) \<in> set (rd_access_members (rp_db s))"
      by (cases verified) (auto simp: authorize_identity_def access_denied_def list_ex_iff split: if_splits)
    from p(4) obtain db where "consume_access (rp_db s) access (hk_consume hk) = Inr db" "s1 = s\<lparr>rp_db := db\<rparr>"
      by (auto simp: gate_consume_def v bindr_eq_Inr)
    with gate_proof_Inr(2) [OF p(1) v(1)] gate_device_Inr [OF p(2) [unfolded v(1)]] v(2) p(5) show ?thesis
      by (auto simp: v(1))
  qed
  with t show ?thesis by blast
qed

lemma consume_access_fresh:
  assumes "bt_get (rd_nonces db) (va_credential access, va_nonce access) = None" "length (rd_nonces db) < 4096"
    and "replica_now clock = Inr time" "time \<le> va_expires access"
  shows "\<exists>nonces. consume_access db access clock = Inr (db\<lparr>rd_nonces := nonces\<rparr>)"
proof -
  let ?live = "filter (\<lambda>(k, e). \<not> e < time) (rd_nonces db)"
  have none: "bt_get m k = None \<Longrightarrow> bt_get (filter P m) k = None" for m :: "(RecordId \<times> string, nat) btree_map" and k P
    by (induction m) (auto simp: bt_get_def split: if_splits)
  have live: "length ?live < 4096" by (rule le_less_trans [OF length_filter_le assms(2)])
  have "length (filter (\<lambda>((c, n), e). c = va_credential access) ?live) < 4096" by (rule le_less_trans [OF length_filter_le live])
  with live show ?thesis using assms(3,4) none [OF assms(1)] by (auto simp: consume_access_def Let_def bt_contains_def)
qed

text \<open>
  C26: members are let in. A request for a mailbox with its token that a device of a member signed with
  its own key, not retired and admitted if it is a companion, reaches its handler with the member as the
  actor, if it arrives within two minutes of its signature and its nonce is fresh.
\<close>

theorem member_request_admitted:
  assumes "signing_correct E" "access_codec E" "verify E b root = Inr credential" "ed_key_valid E root" "ed_public E key = vc_key credential"
    and "routed req" "request_mailbox req = Some m" "bearer req = Inr token" "hq_body req \<noteq> None"
    and "mailbox_authorize E (rp_db s) m token (hq_method req = POST) (hk_token hk) = Inr ()"
    and "request_context E origin s req = Inr cx" "Signer_proof E clock (Some bs) (Signer_new E credential key) cx = Inr encoded"
    and "hq_headers req ''x-elo-identity'' = Some (Text encoded)" "length bs = 32" "length encoded \<le> 16384"
    and "access_time clock = Inr issued" "access_time (hk_proof hk) = Inr now" "time_diff now issued \<le> REQUEST_WINDOW"
    and "replica_now (hk_consume hk) = Inr time" "time \<le> issued + REQUEST_WINDOW"
    and "Revocations_get E (rp_revocations s) (credential_id E credential) = Inr None"
    and "authorizing_device E credential = None \<or> credential_id E credential \<in> set (rp_admitted s)"
    and "\<forall>a \<in> set (ancestors (rp_db s) m). a \<in> set (rd_access_roots (rp_db s)) \<longrightarrow> (a, identity credential) \<in> set (rd_access_members (rp_db s))"
    and "bt_get (rd_nonces (rp_db s)) (credential_id E credential, encode_hex bs) = None" "length (rd_nonces (rp_db s)) < 4096"
  shows "\<exists>nonces. http_request E origin s req hk rnd
    = http_handle E (s\<lparr>rp_db := (rp_db s)\<lparr>rd_nonces := nonces\<rparr>\<rparr>) req m (Some (actor_of E credential)) (hk_handle hk) rnd"
proof -
  define access where "access = \<lparr>va_identity = identity credential, va_credential = credential_id E credential,
    va_companion = (authorizing_device E credential \<noteq> None), va_nonce = encode_hex bs, va_expires = min (issued + REQUEST_WINDOW) U64_MAX\<rparr>"
  have v: "access_verify E (hk_proof hk) encoded cx = Inr access"
    unfolding access_def
    by (rule access_sign_verifies [OF assms(1-4) _ assms(14-18), of key None])
      (use assms(5,12) in \<open>simp_all add: Signer_proof_def Signer_new_def\<close>)
  have "time \<le> va_expires access" using assms(20) replica_now_Inr [OF assms(19)] by (simp add: access_def MAX_INTEGER_def U64_MAX_def)
  with consume_access_fresh [of "rp_db s" access "hk_consume hk" time] assms(19,24,25) obtain nonces
    where c: "consume_access (rp_db s) access (hk_consume hk) = Inr ((rp_db s)\<lparr>rd_nonces := nonces\<rparr>)" by (auto simp: access_def)
  have "gate_token E s req (hk_token hk) = Inr m" using assms(7-10) by (simp add: gate_token_def)
  moreover have "gate_proof E origin s req (hk_proof hk) = Inr (Some access)" using v assms(11,13) by (simp add: gate_proof_def)
  moreover have "gate_device E s (Some access) = Inr ()"
    using assms(21,22) by (auto simp: gate_device_def access_def require_admitted_companion_def require_active_device_def)
  moreover have "authorize_identity (rp_db s) m (Some (va_identity access)) = Inr ()"
    using assms(23) by (auto simp: authorize_identity_def access_denied_def list_ex_iff access_def)
  moreover have "gate_consume s (Some access) (hk_consume hk) = Inr (s\<lparr>rp_db := (rp_db s)\<lparr>rd_nonces := nonces\<rparr>\<rparr>)"
    using c by (simp add: gate_consume_def)
  moreover have "access_actor access = actor_of E credential" by (simp add: access_actor_def access_def actor_of_def)
  ultimately have "http_request E origin s req hk rnd
    = http_handle E (s\<lparr>rp_db := (rp_db s)\<lparr>rd_nonces := nonces\<rparr>\<rparr>) req m (Some (actor_of E credential)) (hk_handle hk) rnd"
    using assms(6) by (simp add: http_request_def try_respond_def)
  then show ?thesis ..
qed

subsection \<open>Requests in flight\<close>

text \<open>How far a request has come through the middleware.\<close>

datatype flight =
    Tokened HttpRequest MailboxId
  | Proved HttpRequest MailboxId "VerifiedAccess option"
  | Identified HttpRequest MailboxId "VerifiedAccess option"
  | Admitted HttpRequest MailboxId "VerifiedAccess option"

text \<open>The store, the clock, the requests in flight and the requests a handler has run for.\<close>

record web_state =
  ws_store :: ReplicaStore
  ws_clock :: nat
  ws_flight :: "flight list"
  ws_served :: "HttpRequest list"

definition moved :: "flight \<Rightarrow> flight \<Rightarrow> web_state \<Rightarrow> web_state" where
  "moved f f' w = w\<lparr>ws_flight := f' # remove1 f (ws_flight w)\<rparr>"

inductive web_step :: "('z access_ext_scheme) \<Rightarrow> string \<Rightarrow> web_state \<Rightarrow> web_state \<Rightarrow> bool" for E origin where
  arrive: "routed req \<Longrightarrow> gate_token E (ws_store w) req (int (ws_clock w)) = Inr m \<Longrightarrow>
     web_step E origin w (w\<lparr>ws_flight := Tokened req m # ws_flight w\<rparr>)"
| prove: "Tokened req m \<in> set (ws_flight w) \<Longrightarrow> gate_proof E origin (ws_store w) req (int (ws_clock w)) = Inr verified \<Longrightarrow>
     gate_device E (ws_store w) verified = Inr () \<Longrightarrow> web_step E origin w (moved (Tokened req m) (Proved req m verified) w)"
| identify: "Proved req m verified \<in> set (ws_flight w) \<Longrightarrow>
     authorize_identity (rp_db (ws_store w)) m (map_option va_identity verified) = Inr () \<Longrightarrow>
     web_step E origin w (moved (Proved req m verified) (Identified req m verified) w)"
| admit: "Identified req m verified \<in> set (ws_flight w) \<Longrightarrow> gate_consume (ws_store w) verified (int (ws_clock w)) = Inr s \<Longrightarrow>
     web_step E origin w (moved (Identified req m verified) (Admitted req m verified) (w\<lparr>ws_store := s\<rparr>))"
| serve: "Admitted req m verified \<in> set (ws_flight w) \<Longrightarrow>
     http_handle E (ws_store w) req m (map_option access_actor verified) (int (ws_clock w)) rnd = (s, rs) \<Longrightarrow>
     web_step E origin w (w\<lparr>ws_store := s, ws_flight := remove1 (Admitted req m verified) (ws_flight w), ws_served := req # ws_served w\<rparr>)"
| abandon: "f \<in> set (ws_flight w) \<Longrightarrow> web_step E origin w (w\<lparr>ws_flight := remove1 f (ws_flight w)\<rparr>)"
| operator: "web_step E origin w (w\<lparr>ws_store := fst (replica_step E (ws_store w) (int (ws_clock w), i))\<rparr>)"
| tick: "ws_clock w \<le> t \<Longrightarrow> web_step E origin w (w\<lparr>ws_clock := t\<rparr>)"
| restart: "web_step E origin w (w\<lparr>ws_store := set_admitted_devices (ws_store w) [], ws_flight := []\<rparr>)"

inductive_cases web_stepE: "web_step E origin w w'"

subsection \<open>A proof is served once\<close>

definition has_proof :: "HttpRequest \<Rightarrow> bool" where
  "has_proof req \<longleftrightarrow> hq_headers req ''x-elo-identity'' \<noteq> None"

definition proof_of :: "HttpRequest \<Rightarrow> header option" where
  "proof_of req = hq_headers req ''x-elo-identity''"

text \<open>The access is what the proof of the request says, whenever it was verified.\<close>

definition vouches :: "('z access_ext_scheme) \<Rightarrow> HttpRequest \<Rightarrow> VerifiedAccess \<Rightarrow> bool" where
  "vouches E req access \<longleftrightarrow> (\<exists>value clock cx. proof_of req = Some (Text value) \<and> access_verify E clock value cx = Inr access)"

lemma vouches_unique: "vouches E req a \<Longrightarrow> vouches E req' a' \<Longrightarrow> proof_of req = proof_of req' \<Longrightarrow> a = a'"
  by (auto simp: vouches_def dest: same_proof_same_access)

fun flight_ok :: "('z access_ext_scheme) \<Rightarrow> flight \<Rightarrow> bool" where
  "flight_ok E (Tokened req m) = True"
| "flight_ok E (Proved req m v) = (if has_proof req then \<exists>a. v = Some a \<and> vouches E req a else v = None)"
| "flight_ok E (Identified req m v) = (if has_proof req then \<exists>a. v = Some a \<and> vouches E req a else v = None)"
| "flight_ok E (Admitted req m v) = (if has_proof req then \<exists>a. v = Some a \<and> vouches E req a else v = None)"

text \<open>The requests whose proof has been consumed: those admitted, and those already served.\<close>

fun flight_spent :: "flight \<Rightarrow> HttpRequest list" where
  "flight_spent (Admitted req m v) = (if has_proof req then [req] else [])"
| "flight_spent _ = []"

definition spent :: "web_state \<Rightarrow> HttpRequest multiset" where
  "spent w = (\<Sum>f \<in># mset (ws_flight w). mset (flight_spent f)) + mset (filter has_proof (ws_served w))"

definition remembered :: "('z access_ext_scheme) \<Rightarrow> web_state \<Rightarrow> HttpRequest \<Rightarrow> bool" where
  "remembered E w req \<longleftrightarrow> (\<exists>a. vouches E req a
     \<and> (ws_clock w \<le> va_expires a \<longrightarrow> bt_get (rd_nonces (rp_db (ws_store w))) (va_credential a, va_nonce a) = Some (va_expires a)))"

definition web_ok :: "('z access_ext_scheme) \<Rightarrow> web_state \<Rightarrow> bool" where
  "web_ok E w \<longleftrightarrow> replica_inv E (ws_store w) \<and> (\<forall>f \<in> set (ws_flight w). flight_ok E f)
     \<and> (\<forall>req \<in># spent w. remembered E w req) \<and> (\<forall>x. count (image_mset proof_of (spent w)) x \<le> 1)"

lemma spent_remove:
  assumes "f \<in> set (ws_flight w)"
  shows "spent w = spent (w\<lparr>ws_flight := remove1 f (ws_flight w)\<rparr>) + mset (flight_spent f)"
proof -
  have eq: "mset (ws_flight w) = add_mset f (mset (remove1 f (ws_flight w)))" using assms by simp
  have "(\<Sum>x \<in># mset (ws_flight w). mset (flight_spent x))
      = mset (flight_spent f) + (\<Sum>x \<in># mset (remove1 f (ws_flight w)). mset (flight_spent x))"
    unfolding eq by simp
  then show ?thesis by (simp add: spent_def ac_simps)
qed

lemma spent_simps [simp]:
  "spent (w\<lparr>ws_store := s\<rparr>) = spent w" "spent (w\<lparr>ws_clock := t\<rparr>) = spent w"
  "spent (w\<lparr>ws_flight := f # fs\<rparr>) = mset (flight_spent f) + spent (w\<lparr>ws_flight := fs\<rparr>)"
  by (simp_all add: spent_def)

text \<open>What keeps the invariant: a store that keeps its nonces up to their deadline, no new spent proof.\<close>

lemma web_ok_mono:
  assumes ok: "web_ok E w" and inv: "replica_inv E (ws_store w')" and fl: "\<forall>f \<in> set (ws_flight w'). flight_ok E f"
    and sub: "spent w' \<subseteq># spent w" and clk: "ws_clock w \<le> ws_clock w'"
    and keep: "\<And>k e. bt_get (rd_nonces (rp_db (ws_store w))) k = Some e \<Longrightarrow> ws_clock w' \<le> e \<Longrightarrow>
      bt_get (rd_nonces (rp_db (ws_store w'))) k = Some e"
  shows "web_ok E w'"
proof -
  have "remembered E w' req" if "req \<in># spent w'" for req
  proof -
    from that sub ok have "remembered E w req" by (auto simp: web_ok_def dest: mset_subset_eqD)
    with clk keep show ?thesis by (fastforce simp: remembered_def)
  qed
  moreover have "count (image_mset proof_of (spent w')) x \<le> 1" for x
    using ok mset_subset_eq_count [OF image_mset_subseteq_mono [OF sub], of proof_of x] by (force simp: web_ok_def intro: le_trans)
  ultimately show ?thesis using inv fl by (simp add: web_ok_def)
qed

lemma web_okD:
  assumes "web_ok E w"
  shows "replica_inv E (ws_store w)" "f \<in> set (ws_flight w) \<Longrightarrow> flight_ok E f" "req \<in># spent w \<Longrightarrow> remembered E w req"
    "count (image_mset proof_of (spent w)) x \<le> 1"
  using assms by (auto simp: web_ok_def)

lemma consume_access_timely: "consume_access db access clock = Inr db' \<Longrightarrow> clock \<le> int (va_expires access)"
  unfolding consume_access_def Let_def bindr_eq_Inr guard_eq_Inr using replica_now_Inr by fastforce

text \<open>A proof that was spent is refused: its nonce is stored until its deadline, and then it is late.\<close>

lemma spent_refused:
  assumes "web_ok E w" "req' \<in># spent w" "proof_of req' = proof_of req" "vouches E req a"
  shows "consume_access (rp_db (ws_store w)) a (int (ws_clock w)) \<noteq> Inr db"
proof
  assume c: "consume_access (rp_db (ws_store w)) a (int (ws_clock w)) = Inr db"
  from web_okD(3) [OF assms(1,2)] vouches_unique [OF _ assms(4,3)]
  have "ws_clock w \<le> va_expires a \<Longrightarrow> bt_get (rd_nonces (rp_db (ws_store w))) (va_credential a, va_nonce a) = Some (va_expires a)"
    by (auto simp: remembered_def)
  with consume_access_timely [OF c] consume_access_used [of "rp_db (ws_store w)" a "va_expires a" "int (ws_clock w)" db] c
  show False by simp
qed

lemma admit_ok:
  assumes ok: "web_ok E w" and f: "Identified req m verified \<in> set (ws_flight w)"
    and c: "gate_consume (ws_store w) verified (int (ws_clock w)) = Inr s"
  shows "web_ok E (moved (Identified req m verified) (Admitted req m verified) (w\<lparr>ws_store := s\<rparr>))"
proof -
  let ?w1 = "w\<lparr>ws_store := s, ws_flight := remove1 (Identified req m verified) (ws_flight w)\<rparr>"
  have st: "one_step E (int (ws_clock w)) (ws_store w) s" by (rule gate_consume_step [OF c])
  have sp: "spent w = spent ?w1" using spent_remove [OF f] by (simp add: spent_def)
  have ok1: "web_ok E ?w1"
    by (rule web_ok_mono [OF ok])
      (use one_step_inv [OF st] one_step_nonces [OF st] web_okD(1,2) [OF ok] sp in \<open>auto dest: set_remove1_subset [THEN subsetD]\<close>)
  have fo: "flight_ok E (Admitted req m verified)" using web_okD(2) [OF ok f] by simp
  have eq: "moved (Identified req m verified) (Admitted req m verified) (w\<lparr>ws_store := s\<rparr>)
      = ?w1\<lparr>ws_flight := Admitted req m verified # ws_flight ?w1\<rparr>" by (simp add: moved_def)
  show ?thesis
  proof (cases "has_proof req")
    case False
    show ?thesis unfolding eq
      by (rule web_ok_mono [OF ok1]) (use fo False web_okD(1,2) [OF ok1] in \<open>auto simp: spent_def\<close>)
  next
    case True
    with fo obtain a where a: "verified = Some a" "vouches E req a" by auto
    from c obtain db where db: "consume_access (rp_db (ws_store w)) a (int (ws_clock w)) = Inr db" "s = (ws_store w)\<lparr>rp_db := db\<rparr>"
      by (auto simp: gate_consume_def a(1) bindr_eq_Inr)
    have new: "proof_of req \<notin># image_mset proof_of (spent ?w1)"
    proof
      assume "proof_of req \<in># image_mset proof_of (spent ?w1)"
      then obtain r where "r \<in># spent ?w1" "proof_of r = proof_of req" by auto
      then show False using spent_refused [OF ok, of r req a db] sp a(2) db(1) by simp
    qed
    define w2 where "w2 = ?w1\<lparr>ws_flight := Admitted req m verified # ws_flight ?w1\<rparr>"
    have w2: "ws_store w2 = ws_store ?w1" "ws_flight w2 = Admitted req m verified # ws_flight ?w1"
        "remembered E w2 r = remembered E ?w1 r" "spent w2 = add_mset req (spent ?w1)" for r
      using True by (simp_all add: w2_def remembered_def spent_def)
    have "remembered E ?w1 req" using a(2) consume_access_Inr(1) [OF db(1)] by (auto simp: remembered_def db(2))
    then have "\<forall>r \<in># spent w2. remembered E w2 r" unfolding w2(3,4) using web_okD(3) [OF ok1] by auto
    moreover have "count (image_mset proof_of (spent w2)) x \<le> 1" for x
      using web_okD(4) [OF ok1, of x] new [unfolded not_in_iff] by (auto simp: w2(4))
    moreover have "\<forall>f \<in> set (ws_flight w2). flight_ok E f" "replica_inv E (ws_store w2)"
      using fo web_okD(1,2) [OF ok1] by (auto simp: w2(1,2))
    ultimately have "web_ok E w2" unfolding web_ok_def by blast
    then show ?thesis by (simp only: eq w2_def)
  qed
qed

lemma web_step_ok:
  assumes "web_step E origin w w'" "web_ok E w"
  shows "web_ok E w'"
  using assms
proof (induction rule: web_step.induct)
  case (arrive req w m)
  then show ?case by (intro web_ok_mono [OF arrive.prems]) (auto dest: web_okD(1,2) simp: spent_def)
next
  case (prove req m w verified)
  have "flight_ok E (Proved req m verified)"
    using gate_proof_Inr [OF prove.hyps(2)] by (cases verified) (auto simp: has_proof_def vouches_def proof_of_def)
  then show ?case
    using spent_remove [OF prove.hyps(1)]
      web_okD(1,2) [OF prove.prems]
    by (intro web_ok_mono [OF prove.prems]) (auto simp: moved_def dest: set_remove1_subset [THEN subsetD])
next
  case (identify req m verified w)
  have "flight_ok E (Identified req m verified)" using web_okD(2) [OF identify.prems identify.hyps(1)] by simp
  then show ?case
    using spent_remove [OF identify.hyps(1)]
      web_okD(1,2) [OF identify.prems]
    by (intro web_ok_mono [OF identify.prems]) (auto simp: moved_def dest: set_remove1_subset [THEN subsetD])
next
  case (admit req m verified w s)
  then show ?case by (intro admit_ok)
next
  case (serve req m verified w rnd s rs)
  have st: "one_step E (int (ws_clock w)) (ws_store w) s"
    using http_handle_step [of E "int (ws_clock w)" "ws_store w" req m "map_option access_actor verified" rnd] serve.hyps(2) by simp
  show ?case
    by (rule web_ok_mono [OF serve.prems])
      (use one_step_inv [OF st] one_step_nonces [OF st] web_okD(1,2) [OF serve.prems] spent_remove [OF serve.hyps(1)] in
        \<open>auto simp: spent_def dest: set_remove1_subset [THEN subsetD]\<close>)
next
  case (abandon f w)
  then show ?case
    using spent_remove [OF abandon.hyps(1)]
      web_okD(1,2) [OF abandon.prems]
    by (intro web_ok_mono [OF abandon.prems]) (auto dest: set_remove1_subset [THEN subsetD])
next
  case (operator w i)
  have st: "one_step E (int (ws_clock w)) (ws_store w) (fst (replica_step E (ws_store w) (int (ws_clock w), i)))"
    by (rule one_stepI) simp
  show ?case
    by (rule web_ok_mono [OF operator.prems]) (use one_step_inv [OF st] one_step_nonces [OF st] web_okD(1,2) [OF operator.prems] in auto)
next
  case (tick w t)
  then show ?case by (intro web_ok_mono [OF tick.prems]) (auto dest: web_okD(1,2))
next
  case (restart w)
  have st: "one_step E (int (ws_clock w)) (ws_store w) (set_admitted_devices (ws_store w) [])"
    by (rule one_stepI [where i = "In_Admitted []"]) simp
  show ?case
    by (rule web_ok_mono [OF restart.prems]) (use one_step_inv [OF st] one_step_nonces [OF st] web_okD(1,2) [OF restart.prems] in \<open>auto simp: spent_def\<close>)
qed

interpretation web: step_system "web_step E origin" "web_ok E" for E :: "('z access_ext_scheme)" and origin
  by unfold_locales (rule web_step_ok)

lemma distinct_count_le: "(\<And>x. count (mset xs) x \<le> 1) \<Longrightarrow> distinct xs"
proof (induction xs)
  case (Cons a xs)
  have "count (mset xs) x \<le> count (mset (a # xs)) x" for x by simp
  then have "count (mset xs) x \<le> 1" for x using Cons.prems [of x] le_trans by blast
  moreover have "count (mset xs) a = 0" using Cons.prems [of a] by simp
  ultimately show ?case using Cons.IH by (simp add: count_eq_zero_iff)
qed simp

text \<open>A replica whose service has just started for the first time.\<close>

definition web_start :: "ReplicaStore \<Rightarrow> nat \<Rightarrow> web_state" where
  "web_start s t = \<lparr>ws_store = s, ws_clock = t, ws_flight = [], ws_served = []\<rparr>"

lemma web_start_ok: "replica_inv E s \<Longrightarrow> web_ok E (web_start s t)"
  by (simp add: web_start_def web_ok_def spent_def)

text \<open>
  C15: a signed proof gets at most one request served. However the stages of any number of requests,
  the operations of the host, the passing of time and restarts interleave, among the requests a handler
  has run for no two carry the same proof, and in every state reached the tables of the replica are well
  formed.
\<close>

theorem proof_served_once:
  assumes "(web_step E origin)\<^sup>*\<^sup>* (web_start (new_replica allowed seed generation rv) t) w"
  shows "distinct (map proof_of (filter has_proof (ws_served w))) \<and> replica_ok E (rp_db (ws_store w))"
proof -
  have ok: "web_ok E w" by (rule web.run_good [OF assms web_start_ok [OF new_replica_inv]])
  have "count (mset (map proof_of (filter has_proof (ws_served w)))) x \<le> 1" for x
    using web_okD(4) [OF ok, of x] by (simp add: spent_def)
  then have "distinct (map proof_of (filter has_proof (ws_served w)))" by (rule distinct_count_le)
  with web_okD(1) [OF ok] show ?thesis by (simp add: replica_inv_def)
qed

end
