(* ===== verification/Replica_Web_Examples.thy ===== *)
theory Replica_Web_Examples
  imports Replica_Examples Replica_Web
begin

text \<open>
  A replica behind HTTP in a concrete world: that of theory Replica\_Examples with codes for the request
  proofs and for tokens of 43 letters. The owner of a mailbox with a member list asks for its inventory
  with a signed proof; the theorems about requests are applied to this request.
\<close>

declare One_nat_def [simp del]

subsection \<open>The world\<close>

text \<open>A text as bytes that can be read back in front of others.\<close>

definition hx_str :: "string \<Rightarrow> bytes" where
  "hx_str s = concat (map (\<lambda>c. [1, word_of_nat (of_char c)]) s) @ [0]"

fun hx_read :: "bytes \<Rightarrow> (string \<times> bytes) option" where
  "hx_read [] = None"
| "hx_read [x] = (if x = 0 then Some ([], []) else None)"
| "hx_read (x # c # r) = (if x = 0 then Some ([], c # r) else map_option (\<lambda>(s, t). (char_of (unat c) # s, t)) (hx_read r))"

lemma hx_read_str [simp]: "hx_read (hx_str s @ r) = Some (s, r)"
proof (induction s)
  case Nil
  show ?case by (cases r) (simp_all add: hx_str_def)
next
  case (Cons c s)
  have "char_of (unat (word_of_nat (of_char c) :: byte)) = c" by (simp add: unat_of_nat)
  with Cons show ?case by (simp add: hx_str_def)
qed

lemma length_hx_str [simp]: "length (hx_str s) = 2 * length s + 1"
  by (induction s) (simp_all add: hx_str_def)

definition hx_ser_proof :: "AccessProof \<Rightarrow> bytes" where
  "hx_ser_proof p = hx_str (ap_credential p) @ hx_str (ap_record p) @ (case ap_grant p of None \<Rightarrow> [0] | Some g \<Rightarrow> 1 # hx_str g)"

definition hx_dec_proof :: "bytes \<Rightarrow> AccessProof option" where
  "hx_dec_proof b =
     (case hx_read b of None \<Rightarrow> None | Some (c, r) \<Rightarrow>
     (case hx_read r of None \<Rightarrow> None | Some (d, r) \<Rightarrow>
     (case r of [] \<Rightarrow> None | x # r \<Rightarrow>
        if x = 0 then Some \<lparr>ap_credential = c, ap_record = d, ap_grant = None\<rparr>
        else map_option (\<lambda>(g, t). \<lparr>ap_credential = c, ap_record = d, ap_grant = Some g\<rparr>) (hx_read r))))"

definition hx_ser_pairing :: "Pairing \<Rightarrow> bytes" where
  "hx_ser_pairing d = hx_str (dn_credential d) @ hx_str (dn_grant d) @ hx_str (dn_seed d)"

definition hx_dec_pairing :: "bytes \<Rightarrow> Pairing option" where
  "hx_dec_pairing b =
     (case hx_read b of None \<Rightarrow> None | Some (c, r) \<Rightarrow>
     (case hx_read r of None \<Rightarrow> None | Some (g, r) \<Rightarrow>
        map_option (\<lambda>(s, t). \<lparr>dn_credential = c, dn_grant = g, dn_seed = s\<rparr>) (hx_read r)))"

lemma hx_codecs: "hx_dec_proof (hx_ser_proof p) = Some p" "hx_dec_pairing (hx_ser_pairing d) = Some d"
proof -
  show "hx_dec_proof (hx_ser_proof p) = Some p"
    using hx_read_str [of g "[]" for g] by (cases "ap_grant p") (simp_all add: hx_dec_proof_def hx_ser_proof_def)
  show "hx_dec_pairing (hx_ser_pairing d) = Some d"
    using hx_read_str [of "dn_seed d" "[]"] by (simp add: hx_dec_pairing_def hx_ser_pairing_def)
qed

text \<open>The code for base64: 32 bytes become 43 letters.\<close>

definition hx_encode :: "bytes \<Rightarrow> string" where
  "hx_encode b = (if length b = 32 then CHR ''t'' # ex_encode b @ replicate 10 CHR ''x'' else CHR ''l'' # ex_encode b)"

definition hx_decode :: "string \<Rightarrow> bytes option" where
  "hx_decode s =
     (case s of [] \<Rightarrow> None | c # r \<Rightarrow> Some (map (\<lambda>c. word_of_nat (of_char c)) (if c = CHR ''t'' then take 32 r else r)))"

lemma hx_decode_encode [simp]: "hx_decode (hx_encode b) = Some b"
  by (simp add: hx_decode_def hx_encode_def ex_decode_encode) (simp add: ex_encode_def comp_def map_idI)

definition hx_mailbox :: MailboxId where "hx_mailbox = bid 3"

definition hx_token :: "nat \<Rightarrow> string" where "hx_token n = hx_encode (bid n)"

definition hx_path :: string where "hx_path = ''/v1/mailboxes/'' @ encode_hex hx_mailbox @ ''/inventory''"

definition hx_cx :: RequestContext where
  "hx_cx = \<lparr>rc_origin = ''https://r'', rc_replica = bid 40, rc_method = ''GET'', rc_path = hx_path, rc_body = [], rc_transfer = [],
     rc_retention = []\<rparr>"

definition hx_access :: Access where
  "hx_access = \<lparr>as_v = 1, as_kind = ''replica.access.v2'', as_origin = rc_origin hx_cx, as_replica = encode_hex (bid 40),
     as_method = ''GET'', as_path = hx_path, as_body_hash = encode_hex (ex_last []), as_transfer = [], as_retention = [],
     as_issued = 2000, as_nonce = nonce32\<rparr>"

definition H :: access_ext where
  "H = replica_ext.extend (R\<lparr>b64url_decode := hx_decode, b64url_encode := hx_encode\<rparr>)
     (access_ext.fields hx_ser_proof hx_dec_proof hx_ser_pairing hx_dec_pairing (\<lambda>_. []) (\<lambda>_. None)
        (\<lambda>a. if a = hx_access then ex_body 1 5 130 else []) (by_index [(130, hx_access)]))"

lemma H_fields [example_simps]:
  "sha256 H = ex_last" "ed_key_valid H k = (length k = 32)" "ed_key_weak H k = (k = bid 0)" "ed_verify_strict H k x s = (s = ex_sign k x)"
  "ed_public H k = k" "ed_sign H = ex_sign" "b64_decode H t = Some (map (\<lambda>c. word_of_nat (of_char c)) t)"
  "age_parse H t = (if t = [] then None else Some t)" "json_from_slice H = ex_json"
  "dec_credential H j = Option.bind (by_index ex_credentials j) (\<lambda>c. ex_claimed c j)"
  "b64url_decode H = hx_decode" "b64url_encode H = hx_encode" "ser_access_proof H = hx_ser_proof" "dec_access_proof H = hx_dec_proof"
  "ser_pairing H = hx_ser_pairing" "dec_pairing H = hx_dec_pairing" "ser_pairing_grant H = (\<lambda>_. [])"
  "ser_access_request H a = (if a = hx_access then ex_body 1 5 130 else [])" "dec_access_request H = by_index [(130, hx_access)]"
  by (simp_all add: H_def access_ext.defs replica_ext.defs R_def)

lemma H_records:
  "strict_json H = strict_json W" "parse_bounded H = parse_bounded W" "parse H = parse W" "verify_signature H = verify_signature W" "sign H = sign W"
proof -
  have e: "json_from_slice H = json_from_slice W" "ed_sign H = ed_sign W" "ed_verify_strict H = ed_verify_strict W"
    by (simp_all add: H_fields W_def fun_eq_iff)
  show j: "strict_json H = strict_json W" by (intro ext) (simp only: strict_json_def e)
  show p: "parse_bounded H = parse_bounded W" by (intro ext) (simp only: parse_bounded_def j)
  show "parse H = parse W" by (intro ext) (simp only: parse_def p)
  show "verify_signature H = verify_signature W" by (intro ext) (simp only: verify_signature_def e)
  show "sign H = sign W" by (intro ext) (simp only: sign_def sign_bounded_def j p e)
qed

lemma H_ids [example_simps]: "of_root_key H (bid n) = bid n" "credential_id H cred41 = bid 41"
proof -
  have e: "sha256 H = sha256 R" by (simp add: H_fields R_fields)
  show "of_root_key H (bid n) = bid n" using R_ids(1) [of n] by (simp add: of_root_key_def hash_def e)
  show "credential_id H cred41 = bid 41" using R_ids(3) by (simp add: credential_id_def record_id_def of_record_bytes_def hash_def e)
qed

lemma H_verify: "verify H (ex_frame 1 1 41 1) (bid 1) = Inr cred41"
  unfolding verify_def
  by (subst verify_at_depth.simps)
    (simp add: H_records decode_with_def verifying_key_def example_simps ex_credentials_def ex_devices MAX_CREDENTIAL_BYTES_def
      ex_claimed_def)

lemma H_signing: "signing_correct H"
  by (simp add: signing_correct_def H_fields)

lemma H_codec: "access_codec H"
proof -
  have n: "strict_json H [] m \<noteq> Inr j" for m j by (simp add: strict_json_def)
  have o: "strict_json H (ex_body 1 5 130) MAX_RECORD = Inr (ex_object 1 5 130)"
    unfolding H_records by (rule W_strict_json) (simp_all add: ex_plain_def MAX_RECORD_def)
  have "dec_access_request H j = Some a" if "strict_json H (ser_access_request H a) MAX_RECORD = Inr j" for a j
    using that n o by (auto simp: H_fields by_index_object split: if_splits)
  moreover have "json_index j ''root_public_key'' = String (dc_root_public_key b)" if "dec_credential H j = Some b" for j b
    using that by (auto simp: H_fields ex_claimed_def split: Option.bind_splits if_splits)
  ultimately show ?thesis using n by (simp add: access_codec_def hx_codecs) (simp add: H_fields hx_codecs)
qed

subsection \<open>A signed request\<close>

definition hx_proof :: string where
  "hx_proof = hx_encode (hx_ser_proof \<lparr>ap_credential = hx_encode (ex_frame 1 1 41 1), ap_record = hx_encode (ex_frame 1 5 130 11),
     ap_grant = None\<rparr>)"

lemma hx_signed: "Signer_proof H 2000 (Some (replicate 32 7)) (Signer_new H cred41 (bid 11)) hx_cx = Inr hx_proof"
proof -
  have s: "sign H (ser_access_request H hx_access) (bid 11) = Inr (ex_record 1 5 130 11)"
    by (simp add: H_records H_fields W_sign ex_plain_def ex_supported_def)
  have a: "\<lparr>as_v = 1, as_kind = ''replica.access.v2'', as_origin = rc_origin hx_cx, as_replica = encode_hex (rc_replica hx_cx),
         as_method = rc_method hx_cx, as_path = rc_path hx_cx, as_body_hash = encode_hex (sha256 H (rc_body hx_cx)),
         as_transfer = rc_transfer hx_cx, as_retention = rc_retention hx_cx, as_issued = 2000, as_nonce = encode_hex (replicate 32 7)\<rparr> = hx_access"
    by (simp add: hx_access_def hx_cx_def H_fields nonce32_def)
  have t: "access_time 2000 = Inr 2000" "random_hex (Some (replicate 32 7)) = Inr (encode_hex (replicate 32 7))"
    by (simp_all add: access_time_def random_hex_def)
  show ?thesis
    unfolding Signer_proof_def access_sign_def t bindr_Inr map_err_simps a s
    using s by (simp add: Signer_new_def H_fields device_facts W_record hx_proof_def)
qed

lemma hx_short: "length hx_proof \<le> 16384"
proof -
  have "length (hx_encode b) \<le> length b + 11" for b by (simp add: hx_encode_def ex_encode_def)
  from this [of "hx_ser_proof \<lparr>ap_credential = hx_encode (ex_frame 1 1 41 1), ap_record = hx_encode (ex_frame 1 5 130 11), ap_grant = None\<rparr>"]
    this [of "ex_frame 1 1 41 1"] this [of "ex_frame 1 5 130 11"]
  show ?thesis by (simp add: hx_proof_def hx_ser_proof_def)
qed

lemma hx_times: "access_time 2000 = Inr 2000" "access_time 3000 = Inr 3000" "time_diff 2000 2000 \<le> REQUEST_WINDOW" "time_diff 3000 2000 \<le> REQUEST_WINDOW"
  by (simp_all add: access_time_def time_diff_def REQUEST_WINDOW_def)

definition hx_verified :: VerifiedAccess where
  "hx_verified = \<lparr>va_identity = bid 1, va_credential = bid 41, va_companion = False, va_nonce = nonce32, va_expires = 122000\<rparr>"

lemma hx_verifies: "access_verify H 2000 hx_proof hx_cx = Inr hx_verified" "access_verify H 3000 hx_proof hx_cx = Inr hx_verified"
proof -
  have k: "ed_key_valid H (bid 1)" by (simp add: H_fields)
  have s: "access_sign H 2000 (Some (replicate 32 7)) (bid 11) (b64url_encode H (rec_bytes (vc_record cred41))) None hx_cx = Inr hx_proof"
    using hx_signed by (simp add: Signer_proof_def Signer_new_def)
  note v = access_sign_verifies [OF H_signing H_codec H_verify k s _ hx_short hx_times(1)]
  have e: "(case None :: string option of None \<Rightarrow> Inr (vc_key cred41, U64_MAX) | Some g \<Rightarrow> verify_grant H (vc_key cred41) g hx_cx now)
      = Inr (ed_public H (bid 11), U64_MAX)" for now by (simp add: device_facts H_fields)
  have alone: "authorizing_device H cred41 = None" by (simp add: authorizing_device_def cred41_def ex_device_def)
  have x: "\<lparr>va_identity = identity cred41, va_credential = credential_id H cred41, va_companion = (authorizing_device H cred41 \<noteq> None),
      va_nonce = encode_hex (replicate 32 7), va_expires = min (2000 + REQUEST_WINDOW) U64_MAX\<rparr> = hx_verified"
    by (simp add: hx_verified_def device_facts H_ids alone nonce32_def REQUEST_WINDOW_def U64_MAX_def)
  show "access_verify H 2000 hx_proof hx_cx = Inr hx_verified" using v [OF _ hx_times(1,3) e] x by simp
  show "access_verify H 3000 hx_proof hx_cx = Inr hx_verified" using v [OF _ hx_times(2,4) e] x by simp
qed

theorem proof_binds_request_witness:
  "\<exists>a1 a2. access_verify H 2000 hx_proof hx_cx = Inr a1 \<and> access_verify H 3000 hx_proof hx_cx = Inr a2 \<and> a1 = a2"
  using proof_binds_request [OF hx_verifies] hx_verifies by blast

subsection \<open>The request at the replica\<close>

definition hx_req :: HttpRequest where
  "hx_req = \<lparr>hq_method = GET, hq_path = hx_path, hq_target = hx_path,
     hq_headers = (\<lambda>n. if n = ''authorization'' then Some (Text (''Bearer '' @ hx_token 1)) else if n = ''x-elo-identity'' then Some (Text hx_proof) else None),
     hq_body = Some [], hq_endpoint = At_Inventory (Inr (0, 10))\<rparr>"

definition hx_db :: replica_db where
  "hx_db = (empty_replica (bid 40) nonce32)\<lparr>rd_mailboxes := [(hx_mailbox, \<lparr>mb_read = bid 1, mb_write = bid 2, mb_quota = 100000\<rparr>)],
     rd_access_roots := [hx_mailbox], rd_access_members := [(hx_mailbox, bid 1)]\<rparr>"

lemma hx_db_sel [simp]:
  "rd_mailboxes hx_db = [(hx_mailbox, \<lparr>mb_read = bid 1, mb_write = bid 2, mb_quota = 100000\<rparr>)]" "rd_delegations hx_db = []"
  "rd_access_roots hx_db = [hx_mailbox]" "rd_access_members hx_db = [(hx_mailbox, bid 1)]" "rd_nonces hx_db = []" "rd_bodies hx_db = []"
  "rd_locators hx_db = []" "rd_requests hx_db = []" "rd_acceptances hx_db = []" "rd_deliveries hx_db = []" "rd_seed hx_db = bid 40"
  by (simp_all add: hx_db_def empty_replica_def)

lemma split_slash_append: "CHR ''/'' \<notin> set a \<Longrightarrow> split_slash (a @ CHR ''/'' # b) = a # split_slash b"
  by (induction a) auto

lemma hex_no_slash: "CHR ''/'' \<notin> set (encode_hex b)"
proof -
  have "hex_digit n \<noteq> CHR ''/''" if "n < 16" for n
    using digit_hex_digit [OF that] by (auto simp: digit_def)
  moreover have "unat x div 16 < 16" for x :: byte using unat_byte_less [of x] by (simp add: less_mult_imp_div_less)
  ultimately have "CHR ''/'' \<notin> set (encode_byte x)" for x
    by (simp add: encode_byte_def) (metis mod_less_divisor zero_less_numeral)
  then show ?thesis by (auto simp: encode_hex_def)
qed

lemma hx_mailbox_of: "request_mailbox hx_req = Some hx_mailbox"
proof -
  have p: "hx_path = [] @ CHR ''/'' # ''v1'' @ CHR ''/'' # ''mailboxes'' @ CHR ''/'' # encode_hex hx_mailbox @ CHR ''/'' # ''inventory''"
    by (simp add: hx_path_def)
  have "split_slash hx_path = [] # ''v1'' # ''mailboxes'' # encode_hex hx_mailbox # split_slash ''inventory''"
    unfolding p by (simp add: split_slash_append [OF hex_no_slash] del: append.simps split_slash.simps add: split_slash_append)
  then show ?thesis by (simp add: request_mailbox_def mailbox_part_def hx_req_def hx_mailbox_def Let_def)
qed

lemma hx_bearer: "bearer hx_req = Inr (hx_token 1)"
  by (simp add: bearer_def hx_req_def strip_prefix_def) (simp add: hx_token_def hx_encode_def ex_encode_def)

lemma hx_token_hash: "token_hash H (hx_token n) = Inr (bid n)"
proof -
  have "last (0 # bid n) = word_of_nat n" by (simp add: bid_def numeral_eq_Suc)
  then show ?thesis by (simp add: token_hash_def hx_token_def H_fields ex_last_def) (simp add: bid_def)
qed

lemma hx_authorize:
  "rd_delegations db = [] \<Longrightarrow> rd_mailboxes db = rd_mailboxes hx_db \<Longrightarrow> mailbox_authorize H db hx_mailbox (hx_token 1) False clock = Inr ()"
  by (simp add: mailbox_authorize_def hx_token_hash bt_get_def)

lemma hx_context: "rd_seed (rp_db s) = bid 40 \<Longrightarrow> request_context H ''https://r'' s hx_req = Inr hx_cx"
  by (simp add: request_context_def header_text_def hx_req_def hx_cx_def replica_key_def H_fields)

definition hx_clocks :: http_clocks where
  "hx_clocks = \<lparr>hk_token = 3000, hk_proof = 3000, hk_consume = 3000, hk_handle = 3000\<rparr>"

lemma hx_active: "Revocations_get H rx_registry c = Inr None"
  by (simp add: Revocations_get_def rx_registry_def file_content_def)

text \<open>The inventory of an empty mailbox.\<close>

definition hx_page :: Inventory where
  "hx_page = \<lparr>iv_storage_generation = nonce32, iv_head = 0, iv_entries = [], iv_requested_messages = []\<rparr>"

lemma hx_handled:
  "http_handle H (ex_store (hx_db\<lparr>rd_nonces := ns\<rparr>)) hx_req hx_mailbox actor 3000 rnd
     = (ex_store (hx_db\<lparr>rd_nonces := ns\<rparr>), \<lparr>rs_status = 200, rs_payload = P_Inventory hx_page\<rparr>)"
proof -
  let ?db = "hx_db\<lparr>rd_nonces := ns\<rparr>"
  have a: "mailbox_authorize H ?db hx_mailbox (hx_token 1) False 3000 = Inr ()" by (rule hx_authorize) simp_all
  have r: "active_requests H rx_registry ?db hx_mailbox 3000 3000 = (?db, Inr [])"
    by (simp add: active_requests_def ex_forest bs_of_list_id)
  have g: "rd_generation ?db = nonce32" by (simp add: hx_db_def empty_replica_def)
  show ?thesis
    by (simp add: http_handle_def hx_req_def reject_def http_inventory_def hx_bearer [unfolded hx_req_def] try_respond_def answer_def
        replica_inventory_def a r g ex_now ex_sweep_nothing inventory_page_def inventory_head_def hx_page_def MAX_INTEGER_def Let_def)
qed

definition hx_done :: ReplicaStore where
  "hx_done = ex_store (hx_db\<lparr>rd_nonces := [((bid 41, nonce32), 122000)]\<rparr>)"

lemma hx_gates:
  "routed hx_req" "gate_token H (ex_store hx_db) hx_req 3000 = Inr hx_mailbox"
  "gate_proof H ''https://r'' (ex_store hx_db) hx_req 3000 = Inr (Some hx_verified)"
  "gate_device H (ex_store hx_db) (Some hx_verified) = Inr ()"
  "authorize_identity hx_db hx_mailbox (Some (va_identity hx_verified)) = Inr ()"
  "gate_consume (ex_store hx_db) (Some hx_verified) 3000 = Inr hx_done"
proof -
  have m: "hq_method hx_req \<noteq> POST" "hq_body hx_req = Some []" "hq_headers hx_req ''x-elo-identity'' = Some (Text hx_proof)"
    by (simp_all add: hx_req_def)
  show "routed hx_req" by (simp add: routed_def hx_req_def)
  show "gate_token H (ex_store hx_db) hx_req 3000 = Inr hx_mailbox"
    by (simp add: gate_token_def hx_mailbox_of hx_bearer m hx_authorize)
  show "gate_proof H ''https://r'' (ex_store hx_db) hx_req 3000 = Inr (Some hx_verified)"
    by (simp add: gate_proof_def m hx_context hx_verifies)
  show "gate_device H (ex_store hx_db) (Some hx_verified) = Inr ()"
    by (simp add: gate_device_def hx_verified_def require_active_device_def hx_active)
  show "authorize_identity hx_db hx_mailbox (Some (va_identity hx_verified)) = Inr ()"
    by (simp add: authorize_identity_def access_denied_def ex_forest hx_verified_def)
  show "gate_consume (ex_store hx_db) (Some hx_verified) 3000 = Inr hx_done"
    by (simp add: gate_consume_def consume_access_def hx_verified_def ex_now hx_done_def bt_contains_def bt_get_def Let_def)
qed

lemma hx_answered:
  "http_handle H hx_done hx_req hx_mailbox actor 3000 rnd = (hx_done, \<lparr>rs_status = 200, rs_payload = P_Inventory hx_page\<rparr>)"
  unfolding hx_done_def by (rule hx_handled)

lemma hx_requested:
  "http_request H ''https://r'' (ex_store hx_db) hx_req hx_clocks None = (hx_done, \<lparr>rs_status = 200, rs_payload = P_Inventory hx_page\<rparr>)"
  by (simp add: http_request_def hx_clocks_def hx_gates try_respond_def hx_answered)

theorem request_needs_member_witness:
  "\<exists>value access. hq_headers hx_req ''x-elo-identity'' = Some (Text value) \<and> access_verify H 3000 value hx_cx = Inr access
     \<and> (hx_mailbox, va_identity access) \<in> set (rd_access_members hx_db)"
proof -
  have "rs_status \<lparr>rs_status = 200, rs_payload = P_Inventory hx_page\<rparr> < 400" by simp
  from request_needs_member [OF hx_requested disjI2 [OF this]] hx_mailbox_of obtain v cx access where
    "hq_headers hx_req ''x-elo-identity'' = Some (Text v)" "request_context H ''https://r'' (ex_store hx_db) hx_req = Inr cx"
    "access_verify H (hk_proof hx_clocks) v cx = Inr access" "(hx_mailbox, va_identity access) \<in> set (rd_access_members hx_db)"
    by (fastforce simp: ex_forest)
  then show ?thesis using hx_context [of "ex_store hx_db"] by (auto simp: hx_clocks_def)
qed

theorem member_request_admitted_witness:
  "\<exists>nonces. http_request H ''https://r'' (ex_store hx_db) hx_req hx_clocks None
     = (ex_store (hx_db\<lparr>rd_nonces := nonces\<rparr>), \<lparr>rs_status = 200, rs_payload = P_Inventory hx_page\<rparr>)"
proof -
  have k: "ed_key_valid H (bid 1)" "ed_public H (bid 11) = vc_key cred41" by (simp_all add: H_fields device_facts)
  have q: "hq_body hx_req \<noteq> None" "hq_headers hx_req ''x-elo-identity'' = Some (Text hx_proof)"
    "mailbox_authorize H (rp_db (ex_store hx_db)) hx_mailbox (hx_token 1) (hq_method hx_req = POST) (hk_token hx_clocks) = Inr ()"
    by (simp_all add: hx_req_def hx_authorize)
  have t: "access_time (hk_proof hx_clocks) = Inr 3000" "replica_now (hk_consume hx_clocks) = Inr 3000" "(3000 :: nat) \<le> 2000 + REQUEST_WINDOW"
    by (simp_all add: hx_clocks_def hx_times ex_now REQUEST_WINDOW_def)
  have c: "request_context H ''https://r'' (ex_store hx_db) hx_req = Inr hx_cx" by (rule hx_context) simp
  have r: "Revocations_get H (rp_revocations (ex_store hx_db)) (credential_id H cred41) = Inr None" by (simp add: hx_active)
  have a: "authorizing_device H cred41 = None \<or> credential_id H cred41 \<in> set (rp_admitted (ex_store hx_db))"
    by (simp add: authorizing_device_def cred41_def ex_device_def)
  have "\<exists>nonces. http_request H ''https://r'' (ex_store hx_db) hx_req hx_clocks None
    = http_handle H ((ex_store hx_db)\<lparr>rp_db := (rp_db (ex_store hx_db))\<lparr>rd_nonces := nonces\<rparr>\<rparr>) hx_req hx_mailbox
        (Some (actor_of H cred41)) (hk_handle hx_clocks) None"
    by (rule member_request_admitted [OF H_signing H_codec H_verify k hx_gates(1) hx_mailbox_of hx_bearer q(1,3) c hx_signed q(2) _ hx_short
          hx_times(1) t(1) hx_times(4) t(2,3) r a])
      (simp_all add: ex_forest device_facts bt_get_def)
  then show ?thesis by (simp add: hx_clocks_def hx_handled)
qed

subsection \<open>The service\<close>

definition hx_descriptor :: MailboxDescriptor where
  "hx_descriptor = \<lparr>md_mailbox_id = hx_mailbox, md_read_token = hx_token 1, md_write_token = hx_token 2\<rparr>"

definition hx_reserved :: replica_db where
  "hx_reserved = (empty_replica (bid 40) nonce32)\<lparr>rd_mailboxes := [(hx_mailbox, \<lparr>mb_read = bid 1, mb_write = bid 2, mb_quota = 100000\<rparr>)]\<rparr>"

lemma hx_setup:
  "fst (replica_step H rx_new (3000, In_Reserve hx_descriptor 100000)) = ex_store hx_reserved"
  "fst (replica_step H (ex_store hx_reserved) (3000, In_Members hx_mailbox [bid 1])) = ex_store hx_db"
proof -
  have s: "rx_new = ex_store (empty_replica (bid 40) nonce32)" by (simp add: new_replica_def ex_store_def)
  have "bid 1 \<noteq> bid 2" by (simp add: bid_def)
  then show "fst (replica_step H rx_new (3000, In_Reserve hx_descriptor 100000)) = ex_store hx_reserved"
    unfolding s
    by (simp add: atomically_def reserve_mailbox_def hx_descriptor_def hx_token_hash MAX_INTEGER_def hx_reserved_def)
      (simp add: empty_replica_def bt_get_def)
  have f: "root_mailbox hx_reserved hx_mailbox = Inr hx_mailbox" "bt_contains (rd_mailboxes hx_reserved) hx_mailbox"
    by (simp_all add: ex_forest hx_reserved_def bt_contains_def bt_get_def empty_replica_def)
  show "fst (replica_step H (ex_store hx_reserved) (3000, In_Members hx_mailbox [bid 1])) = ex_store hx_db"
    by (simp add: atomically_def set_space_members_def f) (simp add: hx_reserved_def hx_db_def empty_replica_def bt_contains_def bt_get_def)
qed

abbreviation hx_state :: "ReplicaStore \<Rightarrow> flight list \<Rightarrow> HttpRequest list \<Rightarrow> web_state" where
  "hx_state s fs served \<equiv> \<lparr>ws_store = s, ws_clock = 3000, ws_flight = fs, ws_served = served\<rparr>"

lemma hx_steps:
  "(web_step H ''https://r'')\<^sup>*\<^sup>* (web_start rx_new 3000) (hx_state hx_done [] [hx_req])"
proof -
  let ?step = "web_step H ''https://r''"
  have s1: "?step (web_start rx_new 3000) (hx_state (ex_store hx_reserved) [] [])"
    using operator [of H "''https://r''" "web_start rx_new 3000" "In_Reserve hx_descriptor 100000"] hx_setup(1)
    by (simp add: web_start_def del: replica_step.simps)
  have s2: "?step (hx_state (ex_store hx_reserved) [] []) (hx_state (ex_store hx_db) [] [])"
    using operator [of H "''https://r''" "hx_state (ex_store hx_reserved) [] []" "In_Members hx_mailbox [bid 1]"] hx_setup(2)
    by (simp del: replica_step.simps)
  have s3: "?step (hx_state (ex_store hx_db) [] []) (hx_state (ex_store hx_db) [Tokened hx_req hx_mailbox] [])"
    using arrive [of hx_req H "hx_state (ex_store hx_db) [] []" hx_mailbox "''https://r''"] hx_gates(1,2) by simp
  have s4: "?step (hx_state (ex_store hx_db) [Tokened hx_req hx_mailbox] []) (hx_state (ex_store hx_db) [Proved hx_req hx_mailbox (Some hx_verified)] [])"
    using prove [of hx_req hx_mailbox "hx_state (ex_store hx_db) [Tokened hx_req hx_mailbox] []" H "''https://r''" "Some hx_verified"] hx_gates(3,4)
    by (simp add: moved_def)
  have s5: "?step (hx_state (ex_store hx_db) [Proved hx_req hx_mailbox (Some hx_verified)] [])
      (hx_state (ex_store hx_db) [Identified hx_req hx_mailbox (Some hx_verified)] [])"
    using identify [of hx_req hx_mailbox "Some hx_verified" "hx_state (ex_store hx_db) [Proved hx_req hx_mailbox (Some hx_verified)] []"] hx_gates(5)
    by (simp add: moved_def)
  have s6: "?step (hx_state (ex_store hx_db) [Identified hx_req hx_mailbox (Some hx_verified)] [])
      (hx_state hx_done [Admitted hx_req hx_mailbox (Some hx_verified)] [])"
    using admit [of hx_req hx_mailbox "Some hx_verified" "hx_state (ex_store hx_db) [Identified hx_req hx_mailbox (Some hx_verified)] []" hx_done]
      hx_gates(6) by (simp add: moved_def)
  have s7: "?step (hx_state hx_done [Admitted hx_req hx_mailbox (Some hx_verified)] []) (hx_state hx_done [] [hx_req])"
    using serve [of hx_req hx_mailbox "Some hx_verified" "hx_state hx_done [Admitted hx_req hx_mailbox (Some hx_verified)] []" H None] hx_answered
    by simp
  note into = converse_rtranclp_into_rtranclp [of ?step]
  show ?thesis by (rule into [OF s1 into [OF s2 into [OF s3 into [OF s4 into [OF s5 into [OF s6 into [OF s7 rtranclp.rtrancl_refl]]]]]]])
qed

theorem proof_served_once_witness:
  "distinct (map proof_of (filter has_proof (ws_served (hx_state hx_done [] [hx_req])))) \<and> has_proof hx_req"
  using proof_served_once [OF hx_steps] by (simp add: has_proof_def hx_req_def)

end
