(* ===== verification/Spec2Isabelle.thy ===== *)
theory Spec2Isabelle
  imports Call_Witnesses Storage_Examples Replica_Web_Examples
begin

text \<open>
  A verification development for elo.now, an end-to-end encrypted messenger whose spaces are
  governed by signed, content-addressed records instead of a server.

  \<^bold>\<open>The program.\<close> Every device holds a credential anchored at an identity root
  (\<^verbatim>\<open>elo-core/src/identity.rs\<close>). A space is a signed genesis record and, per stream, a chain
  of signed configurations that say which identities and devices are members
  (\<^verbatim>\<open>authority.rs\<close>, \<^verbatim>\<open>authority/recovery.rs\<close>). A pinned witness may order admissions it has
  evidence for (\<^verbatim>\<open>authority/witness.rs\<close>, \<^verbatim>\<open>authority/witness/durable.rs\<close>). Chat records count only
  if the authority admits them. A call service receives a compact proof of an authority
  (\<^verbatim>\<open>authority/call_proof.rs\<close>, \<^verbatim>\<open>authority/checkpoint.rs\<close>), verifies signed call commands
  (\<^verbatim>\<open>calls.rs\<close>, \<^verbatim>\<open>calls/delegation.rs\<close>) and runs them against a registry of active calls
  (\<^verbatim>\<open>elo-call-service/src/registry.rs\<close>), behind an engine that keeps authorization fences
  and replay receipts in a database (\<^verbatim>\<open>elo-call-service/src/engine.rs\<close>). The witness is a service of
  its own: clients send it signed commands (\<^verbatim>\<open>elo-core/src/witness.rs\<close>), it decides them against the
  authority it stores (\<^verbatim>\<open>elo-witness/src/engine.rs\<close>) and appends a signed receipt to a journal that
  the next start verifies (\<^verbatim>\<open>elo-witness/src/journal.rs\<close>). Attachments go to a storage broker of their
  own: members send it signed commands (\<^verbatim>\<open>elo-core/src/attachments/broker.rs\<close>), it checks them against
  a membership proof and a fresh statement of the witness (\<^verbatim>\<open>elo-storage/src/freshness.rs\<close>), keeps
  quotas, provider credentials and transfer tokens in its tables (\<^verbatim>\<open>elo-storage/src/engine.rs\<close>) and
  passes the bytes on to a provider (\<^verbatim>\<open>elo-storage/src/server.rs\<close>). The ciphertexts of messages and
  files lie on replicas: a device wraps a ciphertext with a signed claim of ownership and retention
  (\<^verbatim>\<open>erasure.rs\<close>, \<^verbatim>\<open>message_retention.rs\<close>, \<^verbatim>\<open>retention_access.rs\<close>) and uploads it to a mailbox; the
  replica keeps objects, deliveries, message lifetimes, requests and tombstones in its tables
  (\<^verbatim>\<open>replica.rs\<close>, \<^verbatim>\<open>replica/retention.rs\<close>, \<^verbatim>\<open>replica/packing.rs\<close>, \<^verbatim>\<open>replica/erasure.rs\<close>) and serves them
  over HTTP to signed requests (\<^verbatim>\<open>http.rs\<close>, \<^verbatim>\<open>sync/access.rs\<close>, \<^verbatim>\<open>sync/endpoint.rs\<close>).

  \<^bold>\<open>The theories.\<close>
  \<^item> Prelude: the result monad (\<open>bindr\<close> is the question-mark operator, \<open>Inl\<close> the error),
    64-bit arithmetic in the saturating, checked and wrapping forms the source uses, slices.
  \<^item> Collections: the ordered map and set of the standard library as increasing lists; the
    locale \<open>keyed_store\<close> is the interface the components use and \<open>btree\<close> interprets it.
  \<^item> Machines: handlers as machines; \<open>invariant_machine\<close> and \<open>growing_machine\<close> lift one step to
    every run. They are interpreted by the authority (\<open>authority\<close>) and by the call registry
    (\<open>registry\<close>, \<open>registry_limits\<close>). \<open>step_system\<close> and \<open>clocked_system\<close> do the same for the step
    relations of the services (\<open>calls\<close>, \<open>journal\<close>, \<open>broker\<close>, \<open>web\<close>).
  \<^item> Externals: what the sources call but do not contain (SHA-256, Ed25519, base64, age
    recipients, the JSON tokenizer), as fields of a record that later theories extend with the
    derived serde decoders of their types. Clocks, random bytes and sealed payloads are
    arguments of the operations that use them.
  \<^item> Ids, Signed_Record, Chat_Message: \<^verbatim>\<open>ids.rs\<close> and \<^verbatim>\<open>record.rs\<close>. Lemmas: identifiers
    have one text; the parser accepts exactly the framed strict bodies; signing and parsing are
    inverse; a valid message has one of four shapes.
  \<^item> Identity, Revocations: \<^verbatim>\<open>identity.rs\<close> and \<^verbatim>\<open>identity/revocations.rs\<close>. Lemmas: a verified
    credential has a signature chain to the root; tombstones are permanent and the index of the
    registry is consistent with its files.
  \<^item> Authority_State, Authority_Chain: data and accessors of \<^verbatim>\<open>authority.rs\<close>, the walk along
    parent links and the structural check \<open>validate_config\<close>. The inductive \<open>ancestry\<close> specifies
    the walk.
  \<^item> Authority_Witness: the witness protocols; \<open>finish_witness_admission\<close> computes the only
    configuration an admission may produce.
  \<^item> Authority_Transition: \<open>apply_config\<close> with everything it checks, head selection, recovery.
    \<open>authority_ok\<close> is the invariant, \<open>authority_le\<close> the order a run moves up in.
  \<^item> Authority_Admission: audiences, admission of chat records, preparation of messages.
  \<^item> Authority_Proofs: checkpoints, membership proofs and the snapshot reader.
  \<^item> Witness_Wire, Witness_Journal, Witness_Engine: the messages of the witness, its journal with
    startup checks, clock guard and budgets, and one definition per operation of its engine.
  \<^item> Witness_Tables, Witness_Invariant: every operation is a sequence of \<open>edit\<close>s of the rows of one
    space; what an edit keeps; the invariant \<open>journal_ok\<close> of the journal.
  \<^item> Witness_Service, Witness_Digest, Witness_Client: the step relation \<open>witness_step\<close> of the running
    witness with restarts; it can always start again, changes are authorized and never taken back,
    a command takes effect once, budgets hold; the digest of a space can be read back; clients
    accept its freshness statements; the proof of work is found exactly when there is one.
  \<^item> Calls: commands, signals and delegated call keys.
  \<^item> Registry, Registry_Invariant: every operation of the call registry, its invariant, and what
    holds of every run: capacity, one room per device, key rotation, authorization, eviction.
  \<^item> Call_Engine, Call_Engine_Invariant: every operation of the call engine over its two
    database tables and its cache, and the invariant \<open>engine_ok\<close> with a lemma per stage of
    \<open>execute\<close>.
  \<^item> Call_Service: the step relation \<open>service_step\<close> of a service whose requests are verified
    outside the lock, with a clock and restarts; fences never roll back, a blocked conversation
    stays closed, a command takes effect once, live calls are held under an unblocked fence.
  \<^item> Call_Refinement: the abstract admission \<open>spec_execute\<close> over durable state only, and the
    proof that the engine with its cache refines it.
  \<^item> Net: addresses and decimal numbers as text, of the standard library.
  \<^item> Storage_Broker, Storage_Engine, Storage_Server: the storage commands, every operation of the
    broker on its tables, and the stages of its handlers: leases, commands, uploads, downloads.
  \<^item> Storage_Invariant, Storage_Service, Storage_Guarantees: the invariant \<open>broker_ok\<close> of the tables,
    the step relation \<open>storage_step\<close> with transfers in flight, one garbage collection at a time,
    restarts and what the provider holds; quotas, a completed attachment until its deadline, one
    effect per command, who may change what, exact transfers.
  \<^item> Owned_Content: retention policies, message capabilities and the signed envelope of a ciphertext;
    what a device wraps, a replica reads back.
  \<^item> Replica_Store, Replica_Retention, Replica_Objects: the tables of a replica with the cascades and
    triggers of the schema, and every operation on them; a statement outside a transaction takes
    effect even if the operation then fails.
  \<^item> Replica_Forest, Replica_Invariant, Replica_Service, Replica_Requests, Replica_Effects: the mailbox
    forest, the invariant \<open>replica_ok\<close> of the tables (shape, deliveries, packed objects, messages,
    quotas), that every operation keeps it, and what an operation may remove.
  \<^item> Replica_Machine, Replica_Guarantees, Replica_Lifetimes: all operations as one machine (\<open>rep\<close>,
    \<open>erased\<close>) and what holds of its runs: quotas, uploads served, receipts, the only reasons a delivery
    is lost, deadlines, refills on request, tombstones, erased accounts, complete inventories.
  \<^item> Replica_Access, Replica_Http: signed request proofs and pairing grants, the authorization
    middleware and the handlers. A proof is accepted for one request only; a device's own proofs and
    those of a temporary key it certified are accepted.
  \<^item> Replica_Web: every handler is at most one step of the machine above. Only members get past the
    middleware, members do get past it, and in the step relation \<open>web_step\<close> that interleaves the stages
    of all requests with local operations and restarts (\<open>web\<close>) a proof gets one request served.
  \<^item> Example_World, Example_Spaces, Witnesses, Call_Witnesses, Witness_Examples, Storage_Examples,
    Replica_Examples, Replica_Web_Examples: a concrete instance of all parameters, three spaces, a call, a call service, a
    witness, a storage broker and a replica on it, and each property with hypotheses applied there.

  \<^bold>\<open>Conventions.\<close> A record or enum of the source is a record or datatype with the same
  fields and constructors; an operation that mutates returns the new state with its outcome,
  also on the error branches. A Rust \<^verbatim>\<open>u64\<close> is a natural number; additions that the source
  leaves unchecked are bounded by earlier checks, except the key epoch of a call, which wraps.

  \<^bold>\<open>Loops and fuel.\<close> Most loops are structural recursions. \<open>verify_at_depth\<close> ends
  because the depth is bounded (its termination proof uses the distance to the bound),
  \<open>search_work\<close> and \<open>find_storage_work\<close> because the nonce moves towards its limit, and
  \<open>Registry_apply\<close> calls itself once, when a start finds the room open and becomes a join. The
  walks along parent links use one more unit of fuel than there are configurations; \<open>walk_eq\<close>
  shows that this is enough for every authority whose links are consistent, which the
  invariant guarantees. The recursive queries over the mailboxes of a replica (\<open>chain\<close>, \<open>descend\<close>) get as
  much fuel as there are delegations; \<open>mailbox_queries_end\<close> shows that more changes nothing.

  \<^bold>\<open>Not modelled.\<close> The transport of the other services, the clients of storage providers, the local
  store of a device with its synchronisation passes and the user interface; sealing and committing
  snapshots; the local secret of a call delegate; third-party cryptography, which appears only as
  parameters. Of a replica: failures of the disk, migration of old databases, compaction, statistics and
  the real-time channel; all clock readings of one operation on its tables agree. Theorems assume nothing
  of the cryptography and the codecs except where \<open>signing_correct\<close>, \<open>sha256_length\<close>, \<open>base64_correct\<close>,
  \<open>sealing_correct\<close> or a codec (\<open>journal_codec\<close>, \<open>content_codec\<close>, \<open>receipt_codec\<close>, \<open>access_codec\<close>) is stated as
  a hypothesis: they say which signatures were checked, not that signatures cannot be forged.
\<close>

end
